(* ===== verification/Prelude.thy ===== *)
theory Prelude
  imports Main "HOL-Library.Monad_Syntax"
begin

text \<open>
  Shared material of the development: the exceptions of the program as values, the
  result type every fallible operation returns, association lists for Python
  dictionaries, character classes and the matching of the anchored regular expressions
  the program validates names with, and the collections of rules the component
  theories feed to the simplifier.
\<close>

named_theorems py_simps \<open>equations of the Python-level helpers\<close>
named_theorems result_intros \<open>introduction rules for results\<close>

section \<open>Exceptions and results\<close>

text \<open>
  The exception classes that can leave an operation of the program. The classes the
  program defines carry the stable code they are raised with; the built-in ones are the
  ones an operation can leak (\<^verbatim>\<open>TypeError\<close> from hashing a list or
  sorting mixed keys, \<^verbatim>\<open>OverflowError\<close> from a huge integer read as a float).
\<close>

datatype py_exn =
    ProfileValidationError
  | DiscoveryError
  | SafetyError string
  | AuditError
  | AuditIntegrityError
  | ChallengeError
  | AdapterError string
  | ActivationRejected string
  | RuntimeControllerError string
  | EvidenceError
  | RouteValidationError
  | PyTypeError
  | PyOverflowError
  | PyValueError
  | PyKeyError
  | PyIndexError
  | PyAttributeError
  | PyZeroDivisionError
  | PyRuntimeError
  | PyAssertionError
  | PyOSError

type_synonym 'a result = "py_exn + 'a"

abbreviation Raise :: "py_exn \<Rightarrow> 'a result" where "Raise e \<equiv> Inl e"
abbreviation Ret :: "'a \<Rightarrow> 'a result" where "Ret x \<equiv> Inr x"

fun rbind :: "'a result \<Rightarrow> ('a \<Rightarrow> 'b result) \<Rightarrow> 'b result" where
  "rbind (Inl e) f = Inl e"
| "rbind (Inr x) f = f x"

definition guard :: "bool \<Rightarrow> py_exn \<Rightarrow> unit result" where
  "guard b e = (if b then Inr () else Inl e)"

text \<open>\<^verbatim>\<open>guard b e\<close> is the source's \<^verbatim>\<open>if not b: raise e\<close>.\<close>

fun rmap :: "('a \<Rightarrow> 'b result) \<Rightarrow> 'a list \<Rightarrow> 'b list result" where
  "rmap f [] = Inr []"
| "rmap f (x # xs) = rbind (f x) (\<lambda>y. rbind (rmap f xs) (\<lambda>ys. Inr (y # ys)))"

fun is_ret :: "'a result \<Rightarrow> bool" where
  "is_ret (Inl _) = False"
| "is_ret (Inr _) = True"

lemma rbind_Inr_iff [simp]: "rbind r f = Inr y \<longleftrightarrow> (\<exists>x. r = Inr x \<and> f x = Inr y)"
  by (cases r) auto

lemma rbind_Inl_iff: "rbind r f = Inl e \<longleftrightarrow> r = Inl e \<or> (\<exists>x. r = Inr x \<and> f x = Inl e)"
  by (cases r) auto

lemma rbind_assoc: "rbind (rbind r f) g = rbind r (\<lambda>x. rbind (f x) g)"
  by (cases r) auto

lemma guard_Inr [simp]: "guard b e = Inr u \<longleftrightarrow> b"
  by (simp add: guard_def)

lemma guard_Inl [simp]: "guard b e = Inl e' \<longleftrightarrow> \<not> b \<and> e' = e"
  by (auto simp: guard_def)

lemma guard_True [simp]: "guard True e = Inr ()"
  by (simp add: guard_def)

lemma guard_False [simp]: "guard False e = Inl e"
  by (simp add: guard_def)

lemma is_ret_iff: "is_ret r \<longleftrightarrow> (\<exists>x. r = Inr x)"
  by (cases r) auto

lemma rmap_Inr_iff:
  "rmap f xs = Inr ys \<longleftrightarrow> list_all2 (\<lambda>x y. f x = Inr y) xs ys"
  by (induction xs arbitrary: ys) (auto simp: list_all2_Cons1)

lemma rmap_list_all:
  "rmap f xs = Inr ys \<Longrightarrow> (\<And>x y. f x = Inr y \<Longrightarrow> P y) \<Longrightarrow> list_all P ys"
  by (induction xs arbitrary: ys) auto

lemma rmap_length: "rmap f xs = Inr ys \<Longrightarrow> length ys = length xs"
  by (auto simp: rmap_Inr_iff list_all2_lengthD)

lemma rmap_Inl_ex: "rmap f xs = Inl e \<Longrightarrow> \<exists>x \<in> set xs. f x = Inl e"
  by (induction xs) (auto simp: rbind_Inl_iff)

lemma rmap_if:
  "(\<And>x. x \<in> set xs \<Longrightarrow> f x = (if P x then Inr (h x) else Inl e)) \<Longrightarrow>
    rmap f xs = (if list_all P xs then Inr (map h xs) else Inl e)"
  by (induction xs) auto

lemma rmap_map [simp]: "rmap f (map g xs) = rmap (\<lambda>x. f (g x)) xs"
  by (induction xs) auto

text \<open>The exceptions that can leave a result: \<open>errs E r\<close> bounds them by the set \<open>E\<close>.\<close>

definition errs :: "py_exn set \<Rightarrow> 'a result \<Rightarrow> bool" where
  "errs E r = (\<forall>e. r = Inl e \<longrightarrow> e \<in> E)"

lemma errsD: "errs E r \<Longrightarrow> r = Inl e \<Longrightarrow> e \<in> E"
  by (simp add: errs_def)

lemma errs_Inr [simp, result_intros]: "errs E (Inr x)"
  by (simp add: errs_def)

lemma errs_Inl [simp]: "errs E (Inl e) \<longleftrightarrow> e \<in> E"
  by (simp add: errs_def)

lemma errs_guard [result_intros]: "e \<in> E \<Longrightarrow> errs E (guard b e)"
  by (simp add: errs_def)

lemma errs_rbind [result_intros]:
  "errs E r \<Longrightarrow> (\<And>x. r = Inr x \<Longrightarrow> errs E (f x)) \<Longrightarrow> errs E (rbind r f)"
  by (cases r) auto

lemma errs_if [result_intros]:
  "(b \<Longrightarrow> errs E r) \<Longrightarrow> (\<not> b \<Longrightarrow> errs E r') \<Longrightarrow> errs E (if b then r else r')"
  by simp

lemma errs_rmap [result_intros]:
  "(\<And>x. x \<in> set xs \<Longrightarrow> errs E (f x)) \<Longrightarrow> errs E (rmap f xs)"
  by (induction xs) (auto intro!: errs_rbind)

section \<open>Dictionaries as association lists\<close>

text \<open>
  A Python dictionary keeps insertion order, and the program iterates over several of
  them, so a dictionary is an association list. \<open>dget\<close> is \<^verbatim>\<open>d.get(k)\<close>
  and \<open>dset\<close> is \<^verbatim>\<open>d[k] = v\<close>: an existing key keeps its position.
\<close>

fun dget :: "('k \<times> 'v) list \<Rightarrow> 'k \<Rightarrow> 'v option" where
  "dget [] k = None"
| "dget ((k', v) # d) k = (if k' = k then Some v else dget d k)"

fun dset :: "'k \<Rightarrow> 'v \<Rightarrow> ('k \<times> 'v) list \<Rightarrow> ('k \<times> 'v) list" where
  "dset k v [] = [(k, v)]"
| "dset k v ((k', v') # d) = (if k' = k then (k, v) # d else (k', v') # dset k v d)"

definition dkeys :: "('k \<times> 'v) list \<Rightarrow> 'k list" where
  "dkeys d = map fst d"

lemma dget_map_of: "dget d k = map_of d k"
  by (induction d k rule: dget.induct) auto

lemma dget_dset [simp]: "dget (dset k v d) k' = (if k' = k then Some v else dget d k')"
  by (induction k v d rule: dset.induct) auto

lemma dget_Some_mem: "dget d k = Some v \<Longrightarrow> (k, v) \<in> set d"
  by (simp add: dget_map_of map_of_SomeD)

lemma dget_None_iff: "dget d k = None \<longleftrightarrow> k \<notin> set (dkeys d)"
  by (auto simp: dget_map_of map_of_eq_None_iff dkeys_def)

lemma dget_Some_key: "dget d k = Some v \<Longrightarrow> k \<in> set (dkeys d)"
  by (metis dget_None_iff option.distinct(1))

lemma dkeys_dset: "set (dkeys (dset k v d)) = insert k (set (dkeys d))"
  by (induction k v d rule: dset.induct) (auto simp: dkeys_def)

lemma distinct_dset: "distinct (dkeys d) \<Longrightarrow> distinct (dkeys (dset k v d))"
proof (induction k v d rule: dset.induct)
  case (2 k v k' v' d)
  then show ?case
    using dkeys_dset [of k v d] by (auto simp: dkeys_def)
qed (simp add: dkeys_def)

lemma dset_new: "k \<notin> set (dkeys d) \<Longrightarrow> dset k v d = d @ [(k, v)]"
  by (induction k v d rule: dset.induct) (auto simp: dkeys_def)

lemma dget_map_snd: "dget (map (\<lambda>(k, v). (k, f v)) d) k = map_option f (dget d k)"
  by (induction d k rule: dget.induct) auto

lemma dkeys_map_snd [simp]: "dkeys (map (\<lambda>(k, v). (k, f v)) d) = dkeys d"
  by (induction d) (auto simp: dkeys_def)

section \<open>Characters, strings and anchored patterns\<close>

text \<open>
  A string is a list of characters; a character stands for the code point of the same
  number (0 to 255). The patterns of the program are concatenations of one class for the
  first character and one for the others, with bounds on the length.
\<close>

definition in_range :: "char \<Rightarrow> char \<Rightarrow> char \<Rightarrow> bool" where
  "in_range lo hi c = ((of_char lo :: nat) \<le> of_char c \<and> (of_char c :: nat) \<le> of_char hi)"

definition is_lower :: "char \<Rightarrow> bool" where "is_lower = in_range (CHR ''a'') (CHR ''z'')"
definition is_upper :: "char \<Rightarrow> bool" where "is_upper = in_range (CHR ''A'') (CHR ''Z'')"
definition is_digit :: "char \<Rightarrow> bool" where "is_digit = in_range (CHR ''0'') (CHR ''9'')"

text \<open>
  \<open>rx first rest lo hi s\<close>: the whole of \<open>s\<close> is one character of class
  \<open>first\<close> followed by characters of class \<open>rest\<close>, and its length lies between
  \<open>lo\<close> and \<open>hi\<close> (no upper bound where \<open>hi\<close> is \<open>None\<close>).
\<close>

fun rx :: "(char \<Rightarrow> bool) \<Rightarrow> (char \<Rightarrow> bool) \<Rightarrow> nat \<Rightarrow> nat option \<Rightarrow> string \<Rightarrow> bool" where
  "rx first rest lo hi [] = False"
| "rx first rest lo hi (c # cs) =
     (first c \<and> list_all rest cs \<and> lo \<le> Suc (length cs) \<and>
      (case hi of None \<Rightarrow> True | Some h \<Rightarrow> Suc (length cs) \<le> h))"

lemma rx_nonempty: "rx f r lo hi s \<Longrightarrow> s \<noteq> []"
  by (cases s) auto

lemma rx_chars: "rx f r lo hi s \<Longrightarrow> c \<in> set s \<Longrightarrow> f c \<or> r c"
  by (cases s) (auto simp: list_all_iff)

lemma rx_length: "rx f r lo (Some h) s \<Longrightarrow> length s \<le> h"
  by (cases s) auto

text \<open>
  \<^verbatim>\<open>str.strip()\<close> drops the characters for which
  \<^verbatim>\<open>str.isspace()\<close> holds, from both ends.
\<close>

definition py_space :: "char \<Rightarrow> bool" where
  "py_space c = ((of_char c :: nat) \<in> {9, 10, 11, 12, 13, 28, 29, 30, 31, 32, 133, 160})"

definition strip :: "string \<Rightarrow> string" where
  "strip s = rev (dropWhile py_space (rev (dropWhile py_space s)))"

definition rstrip_char :: "char \<Rightarrow> string \<Rightarrow> string" where
  "rstrip_char c s = rev (dropWhile (\<lambda>x. x = c) (rev s))"

definition starts_with :: "string \<Rightarrow> string \<Rightarrow> bool" where
  "starts_with p s = (take (length p) s = p)"

definition ends_with :: "string \<Rightarrow> string \<Rightarrow> bool" where
  "ends_with p s = starts_with (rev p) (rev s)"

definition lower_char :: "char \<Rightarrow> char" where
  "lower_char c =
     (if is_upper c \<or> (of_char c :: nat) \<in> {192..222} - {215} then char_of ((of_char c :: nat) + 32) else c)"

definition lower_str :: "string \<Rightarrow> string" where
  "lower_str s = map lower_char s"

lemma starts_with_append [simp]: "starts_with p (p @ s)"
  by (simp add: starts_with_def)

lemma starts_with_iff: "starts_with p s \<longleftrightarrow> (\<exists>t. s = p @ t)"
  by (auto simp: starts_with_def) (metis append_take_drop_id)

lemma ends_with_iff: "ends_with p s \<longleftrightarrow> (\<exists>t. s = t @ p)"
  by (simp add: ends_with_def starts_with_iff) (metis rev_append rev_rev_ident)

lemma strip_Nil [simp]: "strip [] = []"
  by (simp add: strip_def)

lemma dropWhile_ne_iff: "dropWhile P xs \<noteq> [] \<longleftrightarrow> (\<exists>x \<in> set xs. \<not> P x)"
  by (simp add: dropWhile_eq_Nil_conv)

lemma dropWhile_ex: "(\<exists>x \<in> set (dropWhile P xs). \<not> P x) \<longleftrightarrow> (\<exists>x \<in> set xs. \<not> P x)"
  by (induction xs) auto

lemma strip_nonempty_iff: "strip s \<noteq> [] \<longleftrightarrow> (\<exists>c \<in> set s. \<not> py_space c)"
  unfolding strip_def by (simp only: rev_is_Nil_conv dropWhile_ne_iff set_rev dropWhile_ex)

end
