(* ===== verification/PyFloat.thy ===== *)
theory PyFloat
  imports Prelude Complex_Main
begin

text \<open>
  Python's \<^verbatim>\<open>float\<close>: binary64 numbers with the infinities and NaN. A finite
  float is the rational it denotes, and every operation rounds its exact result to the
  nearest binary64 number, ties to even, with gradual underflow and overflow to infinity.
  The two zeros are one value here. The rounding is an executable function; what the
  components rely on (monotone, idempotent, odd) is the contract \<^verbatim>\<open>rounding\<close>,
  interpreted on it at the end of the section.
\<close>

section \<open>The contract of a rounding\<close>

locale rounding =
  fixes rnd :: "rat \<Rightarrow> rat"
  assumes rnd_mono: "x \<le> y \<Longrightarrow> rnd x \<le> rnd y"
    and rnd_idem: "rnd (rnd x) = rnd x"
    and rnd_neg: "rnd (- x) = - rnd x"
begin

lemma rnd_zero: "rnd 0 = 0"
proof -
  have "rnd (- 0) = - rnd 0" by (rule rnd_neg)
  then show ?thesis by simp
qed

lemma rnd_nonneg: "0 \<le> x \<Longrightarrow> 0 \<le> rnd x"
  using rnd_mono [of 0 x] rnd_zero by simp

lemma rnd_nonpos: "x \<le> 0 \<Longrightarrow> rnd x \<le> 0"
  using rnd_mono [of x 0] rnd_zero by simp

text \<open>A representable bound survives rounding, from either side.\<close>

lemma rnd_le: "rnd b = b \<Longrightarrow> x \<le> b \<Longrightarrow> rnd x \<le> b"
  using rnd_mono [of x b] by simp

lemma rnd_ge: "rnd b = b \<Longrightarrow> b \<le> x \<Longrightarrow> b \<le> rnd x"
  using rnd_mono [of b x] by simp

lemma rnd_abs: "rnd \<bar>x\<bar> = \<bar>rnd x\<bar>"
proof (cases "0 \<le> x")
  case True
  with rnd_nonneg [OF True] show ?thesis by simp
next
  case False
  then have "rnd x \<le> 0" by (simp add: rnd_nonpos)
  with False show ?thesis by (simp add: rnd_neg)
qed

text \<open>Adding a non-negative amount to a representable number never falls below it.\<close>

lemma rnd_add_ge: "rnd a = a \<Longrightarrow> 0 \<le> b \<Longrightarrow> a \<le> rnd (a + b)"
  by (rule rnd_ge) auto

end

section \<open>Rounding to binary64\<close>

definition p2 :: "int \<Rightarrow> rat" where
  "p2 n = 2 powi n"

lemma p2_pos [simp]: "0 < p2 n"
  by (simp add: p2_def)

lemma p2_nonzero [simp]: "p2 n \<noteq> 0"
  using p2_pos [of n] by linarith

lemma p2_0 [simp]: "p2 0 = 1"
  by (simp add: p2_def)

lemma p2_add: "p2 (m + n) = p2 m * p2 n"
  by (simp add: p2_def power_int_add)

lemma p2_1 [simp]: "p2 1 = 2"
  by (simp add: p2_def)

lemma p2_Suc: "p2 (n + 1) = 2 * p2 n"
  by (simp add: p2_add)

lemma p2_nonneg [simp]: "0 \<le> p2 n"
  by (simp add: less_imp_le)

lemma p2_not_neg [simp]: "\<not> p2 n < 0"
  by (simp add: not_less)

lemma p2_diff: "p2 (m - n) = p2 m / p2 n"
  by (simp add: p2_def power_int_diff)

lemma p2_nat: "0 \<le> n \<Longrightarrow> p2 n = of_int (2 ^ nat n)"
  by (simp add: p2_def power_int_nonneg_exp)

lemma p2_mono: "m \<le> n \<Longrightarrow> p2 m \<le> p2 n"
  by (simp add: p2_def power_int_increasing)

lemma p2_strict: "m < n \<Longrightarrow> p2 m < p2 n"
  by (simp add: p2_def power_int_strict_increasing)

lemma p2_less_imp: "p2 m < p2 n \<Longrightarrow> m < n"
  using p2_mono [of n m] by (cases "m < n") auto

text \<open>The binary exponent of a positive rational: \<open>p2 (ilog2 x) \<le> x < p2 (ilog2 x + 1)\<close>.\<close>

function ilog2 :: "rat \<Rightarrow> int" where
  "ilog2 x = (if x \<le> 0 then 0 else if 2 \<le> x then ilog2 (x / 2) + 1
              else if x < 1 then ilog2 (2 * x) - 1 else 0)"
  by pat_completeness auto
termination
proof (relation "measure (\<lambda>x. if 1 \<le> x then nat \<lfloor>x\<rfloor> else nat \<lfloor>2 / x\<rfloor> + 2)")
  show "wf (measure (\<lambda>x :: rat. if 1 \<le> x then nat \<lfloor>x\<rfloor> else nat \<lfloor>2 / x\<rfloor> + 2))" by simp
next
  fix x :: rat
  assume "\<not> x \<le> 0" and x: "2 \<le> x"
  then have "1 \<le> x / 2" by simp
  moreover have "\<lfloor>x / 2\<rfloor> < \<lfloor>x\<rfloor>"
  proof -
    have "\<lfloor>x / 2\<rfloor> \<le> \<lfloor>x - 1\<rfloor>" using x by (intro floor_mono) simp
    then show ?thesis by simp
  qed
  moreover have "0 \<le> \<lfloor>x / 2\<rfloor>" using x by simp
  ultimately show "(x / 2, x) \<in> measure (\<lambda>x. if 1 \<le> x then nat \<lfloor>x\<rfloor> else nat \<lfloor>2 / x\<rfloor> + 2)"
    using x by auto
next
  fix x :: rat
  assume pos: "\<not> x \<le> 0" and "\<not> 2 \<le> x" and lt: "x < 1"
  show "(2 * x, x) \<in> measure (\<lambda>x. if 1 \<le> x then nat \<lfloor>x\<rfloor> else nat \<lfloor>2 / x\<rfloor> + 2)"
  proof (cases "1 \<le> 2 * x")
    case True
    with lt have "\<lfloor>2 * x\<rfloor> < 2" by (simp add: floor_less_iff)
    then have "nat \<lfloor>2 * x\<rfloor> < nat \<lfloor>2 / x\<rfloor> + 2" by linarith
    with True lt show ?thesis by auto
  next
    case False
    have "2 / (2 * x) = 1 / x" by simp
    moreover have "\<lfloor>1 / x\<rfloor> < \<lfloor>2 / x\<rfloor>"
    proof -
      have "1 \<le> 1 / x" using pos lt by (simp add: le_divide_eq)
      then have "1 / x \<le> 2 / x - 1" using pos by (simp add: field_simps)
      then have "\<lfloor>1 / x\<rfloor> \<le> \<lfloor>2 / x - 1\<rfloor>" by (rule floor_mono)
      then show ?thesis by simp
    qed
    moreover have "0 \<le> \<lfloor>1 / x\<rfloor>" using pos by simp
    moreover have "\<not> 1 \<le> x" using lt by simp
    ultimately show ?thesis using False pos by (simp add: nat_less_eq_zless)
  qed
qed

declare ilog2.simps [simp del]

lemma ilog2_bounds:
  "0 < x \<Longrightarrow> p2 (ilog2 x) \<le> x \<and> x < p2 (ilog2 x + 1)"
proof (induction x rule: ilog2.induct)
  case (1 x)
  consider "2 \<le> x" | "x < 1" | "1 \<le> x" "x < 2" by linarith
  then show ?case
  proof cases
    case 1
    then have "p2 (ilog2 (x / 2)) \<le> x / 2" "x / 2 < p2 (ilog2 (x / 2) + 1)"
      using "1.IH"(1) by auto
    moreover have "ilog2 x = ilog2 (x / 2) + 1" using 1 by (subst ilog2.simps) auto
    ultimately show ?thesis
      using p2_Suc [of "ilog2 (x / 2)"] p2_Suc [of "ilog2 (x / 2) + 1"] by simp
  next
    case 2
    then have "p2 (ilog2 (2 * x)) \<le> 2 * x" "2 * x < p2 (ilog2 (2 * x) + 1)"
      using "1.IH"(2) "1.prems" by auto
    moreover have "ilog2 (2 * x) = ilog2 x + 1"
      using 2 "1.prems" by (subst (2) ilog2.simps) auto
    ultimately show ?thesis
      using p2_Suc [of "ilog2 x"] p2_Suc [of "ilog2 x + 1"] by simp
  next
    case 3
    then have "ilog2 x = 0" by (subst ilog2.simps) auto
    with 3 show ?thesis by simp
  qed
qed

lemmas ilog2_lower = ilog2_bounds [THEN conjunct1]
  and ilog2_upper = ilog2_bounds [THEN conjunct2]

lemma ilog2_le: "0 < x \<Longrightarrow> x < p2 (n + 1) \<Longrightarrow> ilog2 x \<le> n"
  using ilog2_lower [of x] p2_less_imp [of "ilog2 x" "n + 1"] by linarith

lemma ilog2_mono: "0 < x \<Longrightarrow> x \<le> y \<Longrightarrow> ilog2 x \<le> ilog2 y"
  using ilog2_upper [of y] by (intro ilog2_le) auto

lemma ilog2_p2: "ilog2 (p2 n) = n"
proof -
  have "p2 (ilog2 (p2 n)) \<le> p2 n" "p2 n < p2 (ilog2 (p2 n) + 1)"
    using ilog2_bounds [of "p2 n"] by auto
  then show ?thesis
    using p2_strict [of n "ilog2 (p2 n)"] p2_less_imp [of n "ilog2 (p2 n) + 1"]
    by (cases "n < ilog2 (p2 n)") auto
qed

text \<open>Round half to even on the integers.\<close>

definition rhe :: "rat \<Rightarrow> int" where
  "rhe y = (let f = \<lfloor>y\<rfloor>; d = y - of_int f in
     if d < 1 / 2 then f else if 1 / 2 < d then f + 1 else if even f then f else f + 1)"

lemma rhe_of_int [simp]: "rhe (of_int n) = n"
  by (simp add: rhe_def Let_def)

lemma rhe_floor: "\<lfloor>y\<rfloor> \<le> rhe y" "rhe y \<le> \<lfloor>y\<rfloor> + 1"
  by (auto simp: rhe_def Let_def)

lemma rhe_mono:
  assumes "x \<le> y" shows "rhe x \<le> rhe y"
proof (cases "\<lfloor>x\<rfloor> = \<lfloor>y\<rfloor>")
  case True
  with assms show ?thesis by (auto simp: rhe_def Let_def)
next
  case False
  with assms have "\<lfloor>x\<rfloor> + 1 \<le> \<lfloor>y\<rfloor>" using floor_mono [OF assms] by simp
  with rhe_floor(2) [of x] rhe_floor(1) [of y] show ?thesis by linarith
qed

text \<open>
  The unit in the last place of a positive number: 53 significant bits, and never finer
  than \<open>2 powi -1074\<close>.
\<close>

definition ulp_exp :: "rat \<Rightarrow> int" where
  "ulp_exp x = max (-1074) (ilog2 x - 52)"

definition rnd_pos :: "rat \<Rightarrow> rat" where
  "rnd_pos x = of_int (rhe (x / p2 (ulp_exp x))) * p2 (ulp_exp x)"

definition rnd64 :: "rat \<Rightarrow> rat" where
  "rnd64 x = (if x = 0 then 0 else if 0 < x then rnd_pos x else - rnd_pos (- x))"

lemma rnd_pos_nonneg: "0 < x \<Longrightarrow> 0 \<le> rnd_pos x"
proof -
  assume "0 < x"
  then have "0 \<le> \<lfloor>x / p2 (ulp_exp x)\<rfloor>" by simp
  then have "0 \<le> rhe (x / p2 (ulp_exp x))" using rhe_floor(1) order_trans by blast
  then show ?thesis by (simp add: rnd_pos_def less_imp_le)
qed

lemma rnd_pos_upper:
  assumes "0 < x" shows "rnd_pos x \<le> p2 (ulp_exp x + 53)"
proof -
  have "x < p2 (ilog2 x + 1)" using assms by (rule ilog2_upper)
  also have "\<dots> \<le> p2 (ulp_exp x + 53)" by (rule p2_mono) (simp add: ulp_exp_def)
  finally have "x / p2 (ulp_exp x) \<le> of_int (2 ^ 53)"
    by (simp add: p2_add divide_le_eq p2_nat [of 53])
  from rhe_mono [OF this] have "rhe (x / p2 (ulp_exp x)) \<le> 2 ^ 53"
    by (simp only: rhe_of_int)
  then have "of_int (rhe (x / p2 (ulp_exp x))) \<le> (of_int (2 ^ 53) :: rat)"
    by (simp only: of_int_le_iff)
  then show ?thesis
    by (simp add: rnd_pos_def p2_add p2_nat [of 53] mult_right_mono less_imp_le)
qed

lemma rnd_pos_lower:
  assumes "0 < x" "-1074 < ulp_exp x" shows "p2 (ulp_exp x + 52) \<le> rnd_pos x"
proof -
  have "p2 (ulp_exp x + 52) = p2 (ilog2 x)" using assms(2) by (simp add: ulp_exp_def max_def split: if_splits)
  also have "\<dots> \<le> x" using assms(1) by (rule ilog2_lower)
  finally have "of_int (2 ^ 52) \<le> x / p2 (ulp_exp x)"
    by (simp add: p2_add le_divide_eq p2_nat [of 52])
  from rhe_mono [OF this] have "2 ^ 52 \<le> rhe (x / p2 (ulp_exp x))"
    by (simp only: rhe_of_int)
  then have "of_int (2 ^ 52) \<le> (of_int (rhe (x / p2 (ulp_exp x))) :: rat)"
    by (simp only: of_int_le_iff)
  then show ?thesis
    by (simp add: rnd_pos_def p2_add p2_nat [of 52] mult_right_mono less_imp_le)
qed

lemma rnd_pos_mono:
  assumes "0 < x" "x \<le> y" shows "rnd_pos x \<le> rnd_pos y"
proof (cases "ulp_exp x = ulp_exp y")
  case True
  have "rhe (x / p2 (ulp_exp y)) \<le> rhe (y / p2 (ulp_exp y))"
    using assms by (intro rhe_mono divide_right_mono) (auto simp: less_imp_le)
  then show ?thesis by (simp add: rnd_pos_def True mult_right_mono less_imp_le)
next
  case False
  have "ulp_exp x \<le> ulp_exp y" using ilog2_mono [OF assms] by (auto simp: ulp_exp_def)
  with False have lt: "ulp_exp x + 1 \<le> ulp_exp y" by simp
  then have "-1074 < ulp_exp y" by (simp add: ulp_exp_def)
  have "rnd_pos x \<le> p2 (ulp_exp x + 53)" using assms(1) by (rule rnd_pos_upper)
  also have "\<dots> \<le> p2 (ulp_exp y + 52)" using lt by (intro p2_mono) simp
  also have "\<dots> \<le> rnd_pos y"
    using assms \<open>-1074 < ulp_exp y\<close> by (intro rnd_pos_lower) auto
  finally show ?thesis .
qed

text \<open>A multiple of a permitted unit with at most 53 significant bits is not changed.\<close>

lemma rnd_pos_exact:
  assumes "0 < m" "m < 2 ^ 53" "-1074 \<le> e"
  shows "rnd_pos (of_int m * p2 e) = of_int m * p2 e"
proof -
  let ?x = "of_int m * p2 e"
  have m: "of_int m < p2 53"
  proof -
    have "of_int m < (of_int (2 ^ 53) :: rat)" using assms(2) by (simp only: of_int_less_iff)
    then show ?thesis by (simp add: p2_nat [of 53])
  qed
  have pos: "0 < ?x" using assms(1) by simp
  have "?x < p2 (52 + e + 1)" using m by (simp add: p2_add)
  then have "ilog2 ?x \<le> 52 + e" using pos by (intro ilog2_le)
  then have ue: "ulp_exp ?x \<le> e" using assms(3) by (simp add: ulp_exp_def)
  have "?x / p2 (ulp_exp ?x) = of_int (m * 2 ^ nat (e - ulp_exp ?x))"
    unfolding times_divide_eq_right [symmetric] p2_diff [symmetric] of_int_mult
    using ue p2_nat [of "e - ulp_exp ?x"] by simp
  then show ?thesis by (simp only: rnd_pos_def rhe_of_int) (auto simp add: field_simps)
qed

lemma rnd_pos_p2: "-1074 \<le> e \<Longrightarrow> rnd_pos (p2 e) = p2 e"
  using rnd_pos_exact [of 1 e] by simp

lemma rnd_pos_idem:
  assumes "0 < x" "0 < rnd_pos x" shows "rnd_pos (rnd_pos x) = rnd_pos x"
proof -
  let ?e = "ulp_exp x" and ?m = "rhe (x / p2 (ulp_exp x))"
  have e: "-1074 \<le> ?e" by (simp add: ulp_exp_def)
  have eq: "rnd_pos x = of_int ?m * p2 ?e" by (simp add: rnd_pos_def)
  have "of_int ?m * p2 ?e \<le> of_int (2 ^ 53) * p2 ?e"
    using rnd_pos_upper [OF assms(1)] by (simp add: eq p2_add p2_nat [of 53])
  then have le: "?m \<le> 2 ^ 53" by (simp only: mult_le_cancel_right_pos [OF p2_pos] of_int_le_iff)
  have pos: "0 < ?m" using assms(2) by (simp add: eq zero_less_mult_iff)
  show ?thesis
  proof (cases "?m = 2 ^ 53")
    case True
    then have "rnd_pos x = p2 (?e + 53)" by (simp add: eq p2_add p2_nat [of 53])
    with e rnd_pos_p2 [of "?e + 53"] show ?thesis by simp
  next
    case False
    with le have "?m < 2 ^ 53" by simp
    with pos e show ?thesis unfolding eq by (intro rnd_pos_exact)
  qed
qed

interpretation b64: rounding rnd64
proof
  show neg: "rnd64 (- x) = - rnd64 x" for x by (simp add: rnd64_def)
  show "rnd64 (rnd64 x) = rnd64 x" for x
    using rnd_pos_nonneg [of x] rnd_pos_nonneg [of "- x"] rnd_pos_idem [of x] rnd_pos_idem [of "- x"]
    by (auto simp: rnd64_def)
  show "rnd64 x \<le> rnd64 y" if "x \<le> y" for x y
  proof -
    consider "0 < x" | "x \<le> 0" "0 \<le> y" | "y < 0" using that by linarith
    then show ?thesis
    proof cases
      case 1
      with that show ?thesis by (simp add: rnd64_def rnd_pos_mono)
    next
      case 2
      then show ?thesis
        using rnd_pos_nonneg [of y] rnd_pos_nonneg [of "- x"] by (auto simp: rnd64_def)
    next
      case 3
      with that rnd_pos_mono [of "- y" "- x"] show ?thesis by (simp add: rnd64_def)
    qed
  qed
qed

section \<open>Floats and their operations\<close>

datatype pyfloat = Fin rat | PInf | NInf | NaN

text \<open>The float nearest to an exact result.\<close>

definition mk_float :: "rat \<Rightarrow> pyfloat" where
  "mk_float r = (let q = rnd64 r in
     if p2 1024 \<le> q then PInf else if q \<le> - p2 1024 then NInf else Fin q)"

fun is_fin :: "pyfloat \<Rightarrow> bool" where
  "is_fin (Fin _) = True"
| "is_fin _ = False"

text \<open>A finite float denotes a binary64 number: the type invariant of the values below.\<close>

fun float_ok :: "pyfloat \<Rightarrow> bool" where
  "float_ok (Fin r) = (rnd64 r = r \<and> \<bar>r\<bar> < p2 1024)"
| "float_ok _ = True"

fun fneg :: "pyfloat \<Rightarrow> pyfloat" where
  "fneg (Fin a) = Fin (- a)"
| "fneg PInf = NInf"
| "fneg NInf = PInf"
| "fneg NaN = NaN"

fun fabs :: "pyfloat \<Rightarrow> pyfloat" where
  "fabs (Fin a) = Fin \<bar>a\<bar>"
| "fabs NaN = NaN"
| "fabs _ = PInf"

fun fadd :: "pyfloat \<Rightarrow> pyfloat \<Rightarrow> pyfloat" where
  "fadd (Fin a) (Fin b) = mk_float (a + b)"
| "fadd NaN _ = NaN"
| "fadd _ NaN = NaN"
| "fadd PInf NInf = NaN"
| "fadd NInf PInf = NaN"
| "fadd PInf _ = PInf"
| "fadd NInf _ = NInf"
| "fadd _ PInf = PInf"
| "fadd _ NInf = NInf"

definition fsub :: "pyfloat \<Rightarrow> pyfloat \<Rightarrow> pyfloat" where
  "fsub a b = fadd a (fneg b)"

fun fsign :: "pyfloat \<Rightarrow> int" where
  "fsign (Fin a) = (if 0 < a then 1 else if a < 0 then -1 else 0)"
| "fsign PInf = 1"
| "fsign NInf = -1"
| "fsign NaN = 0"

definition finf :: "int \<Rightarrow> pyfloat" where
  "finf s = (if 0 < s then PInf else if s < 0 then NInf else NaN)"

fun fmul :: "pyfloat \<Rightarrow> pyfloat \<Rightarrow> pyfloat" where
  "fmul (Fin a) (Fin b) = mk_float (a * b)"
| "fmul NaN _ = NaN"
| "fmul _ NaN = NaN"
| "fmul a b = finf (fsign a * fsign b)"

text \<open>\<^verbatim>\<open>a / b\<close> raises \<^verbatim>\<open>ZeroDivisionError\<close> for a zero divisor.\<close>

fun fdiv :: "pyfloat \<Rightarrow> pyfloat \<Rightarrow> pyfloat result" where
  "fdiv a (Fin b) = (if b = 0 then Raise PyZeroDivisionError else
     (case a of Fin a' \<Rightarrow> Ret (mk_float (a' / b)) | NaN \<Rightarrow> Ret NaN
      | _ \<Rightarrow> Ret (finf (fsign a * fsign (Fin b)))))"
| "fdiv a NaN = Ret NaN"
| "fdiv a b = (if is_fin a then Ret (Fin 0) else Ret NaN)"

text \<open>Comparisons are false on NaN.\<close>

fun flt :: "pyfloat \<Rightarrow> pyfloat \<Rightarrow> bool" where
  "flt NaN _ = False"
| "flt _ NaN = False"
| "flt (Fin a) (Fin b) = (a < b)"
| "flt PInf _ = False"
| "flt _ PInf = True"
| "flt _ NInf = False"
| "flt NInf _ = True"

fun fle :: "pyfloat \<Rightarrow> pyfloat \<Rightarrow> bool" where
  "fle NaN _ = False"
| "fle _ NaN = False"
| "fle (Fin a) (Fin b) = (a \<le> b)"
| "fle _ PInf = True"
| "fle PInf _ = False"
| "fle NInf _ = True"
| "fle _ NInf = False"

text \<open>
  \<^verbatim>\<open>max(a, b)\<close> and \<^verbatim>\<open>min(a, b)\<close> keep the first argument unless the
  second one is strictly larger (smaller), which decides what they do with NaN.
\<close>

definition fmax :: "pyfloat \<Rightarrow> pyfloat \<Rightarrow> pyfloat" where
  "fmax a b = (if flt a b then b else a)"

definition fmin :: "pyfloat \<Rightarrow> pyfloat \<Rightarrow> pyfloat" where
  "fmin a b = (if flt b a then b else a)"

text \<open>\<^verbatim>\<open>a % m\<close> for a positive modulus: the exact remainder, shifted by one
  (rounded) modulus where it is negative.\<close>

fun fmod_pos :: "pyfloat \<Rightarrow> rat \<Rightarrow> pyfloat" where
  "fmod_pos (Fin a) m =
     (let q = a / m; t = (if 0 \<le> q then \<lfloor>q\<rfloor> else - \<lfloor>- q\<rfloor>); r = a - m * of_int t
      in if r < 0 then mk_float (r + m) else Fin r)"
| "fmod_pos _ m = NaN"

text \<open>\<^verbatim>\<open>float(n)\<close> of an integer.\<close>

definition float_of_int :: "int \<Rightarrow> pyfloat result" where
  "float_of_int n =
     (case mk_float (of_int n) of Fin q \<Rightarrow> Ret (Fin q) | _ \<Rightarrow> Raise PyOverflowError)"

lemma mk_float_cases: "mk_float r = Fin (rnd64 r) \<or> mk_float r = PInf \<or> mk_float r = NInf"
  by (simp add: mk_float_def Let_def)

lemma mk_float_not_NaN [simp]: "mk_float r \<noteq> NaN" "NaN \<noteq> mk_float r"
  using mk_float_cases [of r] by auto

lemma mk_float_ok: "float_ok (mk_float r)"
  by (auto simp: mk_float_def Let_def b64.rnd_idem abs_less_iff)

lemma mk_float_id: "float_ok (Fin r) \<Longrightarrow> mk_float r = Fin r"
  by (auto simp: mk_float_def Let_def abs_less_iff)

text \<open>Evaluation of closed float terms.\<close>

lemmas float_eval = mk_float_def rnd64_def rnd_pos_def ulp_exp_def ilog2.simps rhe_def p2_def Let_def

lemma floor_numeral_div [simp]:
  "\<lfloor>numeral a / numeral b :: rat\<rfloor> = numeral a div numeral b"
  "\<lfloor>1 / numeral b :: rat\<rfloor> = 1 div numeral b"
  "\<lfloor>- (numeral a / numeral b) :: rat\<rfloor> = - numeral a div numeral b"
  using floor_divide_of_int_eq [of "numeral a" "numeral b", where ?'a = rat]
    floor_divide_of_int_eq [of 1 "numeral b", where ?'a = rat]
    floor_divide_of_int_eq [of "- numeral a" "numeral b", where ?'a = rat]
  by simp_all

lemma mk_float_overflow: "p2 1024 \<le> r \<Longrightarrow> mk_float r = PInf"
proof -
  assume r: "p2 1024 \<le> r"
  have "rnd64 (p2 1024) = p2 1024" by (simp add: rnd64_def rnd_pos_p2)
  then have "p2 1024 \<le> rnd64 r" using r by (rule b64.rnd_ge)
  then show ?thesis by (simp add: mk_float_def Let_def)
qed

lemma float_of_int_overflow: "2 ^ 1024 \<le> n \<Longrightarrow> float_of_int n = Raise PyOverflowError"
proof -
  assume "2 ^ 1024 \<le> n"
  then have "of_int (2 ^ 1024) \<le> (of_int n :: rat)" by (simp only: of_int_le_iff)
  then have "p2 1024 \<le> of_int n" by (simp add: p2_nat [of 1024])
  then show ?thesis by (simp add: float_of_int_def mk_float_overflow)
qed

lemma rnd64_exact:
  assumes "\<bar>m\<bar> < 2 ^ 53" "-1074 \<le> e"
  shows "rnd64 (of_int m * p2 e) = of_int m * p2 e"
proof -
  have "m < 0 \<Longrightarrow> rnd_pos (of_int (- m) * p2 e) = of_int (- m) * p2 e"
    using assms by (intro rnd_pos_exact) auto
  moreover have "0 < m \<Longrightarrow> rnd_pos (of_int m * p2 e) = of_int m * p2 e"
    using assms by (intro rnd_pos_exact) auto
  ultimately show ?thesis by (auto simp: rnd64_def zero_less_mult_iff mult_less_0_iff)
qed

lemma mk_float_int: "\<bar>n\<bar> < 2 ^ 53 \<Longrightarrow> mk_float (of_int n) = Fin (of_int n)"
proof (rule mk_float_id)
  assume a: "\<bar>n\<bar> < 2 ^ 53"
  then have "\<bar>of_int n\<bar> < (of_int (2 ^ 53) :: rat)" by (simp only: of_int_less_iff flip: of_int_abs)
  then have "\<bar>of_int n\<bar> < p2 53" by (simp add: p2_nat [of 53])
  also have "\<dots> < p2 1024" by (rule p2_strict) simp
  finally show "float_ok (Fin (of_int n))" using rnd64_exact [OF a, of 0] by simp
qed

lemma mk_float_numeral [simp]:
  "(numeral n :: int) < 2 ^ 53 \<Longrightarrow> mk_float (numeral n) = Fin (numeral n)"
  "(numeral n :: int) < 2 ^ 53 \<Longrightarrow> mk_float (- numeral n) = Fin (- numeral n)"
  "mk_float 0 = Fin 0" "mk_float 1 = Fin 1" "mk_float (- 1) = Fin (- 1)"
  using mk_float_int [of "numeral n"] mk_float_int [of "- numeral n"] mk_float_int [of 0]
    mk_float_int [of 1] mk_float_int [of "-1"] by auto

lemma float_of_int_small: "\<bar>n\<bar> < 2 ^ 53 \<Longrightarrow> float_of_int n = Ret (Fin (of_int n))"
  by (simp add: float_of_int_def mk_float_int)

lemma float_of_int_ok: "float_of_int n = Ret x \<Longrightarrow> float_ok x \<and> is_fin x"
  using mk_float_ok [of "of_int n"] by (cases "mk_float (of_int n)") (auto simp: float_of_int_def)

lemma fadd_ok: "float_ok (fadd a b)"
  by (cases "(a, b)" rule: fadd.cases) (auto simp: mk_float_ok)

lemma fle_refl: "a \<noteq> NaN \<Longrightarrow> fle a a"
  by (cases a) auto

lemma fle_trans: "fle a b \<Longrightarrow> fle b c \<Longrightarrow> fle a c"
  by (cases a; cases b; cases c) auto

lemma flt_le: "flt a b \<Longrightarrow> fle a b"
  by (cases a; cases b) auto

lemma not_flt: "a \<noteq> NaN \<Longrightarrow> b \<noteq> NaN \<Longrightarrow> \<not> flt a b \<longleftrightarrow> fle b a"
  by (cases a; cases b) auto

lemma flt_not_fle: "flt a b \<Longrightarrow> \<not> fle b a"
  by (cases a; cases b) auto

lemma fle_not_flt: "fle a b \<Longrightarrow> \<not> flt b a"
  by (cases a; cases b) auto

lemma flt_NaN [simp]: "\<not> flt a NaN" "\<not> fle a NaN" "\<not> flt NaN a" "\<not> fle NaN a"
  by (cases a; simp)+

lemma mk_float_mono: "a \<le> b \<Longrightarrow> fle (mk_float a) (mk_float b)"
  using b64.rnd_mono [of a b] p2_pos [of 1024]
  by (auto simp: mk_float_def Let_def)

text \<open>Adding a non-negative float to a float never yields a smaller one.\<close>

lemma fadd_ge:
  assumes "float_ok (Fin a)" "0 \<le> b" shows "fle (Fin a) (fadd (Fin a) (Fin b))"
  using mk_float_mono [of a "a + b"] mk_float_id [OF assms(1)] assms(2) by simp

text \<open>
  The clamp \<^verbatim>\<open>max(-m, min(m, v))\<close> stays within \<open>[-m, m]\<close> for every \<open>v\<close>,
  NaN included.
\<close>

definition fclamp :: "pyfloat \<Rightarrow> pyfloat \<Rightarrow> pyfloat" where
  "fclamp m v = fmax (fneg m) (fmin m v)"

lemma fclamp_bounds:
  assumes "0 \<le> m" shows "\<exists>c. fclamp (Fin m) v = Fin c \<and> \<bar>c\<bar> \<le> m"
  using assms by (cases v) (auto simp: fclamp_def fmax_def fmin_def)

lemma fclamp_inside: "\<bar>v\<bar> \<le> m \<Longrightarrow> fclamp (Fin m) (Fin v) = Fin v"
  by (auto simp: fclamp_def fmax_def fmin_def abs_le_iff)

section \<open>The C library behind the math module\<close>

text \<open>
  \<^verbatim>\<open>math.hypot\<close>, \<^verbatim>\<open>math.atan2\<close>, \<^verbatim>\<open>math.sin\<close> and
  \<^verbatim>\<open>math.cos\<close> are computed by the platform's C library, whose last digit is not
  fixed: they are a parameter. \<open>libm_ok\<close> is what its documentation says of special
  values and ranges.
\<close>

record libm =
  lm_hypot :: "pyfloat \<Rightarrow> pyfloat \<Rightarrow> pyfloat"
  lm_atan2 :: "pyfloat \<Rightarrow> pyfloat \<Rightarrow> pyfloat"
  lm_sin :: "pyfloat \<Rightarrow> pyfloat"
  lm_cos :: "pyfloat \<Rightarrow> pyfloat"

definition libm_nan :: "libm \<Rightarrow> bool" where
  "libm_nan lm \<longleftrightarrow>
     (\<forall>y. y \<noteq> PInf \<and> y \<noteq> NInf \<longrightarrow> lm_hypot lm NaN y = NaN \<and> lm_hypot lm y NaN = NaN) \<and>
     lm_sin lm NaN = NaN \<and> lm_cos lm NaN = NaN"

definition py_sin :: "libm \<Rightarrow> pyfloat \<Rightarrow> pyfloat result" where
  "py_sin lm x = (if x = PInf \<or> x = NInf then Raise PyValueError else Ret (lm_sin lm x))"

definition py_cos :: "libm \<Rightarrow> pyfloat \<Rightarrow> pyfloat result" where
  "py_cos lm x = (if x = PInf \<or> x = NInf then Raise PyValueError else Ret (lm_cos lm x))"

text \<open>\<^verbatim>\<open>math.pi\<close>.\<close>

definition py_pi :: rat where
  "py_pi = 884279719003555 / 281474976710656"

text \<open>\<^verbatim>\<open>math.isclose(a, b)\<close> with its default relative tolerance.\<close>

definition rel_tol :: pyfloat where
  "rel_tol = mk_float (1 / 1000000000)"

fun py_isclose :: "pyfloat \<Rightarrow> pyfloat \<Rightarrow> bool" where
  "py_isclose (Fin a) (Fin b) =
     (a = b \<or> (let d = fabs (fsub (Fin b) (Fin a)) in
       fle d (fabs (fmul rel_tol (Fin b))) \<or> fle d (fabs (fmul rel_tol (Fin a)))))"
| "py_isclose a b = (a = b \<and> a \<noteq> NaN)"

end
