(* ===== verification/PyValue.thy ===== *)
theory PyValue
  imports PyFloat
begin

text \<open>
  Dynamically typed Python values, as JSON and YAML documents decode to them, with the
  \<^verbatim>\<open>isinstance\<close> tests, the hashing and the numeric conversions the program
  applies to untrusted input. The further scalars of YAML (dates, byte strings) are not
  among them.
\<close>

datatype pyval =
    VNone
  | VBool bool
  | VInt int
  | VFloat pyfloat
  | VStr string
  | VList "pyval list"
  | VDict "(pyval \<times> pyval) list"

type_synonym pydict = "(pyval \<times> pyval) list"

fun is_str :: "pyval \<Rightarrow> bool" where
  "is_str (VStr _) = True"
| "is_str _ = False"

fun is_bool :: "pyval \<Rightarrow> bool" where
  "is_bool (VBool _) = True"
| "is_bool _ = False"

fun is_list :: "pyval \<Rightarrow> bool" where
  "is_list (VList _) = True"
| "is_list _ = False"

fun hashable :: "pyval \<Rightarrow> bool" where
  "hashable (VList _) = False"
| "hashable (VDict _) = False"
| "hashable _ = True"

text \<open>\<^verbatim>\<open>isinstance(v, (int, float)) and not isinstance(v, bool)\<close>.\<close>

fun is_number :: "pyval \<Rightarrow> bool" where
  "is_number (VInt _) = True"
| "is_number (VFloat _) = True"
| "is_number _ = False"

text \<open>\<^verbatim>\<open>float(v)\<close> and \<^verbatim>\<open>math.isfinite(v)\<close> of a number.\<close>

fun py_float :: "pyval \<Rightarrow> pyfloat result" where
  "py_float (VInt n) = float_of_int n"
| "py_float (VFloat x) = Ret x"
| "py_float _ = Raise PyTypeError"

definition py_isfinite :: "pyval \<Rightarrow> bool result" where
  "py_isfinite v = rbind (py_float v) (\<lambda>x. Ret (is_fin x))"

text \<open>
  \<^verbatim>\<open>v in s\<close> for a set of strings: hashing a list or a dictionary raises
  \<^verbatim>\<open>TypeError\<close>.
\<close>

definition in_strs :: "pyval \<Rightarrow> string list \<Rightarrow> bool result" where
  "in_strs v ss = (if hashable v then Ret (v \<in> VStr ` set ss) else Raise PyTypeError)"

text \<open>
  \<^verbatim>\<open>sorted(vs)[0]\<close> on the elements of a non-empty set of keys: comparing a string
  with anything but a string raises \<^verbatim>\<open>TypeError\<close>. The least element itself only
  appears in a message, which is not modelled; what matters is whether sorting raises.
\<close>

fun sort_class :: "pyval \<Rightarrow> nat" where
  "sort_class (VStr _) = 0"
| "sort_class (VInt _) = 1"
| "sort_class (VFloat _) = 1"
| "sort_class (VBool _) = 1"
| "sort_class VNone = 2"
| "sort_class (VList _) = 3"
| "sort_class (VDict _) = 4"

fun sortable :: "pyval list \<Rightarrow> bool" where
  "sortable [] = True"
| "sortable [v] = True"
| "sortable (v # vs) =
     (sort_class v \<in> {0, 1} \<and> list_all (\<lambda>w. sort_class w = sort_class v) vs)"

fun nonempty_str :: "pyval \<Rightarrow> bool" where
  "nonempty_str (VStr s) = (s \<noteq> [])"
| "nonempty_str _ = False"

fun str_val :: "pyval \<Rightarrow> string" where
  "str_val (VStr s) = s"
| "str_val _ = []"

text \<open>\<^verbatim>\<open>set(d) == ks\<close>, and \<^verbatim>\<open>not set(d) - ks\<close>.\<close>

definition keys_are :: "pydict \<Rightarrow> string list \<Rightarrow> bool" where
  "keys_are d ks \<longleftrightarrow> list_all (\<lambda>k. k \<in> VStr ` set ks) (dkeys d) \<and> list_all (\<lambda>k. VStr k \<in> set (dkeys d)) ks"

definition keys_within :: "pydict \<Rightarrow> string list \<Rightarrow> bool" where
  "keys_within d ks \<longleftrightarrow> list_all (\<lambda>k. k \<in> VStr ` set ks) (dkeys d)"

text \<open>\<^verbatim>\<open>d.get(k)\<close> with a string key: a missing key gives \<^verbatim>\<open>None\<close>.\<close>

definition vget :: "pydict \<Rightarrow> string \<Rightarrow> pyval" where
  "vget d k = (case dget d (VStr k) of None \<Rightarrow> VNone | Some v \<Rightarrow> v)"

text \<open>
  \<^verbatim>\<open>str(k)\<close> of a dictionary key. The shortest decimal that reads back as a given
  float is the parameter \<open>repr\<close>; only dictionary keys that are floats reach it.
\<close>

fun show_nat :: "nat \<Rightarrow> string" where
  "show_nat n = (if n < 10 then [char_of (48 + n)] else show_nat (n div 10) @ [char_of (48 + n mod 10)])"

declare show_nat.simps [simp del]

definition show_int :: "int \<Rightarrow> string" where
  "show_int n = (if n < 0 then CHR ''-'' # show_nat (nat (- n)) else show_nat (nat n))"

fun key_str :: "(pyfloat \<Rightarrow> string) \<Rightarrow> pyval \<Rightarrow> string" where
  "key_str repr (VStr s) = s"
| "key_str repr (VInt n) = show_int n"
| "key_str repr (VBool b) = (if b then ''True'' else ''False'')"
| "key_str repr (VFloat x) = repr x"
| "key_str repr _ = ''None''"

text \<open>A finite number read as a float, or nothing.\<close>

definition finite_float :: "pyval \<Rightarrow> py_exn \<Rightarrow> rat result" where
  "finite_float v e =
     (if is_number v then
        rbind (py_float v) (\<lambda>x. case x of Fin r \<Rightarrow> Ret r | _ \<Rightarrow> Raise e)
      else Raise e)"

lemma is_number_float: "is_number v \<Longrightarrow> py_float v = Raise e \<Longrightarrow> e = PyOverflowError"
  by (cases v) (auto simp: float_of_int_def split: pyfloat.splits)

lemma finite_float_Inr:
  "finite_float v e = Ret r \<longleftrightarrow> is_number v \<and> py_float v = Ret (Fin r)"
  by (cases "py_float v"; cases "projr (py_float v)") (auto simp: finite_float_def)

lemma finite_float_Inl:
  "finite_float v e = Raise e' \<Longrightarrow> e' = e \<or> e' = PyOverflowError"
  by (cases "py_float v"; cases "projr (py_float v)")
    (auto simp: finite_float_def dest: is_number_float split: if_splits)

lemma in_strs_Inr [simp]: "in_strs v ss = Ret b \<longleftrightarrow> hashable v \<and> b = (v \<in> VStr ` set ss)"
  by (auto simp: in_strs_def)

lemma in_strs_Inl [simp]: "in_strs v ss = Raise e \<longleftrightarrow> \<not> hashable v \<and> e = PyTypeError"
  by (auto simp: in_strs_def)

lemma py_isfinite_Inr:
  "py_isfinite v = Ret b \<longleftrightarrow> (\<exists>x. py_float v = Ret x \<and> b = is_fin x)"
  by (auto simp: py_isfinite_def)

lemma is_fin_iff: "is_fin x \<longleftrightarrow> (\<exists>r. x = Fin r)"
  by (cases x) auto

section \<open>Plain documents\<close>

text \<open>
  A document whose dictionary keys are strings throughout and whose integers all fit in
  a float: what the JSON schemas of the repository allow.
\<close>

fun plain_doc :: "pyval \<Rightarrow> bool" where
  "plain_doc (VInt n) = is_ret (float_of_int n)"
| "plain_doc (VList vs) = list_all plain_doc vs"
| "plain_doc (VDict d) = list_all (\<lambda>kv. is_str (fst kv) \<and> plain_doc (snd kv)) d"
| "plain_doc _ = True"

lemma plain_vget: "plain_doc (VDict d) \<Longrightarrow> plain_doc (vget d k)"
  by (auto simp: vget_def list_all_iff dest!: dget_Some_mem split: option.splits)

lemma plain_float: "plain_doc v \<Longrightarrow> is_number v \<Longrightarrow> is_ret (py_float v)"
  by (cases v) auto

lemma plain_errs_finite_float: "plain_doc v \<Longrightarrow> e \<in> E \<Longrightarrow> errs E (finite_float v e)"
  using plain_float [of v]
  by (cases "py_float v"; cases "projr (py_float v)") (auto simp: finite_float_def)

lemma errs_finite_float: "{e, PyOverflowError} \<subseteq> E \<Longrightarrow> errs E (finite_float v e)"
  by (auto simp: errs_def dest!: finite_float_Inl)

lemma sortable_strs: "list_all is_str vs \<Longrightarrow> sortable vs"
proof (induction vs rule: sortable.induct)
  case (3 v w vs)
  have "is_str x \<Longrightarrow> sort_class x = 0" for x by (cases x) auto
  with 3 show ?case by (auto simp: list_all_iff)
qed auto

section \<open>Truth and equality\<close>

fun truthy :: "pyval \<Rightarrow> bool" where
  "truthy VNone = False" | "truthy (VBool b) = b" | "truthy (VInt n) = (n \<noteq> 0)" | "truthy (VFloat x) = (x \<noteq> Fin 0)"
| "truthy (VStr s) = (s \<noteq> [])" | "truthy (VList vs) = (vs \<noteq> [])" | "truthy (VDict d) = (d \<noteq> [])"

text \<open>Equality of hashable values: numbers of all three types compare by value.\<close>

fun numeric :: "pyval \<Rightarrow> pyfloat option" where
  "numeric (VBool b) = Some (Fin (of_bool b))" | "numeric (VInt n) = Some (Fin (of_int n))" | "numeric (VFloat x) = Some x" | "numeric _ = None"

definition same_value :: "pyval \<Rightarrow> pyval \<Rightarrow> bool" where
  "same_value v w = (case (numeric v, numeric w) of (Some x, Some y) \<Rightarrow> x = y \<and> x \<noteq> NaN | (None, None) \<Rightarrow> v = w | _ \<Rightarrow> False)"

section \<open>Integers as text\<close>

fun digits_value :: "bool \<Rightarrow> nat \<Rightarrow> string \<Rightarrow> nat option" where
  "digits_value ended n [] = (if ended then Some n else None)"
| "digits_value ended n (c # cs) =
     (if is_digit c then digits_value True (10 * n + (of_char c - 48)) cs
      else if c = CHR ''_'' \<and> ended then digits_value False n cs else None)"

definition int_of_text :: "string \<Rightarrow> int option" where
  "int_of_text s =
     (case strip s of
        c # cs \<Rightarrow> if c = CHR ''-'' then map_option (\<lambda>n. - int n) (digits_value False 0 cs)
                  else map_option int (digits_value False 0 (if c = CHR ''+'' then cs else c # cs))
      | [] \<Rightarrow> None)"

text \<open>\<^verbatim>\<open>int(v)\<close>.\<close>

fun py_int :: "pyval \<Rightarrow> int result" where
  "py_int (VInt n) = Ret n" | "py_int (VBool b) = Ret (of_bool b)"
| "py_int (VFloat (Fin r)) = Ret (if 0 \<le> r then \<lfloor>r\<rfloor> else - \<lfloor>- r\<rfloor>)" | "py_int (VFloat NaN) = Raise PyValueError" | "py_int (VFloat _) = Raise PyOverflowError"
| "py_int (VStr s) = (case int_of_text s of None \<Rightarrow> Raise PyValueError | Some n \<Rightarrow> Ret n)" | "py_int _ = Raise PyTypeError"

end
