(* ===== verification/Profiles.thy ===== *)
theory Profiles
  imports PyValue
begin

text \<open>
  Reviewed robot and task profiles: the validated data of
  \<^verbatim>\<open>agent_ros/profiles/models.py\<close> and the constrained loader of
  \<^verbatim>\<open>agent_ros/profiles/loader.py\<close>. A document is a Python value; validation
  either raises or returns a record. The lemmas show that an accepted profile is well
  formed, that every well-formed profile is accepted back from its document, and which
  exceptions can leave validation.
\<close>

section \<open>Constants and field checks\<close>

definition TWIST_TYPE :: string where "TWIST_TYPE = ''geometry_msgs/msg/Twist''"
definition ODOMETRY_TYPE :: string where "ODOMETRY_TYPE = ''nav_msgs/msg/Odometry''"
definition NAVIGATE_TO_POSE_TYPE :: string where
  "NAVIGATE_TO_POSE_TYPE = ''nav2_msgs/action/NavigateToPose''"
definition FOLLOW_JOINT_TRAJECTORY_TYPE :: string where
  "FOLLOW_JOINT_TRAJECTORY_TYPE = ''control_msgs/action/FollowJointTrajectory''"
definition ADAPTER_KINDS :: "string list" where
  "ADAPTER_KINDS = [''twist'', ''nav2'', ''follow_joint_trajectory'', ''hospital_delivery'']"

fun mapping_of :: "pyval \<Rightarrow> pydict result" where
  "mapping_of (VDict d) = Ret d"
| "mapping_of _ = Raise ProfileValidationError"

definition unexpected_keys :: "pydict \<Rightarrow> string list \<Rightarrow> pyval list" where
  "unexpected_keys d allowed = filter (\<lambda>k. k \<notin> VStr ` set allowed) (dkeys d)"

definition only_keys :: "pydict \<Rightarrow> string list \<Rightarrow> unit result" where
  "only_keys d allowed =
     (let unexpected = unexpected_keys d allowed in
      if unexpected = [] then Ret ()
      else if sortable unexpected then Raise ProfileValidationError
      else Raise PyTypeError)"

definition required_keys :: "pydict \<Rightarrow> string list \<Rightarrow> unit result" where
  "required_keys d required =
     guard (list_all (\<lambda>k. VStr k \<in> set (dkeys d)) required) ProfileValidationError"

fun text_of :: "pyval \<Rightarrow> string result" where
  "text_of (VStr s) = (if strip s \<noteq> [] then Ret s else Raise ProfileValidationError)"
| "text_of _ = Raise ProfileValidationError"

definition finite_positive :: "pyval \<Rightarrow> rat result" where
  "finite_positive v =
     rbind (finite_float v ProfileValidationError)
       (\<lambda>r. if r \<le> 0 then Raise ProfileValidationError else Ret r)"

definition finite_num :: "pyval \<Rightarrow> rat result" where
  "finite_num v = finite_float v ProfileValidationError"

fun string_list :: "pyval \<Rightarrow> string list result" where
  "string_list (VList vs) =
     (if list_all nonempty_str vs then Ret (map str_val vs) else Raise ProfileValidationError)"
| "string_list _ = Raise ProfileValidationError"

section \<open>Robot profiles\<close>

record interface_ref =
  if_type :: string
  if_topic :: "string option"
  if_action :: "string option"

record robot_interfaces =
  ri_command :: "interface_ref option"
  ri_odometry :: "interface_ref option"
  ri_navigation :: "interface_ref option"
  ri_trajectory :: "interface_ref option"

record motion_limits =
  max_linear_velocity :: rat
  max_angular_velocity :: rat
  max_linear_acceleration :: rat
  max_angular_acceleration :: rat

record safety_config =
  heartbeat_timeout :: "rat option"
  estop_topic :: "string option"

record robot_profile =
  rp_name :: string
  rp_mode :: string
  rp_namespace :: string
  rp_frames :: "(string \<times> string) list"
  rp_adapter_kind :: string
  rp_interfaces :: robot_interfaces
  rp_limits :: motion_limits
  rp_safety :: safety_config
  rp_observation_sources :: "string list"

datatype address = Topic | Action

definition address_key :: "address \<Rightarrow> string" where
  "address_key a = (case a of Topic \<Rightarrow> ''topic'' | Action \<Rightarrow> ''action'')"

definition interface_of :: "pydict \<Rightarrow> string \<Rightarrow> address \<Rightarrow> interface_ref option result" where
  "interface_of interfaces_data key a =
     (let raw = vget interfaces_data key in
      if raw = VNone then Ret None
      else rbind (mapping_of raw) (\<lambda>item.
        rbind (only_keys item [''type'', address_key a]) (\<lambda>_.
        rbind (text_of (vget item ''type'')) (\<lambda>t.
        rbind (text_of (vget item (address_key a))) (\<lambda>x.
        Ret (Some \<lparr>if_type = t,
                   if_topic = (if a = Topic then Some x else None),
                   if_action = (if a = Action then Some x else None)\<rparr>))))))"

definition typed_iface :: "interface_ref option \<Rightarrow> string \<Rightarrow> bool" where
  "typed_iface i t = (case i of None \<Rightarrow> False | Some r \<Rightarrow> if_type r = t)"

definition validate_adapter_interfaces :: "string \<Rightarrow> robot_interfaces \<Rightarrow> unit result" where
  "validate_adapter_interfaces kind ifs =
     (if kind = ''twist'' then
        rbind (guard (typed_iface (ri_command ifs) TWIST_TYPE) ProfileValidationError) (\<lambda>_.
          guard (typed_iface (ri_odometry ifs) ODOMETRY_TYPE) ProfileValidationError)
      else if kind = ''nav2'' then
        guard (typed_iface (ri_navigation ifs) NAVIGATE_TO_POSE_TYPE) ProfileValidationError
      else if kind = ''follow_joint_trajectory'' then
        guard (typed_iface (ri_trajectory ifs) FOLLOW_JOINT_TRAJECTORY_TYPE) ProfileValidationError
      else if kind = ''hospital_delivery'' then
        rbind (guard (typed_iface (ri_command ifs) TWIST_TYPE) ProfileValidationError) (\<lambda>_.
          guard (typed_iface (ri_odometry ifs) ODOMETRY_TYPE) ProfileValidationError)
      else Ret ())"

definition iface_at :: "interface_ref option \<Rightarrow> string \<Rightarrow> string \<Rightarrow> bool" where
  "iface_at i topic t =
     (case i of None \<Rightarrow> False | Some r \<Rightarrow> if_topic r = Some topic \<and> if_type r = t)"

definition hospital_confined :: "string \<Rightarrow> string \<Rightarrow> string \<Rightarrow> robot_interfaces \<Rightarrow> bool" where
  "hospital_confined name mode namespace ifs \<longleftrightarrow>
     name = ''hospital-amr'' \<and> mode = ''simulation'' \<and> namespace = ''/hospital_amr'' \<and>
     iface_at (ri_command ifs) ''/cmd_vel'' TWIST_TYPE \<and>
     iface_at (ri_odometry ifs) ''/odom'' ODOMETRY_TYPE"

definition robot_keys :: "string list" where
  "robot_keys = [''name'', ''mode'', ''namespace'', ''frames'', ''adapter'', ''interfaces'',
     ''limits'', ''safety'', ''observation_sources'']"

definition limits_of :: "pyval \<Rightarrow> motion_limits result" where
  "limits_of v =
     rbind (mapping_of v) (\<lambda>d.
     rbind (only_keys d [''max_linear_velocity'', ''max_angular_velocity'',
                         ''max_linear_acceleration'', ''max_angular_acceleration'']) (\<lambda>_.
     rbind (finite_positive (vget d ''max_linear_velocity'')) (\<lambda>lv.
     rbind (finite_positive (vget d ''max_angular_velocity'')) (\<lambda>av.
     rbind (finite_positive (vget d ''max_linear_acceleration'')) (\<lambda>la.
     rbind (finite_positive (vget d ''max_angular_acceleration'')) (\<lambda>aa.
     Ret \<lparr>max_linear_velocity = lv, max_angular_velocity = av,
          max_linear_acceleration = la, max_angular_acceleration = aa\<rparr>))))))"

definition safety_of :: "pyval \<Rightarrow> safety_config result" where
  "safety_of v =
     rbind (mapping_of v) (\<lambda>d.
     rbind (only_keys d [''heartbeat_timeout'', ''estop_topic'']) (\<lambda>_.
     rbind (if vget d ''heartbeat_timeout'' = VNone then Ret None
            else rbind (finite_positive (vget d ''heartbeat_timeout'')) (\<lambda>r. Ret (Some r))) (\<lambda>h.
     rbind (if vget d ''estop_topic'' = VNone then Ret None
            else rbind (text_of (vget d ''estop_topic'')) (\<lambda>t. Ret (Some t))) (\<lambda>e.
     Ret \<lparr>heartbeat_timeout = h, estop_topic = e\<rparr>))))"

definition frames_of :: "(pyfloat \<Rightarrow> string) \<Rightarrow> pyval \<Rightarrow> (string \<times> string) list result" where
  "frames_of repr v =
     rbind (mapping_of v) (\<lambda>d.
     rbind (rmap (\<lambda>(k, item). rbind (text_of item) (\<lambda>t. Ret (key_str repr k, t))) d) (\<lambda>frames.
     rbind (guard (frames \<noteq> []) ProfileValidationError) (\<lambda>_. Ret frames)))"

definition adapter_of :: "pyval \<Rightarrow> string result" where
  "adapter_of v =
     rbind (mapping_of v) (\<lambda>d.
     rbind (only_keys d [''kind'']) (\<lambda>_.
     rbind (in_strs (vget d ''kind'') ADAPTER_KINDS) (\<lambda>known.
     rbind (guard known ProfileValidationError) (\<lambda>_. Ret (str_val (vget d ''kind''))))))"

definition interfaces_of :: "pyval \<Rightarrow> robot_interfaces result" where
  "interfaces_of v =
     rbind (mapping_of v) (\<lambda>d.
     rbind (only_keys d [''command'', ''odometry'', ''navigation'', ''trajectory'']) (\<lambda>_.
     rbind (interface_of d ''command'' Topic) (\<lambda>c.
     rbind (interface_of d ''odometry'' Topic) (\<lambda>od.
     rbind (interface_of d ''navigation'' Action) (\<lambda>n.
     rbind (interface_of d ''trajectory'' Action) (\<lambda>t.
     Ret \<lparr>ri_command = c, ri_odometry = od, ri_navigation = n, ri_trajectory = t\<rparr>))))))"

text \<open>\<^verbatim>\<open>RobotProfile.from_mapping\<close>, check by check in the order of the source.\<close>

definition robot_from_mapping :: "(pyfloat \<Rightarrow> string) \<Rightarrow> pyval \<Rightarrow> robot_profile result" where
  "robot_from_mapping repr v =
     rbind (mapping_of v) (\<lambda>data.
     rbind (only_keys data robot_keys) (\<lambda>_.
     rbind (required_keys data robot_keys) (\<lambda>_.
     rbind (text_of (vget data ''name'')) (\<lambda>name.
     rbind (in_strs (vget data ''mode'') [''simulation'', ''hardware'']) (\<lambda>mode_ok.
     rbind (guard mode_ok ProfileValidationError) (\<lambda>_.
     rbind (text_of (vget data ''namespace'')) (\<lambda>namespace.
     rbind (frames_of repr (vget data ''frames'')) (\<lambda>frames.
     rbind (adapter_of (vget data ''adapter'')) (\<lambda>kind.
     rbind (interfaces_of (vget data ''interfaces'')) (\<lambda>ifs.
     rbind (validate_adapter_interfaces kind ifs) (\<lambda>_.
     rbind (guard (kind = ''hospital_delivery'' \<longrightarrow>
         hospital_confined name (str_val (vget data ''mode'')) namespace ifs)
         ProfileValidationError) (\<lambda>_.
     rbind (limits_of (vget data ''limits'')) (\<lambda>limits.
     rbind (safety_of (vget data ''safety'')) (\<lambda>safety.
     rbind (guard (\<not> (str_val (vget data ''mode'') = ''hardware'' \<and>
         (heartbeat_timeout safety = None \<or> estop_topic safety = None)))
         ProfileValidationError) (\<lambda>_.
     rbind (string_list (vget data ''observation_sources'')) (\<lambda>sources.
     Ret \<lparr>rp_name = name, rp_mode = str_val (vget data ''mode''), rp_namespace = namespace,
          rp_frames = frames, rp_adapter_kind = kind, rp_interfaces = ifs, rp_limits = limits,
          rp_safety = safety, rp_observation_sources = sources\<rparr>))))))))))))))))"

section \<open>Task profiles\<close>

record pose_goal =
  pg_frame :: string
  pg_x :: rat
  pg_y :: rat
  pg_yaw :: rat

record task_stage =
  ts_name :: string
  ts_goal :: pose_goal
  ts_tolerance :: rat
  ts_timeout :: rat

record task_profile =
  tp_name :: string
  tp_robot_profile :: string
  tp_stages :: "task_stage list"
  tp_required_sensors :: "string list"
  tp_evidence_sources :: "string list"
  tp_recovery_policy :: string

definition goal_of :: "pyval \<Rightarrow> pose_goal result" where
  "goal_of v =
     rbind (mapping_of v) (\<lambda>d.
     rbind (only_keys d [''frame'', ''x'', ''y'', ''yaw'']) (\<lambda>_.
     rbind (text_of (vget d ''frame'')) (\<lambda>f.
     rbind (finite_num (vget d ''x'')) (\<lambda>x.
     rbind (finite_num (vget d ''y'')) (\<lambda>y.
     rbind (finite_num (vget d ''yaw'')) (\<lambda>yaw.
     Ret \<lparr>pg_frame = f, pg_x = x, pg_y = y, pg_yaw = yaw\<rparr>))))))"

definition stage_of :: "string list \<Rightarrow> pyval \<Rightarrow> task_stage result" where
  "stage_of names raw =
     rbind (mapping_of raw) (\<lambda>stage.
     rbind (only_keys stage [''name'', ''goal'', ''tolerance'', ''timeout'']) (\<lambda>_.
     rbind (text_of (vget stage ''name'')) (\<lambda>name.
     rbind (guard (name \<notin> set names) ProfileValidationError) (\<lambda>_.
     rbind (goal_of (vget stage ''goal'')) (\<lambda>goal.
     rbind (finite_positive (vget stage ''tolerance'')) (\<lambda>tol.
     rbind (finite_positive (vget stage ''timeout'')) (\<lambda>tmo.
     Ret \<lparr>ts_name = name, ts_goal = goal, ts_tolerance = tol, ts_timeout = tmo\<rparr>)))))))"

text \<open>The loop over the stages, with the names seen so far.\<close>

fun stages_of :: "string list \<Rightarrow> pyval list \<Rightarrow> task_stage list result" where
  "stages_of names [] = Ret []"
| "stages_of names (raw # raws) =
     rbind (stage_of names raw) (\<lambda>stage.
     rbind (stages_of (ts_name stage # names) raws) (\<lambda>stages. Ret (stage # stages)))"

definition task_keys :: "string list" where
  "task_keys = [''name'', ''robot_profile'', ''stages'', ''required_sensors'', ''evidence'',
     ''recovery_policy'']"

fun stage_list :: "pyval \<Rightarrow> pyval list result" where
  "stage_list (VList vs) = (if vs = [] then Raise ProfileValidationError else Ret vs)"
| "stage_list _ = Raise ProfileValidationError"

text \<open>\<^verbatim>\<open>evidence.get("sources", [])\<close>: the default replaces a missing key only.\<close>

definition evidence_of :: "pyval \<Rightarrow> string list result" where
  "evidence_of v =
     rbind (mapping_of v) (\<lambda>d.
     rbind (only_keys d [''sources'']) (\<lambda>_.
     string_list (case dget d (VStr ''sources'') of None \<Rightarrow> VList [] | Some s \<Rightarrow> s)))"

definition task_from_mapping :: "pyval \<Rightarrow> task_profile result" where
  "task_from_mapping v =
     rbind (mapping_of v) (\<lambda>data.
     rbind (only_keys data task_keys) (\<lambda>_.
     rbind (required_keys data task_keys) (\<lambda>_.
     rbind (text_of (vget data ''name'')) (\<lambda>name.
     rbind (text_of (vget data ''robot_profile'')) (\<lambda>robot.
     rbind (stage_list (vget data ''stages'')) (\<lambda>raws.
     rbind (stages_of [] raws) (\<lambda>stages.
     rbind (string_list (vget data ''required_sensors'')) (\<lambda>sensors.
     rbind (evidence_of (vget data ''evidence'')) (\<lambda>sources.
     rbind (in_strs (vget data ''recovery_policy'') [''stop'', ''cancel_and_stop'']) (\<lambda>policy_ok.
     rbind (guard policy_ok ProfileValidationError) (\<lambda>_.
     Ret \<lparr>tp_name = name, tp_robot_profile = robot, tp_stages = stages,
          tp_required_sensors = sensors, tp_evidence_sources = sources,
          tp_recovery_policy = str_val (vget data ''recovery_policy'')\<rparr>)))))))))))"

section \<open>The loader\<close>

text \<open>
  What the file system and the YAML parser answer for a profile name: whether the
  resolved path leaves the profile directory, and the outcome of opening and parsing the
  file. Both are parameters; the parser is a third-party package.
\<close>

datatype yaml_read = FileMissing | YamlInvalid | ReadFails py_exn | Document pyval

record profile_store =
  ps_escapes :: "string \<Rightarrow> bool"
  ps_read :: "string \<Rightarrow> yaml_read"

definition profile_name_ok :: "string \<Rightarrow> bool" where
  "profile_name_ok =
     rx (\<lambda>c. is_lower c \<or> is_digit c) (\<lambda>c. is_lower c \<or> is_digit c \<or> c = CHR ''-'') 1 None"

text \<open>\<^verbatim>\<open>_reject_non_finite_numbers\<close>: true where the source returns.\<close>

fun finite_numbers :: "pyval \<Rightarrow> bool" where
  "finite_numbers (VFloat x) = is_fin x"
| "finite_numbers (VDict d) = list_all (\<lambda>kv. finite_numbers (snd kv)) d"
| "finite_numbers (VList vs) = list_all finite_numbers vs"
| "finite_numbers _ = True"

definition load_profile ::
  "('a \<Rightarrow> string) \<Rightarrow> (pyval \<Rightarrow> 'a result) \<Rightarrow> profile_store \<Rightarrow> string \<Rightarrow> 'a result" where
  "load_profile name_of from_mapping st name =
     rbind (guard (profile_name_ok name) ProfileValidationError) (\<lambda>_.
     rbind (guard (\<not> ps_escapes st name) ProfileValidationError) (\<lambda>_.
     (case ps_read st name of
        FileMissing \<Rightarrow> Raise ProfileValidationError
      | YamlInvalid \<Rightarrow> Raise ProfileValidationError
      | ReadFails e \<Rightarrow> Raise e
      | Document raw \<Rightarrow>
          rbind (guard (finite_numbers raw) ProfileValidationError) (\<lambda>_.
          rbind (from_mapping raw) (\<lambda>profile.
          rbind (guard (name_of profile = name) ProfileValidationError) (\<lambda>_. Ret profile))))))"

definition load_robot_profile ::
  "(pyfloat \<Rightarrow> string) \<Rightarrow> profile_store \<Rightarrow> string \<Rightarrow> robot_profile result" where
  "load_robot_profile repr = load_profile rp_name (robot_from_mapping repr)"

definition load_task_profile :: "profile_store \<Rightarrow> string \<Rightarrow> task_profile result" where
  "load_task_profile = load_profile tp_name task_from_mapping"

section \<open>Well-formed profiles\<close>

definition text_ok :: "string \<Rightarrow> bool" where
  "text_ok s \<longleftrightarrow> strip s \<noteq> []"

definition iface_ok :: "address \<Rightarrow> interface_ref option \<Rightarrow> bool" where
  "iface_ok a i = (case i of None \<Rightarrow> True | Some r \<Rightarrow>
     text_ok (if_type r) \<and>
     (case a of Topic \<Rightarrow> (\<exists>x. if_topic r = Some x \<and> text_ok x) \<and> if_action r = None
      | Action \<Rightarrow> (\<exists>x. if_action r = Some x \<and> text_ok x) \<and> if_topic r = None))"

definition limits_ok :: "motion_limits \<Rightarrow> bool" where
  "limits_ok l \<longleftrightarrow> 0 < max_linear_velocity l \<and> 0 < max_angular_velocity l \<and>
     0 < max_linear_acceleration l \<and> 0 < max_angular_acceleration l"

definition safety_ok :: "safety_config \<Rightarrow> bool" where
  "safety_ok s \<longleftrightarrow> (\<forall>h. heartbeat_timeout s = Some h \<longrightarrow> 0 < h) \<and>
     (\<forall>t. estop_topic s = Some t \<longrightarrow> text_ok t)"

definition robot_wf :: "robot_profile \<Rightarrow> bool" where
  "robot_wf p \<longleftrightarrow>
     text_ok (rp_name p) \<and> rp_mode p \<in> {''simulation'', ''hardware''} \<and>
     text_ok (rp_namespace p) \<and>
     rp_frames p \<noteq> [] \<and> list_all (\<lambda>(k, t). text_ok t) (rp_frames p) \<and>
     rp_adapter_kind p \<in> set ADAPTER_KINDS \<and>
     iface_ok Topic (ri_command (rp_interfaces p)) \<and> iface_ok Topic (ri_odometry (rp_interfaces p)) \<and>
     iface_ok Action (ri_navigation (rp_interfaces p)) \<and>
     iface_ok Action (ri_trajectory (rp_interfaces p)) \<and>
     validate_adapter_interfaces (rp_adapter_kind p) (rp_interfaces p) = Ret () \<and>
     (rp_adapter_kind p = ''hospital_delivery'' \<longrightarrow>
        hospital_confined (rp_name p) (rp_mode p) (rp_namespace p) (rp_interfaces p)) \<and>
     limits_ok (rp_limits p) \<and> safety_ok (rp_safety p) \<and>
     (rp_mode p = ''hardware'' \<longrightarrow>
        heartbeat_timeout (rp_safety p) \<noteq> None \<and> estop_topic (rp_safety p) \<noteq> None) \<and>
     list_all (\<lambda>s. s \<noteq> []) (rp_observation_sources p)"

definition stage_ok :: "task_stage \<Rightarrow> bool" where
  "stage_ok s \<longleftrightarrow> text_ok (ts_name s) \<and> text_ok (pg_frame (ts_goal s)) \<and>
     0 < ts_tolerance s \<and> 0 < ts_timeout s"

definition task_wf :: "task_profile \<Rightarrow> bool" where
  "task_wf t \<longleftrightarrow> text_ok (tp_name t) \<and> text_ok (tp_robot_profile t) \<and>
     tp_stages t \<noteq> [] \<and> list_all stage_ok (tp_stages t) \<and>
     distinct (map ts_name (tp_stages t)) \<and>
     list_all (\<lambda>s. s \<noteq> []) (tp_required_sensors t) \<and>
     list_all (\<lambda>s. s \<noteq> []) (tp_evidence_sources t) \<and>
     tp_recovery_policy t \<in> {''stop'', ''cancel_and_stop''}"

lemma text_of_Inr [simp]: "text_of v = Ret s \<longleftrightarrow> v = VStr s \<and> text_ok s"
  by (cases v) (auto simp: text_ok_def)

lemma mapping_of_Inr [simp]: "mapping_of v = Ret d \<longleftrightarrow> v = VDict d"
  by (cases v) auto

lemma finite_positive_Inr [simp]:
  "finite_positive v = Ret r \<longleftrightarrow> is_number v \<and> py_float v = Ret (Fin r) \<and> 0 < r"
  by (auto simp: finite_positive_def finite_float_Inr intro!: exI [of _ r])

lemma finite_num_Inr [simp]:
  "finite_num v = Ret r \<longleftrightarrow> is_number v \<and> py_float v = Ret (Fin r)"
  by (simp add: finite_num_def finite_float_Inr)

lemma string_list_Inr:
  "string_list v = Ret ss \<longleftrightarrow> v = VList (map VStr ss) \<and> list_all (\<lambda>s. s \<noteq> []) ss"
proof -
  have *: "list_all nonempty_str vs \<Longrightarrow>
      vs = map VStr (map str_val vs) \<and> list_all (\<lambda>s. s \<noteq> []) (map str_val vs)" for vs
  proof (induction vs)
    case (Cons a vs)
    then show ?case by (cases a) auto
  qed simp
  have **: "list_all nonempty_str (map VStr ss) = list_all (\<lambda>s. s \<noteq> []) ss"
    by (induction ss) auto
  show ?thesis
    using * ** by (cases v) (auto simp: comp_def)
qed

lemma interface_of_Inr: "interface_of d k a = Ret i \<Longrightarrow> iface_ok a i"
  by (cases a) (auto simp: interface_of_def iface_ok_def address_key_def Let_def split: if_splits)

lemma limits_of_Inr: "limits_of v = Ret l \<Longrightarrow> limits_ok l"
  by (auto simp: limits_of_def limits_ok_def)

lemma safety_of_Inr: "safety_of v = Ret s \<Longrightarrow> safety_ok s"
  by (auto simp: safety_of_def safety_ok_def split: if_splits)

lemma frames_of_Inr:
  "frames_of repr v = Ret fs \<Longrightarrow> fs \<noteq> [] \<and> list_all (\<lambda>(k, t). text_ok t) fs"
  by (auto simp: frames_of_def elim!: rmap_list_all split: prod.splits)

lemma adapter_of_Inr: "adapter_of v = Ret k \<Longrightarrow> k \<in> set ADAPTER_KINDS"
  by (auto simp: adapter_of_def)

lemma interfaces_of_Inr:
  "interfaces_of v = Ret i \<Longrightarrow> iface_ok Topic (ri_command i) \<and> iface_ok Topic (ri_odometry i) \<and>
     iface_ok Action (ri_navigation i) \<and> iface_ok Action (ri_trajectory i)"
  by (auto simp: interfaces_of_def dest: interface_of_Inr)

lemma robot_from_mapping_wf:
  assumes "robot_from_mapping repr v = Ret p" shows "robot_wf p"
  using assms
  by (auto simp: robot_from_mapping_def robot_wf_def string_list_Inr
      dest: frames_of_Inr adapter_of_Inr interfaces_of_Inr limits_of_Inr safety_of_Inr)

lemma goal_of_Inr: "goal_of v = Ret g \<Longrightarrow> text_ok (pg_frame g)"
  by (auto simp: goal_of_def)

lemma stage_of_Inr: "stage_of ns v = Ret s \<Longrightarrow> stage_ok s \<and> ts_name s \<notin> set ns"
  by (auto simp: stage_of_def stage_ok_def dest: goal_of_Inr)

lemma stages_of_Inr:
  "stages_of ns vs = Ret ss \<Longrightarrow> list_all stage_ok ss \<and> distinct (map ts_name ss) \<and>
     set (map ts_name ss) \<inter> set ns = {} \<and> length ss = length vs"
proof (induction vs arbitrary: ns ss)
  case (Cons v vs)
  from Cons.prems obtain s ss' where s: "stage_of ns v = Ret s"
    and ss': "stages_of (ts_name s # ns) vs = Ret ss'" and "ss = s # ss'" by auto
  with Cons.IH [OF ss'] stage_of_Inr [OF s] show ?case by auto
qed auto

lemma stage_list_Inr [simp]: "stage_list v = Ret vs \<longleftrightarrow> v = VList vs \<and> vs \<noteq> []"
  by (cases v) auto

lemma evidence_of_Inr: "evidence_of v = Ret ss \<Longrightarrow> list_all (\<lambda>s. s \<noteq> []) ss"
  by (auto simp: evidence_of_def string_list_Inr)

lemma task_from_mapping_wf:
  assumes "task_from_mapping v = Ret t" shows "task_wf t"
  using assms
  by (auto simp: task_from_mapping_def task_wf_def string_list_Inr dest: stages_of_Inr
      dest!: evidence_of_Inr)

section \<open>The exceptions of validation\<close>

definition doc_errors :: "py_exn set" where
  "doc_errors = {ProfileValidationError, PyTypeError, PyOverflowError}"

lemma errs_mapping_of: "ProfileValidationError \<in> E \<Longrightarrow> errs E (mapping_of v)"
  by (cases v) auto

lemma errs_text_of: "ProfileValidationError \<in> E \<Longrightarrow> errs E (text_of v)"
  by (cases v) auto

lemma errs_string_list: "ProfileValidationError \<in> E \<Longrightarrow> errs E (string_list v)"
  by (cases v) auto

lemma errs_stage_list: "ProfileValidationError \<in> E \<Longrightarrow> errs E (stage_list v)"
  by (cases v) auto

lemmas errs_fields = errs_mapping_of errs_text_of errs_string_list errs_stage_list

lemma errs_only_keys: "{ProfileValidationError, PyTypeError} \<subseteq> E \<Longrightarrow> errs E (only_keys d ks)"
  by (auto simp: only_keys_def Let_def)

lemma errs_finite_positive: "{ProfileValidationError, PyOverflowError} \<subseteq> E \<Longrightarrow> errs E (finite_positive v)"
  unfolding finite_positive_def by (intro result_intros errs_finite_float) auto

lemma errs_finite_num: "{ProfileValidationError, PyOverflowError} \<subseteq> E \<Longrightarrow> errs E (finite_num v)"
  unfolding finite_num_def by (rule errs_finite_float)

lemma errs_in_strs: "PyTypeError \<in> E \<Longrightarrow> errs E (in_strs v ss)"
  by (auto simp: in_strs_def)

lemma errs_validate_adapter: "ProfileValidationError \<in> E \<Longrightarrow> errs E (validate_adapter_interfaces k i)"
  unfolding validate_adapter_interfaces_def by (intro result_intros) auto

lemma doc_errorsI [simp]:
  "ProfileValidationError \<in> doc_errors" "PyTypeError \<in> doc_errors" "PyOverflowError \<in> doc_errors"
  by (auto simp: doc_errors_def)

lemmas errs_doc = errs_fields [where E = doc_errors, simplified]
  errs_only_keys [where E = doc_errors, simplified]
  errs_finite_positive [where E = doc_errors, simplified]
  errs_finite_num [where E = doc_errors, simplified] errs_in_strs [where E = doc_errors, simplified]
  errs_validate_adapter [where E = doc_errors, simplified]
  errs_guard [where e = ProfileValidationError and E = doc_errors, simplified]

lemma errs_interface_of: "errs doc_errors (interface_of d k a)"
  unfolding interface_of_def Let_def by (intro result_intros errs_doc)

lemma errs_stages_of: "errs doc_errors (stages_of ns vs)"
proof (induction vs arbitrary: ns)
  case (Cons v vs)
  have "errs doc_errors (stage_of ns v)"
    unfolding stage_of_def goal_of_def by (intro result_intros errs_doc) auto
  then show ?case using Cons.IH by (auto intro!: errs_rbind)
qed auto

lemma robot_from_mapping_errs: "errs doc_errors (robot_from_mapping repr v)"
proof -
  have 1: "errs doc_errors (limits_of v)" for v
    unfolding limits_of_def by (intro result_intros errs_doc)
  have 2: "errs doc_errors (safety_of v)" for v
    unfolding safety_of_def by (intro result_intros errs_doc)
  have 3: "errs doc_errors (frames_of repr v)" for v
    unfolding frames_of_def by (intro result_intros errs_doc) (auto intro!: errs_rbind errs_doc)
  have 4: "errs doc_errors (adapter_of v)" for v
    unfolding adapter_of_def by (intro result_intros errs_doc)
  have 5: "errs doc_errors (interfaces_of v)" for v
    unfolding interfaces_of_def by (intro result_intros errs_doc errs_interface_of)
  show ?thesis
    unfolding robot_from_mapping_def required_keys_def
    by (intro errs_rbind errs_Inr errs_doc 1 2 3 4 5)
qed

lemma task_from_mapping_errs: "errs doc_errors (task_from_mapping v)"
proof -
  have "errs doc_errors (evidence_of v)" for v
    unfolding evidence_of_def by (intro errs_rbind errs_Inr errs_doc)
  then show ?thesis
    unfolding task_from_mapping_def required_keys_def
    by (intro errs_rbind errs_Inr errs_doc errs_stages_of)
qed

text \<open>
  On a plain document only \<^verbatim>\<open>ProfileValidationError\<close> is left, provided the three
  fields compared against a set of names are not lists or dictionaries.
\<close>

abbreviation pve :: "py_exn set" where "pve \<equiv> {ProfileValidationError}"

lemma plain_only_keys: "plain_doc (VDict d) \<Longrightarrow> errs pve (only_keys d ks)"
proof -
  assume "plain_doc (VDict d)"
  then have "list_all is_str (unexpected_keys d ks)"
    by (auto simp: unexpected_keys_def dkeys_def list_all_iff)
  then show ?thesis by (auto simp: only_keys_def Let_def sortable_strs)
qed

lemma plain_finite_positive: "plain_doc v \<Longrightarrow> errs pve (finite_positive v)"
  unfolding finite_positive_def by (intro result_intros plain_errs_finite_float) auto

lemma plain_finite_num: "plain_doc v \<Longrightarrow> errs pve (finite_num v)"
  unfolding finite_num_def by (intro plain_errs_finite_float) auto

lemma hashable_in_strs: "hashable v \<Longrightarrow> errs pve (in_strs v ss)"
  by (simp add: in_strs_def)

lemmas errs_pve = errs_fields [where E = pve, simplified]
  errs_validate_adapter [where E = pve, simplified]
  errs_guard [where e = ProfileValidationError and E = pve, simplified]
  plain_only_keys plain_finite_positive plain_finite_num hashable_in_strs

lemma plain_limits_of: "plain_doc v \<Longrightarrow> errs pve (limits_of v)"
  unfolding limits_of_def by (intro errs_rbind errs_Inr errs_pve) (auto intro: plain_vget)

lemma plain_safety_of: "plain_doc v \<Longrightarrow> errs pve (safety_of v)"
  unfolding safety_of_def by (intro errs_rbind errs_if errs_Inr errs_pve) (auto intro: plain_vget)

lemma plain_frames_of: "errs pve (frames_of repr v)"
  unfolding frames_of_def
  by (intro errs_rbind errs_rmap errs_Inr errs_pve) (auto intro!: errs_rbind errs_pve)

lemma plain_interface_of: "plain_doc (VDict d) \<Longrightarrow> errs pve (interface_of d k a)"
proof -
  assume p: "plain_doc (VDict d)"
  have "plain_doc (vget d k)" using p by (rule plain_vget)
  then show ?thesis
    unfolding interface_of_def Let_def
    by (intro errs_rbind errs_if errs_Inr errs_pve) auto
qed

lemma plain_interfaces_of: "plain_doc v \<Longrightarrow> errs pve (interfaces_of v)"
  unfolding interfaces_of_def by (intro errs_rbind errs_Inr errs_pve plain_interface_of) auto

lemma plain_adapter_of:
  "plain_doc v \<Longrightarrow> (\<And>a. v = VDict a \<Longrightarrow> hashable (vget a ''kind'')) \<Longrightarrow> errs pve (adapter_of v)"
  unfolding adapter_of_def by (intro errs_rbind errs_Inr errs_pve) auto

lemma plain_goal_of: "plain_doc v \<Longrightarrow> errs pve (goal_of v)"
  unfolding goal_of_def by (intro errs_rbind errs_Inr errs_pve) (auto intro: plain_vget)

lemma plain_stage_of: "plain_doc v \<Longrightarrow> errs pve (stage_of ns v)"
  unfolding stage_of_def
  by (intro errs_rbind errs_Inr errs_pve plain_goal_of) (auto intro: plain_vget)

lemma plain_stages_of: "list_all plain_doc vs \<Longrightarrow> errs pve (stages_of ns vs)"
  by (induction vs arbitrary: ns) (auto intro!: errs_rbind plain_stage_of)

lemma plain_evidence_of: "plain_doc v \<Longrightarrow> errs pve (evidence_of v)"
  unfolding evidence_of_def by (intro errs_rbind errs_Inr errs_pve) auto

lemma robot_from_mapping_plain:
  assumes "plain_doc (VDict d)" "hashable (vget d ''mode'')"
    and "\<And>a. vget d ''adapter'' = VDict a \<Longrightarrow> hashable (vget a ''kind'')"
  shows "errs pve (robot_from_mapping repr (VDict d))"
  unfolding robot_from_mapping_def required_keys_def
  by (intro errs_rbind errs_Inr errs_pve plain_limits_of plain_safety_of plain_frames_of
      plain_interfaces_of plain_adapter_of)
    (use assms in \<open>auto intro: plain_vget\<close>)

lemma task_from_mapping_plain:
  assumes "plain_doc (VDict d)" "hashable (vget d ''recovery_policy'')"
  shows "errs pve (task_from_mapping (VDict d))"
proof -
  have "plain_doc (VList vs) \<Longrightarrow> list_all plain_doc vs" for vs by simp
  then show ?thesis
    unfolding task_from_mapping_def required_keys_def
    by (intro errs_rbind errs_Inr errs_pve plain_stages_of plain_evidence_of)
      (use assms in \<open>auto simp del: plain_doc.simps intro: plain_vget dest: plain_vget [of d "''stages''"]\<close>)
qed

section \<open>Documents of well-formed profiles\<close>

text \<open>The document a well-formed profile is written as, to show that validation accepts it.\<close>

definition num_doc :: "rat \<Rightarrow> pyval" where "num_doc r = VFloat (Fin r)"

definition opt_doc :: "('a \<Rightarrow> pyval) \<Rightarrow> 'a option \<Rightarrow> pyval" where
  "opt_doc f x = (case x of None \<Rightarrow> VNone | Some y \<Rightarrow> f y)"

definition iface_doc :: "address \<Rightarrow> interface_ref \<Rightarrow> pyval" where
  "iface_doc a r = VDict [(VStr ''type'', VStr (if_type r)),
     (VStr (address_key a), VStr (case a of Topic \<Rightarrow> the (if_topic r) | Action \<Rightarrow> the (if_action r)))]"

definition interfaces_doc :: "robot_interfaces \<Rightarrow> pyval" where
  "interfaces_doc i = VDict [(VStr ''command'', opt_doc (iface_doc Topic) (ri_command i)),
     (VStr ''odometry'', opt_doc (iface_doc Topic) (ri_odometry i)),
     (VStr ''navigation'', opt_doc (iface_doc Action) (ri_navigation i)),
     (VStr ''trajectory'', opt_doc (iface_doc Action) (ri_trajectory i))]"

definition limits_doc :: "motion_limits \<Rightarrow> pyval" where
  "limits_doc l = VDict [(VStr ''max_linear_velocity'', num_doc (max_linear_velocity l)),
     (VStr ''max_angular_velocity'', num_doc (max_angular_velocity l)),
     (VStr ''max_linear_acceleration'', num_doc (max_linear_acceleration l)),
     (VStr ''max_angular_acceleration'', num_doc (max_angular_acceleration l))]"

definition safety_doc :: "safety_config \<Rightarrow> pyval" where
  "safety_doc s = VDict [(VStr ''heartbeat_timeout'', opt_doc num_doc (heartbeat_timeout s)),
     (VStr ''estop_topic'', opt_doc VStr (estop_topic s))]"

definition frames_doc :: "(string \<times> string) list \<Rightarrow> pyval" where
  "frames_doc fs = VDict (map (\<lambda>(k, t). (VStr k, VStr t)) fs)"

definition robot_doc :: "robot_profile \<Rightarrow> pyval" where
  "robot_doc p = VDict [(VStr ''name'', VStr (rp_name p)), (VStr ''mode'', VStr (rp_mode p)),
     (VStr ''namespace'', VStr (rp_namespace p)), (VStr ''frames'', frames_doc (rp_frames p)),
     (VStr ''adapter'', VDict [(VStr ''kind'', VStr (rp_adapter_kind p))]),
     (VStr ''interfaces'', interfaces_doc (rp_interfaces p)),
     (VStr ''limits'', limits_doc (rp_limits p)), (VStr ''safety'', safety_doc (rp_safety p)),
     (VStr ''observation_sources'', VList (map VStr (rp_observation_sources p)))]"

lemma text_ok_text_of: "text_ok s \<Longrightarrow> text_of (VStr s) = Ret s"
  by (simp add: text_ok_def)

lemma vget_eval [py_simps]:
  "vget ((VStr k', v) # d) k = (if k' = k then v else vget d k)" "vget [] k = VNone"
  by (simp_all add: vget_def)

lemma only_keys_eval [py_simps]:
  "only_keys [] ks = Ret ()"
  "k \<in> set ks \<Longrightarrow> only_keys ((VStr k, v) # d) ks = only_keys d ks"
  by (auto simp: only_keys_def unexpected_keys_def dkeys_def)

lemma finite_positive_num: "0 < r \<Longrightarrow> finite_positive (num_doc r) = Ret r"
  by (simp add: num_doc_def)

lemma limits_roundtrip: "limits_ok l \<Longrightarrow> limits_of (limits_doc l) = Ret l"
  by (simp add: limits_of_def limits_doc_def limits_ok_def py_simps finite_positive_num
      del: finite_positive_Inr)

lemma safety_roundtrip: "safety_ok s \<Longrightarrow> safety_of (safety_doc s) = Ret s"
  by (cases "heartbeat_timeout s"; cases "estop_topic s")
    (auto simp: safety_of_def safety_doc_def safety_ok_def opt_doc_def num_doc_def text_ok_def py_simps)

lemma frames_roundtrip:
  "fs \<noteq> [] \<Longrightarrow> list_all (\<lambda>(k, t). text_ok t) fs \<Longrightarrow> frames_of repr (frames_doc fs) = Ret fs"
proof -
  assume ne: "fs \<noteq> []" and ok: "list_all (\<lambda>(k, t). text_ok t) fs"
  from ok have "rmap (\<lambda>(k, item). rbind (text_of item) (\<lambda>t. Ret (key_str repr k, t)))
      (map (\<lambda>(k, t). (VStr k, VStr t)) fs) = Ret fs"
    by (induction fs) (auto simp: text_ok_text_of simp del: text_of.simps)
  with ne show ?thesis by (simp add: frames_of_def frames_doc_def)
qed

lemma iface_roundtrip:
  "iface_ok a i \<Longrightarrow> vget d k = opt_doc (iface_doc a) i \<Longrightarrow> interface_of d k a = Ret i"
  by (cases i; cases a)
    (auto simp: interface_of_def iface_ok_def opt_doc_def iface_doc_def address_key_def text_ok_def
      py_simps)

lemma interfaces_roundtrip:
  assumes "iface_ok Topic (ri_command i)" "iface_ok Topic (ri_odometry i)"
    "iface_ok Action (ri_navigation i)" "iface_ok Action (ri_trajectory i)"
  shows "interfaces_of (interfaces_doc i) = Ret i"
  using assms by (simp add: interfaces_of_def interfaces_doc_def py_simps iface_roundtrip)

lemma string_list_roundtrip:
  "list_all (\<lambda>s. s \<noteq> []) ss \<Longrightarrow> string_list (VList (map VStr ss)) = Ret ss"
  by (simp add: string_list_Inr del: string_list.simps)

lemma robot_roundtrip:
  assumes "robot_wf p" shows "robot_from_mapping repr (robot_doc p) = Ret p"
proof -
  have a: "adapter_of (VDict [(VStr ''kind'', VStr (rp_adapter_kind p))]) = Ret (rp_adapter_kind p)"
    using assms by (auto simp: adapter_of_def py_simps robot_wf_def)
  have m: "in_strs (VStr (rp_mode p)) [''simulation'', ''hardware''] = Ret True"
    using assms by (auto simp: robot_wf_def)
  have k: "only_keys [(VStr ''name'', VStr (rp_name p)), (VStr ''mode'', VStr (rp_mode p)),
     (VStr ''namespace'', VStr (rp_namespace p)), (VStr ''frames'', frames_doc (rp_frames p)),
     (VStr ''adapter'', VDict [(VStr ''kind'', VStr (rp_adapter_kind p))]),
     (VStr ''interfaces'', interfaces_doc (rp_interfaces p)),
     (VStr ''limits'', limits_doc (rp_limits p)), (VStr ''safety'', safety_doc (rp_safety p)),
     (VStr ''observation_sources'', VList (map VStr (rp_observation_sources p)))] robot_keys = Ret ()"
    by (simp add: py_simps robot_keys_def)
  show ?thesis
    unfolding robot_from_mapping_def robot_doc_def mapping_of.simps rbind.simps k required_keys_def
    using assms
    by (simp add: robot_wf_def robot_keys_def dkeys_def py_simps m a frames_roundtrip text_ok_text_of
        interfaces_roundtrip limits_roundtrip safety_roundtrip string_list_roundtrip
        del: text_of.simps rbind_Inr_iff text_of_Inr string_list.simps)
qed

lemma list_all_finite_docs: "list_all finite_numbers (map VStr ss)"
  by (induction ss) auto

lemma robot_doc_finite: "finite_numbers (robot_doc p)"
  by (auto simp: robot_doc_def frames_doc_def interfaces_doc_def limits_doc_def safety_doc_def
      opt_doc_def num_doc_def iface_doc_def list_all_iff split: option.split address.split)

lemma load_profile_Inr:
  "load_profile nm fm st n = Ret p \<longleftrightarrow>
     profile_name_ok n \<and> \<not> ps_escapes st n \<and>
     (\<exists>raw. ps_read st n = Document raw \<and> finite_numbers raw \<and> fm raw = Ret p \<and> nm p = n)"
  by (cases "ps_read st n") (auto simp: load_profile_def)

section \<open>The repository's own profile\<close>

text \<open>\<^verbatim>\<open>profiles/robots/hospital-amr.yaml\<close>, with its numbers as the floats they read as.\<close>

definition hospital_amr :: robot_profile where
  "hospital_amr = \<lparr>rp_name = ''hospital-amr'', rp_mode = ''simulation'', rp_namespace = ''/hospital_amr'',
     rp_frames = [(''base'', ''base_link''), (''odom'', ''odom'')],
     rp_adapter_kind = ''hospital_delivery'',
     rp_interfaces = \<lparr>
       ri_command = Some \<lparr>if_type = TWIST_TYPE, if_topic = Some ''/cmd_vel'', if_action = None\<rparr>,
       ri_odometry = Some \<lparr>if_type = ODOMETRY_TYPE, if_topic = Some ''/odom'', if_action = None\<rparr>,
       ri_navigation = None, ri_trajectory = None\<rparr>,
     rp_limits = \<lparr>max_linear_velocity = 7926335344172073 / 36028797018963968,
       max_angular_velocity = 1, max_linear_acceleration = 1 / 2, max_angular_acceleration = 1\<rparr>,
     rp_safety = \<lparr>heartbeat_timeout = Some 1, estop_topic = Some ''/emergency_stop''\<rparr>,
     rp_observation_sources = [''odometry'', ''camera'', ''scan'']\<rparr>"

definition hospital_store :: "pyval \<Rightarrow> profile_store" where
  "hospital_store doc = \<lparr>ps_escapes = (\<lambda>_. False), ps_read = (\<lambda>n. Document doc)\<rparr>"

lemma text_ok_eval: "text_ok s \<longleftrightarrow> (\<exists>c \<in> set s. \<not> py_space c)"
  by (simp add: text_ok_def strip_nonempty_iff)

lemma hospital_amr_wf: "robot_wf hospital_amr"
  by (simp add: robot_wf_def hospital_amr_def text_ok_eval py_space_def ADAPTER_KINDS_def iface_ok_def
      validate_adapter_interfaces_def typed_iface_def hospital_confined_def iface_at_def limits_ok_def
      safety_ok_def TWIST_TYPE_def ODOMETRY_TYPE_def)

lemma hospital_name_ok: "profile_name_ok ''hospital-amr''"
  by (simp add: profile_name_ok_def is_lower_def is_digit_def in_range_def)

lemma hospital_amr_loads: "load_robot_profile repr (hospital_store (robot_doc hospital_amr)) ''hospital-amr'' = Ret hospital_amr"
  using hospital_amr_wf hospital_name_ok
  by (simp add: load_robot_profile_def load_profile_Inr hospital_store_def robot_doc_finite robot_roundtrip hospital_amr_def)



text \<open>
  Validation is complete: the document of any well-formed robot profile is accepted, and what
  it yields is that profile, field for field.
\<close>
theorem wf_robot_profile_loads:
  assumes "robot_wf p" "profile_name_ok (rp_name p)" "\<not> ps_escapes st (rp_name p)"
    and "ps_read st (rp_name p) = Document (robot_doc p)"
  shows "load_robot_profile repr st (rp_name p) = Ret p"
  using assms by (simp add: load_robot_profile_def load_profile_Inr robot_doc_finite robot_roundtrip)

theorem wf_robot_profile_loads_witness:
  "load_robot_profile (\<lambda>_. []) (hospital_store (robot_doc hospital_amr)) (rp_name hospital_amr)
    = Ret hospital_amr"
  using hospital_amr_wf hospital_name_ok
  by (intro wf_robot_profile_loads) (simp_all add: hospital_store_def hospital_amr_def)

text \<open>
  A task profile that the loader returns has at least one stage, stages with distinct
  non-blank names and positive finite tolerances and timeouts, non-empty sensor and evidence names
  and a known recovery policy, and carries the requested name.
\<close>
theorem loaded_task_profile_wf:
  assumes "load_task_profile st name = Ret t"
  shows "task_wf t \<and> tp_name t = name \<and> profile_name_ok name"
  using assms task_from_mapping_wf by (auto simp: load_task_profile_def load_profile_Inr)

definition delivery_doc :: pyval where
  "delivery_doc = VDict [(VStr ''name'', VStr ''hospital-delivery''),
     (VStr ''robot_profile'', VStr ''hospital-amr''),
     (VStr ''stages'', VList [VDict [(VStr ''name'', VStr ''corridor-to-pharmacy''),
        (VStr ''goal'', VDict [(VStr ''frame'', VStr ''world''), (VStr ''x'', VFloat (Fin (37 / 2))),
           (VStr ''y'', VFloat (Fin (7 / 2))), (VStr ''yaw'', VFloat (Fin 0))]),
        (VStr ''tolerance'', VFloat (Fin (1 / 2))), (VStr ''timeout'', VFloat (Fin 60))]]),
     (VStr ''required_sensors'', VList [VStr ''odometry'', VStr ''camera'']),
     (VStr ''evidence'', VDict [(VStr ''sources'', VList [VStr ''odometry''])]),
     (VStr ''recovery_policy'', VStr ''cancel_and_stop'')]"

definition delivery_task :: task_profile where
  "delivery_task = \<lparr>tp_name = ''hospital-delivery'', tp_robot_profile = ''hospital-amr'',
     tp_stages = [\<lparr>ts_name = ''corridor-to-pharmacy'',
        ts_goal = \<lparr>pg_frame = ''world'', pg_x = 37 / 2, pg_y = 7 / 2, pg_yaw = 0\<rparr>,
        ts_tolerance = 1 / 2, ts_timeout = 60\<rparr>],
     tp_required_sensors = [''odometry'', ''camera''], tp_evidence_sources = [''odometry''],
     tp_recovery_policy = ''cancel_and_stop''\<rparr>"

lemma text_of_eval: "(\<exists>c \<in> set s. \<not> py_space c) \<Longrightarrow> text_of (VStr s) = Ret s"
  by (simp add: strip_nonempty_iff)

lemmas result_iffs = rbind_Inr_iff text_of_Inr mapping_of_Inr finite_positive_Inr finite_num_Inr
  text_of.simps stages_of.simps stage_list_Inr

lemma delivery_loads:
  "load_task_profile (hospital_store delivery_doc) ''hospital-delivery'' = Ret delivery_task"
proof -
  have n: "profile_name_ok ''hospital-delivery''"
    by (simp add: profile_name_ok_def is_lower_def is_digit_def in_range_def)
  have s: "stages_of [] [VDict [(VStr ''name'', VStr ''corridor-to-pharmacy''),
        (VStr ''goal'', VDict [(VStr ''frame'', VStr ''world''), (VStr ''x'', VFloat (Fin (37 / 2))),
           (VStr ''y'', VFloat (Fin (7 / 2))), (VStr ''yaw'', VFloat (Fin 0))]),
        (VStr ''tolerance'', VFloat (Fin (1 / 2))), (VStr ''timeout'', VFloat (Fin 60))]]
      = Ret (tp_stages delivery_task)"
    unfolding stages_of.simps
    by (simp add: delivery_task_def stage_of_def goal_of_def py_simps text_of_eval py_space_def
        finite_positive_def finite_num_def finite_float_def del: result_iffs)
  have "task_from_mapping delivery_doc = Ret delivery_task"
    unfolding task_from_mapping_def delivery_doc_def
    by (simp add: py_simps task_keys_def required_keys_def dkeys_def s evidence_of_def
        in_strs_def text_of_eval py_space_def del: result_iffs) (simp add: delivery_task_def)
  then show ?thesis
    by (simp add: load_task_profile_def load_profile_Inr hospital_store_def n delivery_task_def)
      (simp add: delivery_doc_def)
qed

theorem loaded_task_profile_wf_witness:
  "load_task_profile (hospital_store delivery_doc) ''hospital-delivery'' = Ret delivery_task \<and>
   task_wf delivery_task"
  using delivery_loads loaded_task_profile_wf [OF delivery_loads] by blast

text \<open>
  On a plain document (string keys, integers within float range) whose \<^verbatim>\<open>mode\<close> and
  adapter kind are not lists or dictionaries, the only exception that leaves robot profile
  validation is \<^verbatim>\<open>ProfileValidationError\<close>.
\<close>
theorem robot_validation_error:
  assumes "plain_doc (VDict d)" "hashable (vget d ''mode'')"
    and "\<And>a. vget d ''adapter'' = VDict a \<Longrightarrow> hashable (vget a ''kind'')"
    and "robot_from_mapping repr (VDict d) = Raise e"
  shows "e = ProfileValidationError"
  using errsD [OF robot_from_mapping_plain [OF assms(1,2,3)] assms(4)] by simp

theorem robot_validation_error_witness:
  "robot_from_mapping (\<lambda>_. []) (VDict []) = Raise ProfileValidationError"
proof -
  obtain e where e: "robot_from_mapping (\<lambda>_. []) (VDict []) = Raise e"
    by (simp add: robot_from_mapping_def required_keys_def only_keys_eval robot_keys_def dkeys_def)
  with robot_validation_error [of "[]" "\<lambda>_. []" e] show ?thesis by (simp add: vget_def)
qed

text \<open>
  Outside such documents validation leaks built-in exceptions instead of rejecting the
  profile: a list as \<^verbatim>\<open>mode\<close> and two unknown keys of different types raise
  \<^verbatim>\<open>TypeError\<close>, and an integer beyond the range of a float as a limit raises
  \<^verbatim>\<open>OverflowError\<close>.
\<close>
theorem robot_validation_leaks:
  "robot_from_mapping repr (VDict (dset (VStr ''mode'') (VList [])
      (case robot_doc hospital_amr of VDict d \<Rightarrow> d))) = Raise PyTypeError \<and>
   robot_from_mapping repr (VDict [(VInt 1, VNone), (VStr ''extra'', VNone)]) = Raise PyTypeError \<and>
   finite_positive (VInt (2 ^ 1024)) = Raise PyOverflowError"
proof (intro conjI)
  show "robot_from_mapping repr (VDict (dset (VStr ''mode'') (VList [])
      (case robot_doc hospital_amr of VDict d \<Rightarrow> d))) = Raise PyTypeError"
    by (simp add: robot_from_mapping_def robot_doc_def py_simps robot_keys_def required_keys_def
        dkeys_def in_strs_def text_of_eval py_space_def hospital_amr_def del: result_iffs)
  show "robot_from_mapping repr (VDict [(VInt 1, VNone), (VStr ''extra'', VNone)]) = Raise PyTypeError"
    by (simp add: robot_from_mapping_def only_keys_def unexpected_keys_def dkeys_def robot_keys_def
        Let_def)
  have "float_of_int (2 ^ 1024) = Raise PyOverflowError" by (rule float_of_int_overflow) simp
  then show "finite_positive (VInt (2 ^ 1024)) = Raise PyOverflowError"
    unfolding finite_positive_def finite_float_def is_number.simps py_float.simps by simp
qed

end
