(* ===== verification/Safety.thy ===== *)
theory Safety
  imports PyValue
begin

text \<open>
  The vocabulary of the safety layer: the authorization states of
  \<^verbatim>\<open>agent_ros/safety/state.py\<close>, the structured result of an emergency stop of
  \<^verbatim>\<open>agent_ros/safety/outcome.py\<close>, the transition receipts of
  \<^verbatim>\<open>agent_ros/safety/gateway.py\<close> and the stable public codes of
  \<^verbatim>\<open>agent_ros/runtime/errors.py\<close>.
\<close>

section \<open>States\<close>

datatype safety_state = NEW | DISCOVERED | VALIDATED | ARMED | RUNNING | STOPPED | FAULTED | ESTOPPED

instantiation safety_state :: enum
begin

definition enum_safety_state :: "safety_state list" where
  "enum_safety_state = [NEW, DISCOVERED, VALIDATED, ARMED, RUNNING, STOPPED, FAULTED, ESTOPPED]"

definition enum_all_safety_state :: "(safety_state \<Rightarrow> bool) \<Rightarrow> bool" where
  "enum_all_safety_state P = list_all P Enum.enum"

definition enum_ex_safety_state :: "(safety_state \<Rightarrow> bool) \<Rightarrow> bool" where
  "enum_ex_safety_state P = list_ex P Enum.enum"

instance
proof
  show u: "(UNIV :: safety_state set) = set Enum.enum"
  proof (rule set_eqI)
    fix x :: safety_state
    show "x \<in> UNIV \<longleftrightarrow> x \<in> set Enum.enum" by (cases x) (simp_all add: enum_safety_state_def)
  qed
  show "distinct (Enum.enum :: safety_state list)" by (simp add: enum_safety_state_def)
  show "enum_class.enum_all P = Ball UNIV P" for P :: "safety_state \<Rightarrow> bool"
    by (simp only: enum_all_safety_state_def u list_all_iff)
  show "enum_class.enum_ex P = Bex UNIV P" for P :: "safety_state \<Rightarrow> bool"
    by (simp only: enum_ex_safety_state_def u list_ex_iff)
qed

end

fun state_value :: "safety_state \<Rightarrow> string" where
  "state_value NEW = ''NEW''"
| "state_value DISCOVERED = ''DISCOVERED''"
| "state_value VALIDATED = ''VALIDATED''"
| "state_value ARMED = ''ARMED''"
| "state_value RUNNING = ''RUNNING''"
| "state_value STOPPED = ''STOPPED''"
| "state_value FAULTED = ''FAULTED''"
| "state_value ESTOPPED = ''ESTOPPED''"

text \<open>\<^verbatim>\<open>SafetyState(v)\<close>: the member of that value, \<^verbatim>\<open>ValueError\<close> otherwise.\<close>

fun state_of :: "pyval \<Rightarrow> safety_state result" where
  "state_of (VStr s) =
     (case find (\<lambda>x. state_value x = s) Enum.enum of Some x \<Rightarrow> Ret x | None \<Rightarrow> Raise PyValueError)"
| "state_of _ = Raise PyValueError"

lemma state_of_value [simp]: "state_of (VStr (state_value x)) = Ret x"
  by (cases x) (simp_all add: enum_safety_state_def)

lemma state_of_Inr: "state_of v = Ret x \<Longrightarrow> v = VStr (state_value x)"
  by (cases v) (auto simp: find_Some_iff split: option.splits)

section \<open>Emergency stop results and transitions\<close>

record stop_result =
  sr_latched :: bool
  sr_quiesced :: bool
  sr_accepted :: bool
  sr_code :: string

definition mk_stop :: "bool \<Rightarrow> bool \<Rightarrow> bool \<Rightarrow> string \<Rightarrow> stop_result" where
  "mk_stop l q a c = \<lparr>sr_latched = l, sr_quiesced = q, sr_accepted = a, sr_code = c\<rparr>"

definition successful :: "stop_result \<Rightarrow> bool" where
  "successful r \<longleftrightarrow> sr_latched r \<and> sr_quiesced r \<and> sr_accepted r"

record transition =
  tr_sequence :: nat
  tr_before :: safety_state
  tr_after :: safety_state
  tr_stop :: "stop_result option"

definition safety_enqueue_accepted :: "transition \<Rightarrow> bool" where
  "safety_enqueue_accepted t = (case tr_stop t of None \<Rightarrow> True | Some r \<Rightarrow> sr_accepted r)"

lemma mk_stop_sel [simp]:
  "sr_latched (mk_stop l q a c) = l" "sr_quiesced (mk_stop l q a c) = q"
  "sr_accepted (mk_stop l q a c) = a" "sr_code (mk_stop l q a c) = c"
  by (simp_all add: mk_stop_def)

section \<open>Stable public codes\<close>

definition PUBLIC_CODES :: "string list" where
  "PUBLIC_CODES = [''UNSAFE_STATE'', ''PROFILE_INVALID'', ''CONTROLLER_CONFLICT'', ''STALE_FEEDBACK'',
     ''TIMEOUT'', ''EVIDENCE_INVALID'', ''AUDIT_INTEGRITY_COMPROMISED'', ''ESTOP_LATCHED'',
     ''OPERATOR_REQUIRED'', ''CLEANUP_FAILED'']"

text \<open>\<^verbatim>\<open>RuntimeControllerError(code)\<close>: an unknown code becomes \<^verbatim>\<open>UNSAFE_STATE\<close>.\<close>

definition controller_error :: "string \<Rightarrow> py_exn" where
  "controller_error code =
     RuntimeControllerError (if code \<in> set PUBLIC_CODES then code else ''UNSAFE_STATE'')"

lemma controller_error_public:
  "controller_error c = RuntimeControllerError c' \<Longrightarrow> c' \<in> set PUBLIC_CODES"
  by (auto simp: controller_error_def PUBLIC_CODES_def split: if_splits)

end
