(* ===== verification/Machines.thy ===== *)
theory Machines
  imports Prelude
begin

text \<open>
  The contracts several components share, as locales over a step relation: a machine with
  an invariant, and a machine with a latch, that is a condition that no step ever clears
  and under which some activity of the machine is frozen.
\<close>

locale machine =
  fixes step :: "'s \<Rightarrow> 's \<Rightarrow> bool"
    and inv :: "'s \<Rightarrow> bool"
  assumes inv_step: "step s t \<Longrightarrow> inv s \<Longrightarrow> inv t"
begin

lemma inv_steps: "step\<^sup>*\<^sup>* s t \<Longrightarrow> inv s \<Longrightarrow> inv t"
  by (induction rule: rtranclp_induct) (auto intro: inv_step)

end

locale latching = machine +
  fixes latched :: "'s \<Rightarrow> bool"
    and activity :: "'s \<Rightarrow> 'a"
  assumes latch_step: "step s t \<Longrightarrow> inv s \<Longrightarrow> latched s \<Longrightarrow> latched t"
    and frozen_step: "step s t \<Longrightarrow> inv s \<Longrightarrow> latched s \<Longrightarrow> activity t = activity s"
begin

lemma latched_steps:
  assumes "step\<^sup>*\<^sup>* s t" "inv s" "latched s"
  shows "latched t \<and> activity t = activity s"
  using assms
proof (induction rule: rtranclp_induct)
  case (step t u)
  then have "inv t" by (auto intro: inv_steps)
  with step show ?case using latch_step frozen_step by metis
qed simp

end

end
