(* ===== verification/Sequencer.thy ===== *)
theory Sequencer
  imports Safety Machines
begin

text \<open>
  The activation sequencer of \<^verbatim>\<open>agent_ros/safety/sequencer.py\<close>: a bounded queue of
  activation commands run by one worker thread, linearized with the emergency latch. Every
  region under the condition variable is one step; the worker's own code between two such
  regions is split where the lock is released. \<open>sq_started\<close> and \<open>sq_owned\<close> are
  history variables: the receipts whose command the worker has begun to run, and the number
  of commands run at the boundary by \<^verbatim>\<open>submit_owned\<close>.
\<close>

section \<open>State\<close>

definition QUEUE_CAPACITY :: nat where "QUEUE_CAPACITY = 16"

datatype worker_thread = NoThread | Alive | Dead

datatype worker_pc = Idle | Running nat | Finishing nat

record 'v receipt =
  rc_generation :: nat
  rc_done :: "'v result option"

record 'v sequencer =
  sq_accepting :: bool
  sq_closed :: bool
  sq_failed :: bool
  sq_generation :: nat
  sq_latched :: bool
  sq_queue :: "nat list"
  sq_in_flight :: "nat option"
  sq_thread :: worker_thread
  sq_receipts :: "'v receipt list"
  sq_worker :: worker_pc
  sq_started :: "nat list"
  sq_owned :: nat

definition seq_init :: "'v sequencer" where
  "seq_init = \<lparr>sq_accepting = False, sq_closed = False, sq_failed = False, sq_generation = 0,
     sq_latched = False, sq_queue = [], sq_in_flight = None, sq_thread = NoThread,
     sq_receipts = [], sq_worker = Idle, sq_started = [], sq_owned = 0\<rparr>"

text \<open>A permit is the sequencer's own, with its generation, or not.\<close>

datatype permit = Foreign | Permit nat

section \<open>Operations under the lock\<close>

definition complete :: "nat \<Rightarrow> 'v result \<Rightarrow> 'v sequencer \<Rightarrow> 'v sequencer" where
  "complete rid r s =
     (if rid < length (sq_receipts s) \<and> rc_done (sq_receipts s ! rid) = None
      then s\<lparr>sq_receipts := (sq_receipts s)[rid := (sq_receipts s ! rid)\<lparr>rc_done := Some r\<rparr>]\<rparr>
      else s)"

definition reject_queued :: "string \<Rightarrow> 'v sequencer \<Rightarrow> 'v sequencer" where
  "reject_queued code s =
     (fold (\<lambda>rid. complete rid (Raise (ActivationRejected code))) (sq_queue s) s)\<lparr>sq_queue := []\<rparr>"

definition latch :: "string \<Rightarrow> 'v sequencer \<Rightarrow> 'v sequencer" where
  "latch code s = reject_queued code (s\<lparr>sq_generation := Suc (sq_generation s), sq_latched := True\<rparr>)"

definition worker_ready :: "'v sequencer \<Rightarrow> bool \<times> 'v sequencer" where
  "worker_ready s =
     (if sq_thread s = NoThread \<or> \<not> sq_accepting s \<or> sq_closed s \<or> sq_failed s \<or> sq_thread s = Dead
      then (False,
        if sq_thread s = Dead \<and> \<not> sq_closed s
        then latch ''UNSAFE_STATE'' (s\<lparr>sq_failed := True, sq_accepting := False\<rparr>) else s)
      else (True, s))"

text \<open>What the thread factory does: the start raises, or the thread is dead or alive after it.\<close>

datatype spawn = SpawnRaises | SpawnDead | SpawnAlive

definition seq_start :: "spawn \<Rightarrow> 'v sequencer \<Rightarrow> bool \<times> 'v sequencer" where
  "seq_start sp s =
     (if sq_thread s \<noteq> NoThread then worker_ready s
      else if sq_closed s \<or> sq_failed s then (False, s)
      else case sp of
        SpawnRaises \<Rightarrow> (False, s\<lparr>sq_failed := True\<rparr>)
      | SpawnDead \<Rightarrow> (False, s\<lparr>sq_failed := True\<rparr>)
      | SpawnAlive \<Rightarrow> (True, s\<lparr>sq_thread := Alive, sq_accepting := True\<rparr>))"

abbreviation rejected :: "string \<Rightarrow> 'a result" where
  "rejected code \<equiv> Raise (ActivationRejected code)"

definition issue :: "'v sequencer \<Rightarrow> permit result \<times> 'v sequencer" where
  "issue s =
     (if sq_closed s \<or> sq_failed s then (rejected ''UNSAFE_STATE'', s)
      else
        (let (ready, s1) = (if sq_thread s \<noteq> NoThread then worker_ready s else (True, s)) in
         if \<not> ready then (rejected ''UNSAFE_STATE'', s1)
         else if sq_latched s1 then (rejected ''ESTOP_LATCHED'', s1)
         else (Ret (Permit (sq_generation s1)), s1)))"

text \<open>
  \<^verbatim>\<open>_deadline\<close>: a timeout that is not a finite number is rejected;
  \<^verbatim>\<open>math.isfinite\<close> itself raises on an integer no float can hold.
\<close>

definition seq_deadline :: "pyfloat \<Rightarrow> pyval \<Rightarrow> pyfloat result" where
  "seq_deadline now timeout =
     (if \<not> is_number timeout then rejected ''PROFILE_INVALID''
      else rbind (py_float timeout) (\<lambda>t.
        if \<not> is_fin t then rejected ''PROFILE_INVALID'' else Ret (fadd now (fmax (Fin 0) t))))"

text \<open>\<^verbatim>\<open>_require_owned_locked\<close> and the two checks that follow it in every entry point.\<close>

definition admit :: "permit \<Rightarrow> 'v sequencer \<Rightarrow> unit result \<times> 'v sequencer" where
  "admit p s =
     (case p of
        Foreign \<Rightarrow> (rejected ''PROFILE_INVALID'', s)
      | Permit g \<Rightarrow>
          (let (ready, s1) = worker_ready s in
           if \<not> ready then (rejected ''UNSAFE_STATE'', s1)
           else if sq_latched s1 \<or> g \<noteq> sq_generation s1 then (rejected ''ESTOP_LATCHED'', s1)
           else (Ret (), s1)))"

text \<open>The first region of \<^verbatim>\<open>submit\<close>: admission, the full queue, the enqueue.\<close>

definition submit_enqueue ::
  "pyfloat \<Rightarrow> pyval \<Rightarrow> permit \<Rightarrow> bool \<Rightarrow> 'v sequencer \<Rightarrow> nat result \<times> 'v sequencer" where
  "submit_enqueue now timeout p is_callable s =
     (case seq_deadline now timeout of Inl e \<Rightarrow> (Raise e, s) | Inr _ \<Rightarrow>
      if \<not> is_callable then (rejected ''PROFILE_INVALID'', s)
      else
        (case admit p s of
           (Inl e, s1) \<Rightarrow> (Raise e, s1)
         | (Inr _, s1) \<Rightarrow>
             if QUEUE_CAPACITY \<le> length (sq_queue s1)
             then (rejected ''UNSAFE_STATE'', latch ''ESTOP_LATCHED'' s1)
             else (Ret (length (sq_receipts s1)),
                   s1\<lparr>sq_receipts := sq_receipts s1 @
                        [\<lparr>rc_generation = (case p of Permit g \<Rightarrow> g | Foreign \<Rightarrow> 0), rc_done = None\<rparr>],
                      sq_queue := sq_queue s1 @ [length (sq_receipts s1)]\<rparr>)))"

text \<open>The second region: the wait ran out and the receipt is still open.\<close>

definition submit_expire :: "nat \<Rightarrow> 'v sequencer \<Rightarrow> 'v sequencer" where
  "submit_expire rid s =
     (if rid < length (sq_receipts s) \<and> rc_done (sq_receipts s ! rid) = None
      then latch ''ESTOP_LATCHED'' (complete rid (rejected ''TIMEOUT'') s) else s)"

text \<open>What \<^verbatim>\<open>submit\<close> returns once the receipt is done.\<close>

definition submit_result :: "nat \<Rightarrow> 'v sequencer \<Rightarrow> 'v result option" where
  "submit_result rid s = (if rid < length (sq_receipts s) then rc_done (sq_receipts s ! rid) else None)"

definition submit_owned :: "permit \<Rightarrow> bool \<Rightarrow> 'v result \<Rightarrow> 'v sequencer \<Rightarrow> 'v result \<times> 'v sequencer" where
  "submit_owned p is_callable command s =
     (if \<not> is_callable then (rejected ''PROFILE_INVALID'', s)
      else
        (case admit p s of
           (Inl e, s1) \<Rightarrow> (Raise e, s1)
         | (Inr _, s1) \<Rightarrow> (command, s1\<lparr>sq_owned := Suc (sq_owned s1)\<rparr>)))"

text \<open>
  \<^verbatim>\<open>latch_and_quiesce\<close>: the latch and the zero command under the lock, then the wait
  for the command in flight, then the result. The zero command is an argument: whether it
  was accepted.
\<close>

definition latch_begin :: "bool \<Rightarrow> 'v sequencer \<Rightarrow> bool \<times> 'v sequencer" where
  "latch_begin zero_ok s = (zero_ok, latch ''ESTOP_LATCHED'' s)"

definition latch_code :: "bool \<Rightarrow> bool \<Rightarrow> string" where
  "latch_code quiesced accepted =
     (if \<not> quiesced then ''TRANSPORT_UNQUIESCED''
      else if accepted then ''ESTOP_LATCHED'' else ''SAFETY_COMMAND_REJECTED'')"

definition latch_end :: "bool \<Rightarrow> 'v sequencer \<Rightarrow> stop_result" where
  "latch_end accepted s =
     (let quiesced = (sq_in_flight s = None) in
      mk_stop True quiesced accepted (latch_code quiesced accepted))"

text \<open>The call as a whole, when no other thread runs while it waits.\<close>

definition latch_and_quiesce ::
  "pyfloat \<Rightarrow> pyval \<Rightarrow> bool \<Rightarrow> bool \<Rightarrow> 'v sequencer \<Rightarrow> stop_result result \<times> 'v sequencer" where
  "latch_and_quiesce now timeout is_callable zero_ok s =
     (case seq_deadline now timeout of Inl e \<Rightarrow> (Raise e, s) | Inr _ \<Rightarrow>
      if \<not> is_callable then (Ret (mk_stop True True False ''SAFETY_COMMAND_REJECTED''), s)
      else (let (accepted, s1) = latch_begin zero_ok s in (Ret (latch_end accepted s1), s1)))"

definition begin_close :: "'v sequencer \<Rightarrow> 'v sequencer" where
  "begin_close s =
     (if sq_closed s then s
      else reject_queued ''UNSAFE_STATE''
        (s\<lparr>sq_closed := True, sq_accepting := False, sq_generation := Suc (sq_generation s),
           sq_latched := True\<rparr>))"

definition close_result :: "'v sequencer \<Rightarrow> bool" where
  "close_result s =
     (if sq_thread s = NoThread then True
      else sq_thread s \<noteq> Alive \<and> sq_queue s = [] \<and> sq_in_flight s = None \<and> \<not> sq_failed s)"

definition is_current :: "permit \<Rightarrow> 'v sequencer \<Rightarrow> bool \<times> 'v sequencer" where
  "is_current p s =
     (case p of Foreign \<Rightarrow> (False, s) | Permit g \<Rightarrow>
        (let (ready, s1) = worker_ready s in
         (ready \<and> \<not> sq_latched s1 \<and> g = sq_generation s1, s1)))"

definition require_current :: "permit \<Rightarrow> 'v sequencer \<Rightarrow> unit result \<times> 'v sequencer" where
  "require_current p s = admit p s"

definition pending_count :: "'v sequencer \<Rightarrow> nat" where
  "pending_count s = length (sq_queue s)"

definition worker_alive :: "'v sequencer \<Rightarrow> bool" where
  "worker_alive s \<longleftrightarrow> sq_thread s = Alive"

section \<open>The worker\<close>

definition work_take :: "'v sequencer \<Rightarrow> 'v sequencer" where
  "work_take s =
     (case sq_queue s of
        [] \<Rightarrow> s
      | rid # rest \<Rightarrow>
          (let s1 = s\<lparr>sq_queue := rest\<rparr> in
           if sq_latched s1 \<or> rc_generation (sq_receipts s1 ! rid) \<noteq> sq_generation s1
           then complete rid (rejected ''ESTOP_LATCHED'') s1
           else s1\<lparr>sq_in_flight := Some rid, sq_worker := Running rid,
                   sq_started := sq_started s1 @ [rid]\<rparr>))"

definition work_ok :: "nat \<Rightarrow> 'v \<Rightarrow> 'v sequencer \<Rightarrow> 'v sequencer" where
  "work_ok rid v s = (complete rid (Ret v) s)\<lparr>sq_worker := Finishing rid\<rparr>"

definition work_err :: "nat \<Rightarrow> py_exn \<Rightarrow> 'v sequencer \<Rightarrow> 'v sequencer" where
  "work_err rid e s =
     (let s1 = complete rid (Raise e) s in
      (reject_queued ''UNSAFE_STATE''
        (s1\<lparr>sq_failed := True, sq_accepting := False, sq_generation := Suc (sq_generation s1),
            sq_latched := True\<rparr>))\<lparr>sq_worker := Finishing rid\<rparr>)"

definition work_clear :: "nat \<Rightarrow> 'v sequencer \<Rightarrow> 'v sequencer" where
  "work_clear rid s =
     (if sq_in_flight s = Some rid then s\<lparr>sq_in_flight := None, sq_worker := Idle\<rparr>
      else s\<lparr>sq_worker := Idle\<rparr>)"

section \<open>Steps\<close>

inductive seq_step :: "'v sequencer \<Rightarrow> 'v sequencer \<Rightarrow> bool" where
  start: "seq_step s (snd (seq_start sp s))"
| issue: "seq_step s (snd (issue s))"
| submit: "seq_step s (snd (submit_enqueue now timeout p c s))"
| expire: "seq_step s (submit_expire rid s)"
| owned: "seq_step s (snd (submit_owned p c cmd s))"
| latch: "seq_step s (snd (latch_begin z s))"
| close: "seq_step s (begin_close s)"
| query: "seq_step s (snd (is_current p s))"
| require: "seq_step s (snd (require_current p s))"
| take: "sq_thread s = Alive \<Longrightarrow> sq_worker s = Idle \<Longrightarrow> sq_queue s \<noteq> [] \<Longrightarrow> seq_step s (work_take s)"
| ok: "sq_thread s = Alive \<Longrightarrow> sq_worker s = Running rid \<Longrightarrow> seq_step s (work_ok rid v s)"
| err: "sq_thread s = Alive \<Longrightarrow> sq_worker s = Running rid \<Longrightarrow> seq_step s (work_err rid e s)"
| clear: "sq_thread s = Alive \<Longrightarrow> sq_worker s = Finishing rid \<Longrightarrow> seq_step s (work_clear rid s)"
| exits: "sq_thread s = Alive \<Longrightarrow> sq_worker s = Idle \<Longrightarrow> sq_queue s = [] \<Longrightarrow> \<not> sq_accepting s \<Longrightarrow>
     seq_step s (s\<lparr>sq_thread := Dead\<rparr>)"
| dies: "sq_thread s = Alive \<Longrightarrow> seq_step s (s\<lparr>sq_thread := Dead\<rparr>)"


inductive_simps seq_step_iff: "seq_step s t"

section \<open>Frames\<close>

lemma complete_frame [simp]:
  "sq_accepting (complete i r s) = sq_accepting s" "sq_closed (complete i r s) = sq_closed s"
  "sq_failed (complete i r s) = sq_failed s" "sq_generation (complete i r s) = sq_generation s"
  "sq_latched (complete i r s) = sq_latched s" "sq_queue (complete i r s) = sq_queue s"
  "sq_in_flight (complete i r s) = sq_in_flight s" "sq_thread (complete i r s) = sq_thread s"
  "sq_worker (complete i r s) = sq_worker s" "sq_started (complete i r s) = sq_started s"
  "sq_owned (complete i r s) = sq_owned s"
  "length (sq_receipts (complete i r s)) = length (sq_receipts s)"
  by (simp_all add: complete_def)

definition receipt_done :: "'v sequencer \<Rightarrow> nat \<Rightarrow> 'v result option" where
  "receipt_done s rid = (if rid < length (sq_receipts s) then rc_done (sq_receipts s ! rid) else None)"

lemma complete_done [simp]:
  "rid < length (sq_receipts s) \<Longrightarrow> receipt_done (complete i r s) rid =
     (if rid = i \<and> receipt_done s rid = None then Some r else receipt_done s rid)"
  by (auto simp: complete_def receipt_done_def nth_list_update)

lemma complete_generation [simp]:
  "rc_generation (sq_receipts (complete i r s) ! j) = rc_generation (sq_receipts s ! j)"
  by (cases "i < length (sq_receipts s)") (auto simp: complete_def nth_list_update)

lemma fold_complete_frame [simp]:
  "sq_accepting (fold (\<lambda>i. complete i r) is s) = sq_accepting s"
  "sq_closed (fold (\<lambda>i. complete i r) is s) = sq_closed s"
  "sq_failed (fold (\<lambda>i. complete i r) is s) = sq_failed s"
  "sq_generation (fold (\<lambda>i. complete i r) is s) = sq_generation s"
  "sq_latched (fold (\<lambda>i. complete i r) is s) = sq_latched s"
  "sq_in_flight (fold (\<lambda>i. complete i r) is s) = sq_in_flight s"
  "sq_thread (fold (\<lambda>i. complete i r) is s) = sq_thread s"
  "sq_worker (fold (\<lambda>i. complete i r) is s) = sq_worker s"
  "sq_started (fold (\<lambda>i. complete i r) is s) = sq_started s"
  "sq_owned (fold (\<lambda>i. complete i r) is s) = sq_owned s"
  "length (sq_receipts (fold (\<lambda>i. complete i r) is s)) = length (sq_receipts s)"
  by (induction "is" arbitrary: s) simp_all

lemma fold_complete_done:
  "rid < length (sq_receipts s) \<Longrightarrow> receipt_done (fold (\<lambda>i. complete i r) is s) rid =
     (if rid \<in> set is \<and> receipt_done s rid = None then Some r else receipt_done s rid)"
  by (induction "is" arbitrary: s) auto

lemma reject_queued_frame [simp]:
  "sq_accepting (reject_queued c s) = sq_accepting s" "sq_closed (reject_queued c s) = sq_closed s"
  "sq_failed (reject_queued c s) = sq_failed s" "sq_generation (reject_queued c s) = sq_generation s"
  "sq_latched (reject_queued c s) = sq_latched s" "sq_queue (reject_queued c s) = []"
  "sq_in_flight (reject_queued c s) = sq_in_flight s" "sq_thread (reject_queued c s) = sq_thread s"
  "sq_worker (reject_queued c s) = sq_worker s" "sq_started (reject_queued c s) = sq_started s"
  "sq_owned (reject_queued c s) = sq_owned s"
  "length (sq_receipts (reject_queued c s)) = length (sq_receipts s)"
  by (simp_all add: reject_queued_def)

lemma receipt_done_cong [simp]:
  "receipt_done (s\<lparr>sq_queue := q\<rparr>) = receipt_done s"
  "receipt_done (s\<lparr>sq_generation := g\<rparr>) = receipt_done s"
  "receipt_done (s\<lparr>sq_latched := l\<rparr>) = receipt_done s"
  "receipt_done (s\<lparr>sq_accepting := a\<rparr>) = receipt_done s"
  "receipt_done (s\<lparr>sq_closed := c\<rparr>) = receipt_done s"
  "receipt_done (s\<lparr>sq_failed := f\<rparr>) = receipt_done s"
  "receipt_done (s\<lparr>sq_thread := t\<rparr>) = receipt_done s"
  "receipt_done (s\<lparr>sq_worker := w\<rparr>) = receipt_done s"
  "receipt_done (s\<lparr>sq_started := st\<rparr>) = receipt_done s"
  "receipt_done (s\<lparr>sq_in_flight := i\<rparr>) = receipt_done s"
  "receipt_done (s\<lparr>sq_owned := n\<rparr>) = receipt_done s"
  by (simp_all add: receipt_done_def fun_eq_iff)

lemma reject_queued_done [simp]:
  "rid < length (sq_receipts s) \<Longrightarrow> receipt_done (reject_queued c s) rid =
     (if rid \<in> set (sq_queue s) \<and> receipt_done s rid = None then Some (rejected c)
      else receipt_done s rid)"
  by (simp add: reject_queued_def fold_complete_done)

lemma latch_frame [simp]:
  "sq_accepting (latch c s) = sq_accepting s" "sq_closed (latch c s) = sq_closed s"
  "sq_failed (latch c s) = sq_failed s" "sq_generation (latch c s) = Suc (sq_generation s)"
  "sq_latched (latch c s) = True" "sq_queue (latch c s) = []"
  "sq_in_flight (latch c s) = sq_in_flight s" "sq_thread (latch c s) = sq_thread s"
  "sq_worker (latch c s) = sq_worker s" "sq_started (latch c s) = sq_started s"
  "sq_owned (latch c s) = sq_owned s"
  "length (sq_receipts (latch c s)) = length (sq_receipts s)"
  by (simp_all add: latch_def)

lemma latch_done [simp]:
  "rid < length (sq_receipts s) \<Longrightarrow> receipt_done (latch c s) rid =
     (if rid \<in> set (sq_queue s) \<and> receipt_done s rid = None then Some (rejected c)
      else receipt_done s rid)"
  by (simp add: latch_def)

section \<open>The invariant\<close>

definition worker_flight :: "worker_pc \<Rightarrow> nat option" where
  "worker_flight w = (case w of Idle \<Rightarrow> None | Running r \<Rightarrow> Some r | Finishing r \<Rightarrow> Some r)"

definition seq_inv :: "'v sequencer \<Rightarrow> bool" where
  "seq_inv s \<longleftrightarrow>
     (sq_latched s \<longleftrightarrow> 0 < sq_generation s) \<and> (sq_latched s \<longrightarrow> sq_queue s = []) \<and>
     length (sq_queue s) \<le> QUEUE_CAPACITY \<and> sorted_wrt (<) (sq_started s @ sq_queue s) \<and>
     (\<forall>rid \<in> set (sq_started s @ sq_queue s). rid < length (sq_receipts s)) \<and>
     (\<forall>rid \<in> set (sq_queue s). rc_generation (sq_receipts s ! rid) = sq_generation s) \<and>
     sq_in_flight s = worker_flight (sq_worker s) \<and>
     (\<forall>rid. sq_worker s = Running rid \<longrightarrow> rid \<in> set (sq_started s)) \<and>
     (sq_accepting s \<longrightarrow> \<not> sq_closed s \<and> \<not> sq_failed s \<and> sq_thread s \<noteq> NoThread) \<and>
     (sq_closed s \<longrightarrow> sq_latched s) \<and> (sq_thread s = NoThread \<longrightarrow> sq_queue s = []) \<and>
     (sq_thread s \<noteq> NoThread \<and> \<not> sq_accepting s \<longrightarrow> sq_latched s)"

text \<open>No receipt is lost, and only a command that was run has a value.\<close>

definition receipts_inv :: "'v sequencer \<Rightarrow> bool" where
  "receipts_inv s \<longleftrightarrow>
     (\<forall>rid < length (sq_receipts s).
        (receipt_done s rid = None \<longrightarrow> rid \<in> set (sq_queue s) \<or> sq_worker s = Running rid) \<and>
        (rid \<in> set (sq_queue s) \<longrightarrow> receipt_done s rid = None) \<and>
        (\<forall>v. receipt_done s rid = Some (Ret v) \<longrightarrow> rid \<in> set (sq_started s)))"

lemma seq_inv_init: "seq_inv seq_init" "receipts_inv seq_init"
  by (simp_all add: seq_inv_def receipts_inv_def seq_init_def worker_flight_def)


lemmas seq_ops = worker_ready_def admit_def issue_def submit_enqueue_def submit_expire_def
  submit_owned_def latch_begin_def begin_close_def is_current_def require_current_def seq_start_def

lemma latch_inv: "seq_inv s \<Longrightarrow> seq_inv (latch c s)"
  by (auto simp: seq_inv_def sorted_wrt_append)

lemma latch_receipts: "receipts_inv s \<Longrightarrow> receipts_inv (latch c s)"
  by (auto simp: receipts_inv_def)

lemma complete_inv: "seq_inv s \<Longrightarrow> seq_inv (complete i r s)"
  by (auto simp: seq_inv_def)

lemma seq_inv_fail:
  "seq_inv s \<Longrightarrow> seq_inv (latch c (s\<lparr>sq_failed := True, sq_accepting := False\<rparr>))"
  by (auto simp: seq_inv_def sorted_wrt_append)

lemma receipts_inv_cong [simp]:
  "receipts_inv (s\<lparr>sq_generation := g\<rparr>) = receipts_inv s" "receipts_inv (s\<lparr>sq_latched := l\<rparr>) = receipts_inv s"
  "receipts_inv (s\<lparr>sq_accepting := a\<rparr>) = receipts_inv s" "receipts_inv (s\<lparr>sq_closed := c\<rparr>) = receipts_inv s"
  "receipts_inv (s\<lparr>sq_failed := f\<rparr>) = receipts_inv s" "receipts_inv (s\<lparr>sq_thread := t\<rparr>) = receipts_inv s"
  "receipts_inv (s\<lparr>sq_in_flight := i\<rparr>) = receipts_inv s" "receipts_inv (s\<lparr>sq_owned := n\<rparr>) = receipts_inv s"
  by (simp_all add: receipts_inv_def)

lemma reject_queued_receipts: "receipts_inv s \<Longrightarrow> receipts_inv (reject_queued c s)"
  by (auto simp: receipts_inv_def)

lemma ready_inv: "seq_inv s \<Longrightarrow> seq_inv (snd (worker_ready s))"
  by (simp add: worker_ready_def seq_inv_fail)

lemma ready_receipts: "receipts_inv s \<Longrightarrow> receipts_inv (snd (worker_ready s))"
  by (simp add: worker_ready_def latch_receipts)

lemma ready_true: "fst (worker_ready s) \<Longrightarrow> snd (worker_ready s) = s \<and> sq_thread s = Alive \<and>
    sq_accepting s \<and> \<not> sq_closed s \<and> \<not> sq_failed s"
  by (cases "sq_thread s") (simp_all add: worker_ready_def split: if_splits)

lemma ready_cases:
  obtains (ready) "worker_ready s = (True, s)" "sq_thread s = Alive" "sq_accepting s" "\<not> sq_closed s"
    "\<not> sq_failed s"
  | (down) s1 where "worker_ready s = (False, s1)" "seq_inv s \<Longrightarrow> seq_inv s1"
    "receipts_inv s \<Longrightarrow> receipts_inv s1"
  using ready_true [of s] ready_inv [of s] ready_receipts [of s]
  by (cases "worker_ready s"; cases "fst (worker_ready s)") auto

lemma admit_cases:
  obtains (ok) g where "admit p s = (Ret (), s)" "p = Permit g" "g = sq_generation s" "\<not> sq_latched s"
    "sq_thread s = Alive" "sq_accepting s" "\<not> sq_closed s" "\<not> sq_failed s"
  | (no) c s1 where "admit p s = (rejected c, s1)" "c \<in> {''PROFILE_INVALID'', ''UNSAFE_STATE'', ''ESTOP_LATCHED''}"
    "seq_inv s \<Longrightarrow> seq_inv s1" "receipts_inv s \<Longrightarrow> receipts_inv s1"
  by (cases p; cases s rule: ready_cases; cases "sq_latched s \<or> p \<noteq> Permit (sq_generation s)")
    (simp_all add: admit_def split: if_splits)

lemma start_inv: "seq_inv s \<Longrightarrow> seq_inv (snd (seq_start sp s))"
proof (cases "sq_thread s = NoThread")
  case False
  then show "seq_inv s \<Longrightarrow> ?thesis" by (simp add: seq_start_def ready_inv)
next
  case True
  then show "seq_inv s \<Longrightarrow> ?thesis" by (cases sp) (auto simp: seq_start_def seq_inv_def)
qed

lemma start_receipts: "receipts_inv s \<Longrightarrow> receipts_inv (snd (seq_start sp s))"
  by (cases sp) (simp_all add: seq_start_def ready_receipts)

lemma issue_inv: "seq_inv s \<Longrightarrow> seq_inv (snd (issue s))"
  by (cases s rule: ready_cases) (auto simp: issue_def Let_def split: prod.splits)

lemma issue_receipts: "receipts_inv s \<Longrightarrow> receipts_inv (snd (issue s))"
  by (cases s rule: ready_cases) (auto simp: issue_def Let_def split: prod.splits)

lemma seq_inv_owned [simp]: "seq_inv (s\<lparr>sq_owned := n\<rparr>) = seq_inv s"
  by (simp add: seq_inv_def)

lemma owned_inv: "seq_inv s \<Longrightarrow> seq_inv (snd (submit_owned p c cmd s))"
  by (cases p s rule: admit_cases) (auto simp: submit_owned_def)

lemma owned_receipts: "receipts_inv s \<Longrightarrow> receipts_inv (snd (submit_owned p c cmd s))"
  by (cases p s rule: admit_cases) (auto simp: submit_owned_def)

lemma query_inv: "seq_inv s \<Longrightarrow> seq_inv (snd (is_current p s))"
  by (cases s rule: ready_cases; cases p) (auto simp: is_current_def)

lemma query_receipts: "receipts_inv s \<Longrightarrow> receipts_inv (snd (is_current p s))"
  by (cases s rule: ready_cases; cases p) (auto simp: is_current_def)

lemma require_inv: "seq_inv s \<Longrightarrow> seq_inv (snd (require_current p s))"
  by (cases p s rule: admit_cases) (auto simp: require_current_def)

lemma require_receipts: "receipts_inv s \<Longrightarrow> receipts_inv (snd (require_current p s))"
  by (cases p s rule: admit_cases) (auto simp: require_current_def)

lemma close_inv: "seq_inv s \<Longrightarrow> seq_inv (begin_close s)"
  by (auto simp: begin_close_def seq_inv_def sorted_wrt_append)

lemma close_receipts: "receipts_inv s \<Longrightarrow> receipts_inv (begin_close s)"
  by (simp add: begin_close_def reject_queued_receipts)

definition enqueue :: "nat \<Rightarrow> 'v sequencer \<Rightarrow> 'v sequencer" where
  "enqueue g s =
     s\<lparr>sq_receipts := sq_receipts s @ [\<lparr>rc_generation = g, rc_done = None\<rparr>],
       sq_queue := sq_queue s @ [length (sq_receipts s)]\<rparr>"

lemma submit_cases:
  obtains (no) e s1 where "submit_enqueue now t p c s = (Raise e, s1)" "seq_inv s \<Longrightarrow> seq_inv s1"
    "receipts_inv s \<Longrightarrow> receipts_inv s1"
  | (ok) "submit_enqueue now t p c s = (Ret (length (sq_receipts s)), enqueue (sq_generation s) s)"
    "c" "p = Permit (sq_generation s)" "\<not> sq_latched s" "length (sq_queue s) < QUEUE_CAPACITY"
    "sq_thread s = Alive" "sq_accepting s"
proof (cases "seq_deadline now t")
  case (Inl e)
  then show ?thesis by (intro no [of e s]) (auto simp: submit_enqueue_def)
next
  case (Inr d)
  show ?thesis
  proof (cases p s rule: admit_cases)
    case (no code s1)
    with Inr show ?thesis
      by (cases c) (auto simp: submit_enqueue_def intro: that(1))
  next
    case (ok g)
    with Inr show ?thesis
      by (cases c; cases "length (sq_queue s) < QUEUE_CAPACITY")
        (auto simp: submit_enqueue_def enqueue_def not_less intro: that latch_inv latch_receipts)
  qed
qed

lemma enqueue_frame [simp]:
  "sq_accepting (enqueue g s) = sq_accepting s" "sq_closed (enqueue g s) = sq_closed s"
  "sq_failed (enqueue g s) = sq_failed s" "sq_generation (enqueue g s) = sq_generation s"
  "sq_latched (enqueue g s) = sq_latched s" "sq_queue (enqueue g s) = sq_queue s @ [length (sq_receipts s)]"
  "sq_in_flight (enqueue g s) = sq_in_flight s" "sq_thread (enqueue g s) = sq_thread s"
  "sq_worker (enqueue g s) = sq_worker s" "sq_started (enqueue g s) = sq_started s"
  "sq_owned (enqueue g s) = sq_owned s"
  "sq_receipts (enqueue g s) = sq_receipts s @ [\<lparr>rc_generation = g, rc_done = None\<rparr>]"
  by (simp_all add: enqueue_def)

lemma enqueue_inv:
  "seq_inv s \<Longrightarrow> \<not> sq_latched s \<Longrightarrow> length (sq_queue s) < QUEUE_CAPACITY \<Longrightarrow>
    sq_thread s = Alive \<Longrightarrow> seq_inv (enqueue (sq_generation s) s)"
  by (auto simp: seq_inv_def sorted_wrt_append nth_append less_Suc_eq)

lemma enqueue_done:
  "rid < Suc (length (sq_receipts s)) \<Longrightarrow> receipt_done (enqueue g s) rid =
     (if rid < length (sq_receipts s) then receipt_done s rid else None)"
  by (simp add: receipt_done_def nth_append)

lemma seq_inv_fresh: "seq_inv s \<Longrightarrow> length (sq_receipts s) \<notin> set (sq_queue s)"
  by (auto simp: seq_inv_def)

lemma enqueue_receipts: "seq_inv s \<Longrightarrow> receipts_inv s \<Longrightarrow> receipts_inv (enqueue g s)"
  using seq_inv_fresh [of s]
  unfolding receipts_inv_def
  by (simp add: enqueue_done less_Suc_eq)

lemma submit_inv: "seq_inv s \<Longrightarrow> seq_inv (snd (submit_enqueue now t p c s))"
  by (cases now t p c s rule: submit_cases) (auto simp: enqueue_inv)

lemma submit_receipts: "seq_inv s \<Longrightarrow> receipts_inv s \<Longrightarrow> receipts_inv (snd (submit_enqueue now t p c s))"
  by (cases now t p c s rule: submit_cases) (auto simp: enqueue_receipts)


lemma expire_inv: "seq_inv s \<Longrightarrow> seq_inv (submit_expire rid s)"
  by (simp add: submit_expire_def latch_inv complete_inv)

lemma expire_receipts: "receipts_inv s \<Longrightarrow> receipts_inv (submit_expire rid s)"
  by (auto simp: submit_expire_def receipts_inv_def)

lemma take_current:
  assumes "seq_inv s" "sq_queue s = rid # rest"
  shows "work_take s = s\<lparr>sq_queue := rest, sq_in_flight := Some rid, sq_worker := Running rid,
    sq_started := sq_started s @ [rid]\<rparr>"
  using assms by (auto simp: work_take_def seq_inv_def)

lemma take_inv:
  assumes "seq_inv s" "sq_queue s \<noteq> []"
  shows "seq_inv (work_take s)"
proof -
  obtain rid rest where q: "sq_queue s = rid # rest" using assms(2) by (cases "sq_queue s") auto
  show ?thesis
    using assms(1) unfolding take_current [OF assms(1) q]
    by (auto simp: seq_inv_def q worker_flight_def)
qed

lemma take_receipts:
  assumes "seq_inv s" "receipts_inv s" "sq_worker s = Idle"
  shows "receipts_inv (work_take s)"
proof (cases "sq_queue s")
  case Nil
  with assms(2) show ?thesis by (simp add: work_take_def)
next
  case (Cons rid rest)
  have "rid \<notin> set rest" using assms(1) Cons by (auto simp: seq_inv_def sorted_wrt_append)
  with assms(2,3) show ?thesis
    unfolding take_current [OF assms(1) Cons] by (auto simp: receipts_inv_def Cons)
qed

lemma ok_inv: "seq_inv s \<Longrightarrow> sq_worker s = Running rid \<Longrightarrow> seq_inv (work_ok rid v s)"
  by (auto simp: seq_inv_def work_ok_def worker_flight_def)

lemma seq_inv_running:
  "seq_inv s \<Longrightarrow> sq_worker s = Running rid \<Longrightarrow>
    rid \<in> set (sq_started s) \<and> rid \<notin> set (sq_queue s) \<and> rid < length (sq_receipts s)"
  by (auto simp: seq_inv_def sorted_wrt_append)

lemma ok_receipts:
  assumes "seq_inv s" "receipts_inv s" "sq_worker s = Running rid"
  shows "receipts_inv (work_ok rid v s)"
  using seq_inv_running [OF assms(1,3)] assms(2,3)
  by (auto simp: receipts_inv_def work_ok_def)

lemma err_inv: "seq_inv s \<Longrightarrow> sq_worker s = Running rid \<Longrightarrow> seq_inv (work_err rid e s)"
  by (auto simp: seq_inv_def work_err_def worker_flight_def Let_def sorted_wrt_append)

lemma err_receipts:
  "receipts_inv s \<Longrightarrow> sq_worker s = Running rid \<Longrightarrow> receipts_inv (work_err rid e s)"
  by (auto simp: receipts_inv_def work_err_def Let_def)

lemma clear_inv: "seq_inv s \<Longrightarrow> sq_worker s = Finishing rid \<Longrightarrow> seq_inv (work_clear rid s)"
  by (auto simp: seq_inv_def work_clear_def worker_flight_def)

lemma clear_receipts:
  "receipts_inv s \<Longrightarrow> sq_worker s = Finishing rid \<Longrightarrow> receipts_inv (work_clear rid s)"
  by (auto simp: receipts_inv_def work_clear_def)

lemma dead_inv: "seq_inv s \<Longrightarrow> sq_thread s = Alive \<Longrightarrow> seq_inv (s\<lparr>sq_thread := Dead\<rparr>)"
  by (auto simp: seq_inv_def)

lemmas seq_preserved = start_inv issue_inv submit_inv expire_inv owned_inv latch_inv close_inv
  query_inv require_inv take_inv ok_inv err_inv clear_inv dead_inv

lemmas receipts_preserved = start_receipts issue_receipts submit_receipts expire_receipts
  owned_receipts latch_receipts close_receipts query_receipts require_receipts take_receipts
  ok_receipts err_receipts clear_receipts

lemma seq_step_inv: "seq_step s t \<Longrightarrow> seq_inv s \<Longrightarrow> seq_inv t"
  by (induction rule: seq_step.induct) (simp_all add: latch_begin_def seq_preserved)

lemma seq_step_receipts: "seq_step s t \<Longrightarrow> seq_inv s \<Longrightarrow> receipts_inv s \<Longrightarrow> receipts_inv t"
  by (induction rule: seq_step.induct) (simp_all add: latch_begin_def receipts_preserved)

section \<open>The latch\<close>

text \<open>The commands whose run has begun, and those run at the boundary.\<close>

definition activity :: "'v sequencer \<Rightarrow> nat list \<times> nat" where
  "activity s = (sq_started s, sq_owned s)"

lemma ready_activity [simp]: "activity (snd (worker_ready s)) = activity s"
  by (simp add: worker_ready_def activity_def)

lemma ready_latched: "sq_latched s \<Longrightarrow> sq_latched (snd (worker_ready s))"
  by (simp add: worker_ready_def)

lemma admit_latched:
  assumes "sq_latched s"
  obtains c s1 where "admit p s = (rejected c, s1)" "sq_latched s1" "activity s1 = activity s"
  using assms ready_latched [of s] ready_activity [of s] that
  by (cases p; cases "worker_ready s"; cases "fst (worker_ready s)") (auto simp: admit_def)

lemma latched_frame:
  "sq_latched s \<Longrightarrow> sq_latched (snd (seq_start sp s)) \<and> activity (snd (seq_start sp s)) = activity s"
  "sq_latched s \<Longrightarrow> sq_latched (snd (issue s)) \<and> activity (snd (issue s)) = activity s"
  "sq_latched s \<Longrightarrow> sq_latched (submit_expire r s) \<and> activity (submit_expire r s) = activity s"
  "sq_latched s \<Longrightarrow> sq_latched (begin_close s) \<and> activity (begin_close s) = activity s"
  "sq_latched s \<Longrightarrow> sq_latched (snd (is_current p s)) \<and> activity (snd (is_current p s)) = activity s"
  using ready_latched [of s] ready_activity [of s]
  by (cases sp; cases "worker_ready s";
      auto simp: seq_ops activity_def split: permit.splits)+

lemma latched_submit:
  assumes "sq_latched s"
  shows "sq_latched (snd (submit_enqueue now t p c s)) \<and> activity (snd (submit_enqueue now t p c s)) = activity s"
  using assms
  by (cases p rule: admit_latched [OF assms]) (auto simp: submit_enqueue_def split: sum.splits)

lemma latched_owned:
  assumes "sq_latched s"
  shows "sq_latched (snd (submit_owned p c m s)) \<and> activity (snd (submit_owned p c m s)) = activity s"
  using assms
  by (cases p rule: admit_latched [OF assms]) (auto simp: submit_owned_def)

lemma latched_require:
  assumes "sq_latched s"
  shows "sq_latched (snd (require_current p s)) \<and> activity (snd (require_current p s)) = activity s"
  using assms
  by (cases p rule: admit_latched [OF assms]) (auto simp: require_current_def)

lemma latched_work:
  "sq_latched s \<Longrightarrow> sq_latched (work_ok r v s) \<and> activity (work_ok r v s) = activity s"
  "sq_latched s \<Longrightarrow> sq_latched (work_err r e s) \<and> activity (work_err r e s) = activity s"
  "sq_latched s \<Longrightarrow> sq_latched (work_clear r s) \<and> activity (work_clear r s) = activity s"
  by (simp_all add: work_ok_def work_err_def work_clear_def activity_def Let_def)

lemma seq_step_latched:
  "seq_step s t \<Longrightarrow> seq_inv s \<Longrightarrow> sq_latched s \<Longrightarrow> sq_latched t \<and> activity t = activity s"
proof (induction rule: seq_step.induct)
  case (take s)
  then show ?case by (simp add: seq_inv_def)
qed (simp_all add: latched_frame latched_submit latched_owned latched_require latched_work,
     simp_all add: latch_begin_def activity_def)

interpretation sequencing: latching seq_step seq_inv sq_latched activity
  using seq_step_inv seq_step_latched by unfold_locales blast+

interpretation receipts: machine seq_step "\<lambda>s. seq_inv s \<and> receipts_inv s"
  using seq_step_inv seq_step_receipts by unfold_locales blast


section \<open>Rest after the latch\<close>

abbreviation seq_reach :: "'v sequencer \<Rightarrow> bool" where
  "seq_reach s \<equiv> seq_step\<^sup>*\<^sup>* seq_init s"

lemma reach_inv: "seq_reach s \<Longrightarrow> seq_inv s"
  using sequencing.inv_steps seq_inv_init by blast

lemma reach_receipts: "seq_reach s \<Longrightarrow> receipts_inv s"
  using receipts.inv_steps seq_inv_init by blast

lemma ready_flight [simp]: "sq_in_flight (snd (worker_ready s)) = sq_in_flight s"
  by (simp add: worker_ready_def)

lemma admit_flight [simp]: "sq_in_flight (snd (admit p s)) = sq_in_flight s"
  using ready_flight [of s]
  by (cases p; cases "worker_ready s"; cases "fst (worker_ready s)") (auto simp: admit_def)

lemma entry_flight [simp]:
  "sq_in_flight (snd (seq_start sp s)) = sq_in_flight s"
  "sq_in_flight (snd (issue s)) = sq_in_flight s"
  "sq_in_flight (submit_expire r s) = sq_in_flight s"
  "sq_in_flight (begin_close s) = sq_in_flight s"
  "sq_in_flight (snd (is_current p s)) = sq_in_flight s"
  using ready_flight [of s]
  by (cases sp; cases "worker_ready s"; auto simp: seq_ops split: permit.splits)+

lemma submit_flight [simp]: "sq_in_flight (snd (submit_enqueue now t p c s)) = sq_in_flight s"
  using admit_flight [of p s]
  by (cases "admit p s") (auto simp: submit_enqueue_def split: sum.splits)

lemma owned_flight [simp]: "sq_in_flight (snd (submit_owned p c m s)) = sq_in_flight s"
  using admit_flight [of p s]
  by (cases "admit p s") (auto simp: submit_owned_def split: sum.splits)

lemma seq_step_rest:
  "seq_step s t \<Longrightarrow> seq_inv s \<Longrightarrow> sq_latched s \<Longrightarrow> sq_in_flight s = None \<Longrightarrow> sq_in_flight t = None"
  by (induction rule: seq_step.induct)
    (simp_all add: require_current_def latch_begin_def work_ok_def work_err_def work_clear_def
      Let_def seq_inv_def worker_flight_def)

lemma rest_steps:
  assumes "seq_step\<^sup>*\<^sup>* s t" "seq_inv s" "sq_latched s" "sq_in_flight s = None"
  shows "sq_in_flight t = None"
  using assms
proof (induction rule: rtranclp_induct)
  case (step t u)
  then show ?case
    using sequencing.inv_steps sequencing.latched_steps seq_step_rest by metis
qed simp

section \<open>The abstract latch\<close>

text \<open>
  What callers rely on: a bounded first-in first-out line of commands behind a gate that,
  once shut, never opens again and empties the line.
\<close>

record gate =
  gt_open :: bool
  gt_pending :: "nat list"
  gt_running :: "nat option"
  gt_ran :: "nat list"

definition shut :: "gate \<Rightarrow> gate" where
  "shut a = a\<lparr>gt_open := False, gt_pending := []\<rparr>"

inductive gate_step :: "gate \<Rightarrow> gate \<Rightarrow> bool" where
  stay: "gate_step a a"
| join: "gt_open a \<Longrightarrow> length (gt_pending a) < QUEUE_CAPACITY \<Longrightarrow>
     \<forall>m \<in> set (gt_ran a @ gt_pending a). m < n \<Longrightarrow>
     gate_step a (a\<lparr>gt_pending := gt_pending a @ [n]\<rparr>)"
| begins: "gt_open a \<Longrightarrow> gt_running a = None \<Longrightarrow> gt_pending a = n # rest \<Longrightarrow>
     gate_step a (a\<lparr>gt_pending := rest, gt_running := Some n, gt_ran := gt_ran a @ [n]\<rparr>)"
| finish: "gate_step a (a\<lparr>gt_running := None\<rparr>)"
| shuts: "gate_step a (shut a)"

definition gate_of :: "'v sequencer \<Rightarrow> gate" where
  "gate_of s = \<lparr>gt_open = (\<not> sq_latched s), gt_pending = sq_queue s, gt_running = sq_in_flight s,
     gt_ran = sq_started s\<rparr>"

lemma gate_of_latch [simp]: "gate_of (latch c s) = shut (gate_of s)"
  by (simp add: gate_of_def shut_def)

lemma gate_of_complete [simp]: "gate_of (complete i r s) = gate_of s"
  by (simp add: gate_of_def)

lemma gate_of_ready: "gate_of (snd (worker_ready s)) \<in> {gate_of s, shut (gate_of s)}"
  by (simp add: worker_ready_def) (simp add: gate_of_def shut_def)

lemma gate_of_admit: "gate_of (snd (admit p s)) \<in> {gate_of s, shut (gate_of s)}"
  using gate_of_ready [of s]
  by (cases p; cases "worker_ready s"; cases "fst (worker_ready s)") (auto simp: admit_def)

lemma gate_of_start: "gate_of (snd (seq_start sp s)) \<in> {gate_of s, shut (gate_of s)}"
  using gate_of_ready [of s] by (cases sp) (auto simp: seq_start_def gate_of_def)

lemma gate_of_issue: "gate_of (snd (issue s)) \<in> {gate_of s, shut (gate_of s)}"
  using gate_of_ready [of s]
  by (cases "worker_ready s"; cases "fst (worker_ready s)") (auto simp: issue_def)

lemma gate_of_current: "gate_of (snd (is_current p s)) \<in> {gate_of s, shut (gate_of s)}"
  using gate_of_ready [of s]
  by (cases p; cases "worker_ready s") (auto simp: is_current_def)

lemma gate_of_owned: "gate_of (snd (submit_owned p c m s)) \<in> {gate_of s, shut (gate_of s)}"
  using gate_of_admit [of p s]
  by (cases "admit p s"; cases "fst (admit p s)") (auto simp: submit_owned_def gate_of_def)

lemma gate_of_submit:
  "gate_of (snd (submit_enqueue now t p c s)) \<in> {gate_of s, shut (gate_of s)} \<or>
   \<not> sq_latched s \<and> length (sq_queue s) < QUEUE_CAPACITY \<and>
     snd (submit_enqueue now t p c s) = enqueue (sq_generation s) s"
proof (cases "is_ret (seq_deadline now t) \<and> c")
  case False
  then show ?thesis by (cases "seq_deadline now t") (simp_all add: submit_enqueue_def)
next
  case True
  then obtain d where d: "seq_deadline now t = Ret d" c by (cases "seq_deadline now t") auto
  show ?thesis
  proof (cases p s rule: admit_cases)
    case (ok g)
    from ok(1,2,4) d show ?thesis unfolding ok(3)
      by (cases "length (sq_queue s) < QUEUE_CAPACITY") (simp_all add: submit_enqueue_def enqueue_def)
  next
    case (no code s1)
    from d no(1) gate_of_admit [of p s] show ?thesis by (simp add: submit_enqueue_def)
  qed
qed

lemma gate_quiet: "b \<in> {a, shut a} \<Longrightarrow> gate_step a b"
  by (auto intro: gate_step.intros)

lemma gate_close: "gate_of (begin_close s) \<in> {gate_of s, shut (gate_of s)}"
  by (simp add: begin_close_def gate_of_def shut_def)

lemma gate_expire: "gate_of (submit_expire i s) \<in> {gate_of s, shut (gate_of s)}"
  by (simp add: submit_expire_def)

lemma gate_join:
  assumes "seq_inv s" "\<not> sq_latched s" "length (sq_queue s) < QUEUE_CAPACITY"
  shows "gate_step (gate_of s) (gate_of (enqueue g s))"
proof -
  have "gate_of (enqueue g s) = (gate_of s)\<lparr>gt_pending := gt_pending (gate_of s) @ [length (sq_receipts s)]\<rparr>"
    by (simp add: gate_of_def)
  moreover have "\<forall>m \<in> set (gt_ran (gate_of s) @ gt_pending (gate_of s)). m < length (sq_receipts s)"
    using assms(1) by (simp add: gate_of_def seq_inv_def)
  ultimately show ?thesis
    using gate_step.join [of "gate_of s" "length (sq_receipts s)"] assms(2,3) by (simp add: gate_of_def)
qed

lemma gate_begins:
  assumes "seq_inv s" "sq_worker s = Idle" "sq_queue s \<noteq> []"
  shows "gate_step (gate_of s) (gate_of (work_take s))"
proof -
  obtain n rest where q: "sq_queue s = n # rest" using assms(3) by (cases "sq_queue s") auto
  have "\<not> sq_latched s" "sq_in_flight s = None"
    using assms q by (auto simp: seq_inv_def worker_flight_def)
  then have "gate_step (gate_of s)
      ((gate_of s)\<lparr>gt_pending := rest, gt_running := Some n, gt_ran := gt_ran (gate_of s) @ [n]\<rparr>)"
    by (intro gate_step.begins) (simp_all add: gate_of_def q)
  then show ?thesis unfolding take_current [OF assms(1) q] by (simp add: gate_of_def)
qed

lemma gate_err: "gate_of (work_err i e s) = shut (gate_of s)"
  by (simp add: work_err_def gate_of_def shut_def Let_def)

lemma gate_clear: "gate_of (work_clear i s) \<in> {gate_of s, (gate_of s)\<lparr>gt_running := None\<rparr>}"
  by (simp add: work_clear_def gate_of_def)


lemmas gate_quiets = gate_quiet [OF gate_of_start] gate_quiet [OF gate_of_issue]
  gate_quiet [OF gate_expire] gate_quiet [OF gate_of_owned] gate_quiet [OF gate_close]
  gate_quiet [OF gate_of_current] gate_quiet [OF gate_of_admit]

lemma gate_of_same:
  "gate_of (work_ok i v s) = gate_of s" "gate_of (s\<lparr>sq_thread := d\<rparr>) = gate_of s"
  by (simp_all add: work_ok_def gate_of_def)

section \<open>A concrete run\<close>

text \<open>Started, one command submitted, taken by the worker, then latched while it runs.\<close>

definition run_started :: "nat sequencer" where
  "run_started = snd (seq_start SpawnAlive seq_init)"

definition run_queued :: "nat sequencer" where
  "run_queued = snd (submit_enqueue (Fin 0) (VFloat (Fin 1)) (Permit 0) True run_started)"

definition run_taken :: "nat sequencer" where "run_taken = work_take run_queued"

definition run_latched :: "nat sequencer" where "run_latched = snd (latch_begin True run_taken)"

definition run_done :: "nat sequencer" where "run_done = work_clear 0 (work_ok 0 7 run_latched)"

lemma run_started_eq: "run_started = seq_init\<lparr>sq_thread := Alive, sq_accepting := True\<rparr>"
  by (simp add: run_started_def seq_start_def seq_init_def)

lemma run_queued_eq:
  "run_queued = run_started\<lparr>sq_receipts := [\<lparr>rc_generation = 0, rc_done = None\<rparr>], sq_queue := [0]\<rparr>"
  by (simp add: run_queued_def submit_enqueue_def seq_deadline_def admit_def worker_ready_def
      run_started_eq seq_init_def QUEUE_CAPACITY_def)

lemma run_taken_eq:
  "run_taken = run_queued\<lparr>sq_queue := [], sq_in_flight := Some 0, sq_worker := Running 0, sq_started := [0]\<rparr>"
  by (simp add: run_taken_def work_take_def run_queued_eq run_started_eq seq_init_def)

lemma run_latched_eq: "run_latched = run_taken\<lparr>sq_generation := 1, sq_latched := True\<rparr>"
  by (simp add: run_latched_def latch_begin_def latch_def reject_queued_def run_taken_eq run_queued_eq
      run_started_eq seq_init_def)

lemma run_done_eq:
  "run_done = run_latched\<lparr>sq_receipts := [\<lparr>rc_generation = 0, rc_done = Some (Ret 7)\<rparr>],
     sq_in_flight := None, sq_worker := Idle\<rparr>"
  by (simp add: run_done_def work_clear_def work_ok_def complete_def run_latched_eq run_taken_eq
      run_queued_eq run_started_eq seq_init_def)

lemmas run_eqs = run_done_eq run_latched_eq run_taken_eq run_queued_eq run_started_eq seq_init_def

lemma run_reach:
  "seq_reach run_started" "seq_reach run_queued" "seq_reach run_taken" "seq_reach run_latched"
  "seq_reach run_done"
proof -
  have "seq_step seq_init run_started" unfolding run_started_def by (rule seq_step.start)
  then show a: "seq_reach run_started" by (rule r_into_rtranclp)
  have "seq_step run_started run_queued" unfolding run_queued_def by (rule seq_step.submit)
  with a show b: "seq_reach run_queued" by (rule rtranclp.rtrancl_into_rtrancl)
  have "seq_step run_queued run_taken" unfolding run_taken_def
    by (rule seq_step.take) (simp_all add: run_eqs)
  with b show c: "seq_reach run_taken" by (rule rtranclp.rtrancl_into_rtrancl)
  have "seq_step run_taken run_latched" unfolding run_latched_def by (rule seq_step.latch)
  with c show d: "seq_reach run_latched" by (rule rtranclp.rtrancl_into_rtrancl)
  have "seq_step run_latched (work_ok 0 7 run_latched)" by (rule seq_step.ok) (simp_all add: run_eqs)
  moreover have "seq_step (work_ok 0 7 run_latched) run_done" unfolding run_done_def
    by (rule seq_step.clear) (simp_all add: run_eqs work_ok_def)
  ultimately show "seq_reach run_done" using d by (meson rtranclp.rtrancl_into_rtrancl)
qed

lemma run_after_latch: "seq_step\<^sup>*\<^sup>* run_latched run_done"
proof -
  have "seq_step run_latched (work_ok 0 7 run_latched)" by (rule seq_step.ok) (simp_all add: run_eqs)
  moreover have "seq_step (work_ok 0 7 run_latched) run_done" unfolding run_done_def
    by (rule seq_step.clear) (simp_all add: run_eqs work_ok_def)
  ultimately show ?thesis by (meson rtranclp.rtrancl_into_rtrancl r_into_rtranclp)
qed

section \<open>Properties\<close>

text \<open>C30: Once the latch is set in a reachable state, then in every later state, whatever the
  callers and the worker do, no further command has begun to run on the worker or at the
  boundary, the latch is still set and the queue is empty.\<close>
theorem no_command_starts_after_latch:
  assumes "seq_reach s" "sq_latched s" "seq_step\<^sup>*\<^sup>* s t"
  shows "sq_latched t \<and> sq_started t = sq_started s \<and> sq_owned t = sq_owned s \<and> sq_queue t = []"
proof -
  have i: "seq_inv s" by (rule reach_inv [OF assms(1)])
  then have "seq_inv t" using sequencing.inv_steps assms(3) by blast
  with sequencing.latched_steps [OF assms(3) i assms(2)] show ?thesis
    by (simp add: activity_def seq_inv_def)
qed

lemma no_command_starts_after_latch_witness:
  "sq_latched run_done \<and> sq_started run_done = [0] \<and> sq_owned run_done = 0 \<and> sq_queue run_done = []"
  using no_command_starts_after_latch [OF run_reach(4) _ run_after_latch] by (simp add: run_eqs)

text \<open>The promise of a quiesced emergency stop: when \<^verbatim>\<open>latch_and_quiesce\<close> reports, after
  its latch, that the activation is quiesced, no command is in flight in any later state.\<close>
theorem quiesced_stays_quiesced:
  assumes "seq_reach s" "latch_begin zero_ok s = (accepted, s1)" "seq_step\<^sup>*\<^sup>* s1 s2"
    "sr_quiesced (latch_end accepted s2)" "seq_step\<^sup>*\<^sup>* s2 t"
  shows "sq_in_flight t = None \<and> sq_started t = sq_started s"
proof -
  have r1: "seq_reach s1"
    using assms(1,2) seq_step.latch [of s zero_ok] by (auto simp: latch_begin_def)
  have l1: "sq_latched s1" "sq_started s1 = sq_started s" using assms(2) by (auto simp: latch_begin_def)
  have r2: "seq_inv s2" using r1 assms(3) sequencing.inv_steps reach_inv by blast
  have a2: "sq_latched s2" "activity s2 = activity s1"
    using sequencing.latched_steps [OF assms(3) reach_inv [OF r1] l1(1)] by auto
  have "sq_in_flight s2 = None" using assms(4) by (simp add: latch_end_def Let_def)
  moreover have "activity t = activity s2"
    using sequencing.latched_steps [OF assms(5) r2 a2(1)] by simp
  ultimately show ?thesis
    using rest_steps [OF assms(5) r2 a2(1)] a2(2) l1(2) by (simp add: activity_def)
qed

lemma quiesced_stays_quiesced_witness: "sq_in_flight run_done = None \<and> sq_started run_done = [0]"
proof -
  have "latch_begin True run_taken = (True, run_latched)"
    by (simp add: run_latched_def latch_begin_def)
  from quiesced_stays_quiesced [OF run_reach(3) this run_after_latch _ rtranclp.rtrancl_refl]
  show ?thesis by (simp add: latch_end_def run_eqs)
qed

text \<open>The queue is bounded and fair: in every reachable state at most sixteen commands
  wait, commands have begun in the order they were submitted, no command has begun twice or
  both waits and has begun, and a waiting command's generation is the current one, so
  that the worker's own staleness test never discards it.\<close>
theorem queue_bounded_and_in_order:
  assumes "seq_reach s"
  shows "length (sq_queue s) \<le> 16 \<and> sorted_wrt (<) (sq_started s @ sq_queue s) \<and>
    distinct (sq_started s @ sq_queue s) \<and>
    (\<forall>rid \<in> set (sq_queue s). rc_generation (sq_receipts s ! rid) = sq_generation s \<and> \<not> sq_latched s)"
proof -
  have "seq_inv s" by (rule reach_inv [OF assms])
  then show ?thesis
    using strict_sorted_iff [of "sq_started s @ sq_queue s"]
    by (auto simp: seq_inv_def QUEUE_CAPACITY_def)
qed

lemma queue_bounded_and_in_order_witness:
  "sq_queue run_queued = [0] \<and> rc_generation (sq_receipts run_queued ! 0) = sq_generation run_queued \<and>
   \<not> sq_latched run_queued"
  using queue_bounded_and_in_order [OF run_reach(2)] by (simp add: run_eqs)

text \<open>No submission is lost: in every reachable state each receipt ever handed out is
  resolved, or waits in the queue, or belongs to the command the worker is running; and a
  receipt resolved with a value belongs to a command that was really run.\<close>
theorem no_receipt_lost:
  assumes "seq_reach s" "rid < length (sq_receipts s)"
  shows "(receipt_done s rid = None \<longrightarrow> rid \<in> set (sq_queue s) \<or> sq_in_flight s = Some rid) \<and>
    (\<forall>v. receipt_done s rid = Some (Ret v) \<longrightarrow> rid \<in> set (sq_started s))"
proof -
  have "sq_in_flight s = worker_flight (sq_worker s)"
    using reach_inv [OF assms(1)] by (simp add: seq_inv_def)
  with reach_receipts [OF assms(1)] assms(2) show ?thesis
    by (auto simp: receipts_inv_def worker_flight_def)
qed

lemma no_receipt_lost_witness:
  "receipt_done run_done 0 = Some (Ret 7) \<and> 0 \<in> set (sq_started run_done) \<and>
   receipt_done run_latched 0 = None \<and> sq_in_flight run_latched = Some 0"
  using no_receipt_lost [OF run_reach(5), of 0] no_receipt_lost [OF run_reach(4), of 0]
  by (simp add: run_eqs receipt_done_def)

text \<open>A permit the sequencer issued stays good exactly as long as the latch is open and
  the worker is alive and accepting: then, and only then, an entry point admits it.\<close>
theorem permit_valid_iff:
  assumes "seq_reach s" "issue s = (Ret p, s1)" "seq_step\<^sup>*\<^sup>* s1 t"
  shows "is_ret (fst (admit p t)) \<longleftrightarrow> \<not> sq_latched t \<and> sq_thread t = Alive \<and> sq_accepting t"
proof -
  have "seq_reach s1" using assms(1,2) seq_step.issue [of s] by auto
  then have t: "seq_inv t" using assms(3) sequencing.inv_steps reach_inv by blast
  have "seq_inv s" by (rule reach_inv [OF assms(1)])
  then have "p = Permit 0"
    using assms(2) by (cases s rule: ready_cases; cases "sq_latched s")
      (auto simp: issue_def seq_inv_def split: if_splits)
  with t show ?thesis
    by (cases p t rule: admit_cases) (auto simp: admit_def worker_ready_def seq_inv_def split: if_splits)
qed

lemma permit_valid_iff_witness:
  "issue run_started = (Ret (Permit 0), run_started) \<and> is_ret (fst (admit (Permit 0) run_queued)) \<and>
   \<not> is_ret (fst (admit (Permit 0) run_done))"
proof -
  have i: "issue run_started = (Ret (Permit 0), run_started)"
    by (simp add: issue_def worker_ready_def run_eqs)
  have a: "seq_step\<^sup>*\<^sup>* run_started run_queued"
    unfolding run_queued_def by (intro r_into_rtranclp seq_step.submit)
  have b: "seq_step\<^sup>*\<^sup>* run_started run_done"
  proof -
    have "seq_step run_queued run_taken" unfolding run_taken_def
      by (rule seq_step.take) (simp_all add: run_eqs)
    moreover have "seq_step run_taken run_latched" unfolding run_latched_def by (rule seq_step.latch)
    ultimately show ?thesis using a run_after_latch
      by (meson rtranclp.rtrancl_into_rtrancl rtranclp_trans)
  qed
  from permit_valid_iff [OF run_reach(1) i a] permit_valid_iff [OF run_reach(1) i b] i
  show ?thesis by (simp add: run_eqs)
qed

text \<open>The sequencer refines the abstract latch: every region a caller or the worker runs
  under the lock is, seen through \<^verbatim>\<open>gate_of\<close>, one step of the gate, which a failed
  command, a full queue, an expired wait, a dead worker, a stop or a close only ever shut.\<close>
theorem sequencer_refines_gate:
  assumes "seq_reach s" "seq_step s t"
  shows "gate_step (gate_of s) (gate_of t)"
  using assms(2) reach_inv [OF assms(1)]
proof (induction rule: seq_step.induct)
  case (submit s now timeout p c)
  then show ?case
    using gate_of_submit [where s = s and now = now and t = timeout and p = p and c = c]
      gate_join gate_quiet by metis
next
  case (clear s rid)
  then show ?case using gate_clear [of rid s] by (auto intro: gate_step.intros)
qed (simp_all add: gate_quiets gate_begins gate_err gate_step.shuts gate_step.stay gate_of_same
      latch_begin_def require_current_def)

lemma sequencer_refines_gate_witness: "gate_step (gate_of run_taken) (gate_of run_latched)"
  by (rule sequencer_refines_gate [OF run_reach(3)]) (simp add: run_latched_def seq_step.latch)

text \<open>A stop with a finite timeout and a callable zero command really latches: the reported
  flags are those of the state it leaves, and the code names the first promise that failed.\<close>

theorem latch_report_truthful:
  assumes "latch_and_quiesce now timeout True zero_ok s = (Ret r, t)"
  shows "sr_latched r = sq_latched t \<and> sr_quiesced r = (sq_in_flight t = None) \<and>
    sr_accepted r = zero_ok \<and> sq_queue t = [] \<and> (successful r \<longleftrightarrow> sr_code r = ''ESTOP_LATCHED'')"
  using assms by (cases "sq_in_flight t"; cases zero_ok)
    (auto simp: latch_and_quiesce_def latch_begin_def latch_end_def latch_code_def successful_def
      Let_def split: sum.splits)

lemma latch_report_truthful_witness:
  "\<exists>r. latch_and_quiesce (Fin 0) (VFloat (Fin 1)) True True run_queued =
         (Ret r, latch ''ESTOP_LATCHED'' run_queued) \<and> successful r"
proof -
  have "\<exists>r. latch_and_quiesce (Fin 0) (VFloat (Fin 1)) True True run_queued =
         (Ret r, latch ''ESTOP_LATCHED'' run_queued) \<and> sr_code r = ''ESTOP_LATCHED''"
    by (simp add: latch_and_quiesce_def latch_begin_def seq_deadline_def latch_end_def latch_code_def
        run_eqs)
  then show ?thesis using latch_report_truthful by blast
qed

text \<open>
  A stop whose zero command is not callable reports a latch it has not set, and a stop with
  a timeout that is not finite raises before it latches.
\<close>

lemma latch_claim_without_latch:
  "latch_and_quiesce (Fin 0) (VFloat (Fin 1)) False True run_taken =
     (Ret (mk_stop True True False ''SAFETY_COMMAND_REJECTED''), run_taken) \<and>
   \<not> sq_latched run_taken \<and> sq_in_flight run_taken = Some 0 \<and>
   latch_and_quiesce (Fin 0) (VFloat NaN) True True run_taken = (rejected ''PROFILE_INVALID'', run_taken)"
  by (simp add: latch_and_quiesce_def seq_deadline_def run_eqs)

end
