(* ===== verification/PyText.thy ===== *)
theory PyText
  imports Prelude
begin

text \<open>
  Strings as Python splits and compares them, and the pure part of \<^verbatim>\<open>pathlib\<close>: the parts of a path, and the suffix and the
  stem of a file name.
\<close>

section \<open>Splitting\<close>

fun split_char :: "char \<Rightarrow> string \<Rightarrow> string list" where
  "split_char x [] = [[]]"
| "split_char x (c # cs) =
     (if c = x then [] # split_char x cs
      else (case split_char x cs of [] \<Rightarrow> [[c]] | p # ps \<Rightarrow> (c # p) # ps))"

lemma split_char_none: "list_all (\<lambda>c. c \<noteq> x) s \<Longrightarrow> split_char x s = [s]"
  by (induction s) auto

lemma split_char_sep: "list_all (\<lambda>c. c \<noteq> x) s \<Longrightarrow> split_char x (s @ x # t) = s # split_char x t"
  by (induction s) auto

lemma split_char_ne: "split_char x s \<noteq> []"
  by (induction s) (auto split: list.splits)

section \<open>The order of strings\<close>

fun text_le :: "string \<Rightarrow> string \<Rightarrow> bool" where
  "text_le [] ds = True"
| "text_le (c # cs) [] = False"
| "text_le (c # cs) (d # ds) = ((of_char c :: nat) < of_char d \<or> c = d \<and> text_le cs ds)"

lemma text_le_refl [simp]: "text_le s s"
  by (induction s) simp_all

lemma text_le_total: "text_le s t \<or> text_le t s"
proof (induction s t rule: text_le.induct)
  case (3 c cs d ds)
  then show ?case using nat_neq_iff [of "of_char c" "of_char d"] of_char_eq_iff [of c d] by auto
qed simp_all

lemma text_le_antisym: "text_le s t \<Longrightarrow> text_le t s \<Longrightarrow> s = t"
  by (induction s t rule: text_le.induct) (auto elim: text_le.elims)

lemma text_le_trans: "text_le s t \<Longrightarrow> text_le t u \<Longrightarrow> text_le s u"
proof (induction s t arbitrary: u rule: text_le.induct)
  case (3 c cs d ds)
  then show ?case by (cases u) auto
qed (auto elim: text_le.elims)

section \<open>Paths\<close>

definition path_parts :: "string \<Rightarrow> string list" where
  "path_parts p = filter (\<lambda>x. x \<noteq> [] \<and> x \<noteq> ''.'') (split_char (CHR ''/'') p)"

text \<open>The suffix of a name starts at its last dot, unless that is its first character or its last.\<close>

definition name_suffix :: "string \<Rightarrow> string" where
  "name_suffix name =
     (let tail = takeWhile (\<lambda>c. c \<noteq> CHR ''.'') (rev name)
      in if tail \<noteq> [] \<and> length tail + 1 < length name then CHR ''.'' # rev tail else [])"

definition name_stem :: "string \<Rightarrow> string" where
  "name_stem name = take (length name - length (name_suffix name)) name"

definition path_suffix :: "string list \<Rightarrow> string" where
  "path_suffix parts = (if parts = [] then [] else name_suffix (last parts))"

lemma name_suffix_append:
  assumes "stem \<noteq> []" "suffix \<noteq> []" "CHR ''.'' \<notin> set suffix"
  shows "name_suffix (stem @ CHR ''.'' # suffix) = CHR ''.'' # suffix" "name_stem (stem @ CHR ''.'' # suffix) = stem"
proof -
  have "takeWhile (\<lambda>c. c \<noteq> CHR ''.'') (rev suffix @ CHR ''.'' # rev stem) = rev suffix"
    using assms(3) by (subst takeWhile_append2) auto
  then show "name_suffix (stem @ CHR ''.'' # suffix) = CHR ''.'' # suffix" using assms by (simp add: name_suffix_def Let_def)
  then show "name_stem (stem @ CHR ''.'' # suffix) = stem" by (simp add: name_stem_def)
qed

lemma name_stem_suffix: "name_stem name @ name_suffix name = name"
proof -
  let ?tail = "takeWhile (\<lambda>c. c \<noteq> CHR ''.'') (rev name)"
  have "\<exists>stem. name = stem @ name_suffix name"
  proof (cases "length ?tail < length name")
    case True
    then have "rev name = ?tail @ CHR ''.'' # drop (Suc (length ?tail)) (rev name)"
      using nth_length_takeWhile [of "\<lambda>c. c \<noteq> CHR ''.''" "rev name"] by (metis append_take_drop_id Cons_nth_drop_Suc length_rev takeWhile_eq_take)
    then have "name = rev (drop (Suc (length ?tail)) (rev name)) @ CHR ''.'' # rev ?tail" by (metis rev.simps(2) rev_append rev_rev_ident append.assoc append_Cons append_Nil)
    then show ?thesis by (simp add: name_suffix_def Let_def) metis
  qed (simp add: name_suffix_def Let_def)
  then obtain stem where "name = stem @ name_suffix name" by blast
  then show ?thesis by (metis append_eq_conv_conj diff_add_inverse2 length_append name_stem_def)
qed

section \<open>Lines and words\<close>

text \<open>\<^verbatim>\<open>str.splitlines()\<close>: a carriage return and line feed are one break.\<close>

definition line_break :: "char \<Rightarrow> bool" where
  "line_break c = ((of_char c :: nat) \<in> {10, 11, 12, 13, 28, 29, 30, 133})"

fun split_breaks :: "string \<Rightarrow> string \<Rightarrow> string list" where
  "split_breaks acc [] = (if acc = [] then [] else [acc])"
| "split_breaks acc (c # d # cs) =
     (if c = CHR 0x0D \<and> d = CHR 0x0A then acc # split_breaks [] cs
      else if line_break c then acc # split_breaks [] (d # cs)
      else split_breaks (acc @ [c]) (d # cs))"
| "split_breaks acc [c] = (if line_break c then [acc] else [acc @ [c]])"

definition splitlines :: "string \<Rightarrow> string list" where
  "splitlines s = split_breaks [] s"

text \<open>\<^verbatim>\<open>str.split()\<close>: the words between the white space.\<close>

fun words_from :: "string \<Rightarrow> string \<Rightarrow> string list" where
  "words_from w [] = (if w = [] then [] else [w])"
| "words_from w (c # cs) = (if py_space c then (if w = [] then words_from [] cs else w # words_from [] cs) else words_from (w @ [c]) cs)"

definition py_words :: "string \<Rightarrow> string list" where "py_words = words_from []"

definition is_word :: "string \<Rightarrow> bool" where "is_word w \<longleftrightarrow> w \<noteq> [] \<and> list_all (\<lambda>c. \<not> py_space c) w"

lemma words_from_word: "list_all (\<lambda>c. \<not> py_space c) w \<Longrightarrow> words_from v (w @ cs) = words_from (v @ w) cs"
  by (induction w arbitrary: v) simp_all

lemma words_split [simp]:
  assumes "is_word w" "py_space c" shows "py_words (w @ c # cs) = w # py_words cs"
  using assms words_from_word [of w "[]" "c # cs"] by (simp add: py_words_def is_word_def)

lemma words_last: "is_word w \<Longrightarrow> py_words w = [w]"
  using words_from_word [of w "[]" "[]"] by (simp add: py_words_def is_word_def)

end
