(* ===== verification/Discovery.thy ===== *)
theory Discovery
  imports PyText Profiles "HOL-Library.Word"
begin

text \<open>
  Read-only inspection of the ROS graph: the snapshot and report of
  \<^verbatim>\<open>agent_ros/discovery/models.py\<close>, the capability inference of
  \<^verbatim>\<open>inference.py\<close>, and of \<^verbatim>\<open>ros_graph.py\<close> the command line parsers, the closed document
  that crosses the helper boundary, and the owned native participant with its cleanup.
  The runner, the native graph API and the JSON decoder are arguments.
\<close>

section \<open>Snapshots and reports\<close>

type_synonym types_map = "(string \<times> string list) list"

record endpoint =
  en_node_name :: string
  en_gid :: string
  en_endpoint_type :: string
  en_node_namespace :: string

record graph_snapshot =
  gs_nodes :: "string list"
  gs_topics :: types_map
  gs_services :: types_map
  gs_actions :: types_map
  gs_topic_endpoints :: "(string \<times> endpoint list) list"

record capability =
  cp_name :: string
  cp_confidence :: rat
  cp_evidence :: "string list"

record discovery_report =
  dr_capabilities :: "capability list"
  dr_blocking_warnings :: "string list"
  dr_warnings :: "string list"
  dr_topic_types :: types_map
  dr_action_types :: types_map

definition capability_names :: "discovery_report \<Rightarrow> string list" where
  "capability_names r = map cp_name (dr_capabilities r)"

text \<open>\<^verbatim>\<open>d.get(k, ())\<close>.\<close>

definition dget_list :: "(string \<times> 'a list) list \<Rightarrow> string \<Rightarrow> 'a list" where
  "dget_list d k = (case dget d k of None \<Rightarrow> [] | Some v \<Rightarrow> v)"

section \<open>Inference\<close>

definition typed_topics :: "types_map \<Rightarrow> string \<Rightarrow> string option \<Rightarrow> string list" where
  "typed_topics entries type_name suffix =
     map fst (filter (\<lambda>(name, types). type_name \<in> set types \<and>
       (case suffix of None \<Rightarrow> True | Some x \<Rightarrow> ends_with x (rstrip_char (CHR ''/'') name))) entries)"

definition publishers_of :: "graph_snapshot \<Rightarrow> string \<Rightarrow> endpoint list" where
  "publishers_of g topic =
     filter (\<lambda>e. lower_str (en_endpoint_type e) = ''publisher'') (dget_list (gs_topic_endpoints g) topic)"

definition controller_warnings :: "graph_snapshot \<Rightarrow> string list \<Rightarrow> string list" where
  "controller_warnings g command_topics =
     map (\<lambda>topic. ''multiple command publishers on '' @ topic)
       (filter (\<lambda>topic. 1 < length (publishers_of g topic)) command_topics)"

definition IMAGE_TYPE :: string where "IMAGE_TYPE = ''sensor_msgs/msg/Image''"
definition LASER_SCAN_TYPE :: string where "LASER_SCAN_TYPE = ''sensor_msgs/msg/LaserScan''"

definition mk_capability :: "string \<Rightarrow> string list \<Rightarrow> capability" where
  "mk_capability name evidence = \<lparr>cp_name = name, cp_confidence = 1, cp_evidence = evidence\<rparr>"

definition one_capability :: "string \<Rightarrow> string list \<Rightarrow> capability list" where
  "one_capability name topics = (if topics \<noteq> [] then [mk_capability name [hd topics]] else [])"

definition infer_capabilities :: "graph_snapshot \<Rightarrow> discovery_report" where
  "infer_capabilities g =
     (let command_topics = typed_topics (gs_topics g) TWIST_TYPE (Some ''cmd_vel'');
          odometry_topics = typed_topics (gs_topics g) ODOMETRY_TYPE (Some ''odom'');
          mobile = (if command_topics \<noteq> [] \<and> odometry_topics \<noteq> []
                    then [mk_capability ''mobile_base.twist'' [hd command_topics, hd odometry_topics]]
                    else []);
          navigation = one_capability ''navigation.nav2''
            (typed_topics (gs_actions g) NAVIGATE_TO_POSE_TYPE None);
          camera = one_capability ''perception.camera'' (typed_topics (gs_topics g) IMAGE_TYPE None);
          scan = one_capability ''perception.laser_scan'' (typed_topics (gs_topics g) LASER_SCAN_TYPE None);
          trajectory = one_capability ''manipulation.follow_joint_trajectory''
            (typed_topics (gs_actions g) FOLLOW_JOINT_TRAJECTORY_TYPE None)
      in \<lparr>dr_capabilities = mobile @ navigation @ camera @ scan @ trajectory,
          dr_blocking_warnings = controller_warnings g command_topics,
          dr_warnings = [], dr_topic_types = gs_topics g, dr_action_types = gs_actions g\<rparr>)"

section \<open>Text of the command line tools\<close>

text \<open>\<^verbatim>\<open>^(?P<name>\S+)\s+\[(?P<types>[^\]]+)\]\s*$\<close>\<close>

definition typed_line :: "string \<Rightarrow> (string \<times> string) option" where
  "typed_line line =
     (let name = takeWhile (\<lambda>c. \<not> py_space c) line;
          rest = dropWhile (\<lambda>c. \<not> py_space c) line;
          body = dropWhile py_space rest
      in if name = [] \<or> rest = [] then None
         else (case body of [] \<Rightarrow> None | b # inner \<Rightarrow>
           if b \<noteq> CHR ''['' then None
           else (let types = takeWhile (\<lambda>c. c \<noteq> CHR '']'') inner;
                     tail = dropWhile (\<lambda>c. c \<noteq> CHR '']'') inner
                 in if types = [] \<or> tail = [] \<or> \<not> list_all py_space (tl tail) then None
                    else Some (name, types))))"

definition type_items :: "string \<Rightarrow> string list" where
  "type_items types = filter (\<lambda>s. s \<noteq> []) (map strip (split_char (CHR '','') types))"

definition parse_typed_lines :: "string \<Rightarrow> types_map" where
  "parse_typed_lines output =
     fold (\<lambda>line entries. case typed_line (strip line) of
         None \<Rightarrow> entries | Some (name, types) \<Rightarrow> dset name (type_items types) entries)
       (splitlines output) []"

definition append_endpoint :: "(string \<times> string) list \<Rightarrow> endpoint list \<Rightarrow> endpoint list" where
  "append_endpoint current records =
     (case (dget current ''Node name'', dget current ''Endpoint type'') of
        (Some node_name, Some endpoint_type) \<Rightarrow>
          records @ [\<lparr>en_node_name = node_name,
            en_gid = (case dget current ''GID'' of None \<Rightarrow> [] | Some g \<Rightarrow> g),
            en_endpoint_type = lower_str endpoint_type,
            en_node_namespace = (case dget current ''Node namespace'' of None \<Rightarrow> [] | Some n \<Rightarrow> n)\<rparr>]
      | _ \<Rightarrow> records)"

definition ENDPOINT_LABELS :: "string list" where
  "ENDPOINT_LABELS = [''Node name'', ''Node namespace'', ''Endpoint type'', ''GID'']"

definition endpoint_line ::
  "string \<Rightarrow> (string \<times> string) list \<times> endpoint list \<Rightarrow> (string \<times> string) list \<times> endpoint list" where
  "endpoint_line line st =
     (let (current, records) = st in
      if CHR '':'' \<notin> set line then st
      else
        (let key = strip (takeWhile (\<lambda>c. c \<noteq> CHR '':'') line);
             value = strip (tl (dropWhile (\<lambda>c. c \<noteq> CHR '':'') line));
             (current1, records1) =
               (if key = ''Node name'' \<and> current \<noteq> [] then ([], append_endpoint current records)
                else (current, records))
         in (if key \<in> set ENDPOINT_LABELS then dset key value current1 else current1, records1)))"

definition parse_endpoints :: "string \<Rightarrow> endpoint list" where
  "parse_endpoints output =
     (let (current, records) = fold endpoint_line (splitlines output) ([], [])
      in append_endpoint current records)"

section \<open>The command line probe\<close>

datatype cli_reply = CliText string | CliStdout string | CliOther

definition cli_output :: "(string list \<Rightarrow> cli_reply result) option \<Rightarrow> string list \<Rightarrow> string result" where
  "cli_output runner argv =
     (case runner of None \<Rightarrow> Raise DiscoveryError
      | Some run \<Rightarrow>
          (case run argv of
             Inl PyOSError \<Rightarrow> Raise DiscoveryError
           | Inl e \<Rightarrow> Raise e
           | Inr (CliText s) \<Rightarrow> Ret s
           | Inr (CliStdout s) \<Rightarrow> Ret s
           | Inr CliOther \<Rightarrow> Raise DiscoveryError))"

definition MAX_COMMAND_TOPICS :: nat where "MAX_COMMAND_TOPICS = 16"

definition command_topics_of :: "types_map \<Rightarrow> string list" where
  "command_topics_of topics =
     map fst (filter (\<lambda>(topic, types). ends_with ''cmd_vel'' (rstrip_char (CHR ''/'') topic) \<and>
       ''geometry_msgs/msg/Twist'' \<in> set types) topics)"

definition probe_cli :: "(string list \<Rightarrow> cli_reply result) option \<Rightarrow> graph_snapshot result" where
  "probe_cli runner =
     rbind (cli_output runner [''ros2'', ''node'', ''list'', ''--no-daemon'', ''--spin-time'', ''0.5'']) (\<lambda>nodes_text.
     rbind (cli_output runner [''ros2'', ''topic'', ''list'', ''-t'', ''--no-daemon'', ''--spin-time'', ''0.5'']) (\<lambda>topics_text.
     rbind (cli_output runner [''ros2'', ''action'', ''list'', ''-t'']) (\<lambda>actions_text.
     rbind (cli_output runner [''ros2'', ''service'', ''list'', ''-t'', ''--no-daemon'', ''--spin-time'', ''0.5'']) (\<lambda>services_text.
       let topics = parse_typed_lines topics_text; command_topics = command_topics_of topics in
       if MAX_COMMAND_TOPICS < length command_topics then Raise DiscoveryError
       else
         rbind (rmap (\<lambda>topic.
             rbind (cli_output runner
                 [''ros2'', ''topic'', ''info'', topic, ''--verbose'', ''--no-daemon'', ''--spin-time'', ''0.5''])
               (\<lambda>text. Ret (topic, parse_endpoints text))) command_topics) (\<lambda>endpoints.
         Ret \<lparr>gs_nodes = filter (\<lambda>l. l \<noteq> []) (splitlines nodes_text), gs_topics = topics,
              gs_services = parse_typed_lines services_text, gs_actions = parse_typed_lines actions_text,
              gs_topic_endpoints = endpoints\<rparr>)))))"

section \<open>The native participant\<close>

text \<open>\<^verbatim>\<open>tuple(v)\<close>: a string gives its characters, a dictionary its keys.\<close>

fun iter_of :: "pyval \<Rightarrow> pyval list result" where
  "iter_of (VList vs) = Ret vs"
| "iter_of (VStr s) = Ret (map (\<lambda>c. VStr [c]) s)"
| "iter_of (VDict d) = Ret (dkeys d)"
| "iter_of _ = Raise PyTypeError"

fun typed_mapping_from :: "types_map \<Rightarrow> (pyval \<times> pyval) list \<Rightarrow> types_map result" where
  "typed_mapping_from acc [] = Ret acc"
| "typed_mapping_from acc ((name, types) # entries) =
     (if \<not> nonempty_str name then Raise DiscoveryError
      else rbind (iter_of types) (\<lambda>values.
        if values = [] \<or> \<not> list_all nonempty_str values then Raise DiscoveryError
        else typed_mapping_from (dset (str_val name) (map str_val values) acc) entries))"

definition typed_mapping :: "(pyval \<times> pyval) list \<Rightarrow> types_map result" where
  "typed_mapping entries = typed_mapping_from [] entries"

definition full_node_name :: "pyval \<Rightarrow> pyval \<Rightarrow> string result" where
  "full_node_name name namespace =
     (if \<not> nonempty_str name \<or> \<not> is_str namespace then Raise DiscoveryError
      else (let prefix = rstrip_char (CHR ''/'') (str_val namespace) in
            Ret (if prefix \<noteq> [] then prefix @ ''/'' @ str_val name else ''/'' @ str_val name)))"

definition hex_digit :: "nat \<Rightarrow> char" where
  "hex_digit n = (if n < 10 then char_of (48 + n) else char_of (87 + n))"

definition hex_of :: "8 word list \<Rightarrow> string" where
  "hex_of bs = concat (map (\<lambda>b. [hex_digit (unat b div 16), hex_digit (unat b mod 16)]) bs)"

text \<open>The attributes read off a native endpoint; no bytes where \<^verbatim>\<open>bytes(gid)\<close> raises.\<close>

record native_info =
  ni_name :: pyval
  ni_namespace :: pyval
  ni_type :: pyval
  ni_gid :: "8 word list option"

definition native_endpoint :: "native_info \<Rightarrow> endpoint result" where
  "native_endpoint i =
     (if \<not> nonempty_str (ni_name i) \<or> \<not> is_str (ni_namespace i) \<or> \<not> is_str (ni_type i)
      then Raise DiscoveryError
      else (case ni_gid i of None \<Rightarrow> Raise DiscoveryError | Some bs \<Rightarrow>
        if hex_of bs = [] then Raise DiscoveryError
        else Ret \<lparr>en_node_name = str_val (ni_name i), en_gid = hex_of bs,
               en_endpoint_type = lower_str (str_val (ni_type i)),
               en_node_namespace = str_val (ni_namespace i)\<rparr>))"

text \<open>What each call of the native graph API does.\<close>

record native_api =
  na_modules :: "unit result"
  na_context :: "unit result"
  na_init :: "unit result"
  na_create_node :: "unit result"
  na_executor :: "unit result"
  na_add_node :: "unit result"
  na_spin_once :: "unit result"
  na_node_names :: "(pyval \<times> pyval) list result"
  na_topics :: "(pyval \<times> pyval) list result"
  na_services :: "(pyval \<times> pyval) list result"
  na_actions :: "(pyval \<times> pyval) list result"
  na_publishers :: "string \<Rightarrow> native_info list result"
  na_remove_node :: "unit result"
  na_destroy_node :: "unit result"
  na_shutdown :: "bool result"
  na_try_shutdown :: "unit result"

definition native_read :: "native_api \<Rightarrow> graph_snapshot result" where
  "native_read a =
     rbind (na_spin_once a) (\<lambda>_.
     rbind (na_node_names a) (\<lambda>names. rbind (rmap (\<lambda>(n, ns). full_node_name n ns) names) (\<lambda>nodes.
     rbind (na_topics a) (\<lambda>ts. rbind (typed_mapping ts) (\<lambda>topics.
     rbind (na_services a) (\<lambda>ss. rbind (typed_mapping ss) (\<lambda>services.
     rbind (na_actions a) (\<lambda>acs. rbind (typed_mapping acs) (\<lambda>actions.
       let command_topics = command_topics_of topics in
       if MAX_COMMAND_TOPICS < length command_topics then Raise DiscoveryError
       else rbind (rmap (\<lambda>topic. rbind (na_publishers a topic) (\<lambda>infos.
               rbind (rmap native_endpoint infos) (\<lambda>es. Ret (topic, es)))) command_topics) (\<lambda>endpoints.
         Ret \<lparr>gs_nodes = nodes, gs_topics = topics, gs_services = services, gs_actions = actions,
              gs_topic_endpoints = endpoints\<rparr>))))))))))"

text \<open>The resources held when the guarded block is left.\<close>

record owned =
  ow_context :: bool
  ow_node :: bool
  ow_executor :: bool
  ow_node_added :: bool

definition mk_owned :: "bool \<Rightarrow> bool \<Rightarrow> bool \<Rightarrow> bool \<Rightarrow> owned" where
  "mk_owned c n e a = \<lparr>ow_context = c, ow_node = n, ow_executor = e, ow_node_added = a\<rparr>"

definition native_body :: "native_api \<Rightarrow> owned \<times> graph_snapshot result" where
  "native_body a =
     (case na_modules a of Inl e \<Rightarrow> (mk_owned False False False False, Raise e) | Inr _ \<Rightarrow>
      case na_context a of Inl e \<Rightarrow> (mk_owned False False False False, Raise e) | Inr _ \<Rightarrow>
      case na_init a of Inl e \<Rightarrow> (mk_owned True False False False, Raise e) | Inr _ \<Rightarrow>
      case na_create_node a of Inl e \<Rightarrow> (mk_owned True False False False, Raise e) | Inr _ \<Rightarrow>
      case na_executor a of Inl e \<Rightarrow> (mk_owned True True False False, Raise e) | Inr _ \<Rightarrow>
      case na_add_node a of Inl e \<Rightarrow> (mk_owned True True True False, Raise e) | Inr _ \<Rightarrow>
      (mk_owned True True True True, native_read a))"

datatype release = RemoveNode | DestroyNode | ShutdownExecutor | ShutdownContext

text \<open>The \<^verbatim>\<open>finally\<close> block: the releases attempted, in order, and whether any failed.\<close>

definition native_cleanup :: "native_api \<Rightarrow> owned \<Rightarrow> release list \<times> bool" where
  "native_cleanup a w =
     (let remove = (ow_executor w \<and> ow_node w \<and> ow_node_added w);
          calls = (if remove then [RemoveNode] else []) @ (if ow_node w then [DestroyNode] else []) @
            (if ow_executor w then [ShutdownExecutor] else []) @ (if ow_context w then [ShutdownContext] else []);
          failed = ((remove \<and> \<not> is_ret (na_remove_node a)) \<or> (ow_node w \<and> \<not> is_ret (na_destroy_node a)) \<or>
            (ow_executor w \<and> na_shutdown a \<noteq> Ret True) \<or> (ow_context w \<and> \<not> is_ret (na_try_shutdown a)))
      in (calls, failed))"

definition probe_native :: "native_api \<Rightarrow> release list \<times> graph_snapshot result" where
  "probe_native a =
     (let (w, r) = native_body a; (calls, cleanup_failed) = native_cleanup a w in
      (calls, case r of
         Inl e \<Rightarrow> Raise DiscoveryError
       | Inr g \<Rightarrow> if cleanup_failed then Raise DiscoveryError else Ret g))"

section \<open>The closed document of the helper boundary\<close>

definition types_doc :: "types_map \<Rightarrow> pyval" where
  "types_doc m = VDict (map (\<lambda>(k, ts). (VStr k, VList (map VStr ts))) m)"

definition endpoint_doc :: "endpoint \<Rightarrow> pyval" where
  "endpoint_doc e = VDict [(VStr ''node_name'', VStr (en_node_name e)),
     (VStr ''node_namespace'', VStr (en_node_namespace e)), (VStr ''gid'', VStr (en_gid e)),
     (VStr ''endpoint_type'', VStr (en_endpoint_type e))]"

definition endpoints_doc :: "(string \<times> endpoint list) list \<Rightarrow> pyval" where
  "endpoints_doc m = VDict (map (\<lambda>(t, es). (VStr t, VList (map endpoint_doc es))) m)"

definition snapshot_document :: "graph_snapshot \<Rightarrow> pyval" where
  "snapshot_document g = VDict [(VStr ''nodes'', VList (map VStr (gs_nodes g))),
     (VStr ''topics'', types_doc (gs_topics g)), (VStr ''services'', types_doc (gs_services g)),
     (VStr ''actions'', types_doc (gs_actions g)),
     (VStr ''topic_endpoints'', endpoints_doc (gs_topic_endpoints g))]"

fun rooted :: "pyval \<Rightarrow> bool" where
  "rooted (VStr s) = starts_with ''/'' s"
| "rooted _ = False"

fun types_entry :: "pyval \<times> pyval \<Rightarrow> (string \<times> string list) result" where
  "types_entry (name, VList types) =
     (if rooted name \<and> types \<noteq> [] \<and> list_all nonempty_str types
      then Ret (str_val name, map str_val types) else Raise DiscoveryError)"
| "types_entry _ = Raise DiscoveryError"

fun types_of :: "pyval \<Rightarrow> types_map result" where
  "types_of (VDict d) = rmap types_entry d"
| "types_of _ = Raise DiscoveryError"

definition ENDPOINT_KEYS :: "string list" where
  "ENDPOINT_KEYS = [''node_name'', ''node_namespace'', ''gid'', ''endpoint_type'']"

fun endpoint_of :: "pyval \<Rightarrow> endpoint result" where
  "endpoint_of (VDict d) =
     (if \<not> keys_are d ENDPOINT_KEYS \<or> \<not> list_all (\<lambda>k. is_str (vget d k)) ENDPOINT_KEYS
      then Raise DiscoveryError
      else if str_val (vget d ''node_name'') = [] \<or> str_val (vget d ''gid'') = [] \<or>
        str_val (vget d ''endpoint_type'') \<notin> {''publisher'', ''subscription''} then Raise DiscoveryError
      else Ret \<lparr>en_node_name = str_val (vget d ''node_name''), en_gid = str_val (vget d ''gid''),
             en_endpoint_type = str_val (vget d ''endpoint_type''),
             en_node_namespace = str_val (vget d ''node_namespace'')\<rparr>)"
| "endpoint_of _ = Raise DiscoveryError"

fun endpoints_entry :: "types_map \<Rightarrow> pyval \<times> pyval \<Rightarrow> (string \<times> endpoint list) result" where
  "endpoints_entry topics (VStr topic, VList values) =
     (if topic \<notin> set (dkeys topics) then Raise DiscoveryError
      else rbind (rmap endpoint_of values) (\<lambda>es. Ret (topic, es)))"
| "endpoints_entry topics _ = Raise DiscoveryError"

fun endpoints_of :: "types_map \<Rightarrow> pyval \<Rightarrow> (string \<times> endpoint list) list result" where
  "endpoints_of topics (VDict d) = rmap (endpoints_entry topics) d"
| "endpoints_of topics _ = Raise DiscoveryError"

fun nodes_of :: "pyval \<Rightarrow> string list result" where
  "nodes_of (VList vs) = (if list_all rooted vs then Ret (map str_val vs) else Raise DiscoveryError)"
| "nodes_of _ = Raise DiscoveryError"

definition SNAPSHOT_KEYS :: "string list" where
  "SNAPSHOT_KEYS = [''nodes'', ''topics'', ''services'', ''actions'', ''topic_endpoints'']"

fun snapshot_from_document :: "pyval \<Rightarrow> graph_snapshot result" where
  "snapshot_from_document (VDict d) =
     (if \<not> keys_are d SNAPSHOT_KEYS then Raise DiscoveryError
      else
        rbind (nodes_of (vget d ''nodes'')) (\<lambda>nodes.
        rbind (types_of (vget d ''topics'')) (\<lambda>topics.
        rbind (types_of (vget d ''services'')) (\<lambda>services.
        rbind (types_of (vget d ''actions'')) (\<lambda>actions.
        rbind (endpoints_of topics (vget d ''topic_endpoints'')) (\<lambda>endpoints.
          Ret \<lparr>gs_nodes = nodes, gs_topics = topics, gs_services = services, gs_actions = actions,
               gs_topic_endpoints = endpoints\<rparr>))))))"
| "snapshot_from_document _ = Raise DiscoveryError"

text \<open>
  The helper process: its run (return code and standard output), and the raw decoder of the
  JSON library, which gives the document and where it ends.
\<close>

definition run_native_helper ::
  "(string \<Rightarrow> (pyval \<times> nat) result) \<Rightarrow> (int \<times> string) result \<Rightarrow> graph_snapshot result" where
  "run_native_helper raw_decode completed =
     (case completed of
        Inl PyOSError \<Rightarrow> Raise DiscoveryError
      | Inl e \<Rightarrow> Raise e
      | Inr (returncode, stdout) \<Rightarrow>
          if returncode \<noteq> 0 then Raise DiscoveryError
          else
            (let text = dropWhile py_space stdout;
                 parsed = rbind (raw_decode text) (\<lambda>(document, end_pos).
                   if strip (drop end_pos text) \<noteq> [] then Raise PyValueError
                   else snapshot_from_document document)
             in (case parsed of
                   Inl e \<Rightarrow> if e \<in> {PyTypeError, PyValueError, DiscoveryError} then Raise DiscoveryError
                            else Raise e
                 | Inr g \<Rightarrow> Ret g)))"

section \<open>The document round trip\<close>

definition types_wf :: "types_map \<Rightarrow> bool" where
  "types_wf m = list_all (\<lambda>(k, ts). starts_with ''/'' k \<and> ts \<noteq> [] \<and> list_all (\<lambda>t. t \<noteq> []) ts) m"

definition endpoint_wf :: "endpoint \<Rightarrow> bool" where
  "endpoint_wf e \<longleftrightarrow> en_node_name e \<noteq> [] \<and> en_gid e \<noteq> [] \<and>
     en_endpoint_type e \<in> {''publisher'', ''subscription''}"

definition snapshot_wf :: "graph_snapshot \<Rightarrow> bool" where
  "snapshot_wf g \<longleftrightarrow> list_all (starts_with ''/'') (gs_nodes g) \<and> types_wf (gs_topics g) \<and>
     types_wf (gs_services g) \<and> types_wf (gs_actions g) \<and>
     list_all (\<lambda>(t, es). t \<in> set (dkeys (gs_topics g)) \<and> list_all endpoint_wf es) (gs_topic_endpoints g)"

lemma strs_doc [simp]:
  "list_all rooted (map VStr ss) = list_all (starts_with ''/'') ss"
  "list_all nonempty_str (map VStr ss) = list_all (\<lambda>s. s \<noteq> []) ss"
  "map str_val (map VStr ss) = ss" "map (str_val \<circ> VStr) ss = ss"
  by (induction ss) auto

lemma types_of_doc: "types_of (types_doc m) = (if types_wf m then Ret m else Raise DiscoveryError)"
proof -
  have "rmap (\<lambda>x. types_entry (case x of (k, ts) \<Rightarrow> (VStr k, VList (map VStr ts)))) m =
      (if list_all (\<lambda>(k, ts). starts_with ''/'' k \<and> ts \<noteq> [] \<and> list_all (\<lambda>t. t \<noteq> []) ts) m
       then Ret (map id m) else Raise DiscoveryError)"
    by (rule rmap_if) (auto split: prod.splits simp del: list.map_comp map_map)
  then show ?thesis by (simp add: types_doc_def types_wf_def)
qed

lemma endpoint_of_doc: "endpoint_of (endpoint_doc e) = (if endpoint_wf e then Ret e else Raise DiscoveryError)"
  by (simp add: endpoint_doc_def endpoint_wf_def keys_are_def dkeys_def vget_def ENDPOINT_KEYS_def)

lemma endpoints_of_doc:
  "endpoints_of topics (endpoints_doc m) =
     (if list_all (\<lambda>(t, es). t \<in> set (dkeys topics) \<and> list_all endpoint_wf es) m
      then Ret m else Raise DiscoveryError)"
proof -
  have es: "rmap (\<lambda>e. endpoint_of (endpoint_doc e)) l =
      (if list_all endpoint_wf l then Ret l else Raise DiscoveryError)" for l
    using rmap_if [of l "\<lambda>e. endpoint_of (endpoint_doc e)" endpoint_wf "\<lambda>e. e"] by (simp add: endpoint_of_doc)
  have "rmap (\<lambda>x. endpoints_entry topics (case x of (t, es) \<Rightarrow> (VStr t, VList (map endpoint_doc es)))) m =
      (if list_all (\<lambda>(t, es). t \<in> set (dkeys topics) \<and> list_all endpoint_wf es) m
       then Ret (map id m) else Raise DiscoveryError)"
    by (rule rmap_if) (auto simp: es split: if_splits)
  then show ?thesis by (simp add: endpoints_doc_def)
qed

lemma snapshot_keys: "dkeys [(a, v), (b, w), (c, x), (d, y), (e, z)] = [a, b, c, d, e]"
  by (simp add: dkeys_def)

text \<open>The helper boundary carries a snapshot faithfully: reading back the document of a
  snapshot gives that same snapshot exactly when its node and interface names are rooted, its
  types are non-empty and every endpoint is an identified publisher or subscription of a
  listed topic, and is refused with a discovery error otherwise.\<close>
theorem snapshot_document_round_trip:
  "snapshot_from_document (snapshot_document g) = (if snapshot_wf g then Ret g else Raise DiscoveryError)"
  by (cases "list_all (starts_with ''/'') (gs_nodes g)"; cases "types_wf (gs_topics g)";
      cases "types_wf (gs_services g)"; cases "types_wf (gs_actions g)")
    (auto simp: snapshot_document_def snapshot_wf_def keys_are_def vget_def
      SNAPSHOT_KEYS_def types_of_doc endpoints_of_doc snapshot_keys)

section \<open>What acceptance guarantees\<close>

lemma types_entry_wf:
  "types_entry kv = Ret p \<Longrightarrow> starts_with ''/'' (fst p) \<and> snd p \<noteq> [] \<and> list_all (\<lambda>t. t \<noteq> []) (snd p)"
proof (induction kv rule: types_entry.induct)
  case (1 name types)
  have "list_all nonempty_str vs \<Longrightarrow> list_all (\<lambda>t. t \<noteq> []) (map str_val vs)" for vs
  proof (induction vs)
    case (Cons v vs)
    then show ?case by (cases v) auto
  qed simp
  with 1 show ?case by (cases name) (auto split: if_splits)
qed simp_all

lemma types_of_wf: "types_of v = Ret m \<Longrightarrow> types_wf m"
  using types_entry_wf by (cases v) (auto simp: types_wf_def split_def intro: rmap_list_all)

lemma endpoint_of_wf: "endpoint_of v = Ret e \<Longrightarrow> endpoint_wf e"
  by (cases v) (auto simp: endpoint_wf_def split: if_splits)

lemma endpoints_entry_wf:
  "endpoints_entry topics kv = Ret p \<Longrightarrow> fst p \<in> set (dkeys topics) \<and> list_all endpoint_wf (snd p)"
  by (induction topics kv rule: endpoints_entry.induct)
    (auto split: if_splits intro: rmap_list_all endpoint_of_wf)

lemma endpoints_of_wf:
  assumes "endpoints_of topics v = Ret m"
  shows "list_all (\<lambda>(t, es). t \<in> set (dkeys topics) \<and> list_all endpoint_wf es) m"
  using assms endpoints_entry_wf
  by (cases v) (auto simp: split_def intro!: rmap_list_all [where f = "endpoints_entry topics"])

lemma nodes_of_wf: "nodes_of v = Ret ns \<Longrightarrow> list_all (starts_with ''/'') ns"
proof (cases v)
  case (VList vs)
  have "list_all rooted vs \<Longrightarrow> list_all (starts_with ''/'') (map str_val vs)"
  proof (induction vs)
    case (Cons x xs)
    then show ?case by (cases x) auto
  qed simp
  then show "nodes_of v = Ret ns \<Longrightarrow> ?thesis" using VList by (auto split: if_splits)
qed simp_all

lemma snapshot_from_document_wf: "snapshot_from_document v = Ret g \<Longrightarrow> snapshot_wf g"
  by (cases v) (auto simp: snapshot_wf_def split: if_splits
      intro: nodes_of_wf types_of_wf endpoints_of_wf)

lemma errs_types_of: "errs {DiscoveryError} (types_of v)"
proof -
  have "errs {DiscoveryError} (types_entry kv)" for kv
    by (induction kv rule: types_entry.induct) auto
  then show ?thesis by (cases v) (auto intro: errs_rmap)
qed

lemma errs_endpoints_of: "errs {DiscoveryError} (endpoints_of topics v)"
proof -
  have "errs {DiscoveryError} (endpoint_of w)" for w by (cases w) auto
  then have "errs {DiscoveryError} (endpoints_entry topics kv)" for kv
    by (induction topics kv rule: endpoints_entry.induct) (auto intro!: errs_rbind errs_rmap)
  then show ?thesis by (cases v) (auto intro: errs_rmap)
qed

lemma errs_snapshot: "errs {DiscoveryError} (snapshot_from_document v)"
proof -
  have "errs {DiscoveryError} (nodes_of w)" for w by (cases w) auto
  then show ?thesis
    by (cases v) (auto intro!: errs_rbind errs_types_of errs_endpoints_of)
qed

section \<open>Properties of the inference\<close>

definition offering :: "types_map \<Rightarrow> string \<Rightarrow> string set" where
  "offering m ty = {n. \<exists>ts. (n, ts) \<in> set m \<and> ty \<in> set ts}"

definition named_like :: "string \<Rightarrow> string \<Rightarrow> bool" where
  "named_like suffix n = ends_with suffix (rstrip_char (CHR ''/'') n)"

lemma set_typed_topics [simp]:
  "set (typed_topics m ty None) = offering m ty"
  "set (typed_topics m ty (Some x)) = {n \<in> offering m ty. named_like x n}"
  by (auto simp: typed_topics_def offering_def named_like_def image_iff)

lemma typed_topics_ne:
  "typed_topics m ty None \<noteq> [] \<longleftrightarrow> offering m ty \<noteq> {}"
  "typed_topics m ty (Some x) \<noteq> [] \<longleftrightarrow> (\<exists>n \<in> offering m ty. named_like x n)"
proof -
  have *: "l \<noteq> [] \<longleftrightarrow> set l \<noteq> {}" for l :: "string list" by auto
  show "typed_topics m ty None \<noteq> [] \<longleftrightarrow> offering m ty \<noteq> {}"
    "typed_topics m ty (Some x) \<noteq> [] \<longleftrightarrow> (\<exists>n \<in> offering m ty. named_like x n)"
    unfolding * by auto
qed

lemma one_capability_names [simp]: "map cp_name (one_capability n ts) = (if ts = [] then [] else [n])"
  by (simp add: one_capability_def mk_capability_def)

text \<open>The inference is exact: a report names each capability at most once, and names it
  precisely when the snapshot offers the interfaces it stands for, a mobile base needing both
  a velocity command topic and an odometry topic of the standard types and name endings.\<close>
theorem capabilities_exact:
  "distinct (capability_names (infer_capabilities g)) \<and>
   (''mobile_base.twist'' \<in> set (capability_names (infer_capabilities g)) \<longleftrightarrow>
      (\<exists>n \<in> offering (gs_topics g) TWIST_TYPE. named_like ''cmd_vel'' n) \<and>
      (\<exists>n \<in> offering (gs_topics g) ODOMETRY_TYPE. named_like ''odom'' n)) \<and>
   (''navigation.nav2'' \<in> set (capability_names (infer_capabilities g)) \<longleftrightarrow>
      offering (gs_actions g) NAVIGATE_TO_POSE_TYPE \<noteq> {}) \<and>
   (''perception.camera'' \<in> set (capability_names (infer_capabilities g)) \<longleftrightarrow>
      offering (gs_topics g) IMAGE_TYPE \<noteq> {}) \<and>
   (''perception.laser_scan'' \<in> set (capability_names (infer_capabilities g)) \<longleftrightarrow>
      offering (gs_topics g) LASER_SCAN_TYPE \<noteq> {}) \<and>
   (''manipulation.follow_joint_trajectory'' \<in> set (capability_names (infer_capabilities g)) \<longleftrightarrow>
      offering (gs_actions g) FOLLOW_JOINT_TRAJECTORY_TYPE \<noteq> {})"
  unfolding typed_topics_ne [symmetric]
  by (simp add: capability_names_def infer_capabilities_def Let_def mk_capability_def)

text \<open>Evidence is real: whatever a capability of a report cites was offered by the
  snapshot, and the report's type maps, on which authorization relies, are the snapshot's.\<close>
theorem capability_evidence_offered:
  assumes "c \<in> set (dr_capabilities (infer_capabilities g))" "n \<in> set (cp_evidence c)"
  shows "n \<in> set (dkeys (gs_topics g)) \<union> set (dkeys (gs_actions g)) \<and> cp_confidence c = 1 \<and>
    dr_topic_types (infer_capabilities g) = gs_topics g \<and> dr_action_types (infer_capabilities g) = gs_actions g"
proof -
  have sub: "offering m ty \<subseteq> set (dkeys m)" for m ty by (force simp: offering_def dkeys_def)
  have hd1: "typed_topics m ty o1 \<noteq> [] \<Longrightarrow> hd (typed_topics m ty o1) \<in> set (dkeys m)" for m ty o1
    using sub hd_in_set [of "typed_topics m ty o1"] by (cases o1) auto
  from assms show ?thesis
    by (auto simp: infer_capabilities_def Let_def one_capability_def mk_capability_def hd1
        split: if_splits)
qed

text \<open>A report blocks exactly on contention: it has no blocking warning if and only if no
  velocity command topic of the snapshot has two publishers.\<close>

theorem no_blocking_warning_iff:
  "dr_blocking_warnings (infer_capabilities g) = [] \<longleftrightarrow>
     (\<forall>n \<in> {n \<in> offering (gs_topics g) TWIST_TYPE. named_like ''cmd_vel'' n}. length (publishers_of g n) \<le> 1)"
proof -
  have "dr_blocking_warnings (infer_capabilities g) = [] \<longleftrightarrow>
      (\<forall>n \<in> set (typed_topics (gs_topics g) TWIST_TYPE (Some ''cmd_vel'')). \<not> 1 < length (publishers_of g n))"
    by (simp add: infer_capabilities_def Let_def controller_warnings_def filter_empty_conv)
  then show ?thesis by (simp add: not_less)
qed

section \<open>Properties of the probes\<close>

text \<open>The native probe owns what it acquires: on every path, whichever call raises, it
  attempts exactly the releases of the resources it acquired, each once, in the fixed order;
  it returns a snapshot only if the reading and every release succeeded, and only a discovery
  error ever leaves it.\<close>
theorem probe_native_releases:
  "let ctx = is_ret (na_modules a) \<and> is_ret (na_context a);
       node = ctx \<and> is_ret (na_init a) \<and> is_ret (na_create_node a);
       ex = node \<and> is_ret (na_executor a);
       added = ex \<and> is_ret (na_add_node a)
   in fst (probe_native a) = (if added then [RemoveNode] else []) @ (if node then [DestroyNode] else []) @
        (if ex then [ShutdownExecutor] else []) @ (if ctx then [ShutdownContext] else []) \<and>
      (is_ret (snd (probe_native a)) \<longleftrightarrow> added \<and> is_ret (native_read a) \<and> is_ret (na_remove_node a) \<and>
         is_ret (na_destroy_node a) \<and> na_shutdown a = Ret True \<and> is_ret (na_try_shutdown a)) \<and>
      errs {DiscoveryError} (snd (probe_native a))"
  by (cases "na_modules a"; cases "na_context a"; cases "na_init a"; cases "na_create_node a";
      cases "na_executor a"; cases "na_add_node a"; cases "native_read a")
    (simp_all add: probe_native_def native_body_def native_cleanup_def mk_owned_def)

text \<open>The helper boundary fails closed: when the process library and the decoder raise only
  what they document, only a discovery error leaves \<^verbatim>\<open>_run_native_helper\<close>, and a snapshot
  it returns is well formed, whatever text the helper printed.\<close>
theorem run_native_helper_fails_closed:
  assumes "errs {PyOSError} completed" "\<And>text. errs {PyValueError} (raw_decode text)"
  shows "errs {DiscoveryError} (run_native_helper raw_decode completed) \<and>
    (\<forall>g. run_native_helper raw_decode completed = Ret g \<longrightarrow> snapshot_wf g)"
proof (cases completed)
  case (Inl e)
  then show ?thesis using assms(1) by (simp add: run_native_helper_def)
next
  case (Inr out)
  obtain code stdout where o: "out = (code, stdout)" by (cases out)
  define body where "body = dropWhile py_space stdout"
  define parsed where "parsed = rbind (raw_decode body) (\<lambda>(document, end_pos).
    if strip (drop end_pos body) \<noteq> [] then Raise PyValueError else snapshot_from_document document)"
  have e: "errs {PyValueError, DiscoveryError} parsed"
    unfolding parsed_def
    using assms(2) [of body] errs_snapshot
    by (intro errs_rbind) (auto simp: errs_def split: if_splits)
  have w: "parsed = Ret g \<Longrightarrow> snapshot_wf g" for g
    by (auto simp: parsed_def intro: snapshot_from_document_wf split: if_splits)
  have "run_native_helper raw_decode completed = (if code \<noteq> 0 then Raise DiscoveryError else
      (case parsed of Inl e \<Rightarrow> if e \<in> {PyTypeError, PyValueError, DiscoveryError} then Raise DiscoveryError
        else Raise e | Inr g \<Rightarrow> Ret g))"
    by (simp only: run_native_helper_def Inr o parsed_def body_def Let_def sum.case prod.case)
  with e w show ?thesis by (cases parsed) (auto simp: errs_def)
qed

definition demo_snapshot :: graph_snapshot where
  "demo_snapshot = \<lparr>gs_nodes = [''/base''],
     gs_topics = [(''/cmd_vel'', [TWIST_TYPE]), (''/odom'', [ODOMETRY_TYPE])], gs_services = [],
     gs_actions = [],
     gs_topic_endpoints = [(''/cmd_vel'', [\<lparr>en_node_name = ''base'', en_gid = ''0a'',
       en_endpoint_type = ''publisher'', en_node_namespace = ''/''\<rparr>])]\<rparr>"

lemma run_native_helper_fails_closed_witness:
  "run_native_helper (\<lambda>text. Ret (snapshot_document demo_snapshot, length text)) (Ret (0, ''{}'')) =
     Ret demo_snapshot \<and> snapshot_wf demo_snapshot \<and>
   errs {DiscoveryError} (run_native_helper (\<lambda>text. Raise PyValueError) (Ret (0, ''x'')))"
proof -
  have wf: "snapshot_wf demo_snapshot"
    by (simp add: snapshot_wf_def demo_snapshot_def types_wf_def endpoint_wf_def dkeys_def
        starts_with_def TWIST_TYPE_def ODOMETRY_TYPE_def)
  have r: "run_native_helper (\<lambda>text. Ret (snapshot_document demo_snapshot, length text)) (Ret (0, ''{}'')) =
      Ret demo_snapshot"
    by (simp add: run_native_helper_def snapshot_document_round_trip wf py_space_def)
  show ?thesis
    using r run_native_helper_fails_closed [of "Ret (0, ''{}'')"
        "\<lambda>text. Ret (snapshot_document demo_snapshot, length text)"]
      run_native_helper_fails_closed [of "Ret (0, ''x'')" "\<lambda>text. Raise PyValueError"]
    by simp
qed

lemma capability_evidence_offered_witness:
  "''/odom'' \<in> set (dkeys (gs_topics demo_snapshot)) \<union> set (dkeys (gs_actions demo_snapshot))"
proof -
  have "mk_capability ''mobile_base.twist'' [''/cmd_vel'', ''/odom''] \<in>
      set (dr_capabilities (infer_capabilities demo_snapshot))"
    by (simp add: infer_capabilities_def typed_topics_def demo_snapshot_def TWIST_TYPE_def
        ODOMETRY_TYPE_def ends_with_def starts_with_def rstrip_char_def)
  from capability_evidence_offered [OF this, of "''/odom''"] show ?thesis
    by (simp add: mk_capability_def)
qed

section \<open>The line format round trip\<close>

fun join_items :: "string list \<Rightarrow> string" where
  "join_items [] = []"
| "join_items [t] = t"
| "join_items (t # ts) = t @ '', '' @ join_items ts"

text \<open>What \<^verbatim>\<open>ros2 topic list -t\<close> prints for an entry.\<close>

definition render_line :: "string \<times> string list \<Rightarrow> string" where
  "render_line kv = fst kv @ '' ['' @ join_items (snd kv) @ '']''"

definition render_lines :: "types_map \<Rightarrow> string" where
  "render_lines m = concat (map (\<lambda>kv. render_line kv @ [CHR 0x0A]) m)"

definition plain_word :: "string \<Rightarrow> bool" where
  "plain_word s \<longleftrightarrow> s \<noteq> [] \<and> list_all (\<lambda>c. \<not> py_space c \<and> c \<noteq> CHR '','' \<and> c \<noteq> CHR '']'') s"

lemma split_breaks_line:
  "list_all (\<lambda>c. \<not> line_break c) l \<Longrightarrow>
    split_breaks acc (l @ CHR 0x0A # rest) = (acc @ l) # split_breaks [] rest"
proof (induction l arbitrary: acc)
  case Nil
  show ?case by (cases rest) (simp_all add: line_break_def)
next
  case (Cons c l)
  then have c: "\<not> line_break c" and r: "c \<noteq> CHR 0x0D" by (auto simp: line_break_def)
  obtain d ds where l: "l @ CHR 0x0A # rest = d # ds" by (cases l) auto
  have "split_breaks acc (c # (l @ CHR 0x0A # rest)) = split_breaks (acc @ [c]) (l @ CHR 0x0A # rest)"
    unfolding l using c r by simp
  with Cons show ?case by simp
qed

lemma line_break_space: "line_break c \<Longrightarrow> py_space c"
  by (auto simp: line_break_def py_space_def)

lemma plain_no_break: "plain_word s \<Longrightarrow> list_all (\<lambda>c. \<not> line_break c) s"
  using line_break_space by (auto simp: plain_word_def list_all_iff)

lemma line_break_chars [simp]:
  "\<not> line_break (CHR '' '')" "\<not> line_break (CHR '','')" "\<not> line_break (CHR ''['')" "\<not> line_break (CHR '']'')"
  by (simp_all add: line_break_def)

lemma items_no_break: "list_all plain_word ts \<Longrightarrow> list_all (\<lambda>c. \<not> line_break c) (join_items ts)"
  by (induction ts rule: join_items.induct) (auto simp: plain_no_break)

lemma dropWhile_none: "list_all (\<lambda>c. \<not> P c) s \<Longrightarrow> dropWhile P s = s"
  by (cases s) auto

lemma strip_plain: "list_all (\<lambda>c. \<not> py_space c) s \<Longrightarrow> strip s = s"
  by (simp add: strip_def dropWhile_none list_all_iff)

lemma plain_wordD:
  assumes "plain_word s"
  shows "s \<noteq> []" "list_all (\<lambda>c. \<not> py_space c) s" "list_all (\<lambda>c. c \<noteq> CHR '','') s"
    "list_all (\<lambda>c. c \<noteq> CHR '']'') s" "strip s = s"
proof -
  have p: "s \<noteq> []" "list_all (\<lambda>c. \<not> py_space c \<and> c \<noteq> CHR '','' \<and> c \<noteq> CHR '']'') s"
    using assms unfolding plain_word_def by blast+
  show "s \<noteq> []" by (rule p(1))
  show sp: "list_all (\<lambda>c. \<not> py_space c) s" by (rule list.pred_mono_strong [OF p(2)]) blast
  show "list_all (\<lambda>c. c \<noteq> CHR '','') s" by (rule list.pred_mono_strong [OF p(2)]) blast
  show "list_all (\<lambda>c. c \<noteq> CHR '']'') s" by (rule list.pred_mono_strong [OF p(2)]) blast
  show "strip s = s" by (rule strip_plain [OF sp])
qed

lemma items_no_bracket: "list_all plain_word ts \<Longrightarrow> list_all (\<lambda>c. c \<noteq> CHR '']'') (join_items ts)"
  by (induction ts rule: join_items.induct) (simp_all add: plain_wordD)

lemma items_ne: "list_all plain_word ts \<Longrightarrow> ts \<noteq> [] \<Longrightarrow> join_items ts \<noteq> []"
  by (cases ts rule: join_items.cases) (auto dest: plain_wordD)

lemma strip_ends: "\<not> py_space a \<Longrightarrow> \<not> py_space z \<Longrightarrow> strip (a # s @ [z]) = a # s @ [z]"
  by (simp add: strip_def)

lemma type_items_space: "type_items (CHR '' '' # s) = type_items s"
proof (cases "split_char (CHR '','') s")
  case (Cons p ps)
  have "strip (CHR '' '' # p) = strip p" by (simp add: strip_def py_space_def)
  with Cons show ?thesis by (simp add: type_items_def)
qed (simp add: split_char_ne)

lemma type_items_join: "list_all plain_word ts \<Longrightarrow> type_items (join_items ts) = ts"
proof (induction ts rule: join_items.induct)
  case 1
  show ?case by (simp add: type_items_def)
next
  case (2 t)
  then have "list_all (\<lambda>c. c \<noteq> CHR '','') t" "strip t = t" "t \<noteq> []"
    by (simp_all add: plain_wordD)
  then show ?case by (simp add: type_items_def split_char_none)
next
  case (3 t u us)
  then have t: "list_all (\<lambda>c. c \<noteq> CHR '','') t" "strip t = t" "t \<noteq> []"
    by (simp_all add: plain_wordD)
  have "type_items (t @ CHR '','' # r) = t # type_items r" for r
    using t by (simp add: type_items_def split_char_sep)
  then show ?case using 3 by (simp add: type_items_space)
qed

lemma typed_line_render:
  assumes "plain_word n" "list_all plain_word ts" "ts \<noteq> []"
  shows "typed_line (strip (render_line (n, ts))) = Some (n, join_items ts)"
proof -
  obtain a n' where n: "n = a # n'" using plain_wordD(1) [OF assms(1)] by (cases n) auto
  have sp: "\<forall>c \<in> set n. \<not> py_space c" using plain_wordD(2) [OF assms(1)] by (simp add: list_all_iff)
  have "strip (render_line (n, ts)) = render_line (n, ts)"
    using strip_ends [of a "CHR '']''" "n' @ '' ['' @ join_items ts"] sp n
    by (simp add: render_line_def py_space_def)
  moreover have "py_space (CHR '' '')" "\<not> py_space (CHR ''['')" by (simp_all add: py_space_def)
  moreover have "takeWhile (\<lambda>c. c \<noteq> CHR '']'') (join_items ts @ '']'') = join_items ts"
    "dropWhile (\<lambda>c. c \<noteq> CHR '']'') (join_items ts @ '']'') = '']''"
    using items_no_bracket [OF assms(2)] by (auto simp: list_all_iff takeWhile_append2 dropWhile_append2)
  ultimately show ?thesis
    using sp n items_ne [OF assms(2,3)]
    by (simp add: typed_line_def render_line_def takeWhile_append2 dropWhile_append2 Let_def)
qed

definition lines_wf :: "types_map \<Rightarrow> bool" where
  "lines_wf m \<longleftrightarrow> distinct (dkeys m) \<and> list_all (\<lambda>(n, ts). plain_word n \<and> ts \<noteq> [] \<and> list_all plain_word ts) m"

lemma splitlines_render:
  "list_all (\<lambda>(n, ts). plain_word n \<and> ts \<noteq> [] \<and> list_all plain_word ts) m \<Longrightarrow>
    splitlines (render_lines m) = map render_line m"
proof (induction m)
  case Nil
  show ?case by (simp add: splitlines_def render_lines_def)
next
  case (Cons kv m)
  then have "list_all (\<lambda>c. \<not> line_break c) (render_line kv)"
    by (auto simp: render_line_def plain_no_break items_no_break)
  from split_breaks_line [OF this, of "[]"] Cons show ?case
    by (simp add: splitlines_def render_lines_def)
qed

text \<open>Parsing is the inverse of the tool's line format: the entries printed one per line as
  a name and its bracketed types are read back, in order, whatever the number of entries and
  types, when names and types contain no space, comma or closing bracket.\<close>
theorem typed_lines_round_trip:
  assumes "lines_wf m"
  shows "parse_typed_lines (render_lines m) = m"
proof -
  define rd where "rd line entries = (case typed_line (strip line) of
    None \<Rightarrow> entries | Some (name, types) \<Rightarrow> dset name (type_items types) entries)" for line entries
  have *: "fold rd (map render_line m) acc = acc @ m"
    if "distinct (dkeys (acc @ m))" "list_all (\<lambda>(n, ts). plain_word n \<and> ts \<noteq> [] \<and> list_all plain_word ts) m"
    for acc
    using that
  proof (induction m arbitrary: acc)
    case (Cons kv m)
    obtain n ts where kv: "kv = (n, ts)" by (cases kv)
    with Cons.prems have "rd (render_line kv) acc = acc @ [kv]"
      by (simp add: rd_def typed_line_render type_items_join dset_new dkeys_def)
    with Cons.IH [of "acc @ [kv]"] Cons.prems show ?case by simp
  qed simp
  show ?thesis
    using * [of "[]"] assms
    by (simp add: parse_typed_lines_def splitlines_render lines_wf_def rd_def [abs_def])
qed

lemma typed_lines_round_trip_witness:
  "parse_typed_lines (render_lines [(''/cmd_vel'', [''geometry_msgs/msg/Twist'', ''x/msg/Y''])]) =
     [(''/cmd_vel'', [''geometry_msgs/msg/Twist'', ''x/msg/Y''])]"
  by (rule typed_lines_round_trip) (simp add: lines_wf_def dkeys_def plain_word_def py_space_def)

end
