(* ===== verification/Challenge.thy ===== *)
theory Challenge
  imports Profiles
begin

text \<open>
  Out-of-band, single-use operator challenges: \<^verbatim>\<open>agent_ros/safety/challenge.py\<close>. The
  runtime directory is a map from file names to documents; the digest of a token (SHA-256
  in hexadecimal), the boot identity and what the calls of the operating system do are
  arguments.
\<close>

section \<open>The world of a challenge\<close>

datatype challenge_file = Absent | Unreadable | Document pyval

text \<open>A record replaces its file atomically; a failure may come before or after the replacement.\<close>

datatype write_outcome = Written | FailsBefore | FailsAfter

record challenge_os =
  co_dir :: "unit result"
  co_lock :: "unit result"
  co_boot :: "pyval result"
  co_write :: write_outcome

type_synonym challenge_files = "string \<Rightarrow> challenge_file"

definition MAX_TTL_SECONDS :: rat where "MAX_TTL_SECONDS = 300"

definition challenge_name_ok :: "string \<Rightarrow> bool" where
  "challenge_name_ok = rx (\<lambda>c. is_lower c \<or> is_digit c) (\<lambda>c. is_lower c \<or> is_digit c \<or> c = CHR ''-'') 1 None"

fun validate_profile_name :: "pyval \<Rightarrow> string result" where
  "validate_profile_name (VStr s) = (if challenge_name_ok s then Ret s else Raise ChallengeError)"
| "validate_profile_name _ = Raise ChallengeError"

definition boot_id_ok :: "string \<Rightarrow> bool" where
  "boot_id_ok s \<longleftrightarrow> 8 \<le> length s \<and> length s \<le> 128 \<and>
     list_all (\<lambda>c. is_upper c \<or> is_lower c \<or> is_digit c \<or> c = CHR ''-'') s"

text \<open>Any failure of the provider and any other value is a challenge error.\<close>

definition validated_boot_id :: "pyval result \<Rightarrow> string result" where
  "validated_boot_id provider =
     (case provider of
        Inr (VStr s) \<Rightarrow> if boot_id_ok s then Ret s else Raise ChallengeError
      | _ \<Rightarrow> Raise ChallengeError)"

definition challenge_path :: "string \<Rightarrow> string" where
  "challenge_path name = name @ ''.challenge.json''"

fun ttl_ok :: "pyval \<Rightarrow> bool" where
  "ttl_ok (VInt n) = (0 < n \<and> of_int n \<le> MAX_TTL_SECONDS)"
| "ttl_ok (VFloat x) = (flt (Fin 0) x \<and> fle x (Fin MAX_TTL_SECONDS))"
| "ttl_ok _ = False"

definition challenge_record :: "string \<Rightarrow> string \<Rightarrow> pyfloat \<Rightarrow> string \<Rightarrow> pyval" where
  "challenge_record digest name expiry boot =
     VDict [(VStr ''hash'', VStr digest), (VStr ''profile'', VStr name),
       (VStr ''expires_monotonic'', VFloat expiry), (VStr ''boot_id'', VStr boot), (VStr ''used'', VBool False)]"

section \<open>Operations\<close>

definition write_record :: "write_outcome \<Rightarrow> string \<Rightarrow> pyval \<Rightarrow> challenge_files \<Rightarrow> unit result \<times> challenge_files" where
  "write_record w path doc files =
     (case w of
        Written \<Rightarrow> (Ret (), files(path := Document doc))
      | FailsBefore \<Rightarrow> (Raise PyOSError, files)
      | FailsAfter \<Rightarrow> (Raise PyOSError, files(path := Document doc)))"

definition create_operator_challenge ::
  "(string \<Rightarrow> string) \<Rightarrow> challenge_os \<Rightarrow> pyfloat \<Rightarrow> string \<Rightarrow> pyval \<Rightarrow> pyval \<Rightarrow> challenge_files \<Rightarrow>
   string result \<times> challenge_files" where
  "create_operator_challenge digest os now token profile ttl files =
     (case rbind (validate_profile_name profile) (\<lambda>name.
           rbind (guard (ttl_ok ttl) ChallengeError) (\<lambda>_.
           rbind (co_dir os) (\<lambda>_.
           rbind (validated_boot_id (co_boot os)) (\<lambda>boot.
           rbind (py_float ttl) (\<lambda>seconds. Ret (name, boot, seconds)))))) of
        Inl e \<Rightarrow> (Raise e, files)
      | Inr (name, boot, seconds) \<Rightarrow>
          (case write_record (co_write os) (challenge_path name)
                  (challenge_record (digest token) name (fadd now seconds) boot) files of
             (Inl e, files1) \<Rightarrow> (Raise e, files1)
           | (Inr _, files1) \<Rightarrow> (Ret token, files1)))"

definition is_ascii :: "string \<Rightarrow> bool" where
  "is_ascii s = list_all (\<lambda>c. (of_char c :: nat) < 128) s"

text \<open>\<^verbatim>\<open>now < expiry\<close>, where the expiry of a read record may be any number.\<close>

fun before_expiry :: "pyfloat \<Rightarrow> pyval \<Rightarrow> bool" where
  "before_expiry now (VFloat x) = flt now x"
| "before_expiry now (VInt n) = (case now of Fin r \<Rightarrow> r < of_int n | NInf \<Rightarrow> True | _ \<Rightarrow> False)"
| "before_expiry now _ = False"

text \<open>
  \<^verbatim>\<open>_valid_record\<close>: the tests in order; \<^verbatim>\<open>hmac.compare_digest\<close> raises
  \<^verbatim>\<open>TypeError\<close> on a string that is not ASCII.
\<close>

fun valid_record :: "(string \<Rightarrow> string) \<Rightarrow> pyval \<Rightarrow> string \<Rightarrow> string \<Rightarrow> pyfloat \<Rightarrow> string \<Rightarrow> bool result" where
  "valid_record digest (VDict d) name token now boot =
     (if vget d ''profile'' = VStr name \<and> vget d ''boot_id'' = VStr boot \<and> vget d ''used'' = VBool False \<and>
         is_str (vget d ''hash'') \<and> is_number (vget d ''expires_monotonic'') \<and>
         before_expiry now (vget d ''expires_monotonic'')
      then (if is_ascii (str_val (vget d ''hash'')) \<and> is_ascii (digest token)
            then Ret (str_val (vget d ''hash'') = digest token) else Raise PyTypeError)
      else Ret False)"
| "valid_record digest _ name token now boot = Ret False"

fun mark_used :: "pyval \<Rightarrow> pyval" where
  "mark_used (VDict d) = VDict (dset (VStr ''used'') (VBool True) d)"
| "mark_used v = v"

text \<open>What runs while the lock of the record is held.\<close>

definition consume_locked ::
  "(string \<Rightarrow> string) \<Rightarrow> challenge_os \<Rightarrow> pyfloat \<Rightarrow> string \<Rightarrow> string \<Rightarrow> challenge_files \<Rightarrow>
   bool result \<times> challenge_files" where
  "consume_locked digest os now name token files =
     (case files (challenge_path name) of
        Document doc \<Rightarrow>
          (case rbind (validated_boot_id (co_boot os)) (\<lambda>boot. valid_record digest doc name token now boot) of
             Inl e \<Rightarrow> (Raise e, files)
           | Inr False \<Rightarrow> (Ret False, files)
           | Inr True \<Rightarrow>
               (case write_record (co_write os) (challenge_path name) (mark_used doc) files of
                  (Inl e, files1) \<Rightarrow> (Raise e, files1)
                | (Inr _, files1) \<Rightarrow> (Ret True, files1)))
      | _ \<Rightarrow> (Ret False, files))"

definition refuse :: "bool result \<Rightarrow> bool result" where
  "refuse r = (case r of Inl e \<Rightarrow> if e = ChallengeError \<or> e = PyOSError then Ret False else Raise e | Inr b \<Rightarrow> Ret b)"

definition consume_operator_challenge ::
  "(string \<Rightarrow> string) \<Rightarrow> challenge_os \<Rightarrow> pyfloat \<Rightarrow> pyval \<Rightarrow> pyval \<Rightarrow> challenge_files \<Rightarrow>
   bool result \<times> challenge_files" where
  "consume_operator_challenge digest os now profile token files =
     (if \<not> nonempty_str token then (Ret False, files)
      else
        (case rbind (validate_profile_name profile) (\<lambda>name.
              rbind (co_dir os) (\<lambda>_. rbind (co_lock os) (\<lambda>_. Ret name))) of
           Inl e \<Rightarrow> (refuse (Raise e), files)
         | Inr name \<Rightarrow>
             (let (r, files1) = consume_locked digest os now name (str_val token) files in (refuse r, files1))))"

section \<open>Lemmas\<close>

lemma vget_dset [simp]: "vget (dset (VStr k) v d) k' = (if k' = k then v else vget d k')"
  by (simp add: vget_def)

lemma valid_record_used: "vget d ''used'' = VBool True \<Longrightarrow> valid_record digest (VDict d) name token now boot = Ret False"
  by simp

lemma valid_record_iff:
  "valid_record digest (challenge_record h name expiry boot) name' token now boot' = Ret True \<longleftrightarrow>
     name = name' \<and> boot = boot' \<and> flt now expiry \<and> is_ascii h \<and> h = digest token"
  by (auto simp: challenge_record_def vget_def)

lemma refuse_True: "refuse r = Ret True \<longleftrightarrow> r = Ret True"
  by (cases r) (auto simp: refuse_def)

lemma consume_True:
  assumes "consume_operator_challenge digest os now profile token files = (Ret True, files1)"
  obtains name d boot where "profile = VStr name" "challenge_name_ok name"
    "files (challenge_path name) = Document (VDict d)"
    "validated_boot_id (co_boot os) = Ret boot"
    "valid_record digest (VDict d) name (str_val token) now boot = Ret True"
    "files1 = files(challenge_path name := Document (VDict (dset (VStr ''used'') (VBool True) d)))"
    "nonempty_str token" "co_dir os = Ret ()" "co_lock os = Ret ()" "co_write os = Written"
proof -
  have ne: "nonempty_str token" using assms by (auto simp: consume_operator_challenge_def split: if_splits)
  obtain name where n: "profile = VStr name" "challenge_name_ok name" "co_dir os = Ret ()" "co_lock os = Ret ()"
    using assms ne
    by (cases profile; cases "co_dir os"; cases "co_lock os")
      (auto simp: consume_operator_challenge_def refuse_def split: if_splits)
  have l: "\<exists>r. consume_locked digest os now name (str_val token) files = (r, files1) \<and> refuse r = Ret True"
    using assms ne n by (auto simp: consume_operator_challenge_def split: prod.splits)
  then have l: "consume_locked digest os now name (str_val token) files = (Ret True, files1)"
    by (auto simp: refuse_True)
  obtain doc where doc: "files (challenge_path name) = Document doc"
    using l by (cases "files (challenge_path name)") (auto simp: consume_locked_def)
  obtain boot where b: "validated_boot_id (co_boot os) = Ret boot"
    using l doc by (cases "validated_boot_id (co_boot os)") (auto simp: consume_locked_def)
  have v: "valid_record digest doc name (str_val token) now boot = Ret True"
    using l doc b by (auto simp: consume_locked_def split: sum.splits bool.splits)
  then obtain d where d: "doc = VDict d" by (cases doc) auto
  have w: "write_record (co_write os) (challenge_path name) (mark_used doc) files = (Ret (), files1)"
    using l doc b v by (auto simp: consume_locked_def split: sum.splits prod.splits)
  show thesis
    using that [of name d boot] n ne doc b v w d
    by (cases "co_write os") (simp_all add: write_record_def)
qed


section \<open>Properties\<close>

lemma challenge_single_use_lemma:
  assumes "consume_operator_challenge digest os now profile token files = (Ret True, files1)"
  shows "fst (consume_operator_challenge digest os' now' profile token' files1) \<noteq> Ret True \<and>
    snd (consume_operator_challenge digest os' now' profile token' files1) = files1"
proof -
  obtain name d where n: "profile = VStr name" "challenge_name_ok name"
    and f: "files1 (challenge_path name) = Document (VDict (dset (VStr ''used'') (VBool True) d))"
    using assms by (rule consume_True) simp
  have l: "\<exists>r. consume_locked digest os' now' name t files1 = (r, files1) \<and> r \<noteq> Ret True" for t
    using f by (cases "validated_boot_id (co_boot os')") (simp_all add: consume_locked_def valid_record_used)
  show ?thesis
    using n l [of "str_val token'"]
    by (cases "co_dir os'"; cases "co_lock os'")
      (auto simp: consume_operator_challenge_def refuse_True)
qed

text \<open>C37: A challenge is single-use: once it has been consumed, no later attempt for that
  profile succeeds on the record left behind, with whatever token, clock, boot identity or
  failures, and the attempt leaves the record as it is.\<close>
theorem challenge_single_use:
  assumes "consume_operator_challenge digest os now profile token files = (Ret True, files1)"
  shows "fst (consume_operator_challenge digest os' now' profile token' files1) \<noteq> Ret True \<and>
    snd (consume_operator_challenge digest os' now' profile token' files1) = files1"
  by (rule challenge_single_use_lemma [OF assms])

definition demo_os :: challenge_os where
  "demo_os = \<lparr>co_dir = Ret (), co_lock = Ret (), co_boot = Ret (VStr ''boot-0001''), co_write = Written\<rparr>"

definition demo_files :: challenge_files where
  "demo_files = (\<lambda>_. Absent)(challenge_path ''base'' :=
     Document (challenge_record ''tok'' ''base'' (Fin 60) ''boot-0001''))"

lemma demo_os_sel: "co_dir demo_os = Ret ()" "co_lock demo_os = Ret ()" "co_write demo_os = Written"
  by (simp_all add: demo_os_def)

lemma demo_boot: "validated_boot_id (co_boot demo_os) = Ret ''boot-0001''"
  by (simp add: demo_os_def validated_boot_id_def boot_id_ok_def is_upper_def is_lower_def is_digit_def
      in_range_def)

lemma demo_name: "challenge_name_ok ''base''"
  by (simp add: challenge_name_ok_def is_lower_def is_digit_def in_range_def)

lemma demo_consume:
  "fst (consume_operator_challenge id demo_os (Fin 10) (VStr ''base'') (VStr ''tok'') demo_files) = Ret True"
proof -
  have "valid_record id (challenge_record ''tok'' ''base'' (Fin 60) ''boot-0001'') ''base'' ''tok'' (Fin 10) ''boot-0001''
      = Ret True"
    unfolding valid_record_iff by (simp add: is_ascii_def)
  then show ?thesis
    by (simp add: consume_operator_challenge_def demo_name demo_files_def consume_locked_def demo_boot
        write_record_def refuse_def Let_def demo_os_sel)
qed

lemma challenge_single_use_witness:
  "fst (consume_operator_challenge id demo_os (Fin 11) (VStr ''base'') (VStr ''tok'')
      (snd (consume_operator_challenge id demo_os (Fin 10) (VStr ''base'') (VStr ''tok'') demo_files))) \<noteq> Ret True"
  using challenge_single_use [of id demo_os "Fin 10" "VStr ''base''" "VStr ''tok''" demo_files _ demo_os
      "Fin 11" "VStr ''tok''"] demo_consume
  by (metis prod.collapse)

text \<open>The challenge protocol end to end: a token created for a profile and presented later is
  accepted exactly when it has the digest of the created token, on the same boot, for the
  same profile, before the expiry, where the expiry is the creation time plus a lifetime of at
  most three hundred seconds.\<close>
theorem challenge_accepted_iff:
  assumes created: "create_operator_challenge digest os now token (VStr name) ttl files = (Ret token, files1)"
    and world: "co_dir os' = Ret ()" "co_lock os' = Ret ()" "co_write os' = Written" "presented \<noteq> []"
    and hex: "\<And>t. is_ascii (digest t)"
  shows "(\<exists>seconds boot. py_float ttl = Ret seconds \<and> fle seconds (Fin 300) \<and>
      validated_boot_id (co_boot os) = Ret boot \<and>
      (fst (consume_operator_challenge digest os' now' (VStr name) (VStr presented) files1) = Ret True \<longleftrightarrow>
         digest presented = digest token \<and> validated_boot_id (co_boot os') = Ret boot \<and>
         flt now' (fadd now seconds)))"
proof -
  have n: "challenge_name_ok name" and t: "ttl_ok ttl"
    using created by (auto simp: create_operator_challenge_def rbind_Inl_iff split: sum.splits if_splits)
  obtain seconds boot where s: "py_float ttl = Ret seconds" and b: "validated_boot_id (co_boot os) = Ret boot"
    and w: "write_record (co_write os) (challenge_path name)
      (challenge_record (digest token) name (fadd now seconds) boot) files = (Ret (), files1)"
    using created by (auto simp: create_operator_challenge_def n split: sum.splits prod.splits)
  have f: "files1 (challenge_path name) = Document (challenge_record (digest token) name (fadd now seconds) boot)"
    using w by (auto simp: write_record_def split: write_outcome.splits)
  have "fle seconds (Fin 300)"
  proof (cases ttl)
    case (VInt m)
    with t have m: "0 < m" "m \<le> 300" by (simp_all add: MAX_TTL_SECONDS_def)
    then have "rat_of_int m \<le> rat_of_int 300" by (simp only: of_int_le_iff)
    with m s VInt show ?thesis by (auto simp: float_of_int_small)
  next
    case (VFloat x)
    then show ?thesis using s t by (simp add: MAX_TTL_SECONDS_def)
  qed (use t in simp_all)
  moreover have "fst (consume_operator_challenge digest os' now' (VStr name) (VStr presented) files1) = Ret True \<longleftrightarrow>
         digest presented = digest token \<and> validated_boot_id (co_boot os') = Ret boot \<and>
         flt now' (fadd now seconds)"
  proof (cases "validated_boot_id (co_boot os')")
    case (Inl e)
    then show ?thesis
      by (auto simp: consume_operator_challenge_def n world refuse_True consume_locked_def f split: prod.splits)
  next
    case (Inr boot')
    have v: "is_ret (valid_record digest (challenge_record (digest token) name (fadd now seconds) boot) name presented now' boot')"
      by (simp add: challenge_record_def vget_def hex)
    show ?thesis
      using valid_record_iff [of digest "digest token" name "fadd now seconds" boot name presented now' boot'] v
      by (cases "valid_record digest (challenge_record (digest token) name (fadd now seconds) boot) name presented now' boot'")
        (auto simp: consume_operator_challenge_def n world refuse_True consume_locked_def f Inr hex
          write_record_def split: prod.splits bool.splits)
  qed
  ultimately show ?thesis using s b by blast
qed

lemma challenge_accepted_iff_witness:
  "fst (consume_operator_challenge (\<lambda>_. ''d'') demo_os (Fin 10) (VStr ''base'') (VStr ''tok'')
     (snd (create_operator_challenge (\<lambda>_. ''d'') demo_os (Fin 0) ''tok'' (VStr ''base'') (VInt 60) (\<lambda>_. Absent)))) =
   Ret True"
proof -
  have s: "float_of_int 60 = Ret (Fin 60)" by (simp add: float_of_int_def)
  have c: "create_operator_challenge (\<lambda>_. ''d'') demo_os (Fin 0) ''tok'' (VStr ''base'') (VInt 60) (\<lambda>_. Absent) =
      (Ret ''tok'', snd (create_operator_challenge (\<lambda>_. ''d'') demo_os (Fin 0) ''tok'' (VStr ''base'') (VInt 60) (\<lambda>_. Absent)))"
    by (simp add: create_operator_challenge_def demo_name demo_os_sel demo_boot s write_record_def
        MAX_TTL_SECONDS_def)
  from challenge_accepted_iff [OF c demo_os_sel, of "''tok''" "Fin 10"] s show ?thesis
    by (auto simp: is_ascii_def demo_boot)
qed

text \<open>
  A record whose stored digest is not ASCII makes the comparison itself raise, and the
  exception is not among those the operation turns into a refusal.
\<close>

lemma challenge_digest_leak:
  "fst (consume_operator_challenge id demo_os (Fin 10) (VStr ''base'') (VStr ''tok'')
     ((\<lambda>_. Absent)(challenge_path ''base'' :=
        Document (challenge_record [CHR 0xE9] ''base'' (Fin 60) ''boot-0001'')))) = Raise PyTypeError"
proof -
  have "valid_record id (challenge_record [CHR 0xE9] ''base'' (Fin 60) ''boot-0001'') ''base'' ''tok'' (Fin 10) ''boot-0001''
      = Raise PyTypeError"
    by (simp add: challenge_record_def vget_def is_ascii_def)
  then show ?thesis
    by (simp add: consume_operator_challenge_def demo_name consume_locked_def demo_boot refuse_def demo_os_sel)
qed

end
