(* ===== verification/Gateway.thy ===== *)
theory Gateway
  imports Challenge Discovery Safety Machines
begin

text \<open>
  The safety gateway of \<^verbatim>\<open>agent_ros/safety/gateway.py\<close> and its heartbeat watchdog of
  \<^verbatim>\<open>supervisor.py\<close>. Each region under the gateway's lock is one operation on the state;
  the stop burst, which runs between two such regions, and the watchdog's own reads are steps
  of their own in \<open>gw_step\<close>, so that every interleaving of clients and watchdog is a run.
  Clock readings, the stop callback's behaviour and the start of a thread are arguments.
\<close>

section \<open>State\<close>

datatype watch_pc = WaitPoll | HaveDeadline pyfloat | CallExpired | Bursting | Faulting stop_result

record supervisor =
  sv_alive :: bool
  sv_stop :: bool
  sv_pc :: watch_pc

record gateway =
  gw_profile :: robot_profile
  gw_runtime_dir :: bool
  gw_state :: safety_state
  gw_sequence :: nat
  gw_latest :: "transition option"
  gw_last_stop :: stop_result
  gw_history :: "transition list"
  gw_report :: "discovery_report option"
  gw_last_heartbeat :: "pyfloat option"
  gw_deadline :: "pyfloat option"
  gw_supervisor :: supervisor

definition HISTORY_MAX :: nat where "HISTORY_MAX = 256"

definition successful_stop :: stop_result where
  "successful_stop = mk_stop True True True ''ESTOP_LATCHED''"

definition gateway_init :: "robot_profile \<Rightarrow> bool \<Rightarrow> gateway" where
  "gateway_init profile runtime_dir =
     \<lparr>gw_profile = profile, gw_runtime_dir = runtime_dir, gw_state = NEW, gw_sequence = 0,
      gw_latest = None, gw_last_stop = successful_stop, gw_history = [], gw_report = None,
      gw_last_heartbeat = None, gw_deadline = None,
      gw_supervisor = \<lparr>sv_alive = False, sv_stop = False, sv_pc = WaitPoll\<rparr>\<rparr>"

definition transitions_from :: "nat \<Rightarrow> gateway \<Rightarrow> transition list" where
  "transitions_from n s = filter (\<lambda>t. n \<le> tr_sequence t) (gw_history s)"

definition owns_transition :: "transition \<Rightarrow> gateway \<Rightarrow> bool" where
  "owns_transition t s \<longleftrightarrow> t \<in> set (gw_history s)"

section \<open>Helpers under the lock\<close>

abbreviation unsafe :: "string \<Rightarrow> 'a result" where "unsafe code \<equiv> Raise (SafetyError code)"

definition require_state :: "safety_state \<Rightarrow> gateway \<Rightarrow> unit result" where
  "require_state expected s =
     (if gw_state s = ESTOPPED then unsafe ''ESTOP_LATCHED''
      else if gw_state s \<noteq> expected then unsafe ''UNSAFE_STATE'' else Ret ())"

definition push_history :: "transition \<Rightarrow> transition list \<Rightarrow> transition list" where
  "push_history t h = (let h' = h @ [t] in drop (length h' - HISTORY_MAX) h')"

definition mk_transition :: "safety_state \<Rightarrow> stop_result option \<Rightarrow> gateway \<Rightarrow> transition" where
  "mk_transition after stop s =
     \<lparr>tr_sequence = gw_sequence s, tr_before = gw_state s, tr_after = after, tr_stop = stop\<rparr>"

definition do_transition :: "safety_state \<Rightarrow> stop_result option \<Rightarrow> gateway \<Rightarrow> transition \<times> gateway" where
  "do_transition after stop s =
     (let t = mk_transition after stop s in
      (t, s\<lparr>gw_sequence := Suc (gw_sequence s), gw_state := after, gw_latest := Some t,
            gw_history := push_history t (gw_history s)\<rparr>))"

fun num_rat :: "pyval \<Rightarrow> rat" where
  "num_rat (VInt n) = of_int n"
| "num_rat (VFloat (Fin r)) = r"
| "num_rat _ = 0"

definition check_limit :: "pyval \<Rightarrow> rat \<Rightarrow> unit result" where
  "check_limit value maximum =
     (if \<not> is_number value then unsafe ''MOTION_LIMIT''
      else rbind (py_isfinite value) (\<lambda>f.
        if \<not> f \<or> maximum < \<bar>num_rat value\<bar> then unsafe ''MOTION_LIMIT'' else Ret ()))"

fun required_capability :: "string \<Rightarrow> string result" where
  "required_capability k =
     (if k = ''twist'' then Ret ''mobile_base.twist''
      else if k = ''hospital_delivery'' then Ret ''mobile_base.twist''
      else if k = ''nav2'' then Ret ''navigation.nav2''
      else if k = ''follow_joint_trajectory'' then Ret ''manipulation.follow_joint_trajectory''
      else Raise PyKeyError)"

definition topic_matches :: "discovery_report \<Rightarrow> string option \<Rightarrow> string \<Rightarrow> bool" where
  "topic_matches r endpoint ty =
     (case endpoint of None \<Rightarrow> False | Some e \<Rightarrow> ty \<in> set (dget_list (dr_topic_types r) e))"

definition action_matches :: "discovery_report \<Rightarrow> string option \<Rightarrow> string \<Rightarrow> bool" where
  "action_matches r endpoint ty =
     (case endpoint of None \<Rightarrow> False | Some e \<Rightarrow> ty \<in> set (dget_list (dr_action_types r) e))"

definition interfaces_match :: "robot_profile \<Rightarrow> discovery_report \<Rightarrow> bool" where
  "interfaces_match p r =
     (let i = rp_interfaces p in
      if rp_adapter_kind p \<in> {''twist'', ''hospital_delivery''} then
        (case (ri_command i, ri_odometry i) of
           (Some c, Some od) \<Rightarrow> topic_matches r (if_topic c) (if_type c) \<and> topic_matches r (if_topic od) (if_type od)
         | _ \<Rightarrow> False)
      else if rp_adapter_kind p = ''nav2'' then
        (case ri_navigation i of Some n \<Rightarrow> action_matches r (if_action n) (if_type n) | None \<Rightarrow> False)
      else (case ri_trajectory i of Some t \<Rightarrow> action_matches r (if_action t) (if_type t) | None \<Rightarrow> False))"

section \<open>The supervisor\<close>

text \<open>\<^verbatim>\<open>start\<close> returns at once while a thread lives; starting the thread may raise.\<close>

definition supervisor_start :: "bool \<Rightarrow> supervisor \<Rightarrow> unit result \<times> supervisor" where
  "supervisor_start spawns v =
     (if sv_alive v then (Ret (), v)
      else if \<not> spawns then (Raise PyRuntimeError, v\<lparr>sv_stop := False\<rparr>)
      else (Ret (), v\<lparr>sv_stop := False, sv_alive := True, sv_pc := WaitPoll\<rparr>))"

definition supervisor_stop :: "supervisor \<Rightarrow> supervisor" where
  "supervisor_stop v = v\<lparr>sv_stop := True\<rparr>"

abbreviation stop_watch :: "gateway \<Rightarrow> gateway" where
  "stop_watch s \<equiv> s\<lparr>gw_deadline := None, gw_supervisor := supervisor_stop (gw_supervisor s)\<rparr>"

section \<open>Operations\<close>

definition gw_discover :: "discovery_report option \<Rightarrow> gateway \<Rightarrow> transition result \<times> gateway" where
  "gw_discover report s =
     (case require_state NEW s of Inl e \<Rightarrow> (Raise e, s) | Inr _ \<Rightarrow>
      case report of None \<Rightarrow> (unsafe ''DISCOVERY_UNSAFE'', s) | Some r \<Rightarrow>
      if dr_blocking_warnings r \<noteq> [] then (unsafe ''DISCOVERY_UNSAFE'', s)
      else (let (t, s1) = do_transition DISCOVERED None (s\<lparr>gw_report := Some r\<rparr>) in (Ret t, s1)))"

definition gw_validate :: "gateway \<Rightarrow> transition result \<times> gateway" where
  "gw_validate s =
     (case require_state DISCOVERED s of Inl e \<Rightarrow> (Raise e, s) | Inr _ \<Rightarrow>
      case gw_report s of None \<Rightarrow> (Raise PyAssertionError, s) | Some r \<Rightarrow>
      case required_capability (rp_adapter_kind (gw_profile s)) of Inl e \<Rightarrow> (Raise e, s) | Inr capability \<Rightarrow>
      if capability \<notin> set (capability_names r) \<or> \<not> interfaces_match (gw_profile s) r
      then (unsafe ''PROFILE_UNSUPPORTED'', s)
      else (let (t, s1) = do_transition
              (if rp_mode (gw_profile s) = ''simulation'' then ARMED else VALIDATED) None s in (Ret t, s1)))"

definition gw_arm ::
  "(string \<Rightarrow> string) \<Rightarrow> challenge_os \<Rightarrow> pyfloat \<Rightarrow> pyval \<Rightarrow> challenge_files \<Rightarrow> gateway \<Rightarrow>
   transition option result \<times> challenge_files \<times> gateway" where
  "gw_arm digest os now challenge files s =
     (if rp_mode (gw_profile s) = ''simulation'' \<and> gw_state s = ARMED then (Ret None, files, s)
      else case require_state VALIDATED s of Inl e \<Rightarrow> (Raise e, files, s) | Inr _ \<Rightarrow>
      if rp_mode (gw_profile s) \<noteq> ''hardware'' \<or> \<not> gw_runtime_dir s then (unsafe ''HARDWARE_CHALLENGE'', files, s)
      else
        (let (r, files1) = consume_operator_challenge digest os now (VStr (rp_name (gw_profile s)))
               (if challenge = VNone then VStr [] else challenge) files in
         case r of Inl e \<Rightarrow> (Raise e, files1, s)
         | Inr False \<Rightarrow> (unsafe ''HARDWARE_CHALLENGE'', files1, s)
         | Inr True \<Rightarrow> (let (t, s1) = do_transition ARMED None s in (Ret (Some t), files1, s1))))"

record motion_request =
  mr_linear_velocity :: pyval
  mr_angular_velocity :: pyval
  mr_linear_acceleration :: pyval
  mr_angular_acceleration :: pyval

definition check_limits :: "motion_request \<Rightarrow> motion_limits \<Rightarrow> unit result" where
  "check_limits m l =
     rbind (check_limit (mr_linear_velocity m) (max_linear_velocity l)) (\<lambda>_.
     rbind (check_limit (mr_angular_velocity m) (max_angular_velocity l)) (\<lambda>_.
     rbind (check_limit (mr_linear_acceleration m) (max_linear_acceleration l)) (\<lambda>_.
     check_limit (mr_angular_acceleration m) (max_angular_acceleration l))))"

definition deadline_after :: "pyfloat \<Rightarrow> robot_profile \<Rightarrow> pyfloat option" where
  "deadline_after now p = map_option (\<lambda>t. fadd now (Fin t)) (heartbeat_timeout (rp_safety p))"

definition gw_start_task :: "motion_request \<Rightarrow> pyfloat \<Rightarrow> bool \<Rightarrow> gateway \<Rightarrow> transition result \<times> gateway" where
  "gw_start_task m now spawns s =
     (case rbind (require_state ARMED s) (\<lambda>_. check_limits m (rp_limits (gw_profile s))) of
        Inl e \<Rightarrow> (Raise e, s)
      | Inr _ \<Rightarrow>
          (let s1 = s\<lparr>gw_last_heartbeat := Some now, gw_deadline := deadline_after now (gw_profile s)\<rparr>;
               (t, s2) = do_transition RUNNING None s1;
               (r, v) = supervisor_start spawns (gw_supervisor s2);
               s3 = s2\<lparr>gw_supervisor := v\<rparr>
           in (case r of Inl e \<Rightarrow> (Raise e, s3) | Inr _ \<Rightarrow> (Ret t, s3))))"

text \<open>The locked part of a heartbeat: an error, a transition, or the code of a fault to raise.\<close>

datatype heartbeat_outcome = HbError py_exn | HbAlive transition | HbFault string

definition heartbeat_locked :: "pyfloat \<Rightarrow> gateway \<Rightarrow> heartbeat_outcome \<times> gateway" where
  "heartbeat_locked now s =
     (case require_state RUNNING s of Inl e \<Rightarrow> (HbError e, s) | Inr _ \<Rightarrow>
      case heartbeat_timeout (rp_safety (gw_profile s)) of
        None \<Rightarrow> (HbFault ''HEARTBEAT_UNCONFIGURED'', s)
      | Some timeout \<Rightarrow>
          if gw_last_heartbeat s = None then (HbError PyAssertionError, s)
          else if (case gw_deadline s of None \<Rightarrow> False | Some d \<Rightarrow> flt d now)
          then (HbFault ''HEARTBEAT_EXPIRED'', s)
          else (let (t, s1) = do_transition RUNNING None
                  (s\<lparr>gw_last_heartbeat := Some now, gw_deadline := Some (fadd now (Fin timeout))\<rparr>)
                in (HbAlive t, s1)))"

section \<open>Stopping\<close>

definition STOP_BURST_COUNT :: nat where "STOP_BURST_COUNT = 3"

text \<open>A call of the stop callback raises, returns something else, or returns a result.\<close>

datatype stop_call = StopRaises | StopOther | StopReturns stop_result

definition stop_rejected :: stop_result where
  "stop_rejected = mk_stop True False False ''SAFETY_COMMAND_REJECTED''"

fun stop_call_result :: "stop_call \<Rightarrow> stop_result" where
  "stop_call_result (StopReturns r) = r"
| "stop_call_result _ = stop_rejected"

definition combine_stops :: "stop_result list \<Rightarrow> stop_result" where
  "combine_stops results =
     (let latched = list_all sr_latched results; quiesced = list_all sr_quiesced results;
          accepted = list_all sr_accepted results
      in mk_stop latched quiesced accepted
        (if \<not> quiesced then ''TRANSPORT_UNQUIESCED''
         else if \<not> accepted \<or> \<not> latched then ''SAFETY_COMMAND_REJECTED'' else ''ESTOP_LATCHED''))"

text \<open>\<^verbatim>\<open>_stop_repeatedly\<close>: what the burst's calls do, by their index.\<close>

definition stop_repeatedly :: "(nat \<Rightarrow> stop_call) \<Rightarrow> stop_result" where
  "stop_repeatedly calls = combine_stops (map (\<lambda>i. stop_call_result (calls i)) [0..<STOP_BURST_COUNT])"

definition record_stop :: "stop_result \<Rightarrow> gateway \<Rightarrow> gateway" where
  "record_stop r s = s\<lparr>gw_last_stop := r\<rparr>"

definition cancel_locked :: "stop_result \<Rightarrow> gateway \<Rightarrow> transition result \<times> gateway" where
  "cancel_locked r s =
     (case require_state RUNNING s of Inl e \<Rightarrow> (Raise e, s) | Inr _ \<Rightarrow>
      (let (t, s1) = do_transition STOPPED (Some r) s in (Ret t, stop_watch s1)))"

definition fault_locked :: "stop_result \<Rightarrow> gateway \<Rightarrow> transition option \<times> gateway" where
  "fault_locked r s =
     (if gw_state s \<noteq> RUNNING then (None, s)
      else (let (t, s1) = do_transition FAULTED (Some r) s in (Some t, stop_watch s1)))"

definition estop_locked :: "stop_result \<Rightarrow> gateway \<Rightarrow> (transition option \<times> stop_result) \<times> gateway" where
  "estop_locked r s =
     (if gw_state s = ESTOPPED then ((None, r), s)
      else (let (t, s1) = do_transition ESTOPPED (Some r) s in ((Some t, r), stop_watch s1)))"

definition gw_operator_reset :: "gateway \<Rightarrow> transition result \<times> gateway" where
  "gw_operator_reset s =
     (if gw_state s \<noteq> ESTOPPED then (unsafe ''UNSAFE_STATE'', s)
      else if rp_mode (gw_profile s) = ''hardware'' then (unsafe ''OPERATOR_REQUIRED'', s)
      else (let (t, s1) = do_transition NEW None s in
            (Ret t, s1\<lparr>gw_report := None, gw_last_heartbeat := None, gw_deadline := None\<rparr>)))"

text \<open>The calls as a whole, when nothing else runs in between.\<close>

definition gw_cancel :: "(nat \<Rightarrow> stop_call) \<Rightarrow> gateway \<Rightarrow> transition result \<times> gateway" where
  "gw_cancel calls s =
     (case require_state RUNNING s of Inl e \<Rightarrow> (Raise e, s) | Inr _ \<Rightarrow>
      (let r = stop_repeatedly calls in cancel_locked r (record_stop r s)))"

definition gw_fault :: "(nat \<Rightarrow> stop_call) \<Rightarrow> gateway \<Rightarrow> transition option \<times> gateway" where
  "gw_fault calls s = (let r = stop_repeatedly calls in fault_locked r (record_stop r s))"

definition gw_estop_attempt :: "(nat \<Rightarrow> stop_call) \<Rightarrow> gateway \<Rightarrow> (transition option \<times> stop_result) \<times> gateway" where
  "gw_estop_attempt calls s = (let r = stop_repeatedly calls in estop_locked r (record_stop r s))"

definition observe_physical_estop :: "bool \<Rightarrow> (nat \<Rightarrow> stop_call) \<Rightarrow> gateway \<Rightarrow> transition option \<times> gateway" where
  "observe_physical_estop asserted calls s =
     (if \<not> asserted then (None, s)
      else (let (a, s1) = gw_estop_attempt calls s in (fst a, s1)))"

definition gw_heartbeat :: "pyfloat \<Rightarrow> (nat \<Rightarrow> stop_call) \<Rightarrow> gateway \<Rightarrow> transition result \<times> gateway" where
  "gw_heartbeat now calls s =
     (let (r, s1) = heartbeat_locked now s in
      case r of HbError e \<Rightarrow> (Raise e, s1) | HbAlive t \<Rightarrow> (Ret t, s1)
      | HbFault code \<Rightarrow> (unsafe code, snd (gw_fault calls s1)))"

definition gw_close :: "(nat \<Rightarrow> stop_call) \<Rightarrow> gateway \<Rightarrow> gateway" where
  "gw_close calls s =
     (let s1 = (if gw_state s = RUNNING then snd (gw_fault calls s) else s) in
      s1\<lparr>gw_supervisor := supervisor_stop (gw_supervisor s1)\<rparr>)"

section \<open>The watchdog thread\<close>

definition active_deadline :: "gateway \<Rightarrow> pyfloat option" where
  "active_deadline s = (if gw_state s = RUNNING then gw_deadline s else None)"

abbreviation watch :: "watch_pc \<Rightarrow> gateway \<Rightarrow> gateway" where
  "watch pc s \<equiv> s\<lparr>gw_supervisor := (gw_supervisor s)\<lparr>sv_pc := pc\<rparr>\<rparr>"

abbreviation watch_exit :: "gateway \<Rightarrow> gateway" where
  "watch_exit s \<equiv> s\<lparr>gw_supervisor := (gw_supervisor s)\<lparr>sv_alive := False, sv_pc := WaitPoll\<rparr>\<rparr>"

text \<open>One turn of \<^verbatim>\<open>_run\<close>: the wait ends by the stop event, or the deadline is read.\<close>

definition watch_poll :: "gateway \<Rightarrow> gateway" where
  "watch_poll s =
     (if sv_stop (gw_supervisor s) then watch_exit s
      else case active_deadline s of None \<Rightarrow> s | Some d \<Rightarrow> watch (HaveDeadline d) s)"

text \<open>\<^verbatim>\<open>evaluate\<close> compares its own, later clock reading with the deadline it has read.\<close>

definition watch_compare :: "pyfloat \<Rightarrow> pyfloat \<Rightarrow> gateway \<Rightarrow> gateway" where
  "watch_compare d now s = (if fle now d then watch WaitPoll s else watch CallExpired s)"

text \<open>
  \<^verbatim>\<open>_fault_heartbeat_expiry\<close>: the test under the lock; where it fails, \<^verbatim>\<open>evaluate\<close>
  still returns true and the thread ends.
\<close>

definition watch_expired :: "pyfloat \<Rightarrow> gateway \<Rightarrow> gateway" where
  "watch_expired now s =
     (if gw_state s = RUNNING \<and> (case gw_deadline s of None \<Rightarrow> False | Some d \<Rightarrow> flt d now)
      then watch Bursting s else watch_exit s)"

definition watch_burst :: "(nat \<Rightarrow> stop_call) \<Rightarrow> gateway \<Rightarrow> gateway" where
  "watch_burst calls s = (let r = stop_repeatedly calls in watch (Faulting r) (record_stop r s))"

definition watch_fault :: "stop_result \<Rightarrow> gateway \<Rightarrow> gateway" where
  "watch_fault r s = watch_exit (snd (fault_locked r s))"

section \<open>Runs\<close>

inductive gw_step :: "gateway \<Rightarrow> gateway \<Rightarrow> bool" where
  discover: "gw_step s (snd (gw_discover report s))"
| validate: "gw_step s (snd (gw_validate s))"
| arm: "gw_step s (snd (snd (gw_arm digest os now challenge files s)))"
| start: "gw_step s (snd (gw_start_task m now spawns s))"
| heartbeat: "gw_step s (snd (heartbeat_locked now s))"
| burst: "gw_step s (record_stop (stop_repeatedly calls) s)"
| cancel: "gw_step s (snd (cancel_locked (stop_repeatedly calls) s))"
| fault: "gw_step s (snd (fault_locked (stop_repeatedly calls) s))"
| estop: "gw_step s (snd (estop_locked (stop_repeatedly calls) s))"
| reset: "gw_step s (snd (gw_operator_reset s))"
| close: "gw_step s (s\<lparr>gw_supervisor := supervisor_stop (gw_supervisor s)\<rparr>)"
| poll: "sv_alive (gw_supervisor s) \<Longrightarrow> sv_pc (gw_supervisor s) = WaitPoll \<Longrightarrow> gw_step s (watch_poll s)"
| compare: "sv_alive (gw_supervisor s) \<Longrightarrow> sv_pc (gw_supervisor s) = HaveDeadline d \<Longrightarrow>
     gw_step s (watch_compare d now s)"
| expired: "sv_alive (gw_supervisor s) \<Longrightarrow> sv_pc (gw_supervisor s) = CallExpired \<Longrightarrow>
     gw_step s (watch_expired now s)"
| bursts: "sv_alive (gw_supervisor s) \<Longrightarrow> sv_pc (gw_supervisor s) = Bursting \<Longrightarrow>
     gw_step s (watch_burst calls s)"
| faults: "sv_alive (gw_supervisor s) \<Longrightarrow> sv_pc (gw_supervisor s) = Faulting r \<Longrightarrow>
     gw_step s (watch_fault r s)"

inductive_cases gw_stepE: "gw_step s t"

section \<open>The authorization machine\<close>

text \<open>
  What the gateway promises: which state may follow which under a profile's mode, and that
  every move into a stopped state carries the result of a stop.
\<close>

definition allowed :: "string \<Rightarrow> safety_state \<Rightarrow> safety_state \<Rightarrow> bool" where
  "allowed mode b a \<longleftrightarrow>
     (b, a) \<in> {(NEW, DISCOVERED), (ARMED, RUNNING), (RUNNING, RUNNING), (RUNNING, STOPPED), (RUNNING, FAULTED)} \<or>
     (b, a) = (DISCOVERED, if mode = ''simulation'' then ARMED else VALIDATED) \<or>
     (b, a) = (VALIDATED, ARMED) \<and> mode = ''hardware'' \<or>
     (b, a) = (ESTOPPED, NEW) \<and> mode \<noteq> ''hardware'' \<or>
     b \<noteq> ESTOPPED \<and> a = ESTOPPED"

definition STOP_CODES :: "string list" where
  "STOP_CODES = [''ESTOP_LATCHED'', ''SAFETY_COMMAND_REJECTED'', ''TRANSPORT_UNQUIESCED'']"

definition stop_wf :: "stop_result \<Rightarrow> bool" where
  "stop_wf r \<longleftrightarrow> sr_code r \<in> set STOP_CODES \<and> (successful r \<longleftrightarrow> sr_code r = ''ESTOP_LATCHED'')"

definition transition_ok :: "string \<Rightarrow> transition \<Rightarrow> bool" where
  "transition_ok mode t \<longleftrightarrow>
     allowed mode (tr_before t) (tr_after t) \<and>
     (case tr_stop t of None \<Rightarrow> tr_after t \<notin> {STOPPED, FAULTED, ESTOPPED}
      | Some r \<Rightarrow> tr_after t \<in> {STOPPED, FAULTED, ESTOPPED} \<and> stop_wf r)"

text \<open>A step of the machine: either it stays, or it makes one numbered transition.\<close>

definition auth_step :: "gateway \<Rightarrow> gateway \<Rightarrow> bool" where
  "auth_step s s' \<longleftrightarrow> gw_profile s' = gw_profile s \<and>
     (gw_state s' = gw_state s \<and> gw_sequence s' = gw_sequence s \<and> gw_history s' = gw_history s \<and>
        gw_latest s' = gw_latest s \<or>
      (\<exists>t. transition_ok (rp_mode (gw_profile s)) t \<and> tr_before t = gw_state s \<and> gw_state s' = tr_after t \<and>
        tr_sequence t = gw_sequence s \<and> gw_sequence s' = Suc (gw_sequence s) \<and>
        gw_history s' = push_history t (gw_history s) \<and> gw_latest s' = Some t))"

lemma require_Inr: "require_state st s = Ret u \<longleftrightarrow> gw_state s = st \<and> st \<noteq> ESTOPPED"
  by (auto simp: require_state_def)

lemma require_ok [simp]: "gw_state s = st \<Longrightarrow> st \<noteq> ESTOPPED \<Longrightarrow> require_state st s = Ret ()"
  by (simp add: require_Inr)

lemma require_errs: "errs {SafetyError ''ESTOP_LATCHED'', SafetyError ''UNSAFE_STATE''} (require_state st s)"
  by (simp add: require_state_def)

lemma require_cases:
  obtains (ok) "require_state st s = Ret ()" "gw_state s = st" "st \<noteq> ESTOPPED"
  | (no) e where "require_state st s = Raise e" "e \<in> {SafetyError ''ESTOP_LATCHED'', SafetyError ''UNSAFE_STATE''}"
  using require_errs [of st s] by (cases "require_state st s") (auto simp: errs_def require_Inr)

lemma do_transition_eq:
  "do_transition a r s = (mk_transition a r s,
     s\<lparr>gw_sequence := Suc (gw_sequence s), gw_state := a, gw_latest := Some (mk_transition a r s),
       gw_history := push_history (mk_transition a r s) (gw_history s)\<rparr>)"
  by (simp add: do_transition_def Let_def)

lemma combine_stops_wf: "stop_wf (combine_stops rs)"
  by (auto simp: combine_stops_def stop_wf_def successful_def STOP_CODES_def Let_def)

lemma stop_repeatedly_wf: "stop_wf (stop_repeatedly calls)"
  by (simp add: stop_repeatedly_def combine_stops_wf)

lemma auth_stay:
  "gw_profile s' = gw_profile s \<Longrightarrow> gw_state s' = gw_state s \<Longrightarrow> gw_sequence s' = gw_sequence s \<Longrightarrow>
   gw_history s' = gw_history s \<Longrightarrow> gw_latest s' = gw_latest s \<Longrightarrow> auth_step s s'"
  by (simp add: auth_step_def)

lemma auth_refl [simp]: "auth_step s s"
  by (simp add: auth_stay)

lemma auth_move:
  assumes "transition_ok (rp_mode (gw_profile s)) (mk_transition a r s)"
    "gw_profile s' = gw_profile s" "gw_state s' = a" "gw_sequence s' = Suc (gw_sequence s)"
    "gw_history s' = push_history (mk_transition a r s) (gw_history s)"
    "gw_latest s' = Some (mk_transition a r s)"
  shows "auth_step s s'"
  unfolding auth_step_def using assms
  by (intro conjI disjI2 exI [of _ "mk_transition a r s"]) (simp_all add: mk_transition_def)

lemma transition_ok_mk:
  "transition_ok mode (mk_transition a r s) \<longleftrightarrow> allowed mode (gw_state s) a \<and>
     (case r of None \<Rightarrow> a \<notin> {STOPPED, FAULTED, ESTOPPED}
      | Some x \<Rightarrow> a \<in> {STOPPED, FAULTED, ESTOPPED} \<and> stop_wf x)"
  by (cases r) (simp_all add: transition_ok_def mk_transition_def)

lemma mk_transition_cong [simp]:
  "mk_transition a r (s\<lparr>gw_report := x\<rparr>) = mk_transition a r s"
  "mk_transition a r (s\<lparr>gw_last_heartbeat := h\<rparr>) = mk_transition a r s"
  "mk_transition a r (s\<lparr>gw_deadline := d\<rparr>) = mk_transition a r s"
  by (simp_all add: mk_transition_def)

section \<open>The invariant\<close>

definition chained :: "transition list \<Rightarrow> bool" where
  "chained h \<longleftrightarrow> (\<forall>i < length h - 1. tr_sequence (h ! Suc i) = Suc (tr_sequence (h ! i)) \<and>
     tr_before (h ! Suc i) = tr_after (h ! i))"

definition history_inv :: "gateway \<Rightarrow> bool" where
  "history_inv s \<longleftrightarrow>
     chained (gw_history s) \<and> list_all (transition_ok (rp_mode (gw_profile s))) (gw_history s) \<and>
     length (gw_history s) = min (gw_sequence s) HISTORY_MAX \<and>
     (if gw_history s = [] then gw_state s = NEW \<and> gw_latest s = None
      else gw_latest s = Some (last (gw_history s)) \<and> tr_after (last (gw_history s)) = gw_state s \<and>
        Suc (tr_sequence (last (gw_history s))) = gw_sequence s)"

text \<open>The report under which a profile may be authorized.\<close>

definition supports :: "robot_profile \<Rightarrow> discovery_report option \<Rightarrow> bool" where
  "supports p report \<longleftrightarrow>
     (case report of None \<Rightarrow> False | Some r \<Rightarrow> dr_blocking_warnings r = [] \<and> interfaces_match p r \<and>
       (case required_capability (rp_adapter_kind p) of Inl _ \<Rightarrow> False | Inr c \<Rightarrow> c \<in> set (capability_names r)))"

definition data_inv :: "gateway \<Rightarrow> bool" where
  "data_inv s \<longleftrightarrow>
     (gw_state s \<in> {VALIDATED, ARMED, RUNNING, STOPPED, FAULTED} \<longrightarrow> supports (gw_profile s) (gw_report s)) \<and>
     (gw_state s = DISCOVERED \<longrightarrow> (\<exists>r. gw_report s = Some r \<and> dr_blocking_warnings r = [])) \<and>
     (gw_state s = RUNNING \<longrightarrow> (\<exists>h. gw_last_heartbeat s = Some h \<and> gw_deadline s = deadline_after h (gw_profile s))) \<and>
     (gw_state s \<noteq> RUNNING \<longrightarrow> gw_deadline s = None) \<and>
     (\<forall>r. sv_pc (gw_supervisor s) = Faulting r \<longrightarrow> stop_wf r)"

definition gw_inv :: "gateway \<Rightarrow> bool" where
  "gw_inv s \<longleftrightarrow> history_inv s \<and> data_inv s"

lemma gw_init_inv: "gw_inv (gateway_init p d)"
  by (simp add: gw_inv_def history_inv_def data_inv_def gateway_init_def chained_def)

lemma chained_append:
  "chained h \<Longrightarrow> (h \<noteq> [] \<Longrightarrow> tr_sequence t = Suc (tr_sequence (last h)) \<and> tr_before t = tr_after (last h)) \<Longrightarrow>
    chained (h @ [t])"
proof (unfold chained_def, intro allI impI)
  fix i
  assume h: "\<forall>i < length h - 1. tr_sequence (h ! Suc i) = Suc (tr_sequence (h ! i)) \<and> tr_before (h ! Suc i) = tr_after (h ! i)"
    and l: "h \<noteq> [] \<Longrightarrow> tr_sequence t = Suc (tr_sequence (last h)) \<and> tr_before t = tr_after (last h)"
    and i: "i < length (h @ [t]) - 1"
  show "tr_sequence ((h @ [t]) ! Suc i) = Suc (tr_sequence ((h @ [t]) ! i)) \<and>
      tr_before ((h @ [t]) ! Suc i) = tr_after ((h @ [t]) ! i)"
  proof (cases "Suc i < length h")
    case True
    with h show ?thesis by (simp add: nth_append)
  next
    case False
    with i have "i = length h - 1" "h \<noteq> []" by auto
    with l show ?thesis by (simp add: nth_append last_conv_nth)
  qed
qed

lemma chained_drop: "chained h \<Longrightarrow> chained (drop n h)"
  by (auto simp: chained_def)

lemma push_history_props:
  "length (push_history t h) = min (Suc (length h)) HISTORY_MAX"
  "push_history t h \<noteq> []" "last (push_history t h) = t" "set (push_history t h) \<subseteq> insert t (set h)"
  by (auto simp: push_history_def HISTORY_MAX_def Let_def dest: in_set_dropD)

lemma auth_step_history:
  assumes "auth_step s s'" "history_inv s"
  shows "history_inv s'"
proof (cases "gw_state s' = gw_state s \<and> gw_sequence s' = gw_sequence s \<and> gw_history s' = gw_history s \<and> gw_latest s' = gw_latest s")
  case True
  with assms show ?thesis by (simp add: history_inv_def auth_step_def)
next
  case False
  with assms(1) obtain t where t: "transition_ok (rp_mode (gw_profile s)) t" "tr_before t = gw_state s"
    "gw_state s' = tr_after t" "tr_sequence t = gw_sequence s" "gw_sequence s' = Suc (gw_sequence s)"
    "gw_history s' = push_history t (gw_history s)" "gw_latest s' = Some t" "gw_profile s' = gw_profile s"
    by (auto simp: auth_step_def)
  have "chained (gw_history s @ [t])"
    using assms(2) t by (intro chained_append) (auto simp: history_inv_def split: if_splits)
  then have "chained (gw_history s')" unfolding t(6) push_history_def Let_def by (rule chained_drop)
  moreover have "list_all (transition_ok (rp_mode (gw_profile s'))) (gw_history s')"
    using push_history_props(4) [of t "gw_history s"] assms(2) t by (auto simp: list_all_iff history_inv_def)
  ultimately show ?thesis
    using assms(2) t push_history_props(1-3) [of t "gw_history s"] by (simp add: history_inv_def)
qed

section \<open>Every operation is a step of the machine\<close>

lemma auth_discover: "auth_step s (snd (gw_discover report s))"
  using auth_move [where a = DISCOVERED and r = None and s = s]
  by (cases rule: require_cases [where st = NEW and s = s]; cases report)
    (simp_all add: gw_discover_def do_transition_eq transition_ok_mk allowed_def)

lemma auth_validate: "auth_step s (snd (gw_validate s))"
proof (cases rule: require_cases [where st = DISCOVERED and s = s])
  case ok
  have m: "auth_step s (snd (do_transition (if rp_mode (gw_profile s) = ''simulation'' then ARMED else VALIDATED) None s))"
    by (rule auth_move [where r = None]) (simp_all add: do_transition_eq transition_ok_mk allowed_def ok)
  show ?thesis
    using m ok by (cases "gw_report s"; cases "required_capability (rp_adapter_kind (gw_profile s))";
        cases "rp_mode (gw_profile s) = ''simulation''")
      (simp_all add: gw_validate_def do_transition_eq Let_def del: required_capability.simps)
qed (simp add: gw_validate_def)

lemma auth_arm: "auth_step s (snd (snd (gw_arm digest os now challenge files s)))"
proof (cases rule: require_cases [where st = VALIDATED and s = s])
  case ok
  have m: "rp_mode (gw_profile s) = ''hardware'' \<Longrightarrow> auth_step s (snd (do_transition ARMED None s))"
    by (rule auth_move [where r = None and a = ARMED]) (simp_all add: do_transition_eq transition_ok_mk allowed_def ok)
  then show ?thesis
    using ok by (auto simp: gw_arm_def do_transition_eq Let_def split: prod.splits sum.splits bool.splits)
qed (simp add: gw_arm_def)

lemma auth_start: "auth_step s (snd (gw_start_task m now spawns s))"
proof (cases "rbind (require_state ARMED s) (\<lambda>_. check_limits m (rp_limits (gw_profile s)))")
  case (Inl e)
  then show ?thesis by (simp add: gw_start_task_def)
next
  case (Inr u)
  then have "gw_state s = ARMED" by (simp add: require_Inr)
  then have "auth_step s (snd (gw_start_task m now spawns s))" if
    "snd (gw_start_task m now spawns s) = (snd (do_transition RUNNING None
       (s\<lparr>gw_last_heartbeat := Some now, gw_deadline := deadline_after now (gw_profile s)\<rparr>)))\<lparr>gw_supervisor := v\<rparr>" for v
    unfolding that
    by (intro auth_move [where r = None and a = RUNNING]) (simp_all add: do_transition_eq transition_ok_mk allowed_def)
  then show ?thesis
    using Inr by (auto simp: gw_start_task_def do_transition_eq Let_def simp del: rbind_Inr_iff require_ok split: prod.splits sum.splits)
qed

lemma auth_heartbeat: "auth_step s (snd (heartbeat_locked now s))"
proof (cases rule: require_cases [where st = RUNNING and s = s])
  case ok
  have m: "auth_step s (snd (do_transition RUNNING None (s\<lparr>gw_last_heartbeat := h, gw_deadline := d\<rparr>)))" for h d
    by (rule auth_move [where r = None]) (simp_all add: do_transition_eq transition_ok_mk allowed_def ok)
  then show ?thesis
    using ok by (auto simp: heartbeat_locked_def do_transition_eq Let_def split: option.splits)
qed (simp add: heartbeat_locked_def)

lemma auth_cancel: "stop_wf r \<Longrightarrow> auth_step s (snd (cancel_locked r s))"
  using auth_move [where a = STOPPED and r = "Some r" and s = s]
  by (cases rule: require_cases [where st = RUNNING and s = s])
    (simp_all add: cancel_locked_def do_transition_eq transition_ok_mk allowed_def)

lemma auth_fault: "stop_wf r \<Longrightarrow> auth_step s (snd (fault_locked r s))"
  using auth_move [where a = FAULTED and r = "Some r" and s = s]
  by (cases "gw_state s = RUNNING") (simp_all add: fault_locked_def do_transition_eq transition_ok_mk allowed_def)

lemma auth_estop: "stop_wf r \<Longrightarrow> auth_step s (snd (estop_locked r s))"
  using auth_move [where a = ESTOPPED and r = "Some r" and s = s]
  by (cases "gw_state s = ESTOPPED") (simp_all add: estop_locked_def do_transition_eq transition_ok_mk allowed_def)

lemma auth_reset: "auth_step s (snd (gw_operator_reset s))"
  using auth_move [where a = NEW and r = None and s = s]
  by (simp add: gw_operator_reset_def do_transition_eq transition_ok_mk allowed_def)

lemma auth_record: "auth_step s (record_stop r s)"
  by (simp add: record_stop_def auth_stay)

lemma auth_watch:
  "auth_step s (watch_poll s)" "auth_step s (watch_compare d now s)" "auth_step s (watch_expired now s)"
  "auth_step s (watch_burst calls s)"
  by (auto simp: watch_poll_def watch_compare_def watch_expired_def watch_burst_def record_stop_def
      Let_def intro!: auth_stay split: option.splits)

lemma auth_exit: "auth_step s t \<Longrightarrow> auth_step s (watch_exit t)"
  by (simp add: auth_step_def)

lemmas auth_ops = auth_discover auth_validate auth_arm auth_start auth_heartbeat auth_cancel auth_fault
  auth_estop auth_reset auth_record auth_watch auth_exit

lemma gw_step_auth: "gw_step s t \<Longrightarrow> data_inv s \<Longrightarrow> auth_step s t"
proof (induction rule: gw_step.induct)
  case (faults s r)
  then show ?case by (simp add: watch_fault_def auth_exit auth_fault data_inv_def)
qed (auto simp: auth_ops stop_repeatedly_wf auth_stay)

section \<open>The data invariant\<close>

lemma data_discover: "data_inv s \<Longrightarrow> data_inv (snd (gw_discover report s))"
  by (cases rule: require_cases [where st = NEW and s = s]; cases report)
    (simp_all add: gw_discover_def do_transition_eq data_inv_def)

lemma data_validate: "data_inv s \<Longrightarrow> data_inv (snd (gw_validate s))"
  by (cases rule: require_cases [where st = DISCOVERED and s = s]; cases "gw_report s";
      cases "required_capability (rp_adapter_kind (gw_profile s))")
    (simp_all add: gw_validate_def do_transition_eq data_inv_def supports_def del: required_capability.simps)

lemma data_arm: "data_inv s \<Longrightarrow> data_inv (snd (snd (gw_arm digest os now challenge files s)))"
  by (cases rule: require_cases [where st = VALIDATED and s = s])
    (auto simp: gw_arm_def do_transition_eq data_inv_def Let_def split: prod.splits sum.splits bool.splits)

lemma supervisor_start_pc:
  "sv_pc (snd (supervisor_start spawns v)) = Faulting r \<Longrightarrow> sv_pc v = Faulting r"
  by (auto simp: supervisor_start_def split: if_splits)

lemma start_task_ok:
  "rbind (require_state ARMED s) (\<lambda>_. check_limits m (rp_limits (gw_profile s))) = Ret () \<Longrightarrow>
    snd (gw_start_task m now spawns s) =
      (snd (do_transition RUNNING None
        (s\<lparr>gw_last_heartbeat := Some now, gw_deadline := deadline_after now (gw_profile s)\<rparr>)))
        \<lparr>gw_supervisor := snd (supervisor_start spawns (gw_supervisor s))\<rparr>"
  by (simp add: gw_start_task_def do_transition_eq Let_def split: prod.splits sum.splits del: rbind_Inr_iff)

lemma start_task_no:
  "rbind (require_state ARMED s) (\<lambda>_. check_limits m (rp_limits (gw_profile s))) = Raise e \<Longrightarrow>
    gw_start_task m now spawns s = (Raise e, s)"
  by (simp add: gw_start_task_def)

lemma data_start: "data_inv s \<Longrightarrow> data_inv (snd (gw_start_task m now spawns s))"
proof (cases "rbind (require_state ARMED s) (\<lambda>_. check_limits m (rp_limits (gw_profile s)))")
  case (Inr u)
  then have "gw_state s = ARMED" by (simp add: require_Inr)
  with Inr show "data_inv s \<Longrightarrow> ?thesis"
    using start_task_ok [of s m now spawns] supervisor_start_pc [of spawns "gw_supervisor s"]
    by (auto simp: do_transition_eq data_inv_def simp del: rbind_Inr_iff)
qed (simp add: start_task_no)

lemma data_heartbeat: "data_inv s \<Longrightarrow> data_inv (snd (heartbeat_locked now s))"
  by (cases rule: require_cases [where st = RUNNING and s = s]; cases "heartbeat_timeout (rp_safety (gw_profile s))")
    (auto simp: heartbeat_locked_def do_transition_eq data_inv_def deadline_after_def Let_def)

lemma data_stops:
  "data_inv s \<Longrightarrow> data_inv (snd (cancel_locked r s))" "data_inv s \<Longrightarrow> data_inv (snd (fault_locked r s))"
  "data_inv s \<Longrightarrow> data_inv (snd (estop_locked r s))" "data_inv s \<Longrightarrow> data_inv (record_stop r s)"
  by (cases rule: require_cases [where st = RUNNING and s = s];
      simp add: cancel_locked_def fault_locked_def estop_locked_def record_stop_def do_transition_eq
        data_inv_def supervisor_stop_def)+

lemma data_reset: "data_inv s \<Longrightarrow> data_inv (snd (gw_operator_reset s))"
  by (simp add: gw_operator_reset_def do_transition_eq data_inv_def)

lemma data_close: "data_inv s \<Longrightarrow> data_inv (s\<lparr>gw_supervisor := supervisor_stop (gw_supervisor s)\<rparr>)"
  by (simp add: data_inv_def supervisor_stop_def)

lemma data_watch:
  "data_inv s \<Longrightarrow> data_inv (watch_poll s)" "data_inv s \<Longrightarrow> data_inv (watch_compare d now s)"
  "data_inv s \<Longrightarrow> data_inv (watch_expired now s)" "data_inv s \<Longrightarrow> data_inv (watch_burst calls s)"
  by (simp_all add: watch_poll_def watch_compare_def watch_expired_def watch_burst_def record_stop_def
      data_inv_def Let_def stop_repeatedly_wf split: option.splits)

lemma data_exit: "data_inv s \<Longrightarrow> data_inv (watch_exit s)"
  by (simp add: data_inv_def)

lemmas data_ops = data_discover data_validate data_arm data_start data_heartbeat data_stops data_reset
  data_close data_watch data_exit

lemma gw_step_inv: "gw_step s t \<Longrightarrow> gw_inv s \<Longrightarrow> gw_inv t"
proof -
  assume st: "gw_step s t" and i: "gw_inv s"
  have "data_inv s \<Longrightarrow> data_inv t"
    using st by (induction rule: gw_step.induct) (simp_all add: data_ops watch_fault_def)
  with i gw_step_auth [OF st] auth_step_history show "gw_inv t" by (auto simp: gw_inv_def)
qed

interpretation authorization: machine gw_step gw_inv
  using gw_step_inv by unfold_locales

text \<open>A hardware gateway that has seen an emergency stop is latched for good.\<close>

definition hardware_latched :: "gateway \<Rightarrow> bool" where
  "hardware_latched s \<longleftrightarrow> rp_mode (gw_profile s) = ''hardware'' \<and> gw_state s = ESTOPPED"

lemma auth_hardware_latched:
  "auth_step s t \<Longrightarrow> hardware_latched s \<Longrightarrow> hardware_latched t \<and> gw_sequence t = gw_sequence s"
  by (auto simp: auth_step_def hardware_latched_def transition_ok_def allowed_def)

interpretation hardware_stop: latching gw_step gw_inv hardware_latched gw_sequence
  using gw_step_auth auth_hardware_latched by unfold_locales (auto simp: gw_inv_def)

definition gw_reach :: "robot_profile \<Rightarrow> bool \<Rightarrow> gateway \<Rightarrow> bool" where
  "gw_reach p d s \<longleftrightarrow> gw_step\<^sup>*\<^sup>* (gateway_init p d) s"

lemma gw_reach_inv: "gw_reach p d s \<Longrightarrow> gw_inv s"
  using authorization.inv_steps gw_init_inv by (auto simp: gw_reach_def)

lemma gw_reach_profile: "gw_reach p d s \<Longrightarrow> gw_profile s = p"
proof -
  have "gw_step\<^sup>*\<^sup>* (gateway_init p d) s \<Longrightarrow> gw_inv s \<and> gw_profile s = p"
  proof (induction rule: rtranclp_induct)
    case base
    then show ?case using gw_init_inv [of p d] by (simp add: gateway_init_def)
  next
    case (step s t)
    then show ?case using gw_step_inv gw_step_auth by (auto simp: gw_inv_def auth_step_def)
  qed
  then show "gw_reach p d s \<Longrightarrow> ?thesis" by (simp add: gw_reach_def)
qed

lemma gw_reach_init: "gw_reach p d (gateway_init p d)"
  by (simp add: gw_reach_def)

lemma gw_reach_step: "gw_reach p d s \<Longrightarrow> gw_step s t \<Longrightarrow> gw_reach p d t"
  by (auto simp: gw_reach_def intro: rtranclp.rtrancl_into_rtrancl)

section \<open>A concrete run\<close>

text \<open>The repository's own profile, discovered, validated and started at time zero.\<close>

definition demo_discovered :: gateway where
  "demo_discovered = snd (gw_discover (Some (infer_capabilities demo_snapshot)) (gateway_init hospital_amr False))"

definition demo_armed :: gateway where "demo_armed = snd (gw_validate demo_discovered)"

definition demo_request :: motion_request where
  "demo_request = \<lparr>mr_linear_velocity = VFloat (Fin (1 / 8)), mr_angular_velocity = VInt 1,
     mr_linear_acceleration = VInt 0, mr_angular_acceleration = VInt 0\<rparr>"

definition demo_running :: gateway where
  "demo_running = snd (gw_start_task demo_request (Fin 0) True demo_armed)"

lemma demo_report:
  "dr_blocking_warnings (infer_capabilities demo_snapshot) = []"
  "''mobile_base.twist'' \<in> set (capability_names (infer_capabilities demo_snapshot))"
  "dr_topic_types (infer_capabilities demo_snapshot) = [(''/cmd_vel'', [TWIST_TYPE]), (''/odom'', [ODOMETRY_TYPE])]"
  by (simp_all add: infer_capabilities_def typed_topics_def demo_snapshot_def TWIST_TYPE_def ODOMETRY_TYPE_def
      ends_with_def starts_with_def rstrip_char_def capability_names_def mk_capability_def
      controller_warnings_def publishers_of_def dget_list_def)

lemma demo_discovered_eq:
  "demo_discovered = snd (do_transition DISCOVERED None
     ((gateway_init hospital_amr False)\<lparr>gw_report := Some (infer_capabilities demo_snapshot)\<rparr>))"
  by (simp add: demo_discovered_def gw_discover_def demo_report gateway_init_def do_transition_eq)

lemma demo_supported: "interfaces_match hospital_amr (infer_capabilities demo_snapshot)"
  by (simp add: interfaces_match_def hospital_amr_def topic_matches_def demo_report dget_list_def)

lemma demo_armed_eq: "demo_armed = snd (do_transition ARMED None demo_discovered)"
proof -
  have s: "gw_state demo_discovered = DISCOVERED" "gw_profile demo_discovered = hospital_amr"
    "gw_report demo_discovered = Some (infer_capabilities demo_snapshot)"
    by (simp_all add: demo_discovered_eq do_transition_eq gateway_init_def)
  have k: "required_capability (rp_adapter_kind hospital_amr) = Ret ''mobile_base.twist''"
    "rp_mode hospital_amr = ''simulation''"
    by (simp_all add: hospital_amr_def)
  show ?thesis
    by (simp add: demo_armed_def gw_validate_def s k demo_report demo_supported do_transition_eq
        del: required_capability.simps)
qed

lemma demo_armed_sel:
  "gw_state demo_armed = ARMED" "gw_profile demo_armed = hospital_amr" "gw_sequence demo_armed = 2"
  "gw_supervisor demo_armed = \<lparr>sv_alive = False, sv_stop = False, sv_pc = WaitPoll\<rparr>"
  by (simp_all add: demo_armed_eq demo_discovered_eq do_transition_eq gateway_init_def)

lemma demo_limits: "check_limits demo_request (rp_limits hospital_amr) = Ret ()"
  by (simp add: check_limits_def check_limit_def demo_request_def hospital_amr_def py_isfinite_def
      float_of_int_def)

lemma demo_running_eq:
  "demo_running = (snd (do_transition RUNNING None
     (demo_armed\<lparr>gw_last_heartbeat := Some (Fin 0), gw_deadline := Some (Fin 1)\<rparr>)))
     \<lparr>gw_supervisor := \<lparr>sv_alive = True, sv_stop = False, sv_pc = WaitPoll\<rparr>\<rparr>"
proof -
  have "deadline_after (Fin 0) hospital_amr = Some (Fin 1)"
    by (simp add: deadline_after_def hospital_amr_def)
  moreover have "rbind (require_state ARMED demo_armed) (\<lambda>_. check_limits demo_request (rp_limits (gw_profile demo_armed))) = Ret ()"
    by (simp add: demo_armed_sel demo_limits)
  ultimately show ?thesis
    using start_task_ok [of demo_armed demo_request "Fin 0" True]
    by (simp add: demo_running_def demo_armed_sel supervisor_start_def)
qed

lemma demo_running_sel:
  "gw_state demo_running = RUNNING" "gw_profile demo_running = hospital_amr"
  "gw_last_heartbeat demo_running = Some (Fin 0)" "gw_deadline demo_running = Some (Fin 1)"
  "gw_supervisor demo_running = \<lparr>sv_alive = True, sv_stop = False, sv_pc = WaitPoll\<rparr>"
  by (simp_all add: demo_running_eq do_transition_eq demo_armed_sel)

lemma demo_reach:
  "gw_reach hospital_amr False demo_discovered" "gw_reach hospital_amr False demo_armed"
  "gw_reach hospital_amr False demo_running"
proof -
  show a: "gw_reach hospital_amr False demo_discovered"
    unfolding demo_discovered_def by (rule gw_reach_step [OF gw_reach_init gw_step.discover])
  show b: "gw_reach hospital_amr False demo_armed"
    unfolding demo_armed_def by (rule gw_reach_step [OF a gw_step.validate])
  show "gw_reach hospital_amr False demo_running"
    unfolding demo_running_def by (rule gw_reach_step [OF b gw_step.start])
qed

section \<open>Properties\<close>

text \<open>C29: The gateway refines the authorization machine: whatever clients and watchdog do, in
  whatever order, each region under the lock either leaves state and history alone or makes one
  transition that the profile's mode allows, numbered next, carrying the combined result of a
  stop burst exactly when it enters a stopped, faulted or emergency-stopped state.\<close>
theorem gateway_refines_authorization:
  assumes "gw_reach p d s" "gw_step s t"
  shows "auth_step s t"
  using gw_step_auth [OF assms(2)] gw_reach_inv [OF assms(1)] by (simp add: gw_inv_def)

lemma gateway_refines_authorization_witness: "auth_step demo_armed demo_running"
  by (rule gateway_refines_authorization [OF demo_reach(2)]) (simp add: demo_running_def gw_step.start)

text \<open>The retained history of a reachable gateway is a gap-free chain: at most 256 receipts,
  consecutive in number, each starting in the state where the previous one ended, all allowed
  by the profile's mode, the last one being the latest transition and ending in the current state.\<close>
theorem gateway_history_chain:
  assumes "gw_reach p d s"
  shows "length (gw_history s) = min (gw_sequence s) 256 \<and> chained (gw_history s) \<and>
    list_all (transition_ok (rp_mode p)) (gw_history s) \<and>
    (gw_history s = [] \<or> tr_after (last (gw_history s)) = gw_state s \<and>
       Suc (tr_sequence (last (gw_history s))) = gw_sequence s \<and> gw_latest s = Some (last (gw_history s)))"
  using gw_reach_inv [OF assms] gw_reach_profile [OF assms]
  by (auto simp: gw_inv_def history_inv_def HISTORY_MAX_def)

lemma gateway_history_chain_witness:
  "length (gw_history demo_running) = 3 \<and> chained (gw_history demo_running)"
  using gateway_history_chain [OF demo_reach(3)]
  by (simp add: demo_running_eq do_transition_eq demo_armed_sel)

text \<open>On hardware an emergency stop is final: once the gateway of a hardware profile is in
  the emergency-stopped state, it is in it for ever and records no further transition, whatever
  resets, arms or starts are attempted.\<close>
theorem hardware_estop_is_final:
  assumes "gw_reach p d s" "rp_mode p = ''hardware''" "gw_state s = ESTOPPED" "gw_step\<^sup>*\<^sup>* s t"
  shows "gw_state t = ESTOPPED \<and> gw_sequence t = gw_sequence s"
  using hardware_stop.latched_steps [OF assms(4) gw_reach_inv [OF assms(1)]] assms(2,3)
    gw_reach_profile [OF assms(1)]
  by (auto simp: hardware_latched_def)

lemma hardware_estop_is_final_witness:
  "\<exists>s. gw_reach (hospital_amr\<lparr>rp_mode := ''hardware''\<rparr>) True s \<and> gw_state s = ESTOPPED \<and>
     gw_state (snd (gw_operator_reset s)) = ESTOPPED"
proof -
  define s where "s = snd (estop_locked (stop_repeatedly (\<lambda>_. StopRaises))
    (gateway_init (hospital_amr\<lparr>rp_mode := ''hardware''\<rparr>) True))"
  have r: "gw_reach (hospital_amr\<lparr>rp_mode := ''hardware''\<rparr>) True s"
    unfolding s_def by (rule gw_reach_step [OF gw_reach_init gw_step.estop])
  have e: "gw_state s = ESTOPPED" by (simp add: s_def estop_locked_def gateway_init_def do_transition_eq)
  have "gw_step\<^sup>*\<^sup>* s (snd (gw_operator_reset s))" by (rule r_into_rtranclp) (rule gw_step.reset)
  from hardware_estop_is_final [OF r _ e this] r e show ?thesis by auto
qed

text \<open>Motion is authorized only for a supported robot: in every reachable state from
  validation on, up to a stop or a fault, the stored discovery report has no blocking warning,
  names the capability the adapter needs and offers the very interfaces of the profile with
  their types.\<close>
theorem authorized_only_if_supported:
  assumes "gw_reach p d s" "gw_state s \<in> {VALIDATED, ARMED, RUNNING, STOPPED, FAULTED}"
  shows "supports p (gw_report s)"
  using gw_reach_inv [OF assms(1)] gw_reach_profile [OF assms(1)] assms(2)
  by (auto simp: gw_inv_def data_inv_def)

lemma authorized_only_if_supported_witness: "supports hospital_amr (gw_report demo_running)"
  by (rule authorized_only_if_supported [OF demo_reach(3)]) (simp add: demo_running_sel)

definition in_limit :: "pyval \<Rightarrow> rat \<Rightarrow> bool" where
  "in_limit v maximum \<longleftrightarrow> is_number v \<and> py_isfinite v = Ret True \<and> \<bar>num_rat v\<bar> \<le> maximum"

lemma check_limit_Ret: "check_limit v m = Ret u \<longleftrightarrow> in_limit v m"
  by (auto simp: check_limit_def in_limit_def not_less split: if_splits)

text \<open>A task starts only from the armed state and within the reviewed limits: a start
  request returns a transition exactly when the gateway is armed, each of the four requested
  magnitudes is a finite number at most the profile's maximum, and the watchdog lives or can be
  started; when it is refused, state, history and deadline are untouched unless the watchdog's
  thread was what failed.\<close>
theorem start_task_iff:
  "(is_ret (fst (gw_start_task m now spawns s)) \<longleftrightarrow>
      gw_state s = ARMED \<and> in_limit (mr_linear_velocity m) (max_linear_velocity (rp_limits (gw_profile s))) \<and>
      in_limit (mr_angular_velocity m) (max_angular_velocity (rp_limits (gw_profile s))) \<and>
      in_limit (mr_linear_acceleration m) (max_linear_acceleration (rp_limits (gw_profile s))) \<and>
      in_limit (mr_angular_acceleration m) (max_angular_acceleration (rp_limits (gw_profile s))) \<and>
      (sv_alive (gw_supervisor s) \<or> spawns)) \<and>
   (is_ret (fst (gw_start_task m now spawns s)) \<or> snd (gw_start_task m now spawns s) = s \<or>
      fst (gw_start_task m now spawns s) = Raise PyRuntimeError)"
proof -
  define lims where "lims = (check_limits m (rp_limits (gw_profile s)) = Ret ())"
  have l: "in_limit (mr_linear_velocity m) (max_linear_velocity (rp_limits (gw_profile s))) \<and>
      in_limit (mr_angular_velocity m) (max_angular_velocity (rp_limits (gw_profile s))) \<and>
      in_limit (mr_linear_acceleration m) (max_linear_acceleration (rp_limits (gw_profile s))) \<and>
      in_limit (mr_angular_acceleration m) (max_angular_acceleration (rp_limits (gw_profile s))) \<longleftrightarrow> lims"
    by (simp add: lims_def check_limits_def check_limit_Ret)
  have "(is_ret (fst (gw_start_task m now spawns s)) \<longleftrightarrow>
      gw_state s = ARMED \<and> lims \<and> (sv_alive (gw_supervisor s) \<or> spawns)) \<and>
     (is_ret (fst (gw_start_task m now spawns s)) \<or> snd (gw_start_task m now spawns s) = s \<or>
      fst (gw_start_task m now spawns s) = Raise PyRuntimeError)"
  proof (cases "rbind (require_state ARMED s) (\<lambda>_. check_limits m (rp_limits (gw_profile s)))")
    case (Inl e)
    then have "\<not> (gw_state s = ARMED \<and> lims)" by (auto simp: lims_def)
    with Inl show ?thesis by (auto simp: start_task_no)
  next
    case (Inr u)
    then have "gw_state s = ARMED" lims by (auto simp: require_Inr lims_def)
    then show ?thesis
      by (cases "sv_alive (gw_supervisor s)"; cases spawns)
        (simp_all add: gw_start_task_def do_transition_eq supervisor_start_def lims_def)
  qed
  then show ?thesis using l by blast
qed

text \<open>The heartbeat window is exact: in a reachable running state with a timeout, a heartbeat
  is accepted, and moves the deadline to its own time plus the timeout, exactly when it is not
  later than the last accepted heartbeat plus the timeout; otherwise it faults the session.\<close>
theorem heartbeat_window:
  assumes "gw_reach p d s" "gw_state s = RUNNING" "heartbeat_timeout (rp_safety p) = Some timeout"
  shows "\<exists>h. gw_last_heartbeat s = Some h \<and>
    (if flt (fadd h (Fin timeout)) now
     then heartbeat_locked now s = (HbFault ''HEARTBEAT_EXPIRED'', s) \<and>
       fst (gw_heartbeat now calls s) = unsafe ''HEARTBEAT_EXPIRED'' \<and>
       gw_state (snd (gw_heartbeat now calls s)) = FAULTED
     else is_ret (fst (gw_heartbeat now calls s)) \<and>
       gw_deadline (snd (gw_heartbeat now calls s)) = Some (fadd now (Fin timeout)) \<and>
       gw_state (snd (gw_heartbeat now calls s)) = RUNNING)"
proof -
  obtain h where h: "gw_last_heartbeat s = Some h" "gw_deadline s = deadline_after h p"
    using gw_reach_inv [OF assms(1)] gw_reach_profile [OF assms(1)] assms(2)
    by (auto simp: gw_inv_def data_inv_def)
  then have d: "gw_deadline s = Some (fadd h (Fin timeout))" by (simp add: deadline_after_def assms(3))
  show ?thesis
    using h(1) d assms gw_reach_profile [OF assms(1)]
    by (cases "flt (fadd h (Fin timeout)) now")
      (simp_all add: heartbeat_locked_def gw_heartbeat_def gw_fault_def fault_locked_def record_stop_def
        do_transition_eq Let_def)
qed

lemma heartbeat_window_witness:
  "gw_state (snd (gw_heartbeat (Fin 2) (\<lambda>_. StopRaises) demo_running)) = FAULTED \<and>
   gw_deadline (snd (gw_heartbeat (Fin 1) (\<lambda>_. StopRaises) demo_running)) = Some (Fin 2)"
proof -
  have t: "heartbeat_timeout (rp_safety hospital_amr) = Some 1" by (simp add: hospital_amr_def)
  show ?thesis
    using heartbeat_window [OF demo_reach(3) demo_running_sel(1) t, of "Fin 2" "\<lambda>_. StopRaises"]
      heartbeat_window [OF demo_reach(3) demo_running_sel(1) t, of "Fin 1" "\<lambda>_. StopRaises"]
    by (simp add: demo_running_sel)
qed

text \<open>The watchdog's deadline is live: a reachable gateway has an active deadline exactly
  while it runs under a profile with a heartbeat timeout, and then it is the last accepted
  heartbeat plus that timeout.\<close>

theorem active_deadline_exact:
  assumes "gw_reach p d s"
  shows "active_deadline s = (if gw_state s = RUNNING
    then (case gw_last_heartbeat s of None \<Rightarrow> None | Some h \<Rightarrow> deadline_after h p) else None) \<and>
    gw_deadline s = active_deadline s"
  using gw_reach_inv [OF assms] gw_reach_profile [OF assms]
  by (auto simp: gw_inv_def data_inv_def active_deadline_def)

lemma active_deadline_exact_witness: "gw_deadline demo_running = active_deadline demo_running"
  using active_deadline_exact [OF demo_reach(3)] by simp

text \<open>An emergency stop always lands: from whatever state, with whatever its three calls of
  the stop callback do, the attempt ends emergency-stopped with the watchdog told to stop and no
  deadline, and it reports a success exactly when all three calls returned fully successful
  results.\<close>
theorem estop_always_lands:
  "let ((t, r), s1) = gw_estop_attempt calls s in
     gw_state s1 = ESTOPPED \<and> gw_last_stop s1 = r \<and>
     (t = None \<longleftrightarrow> gw_state s = ESTOPPED) \<and> (gw_state s = ESTOPPED \<or> gw_deadline s1 = None \<and> sv_stop (gw_supervisor s1)) \<and>
     (successful r \<longleftrightarrow> (\<forall>i \<in> {0, 1, 2}. \<exists>x. calls i = StopReturns x \<and> successful x)) \<and>
     (successful r \<longleftrightarrow> sr_code r = ''ESTOP_LATCHED'') \<and> sr_code r \<in> set STOP_CODES"
proof -
  have "successful (stop_repeatedly calls) \<longleftrightarrow> (\<forall>i \<in> {0, 1, 2}. successful (stop_call_result (calls i)))"
    by (auto simp: stop_repeatedly_def combine_stops_def successful_def STOP_BURST_COUNT_def numeral_3_eq_3
        numeral_2_eq_2 Let_def upt_rec)
  moreover have "successful (stop_call_result c) \<longleftrightarrow> (\<exists>x. c = StopReturns x \<and> successful x)" for c
    by (cases c) (simp_all add: stop_rejected_def successful_def)
  ultimately have a: "successful (stop_repeatedly calls) \<longleftrightarrow>
      (\<forall>i \<in> {0, 1, 2}. \<exists>x. calls i = StopReturns x \<and> successful x)" by simp
  have b: "successful (stop_repeatedly calls) \<longleftrightarrow> sr_code (stop_repeatedly calls) = ''ESTOP_LATCHED''"
    "sr_code (stop_repeatedly calls) \<in> set STOP_CODES"
    using stop_repeatedly_wf [of calls] by (simp_all add: stop_wf_def)
  show ?thesis
    unfolding a [symmetric] using b
    by (simp add: gw_estop_attempt_def estop_locked_def record_stop_def do_transition_eq
        supervisor_stop_def Let_def)
qed

theorem estop_always_lands_witness:
  "\<not> successful (snd (fst (gw_estop_attempt (\<lambda>_. StopReturns stop_rejected) demo_running)))"
  using estop_always_lands [of "\<lambda>_. StopReturns stop_rejected" demo_running]
  by (auto simp: successful_def stop_rejected_def Let_def split: prod.splits)

text \<open>Arming hardware costs a challenge: on a hardware profile an accepted arm has consumed a
  valid challenge record of that profile, and no further arm of a gateway with the same profile
  name succeeds against the files it leaves behind.\<close>
theorem arming_consumes_challenge:
  assumes "gw_arm digest os now challenge files s = (Ret r, files1, s1)" "rp_mode (gw_profile s) = ''hardware''"
    "rp_mode (gw_profile s') = ''hardware''" "rp_name (gw_profile s') = rp_name (gw_profile s)"
  shows "(\<exists>t. r = Some t \<and> tr_before t = VALIDATED \<and> gw_state s1 = ARMED) \<and>
    fst (consume_operator_challenge digest os now (VStr (rp_name (gw_profile s)))
      (if challenge = VNone then VStr [] else challenge) files) = Ret True \<and>
    \<not> is_ret (fst (gw_arm digest os' now' challenge' files1 s'))"
proof -
  define tok where "tok = (if challenge = VNone then VStr [] else challenge)"
  have v: "gw_state s = VALIDATED"
    using assms(1,2) by (cases rule: require_cases [where st = VALIDATED and s = s]) (auto simp: gw_arm_def)
  have c: "consume_operator_challenge digest os now (VStr (rp_name (gw_profile s))) tok files = (Ret True, files1)"
    "r = Some (mk_transition ARMED None s)" "gw_state s1 = ARMED"
    using assms(1,2) v
    by (auto simp: gw_arm_def tok_def [symmetric] do_transition_eq split: if_splits prod.splits sum.splits bool.splits)
  have "fst (consume_operator_challenge digest os' now' (VStr (rp_name (gw_profile s))) tok' files1) \<noteq> Ret True" for tok'
    using challenge_single_use_lemma [OF c(1)] by blast
  then have "\<not> is_ret (fst (gw_arm digest os' now' challenge' files1 s'))"
    using assms(3,4) by (cases rule: require_cases [where st = VALIDATED and s = s'])
      (auto simp: gw_arm_def Let_def split: prod.splits sum.splits bool.splits; metis fst_conv)+
  then show ?thesis using c v by (simp add: tok_def mk_transition_def)
qed

definition demo_hardware :: gateway where
  "demo_hardware = (gateway_init (hospital_amr\<lparr>rp_mode := ''hardware'', rp_name := ''base''\<rparr>) True)\<lparr>gw_state := VALIDATED\<rparr>"

lemma arming_consumes_challenge_witness:
  "\<exists>files1 s1. gw_arm id demo_os (Fin 10) (VStr ''tok'') demo_files demo_hardware = (Ret (Some (mk_transition ARMED None demo_hardware)), files1, s1) \<and>
     \<not> is_ret (fst (gw_arm id demo_os (Fin 11) (VStr ''tok'') files1 demo_hardware))"
proof -
  have h: "gw_state demo_hardware = VALIDATED" "rp_mode (gw_profile demo_hardware) = ''hardware''"
    "rp_name (gw_profile demo_hardware) = ''base''" "gw_runtime_dir demo_hardware"
    by (simp_all add: demo_hardware_def gateway_init_def)
  obtain files1 where c: "consume_operator_challenge id demo_os (Fin 10) (VStr ''base'') (VStr ''tok'') demo_files = (Ret True, files1)"
    using demo_consume by (metis prod.collapse)
  then have a: "gw_arm id demo_os (Fin 10) (VStr ''tok'') demo_files demo_hardware =
      (Ret (Some (mk_transition ARMED None demo_hardware)), files1, snd (do_transition ARMED None demo_hardware))"
    by (simp add: gw_arm_def h do_transition_eq)
  from arming_consumes_challenge [OF a h(2) h(2) refl] a show ?thesis by blast
qed


text \<open>The watchdog reads the deadline, then finds its clock past it.\<close>

definition demo_polled :: gateway where "demo_polled = watch_poll demo_running"
definition demo_late :: gateway where "demo_late = watch_compare (Fin 1) (Fin 2) demo_polled"

lemma demo_polled_eq: "demo_polled = watch (HaveDeadline (Fin 1)) demo_running"
  by (simp add: demo_polled_def watch_poll_def demo_running_sel active_deadline_def)

lemma demo_polled_reach: "gw_reach hospital_amr False demo_polled"
  unfolding demo_polled_def by (rule gw_reach_step [OF demo_reach(3) gw_step.poll]) (simp_all add: demo_running_sel)

lemma demo_late_eq: "demo_late = watch CallExpired demo_running"
  by (simp add: demo_late_def watch_compare_def demo_polled_eq)

lemma demo_late_reach: "gw_reach hospital_amr False demo_late"
  unfolding demo_late_def
  by (rule gw_reach_step [OF demo_polled_reach gw_step.compare]) (simp_all add: demo_polled_eq demo_running_sel)


text \<open>
  The watchdog can be lost. It reads the deadline 1; a heartbeat at time 1 moves the deadline
  to 2; the watchdog then finds its clock, 3/2, past the deadline it has read; the test under
  the lock finds nothing expired, but \<^verbatim>\<open>evaluate\<close> returns true and the thread ends. The
  session runs on, with a deadline that nothing watches.
\<close>

definition demo_beat :: gateway where "demo_beat = snd (heartbeat_locked (Fin 1) demo_polled)"

lemma watchdog_lost_while_running:
  "\<exists>s. gw_reach hospital_amr False s \<and> gw_state s = RUNNING \<and> gw_deadline s = Some (Fin 2) \<and>
     \<not> sv_alive (gw_supervisor s) \<and> \<not> sv_stop (gw_supervisor s)"
proof -
  have t: "heartbeat_timeout (rp_safety hospital_amr) = Some 1" by (simp add: hospital_amr_def)
  have b: "gw_state demo_beat = RUNNING" "gw_deadline demo_beat = Some (Fin 2)"
    "gw_supervisor demo_beat = \<lparr>sv_alive = True, sv_stop = False, sv_pc = HaveDeadline (Fin 1)\<rparr>"
    by (simp_all add: demo_beat_def heartbeat_locked_def demo_polled_eq demo_running_sel t do_transition_eq)
  have r: "gw_reach hospital_amr False demo_beat"
    unfolding demo_beat_def by (rule gw_reach_step [OF demo_polled_reach gw_step.heartbeat])
  define s1 where "s1 = watch_compare (Fin 1) (Fin (3 / 2)) demo_beat"
  have e1: "s1 = watch CallExpired demo_beat" by (simp add: s1_def watch_compare_def)
  have r1: "gw_reach hospital_amr False s1"
    unfolding s1_def by (rule gw_reach_step [OF r gw_step.compare]) (simp_all add: b)
  define s2 where "s2 = watch_expired (Fin (3 / 2)) s1"
  have e2: "s2 = watch_exit s1" by (simp add: s2_def watch_expired_def e1 b)
  have "gw_reach hospital_amr False s2"
    unfolding s2_def by (rule gw_reach_step [OF r1 gw_step.expired]) (simp_all add: e1 b)
  then show ?thesis by (intro exI [of _ s2]) (simp add: e2 e1 b)
qed

text \<open>
  Nor is it always restarted. A run is emergency-stopped, which tells the watchdog to stop; the
  simulation is reset, discovered, validated and started again before the old thread has seen
  the stop event. \<^verbatim>\<open>start\<close> finds it alive and returns without clearing the event; then the
  thread sees it and ends.
\<close>

lemma watchdog_not_restarted:
  "\<exists>s. gw_reach hospital_amr False s \<and> gw_state s = RUNNING \<and> gw_deadline s = Some (Fin 1) \<and>
     \<not> sv_alive (gw_supervisor s)"
proof -
  define sup where "sup = \<lparr>sv_alive = True, sv_stop = True, sv_pc = WaitPoll\<rparr>"
  define s1 where "s1 = snd (estop_locked (stop_repeatedly (\<lambda>_. StopRaises)) demo_running)"
  define s2 where "s2 = snd (gw_operator_reset s1)"
  define s3 where "s3 = snd (gw_discover (Some (infer_capabilities demo_snapshot)) s2)"
  define s4 where "s4 = snd (gw_validate s3)"
  define s5 where "s5 = snd (gw_start_task demo_request (Fin 0) True s4)"
  have m: "rp_mode hospital_amr = ''simulation''"
    "required_capability (rp_adapter_kind hospital_amr) = Ret ''mobile_base.twist''"
    "deadline_after (Fin 0) hospital_amr = Some (Fin 1)"
    by (simp_all add: hospital_amr_def deadline_after_def)
  have e1: "gw_state s1 = ESTOPPED" "gw_profile s1 = hospital_amr" "gw_supervisor s1 = sup"
    by (simp_all add: s1_def estop_locked_def demo_running_sel do_transition_eq supervisor_stop_def sup_def)
  have e2: "gw_state s2 = NEW" "gw_profile s2 = hospital_amr" "gw_supervisor s2 = sup"
    by (simp_all add: s2_def gw_operator_reset_def e1 m do_transition_eq)
  have e3: "gw_state s3 = DISCOVERED" "gw_profile s3 = hospital_amr" "gw_supervisor s3 = sup"
    "gw_report s3 = Some (infer_capabilities demo_snapshot)"
    by (simp_all add: s3_def gw_discover_def e2 demo_report do_transition_eq)
  have e4: "gw_state s4 = ARMED" "gw_profile s4 = hospital_amr" "gw_supervisor s4 = sup"
    by (simp_all add: s4_def gw_validate_def e3 m demo_report demo_supported do_transition_eq
        del: required_capability.simps)
  have e5: "gw_state s5 = RUNNING" "gw_deadline s5 = Some (Fin 1)" "gw_supervisor s5 = sup"
    using start_task_ok [of s4 demo_request "Fin 0" True]
    by (simp_all add: s5_def e4 demo_limits m do_transition_eq supervisor_start_def sup_def)
  have "gw_reach hospital_amr False s1"
    unfolding s1_def by (rule gw_reach_step [OF demo_reach(3) gw_step.estop])
  then have "gw_reach hospital_amr False s2" unfolding s2_def by (rule gw_reach_step) (rule gw_step.reset)
  then have "gw_reach hospital_amr False s3" unfolding s3_def by (rule gw_reach_step) (rule gw_step.discover)
  then have "gw_reach hospital_amr False s4" unfolding s4_def by (rule gw_reach_step) (rule gw_step.validate)
  then have "gw_reach hospital_amr False s5" unfolding s5_def by (rule gw_reach_step) (rule gw_step.start)
  then have "gw_reach hospital_amr False (watch_poll s5)"
    by (rule gw_reach_step) (rule gw_step.poll, simp_all add: e5 sup_def)
  moreover have "watch_poll s5 = watch_exit s5" by (simp add: watch_poll_def e5 sup_def)
  ultimately show ?thesis by (intro exI [of _ "watch_exit s5"]) (simp add: e5)
qed

end
