(* ===== verification/AuditLog.thy ===== *)
theory AuditLog
  imports Safety Machines
begin

text \<open>
  The append-only audit log of \<^verbatim>\<open>agent_ros/runtime/audit.py\<close>: the record schema with its
  transition tables, the writer with its write-all loop and rollback, and the check of a log's
  history. A file is its bytes, as a string; the JSON library, the clocks and what the calls of
  the operating system do are arguments.
\<close>

section \<open>Vocabulary\<close>

definition ERROR_CODES :: "string list" where
  "ERROR_CODES = [''DISCOVERY_UNSAFE'', ''ESTOP_LATCHED'', ''HEARTBEAT_EXPIRED'', ''HEARTBEAT_UNCONFIGURED'',
     ''HARDWARE_CHALLENGE'', ''INTERNAL_ERROR'', ''MOTION_LIMIT'', ''OPERATOR_REQUIRED'',
     ''PROFILE_UNSUPPORTED'', ''UNSAFE_STATE'']"

definition STOP_RESULT_CODES :: "string list" where
  "STOP_RESULT_CODES = [''ESTOP_LATCHED'', ''SAFETY_COMMAND_REJECTED'', ''TRANSPORT_UNQUIESCED'']"

definition STOP_RESULT_KEYS :: "string list" where
  "STOP_RESULT_KEYS = [''latched'', ''activation_quiesced'', ''safety_command_accepted'', ''code'']"

definition MAX_RECORD_BYTES :: nat where "MAX_RECORD_BYTES = 4096"

datatype audit_operation = DISCOVER | VALIDATE | ARM | START_TASK | HEARTBEAT | CANCEL | ESTOP | OPERATOR_RESET

datatype audit_outcome = OK | REJECTED | FAULT

fun operation_value :: "audit_operation \<Rightarrow> string" where
  "operation_value DISCOVER = ''discover''"
| "operation_value VALIDATE = ''validate''"
| "operation_value ARM = ''arm''"
| "operation_value START_TASK = ''start_task''"
| "operation_value HEARTBEAT = ''heartbeat''"
| "operation_value CANCEL = ''cancel''"
| "operation_value ESTOP = ''estop''"
| "operation_value OPERATOR_RESET = ''operator_reset''"

fun outcome_value :: "audit_outcome \<Rightarrow> string" where
  "outcome_value OK = ''ok''"
| "outcome_value REJECTED = ''rejected''"
| "outcome_value FAULT = ''faulted''"

definition OPERATIONS :: "audit_operation list" where
  "OPERATIONS = [DISCOVER, VALIDATE, ARM, START_TASK, HEARTBEAT, CANCEL, ESTOP, OPERATOR_RESET]"

text \<open>\<^verbatim>\<open>AuditOperation(v)\<close> and \<^verbatim>\<open>AuditOutcome(v)\<close>.\<close>

fun operation_of :: "pyval \<Rightarrow> audit_operation result" where
  "operation_of (VStr s) =
     (case find (\<lambda>x. operation_value x = s) OPERATIONS of Some x \<Rightarrow> Ret x | None \<Rightarrow> Raise PyValueError)"
| "operation_of _ = Raise PyValueError"

fun outcome_of :: "pyval \<Rightarrow> audit_outcome result" where
  "outcome_of (VStr s) =
     (case find (\<lambda>x. outcome_value x = s) [OK, REJECTED, FAULT] of Some x \<Rightarrow> Ret x | None \<Rightarrow> Raise PyValueError)"
| "outcome_of _ = Raise PyValueError"

text \<open>
  An event. The identifiers are nothing when they are not a tuple; the error is only known to be
  present, or to be something that is no exception.
\<close>

datatype event_error = NoError | IsException | NotException

record audit_event =
  ae_operation :: audit_operation
  ae_before :: safety_state
  ae_after :: safety_state
  ae_outcome :: audit_outcome
  ae_data :: pyval
  ae_gids :: "pyval list option"
  ae_error :: event_error
  ae_error_code :: pyval
  ae_session_id :: pyval

fun success_transitions :: "audit_operation \<Rightarrow> (safety_state \<times> safety_state) list" where
  "success_transitions DISCOVER = [(NEW, DISCOVERED)]"
| "success_transitions VALIDATE = [(DISCOVERED, VALIDATED), (DISCOVERED, ARMED)]"
| "success_transitions ARM = [(VALIDATED, ARMED)]"
| "success_transitions START_TASK = [(ARMED, RUNNING)]"
| "success_transitions HEARTBEAT = [(RUNNING, RUNNING)]"
| "success_transitions CANCEL = [(RUNNING, STOPPED)]"
| "success_transitions ESTOP = map (\<lambda>s. (s, ESTOPPED)) (filter (\<lambda>s. s \<noteq> ESTOPPED) Enum.enum)"
| "success_transitions OPERATOR_RESET = [(ESTOPPED, NEW)]"

fun faulted_transitions :: "audit_operation \<Rightarrow> (safety_state \<times> safety_state) list" where
  "faulted_transitions HEARTBEAT = [(RUNNING, FAULTED)]"
| "faulted_transitions _ = []"

section \<open>Field checks\<close>

definition hex_char :: "char \<Rightarrow> bool" where
  "hex_char c \<longleftrightarrow> is_digit c \<or> in_range (CHR ''a'') (CHR ''f'') c"

definition gid_char :: "char \<Rightarrow> bool" where
  "gid_char c \<longleftrightarrow> is_upper c \<or> is_lower c \<or> is_digit c \<or> c = CHR '':'' \<or> c = CHR ''_'' \<or> c = CHR ''-''"

fun gid_ok :: "pyval \<Rightarrow> bool" where
  "gid_ok (VStr s) = rx gid_char gid_char 1 (Some 128) s"
| "gid_ok _ = False"

definition task_name_ok :: "string \<Rightarrow> bool" where
  "task_name_ok = rx (\<lambda>c. is_lower c \<or> is_digit c) (\<lambda>c. is_lower c \<or> is_digit c \<or> c = CHR ''-'') 1 (Some 64)"

fun validate_session_id :: "pyval \<Rightarrow> string result" where
  "validate_session_id (VStr s) = (if length s = 32 \<and> list_all hex_char s then Ret s else Raise AuditError)"
| "validate_session_id _ = Raise AuditError"

definition finite_clock :: "pyval \<Rightarrow> pyfloat result" where
  "finite_clock v = rbind (finite_float v AuditError) (\<lambda>r. Ret (Fin r))"

definition validate_transition :: "audit_event \<Rightarrow> unit result" where
  "validate_transition e =
     (case ae_outcome e of
        REJECTED \<Rightarrow> guard (ae_before e = ae_after e) AuditError
      | FAULT \<Rightarrow> guard ((ae_before e, ae_after e) \<in> set (faulted_transitions (ae_operation e))) AuditError
      | OK \<Rightarrow> guard ((ae_before e, ae_after e) \<in> set (success_transitions (ae_operation e))) AuditError)"

definition validate_error :: "event_error \<Rightarrow> pyval \<Rightarrow> pyval result" where
  "validate_error err code =
     (if err = NotException then Raise AuditError
      else if code = VNone then Ret (if err = IsException then VStr ''INTERNAL_ERROR'' else VNone)
      else rbind (in_strs code ERROR_CODES) (\<lambda>b. if b then Ret code else Raise AuditError))"

fun validate_endpoint_gids :: "pyval list option \<Rightarrow> pyval list result" where
  "validate_endpoint_gids (Some vs) = (if list_all gid_ok vs then Ret vs else Raise AuditError)"
| "validate_endpoint_gids None = Raise AuditError"

definition stop_data :: "pydict \<Rightarrow> pyval result" where
  "stop_data d =
     (if \<not> keys_are d STOP_RESULT_KEYS then Raise AuditError
      else if \<not> list_all (\<lambda>k. is_bool (vget d k)) [''latched'', ''activation_quiesced'', ''safety_command_accepted'']
      then Raise AuditError
      else if \<not> is_str (vget d ''code'') \<or> str_val (vget d ''code'') \<notin> set STOP_RESULT_CODES then Raise AuditError
      else Ret (VDict [(VStr ''latched'', vget d ''latched''), (VStr ''activation_quiesced'', vget d ''activation_quiesced''),
             (VStr ''safety_command_accepted'', vget d ''safety_command_accepted''), (VStr ''code'', vget d ''code'')]))"

definition MOTION_KEYS :: "string list" where
  "MOTION_KEYS = [''task'', ''linear_velocity'', ''angular_velocity'', ''linear_acceleration'', ''angular_acceleration'']"

definition motion_item :: "pyval \<times> pyval \<Rightarrow> (pyval \<times> pyval) result" where
  "motion_item kv =
     (let (key, item) = kv in
      if key = VStr ''task'' then
        (if is_str item \<and> task_name_ok (str_val item) then Ret (key, item) else Raise AuditError)
      else rbind (finite_float item AuditError) (\<lambda>r. Ret (key, VFloat (Fin r))))"

definition stop_required :: "audit_event \<Rightarrow> bool" where
  "stop_required e \<longleftrightarrow> ae_operation e = CANCEL \<or> ae_operation e = ESTOP \<or>
     ae_operation e = HEARTBEAT \<and> ae_outcome e = FAULT"

fun validate_operation_data :: "audit_event \<Rightarrow> pyval \<Rightarrow> pyval result" where
  "validate_operation_data e (VDict d) =
     (if stop_required e then stop_data d
      else if ae_operation e \<noteq> START_TASK then (if d \<noteq> [] then Raise AuditError else Ret (VDict []))
      else if \<not> keys_within d MOTION_KEYS then Raise AuditError
      else rbind (rmap motion_item d) (\<lambda>items. Ret (VDict items)))"
| "validate_operation_data e _ = Raise AuditError"

section \<open>Records\<close>

definition state_doc :: "safety_state \<Rightarrow> safety_state \<Rightarrow> pyval" where
  "state_doc b a = VDict [(VStr ''from'', VStr (state_value b)), (VStr ''to'', VStr (state_value a))]"

definition audit_record :: "pyval \<Rightarrow> pyval \<Rightarrow> string \<Rightarrow> audit_event \<Rightarrow> pyval result" where
  "audit_record wclock mclock session e =
     rbind (guard (ae_session_id e = VNone) AuditError) (\<lambda>_.
     rbind (validate_transition e) (\<lambda>_.
     rbind (validate_operation_data e (ae_data e)) (\<lambda>operation_data.
     rbind (validate_endpoint_gids (ae_gids e)) (\<lambda>gids.
     rbind (validate_error (ae_error e) (ae_error_code e)) (\<lambda>error_code.
     rbind (finite_clock wclock) (\<lambda>wall_time.
     rbind (finite_clock mclock) (\<lambda>monotonic_time.
     rbind (validate_session_id (VStr session)) (\<lambda>sid.
       Ret (VDict ([(VStr ''wall_time'', VFloat wall_time), (VStr ''monotonic_time'', VFloat monotonic_time),
          (VStr ''operation'', VStr (operation_value (ae_operation e))),
          (VStr ''state'', state_doc (ae_before e) (ae_after e)),
          (VStr ''outcome'', VStr (outcome_value (ae_outcome e))),
          (VStr ''operation_data'', operation_data), (VStr ''endpoint_gids'', VList gids),
          (VStr ''session_id'', VStr sid)] @
          (if error_code = VNone then [] else [(VStr ''error_code'', error_code)])))))))))))"

definition encode_record :: "(pyval \<Rightarrow> string) \<Rightarrow> pyval \<Rightarrow> pyval \<Rightarrow> string \<Rightarrow> audit_event \<Rightarrow> string result" where
  "encode_record dumps wclock mclock session e =
     rbind (audit_record wclock mclock session e) (\<lambda>record.
       let encoded = dumps record @ [CHR 0x0A] in
       if MAX_RECORD_BYTES < length encoded then Raise AuditError else Ret encoded)"

definition RECORD_KEYS :: "string list" where
  "RECORD_KEYS = [''wall_time'', ''monotonic_time'', ''operation'', ''state'', ''outcome'', ''operation_data'',
     ''endpoint_gids'', ''session_id'']"

fun state_pair :: "pyval \<Rightarrow> (pyval \<times> pyval) result" where
  "state_pair (VDict d) =
     (if keys_are d [''from'', ''to''] then Ret (vget d ''from'', vget d ''to'') else Raise AuditError)"
| "state_pair _ = Raise AuditError"

fun list_items :: "pyval \<Rightarrow> pyval list result" where
  "list_items (VList vs) = Ret vs"
| "list_items _ = Raise AuditError"

text \<open>\<^verbatim>\<open>except (ValueError, TypeError, KeyError)\<close>; an audit error is a value error.\<close>

definition as_audit_error :: "'a result \<Rightarrow> 'a result" where
  "as_audit_error r =
     (case r of Inl e \<Rightarrow> if e \<in> {PyValueError, PyTypeError, PyKeyError, AuditError} then Raise AuditError else Raise e
      | Inr x \<Rightarrow> Ret x)"

fun event_of_record :: "pyval \<Rightarrow> audit_event result" where
  "event_of_record (VDict d) =
     (if \<not> keys_within d (''error_code'' # RECORD_KEYS) \<or> \<not> list_all (\<lambda>k. VStr k \<in> set (dkeys d)) RECORD_KEYS
      then Raise AuditError
      else
        rbind (state_pair (vget d ''state'')) (\<lambda>(from, to).
        as_audit_error (
          rbind (list_items (vget d ''endpoint_gids'')) (\<lambda>gids.
          rbind (operation_of (vget d ''operation'')) (\<lambda>operation.
          rbind (state_of from) (\<lambda>before.
          rbind (state_of to) (\<lambda>after.
          rbind (outcome_of (vget d ''outcome'')) (\<lambda>outcome.
            Ret \<lparr>ae_operation = operation, ae_before = before, ae_after = after, ae_outcome = outcome,
                 ae_data = vget d ''operation_data'', ae_gids = Some gids, ae_error = NoError,
                 ae_error_code = vget d ''error_code'', ae_session_id = vget d ''session_id''\<rparr>))))))))"
| "event_of_record _ = Raise AuditError"

definition validate_record :: "pyval \<Rightarrow> unit result" where
  "validate_record v =
     rbind (event_of_record v) (\<lambda>e.
     rbind (finite_clock (case v of VDict d \<Rightarrow> vget d ''wall_time'' | _ \<Rightarrow> VNone)) (\<lambda>_.
     rbind (finite_clock (case v of VDict d \<Rightarrow> vget d ''monotonic_time'' | _ \<Rightarrow> VNone)) (\<lambda>_.
     rbind (validate_transition e) (\<lambda>_.
     rbind (validate_operation_data e (ae_data e)) (\<lambda>_.
     rbind (validate_endpoint_gids (ae_gids e)) (\<lambda>_.
     rbind (validate_error NoError (ae_error_code e)) (\<lambda>_.
     rbind (validate_session_id (ae_session_id e)) (\<lambda>_. Ret ()))))))))"

section \<open>The writer\<close>

text \<open>
  A call of \<^verbatim>\<open>os.write\<close> is interrupted, fails, or returns a value; a count of bytes it
  returns is appended to the file. The calls of one append are numbered.
\<close>

datatype write_call = WInterrupted | WFails | WReturns pyval

record append_os =
  ao_dir :: "unit result"
  ao_lock :: "unit result"
  ao_open :: "unit result"
  ao_fchmod :: "unit result"
  ao_write :: "nat \<Rightarrow> write_call"
  ao_fsync :: "unit result"
  ao_truncate :: "unit result"
  ao_rollback_fsync :: "unit result"
  ao_close :: "unit result"

record audit_writer =
  aw_compromised :: bool
  aw_session :: string
  aw_file :: string

text \<open>The loop of \<^verbatim>\<open>_write_all\<close>: the rest of the data, the file so far and the next call.\<close>

partial_function (option) write_all :: "(nat \<Rightarrow> write_call) \<Rightarrow> nat \<Rightarrow> string \<Rightarrow> string \<Rightarrow> (unit result \<times> string) option" where
  "write_all calls i data file =
     (if data = [] then Some (Ret (), file)
      else case calls i of
        WInterrupted \<Rightarrow> write_all calls (Suc i) data file
      | WFails \<Rightarrow> Some (Raise AuditError, file)
      | WReturns v \<Rightarrow>
          (case v of
             VInt n \<Rightarrow>
               if n \<le> 0 \<or> int (length data) < n then Some (Raise AuditError, file)
               else write_all calls (Suc i) (drop (nat n) data) (file @ take (nat n) data)
           | _ \<Rightarrow> Some (Raise AuditError, file)))"

definition is_os_error :: "unit result \<Rightarrow> bool" where
  "is_os_error r \<longleftrightarrow> r = Raise PyOSError"

text \<open>
  \<^verbatim>\<open>_rollback\<close>: the truncation, then its synchronization; a failure of either compromises
  the writer for good. Then the append is an audit error.
\<close>

definition roll_back :: "append_os \<Rightarrow> string \<Rightarrow> string \<Rightarrow> audit_writer \<Rightarrow> unit result \<times> audit_writer" where
  "roll_back os old file w =
     (if is_os_error (ao_truncate os)
      then (Raise AuditIntegrityError, w\<lparr>aw_compromised := True, aw_file := file\<rparr>)
      else if is_os_error (ao_rollback_fsync os)
      then (Raise AuditIntegrityError, w\<lparr>aw_compromised := True, aw_file := old\<rparr>)
      else (Raise AuditError, w\<lparr>aw_file := old\<rparr>))"

text \<open>What runs with the data file open, from the end of the file on.\<close>

definition append_data :: "append_os \<Rightarrow> string \<Rightarrow> audit_writer \<Rightarrow> (unit result \<times> audit_writer) option" where
  "append_data os encoded w =
     (if is_os_error (ao_fchmod os) then Some (roll_back os (aw_file w) (aw_file w) w)
      else case write_all (ao_write os) 0 encoded (aw_file w) of
        None \<Rightarrow> None
      | Some (Inl _, file) \<Rightarrow> Some (roll_back os (aw_file w) file w)
      | Some (Inr _, file) \<Rightarrow>
          if is_os_error (ao_fsync os) then Some (roll_back os (aw_file w) file w)
          else Some (Ret (), w\<lparr>aw_file := file\<rparr>))"

definition audit_append ::
  "(pyval \<Rightarrow> string) \<Rightarrow> append_os \<Rightarrow> pyval \<Rightarrow> pyval \<Rightarrow> audit_event \<Rightarrow> audit_writer \<Rightarrow>
   (unit result \<times> audit_writer) option" where
  "audit_append dumps os wclock mclock e w =
     (if aw_compromised w then Some (Raise AuditIntegrityError, w)
      else case encode_record dumps wclock mclock (aw_session w) e of
        Inl err \<Rightarrow> Some (Raise err, w)
      | Inr encoded \<Rightarrow>
          if is_os_error (ao_dir os) then Some (Raise PyOSError, w)
          else if is_os_error (ao_lock os) \<or> is_os_error (ao_open os) then Some (Raise AuditError, w)
          else case append_data os encoded w of
            None \<Rightarrow> None
          | Some (r, w1) \<Rightarrow> Some (if is_os_error (ao_close os) then Raise AuditError else r, w1))"

section \<open>The history of a log\<close>

text \<open>\<^verbatim>\<open>bytes.splitlines()\<close> breaks at line feeds and carriage returns only.\<close>

fun byte_lines :: "string \<Rightarrow> string \<Rightarrow> string list" where
  "byte_lines acc [] = (if acc = [] then [] else [acc])"
| "byte_lines acc (c # d # cs) =
     (if c = CHR 0x0D \<and> d = CHR 0x0A then acc # byte_lines [] cs
      else if c = CHR 0x0A \<or> c = CHR 0x0D then acc # byte_lines [] (d # cs)
      else byte_lines (acc @ [c]) (d # cs))"
| "byte_lines acc [c] = (if c = CHR 0x0A \<or> c = CHR 0x0D then [acc] else [acc @ [c]])"

record history_state =
  hs_previous :: "safety_state option"
  hs_session :: "string option"
  hs_completed :: "string list"

definition history_init :: history_state where
  "history_init = \<lparr>hs_previous = None, hs_session = None, hs_completed = []\<rparr>"

text \<open>One record of the loop, from its session and its two states.\<close>

definition history_step :: "string \<Rightarrow> safety_state \<Rightarrow> safety_state \<Rightarrow> history_state \<Rightarrow> history_state result" where
  "history_step session before after h =
     rbind
       (if hs_session h = Some session then Ret h
        else if session \<in> set (hs_completed h) then Raise AuditError
        else case hs_session h of
          None \<Rightarrow> Ret (h\<lparr>hs_session := Some session, hs_previous := None\<rparr>)
        | Some current \<Rightarrow>
            if hs_previous h \<notin> {Some STOPPED, Some ESTOPPED} then Raise AuditError
            else Ret (h\<lparr>hs_completed := current # hs_completed h, hs_session := Some session, hs_previous := None\<rparr>))
       (\<lambda>h1.
        if hs_previous h1 = None \<and> before \<noteq> NEW then Raise AuditError
        else if hs_previous h1 \<noteq> None \<and> hs_previous h1 \<noteq> Some before then Raise AuditError
        else Ret (h1\<lparr>hs_previous := Some after\<rparr>))"

text \<open>
  A line: its length, the decoder, the schema, the step. A decoder error is a value error; a line
  the schema accepts has the keys read here.
\<close>

definition history_line :: "(string \<Rightarrow> pyval result) \<Rightarrow> string \<Rightarrow> history_state \<Rightarrow> history_state result" where
  "history_line loads line h =
     (if line = [] \<or> MAX_RECORD_BYTES < length line + 1 then Raise AuditError
      else
        rbind (case loads line of Inl e \<Rightarrow> if e = PyValueError then Raise AuditError else Raise e | Inr v \<Rightarrow> Ret v) (\<lambda>record.
        rbind (validate_record record) (\<lambda>_.
        rbind (event_of_record record) (\<lambda>e.
          history_step (str_val (ae_session_id e)) (ae_before e) (ae_after e) h))))"

fun history_lines :: "(string \<Rightarrow> pyval result) \<Rightarrow> string list \<Rightarrow> history_state \<Rightarrow> history_state result" where
  "history_lines loads [] h = Ret h"
| "history_lines loads (line # lines) h = rbind (history_line loads line h) (history_lines loads lines)"

definition validate_audit_history :: "(string \<Rightarrow> pyval result) \<Rightarrow> string \<Rightarrow> bool \<Rightarrow> unit result" where
  "validate_audit_history loads raw require_terminal =
     (if raw \<noteq> [] \<and> \<not> ends_with [CHR 0x0A] raw then Raise AuditError
      else rbind (history_lines loads (byte_lines [] raw) history_init) (\<lambda>h.
        if require_terminal \<and> hs_previous h \<notin> {None, Some STOPPED, Some ESTOPPED} then Raise AuditError
        else Ret ()))"

section \<open>Lemmas on records\<close>

lemma operation_of_value [simp]: "operation_of (VStr (operation_value x)) = Ret x"
  by (cases x) (simp_all add: OPERATIONS_def)

lemma outcome_of_value [simp]: "outcome_of (VStr (outcome_value x)) = Ret x"
  by (cases x) simp_all

lemma finite_clock_VFloat [simp]: "finite_clock (VFloat (Fin r)) = Ret (Fin r)"
  by (simp add: finite_clock_def finite_float_def)

lemma finite_clock_Fin: "finite_clock v = Ret x \<Longrightarrow> \<exists>r. x = Fin r"
  by (auto simp: finite_clock_def)

definition stop_pairs :: "bool \<Rightarrow> bool \<Rightarrow> bool \<Rightarrow> string \<Rightarrow> pydict" where
  "stop_pairs l q a c = [(VStr ''latched'', VBool l), (VStr ''activation_quiesced'', VBool q),
     (VStr ''safety_command_accepted'', VBool a), (VStr ''code'', VStr c)]"

lemma stop_data_pairs:
  "stop_data (stop_pairs l q a c) = (if c \<in> set STOP_RESULT_CODES then Ret (VDict (stop_pairs l q a c)) else Raise AuditError)"
proof -
  have "keys_are (stop_pairs l q a c) STOP_RESULT_KEYS"
    by (simp add: keys_are_def dkeys_def stop_pairs_def STOP_RESULT_KEYS_def)
  moreover have "vget (stop_pairs l q a c) ''latched'' = VBool l"
    "vget (stop_pairs l q a c) ''activation_quiesced'' = VBool q"
    "vget (stop_pairs l q a c) ''safety_command_accepted'' = VBool a"
    "vget (stop_pairs l q a c) ''code'' = VStr c"
    by (simp_all add: vget_def stop_pairs_def)
  ultimately show ?thesis by (simp add: stop_data_def) (simp add: stop_pairs_def)
qed

lemma is_bool_iff: "is_bool v \<longleftrightarrow> (\<exists>b. v = VBool b)" by (cases v) auto

lemma is_str_iff: "is_str v \<longleftrightarrow> (\<exists>s. v = VStr s)" by (cases v) auto

lemma stop_data_Ret:
  assumes "stop_data d = Ret v"
  obtains l q a c where "v = VDict (stop_pairs l q a c)" "c \<in> set STOP_RESULT_CODES"
proof -
  from assms have "is_bool (vget d ''latched'')" "is_bool (vget d ''activation_quiesced'')"
    "is_bool (vget d ''safety_command_accepted'')" "is_str (vget d ''code'')"
    "str_val (vget d ''code'') \<in> set STOP_RESULT_CODES"
    "v = VDict [(VStr ''latched'', vget d ''latched''), (VStr ''activation_quiesced'', vget d ''activation_quiesced''),
       (VStr ''safety_command_accepted'', vget d ''safety_command_accepted''), (VStr ''code'', vget d ''code'')]"
    by (simp_all add: stop_data_def split: if_splits)
  with that show thesis unfolding is_bool_iff is_str_iff by (auto simp: stop_pairs_def)
qed

lemma motion_item_idem: "motion_item kv = Ret kv' \<Longrightarrow> motion_item kv' = Ret kv' \<and> fst kv' = fst kv"
  by (cases kv) (auto simp: motion_item_def finite_float_def Let_def split: if_splits)

lemma motion_items_idem: "rmap motion_item d = Ret items \<Longrightarrow> rmap motion_item items = Ret items \<and> dkeys items = dkeys d"
proof (induction d arbitrary: items)
  case (Cons kv d)
  then obtain kv' items' where "items = kv' # items'" "motion_item kv = Ret kv'" "rmap motion_item d = Ret items'"
    by auto
  with Cons.IH [of items'] motion_item_idem [of kv kv'] show ?case by (simp add: dkeys_def)
qed simp

lemma operation_data_idem:
  assumes "validate_operation_data e v = Ret v'" "ae_operation e' = ae_operation e" "ae_outcome e' = ae_outcome e"
  shows "validate_operation_data e' v' = Ret v' \<and> (\<exists>d. v' = VDict d)"
proof -
  obtain d where d: "v = VDict d" using assms(1) by (cases v) auto
  have s: "stop_required e' = stop_required e" using assms(2,3) by (simp add: stop_required_def)
  show ?thesis
  proof (cases "stop_required e")
    case True
    with assms(1) d have "stop_data d = Ret v'" by simp
    then obtain l q a c where v: "v' = VDict (stop_pairs l q a c)" "c \<in> set STOP_RESULT_CODES"
      by (rule stop_data_Ret)
    with True show ?thesis by (simp add: s stop_data_pairs)
  next
    case False
    show ?thesis
    proof (cases "ae_operation e = START_TASK")
      case True
      with False assms(1) d obtain items where i: "keys_within d MOTION_KEYS" "rmap motion_item d = Ret items"
        "v' = VDict items" by (auto split: if_splits)
      with motion_items_idem [OF i(2)] True False s assms(2) show ?thesis by (simp add: keys_within_def)
    next
      case op: False
      with False assms(1) d s assms(2) show ?thesis by (auto split: if_splits)
    qed
  qed
qed

definition record_fields :: "pyfloat \<Rightarrow> pyfloat \<Rightarrow> audit_event \<Rightarrow> pyval \<Rightarrow> pyval list \<Rightarrow> string \<Rightarrow> pyval \<Rightarrow> pydict" where
  "record_fields wt mt e data gids sid code =
     [(VStr ''wall_time'', VFloat wt), (VStr ''monotonic_time'', VFloat mt),
      (VStr ''operation'', VStr (operation_value (ae_operation e))),
      (VStr ''state'', state_doc (ae_before e) (ae_after e)),
      (VStr ''outcome'', VStr (outcome_value (ae_outcome e))),
      (VStr ''operation_data'', data), (VStr ''endpoint_gids'', VList gids), (VStr ''session_id'', VStr sid)] @
     (if code = VNone then [] else [(VStr ''error_code'', code)])"

lemma audit_record_Ret:
  assumes "audit_record wclock mclock session e = Ret v"
  obtains wt mt data gids code where
    "v = VDict (record_fields (Fin wt) (Fin mt) e data gids session code)"
    "validate_transition e = Ret ()" "validate_operation_data e (ae_data e) = Ret data"
    "list_all gid_ok gids" "validate_error (ae_error e) (ae_error_code e) = Ret code"
    "validate_session_id (VStr session) = Ret session"
proof -
  from assms obtain data gids code wt mt where
    "v = VDict (record_fields wt mt e data gids session code)"
    "validate_transition e = Ret ()" "validate_operation_data e (ae_data e) = Ret data"
    "validate_endpoint_gids (ae_gids e) = Ret gids" "validate_error (ae_error e) (ae_error_code e) = Ret code"
    "validate_session_id (VStr session) = Ret session" "finite_clock wclock = Ret wt" "finite_clock mclock = Ret mt"
    by (auto simp: audit_record_def record_fields_def split: if_splits)
  moreover then obtain a b where "wt = Fin a" "mt = Fin b" using finite_clock_Fin by blast
  moreover have "list_all gid_ok gids"
    using calculation by (cases "ae_gids e") (auto split: if_splits)
  ultimately show thesis using that by blast
qed

lemma record_fields_get:
  "vget (record_fields wt mt e data gids sid code) ''wall_time'' = VFloat wt"
  "vget (record_fields wt mt e data gids sid code) ''monotonic_time'' = VFloat mt"
  "vget (record_fields wt mt e data gids sid code) ''operation'' = VStr (operation_value (ae_operation e))"
  "vget (record_fields wt mt e data gids sid code) ''state'' = state_doc (ae_before e) (ae_after e)"
  "vget (record_fields wt mt e data gids sid code) ''outcome'' = VStr (outcome_value (ae_outcome e))"
  "vget (record_fields wt mt e data gids sid code) ''operation_data'' = data"
  "vget (record_fields wt mt e data gids sid code) ''endpoint_gids'' = VList gids"
  "vget (record_fields wt mt e data gids sid code) ''session_id'' = VStr sid"
  "vget (record_fields wt mt e data gids sid code) ''error_code'' = code"
  by (simp_all add: record_fields_def vget_def)

lemma record_fields_keys:
  "keys_within (record_fields wt mt e data gids sid code) (''error_code'' # RECORD_KEYS)"
  "list_all (\<lambda>k. VStr k \<in> set (dkeys (record_fields wt mt e data gids sid code))) RECORD_KEYS"
  by (simp_all add: record_fields_def keys_within_def dkeys_def RECORD_KEYS_def)

lemma state_pair_doc [simp]: "state_pair (state_doc b a) = Ret (VStr (state_value b), VStr (state_value a))"
  by (simp add: state_doc_def keys_are_def dkeys_def vget_def)

definition read_event :: "audit_event \<Rightarrow> pyval \<Rightarrow> pyval list \<Rightarrow> string \<Rightarrow> pyval \<Rightarrow> audit_event" where
  "read_event e data gids sid code =
     \<lparr>ae_operation = ae_operation e, ae_before = ae_before e, ae_after = ae_after e, ae_outcome = ae_outcome e,
      ae_data = data, ae_gids = Some gids, ae_error = NoError, ae_error_code = code, ae_session_id = VStr sid\<rparr>"

lemma read_event_sel [simp]:
  "ae_operation (read_event e data gids sid code) = ae_operation e"
  "ae_before (read_event e data gids sid code) = ae_before e"
  "ae_after (read_event e data gids sid code) = ae_after e"
  "ae_outcome (read_event e data gids sid code) = ae_outcome e"
  "ae_data (read_event e data gids sid code) = data"
  "ae_gids (read_event e data gids sid code) = Some gids"
  "ae_error_code (read_event e data gids sid code) = code"
  "ae_session_id (read_event e data gids sid code) = VStr sid"
  by (simp_all add: read_event_def)

lemma event_of_fields:
  "event_of_record (VDict (record_fields wt mt e data gids sid code)) = Ret (read_event e data gids sid code)"
  by (simp add: record_fields_get record_fields_keys as_audit_error_def read_event_def
      del: state_of.simps operation_of.simps outcome_of.simps)

lemma validate_error_idem: "validate_error err c = Ret code \<Longrightarrow> validate_error NoError code = Ret code"
  by (auto simp: validate_error_def ERROR_CODES_def split: if_splits)

lemma audit_record_reads:
  assumes "audit_record wclock mclock session e = Ret v"
  shows "validate_record v = Ret () \<and>
    (\<exists>e'. event_of_record v = Ret e' \<and> ae_operation e' = ae_operation e \<and> ae_before e' = ae_before e \<and>
       ae_after e' = ae_after e \<and> ae_outcome e' = ae_outcome e \<and> ae_session_id e' = VStr session)"
proof -
  obtain wt mt data gids code where v: "v = VDict (record_fields (Fin wt) (Fin mt) e data gids session code)"
    and t: "validate_transition e = Ret ()" and d: "validate_operation_data e (ae_data e) = Ret data"
    and g: "list_all gid_ok gids" and c: "validate_error (ae_error e) (ae_error_code e) = Ret code"
    and sid: "validate_session_id (VStr session) = Ret session"
    using assms by (rule audit_record_Ret)
  define e' where "e' = read_event e data gids session code"
  have "validate_transition e' = Ret ()" using t by (cases "ae_outcome e") (simp_all add: validate_transition_def e'_def)
  moreover have "validate_operation_data e' data = Ret data"
    using operation_data_idem [OF d, of e'] by (simp add: e'_def)
  moreover have ev: "event_of_record v = Ret e'" by (simp only: v event_of_fields e'_def)
  ultimately show ?thesis
    using g sid validate_error_idem [OF c]
    by (simp add: validate_record_def ev del: event_of_record.simps validate_operation_data.simps
        validate_session_id.simps)
      (simp add: v record_fields_get e'_def del: validate_operation_data.simps validate_session_id.simps)
qed

lemma audit_record_valid: "audit_record wclock mclock session e = Ret v \<Longrightarrow> validate_record v = Ret ()"
  using audit_record_reads by blast

text \<open>What the writer writes, the reader accepts: every record the writer builds, from whatever
  event, clocks and session, is valid under the schema that is applied to a log at start-up, and
  reads back with the operation, states, outcome and session it was written with.\<close>
theorem audit_record_revalidates:
  assumes "audit_record wclock mclock session e = Ret v"
  shows "validate_record v = Ret () \<and>
    (\<exists>e'. event_of_record v = Ret e' \<and> ae_operation e' = ae_operation e \<and> ae_before e' = ae_before e \<and>
       ae_after e' = ae_after e \<and> ae_outcome e' = ae_outcome e \<and> ae_session_id e' = VStr session)"
  by (rule audit_record_reads [OF assms])

definition demo_event :: audit_event where
  "demo_event = \<lparr>ae_operation = START_TASK, ae_before = ARMED, ae_after = RUNNING, ae_outcome = OK,
     ae_data = VDict [(VStr ''task'', VStr ''delivery'')], ae_gids = Some [], ae_error = NoError,
     ae_error_code = VNone, ae_session_id = VNone\<rparr>"

definition demo_session :: string where "demo_session = replicate 32 (CHR ''a'')"

lemma demo_session_ok: "validate_session_id (VStr demo_session) = Ret demo_session"
  by (simp add: demo_session_def hex_char_def in_range_def list_all_length)

definition demo_record :: pyval where
  "demo_record = VDict (record_fields (Fin 1) (Fin 2) demo_event (VDict [(VStr ''task'', VStr ''delivery'')]) [] demo_session VNone)"

lemma demo_record_eq: "audit_record (VFloat (Fin 1)) (VFloat (Fin 2)) demo_session demo_event = Ret demo_record"
proof -
  have "task_name_ok ''delivery''"
    by (simp add: task_name_ok_def is_lower_def is_digit_def in_range_def)
  then show ?thesis using demo_session_ok
    by (simp add: audit_record_def demo_event_def validate_transition_def stop_required_def keys_within_def
        dkeys_def MOTION_KEYS_def motion_item_def validate_error_def demo_record_def record_fields_def
        del: validate_session_id.simps)
qed

lemma audit_record_revalidates_witness: "validate_record demo_record = Ret ()"
  using audit_record_revalidates [OF demo_record_eq] by simp

section \<open>The write loop and the rollback\<close>

lemmas write_all_induct = write_all.raw_induct [rotated, consumes 1, case_names step]

lemma write_all_Some:
  "write_all calls i data bytes = Some y \<Longrightarrow> \<exists>k \<le> length data. snd y = bytes @ take k data \<and>
    (fst y = Ret () \<longrightarrow> k = length data) \<and> errs {AuditError} (fst y)"
proof (induction calls i data bytes y rule: write_all_induct)
  case (step wr calls i data bytes y)
  show ?case
  proof (cases "data = []")
    case True
    with step(2) show ?thesis by (intro exI [of _ 0]) auto
  next
    case ne: False
    show ?thesis
    proof (cases "calls i")
      case WInterrupted
      with ne step(2) step(1) [of calls "Suc i" data bytes y] show ?thesis by simp
    next
      case WFails
      with ne step(2) show ?thesis by (intro exI [of _ 0]) auto
    next
      case (WReturns v)
      show ?thesis
      proof (cases "\<exists>n. v = VInt n \<and> 0 < n \<and> n \<le> int (length data)")
        case True
        then obtain n where n: "v = VInt n" "0 < n" "n \<le> int (length data)" by blast
        with ne WReturns step(2) have "wr calls (Suc i) (drop (nat n) data) (bytes @ take (nat n) data) = Some y"
          by simp
        from step(1) [OF this] obtain k where k: "k \<le> length (drop (nat n) data)"
          "snd y = (bytes @ take (nat n) data) @ take k (drop (nat n) data)"
          "fst y = Ret () \<longrightarrow> k = length (drop (nat n) data)" "errs {AuditError} (fst y)" by blast
        have "take (nat n) data @ take k (drop (nat n) data) = take (nat n + k) data" by (simp add: take_add)
        with k n show ?thesis by (intro exI [of _ "nat n + k"]) auto
      next
        case False
        with ne WReturns step(2) show ?thesis
          by (intro exI [of _ 0]) (auto split: pyval.splits if_splits)
      qed
    qed
  qed
qed

lemma write_all_returns:
  assumes "\<forall>j \<ge> m. calls j \<noteq> WInterrupted"
  shows "\<exists>y. write_all calls i data bytes = Some y"
proof (induction "m - i + length data" arbitrary: i data bytes rule: less_induct)
  case less
  show ?case
  proof (cases "data = []")
    case True
    then show ?thesis by (simp add: write_all.simps)
  next
    case ne: False
    show ?thesis
    proof (cases "calls i")
      case WInterrupted
      with assms have "i < m" by (meson not_le)
      then have "m - Suc i + length data < m - i + length data" by simp
      with less obtain y where "write_all calls (Suc i) data bytes = Some y" by blast
      with ne WInterrupted show ?thesis by (simp add: write_all.simps [of calls i])
    next
      case WFails
      with ne show ?thesis by (simp add: write_all.simps [of calls i])
    next
      case (WReturns v)
      show ?thesis
      proof (cases "\<exists>n. v = VInt n \<and> 0 < n \<and> n \<le> int (length data)")
        case True
        then obtain n where n: "v = VInt n" "0 < n" "n \<le> int (length data)" by blast
        have "m - Suc i + length (drop (nat n) data) < m - i + length data" using n ne by auto
        with less obtain y where "write_all calls (Suc i) (drop (nat n) data) (bytes @ take (nat n) data) = Some y"
          by blast
        with ne WReturns n show ?thesis by (simp add: write_all.simps [of calls i])
      next
        case False
        with ne WReturns show ?thesis
          by (cases v) (auto simp: write_all.simps [of calls i])
      qed
    qed
  qed
qed

lemma roll_back_cases:
  "roll_back os old bytes w = (r, w1) \<Longrightarrow> r \<noteq> Ret () \<and> errs {AuditError, AuditIntegrityError} r \<and>
    aw_session w1 = aw_session w \<and> (aw_file w1 = old \<or> aw_file w1 = bytes \<and> aw_compromised w1) \<and>
    (aw_compromised w \<longrightarrow> aw_compromised w1)"
  by (auto simp: roll_back_def split: if_splits)

lemma append_data_Some:
  assumes "append_data os enc w = Some (r, w1)"
  shows "(\<exists>k \<le> length enc. aw_file w1 = aw_file w @ take k enc) \<and>
    (r = Ret () \<longrightarrow> aw_file w1 = aw_file w @ enc \<and> aw_compromised w1 = aw_compromised w) \<and>
    (r \<noteq> Ret () \<longrightarrow> aw_compromised w1 \<or> aw_file w1 = aw_file w)"
proof (cases "is_os_error (ao_fchmod os)")
  case True
  with assms show ?thesis
    using roll_back_cases [of os "aw_file w" "aw_file w" w r w1]
    by (auto simp: append_data_def intro!: exI [of _ 0])
next
  case False
  with assms obtain q bytes where q: "write_all (ao_write os) 0 enc (aw_file w) = Some (q, bytes)"
    by (auto simp: append_data_def split: option.splits)
  from write_all_Some [OF this] obtain k where k: "k \<le> length enc" "bytes = aw_file w @ take k enc"
    "q = Ret () \<longrightarrow> k = length enc" by auto
  show ?thesis
  proof (cases "q = Ret () \<and> \<not> is_os_error (ao_fsync os)")
    case True
    with assms False q k have e: "r = Ret ()" "w1 = w\<lparr>aw_file := bytes\<rparr>" by (simp_all add: append_data_def)
    from True k have "bytes = aw_file w @ enc" by simp
    with e show ?thesis by (auto intro: exI [of _ "length enc"])
  next
    case bad: False
    with assms False q have "roll_back os (aw_file w) bytes w = (r, w1)"
      by (cases q) (auto simp: append_data_def split: if_splits)
    from roll_back_cases [OF this] k show ?thesis
      by (auto intro: exI [of _ 0] exI [of _ k])
  qed
qed

text \<open>C31: An append is all or nothing: when it returns normally the log is the old log followed by
  exactly one encoded valid record of at most 4096 bytes; when it raises, the log is unchanged
  unless the writer is compromised (or only the closing of the descriptors failed); and in
  every case what was in the log before is still there, in front. A compromised writer
  never touches the log again.\<close>
theorem append_all_or_nothing:
  assumes "audit_append dumps os wclock mclock e w = Some (r, w1)"
  shows "(aw_compromised w \<longrightarrow> r = Raise AuditIntegrityError \<and> w1 = w) \<and>
    (\<exists>rest. aw_file w1 = aw_file w @ rest) \<and>
    (r = Ret () \<longrightarrow> \<not> aw_compromised w1 \<and> (\<exists>doc. audit_record wclock mclock (aw_session w) e = Ret doc \<and>
       length (dumps doc) < 4096 \<and> aw_file w1 = aw_file w @ dumps doc @ [CHR 0x0A])) \<and>
    (r \<noteq> Ret () \<longrightarrow> aw_compromised w1 \<or> aw_file w1 = aw_file w \<or> is_os_error (ao_close os))"
proof (cases "aw_compromised w")
  case True
  with assms show ?thesis by (auto simp: audit_append_def)
next
  case False
  show ?thesis
  proof (cases "encode_record dumps wclock mclock (aw_session w) e")
    case (Inl err)
    with False assms show ?thesis by (auto simp: audit_append_def)
  next
    case (Inr enc)
    then obtain doc where doc: "audit_record wclock mclock (aw_session w) e = Ret doc"
      "enc = dumps doc @ [CHR 0x0A]" "length (dumps doc) < 4096"
      by (auto simp: encode_record_def MAX_RECORD_BYTES_def Let_def split: if_splits)
    show ?thesis
    proof (cases "is_os_error (ao_dir os) \<or> is_os_error (ao_lock os) \<or> is_os_error (ao_open os)")
      case True
      with False Inr assms show ?thesis by (auto simp: audit_append_def split: if_splits)
    next
      case ok: False
      with False Inr assms obtain q where q: "append_data os enc w = Some (q, w1)"
        "r = (if is_os_error (ao_close os) then Raise AuditError else q)"
        by (auto simp: audit_append_def split: option.splits)
      from append_data_Some [OF q(1)] q(2) False doc show ?thesis by (auto split: if_splits)
    qed
  qed
qed

definition demo_append_os :: append_os where
  "demo_append_os = \<lparr>ao_dir = Ret (), ao_lock = Ret (), ao_open = Ret (), ao_fchmod = Ret (),
     ao_write = (\<lambda>i. if i = 0 then WInterrupted else WReturns (VInt 1)), ao_fsync = Ret (),
     ao_truncate = Ret (), ao_rollback_fsync = Ret (), ao_close = Ret ()\<rparr>"

definition demo_writer :: audit_writer where
  "demo_writer = \<lparr>aw_compromised = False, aw_session = demo_session, aw_file = []\<rparr>"

lemma demo_append:
  "audit_append (\<lambda>_. ''x'') demo_append_os (VFloat (Fin 1)) (VFloat (Fin 2)) demo_event demo_writer =
     Some (Ret (), demo_writer\<lparr>aw_file := ''x'' @ [CHR 0x0A]\<rparr>)"
proof -
  have "write_all (ao_write demo_append_os) 0 [CHR ''x'', CHR 0x0A] [] = Some (Ret (), [CHR ''x'', CHR 0x0A])"
    by (simp add: demo_append_os_def write_all.simps)
  then show ?thesis
    by (simp add: audit_append_def demo_writer_def encode_record_def demo_record_eq MAX_RECORD_BYTES_def
        append_data_def is_os_error_def) (simp add: demo_append_os_def)
qed

lemma append_all_or_nothing_witness:
  "\<exists>doc. audit_record (VFloat (Fin 1)) (VFloat (Fin 2)) demo_session demo_event = Ret doc"
  using append_all_or_nothing [OF demo_append] by (simp add: demo_writer_def)

text \<open>Appending ends: when calls of \<^verbatim>\<open>os.write\<close> are interrupted only finitely often, the
  append returns or raises, however few bytes each call takes.\<close>
theorem append_ends:
  assumes "\<forall>j \<ge> m. ao_write os j \<noteq> WInterrupted"
  shows "\<exists>r w1. audit_append dumps os wclock mclock e w = Some (r, w1)"
proof (cases "encode_record dumps wclock mclock (aw_session w) e")
  case (Inr enc)
  obtain q bytes where "write_all (ao_write os) 0 enc (aw_file w) = Some (q, bytes)"
    using write_all_returns [OF assms, of 0 enc "aw_file w"] by auto
  then have "\<exists>y. append_data os enc w = Some y" by (cases q) (auto simp: append_data_def)
  with Inr show ?thesis by (auto simp: audit_append_def split: option.splits)
qed (auto simp: audit_append_def)

lemma append_ends_witness:
  "\<exists>r w1. audit_append (\<lambda>_. ''x'') demo_append_os (VFloat (Fin 1)) (VFloat (Fin 2)) demo_event demo_writer = Some (r, w1)"
  by (rule append_ends [of 1]) (simp add: demo_append_os_def)

section \<open>What an accepted history is\<close>

type_synonym log_entry = "string \<times> safety_state \<times> safety_state"

fun history_fold :: "log_entry list \<Rightarrow> history_state \<Rightarrow> history_state result" where
  "history_fold [] h = Ret h"
| "history_fold ((s, b, a) # ts) h = rbind (history_step s b a h) (history_fold ts)"

fun run_from :: "safety_state \<Rightarrow> (safety_state \<times> safety_state) list \<Rightarrow> bool" where
  "run_from s [] = True"
| "run_from s ((b, a) # r) = (b = s \<and> run_from a r)"

type_synonym session_runs = "(string \<times> (safety_state \<times> safety_state) list) list"

definition flatten :: "session_runs \<Rightarrow> log_entry list" where
  "flatten ss = concat (map (\<lambda>(sid, ch). map (\<lambda>(b, a). (sid, b, a)) ch) ss)"

definition terminal :: "safety_state \<Rightarrow> bool" where
  "terminal s \<longleftrightarrow> s = STOPPED \<or> s = ESTOPPED"

definition sessions_ok :: "session_runs \<Rightarrow> bool" where
  "sessions_ok ss \<longleftrightarrow> distinct (map fst ss) \<and> (\<forall>r \<in> set ss. snd r \<noteq> [] \<and> run_from NEW (snd r)) \<and>
     (\<forall>r \<in> set (butlast ss). terminal (snd (last (snd r))))"

definition state_after :: "session_runs \<Rightarrow> history_state" where
  "state_after ss =
     (if ss = [] then history_init
      else \<lparr>hs_previous = Some (snd (last (snd (last ss)))), hs_session = Some (fst (last ss)),
            hs_completed = rev (map fst (butlast ss))\<rparr>)"

lemma history_fold_append: "history_fold (xs @ ys) h = rbind (history_fold xs h) (history_fold ys)"
proof (induction xs arbitrary: h)
  case (Cons t xs)
  obtain sid b a where "t = (sid, b, a)" by (cases t) auto
  with Cons show ?case by (cases "history_step sid b a h") auto
qed simp

lemma run_from_snoc: "run_from s (ch @ [(b, a)]) \<longleftrightarrow> run_from s ch \<and> b = (if ch = [] then s else snd (last ch))"
  by (induction s ch rule: run_from.induct) auto

lemma flatten_snoc: "flatten (ss @ [(sid, ch)]) = flatten ss @ map (\<lambda>(b, a). (sid, b, a)) ch"
  by (simp add: flatten_def)

lemma history_fold_run:
  "hs_session h = Some sid \<Longrightarrow> hs_previous h = Some p \<Longrightarrow> run_from p ch \<Longrightarrow>
    history_fold (map (\<lambda>(b, a). (sid, b, a)) ch) h =
      Ret (h\<lparr>hs_previous := Some (if ch = [] then p else snd (last ch))\<rparr>)"
  by (induction p ch arbitrary: h rule: run_from.induct) (auto simp: history_step_def)

lemma sessions_ok_snoc:
  "sessions_ok (ss @ [(sid, ch)]) \<longleftrightarrow> distinct (map fst ss) \<and> sid \<notin> fst ` set ss \<and>
     (\<forall>r \<in> set ss. snd r \<noteq> [] \<and> run_from NEW (snd r) \<and> terminal (snd (last (snd r)))) \<and>
     ch \<noteq> [] \<and> run_from NEW ch"
  by (auto simp: sessions_ok_def)

lemma history_fold_sessions: "sessions_ok ss \<Longrightarrow> history_fold (flatten ss) history_init = Ret (state_after ss)"
proof (induction ss rule: rev_induct)
  case Nil
  then show ?case by (simp add: flatten_def state_after_def)
next
  case (snoc r ss)
  obtain sid ch where r: "r = (sid, ch)" by (cases r)
  from snoc.prems have ok: "distinct (map fst ss)" "sid \<notin> fst ` set ss" "ch \<noteq> []" "run_from NEW ch"
    "\<forall>r \<in> set ss. snd r \<noteq> [] \<and> run_from NEW (snd r) \<and> terminal (snd (last (snd r)))"
    unfolding r sessions_ok_snoc by blast+
  have "sessions_ok ss" using ok by (auto simp: sessions_ok_def dest: in_set_butlastD)
  then have ih: "history_fold (flatten ss) history_init = Ret (state_after ss)" by (rule snoc.IH)
  obtain b a ch' where ch: "ch = (b, a) # ch'" using ok(3) by (cases ch) auto
  with ok(4) have ba: "b = NEW" "run_from a ch'" by auto
  define h1 where "h1 = \<lparr>hs_previous = Some a, hs_session = Some sid, hs_completed = rev (map fst ss)\<rparr>"
  have "history_step sid b a (state_after ss) = Ret h1"
  proof (cases "ss = []")
    case True
    then show ?thesis by (simp add: state_after_def history_init_def history_step_def h1_def ba)
  next
    case False
    then have l: "last ss \<in> set ss" and sp: "ss = butlast ss @ [last ss]" by simp_all
    have "rev (map fst ss) = fst (last ss) # rev (map fst (butlast ss))"
      by (subst sp) simp
    moreover have "sid \<noteq> fst (last ss)" "sid \<notin> set (rev (map fst (butlast ss)))"
      using ok(2) l by (auto dest: in_set_butlastD)
    moreover have "terminal (snd (last (snd (last ss))))" using ok(5) l by blast
    ultimately show ?thesis
      using False by (auto simp: state_after_def history_step_def h1_def ba terminal_def)
  qed
  moreover have "history_fold (map (\<lambda>(b, a). (sid, b, a)) ch') h1 = Ret (state_after (ss @ [r]))"
    using history_fold_run [of h1 sid a ch'] ba(2) by (simp add: h1_def state_after_def r ch)
  ultimately show ?case
    using ih by (simp add: r flatten_snoc history_fold_append ch)
qed

lemma history_step_sessions:
  assumes "sessions_ok ss" "history_step sid b a (state_after ss) = Ret h"
  shows "\<exists>ss'. flatten ss' = flatten ss @ [(sid, b, a)] \<and> sessions_ok ss'"
proof (cases ss rule: rev_cases)
  case Nil
  with assms(2) have "b = NEW" by (auto simp: state_after_def history_init_def history_step_def split: if_splits)
  with Nil show ?thesis
    by (intro exI [of _ "[(sid, [(b, a)])]"]) (simp add: flatten_def sessions_ok_def)
next
  case (snoc ss0 r)
  obtain sid0 ch where r: "r = (sid0, ch)" by (cases r)
  from assms(1) have ok: "distinct (map fst ss0)" "sid0 \<notin> fst ` set ss0" "ch \<noteq> []" "run_from NEW ch"
    "\<forall>r \<in> set ss0. snd r \<noteq> [] \<and> run_from NEW (snd r) \<and> terminal (snd (last (snd r)))"
    unfolding snoc r sessions_ok_snoc by blast+
  have st: "state_after ss = \<lparr>hs_previous = Some (snd (last ch)), hs_session = Some sid0, hs_completed = rev (map fst ss0)\<rparr>"
    by (simp add: snoc r state_after_def)
  show ?thesis
  proof (cases "sid = sid0")
    case True
    with assms(2) have "b = snd (last ch)" by (auto simp: st history_step_def split: if_splits)
    with ok True show ?thesis
      by (intro exI [of _ "ss0 @ [(sid, ch @ [(b, a)])]"])
        (simp add: snoc r flatten_snoc sessions_ok_snoc run_from_snoc)
  next
    case False
    with assms(2) have "sid \<notin> fst ` set ss0" "terminal (snd (last ch))" "b = NEW"
      by (auto simp: st history_step_def terminal_def split: if_splits)
    with ok False show ?thesis
      by (intro exI [of _ "(ss0 @ [(sid0, ch)]) @ [(sid, [(b, a)])]"])
        (unfold sessions_ok_snoc flatten_snoc, auto simp: snoc r flatten_snoc)
  qed
qed

lemma history_fold_sound: "history_fold ts history_init = Ret h \<Longrightarrow> \<exists>ss. ts = flatten ss \<and> sessions_ok ss"
proof (induction ts arbitrary: h rule: rev_induct)
  case Nil
  show ?case by (intro exI [of _ "[]"]) (simp add: flatten_def sessions_ok_def)
next
  case (snoc t ts)
  obtain sid b a where t: "t = (sid, b, a)" by (cases t) auto
  from snoc.prems obtain h0 where h0: "history_fold ts history_init = Ret h0" "history_step sid b a h0 = Ret h"
    by (auto simp: history_fold_append t)
  from snoc.IH [OF h0(1)] obtain ss where ss: "ts = flatten ss" "sessions_ok ss" by blast
  then have "h0 = state_after ss" using h0(1) history_fold_sessions [OF ss(2)] by simp
  with history_step_sessions [OF ss(2)] h0(2) obtain ss' where "flatten ss' = flatten ss @ [(sid, b, a)]" "sessions_ok ss'"
    by blast
  with ss t show ?case by (intro exI [of _ ss']) simp
qed

section \<open>The check of a whole log\<close>

definition one_line :: "string \<Rightarrow> bool" where
  "one_line l \<longleftrightarrow> l \<noteq> [] \<and> length l < MAX_RECORD_BYTES \<and> list_all (\<lambda>c. c \<noteq> CHR 0x0A \<and> c \<noteq> CHR 0x0D) l"

definition log_of :: "(pyval \<Rightarrow> string) \<Rightarrow> pyval list \<Rightarrow> string" where
  "log_of dumps docs = concat (map (\<lambda>d. dumps d @ [CHR 0x0A]) docs)"

lemma byte_lines_line:
  "list_all (\<lambda>c. c \<noteq> CHR 0x0A \<and> c \<noteq> CHR 0x0D) l \<Longrightarrow>
    byte_lines acc (l @ CHR 0x0A # rest) = (acc @ l) # byte_lines [] rest"
proof (induction l arbitrary: acc)
  case Nil
  show ?case by (cases rest) simp_all
next
  case (Cons c l)
  then have c: "c \<noteq> CHR 0x0A" "c \<noteq> CHR 0x0D" by auto
  obtain d ds where l: "l @ CHR 0x0A # rest = d # ds" by (cases l) auto
  have "byte_lines acc (c # (l @ CHR 0x0A # rest)) = byte_lines (acc @ [c]) (l @ CHR 0x0A # rest)"
    unfolding l using c by simp
  with Cons show ?case by simp
qed

lemma byte_lines_log: "\<forall>d \<in> set docs. one_line (dumps d) \<Longrightarrow> byte_lines [] (log_of dumps docs) = map dumps docs"
proof (induction docs)
  case (Cons d docs)
  then have "list_all (\<lambda>c. c \<noteq> CHR 0x0A \<and> c \<noteq> CHR 0x0D) (dumps d)" by (simp add: one_line_def)
  from byte_lines_line [OF this, of "[]"] Cons show ?case by (simp add: log_of_def)
qed (simp add: log_of_def)

lemma log_ends: "log_of dumps docs \<noteq> [] \<Longrightarrow> ends_with [CHR 0x0A] (log_of dumps docs)"
  by (cases docs rule: rev_cases) (auto simp: log_of_def ends_with_def starts_with_def)

text \<open>The session and the states of a valid record.\<close>

definition log_entry :: "pyval \<Rightarrow> log_entry" where
  "log_entry d = (case event_of_record d of Inl _ \<Rightarrow> ([], NEW, NEW)
     | Inr e \<Rightarrow> (str_val (ae_session_id e), ae_before e, ae_after e))"

lemma validate_record_event: "validate_record d = Ret u \<Longrightarrow> \<exists>e. event_of_record d = Ret e"
  by (auto simp: validate_record_def)

lemma history_lines_log:
  assumes "\<forall>d \<in> set docs. one_line (dumps d) \<and> loads (dumps d) = Ret d \<and> validate_record d = Ret ()"
  shows "history_lines loads (map dumps docs) h = history_fold (map log_entry docs) h"
  using assms
proof (induction docs arbitrary: h)
  case (Cons d docs)
  then obtain e where e: "event_of_record d = Ret e" "validate_record d = Ret ()"
    using validate_record_event [of d "()"] by (meson list.set_intros(1))
  define h1 where "h1 = history_step (str_val (ae_session_id e)) (ae_before e) (ae_after e) h"
  have "history_line loads (dumps d) h = h1"
    using Cons.prems e by (simp add: history_line_def one_line_def h1_def del: event_of_record.simps)
  moreover have "history_fold (map log_entry (d # docs)) h = rbind h1 (history_fold (map log_entry docs))"
    by (simp add: log_entry_def e h1_def del: event_of_record.simps)
  ultimately show ?case using Cons by (cases h1) simp_all
qed simp

lemma flatten_last:
  assumes "sessions_ok ss" "ss \<noteq> []"
  shows "flatten ss \<noteq> [] \<and> snd (snd (last (flatten ss))) = snd (last (snd (last ss)))"
proof -
  obtain ss0 sid ch where ss: "ss = ss0 @ [(sid, ch)]" using assms(2) by (metis prod.collapse rev_exhaust)
  with assms(1) have "ch \<noteq> []" by (simp add: sessions_ok_snoc)
  then show ?thesis by (simp add: ss flatten_snoc last_map split_def)
qed

lemma history_check_iff:
  assumes "\<forall>d \<in> set docs. one_line (dumps d) \<and> loads (dumps d) = Ret d \<and> validate_record d = Ret ()"
  shows "validate_audit_history loads (log_of dumps docs) require_terminal = Ret () \<longleftrightarrow>
    (\<exists>ss. map log_entry docs = flatten ss \<and> sessions_ok ss) \<and>
    (\<not> require_terminal \<or> docs = [] \<or> terminal (snd (snd (log_entry (last docs)))))"
proof -
  have v: "validate_audit_history loads (log_of dumps docs) require_terminal =
      rbind (history_fold (map log_entry docs) history_init) (\<lambda>h.
        if require_terminal \<and> hs_previous h \<notin> {None, Some STOPPED, Some ESTOPPED} then Raise AuditError else Ret ())"
  proof -
    have "\<not> (log_of dumps docs \<noteq> [] \<and> \<not> ends_with [CHR 0x0A] (log_of dumps docs))"
      using log_ends by blast
    moreover have "byte_lines [] (log_of dumps docs) = map dumps docs"
      using byte_lines_log assms by blast
    ultimately show ?thesis
      using history_lines_log [OF assms] by (simp only: validate_audit_history_def if_False)
  qed
  have p: "hs_previous h \<in> {None, Some STOPPED, Some ESTOPPED} \<longleftrightarrow> docs = [] \<or> terminal (snd (snd (log_entry (last docs))))"
    if h: "history_fold (map log_entry docs) history_init = Ret h" for h
  proof -
    obtain ss where ss: "map log_entry docs = flatten ss" "sessions_ok ss" using history_fold_sound [OF h] by blast
    then have st: "h = state_after ss" using h history_fold_sessions [OF ss(2)] by simp
    show ?thesis
    proof (cases "ss = []")
      case True
      with ss have "docs = []" by (simp add: flatten_def)
      with True st show ?thesis by (simp add: state_after_def history_init_def)
    next
      case False
      have f: "flatten ss \<noteq> []" "snd (snd (last (flatten ss))) = snd (last (snd (last ss)))"
        using flatten_last [OF ss(2) False] by blast+
      then have d: "docs \<noteq> []" using ss(1) by auto
      then have "last (flatten ss) = log_entry (last docs)" using ss(1) by (metis last_map)
      with f d False st show ?thesis by (auto simp: state_after_def terminal_def)
    qed
  qed
  show ?thesis
  proof (cases "history_fold (map log_entry docs) history_init")
    case (Inl e)
    then have "\<nexists>ss. map log_entry docs = flatten ss \<and> sessions_ok ss" using history_fold_sessions by force
    with Inl show ?thesis by (simp add: v)
  next
    case (Inr h)
    have "\<exists>ss. map log_entry docs = flatten ss \<and> sessions_ok ss" using history_fold_sound [OF Inr] .
    with p [OF Inr] show ?thesis by (cases "hs_previous h") (auto simp: v Inr)
  qed
qed



section \<open>What escapes the check\<close>

text \<open>
  A record whose error code is a list makes the membership test raise \<^verbatim>\<open>TypeError\<close>, and one
  whose clock is an integer beyond the floats makes \<^verbatim>\<open>math.isfinite\<close> raise
  \<^verbatim>\<open>OverflowError\<close>; neither is the audit error that the start-up check turns into a quarantine.
\<close>

lemma audit_check_leaks:
  "validate_record (VDict (record_fields (Fin 1) (Fin 2) demo_event (VDict [(VStr ''task'', VStr ''delivery'')]) []
     demo_session (VList []))) = Raise PyTypeError"
proof -
  have "task_name_ok ''delivery''"
    by (simp add: task_name_ok_def is_lower_def is_digit_def in_range_def)
  then have "validate_operation_data (read_event demo_event (VDict [(VStr ''task'', VStr ''delivery'')]) [] demo_session (VList []))
      (VDict [(VStr ''task'', VStr ''delivery'')]) = Ret (VDict [(VStr ''task'', VStr ''delivery'')])"
    by (simp add: stop_required_def keys_within_def dkeys_def MOTION_KEYS_def motion_item_def)
      (simp add: demo_event_def)
  moreover have "validate_transition (read_event demo_event (VDict [(VStr ''task'', VStr ''delivery'')]) [] demo_session (VList [])) = Ret ()"
    by (simp add: validate_transition_def) (simp add: demo_event_def)
  ultimately show ?thesis
    unfolding validate_record_def event_of_fields
    by (simp add: record_fields_get validate_error_def in_strs_def del: validate_operation_data.simps)
qed

end
