(* ===== verification/AuditWorker.thy ===== *)
theory AuditWorker
  imports AuditLog
begin

text \<open>
  The audit worker of \<^verbatim>\<open>agent_ros/runtime/audit.py\<close> (\<^verbatim>\<open>_AuditAppendWorker\<close>): one thread that owns the
  calls into the writer, fed by a bounded queue with one slot reserved for the stop marker. Each
  region under its lock is a step; the thread's blocking \<^verbatim>\<open>get\<close> and its call of the writer are
  steps of their own. \<open>wk_written\<close> is a history variable: the receipts handed to the writer.
\<close>

section \<open>State\<close>

definition AUDIT_QUEUE_CAPACITY :: nat where "AUDIT_QUEUE_CAPACITY = 256"

text \<open>The thread waits, holds what it took from the queue, or is inside the writer's append.\<close>

datatype worker_point = Waiting | Took "nat option" | Writing nat | Ended

record audit_worker =
  wk_accepting :: bool
  wk_failed :: bool
  wk_started :: bool
  wk_sentinel :: bool
  wk_queue :: "nat option list"
  wk_receipts :: "unit result option list"
  wk_point :: worker_point
  wk_written :: "nat list"

definition worker_init :: audit_worker where
  "worker_init = \<lparr>wk_accepting = False, wk_failed = False, wk_started = False, wk_sentinel = False,
     wk_queue = [], wk_receipts = [], wk_point = Waiting, wk_written = []\<rparr>"

definition thread_alive :: "audit_worker \<Rightarrow> bool" where
  "thread_alive w \<longleftrightarrow> wk_started w \<and> wk_point w \<noteq> Ended"

definition wk_in_flight :: "audit_worker \<Rightarrow> nat option" where
  "wk_in_flight w = (case wk_point w of Writing r \<Rightarrow> Some r | _ \<Rightarrow> None)"

section \<open>Operations\<close>

definition healthy :: "audit_worker \<Rightarrow> bool" where
  "healthy w \<longleftrightarrow> wk_accepting w \<and> \<not> wk_failed w \<and> thread_alive w"

definition resolve :: "unit result \<Rightarrow> nat \<Rightarrow> audit_worker \<Rightarrow> audit_worker" where
  "resolve r i w =
     (if i < length (wk_receipts w) \<and> wk_receipts w ! i = None
      then w\<lparr>wk_receipts := (wk_receipts w)[i := Some r]\<rparr> else w)"

text \<open>\<^verbatim>\<open>put_nowait(None)\<close> raises where the queue is full.\<close>

definition request_stop :: "audit_worker \<Rightarrow> audit_worker" where
  "request_stop w = (if wk_sentinel w then w else w\<lparr>wk_queue := wk_queue w @ [None], wk_sentinel := True\<rparr>)"

fun drain_item :: "nat option \<Rightarrow> audit_worker \<Rightarrow> audit_worker" where
  "drain_item None w = w\<lparr>wk_sentinel := False\<rparr>"
| "drain_item (Some i) w = resolve (Raise AuditError) i w"

definition fail_locked :: "audit_worker \<Rightarrow> audit_worker" where
  "fail_locked w =
     (let w1 = fold drain_item (wk_queue w) (w\<lparr>wk_failed := True, wk_accepting := False\<rparr>)
      in request_stop (w1\<lparr>wk_queue := []\<rparr>))"

text \<open>The thread factory's start raises or leaves a dead thread, or the thread is alive.\<close>

definition worker_start :: "bool \<Rightarrow> audit_worker \<Rightarrow> bool \<times> audit_worker" where
  "worker_start alive w =
     (if wk_started w then (healthy w, w)
      else if wk_failed w then (False, w)
      else if \<not> alive then (False, w\<lparr>wk_accepting := False, wk_failed := True\<rparr>)
      else (True, w\<lparr>wk_accepting := True, wk_started := True\<rparr>))"

definition worker_enqueue :: "audit_worker \<Rightarrow> nat result \<times> audit_worker" where
  "worker_enqueue w =
     (if \<not> healthy w then (Raise AuditError, w)
      else if AUDIT_QUEUE_CAPACITY \<le> length (wk_queue w) then (Raise AuditError, fail_locked w)
      else (Ret (length (wk_receipts w)),
            w\<lparr>wk_receipts := wk_receipts w @ [None], wk_queue := wk_queue w @ [Some (length (wk_receipts w))]\<rparr>))"

definition worker_expire :: "nat \<Rightarrow> audit_worker \<Rightarrow> audit_worker" where
  "worker_expire i w =
     (if i < length (wk_receipts w) \<and> wk_receipts w ! i = None
      then fail_locked (resolve (Raise AuditError) i w) else w)"

definition worker_close :: "audit_worker \<Rightarrow> audit_worker" where
  "worker_close w =
     (let w1 = w\<lparr>wk_accepting := False\<rparr> in
      if wk_started w \<and> \<not> thread_alive w \<and> wk_queue w = [] \<and> wk_in_flight w = None then w1
      else request_stop w1)"

definition worker_get :: "audit_worker \<Rightarrow> audit_worker" where
  "worker_get w = (case wk_queue w of [] \<Rightarrow> w | x # q \<Rightarrow> w\<lparr>wk_queue := q, wk_point := Took x\<rparr>)"

definition worker_stops :: "audit_worker \<Rightarrow> audit_worker" where
  "worker_stops w = w\<lparr>wk_sentinel := False, wk_point := Ended\<rparr>"

definition worker_begins :: "nat \<Rightarrow> audit_worker \<Rightarrow> audit_worker" where
  "worker_begins i w = w\<lparr>wk_point := Writing i, wk_written := wk_written w @ [i]\<rparr>"

text \<open>The writer's result: the receipt is resolved if it is still open, an error fails the worker.\<close>

definition worker_finishes :: "nat \<Rightarrow> unit result \<Rightarrow> audit_worker \<Rightarrow> audit_worker" where
  "worker_finishes i r w =
     (let w1 = resolve r i w; w2 = (if is_ret r then w1 else fail_locked w1) in w2\<lparr>wk_point := Waiting\<rparr>)"

text \<open>What \<^verbatim>\<open>append\<close> raises once the receipt is resolved.\<close>

definition append_outcome :: "unit result \<Rightarrow> unit result" where
  "append_outcome r =
     (case r of Inr _ \<Rightarrow> Ret ()
      | Inl e \<Rightarrow> if e \<in> {AuditError, AuditIntegrityError, PyOSError} then Raise e else Raise AuditError)"

inductive wk_step :: "audit_worker \<Rightarrow> audit_worker \<Rightarrow> bool" where
  start: "wk_step w (snd (worker_start alive w))"
| enqueue: "wk_step w (snd (worker_enqueue w))"
| expire: "wk_step w (worker_expire i w)"
| close: "wk_step w (worker_close w)"
| get: "wk_started w \<Longrightarrow> wk_point w = Waiting \<Longrightarrow> wk_queue w \<noteq> [] \<Longrightarrow> wk_step w (worker_get w)"
| stops: "wk_started w \<Longrightarrow> wk_point w = Took None \<Longrightarrow> wk_step w (worker_stops w)"
| begins: "wk_started w \<Longrightarrow> wk_point w = Took (Some i) \<Longrightarrow> wk_step w (worker_begins i w)"
| finishes: "wk_started w \<Longrightarrow> wk_point w = Writing i \<Longrightarrow> wk_step w (worker_finishes i r w)"

section \<open>The invariant\<close>

definition waiting :: "audit_worker \<Rightarrow> nat list" where
  "waiting w = (case wk_point w of Took (Some i) \<Rightarrow> [i] | _ \<Rightarrow> []) @ List.map_filter id (wk_queue w)"

definition markers :: "audit_worker \<Rightarrow> nat" where
  "markers w = length (filter (\<lambda>x. x = None) (wk_queue w)) + (if wk_point w = Took None then 1 else 0)"

definition wk_inv :: "audit_worker \<Rightarrow> bool" where
  "wk_inv w \<longleftrightarrow>
     sorted_wrt (<) (wk_written w @ waiting w) \<and>
     (\<forall>i \<in> set (wk_written w @ waiting w). i < length (wk_receipts w)) \<and>
     markers w = (if wk_sentinel w then 1 else 0) \<and>
     length (filter (\<lambda>x. x \<noteq> None) (wk_queue w)) \<le> AUDIT_QUEUE_CAPACITY \<and>
     (wk_failed w \<longrightarrow> \<not> wk_accepting w \<and> List.map_filter id (wk_queue w) = []) \<and>
     (\<not> wk_started w \<longrightarrow> \<not> wk_accepting w \<and> List.map_filter id (wk_queue w) = []) \<and>
     (\<forall>i. wk_point w = Writing i \<longrightarrow> i \<in> set (wk_written w)) \<and>
     (\<forall>i < length (wk_receipts w). wk_receipts w ! i = None \<longrightarrow> i \<in> set (waiting w) \<or> wk_point w = Writing i)"

lemma wk_init_inv: "wk_inv worker_init"
  by (simp add: wk_inv_def worker_init_def waiting_def markers_def map_filter_def)

lemma resolve_frame [simp]:
  "wk_accepting (resolve r i w) = wk_accepting w" "wk_failed (resolve r i w) = wk_failed w"
  "wk_started (resolve r i w) = wk_started w" "wk_sentinel (resolve r i w) = wk_sentinel w"
  "wk_queue (resolve r i w) = wk_queue w" "wk_point (resolve r i w) = wk_point w"
  "wk_written (resolve r i w) = wk_written w" "length (wk_receipts (resolve r i w)) = length (wk_receipts w)"
  by (simp_all add: resolve_def)

lemma resolve_receipt: "j < length (wk_receipts w) \<Longrightarrow>
    wk_receipts (resolve r i w) ! j = (if j = i \<and> wk_receipts w ! j = None then Some r else wk_receipts w ! j)"
  by (auto simp: resolve_def nth_list_update)

lemma drain_frame:
  "wk_accepting (fold drain_item q w) = wk_accepting w" "wk_failed (fold drain_item q w) = wk_failed w"
  "wk_started (fold drain_item q w) = wk_started w" "wk_queue (fold drain_item q w) = wk_queue w"
  "wk_point (fold drain_item q w) = wk_point w" "wk_written (fold drain_item q w) = wk_written w"
  "length (wk_receipts (fold drain_item q w)) = length (wk_receipts w)"
  "wk_sentinel (fold drain_item q w) = (wk_sentinel w \<and> None \<notin> set q)"
proof (induction q arbitrary: w)
  case (Cons x q)
  {
    case 1 then show ?case using Cons by (cases x) simp_all
  next
    case 2 then show ?case using Cons by (cases x) simp_all
  next
    case 3 then show ?case using Cons by (cases x) simp_all
  next
    case 4 then show ?case using Cons by (cases x) simp_all
  next
    case 5 then show ?case using Cons by (cases x) simp_all
  next
    case 6 then show ?case using Cons by (cases x) simp_all
  next
    case 7 then show ?case using Cons by (cases x) simp_all
  next
    case 8 then show ?case using Cons by (cases x) simp_all
  }
qed simp_all

lemma drain_receipt: "j < length (wk_receipts w) \<Longrightarrow>
    wk_receipts (fold drain_item q w) ! j =
      (if Some j \<in> set q \<and> wk_receipts w ! j = None then Some (Raise AuditError) else wk_receipts w ! j)"
proof (induction q arbitrary: w)
  case (Cons x q)
  then show ?case by (cases x) (auto simp: resolve_receipt)
qed simp

lemma none_count: "length (filter (\<lambda>x. x = None) q) = 0 \<longleftrightarrow> None \<notin> set q"
  by (induction q) auto

lemma fail_frame [simp]:
  "wk_accepting (fail_locked w) = False" "wk_failed (fail_locked w) = True"
  "wk_started (fail_locked w) = wk_started w" "wk_sentinel (fail_locked w) = True"
  "wk_queue (fail_locked w) = (if wk_sentinel w \<and> None \<notin> set (wk_queue w) then [] else [None])"
  "wk_point (fail_locked w) = wk_point w" "wk_written (fail_locked w) = wk_written w"
  "length (wk_receipts (fail_locked w)) = length (wk_receipts w)"
  by (simp_all add: fail_locked_def request_stop_def drain_frame Let_def)

lemma fail_receipt: "j < length (wk_receipts w) \<Longrightarrow>
    wk_receipts (fail_locked w) ! j =
      (if Some j \<in> set (wk_queue w) \<and> wk_receipts w ! j = None then Some (Raise AuditError) else wk_receipts w ! j)"
  by (simp add: fail_locked_def request_stop_def drain_receipt Let_def)

lemma in_waiting: "i \<in> set (waiting w) \<longleftrightarrow> wk_point w = Took (Some i) \<or> Some i \<in> set (wk_queue w)"
  by (auto simp: waiting_def map_filter_def image_iff split: worker_point.splits option.splits)

lemma waiting_cong [simp]:
  "waiting (w\<lparr>wk_accepting := a\<rparr>) = waiting w" "waiting (w\<lparr>wk_failed := f\<rparr>) = waiting w"
  "waiting (w\<lparr>wk_started := b\<rparr>) = waiting w" "waiting (w\<lparr>wk_sentinel := d\<rparr>) = waiting w"
  "waiting (w\<lparr>wk_written := l\<rparr>) = waiting w"
  "markers (w\<lparr>wk_accepting := a\<rparr>) = markers w" "markers (w\<lparr>wk_failed := f\<rparr>) = markers w"
  "markers (w\<lparr>wk_started := b\<rparr>) = markers w" "markers (w\<lparr>wk_sentinel := d\<rparr>) = markers w"
  "markers (w\<lparr>wk_written := l\<rparr>) = markers w"
  by (simp_all add: waiting_def markers_def)

lemma waiting_fail: "waiting (fail_locked w) = (case wk_point w of Took (Some i) \<Rightarrow> [i] | _ \<Rightarrow> [])"
  by (simp add: waiting_def map_filter_def)

lemma waiting_split: "waiting w = (case wk_point w of Took (Some i) \<Rightarrow> [i] | _ \<Rightarrow> []) @ List.map_filter id (wk_queue w)"
  by (simp add: waiting_def)

lemma fail_inv:
  assumes "wk_inv w"
  shows "wk_inv (fail_locked w)"
proof -
  let ?p = "case wk_point w of Took (Some i) \<Rightarrow> [i] | _ \<Rightarrow> []"
  have s: "sorted_wrt (<) (wk_written w @ ?p)"
    using assms by (simp add: wk_inv_def waiting_split sorted_wrt_append)
  have m: "markers w = (if wk_sentinel w then 1 else 0)" using assms by (simp add: wk_inv_def)
  have "wk_point w = Took None \<longleftrightarrow> wk_sentinel w \<and> None \<notin> set (wk_queue w)"
    using m none_count [of "wk_queue w"] by (auto simp: markers_def split: if_splits)
  then have m': "markers (fail_locked w) = 1" by (simp add: markers_def)
  have r: "\<forall>i < length (wk_receipts w). wk_receipts (fail_locked w) ! i = None \<longrightarrow> i \<in> set ?p \<or> wk_point w = Writing i"
  proof (intro allI impI)
    fix i
    assume i: "i < length (wk_receipts w)" "wk_receipts (fail_locked w) ! i = None"
    then have "wk_receipts w ! i = None" "Some i \<notin> set (wk_queue w)" by (auto simp: fail_receipt split: if_splits)
    with assms i have "i \<in> set (waiting w) \<or> wk_point w = Writing i" by (simp add: wk_inv_def)
    with \<open>Some i \<notin> set (wk_queue w)\<close> show "i \<in> set ?p \<or> wk_point w = Writing i" by (auto simp: in_waiting)
  qed
  have b: "\<forall>i \<in> set (wk_written w @ ?p). i < length (wk_receipts w)"
    using assms by (auto simp: wk_inv_def waiting_split)
  show ?thesis
    unfolding wk_inv_def waiting_fail
    using s m' r b assms by (simp add: wk_inv_def AUDIT_QUEUE_CAPACITY_def map_filter_def)
qed

lemma resolve_inv: "wk_inv w \<Longrightarrow> wk_inv (resolve r i w)"
proof -
  have w: "waiting (resolve r i w) = waiting w" "markers (resolve r i w) = markers w"
    by (simp_all add: waiting_def markers_def)
  show "wk_inv w \<Longrightarrow> wk_inv (resolve r i w)"
    unfolding wk_inv_def w by (auto simp: resolve_receipt)
qed

lemma wk_start_inv: "wk_inv w \<Longrightarrow> wk_inv (snd (worker_start alive w))"
  by (simp add: worker_start_def wk_inv_def)

lemma wk_enqueue_inv:
  assumes "wk_inv w"
  shows "wk_inv (snd (worker_enqueue w))"
proof (cases "healthy w \<and> length (wk_queue w) < AUDIT_QUEUE_CAPACITY")
  case True
  let ?n = "length (wk_receipts w)"
  define w1 where "w1 = w\<lparr>wk_receipts := wk_receipts w @ [None], wk_queue := wk_queue w @ [Some ?n]\<rparr>"
  have e: "snd (worker_enqueue w) = w1" using True by (simp add: worker_enqueue_def w1_def)
  have wt: "waiting w1 = waiting w @ [?n]" by (simp add: waiting_def w1_def map_filter_def)
  have mk: "markers w1 = markers w" by (simp add: markers_def w1_def)
  have "length (filter (\<lambda>x. x \<noteq> None) (wk_queue w)) < AUDIT_QUEUE_CAPACITY"
    using True le_less_trans [OF length_filter_le] by blast
  moreover have "\<not> wk_failed w" "wk_started w" using True by (simp_all add: healthy_def thread_alive_def)
  ultimately show ?thesis
    using assms unfolding e wk_inv_def wt mk
    by (auto simp: w1_def sorted_wrt_append nth_append less_Suc_eq)
next
  case False
  then show ?thesis using assms fail_inv by (auto simp: worker_enqueue_def)
qed

lemma wk_expire_inv: "wk_inv w \<Longrightarrow> wk_inv (worker_expire i w)"
  by (simp add: worker_expire_def fail_inv resolve_inv)

lemma request_stop_inv:
  assumes "wk_inv w" "\<not> wk_accepting w"
  shows "wk_inv (request_stop w)"
proof (cases "wk_sentinel w")
  case False
  define w1 where "w1 = w\<lparr>wk_queue := wk_queue w @ [None], wk_sentinel := True\<rparr>"
  have wt: "waiting w1 = waiting w" by (simp add: waiting_def w1_def map_filter_def)
  have mk: "markers w1 = Suc (markers w)" by (simp add: markers_def w1_def)
  have e: "request_stop w = w1" using False by (simp add: request_stop_def w1_def)
  show ?thesis
    using assms False unfolding e wk_inv_def wt mk by (simp add: w1_def map_filter_def)
qed (use assms in \<open>simp add: request_stop_def\<close>)

lemma wk_close_inv: "wk_inv w \<Longrightarrow> wk_inv (worker_close w)"
proof -
  assume w: "wk_inv w"
  have "wk_inv (w\<lparr>wk_accepting := False\<rparr>)"
    using w by (simp add: wk_inv_def)
  then show ?thesis using request_stop_inv [of "w\<lparr>wk_accepting := False\<rparr>"]
    by (simp add: worker_close_def Let_def)
qed

lemma get_inv:
  assumes "wk_inv w" "wk_point w = Waiting" "wk_queue w \<noteq> []" "wk_started w"
  shows "wk_inv (worker_get w)"
proof -
  obtain x q where q: "wk_queue w = x # q" using assms(3) by (cases "wk_queue w") auto
  have wt: "waiting (worker_get w) = waiting w"
    using assms(2) q by (cases x) (simp_all add: waiting_def worker_get_def map_filter_def)
  have mk: "markers (worker_get w) = markers w"
    using assms(2) q by (cases x) (simp_all add: markers_def worker_get_def)
  show ?thesis
    using assms unfolding wk_inv_def wt mk
    by (cases x) (simp_all add: worker_get_def q map_filter_def)
qed

lemma stops_inv:
  assumes "wk_inv w" "wk_point w = Took None" "wk_started w"
  shows "wk_inv (worker_stops w)"
proof -
  have wt: "waiting (worker_stops w) = waiting w" using assms(2) by (simp add: waiting_def worker_stops_def)
  have mk: "markers (worker_stops w) = 0"
    using assms(1,2) by (simp add: markers_def worker_stops_def wk_inv_def split: if_splits)
  show ?thesis using assms unfolding wk_inv_def wt mk by (simp add: worker_stops_def)
qed

lemma begins_inv:
  assumes "wk_inv w" "wk_point w = Took (Some i)" "wk_started w"
  shows "wk_inv (worker_begins i w)"
proof -
  have wt: "waiting w = i # waiting (worker_begins i w)" using assms(2) by (simp add: waiting_def worker_begins_def)
  have mk: "markers (worker_begins i w) = markers w" using assms(2) by (simp add: markers_def worker_begins_def)
  show ?thesis using assms unfolding wk_inv_def mk by (auto simp: worker_begins_def wt)
qed

lemma point_waiting_inv:
  assumes "wk_inv w" "wk_point w = Writing i" "i < length (wk_receipts w) \<longrightarrow> wk_receipts w ! i \<noteq> None"
  shows "wk_inv (w\<lparr>wk_point := Waiting\<rparr>)"
proof -
  have wt: "waiting (w\<lparr>wk_point := Waiting\<rparr>) = waiting w" using assms(2) by (simp add: waiting_def)
  have mk: "markers (w\<lparr>wk_point := Waiting\<rparr>) = markers w" using assms(2) by (simp add: markers_def)
  show ?thesis using assms unfolding wk_inv_def wt mk by auto
qed

lemma finishes_inv:
  assumes "wk_inv w" "wk_point w = Writing i" "wk_started w"
  shows "wk_inv (worker_finishes i r w)"
proof -
  have a: "i < length (wk_receipts w) \<longrightarrow> wk_receipts (resolve r i w) ! i \<noteq> None" by (auto simp: resolve_receipt)
  then have b: "i < length (wk_receipts w) \<longrightarrow> wk_receipts (fail_locked (resolve r i w)) ! i \<noteq> None"
    by (auto simp: fail_receipt)
  show ?thesis
    using point_waiting_inv [of "resolve r i w" i] point_waiting_inv [of "fail_locked (resolve r i w)" i]
      resolve_inv [OF assms(1), of r i] fail_inv [OF resolve_inv [OF assms(1), of r i]] a b assms(2)
    by (simp add: worker_finishes_def Let_def)
qed

lemma wk_step_inv: "wk_step w v \<Longrightarrow> wk_inv w \<Longrightarrow> wk_inv v"
  by (induction rule: wk_step.induct)
    (simp_all add: wk_start_inv wk_enqueue_inv wk_expire_inv wk_close_inv get_inv stops_inv begins_inv finishes_inv)

interpretation auditing: machine wk_step wk_inv
  using wk_step_inv by unfold_locales

section \<open>After a failure\<close>

definition failed :: "audit_worker \<Rightarrow> bool" where "failed w \<longleftrightarrow> wk_failed w"

text \<open>What has been handed to the writer, or is in the thread's hand on the way to it.\<close>

definition handed :: "audit_worker \<Rightarrow> nat list" where
  "handed w = wk_written w @ (case wk_point w of Took (Some i) \<Rightarrow> [i] | _ \<Rightarrow> [])"

lemma failed_frame:
  "wk_failed w \<Longrightarrow> wk_failed (snd (worker_start a w)) \<and> handed (snd (worker_start a w)) = handed w"
  "wk_failed w \<Longrightarrow> wk_failed (snd (worker_enqueue w)) \<and> handed (snd (worker_enqueue w)) = handed w"
  "wk_failed w \<Longrightarrow> wk_failed (worker_expire i w) \<and> handed (worker_expire i w) = handed w"
  "wk_failed w \<Longrightarrow> wk_failed (worker_close w) \<and> handed (worker_close w) = handed w"
  "wk_failed w \<Longrightarrow> wk_failed (worker_finishes j r w)"
  by (simp_all add: worker_start_def worker_enqueue_def healthy_def worker_expire_def worker_close_def
      request_stop_def worker_finishes_def handed_def Let_def)

lemma wk_step_failed: "wk_step w v \<Longrightarrow> wk_inv w \<Longrightarrow> failed w \<Longrightarrow> failed v \<and> handed v = handed w"
proof (induction rule: wk_step.induct)
  case (get w)
  then obtain x q where q: "wk_queue w = x # q" by (cases "wk_queue w") auto
  with get have "x = None" by (cases x) (simp_all add: wk_inv_def failed_def map_filter_def)
  with get q show ?case by (simp add: failed_def worker_get_def handed_def)
qed (simp_all add: failed_def failed_frame, simp_all add: worker_stops_def worker_begins_def
      worker_finishes_def handed_def Let_def)

interpretation audit_failure: latching wk_step wk_inv failed handed
  using wk_step_failed by unfold_locales blast+

section \<open>Properties\<close>

abbreviation wk_reach :: "audit_worker \<Rightarrow> bool" where "wk_reach w \<equiv> wk_step\<^sup>*\<^sup>* worker_init w"

lemma wk_reach_inv: "wk_reach w \<Longrightarrow> wk_inv w"
  using auditing.inv_steps wk_init_inv by blast

text \<open>The audit queue never overflows and keeps the order: in every reachable state it holds at
  most 256 events and one stop marker, so that the nonblocking puts of the reserved slot cannot
  fail, and events reach the writer once each, in the order in which they were accepted.\<close>
theorem audit_queue_ordered:
  assumes "wk_reach w"
  shows "length (wk_queue w) \<le> 257 \<and> sorted_wrt (<) (wk_written w @ waiting w) \<and>
    (length (wk_queue w) = 257 \<longrightarrow> wk_sentinel w)"
proof -
  have i: "wk_inv w" by (rule wk_reach_inv [OF assms])
  have "length (wk_queue w) = length (filter (\<lambda>x. x = None) (wk_queue w)) + length (filter (\<lambda>x. x \<noteq> None) (wk_queue w))"
    by (rule sum_length_filter_compl [symmetric])
  moreover have "length (filter (\<lambda>x. x = None) (wk_queue w)) \<le> (if wk_sentinel w then 1 else 0)"
    using i by (simp add: wk_inv_def markers_def split: if_splits)
  moreover have "length (filter (\<lambda>x. x \<noteq> None) (wk_queue w)) \<le> 256"
    using i by (simp add: wk_inv_def AUDIT_QUEUE_CAPACITY_def)
  ultimately show ?thesis using i by (auto simp: wk_inv_def split: if_splits)
qed

definition wk_running :: audit_worker where "wk_running = snd (worker_start True worker_init)"
definition wk_one :: audit_worker where "wk_one = snd (worker_enqueue wk_running)"
definition wk_taken :: audit_worker where "wk_taken = worker_get wk_one"
definition wk_gone :: audit_worker where "wk_gone = worker_expire 0 wk_taken"

lemma wk_gone_eq:
  "wk_running = worker_init\<lparr>wk_accepting := True, wk_started := True\<rparr>"
  "wk_one = wk_running\<lparr>wk_receipts := [None], wk_queue := [Some 0]\<rparr>"
  "wk_taken = wk_one\<lparr>wk_queue := [], wk_point := Took (Some 0)\<rparr>"
  by (simp_all add: wk_running_def worker_start_def worker_init_def wk_one_def worker_enqueue_def healthy_def
      thread_alive_def AUDIT_QUEUE_CAPACITY_def wk_taken_def worker_get_def)

lemma wk_demo_reach: "wk_reach wk_one" "wk_reach wk_taken" "wk_reach wk_gone"
proof -
  have "wk_step worker_init wk_running" unfolding wk_running_def by (rule wk_step.start)
  moreover have "wk_step wk_running wk_one" unfolding wk_one_def by (rule wk_step.enqueue)
  ultimately show a: "wk_reach wk_one" by (meson rtranclp.rtrancl_into_rtrancl r_into_rtranclp)
  have "wk_step wk_one wk_taken" unfolding wk_taken_def
    by (rule wk_step.get) (simp_all add: wk_gone_eq worker_init_def)
  with a show b: "wk_reach wk_taken" by (rule rtranclp.rtrancl_into_rtrancl)
  have "wk_step wk_taken wk_gone" unfolding wk_gone_def by (rule wk_step.expire)
  with b show "wk_reach wk_gone" by (rule rtranclp.rtrancl_into_rtrancl)
qed

lemma audit_queue_ordered_witness: "length (wk_queue wk_one) \<le> 257"
  using audit_queue_ordered [OF wk_demo_reach(1)] by simp

text \<open>No caller waits for nothing: in every reachable state each receipt handed out is resolved,
  waits its turn, or is inside the writer.\<close>
theorem audit_receipts_accounted:
  assumes "wk_reach w" "i < length (wk_receipts w)" "wk_receipts w ! i = None"
  shows "wk_point w = Took (Some i) \<or> Some i \<in> set (wk_queue w) \<or> wk_in_flight w = Some i"
  using wk_reach_inv [OF assms(1)] assms(2,3) by (auto simp: wk_inv_def in_waiting wk_in_flight_def)

lemma audit_receipts_accounted_witness: "wk_point wk_taken = Took (Some 0)"
  using audit_receipts_accounted [OF wk_demo_reach(2), of 0]
  by (simp add: wk_gone_eq worker_init_def wk_in_flight_def)

text \<open>A failed audit worker writes nothing new: once the worker has failed, by an error of the
  writer, a full queue or a caller's timeout, it stays failed, and the only event that can still
  reach the writer is the one its thread had already taken.\<close>
theorem failed_worker_writes_nothing_new:
  assumes "wk_reach w" "wk_failed w" "wk_step\<^sup>*\<^sup>* w v"
  shows "wk_failed v \<and> handed v = handed w \<and> set (wk_written v) \<subseteq> set (handed w)"
proof -
  have "failed v \<and> handed v = handed w"
    using audit_failure.latched_steps [OF assms(3) wk_reach_inv [OF assms(1)]] assms(2)
    by (simp add: failed_def)
  moreover have "set (wk_written v) \<subseteq> set (handed v)" by (auto simp: handed_def)
  ultimately show ?thesis by (simp add: failed_def)
qed

lemma failed_worker_writes_nothing_new_witness:
  "wk_failed (worker_begins 0 wk_gone) \<and> handed (worker_begins 0 wk_gone) = [0]"
proof -
  have e: "wk_failed wk_gone" "wk_point wk_gone = Took (Some 0)" "wk_started wk_gone" "handed wk_gone = [0]"
    by (simp_all add: wk_gone_def worker_expire_def wk_gone_eq worker_init_def handed_def)
  then have "wk_step\<^sup>*\<^sup>* wk_gone (worker_begins 0 wk_gone)"
    by (intro r_into_rtranclp wk_step.begins)
  from failed_worker_writes_nothing_new [OF wk_demo_reach(3) e(1) this] e show ?thesis by simp
qed

end
