(* ===== verification/Mission.thy ===== *)
theory Mission
  imports PyValue Machines
begin

text \<open>
  The deterministic controller of the hospital mission:
  \<^verbatim>\<open>smartcar_bringup/controller_core.py\<close>. Numbers are binary64 floats with their rounding,
  special values and the rules of Python's comparisons; the functions of the C library behind the
  math module are the argument \<open>lm\<close>. An operation that may raise returns a result, with the
  state it leaves behind.
\<close>

section \<open>Data\<close>

datatype mission_state = IDLE | MRUNNING | SUCCEEDED | MFAILED | CANCELLED | MESTOPPED

record pose2d =
  po_x :: pyfloat
  po_y :: pyfloat
  po_yaw :: pyfloat

record velocity =
  ve_linear :: pyfloat
  ve_angular :: pyfloat

record waypoint =
  wp_x :: pyfloat
  wp_y :: pyfloat

record mission_stage =
  ms_id :: string
  ms_name :: string
  ms_endpoint :: waypoint
  ms_waypoints :: "waypoint list"

record mission_route =
  mr_start :: pose2d
  mr_stages :: "mission_stage list"

record controller_config =
  waypoint_tolerance :: pyfloat
  max_linear :: pyfloat
  max_angular :: pyfloat
  cf_max_linear_acceleration :: pyfloat
  cf_max_angular_acceleration :: pyfloat
  angular_kp :: pyfloat
  lookahead_distance :: pyfloat
  rotate_to_heading_min_angle :: pyfloat
  final_slow_distance :: pyfloat
  mission_timeout :: pyfloat
  odom_timeout :: pyfloat
  obstacle_stop_distance :: pyfloat
  obstacle_fail_after :: pyfloat
  progress_timeout :: pyfloat
  progress_epsilon :: pyfloat
  progress_heading_epsilon :: pyfloat

text \<open>The defaults, as the floats their decimal literals read as.\<close>

definition default_config :: controller_config where
  "default_config = \<lparr>waypoint_tolerance = Fin (3152519739159347 / 9007199254740992),
     max_linear = Fin (7926335344172073 / 36028797018963968), max_angular = Fin 1,
     cf_max_linear_acceleration = Fin (1 / 2), cf_max_angular_acceleration = Fin 1,
     angular_kp = Fin (3602879701896397 / 2251799813685248),
     lookahead_distance = Fin (5404319552844595 / 9007199254740992),
     rotate_to_heading_min_angle = Fin (7070651414971679 / 9007199254740992),
     final_slow_distance = Fin (5404319552844595 / 9007199254740992), mission_timeout = Fin 180,
     odom_timeout = Fin (1 / 2), obstacle_stop_distance = Fin (3152519739159347 / 9007199254740992),
     obstacle_fail_after = Fin 5, progress_timeout = Fin 12,
     progress_epsilon = Fin (3602879701896397 / 72057594037927936),
     progress_heading_epsilon = Fin (3602879701896397 / 72057594037927936)\<rparr>"

definition mk_velocity :: "pyfloat \<Rightarrow> pyfloat \<Rightarrow> velocity" where
  "mk_velocity l a = \<lparr>ve_linear = l, ve_angular = a\<rparr>"

definition zero_velocity :: velocity where "zero_velocity = mk_velocity (Fin 0) (Fin 0)"

definition mk_waypoint :: "pyfloat \<Rightarrow> pyfloat \<Rightarrow> waypoint" where
  "mk_waypoint x y = \<lparr>wp_x = x, wp_y = y\<rparr>"

section \<open>Geometry\<close>

definition normalize_angle :: "pyfloat \<Rightarrow> pyfloat" where
  "normalize_angle angle =
     (let r = fsub (fmod_pos (fadd angle (Fin py_pi)) (2 * py_pi)) (Fin py_pi) in
      if py_isclose r (Fin (- py_pi)) \<and> flt (Fin 0) angle then Fin py_pi else r)"

definition world_pose_to_odom :: "libm \<Rightarrow> pose2d \<Rightarrow> pose2d \<Rightarrow> pose2d result" where
  "world_pose_to_odom lm start world_pose =
     (let dx = fsub (po_x world_pose) (po_x start); dy = fsub (po_y world_pose) (po_y start) in
      rbind (py_cos lm (po_yaw start)) (\<lambda>cosine. rbind (py_sin lm (po_yaw start)) (\<lambda>sine.
        Ret \<lparr>po_x = fadd (fmul cosine dx) (fmul sine dy),
             po_y = fadd (fmul (fneg sine) dx) (fmul cosine dy),
             po_yaw = normalize_angle (fsub (po_yaw world_pose) (po_yaw start))\<rparr>)))"

fun carrot_along :: "libm \<Rightarrow> pyfloat \<Rightarrow> pyfloat \<Rightarrow> pyfloat \<Rightarrow> waypoint list \<Rightarrow> waypoint result" where
  "carrot_along lm x y remaining [] = Ret (mk_waypoint x y)"
| "carrot_along lm x y remaining (p # path) =
     (let segment = lm_hypot lm (fsub (wp_x p) x) (fsub (wp_y p) y) in
      if fle remaining segment \<and> flt (Fin 0) segment
      then rbind (fdiv remaining segment) (\<lambda>ratio.
        Ret (mk_waypoint (fadd x (fmul ratio (fsub (wp_x p) x))) (fadd y (fmul ratio (fsub (wp_y p) y)))))
      else carrot_along lm (wp_x p) (wp_y p) (fsub remaining segment) path)"

definition interpolate_lookahead_carrot :: "libm \<Rightarrow> pose2d \<Rightarrow> waypoint list \<Rightarrow> pyfloat \<Rightarrow> waypoint result" where
  "interpolate_lookahead_carrot lm pose path lookahead =
     (if path = [] \<or> \<not> is_fin lookahead \<or> fle lookahead (Fin 0) then Raise RouteValidationError
      else carrot_along lm (po_x pose) (po_y pose) lookahead path)"

text \<open>The literal \<^verbatim>\<open>1e-12\<close>.\<close>

definition TINY :: pyfloat where "TINY = Fin (4951760157141521 / 4951760157141521099596496896)"

definition pure_pursuit_curvature :: "pyfloat \<Rightarrow> pyfloat \<Rightarrow> pyfloat result" where
  "pure_pursuit_curvature carrot_x carrot_y =
     (let distance_squared = fadd (fmul carrot_x carrot_x) (fmul carrot_y carrot_y) in
      if fle distance_squared TINY then Ret (Fin 0)
      else fdiv (fmul (Fin 2) carrot_y) distance_squared)"

section \<open>Routes\<close>

definition route_number :: "pyval \<Rightarrow> pyfloat result" where
  "route_number v =
     (if \<not> is_number v then Raise RouteValidationError
      else rbind (py_float v) (\<lambda>x. if is_fin x then Ret x else Raise RouteValidationError))"

fun route_point :: "pyval \<Rightarrow> waypoint result" where
  "route_point (VList [x, y]) = rbind (route_number x) (\<lambda>px. rbind (route_number y) (\<lambda>py. Ret (mk_waypoint px py)))"
| "route_point _ = Raise RouteValidationError"

text \<open>The literal \<^verbatim>\<open>1e-6\<close>.\<close>

definition ENDPOINT_TOLERANCE :: pyfloat where
  "ENDPOINT_TOLERANCE = Fin (4722366482869645 / 4722366482869645213696)"

definition blank_text :: "pyval \<Rightarrow> bool" where
  "blank_text v \<longleftrightarrow> \<not> is_str v \<or> strip (str_val v) = []"

fun route_stage :: "libm \<Rightarrow> string list \<Rightarrow> pyval \<Rightarrow> mission_stage result" where
  "route_stage lm seen (VDict d) =
     (if blank_text (vget d ''id'') then Raise RouteValidationError
      else if str_val (vget d ''id'') \<in> set seen then Raise RouteValidationError
      else if blank_text (vget d ''name'') then Raise RouteValidationError
      else (case vget d ''waypoints'' of
        VList raw \<Rightarrow>
          if raw = [] then Raise RouteValidationError
          else
            rbind (rmap route_point raw) (\<lambda>waypoints.
            rbind (route_point (vget d ''endpoint'')) (\<lambda>endpoint.
              if flt ENDPOINT_TOLERANCE (lm_hypot lm (fsub (wp_x (last waypoints)) (wp_x endpoint))
                   (fsub (wp_y (last waypoints)) (wp_y endpoint)))
              then Raise RouteValidationError
              else Ret \<lparr>ms_id = str_val (vget d ''id''), ms_name = str_val (vget d ''name''),
                     ms_endpoint = endpoint, ms_waypoints = waypoints\<rparr>))
      | _ \<Rightarrow> Raise RouteValidationError))"
| "route_stage lm seen _ = Raise RouteValidationError"

fun route_stages :: "libm \<Rightarrow> string list \<Rightarrow> pyval list \<Rightarrow> mission_stage list result" where
  "route_stages lm seen [] = Ret []"
| "route_stages lm seen (v # vs) =
     rbind (route_stage lm seen v) (\<lambda>s. rbind (route_stages lm (ms_id s # seen) vs) (\<lambda>ss. Ret (s # ss)))"

fun route_start :: "pyval \<Rightarrow> pose2d result" where
  "route_start (VList [x, y, yaw]) =
     rbind (route_number x) (\<lambda>a. rbind (route_number y) (\<lambda>b. rbind (route_number yaw) (\<lambda>c.
       Ret \<lparr>po_x = a, po_y = b, po_yaw = c\<rparr>)))"
| "route_start _ = Raise RouteValidationError"

text \<open>The document is what reading and decoding the file gives; their failures are route errors.\<close>

fun load_route :: "libm \<Rightarrow> pyval option \<Rightarrow> mission_route result" where
  "load_route lm (Some (VDict d)) =
     rbind (route_start (vget d ''start'')) (\<lambda>start.
       case vget d ''stages'' of
         VList vs \<Rightarrow> if length vs \<noteq> 3 then Raise RouteValidationError
           else rbind (route_stages lm [] vs) (\<lambda>stages. Ret \<lparr>mr_start = start, mr_stages = stages\<rparr>)
       | _ \<Rightarrow> Raise RouteValidationError)"
| "load_route lm _ = Raise RouteValidationError"

section \<open>The controller's state and its requests\<close>

record stage_result =
  sr_id :: string
  sr_name :: string
  sr_endpoint_error :: pyfloat
  sr_elapsed :: pyfloat

record mission =
  mc_route :: mission_route
  mc_config :: controller_config
  mc_state :: mission_state
  mc_failure_code :: "string option"
  mc_started_at :: "pyfloat option"
  mc_started_watchdog_at :: "pyfloat option"
  mc_stage_index :: nat
  mc_waypoint_index :: nat
  mc_stage_results :: "stage_result list"
  mc_last_odom_at :: "pyfloat option"
  mc_last_update_at :: "pyfloat option"
  mc_obstacle_since :: "pyfloat option"
  mc_progress_target :: "(nat \<times> nat) option"
  mc_best_distance :: "pyfloat option"
  mc_best_heading_error :: "pyfloat option"
  mc_progress_at :: "pyfloat option"
  mc_failed_stage_id :: "string option"
  mc_failed_waypoint_index :: "nat option"

definition reset_progress :: "mission \<Rightarrow> mission" where
  "reset_progress m = m\<lparr>mc_progress_target := None, mc_best_distance := None,
     mc_best_heading_error := None, mc_progress_at := None\<rparr>"

definition mission_init :: "mission_route \<Rightarrow> controller_config \<Rightarrow> mission" where
  "mission_init route config =
     \<lparr>mc_route = route, mc_config = config, mc_state = IDLE, mc_failure_code = None, mc_started_at = None,
      mc_started_watchdog_at = None, mc_stage_index = 0, mc_waypoint_index = 0, mc_stage_results = [],
      mc_last_odom_at = None, mc_last_update_at = None, mc_obstacle_since = None,
      mc_progress_target = None, mc_best_distance = None, mc_best_heading_error = None,
      mc_progress_at = None, mc_failed_stage_id = None, mc_failed_waypoint_index = None\<rparr>"

definition mission_start :: "pyfloat \<Rightarrow> pyfloat option \<Rightarrow> mission \<Rightarrow> (bool \<times> string) \<times> mission" where
  "mission_start now watchdog_now m =
     (if mc_state m = MRUNNING then ((False, ''mission already running''), m)
      else if mc_state m = MESTOPPED then ((False, ''emergency stop is latched''), m)
      else ((True, ''mission started''),
        (reset_progress (m\<lparr>mc_state := MRUNNING, mc_failure_code := None, mc_started_at := Some now,
           mc_started_watchdog_at := Some (case watchdog_now of None \<Rightarrow> now | Some w \<Rightarrow> w),
           mc_stage_index := 0, mc_waypoint_index := 0, mc_stage_results := [], mc_last_odom_at := None,
           mc_last_update_at := Some now, mc_obstacle_since := None\<rparr>))
        \<lparr>mc_failed_stage_id := None, mc_failed_waypoint_index := None\<rparr>))"

definition mission_cancel :: "mission \<Rightarrow> (bool \<times> string) \<times> mission" where
  "mission_cancel m =
     (if mc_state m \<noteq> MRUNNING then ((False, ''mission is not running''), m)
      else ((True, ''mission cancelled''), m\<lparr>mc_state := CANCELLED\<rparr>))"

definition mission_estop :: "mission \<Rightarrow> (bool \<times> string) \<times> mission" where
  "mission_estop m =
     (if mc_state m = MESTOPPED then ((True, ''emergency stop already latched''), m)
      else ((True, ''emergency stop latched''), m\<lparr>mc_state := MESTOPPED\<rparr>))"

definition mission_reset :: "mission \<Rightarrow> (bool \<times> string) \<times> mission" where
  "mission_reset m =
     (if mc_state m = MRUNNING then ((False, ''cancel the running mission before reset''), m)
      else ((True, ''controller reset''),
        (reset_progress (m\<lparr>mc_state := IDLE, mc_failure_code := None, mc_started_at := None,
           mc_started_watchdog_at := None, mc_stage_index := 0, mc_waypoint_index := 0,
           mc_stage_results := [], mc_last_odom_at := None, mc_last_update_at := None,
           mc_obstacle_since := None\<rparr>))
        \<lparr>mc_failed_stage_id := None, mc_failed_waypoint_index := None\<rparr>))"

section \<open>The control update\<close>

definition mission_fail :: "string \<Rightarrow> mission \<Rightarrow> mission" where
  "mission_fail code m =
     (let m1 = m\<lparr>mc_state := MFAILED, mc_failure_code := Some code\<rparr> in
      if mc_stage_index m < length (mr_stages (mc_route m))
      then m1\<lparr>mc_failed_stage_id := Some (ms_id (mr_stages (mc_route m) ! mc_stage_index m)),
              mc_failed_waypoint_index := Some (mc_waypoint_index m)\<rparr>
      else m1)"

definition py_nth :: "'a list \<Rightarrow> nat \<Rightarrow> 'a result" where
  "py_nth xs i = (if i < length xs then Ret (xs ! i) else Raise PyIndexError)"

definition waypoint_in_odom :: "libm \<Rightarrow> mission_route \<Rightarrow> waypoint \<Rightarrow> waypoint result" where
  "waypoint_in_odom lm route w =
     rbind (world_pose_to_odom lm (mr_start route)
         \<lparr>po_x = wp_x w, po_y = wp_y w, po_yaw = po_yaw (mr_start route)\<rparr>)
       (\<lambda>t. Ret (mk_waypoint (po_x t) (po_y t)))"

definition distance_to :: "libm \<Rightarrow> waypoint \<Rightarrow> pose2d \<Rightarrow> pyfloat" where
  "distance_to lm w pose = lm_hypot lm (fsub (wp_x w) (po_x pose)) (fsub (wp_y w) (po_y pose))"

text \<open>The stage and the odometry-frame waypoint the mission is heading for.\<close>

definition current_target :: "libm \<Rightarrow> mission \<Rightarrow> (mission_stage \<times> waypoint) result" where
  "current_target lm m =
     rbind (py_nth (mr_stages (mc_route m)) (mc_stage_index m)) (\<lambda>stage.
     rbind (py_nth (ms_waypoints stage) (mc_waypoint_index m)) (\<lambda>w.
     rbind (waypoint_in_odom lm (mc_route m) w) (\<lambda>t. Ret (stage, t))))"

text \<open>
  The loop over the waypoints reached: true where the mission has succeeded, false where a
  waypoint is still ahead.
\<close>

function advance :: "libm \<Rightarrow> pose2d \<Rightarrow> pyfloat \<Rightarrow> mission \<Rightarrow> bool result \<times> mission" where
  "advance lm pose now m =
     (case current_target lm m of Inl e \<Rightarrow> (Raise e, m) | Inr (stage, target) \<Rightarrow>
      if flt (waypoint_tolerance (mc_config m)) (distance_to lm target pose) then (Ret False, m)
      else
        (let m1 = reset_progress (m\<lparr>mc_waypoint_index := Suc (mc_waypoint_index m)\<rparr>) in
         if mc_waypoint_index m1 < length (ms_waypoints stage) then advance lm pose now m1
         else
           (case waypoint_in_odom lm (mc_route m) (ms_endpoint stage) of Inl e \<Rightarrow> (Raise e, m1) | Inr endpoint \<Rightarrow>
            (let result = \<lparr>sr_id = ms_id stage, sr_name = ms_name stage,
                   sr_endpoint_error = distance_to lm endpoint pose,
                   sr_elapsed = (case mc_started_at m of Some t \<Rightarrow> fsub now t | None \<Rightarrow> Fin 0)\<rparr>;
                 m2 = m1\<lparr>mc_stage_results := mc_stage_results m1 @ [result],
                         mc_stage_index := Suc (mc_stage_index m1), mc_waypoint_index := 0\<rparr>
             in if mc_stage_index m2 = length (mr_stages (mc_route m2))
                then (Ret True, m2\<lparr>mc_state := SUCCEEDED\<rparr>) else advance lm pose now m2))))"
  by pat_completeness auto

lemma current_target_index:
  "current_target lm m = Ret (stage, t) \<Longrightarrow> mc_stage_index m < length (mr_stages (mc_route m)) \<and>
    stage = mr_stages (mc_route m) ! mc_stage_index m \<and> mc_waypoint_index m < length (ms_waypoints stage)"
  by (auto simp: current_target_def py_nth_def split: if_splits)

lemma reset_progress_frame [simp]:
  "mc_route (reset_progress m) = mc_route m" "mc_config (reset_progress m) = mc_config m"
  "mc_state (reset_progress m) = mc_state m" "mc_stage_index (reset_progress m) = mc_stage_index m"
  "mc_waypoint_index (reset_progress m) = mc_waypoint_index m"
  "mc_stage_results (reset_progress m) = mc_stage_results m"
  "mc_started_at (reset_progress m) = mc_started_at m"
  "mc_failure_code (reset_progress m) = mc_failure_code m"
  by (simp_all add: reset_progress_def)

termination advance
proof (relation "measures [\<lambda>(lm, pose, now, m). length (mr_stages (mc_route m)) - mc_stage_index m,
    \<lambda>(lm, pose, now, m). length (ms_waypoints (mr_stages (mc_route m) ! mc_stage_index m)) - mc_waypoint_index m]")
  show "wf (measures [\<lambda>(lm, pose, now, m). length (mr_stages (mc_route m)) - mc_stage_index m,
    \<lambda>(lm, pose, now, m). length (ms_waypoints (mr_stages (mc_route m) ! mc_stage_index m)) - mc_waypoint_index m])"
    by simp
qed (auto dest!: current_target_index)

declare advance.simps [simp del]

text \<open>The progress bookkeeping; true where the waypoint makes no progress for too long.\<close>

definition track_progress :: "pyfloat \<Rightarrow> pyfloat \<Rightarrow> pyfloat \<Rightarrow> mission \<Rightarrow> bool \<times> mission" where
  "track_progress now distance heading m =
     (let identity = (mc_stage_index m, mc_waypoint_index m); cfg = mc_config m in
      if mc_progress_target m \<noteq> Some identity
      then (False, m\<lparr>mc_progress_target := Some identity, mc_best_distance := Some distance,
              mc_best_heading_error := Some heading, mc_progress_at := Some now\<rparr>)
      else if (case mc_best_distance m of None \<Rightarrow> False | Some b \<Rightarrow> fle distance (fsub b (progress_epsilon cfg)))
      then (False, m\<lparr>mc_best_distance := Some distance, mc_best_heading_error := Some heading, mc_progress_at := Some now\<rparr>)
      else if (case mc_best_heading_error m of None \<Rightarrow> False | Some b \<Rightarrow> fle heading (fsub b (progress_heading_epsilon cfg)))
      then (False, m\<lparr>mc_best_heading_error := Some heading, mc_progress_at := Some now\<rparr>)
      else (case mc_progress_at m of None \<Rightarrow> False | Some t \<Rightarrow> flt (progress_timeout cfg) (fsub now t), m))"

text \<open>The regulated pure pursuit: from the carrot in the odometry frame to the command.\<close>

definition pursue :: "libm \<Rightarrow> controller_config \<Rightarrow> pose2d \<Rightarrow> waypoint \<Rightarrow> pyfloat \<Rightarrow> bool \<Rightarrow> velocity result" where
  "pursue lm cfg pose carrot distance final =
     (let cdx = fsub (wp_x carrot) (po_x pose); cdy = fsub (wp_y carrot) (po_y pose) in
      rbind (py_cos lm (po_yaw pose)) (\<lambda>cosine. rbind (py_sin lm (po_yaw pose)) (\<lambda>sine.
        let base_x = fadd (fmul cosine cdx) (fmul sine cdy);
            base_y = fadd (fmul (fneg sine) cdx) (fmul cosine cdy);
            carrot_angle = lm_atan2 lm base_y base_x
        in if flt (rotate_to_heading_min_angle cfg) (fabs carrot_angle)
           then Ret (mk_velocity (Fin 0) (fclamp (max_angular cfg) (fmul (angular_kp cfg) carrot_angle)))
           else
             rbind (pure_pursuit_curvature base_x base_y) (\<lambda>curvature.
             rbind (if flt TINY (fabs curvature)
                    then rbind (fdiv (max_angular cfg) (fabs curvature)) (\<lambda>v. Ret (fmin (max_linear cfg) v))
                    else Ret (max_linear cfg)) (\<lambda>linear.
             rbind (if final then rbind (fdiv distance (final_slow_distance cfg)) (\<lambda>v. Ret (fmul linear (fmin (Fin 1) v)))
                    else Ret linear) (\<lambda>linear.
               Ret (mk_velocity linear (fclamp (max_angular cfg) (fmul linear curvature)))))))))"

definition steer :: "libm \<Rightarrow> pose2d \<Rightarrow> pyfloat \<Rightarrow> mission \<Rightarrow> velocity result \<times> mission" where
  "steer lm pose now m =
     (case current_target lm m of Inl e \<Rightarrow> (Raise e, m) | Inr (stage, target) \<Rightarrow>
      (let dx = fsub (wp_x target) (po_x pose); dy = fsub (wp_y target) (po_y pose);
           distance = lm_hypot lm dx dy;
           heading = fabs (normalize_angle (fsub (lm_atan2 lm dy dx) (po_yaw pose)));
           (stuck, m1) = track_progress now distance heading m
       in if stuck then (Ret zero_velocity, mission_fail ''WAYPOINT_NO_PROGRESS'' m1)
          else
            (rbind (rmap (waypoint_in_odom lm (mc_route m)) (drop (mc_waypoint_index m) (ms_waypoints stage))) (\<lambda>path.
             rbind (interpolate_lookahead_carrot lm pose path (lookahead_distance (mc_config m))) (\<lambda>carrot.
               pursue lm (mc_config m) pose carrot distance
                 (Suc (mc_stage_index m) = length (mr_stages (mc_route m)) \<and>
                  Suc (mc_waypoint_index m) = length (ms_waypoints stage)))), m1)))"

definition drive :: "libm \<Rightarrow> pose2d \<Rightarrow> pyfloat \<Rightarrow> mission \<Rightarrow> velocity result \<times> mission" where
  "drive lm pose now m =
     (case advance lm pose now m of
        (Inl e, m') \<Rightarrow> (Raise e, m')
      | (Inr True, m') \<Rightarrow> (Ret zero_velocity, m')
      | (Inr False, m') \<Rightarrow> steer lm pose now m')"

definition older :: "pyfloat \<Rightarrow> pyfloat option \<Rightarrow> pyfloat \<Rightarrow> bool" where
  "older now since limit \<longleftrightarrow> (case since of None \<Rightarrow> False | Some t \<Rightarrow> flt limit (fsub now t))"

definition mission_update ::
  "libm \<Rightarrow> pose2d option \<Rightarrow> pyfloat \<Rightarrow> pyfloat \<Rightarrow> pyfloat option \<Rightarrow> pyfloat option \<Rightarrow> mission \<Rightarrow>
   velocity result \<times> mission" where
  "mission_update lm pose now front_range odom_received_at watchdog_now m =
     (let watchdog = (case watchdog_now of None \<Rightarrow> now | Some w \<Rightarrow> w);
          m0 = m\<lparr>mc_last_update_at := Some now\<rparr>; cfg = mc_config m in
      if mc_state m \<noteq> MRUNNING then (Ret zero_velocity, m0)
      else if older now (mc_started_at m) (mission_timeout cfg)
      then (Ret zero_velocity, mission_fail ''MISSION_TIMEOUT'' m0)
      else (case pose of
        None \<Rightarrow>
          let reference = (case mc_last_odom_at m of None \<Rightarrow> mc_started_watchdog_at m | Some t \<Rightarrow> Some t) in
          (Ret zero_velocity,
           if older watchdog reference (odom_timeout cfg) then mission_fail ''ODOM_STALE'' m0 else m0)
      | Some p \<Rightarrow>
          let received = (case odom_received_at of None \<Rightarrow> watchdog | Some t \<Rightarrow> t);
              m1 = m0\<lparr>mc_last_odom_at := Some received\<rparr> in
          if flt (odom_timeout cfg) (fsub watchdog received)
          then (Ret zero_velocity, mission_fail ''ODOM_STALE'' m1)
          else if is_fin front_range \<and> flt front_range (obstacle_stop_distance cfg)
          then (Ret zero_velocity,
            (case mc_obstacle_since m of
               None \<Rightarrow> m1\<lparr>mc_obstacle_since := Some now\<rparr>
             | Some t \<Rightarrow> if flt (obstacle_fail_after cfg) (fsub now t) then mission_fail ''OBSTACLE_BLOCKED'' m1 else m1))
          else
            drive lm p now (m1\<lparr>mc_obstacle_since := None\<rparr>)))"

section \<open>Well-formed missions\<close>

definition route_ok :: "mission_route \<Rightarrow> bool" where
  "route_ok r \<longleftrightarrow> mr_stages r \<noteq> [] \<and> (\<forall>s \<in> set (mr_stages r). ms_waypoints s \<noteq> []) \<and> is_fin (po_yaw (mr_start r))"

fun fin_with :: "(rat \<Rightarrow> bool) \<Rightarrow> pyfloat \<Rightarrow> bool" where
  "fin_with P (Fin r) = P r"
| "fin_with P _ = False"

lemma fin_with_iff: "fin_with P x \<longleftrightarrow> (\<exists>r. x = Fin r \<and> P r)"
  by (cases x) auto

definition config_ok :: "controller_config \<Rightarrow> bool" where
  "config_ok c \<longleftrightarrow> fin_with (\<lambda>l. 0 \<le> l \<and> mk_float l = Fin l) (max_linear c) \<and> fin_with (\<lambda>a. 0 \<le> a) (max_angular c) \<and>
     fin_with (\<lambda>f. 0 < f) (final_slow_distance c) \<and> fin_with (\<lambda>t. 0 \<le> t) (waypoint_tolerance c) \<and>
     fin_with (\<lambda>k. 0 < k) (lookahead_distance c)"

lemma default_config_ok: "config_ok default_config"
proof -
  have "mk_float (7926335344172073 / 36028797018963968) = Fin (7926335344172073 / 36028797018963968)"
    by (simp add: float_eval)
  then show ?thesis by (simp add: config_ok_def default_config_def)
qed

definition on_route :: "mission \<Rightarrow> bool" where
  "on_route m \<longleftrightarrow> mc_stage_index m < length (mr_stages (mc_route m)) \<and>
     mc_waypoint_index m < length (ms_waypoints (mr_stages (mc_route m) ! mc_stage_index m))"

definition results_ok :: "mission \<Rightarrow> bool" where
  "results_ok m \<longleftrightarrow> map sr_id (mc_stage_results m) = map ms_id (take (mc_stage_index m) (mr_stages (mc_route m))) \<and>
     map sr_name (mc_stage_results m) = map ms_name (take (mc_stage_index m) (mr_stages (mc_route m))) \<and>
     mc_stage_index m \<le> length (mr_stages (mc_route m))"

text \<open>A failure names its reason and the waypoint the mission was heading for.\<close>

definition FAILURE_CODES :: "string set" where
  "FAILURE_CODES = {''MISSION_TIMEOUT'', ''ODOM_STALE'', ''OBSTACLE_BLOCKED'', ''WAYPOINT_NO_PROGRESS''}"

definition failure_ok :: "mission \<Rightarrow> bool" where
  "failure_ok m \<longleftrightarrow>
     (mc_state m = MFAILED \<longrightarrow> on_route m \<and> mc_failure_code m \<in> Some ` FAILURE_CODES \<and>
       mc_failed_stage_id m = Some (ms_id (mr_stages (mc_route m) ! mc_stage_index m)) \<and>
       mc_failed_waypoint_index m = Some (mc_waypoint_index m)) \<and>
     (mc_state m \<in> {IDLE, MRUNNING, SUCCEEDED, CANCELLED} \<longrightarrow> mc_failure_code m = None)"

definition mission_inv :: "mission \<Rightarrow> bool" where
  "mission_inv m \<longleftrightarrow> route_ok (mc_route m) \<and> config_ok (mc_config m) \<and> results_ok m \<and> failure_ok m \<and>
     (mc_state m = MRUNNING \<longrightarrow> on_route m \<and> mc_started_at m \<noteq> None) \<and>
     (mc_state m = SUCCEEDED \<longrightarrow> mc_stage_index m = length (mr_stages (mc_route m)))"

lemma waypoint_in_odom_total: "is_fin (po_yaw (mr_start r)) \<Longrightarrow> \<exists>t. waypoint_in_odom lm r w = Ret t"
  by (cases "po_yaw (mr_start r)") (simp_all add: waypoint_in_odom_def world_pose_to_odom_def py_cos_def py_sin_def Let_def)

lemma current_target_total:
  assumes "route_ok (mc_route m)" "on_route m"
  obtains t where "current_target lm m = Ret (mr_stages (mc_route m) ! mc_stage_index m, t)"
proof -
  obtain t where "waypoint_in_odom lm (mc_route m)
      (ms_waypoints (mr_stages (mc_route m) ! mc_stage_index m) ! mc_waypoint_index m) = Ret t"
    using waypoint_in_odom_total assms(1) by (fastforce simp: route_ok_def)
  with assms(2) that show thesis by (simp add: current_target_def py_nth_def on_route_def)
qed

lemma results_ok_snoc:
  assumes "results_ok m" "mc_stage_index m < length (mr_stages (mc_route m))"
    "sr_id r = ms_id (mr_stages (mc_route m) ! mc_stage_index m)"
    "sr_name r = ms_name (mr_stages (mc_route m) ! mc_stage_index m)"
    "mc_route m' = mc_route m" "mc_stage_results m' = mc_stage_results m @ [r]"
    "mc_stage_index m' = Suc (mc_stage_index m)"
  shows "results_ok m'"
  using assms by (simp add: results_ok_def take_Suc_conv_app_nth)

lemma results_ok_cong:
  "results_ok m \<Longrightarrow> mc_route m' = mc_route m \<Longrightarrow> mc_stage_results m' = mc_stage_results m \<Longrightarrow>
    mc_stage_index m' = mc_stage_index m \<Longrightarrow> results_ok m'"
  by (simp add: results_ok_def)

text \<open>What the loop does on a running mission of a sound route.\<close>

definition advanced :: "libm \<Rightarrow> pose2d \<Rightarrow> mission \<Rightarrow> bool \<Rightarrow> mission \<Rightarrow> bool" where
  "advanced lm pose m b m' \<longleftrightarrow> mc_route m' = mc_route m \<and> mc_config m' = mc_config m \<and>
    mc_started_at m' = mc_started_at m \<and> mc_failure_code m' = mc_failure_code m \<and> results_ok m' \<and>
    mc_stage_index m \<le> mc_stage_index m' \<and>
    (if b then mc_state m' = SUCCEEDED \<and> mc_stage_index m' = length (mr_stages (mc_route m))
     else mc_state m' = MRUNNING \<and> on_route m' \<and>
       (\<exists>stage t. current_target lm m' = Ret (stage, t) \<and>
          flt (waypoint_tolerance (mc_config m)) (distance_to lm t pose)))"

lemma advanced_mono:
  "advanced lm pose m1 b m' \<Longrightarrow> mc_route m1 = mc_route m \<Longrightarrow> mc_config m1 = mc_config m \<Longrightarrow>
    mc_started_at m1 = mc_started_at m \<Longrightarrow> mc_failure_code m1 = mc_failure_code m \<Longrightarrow>
    mc_stage_index m \<le> mc_stage_index m1 \<Longrightarrow> advanced lm pose m b m'"
  by (auto simp: advanced_def)

lemma advance_spec:
  assumes "route_ok (mc_route m)" "on_route m" "results_ok m" "mc_state m = MRUNNING"
  shows "\<exists>b m'. advance lm pose now m = (Ret b, m') \<and> advanced lm pose m b m'"
  using assms
proof (induction lm pose now m rule: advance.induct)
  case (1 lm pose now m)
  define stage where "stage = mr_stages (mc_route m) ! mc_stage_index m"
  obtain t where t: "current_target lm m = Ret (stage, t)"
    using current_target_total [OF 1(3,4)] unfolding stage_def by blast
  have ix: "mc_stage_index m < length (mr_stages (mc_route m))" using 1(4) by (simp add: on_route_def)
  show ?case
  proof (cases "flt (waypoint_tolerance (mc_config m)) (distance_to lm t pose)")
    case True
    with t have "advance lm pose now m = (Ret False, m)" by (simp add: advance.simps [of lm pose now m])
    with True t 1(4-6) show ?thesis by (intro exI [of _ False] exI [of _ m]) (simp add: advanced_def)
  next
    case False
    define m1 where "m1 = reset_progress (m\<lparr>mc_waypoint_index := Suc (mc_waypoint_index m)\<rparr>)"
    have m1: "mc_route m1 = mc_route m" "mc_config m1 = mc_config m" "mc_state m1 = mc_state m"
      "mc_stage_index m1 = mc_stage_index m" "mc_waypoint_index m1 = Suc (mc_waypoint_index m)"
      "mc_stage_results m1 = mc_stage_results m" "mc_started_at m1 = mc_started_at m"
      "mc_failure_code m1 = mc_failure_code m"
      by (simp_all add: m1_def)
    show ?thesis
    proof (cases "mc_waypoint_index m1 < length (ms_waypoints stage)")
      case next_wp: True
      have "on_route m1" using next_wp ix by (simp add: on_route_def m1 stage_def)
      moreover have "advance lm pose now m = advance lm pose now m1"
        using t False next_wp by (simp add: advance.simps [of lm pose now m] m1_def Let_def)
      ultimately obtain b m' where "advance lm pose now m = (Ret b, m')" "advanced lm pose m1 b m'"
        using 1(1) [OF t refl False m1_def next_wp] 1(3,5,6) results_ok_cong [OF 1(5), of m1] by (auto simp: m1)
      then show ?thesis using advanced_mono m1 by (metis order_refl)
    next
      case end_stage: False
      obtain endpoint where e: "waypoint_in_odom lm (mc_route m) (ms_endpoint stage) = Ret endpoint"
        using waypoint_in_odom_total 1(3) by (fastforce simp: route_ok_def)
      define result where "result = \<lparr>sr_id = ms_id stage, sr_name = ms_name stage,
        sr_endpoint_error = distance_to lm endpoint pose,
        sr_elapsed = (case mc_started_at m of Some t \<Rightarrow> fsub now t | None \<Rightarrow> Fin 0)\<rparr>"
      define m2 where "m2 = m1\<lparr>mc_stage_results := mc_stage_results m1 @ [result],
        mc_stage_index := Suc (mc_stage_index m1), mc_waypoint_index := 0\<rparr>"
      have m2: "mc_route m2 = mc_route m" "mc_config m2 = mc_config m" "mc_state m2 = mc_state m"
        "mc_stage_index m2 = Suc (mc_stage_index m)" "mc_waypoint_index m2 = 0" "mc_started_at m2 = mc_started_at m"
        "mc_stage_results m2 = mc_stage_results m @ [result]" "mc_failure_code m2 = mc_failure_code m"
        by (simp_all add: m2_def m1)
      have ok2: "results_ok m2"
        by (rule results_ok_snoc [OF 1(5) ix]) (simp_all add: m2 result_def stage_def)
      have adv: "advance lm pose now m = (if mc_stage_index m2 = length (mr_stages (mc_route m2))
          then (Ret True, m2\<lparr>mc_state := SUCCEEDED\<rparr>) else advance lm pose now m2)"
        using t False end_stage e
        by (simp add: advance.simps [of lm pose now m] m1_def [symmetric] m2_def result_def Let_def m1)
      show ?thesis
      proof (cases "mc_stage_index m2 = length (mr_stages (mc_route m2))")
        case True
        have "results_ok (m2\<lparr>mc_state := SUCCEEDED\<rparr>)" by (rule results_ok_cong [OF ok2]) simp_all
        with True adv show ?thesis
          by (intro exI [of _ True] exI [of _ "m2\<lparr>mc_state := SUCCEEDED\<rparr>"]) (simp add: m2 advanced_def)
      next
        case more: False
        then have ix2: "mc_stage_index m2 < length (mr_stages (mc_route m2))" using ix by (simp add: m2)
        then have "ms_waypoints (mr_stages (mc_route m2) ! mc_stage_index m2) \<noteq> []"
          using 1(3) by (simp add: route_ok_def m2)
        with ix2 have "on_route m2" by (simp add: on_route_def m2)
        with 1(2) [OF t refl False m1_def end_stage e result_def m2_def more] 1(3,6) ok2
        obtain b m' where "advance lm pose now m2 = (Ret b, m')" "advanced lm pose m2 b m'" by (auto simp: m2)
        moreover have "advanced lm pose m b m'"
          by (rule advanced_mono [OF calculation(2)]) (simp_all add: m2)
        ultimately show ?thesis using more adv by auto
      qed
    qed
  qed
qed

section \<open>The command\<close>

definition command_ok :: "controller_config \<Rightarrow> velocity \<Rightarrow> bool" where
  "command_ok c v \<longleftrightarrow> fin_with (\<lambda>l. fin_with (\<lambda>x. 0 \<le> x \<and> x \<le> l) (ve_linear v)) (max_linear c) \<and>
     fin_with (\<lambda>a. fin_with (\<lambda>y. \<bar>y\<bar> \<le> a) (ve_angular v)) (max_angular c)"

lemma zero_command_ok: "config_ok c \<Longrightarrow> command_ok c zero_velocity"
  by (auto simp: command_ok_def config_ok_def zero_velocity_def mk_velocity_def fin_with_iff)

lemma fmul_unit:
  assumes "mk_float l = Fin l" "0 \<le> q" "q \<le> l" "0 \<le> u" "u \<le> 1"
  shows "\<exists>r. fmul (Fin q) (Fin u) = Fin r \<and> 0 \<le> r \<and> r \<le> l"
proof -
  have "q * u \<le> q" using assms by (simp add: mult_left_le)
  then have "fle (mk_float (q * u)) (Fin l)" using mk_float_mono [of "q * u" l] assms(1,3) by simp
  moreover have "fle (Fin 0) (mk_float (q * u))" using mk_float_mono [of 0 "q * u"] assms(2,4) by simp
  ultimately show ?thesis by (cases "mk_float (q * u)") auto
qed

lemma fdiv_pos:
  assumes "fle (Fin 0) a" "flt (Fin 0) b"
  shows "\<exists>v. fdiv a b = Ret v \<and> (v = NaN \<or> fle (Fin 0) v)"
proof (cases b)
  case (Fin y)
  then have y: "0 < y" using assms(2) by simp
  show ?thesis
  proof (cases a)
    case (Fin x)
    then have "0 \<le> x / y" using assms(1) y by simp
    then have "fle (Fin 0) (mk_float (x / y))" using mk_float_mono [of 0 "x / y"] by simp
    with Fin \<open>b = Fin y\<close> y show ?thesis by simp
  qed (use assms y Fin in \<open>simp_all add: finf_def\<close>)
qed (use assms in \<open>cases a; simp\<close>)+

lemma fmin_unit: "v = NaN \<or> fle (Fin 0) v \<Longrightarrow> 0 \<le> l \<Longrightarrow> \<exists>q. fmin (Fin l) v = Fin q \<and> 0 \<le> q \<and> q \<le> l"
  by (cases v) (auto simp: fmin_def)

lemma flt_tiny: "flt TINY (fabs c) \<Longrightarrow> flt (Fin 0) (fabs c)"
  by (cases c) (auto simp: TINY_def)

lemma linear_bounded:
  assumes "max_linear cfg = Fin l" "0 \<le> l" "max_angular cfg = Fin a" "0 \<le> a"
  shows "\<exists>q. (if flt TINY (fabs c) then rbind (fdiv (max_angular cfg) (fabs c)) (\<lambda>v. Ret (fmin (max_linear cfg) v))
    else Ret (max_linear cfg)) = Ret (Fin q) \<and> 0 \<le> q \<and> q \<le> l"
proof (cases "flt TINY (fabs c)")
  case True
  obtain v where "fdiv (Fin a) (fabs c) = Ret v" "v = NaN \<or> fle (Fin 0) v"
    using fdiv_pos [of "Fin a" "fabs c"] flt_tiny [OF True] assms(4) by auto
  moreover obtain q where "fmin (Fin l) v = Fin q" "0 \<le> q" "q \<le> l" using fmin_unit [OF calculation(2) assms(2)] by blast
  ultimately show ?thesis using True assms by simp
qed (use assms in simp)

lemma curvature_total: "is_ret (pure_pursuit_curvature x y)"
proof (cases "fadd (fmul x x) (fmul y y)")
  case (Fin d)
  then show ?thesis by (cases "fmul (Fin 2) y") (auto simp: pure_pursuit_curvature_def TINY_def)
qed (simp_all add: pure_pursuit_curvature_def TINY_def)

text \<open>The final approach only lowers the speed, and never below zero.\<close>

lemma final_bounded:
  assumes "mk_float l = Fin l" "0 \<le> q" "q \<le> l" "final_slow_distance cfg = Fin f" "0 < f"
    "flt (waypoint_tolerance cfg) distance" "waypoint_tolerance cfg = Fin t" "0 \<le> t"
  shows "\<exists>r. (if final then rbind (fdiv distance (final_slow_distance cfg)) (\<lambda>v. Ret (fmul (Fin q) (fmin (Fin 1) v)))
    else Ret (Fin q)) = Ret (Fin r) \<and> 0 \<le> r \<and> r \<le> l"
proof (cases final)
  case True
  have "fle (Fin 0) distance" using assms(6-8) by (cases distance) auto
  then obtain v where v: "fdiv distance (Fin f) = Ret v" "v = NaN \<or> fle (Fin 0) v"
    using fdiv_pos [of distance "Fin f"] assms(5) by auto
  obtain u where u: "fmin (Fin 1) v = Fin u" "0 \<le> u" "u \<le> 1" using fmin_unit [OF v(2), of 1] by auto
  obtain r where "fmul (Fin q) (Fin u) = Fin r" "0 \<le> r" "r \<le> l" using fmul_unit [OF assms(1-3) u(2,3)] by blast
  with True v u assms(3,4) show ?thesis by auto
qed (use assms in simp)

lemma pursue_ok:
  assumes "config_ok cfg" "flt (waypoint_tolerance cfg) distance" "po_yaw pose \<notin> {PInf, NInf}"
  shows "\<exists>v. pursue lm cfg pose carrot distance final = Ret v \<and> command_ok cfg v"
proof -
  obtain l a f t where c: "max_linear cfg = Fin l" "0 \<le> l" "mk_float l = Fin l" "max_angular cfg = Fin a" "0 \<le> a"
    "final_slow_distance cfg = Fin f" "0 < f" "waypoint_tolerance cfg = Fin t" "0 \<le> t"
    using assms(1) by (auto simp: config_ok_def fin_with_iff)
  have ang: "fin_with (\<lambda>y. \<bar>y\<bar> \<le> a) (fclamp (Fin a) w)" for w
    using fclamp_bounds [OF c(5), of w] by auto
  define cdx where "cdx = fsub (wp_x carrot) (po_x pose)"
  define cdy where "cdy = fsub (wp_y carrot) (po_y pose)"
  define cosine where "cosine = lm_cos lm (po_yaw pose)"
  define sine where "sine = lm_sin lm (po_yaw pose)"
  define bx where "bx = fadd (fmul cosine cdx) (fmul sine cdy)"
  define by' where "by' = fadd (fmul (fneg sine) cdx) (fmul cosine cdy)"
  define ca where "ca = lm_atan2 lm by' bx"
  have trig: "py_cos lm (po_yaw pose) = Ret cosine" "py_sin lm (po_yaw pose) = Ret sine"
    using assms(3) by (auto simp: py_cos_def py_sin_def cosine_def sine_def)
  show ?thesis
  proof (cases "flt (rotate_to_heading_min_angle cfg) (fabs ca)")
    case True
    then have "pursue lm cfg pose carrot distance final =
        Ret (mk_velocity (Fin 0) (fclamp (max_angular cfg) (fmul (angular_kp cfg) ca)))"
      by (simp add: pursue_def trig ca_def by'_def bx_def cdx_def cdy_def Let_def)
    with c(1,2,4) ang show ?thesis by (simp add: command_ok_def mk_velocity_def)
  next
    case False
    obtain k where k: "pure_pursuit_curvature bx by' = Ret k"
      using curvature_total [of bx by'] by (auto simp: is_ret_iff)
    obtain q where q: "(if flt TINY (fabs k) then rbind (fdiv (max_angular cfg) (fabs k)) (\<lambda>v. Ret (fmin (max_linear cfg) v))
      else Ret (max_linear cfg)) = Ret (Fin q)" "0 \<le> q" "q \<le> l"
      using linear_bounded [OF c(1,2,4,5)] by blast
    obtain r where r: "(if final then rbind (fdiv distance (final_slow_distance cfg)) (\<lambda>v. Ret (fmul (Fin q) (fmin (Fin 1) v)))
      else Ret (Fin q)) = Ret (Fin r)" "0 \<le> r" "r \<le> l"
      using final_bounded [OF c(3) q(2,3) c(6,7) assms(2) c(8,9)] by blast
    have "pursue lm cfg pose carrot distance final = Ret (mk_velocity (Fin r) (fclamp (max_angular cfg) (fmul (Fin r) k)))"
      using False k q(1) r(1) trig unfolding pursue_def Let_def cdx_def [symmetric] cdy_def [symmetric]
      by (simp add: bx_def [symmetric] by'_def [symmetric] ca_def [symmetric] del: rbind_Inr_iff)
    with c(1,4) r ang show ?thesis by (simp add: command_ok_def mk_velocity_def)
  qed
qed

lemma carrot_total: "is_ret (carrot_along lm x y remaining path)"
proof (induction path arbitrary: x y remaining)
  case (Cons p path)
  define segment where "segment = lm_hypot lm (fsub (wp_x p) x) (fsub (wp_y p) y)"
  have "fle remaining segment \<Longrightarrow> flt (Fin 0) segment \<Longrightarrow> is_ret (fdiv remaining segment)"
    by (cases segment; cases remaining) auto
  with Cons show ?case by (auto simp: segment_def [symmetric] is_ret_iff Let_def)
qed simp

lemma rmap_total: "(\<And>x. \<exists>y. f x = Ret y) \<Longrightarrow> \<exists>ys. rmap f xs = Ret ys \<and> length ys = length xs"
proof (induction xs)
  case (Cons x xs)
  obtain y where "f x = Ret y" using Cons.prems by blast
  with Cons show ?case by fastforce
qed simp

lemma track_progress_frame:
  assumes "track_progress now d h m = (stuck, m1)"
  shows "mc_route m1 = mc_route m" "mc_config m1 = mc_config m" "mc_state m1 = mc_state m"
    "mc_stage_index m1 = mc_stage_index m" "mc_waypoint_index m1 = mc_waypoint_index m"
    "mc_stage_results m1 = mc_stage_results m" "mc_started_at m1 = mc_started_at m"
    "mc_failure_code m1 = mc_failure_code m"
  using assms by (auto simp: track_progress_def Let_def split: if_splits option.splits)

lemma mission_fail_frame [simp]:
  "mc_route (mission_fail c m) = mc_route m" "mc_config (mission_fail c m) = mc_config m"
  "mc_state (mission_fail c m) = MFAILED" "mc_failure_code (mission_fail c m) = Some c"
  "mc_stage_index (mission_fail c m) = mc_stage_index m" "mc_stage_results (mission_fail c m) = mc_stage_results m"
  "mc_waypoint_index (mission_fail c m) = mc_waypoint_index m" "mc_started_at (mission_fail c m) = mc_started_at m"
  by (simp_all add: mission_fail_def Let_def)

lemma mission_fail_ok: "on_route m \<Longrightarrow> c \<in> FAILURE_CODES \<Longrightarrow> failure_ok (mission_fail c m)"
  by (simp add: failure_ok_def mission_fail_def on_route_def Let_def)

lemma on_route_cong: "mc_route m' = mc_route m \<Longrightarrow> mc_stage_index m' = mc_stage_index m \<Longrightarrow>
    mc_waypoint_index m' = mc_waypoint_index m \<Longrightarrow> on_route m \<Longrightarrow> on_route m'"
  by (simp add: on_route_def)

lemma steer_spec:
  assumes "config_ok (mc_config m)" "route_ok (mc_route m)" "on_route m" "po_yaw pose \<notin> {PInf, NInf}"
    "current_target lm m = Ret (stage, t)" "flt (waypoint_tolerance (mc_config m)) (distance_to lm t pose)"
    "mc_state m = MRUNNING"
  shows "\<exists>v m'. steer lm pose now m = (Ret v, m') \<and> command_ok (mc_config m) v \<and>
    mc_route m' = mc_route m \<and> mc_config m' = mc_config m \<and> mc_stage_index m' = mc_stage_index m \<and>
    mc_waypoint_index m' = mc_waypoint_index m \<and> mc_stage_results m' = mc_stage_results m \<and>
    mc_started_at m' = mc_started_at m \<and>
    (mc_state m' = MRUNNING \<and> mc_failure_code m' = mc_failure_code m \<or> mc_state m' = MFAILED \<and> v = zero_velocity \<and> failure_ok m' \<and>
       mc_failure_code m' = Some ''WAYPOINT_NO_PROGRESS'')"
proof -
  define heading where "heading = fabs (normalize_angle (fsub (lm_atan2 lm (fsub (wp_y t) (po_y pose))
    (fsub (wp_x t) (po_x pose))) (po_yaw pose)))"
  obtain stuck m1 where tr: "track_progress now (distance_to lm t pose) heading m = (stuck, m1)"
    by (cases "track_progress now (distance_to lm t pose) heading m")
  note fr = track_progress_frame [OF tr]
  show ?thesis
  proof (cases stuck)
    case True
    then have "steer lm pose now m = (Ret zero_velocity, mission_fail ''WAYPOINT_NO_PROGRESS'' m1)"
      using tr assms(5) by (simp add: steer_def distance_to_def heading_def)
    moreover have "failure_ok (mission_fail ''WAYPOINT_NO_PROGRESS'' m1)"
      by (rule mission_fail_ok [OF on_route_cong [OF fr(1,4,5) assms(3)]]) (simp add: FAILURE_CODES_def)
    ultimately show ?thesis using fr assms(1) by (simp add: zero_command_ok)
  next
    case False
    have yaw: "is_fin (po_yaw (mr_start (mc_route m)))" using assms(2) by (simp add: route_ok_def)
    obtain path where path: "rmap (waypoint_in_odom lm (mc_route m)) (drop (mc_waypoint_index m) (ms_waypoints stage)) = Ret path"
      "length path = length (ms_waypoints stage) - mc_waypoint_index m"
      using rmap_total [of "waypoint_in_odom lm (mc_route m)"] waypoint_in_odom_total [OF yaw] by fastforce
    have "path \<noteq> []" using path(2) current_target_index [OF assms(5)] by auto
    then have "is_ret (interpolate_lookahead_carrot lm pose path (lookahead_distance (mc_config m)))"
      using assms(1) carrot_total by (auto simp: interpolate_lookahead_carrot_def config_ok_def fin_with_iff)
    then obtain carrot where cr: "interpolate_lookahead_carrot lm pose path (lookahead_distance (mc_config m)) = Ret carrot"
      by (auto simp: is_ret_iff)
    obtain v where v: "pursue lm (mc_config m) pose carrot (distance_to lm t pose)
        (Suc (mc_stage_index m) = length (mr_stages (mc_route m)) \<and> Suc (mc_waypoint_index m) = length (ms_waypoints stage)) = Ret v"
      "command_ok (mc_config m) v"
      using pursue_ok [OF assms(1,6,4)] by blast
    have "steer lm pose now m = (Ret v, m1)"
      using tr False assms(5) path(1) cr v(1) by (simp add: steer_def distance_to_def heading_def)
    with v(2) fr assms(7) show ?thesis by simp
  qed
qed

text \<open>One update of a sound mission, on every branch.\<close>

definition pose_ok :: "pose2d option \<Rightarrow> bool" where
  "pose_ok pose \<longleftrightarrow> (case pose of None \<Rightarrow> True | Some p \<Rightarrow> po_yaw p \<notin> {PInf, NInf})"

definition updated :: "mission \<Rightarrow> velocity \<Rightarrow> mission \<Rightarrow> bool" where
  "updated m v m' \<longleftrightarrow> mission_inv m' \<and> command_ok (mc_config m) v \<and> (mc_state m' \<noteq> MRUNNING \<longrightarrow> v = zero_velocity) \<and>
     mc_route m' = mc_route m \<and> mc_config m' = mc_config m \<and>
     (mc_state m \<noteq> MRUNNING \<longrightarrow> mc_state m' = mc_state m) \<and> mc_stage_index m \<le> mc_stage_index m'"

lemma updated_stay:
  assumes "mission_inv m" "mc_route m' = mc_route m" "mc_config m' = mc_config m" "mc_state m' = mc_state m"
    "mc_stage_index m' = mc_stage_index m" "mc_waypoint_index m' = mc_waypoint_index m"
    "mc_stage_results m' = mc_stage_results m" "mc_started_at m' = mc_started_at m"
    "mc_failure_code m' = mc_failure_code m" "mc_failed_stage_id m' = mc_failed_stage_id m"
    "mc_failed_waypoint_index m' = mc_failed_waypoint_index m"
  shows "updated m zero_velocity m'"
  using assms
  by (simp add: updated_def mission_inv_def zero_command_ok failure_ok_def on_route_def results_ok_def)

lemma updated_fail:
  assumes "mission_inv m" "mc_state m = MRUNNING" "c \<in> FAILURE_CODES" "mc_route m1 = mc_route m"
    "mc_config m1 = mc_config m" "mc_stage_index m1 = mc_stage_index m"
    "mc_waypoint_index m1 = mc_waypoint_index m" "mc_stage_results m1 = mc_stage_results m"
  shows "updated m zero_velocity (mission_fail c m1)"
proof -
  have "on_route m1" using assms(1,2) by (intro on_route_cong [OF assms(4,6,7)]) (simp add: mission_inv_def)
  with assms show ?thesis
    by (simp add: updated_def mission_inv_def zero_command_ok mission_fail_ok results_ok_def)
qed

lemma drive_spec:
  assumes inv: "mission_inv m" and run: "mc_state m = MRUNNING" and yaw: "po_yaw p \<notin> {PInf, NInf}"
  shows "\<exists>v m'. drive lm p now m = (Ret v, m') \<and> updated m v m' \<and>
    mc_failure_code m' \<in> {None, Some ''WAYPOINT_NO_PROGRESS''}"
proof -
  have m: "route_ok (mc_route m)" "config_ok (mc_config m)" "results_ok m" "on_route m"
    "mc_started_at m \<noteq> None" "mc_failure_code m = None"
    using inv run by (simp_all add: mission_inv_def failure_ok_def)
  obtain b m1 where adv: "advance lm p now m = (Ret b, m1)" "advanced lm p m b m1"
    using advance_spec [OF m(1,4,3) run] by blast
  have m1: "mc_route m1 = mc_route m" "mc_config m1 = mc_config m" "mc_started_at m1 = mc_started_at m"
    "mc_failure_code m1 = None" "results_ok m1" "mc_stage_index m \<le> mc_stage_index m1"
    using adv(2) m(6) by (simp_all add: advanced_def)
  show ?thesis
  proof (cases b)
    case True
    then have fin: "mc_state m1 = SUCCEEDED" "mc_stage_index m1 = length (mr_stages (mc_route m))"
      using adv(2) by (simp_all add: advanced_def)
    then have "updated m zero_velocity m1"
      using m m1 run by (simp add: updated_def mission_inv_def failure_ok_def zero_command_ok)
    with adv(1) True m1(4) show ?thesis by (simp add: drive_def)
  next
    case False
    then obtain stage t where t: "mc_state m1 = MRUNNING" "on_route m1" "current_target lm m1 = Ret (stage, t)"
        "flt (waypoint_tolerance (mc_config m1)) (distance_to lm t p)"
      using adv(2) m1(2) by (auto simp: advanced_def)
    obtain v m' where st: "steer lm p now m1 = (Ret v, m')" "command_ok (mc_config m1) v"
      "mc_route m' = mc_route m1" "mc_config m' = mc_config m1" "mc_stage_index m' = mc_stage_index m1"
      "mc_waypoint_index m' = mc_waypoint_index m1" "mc_stage_results m' = mc_stage_results m1"
      "mc_started_at m' = mc_started_at m1"
      "mc_state m' = MRUNNING \<and> mc_failure_code m' = mc_failure_code m1 \<or>
       mc_state m' = MFAILED \<and> v = zero_velocity \<and> failure_ok m' \<and>
         mc_failure_code m' = Some ''WAYPOINT_NO_PROGRESS''"
      using steer_spec [OF _ _ t(2) yaw t(3,4,1), of now] m(1,2) m1(1,2) by auto
    have keep: "on_route m'" "results_ok m'"
      using on_route_cong [OF st(3,5,6) t(2)] results_ok_cong [OF m1(5) st(3,7,5)] by blast+
    have "failure_ok m'" using st(9) m1(4) by (auto simp: failure_ok_def)
    then have "updated m v m'"
      using st keep m m1 run by (auto simp: updated_def mission_inv_def)
    with adv(1) False st(1,9) m1(4) show ?thesis by (auto simp: drive_def)
  qed
qed

lemma updated_cong:
  assumes "updated m1 v m'" "mc_route m1 = mc_route m" "mc_config m1 = mc_config m" "mc_state m1 = mc_state m"
    "mc_stage_index m1 = mc_stage_index m"
  shows "updated m v m'"
  using assms by (simp add: updated_def)

lemma mission_update_spec:
  assumes inv: "mission_inv m" and pose: "pose_ok pose"
  shows "\<exists>v m'. mission_update lm pose now fr od wd m = (Ret v, m') \<and> updated m v m'"
proof -
  define w where "w = (case wd of None \<Rightarrow> now | Some w \<Rightarrow> w)"
  define m0 where "m0 = m\<lparr>mc_last_update_at := Some now\<rparr>"
  note eq = mission_update_def [of lm pose now fr od wd m, unfolded Let_def, folded w_def m0_def]
  note codes = FAILURE_CODES_def
  have stay: "updated m zero_velocity m0" by (rule updated_stay [OF inv]) (simp_all add: m0_def)
  consider (off) "mc_state m \<noteq> MRUNNING"
    | (late) "mc_state m = MRUNNING" "older now (mc_started_at m) (mission_timeout (mc_config m))"
    | (blind) "mc_state m = MRUNNING" "\<not> older now (mc_started_at m) (mission_timeout (mc_config m))" "pose = None"
    | (seen) p where "mc_state m = MRUNNING" "\<not> older now (mc_started_at m) (mission_timeout (mc_config m))" "pose = Some p"
    by (cases pose) auto
  then show ?thesis
  proof cases
    case off
    with stay show ?thesis by (simp add: eq)
  next
    case late
    have "updated m zero_velocity (mission_fail ''MISSION_TIMEOUT'' m0)"
      by (rule updated_fail [OF inv late(1)]) (simp_all add: m0_def codes)
    with late show ?thesis by (simp add: eq)
  next
    case blind
    have "updated m zero_velocity (mission_fail ''ODOM_STALE'' m0)"
      by (rule updated_fail [OF inv blind(1)]) (simp_all add: m0_def codes)
    with blind stay show ?thesis unfolding eq by simp
  next
    case seen
    define r where "r = (case od of None \<Rightarrow> w | Some t \<Rightarrow> t)"
    define m1 where "m1 = m0\<lparr>mc_last_odom_at := Some r\<rparr>"
    have m1: "updated m zero_velocity m1" "updated m zero_velocity (m1\<lparr>mc_obstacle_since := x\<rparr>)" for x
      by (rule updated_stay [OF inv]; simp add: m0_def m1_def)+
    have fail: "c \<in> FAILURE_CODES \<Longrightarrow> updated m zero_velocity (mission_fail c m1)" for c
      by (rule updated_fail [OF inv seen(1)]) (simp_all add: m0_def m1_def)
    have "mission_inv (m1\<lparr>mc_obstacle_since := None\<rparr>)" using m1(2) by (simp add: updated_def)
    moreover have "mc_state (m1\<lparr>mc_obstacle_since := None\<rparr>) = MRUNNING" using seen(1) by (simp add: m1_def m0_def)
    moreover have "po_yaw p \<notin> {PInf, NInf}" using pose seen(3) by (simp add: pose_ok_def)
    ultimately obtain v m' where d: "drive lm p now (m1\<lparr>mc_obstacle_since := None\<rparr>) = (Ret v, m')"
        "updated (m1\<lparr>mc_obstacle_since := None\<rparr>) v m'"
      using drive_spec by blast
    then have up: "updated m v m'" by (intro updated_cong [OF d(2)]) (simp_all add: m1_def m0_def)
    note seen_eq = seen r_def [symmetric] m1_def [symmetric]
    consider "flt (odom_timeout (mc_config m)) (fsub w r)"
      | "\<not> flt (odom_timeout (mc_config m)) (fsub w r)" "is_fin fr \<and> flt fr (obstacle_stop_distance (mc_config m))"
      | "\<not> flt (odom_timeout (mc_config m)) (fsub w r)" "\<not> (is_fin fr \<and> flt fr (obstacle_stop_distance (mc_config m)))"
      by blast
    then show ?thesis
    proof cases
      case 1
      with fail [of "''ODOM_STALE''"] show ?thesis unfolding eq by (simp add: seen_eq codes)
    next
      case 2
      with m1 fail [of "''OBSTACLE_BLOCKED''"] show ?thesis unfolding eq
        by (cases "mc_obstacle_since m") (simp_all add: seen_eq codes)
    next
      case 3
      then have close: "(is_fin fr \<and> flt fr (obstacle_stop_distance (mc_config m))) = False" by blast
      from 3 d(1) up show ?thesis unfolding eq close by (simp add: seen_eq)
    qed
  qed
qed

section \<open>The mission as a machine\<close>

inductive mission_step :: "libm \<Rightarrow> bool \<Rightarrow> mission \<Rightarrow> mission \<Rightarrow> bool" for lm :: libm and resettable :: bool where
  started: "mission_start now wd m = (r, m') \<Longrightarrow> mission_step lm resettable m m'"
| cancelled: "mission_cancel m = (r, m') \<Longrightarrow> mission_step lm resettable m m'"
| estopped: "mission_estop m = (r, m') \<Longrightarrow> mission_step lm resettable m m'"
| reset: "resettable \<Longrightarrow> mission_reset m = (r, m') \<Longrightarrow> mission_step lm resettable m m'"
| ticked: "pose_ok pose \<Longrightarrow> mission_update lm pose now fr od wd m = (r, m') \<Longrightarrow> mission_step lm resettable m m'"

lemma mission_init_inv: "route_ok r \<Longrightarrow> config_ok c \<Longrightarrow> mission_inv (mission_init r c)"
  by (simp add: mission_inv_def mission_init_def results_ok_def failure_ok_def)

lemma route_ok_first: "route_ok r \<Longrightarrow> mr_stages r \<noteq> [] \<and> ms_waypoints (mr_stages r ! 0) \<noteq> []"
  by (simp add: route_ok_def)

lemma mission_start_inv:
  assumes "mission_start now wd m = (r, m')" "mission_inv m" shows "mission_inv m'"
proof (cases "mc_state m = MRUNNING \<or> mc_state m = MESTOPPED")
  case True
  then have "m' = m" using assms(1) by (auto simp: mission_start_def)
  with assms(2) show ?thesis by simp
next
  case False
  have "mission_inv (snd (mission_start now wd m))"
    using False assms(2) route_ok_first [of "mc_route m"]
    by (simp add: mission_start_def mission_inv_def results_ok_def failure_ok_def on_route_def)
  with assms(1) show ?thesis by simp
qed

lemma mission_cancel_inv: "mission_inv m \<Longrightarrow> mission_inv (snd (mission_cancel m))"
  by (simp add: mission_cancel_def mission_inv_def results_ok_def failure_ok_def)

lemma mission_estop_inv: "mission_inv m \<Longrightarrow> mission_inv (snd (mission_estop m))"
  by (simp add: mission_estop_def mission_inv_def results_ok_def failure_ok_def)

lemma mission_reset_inv: "mission_inv m \<Longrightarrow> mission_inv (snd (mission_reset m))"
  by (simp add: mission_reset_def mission_inv_def results_ok_def failure_ok_def)

lemma mission_requests_inv:
  "mission_cancel m = (r, m') \<Longrightarrow> mission_inv m \<Longrightarrow> mission_inv m'"
  "mission_estop m = (r, m') \<Longrightarrow> mission_inv m \<Longrightarrow> mission_inv m'"
  "mission_reset m = (r, m') \<Longrightarrow> mission_inv m \<Longrightarrow> mission_inv m'"
  using mission_cancel_inv [of m] mission_estop_inv [of m] mission_reset_inv [of m] by simp_all

lemma mission_update_inv:
  assumes "mission_update lm pose now fr od wd m = (r, m')" "mission_inv m" "pose_ok pose"
  shows "mission_inv m' \<and> (mc_state m \<noteq> MRUNNING \<longrightarrow> mc_state m' = mc_state m)"
  using mission_update_spec [OF assms(2,3), of lm now fr od wd] assms(1) by (auto simp: updated_def)

lemma mission_step_inv: "mission_step lm b m m' \<Longrightarrow> mission_inv m \<Longrightarrow> mission_inv m'"
  by (induction rule: mission_step.induct)
    (blast intro: mission_start_inv mission_requests_inv dest: mission_update_inv)+

definition mission_progress :: "mission \<Rightarrow> nat \<times> nat \<times> stage_result list" where
  "mission_progress m = (mc_stage_index m, mc_waypoint_index m, mc_stage_results m)"

lemma update_idle:
  "mc_state m \<noteq> MRUNNING \<Longrightarrow> mission_update lm pose now fr od wd m = (Ret zero_velocity, m\<lparr>mc_last_update_at := Some now\<rparr>)"
  by (simp add: mission_update_def Let_def)

lemma mission_step_latch:
  assumes "mission_step lm False m m'" "mc_state m = MESTOPPED"
  shows "mc_state m' = MESTOPPED \<and> mission_progress m' = mission_progress m"
  using assms
  by (induction rule: mission_step.induct)
    (auto simp: mission_start_def mission_cancel_def mission_estop_def update_idle mission_progress_def)

interpretation missions: machine "mission_step lm b" mission_inv for lm b
  by unfold_locales (rule mission_step_inv)

interpretation mission_estops: latching "mission_step lm False" mission_inv "\<lambda>m. mc_state m = MESTOPPED" mission_progress for lm
  by unfold_locales (simp_all add: mission_step_latch)

section \<open>Arrival and the watchdogs\<close>

lemma advance_arrives:
  "advance lm pose now m = (Ret True, m') \<Longrightarrow>
    \<exists>t. waypoint_in_odom lm (mc_route m) (last (ms_waypoints (last (mr_stages (mc_route m))))) = Ret t \<and>
      \<not> flt (waypoint_tolerance (mc_config m)) (distance_to lm t pose)"
proof (induction lm pose now m rule: advance.induct)
  case (1 lm pose now m)
  obtain stage t where t: "current_target lm m = Ret (stage, t)"
    using 1(3) by (cases "current_target lm m") (auto simp: advance.simps [of lm pose now m])
  note ix = current_target_index [OF t]
  have near: "\<not> flt (waypoint_tolerance (mc_config m)) (distance_to lm t pose)"
    using 1(3) t by (auto simp: advance.simps [of lm pose now m])
  define m1 where "m1 = reset_progress (m\<lparr>mc_waypoint_index := Suc (mc_waypoint_index m)\<rparr>)"
  have m1: "mc_route m1 = mc_route m" "mc_config m1 = mc_config m" "mc_stage_index m1 = mc_stage_index m"
    "mc_started_at m1 = mc_started_at m" "mc_stage_results m1 = mc_stage_results m" by (simp_all add: m1_def)
  show ?case
  proof (cases "mc_waypoint_index m1 < length (ms_waypoints stage)")
    case True
    then have "advance lm pose now m1 = (Ret True, m')"
      using 1(3) t near by (simp add: advance.simps [of lm pose now m] m1_def Let_def)
    from 1(1) [OF t refl near m1_def True this] show ?thesis by (simp add: m1)
  next
    case False
    obtain endpoint where e: "waypoint_in_odom lm (mc_route m) (ms_endpoint stage) = Ret endpoint"
      using 1(3) t near False
      by (cases "waypoint_in_odom lm (mc_route m) (ms_endpoint stage)")
        (auto simp: advance.simps [of lm pose now m] m1_def Let_def)
    define result where "result = \<lparr>sr_id = ms_id stage, sr_name = ms_name stage,
      sr_endpoint_error = distance_to lm endpoint pose,
      sr_elapsed = (case mc_started_at m of Some t \<Rightarrow> fsub now t | None \<Rightarrow> Fin 0)\<rparr>"
    define m2 where "m2 = m1\<lparr>mc_stage_results := mc_stage_results m1 @ [result],
      mc_stage_index := Suc (mc_stage_index m1), mc_waypoint_index := 0\<rparr>"
    have adv: "advance lm pose now m = (if mc_stage_index m2 = length (mr_stages (mc_route m2))
        then (Ret True, m2\<lparr>mc_state := SUCCEEDED\<rparr>) else advance lm pose now m2)"
      using t near False e
      by (simp add: advance.simps [of lm pose now m] m1_def [symmetric] m2_def result_def Let_def m1)
    show ?thesis
    proof (cases "mc_stage_index m2 = length (mr_stages (mc_route m2))")
      case True
      then have len: "Suc (mc_stage_index m) = length (mr_stages (mc_route m))" by (simp add: m2_def m1_def)
      then have "stage = last (mr_stages (mc_route m))"
        using ix by (metis diff_Suc_1 last_conv_nth length_0_conv nat.distinct(1))
      moreover have "Suc (mc_waypoint_index m) = length (ms_waypoints stage)"
        using False conjunct2 [OF conjunct2 [OF ix]] by (simp add: m1_def)
      then have "ms_waypoints stage ! mc_waypoint_index m = last (ms_waypoints stage)"
        by (metis diff_Suc_1 last_conv_nth length_0_conv nat.distinct(1))
      ultimately show ?thesis using t near ix by (auto simp: current_target_def py_nth_def)
    next
      case more: False
      with adv 1(3) have "advance lm pose now m2 = (Ret True, m')" by simp
      from 1(2) [OF t refl near m1_def False e result_def m2_def more this] show ?thesis
        by (simp add: m2_def m1)
    qed
  qed
qed

section \<open>What a loaded route is\<close>

definition fin_waypoint :: "waypoint \<Rightarrow> bool" where
  "fin_waypoint w \<longleftrightarrow> is_fin (wp_x w) \<and> is_fin (wp_y w)"

definition stage_ok :: "libm \<Rightarrow> mission_stage \<Rightarrow> bool" where
  "stage_ok lm s \<longleftrightarrow> strip (ms_id s) \<noteq> [] \<and> strip (ms_name s) \<noteq> [] \<and> ms_waypoints s \<noteq> [] \<and>
     list_all fin_waypoint (ms_endpoint s # ms_waypoints s) \<and>
     \<not> flt ENDPOINT_TOLERANCE (lm_hypot lm (fsub (wp_x (last (ms_waypoints s))) (wp_x (ms_endpoint s)))
        (fsub (wp_y (last (ms_waypoints s))) (wp_y (ms_endpoint s))))"

lemma route_number_fin: "route_number v = Ret x \<Longrightarrow> is_fin x"
  by (auto simp: route_number_def split: if_splits)

lemma route_point_fin: "route_point v = Ret w \<Longrightarrow> fin_waypoint w"
  by (induction v rule: route_point.induct)
    (auto simp: fin_waypoint_def mk_waypoint_def dest: route_number_fin)

lemma route_stage_ok:
  assumes "route_stage lm seen v = Ret s"
  shows "stage_ok lm s \<and> ms_id s \<notin> set seen"
proof (cases v)
  case (VDict d)
  have checks: "\<not> blank_text (vget d ''id'')" "str_val (vget d ''id'') \<notin> set seen" "\<not> blank_text (vget d ''name'')"
    using assms VDict by (auto split: if_splits)
  then obtain raw where raw: "vget d ''waypoints'' = VList raw" "raw \<noteq> []"
    using assms VDict by (auto split: pyval.splits if_splits)
  from assms VDict checks raw obtain ws e where ws: "rmap route_point raw = Ret ws"
      "route_point (vget d ''endpoint'') = Ret e"
      "\<not> flt ENDPOINT_TOLERANCE (lm_hypot lm (fsub (wp_x (last ws)) (wp_x e)) (fsub (wp_y (last ws)) (wp_y e)))"
      "s = \<lparr>ms_id = str_val (vget d ''id''), ms_name = str_val (vget d ''name''), ms_endpoint = e, ms_waypoints = ws\<rparr>"
    by (auto split: if_splits)
  moreover have "list_all fin_waypoint ws" by (rule rmap_list_all [OF ws(1)]) (rule route_point_fin)
  moreover have "ws \<noteq> []" using rmap_length [OF ws(1)] raw(2) by auto
  ultimately show ?thesis
    using checks route_point_fin [OF ws(2)] by (simp add: stage_ok_def blank_text_def)
qed (use assms in simp_all)

lemma route_stages_ok:
  "route_stages lm seen vs = Ret ss \<Longrightarrow>
    length ss = length vs \<and> list_all (stage_ok lm) ss \<and> distinct (map ms_id ss) \<and> set (map ms_id ss) \<inter> set seen = {}"
proof (induction vs arbitrary: seen ss)
  case (Cons v vs)
  then obtain s ss' where s: "route_stage lm seen v = Ret s" "route_stages lm (ms_id s # seen) vs = Ret ss'" "ss = s # ss'"
    by auto
  with Cons.IH [OF s(2)] route_stage_ok [OF s(1)] show ?case by auto
qed simp

lemma route_start_fin: "route_start v = Ret p \<Longrightarrow> is_fin (po_x p) \<and> is_fin (po_y p) \<and> is_fin (po_yaw p)"
  by (induction v rule: route_start.induct) (auto dest: route_number_fin)

lemma load_route_cases:
  assumes "load_route lm doc = Ret r"
  obtains d vs where "doc = Some (VDict d)" "route_start (vget d ''start'') = Ret (mr_start r)"
    "vget d ''stages'' = VList vs" "length vs = 3" "route_stages lm [] vs = Ret (mr_stages r)"
proof -
  obtain d where d: "doc = Some (VDict d)" using assms by (cases "(lm, doc)" rule: load_route.cases) auto
  obtain vs where vs: "vget d ''stages'' = VList vs" using assms d by (cases "vget d ''stages''") auto
  have len: "length vs = 3" using assms d vs by (auto split: if_splits)
  with assms d vs that show thesis by auto
qed

lemma route_errs: "errs {RouteValidationError, PyOverflowError} (load_route lm doc)"
proof -
  have n: "errs {RouteValidationError, PyOverflowError} (route_number v)" for v
    by (cases "py_float v") (auto simp: route_number_def errs_def dest: is_number_float)
  have p: "errs {RouteValidationError, PyOverflowError} (route_point v)" for v
    by (induction v rule: route_point.induct) (auto intro!: errs_rbind n)
  have s: "errs {RouteValidationError, PyOverflowError} (route_stage lm seen v)" for seen v
    by (cases v) (auto simp: Let_def intro!: errs_rbind errs_if errs_rmap p split: pyval.splits)
  have ss: "errs {RouteValidationError, PyOverflowError} (route_stages lm seen vs)" for seen vs
    by (induction vs arbitrary: seen) (auto intro!: errs_rbind s)
  have st: "errs {RouteValidationError, PyOverflowError} (route_start v)" for v
    by (induction v rule: route_start.induct) (auto intro!: errs_rbind n)
  show ?thesis
    by (cases "(lm, doc)" rule: load_route.cases) (auto intro!: errs_rbind st ss split: pyval.splits)
qed

text \<open>A concrete library, route and mission, for the examples.\<close>

definition demo_libm :: libm where
  "demo_libm = \<lparr>lm_hypot = \<lambda>x y. fadd (fabs x) (fabs y), lm_atan2 = \<lambda>y x. Fin 0,
     lm_sin = \<lambda>x. if x = NaN then NaN else Fin 0, lm_cos = \<lambda>x. if x = NaN then NaN else Fin 1\<rparr>"

definition demo_stage :: "string \<Rightarrow> rat \<Rightarrow> mission_stage" where
  "demo_stage n x = \<lparr>ms_id = n, ms_name = n, ms_endpoint = mk_waypoint (Fin x) (Fin 0),
     ms_waypoints = [mk_waypoint (Fin x) (Fin 0)]\<rparr>"

definition demo_route :: mission_route where
  "demo_route = \<lparr>mr_start = \<lparr>po_x = Fin 0, po_y = Fin 0, po_yaw = Fin 0\<rparr>, mr_stages = [demo_stage ''a'' 1]\<rparr>"

definition demo_pose :: "pyfloat \<Rightarrow> pose2d" where
  "demo_pose x = \<lparr>po_x = x, po_y = Fin 0, po_yaw = Fin 0\<rparr>"

definition demo_running :: mission where
  "demo_running = snd (mission_start (Fin 0) None (mission_init demo_route default_config))"

lemma demo_libm_nan: "libm_nan demo_libm"
proof -
  have "fadd NaN y = NaN" "fadd y NaN = NaN" for y by (cases y; simp)+
  then show ?thesis by (simp add: libm_nan_def demo_libm_def)
qed

lemma demo_ok: "route_ok demo_route" "mission_inv demo_running" "mc_state demo_running = MRUNNING"
proof -
  show "route_ok demo_route" by (simp add: route_ok_def demo_route_def demo_stage_def)
  from mission_start_inv [OF surjective_pairing mission_init_inv [OF this default_config_ok]]
  show "mission_inv demo_running" unfolding demo_running_def .
  show "mc_state demo_running = MRUNNING"
    by (simp add: demo_running_def mission_start_def mission_init_def)
qed

definition odom_stale :: "pose2d option \<Rightarrow> pyfloat \<Rightarrow> pyfloat option \<Rightarrow> pyfloat option \<Rightarrow> mission \<Rightarrow> bool" where
  "odom_stale pose now odom watchdog m \<longleftrightarrow>
     (let w = (case watchdog of None \<Rightarrow> now | Some w \<Rightarrow> w) in
      case pose of
        None \<Rightarrow> older w (case mc_last_odom_at m of None \<Rightarrow> mc_started_watchdog_at m | Some t \<Rightarrow> Some t)
          (odom_timeout (mc_config m))
      | Some p \<Rightarrow> flt (odom_timeout (mc_config m)) (fsub w (case odom of None \<Rightarrow> w | Some t \<Rightarrow> t)))"

definition obstacle_close :: "pyfloat \<Rightarrow> mission \<Rightarrow> bool" where
  "obstacle_close front m \<longleftrightarrow> is_fin front \<and> flt front (obstacle_stop_distance (mc_config m))"

text \<open>The update, branch by branch.\<close>

lemma update_branches:
  assumes "mc_state m = MRUNNING" "mission_update lm pose now front odom watchdog m = (r, m')"
  obtains (late) m1 where "older now (mc_started_at m) (mission_timeout (mc_config m))" "m' = mission_fail ''MISSION_TIMEOUT'' m1"
  | (stale) m1 where "\<not> older now (mc_started_at m) (mission_timeout (mc_config m))"
      "odom_stale pose now odom watchdog m" "m' = mission_fail ''ODOM_STALE'' m1"
  | (blind) "\<not> older now (mc_started_at m) (mission_timeout (mc_config m))"
      "\<not> odom_stale pose now odom watchdog m" "pose = None" "mc_failure_code m' = mc_failure_code m" "mc_state m' = MRUNNING"
  | (blocked) m1 where "\<not> older now (mc_started_at m) (mission_timeout (mc_config m))"
      "\<not> odom_stale pose now odom watchdog m" "pose \<noteq> None" "obstacle_close front m"
      "older now (mc_obstacle_since m) (obstacle_fail_after (mc_config m))" "m' = mission_fail ''OBSTACLE_BLOCKED'' m1"
  | (waiting) "\<not> older now (mc_started_at m) (mission_timeout (mc_config m))"
      "\<not> odom_stale pose now odom watchdog m" "pose \<noteq> None" "obstacle_close front m"
      "\<not> older now (mc_obstacle_since m) (obstacle_fail_after (mc_config m))"
      "mc_failure_code m' = mc_failure_code m" "mc_state m' = MRUNNING"
  | (driving) p m1 where "\<not> older now (mc_started_at m) (mission_timeout (mc_config m))"
      "\<not> odom_stale pose now odom watchdog m" "pose = Some p" "\<not> obstacle_close front m"
      "drive lm p now m1 = (r, m')" "mc_route m1 = mc_route m" "mc_config m1 = mc_config m"
      "mission_inv m \<Longrightarrow> mission_inv m1" "mc_state m1 = MRUNNING"
proof (cases "older now (mc_started_at m) (mission_timeout (mc_config m))")
  case True
  with assms late show thesis by (auto simp: mission_update_def Let_def)
next
  case in_time: False
  define w where "w = (case watchdog of None \<Rightarrow> now | Some w \<Rightarrow> w)"
  show thesis
  proof (cases pose)
    case None
    with assms in_time stale blind show thesis
      by (auto simp: mission_update_def odom_stale_def w_def [symmetric] Let_def split: if_splits)
  next
    case (Some p)
    define m1 where "m1 = m\<lparr>mc_last_update_at := Some now,
      mc_last_odom_at := Some (case odom of None \<Rightarrow> w | Some t \<Rightarrow> t)\<rparr>"
    note eq = assms(2) [unfolded mission_update_def Let_def, folded w_def m1_def]
    show thesis
    proof (cases "odom_stale pose now odom watchdog m")
      case True
      with Some assms(1) in_time stale eq show thesis
        by (auto simp: odom_stale_def w_def [symmetric] Let_def)
    next
      case fresh: False
      show thesis
      proof (cases "obstacle_close front m")
        case True
        with Some assms(1) in_time fresh blocked waiting eq show thesis
          by (cases "mc_obstacle_since m")
            (auto simp: odom_stale_def obstacle_close_def older_def w_def [symmetric] Let_def m1_def split: if_splits)
      next
        case False
        have "mission_inv m \<Longrightarrow> mission_inv (m1\<lparr>mc_obstacle_since := None\<rparr>)"
          using updated_stay [of m "m1\<lparr>mc_obstacle_since := None\<rparr>"] by (simp add: m1_def updated_def)
        moreover have "drive lm p now (m1\<lparr>mc_obstacle_since := None\<rparr>) = (r, m')"
          using Some assms(1) in_time fresh False eq
          by (auto simp: odom_stale_def obstacle_close_def w_def [symmetric] Let_def m1_def)
        ultimately show thesis
          by (intro driving [OF in_time fresh Some False, of "m1\<lparr>mc_obstacle_since := None\<rparr>"])
            (simp_all add: m1_def assms(1))
      qed
    qed
  qed
qed

lemma drive_arrives:
  assumes "mission_inv m" "mc_state m = MRUNNING" "po_yaw p \<notin> {PInf, NInf}" "drive lm p now m = (r, m')" "mc_state m' = SUCCEEDED"
  shows "\<exists>t. waypoint_in_odom lm (mc_route m) (last (ms_waypoints (last (mr_stages (mc_route m))))) = Ret t \<and>
    \<not> flt (waypoint_tolerance (mc_config m)) (distance_to lm t p)"
proof -
  have m: "route_ok (mc_route m)" "config_ok (mc_config m)" "results_ok m" "on_route m"
    using assms(1,2) by (simp_all add: mission_inv_def)
  obtain b m1 where adv: "advance lm p now m = (Ret b, m1)" "advanced lm p m b m1"
    using advance_spec [OF m(1,4,3) assms(2)] by blast
  have b
  proof (rule ccontr)
    assume "\<not> b"
    then obtain stage t where t: "mc_state m1 = MRUNNING" "on_route m1" "current_target lm m1 = Ret (stage, t)"
        "flt (waypoint_tolerance (mc_config m1)) (distance_to lm t p)"
      using adv(2) by (auto simp: advanced_def)
    obtain v m2 where "steer lm p now m1 = (Ret v, m2)" "mc_state m2 \<noteq> SUCCEEDED"
      using steer_spec [OF _ _ t(2) assms(3) t(3,4,1), of now] m(1,2) adv(2) by (auto simp: advanced_def)
    with adv(1) \<open>\<not> b\<close> assms(4,5) show False by (simp add: drive_def)
  qed
  with adv(1) show ?thesis by (intro advance_arrives) simp
qed

lemma update_arrives:
  assumes "mission_inv m" "mc_state m = MRUNNING" "pose_ok pose"
    "mission_update lm pose now front odom watchdog m = (r, m')" "mc_state m' = SUCCEEDED"
  shows "\<exists>p t. pose = Some p \<and>
    waypoint_in_odom lm (mc_route m) (last (ms_waypoints (last (mr_stages (mc_route m))))) = Ret t \<and>
    \<not> flt (waypoint_tolerance (mc_config m)) (distance_to lm t p)"
  using assms(2,4)
proof (cases rule: update_branches)
  case (driving p m1)
  from drive_arrives [OF driving(8) [OF assms(1)] driving(9) _ driving(5) assms(5)] assms(3) driving(3,6,7)
  show ?thesis by (simp add: pose_ok_def)
qed (use assms(5) in simp_all)

lemma update_codes:
  assumes "mission_inv m" "mc_state m = MRUNNING" "pose_ok pose"
    "mission_update lm pose now front odom watchdog m = (r, m')"
  shows "(mc_failure_code m' = Some ''MISSION_TIMEOUT'' \<longleftrightarrow> older now (mc_started_at m) (mission_timeout (mc_config m))) \<and>
    (mc_failure_code m' = Some ''ODOM_STALE'' \<longleftrightarrow>
       \<not> older now (mc_started_at m) (mission_timeout (mc_config m)) \<and> odom_stale pose now odom watchdog m) \<and>
    (mc_failure_code m' = Some ''OBSTACLE_BLOCKED'' \<longleftrightarrow>
       \<not> older now (mc_started_at m) (mission_timeout (mc_config m)) \<and> \<not> odom_stale pose now odom watchdog m \<and>
       pose \<noteq> None \<and> obstacle_close front m \<and> older now (mc_obstacle_since m) (obstacle_fail_after (mc_config m)))"
proof -
  have none: "mc_failure_code m = None" using assms(1,2) by (simp add: mission_inv_def failure_ok_def)
  show ?thesis using assms(2,4)
  proof (cases rule: update_branches)
    case (driving p m1)
    then have "mc_failure_code m' \<in> {None, Some ''WAYPOINT_NO_PROGRESS''}"
      using drive_spec [OF driving(8) [OF assms(1)] driving(9), of p lm now] assms(3) by (auto simp: pose_ok_def)
    with driving(1-4) show ?thesis by auto
  qed (use none in simp_all)
qed

lemma demo_fields:
  "mc_route demo_running = demo_route" "mc_config demo_running = default_config"
  "mc_started_at demo_running = Some (Fin 0)" "mc_obstacle_since demo_running = None"
  "mc_stage_index demo_running = 0" "mc_waypoint_index demo_running = 0"
  by (simp_all add: demo_running_def mission_start_def mission_init_def reset_progress_def)

lemma demo_arrives:
  "mc_state (snd (mission_update demo_libm (Some (demo_pose (Fin 1))) (Fin 1) PInf None None demo_running)) = SUCCEEDED"
  using demo_ok(3)
  by (simp add: mission_update_def drive_def advance.simps current_target_def py_nth_def waypoint_in_odom_def
      world_pose_to_odom_def distance_to_def py_cos_def py_sin_def older_def fsub_def Let_def demo_fields
      demo_libm_def demo_pose_def demo_route_def demo_stage_def mk_waypoint_def default_config_def)

text \<open>
  A pose that is not a number passes for arrival: every comparison with the distance to it is
  false, so one update takes the running mission to success.
\<close>

lemma nan_pose_succeeds:
  "libm_nan demo_libm \<and>
   mc_state (snd (mission_update demo_libm (Some (demo_pose NaN)) (Fin 1) PInf None None demo_running)) = SUCCEEDED"
  using demo_ok(3) demo_libm_nan
  by (simp add: mission_update_def drive_def advance.simps current_target_def py_nth_def waypoint_in_odom_def
      world_pose_to_odom_def distance_to_def py_cos_def py_sin_def older_def fsub_def Let_def demo_fields
      demo_libm_def demo_pose_def demo_route_def demo_stage_def mk_waypoint_def default_config_def)

definition demo_loaded :: mission_route where
  "demo_loaded = \<lparr>mr_start = \<lparr>po_x = Fin 0, po_y = Fin 0, po_yaw = Fin 0\<rparr>,
     mr_stages = [demo_stage ''a'' 1, demo_stage ''b'' 2, demo_stage ''c'' 3]\<rparr>"

definition demo_stage_doc :: "string \<Rightarrow> int \<Rightarrow> pyval" where
  "demo_stage_doc n x = VDict [(VStr ''id'', VStr n), (VStr ''name'', VStr n),
     (VStr ''endpoint'', VList [VInt x, VInt 0]), (VStr ''waypoints'', VList [VList [VInt x, VInt 0]])]"

definition demo_route_doc :: pyval where
  "demo_route_doc = VDict [(VStr ''start'', VList [VInt 0, VInt 0, VInt 0]),
     (VStr ''stages'', VList [demo_stage_doc ''a'' 1, demo_stage_doc ''b'' 2, demo_stage_doc ''c'' 3])]"

lemma demo_loads: "load_route demo_libm (Some demo_route_doc) = Ret demo_loaded"
  by (simp add: demo_route_doc_def demo_stage_doc_def demo_loaded_def demo_stage_def vget_def blank_text_def
      strip_def py_space_def route_number_def float_of_int_small ENDPOINT_TOLERANCE_def fsub_def demo_libm_def mk_waypoint_def)

section \<open>The properties of the controller\<close>

text \<open>C32: Every control update of a sound mission returns a command, whatever the sensor data and the
  clocks: no index leaves the route and no division fails. The command is finite, its speed lies between zero
  and the configured maximum, its turn rate within the configured maximum; it is the zero command
  whenever the mission is not running after the update. The mission stays sound.\<close>
theorem mission_command_safe:
  assumes "mission_inv m" "pose_ok pose" "mission_update lm pose now front odom watchdog m = (r, m')"
  shows "\<exists>v. r = Ret v \<and> command_ok (mc_config m) v \<and> (mc_state m' \<noteq> MRUNNING \<longrightarrow> v = zero_velocity) \<and> mission_inv m'"
  using mission_update_spec [OF assms(1,2), of lm now front odom watchdog] assms(3) by (auto simp: updated_def)

theorem mission_command_safe_witness:
  "\<exists>v. fst (mission_update demo_libm (Some (demo_pose (Fin 0))) (Fin 1) PInf None None demo_running) = Ret v \<and>
    command_ok default_config v"
proof -
  have "mc_config demo_running = default_config"
    by (simp add: demo_running_def mission_start_def mission_init_def)
  then show ?thesis
    using mission_command_safe [OF demo_ok(2) _ surjective_pairing, of "Some (demo_pose (Fin 0))" demo_libm "Fin 1" PInf None None]
    by (auto simp: pose_ok_def demo_pose_def)
qed

text \<open>Whatever sequence of requests and updates runs, the reported stage results are those of the
  first stages of the route, in order and each once; a succeeded mission has one for every stage; a failed one
  names its reason, one of four, and the stage and waypoint it was heading for; any other finished
  or idle mission carries no failure code.\<close>
theorem mission_report_truthful:
  assumes "route_ok route" "config_ok config" "(mission_step lm b)\<^sup>*\<^sup>* (mission_init route config) m"
  shows "map sr_id (mc_stage_results m) = take (mc_stage_index m) (map ms_id (mr_stages (mc_route m))) \<and>
    (mc_state m = SUCCEEDED \<longrightarrow> map sr_id (mc_stage_results m) = map ms_id (mr_stages (mc_route m))) \<and>
    failure_ok m"
proof -
  have "mission_inv m" by (rule missions.inv_steps [OF assms(3) mission_init_inv [OF assms(1,2)]])
  then show ?thesis by (simp add: mission_inv_def results_ok_def take_map)
qed

theorem mission_report_truthful_witness:
  "failure_ok demo_running"
proof -
  have "(mission_step demo_libm True)\<^sup>*\<^sup>* (mission_init demo_route default_config) demo_running"
    unfolding demo_running_def by (intro r_into_rtranclp started [OF surjective_pairing])
  from mission_report_truthful [OF demo_ok(1) default_config_ok this] show ?thesis by simp
qed



text \<open>The watchdogs of a running mission, checked in this order: it fails with
  \<^verbatim>\<open>MISSION_TIMEOUT\<close> exactly when the mission clock passed the timeout, then with
  \<^verbatim>\<open>ODOM_STALE\<close> exactly when the odometry (or, before the first one, the start) is older than allowed,
  then with \<^verbatim>\<open>OBSTACLE_BLOCKED\<close> exactly when an obstacle has been close for longer than allowed.\<close>
theorem mission_watchdogs:
  assumes "mission_inv m" "mc_state m = MRUNNING" "pose_ok pose"
    "mission_update lm pose now front odom watchdog m = (r, m')"
  defines "late \<equiv> older now (mc_started_at m) (mission_timeout (mc_config m))"
    and "stale \<equiv> odom_stale pose now odom watchdog m"
  shows "(mc_failure_code m' = Some ''MISSION_TIMEOUT'' \<longleftrightarrow> late) \<and>
    (mc_failure_code m' = Some ''ODOM_STALE'' \<longleftrightarrow> \<not> late \<and> stale) \<and>
    (mc_failure_code m' = Some ''OBSTACLE_BLOCKED'' \<longleftrightarrow> \<not> late \<and> \<not> stale \<and> pose \<noteq> None \<and> obstacle_close front m \<and>
       older now (mc_obstacle_since m) (obstacle_fail_after (mc_config m)))"
  unfolding late_def stale_def by (rule update_codes [OF assms(1-4)])

theorem mission_watchdogs_witness:
  "mc_failure_code (snd (mission_update demo_libm (Some (demo_pose (Fin 0))) (Fin 200) PInf None None demo_running)) =
    Some ''MISSION_TIMEOUT''"
  using mission_watchdogs [OF demo_ok(2,3) _ surjective_pairing, of "Some (demo_pose (Fin 0))" demo_libm "Fin 200" PInf None None]
  by (simp add: pose_ok_def demo_pose_def demo_fields older_def fsub_def default_config_def)

text \<open>The emergency stop latches: until a reset, no start, cancel, stop or update leaves the stopped
  state or changes the progress of the mission, a start is refused and every update commands zero.\<close>
theorem mission_estop_latches:
  assumes "mission_inv m" "(mission_step lm False)\<^sup>*\<^sup>* (snd (mission_estop m)) m'"
  shows "mc_state m' = MESTOPPED \<and> mission_progress m' = mission_progress m \<and>
    fst (mission_start now wd m') = (False, ''emergency stop is latched'') \<and>
    fst (mission_update lm pose now front odom watchdog m') = Ret zero_velocity"
proof -
  have m: "mission_inv (snd (mission_estop m))" "mc_state (snd (mission_estop m)) = MESTOPPED"
    "mission_progress (snd (mission_estop m)) = mission_progress m"
    using mission_estop_inv [OF assms(1)] by (simp_all add: mission_estop_def mission_progress_def)
  from mission_estops.latched_steps [OF assms(2) m(1,2)] m(3)
  show ?thesis by (simp add: mission_start_def update_idle)
qed

theorem mission_estop_latches_witness:
  "mc_state (snd (mission_start (Fin 1) None (snd (mission_estop demo_running)))) = MESTOPPED"
proof -
  have "(mission_step demo_libm False)\<^sup>*\<^sup>* (snd (mission_estop demo_running))
      (snd (mission_start (Fin 1) None (snd (mission_estop demo_running))))"
    by (intro r_into_rtranclp started [OF surjective_pairing])
  from mission_estop_latches [OF demo_ok(2) this] show ?thesis by simp
qed

text \<open>A route that loads has exactly three stages with distinct, non-blank identifiers, each with
  waypoints of finite coordinates ending at its endpoint, and is a route the controller is sound for.\<close>
theorem loaded_route_ok:
  assumes "load_route lm doc = Ret route"
  shows "length (mr_stages route) = 3 \<and> distinct (map ms_id (mr_stages route)) \<and>
    list_all (stage_ok lm) (mr_stages route) \<and> route_ok route"
proof -
  obtain d vs where r: "route_start (vget d ''start'') = Ret (mr_start route)" "length vs = 3"
      "route_stages lm [] vs = Ret (mr_stages route)"
    using load_route_cases [OF assms] by metis
  note ss = route_stages_ok [OF r(3)]
  then have "mr_stages route \<noteq> []" using r(2) by auto
  moreover have "\<forall>s \<in> set (mr_stages route). ms_waypoints s \<noteq> []" using ss by (auto simp: list_all_iff stage_ok_def)
  ultimately show ?thesis using ss r(2) route_start_fin [OF r(1)] by (simp add: route_ok_def)
qed

theorem loaded_route_ok_witness:
  "length (mr_stages demo_loaded) = 3 \<and> route_ok demo_loaded"
  using loaded_route_ok [OF demo_loads] by simp

end
