(* ===== verification/MissionNode.thy ===== *)
theory MissionNode
  imports Mission
begin

text \<open>
  The ROS node around the mission controller:
  \<^verbatim>\<open>smartcar_bringup/mission_controller.py\<close>. The subscriptions, the services and the
  timer are one definition each; a run is a list of such events, as the single-threaded executor
  delivers them. Messages are the fields the code reads; what a tick publishes is its result.
\<close>

section \<open>State\<close>

record mission_node =
  nd_core :: mission
  nd_pose :: "pose2d option"
  nd_odom_received :: "pyfloat option"
  nd_feedback :: "string option"
  nd_front :: pyfloat
  nd_last_state :: mission_state
  nd_burst :: nat

definition TERMINAL_STATES :: "mission_state list" where
  "TERMINAL_STATES = [SUCCEEDED, MFAILED, CANCELLED, MESTOPPED]"

definition node_init :: "mission_route \<Rightarrow> mission_node" where
  "node_init route = \<lparr>nd_core = mission_init route default_config, nd_pose = None, nd_odom_received = None,
     nd_feedback = None, nd_front = PInf, nd_last_state = IDLE, nd_burst = 0\<rparr>"

section \<open>Sensors\<close>

record odom_msg =
  om_x :: pyfloat
  om_y :: pyfloat
  om_qx :: pyfloat
  om_qy :: pyfloat
  om_qz :: pyfloat
  om_qw :: pyfloat

definition yaw_from_orientation :: "libm \<Rightarrow> odom_msg \<Rightarrow> pyfloat" where
  "yaw_from_orientation lm q =
     lm_atan2 lm (fmul (Fin 2) (fadd (fmul (om_qw q) (om_qz q)) (fmul (om_qx q) (om_qy q))))
       (fsub (Fin 1) (fmul (Fin 2) (fadd (fmul (om_qy q) (om_qy q)) (fmul (om_qz q) (om_qz q)))))"

definition on_odom :: "libm \<Rightarrow> pyfloat \<Rightarrow> odom_msg \<Rightarrow> mission_node \<Rightarrow> mission_node" where
  "on_odom lm wall_now msg n = n\<lparr>
     nd_pose := Some \<lparr>po_x = om_x msg, po_y = om_y msg, po_yaw = normalize_angle (yaw_from_orientation lm msg)\<rparr>,
     nd_odom_received := Some wall_now, nd_feedback := Some ''gazebo_diff_drive_odometry''\<rparr>"

record scan_msg =
  sm_angle_min :: pyfloat
  sm_angle_increment :: pyfloat
  sm_range_min :: pyfloat
  sm_range_max :: pyfloat
  sm_ranges :: "pyfloat list"

text \<open>\<^verbatim>\<open>math.radians(30.0)\<close>: the product with the rounded quotient of pi and 180.\<close>

definition HALF_CONE :: pyfloat where "HALF_CONE = fmul (Fin 30) (mk_float (py_pi / 180))"

definition scan_angle :: "scan_msg \<Rightarrow> nat \<Rightarrow> pyfloat" where
  "scan_angle msg index =
     (let angle = fadd (sm_angle_min msg) (fmul (mk_float (of_nat index)) (sm_angle_increment msg)) in
      fsub (fmod_pos (fadd angle (Fin py_pi)) (2 * py_pi)) (Fin py_pi))"

definition ray_counts :: "scan_msg \<Rightarrow> nat \<times> pyfloat \<Rightarrow> bool" where
  "ray_counts msg = (\<lambda>(index, v). is_fin v \<and> \<not> (flt v (sm_range_min msg) \<or> flt (sm_range_max msg) v) \<and>
     fle (fabs (scan_angle msg index)) HALF_CONE)"

definition scan_candidates :: "scan_msg \<Rightarrow> pyfloat list" where
  "scan_candidates msg = map snd (filter (ray_counts msg) (enumerate 0 (sm_ranges msg)))"

fun py_min :: "pyfloat list \<Rightarrow> pyfloat" where
  "py_min [] = PInf"
| "py_min (x # xs) = foldl fmin x xs"

definition on_scan :: "scan_msg \<Rightarrow> mission_node \<Rightarrow> mission_node" where
  "on_scan msg n = n\<lparr>nd_front := py_min (scan_candidates msg)\<rparr>"

section \<open>Services\<close>

definition on_start :: "pyfloat \<Rightarrow> pyfloat \<Rightarrow> mission_node \<Rightarrow> (bool \<times> string) \<times> mission_node" where
  "on_start sim_now wall_now n =
     (if nd_pose n = None then ((False, ''ODOM_NOT_READY''), n)
      else let (r, core) = mission_start sim_now (Some wall_now) (nd_core n) in (r, n\<lparr>nd_core := core\<rparr>))"

definition on_cancel :: "mission_node \<Rightarrow> (bool \<times> string) \<times> mission_node" where
  "on_cancel n =
     (let (r, core) = mission_cancel (nd_core n); n1 = n\<lparr>nd_core := core\<rparr> in
      (r, if fst r then n1\<lparr>nd_burst := 10\<rparr> else n1))"

definition on_estop :: "mission_node \<Rightarrow> (bool \<times> string) \<times> mission_node" where
  "on_estop n = (let (r, core) = mission_estop (nd_core n) in (r, n\<lparr>nd_core := core, nd_burst := 10\<rparr>))"

definition on_reset :: "mission_node \<Rightarrow> (bool \<times> string) \<times> mission_node" where
  "on_reset n =
     (let (r, core) = mission_reset (nd_core n); n1 = n\<lparr>nd_core := core\<rparr> in
      (r, if fst r then n1\<lparr>nd_burst := 10\<rparr> else n1))"

section \<open>The status document\<close>

record mission_status =
  st_state :: mission_state
  st_failure_code :: "string option"
  st_stage_index :: nat
  st_stage_id :: "string option"
  st_stage_name :: "string option"
  st_waypoint_index :: nat
  st_stage_results :: "stage_result list"
  st_elapsed :: pyfloat
  st_failed_stage_id :: "string option"
  st_failed_waypoint_index :: "nat option"

definition mission_status_of :: "mission \<Rightarrow> mission_status" where
  "mission_status_of m =
     (let stage = (if mc_stage_index m < length (mr_stages (mc_route m))
        then Some (mr_stages (mc_route m) ! mc_stage_index m) else None) in
      \<lparr>st_state = mc_state m, st_failure_code = mc_failure_code m, st_stage_index = mc_stage_index m,
       st_stage_id = map_option ms_id stage, st_stage_name = map_option ms_name stage,
       st_waypoint_index = mc_waypoint_index m, st_stage_results = mc_stage_results m,
       st_elapsed = (case (mc_started_at m, mc_last_update_at m) of
           (Some s, Some u) \<Rightarrow> fmax (Fin 0) (fsub u s) | _ \<Rightarrow> Fin 0),
       st_failed_stage_id = mc_failed_stage_id m, st_failed_waypoint_index = mc_failed_waypoint_index m\<rparr>)"

record status_target =
  tg_odom :: waypoint
  tg_world :: waypoint
  tg_distance :: "pyfloat option"

record status_doc =
  sd_status :: mission_status
  sd_sim_time :: pyfloat
  sd_pose :: "pose2d option"
  sd_odom_age :: "pyfloat option"
  sd_front_range :: "pyfloat option"
  sd_feedback :: "string option"
  sd_target :: "status_target option"

definition status_target_of :: "libm \<Rightarrow> mission_node \<Rightarrow> status_target option result" where
  "status_target_of lm n =
     (let m = nd_core n in
      if mc_stage_index m < length (mr_stages (mc_route m)) then
        (let stage = mr_stages (mc_route m) ! mc_stage_index m in
         if mc_waypoint_index m < length (ms_waypoints stage) then
           (let w = ms_waypoints stage ! mc_waypoint_index m in
            rbind (waypoint_in_odom lm (mc_route m) w) (\<lambda>t.
              Ret (Some \<lparr>tg_odom = t, tg_world = w, tg_distance = map_option (distance_to lm t) (nd_pose n)\<rparr>)))
         else Ret None)
      else Ret None)"

definition status_document :: "libm \<Rightarrow> pyfloat \<Rightarrow> pyfloat \<Rightarrow> mission_node \<Rightarrow> status_doc result" where
  "status_document lm sim_now wall_now n =
     rbind (status_target_of lm n) (\<lambda>target.
       Ret \<lparr>sd_status = mission_status_of (nd_core n), sd_sim_time = sim_now, sd_pose = nd_pose n,
         sd_odom_age = map_option (\<lambda>t. fmax (Fin 0) (fsub wall_now t)) (nd_odom_received n),
         sd_front_range = (if is_fin (nd_front n) then Some (nd_front n) else None),
         sd_feedback = nd_feedback n, sd_target = target\<rparr>)"

text \<open>The numbers of the document; \<^verbatim>\<open>json.dumps(..., allow_nan=False)\<close> raises \<^verbatim>\<open>ValueError\<close>
  on one that is not finite.\<close>

definition pose_numbers :: "pose2d \<Rightarrow> pyfloat list" where
  "pose_numbers p = [po_x p, po_y p, po_yaw p]"

definition target_numbers :: "status_target \<Rightarrow> pyfloat list" where
  "target_numbers t = [wp_x (tg_odom t), wp_y (tg_odom t), wp_x (tg_world t), wp_y (tg_world t)] @
     (case tg_distance t of None \<Rightarrow> [] | Some d \<Rightarrow> [d])"

definition status_numbers :: "status_doc \<Rightarrow> pyfloat list" where
  "status_numbers d =
     concat (map (\<lambda>r. [sr_endpoint_error r, sr_elapsed r]) (st_stage_results (sd_status d))) @
     [st_elapsed (sd_status d), sd_sim_time d] @ (case sd_pose d of None \<Rightarrow> [] | Some p \<Rightarrow> pose_numbers p) @
     (case sd_odom_age d of None \<Rightarrow> [] | Some x \<Rightarrow> [x]) @ (case sd_front_range d of None \<Rightarrow> [] | Some x \<Rightarrow> [x]) @
     (case sd_target d of None \<Rightarrow> [] | Some t \<Rightarrow> target_numbers t)"

definition encode_status :: "status_doc \<Rightarrow> status_doc result" where
  "encode_status d = (if list_all is_fin (status_numbers d) then Ret d else Raise PyValueError)"

section \<open>The control tick\<close>

text \<open>What a tick publishes: the command, unless computing it raised, and then the status.\<close>

record tick_output =
  tk_command :: "velocity result"
  tk_status :: "status_doc result"

definition control_tick :: "libm \<Rightarrow> pyfloat \<Rightarrow> pyfloat \<Rightarrow> mission_node \<Rightarrow> tick_output \<times> mission_node" where
  "control_tick lm sim_now wall_now n =
     (case mission_update lm (nd_pose n) sim_now (nd_front n) (nd_odom_received n) (Some wall_now) (nd_core n) of
        (Inl e, core) \<Rightarrow> (\<lparr>tk_command = Raise e, tk_status = Raise e\<rparr>, n\<lparr>nd_core := core\<rparr>)
      | (Inr command, core) \<Rightarrow>
          (let n1 = n\<lparr>nd_core := core\<rparr>;
               n2 = (if mc_state core \<in> set TERMINAL_STATES \<and> nd_last_state n \<notin> set TERMINAL_STATES
                     then n1\<lparr>nd_burst := 10\<rparr> else n1);
               n3 = n2\<lparr>nd_last_state := mc_state core\<rparr>;
               (published, n4) = (if 0 < nd_burst n3 then (zero_velocity, n3\<lparr>nd_burst := nd_burst n3 - 1\<rparr>)
                     else (command, n3))
           in (\<lparr>tk_command = Ret published, tk_status = rbind (status_document lm sim_now wall_now n4) encode_status\<rparr>, n4)))"

text \<open>Ten zero commands on the way out.\<close>

definition close_commands :: "bool \<Rightarrow> velocity list" where
  "close_commands context_ok = (if context_ok then replicate 10 zero_velocity else [])"

section \<open>Runs\<close>

datatype node_event =
    Odom pyfloat odom_msg
  | Scan scan_msg
  | StartRequest pyfloat pyfloat
  | CancelRequest
  | EstopRequest
  | ResetRequest
  | Tick pyfloat pyfloat

fun node_event_step :: "libm \<Rightarrow> node_event \<Rightarrow> mission_node \<Rightarrow> velocity result list \<times> mission_node" where
  "node_event_step lm (Odom wall_now msg) n = ([], on_odom lm wall_now msg n)"
| "node_event_step lm (Scan msg) n = ([], on_scan msg n)"
| "node_event_step lm (StartRequest sim_now wall_now) n = ([], snd (on_start sim_now wall_now n))"
| "node_event_step lm CancelRequest n = ([], snd (on_cancel n))"
| "node_event_step lm EstopRequest n = ([], snd (on_estop n))"
| "node_event_step lm ResetRequest n = ([], snd (on_reset n))"
| "node_event_step lm (Tick sim_now wall_now) n =
     (let (out, n') = control_tick lm sim_now wall_now n in ([tk_command out], n'))"

fun node_run :: "libm \<Rightarrow> node_event list \<Rightarrow> mission_node \<Rightarrow> velocity result list \<times> mission_node" where
  "node_run lm [] n = ([], n)"
| "node_run lm (e # es) n =
     (let (cs, n1) = node_event_step lm e n; (ds, n2) = node_run lm es n1 in (cs @ ds, n2))"

section \<open>The node keeps the controller sound\<close>

lemma mk_float_bounded:
  assumes "\<bar>x\<bar> \<le> 8" shows "\<exists>r. mk_float x = Fin r \<and> \<bar>r\<bar> \<le> 8"
proof -
  have "fle (mk_float x) (Fin 8)" using mk_float_mono [of x 8] assms by simp
  moreover have "mk_float (- 8) = Fin (- 8)" using mk_float_int [of "- 8"] by simp
  then have "fle (Fin (- 8)) (mk_float x)" using mk_float_mono [of "- 8" x] assms by simp
  ultimately show ?thesis by (cases "mk_float x") auto
qed

lemma fmod_pos_range:
  assumes "0 < m" "m \<le> 8"
  shows "fmod_pos a m = NaN \<or> (\<exists>r. fmod_pos a m = Fin r \<and> 0 \<le> r \<and> r \<le> m) \<or> (\<exists>r. fmod_pos a m = mk_float r \<and> 0 \<le> r \<and> r \<le> m)"
proof (cases a)
  case (Fin x)
  show ?thesis
  proof (cases "0 \<le> x / m")
    case True
    have "m * of_int \<lfloor>x / m\<rfloor> \<le> m * (x / m)" "m * (x / m) \<le> m * (of_int \<lfloor>x / m\<rfloor> + 1)"
      by (rule mult_left_mono; use assms(1) in linarith)+
    then have "0 \<le> x - m * of_int \<lfloor>x / m\<rfloor>" "x - m * of_int \<lfloor>x / m\<rfloor> \<le> m"
      using assms(1) by (simp_all add: algebra_simps)
    with True Fin show ?thesis by (auto simp: Let_def)
  next
    case False
    define r where "r = x - m * of_int (- \<lfloor>- (x / m)\<rfloor>)"
    have "m * of_int \<lfloor>- (x / m)\<rfloor> \<le> m * - (x / m)" "m * - (x / m) \<le> m * (of_int \<lfloor>- (x / m)\<rfloor> + 1)"
      by (rule mult_left_mono; use assms(1) in linarith)+
    then have "r \<le> 0" "0 \<le> r + m" using assms(1) by (simp_all add: r_def algebra_simps)
    moreover have "fmod_pos a m = (if r < 0 then mk_float (r + m) else Fin r)"
      using Fin False by (simp add: r_def Let_def)
    ultimately show ?thesis using assms(1) by (auto intro!: exI [of _ "r + m"])
  qed
qed auto

lemma normalize_not_inf: "normalize_angle a \<notin> {PInf, NInf}"
proof -
  have pi: "3 \<le> py_pi" "2 * py_pi \<le> 8" "0 < 2 * py_pi" "py_pi \<le> 4" by (simp_all add: py_pi_def)
  have sub: "fsub (Fin r) (Fin py_pi) \<notin> {PInf, NInf}" if "0 \<le> r" "r \<le> 8" for r
  proof -
    have "\<bar>r - py_pi\<bar> \<le> 8" using pi that by linarith
    from mk_float_bounded [OF this] show ?thesis by (auto simp: fsub_def)
  qed
  have "fsub (fmod_pos x (2 * py_pi)) (Fin py_pi) \<notin> {PInf, NInf}" for x
    using fmod_pos_range [OF pi(3,2), of x]
  proof (elim disjE exE conjE)
    fix r
    assume r: "fmod_pos x (2 * py_pi) = mk_float r" "0 \<le> r" "r \<le> 2 * py_pi"
    then obtain q where q: "mk_float r = Fin q" "\<bar>q\<bar> \<le> 8" using mk_float_bounded [of r] pi(2) by auto
    have "0 \<le> q" using mk_float_mono [OF r(2)] q(1) by simp
    with q r(1) sub [of q] show ?thesis by simp
  next
    fix r
    assume "fmod_pos x (2 * py_pi) = Fin r" "0 \<le> r" "r \<le> 2 * py_pi"
    with pi(2) sub [of r] show ?thesis by simp
  qed (simp add: fsub_def)
  then show ?thesis by (simp add: normalize_angle_def Let_def)
qed

definition node_inv :: "mission_node \<Rightarrow> bool" where
  "node_inv n \<longleftrightarrow> mission_inv (nd_core n) \<and> pose_ok (nd_pose n)"

lemma node_init_inv: "route_ok route \<Longrightarrow> node_inv (node_init route)"
  by (simp add: node_inv_def node_init_def mission_init_inv default_config_ok pose_ok_def)

text \<open>A tick of a sound node: what it publishes and what it leaves.\<close>

lemma tick_spec:
  assumes "node_inv n"
  shows "\<exists>v core.
    mission_update lm (nd_pose n) sim_now (nd_front n) (nd_odom_received n) (Some wall_now) (nd_core n) = (Ret v, core) \<and>
    updated (nd_core n) v core \<and>
    tk_command (fst (control_tick lm sim_now wall_now n)) = Ret (if nd_burst n = 0 \<and>
        \<not> (mc_state core \<in> set TERMINAL_STATES \<and> nd_last_state n \<notin> set TERMINAL_STATES) then v else zero_velocity) \<and>
    nd_core (snd (control_tick lm sim_now wall_now n)) = core \<and> nd_pose (snd (control_tick lm sim_now wall_now n)) = nd_pose n \<and>
    (nd_burst n \<le> Suc (nd_burst (snd (control_tick lm sim_now wall_now n))) \<or>
      9 \<le> nd_burst (snd (control_tick lm sim_now wall_now n)))"
proof -
  obtain v core where u: "mission_update lm (nd_pose n) sim_now (nd_front n) (nd_odom_received n) (Some wall_now) (nd_core n) = (Ret v, core)"
      "updated (nd_core n) v core"
    using mission_update_spec assms unfolding node_inv_def by blast
  show ?thesis by (rule exI [of _ v], rule exI [of _ core]) (simp add: control_tick_def u Let_def)
qed

lemma event_inv: "node_inv n \<Longrightarrow> node_inv (snd (node_event_step lm e n))"
proof (induction lm e n rule: node_event_step.induct)
  case (1 lm wall_now msg n)
  then show ?case using normalize_not_inf by (simp add: node_inv_def on_odom_def pose_ok_def)
next
  case (3 lm sim_now wall_now n)
  then show ?case using mission_start_inv [OF surjective_pairing, of "nd_core n"]
    by (simp add: node_inv_def on_start_def split_def Let_def pose_ok_def)
next
  case (4 lm n)
  then show ?case using mission_cancel_inv [of "nd_core n"] by (simp add: node_inv_def on_cancel_def split_def Let_def)
next
  case (5 lm n)
  then show ?case using mission_estop_inv [of "nd_core n"] by (simp add: node_inv_def on_estop_def split_def Let_def)
next
  case (6 lm n)
  then show ?case using mission_reset_inv [of "nd_core n"] by (simp add: node_inv_def on_reset_def split_def Let_def)
next
  case (7 lm sim_now wall_now n)
  obtain core v where "updated (nd_core n) v core" "nd_core (snd (control_tick lm sim_now wall_now n)) = core"
      "nd_pose (snd (control_tick lm sim_now wall_now n)) = nd_pose n"
    using tick_spec [OF 7, of lm sim_now wall_now] by blast
  with 7 show ?case by (simp add: node_inv_def updated_def split_def Let_def)
qed (simp add: node_inv_def on_scan_def)

lemma run_inv: "node_inv n \<Longrightarrow> node_inv (snd (node_run lm es n))"
proof (induction es arbitrary: n)
  case (Cons e es)
  from Cons.IH [OF event_inv [OF Cons.prems, of lm e]] show ?case by (simp add: split_def Let_def)
qed simp

lemma node_run_append:
  "node_run lm (es @ fs) n = (fst (node_run lm es n) @ fst (node_run lm fs (snd (node_run lm es n))),
     snd (node_run lm fs (snd (node_run lm es n))))"
  by (induction es arbitrary: n) (simp_all add: split_def Let_def)

lemma event_config: "mc_config (nd_core (snd (node_event_step lm e n))) = mc_config (nd_core n) \<or> \<not> node_inv n"
proof (induction lm e n rule: node_event_step.induct)
  case (7 lm sim_now wall_now n)
  show ?case
  proof (cases "node_inv n")
    case True
    obtain core v where "updated (nd_core n) v core" "nd_core (snd (control_tick lm sim_now wall_now n)) = core"
      using tick_spec [OF True, of lm sim_now wall_now] by blast
    then show ?thesis by (simp add: updated_def split_def Let_def)
  qed simp
qed (simp_all add: on_odom_def on_scan_def on_start_def on_cancel_def on_estop_def on_reset_def mission_start_def
    mission_cancel_def mission_estop_def mission_reset_def Let_def)

lemma event_commands:
  assumes "node_inv n"
  shows "list_all (\<lambda>c. \<exists>v. c = Ret v \<and> command_ok (mc_config (nd_core n)) v) (fst (node_event_step lm e n))"
proof (cases e)
  case (Tick sim_now wall_now)
  obtain v core where "updated (nd_core n) v core"
    "tk_command (fst (control_tick lm sim_now wall_now n)) = Ret (if nd_burst n = 0 \<and>
        \<not> (mc_state core \<in> set TERMINAL_STATES \<and> nd_last_state n \<notin> set TERMINAL_STATES) then v else zero_velocity)"
    using tick_spec [OF assms, of lm sim_now wall_now] by blast
  moreover have "command_ok (mc_config (nd_core n)) zero_velocity"
    using assms by (simp add: node_inv_def mission_inv_def zero_command_ok)
  ultimately show ?thesis using Tick by (simp add: split_def updated_def Let_def)
qed simp_all

lemma run_commands:
  assumes "node_inv n"
  shows "list_all (\<lambda>c. \<exists>v. c = Ret v \<and> command_ok (mc_config (nd_core n)) v) (fst (node_run lm es n))"
  using assms
proof (induction es arbitrary: n)
  case (Cons e es)
  from Cons.IH [OF event_inv [OF Cons.prems, of lm e]] event_commands [OF Cons.prems, of lm e]
    event_config [of lm e n] Cons.prems
  show ?case by (simp add: split_def Let_def)
qed simp

section \<open>The zero burst and the emergency stop\<close>

lemma event_burst:
  assumes "node_inv n"
  shows "fst (node_event_step lm e n) = [] \<and> (nd_burst n \<le> nd_burst (snd (node_event_step lm e n)) \<or> 10 \<le> nd_burst (snd (node_event_step lm e n)))
    \<or> (\<exists>c. fst (node_event_step lm e n) = [c] \<and> (0 < nd_burst n \<longrightarrow> c = Ret zero_velocity) \<and>
        (nd_burst n \<le> Suc (nd_burst (snd (node_event_step lm e n))) \<or> 9 \<le> nd_burst (snd (node_event_step lm e n))))"
proof (cases e)
  case (Tick sim_now wall_now)
  obtain v and core :: mission where
    "tk_command (fst (control_tick lm sim_now wall_now n)) = Ret (if nd_burst n = 0 \<and>
        \<not> (mc_state core \<in> set TERMINAL_STATES \<and> nd_last_state n \<notin> set TERMINAL_STATES) then v else zero_velocity)"
    "nd_burst n \<le> Suc (nd_burst (snd (control_tick lm sim_now wall_now n))) \<or> 9 \<le> nd_burst (snd (control_tick lm sim_now wall_now n))"
    using tick_spec [OF assms, of lm sim_now wall_now] by blast
  with Tick show ?thesis by (simp add: split_def Let_def)
qed (simp_all add: on_odom_def on_scan_def on_start_def on_cancel_def on_estop_def on_reset_def split_def Let_def)

lemma burst_run:
  assumes "node_inv n" "length (fst (node_run lm es n)) \<le> k" "k \<le> nd_burst n" "k \<le> 10"
  shows "list_all (\<lambda>c. c = Ret zero_velocity) (fst (node_run lm es n))"
  using assms
proof (induction es arbitrary: n k)
  case (Cons e es)
  define n1 where "n1 = snd (node_event_step lm e n)"
  have inv: "node_inv n1" unfolding n1_def by (rule event_inv [OF Cons.prems(1)])
  have run: "fst (node_run lm (e # es) n) = fst (node_event_step lm e n) @ fst (node_run lm es n1)"
    by (simp add: split_def Let_def n1_def)
  from event_burst [OF Cons.prems(1), of lm e] show ?case
  proof (elim disjE conjE exE)
    assume e: "fst (node_event_step lm e n) = []"
    assume "nd_burst n \<le> nd_burst (snd (node_event_step lm e n))"
    with Cons.prems e run show ?thesis using Cons.IH [OF inv, of k] by (simp add: n1_def)
  next
    assume e: "fst (node_event_step lm e n) = []"
    assume "10 \<le> nd_burst (snd (node_event_step lm e n))"
    with Cons.prems e run show ?thesis using Cons.IH [OF inv, of k] by (simp add: n1_def)
  next
    fix c
    assume c: "fst (node_event_step lm e n) = [c]" "0 < nd_burst n \<longrightarrow> c = Ret zero_velocity"
    assume "nd_burst n \<le> Suc (nd_burst (snd (node_event_step lm e n)))"
    with Cons.prems c run show ?thesis using Cons.IH [OF inv, of "k - 1"] by (simp add: n1_def)
  next
    fix c
    assume c: "fst (node_event_step lm e n) = [c]" "0 < nd_burst n \<longrightarrow> c = Ret zero_velocity"
    assume "9 \<le> nd_burst (snd (node_event_step lm e n))"
    with Cons.prems c run show ?thesis using Cons.IH [OF inv, of "k - 1"] by (simp add: n1_def)
  qed
qed simp

text \<open>Stopped and not reset, the node publishes only zeros.\<close>

lemma event_estop:
  assumes "node_inv n" "mc_state (nd_core n) = MESTOPPED" "e \<noteq> ResetRequest"
  shows "mc_state (nd_core (snd (node_event_step lm e n))) = MESTOPPED \<and>
    list_all (\<lambda>c. c = Ret zero_velocity) (fst (node_event_step lm e n))"
proof (cases e)
  case (Tick sim_now wall_now)
  obtain v core where t:
    "updated (nd_core n) v core"
    "tk_command (fst (control_tick lm sim_now wall_now n)) = Ret (if nd_burst n = 0 \<and>
        \<not> (mc_state core \<in> set TERMINAL_STATES \<and> nd_last_state n \<notin> set TERMINAL_STATES) then v else zero_velocity)"
    "nd_core (snd (control_tick lm sim_now wall_now n)) = core"
    using tick_spec [OF assms(1), of lm sim_now wall_now] by blast
  from t(1) assms(2) have "mc_state core = MESTOPPED" "v = zero_velocity" by (auto simp: updated_def)
  with t Tick show ?thesis by (simp add: split_def Let_def)
qed (use assms in \<open>simp_all add: on_odom_def on_scan_def on_start_def on_cancel_def on_estop_def mission_start_def
    mission_cancel_def mission_estop_def Let_def\<close>)

lemma estop_run:
  assumes "node_inv n" "mc_state (nd_core n) = MESTOPPED" "ResetRequest \<notin> set es"
  shows "mc_state (nd_core (snd (node_run lm es n))) = MESTOPPED \<and>
    list_all (\<lambda>c. c = Ret zero_velocity) (fst (node_run lm es n))"
  using assms
proof (induction es arbitrary: n)
  case (Cons e es)
  have "e \<noteq> ResetRequest" "ResetRequest \<notin> set es" using Cons.prems(3) by auto
  with event_estop [OF Cons.prems(1,2), of e lm] Cons.IH [OF event_inv [OF Cons.prems(1), of lm e]]
  show ?case by (simp add: split_def Let_def)
qed simp

section \<open>The front range\<close>

lemma foldl_fmin_Fin:
  assumes "is_fin x" "list_all is_fin xs"
  shows "foldl fmin x xs \<in> set (x # xs) \<and> (\<forall>y \<in> set (x # xs). fle (foldl fmin x xs) y)"
  using assms
proof (induction xs arbitrary: x)
  case Nil
  then show ?case by (cases x) auto
next
  case (Cons y xs)
  obtain a b where ab: "x = Fin a" "y = Fin b" using Cons.prems by (cases x; cases y) auto
  then have m: "is_fin (fmin x y)" "fmin x y \<in> {x, y}" "fle (fmin x y) x" "fle (fmin x y) y"
    by (simp_all add: fmin_def)
  have ih: "foldl fmin (fmin x y) xs \<in> set (fmin x y # xs)"
    "\<forall>z \<in> set (fmin x y # xs). fle (foldl fmin (fmin x y) xs) z"
    using Cons.IH [OF m(1)] Cons.prems(2) by auto
  have "fle (foldl fmin (fmin x y) xs) (fmin x y)" using ih(2) by simp
  then have "fle (foldl fmin (fmin x y) xs) x" "fle (foldl fmin (fmin x y) xs) y"
    using m(3,4) fle_trans by blast+
  with ih m(2) show ?case by auto
qed

lemma candidates_iff:
  "v \<in> set (scan_candidates msg) \<longleftrightarrow> (\<exists>i < length (sm_ranges msg). sm_ranges msg ! i = v \<and> ray_counts msg (i, v))"
  by (force simp: scan_candidates_def in_set_enumerate_eq)

lemma py_min_spec:
  assumes "list_all is_fin xs"
  shows "if xs = [] then py_min xs = PInf else py_min xs \<in> set xs \<and> (\<forall>y \<in> set xs. fle (py_min xs) y)"
  using assms foldl_fmin_Fin by (cases xs) auto

lemma candidates_fin: "list_all is_fin (scan_candidates msg)"
  by (auto simp: scan_candidates_def ray_counts_def list_all_iff)

section \<open>When the robot may move\<close>

lemma update_moves:
  assumes "mission_inv m" "mission_update lm pose now front odom (Some w) m = (Ret v, m')" "v \<noteq> zero_velocity"
    "pose_ok pose"
  shows "mc_state m = MRUNNING \<and> mc_state m' = MRUNNING \<and> pose \<noteq> None \<and> \<not> odom_stale pose now odom (Some w) m \<and>
    \<not> obstacle_close front m \<and> \<not> older now (mc_started_at m) (mission_timeout (mc_config m))"
proof -
  have run: "mc_state m = MRUNNING" using assms(2,3) update_idle [of m] by fastforce
  have run': "mc_state m' = MRUNNING"
    using mission_update_spec [OF assms(1,4), of lm now front odom "Some w"] assms(2,3) by (auto simp: updated_def)
  from run assms(2) show ?thesis
  proof (cases rule: update_branches)
    case blind
    with assms(2,3) run show ?thesis
      by (auto simp: mission_update_def odom_stale_def Let_def split: if_splits)
  next
    case waiting
    with assms(2,3) run show ?thesis
      by (cases pose) (auto simp: mission_update_def odom_stale_def obstacle_close_def Let_def split: if_splits)
  qed (use run run' in simp_all)
qed

text \<open>A node that has its odometry and has been started, and its first tick.\<close>

definition demo_events :: "node_event list" where
  "demo_events = [Odom (Fin 0) \<lparr>om_x = Fin 0, om_y = Fin 0, om_qx = Fin 0, om_qy = Fin 0, om_qz = Fin 0, om_qw = Fin 1\<rparr>,
     StartRequest (Fin 0) (Fin 0)]"

definition demo_ready :: mission_node where
  "demo_ready = snd (node_run demo_libm demo_events (node_init demo_route))"

definition demo_scan :: "pyfloat list \<Rightarrow> scan_msg" where
  "demo_scan rs = \<lparr>sm_angle_min = Fin 0, sm_angle_increment = Fin 0, sm_range_min = Fin 0, sm_range_max = Fin 10,
     sm_ranges = rs\<rparr>"

lemma mk_float_pi: "mk_float py_pi = Fin py_pi"
  by (simp add: float_eval py_pi_def)

lemma normalize_zero: "normalize_angle (Fin 0) = Fin 0"
  using mk_float_pi by (simp add: normalize_angle_def fsub_def Let_def) (simp add: py_pi_def)

lemma demo_ready_eq:
  "nd_core demo_ready = demo_running\<lparr>mc_started_watchdog_at := Some (Fin 0)\<rparr>" "nd_pose demo_ready = Some (demo_pose (Fin 0))"
  "nd_front demo_ready = PInf" "nd_odom_received demo_ready = Some (Fin 0)" "nd_burst demo_ready = 0"
  "nd_last_state demo_ready = IDLE"
  by (simp_all add: demo_ready_def demo_events_def on_odom_def on_start_def node_init_def demo_running_def
      mission_start_def mission_init_def reset_progress_def yaw_from_orientation_def demo_libm_def normalize_zero
      demo_pose_def Let_def)

lemma drive_demo:
  assumes "mc_stage_index m = 0" "mc_waypoint_index m = 0" "mc_route m = demo_route" "mc_config m = default_config"
    "mc_progress_target m = None"
  shows "\<exists>m'. drive demo_libm (demo_pose (Fin 0)) (Fin 0) m = (Ret (mk_velocity (max_linear default_config) (Fin 0)), m') \<and>
    mc_state m' = mc_state m"
proof -
  have t: "current_target demo_libm m = Ret (demo_stage ''a'' 1, mk_waypoint (Fin 1) (Fin 0))"
    using assms by (simp add: current_target_def py_nth_def waypoint_in_odom_def world_pose_to_odom_def py_cos_def
        py_sin_def fsub_def Let_def demo_libm_def demo_route_def demo_stage_def mk_waypoint_def)
  have p: "rmap (waypoint_in_odom demo_libm demo_route) (ms_waypoints (demo_stage ''a'' 1)) = Ret [mk_waypoint (Fin 1) (Fin 0)]"
    by (simp add: waypoint_in_odom_def world_pose_to_odom_def py_cos_def py_sin_def fsub_def Let_def demo_libm_def
        demo_route_def demo_stage_def mk_waypoint_def)
  have c: "interpolate_lookahead_carrot demo_libm (demo_pose (Fin 0)) [mk_waypoint (Fin 1) (Fin 0)] (lookahead_distance default_config)
      = Ret (mk_waypoint (lookahead_distance default_config) (Fin 0))"
    by (simp add: interpolate_lookahead_carrot_def demo_libm_def demo_pose_def mk_waypoint_def default_config_def
        fsub_def float_eval)
  have v: "pursue demo_libm default_config (demo_pose (Fin 0)) (mk_waypoint (lookahead_distance default_config) (Fin 0)) (Fin 1) True
      = Ret (mk_velocity (max_linear default_config) (Fin 0))"
    by (simp add: pursue_def pure_pursuit_curvature_def demo_libm_def demo_pose_def mk_waypoint_def mk_velocity_def
        default_config_def TINY_def py_cos_def py_sin_def fsub_def fmin_def fclamp_def fmax_def float_eval)
  have d: "distance_to demo_libm (mk_waypoint (Fin 1) (Fin 0)) (demo_pose (Fin 0)) = Fin 1"
    by (simp add: distance_to_def demo_libm_def demo_pose_def mk_waypoint_def fsub_def)
  then have a: "advance demo_libm (demo_pose (Fin 0)) (Fin 0) m = (Ret False, m)"
    using assms t by (simp add: advance.simps [of _ _ _ m] default_config_def)
  have n: "length (mr_stages demo_route) = Suc 0" "length (ms_waypoints (demo_stage ''a'' 1)) = Suc 0"
    by (simp_all add: demo_route_def demo_stage_def)
  show ?thesis
    using assms t p c v d [unfolded distance_to_def]
    by (simp add: drive_def a steer_def track_progress_def Let_def n)
qed

lemma demo_moves: "tk_command (fst (control_tick demo_libm (Fin 0) (Fin 0) demo_ready)) \<noteq> Ret zero_velocity"
proof -
  define m where "m = demo_running\<lparr>mc_started_watchdog_at := Some (Fin 0), mc_last_update_at := Some (Fin 0),
    mc_last_odom_at := Some (Fin 0), mc_obstacle_since := None\<rparr>"
  have m: "mc_stage_index m = 0" "mc_waypoint_index m = 0" "mc_route m = demo_route" "mc_config m = default_config"
      "mc_progress_target m = None" "mc_state m = MRUNNING"
    using demo_ok(3) by (simp_all add: m_def demo_fields) (simp add: demo_running_def mission_start_def mission_init_def reset_progress_def)
  obtain m' where d: "drive demo_libm (demo_pose (Fin 0)) (Fin 0) m = (Ret (mk_velocity (max_linear default_config) (Fin 0)), m')"
      "mc_state m' = MRUNNING"
    using drive_demo [OF m(1-5)] m(6) by auto
  have "mission_update demo_libm (Some (demo_pose (Fin 0))) (Fin 0) PInf (Some (Fin 0)) (Some (Fin 0)) (nd_core demo_ready) =
      drive demo_libm (demo_pose (Fin 0)) (Fin 0) m"
    using demo_ok(3) by (simp add: mission_update_def demo_ready_eq demo_fields older_def fsub_def default_config_def m_def Let_def)
  with d show ?thesis
    by (simp add: control_tick_def demo_ready_eq TERMINAL_STATES_def zero_velocity_def mk_velocity_def default_config_def Let_def)
qed

section \<open>The properties of the node\<close>

text \<open>Whatever messages, requests and ticks arrive, every tick of a node started on a sound route computes
  a command without an exception and publishes one that is finite and within the default limits of speed and turn rate.\<close>
theorem node_commands_safe:
  assumes "route_ok route"
  shows "list_all (\<lambda>c. \<exists>v. c = Ret v \<and> command_ok default_config v) (fst (node_run lm es (node_init route)))"
  using run_commands [OF node_init_inv [OF assms], of lm es] by (simp add: node_init_def mission_init_def)

theorem node_commands_safe_witness:
  "list_all (\<lambda>c. \<exists>v. c = Ret v \<and> command_ok default_config v)
     (fst (node_run demo_libm [StartRequest (Fin 0) (Fin 0), Tick (Fin 1) (Fin 1)] (node_init demo_route)))"
  by (rule node_commands_safe [OF demo_ok(1)])

text \<open>A stop is a burst: after an accepted cancel or reset, or any emergency stop, the next ten commands the
  node publishes are zero, whatever arrives in between, another start included.\<close>
theorem stop_burst_is_zero:
  assumes "route_ok route" "n = snd (node_run lm es (node_init route))"
    "on_cancel n = ((True, msg), n') \<or> on_estop n = (r, n') \<or> on_reset n = ((True, msg), n')"
    "length (fst (node_run lm fs n')) \<le> 10"
  shows "list_all (\<lambda>c. c = Ret zero_velocity) (fst (node_run lm fs n'))"
proof -
  have "node_inv n" using run_inv [OF node_init_inv [OF assms(1)]] assms(2) by simp
  then have "node_inv (snd (on_cancel n))" "node_inv (snd (on_estop n))" "node_inv (snd (on_reset n))"
    using event_inv [of n lm CancelRequest] event_inv [of n lm EstopRequest] event_inv [of n lm ResetRequest] by simp_all
  then have inv: "node_inv n'" using assms(3) by auto
  have "10 \<le> nd_burst n'"
    using assms(3) by (auto simp: on_cancel_def on_estop_def on_reset_def Let_def split: prod.splits if_splits)
  from burst_run [OF inv assms(4) this] show ?thesis by simp
qed

theorem stop_burst_is_zero_witness:
  "list_all (\<lambda>c. c = Ret zero_velocity)
     (fst (node_run demo_libm [StartRequest (Fin 1) (Fin 1)] (snd (on_estop (snd (node_run demo_libm [] (node_init demo_route)))))))"
  by (rule stop_burst_is_zero [OF demo_ok(1) refl disjI2 [OF disjI1 [OF surjective_pairing]]]) simp

text \<open>An emergency-stopped node stands still: until a reset is requested, every command it publishes is zero and the
  mission stays stopped, whatever else arrives.\<close>
theorem node_estop_still:
  assumes "route_ok route" "n = snd (node_run lm es (node_init route))" "ResetRequest \<notin> set fs"
  shows "mc_state (nd_core (snd (node_run lm fs (snd (on_estop n))))) = MESTOPPED \<and>
    list_all (\<lambda>c. c = Ret zero_velocity) (fst (node_run lm fs (snd (on_estop n))))"
proof (rule estop_run [OF _ _ assms(3)])
  have "node_inv n" using run_inv [OF node_init_inv [OF assms(1)]] assms(2) by simp
  then show "node_inv (snd (on_estop n))" using event_inv [of n lm EstopRequest] by simp
  show "mc_state (nd_core (snd (on_estop n))) = MESTOPPED"
    by (simp add: on_estop_def mission_estop_def Let_def)
qed

theorem node_estop_still_witness:
  "mc_state (nd_core (snd (node_run demo_libm [StartRequest (Fin 1) (Fin 1), Tick (Fin 1) (Fin 1)]
     (snd (on_estop (node_init demo_route)))))) = MESTOPPED"
  using node_estop_still [OF demo_ok(1), of _ demo_libm "[]" "[StartRequest (Fin 1) (Fin 1), Tick (Fin 1) (Fin 1)]"]
  by simp

text \<open>C39: The robot moves only when it may: a tick that publishes anything but zero does so with a running mission
  before and after it, no pending zero burst, a pose whose odometry is fresh, no close obstacle in front
  and the mission within its time.\<close>
theorem motion_requires_all_clear:
  assumes "route_ok route" "n = snd (node_run lm es (node_init route))"
    "control_tick lm sim_now wall_now n = (out, n')" "tk_command out \<noteq> Ret zero_velocity"
  shows "mc_state (nd_core n) = MRUNNING \<and> mc_state (nd_core n') = MRUNNING \<and> nd_burst n = 0 \<and> nd_pose n \<noteq> None \<and>
    \<not> odom_stale (nd_pose n) sim_now (nd_odom_received n) (Some wall_now) (nd_core n) \<and>
    \<not> obstacle_close (nd_front n) (nd_core n) \<and>
    \<not> older sim_now (mc_started_at (nd_core n)) (mission_timeout (mc_config (nd_core n)))"
proof -
  have inv: "node_inv n" using run_inv [OF node_init_inv [OF assms(1)]] assms(2) by simp
  obtain v and core :: mission where t:
    "mission_update lm (nd_pose n) sim_now (nd_front n) (nd_odom_received n) (Some wall_now) (nd_core n) = (Ret v, core)"
    "tk_command (fst (control_tick lm sim_now wall_now n)) = Ret (if nd_burst n = 0 \<and>
        \<not> (mc_state core \<in> set TERMINAL_STATES \<and> nd_last_state n \<notin> set TERMINAL_STATES) then v else zero_velocity)"
    "nd_core (snd (control_tick lm sim_now wall_now n)) = core"
    using tick_spec [OF inv, of lm sim_now wall_now] by blast
  have v: "v \<noteq> zero_velocity" "nd_burst n = 0" using t(2) assms(3,4) by (auto split: if_splits)
  from inv have "mission_inv (nd_core n)" "pose_ok (nd_pose n)" by (simp_all add: node_inv_def)
  from update_moves [OF this(1) t(1) v(1) this(2)] v(2) t(3) assms(3) show ?thesis by simp
qed

theorem motion_requires_all_clear_witness:
  "nd_pose demo_ready \<noteq> None \<and> \<not> obstacle_close (nd_front demo_ready) (nd_core demo_ready)"
  using motion_requires_all_clear [OF demo_ok(1) demo_ready_def surjective_pairing demo_moves] by simp

text \<open>The front range is the nearest valid return of the forward cone: infinite when no ray is finite, within
  the sensor's range and within thirty degrees of the front, otherwise one of those returns and none of them is nearer.\<close>
theorem front_range_exact:
  "let hits = {v. \<exists>i < length (sm_ranges msg). sm_ranges msg ! i = v \<and> ray_counts msg (i, v)};
       front = nd_front (on_scan msg n)
   in if hits = {} then front = PInf else front \<in> hits \<and> (\<forall>v \<in> hits. fle front v)"
proof -
  have "{v. \<exists>i < length (sm_ranges msg). sm_ranges msg ! i = v \<and> ray_counts msg (i, v)} = set (scan_candidates msg)"
    by (auto simp: candidates_iff)
  with py_min_spec [OF candidates_fin, of msg] show ?thesis by (simp add: on_scan_def split: if_splits)
qed

theorem front_range_exact_witness: "nd_front (on_scan (demo_scan []) demo_ready) = PInf"
  using front_range_exact [of "demo_scan []" demo_ready] by (simp add: demo_scan_def)

end
