(* ===== verification/TransitionLog.thy ===== *)
theory TransitionLog
  imports Gateway AuditLog
begin

text \<open>
  How the runtime controller turns the gateway's transitions into audit records
  (\<^verbatim>\<open>agent_ros/runtime/controller.py\<close>, from \<^verbatim>\<open>_append_transition\<close> to
  \<^verbatim>\<open>_record_audit_failure\<close>): any thread registers a transition it caused, and one thread at a
  time, the one that owns the drain, hands the registered transitions to the audit worker in the order of
  their sequence numbers, completing the gaps the watchdog leaves. Each region under the transition condition is
  one definition; the gateway, the registering callers and the draining thread interleave freely.
\<close>

section \<open>State\<close>

record audit_item =
  it_operation :: audit_operation
  it_transition :: transition
  it_data :: "pydict option"
  it_outcome :: audit_outcome

text \<open>
  The thread that owns the drain looks for the next item, waits for its append, or has seen it fail. Threads that
  ran out of time first record the failure and then stop the gateway: they are counted. The
  transitions of the gateway since it was created, and the events whose append has taken effect, are ghosts.
\<close>

datatype drain_owner = NoDrain | Polling | Appending audit_item | AppendFailed

record transition_log =
  tl_gateway :: gateway
  tl_next :: nat
  tl_pending :: "(nat \<times> audit_item) list"
  tl_failure :: bool
  tl_draining :: bool
  tl_quarantined :: bool
  tl_owner :: drain_owner
  tl_late :: nat
  tl_stopping :: nat
  tl_all :: "transition list"
  tl_written :: "audit_event list"

definition log_init :: "gateway \<Rightarrow> transition_log" where
  "log_init g = \<lparr>tl_gateway = g, tl_next = 0, tl_pending = [], tl_failure = False, tl_draining = False,
     tl_quarantined = False, tl_owner = NoDrain, tl_late = 0, tl_stopping = 0, tl_all = [], tl_written = []\<rparr>"

section \<open>Registration\<close>

definition stop_result_data :: "stop_result \<Rightarrow> pydict" where
  "stop_result_data r = stop_pairs (sr_latched r) (sr_quiesced r) (sr_accepted r) (sr_code r)"

abbreviation compromised :: "'a result" where
  "compromised \<equiv> Raise (controller_error ''AUDIT_INTEGRITY_COMPROMISED'')"

text \<open>The data of the record: a stopped state carries the stop's result and nothing else.\<close>

definition record_data :: "transition \<Rightarrow> pydict option \<Rightarrow> pydict option result" where
  "record_data t data =
     (case tr_stop t of None \<Rightarrow> Ret data
      | Some r \<Rightarrow> if data \<noteq> None then compromised else Ret (Some (stop_result_data r)))"

definition register_locked ::
  "audit_operation \<Rightarrow> transition \<Rightarrow> pydict option \<Rightarrow> audit_outcome \<Rightarrow> transition_log \<Rightarrow> unit result \<times> transition_log" where
  "register_locked operation t data outcome s =
     (let item = \<lparr>it_operation = operation, it_transition = t, it_data = data, it_outcome = outcome\<rparr> in
      if tl_failure s then (compromised, s)
      else if tr_sequence t < tl_next s then (Ret (), s)
      else (case dget (tl_pending s) (tr_sequence t) of
          None \<Rightarrow> (Ret (), s\<lparr>tl_pending := dset (tr_sequence t) item (tl_pending s)\<rparr>)
        | Some existing \<Rightarrow>
            if existing \<noteq> item then (compromised, s)
            else (Ret (), s\<lparr>tl_pending := dset (tr_sequence t) item (tl_pending s)\<rparr>)))"

definition register_transition ::
  "audit_operation \<Rightarrow> transition \<Rightarrow> pydict option \<Rightarrow> audit_outcome \<Rightarrow> transition_log \<Rightarrow> unit result \<times> transition_log" where
  "register_transition operation t data outcome s =
     (if \<not> owns_transition t (tl_gateway s) then (compromised, s)
      else case record_data t data of Inl e \<Rightarrow> (Raise e, s)
      | Inr data' \<Rightarrow> register_locked operation t data' outcome s)"

section \<open>Draining\<close>

definition infer_gateway_fault :: "nat \<Rightarrow> gateway \<Rightarrow> audit_item option" where
  "infer_gateway_fault n g =
     (case transitions_from n g of [] \<Rightarrow> None
      | t # _ \<Rightarrow>
          if tr_sequence t = n \<and> tr_before t = RUNNING \<and> tr_after t = FAULTED
          then Some \<lparr>it_operation = HEARTBEAT, it_transition = t,
                 it_data = map_option stop_result_data (tr_stop t), it_outcome = FAULT\<rparr>
          else None)"

definition next_item :: "transition_log \<Rightarrow> audit_item option" where
  "next_item s =
     (case dget (tl_pending s) (tl_next s) of Some i \<Rightarrow> Some i
      | None \<Rightarrow> infer_gateway_fault (tl_next s) (tl_gateway s))"

text \<open>One turn of the inner loop: what a thread that waits for a sequence number, or for none, and that owns the
  drain or not, does when its deadline has passed or not.\<close>

datatype poll = PollFails | PollReturns | PollTakes audit_item | PollTimesOut | PollWaits

definition drain_poll :: "nat option \<Rightarrow> bool \<Rightarrow> bool \<Rightarrow> transition_log \<Rightarrow> poll" where
  "drain_poll wait_for owns expired s =
     (let item = next_item s;
          done_waiting = (case wait_for of None \<Rightarrow> False | Some w \<Rightarrow> w < tl_next s);
          free = (owns \<or> \<not> tl_draining s)
      in if tl_failure s then PollFails
         else if done_waiting \<and> (\<not> owns \<or> item = None) then PollReturns
         else (case item of
             Some i \<Rightarrow> if free then PollTakes i else if expired then PollTimesOut else PollWaits
           | None \<Rightarrow>
               if wait_for = None \<and> tl_pending s = [] \<and> free then PollReturns
               else if expired then PollTimesOut else PollWaits))"

definition drain_take :: "audit_item \<Rightarrow> transition_log \<Rightarrow> transition_log" where
  "drain_take i s = s\<lparr>tl_draining := True, tl_owner := Appending i\<rparr>"

definition drain_leave :: "transition_log \<Rightarrow> transition_log" where
  "drain_leave s = s\<lparr>tl_draining := False, tl_owner := NoDrain\<rparr>"

definition item_event :: "audit_item \<Rightarrow> audit_event" where
  "item_event i = \<lparr>ae_operation = it_operation i, ae_before = tr_before (it_transition i),
     ae_after = tr_after (it_transition i), ae_outcome = it_outcome i,
     ae_data = VDict (case it_data i of None \<Rightarrow> [] | Some d \<Rightarrow> d), ae_gids = Some [], ae_error = NoError,
     ae_error_code = VNone, ae_session_id = VNone\<rparr>"

definition ddel :: "'k \<Rightarrow> ('k \<times> 'v) list \<Rightarrow> ('k \<times> 'v) list" where
  "ddel k d = filter (\<lambda>(k', _). k' \<noteq> k) d"

definition drain_appended :: "audit_item \<Rightarrow> transition_log \<Rightarrow> transition_log" where
  "drain_appended i s = s\<lparr>tl_pending := ddel (tl_next s) (tl_pending s), tl_next := Suc (tl_next s),
     tl_owner := Polling, tl_written := tl_written s @ [item_event i]\<rparr>"

text \<open>A failed append is recorded before the gateway is stopped; its record may have landed all the same.\<close>

definition record_failure :: "transition_log \<Rightarrow> transition_log" where
  "record_failure s = s\<lparr>tl_failure := True, tl_quarantined := True\<rparr>"

definition drain_failed :: "bool \<Rightarrow> audit_item \<Rightarrow> transition_log \<Rightarrow> transition_log" where
  "drain_failed landed i s =
     (record_failure s)\<lparr>tl_owner := AppendFailed, tl_written := (if landed then tl_written s @ [item_event i] else tl_written s)\<rparr>"

definition moved :: "gateway \<Rightarrow> transition_log \<Rightarrow> transition_log" where
  "moved g s = s\<lparr>tl_gateway := g, tl_all := tl_all s @
     (if gw_sequence g = gw_sequence (tl_gateway s) then [] else (case gw_latest g of None \<Rightarrow> [] | Some t \<Rightarrow> [t]))\<rparr>"

definition failure_estop :: "(nat \<Rightarrow> stop_call) \<Rightarrow> transition_log \<Rightarrow> transition_log" where
  "failure_estop calls s = moved (snd (gw_estop_attempt calls (tl_gateway s))) s"

text \<open>The audit writer accepts an event only when its states and its data fit its operation.\<close>

definition loggable :: "audit_item \<Rightarrow> bool" where
  "loggable i \<longleftrightarrow> validate_transition (item_event i) = Ret () \<and>
     is_ret (validate_operation_data (item_event i) (ae_data (item_event i)))"

section \<open>Runs\<close>

text \<open>The controller never resets an emergency stop; a registered transition is one the gateway has made.\<close>

inductive tl_step :: "transition_log \<Rightarrow> transition_log \<Rightarrow> bool" where
  gateway: "gw_step (tl_gateway s) g \<Longrightarrow> gw_state (tl_gateway s) = ESTOPPED \<longrightarrow> gw_state g = ESTOPPED \<Longrightarrow> tl_step s (moved g s)"
| register: "t \<in> set (tl_all s) \<Longrightarrow> record_data t data = Ret data' \<Longrightarrow>
     tl_step s (snd (register_locked operation t data' outcome s))"
| take: "tl_owner s = NoDrain \<Longrightarrow> drain_poll w False expired s = PollTakes i \<Longrightarrow> tl_step s (drain_take i s)"
| take_next: "tl_owner s = Polling \<Longrightarrow> drain_poll w True expired s = PollTakes i \<Longrightarrow> tl_step s (drain_take i s)"
| leave: "tl_owner s = Polling \<Longrightarrow> drain_poll w True expired s \<in> {PollFails, PollReturns} \<Longrightarrow> tl_step s (drain_leave s)"
| appended: "tl_owner s = Appending i \<Longrightarrow> loggable i \<Longrightarrow> tl_step s (drain_appended i s)"
| failed: "tl_owner s = Appending i \<Longrightarrow> landed \<longrightarrow> loggable i \<Longrightarrow> tl_step s (drain_failed landed i s)"
| failed_stop: "tl_owner s = AppendFailed \<Longrightarrow> tl_step s (drain_leave (failure_estop calls s))"
| owner_late: "tl_owner s = Polling \<Longrightarrow> drain_poll w True True s = PollTimesOut \<Longrightarrow>
     tl_step s ((drain_leave s)\<lparr>tl_late := Suc (tl_late s)\<rparr>)"
| other_late: "drain_poll w False True s = PollTimesOut \<Longrightarrow> tl_step s (s\<lparr>tl_late := Suc (tl_late s)\<rparr>)"
| late_record: "tl_late s = Suc n \<Longrightarrow> tl_step s ((record_failure s)\<lparr>tl_late := n, tl_stopping := Suc (tl_stopping s)\<rparr>)"
| late_stop: "tl_stopping s = Suc n \<Longrightarrow> tl_step s ((failure_estop calls s)\<lparr>tl_stopping := n\<rparr>)"

section \<open>The invariant\<close>

text \<open>The ghost is the gateway's whole history: what the gateway retains is its tail.\<close>

definition all_inv :: "transition_log \<Rightarrow> bool" where
  "all_inv s \<longleftrightarrow> gw_inv (tl_gateway s) \<and> length (tl_all s) = gw_sequence (tl_gateway s) \<and>
     gw_history (tl_gateway s) = drop (length (tl_all s) - HISTORY_MAX) (tl_all s) \<and>
     map tr_sequence (tl_all s) = [0..<length (tl_all s)] \<and>
     run_from NEW (map (\<lambda>t. (tr_before t, tr_after t)) (tl_all s)) \<and>
     list_all (transition_ok (rp_mode (gw_profile (tl_gateway s)))) (tl_all s) \<and>
     gw_state (tl_gateway s) = (if tl_all s = [] then NEW else tr_after (last (tl_all s)))"

definition item_ok :: "transition_log \<Rightarrow> nat \<Rightarrow> audit_item \<Rightarrow> bool" where
  "item_ok s k i \<longleftrightarrow> k < length (tl_all s) \<and> it_transition i = tl_all s ! k \<and>
     (\<forall>r. tr_stop (it_transition i) = Some r \<longrightarrow> it_data i = Some (stop_result_data r))"

definition event_fits :: "transition \<Rightarrow> audit_event \<Rightarrow> bool" where
  "event_fits t e \<longleftrightarrow> ae_before e = tr_before t \<and> ae_after e = tr_after t \<and>
     (\<forall>r. tr_stop t = Some r \<longrightarrow> ae_data e = VDict (stop_result_data r))"

definition drain_inv :: "transition_log \<Rightarrow> bool" where
  "drain_inv s \<longleftrightarrow>
     (\<forall>(k, i) \<in> set (tl_pending s). item_ok s k i \<and> tl_next s \<le> k) \<and>
     (tl_draining s \<longleftrightarrow> tl_owner s \<noteq> NoDrain) \<and>
     (\<forall>i. tl_owner s = Appending i \<longrightarrow> item_ok s (tl_next s) i) \<and>
     (tl_owner s = AppendFailed \<longrightarrow> tl_failure s) \<and>
     list_all2 event_fits (take (length (tl_written s)) (tl_all s)) (tl_written s) \<and>
     (length (tl_written s) = tl_next s \<or>
      length (tl_written s) = Suc (tl_next s) \<and> tl_failure s \<and> (\<forall>i. tl_owner s \<noteq> Appending i))"

definition stop_inv :: "transition_log \<Rightarrow> bool" where
  "stop_inv s \<longleftrightarrow> (tl_failure s \<longleftrightarrow> tl_quarantined s) \<and>
     (tl_failure s \<longrightarrow> gw_state (tl_gateway s) = ESTOPPED \<or> 0 < tl_stopping s \<or> tl_owner s = AppendFailed)"

definition tl_inv :: "transition_log \<Rightarrow> bool" where
  "tl_inv s \<longleftrightarrow> all_inv s \<and> drain_inv s \<and> stop_inv s"

section \<open>The gateway moves\<close>

lemma run_from_append: "run_from s (xs @ [(b, a)]) \<longleftrightarrow> run_from s xs \<and> b = (if xs = [] then s else snd (last xs))"
  by (rule run_from_snoc)

lemma push_tail: "push_history t (drop (length xs - HISTORY_MAX) xs) = drop (Suc (length xs) - HISTORY_MAX) (xs @ [t])"
proof (cases "length xs < HISTORY_MAX")
  case False
  then have "Suc (length xs - HISTORY_MAX) = Suc (length xs) - HISTORY_MAX" by simp
  with False show ?thesis by (simp add: push_history_def Let_def)
qed (simp add: push_history_def Let_def)

lemma moved_frame [simp]:
  "tl_gateway (moved g s) = g" "tl_next (moved g s) = tl_next s" "tl_pending (moved g s) = tl_pending s"
  "tl_failure (moved g s) = tl_failure s" "tl_draining (moved g s) = tl_draining s" "tl_owner (moved g s) = tl_owner s"
  "tl_quarantined (moved g s) = tl_quarantined s" "tl_written (moved g s) = tl_written s"
  "tl_late (moved g s) = tl_late s" "tl_stopping (moved g s) = tl_stopping s"
  by (simp_all add: moved_def)

lemma moved_cases:
  assumes "auth_step (tl_gateway s) g"
  obtains (stay) "tl_all (moved g s) = tl_all s" "gw_state g = gw_state (tl_gateway s)"
      "gw_sequence g = gw_sequence (tl_gateway s)" "gw_history g = gw_history (tl_gateway s)" "gw_profile g = gw_profile (tl_gateway s)"
  | (move) t where "tl_all (moved g s) = tl_all s @ [t]" "transition_ok (rp_mode (gw_profile (tl_gateway s))) t"
      "tr_before t = gw_state (tl_gateway s)" "gw_state g = tr_after t" "tr_sequence t = gw_sequence (tl_gateway s)"
      "gw_sequence g = Suc (gw_sequence (tl_gateway s))" "gw_history g = push_history t (gw_history (tl_gateway s))"
      "gw_profile g = gw_profile (tl_gateway s)"
  using assms by (auto simp: auth_step_def moved_def)

lemma moved_all_inv:
  assumes "all_inv s" "auth_step (tl_gateway s) g" "gw_inv g"
  shows "all_inv (moved g s)"
  using assms(2)
proof (cases rule: moved_cases)
  case stay
  with assms show ?thesis by (simp add: all_inv_def)
next
  case (move t)
  have "run_from NEW (map (\<lambda>t. (tr_before t, tr_after t)) (tl_all s @ [t]))"
    using assms(1) move(3) by (auto simp: all_inv_def run_from_append last_map)
  moreover have "gw_history g = drop (length (tl_all s @ [t]) - HISTORY_MAX) (tl_all s @ [t])"
    using assms(1) move(7) push_tail [of t "tl_all s"] by (simp add: all_inv_def)
  moreover have "map tr_sequence (tl_all s @ [t]) = [0..<length (tl_all s @ [t])]"
    using assms(1) move(5) by (simp add: all_inv_def)
  ultimately show ?thesis
    using assms move(2,4,6,8) unfolding all_inv_def moved_frame move(1) by simp
qed

lemma moved_prefix: "\<exists>ts. tl_all (moved g s) = tl_all s @ ts"
  by (auto simp: moved_def)

lemma estop_auth: "auth_step g (snd (gw_estop_attempt calls g))"
  using auth_estop [of "stop_repeatedly calls" "record_stop (stop_repeatedly calls) g"] stop_repeatedly_wf
  by (simp add: gw_estop_attempt_def auth_step_def record_stop_def Let_def)

lemma estop_state: "gw_state (snd (gw_estop_attempt calls g)) = ESTOPPED"
  by (simp add: gw_estop_attempt_def estop_locked_def record_stop_def do_transition_eq Let_def)

lemma estop_gw_inv: "gw_inv g \<Longrightarrow> gw_inv (snd (gw_estop_attempt calls g))"
  using gw_step_inv [OF gw_step.burst [of g calls]] gw_step_inv [OF gw_step.estop [of "record_stop (stop_repeatedly calls) g" calls]]
  by (simp add: gw_estop_attempt_def Let_def)

lemma failure_estop_inv: "all_inv s \<Longrightarrow> all_inv (failure_estop calls s)"
  unfolding failure_estop_def by (rule moved_all_inv) (auto simp: estop_auth estop_gw_inv all_inv_def)

section \<open>Every region keeps the invariant\<close>

lemma item_ok_prefix: "tl_all s' = tl_all s @ ts \<Longrightarrow> item_ok s k i \<Longrightarrow> item_ok s' k i"
  by (simp add: item_ok_def nth_append)

lemma fits_prefix:
  "list_all2 event_fits (take (length es) ts) es \<Longrightarrow> list_all2 event_fits (take (length es) (ts @ us)) es"
proof -
  assume a: "list_all2 event_fits (take (length es) ts) es"
  then have "length es \<le> length ts" using list_all2_lengthD by fastforce
  with a show ?thesis by simp
qed

lemma drain_inv_moved: "drain_inv s \<Longrightarrow> drain_inv (moved g s)"
proof -
  obtain ts where ts: "tl_all (moved g s) = tl_all s @ ts" using moved_prefix by blast
  assume "drain_inv s"
  then show ?thesis
    using item_ok_prefix [OF ts] fits_prefix [of "tl_written s" "tl_all s" ts]
    unfolding drain_inv_def by (simp only: moved_frame ts) blast
qed

lemma stop_inv_moved:
  "stop_inv s \<Longrightarrow> gw_state (tl_gateway s) = ESTOPPED \<longrightarrow> gw_state g = ESTOPPED \<Longrightarrow> stop_inv (moved g s)"
  by (auto simp: stop_inv_def)

lemma all_inv_cong: "all_inv s \<Longrightarrow> tl_gateway s' = tl_gateway s \<Longrightarrow> tl_all s' = tl_all s \<Longrightarrow> all_inv s'"
  by (simp add: all_inv_def)

lemma item_ok_cong: "tl_all s' = tl_all s \<Longrightarrow> item_ok s' k i = item_ok s k i"
  by (simp add: item_ok_def)

lemma dset_mem: "(k', v') \<in> set (dset k v d) \<Longrightarrow> (k', v') = (k, v) \<or> (k', v') \<in> set d"
  by (induction k v d rule: dset.induct) (auto split: if_splits)

lemma register_cases:
  assumes "register_locked operation t data outcome s = (r, s')"
  obtains "s' = s" | "tl_next s \<le> tr_sequence t" "s' = s\<lparr>tl_pending := dset (tr_sequence t)
      \<lparr>it_operation = operation, it_transition = t, it_data = data, it_outcome = outcome\<rparr> (tl_pending s)\<rparr>"
proof -
  define item where "item = \<lparr>it_operation = operation, it_transition = t, it_data = data, it_outcome = outcome\<rparr>"
  have "s' = s \<or> tl_next s \<le> tr_sequence t \<and> s' = s\<lparr>tl_pending := dset (tr_sequence t) item (tl_pending s)\<rparr>"
    using assms unfolding register_locked_def Let_def item_def [symmetric]
    by (cases "dget (tl_pending s) (tr_sequence t)") (simp_all split: if_splits)
  with that show thesis unfolding item_def by blast
qed

lemma sequence_index:
  assumes "all_inv s" "t \<in> set (tl_all s)"
  shows "tr_sequence t < length (tl_all s) \<and> tl_all s ! tr_sequence t = t"
proof -
  obtain k where k: "k < length (tl_all s)" "tl_all s ! k = t" using assms(2) by (auto simp: in_set_conv_nth)
  have "map tr_sequence (tl_all s) ! k = [0..<length (tl_all s)] ! k" using assms(1) by (simp add: all_inv_def)
  then have "tr_sequence t = k" using k by simp
  with k show ?thesis by simp
qed

lemma register_inv:
  assumes "tl_inv s" "t \<in> set (tl_all s)" "record_data t data = Ret data'" "register_locked operation t data' outcome s = (r, s')"
  shows "tl_inv s'"
  using assms(4)
proof (cases rule: register_cases)
  case 1
  with assms(1) show ?thesis by simp
next
  case 2
  have "\<forall>r. tr_stop t = Some r \<longrightarrow> data' = Some (stop_result_data r)"
    using assms(3) by (auto simp: record_data_def split: option.splits if_splits)
  then have "item_ok s (tr_sequence t) \<lparr>it_operation = operation, it_transition = t, it_data = data', it_outcome = outcome\<rparr>"
    using sequence_index [of s t] assms(1,2) by (simp add: item_ok_def tl_inv_def)
  moreover have "all_inv s'" using assms(1) 2(2) by (auto intro: all_inv_cong simp: tl_inv_def)
  moreover have "item_ok s' k i = item_ok s k i" for k i by (rule item_ok_cong) (simp add: 2(2))
  ultimately show ?thesis
    using assms(1) 2 by (auto simp: tl_inv_def drain_inv_def stop_inv_def dest!: dset_mem)
qed

lemma next_item_ok:
  assumes "tl_inv s" "next_item s = Some i"
  shows "item_ok s (tl_next s) i"
proof (cases "dget (tl_pending s) (tl_next s)")
  case (Some j)
  with assms dget_Some_mem [OF Some] show ?thesis by (auto simp: next_item_def tl_inv_def drain_inv_def)
next
  case None
  then have inf: "infer_gateway_fault (tl_next s) (tl_gateway s) = Some i" using assms(2) by (simp add: next_item_def)
  then obtain t ts where t: "transitions_from (tl_next s) (tl_gateway s) = t # ts" "tr_sequence t = tl_next s"
    "it_transition i = t" "it_data i = map_option stop_result_data (tr_stop t)"
    by (auto simp: infer_gateway_fault_def split: list.splits if_splits)
  then have "t \<in> set (gw_history (tl_gateway s))"
    by (metis filter_is_subset list.set_intros(1) subsetD transitions_from_def)
  then have "t \<in> set (tl_all s)" using assms(1) by (auto simp: tl_inv_def all_inv_def dest: in_set_dropD)
  with sequence_index [of s t] assms(1) t show ?thesis by (simp add: item_ok_def tl_inv_def)
qed

lemma poll_takes: "drain_poll w owns expired s = PollTakes i \<Longrightarrow> next_item s = Some i \<and> \<not> tl_failure s \<and> (owns \<or> \<not> tl_draining s)"
  by (auto simp: drain_poll_def Let_def split: if_splits option.splits)

lemma drain_take_inv:
  assumes "tl_inv s" "drain_poll w owns expired s = PollTakes i" "tl_owner s \<in> {NoDrain, Polling}"
  shows "tl_inv (drain_take i s)"
proof -
  have "item_ok s (tl_next s) i" using poll_takes [OF assms(2)] next_item_ok [OF assms(1)] by simp
  moreover have "item_ok (drain_take i s) k j = item_ok s k j" for k j by (rule item_ok_cong) (simp add: drain_take_def)
  moreover have "all_inv (drain_take i s)" using assms(1) by (auto intro: all_inv_cong simp: tl_inv_def drain_take_def)
  moreover have "length (tl_written s) = tl_next s" "stop_inv s" "\<not> tl_failure s"
    using assms(1) poll_takes [OF assms(2)] by (auto simp: tl_inv_def drain_inv_def)
  ultimately show ?thesis using assms(1) by (simp add: tl_inv_def drain_inv_def stop_inv_def) (simp add: drain_take_def)
qed

lemma written_snoc:
  assumes "tl_inv s" "item_ok s (tl_next s) i" "length (tl_written s) = tl_next s"
  shows "list_all2 event_fits (take (Suc (tl_next s)) (tl_all s)) (tl_written s @ [item_event i])"
proof -
  have "event_fits (tl_all s ! tl_next s) (item_event i)"
    using assms(2) by (auto simp: item_ok_def event_fits_def item_event_def)
  then show ?thesis
    using assms by (auto simp: take_Suc_conv_app_nth item_ok_def tl_inv_def drain_inv_def intro!: list_all2_appendI)
qed

lemma appended_inv:
  assumes "tl_inv s" "tl_owner s = Appending i"
  shows "tl_inv (drain_appended i s)"
proof -
  have i: "item_ok s (tl_next s) i" and l: "length (tl_written s) = tl_next s"
    using assms by (auto simp: tl_inv_def drain_inv_def)
  have "item_ok (drain_appended i s) k j = item_ok s k j" for k j by (rule item_ok_cong) (simp add: drain_appended_def)
  moreover have "all_inv (drain_appended i s)" using assms(1) by (auto intro: all_inv_cong simp: tl_inv_def drain_appended_def)
  moreover have "\<forall>(k, j) \<in> set (ddel (tl_next s) (tl_pending s)). item_ok s k j \<and> Suc (tl_next s) \<le> k"
    using assms(1) by (fastforce simp: ddel_def tl_inv_def drain_inv_def)
  ultimately show ?thesis
    using assms written_snoc [OF assms(1) i l] l by (simp add: tl_inv_def drain_inv_def stop_inv_def) (simp add: drain_appended_def)
qed

lemma failed_inv:
  assumes "tl_inv s" "tl_owner s = Appending i"
  shows "tl_inv (drain_failed landed i s)"
proof -
  have i: "item_ok s (tl_next s) i" and l: "length (tl_written s) = tl_next s"
    using assms by (auto simp: tl_inv_def drain_inv_def)
  have "item_ok (drain_failed landed i s) k j = item_ok s k j" for k j
    by (rule item_ok_cong) (simp add: drain_failed_def record_failure_def)
  moreover have "all_inv (drain_failed landed i s)"
    using assms(1) by (auto intro: all_inv_cong simp: tl_inv_def drain_failed_def record_failure_def)
  ultimately show ?thesis
    using assms written_snoc [OF assms(1) i l] l
    by (cases landed; simp add: tl_inv_def drain_inv_def stop_inv_def; simp add: drain_failed_def record_failure_def)
qed

lemma leave_inv:
  assumes "all_inv s" "drain_inv s" "\<forall>i. tl_owner s \<noteq> Appending i"
    "(tl_failure s \<longleftrightarrow> tl_quarantined s) \<and> (tl_failure s \<longrightarrow> gw_state (tl_gateway s) = ESTOPPED \<or> 0 < tl_stopping s)"
  shows "tl_inv (drain_leave s)"
proof -
  have "item_ok (drain_leave s) k j = item_ok s k j" for k j by (rule item_ok_cong) (simp add: drain_leave_def)
  moreover have "all_inv (drain_leave s)" using assms(1) by (auto intro: all_inv_cong simp: drain_leave_def)
  ultimately show ?thesis
    using assms by (simp add: tl_inv_def drain_inv_def stop_inv_def) (auto simp: drain_leave_def)
qed

lemma drain_inv_cong:
  assumes "drain_inv s" "tl_all s' = tl_all s" "tl_pending s' = tl_pending s" "tl_next s' = tl_next s"
    "tl_draining s' = tl_draining s" "tl_owner s' = tl_owner s" "tl_written s' = tl_written s" "tl_failure s \<longrightarrow> tl_failure s'"
  shows "drain_inv s'"
  using assms(1,8) item_ok_cong [OF assms(2)] unfolding drain_inv_def assms(2-7) by (simp only: ) blast

lemma late_inv: "tl_inv s \<Longrightarrow> tl_inv (s\<lparr>tl_late := n\<rparr>)"
  unfolding tl_inv_def
  by (elim conjE, intro conjI; (erule all_inv_cong | erule drain_inv_cong | simp add: stop_inv_def)?) simp_all

lemma record_late_inv: "tl_inv s \<Longrightarrow> tl_inv ((record_failure s)\<lparr>tl_late := n, tl_stopping := Suc m\<rparr>)"
  unfolding tl_inv_def
  by (elim conjE, intro conjI; (erule all_inv_cong | erule drain_inv_cong | simp add: stop_inv_def record_failure_def)?)
    (simp_all add: record_failure_def)

lemma late_stop_inv:
  assumes "tl_inv s" shows "tl_inv ((failure_estop calls s)\<lparr>tl_stopping := n\<rparr>)"
proof -
  have a: "all_inv (failure_estop calls s)" using assms failure_estop_inv by (simp add: tl_inv_def)
  have d: "drain_inv (failure_estop calls s)" using assms drain_inv_moved by (simp add: tl_inv_def failure_estop_def)
  have "gw_state (tl_gateway (failure_estop calls s)) = ESTOPPED"
    "tl_failure (failure_estop calls s) = tl_quarantined (failure_estop calls s)"
    using assms by (simp_all add: failure_estop_def estop_state tl_inv_def stop_inv_def)
  moreover have "all_inv ((failure_estop calls s)\<lparr>tl_stopping := n\<rparr>)" by (rule all_inv_cong [OF a]) simp_all
  moreover have "drain_inv ((failure_estop calls s)\<lparr>tl_stopping := n\<rparr>)" by (rule drain_inv_cong [OF d]) simp_all
  ultimately show ?thesis by (simp add: tl_inv_def stop_inv_def)
qed

lemma failed_stop_inv:
  assumes "tl_inv s" "tl_owner s = AppendFailed"
  shows "tl_inv (drain_leave (failure_estop calls s))"
proof (rule leave_inv)
  show "all_inv (failure_estop calls s)" using assms(1) failure_estop_inv by (simp add: tl_inv_def)
  show "drain_inv (failure_estop calls s)" using assms(1) drain_inv_moved by (simp add: tl_inv_def failure_estop_def)
  show "\<forall>i. tl_owner (failure_estop calls s) \<noteq> Appending i" using assms(2) by (simp add: failure_estop_def)
  show "(tl_failure (failure_estop calls s) \<longleftrightarrow> tl_quarantined (failure_estop calls s)) \<and>
    (tl_failure (failure_estop calls s) \<longrightarrow> gw_state (tl_gateway (failure_estop calls s)) = ESTOPPED \<or> 0 < tl_stopping (failure_estop calls s))"
    using assms(1) by (simp add: failure_estop_def estop_state tl_inv_def stop_inv_def)
qed

lemma polling_leave_inv:
  assumes "tl_inv s" "tl_owner s = Polling" shows "tl_inv (drain_leave s)"
  using assms by (intro leave_inv) (auto simp: tl_inv_def stop_inv_def)

lemma tl_step_inv: "tl_step s s' \<Longrightarrow> tl_inv s \<Longrightarrow> tl_inv s'"
proof (induction rule: tl_step.induct)
  case (gateway s g)
  then have g: "auth_step (tl_gateway s) g" "gw_inv g"
    using gw_step_auth gw_step_inv by (auto simp: tl_inv_def all_inv_def gw_inv_def)
  with gateway moved_all_inv [OF _ g] drain_inv_moved stop_inv_moved show ?case by (simp add: tl_inv_def)
next
  case (register t s data data' operation outcome)
  then show ?case using register_inv [OF register(3,1,2) surjective_pairing] by simp
next
  case (owner_late s w)
  then show ?case using late_inv [OF polling_leave_inv [of s]] by simp
qed (simp_all add: drain_take_inv polling_leave_inv appended_inv failed_inv failed_stop_inv late_inv record_late_inv late_stop_inv)

interpretation logging: machine tl_step tl_inv
  by unfold_locales (rule tl_step_inv)

lemma log_init_inv: "tl_inv (log_init (gateway_init p d))"
  using gw_init_inv [of p d]
  by (simp add: tl_inv_def all_inv_def drain_inv_def stop_inv_def log_init_def gateway_init_def HISTORY_MAX_def)

section \<open>After a failure\<close>

definition log_closed :: "transition_log \<Rightarrow> bool" where
  "log_closed s \<longleftrightarrow> tl_failure s \<and> (\<forall>i. tl_owner s \<noteq> Appending i)"

lemma failure_polls: "tl_failure s \<Longrightarrow> drain_poll w owns expired s = PollFails"
  by (simp add: drain_poll_def Let_def)

lemma closed_step: "tl_step s s' \<Longrightarrow> log_closed s \<Longrightarrow> log_closed s' \<and> tl_written s' = tl_written s"
  by (induction rule: tl_step.induct)
    (auto simp: log_closed_def failure_polls register_locked_def drain_leave_def failure_estop_def record_failure_def)

interpretation log_failure: latching tl_step tl_inv log_closed tl_written
  by unfold_locales (simp_all add: closed_step)

lemma written_loggable: "tl_step s s' \<Longrightarrow> list_all (\<lambda>e. \<exists>i. loggable i \<and> e = item_event i) (tl_written s) \<Longrightarrow>
    list_all (\<lambda>e. \<exists>i. loggable i \<and> e = item_event i) (tl_written s')"
proof (induction rule: tl_step.induct)
  case (register t s data data' operation outcome)
  obtain r s' where reg: "register_locked operation t data' outcome s = (r, s')" by (metis surj_pair)
  then have "tl_written s' = tl_written s" by (cases rule: register_cases) simp_all
  with reg register(3) show ?case by simp
qed (auto simp: drain_take_def drain_leave_def drain_appended_def drain_failed_def failure_estop_def record_failure_def)

lemma written_loggable_steps:
  "tl_step\<^sup>*\<^sup>* (log_init g) s \<Longrightarrow> list_all (\<lambda>e. \<exists>i. loggable i \<and> e = item_event i) (tl_written s)"
  by (induction rule: rtranclp_induct) (simp add: log_init_def, rule written_loggable)

section \<open>What the log is\<close>

lemma fits_states: "list_all2 event_fits ts es \<Longrightarrow> map (\<lambda>e. (ae_before e, ae_after e)) es = map (\<lambda>t. (tr_before t, tr_after t)) ts"
  by (induction rule: list_all2_induct) (simp_all add: event_fits_def)

lemma run_from_take: "run_from s (xs @ ys) \<Longrightarrow> run_from s xs"
  by (induction s xs rule: run_from.induct) auto

lemma written_run:
  assumes "tl_inv s" shows "run_from NEW (map (\<lambda>e. (ae_before e, ae_after e)) (tl_written s))"
proof -
  let ?n = "length (tl_written s)"
  have "run_from NEW (map (\<lambda>t. (tr_before t, tr_after t)) (take ?n (tl_all s) @ drop ?n (tl_all s)))"
    using assms by (simp add: tl_inv_def all_inv_def)
  then have "run_from NEW (map (\<lambda>t. (tr_before t, tr_after t)) (take ?n (tl_all s)))"
    unfolding map_append by (rule run_from_take)
  moreover have "map (\<lambda>e. (ae_before e, ae_after e)) (tl_written s) = map (\<lambda>t. (tr_before t, tr_after t)) (take ?n (tl_all s))"
    using assms fits_states by (auto simp: tl_inv_def drain_inv_def)
  ultimately show ?thesis by simp
qed

lemma transitions_from_eq:
  assumes "all_inv s"
  shows "transitions_from n (tl_gateway s) = drop (max n (length (tl_all s) - HISTORY_MAX)) (tl_all s)"
proof -
  have f: "filter (\<lambda>t. n \<le> tr_sequence t) xs = drop (n - m) xs" if "map tr_sequence xs = [m..<m + length xs]" for m and xs :: "transition list"
    using that
  proof (induction xs arbitrary: m)
    case (Cons t xs)
    moreover have "[m..<m + length (t # xs)] = m # [Suc m..<Suc m + length xs]"
      by (simp add: upt_conv_Cons del: upt_Suc)
    ultimately have h: "tr_sequence t = m" "map tr_sequence xs = [Suc m..<Suc m + length xs]" by simp_all
    show ?case
    proof (cases "n \<le> m")
      case True
      with Cons.IH [OF h(2)] h(1) show ?thesis by simp
    next
      case False
      then have "n - m = Suc (n - Suc m)" by simp
      with Cons.IH [OF h(2)] h(1) False show ?thesis by simp
    qed
  qed simp
  define k where "k = length (tl_all s) - HISTORY_MAX"
  have "map tr_sequence (drop k (tl_all s)) = [k..<k + length (drop k (tl_all s))]"
    using assms by (simp add: all_inv_def drop_map [symmetric] k_def)
  from f [OF this] have "filter (\<lambda>t. n \<le> tr_sequence t) (drop k (tl_all s)) = drop (max n k) (tl_all s)"
    by (simp add: max_def)
  moreover have "gw_history (tl_gateway s) = drop k (tl_all s)" using assms by (simp only: all_inv_def k_def)
  ultimately show ?thesis by (simp only: transitions_from_def k_def)
qed

lemma session_history:
  assumes "tl_inv s" "list_all2 (\<lambda>e d. \<exists>w m. audit_record w m session e = Ret d) (tl_written s) docs"
    "\<forall>d \<in> set docs. one_line (dumps d) \<and> loads (dumps d) = Ret d"
  shows "validate_audit_history loads (log_of dumps docs) require_terminal = Ret () \<longleftrightarrow>
    \<not> require_terminal \<or> tl_written s = [] \<or> terminal (ae_after (last (tl_written s)))"
proof -
  have v: "\<forall>d \<in> set docs. validate_record d = Ret ()"
  proof
    fix d assume "d \<in> set docs"
    with assms(2) obtain e w m where "audit_record w m session e = Ret d"
      by (auto simp: list_all2_conv_all_nth in_set_conv_nth)
    then show "validate_record d = Ret ()" by (rule audit_record_valid)
  qed
  have entry: "log_entry d = (session, ae_before e, ae_after e)" if "audit_record w m session e = Ret d" for e d w m
    using audit_record_reads [OF that] by (auto simp: log_entry_def simp del: event_of_record.simps)
  have entries: "map log_entry docs = map (\<lambda>e. (session, ae_before e, ae_after e)) (tl_written s)"
    using assms(2) by (induction rule: list_all2_induct) (auto simp: entry)
  have runs: "\<exists>ss. map log_entry docs = flatten ss \<and> sessions_ok ss"
  proof (cases "tl_written s = []")
    case True
    with entries show ?thesis by (intro exI [of _ "[]"]) (simp add: flatten_def sessions_ok_def)
  next
    case False
    with entries written_run [OF assms(1)] show ?thesis
      by (intro exI [of _ "[(session, map (\<lambda>e. (ae_before e, ae_after e)) (tl_written s))]"])
        (simp add: flatten_def sessions_ok_def)
  qed
  have len: "docs = [] \<longleftrightarrow> tl_written s = []" using assms(2) by (cases docs) auto
  have last: "docs \<noteq> [] \<Longrightarrow> snd (snd (log_entry (last docs))) = ae_after (last (tl_written s))"
    using entries len by (metis (no_types, lifting) last_map snd_conv)
  from history_check_iff [of docs dumps loads require_terminal] v assms(3) runs len last show ?thesis by auto
qed

section \<open>A concrete run\<close>

definition demo_transition :: transition where
  "demo_transition = \<lparr>tr_sequence = 0, tr_before = NEW, tr_after = DISCOVERED, tr_stop = None\<rparr>"

definition demo_item :: audit_item where
  "demo_item = \<lparr>it_operation = DISCOVER, it_transition = demo_transition, it_data = None, it_outcome = OK\<rparr>"

definition demo_start :: transition_log where "demo_start = log_init (gateway_init hospital_amr False)"

definition demo_moved :: transition_log where "demo_moved = moved demo_discovered demo_start"

definition demo_registered :: transition_log where "demo_registered = snd (register_locked DISCOVER demo_transition None OK demo_moved)"

definition demo_taken :: transition_log where "demo_taken = drain_take demo_item demo_registered"

definition demo_logged :: transition_log where "demo_logged = drain_appended demo_item demo_taken"

definition demo_lost :: transition_log where "demo_lost = drain_failed False demo_item demo_taken"

lemma demo_moved_eq:
  "tl_all demo_moved = [demo_transition]" "tl_next demo_moved = 0" "tl_pending demo_moved = []" "tl_failure demo_moved = False"
  "tl_draining demo_moved = False" "tl_owner demo_moved = NoDrain" "tl_written demo_moved = []"
  by (simp_all add: demo_moved_def demo_start_def moved_def log_init_def demo_discovered_eq do_transition_eq
      mk_transition_def demo_transition_def gateway_init_def)

lemma demo_registered_eq: "demo_registered = demo_moved\<lparr>tl_pending := [(0, demo_item)]\<rparr>"
  by (simp add: demo_registered_def register_locked_def demo_moved_eq demo_item_def)
    (simp add: demo_transition_def)

lemma demo_loggable: "loggable demo_item"
  by (simp add: loggable_def item_event_def demo_item_def demo_transition_def validate_transition_def stop_required_def)

lemma demo_logged_reach:
  "tl_step\<^sup>*\<^sup>* demo_start demo_taken" "tl_step\<^sup>*\<^sup>* demo_start demo_logged" "tl_step\<^sup>*\<^sup>* demo_start demo_lost"
proof -
  have "tl_step demo_start demo_moved" unfolding demo_moved_def
  proof (rule tl_step.gateway)
    show "gw_step (tl_gateway demo_start) demo_discovered"
      unfolding demo_start_def log_init_def demo_discovered_def by (simp add: gw_step.discover)
  qed (simp add: demo_start_def log_init_def gateway_init_def)
  moreover have "tl_step demo_moved demo_registered" unfolding demo_registered_def
    by (rule tl_step.register [of _ _ None]) (simp_all add: demo_moved_eq record_data_def demo_transition_def)
  moreover have "tl_step demo_registered demo_taken" unfolding demo_taken_def
    by (rule tl_step.take [of _ None False])
      (simp_all add: demo_registered_eq demo_moved_eq drain_poll_def next_item_def)
  ultimately show t: "tl_step\<^sup>*\<^sup>* demo_start demo_taken" by (meson converse_rtranclp_into_rtranclp rtranclp.rtrancl_refl)
  have "tl_step demo_taken demo_logged" unfolding demo_logged_def
    by (rule tl_step.appended) (simp_all add: demo_taken_def drain_take_def demo_loggable)
  with t show "tl_step\<^sup>*\<^sup>* demo_start demo_logged" by simp
  have "tl_step demo_taken demo_lost" unfolding demo_lost_def
    by (rule tl_step.failed) (simp_all add: demo_taken_def drain_take_def)
  with t show "tl_step\<^sup>*\<^sup>* demo_start demo_lost" by simp
qed

lemma demo_logged_eq: "tl_written demo_logged = [item_event demo_item]"
  by (simp add: demo_logged_def drain_appended_def demo_taken_def drain_take_def demo_registered_eq demo_moved_eq)

lemma demo_item_record: "\<exists>doc. audit_record (VFloat (Fin 1)) (VFloat (Fin 2)) demo_session (item_event demo_item) = Ret doc"
  using demo_session_ok
  by (simp add: audit_record_def item_event_def demo_item_def demo_transition_def validate_transition_def
      stop_required_def validate_error_def del: validate_session_id.simps)

text \<open>A log that has caught up with its gateway, and one more transition registered and logged.\<close>

definition caught_up :: "transition_log \<Rightarrow> bool" where
  "caught_up s \<longleftrightarrow> \<not> tl_failure s \<and> tl_pending s = [] \<and> tl_next s = gw_sequence (tl_gateway s) \<and>
     length (tl_all s) = tl_next s \<and> (tl_owner s = NoDrain \<and> \<not> tl_draining s \<or> tl_owner s = Polling)"

lemma caught_up_round:
  assumes "caught_up s" "gw_step (tl_gateway s) g" "gw_state (tl_gateway s) \<noteq> ESTOPPED"
    "gw_sequence g = Suc (gw_sequence (tl_gateway s))" "gw_latest g = Some t" "tr_sequence t = gw_sequence (tl_gateway s)"
    "record_data t data = Ret data'"
    "loggable \<lparr>it_operation = operation, it_transition = t, it_data = data', it_outcome = outcome\<rparr>"
  shows "\<exists>s'. tl_step\<^sup>*\<^sup>* s s' \<and> caught_up s' \<and> tl_gateway s' = g"
proof -
  define i where "i = \<lparr>it_operation = operation, it_transition = t, it_data = data', it_outcome = outcome\<rparr>"
  define s1 where "s1 = moved g s"
  define s2 where "s2 = snd (register_locked operation t data' outcome s1)"
  define s3 where "s3 = drain_take i s2"
  have c: "\<not> tl_failure s" "tl_pending s = []" "tl_next s = tr_sequence t" "length (tl_all s) = tl_next s"
    "tl_owner s = NoDrain \<and> \<not> tl_draining s \<or> tl_owner s = Polling"
    using assms(1,6) by (simp_all add: caught_up_def)
  have s1: "tl_all s1 = tl_all s @ [t]" "tl_gateway s1 = g" using assms(4,5) by (simp_all add: s1_def moved_def)
  have e2: "s2 = s1\<lparr>tl_pending := [(tr_sequence t, i)]\<rparr>"
    using c by (simp add: s2_def s1_def register_locked_def i_def)
  have "tl_step s s1" unfolding s1_def by (rule tl_step.gateway) (use assms(2,3) in auto)
  moreover have "tl_step s1 s2" unfolding s2_def by (rule tl_step.register [OF _ assms(7)]) (simp add: s1)
  moreover have "tl_step s2 s3"
  proof (cases "tl_owner s = NoDrain")
    case True
    then show ?thesis unfolding s3_def using c
      by (intro tl_step.take [of _ None False]) (auto simp: e2 s1_def drain_poll_def next_item_def)
  next
    case False
    then show ?thesis unfolding s3_def using c
      by (intro tl_step.take_next [of _ None False]) (auto simp: e2 s1_def drain_poll_def next_item_def)
  qed
  moreover have "tl_step s3 (drain_appended i s3)"
    by (rule tl_step.appended) (use assms(8) in \<open>simp_all add: s3_def drain_take_def i_def\<close>)
  ultimately have "tl_step\<^sup>*\<^sup>* s (drain_appended i s3)" by (meson converse_rtranclp_into_rtranclp rtranclp.rtrancl_refl)
  moreover have "caught_up (drain_appended i s3)" "tl_gateway (drain_appended i s3) = g"
    using c assms(4,6) s1 by (simp_all add: caught_up_def drain_appended_def s3_def drain_take_def e2 ddel_def s1_def)
  ultimately show ?thesis by blast
qed

lemma demo_running_logged: "\<exists>s. tl_step\<^sup>*\<^sup>* demo_start s \<and> caught_up s \<and> tl_gateway s = demo_running"
proof -
  have "caught_up demo_start" by (simp add: caught_up_def demo_start_def log_init_def gateway_init_def)
  have g0: "tl_gateway demo_start = gateway_init hospital_amr False" by (simp add: demo_start_def log_init_def)
  have "\<exists>s. tl_step\<^sup>*\<^sup>* demo_start s \<and> caught_up s \<and> tl_gateway s = demo_discovered"
    by (rule caught_up_round [where t = demo_transition and data = None and data' = None and operation = DISCOVER and outcome = OK])
      (use demo_loggable \<open>caught_up demo_start\<close> gw_step.discover [of "gateway_init hospital_amr False" "Some (infer_capabilities demo_snapshot)"] in
        \<open>simp_all add: g0 demo_discovered_def [symmetric] demo_item_def record_data_def demo_transition_def\<close>,
       simp_all add: demo_discovered_eq do_transition_eq gateway_init_def mk_transition_def)
  then obtain s1 where s1: "tl_step\<^sup>*\<^sup>* demo_start s1" "caught_up s1" "tl_gateway s1 = demo_discovered" by blast
  define t2 where "t2 = \<lparr>tr_sequence = 1, tr_before = DISCOVERED, tr_after = ARMED, tr_stop = None\<rparr>"
  have "\<exists>s. tl_step\<^sup>*\<^sup>* s1 s \<and> caught_up s \<and> tl_gateway s = demo_armed"
  proof (rule caught_up_round [where t = t2 and data = None and data' = None and operation = VALIDATE and outcome = OK])
    show "gw_step (tl_gateway s1) demo_armed" unfolding s1(3) demo_armed_def by (rule gw_step.validate)
    show "loggable \<lparr>it_operation = VALIDATE, it_transition = t2, it_data = None, it_outcome = OK\<rparr>"
      by (simp add: loggable_def item_event_def t2_def validate_transition_def stop_required_def)
  qed (use s1 in \<open>simp_all add: demo_armed_eq demo_discovered_eq do_transition_eq gateway_init_def mk_transition_def record_data_def t2_def\<close>)
  then obtain s2 where s2: "tl_step\<^sup>*\<^sup>* demo_start s2" "caught_up s2" "tl_gateway s2 = demo_armed" using s1(1) by (meson rtranclp_trans)
  define t3 where "t3 = \<lparr>tr_sequence = 2, tr_before = ARMED, tr_after = RUNNING, tr_stop = None\<rparr>"
  define d3 where "d3 = [(VStr ''task'', VStr ''delivery'')]"
  have "\<exists>s. tl_step\<^sup>*\<^sup>* s2 s \<and> caught_up s \<and> tl_gateway s = demo_running"
  proof (rule caught_up_round [where t = t3 and data = "Some d3" and data' = "Some d3" and operation = START_TASK and outcome = OK])
    show "gw_step (tl_gateway s2) demo_running" unfolding s2(3) demo_running_def by (rule gw_step.start)
    have "task_name_ok ''delivery''" by (simp add: task_name_ok_def is_lower_def is_digit_def in_range_def)
    then show "loggable \<lparr>it_operation = START_TASK, it_transition = t3, it_data = Some d3, it_outcome = OK\<rparr>"
      by (simp add: loggable_def item_event_def t3_def d3_def validate_transition_def stop_required_def keys_within_def
          dkeys_def MOTION_KEYS_def motion_item_def)
  qed (use s2 in \<open>simp_all add: demo_running_eq demo_armed_sel do_transition_eq mk_transition_def record_data_def t3_def\<close>)
  with s2(1) show ?thesis by (meson rtranclp_trans)
qed

section \<open>The properties of the transition log\<close>

text \<open>C33: The audit log is the gateway's history: whatever the order in which threads register transitions and drain
  them, the records whose append has taken effect are, one for one and in order, the first transitions of the gateway, each with
  its states and its stop result, and together they are a gap-free run from the new state; each is
  valid for its operation.\<close>
theorem audit_follows_gateway:
  assumes "tl_step\<^sup>*\<^sup>* (log_init (gateway_init p d)) s"
  shows "length (tl_written s) \<le> gw_sequence (tl_gateway s) \<and>
    list_all2 event_fits (take (length (tl_written s)) (tl_all s)) (tl_written s) \<and>
    gw_history (tl_gateway s) = drop (length (tl_all s) - HISTORY_MAX) (tl_all s) \<and>
    run_from NEW (map (\<lambda>e. (ae_before e, ae_after e)) (tl_written s)) \<and>
    list_all (\<lambda>e. \<exists>i. loggable i \<and> e = item_event i) (tl_written s)"
proof -
  have inv: "tl_inv s" by (rule logging.inv_steps [OF assms log_init_inv])
  then have a: "list_all2 event_fits (take (length (tl_written s)) (tl_all s)) (tl_written s)" "all_inv s"
    by (simp_all add: tl_inv_def drain_inv_def)
  from list_all2_lengthD [OF a(1)] a(2) have "length (tl_written s) \<le> gw_sequence (tl_gateway s)"
    by (simp add: all_inv_def)
  with a written_run [OF inv] written_loggable_steps [OF assms] show ?thesis by (simp add: all_inv_def)
qed

theorem audit_follows_gateway_witness:
  "run_from NEW (map (\<lambda>e. (ae_before e, ae_after e)) (tl_written demo_logged)) \<and> length (tl_written demo_logged) = 1"
  using audit_follows_gateway [OF demo_logged_reach(2) [unfolded demo_start_def]] by (simp add: demo_logged_eq)

text \<open>A lost audit stops the robot and closes the log: once an append has failed or a drain ran out of time, the
  runtime is quarantined and the gateway is emergency-stopped or a thread is about to stop it; no append starts any more, so what
  was written stays as it is unless one append was already under way, which adds at most its one record.\<close>
theorem audit_failure_is_final:
  assumes "tl_step\<^sup>*\<^sup>* (log_init (gateway_init p d)) s" "tl_failure s" "tl_step\<^sup>*\<^sup>* s s'"
  shows "tl_quarantined s \<and> (gw_state (tl_gateway s) = ESTOPPED \<or> 0 < tl_stopping s \<or> tl_owner s = AppendFailed) \<and>
    ((\<forall>i. tl_owner s \<noteq> Appending i) \<longrightarrow> tl_written s' = tl_written s)"
proof -
  have inv: "tl_inv s" by (rule logging.inv_steps [OF assms(1) log_init_inv])
  have "(\<forall>i. tl_owner s \<noteq> Appending i) \<Longrightarrow> tl_written s' = tl_written s"
    using log_failure.latched_steps [OF assms(3) inv] assms(2) by (simp add: log_closed_def)
  with inv assms(2) show ?thesis by (simp add: tl_inv_def stop_inv_def)
qed

theorem audit_failure_is_final_witness: "tl_quarantined demo_lost"
proof -
  have "tl_failure demo_lost" by (simp add: demo_lost_def drain_failed_def record_failure_def)
  from audit_failure_is_final [OF demo_logged_reach(3) [unfolded demo_start_def] this rtranclp.rtrancl_refl] show ?thesis by simp
qed

text \<open>The watchdog's faults are not lost: when the next transition to be logged is a fault of a running task that the
  gateway still retains and that nobody has registered, a drain that may take an item takes it, as a
  faulted heartbeat with the stop's result.\<close>
theorem unregistered_fault_is_drained:
  assumes "tl_step\<^sup>*\<^sup>* (log_init (gateway_init p d)) s" "\<not> tl_failure s" "tl_next s < gw_sequence (tl_gateway s)"
    "gw_sequence (tl_gateway s) \<le> tl_next s + HISTORY_MAX" "dget (tl_pending s) (tl_next s) = None"
    "tr_before (tl_all s ! tl_next s) = RUNNING" "tr_after (tl_all s ! tl_next s) = FAULTED"
    "owns \<or> \<not> tl_draining s" "w = None \<or> w = Some (tl_next s)"
  shows "\<exists>i. drain_poll w owns expired s = PollTakes i \<and> it_transition i = tl_all s ! tl_next s \<and>
    it_operation i = HEARTBEAT \<and> it_outcome i = FAULT \<and> loggable i"
proof -
  have inv: "tl_inv s" by (rule logging.inv_steps [OF assms(1) log_init_inv])
  then have a: "all_inv s" and n: "tl_next s < length (tl_all s)" using assms(3) by (simp_all add: tl_inv_def all_inv_def)
  define t where "t = tl_all s ! tl_next s"
  have "max (tl_next s) (length (tl_all s) - HISTORY_MAX) = tl_next s" using assms(4) a by (simp add: all_inv_def)
  then have from': "transitions_from (tl_next s) (tl_gateway s) = t # drop (Suc (tl_next s)) (tl_all s)"
    using transitions_from_eq [OF a, of "tl_next s"] n by (simp add: Cons_nth_drop_Suc t_def)
  have mem: "t \<in> set (tl_all s)" using n by (simp add: t_def)
  have seq: "tr_sequence t = tl_next s"
  proof -
    have "map tr_sequence (tl_all s) ! tl_next s = [0..<length (tl_all s)] ! tl_next s" using a by (simp add: all_inv_def)
    with n show ?thesis by (simp add: t_def)
  qed
  define i where "i = \<lparr>it_operation = HEARTBEAT, it_transition = t, it_data = map_option stop_result_data (tr_stop t), it_outcome = FAULT\<rparr>"
  have next': "next_item s = Some i"
    using assms(5-7) from' seq by (simp add: next_item_def infer_gateway_fault_def i_def t_def)
  have "transition_ok (rp_mode (gw_profile (tl_gateway s))) t" using a mem by (auto simp: all_inv_def list_all_iff)
  then obtain r where r: "tr_stop t = Some r" "sr_code r \<in> set STOP_CODES"
    using assms(7) by (cases "tr_stop t") (auto simp: transition_ok_def stop_wf_def t_def)
  then have "sr_code r \<in> set STOP_RESULT_CODES" by (auto simp: STOP_CODES_def STOP_RESULT_CODES_def)
  with r(1) assms(6,7) have "loggable i"
    by (simp add: loggable_def i_def item_event_def validate_transition_def stop_required_def t_def stop_result_data_def stop_data_pairs)
  moreover have "drain_poll w owns expired s = PollTakes i"
    using assms(2,8,9) next' by (auto simp: drain_poll_def Let_def)
  ultimately show ?thesis by (auto simp: i_def t_def)
qed

theorem unregistered_fault_is_drained_witness:
  "\<exists>s i. tl_step\<^sup>*\<^sup>* demo_start s \<and> drain_poll None True False s = PollTakes i \<and> it_operation i = HEARTBEAT \<and> loggable i"
proof -
  obtain s where s: "tl_step\<^sup>*\<^sup>* demo_start s" "caught_up s" "tl_gateway s = demo_running" using demo_running_logged by blast
  define stopped where "stopped = stop_repeatedly (\<lambda>_. StopRaises)"
  define g where "g = snd (fault_locked stopped demo_running)"
  have g: "gw_sequence g = 4" "gw_latest g = Some \<lparr>tr_sequence = 3, tr_before = RUNNING, tr_after = FAULTED, tr_stop = Some stopped\<rparr>"
    by (simp_all add: g_def fault_locked_def demo_running_sel do_transition_eq mk_transition_def)
      (simp_all add: demo_running_eq demo_armed_sel do_transition_eq mk_transition_def)
  have q: "gw_sequence demo_running = 3" by (simp add: demo_running_eq demo_armed_sel do_transition_eq)
  have c: "tl_next s = 3" "length (tl_all s) = 3" "tl_pending s = []" "\<not> tl_failure s"
    using s q by (simp_all add: caught_up_def)
  have "tl_step s (moved g s)"
    by (rule tl_step.gateway) (simp_all add: s g_def stopped_def gw_step.fault demo_running_sel)
  with s(1) have r: "tl_step\<^sup>*\<^sup>* demo_start (moved g s)" by simp
  have a: "tl_all (moved g s) = tl_all s @ [\<lparr>tr_sequence = 3, tr_before = RUNNING, tr_after = FAULTED, tr_stop = Some stopped\<rparr>]"
    using g q s(3) by (simp add: moved_def)
  from unregistered_fault_is_drained [OF r [unfolded demo_start_def], of True None False]
  have "\<exists>i. drain_poll None True False (moved g s) = PollTakes i \<and> it_operation i = HEARTBEAT \<and> loggable i"
    using c g a by (auto simp: HISTORY_MAX_def nth_append)
  with r show ?thesis by blast
qed


text \<open>A session's log survives a restart exactly when it ended stopped: the records of the first session of a runtime
  directory always read back as a plausible history, and the start-up check, which requires a terminal
  log, accepts them if and only if nothing was written or the last record leaves the gateway stopped or emergency-stopped.\<close>
theorem session_log_restarts_iff_terminal:
  assumes "tl_step\<^sup>*\<^sup>* (log_init (gateway_init p d)) s"
    "list_all2 (\<lambda>e doc. \<exists>w m. audit_record w m session e = Ret doc) (tl_written s) docs"
    "\<forall>doc \<in> set docs. one_line (dumps doc) \<and> loads (dumps doc) = Ret doc"
  shows "validate_audit_history loads (log_of dumps docs) False = Ret () \<and>
    (validate_audit_history loads (log_of dumps docs) True = Ret () \<longleftrightarrow>
       tl_written s = [] \<or> terminal (ae_after (last (tl_written s))))"
  using session_history [OF logging.inv_steps [OF assms(1) log_init_inv] assms(2,3)] by simp

text \<open>The demonstration log: one record, which leaves the gateway discovered. It reads back, and does not restart.\<close>

theorem session_log_restarts_iff_terminal_witness:
  "\<exists>doc. audit_record (VFloat (Fin 1)) (VFloat (Fin 2)) demo_session (item_event demo_item) = Ret doc \<and>
     validate_audit_history (\<lambda>_. Ret doc) (log_of (\<lambda>_. ''x'') [doc]) False = Ret () \<and>
     validate_audit_history (\<lambda>_. Ret doc) (log_of (\<lambda>_. ''x'') [doc]) True \<noteq> Ret ()"
proof -
  obtain doc where d: "audit_record (VFloat (Fin 1)) (VFloat (Fin 2)) demo_session (item_event demo_item) = Ret doc"
    using demo_item_record by blast
  have "list_all2 (\<lambda>e doc. \<exists>w m. audit_record w m demo_session e = Ret doc) (tl_written demo_logged) [doc]"
    using d by (auto simp: demo_logged_eq)
  from session_log_restarts_iff_terminal [OF demo_logged_reach(2) [unfolded demo_start_def] this, of "\<lambda>_. ''x''" "\<lambda>_. Ret doc"]
  have "validate_audit_history (\<lambda>_. Ret doc) (log_of (\<lambda>_. ''x'') [doc]) False = Ret ()"
    "validate_audit_history (\<lambda>_. Ret doc) (log_of (\<lambda>_. ''x'') [doc]) True = Ret () \<longleftrightarrow> terminal DISCOVERED"
    by (simp_all add: demo_logged_eq one_line_def MAX_RECORD_BYTES_def item_event_def demo_item_def demo_transition_def)
  with d show ?thesis by (auto simp: terminal_def)
qed

end
