(* ===== verification/Drain.thy ===== *)
theory Drain
  imports TransitionLog
begin

text \<open>
  A thread's call of \<^verbatim>\<open>_drain_pending_transitions\<close> and \<^verbatim>\<open>_append_transition\<close>
  (\<^verbatim>\<open>agent_ros/runtime/controller.py\<close>) from its beginning to its end. Whatever the rest of the world does
  at each of its turns is a \<open>moment\<close>: the moves of the other threads on the log, the clock, the answer of the
  audit worker, the calls of the stop callback. The loop may wait for another thread, so it is partial; it ends when its deadline passes.
\<close>

section \<open>The rest of the world\<close>

datatype append_answer = Appended | AppendFails bool

record moment =
  mo_others :: "bool \<Rightarrow> transition_log \<Rightarrow> transition_log"
  mo_clock :: pyfloat
  mo_append :: "pyfloat \<Rightarrow> append_answer"
  mo_stops :: "nat \<Rightarrow> stop_call"

text \<open>The worker's answer to an append: the writer rejects an event its schema does not allow.\<close>

definition append_answer_of :: "moment \<Rightarrow> pyfloat \<Rightarrow> audit_item \<Rightarrow> append_answer" where
  "append_answer_of m timeout i = (if loggable i then mo_append m timeout else AppendFails False)"

section \<open>The loop\<close>

text \<open>Where the deadline has passed the failure is recorded and the gateway stopped.\<close>

definition drain_timed_out :: "(nat \<Rightarrow> stop_call) \<Rightarrow> transition_log \<Rightarrow> transition_log" where
  "drain_timed_out calls s = failure_estop calls (record_failure s)"

definition release :: "bool \<Rightarrow> transition_log \<Rightarrow> transition_log" where
  "release owns s = (if owns then drain_leave s else s)"

definition expired_at :: "pyfloat \<Rightarrow> moment \<Rightarrow> bool" where
  "expired_at deadline m = fle (fsub deadline (mo_clock m)) (Fin 0)"

definition time_left :: "pyfloat \<Rightarrow> moment \<Rightarrow> pyfloat" where
  "time_left deadline m = fmax (Fin 0) (fsub deadline (mo_clock m))"

definition drain_append :: "moment \<Rightarrow> pyfloat \<Rightarrow> audit_item \<Rightarrow> transition_log \<Rightarrow> bool \<times> transition_log" where
  "drain_append m deadline i s =
     (case append_answer_of m (time_left deadline m) i of
        Appended \<Rightarrow> (True, drain_appended i (drain_take i s))
      | AppendFails landed \<Rightarrow> (False, drain_leave (failure_estop (mo_stops m) (drain_failed landed i (drain_take i s)))))"

partial_function (option) drain_loop ::
  "(nat \<Rightarrow> moment) \<Rightarrow> pyfloat \<Rightarrow> nat option \<Rightarrow> bool \<Rightarrow> nat \<Rightarrow> transition_log \<Rightarrow> (unit result \<times> nat \<times> transition_log) option" where
  "drain_loop w deadline wait_for owns n s =
     (let s1 = mo_others (w n) owns s in
      case drain_poll wait_for owns (expired_at deadline (w n)) s1 of
        PollFails \<Rightarrow> Some (compromised, Suc n, release owns s1)
      | PollReturns \<Rightarrow> Some (Ret (), Suc n, release owns s1)
      | PollTimesOut \<Rightarrow> Some (compromised, Suc n, drain_timed_out (mo_stops (w n)) (release owns s1))
      | PollWaits \<Rightarrow> drain_loop w deadline wait_for owns (Suc n) s1
      | PollTakes i \<Rightarrow>
          (let r = drain_append (w n) deadline i s1 in
           if fst r then drain_loop w deadline wait_for True (Suc n) (snd r)
           else Some (compromised, Suc n, snd r)))"

definition drain_pending ::
  "(nat \<Rightarrow> moment) \<Rightarrow> nat option \<Rightarrow> pyfloat \<Rightarrow> nat \<Rightarrow> transition_log \<Rightarrow> (unit result \<times> nat \<times> transition_log) option" where
  "drain_pending w wait_for timeout n s = drain_loop w (fadd (mo_clock (w n)) timeout) wait_for False (Suc n) s"

text \<open>\<^verbatim>\<open>_append_transition\<close>: registered at once, then drained up to its own number.\<close>

definition append_transition ::
  "(nat \<Rightarrow> moment) \<Rightarrow> pyfloat \<Rightarrow> audit_operation \<Rightarrow> transition \<Rightarrow> pydict option \<Rightarrow> audit_outcome \<Rightarrow> nat \<Rightarrow> transition_log \<Rightarrow>
   (unit result \<times> nat \<times> transition_log) option" where
  "append_transition w timeout operation t data outcome n s =
     (let s1 = mo_others (w n) False s in
      case register_transition operation t data outcome s1 of
        (Inl e, s2) \<Rightarrow> Some (Raise e, Suc n, s2)
      | (Inr _, s2) \<Rightarrow> drain_pending w (Some (tr_sequence t)) timeout (Suc n) s2)"

section \<open>What a call does to the log\<close>

text \<open>A clean log holds only records that the audit writer accepts.\<close>

definition log_clean :: "transition_log \<Rightarrow> bool" where
  "log_clean s \<longleftrightarrow> (\<forall>(k, i) \<in> set (tl_pending s). loggable i)"

text \<open>What is relied on: the other threads follow the protocol too, never release a drain this thread owns, and register only
  records the writer accepts. They never move the gateway out of an emergency stop.\<close>

definition others_follow :: "(nat \<Rightarrow> moment) \<Rightarrow> bool" where
  "others_follow w \<longleftrightarrow> (\<forall>n owns s. tl_inv s \<longrightarrow> tl_step\<^sup>*\<^sup>* s (mo_others (w n) owns s) \<and>
     (owns \<longrightarrow> tl_owner (mo_others (w n) owns s) = tl_owner s) \<and>
     (log_clean s \<longrightarrow> log_clean (mo_others (w n) owns s)))"

definition log_moves :: "bool \<Rightarrow> transition_log \<Rightarrow> transition_log \<Rightarrow> bool" where
  "log_moves c s s' \<longleftrightarrow> tl_step\<^sup>*\<^sup>* s s' \<and> tl_inv s' \<and> (c \<longrightarrow> log_clean s \<longrightarrow> log_clean s')"

lemma log_moves_refl: "tl_inv s \<Longrightarrow> log_moves c s s"
  by (simp add: log_moves_def)

lemma log_moves_trans: "log_moves c s t \<Longrightarrow> log_moves c t u \<Longrightarrow> log_moves c s u"
  by (auto simp: log_moves_def)

lemma log_moves_inv: "log_moves c s t \<Longrightarrow> tl_inv t"
  by (simp add: log_moves_def)

lemma log_moves_step: "tl_inv s \<Longrightarrow> tl_step s t \<Longrightarrow> (c \<Longrightarrow> log_clean s \<Longrightarrow> log_clean t) \<Longrightarrow> log_moves c s t"
  by (auto simp: log_moves_def intro: tl_step_inv)

definition log_extends :: "transition_log \<Rightarrow> transition_log \<Rightarrow> bool" where
  "log_extends s t \<longleftrightarrow> gw_profile (tl_gateway t) = gw_profile (tl_gateway s) \<and>
     (\<exists>ts. tl_all t = tl_all s @ ts) \<and> (tl_failure s \<longrightarrow> tl_failure t) \<and>
     (gw_state (tl_gateway s) = ESTOPPED \<longrightarrow> gw_state (tl_gateway t) = ESTOPPED)"

lemma moved_extends:
  assumes "auth_step (tl_gateway s) g" "gw_state (tl_gateway s) = ESTOPPED \<longrightarrow> gw_state g = ESTOPPED"
  shows "log_extends s (moved g s)"
  using assms(1) by (cases rule: moved_cases) (use assms(2) in \<open>auto simp: log_extends_def\<close>)

lemma failure_estop_extends: "log_extends s (failure_estop calls s)"
  unfolding failure_estop_def by (rule moved_extends) (simp_all add: estop_auth estop_state)

lemma tl_step_extends: "tl_step s t \<Longrightarrow> tl_inv s \<Longrightarrow> log_extends s t"
proof (induction rule: tl_step.induct)
  case (gateway s g)
  then have "auth_step (tl_gateway s) g" using gw_step_auth by (auto simp: tl_inv_def all_inv_def gw_inv_def)
  with gateway show ?case by (simp add: moved_extends)
next
  case (register t s data data' operation outcome)
  obtain r s' where reg: "register_locked operation t data' outcome s = (r, s')" by (metis surj_pair)
  then show ?case by (cases rule: register_cases) (simp_all add: reg log_extends_def)
next
  case (failed_stop s calls)
  then show ?case using failure_estop_extends [of s calls] by (simp add: log_extends_def drain_leave_def)
next
  case (late_stop s n calls)
  then show ?case using failure_estop_extends [of s calls] by (simp add: log_extends_def)
qed (simp_all add: log_extends_def drain_take_def drain_leave_def drain_appended_def drain_failed_def record_failure_def)

lemma log_extends_trans: "log_extends s t \<Longrightarrow> log_extends t u \<Longrightarrow> log_extends s u"
  by (auto simp: log_extends_def)

lemma log_moves_extends: "log_moves c s t \<Longrightarrow> tl_inv s \<Longrightarrow> log_extends s t"
proof -
  assume "log_moves c s t" "tl_inv s"
  then have "tl_step\<^sup>*\<^sup>* s t" by (simp add: log_moves_def)
  then show ?thesis
  proof (induction rule: rtranclp_induct)
    case (step t u)
    then show ?case using tl_step_extends logging.inv_steps \<open>tl_inv s\<close> log_extends_trans by blast
  qed (simp add: log_extends_def)
qed

lemma others_move: "others_follow w \<Longrightarrow> tl_inv s \<Longrightarrow> log_moves c s (mo_others (w n) owns s)"
proof -
  assume "others_follow w" "tl_inv s"
  then have "tl_step\<^sup>*\<^sup>* s (mo_others (w n) owns s)" "log_clean s \<longrightarrow> log_clean (mo_others (w n) owns s)"
    unfolding others_follow_def by blast+
  with \<open>tl_inv s\<close> logging.inv_steps show ?thesis by (simp add: log_moves_def)
qed

lemma others_owner: "others_follow w \<Longrightarrow> tl_inv s \<Longrightarrow> owns \<Longrightarrow> tl_owner (mo_others (w n) owns s) = tl_owner s"
  by (simp add: others_follow_def)

text \<open>A fault of the watchdog that the drain infers is a record the writer accepts.\<close>

lemma inferred_loggable:
  assumes "tl_inv s" "infer_gateway_fault n (tl_gateway s) = Some i"
  shows "loggable i"
proof -
  obtain t ts where t: "transitions_from n (tl_gateway s) = t # ts" "tr_before t = RUNNING" "tr_after t = FAULTED"
    "i = \<lparr>it_operation = HEARTBEAT, it_transition = t, it_data = map_option stop_result_data (tr_stop t), it_outcome = FAULT\<rparr>"
    using assms(2) by (auto simp: infer_gateway_fault_def split: list.splits if_splits)
  from t(1) have "t \<in> set (transitions_from n (tl_gateway s))" by simp
  then have "t \<in> set (tl_all s)"
    using assms(1) by (auto simp: transitions_from_def tl_inv_def all_inv_def dest: in_set_dropD)
  then have "transition_ok (rp_mode (gw_profile (tl_gateway s))) t"
    using assms(1) by (auto simp: tl_inv_def all_inv_def list_all_iff)
  then obtain r where r: "tr_stop t = Some r" "sr_code r \<in> set STOP_CODES"
    using t(3) by (cases "tr_stop t") (auto simp: transition_ok_def stop_wf_def)
  then have "sr_code r \<in> set STOP_RESULT_CODES" by (auto simp: STOP_CODES_def STOP_RESULT_CODES_def)
  with r(1) t(2,3) show ?thesis
    by (simp add: loggable_def t(4) item_event_def validate_transition_def stop_required_def stop_result_data_def stop_data_pairs)
qed

lemma next_item_loggable: "tl_inv s \<Longrightarrow> log_clean s \<Longrightarrow> next_item s = Some i \<Longrightarrow> loggable i"
  using inferred_loggable by (auto simp: next_item_def log_clean_def dest!: dget_Some_mem split: option.splits)

lemma clean_frame [simp]:
  "log_clean (drain_take i s) = log_clean s" "log_clean (drain_leave s) = log_clean s"
  "log_clean (record_failure s) = log_clean s" "log_clean (moved g s) = log_clean s"
  "log_clean (failure_estop calls s) = log_clean s" "log_clean (drain_failed landed i s) = log_clean s"
  "log_clean (s\<lparr>tl_late := n\<rparr>) = log_clean s" "log_clean (s\<lparr>tl_stopping := n\<rparr>) = log_clean s"
  by (simp_all add: log_clean_def drain_take_def drain_leave_def record_failure_def failure_estop_def drain_failed_def)

lemma clean_appended: "log_clean s \<Longrightarrow> log_clean (drain_appended i s)"
  by (auto simp: log_clean_def drain_appended_def ddel_def)

text \<open>A drain that fails leaves the log failed, one that returns has reached the number it waited for.\<close>

definition drained :: "nat option \<Rightarrow> unit result \<Rightarrow> transition_log \<Rightarrow> bool" where
  "drained wait_for r s \<longleftrightarrow>
     r = Ret () \<and> \<not> tl_failure s \<and> (case wait_for of None \<Rightarrow> tl_pending s = [] | Some k \<Rightarrow> k < tl_next s) \<or>
     r = compromised \<and> tl_failure s"

lemma poll_returns:
  "drain_poll w owns expired s = PollReturns \<Longrightarrow>
    \<not> tl_failure s \<and> (case w of None \<Rightarrow> tl_pending s = [] | Some k \<Rightarrow> k < tl_next s)"
  by (auto simp: drain_poll_def Let_def split: if_splits option.splits)

lemma poll_fails: "drain_poll w owns expired s = PollFails \<longleftrightarrow> tl_failure s"
  by (auto simp: drain_poll_def Let_def split: option.splits)

lemma poll_late: "drain_poll w owns expired s = PollTimesOut \<Longrightarrow> drain_poll w owns True s = PollTimesOut \<and> expired"
  by (auto simp: drain_poll_def Let_def split: if_splits option.splits)

lemma late_moves:
  assumes "tl_inv s" "drain_poll w owns True s = PollTimesOut" "owns \<longrightarrow> tl_owner s = Polling"
  shows "log_moves c s (drain_timed_out calls (release owns s))"
proof -
  define s1 where "s1 = (release owns s)\<lparr>tl_late := Suc (tl_late s)\<rparr>"
  define s2 where "s2 = (record_failure s1)\<lparr>tl_late := tl_late s, tl_stopping := Suc (tl_stopping s)\<rparr>"
  define s3 where "s3 = (failure_estop calls s2)\<lparr>tl_stopping := tl_stopping s\<rparr>"
  have l: "tl_late (release owns s) = tl_late s" "tl_stopping (release owns s) = tl_stopping s"
    by (simp_all add: release_def drain_leave_def)
  have "tl_step s s1"
    using tl_step.owner_late [of s w] tl_step.other_late [of w s] assms(2,3) by (cases owns) (auto simp: s1_def release_def)
  moreover have "tl_step s1 s2"
    using tl_step.late_record [of s1 "tl_late s"] l by (simp add: s2_def s1_def)
  moreover have "tl_step s2 s3" unfolding s3_def by (rule tl_step.late_stop) (simp add: s2_def)
  ultimately have steps: "tl_step\<^sup>*\<^sup>* s s3" by (meson converse_rtranclp_into_rtranclp rtranclp.rtrancl_refl)
  have eq: "s3 = drain_timed_out calls (release owns s)"
    using l by (simp add: s3_def s2_def s1_def drain_timed_out_def failure_estop_def record_failure_def moved_def)
  from steps have "tl_inv s3" using assms(1) by (rule logging.inv_steps)
  moreover have "log_clean s3 = log_clean s" unfolding eq by (simp add: drain_timed_out_def release_def)
  ultimately show ?thesis using steps eq by (simp add: log_moves_def)
qed

lemma append_moves:
  assumes "tl_inv s" "drain_poll wt owns expired s = PollTakes i" "owns \<longrightarrow> tl_owner s = Polling"
    "drain_append m deadline i s = (ok, s')"
  shows "log_moves c s s' \<and> (ok \<longrightarrow> tl_owner s' = Polling) \<and> (\<not> ok \<longrightarrow> tl_failure s')"
proof -
  define s1 where "s1 = drain_take i s"
  have "tl_step s s1"
  proof (cases owns)
    case True
    then show ?thesis unfolding s1_def using assms(2,3) by (intro tl_step.take_next [of _ wt expired]) simp_all
  next
    case False
    then have "tl_owner s = NoDrain" using assms(1) poll_takes [OF assms(2)] by (auto simp: tl_inv_def drain_inv_def)
    with False show ?thesis unfolding s1_def using assms(2) by (intro tl_step.take [of _ wt expired]) simp_all
  qed
  then have m1: "log_moves c s s1" by (rule log_moves_step [OF assms(1)]) (simp add: s1_def)
  have own: "tl_owner s1 = Appending i" by (simp add: s1_def drain_take_def)
  show ?thesis
  proof (cases "append_answer_of m (time_left deadline m) i")
    case Appended
    then have l: "loggable i" by (auto simp: append_answer_of_def split: if_splits)
    have e: "ok" "s' = drain_appended i s1" using assms(4) Appended by (simp_all add: drain_append_def s1_def)
    have "log_moves c s1 s'" unfolding e(2)
      by (rule log_moves_step [OF log_moves_inv [OF m1] tl_step.appended [OF own l]]) (rule clean_appended)
    with log_moves_trans [OF m1] e show ?thesis by (simp add: drain_appended_def)
  next
    case (AppendFails landed)
    then have l: "landed \<longrightarrow> loggable i" by (auto simp: append_answer_of_def split: if_splits)
    define s2 where "s2 = drain_failed landed i s1"
    have e: "\<not> ok" "s' = drain_leave (failure_estop (mo_stops m) s2)"
      using assms(4) AppendFails by (simp_all add: drain_append_def s1_def s2_def)
    have m2: "log_moves c s1 s2" unfolding s2_def
      by (rule log_moves_step [OF log_moves_inv [OF m1] tl_step.failed [OF own l]]) simp
    have "log_moves c s2 s'" unfolding e(2)
      by (rule log_moves_step [OF log_moves_inv [OF m2] tl_step.failed_stop]) (simp_all add: s2_def drain_failed_def)
    with log_moves_trans [OF log_moves_trans [OF m1 m2]] e show ?thesis
      by (simp add: drain_leave_def failure_estop_def s2_def drain_failed_def record_failure_def)
  qed
qed

lemma release_moves:
  assumes "tl_inv s" "owns \<longrightarrow> tl_owner s = Polling" "drain_poll w owns expired s \<in> {PollFails, PollReturns}"
  shows "log_moves c s (release owns s)"
proof (cases owns)
  case True
  then have "tl_step s (drain_leave s)" using assms(2,3) by (intro tl_step.leave [of _ w expired]) simp_all
  with assms(1) True show ?thesis by (auto simp: release_def intro: log_moves_step)
qed (simp add: release_def log_moves_refl assms(1))

lemma drained_release [simp]: "drained w r (release owns s) = drained w r s"
  by (cases w) (simp_all add: drained_def release_def drain_leave_def)

lemmas drain_loop_induct = drain_loop.raw_induct [rotated, consumes 1, case_names step]

lemma drain_loop_moves:
  assumes "drain_loop w deadline wait_for owns n s = Some y" "others_follow w" "tl_inv s" "owns \<longrightarrow> tl_owner s = Polling"
  shows "log_moves c s (snd (snd y)) \<and> drained wait_for (fst y) (snd (snd y)) \<and> n < fst (snd y)"
  using assms
proof (induction rule: drain_loop_induct)
  case (step loop w deadline wait_for owns n s y)
  define s1 where "s1 = mo_others (w n) owns s"
  define late where "late = expired_at deadline (w n)"
  have m1: "log_moves c s s1" unfolding s1_def by (rule others_move [OF step(3,4)])
  have inv1: "tl_inv s1" by (rule log_moves_inv [OF m1])
  have own: "owns \<longrightarrow> tl_owner s1 = Polling" using others_owner [OF step(3,4)] step(5) by (simp add: s1_def)
  note body = step(2) [folded s1_def late_def, unfolded Let_def]
  show ?case
  proof (cases "drain_poll wait_for owns late s1")
    case PollFails
    then have "y = (compromised, Suc n, release owns s1)" using body by (simp add: s1_def)
    moreover have "log_moves c s1 (release owns s1)" by (rule release_moves [OF inv1 own, of wait_for late]) (simp add: PollFails)
    ultimately show ?thesis using log_moves_trans [OF m1] PollFails by (simp add: poll_fails drained_def release_def drain_leave_def)
  next
    case PollReturns
    then have "y = (Ret (), Suc n, release owns s1)" using body by (simp add: s1_def)
    moreover have "log_moves c s1 (release owns s1)" by (rule release_moves [OF inv1 own, of wait_for late]) (simp add: PollReturns)
    moreover have "drained wait_for (Ret ()) s1" using poll_returns [OF PollReturns] by (simp add: drained_def)
    ultimately show ?thesis using log_moves_trans [OF m1] by simp
  next
    case PollTimesOut
    then have y: "y = (compromised, Suc n, drain_timed_out (mo_stops (w n)) (release owns s1))" using body by (simp add: s1_def)
    have "log_moves c s1 (snd (snd y))"
      using late_moves [OF inv1 _ own, where w = wait_for and calls = "mo_stops (w n)"] poll_late [OF PollTimesOut] by (simp add: y)
    with log_moves_trans [OF m1] y show ?thesis
      by (simp add: drained_def drain_timed_out_def failure_estop_def record_failure_def)
  next
    case PollWaits
    then have "loop w deadline wait_for owns (Suc n) s1 = Some y" using body by (simp add: s1_def)
    from step(1) [OF this step(3) inv1 own] show ?thesis using log_moves_trans [OF m1] by (auto dest: Suc_lessD)
  next
    case (PollTakes i)
    obtain ok s2 where a: "drain_append (w n) deadline i s1 = (ok, s2)" by (metis surj_pair)
    from append_moves [OF inv1 PollTakes own a] have m2: "log_moves c s1 s2" "ok \<longrightarrow> tl_owner s2 = Polling" "\<not> ok \<longrightarrow> tl_failure s2"
      by simp_all
    show ?thesis
    proof (cases ok)
      case True
      then have "loop w deadline wait_for True (Suc n) s2 = Some y" using body PollTakes a by (simp add: s1_def)
      from step(1) [OF this step(3) log_moves_inv [OF m2(1)]] m2 True show ?thesis
        using log_moves_trans [OF log_moves_trans [OF m1 m2(1)]] by (auto dest: Suc_lessD)
    next
      case False
      then have "y = (compromised, Suc n, s2)" using body PollTakes a by (simp add: s1_def)
      with m2 False log_moves_trans [OF m1 m2(1)] show ?thesis by (simp add: drained_def)
    qed
  qed
qed

lemma drain_pending_moves:
  assumes "drain_pending w wait_for timeout n s = Some (r, n', s')" "others_follow w" "tl_inv s"
  shows "log_moves c s s' \<and> drained wait_for r s' \<and> n < n'"
  using drain_loop_moves [OF assms(1) [unfolded drain_pending_def] assms(2,3)] by (auto dest: Suc_lessD)

text \<open>Registering a transition the gateway retains.\<close>

lemma register_moves:
  assumes "tl_inv s" "register_transition operation t data outcome s = (r, s')"
    "\<And>data'. record_data t data = Ret data' \<Longrightarrow>
       c \<Longrightarrow> loggable \<lparr>it_operation = operation, it_transition = t, it_data = data', it_outcome = outcome\<rparr>"
  shows "log_moves c s s' \<and> (r \<noteq> Ret () \<longrightarrow> r = compromised \<and> s' = s)"
proof (cases "owns_transition t (tl_gateway s)")
  case False
  with assms(1,2) show ?thesis by (auto simp: register_transition_def log_moves_refl)
next
  case own: True
  show ?thesis
  proof (cases "record_data t data")
    case (Inl e)
    with own assms(1,2) show ?thesis
      by (auto simp: register_transition_def log_moves_refl record_data_def split: option.splits if_splits)
  next
    case (Inr data')
    have mem: "t \<in> set (tl_all s)"
      using own assms(1) by (auto simp: owns_transition_def tl_inv_def all_inv_def dest: in_set_dropD)
    have reg: "register_locked operation t data' outcome s = (r, s')" using assms(2) own Inr by (simp add: register_transition_def)
    have "log_clean s'" if "c" "log_clean s"
      using reg
    proof (cases rule: register_cases)
      case 2
      with that assms(3) [OF Inr that(1)] show ?thesis by (auto simp: log_clean_def dest!: dset_mem)
    qed (use that in simp)
    moreover have "tl_step s s'" using tl_step.register [OF mem Inr, of operation outcome] reg by simp
    moreover have "r \<noteq> Ret () \<longrightarrow> r = compromised \<and> s' = s"
      using reg by (auto simp: register_locked_def Let_def split: if_splits option.splits)
    ultimately show ?thesis using log_moves_step [OF assms(1)] by simp
  qed
qed

lemma append_transition_moves:
  assumes "append_transition w timeout operation t data outcome n s = Some (r, n', s')" "others_follow w" "tl_inv s"
    "\<And>data'. record_data t data = Ret data' \<Longrightarrow>
       c \<Longrightarrow> loggable \<lparr>it_operation = operation, it_transition = t, it_data = data', it_outcome = outcome\<rparr>"
  shows "log_moves c s s' \<and> n < n' \<and> (r = Ret () \<longrightarrow> \<not> tl_failure s' \<and> tr_sequence t < tl_next s') \<and> (r \<noteq> Ret () \<longrightarrow> r = compromised)"
proof -
  define s1 where "s1 = mo_others (w n) False s"
  obtain r2 s2 where reg: "register_transition operation t data outcome s1 = (r2, s2)" by (metis surj_pair)
  have m1: "log_moves c s s1" unfolding s1_def by (rule others_move [OF assms(2,3)])
  have m2: "log_moves c s1 s2 \<and> (r2 \<noteq> Ret () \<longrightarrow> r2 = compromised \<and> s2 = s1)"
    by (rule register_moves [OF log_moves_inv [OF m1] reg assms(4)])
  note body = assms(1) [unfolded append_transition_def Let_def, folded s1_def, unfolded reg]
  show ?thesis
  proof (cases r2)
    case (Inl e)
    with body m1 m2 show ?thesis by auto
  next
    case (Inr u)
    then have "drain_pending w (Some (tr_sequence t)) timeout (Suc n) s2 = Some (r, n', s')" using body by simp
    from drain_pending_moves [OF this assms(2) log_moves_inv, OF conjunct1 [OF m2]]
    show ?thesis using log_moves_trans [OF log_moves_trans [OF m1 conjunct1 [OF m2]]] by (auto simp: drained_def dest: Suc_lessD)
  qed
qed

section \<open>The loop ends\<close>

text \<open>Once the deadline has passed, and an append that is given no time fails, the next turn is the last.\<close>

lemma drain_loop_returns:
  assumes "\<forall>k \<ge> N. expired_at d (w k) \<and> mo_append (w k) (Fin 0) \<noteq> Appended"
  shows "\<exists>y. drain_loop w d wait_for owns n s = Some y"
proof (induction "N - n" arbitrary: n owns s)
  case 0
  then have e: "expired_at d (w n)" "mo_append (w n) (Fin 0) \<noteq> Appended" using assms by simp_all
  have left: "time_left d (w n) = Fin 0"
  proof -
    have "flt (Fin 0) x = False" if "fle x (Fin 0)" for x using that by (cases x) auto
    with e(1) show ?thesis by (simp add: time_left_def expired_at_def fmax_def)
  qed
  define s1 where "s1 = mo_others (w n) owns s"
  have "drain_poll wait_for owns True s1 \<noteq> PollWaits"
    by (auto simp: drain_poll_def Let_def split: option.splits)
  moreover have "\<not> fst (drain_append (w n) d i s1)" for i
    using e(2) by (simp add: drain_append_def append_answer_of_def left split: append_answer.splits)
  ultimately show ?case
    using e(1) by (subst drain_loop.simps) (cases "drain_poll wait_for owns True s1", simp_all add: s1_def Let_def)
next
  case (Suc m)
  then have "m = N - Suc n" by simp
  from Suc(1) [OF this] show ?case
    by (subst drain_loop.simps) (auto simp: Let_def split: poll.splits)
qed

section \<open>A concrete call\<close>

text \<open>Nobody else moves, the clock shows two seconds, appends with time to spare succeed, and so does every stop.\<close>

definition quiet :: moment where
  "quiet = \<lparr>mo_others = (\<lambda>_ s. s), mo_clock = Fin 2, mo_append = (\<lambda>t. if flt (Fin 0) t then Appended else AppendFails False),
     mo_stops = (\<lambda>_. StopReturns successful_stop)\<rparr>"

lemma quiet_sel [simp]: "mo_others quiet owns s = s" "mo_clock quiet = Fin 2"
  by (simp_all add: quiet_def)

lemma quiet_follow: "others_follow (\<lambda>_. quiet)"
  by (simp add: others_follow_def quiet_def)

lemma fadd_2_1: "fadd (Fin 2) (Fin 1) = Fin 3" "fsub (Fin 3) (Fin 2) = Fin 1"
  by (simp_all add: fsub_def float_eval)

lemma demo_moved_inv: "tl_inv demo_moved"
proof -
  have "tl_step demo_start demo_moved" unfolding demo_moved_def
  proof (rule tl_step.gateway)
    show "gw_step (tl_gateway demo_start) demo_discovered"
      unfolding demo_start_def log_init_def demo_discovered_def by (simp add: gw_step.discover)
  qed (simp add: demo_start_def log_init_def gateway_init_def)
  moreover have "tl_inv demo_start" unfolding demo_start_def by (rule log_init_inv)
  ultimately show ?thesis by (rule tl_step_inv)
qed

lemma demo_owned: "owns_transition demo_transition demo_discovered"
  by (simp add: demo_discovered_eq do_transition_eq owns_transition_def gateway_init_def push_history_def mk_transition_def
      demo_transition_def HISTORY_MAX_def)

lemma demo_append_returns:
  "append_transition (\<lambda>_. quiet) (Fin 1) DISCOVER demo_transition None OK 0 demo_moved = Some (Ret (), 4, drain_leave demo_logged)"
proof -
  have g: "tl_gateway demo_moved = demo_discovered" by (simp add: demo_moved_def)
  have reg: "register_transition DISCOVER demo_transition None OK demo_moved = (Ret (), demo_registered)"
    using demo_owned by (simp add: register_transition_def record_data_def g demo_registered_def register_locked_def demo_moved_eq demo_transition_def)
  have t1: "drain_poll (Some 0) False (expired_at (Fin 3) quiet) demo_registered = PollTakes demo_item"
    by (simp add: drain_poll_def next_item_def demo_registered_eq demo_moved_eq)
  have a1: "drain_append quiet (Fin 3) demo_item demo_registered = (True, demo_logged)"
    by (simp add: drain_append_def append_answer_of_def demo_loggable time_left_def quiet_def fadd_2_1 fmax_def demo_logged_def demo_taken_def)
  have n: "next_item demo_logged = None"
    by (simp add: next_item_def demo_logged_def drain_appended_def demo_taken_def drain_take_def demo_registered_eq demo_moved_eq
        ddel_def infer_gateway_fault_def transitions_from_def g demo_discovered_eq do_transition_eq gateway_init_def push_history_def
        mk_transition_def HISTORY_MAX_def)
  have t2: "drain_poll (Some 0) True (expired_at (Fin 3) quiet) demo_logged = PollReturns"
    using n by (simp add: drain_poll_def) (simp add: demo_logged_def drain_appended_def demo_taken_def drain_take_def demo_registered_eq demo_moved_eq)
  have l2: "drain_loop (\<lambda>_. quiet) (Fin 3) (Some 0) True 3 demo_logged = Some (Ret (), 4, drain_leave demo_logged)"
    using t2 by (subst drain_loop.simps) (simp add: release_def)
  have l1: "drain_loop (\<lambda>_. quiet) (Fin 3) (Some 0) False 2 demo_registered = Some (Ret (), 4, drain_leave demo_logged)"
    using t1 a1 l2 by (subst drain_loop.simps) (simp add: Let_def)
  have "tr_sequence demo_transition = 0" by (simp add: demo_transition_def)
  with reg l1 show ?thesis by (simp add: append_transition_def drain_pending_def fadd_2_1 numeral_2_eq_2)
qed

section \<open>Properties of a call\<close>

text \<open>A transition is announced only when it is on record: when the call that registers a transition and drains the log
  returns, whatever other threads did meanwhile, the transition's own record has been appended at its place in the log,
  with its states and its stop result; otherwise the call raises the code of a compromised audit.\<close>
theorem announced_is_recorded:
  assumes "append_transition w timeout operation t data outcome n s = Some (r, n', s')" "others_follow w" "tl_inv s"
    "t \<in> set (tl_all s)"
  shows "(r = Ret () \<longrightarrow> \<not> tl_failure s' \<and> tr_sequence t < length (tl_written s') \<and> event_fits t (tl_written s' ! tr_sequence t)) \<and>
    (r \<noteq> Ret () \<longrightarrow> r = compromised)"
proof -
  have m: "log_moves False s s'" "r = Ret () \<longrightarrow> \<not> tl_failure s' \<and> tr_sequence t < tl_next s'" "r \<noteq> Ret () \<longrightarrow> r = compromised"
    using append_transition_moves [OF assms(1-3), of False] by simp_all
  have inv: "tl_inv s'" by (rule log_moves_inv [OF m(1)])
  have t: "tl_all s' ! tr_sequence t = t"
  proof -
    obtain ts where "tl_all s' = tl_all s @ ts" using log_moves_extends [OF m(1) assms(3)] by (auto simp: log_extends_def)
    moreover have "tr_sequence t < length (tl_all s)" "tl_all s ! tr_sequence t = t"
      using sequence_index [of s t] assms(3,4) by (simp_all add: tl_inv_def)
    ultimately show ?thesis by (simp add: nth_append)
  qed
  have fits: "list_all2 event_fits (take (length (tl_written s')) (tl_all s')) (tl_written s')" "tl_next s' \<le> length (tl_written s')"
    using inv by (auto simp: tl_inv_def drain_inv_def)
  have "event_fits t (tl_written s' ! tr_sequence t)" if "tr_sequence t < tl_next s'"
    using list_all2_nthD2 [OF fits(1), of "tr_sequence t"] that fits(2) t by simp
  with m(2,3) fits(2) show ?thesis by auto
qed

theorem announced_is_recorded_witness:
  "event_fits demo_transition (tl_written (drain_leave demo_logged) ! 0)"
  using announced_is_recorded [OF demo_append_returns quiet_follow demo_moved_inv]
  by (simp add: demo_moved_eq) (simp add: demo_transition_def)

text \<open>A call always comes back: if from some turn on the deadline has passed, and an append that is given no time does not
  succeed, the drain returns or raises, whatever the other threads do and however long one of them keeps the drain.\<close>
theorem drain_call_ends:
  assumes "\<forall>k \<ge> N. expired_at (fadd (mo_clock (w n)) timeout) (w k) \<and> mo_append (w k) (Fin 0) \<noteq> Appended"
  shows "\<exists>y. drain_pending w wait_for timeout n s = Some y"
  using drain_loop_returns [OF assms] by (simp add: drain_pending_def)

definition later :: "nat \<Rightarrow> moment" where
  "later k = quiet\<lparr>mo_clock := (if k = 0 then Fin 2 else Fin 3)\<rparr>"

theorem drain_call_ends_witness: "\<exists>y. drain_pending later (Some 7) (Fin 1) 0 demo_start = Some y"
proof -
  have "fadd (mo_clock (later 0)) (Fin 1) = Fin 3" by (simp add: later_def fadd_2_1)
  moreover have "fsub (Fin 3) (Fin 3) = Fin 0" by (simp add: fsub_def float_eval)
  then have "\<forall>k \<ge> 1. expired_at (Fin 3) (later k) \<and> mo_append (later k) (Fin 0) \<noteq> Appended"
    by (simp add: later_def expired_at_def) (simp add: quiet_def)
  ultimately show ?thesis using drain_call_ends [of 1 later 0 "Fin 1" "Some 7" demo_start] by simp
qed

end
