(* ===== verification/Adapter.thy ===== *)
theory Adapter
  imports Profiles Safety
begin

text \<open>
  The data adapters exchange with the runtime (\<^verbatim>\<open>agent_ros/adapters/base.py\<close>) and the
  evidence that is frozen when a task has succeeded: the base class's snapshot, the hospital adapter's, which takes the
  odometry from the status that reported the success (\<^verbatim>\<open>adapters/hospital.py\<close>), and the check
  of either (\<^verbatim>\<open>runtime/terminal_evidence.py\<close>). What an observation of a source gives is an argument,
  by the number of the call.
\<close>

section \<open>Data\<close>

text \<open>\<^verbatim>\<open>_finite\<close>: \<^verbatim>\<open>math.isfinite\<close> of an integer too large for a float raises.\<close>

definition finite_value :: "pyval \<Rightarrow> bool result" where
  "finite_value v = (if is_number v then py_isfinite v else Ret False)"

fun all_finite :: "pyval list \<Rightarrow> bool result" where
  "all_finite [] = Ret True"
| "all_finite (v # vs) = rbind (finite_value v) (\<lambda>b. if b then all_finite vs else Ret False)"

record twist_command =
  tc_linear :: pyval
  tc_angular :: pyval

definition twist_command_of :: "pyval \<Rightarrow> pyval \<Rightarrow> twist_command result" where
  "twist_command_of l a =
     rbind (all_finite [l, a]) (\<lambda>b.
     if b then Ret \<lparr>tc_linear = l, tc_angular = a\<rparr> else Raise (AdapterError ''PROFILE_INVALID''))"

record odometry_sample =
  os_timestamp :: pyval
  os_x :: pyval
  os_y :: pyval
  os_yaw :: pyval

definition odometry_sample_of :: "pyval \<Rightarrow> pyval \<Rightarrow> pyval \<Rightarrow> pyval \<Rightarrow> odometry_sample result" where
  "odometry_sample_of t x y yaw =
     rbind (all_finite [t, x, y, yaw]) (\<lambda>b.
     if b then Ret \<lparr>os_timestamp = t, os_x = x, os_y = y, os_yaw = yaw\<rparr> else Raise (AdapterError ''STALE_FEEDBACK''))"

record navigation_goal =
  ng_frame :: string
  ng_x :: pyval
  ng_y :: pyval
  ng_yaw :: pyval

definition navigation_goal_of :: "pyval \<Rightarrow> pyval \<Rightarrow> pyval \<Rightarrow> pyval \<Rightarrow> navigation_goal result" where
  "navigation_goal_of frame x y yaw =
     (if \<not> nonempty_str frame then Raise (AdapterError ''PROFILE_INVALID'')
      else rbind (all_finite [x, y, yaw]) (\<lambda>b.
        if b then Ret \<lparr>ng_frame = str_val frame, ng_x = x, ng_y = y, ng_yaw = yaw\<rparr>
        else Raise (AdapterError ''PROFILE_INVALID'')))"

record adapter_status =
  as_state :: string
  as_code :: "string option"
  as_values :: pydict

record observation =
  ob_source :: string
  ob_timestamp :: pyval
  ob_values :: pydict

text \<open>An adapter may return anything where an observation is expected.\<close>

datatype observed = NotObservation | Observed observation

section \<open>Freezing evidence\<close>

fun freeze_sources :: "(nat \<Rightarrow> string \<Rightarrow> observed result) \<Rightarrow> nat \<Rightarrow> string list \<Rightarrow> (string \<times> observation) list \<Rightarrow>
    (string \<times> observation) list result" where
  "freeze_sources observe n [] captured = Ret captured"
| "freeze_sources observe n (source # sources) captured =
     (case observe n source of
        Inl _ \<Rightarrow> Raise (AdapterError ''EVIDENCE_INVALID'')
      | Inr NotObservation \<Rightarrow> Raise (AdapterError ''EVIDENCE_INVALID'')
      | Inr (Observed ob) \<Rightarrow>
          if ob_source ob \<noteq> source then Raise (AdapterError ''EVIDENCE_INVALID'')
          else freeze_sources observe (Suc n) sources (dset source ob captured))"

definition base_freeze :: "(nat \<Rightarrow> string \<Rightarrow> observed result) \<Rightarrow> string list \<Rightarrow> (string \<times> observation) list result" where
  "base_freeze observe sources =
     (if \<not> list_all (\<lambda>s. s \<noteq> []) sources then Raise (AdapterError ''PROFILE_INVALID'')
      else freeze_sources observe 0 sources [])"

text \<open>A pose's coordinates, each a finite number, read as floats.\<close>

definition finite_coordinate :: "py_exn \<Rightarrow> pydict \<Rightarrow> string \<Rightarrow> (pyval \<times> pyval) result" where
  "finite_coordinate e pose key = rbind (finite_float (vget pose key) e) (\<lambda>r. Ret (VStr key, VFloat (Fin r)))"

definition projected_pose :: "py_exn \<Rightarrow> pyval \<Rightarrow> pydict result" where
  "projected_pose e pose =
     (case pose of VDict d \<Rightarrow> rmap (finite_coordinate e d) [''x'', ''y'', ''yaw''] | _ \<Rightarrow> Raise e)"

definition hospital_freeze ::
  "(nat \<Rightarrow> string \<Rightarrow> observed result) \<Rightarrow> string list \<Rightarrow> adapter_status option \<Rightarrow> (string \<times> observation) list result" where
  "hospital_freeze observe sources status =
     (let invalid = AdapterError ''EVIDENCE_INVALID'' in
      if \<not> list_all (\<lambda>s. s \<noteq> []) sources then Raise (AdapterError ''PROFILE_INVALID'')
      else rbind (base_freeze observe (filter (\<lambda>s. s \<noteq> ''odometry'') sources)) (\<lambda>captured.
        if ''odometry'' \<notin> set sources then Ret captured
        else case status of None \<Rightarrow> Raise invalid
        | Some st \<Rightarrow>
            if as_state st \<noteq> ''succeeded'' then Raise invalid
            else rbind (projected_pose invalid (vget (as_values st) ''pose'')) (\<lambda>pose.
              rbind (finite_float (vget (as_values st) ''sim_time'') invalid) (\<lambda>t.
              if t < 0 then Raise invalid
              else Ret (dset ''odometry''
                \<lparr>ob_source = ''odometry'', ob_timestamp = VFloat (Fin t), ob_values = pose\<rparr> captured)))))"

section \<open>Checking the snapshot\<close>

text \<open>What an adapter's freeze returns: not a mapping, or a mapping to anything.\<close>

datatype frozen = NotMapping | Frozen "(string \<times> observed) list"

fun checked_snapshot :: "(string \<times> observed) list \<Rightarrow> string list \<Rightarrow> (string \<times> observation) list \<Rightarrow> (string \<times> observation) list result" where
  "checked_snapshot frozen [] snapshot = Ret snapshot"
| "checked_snapshot frozen (source # sources) snapshot =
     (case dget frozen source of
        Some (Observed ob) \<Rightarrow>
          if ob_source ob \<noteq> source then Raise (controller_error ''EVIDENCE_INVALID'')
          else checked_snapshot frozen sources (dset source ob snapshot)
      | _ \<Rightarrow> Raise (controller_error ''EVIDENCE_INVALID''))"

definition capture_terminal_evidence :: "frozen result \<Rightarrow> string list \<Rightarrow> (string \<times> observation) list result" where
  "capture_terminal_evidence answer sources =
     (case answer of
        Inl (AdapterError code) \<Rightarrow> Raise (controller_error code)
      | Inl _ \<Rightarrow> Raise (controller_error ''EVIDENCE_INVALID'')
      | Inr NotMapping \<Rightarrow> Raise (controller_error ''EVIDENCE_INVALID'')
      | Inr (Frozen frozen) \<Rightarrow> checked_snapshot frozen sources [])"

section \<open>What a snapshot holds\<close>

text \<open>A snapshot of the sources: a key for each, in the order of their first occurrence, with an observation of that source.\<close>

definition snapshot_of :: "string list \<Rightarrow> (string \<times> observation) list \<Rightarrow> bool" where
  "snapshot_of sources snap \<longleftrightarrow> set (dkeys snap) = set sources \<and> distinct (dkeys snap) \<and>
     (\<forall>(k, ob) \<in> set snap. ob_source ob = k)"

lemma dset_values: "(\<forall>(k, x) \<in> set d. P k x) \<Longrightarrow> P k v \<Longrightarrow> \<forall>(k, x) \<in> set (dset k v d). P k x"
  by (induction k v d rule: dset.induct) auto

lemma snapshot_dset:
  "snapshot_of sources snap \<Longrightarrow> ob_source ob = s \<Longrightarrow> snapshot_of (sources @ [s]) (dset s ob snap)"
  using dkeys_dset [of s ob snap] distinct_dset [of snap s ob] dset_values [of snap "\<lambda>k ob. ob_source ob = k" s ob]
  by (auto simp: snapshot_of_def)

lemma checked_snapshot_of:
  "checked_snapshot frozen sources snap = Ret snap' \<Longrightarrow> snapshot_of done snap \<Longrightarrow> snapshot_of (done @ sources) snap'"
proof (induction sources arbitrary: snap "done")
  case (Cons s sources)
  then obtain ob where ob: "dget frozen s = Some (Observed ob)" "ob_source ob = s"
    "checked_snapshot frozen sources (dset s ob snap) = Ret snap'"
    by (auto split: option.splits observed.splits if_splits)
  from Cons.IH [OF ob(3) snapshot_dset [OF Cons.prems(2) ob(2)]] show ?case by simp
qed simp

lemma snapshot_nil: "snapshot_of [] []" by (simp add: snapshot_of_def dkeys_def)

lemma checked_errs: "errs {RuntimeControllerError ''EVIDENCE_INVALID''} (checked_snapshot frozen sources snap)"
  by (induction sources arbitrary: snap)
    (auto simp: controller_error_def PUBLIC_CODES_def split: option.splits observed.splits)

lemma freeze_sources_of:
  "freeze_sources observe n sources snap = Ret snap' \<Longrightarrow> snapshot_of done snap \<Longrightarrow> snapshot_of (done @ sources) snap'"
proof (induction sources arbitrary: n snap "done")
  case (Cons s sources)
  then obtain ob where ob: "observe n s = Ret (Observed ob)" "ob_source ob = s"
    "freeze_sources observe (Suc n) sources (dset s ob snap) = Ret snap'"
    by (auto split: sum.splits observed.splits if_splits)
  from Cons.IH [OF ob(3) snapshot_dset [OF Cons.prems(2) ob(2)]] show ?case by simp
qed simp

lemma base_freeze_of: "base_freeze observe sources = Ret snap \<Longrightarrow> snapshot_of sources snap"
  using freeze_sources_of [OF _ snapshot_nil] by (auto simp: base_freeze_def split: if_splits)

lemma checked_complete:
  "snapshot_of all snap \<Longrightarrow> set sources \<subseteq> set all \<Longrightarrow>
     \<exists>snap''. checked_snapshot (map (\<lambda>(k, ob). (k, Observed ob)) snap) sources snap' = Ret snap''"
proof (induction sources arbitrary: snap')
  case (Cons s sources)
  then obtain ob where "dget snap s = Some ob"
    by (metis dget_None_iff insert_subset list.simps(15) not_None_eq snapshot_of_def)
  moreover from this have "ob_source ob = s" using Cons.prems(1) dget_Some_mem by (fastforce simp: snapshot_of_def)
  ultimately show ?case using Cons by (simp add: dget_map_snd)
qed simp

text \<open>The hospital's snapshot: the odometry is the pose of the status.\<close>

lemma finite_coordinate_Ret:
  "finite_coordinate e pose key = Ret kv \<longleftrightarrow> (\<exists>r. kv = (VStr key, VFloat (Fin r)) \<and> finite_float (vget pose key) e = Ret r)"
  by (auto simp: finite_coordinate_def)

lemma projected_pose_Ret:
  "projected_pose e pose = Ret d \<longleftrightarrow> (\<exists>p x y yaw. pose = VDict p \<and>
     finite_float (vget p ''x'') e = Ret x \<and> finite_float (vget p ''y'') e = Ret y \<and> finite_float (vget p ''yaw'') e = Ret yaw \<and>
     d = [(VStr ''x'', VFloat (Fin x)), (VStr ''y'', VFloat (Fin y)), (VStr ''yaw'', VFloat (Fin yaw))])"
  by (cases pose) (auto simp: projected_pose_def finite_coordinate_Ret)

lemma hospital_freeze_cases:
  assumes "hospital_freeze observe sources status = Ret snap"
  obtains (plain) "''odometry'' \<notin> set sources" "base_freeze observe sources = Ret snap"
  | (pose) captured st pose t where "''odometry'' \<in> set sources" "status = Some st" "as_state st = ''succeeded''"
      "base_freeze observe (filter (\<lambda>s. s \<noteq> ''odometry'') sources) = Ret captured"
      "projected_pose (AdapterError ''EVIDENCE_INVALID'') (vget (as_values st) ''pose'') = Ret pose"
      "finite_float (vget (as_values st) ''sim_time'') (AdapterError ''EVIDENCE_INVALID'') = Ret t" "0 \<le> t"
      "snap = dset ''odometry'' \<lparr>ob_source = ''odometry'', ob_timestamp = VFloat (Fin t), ob_values = pose\<rparr> captured"
proof (cases "''odometry'' \<in> set sources")
  case False
  then have "filter (\<lambda>s. s \<noteq> ''odometry'') sources = sources" by (auto intro: filter_True)
  with assms False plain show thesis by (auto simp: hospital_freeze_def Let_def split: if_splits)
next
  case True
  obtain captured where c: "base_freeze observe (filter (\<lambda>s. s \<noteq> ''odometry'') sources) = Ret captured"
    using assms by (auto simp: hospital_freeze_def Let_def split: if_splits)
  with assms True obtain st where st: "status = Some st" "as_state st = ''succeeded''"
    by (auto simp: hospital_freeze_def Let_def split: if_splits option.splits)
  with assms True c obtain p where p: "projected_pose (AdapterError ''EVIDENCE_INVALID'') (vget (as_values st) ''pose'') = Ret p"
    by (auto simp: hospital_freeze_def Let_def split: if_splits)
  with assms True c st obtain t where "finite_float (vget (as_values st) ''sim_time'') (AdapterError ''EVIDENCE_INVALID'') = Ret t"
    "0 \<le> t" "snap = dset ''odometry'' \<lparr>ob_source = ''odometry'', ob_timestamp = VFloat (Fin t), ob_values = p\<rparr> captured"
    by (auto simp: hospital_freeze_def Let_def split: if_splits)
  with pose [OF True st c p] show thesis by blast
qed

lemma hospital_freeze_of:
  assumes "hospital_freeze observe sources status = Ret snap" shows "snapshot_of sources snap"
  using assms
proof (cases rule: hospital_freeze_cases)
  case plain
  then show ?thesis by (simp add: base_freeze_of)
next
  case (pose captured st p t)
  from snapshot_dset [OF base_freeze_of [OF pose(4)], of _ "''odometry''"] pose(1,8)
  have "snapshot_of (filter (\<lambda>s. s \<noteq> ''odometry'') sources @ [''odometry'']) snap" by simp
  moreover have "set (filter (\<lambda>s. s \<noteq> ''odometry'') sources @ [''odometry'']) = set sources" using pose(1) by auto
  ultimately show ?thesis unfolding snapshot_of_def by blast
qed

lemma capture_checked:
  "case capture_terminal_evidence answer sources of
     Inr snap \<Rightarrow> snapshot_of sources snap
   | Inl e \<Rightarrow> \<exists>c \<in> set PUBLIC_CODES. e = RuntimeControllerError c"
proof (cases "capture_terminal_evidence answer sources")
  case (Inr snap)
  then show ?thesis using checked_snapshot_of [OF _ snapshot_nil]
    by (auto simp: capture_terminal_evidence_def split: sum.splits py_exn.splits frozen.splits)
next
  case (Inl e)
  have "\<exists>c \<in> set PUBLIC_CODES. e = RuntimeControllerError c" if "checked_snapshot f sources [] = Raise e" for f
    using errsD [OF checked_errs that] by (auto simp: PUBLIC_CODES_def)
  moreover have "\<exists>c \<in> set PUBLIC_CODES. controller_error code = RuntimeControllerError c" for code
    by (simp add: controller_error_def PUBLIC_CODES_def)
  ultimately show ?thesis using Inl
    by (auto simp: capture_terminal_evidence_def split: sum.splits py_exn.splits frozen.splits)
qed

section \<open>Properties\<close>

text \<open>Terminal evidence is complete and properly labelled: a snapshot that passes the check has exactly the task's
  sources as its keys, each with an observation of that very source, whatever the adapter returned; everything else is
  a runtime error with a public code.\<close>
theorem terminal_evidence_exact:
  "case capture_terminal_evidence answer sources of
     Inr snap \<Rightarrow> snapshot_of sources snap
   | Inl e \<Rightarrow> \<exists>c \<in> set PUBLIC_CODES. e = RuntimeControllerError c"
  by (rule capture_checked)

text \<open>The hospital's evidence is the success itself: the snapshot covers the sources, passes the check, and its odometry
  is the finite pose, at the simulation time, of the very status that reported the success.\<close>
theorem hospital_evidence_is_the_success:
  assumes "hospital_freeze observe sources status = Ret snap"
  shows "snapshot_of sources snap \<and>
    is_ret (capture_terminal_evidence (Ret (Frozen (map (\<lambda>(k, ob). (k, Observed ob)) snap))) sources) \<and>
    (''odometry'' \<in> set sources \<longrightarrow> (\<exists>st pose t ob. status = Some st \<and> as_state st = ''succeeded'' \<and> 0 \<le> t \<and>
       py_float (vget (as_values st) ''sim_time'') = Ret (Fin t) \<and>
       projected_pose (AdapterError ''EVIDENCE_INVALID'') (vget (as_values st) ''pose'') = Ret pose \<and>
       dget snap ''odometry'' = Some ob \<and> ob_timestamp ob = VFloat (Fin t) \<and> ob_values ob = pose))"
proof -
  have "snapshot_of sources snap" by (rule hospital_freeze_of [OF assms])
  moreover from this checked_complete [OF this subset_refl]
  have "is_ret (capture_terminal_evidence (Ret (Frozen (map (\<lambda>(k, ob). (k, Observed ob)) snap))) sources)"
    by (simp add: capture_terminal_evidence_def is_ret_iff)
  moreover from assms have "''odometry'' \<in> set sources \<longrightarrow> (\<exists>st pose t ob. status = Some st \<and> as_state st = ''succeeded'' \<and> 0 \<le> t \<and>
       py_float (vget (as_values st) ''sim_time'') = Ret (Fin t) \<and>
       projected_pose (AdapterError ''EVIDENCE_INVALID'') (vget (as_values st) ''pose'') = Ret pose \<and>
       dget snap ''odometry'' = Some ob \<and> ob_timestamp ob = VFloat (Fin t) \<and> ob_values ob = pose)"
    by (cases rule: hospital_freeze_cases) (simp_all add: finite_float_Inr)
  ultimately show ?thesis by blast
qed

definition demo_success :: adapter_status where
  "demo_success = \<lparr>as_state = ''succeeded'', as_code = None,
     as_values = [(VStr ''pose'', VDict [(VStr ''x'', VFloat (Fin 1)), (VStr ''y'', VFloat (Fin 2)), (VStr ''yaw'', VFloat (Fin 0))]),
       (VStr ''sim_time'', VFloat (Fin 90))]\<rparr>"

theorem hospital_evidence_is_the_success_witness:
  "\<exists>ob. hospital_freeze (\<lambda>_ _. Ret NotObservation) [''odometry''] (Some demo_success) = Ret [(''odometry'', ob)] \<and>
     ob_timestamp ob = VFloat (Fin 90)"
proof -
  define pose where "pose = [(VStr ''x'', VFloat (Fin 1)), (VStr ''y'', VFloat (Fin 2)), (VStr ''yaw'', VFloat (Fin 0))]"
  have f: "hospital_freeze (\<lambda>_ _. Ret NotObservation) [''odometry''] (Some demo_success) =
      Ret [(''odometry'', \<lparr>ob_source = ''odometry'', ob_timestamp = VFloat (Fin 90), ob_values = pose\<rparr>)]"
    by (simp add: hospital_freeze_def base_freeze_def demo_success_def projected_pose_def finite_coordinate_def vget_def finite_float_def pose_def)
  from hospital_evidence_is_the_success [OF f] f show ?thesis by auto
qed

end
