(* ===== verification/Actions.thy ===== *)
theory Actions
  imports Drain Adapter
begin

text \<open>
  The state of a runtime controller with an active robot (\<^verbatim>\<open>RuntimeController.__init__\<close> in
  \<^verbatim>\<open>agent_ros/runtime/controller.py\<close>), and the actions its handlers are made of: an action reads and updates the
  controller, may raise, and may not return where a drain does not. At each interaction with the rest of the
  world, a turn, the other threads first move the transition log and the gateway in it; the
  controller's own fields are written by one handler at a time. Statements about actions are
  preconditions: \<open>wp\<close> holds where every return satisfies one condition and every exception another.
\<close>

section \<open>State and world\<close>

datatype adapter_kind = PlainAdapter | DeliveryAdapter | CaseAdapter

record ctl =
  ct_time :: nat
  ct_timeout :: pyfloat
  ct_log :: transition_log
  ct_profile :: robot_profile
  ct_adapter :: adapter_kind
  ct_files :: challenge_files
  ct_task :: "task_profile option"
  ct_stage :: nat
  ct_deadline :: "pyfloat option"
  ct_observed :: safety_state
  ct_estop_bound :: bool
  ct_hw_verified :: bool
  ct_quarantined :: bool
  ct_cleanup_failed :: bool
  ct_cleanup_started :: bool
  ct_cleanups :: nat
  ct_cancel_requested :: bool
  ct_status :: "adapter_status option"
  ct_terminal :: "(string \<times> observation) list"
  ct_frozen :: bool
  ct_monitor :: bool
  ct_monitor_stop :: bool

text \<open>What the rest of the world answers at a turn; an action reads only the answers to the calls it makes.\<close>

record turn =
  tn_log :: moment
  tn_clock :: pyfloat
  tn_spawns :: bool
  tn_marker :: bool
  tn_digest :: "string \<Rightarrow> string"
  tn_os :: challenge_os
  tn_issue :: "unit result"
  tn_current :: bool
  tn_call :: "unit result"
  tn_joined :: bool
  tn_closes :: "bool result"
  tn_factory_closes :: "bool result option"
  tn_bind :: "bool result"
  tn_status :: "adapter_status result"
  tn_observe :: "observed result"
  tn_frozen :: "frozen result"

type_synonym world = "nat \<Rightarrow> turn"

abbreviation audit_world :: "world \<Rightarrow> nat \<Rightarrow> moment" where
  "audit_world w \<equiv> \<lambda>n. tn_log (w n)"

section \<open>Actions\<close>

type_synonym 'a act = "ctl \<Rightarrow> ('a result \<times> ctl) option"

definition done_with :: "'a \<Rightarrow> 'a act" where
  "done_with x c = Some (Ret x, c)"

definition fail_with :: "py_exn \<Rightarrow> 'a act" where
  "fail_with e c = Some (Raise e, c)"

definition after :: "'a act \<Rightarrow> ('a \<Rightarrow> 'b act) \<Rightarrow> 'b act" where
  "after a f c = (case a c of None \<Rightarrow> None | Some (r, c') \<Rightarrow>
     (case r of Inl e \<Rightarrow> Some (Raise e, c') | Inr x \<Rightarrow> f x c'))"

definition catching :: "'a act \<Rightarrow> (py_exn \<Rightarrow> 'a act) \<Rightarrow> 'a act" where
  "catching a h c = (case a c of None \<Rightarrow> None | Some (r, c') \<Rightarrow>
     (case r of Inl e \<Rightarrow> h e c' | Inr x \<Rightarrow> Some (Ret x, c')))"

text \<open>\<^verbatim>\<open>if b: a\<close>.\<close>

definition only_if :: "bool \<Rightarrow> unit act \<Rightarrow> unit act" where
  "only_if b a = (if b then a else done_with ())"

text \<open>\<^verbatim>\<open>if not b: raise RuntimeControllerError(code)\<close>.\<close>

definition ensure :: "bool \<Rightarrow> string \<Rightarrow> unit act" where
  "ensure b code = (if b then done_with () else fail_with (controller_error code))"

definition lift_result :: "'a result \<Rightarrow> 'a act" where
  "lift_result r = (case r of Inl e \<Rightarrow> fail_with e | Inr x \<Rightarrow> done_with x)"

definition reading :: "(ctl \<Rightarrow> 'a) \<Rightarrow> 'a act" where
  "reading f c = Some (Ret (f c), c)"

definition update :: "(ctl \<Rightarrow> ctl) \<Rightarrow> unit act" where
  "update f c = Some (Ret (), f c)"

text \<open>A turn: the others move, then a call on the gateway, or of anything else, has its answer.\<close>

definition on_gateway :: "world \<Rightarrow> (turn \<Rightarrow> gateway \<Rightarrow> 'a \<times> gateway) \<Rightarrow> 'a act" where
  "on_gateway w f c =
     (let t = w (ct_time c);
          s = mo_others (tn_log t) False (ct_log c);
          r = f t (tl_gateway s)
      in Some (Ret (fst r), c\<lparr>ct_time := Suc (ct_time c), ct_log := moved (snd r) s\<rparr>))"

definition asking :: "world \<Rightarrow> (turn \<Rightarrow> 'a) \<Rightarrow> 'a act" where
  "asking w f = on_gateway w (\<lambda>t g. (f t, g))"

definition gateway_state :: "world \<Rightarrow> safety_state act" where
  "gateway_state w = on_gateway w (\<lambda>_ g. (gw_state g, g))"

definition on_log :: "(nat \<Rightarrow> transition_log \<Rightarrow> ('a result \<times> nat \<times> transition_log) option) \<Rightarrow> 'a act" where
  "on_log f c = (case f (ct_time c) (ct_log c) of None \<Rightarrow> None
     | Some (r, n, s) \<Rightarrow> Some (r, c\<lparr>ct_time := n, ct_log := s\<rparr>))"

section \<open>Preconditions\<close>

definition wp :: "'a act \<Rightarrow> ('a \<Rightarrow> ctl \<Rightarrow> bool) \<Rightarrow> (py_exn \<Rightarrow> ctl \<Rightarrow> bool) \<Rightarrow> ctl \<Rightarrow> bool" where
  "wp a Q E c = (case a c of None \<Rightarrow> True | Some (r, c') \<Rightarrow> (case r of Inl e \<Rightarrow> E e c' | Inr x \<Rightarrow> Q x c'))"

named_theorems wp_simps \<open>preconditions of the actions\<close>

lemma wp_done [wp_simps]: "wp (done_with x) Q E c \<longleftrightarrow> Q x c"
  by (simp add: wp_def done_with_def)

lemma wp_fail [wp_simps]: "wp (fail_with e) Q E c \<longleftrightarrow> E e c"
  by (simp add: wp_def fail_with_def)

lemma wp_after [wp_simps]: "wp (after a f) Q E c \<longleftrightarrow> wp a (\<lambda>x. wp (f x) Q E) E c"
  by (auto simp: wp_def after_def split: option.splits sum.splits)

lemma wp_catching [wp_simps]: "wp (catching a h) Q E c \<longleftrightarrow> wp a Q (\<lambda>e. wp (h e) Q E) c"
  by (auto simp: wp_def catching_def split: option.splits sum.splits)

lemma wp_only_if [wp_simps]: "wp (only_if b a) Q E c \<longleftrightarrow> (if b then wp a Q E c else Q () c)"
  by (simp add: only_if_def wp_done)

lemma wp_ensure [wp_simps]: "wp (ensure b code) Q E c \<longleftrightarrow> (if b then Q () c else E (controller_error code) c)"
  by (simp add: ensure_def wp_done wp_fail)

lemma wp_lift [wp_simps]: "wp (lift_result r) Q E c \<longleftrightarrow> (case r of Inl e \<Rightarrow> E e c | Inr x \<Rightarrow> Q x c)"
  by (cases r) (simp_all add: lift_result_def wp_done wp_fail)

lemma wp_reading [wp_simps]: "wp (reading f) Q E c \<longleftrightarrow> Q (f c) c"
  by (simp add: wp_def reading_def)

lemma wp_update [wp_simps]: "wp (update f) Q E c \<longleftrightarrow> Q () (f c)"
  by (simp add: wp_def update_def)

lemma wp_if [wp_simps]: "wp (if b then a else a') Q E c \<longleftrightarrow> (if b then wp a Q E c else wp a' Q E c)"
  by simp

lemma wp_mono: "wp a Q E c \<Longrightarrow> (\<And>x c'. Q x c' \<Longrightarrow> Q' x c') \<Longrightarrow> (\<And>e c'. E e c' \<Longrightarrow> E' e c') \<Longrightarrow> wp a Q' E' c"
  by (auto simp: wp_def split: option.splits sum.splits)

lemma wp_result: "wp a Q E c \<Longrightarrow> a c = Some (r, c') \<Longrightarrow> (case r of Inl e \<Rightarrow> E e c' | Inr x \<Rightarrow> Q x c')"
  by (simp add: wp_def)

lemma wp_turn: "wp (on_gateway w f) Q E c \<longleftrightarrow>
    (let t = w (ct_time c); s = mo_others (tn_log t) False (ct_log c); r = f t (tl_gateway s) in
     Q (fst r) (c\<lparr>ct_time := Suc (ct_time c), ct_log := moved (snd r) s\<rparr>))"
  by (simp add: wp_def on_gateway_def Let_def)

section \<open>Gateway calls in the log\<close>

text \<open>A call of the gateway is one or more of its steps, at most one of which is a transition.\<close>

definition gateway_op :: "(gateway \<Rightarrow> gateway) \<Rightarrow> bool" where
  "gateway_op f \<longleftrightarrow> (\<forall>s. tl_inv s \<longrightarrow> tl_step\<^sup>*\<^sup>* s (moved (f (tl_gateway s)) s))"

lemma moved_self: "moved (tl_gateway s) s = s"
  by (simp add: moved_def)

lemma moved_twice: "gw_sequence g = gw_sequence (tl_gateway s) \<Longrightarrow> moved g' (moved g s) = moved g' s"
  by (simp add: moved_def)

lemma op_id: "gateway_op (\<lambda>g. g)"
  by (simp add: gateway_op_def moved_self)

lemma op_step:
  assumes "\<And>g. gw_step g (f g)" "\<And>g. gw_state g = ESTOPPED \<Longrightarrow> gw_state (f g) = ESTOPPED"
  shows "gateway_op f"
  using assms by (auto simp: gateway_op_def intro!: tl_step.gateway)

lemma op_then:
  assumes "gateway_op f" "gateway_op f'" "\<And>g. gw_sequence (f g) = gw_sequence g"
  shows "gateway_op (\<lambda>g. f' (f g))"
  unfolding gateway_op_def
proof (intro allI impI)
  fix s assume i: "tl_inv s"
  then have a: "tl_step\<^sup>*\<^sup>* s (moved (f (tl_gateway s)) s)" using assms(1) by (simp add: gateway_op_def)
  then have "tl_inv (moved (f (tl_gateway s)) s)" using i by (rule logging.inv_steps)
  then have "tl_step\<^sup>*\<^sup>* (moved (f (tl_gateway s)) s) (moved (f' (f (tl_gateway s))) s)"
    using assms(2,3) moved_twice [of "f (tl_gateway s)" s "f' (f (tl_gateway s))"] unfolding gateway_op_def
    by (metis moved_frame(1))
  with a show "tl_step\<^sup>*\<^sup>* s (moved (f' (f (tl_gateway s))) s)" by simp
qed

lemma op_if: "gateway_op f \<Longrightarrow> gateway_op f' \<Longrightarrow> gateway_op (\<lambda>g. if b g then f g else f' g)"
  by (simp add: gateway_op_def)

lemma require_estopped: "gw_state g = ESTOPPED \<Longrightarrow> require_state st g = unsafe ''ESTOP_LATCHED''"
  by (simp add: require_state_def)

lemma op_discover: "gateway_op (\<lambda>g. snd (gw_discover report g))"
  by (rule op_step, rule gw_step.discover) (simp_all add: gw_discover_def require_estopped)

lemma op_validate: "gateway_op (\<lambda>g. snd (gw_validate g))"
  by (rule op_step, rule gw_step.validate) (simp_all add: gw_validate_def require_estopped)

lemma op_arm: "gateway_op (\<lambda>g. snd (snd (gw_arm digest os now challenge files g)))"
  by (rule op_step, rule gw_step.arm) (simp_all add: gw_arm_def require_estopped)

lemma op_start: "gateway_op (\<lambda>g. snd (gw_start_task m now spawns g))"
  by (rule op_step, rule gw_step.start) (simp_all add: gw_start_task_def require_estopped)

lemma op_record_stop: "gateway_op (record_stop (stop_repeatedly calls))"
  by (rule op_step, rule gw_step.burst) (simp_all add: record_stop_def)

lemma record_stop_frame [simp]:
  "gw_sequence (record_stop r g) = gw_sequence g" "gw_state (record_stop r g) = gw_state g"
  by (simp_all add: record_stop_def)

lemma op_cancel: "gateway_op (\<lambda>g. snd (gw_cancel calls g))"
proof -
  have c: "gateway_op (\<lambda>g. snd (cancel_locked (stop_repeatedly calls) g))"
    by (rule op_step, rule gw_step.cancel) (simp_all add: cancel_locked_def require_estopped)
  have "snd (gw_cancel calls g) = (if is_ret (require_state RUNNING g)
      then snd (cancel_locked (stop_repeatedly calls) (record_stop (stop_repeatedly calls) g)) else g)" for g
    by (simp add: gw_cancel_def Let_def split: sum.split)
  then show ?thesis using op_if [OF op_then [OF op_record_stop c] op_id] by simp
qed

lemma op_fault: "gateway_op (\<lambda>g. snd (gw_fault calls g))"
proof -
  have c: "gateway_op (\<lambda>g. snd (fault_locked (stop_repeatedly calls) g))"
    by (rule op_step, rule gw_step.fault) (simp_all add: fault_locked_def)
  show ?thesis using op_then [OF op_record_stop c] by (simp add: gw_fault_def Let_def)
qed

lemma op_estop: "gateway_op (\<lambda>g. snd (gw_estop_attempt calls g))"
proof -
  have c: "gateway_op (\<lambda>g. snd (estop_locked (stop_repeatedly calls) g))"
    by (rule op_step, rule gw_step.estop) (simp_all add: estop_locked_def)
  show ?thesis using op_then [OF op_record_stop c] by (simp add: gw_estop_attempt_def Let_def)
qed

lemma heartbeat_frame:
  assumes "heartbeat_locked now g = (r, g')"
  shows "(case r of HbAlive t \<Rightarrow> True | _ \<Rightarrow> g' = g)"
  using assms by (auto simp: heartbeat_locked_def Let_def split: sum.splits option.splits if_splits prod.splits)

lemma op_heartbeat: "gateway_op (\<lambda>g. snd (gw_heartbeat now calls g))"
proof -
  have c: "gateway_op (\<lambda>g. snd (heartbeat_locked now g))"
    by (rule op_step, rule gw_step.heartbeat) (simp_all add: heartbeat_locked_def require_estopped)
  have "snd (gw_heartbeat now calls g) = (case fst (heartbeat_locked now g) of HbFault _ \<Rightarrow> snd (gw_fault calls g)
      | _ \<Rightarrow> snd (heartbeat_locked now g))" for g
    using heartbeat_frame [of now g] by (cases "heartbeat_locked now g") (auto simp: gw_heartbeat_def split: heartbeat_outcome.splits)
  then show ?thesis using c op_fault [of calls] by (auto simp: gateway_op_def split: heartbeat_outcome.splits)
qed

lemma op_close: "gateway_op (gw_close calls)"
proof -
  have c: "gateway_op (\<lambda>g. g\<lparr>gw_supervisor := supervisor_stop (gw_supervisor g)\<rparr>)"
    by (rule op_step, rule gw_step.close) simp_all
  show ?thesis unfolding gateway_op_def
  proof (intro allI impI)
    fix s assume i: "tl_inv s"
    define g where "g = (if gw_state (tl_gateway s) = RUNNING then snd (gw_fault calls (tl_gateway s)) else tl_gateway s)"
    have a: "tl_step\<^sup>*\<^sup>* s (moved g s)"
      using i op_fault [of calls] by (auto simp: g_def gateway_op_def moved_self)
    then have "tl_inv (moved g s)" using i by (rule logging.inv_steps)
    then have "tl_step\<^sup>*\<^sup>* (moved g s) (moved (g\<lparr>gw_supervisor := supervisor_stop (gw_supervisor g)\<rparr>) (moved g s))"
      using c unfolding gateway_op_def by (metis moved_frame(1))
    moreover have "moved (g\<lparr>gw_supervisor := supervisor_stop (gw_supervisor g)\<rparr>) (moved g s) =
        moved (gw_close calls (tl_gateway s)) s"
      by (simp add: moved_def gw_close_def Let_def g_def)
    ultimately show "tl_step\<^sup>*\<^sup>* s (moved (gw_close calls (tl_gateway s)) s)" using a by simp
  qed
qed

section \<open>Specifications of actions\<close>

text \<open>An action moves the log and leaves alone what a session is made with.\<close>

definition ctl_moves :: "bool \<Rightarrow> ctl \<Rightarrow> ctl \<Rightarrow> bool" where
  "ctl_moves b c c' \<longleftrightarrow> log_moves b (ct_log c) (ct_log c') \<and> ct_adapter c' = ct_adapter c \<and> ct_profile c' = ct_profile c"

lemma ctl_moves_refl: "tl_inv (ct_log c) \<Longrightarrow> ctl_moves b c c"
  by (simp add: ctl_moves_def log_moves_refl)

lemma ctl_moves_trans: "ctl_moves b c c1 \<Longrightarrow> ctl_moves b c1 c2 \<Longrightarrow> ctl_moves b c c2"
  using log_moves_trans by (auto simp: ctl_moves_def)

lemma ctl_moves_inv: "ctl_moves b c c1 \<Longrightarrow> tl_inv (ct_log c1)"
  by (auto simp: ctl_moves_def dest: log_moves_inv)

text \<open>\<open>act_spec b w P E a\<close>: the action moves the log by steps of its machine, its results satisfy \<open>P\<close> and its
  exceptions \<open>E\<close>; with \<open>b\<close>, it also keeps the log clean.\<close>

definition act_spec :: "bool \<Rightarrow> world \<Rightarrow> ('a \<Rightarrow> bool) \<Rightarrow> (py_exn \<Rightarrow> bool) \<Rightarrow> 'a act \<Rightarrow> bool" where
  "act_spec b w P E a \<longleftrightarrow> (others_follow (audit_world w) \<longrightarrow> (\<forall>c. tl_inv (ct_log c) \<longrightarrow>
     wp a (\<lambda>x c'. ctl_moves b c c' \<and> P x) (\<lambda>e c'. ctl_moves b c c' \<and> E e) c))"

named_theorems spec_rules \<open>specifications of the actions\<close>

lemma act_specI:
  "(\<And>c. others_follow (audit_world w) \<Longrightarrow> tl_inv (ct_log c) \<Longrightarrow>
     wp a (\<lambda>x c'. ctl_moves b c c' \<and> P x) (\<lambda>e c'. ctl_moves b c c' \<and> E e) c) \<Longrightarrow>
   act_spec b w P E a"
  by (simp add: act_spec_def)

lemma act_specD:
  assumes "act_spec b w P E a" "others_follow (audit_world w)" "tl_inv (ct_log c)" "a c = Some (r, c')"
  shows "ctl_moves b c c' \<and> (case r of Inl e \<Rightarrow> E e | Inr x \<Rightarrow> P x)"
  using assms wp_result [of a _ _ c r c'] unfolding act_spec_def by (fastforce split: sum.splits)

lemma spec_done [spec_rules]: "P x \<Longrightarrow> act_spec b w P E (done_with x)"
  by (rule act_specI) (simp add: wp_simps ctl_moves_refl)

lemma spec_fail [spec_rules]: "E e \<Longrightarrow> act_spec b w P E (fail_with e)"
  by (rule act_specI) (simp add: wp_simps ctl_moves_refl)

lemma spec_ensure [spec_rules]: "P () \<Longrightarrow> E (controller_error code) \<Longrightarrow> act_spec b w P E (ensure x code)"
  by (rule act_specI) (simp add: wp_simps ctl_moves_refl)

lemma spec_lift [spec_rules]: "(\<And>x. r = Ret x \<Longrightarrow> P x) \<Longrightarrow> (\<And>e. r = Raise e \<Longrightarrow> E e) \<Longrightarrow> act_spec b w P E (lift_result r)"
  by (rule act_specI) (simp add: wp_simps ctl_moves_refl split: sum.split)

lemma spec_reading [spec_rules]: "(\<And>c. P (f c)) \<Longrightarrow> act_spec b w P E (reading f)"
  by (rule act_specI) (simp add: wp_simps ctl_moves_refl)

lemma spec_update [spec_rules]: "P () \<Longrightarrow> (\<And>c. ct_log (f c) = ct_log c) \<Longrightarrow> (\<And>c. ct_adapter (f c) = ct_adapter c) \<Longrightarrow>
    (\<And>c. ct_profile (f c) = ct_profile c) \<Longrightarrow> act_spec b w P E (update f)"
  by (rule act_specI) (simp add: wp_simps ctl_moves_def log_moves_refl)

lemma spec_if [spec_rules]:
  "(x \<Longrightarrow> act_spec b w P E a) \<Longrightarrow> (\<not> x \<Longrightarrow> act_spec b w P E a') \<Longrightarrow> act_spec b w P E (if x then a else a')"
  by simp

lemma spec_only_if [spec_rules]: "(x \<Longrightarrow> act_spec b w P E a) \<Longrightarrow> P () \<Longrightarrow> act_spec b w P E (only_if x a)"
  by (simp add: only_if_def spec_done)

lemma spec_after:
  assumes "act_spec b w P E a" "\<And>x. P x \<Longrightarrow> act_spec b w Q E (f x)"
  shows "act_spec b w Q E (after a f)"
proof (rule act_specI)
  fix c :: ctl assume h: "others_follow (audit_world w)" "tl_inv (ct_log c)"
  have "wp a (\<lambda>x c'. ctl_moves b c c' \<and> P x) (\<lambda>e c'. ctl_moves b c c' \<and> E e) c"
    using assms(1) h by (simp add: act_spec_def)
  then show "wp (after a f) (\<lambda>x c'. ctl_moves b c c' \<and> Q x) (\<lambda>e c'. ctl_moves b c c' \<and> E e) c"
    unfolding wp_after
  proof (rule wp_mono)
    fix x and c1 :: ctl assume m: "ctl_moves b c c1 \<and> P x"
    with assms(2) h(1) have "wp (f x) (\<lambda>x c'. ctl_moves b c1 c' \<and> Q x)
        (\<lambda>e c'. ctl_moves b c1 c' \<and> E e) c1"
      using ctl_moves_inv by (auto simp: act_spec_def)
    then show "wp (f x) (\<lambda>x c'. ctl_moves b c c' \<and> Q x) (\<lambda>e c'. ctl_moves b c c' \<and> E e) c1"
      by (rule wp_mono) (use m ctl_moves_trans in blast)+
  qed
qed

lemma spec_catching:
  assumes "act_spec b w P E' a" "\<And>e. E' e \<Longrightarrow> act_spec b w P E (h e)"
  shows "act_spec b w P E (catching a h)"
proof (rule act_specI)
  fix c :: ctl assume i: "others_follow (audit_world w)" "tl_inv (ct_log c)"
  have "wp a (\<lambda>x c'. ctl_moves b c c' \<and> P x) (\<lambda>e c'. ctl_moves b c c' \<and> E' e) c"
    using assms(1) i by (simp add: act_spec_def)
  then show "wp (catching a h) (\<lambda>x c'. ctl_moves b c c' \<and> P x) (\<lambda>e c'. ctl_moves b c c' \<and> E e) c"
    unfolding wp_catching
  proof (rule wp_mono)
    fix e and c1 :: ctl assume m: "ctl_moves b c c1 \<and> E' e"
    with assms(2) i(1) have "wp (h e) (\<lambda>x c'. ctl_moves b c1 c' \<and> P x)
        (\<lambda>e c'. ctl_moves b c1 c' \<and> E e) c1"
      using ctl_moves_inv by (auto simp: act_spec_def)
    then show "wp (h e) (\<lambda>x c'. ctl_moves b c c' \<and> P x) (\<lambda>e c'. ctl_moves b c c' \<and> E e) c1"
      by (rule wp_mono) (use m ctl_moves_trans in blast)+
  qed simp
qed

lemma spec_weaken:
  "act_spec b w P E a \<Longrightarrow> (\<And>x. P x \<Longrightarrow> Q x) \<Longrightarrow> (\<And>e. E e \<Longrightarrow> F e) \<Longrightarrow> act_spec b w Q F a"
  unfolding act_spec_def by (blast intro: wp_mono)

lemma spec_any: "act_spec b w P E a \<Longrightarrow> act_spec b w (\<lambda>_. True) E a"
  by (rule spec_weaken) simp_all

lemma spec_gateway:
  assumes "\<And>t. gateway_op (\<lambda>g. snd (f t g))" "\<And>t g. gw_inv g \<Longrightarrow> P (fst (f t g))"
  shows "act_spec b w P E (on_gateway w f)"
proof (rule act_specI)
  fix c :: ctl assume h: "others_follow (audit_world w)" "tl_inv (ct_log c)"
  define t where "t = w (ct_time c)"
  define s where "s = mo_others (tn_log t) False (ct_log c)"
  have m: "log_moves b (ct_log c) s" using others_move [OF h, of b "ct_time c" False] by (simp add: s_def t_def)
  have inv: "tl_inv s" by (rule log_moves_inv [OF m])
  have steps: "tl_step\<^sup>*\<^sup>* s (moved (snd (f t (tl_gateway s))) s)" using assms(1) inv by (simp add: gateway_op_def)
  then have "log_moves b s (moved (snd (f t (tl_gateway s))) s)"
    using logging.inv_steps inv by (simp add: log_moves_def)
  with m have "log_moves b (ct_log c) (moved (snd (f t (tl_gateway s))) s)" by (rule log_moves_trans)
  moreover have "P (fst (f t (tl_gateway s)))" using assms(2) inv by (simp add: tl_inv_def all_inv_def)
  ultimately show "wp (on_gateway w f) (\<lambda>x c'. ctl_moves b c c' \<and> P x) (\<lambda>e c'. ctl_moves b c c' \<and> E e) c"
    unfolding wp_turn ctl_moves_def by (simp add: Let_def t_def s_def)
qed

lemma spec_gateway_get: "(\<And>t g. gw_inv g \<Longrightarrow> P (f t g)) \<Longrightarrow> act_spec b w P E (on_gateway w (\<lambda>t g. (f t g, g)))"
  by (rule spec_gateway) (simp_all add: op_id)

lemma spec_asking [spec_rules]: "(\<And>n. P (f (w n))) \<Longrightarrow> act_spec b w P E (asking w f)"
proof (rule act_specI)
  fix c :: ctl assume p: "\<And>n. P (f (w n))" and h: "others_follow (audit_world w)" "tl_inv (ct_log c)"
  have "log_moves b (ct_log c) (mo_others (tn_log (w (ct_time c))) False (ct_log c))"
    using others_move [OF h, of b "ct_time c" False] by simp
  with p show "wp (asking w f) (\<lambda>x c'. ctl_moves b c c' \<and> P x) (\<lambda>e c'. ctl_moves b c c' \<and> E e) c"
    unfolding asking_def wp_turn ctl_moves_def by (simp add: Let_def moved_self)
qed

lemma spec_state [spec_rules]: "(\<And>st. P st) \<Longrightarrow> act_spec b w P E (gateway_state w)"
  unfolding gateway_state_def by (rule spec_gateway_get)

lemma spec_log:
  assumes "\<And>n s r n' s'. others_follow (audit_world w) \<Longrightarrow> tl_inv s \<Longrightarrow> f n s = Some (r, n', s') \<Longrightarrow>
    log_moves b s s' \<and> (case r of Inl e \<Rightarrow> E e | Inr x \<Rightarrow> P x)"
  shows "act_spec b w P E (on_log f)"
proof (rule act_specI)
  fix c :: ctl assume h: "others_follow (audit_world w)" "tl_inv (ct_log c)"
  show "wp (on_log f) (\<lambda>x c'. ctl_moves b c c' \<and> P x) (\<lambda>e c'. ctl_moves b c c' \<and> E e) c"
  proof (cases "f (ct_time c) (ct_log c)")
    case (Some y)
    obtain r n' s' where y: "y = (r, n', s')" by (metis surj_pair)
    from assms [OF h Some [unfolded y]] show ?thesis
      by (simp add: wp_def on_log_def ctl_moves_def Some y split: sum.splits)
  qed (simp add: wp_def on_log_def)
qed

end
