(* ===== verification/RuntimeController.thy ===== *)
theory RuntimeController
  imports Actions
begin

text \<open>
  The handlers of the runtime controller (\<^verbatim>\<open>agent_ros/runtime/controller.py\<close>): discovery, validation,
  arming, task runs and their monitor, cancellation, emergency stop, observation and shutdown, each as one action in the order of the code.
\<close>

section \<open>Errors\<close>

definition safety_error :: "string \<Rightarrow> py_exn" where
  "safety_error code =
     controller_error (if code = ''PROFILE_UNSUPPORTED'' then ''PROFILE_INVALID''
       else if code \<in> {''UNSAFE_STATE'', ''ESTOP_LATCHED'', ''OPERATOR_REQUIRED''} then code else ''UNSAFE_STATE'')"

abbreviation refuse_with :: "string \<Rightarrow> 'a act" where
  "refuse_with code \<equiv> fail_with (controller_error code)"

section \<open>Shared steps\<close>

definition append_record ::
  "world \<Rightarrow> audit_operation \<Rightarrow> transition \<Rightarrow> pydict option \<Rightarrow> audit_outcome \<Rightarrow> unit act" where
  "append_record w operation t data outcome =
     after (reading ct_timeout) (\<lambda>timeout. on_log (append_transition (audit_world w) timeout operation t data outcome))"

definition ensure_available :: "world \<Rightarrow> unit act" where
  "ensure_available w =
     after (asking w tn_marker) (\<lambda>marker.
     after (reading (\<lambda>c. (ct_cleanup_failed c, ct_quarantined c \<or> tl_quarantined (ct_log c)))) (\<lambda>(failed, quarantined).
     after (ensure (\<not> failed) ''CLEANUP_FAILED'') (\<lambda>_.
     ensure (\<not> (quarantined \<or> marker)) ''AUDIT_INTEGRITY_COMPROMISED'')))"

definition estop_gateway :: "world \<Rightarrow> (transition option \<times> stop_result) act" where
  "estop_gateway w = on_gateway w (\<lambda>t. gw_estop_attempt (mo_stops (tn_log t)))"

definition append_if :: "world \<Rightarrow> audit_operation \<Rightarrow> transition option \<Rightarrow> unit act" where
  "append_if w operation r = (case r of None \<Rightarrow> done_with () | Some t \<Rightarrow> append_record w operation t None OK)"

definition observe_state :: "world \<Rightarrow> unit act" where
  "observe_state w = after (gateway_state w) (\<lambda>st. update (\<lambda>c. c\<lparr>ct_observed := st\<rparr>))"

definition latch_adapter_fault :: "world \<Rightarrow> unit act" where
  "latch_adapter_fault w =
     after (estop_gateway w) (\<lambda>(t, _).
     after (append_if w ESTOP t) (\<lambda>_.
     after (observe_state w) (\<lambda>_.
     update (\<lambda>c. c\<lparr>ct_monitor_stop := True\<rparr>))))"

text \<open>\<^verbatim>\<open>_append_latest_gateway_fault\<close>: the first fault of a run that is not on record yet.\<close>

definition latest_fault :: "nat \<Rightarrow> gateway \<Rightarrow> transition option" where
  "latest_fault n g = find (\<lambda>t. tr_before t = RUNNING \<and> tr_after t = FAULTED) (transitions_from n g)"

definition append_latest_fault :: "world \<Rightarrow> unit act" where
  "append_latest_fault w =
     after (reading (tl_next \<circ> ct_log)) (\<lambda>n.
     after (on_gateway w (\<lambda>_ g. (latest_fault n g, g))) (\<lambda>r.
     case r of None \<Rightarrow> done_with () | Some t \<Rightarrow> append_record w HEARTBEAT t None FAULT))"

definition start_task_cleanup :: "world \<Rightarrow> unit act" where
  "start_task_cleanup w =
     after (reading ct_cleanup_started) (\<lambda>started.
     if started then done_with ()
     else after (update (\<lambda>c. c\<lparr>ct_cleanup_started := True\<rparr>)) (\<lambda>_.
       after (asking w tn_spawns) (\<lambda>spawns.
       if spawns then update (\<lambda>c. c\<lparr>ct_cleanups := Suc (ct_cleanups c)\<rparr>)
       else update (\<lambda>c. c\<lparr>ct_cleanup_failed := True\<rparr>))))"

definition freeze_evidence :: "world \<Rightarrow> unit act" where
  "freeze_evidence w =
     after (reading ct_task) (\<lambda>task.
     case task of None \<Rightarrow> done_with ()
     | Some t \<Rightarrow>
         if tp_evidence_sources t = [] then done_with ()
         else after (asking w tn_frozen) (\<lambda>answer.
           after (lift_result (capture_terminal_evidence answer (tp_evidence_sources t))) (\<lambda>snapshot.
           update (\<lambda>c. c\<lparr>ct_terminal := snapshot, ct_frozen := True\<rparr>))))"

definition hardware_safety_status :: "ctl \<Rightarrow> string" where
  "hardware_safety_status c =
     (if rp_mode (ct_profile c) \<noteq> ''hardware'' then ''simulation_only''
      else if ct_hw_verified c then ''verified'' else ''unverified'')"

abbreviation state_entry :: "safety_state \<Rightarrow> pyval \<times> pyval" where
  "state_entry st \<equiv> (VStr ''state'', VStr (state_value st))"

section \<open>Validation and arming\<close>

text \<open>The \<^verbatim>\<open>except\<close> clauses that end a handler: an adapter's error, a gateway's, any other.\<close>

definition adapter_guard :: "world \<Rightarrow> 'a act \<Rightarrow> 'a act" where
  "adapter_guard w a = catching a (\<lambda>e.
     case e of
       AdapterError code \<Rightarrow> after (latch_adapter_fault w) (\<lambda>_. refuse_with code)
     | SafetyError code \<Rightarrow> fail_with (safety_error code)
     | _ \<Rightarrow> after (latch_adapter_fault w) (\<lambda>_. refuse_with ''UNSAFE_STATE''))"

definition validate_adapter :: "world \<Rightarrow> robot_profile \<Rightarrow> transition act" where
  "validate_adapter w profile =
     after (asking w tn_call) (\<lambda>r. after (lift_result r) (\<lambda>_.
     after (asking w tn_call) (\<lambda>r. after (lift_result r) (\<lambda>_.
     after (reading (\<lambda>c. rp_mode profile = ''hardware'' \<and> (\<not> ct_estop_bound c \<or> ct_adapter c = DeliveryAdapter))) (\<lambda>bad.
     after (if bad then fail_with (AdapterError ''PROFILE_INVALID'') else done_with ()) (\<lambda>_.
     after (only_if (rp_mode profile = ''hardware'') (update (\<lambda>c. c\<lparr>ct_hw_verified := True\<rparr>))) (\<lambda>_.
     after (on_gateway w (\<lambda>_. gw_validate)) lift_result)))))))"

definition validate_profile :: "world \<Rightarrow> string \<Rightarrow> pydict act" where
  "validate_profile w name =
     after (ensure_available w) (\<lambda>_.
     after (reading ct_profile) (\<lambda>profile.
     after (ensure (rp_name profile = name) ''PROFILE_INVALID'') (\<lambda>_.
     after (adapter_guard w (validate_adapter w profile)) (\<lambda>t.
     after (append_record w VALIDATE t None OK) (\<lambda>_.
     after (gateway_state w) (\<lambda>st.
     reading (\<lambda>c. [(VStr ''profile'', VStr (rp_name profile)), state_entry st,
       (VStr ''hardware_safety_channel'', VStr (hardware_safety_status c))])))))))"

definition arm_gateway :: "world \<Rightarrow> pyval \<Rightarrow> transition option act" where
  "arm_gateway w challenge =
     after (reading ct_files) (\<lambda>files.
     after (on_gateway w (\<lambda>t g. (let (r, files', g') = gw_arm (tn_digest t) (tn_os t) (tn_clock t) challenge files g in ((r, files'), g'))))
       (\<lambda>(r, files'). after (update (\<lambda>c. c\<lparr>ct_files := files'\<rparr>)) (\<lambda>_. lift_result r)))"

definition arm_adapter :: "world \<Rightarrow> robot_profile \<Rightarrow> pyval \<Rightarrow> transition option act" where
  "arm_adapter w profile challenge =
     catching
       (after (asking w tn_call) (\<lambda>r. after (lift_result r) (\<lambda>_.
        after (reading (\<lambda>c. rp_mode profile = ''hardware'' \<and> \<not> ct_estop_bound c)) (\<lambda>bad.
        after (if bad then fail_with (AdapterError ''PROFILE_INVALID'') else done_with ()) (\<lambda>_.
        arm_gateway w challenge)))))
       (\<lambda>e. case e of
          AdapterError code \<Rightarrow> after (latch_adapter_fault w) (\<lambda>_. refuse_with code)
        | SafetyError code \<Rightarrow> fail_with (safety_error code)
        | _ \<Rightarrow> fail_with e)"

definition arm_robot :: "world \<Rightarrow> string \<Rightarrow> pyval \<Rightarrow> bool \<Rightarrow> pydict act" where
  "arm_robot w name challenge dry_run =
     after (ensure_available w) (\<lambda>_.
     after (reading ct_profile) (\<lambda>profile.
     after (ensure (rp_name profile = name) ''PROFILE_INVALID'') (\<lambda>_.
     after (gateway_state w) (\<lambda>st.
     after (ensure (st \<in> {VALIDATED, ARMED}) ''UNSAFE_STATE'') (\<lambda>_.
     if dry_run then after (gateway_state w) (\<lambda>st.
       done_with [(VStr ''dry_run'', VBool True), (VStr ''profile'', VStr (rp_name profile)), state_entry st])
     else
       after (arm_adapter w profile challenge) (\<lambda>t.
       after (append_if w ARM t) (\<lambda>_.
       after (gateway_state w) (\<lambda>st.
       done_with [(VStr ''profile'', VStr (rp_name profile)), state_entry st]))))))))"

section \<open>Running a task\<close>

definition load_compatible_task :: "profile_store \<Rightarrow> robot_profile \<Rightarrow> string \<Rightarrow> task_profile result" where
  "load_compatible_task store profile name =
     (case load_task_profile store name of
        Inl e \<Rightarrow> Raise (if e = ProfileValidationError then controller_error ''PROFILE_INVALID'' else e)
      | Inr task \<Rightarrow>
          if tp_robot_profile task = rp_name profile \<and>
             set (tp_required_sensors task) \<subseteq> set (rp_observation_sources profile) \<and>
             set (tp_evidence_sources task) \<subseteq> set (rp_observation_sources profile)
          then Ret task else Raise (controller_error ''PROFILE_INVALID''))"

definition no_motion :: motion_request where
  "no_motion = \<lparr>mr_linear_velocity = VFloat (Fin 0), mr_angular_velocity = VFloat (Fin 0),
     mr_linear_acceleration = VFloat (Fin 0), mr_angular_acceleration = VFloat (Fin 0)\<rparr>"

definition HOSPITAL_WALL_LIVENESS_TIMEOUT :: rat where "HOSPITAL_WALL_LIVENESS_TIMEOUT = 600"

definition task_entry :: "task_profile \<Rightarrow> pyval \<times> pyval" where
  "task_entry task = (VStr ''task'', VStr (tp_name task))"

definition issue_permit :: "world \<Rightarrow> unit act" where
  "issue_permit w =
     after (asking w tn_issue) (\<lambda>r. case r of Inr _ \<Rightarrow> done_with ()
       | Inl (ActivationRejected code) \<Rightarrow> refuse_with code | Inl e \<Rightarrow> fail_with e)"

text \<open>\<^verbatim>\<open>gateway.start_task\<close>, then its record.\<close>

definition begin_run :: "world \<Rightarrow> task_profile \<Rightarrow> unit act" where
  "begin_run w task =
     catching
       (after (on_gateway w (\<lambda>t. gw_start_task no_motion (tn_clock t) (tn_spawns t))) (\<lambda>r.
        after (lift_result r) (\<lambda>t. append_record w START_TASK t (Some [task_entry task]) OK)))
       (\<lambda>e. case e of SafetyError code \<Rightarrow> fail_with (safety_error code) | _ \<Rightarrow> fail_with e)"

text \<open>The permit is no longer current, or the gateway not running.\<close>

definition activation_lost :: "world \<Rightarrow> bool act" where
  "activation_lost w =
     after (asking w tn_current) (\<lambda>current.
     after (gateway_state w) (\<lambda>st. done_with (\<not> current \<or> st \<noteq> RUNNING)))"

definition refuse_lost :: "world \<Rightarrow> unit act" where
  "refuse_lost w = after (activation_lost w) (\<lambda>lost.
     only_if lost (after (start_task_cleanup w) (\<lambda>_. refuse_with ''ESTOP_LATCHED'')))"

definition beat_gateway :: "world \<Rightarrow> transition result act" where
  "beat_gateway w = on_gateway w (\<lambda>t. gw_heartbeat (tn_clock t) (mo_stops (tn_log t)))"

definition heartbeat_record :: "world \<Rightarrow> unit act" where
  "heartbeat_record w = after (beat_gateway w) (\<lambda>r. after (lift_result r) (\<lambda>t. append_record w HEARTBEAT t None OK))"

text \<open>What the handlers of a running task do with an exception.\<close>

definition safety_fault :: "world \<Rightarrow> string \<Rightarrow> 'a act" where
  "safety_fault w code =
     after (append_latest_fault w) (\<lambda>_. after (latch_adapter_fault w) (\<lambda>_. fail_with (safety_error code)))"

definition activate :: "world \<Rightarrow> adapter_status act" where
  "activate w =
     catching
       (after (asking w tn_status) (\<lambda>r. after (lift_result r) (\<lambda>status.
        after (refuse_lost w) (\<lambda>_. after (heartbeat_record w) (\<lambda>_. done_with status)))))
       (\<lambda>e. case e of
          RuntimeControllerError code \<Rightarrow> after (latch_adapter_fault w) (\<lambda>_. fail_with e)
        | AdapterError code \<Rightarrow> after (latch_adapter_fault w) (\<lambda>_. refuse_with code)
        | SafetyError code \<Rightarrow> safety_fault w code
        | _ \<Rightarrow> after (latch_adapter_fault w) (\<lambda>_. refuse_with ''UNSAFE_STATE''))"

definition enter_task :: "world \<Rightarrow> task_profile \<Rightarrow> adapter_status \<Rightarrow> unit act" where
  "enter_task w task status =
     after (asking w tn_clock) (\<lambda>now.
     after (gateway_state w) (\<lambda>st.
     update (\<lambda>c. c\<lparr>ct_task := Some task, ct_status := Some status, ct_cancel_requested := False, ct_stage := 0,
       ct_deadline := Some (fadd now (Fin (if ct_adapter c = CaseAdapter then HOSPITAL_WALL_LIVENESS_TIMEOUT
         else ts_timeout (tp_stages task ! 0)))),
       ct_observed := st, ct_cleanup_started := False, ct_terminal := [], ct_frozen := False\<rparr>)))"

definition start_monitor :: "world \<Rightarrow> unit act" where
  "start_monitor w =
     catching
       (after (update (\<lambda>c. c\<lparr>ct_monitor_stop := False\<rparr>)) (\<lambda>_.
        after (asking w tn_spawns) (\<lambda>spawns.
        if spawns then update (\<lambda>c. c\<lparr>ct_monitor := True\<rparr>) else fail_with PyRuntimeError)))
       (\<lambda>e. after (latch_adapter_fault w) (\<lambda>_. refuse_with ''UNSAFE_STATE''))"

definition run_task :: "world \<Rightarrow> profile_store \<Rightarrow> string \<Rightarrow> bool \<Rightarrow> pydict act" where
  "run_task w store name dry_run =
     after (ensure_available w) (\<lambda>_.
     after (reading ct_profile) (\<lambda>profile.
     after (gateway_state w) (\<lambda>st.
     after (ensure (st = ARMED) ''UNSAFE_STATE'') (\<lambda>_.
     after (lift_result (load_compatible_task store profile name)) (\<lambda>task.
     if dry_run then
       done_with [(VStr ''dry_run'', VBool True), (VStr ''profile'', VStr (rp_name profile)), task_entry task]
     else
       after (issue_permit w) (\<lambda>_.
       after (begin_run w task) (\<lambda>_.
       after (activate w) (\<lambda>status.
       after (refuse_lost w) (\<lambda>_.
       after (enter_task w task status) (\<lambda>_.
       after (start_monitor w) (\<lambda>_.
       after (gateway_state w) (\<lambda>st. done_with [state_entry st, task_entry task]))))))))))))"

section \<open>Status, cancellation and emergency stop\<close>

definition status_elapsed :: "pydict \<Rightarrow> pydict result" where
  "status_elapsed values =
     (let v = vget values ''elapsed'' in
      if \<not> is_number v then Ret []
      else rbind (py_float v) (\<lambda>x. Ret (if is_fin x \<and> fle (Fin 0) x then [(VStr ''elapsed'', VFloat x)] else [])))"

definition status_stage :: "pydict \<Rightarrow> pydict" where
  "status_stage values = (case vget values ''stage_index'' of
     VInt n \<Rightarrow> if 0 \<le> n then [(VStr ''stage_index'', VInt n)] else [] | _ \<Rightarrow> [])"

definition opt_str :: "string option \<Rightarrow> pyval" where
  "opt_str r = (case r of None \<Rightarrow> VNone | Some s \<Rightarrow> VStr s)"

definition task_status :: "world \<Rightarrow> pydict act" where
  "task_status w =
     after (ensure_available w) (\<lambda>_.
     after (gateway_state w) (\<lambda>st.
     after (reading (\<lambda>c. ([state_entry st, (VStr ''task'', opt_str (map_option tp_name (ct_task c))),
         (VStr ''hardware_safety_channel'', VStr (hardware_safety_status c))], ct_status c))) (\<lambda>(base, status).
     case status of None \<Rightarrow> done_with base
     | Some s \<Rightarrow> after (lift_result (status_elapsed (as_values s))) (\<lambda>elapsed.
         done_with (base @ [(VStr ''adapter_state'', VStr (as_state s)), (VStr ''code'', opt_str (as_code s))] @
           elapsed @ status_stage (as_values s))))))"

definition cancel_gateway :: "world \<Rightarrow> transition act" where
  "cancel_gateway w = after (on_gateway w (\<lambda>t. gw_cancel (mo_stops (tn_log t)))) lift_result"

definition cancel_adapter :: "world \<Rightarrow> (adapter_status \<times> transition option) act" where
  "cancel_adapter w =
     catching
       (after (asking w tn_status) (\<lambda>r. after (lift_result r) (\<lambda>status.
        after (gateway_state w) (\<lambda>st.
        after (ensure (st = RUNNING) ''ESTOP_LATCHED'') (\<lambda>_.
        if as_state status = ''faulted'' then after (latch_adapter_fault w) (\<lambda>_. refuse_with ''UNSAFE_STATE'')
        else if as_state status = ''cancelled'' then after (cancel_gateway w) (\<lambda>t. done_with (status, Some t))
        else done_with (status, None))))))
       (\<lambda>e. case e of
          AdapterError code \<Rightarrow> after (latch_adapter_fault w) (\<lambda>_. refuse_with code)
        | SafetyError code \<Rightarrow> after (latch_adapter_fault w) (\<lambda>_. fail_with (safety_error code))
        | RuntimeControllerError code \<Rightarrow> fail_with e
        | _ \<Rightarrow> after (latch_adapter_fault w) (\<lambda>_. refuse_with ''UNSAFE_STATE''))"

definition cancel_task :: "world \<Rightarrow> pydict act" where
  "cancel_task w =
     after (ensure_available w) (\<lambda>_.
     after (gateway_state w) (\<lambda>st.
     after (ensure (st = RUNNING) ''UNSAFE_STATE'') (\<lambda>_.
     after (cancel_adapter w) (\<lambda>(status, t).
     after (gateway_state w) (\<lambda>st.
     after (update (\<lambda>c. c\<lparr>ct_cancel_requested := (as_state status = ''cancelling''), ct_observed := st,
       ct_monitor_stop := (as_state status = ''cancelled'' \<or> ct_monitor_stop c)\<rparr>)) (\<lambda>_.
     after (append_if w CANCEL t) (\<lambda>_.
     after (gateway_state w) (\<lambda>st.
     done_with [state_entry st, (VStr ''adapter_state'', VStr (as_state status))]))))))))"

definition emergency_stop :: "world \<Rightarrow> pydict act" where
  "emergency_stop w =
     after (ensure_available w) (\<lambda>_.
     after (estop_gateway w) (\<lambda>(t, result).
     after (append_if w ESTOP t) (\<lambda>_.
     after (ensure (successful result) ''UNSAFE_STATE'') (\<lambda>_.
     after (observe_state w) (\<lambda>_.
     after (update (\<lambda>c. c\<lparr>ct_monitor_stop := True\<rparr>)) (\<lambda>_.
     after (gateway_state w) (\<lambda>st. done_with [state_entry st])))))))"

text \<open>The callback of the physical emergency stop registers its transition and does not wait for the drain.\<close>

definition register_record :: "world \<Rightarrow> audit_operation \<Rightarrow> transition \<Rightarrow> unit act" where
  "register_record w operation t = after (asking w (\<lambda>_. ())) (\<lambda>_.
     on_log (\<lambda>n s. let (r, s') = register_transition operation t None OK s in Some (r, n, s')))"

definition physical_estop :: "world \<Rightarrow> bool \<Rightarrow> unit act" where
  "physical_estop w asserted = only_if asserted
     (after (estop_gateway w) (\<lambda>(t, result).
     catching
       (after (case t of None \<Rightarrow> done_with () | Some t \<Rightarrow> register_record w ESTOP t) (\<lambda>_.
        after (only_if (\<not> successful result) (update (\<lambda>c. c\<lparr>ct_quarantined := True\<rparr>))) (\<lambda>_.
        observe_state w)))
       (\<lambda>e. case e of RuntimeControllerError _ \<Rightarrow> done_with () | _ \<Rightarrow> fail_with e)))"

definition observe_source :: "world \<Rightarrow> string \<Rightarrow> observed act" where
  "observe_source w source =
     after (ensure_available w) (\<lambda>_.
     after (reading (\<lambda>c. if ct_frozen c then dget (ct_terminal c) source else None)) (\<lambda>frozen.
     case frozen of Some ob \<Rightarrow> done_with (Observed ob)
     | None \<Rightarrow>
         after (reading (\<lambda>c. source \<in> set (rp_observation_sources (ct_profile c)))) (\<lambda>known.
         after (ensure known ''PROFILE_INVALID'') (\<lambda>_.
         after (asking w tn_observe) (\<lambda>r.
         case r of Inr ob \<Rightarrow> done_with ob
         | Inl (AdapterError code) \<Rightarrow> refuse_with code
         | Inl _ \<Rightarrow> refuse_with ''UNSAFE_STATE'')))))"

section \<open>The monitor\<close>

text \<open>The mission's budget in simulation time: elapsed time and completion times are finite and in order, no stage and not the whole
  takes longer than its timeouts allow. A number too large for a float raises.\<close>

definition budget_number :: "pyval \<Rightarrow> rat option result" where
  "budget_number v =
     (if \<not> is_number v then Ret None
      else rbind (py_float v) (\<lambda>x. Ret (case x of Fin r \<Rightarrow> Some r | _ \<Rightarrow> None)))"

fun budget_stages :: "rat \<Rightarrow> task_stage list \<Rightarrow> pyval list \<Rightarrow> rat \<Rightarrow> (string + rat) result" where
  "budget_stages elapsed stages [] previous = Ret (Inr previous)"
| "budget_stages elapsed stages (result # results) previous =
     (case result of
        VDict d \<Rightarrow>
          rbind (budget_number (vget d ''elapsed'')) (\<lambda>r. case r of None \<Rightarrow> Ret (Inl ''UNSAFE_STATE'')
            | Some completed \<Rightarrow>
                if completed \<le> previous \<or> elapsed < completed then Ret (Inl ''UNSAFE_STATE'')
                else (case stages of [] \<Rightarrow> Raise PyIndexError
                  | stage # stages' \<Rightarrow>
                      if flt (Fin (ts_timeout stage)) (fsub (Fin completed) (Fin previous)) then Ret (Inl ''TIMEOUT'')
                      else budget_stages elapsed stages' results completed))
      | _ \<Rightarrow> Ret (Inl ''UNSAFE_STATE''))"

definition total_timeout :: "task_stage list \<Rightarrow> pyfloat" where
  "total_timeout stages = foldl (\<lambda>t s. fadd t (Fin (ts_timeout s))) (Fin 0) stages"

definition hospital_budget_error :: "adapter_status \<Rightarrow> task_profile option \<Rightarrow> string option result" where
  "hospital_budget_error status task =
     (if as_state status \<in> {''starting'', ''idle''} then Ret None
      else case task of None \<Rightarrow> Ret (Some ''UNSAFE_STATE'')
      | Some t \<Rightarrow>
          rbind (budget_number (vget (as_values status) ''elapsed'')) (\<lambda>e. case e of None \<Rightarrow> Ret (Some ''UNSAFE_STATE'')
          | Some elapsed \<Rightarrow>
              (case vget (as_values status) ''stage_results'' of
                 VList results \<Rightarrow>
                   if elapsed < 0 \<or> length (tp_stages t) < length results then Ret (Some ''UNSAFE_STATE'')
                   else rbind (budget_stages elapsed (tp_stages t) results 0) (\<lambda>r. case r of
                       Inl code \<Rightarrow> Ret (Some code)
                     | Inr previous \<Rightarrow>
                         if flt (total_timeout (tp_stages t)) (Fin elapsed) then Ret (Some ''TIMEOUT'')
                         else if length results < length (tp_stages t) \<and>
                           flt (Fin (ts_timeout (tp_stages t ! length results))) (fsub (Fin elapsed) (Fin previous))
                         then Ret (Some ''TIMEOUT'') else Ret None)
               | _ \<Rightarrow> Ret (Some ''UNSAFE_STATE''))))"

definition finish_succeeded_task :: "world \<Rightarrow> adapter_status \<Rightarrow> adapter_status act" where
  "finish_succeeded_task w status =
     after (catching (freeze_evidence w) (\<lambda>e. case e of
         RuntimeControllerError _ \<Rightarrow> after (latch_adapter_fault w) (\<lambda>_. after (start_task_cleanup w) (\<lambda>_. fail_with e))
       | _ \<Rightarrow> fail_with e)) (\<lambda>_.
     after (start_task_cleanup w) (\<lambda>_.
     after (cancel_gateway w) (\<lambda>t.
     after (append_record w CANCEL t None OK) (\<lambda>_.
     after (observe_state w) (\<lambda>_.
     after (update (\<lambda>c. c\<lparr>ct_monitor_stop := True\<rparr>)) (\<lambda>_. done_with status))))))"

definition next_stage :: "world \<Rightarrow> task_profile \<Rightarrow> unit act" where
  "next_stage w task =
     after (update (\<lambda>c. c\<lparr>ct_stage := Suc (ct_stage c)\<rparr>)) (\<lambda>_.
     after (reading ct_stage) (\<lambda>i.
     after (issue_permit w) (\<lambda>_.
     after (asking w tn_status) (\<lambda>r. after (lift_result r) (\<lambda>_.
     after (refuse_lost w) (\<lambda>_.
     after (asking w tn_clock) (\<lambda>now.
     update (\<lambda>c. c\<lparr>ct_deadline := Some (fadd now (Fin (ts_timeout (tp_stages task ! i))))\<rparr>))))))))"

text \<open>Whether the last statement of the poll, the heartbeat, is still to come.\<close>

definition poll_success :: "world \<Rightarrow> adapter_status \<Rightarrow> bool act" where
  "poll_success w status =
     after (reading (\<lambda>c. (ct_task c, ct_adapter c, ct_stage c))) (\<lambda>(task, kind, i).
     case task of None \<Rightarrow> done_with True
     | Some t \<Rightarrow>
         if as_state status \<noteq> ''succeeded'' then done_with True
         else if kind = CaseAdapter \<or> \<not> Suc i < length (tp_stages t)
         then after (finish_succeeded_task w status) (\<lambda>_. done_with False)
         else after (next_stage w t) (\<lambda>_. done_with True))"

definition poll_body :: "world \<Rightarrow> adapter_status act" where
  "poll_body w =
     after (asking w tn_status) (\<lambda>r. after (lift_result r) (\<lambda>status.
     after (update (\<lambda>c. c\<lparr>ct_status := Some status\<rparr>)) (\<lambda>_.
     after (reading (\<lambda>c. if ct_adapter c = CaseAdapter then hospital_budget_error status (ct_task c) else Ret None)) (\<lambda>r.
     after (lift_result r) (\<lambda>budget_error.
     after (case budget_error of None \<Rightarrow> done_with ()
       | Some code \<Rightarrow> after (latch_adapter_fault w) (\<lambda>_. refuse_with code)) (\<lambda>_.
     after (gateway_state w) (\<lambda>st.
     if st \<noteq> RUNNING then done_with status
     else after (reading ct_cancel_requested) (\<lambda>requested.
       if as_state status = ''cancelled'' \<and> requested then
         after (cancel_gateway w) (\<lambda>t.
         after (append_record w CANCEL t None OK) (\<lambda>_.
         after (observe_state w) (\<lambda>_.
         after (update (\<lambda>c. c\<lparr>ct_monitor_stop := True\<rparr>)) (\<lambda>_. done_with status))))
       else if as_state status \<in> {''failed'', ''faulted'', ''rejected'', ''cancelled''} then
         after (latch_adapter_fault w) (\<lambda>_. refuse_with ''UNSAFE_STATE'')
       else
         after (poll_success w status) (\<lambda>beats.
         after (gateway_state w) (\<lambda>st.
         after (only_if (beats \<and> st = RUNNING) (heartbeat_record w)) (\<lambda>_. done_with status)))))))))))"

definition poll_running :: "world \<Rightarrow> adapter_status act" where
  "poll_running w =
     after (reading ct_deadline) (\<lambda>deadline.
     after (asking w tn_clock) (\<lambda>now.
     after (only_if (case deadline of None \<Rightarrow> False | Some d \<Rightarrow> flt d now)
       (after (latch_adapter_fault w) (\<lambda>_. refuse_with ''TIMEOUT''))) (\<lambda>_.
     catching (poll_body w) (\<lambda>e. case e of
         AdapterError code \<Rightarrow> after (latch_adapter_fault w) (\<lambda>_. refuse_with code)
       | SafetyError code \<Rightarrow> safety_fault w code
       | RuntimeControllerError _ \<Rightarrow> fail_with e
       | _ \<Rightarrow> after (latch_adapter_fault w) (\<lambda>_. refuse_with ''UNSAFE_STATE'')))))"

text \<open>One turn of the monitor, after its wait: whether it goes on.\<close>

definition monitor_turn :: "world \<Rightarrow> bool act" where
  "monitor_turn w =
     after (gateway_state w) (\<lambda>st.
     after (reading (\<lambda>c. st = FAULTED \<and> ct_observed c = RUNNING)) (\<lambda>audit_fault.
     after (only_if (st = FAULTED) (update (\<lambda>c. c\<lparr>ct_observed := FAULTED\<rparr>))) (\<lambda>_.
     if st \<noteq> FAULTED \<and> st \<noteq> RUNNING then
       catching (after (reading ct_timeout) (\<lambda>timeout.
          after (on_log (drain_pending (audit_world w) None timeout)) (\<lambda>_. done_with False)))
         (\<lambda>e. case e of RuntimeControllerError _ \<Rightarrow> done_with False | _ \<Rightarrow> fail_with e)
     else if audit_fault then
       catching (after (append_latest_fault w) (\<lambda>_. done_with False))
         (\<lambda>e. case e of RuntimeControllerError _ \<Rightarrow> done_with False | _ \<Rightarrow> fail_with e)
     else
       catching (after (poll_running w) (\<lambda>_. done_with True))
         (\<lambda>e. case e of RuntimeControllerError _ \<Rightarrow> done_with False | _ \<Rightarrow> fail_with e))))"

section \<open>Shutdown\<close>

definition stop_gateway :: "world \<Rightarrow> bool act" where
  "stop_gateway w =
     after (gateway_state w) (\<lambda>st.
     if st \<noteq> RUNNING \<and> st \<noteq> ESTOPPED then done_with False
     else
       after (gateway_state w) (\<lambda>st.
       after (estop_gateway w) (\<lambda>(t, result).
       after (case t of None \<Rightarrow> done_with () | Some t \<Rightarrow> register_record w ESTOP t) (\<lambda>_.
       after (start_task_cleanup w) (\<lambda>_.
       done_with (st = RUNNING \<and> \<not> successful result))))))"

definition drain_failed_within :: "world \<Rightarrow> pyfloat \<Rightarrow> bool act" where
  "drain_failed_within w deadline =
     catching
       (after (on_log (\<lambda>n. drain_pending (audit_world w) None (time_left deadline (audit_world w n)) n)) (\<lambda>_. done_with False))
       (\<lambda>e. case e of RuntimeControllerError _ \<Rightarrow> done_with True | _ \<Rightarrow> fail_with e)"

definition close_failed :: "bool result \<Rightarrow> bool" where
  "close_failed r = (case r of Inl _ \<Rightarrow> True | Inr b \<Rightarrow> \<not> b)"

definition stop_runtime :: "world \<Rightarrow> pydict act" where
  "stop_runtime w =
     after (reading ct_timeout) (\<lambda>timeout.
     after (asking w (\<lambda>t. fadd (mo_clock (tn_log t)) timeout)) (\<lambda>deadline.
     after (update (\<lambda>c. c\<lparr>ct_monitor_stop := True\<rparr>)) (\<lambda>_.
     after (stop_gateway w) (\<lambda>unstopped.
     after (on_gateway w (\<lambda>t g. (tn_joined t, gw_close (mo_stops (tn_log t)) g))) (\<lambda>closed.
     after (gateway_state w) (\<lambda>st.
     after (drain_failed_within w deadline) (\<lambda>undrained.
     after (reading (\<lambda>c. 0 < ct_cleanups c \<or> ct_monitor c)) (\<lambda>threads.
     after (asking w tn_joined) (\<lambda>joined.
     after (reading ct_cleanup_failed) (\<lambda>unstarted.
     after (drain_failed_within w deadline) (\<lambda>undrained2.
     after (asking w tn_joined) (\<lambda>audit_closed.
     after (asking w tn_closes) (\<lambda>adapter.
     after (asking w tn_factory_closes) (\<lambda>factory.
     after (ensure (\<not> (unstopped \<or> \<not> closed \<or> undrained \<or> threads \<and> \<not> joined \<or> unstarted \<or> undrained2 \<or> \<not> audit_closed \<or>
         close_failed adapter \<or> (case factory of None \<Rightarrow> False | Some r \<Rightarrow> close_failed r))) ''CLEANUP_FAILED'') (\<lambda>_.
     done_with [state_entry st])))))))))))))))"

section \<open>Discovery\<close>

text \<open>A runtime that has not discovered its robot; a discovery makes it active once the adapter and the gateway exist.\<close>

record fresh =
  fr_timeout :: pyfloat
  fr_files :: challenge_files
  fr_quarantined :: bool
  fr_cleanup_failed :: bool

record discovery_calls =
  dc_names :: "string list result"
  dc_store :: profile_store
  dc_probe :: "graph_snapshot result"
  dc_factory :: "adapter_kind option result"
  dc_available :: "(bool \<times> string list) result"
  dc_channel :: "unit result"
  dc_close :: "bool result"

definition only_robot_profile_name :: "string list result \<Rightarrow> string result" where
  "only_robot_profile_name names = (case names of
     Inl e \<Rightarrow> Raise (if e = PyOSError then controller_error ''PROFILE_INVALID'' else e)
   | Inr ns \<Rightarrow> (case ns of [n] \<Rightarrow> Ret n | _ \<Rightarrow> Raise (controller_error ''PROFILE_INVALID'')))"

definition make_adapter :: "adapter_kind option result \<Rightarrow> adapter_kind result" where
  "make_adapter r = (case r of
     Inl (AdapterError code) \<Rightarrow> Raise (controller_error code)
   | Inl _ \<Rightarrow> Raise (controller_error ''PROFILE_INVALID'')
   | Inr None \<Rightarrow> Raise (controller_error ''PROFILE_INVALID'')
   | Inr (Some k) \<Rightarrow> Ret k)"

text \<open>The sealed hospital case: the profile's command and odometry are taken as offered unless the graph contradicts them.\<close>

definition with_topic :: "interface_ref \<Rightarrow> types_map result \<Rightarrow> types_map result" where
  "with_topic i r = rbind r (\<lambda>types.
     case if_topic i of None \<Rightarrow> Raise PyAssertionError
     | Some topic \<Rightarrow> (case dget types topic of
         None \<Rightarrow> Ret (types @ [(topic, [if_type i])])
       | Some live \<Rightarrow> if if_type i \<in> set live then Ret types else Raise (controller_error ''PROFILE_INVALID'')))"

definition sealed_hospital_discovery ::
  "(bool \<times> string list) result \<Rightarrow> robot_profile \<Rightarrow> discovery_report \<Rightarrow> discovery_report result" where
  "sealed_hospital_discovery answer profile report =
     rbind answer (\<lambda>(available, capabilities).
     if \<not> available \<or> ''hospital.delivery'' \<notin> set capabilities then Raise (controller_error ''UNSAFE_STATE'')
     else case (ri_command (rp_interfaces profile), ri_odometry (rp_interfaces profile)) of
       (Some command, Some odometry) \<Rightarrow>
         rbind (with_topic odometry (with_topic command (Ret (dr_topic_types report)))) (\<lambda>types.
         Ret (report\<lparr>dr_capabilities := dr_capabilities report @
             (if ''mobile_base.twist'' \<in> set (capability_names report) then []
              else [mk_capability ''mobile_base.twist''
                [''sealed:hospital_delivery'', the (if_topic command), the (if_topic odometry)]]),
           dr_warnings := dr_warnings report @ [''sealed hospital lifecycle/profile composition''],
           dr_topic_types := types\<rparr>))
     | _ \<Rightarrow> Raise (controller_error ''PROFILE_INVALID''))"

text \<open>The first \<^verbatim>\<open>try\<close> of the discovery: its result, and whether an adapter exists by then.\<close>

definition prepare_discovery ::
  "(pyfloat \<Rightarrow> string) \<Rightarrow> discovery_calls \<Rightarrow> string \<Rightarrow> bool \<times> (robot_profile \<times> adapter_kind \<times> discovery_report) result" where
  "prepare_discovery repr d name =
     (case load_robot_profile repr (dc_store d) name of Inl e \<Rightarrow> (False, Raise e) | Inr profile \<Rightarrow>
      case dc_probe d of Inl e \<Rightarrow> (False, Raise e) | Inr snapshot \<Rightarrow>
      case make_adapter (dc_factory d) of Inl e \<Rightarrow> (False, Raise e) | Inr kind \<Rightarrow>
      (True, rbind (if kind = CaseAdapter
          then sealed_hospital_discovery (dc_available d) profile (infer_capabilities snapshot)
          else Ret (infer_capabilities snapshot)) (\<lambda>report. Ret (profile, kind, report))))"

fun discovery_error :: "py_exn \<Rightarrow> py_exn" where
  "discovery_error ProfileValidationError = controller_error ''PROFILE_INVALID''"
| "discovery_error DiscoveryError = controller_error ''UNSAFE_STATE''"
| "discovery_error (RuntimeControllerError code) = RuntimeControllerError code"
| "discovery_error _ = controller_error ''UNSAFE_STATE''"

text \<open>A tentative adapter is closed before the error is raised; where that fails the runtime refuses everything from then on.\<close>

definition abandon :: "discovery_calls \<Rightarrow> bool \<Rightarrow> py_exn \<Rightarrow> fresh \<Rightarrow> py_exn \<times> fresh" where
  "abandon d adapter e s =
     (if adapter \<and> dc_close d \<noteq> Ret True then (controller_error ''CLEANUP_FAILED'', s\<lparr>fr_cleanup_failed := True\<rparr>) else (e, s))"

definition fresh_available :: "bool \<Rightarrow> fresh \<Rightarrow> unit result" where
  "fresh_available marker s =
     (if fr_cleanup_failed s then Raise (controller_error ''CLEANUP_FAILED'')
      else if fr_quarantined s \<or> marker then Raise (controller_error ''AUDIT_INTEGRITY_COMPROMISED'') else Ret ())"

definition activated :: "robot_profile \<Rightarrow> adapter_kind \<Rightarrow> fresh \<Rightarrow> ctl" where
  "activated profile kind s =
     \<lparr>ct_time = 0, ct_timeout = fr_timeout s, ct_log = log_init (gateway_init profile True), ct_profile = profile,
      ct_adapter = kind, ct_files = fr_files s, ct_task = None, ct_stage = 0, ct_deadline = None, ct_observed = NEW,
      ct_estop_bound = False, ct_hw_verified = False, ct_quarantined = fr_quarantined s, ct_cleanup_failed = fr_cleanup_failed s,
      ct_cleanup_started = False, ct_cleanups = 0, ct_cancel_requested = False, ct_status = None, ct_terminal = [],
      ct_frozen = False, ct_monitor = False, ct_monitor_stop = False\<rparr>"

definition open_session ::
  "(pyfloat \<Rightarrow> string) \<Rightarrow> discovery_calls \<Rightarrow> bool \<Rightarrow> string option \<Rightarrow> fresh \<Rightarrow> (discovery_report \<times> ctl) result \<times> fresh" where
  "open_session repr d marker hint s =
     (case fresh_available marker s of Inl e \<Rightarrow> (Raise e, s) | Inr _ \<Rightarrow>
      case (case hint of Some n \<Rightarrow> Ret n | None \<Rightarrow> only_robot_profile_name (dc_names d)) of Inl e \<Rightarrow> (Raise e, s) | Inr name \<Rightarrow>
      (let (adapter, r) = prepare_discovery repr d name in
       case r of
         Inl e \<Rightarrow> (let (e', s') = abandon d adapter (discovery_error e) s in (Raise e', s'))
       | Inr (profile, kind, report) \<Rightarrow>
           if dr_blocking_warnings report \<noteq> [] then
             (let (e', s') = abandon d True (controller_error ''CONTROLLER_CONFLICT'') s in (Raise e', s'))
           else if \<not> is_ret (dc_channel d) then
             (let (e', s') = abandon d True (controller_error ''PROFILE_INVALID'') s in (Raise e', s'))
           else (Ret (report, activated profile kind s), s)))"

text \<open>The rest of the discovery, on the active runtime.\<close>

definition bind_adapter :: "world \<Rightarrow> bool act" where
  "bind_adapter w =
     catching
       (after (asking w tn_call) (\<lambda>r. after (lift_result r) (\<lambda>_. after (asking w tn_bind) lift_result)))
       (\<lambda>e. after (latch_adapter_fault w) (\<lambda>_. refuse_with ''UNSAFE_STATE''))"

definition report_gateway :: "world \<Rightarrow> discovery_report \<Rightarrow> transition act" where
  "report_gateway w report =
     catching (after (on_gateway w (\<lambda>_. gw_discover (Some report))) lift_result)
       (\<lambda>e. case e of SafetyError code \<Rightarrow> fail_with (safety_error code) | _ \<Rightarrow> fail_with e)"

definition discover_gateway :: "world \<Rightarrow> discovery_report \<Rightarrow> pydict act" where
  "discover_gateway w report =
     after (bind_adapter w) (\<lambda>bound.
     after (update (\<lambda>c. c\<lparr>ct_estop_bound := bound\<rparr>)) (\<lambda>_.
     after (report_gateway w report) (\<lambda>t.
     after (append_record w DISCOVER t None OK) (\<lambda>_.
     after (observe_state w) (\<lambda>_.
     after (gateway_state w) (\<lambda>st.
     reading (\<lambda>c. [(VStr ''profile'', VStr (rp_name (ct_profile c))), state_entry st,
       (VStr ''capabilities'', VList (map VStr (capability_names report))),
       (VStr ''hardware_safety_channel'', VStr (hardware_safety_status c))])))))))"

end
