(* ===== verification/ControllerRules.thy ===== *)
theory ControllerRules
  imports RuntimeController
begin

text \<open>
  What every handler of the runtime controller keeps, as specifications of its steps: the log moves by
  steps of its machine, the records that are registered are ones the audit writer accepts, and
  what is raised carries a public code.
\<close>

section \<open>Transitions the gateway returns\<close>

definition plain_move :: "safety_state \<Rightarrow> safety_state \<Rightarrow> transition \<Rightarrow> bool" where
  "plain_move b a t \<longleftrightarrow> tr_before t = b \<and> tr_after t = a \<and> tr_stop t = None"

definition stop_move :: "safety_state \<Rightarrow> safety_state \<Rightarrow> transition \<Rightarrow> bool" where
  "stop_move b a t \<longleftrightarrow> tr_before t = b \<and> tr_after t = a \<and> (\<exists>r. tr_stop t = Some r \<and> sr_code r \<in> set STOP_CODES)"

lemma discover_move: "fst (gw_discover report g) = Ret t \<Longrightarrow> plain_move NEW DISCOVERED t"
  by (auto simp: gw_discover_def require_Inr do_transition_eq mk_transition_def plain_move_def split: sum.splits option.splits if_splits)

lemma validate_move:
  "fst (gw_validate g) = Ret t \<Longrightarrow> plain_move DISCOVERED ARMED t \<or> plain_move DISCOVERED VALIDATED t"
  by (auto simp: gw_validate_def require_Inr do_transition_eq mk_transition_def plain_move_def
      simp del: required_capability.simps split: sum.splits option.splits if_splits)

lemma arm_move: "fst (gw_arm digest os now challenge files g) = Ret (Some t) \<Longrightarrow> plain_move VALIDATED ARMED t"
  by (auto simp: gw_arm_def require_Inr do_transition_eq mk_transition_def plain_move_def Let_def
      split: sum.splits bool.splits if_splits prod.splits)

lemma start_move: "fst (gw_start_task m now spawns g) = Ret t \<Longrightarrow> plain_move ARMED RUNNING t"
  by (auto simp: gw_start_task_def require_Inr do_transition_eq mk_transition_def plain_move_def Let_def
      split: sum.splits prod.splits)

lemma heartbeat_move: "fst (gw_heartbeat now calls g) = Ret t \<Longrightarrow> plain_move RUNNING RUNNING t"
  by (auto simp: gw_heartbeat_def heartbeat_locked_def require_Inr do_transition_eq mk_transition_def plain_move_def Let_def
      split: sum.splits option.splits if_splits heartbeat_outcome.splits prod.splits)

lemma cancel_move: "fst (gw_cancel calls g) = Ret t \<Longrightarrow> stop_move RUNNING STOPPED t"
  using stop_repeatedly_wf [of calls]
  by (auto simp: gw_cancel_def cancel_locked_def require_Inr do_transition_eq mk_transition_def stop_move_def stop_wf_def Let_def record_stop_def
      split: sum.splits)

definition estop_move :: "transition \<Rightarrow> bool" where
  "estop_move t \<longleftrightarrow> tr_before t \<noteq> ESTOPPED \<and> stop_move (tr_before t) ESTOPPED t"

lemma estop_attempt_move: "fst (fst (gw_estop_attempt calls g)) = Some t \<Longrightarrow> estop_move t"
  using stop_repeatedly_wf [of calls]
  by (auto simp: gw_estop_attempt_def estop_locked_def do_transition_eq mk_transition_def stop_move_def estop_move_def stop_wf_def Let_def
      record_stop_def split: if_splits)

lemma latest_fault_move: "gw_inv g \<Longrightarrow> latest_fault n g = Some t \<Longrightarrow> stop_move RUNNING FAULTED t"
proof -
  assume a: "gw_inv g" "latest_fault n g = Some t"
  then have t: "tr_before t = RUNNING" "tr_after t = FAULTED" "t \<in> set (gw_history g)"
    by (auto simp: latest_fault_def find_Some_iff transitions_from_def) (metis filter_is_subset nth_mem subsetD)
  with a have "transition_ok (rp_mode (gw_profile g)) t"
    by (auto simp: gw_inv_def history_inv_def list_all_iff)
  with t show ?thesis by (cases "tr_stop t") (auto simp: transition_ok_def stop_move_def stop_wf_def)
qed

section \<open>Records the writer accepts\<close>

definition acceptable :: "audit_operation \<Rightarrow> transition \<Rightarrow> pydict option \<Rightarrow> audit_outcome \<Rightarrow> bool" where
  "acceptable operation t data outcome \<longleftrightarrow> (\<forall>data'. record_data t data = Ret data' \<longrightarrow>
     loggable \<lparr>it_operation = operation, it_transition = t, it_data = data', it_outcome = outcome\<rparr>)"

lemma plain_acceptable:
  assumes "plain_move b a t" "(b, a) \<in> set (success_transitions operation)" "operation \<notin> {START_TASK, CANCEL, ESTOP}"
  shows "acceptable operation t None OK"
  using assms by (auto simp: acceptable_def plain_move_def record_data_def loggable_def item_event_def validate_transition_def
      stop_required_def)

lemma start_acceptable:
  assumes "plain_move ARMED RUNNING t" "task_name_ok (tp_name task)"
  shows "acceptable START_TASK t (Some [task_entry task]) OK"
  using assms by (simp add: acceptable_def plain_move_def record_data_def loggable_def item_event_def validate_transition_def
      stop_required_def keys_within_def dkeys_def MOTION_KEYS_def motion_item_def task_entry_def)

lemma stop_code_result: "c \<in> set STOP_CODES \<Longrightarrow> c \<in> set STOP_RESULT_CODES"
  by (auto simp: STOP_CODES_def STOP_RESULT_CODES_def)

lemma stop_acceptable:
  assumes "stop_move b a t" "case outcome of OK \<Rightarrow> (b, a) \<in> set (success_transitions operation) \<and> operation \<in> {CANCEL, ESTOP}
    | FAULT \<Rightarrow> (b, a) = (RUNNING, FAULTED) \<and> operation = HEARTBEAT | REJECTED \<Rightarrow> False"
  shows "acceptable operation t None outcome"
  using assms stop_code_result
  by (cases outcome) (auto simp: acceptable_def stop_move_def record_data_def loggable_def item_event_def validate_transition_def
      stop_required_def stop_result_data_def stop_data_pairs)

lemma estop_acceptable: "estop_move t \<Longrightarrow> acceptable ESTOP t None OK"
  unfolding estop_move_def
  by (rule stop_acceptable [of "tr_before t" ESTOPPED]) (cases "tr_before t"; simp add: enum_safety_state_def)+

section \<open>Errors\<close>

definition public_error :: "py_exn \<Rightarrow> bool" where
  "public_error e \<longleftrightarrow> (\<exists>c \<in> set PUBLIC_CODES. e = RuntimeControllerError c)"

lemma public_controller [simp, intro]: "public_error (controller_error c)"
  by (simp add: public_error_def controller_error_def PUBLIC_CODES_def)

lemma public_safety [simp, intro]: "public_error (safety_error c)"
  by (simp add: safety_error_def)

text \<open>An error of the runtime controller, from wherever it comes, carries a public code: its constructor sees to it.\<close>

definition proper_exn :: "py_exn \<Rightarrow> bool" where
  "proper_exn e \<longleftrightarrow> (\<forall>c. e = RuntimeControllerError c \<longrightarrow> c \<in> set PUBLIC_CODES)"

lemma proper_public: "proper_exn (RuntimeControllerError c) \<Longrightarrow> public_error (RuntimeControllerError c)"
  by (simp add: proper_exn_def public_error_def)

lemma public_proper [simp]: "public_error e \<Longrightarrow> proper_exn e"
  by (auto simp: public_error_def proper_exn_def)

lemma proper_error [simp]: "(\<And>c. e \<noteq> RuntimeControllerError c) \<Longrightarrow> proper_exn e"
  by (simp add: proper_exn_def)

text \<open>Adapters raise neither the controller's nor the gateway's errors, and a permit is refused with the sequencer's.\<close>

definition proper_world :: "world \<Rightarrow> bool" where
  "proper_world w \<longleftrightarrow> (\<forall>n. (\<forall>code. tn_call (w n) \<noteq> Raise (RuntimeControllerError code) \<and>
       tn_status (w n) \<noteq> Raise (RuntimeControllerError code) \<and> tn_bind (w n) \<noteq> Raise (RuntimeControllerError code)) \<and>
     (\<forall>code. tn_status (w n) \<noteq> Raise (SafetyError code)) \<and>
     (\<forall>e. tn_issue (w n) = Raise e \<longrightarrow> (\<exists>code. e = ActivationRejected code)))"

lemma proper_worldD:
  assumes "proper_world w"
  shows "tn_call (w n) = Raise e \<Longrightarrow> proper_exn e" "tn_status (w n) = Raise e \<Longrightarrow> proper_exn e"
    "tn_bind (w n) = Raise e \<Longrightarrow> proper_exn e" "tn_issue (w n) = Raise e \<Longrightarrow> \<exists>code. e = ActivationRejected code"
    "tn_status (w n) = Raise e \<Longrightarrow> e \<noteq> SafetyError code \<and> e \<noteq> RuntimeControllerError code"
  using assms by (auto simp: proper_world_def proper_exn_def)

section \<open>The shared steps\<close>

lemma spec_append:
  assumes "b \<Longrightarrow> acceptable operation t data outcome" "P ()" "E (controller_error ''AUDIT_INTEGRITY_COMPROMISED'')"
  shows "act_spec b w P E (append_record w operation t data outcome)"
  unfolding append_record_def
proof (rule spec_after [OF spec_reading [where P = "\<lambda>_. True"]])
  fix timeout :: pyfloat
  show "act_spec b w P E (on_log (append_transition (audit_world w) timeout operation t data outcome))"
  proof (rule spec_log)
    fix n s r n' s'
    assume h: "others_follow (audit_world w)" "tl_inv s"
      "append_transition (audit_world w) timeout operation t data outcome n s = Some (r, n', s')"
    from append_transition_moves [OF h(3,1,2), of b] assms(1)
    have "log_moves b s s' \<and> (r \<noteq> Ret () \<longrightarrow> r = compromised)" by (simp add: acceptable_def)
    then show "log_moves b s s' \<and> (case r of Inl e \<Rightarrow> E e | Inr x \<Rightarrow> P x)" using assms(2,3) by (cases r) auto
  qed
qed simp

lemma spec_then: "act_spec b w (\<lambda>_. True) E a \<Longrightarrow> (\<And>x. act_spec b w Q E (f x)) \<Longrightarrow> act_spec b w Q E (after a f)"
  by (rule spec_after)

lemma spec_pair [spec_rules]: "(\<And>x y. p = (x, y) \<Longrightarrow> act_spec b w P E (f x y)) \<Longrightarrow> act_spec b w P E (case p of (x, y) \<Rightarrow> f x y)"
  by (simp split: prod.split)

lemma spec_option [spec_rules]:
  "(r = None \<Longrightarrow> act_spec b w P E a) \<Longrightarrow> (\<And>x. r = Some x \<Longrightarrow> act_spec b w P E (f x)) \<Longrightarrow>
    act_spec b w P E (case r of None \<Rightarrow> a | Some x \<Rightarrow> f x)"
  by (simp split: option.split)

lemma spec_available [spec_rules]: "P () \<Longrightarrow> (\<And>c. E (controller_error c)) \<Longrightarrow> act_spec b w P E (ensure_available w)"
  unfolding ensure_available_def by (intro spec_then spec_rules; simp)

lemma spec_estop: "(\<And>t r. (\<And>u. t = Some u \<Longrightarrow> estop_move u) \<Longrightarrow> P (t, r)) \<Longrightarrow> act_spec b w P E (estop_gateway w)"
  unfolding estop_gateway_def
  by (rule spec_gateway) (auto simp: op_estop dest: estop_attempt_move, metis estop_attempt_move prod.collapse)

lemma spec_append_if [spec_rules]:
  "(\<And>t. b \<Longrightarrow> r = Some t \<Longrightarrow> acceptable operation t None OK) \<Longrightarrow> P () \<Longrightarrow> (\<And>c. E (controller_error c)) \<Longrightarrow>
    act_spec b w P E (append_if w operation r)"
  unfolding append_if_def by (intro spec_rules spec_append; simp)

lemma spec_observe [spec_rules]: "P () \<Longrightarrow> act_spec b w P E (observe_state w)"
  unfolding observe_state_def by (intro spec_then spec_rules; simp)

lemma spec_latch [spec_rules]: "P () \<Longrightarrow> (\<And>c. E (controller_error c)) \<Longrightarrow> act_spec b w P E (latch_adapter_fault w)"
  unfolding latch_adapter_fault_def
  by (rule spec_after [OF spec_estop [where P = "\<lambda>(t, r). \<forall>u. t = Some u \<longrightarrow> estop_move u"]])
    (auto intro!: spec_then spec_rules simp: estop_acceptable)

lemma spec_latest_fault [spec_rules]: "P () \<Longrightarrow> (\<And>c. E (controller_error c)) \<Longrightarrow> act_spec b w P E (append_latest_fault w)"
  unfolding append_latest_fault_def
  by (intro spec_then spec_rules spec_after [OF spec_gateway_get [where P = "\<lambda>r. \<forall>t. r = Some t \<longrightarrow> stop_move RUNNING FAULTED t"]])
    (auto intro!: spec_rules spec_append stop_acceptable dest: latest_fault_move)

lemma spec_cleanup [spec_rules]: "P () \<Longrightarrow> act_spec b w P E (start_task_cleanup w)"
  unfolding start_task_cleanup_def by (intro spec_then spec_rules; simp)

lemma capture_public: "capture_terminal_evidence answer sources = Raise e \<Longrightarrow> public_error e"
  using capture_checked [of sources answer] by (simp add: public_error_def)

lemma spec_freeze [spec_rules]: "P () \<Longrightarrow> (\<And>e. public_error e \<Longrightarrow> E e) \<Longrightarrow> act_spec b w P E (freeze_evidence w)"
  unfolding freeze_evidence_def
  by (intro spec_then spec_rules) (simp_all add: capture_public)

lemma spec_refuse [spec_rules]: "(\<And>c. E (controller_error c)) \<Longrightarrow> act_spec b w P E (after (latch_adapter_fault w) (\<lambda>_. refuse_with code))"
  by (intro spec_then spec_rules; simp)

text \<open>The clauses of a handler.\<close>

lemma spec_exn [spec_rules]:
  "(\<And>c. e = AdapterError c \<Longrightarrow> act_spec b w P E (f c)) \<Longrightarrow> (\<And>c. e = SafetyError c \<Longrightarrow> act_spec b w P E (g c)) \<Longrightarrow>
   (\<And>c. e = RuntimeControllerError c \<Longrightarrow> act_spec b w P E (h c)) \<Longrightarrow>
   ((\<And>c. e \<noteq> RuntimeControllerError c) \<Longrightarrow> (\<And>c. e \<noteq> SafetyError c) \<Longrightarrow> (\<And>c. e \<noteq> AdapterError c) \<Longrightarrow> act_spec b w P E a) \<Longrightarrow>
   act_spec b w P E (case e of AdapterError c \<Rightarrow> f c | SafetyError c \<Rightarrow> g c | RuntimeControllerError c \<Rightarrow> h c | _ \<Rightarrow> a)"
  by (cases e) simp_all

section \<open>The handlers\<close>

text \<open>A call of the gateway whose error is raised at once.\<close>

lemma spec_call:
  assumes "\<And>t. gateway_op (\<lambda>g. snd (f t g))" "\<And>t g x. gw_inv g \<Longrightarrow> fst (f t g) = Ret x \<Longrightarrow> P x"
    "\<And>t g e. gw_inv g \<Longrightarrow> fst (f t g) = Raise e \<Longrightarrow> E e"
  shows "act_spec b w P E (after (on_gateway w f) lift_result)"
proof (rule spec_after)
  show "act_spec b w (\<lambda>r. case r of Inl e \<Rightarrow> E e | Inr x \<Rightarrow> P x) E (on_gateway w f)"
    by (rule spec_gateway [OF assms(1)]) (use assms(2,3) in \<open>auto split: sum.split\<close>)
  fix r :: "'a result" assume "case r of Inl e \<Rightarrow> E e | Inr x \<Rightarrow> P x"
  then show "act_spec b w P E (lift_result r)" by (auto intro!: spec_rules)
qed

abbreviation anything :: "'a \<Rightarrow> bool" where "anything \<equiv> \<lambda>_. True"

lemma spec_validate_adapter:
  "act_spec b w (\<lambda>t. plain_move DISCOVERED ARMED t \<or> plain_move DISCOVERED VALIDATED t) anything (validate_adapter w profile)"
  unfolding validate_adapter_def
  by (rule spec_call spec_then spec_rules op_validate | rule validate_move, assumption | simp)+

lemma spec_guard:
  "act_spec b w P (\<lambda>_. True) a \<Longrightarrow> (\<And>e. public_error e \<Longrightarrow> E e) \<Longrightarrow> act_spec b w P E (adapter_guard w a)"
  unfolding adapter_guard_def by (rule spec_catching [where E' = "\<lambda>_. True"], assumption) (rule spec_rules | simp)+

lemma spec_validate_profile: "act_spec True w (\<lambda>_. True) public_error (validate_profile w name)"
  unfolding validate_profile_def
  by (rule spec_after [OF spec_guard [OF spec_validate_adapter]] spec_then spec_append spec_rules
      | (elim disjE; rule plain_acceptable, assumption) | simp)+

lemma spec_arm_gateway: "act_spec b w (\<lambda>r. \<forall>t. r = Some t \<longrightarrow> plain_move VALIDATED ARMED t) anything (arm_gateway w challenge)"
  unfolding arm_gateway_def
proof (rule spec_then, rule spec_reading, rule TrueI, rule spec_after)
  fix files
  show "act_spec b w (\<lambda>(r, files'). \<forall>t. r = Ret (Some t) \<longrightarrow> plain_move VALIDATED ARMED t) anything
    (on_gateway w (\<lambda>t g. let (r, files', g') = gw_arm (tn_digest t) (tn_os t) (tn_clock t) challenge files g in ((r, files'), g')))"
  proof (rule spec_gateway)
    fix t
    have "snd (let (r, files', g') = gw_arm (tn_digest t) (tn_os t) (tn_clock t) challenge files g in ((r, files'), g')) =
        snd (snd (gw_arm (tn_digest t) (tn_os t) (tn_clock t) challenge files g))" for g
      by (simp add: Let_def split: prod.split)
    then show "gateway_op (\<lambda>g. snd (let (r, files', g') = gw_arm (tn_digest t) (tn_os t) (tn_clock t) challenge files g in ((r, files'), g')))"
      using op_arm by simp
    fix g
    show "case fst (let (r, files', g') = gw_arm (tn_digest t) (tn_os t) (tn_clock t) challenge files g in ((r, files'), g')) of
      (r, files') \<Rightarrow> \<forall>t. r = Ret (Some t) \<longrightarrow> plain_move VALIDATED ARMED t"
      using arm_move [of "tn_digest t" "tn_os t" "tn_clock t" challenge files g] by (simp add: Let_def split: prod.split)
  qed
  fix p :: "transition option result \<times> challenge_files"
  assume "case p of (r, files') \<Rightarrow> \<forall>t. r = Ret (Some t) \<longrightarrow> plain_move VALIDATED ARMED t"
  then show "act_spec b w (\<lambda>r. \<forall>t. r = Some t \<longrightarrow> plain_move VALIDATED ARMED t) anything
      (case p of (r, files') \<Rightarrow> after (update (ct_files_update (\<lambda>_. files'))) (\<lambda>_. lift_result r))"
    by (auto intro!: spec_then spec_rules)
qed

lemma spec_arm_adapter: "act_spec b w (\<lambda>r. \<forall>t. r = Some t \<longrightarrow> plain_move VALIDATED ARMED t) anything (arm_adapter w profile challenge)"
  unfolding arm_adapter_def
  by (rule spec_catching [where E' = anything] spec_arm_gateway spec_then spec_rules | simp)+

lemma spec_arm_robot: "act_spec True w anything anything (arm_robot w name challenge dry_run)"
  unfolding arm_robot_def
  by (rule spec_after [OF spec_arm_adapter] spec_then spec_rules | rule plain_acceptable, blast | simp)+

text \<open>A task that is loaded bears the name it is loaded by.\<close>

lemma loaded_task_name: "load_compatible_task store profile name = Ret task \<Longrightarrow> tp_name task = name \<and> profile_name_ok name"
  by (auto simp: load_compatible_task_def load_task_profile_def load_profile_def split: sum.splits if_splits yaml_read.splits)

definition run_error :: "profile_store \<Rightarrow> string \<Rightarrow> py_exn \<Rightarrow> bool" where
  "run_error store name e \<longleftrightarrow> public_error e \<or> load_task_profile store name = Raise e \<or> e = PyRuntimeError"

lemma run_public [simp]: "public_error e \<Longrightarrow> run_error store name e" by (simp add: run_error_def)

lemma load_error: "load_compatible_task store profile name = Raise e \<Longrightarrow> run_error store name e"
  by (auto simp: load_compatible_task_def run_error_def split: sum.splits if_splits)

lemma spec_issue: "proper_world w \<Longrightarrow> (\<And>e. public_error e \<Longrightarrow> E e) \<Longrightarrow> act_spec b w anything E (issue_permit w)"
  unfolding issue_permit_def
proof (rule spec_after [where P = "\<lambda>r. \<forall>e. r = Raise e \<longrightarrow> (\<exists>code. e = ActivationRejected code)"])
  assume w: "proper_world w" and E: "\<And>e. public_error e \<Longrightarrow> E e"
  show "act_spec b w (\<lambda>r. \<forall>e. r = Raise e \<longrightarrow> (\<exists>code. e = ActivationRejected code)) E (asking w tn_issue)"
    by (rule spec_asking) (use proper_worldD(4) [OF w] in blast)
  fix r :: "unit result" assume r: "\<forall>e. r = Raise e \<longrightarrow> (\<exists>code. e = ActivationRejected code)"
  show "act_spec b w anything E (case r of Inl (ActivationRejected code) \<Rightarrow> refuse_with code | Inl e \<Rightarrow> fail_with e | Inr _ \<Rightarrow> done_with ())"
    using r E by (cases r) (auto intro!: spec_rules)
qed

lemma start_error: "fst (gw_start_task no_motion now spawns g) = Raise e \<Longrightarrow> (\<exists>c. e = SafetyError c) \<or> e = PyRuntimeError"
proof -
  assume a: "fst (gw_start_task no_motion now spawns g) = Raise e"
  have l: "check_limits no_motion l \<in> {Ret (), unsafe ''MOTION_LIMIT''}" for l
    by (auto simp: check_limits_def no_motion_def check_limit_def py_isfinite_def)
  have "rbind (require_state ARMED g) (\<lambda>_. check_limits no_motion (rp_limits (gw_profile g))) = Raise e' \<Longrightarrow> \<exists>c. e' = SafetyError c" for e'
    using l [of "rp_limits (gw_profile g)"] by (auto simp: rbind_Inl_iff require_state_def split: if_splits)
  moreover have "fst (supervisor_start spawns v) = Raise e' \<Longrightarrow> e' = PyRuntimeError" for v e'
    by (auto simp: supervisor_start_def split: if_splits)
  ultimately show ?thesis using a
    by (auto simp: gw_start_task_def Let_def split: sum.splits prod.splits) (metis fst_conv)
qed

lemma spec_begin_run:
  "(b \<Longrightarrow> task_name_ok (tp_name task)) \<Longrightarrow> act_spec b w anything (\<lambda>e. public_error e \<or> e = PyRuntimeError) (begin_run w task)"
  unfolding begin_run_def
proof (rule spec_catching)
  assume n: "b \<Longrightarrow> task_name_ok (tp_name task)"
  let ?E = "\<lambda>e. (\<exists>c. e = SafetyError c) \<or> public_error e \<or> e = PyRuntimeError"
  show "act_spec b w anything ?E (after (on_gateway w (\<lambda>t. gw_start_task no_motion (tn_clock t) (tn_spawns t)))
      (\<lambda>r. after (lift_result r) (\<lambda>t. append_record w START_TASK t (Some [task_entry task]) OK)))"
  proof (rule spec_after)
    show "act_spec b w (\<lambda>r. case r of Inl e \<Rightarrow> ?E e | Inr t \<Rightarrow> plain_move ARMED RUNNING t) ?E
        (on_gateway w (\<lambda>t. gw_start_task no_motion (tn_clock t) (tn_spawns t)))"
      by (rule spec_gateway) (auto simp: op_start dest: start_error start_move split: sum.split)
    fix r :: "transition result" assume r: "case r of Inl e \<Rightarrow> ?E e | Inr t \<Rightarrow> plain_move ARMED RUNNING t"
    show "act_spec b w anything ?E (after (lift_result r) (\<lambda>t. append_record w START_TASK t (Some [task_entry task]) OK))"
      by (rule spec_after [OF spec_lift [where P = "plain_move ARMED RUNNING"]]) (use r n in \<open>auto intro!: spec_append start_acceptable\<close>)
  qed
  fix e assume "?E e"
  then show "act_spec b w anything (\<lambda>e. public_error e \<or> e = PyRuntimeError)
      (case e of SafetyError code \<Rightarrow> fail_with (safety_error code) | _ \<Rightarrow> fail_with e)"
    by - (rule spec_exn; rule spec_fail; auto)
qed

lemma spec_lost [spec_rules]: "(\<And>x. P x) \<Longrightarrow> act_spec b w P E (activation_lost w)"
  unfolding activation_lost_def by (rule spec_then spec_rules | simp)+

lemma spec_refuse_lost [spec_rules]: "P () \<Longrightarrow> (\<And>c. E (controller_error c)) \<Longrightarrow> act_spec b w P E (refuse_lost w)"
  unfolding refuse_lost_def by (rule spec_then spec_rules | simp)+

lemma heartbeat_error: "fst (gw_heartbeat now calls g) = Raise e \<Longrightarrow> (\<And>c. e \<noteq> RuntimeControllerError c)"
  by (auto simp: gw_heartbeat_def heartbeat_locked_def require_state_def Let_def
      split: sum.splits option.splits if_splits heartbeat_outcome.splits prod.splits)

lemma spec_heartbeat [spec_rules]:
  "P () \<Longrightarrow> (\<And>e. proper_exn e \<Longrightarrow> E e) \<Longrightarrow> act_spec b w P E (heartbeat_record w)"
  unfolding heartbeat_record_def beat_gateway_def
proof (rule spec_after)
  assume a: "P ()" "\<And>e. proper_exn e \<Longrightarrow> E e"
  show "act_spec b w (\<lambda>r. case r of Inl e \<Rightarrow> proper_exn e | Inr t \<Rightarrow> plain_move RUNNING RUNNING t) E
      (on_gateway w (\<lambda>t. gw_heartbeat (tn_clock t) (mo_stops (tn_log t))))"
    by (rule spec_gateway) (auto simp: op_heartbeat dest: heartbeat_error heartbeat_move split: sum.split intro!: proper_error)
  fix r :: "transition result" assume r: "case r of Inl e \<Rightarrow> proper_exn e | Inr t \<Rightarrow> plain_move RUNNING RUNNING t"
  show "act_spec b w P E (after (lift_result r) (\<lambda>t. append_record w HEARTBEAT t None OK))"
    by (rule spec_after [OF spec_lift [where P = "plain_move RUNNING RUNNING"]]) (use r a in \<open>auto intro!: spec_append plain_acceptable\<close>)
qed

lemma spec_safety_fault [spec_rules]: "(\<And>c. E (controller_error c)) \<Longrightarrow> act_spec b w P E (safety_fault w code)"
  unfolding safety_fault_def by (rule spec_then spec_rules | simp add: safety_error_def)+

lemma spec_activate: "proper_world w \<Longrightarrow> act_spec b w anything public_error (activate w)"
  unfolding activate_def
proof (rule spec_catching)
  assume w: "proper_world w"
  show "act_spec b w anything proper_exn (after (asking w tn_status) (\<lambda>r. after (lift_result r) (\<lambda>status.
      after (refuse_lost w) (\<lambda>_. after (heartbeat_record w) (\<lambda>_. done_with status)))))"
    by (rule spec_after [OF spec_asking [where P = "\<lambda>r. \<forall>e. r = Raise e \<longrightarrow> proper_exn e"]] spec_then spec_rules
      | (use proper_worldD(2) [OF w] in blast) | simp)+
qed (rule spec_then spec_rules | simp add: proper_public)+

lemma spec_enter [spec_rules]: "P () \<Longrightarrow> act_spec b w P E (enter_task w task status)"
  unfolding enter_task_def by (rule spec_then spec_rules | simp)+

lemma spec_start_monitor [spec_rules]: "P () \<Longrightarrow> (\<And>c. E (controller_error c)) \<Longrightarrow> act_spec b w P E (start_monitor w)"
  unfolding start_monitor_def
  by (rule spec_catching [where E' = anything] spec_then spec_rules | simp)+

lemma short_name_ok: "profile_name_ok name \<Longrightarrow> length name \<le> 64 \<Longrightarrow> task_name_ok name"
  by (cases name) (simp_all add: profile_name_ok_def task_name_ok_def)

lemma spec_run_task:
  assumes "proper_world w"
  shows "act_spec (length name \<le> 64) w anything (run_error store name) (run_task w store name dry_run)"
proof -
  have begin_run: "act_spec (length name \<le> 64) w anything (run_error store name) (begin_run w task)"
    if "tp_name task = name \<and> profile_name_ok name" for task
    by (rule spec_weaken [OF spec_begin_run]) (use that short_name_ok in \<open>auto simp: run_error_def\<close>)
  show ?thesis unfolding run_task_def
    by (rule spec_after [OF spec_lift [where P = "\<lambda>t. tp_name t = name \<and> profile_name_ok name"]]
        spec_then spec_issue [OF assms] begin_run spec_weaken [OF spec_activate [OF assms]] spec_rules
      | simp add: load_error | (drule loaded_task_name, simp))+
qed

lemma spec_task_status: "act_spec True w anything (\<lambda>e. public_error e \<or> e = PyOverflowError) (task_status w)"
  unfolding task_status_def
proof (rule spec_then spec_rules | simp)+
  fix s :: adapter_status and e
  assume "status_elapsed (as_values s) = Raise e"
  then show "public_error e \<or> e = PyOverflowError"
    using is_number_float by (auto simp: status_elapsed_def Let_def rbind_Inl_iff split: if_splits)
qed (rule spec_rules | simp)+

lemma cancel_error: "fst (gw_cancel calls g) = Raise e \<Longrightarrow> e \<noteq> RuntimeControllerError c"
  by (auto simp: gw_cancel_def cancel_locked_def require_state_def Let_def split: sum.splits if_splits prod.splits)

lemma spec_cancel_gateway:
  "(\<And>e. (\<And>c. e \<noteq> RuntimeControllerError c) \<Longrightarrow> E e) \<Longrightarrow> act_spec b w (stop_move RUNNING STOPPED) E (cancel_gateway w)"
  unfolding cancel_gateway_def
  by (rule spec_call) (auto simp: op_cancel dest: cancel_move cancel_error)

definition cancelled_move :: "adapter_status \<times> transition option \<Rightarrow> bool" where
  "cancelled_move r \<longleftrightarrow> (\<forall>t. snd r = Some t \<longrightarrow> stop_move RUNNING STOPPED t)"

lemma spec_cancel_adapter: "proper_world w \<Longrightarrow> act_spec b w cancelled_move public_error (cancel_adapter w)"
  unfolding cancel_adapter_def
proof (rule spec_catching)
  assume w: "proper_world w"
  show "act_spec b w cancelled_move proper_exn (after (asking w tn_status) (\<lambda>r. after (lift_result r) (\<lambda>status.
      after (gateway_state w) (\<lambda>st. after (ensure (st = RUNNING) ''ESTOP_LATCHED'') (\<lambda>_.
      if as_state status = ''faulted'' then after (latch_adapter_fault w) (\<lambda>_. refuse_with ''UNSAFE_STATE'')
      else if as_state status = ''cancelled'' then after (cancel_gateway w) (\<lambda>t. done_with (status, Some t))
      else done_with (status, None))))))"
    by (rule spec_after [OF spec_asking [where P = "\<lambda>r. \<forall>e. r = Raise e \<longrightarrow> proper_exn e"]] spec_refuse
        spec_after [OF spec_cancel_gateway] spec_then spec_rules
      | (use proper_worldD(2) [OF w] in blast) | simp add: cancelled_move_def)+
qed (rule spec_refuse spec_then spec_rules | simp add: proper_public)+

lemma cancel_acceptable: "stop_move RUNNING STOPPED t \<Longrightarrow> acceptable CANCEL t None OK"
  by (rule stop_acceptable) simp_all

lemma spec_cancel_task: "proper_world w \<Longrightarrow> act_spec True w anything public_error (cancel_task w)"
  unfolding cancel_task_def
  by (rule spec_after [OF spec_cancel_adapter] spec_then spec_rules | assumption | simp add: cancelled_move_def cancel_acceptable)+

abbreviation estopped_result :: "transition option \<times> stop_result \<Rightarrow> bool" where
  "estopped_result r \<equiv> \<forall>u. fst r = Some u \<longrightarrow> estop_move u"

lemma spec_emergency_stop: "act_spec True w anything public_error (emergency_stop w)"
  unfolding emergency_stop_def
  by (rule spec_after [OF spec_estop [where P = estopped_result]] spec_then spec_rules | simp add: estop_acceptable)+

lemma spec_register:
  assumes "b \<Longrightarrow> acceptable operation t None OK" "P ()" "E (controller_error ''AUDIT_INTEGRITY_COMPROMISED'')"
  shows "act_spec b w P E (register_record w operation t)"
  unfolding register_record_def
proof (rule spec_then, rule spec_asking, rule TrueI, rule spec_log)
  fix n s r n' s'
  assume h: "tl_inv s" "(let (r, s') = register_transition operation t None OK s in Some (r, n, s')) = Some (r, n', s')"
  then have "register_transition operation t None OK s = (r, s')" by (auto split: prod.splits)
  from register_moves [OF h(1) this, of b] assms(1) have "log_moves b s s' \<and> (r \<noteq> Ret () \<longrightarrow> r = compromised)"
    by (auto simp: acceptable_def)
  then show "log_moves b s s' \<and> (case r of Inl e \<Rightarrow> E e | Inr x \<Rightarrow> P x)" using assms(2,3) by (cases r) auto
qed

lemma spec_register_if:
  "(\<And>u. t = Some u \<Longrightarrow> estop_move u) \<Longrightarrow> P () \<Longrightarrow> (\<And>c. E (controller_error c)) \<Longrightarrow>
   act_spec b w P E (case t of None \<Rightarrow> done_with () | Some t \<Rightarrow> register_record w ESTOP t)"
  by (rule spec_rules spec_register | simp add: estop_acceptable)+

lemma spec_physical_estop: "act_spec True w anything (\<lambda>_. False) (physical_estop w asserted)"
  unfolding physical_estop_def
  by (rule spec_after [OF spec_estop [where P = estopped_result]] spec_catching [where E' = "\<lambda>e. \<exists>c. e = RuntimeControllerError c"]
      spec_register_if spec_then spec_rules | simp add: estop_acceptable controller_error_def | (elim exE, simp, rule spec_done))+

lemma spec_observe_source: "act_spec True w anything public_error (observe_source w source)"
  unfolding observe_source_def
proof (rule spec_then spec_rules | simp)+
  fix r :: "observed result"
  show "act_spec True w anything public_error (case r of Inr ob \<Rightarrow> done_with ob
    | Inl (AdapterError code) \<Rightarrow> refuse_with code | Inl _ \<Rightarrow> refuse_with ''UNSAFE_STATE'')"
    by (cases r; auto intro!: spec_rules split: py_exn.split)
qed (rule spec_rules | simp)+

lemma spec_finish:
  "(\<And>e. proper_exn e \<Longrightarrow> E e) \<Longrightarrow> act_spec b w anything E (finish_succeeded_task w status)"
  unfolding finish_succeeded_task_def
  by (rule spec_catching [where E' = public_error] spec_after [OF spec_cancel_gateway] spec_append spec_then spec_rules
      | simp add: cancel_acceptable)+

lemma spec_next_stage: "proper_world w \<Longrightarrow> (\<And>e. proper_exn e \<Longrightarrow> E e) \<Longrightarrow> act_spec b w anything E (next_stage w task)"
  unfolding next_stage_def
  by (rule spec_after [OF spec_asking [where P = "\<lambda>r. \<forall>e. r = Raise e \<longrightarrow> proper_exn e" and f = tn_status]] spec_then spec_issue spec_rules
      | assumption | (simp add: proper_worldD(2); fail) | simp)+

lemma budget_number_errs: "PyOverflowError \<in> E \<Longrightarrow> errs E (budget_number v)"
  using is_number_float by (auto simp: budget_number_def errs_def rbind_Inl_iff split: if_splits)

lemma budget_stages_errs: "errs {PyOverflowError, PyIndexError} (budget_stages elapsed stages results previous)"
proof (induction results arbitrary: stages previous)
  case (Cons result results)
  show ?case
  proof (cases result)
    case (VDict d)
    have "errs {PyOverflowError, PyIndexError} (case r of None \<Rightarrow> Ret (Inl ''UNSAFE_STATE'')
      | Some completed \<Rightarrow> if completed \<le> previous \<or> elapsed < completed then Ret (Inl ''UNSAFE_STATE'')
          else (case stages of [] \<Rightarrow> Raise PyIndexError | stage # stages' \<Rightarrow>
            if flt (Fin (ts_timeout stage)) (fsub (Fin completed) (Fin previous)) then Ret (Inl ''TIMEOUT'')
            else budget_stages elapsed stages' results completed))" for r
      using Cons by (auto split: option.split list.split)
    then show ?thesis by (simp add: VDict errs_rbind budget_number_errs)
  qed simp_all
qed simp

lemma budget_errs: "errs {PyOverflowError, PyIndexError} (hospital_budget_error status task)"
  unfolding hospital_budget_error_def
  by (intro errs_if errs_Inr) (auto split: option.split pyval.split sum.split intro!: errs_rbind budget_number_errs budget_stages_errs)

lemma budget_error: "hospital_budget_error status task = Raise e \<Longrightarrow> proper_exn e"
  using errsD [OF budget_errs] by fastforce

lemma spec_poll_success: "proper_world w \<Longrightarrow> act_spec b w anything proper_exn (poll_success w status)"
  unfolding poll_success_def
  by (rule spec_then [OF spec_finish] spec_then [OF spec_next_stage] spec_then spec_rules | assumption | simp)+

lemma spec_poll_body: "proper_world w \<Longrightarrow> act_spec b w anything proper_exn (poll_body w)"
  unfolding poll_body_def
  by (rule spec_after [OF spec_asking [where P = "\<lambda>r. \<forall>e. r = Raise e \<longrightarrow> proper_exn e" and f = tn_status]]
      spec_after [OF spec_reading [where P = "\<lambda>r. \<forall>e. r = Raise e \<longrightarrow> proper_exn e"
        and f = "\<lambda>c. if ct_adapter c = CaseAdapter then hospital_budget_error status (ct_task c) else Ret None" for status]]
      spec_after [OF spec_cancel_gateway] spec_append spec_refuse spec_then spec_poll_success spec_rules
    | assumption | (simp add: proper_worldD(2) cancel_acceptable budget_error; fail) | simp)+

lemma spec_poll_running: "proper_world w \<Longrightarrow> act_spec b w anything public_error (poll_running w)"
  unfolding poll_running_def
  by (rule spec_catching [where E' = proper_exn] spec_poll_body spec_refuse spec_then spec_rules | assumption | simp add: proper_public)+

lemma spec_drain: "(\<And>c. E (controller_error c)) \<Longrightarrow> P () \<Longrightarrow> act_spec b w P E (on_log (\<lambda>n. drain_pending (audit_world w) None (f n) n))"
proof (rule spec_log)
  fix n s r n' s'
  assume e: "\<And>c. E (controller_error c)" "P ()"
    and h: "others_follow (audit_world w)" "tl_inv s" "drain_pending (audit_world w) None (f n) n s = Some (r, n', s')"
  from drain_pending_moves [OF h(3,1,2), of b] have "log_moves b s s' \<and> (r = Ret () \<or> r = compromised)" by (auto simp: drained_def)
  with e show "log_moves b s s' \<and> (case r of Inl e \<Rightarrow> E e | Inr x \<Rightarrow> P x)" by auto
qed

lemma spec_monitor_turn: "proper_world w \<Longrightarrow> act_spec True w anything (\<lambda>_. False) (monitor_turn w)"
  unfolding monitor_turn_def
  by (rule spec_catching [where E' = public_error] spec_then [OF spec_poll_running] spec_then [OF spec_drain] spec_then spec_rules
    | assumption | (auto simp: public_error_def; fail) | simp)+

lemma spec_stop_gateway: "act_spec b w anything public_error (stop_gateway w)"
  unfolding stop_gateway_def
  by (rule spec_after [OF spec_estop [where P = estopped_result]] spec_register_if spec_then spec_rules | simp)+

lemma spec_drain_failed: "(\<And>c. E (controller_error c)) \<Longrightarrow> act_spec b w anything E (drain_failed_within w deadline)"
  unfolding drain_failed_within_def
  by (rule spec_catching [where E' = public_error] spec_then [OF spec_drain] spec_rules | (auto simp: public_error_def; fail) | simp)+

lemma spec_close: "act_spec b w anything E (on_gateway w (\<lambda>t g. (tn_joined t, gw_close (mo_stops (tn_log t)) g)))"
  by (rule spec_gateway) (simp_all add: op_close)

lemma spec_stop_runtime: "act_spec True w anything public_error (stop_runtime w)"
  unfolding stop_runtime_def
  by (rule spec_then spec_stop_gateway spec_close spec_drain_failed spec_rules | simp)+

lemma spec_bind_adapter: "act_spec b w anything public_error (bind_adapter w)"
  unfolding bind_adapter_def by (rule spec_catching [where E' = anything] spec_refuse spec_then spec_rules | simp)+

lemma discover_error: "fst (gw_discover (Some report) g) = Raise e \<Longrightarrow> \<exists>c. e = SafetyError c"
  by (auto simp: gw_discover_def require_state_def split: sum.splits if_splits prod.splits)

lemma spec_report: "act_spec b w (plain_move NEW DISCOVERED) public_error (report_gateway w report)"
  unfolding report_gateway_def
proof (rule spec_catching)
  show "act_spec b w (plain_move NEW DISCOVERED) (\<lambda>e. \<exists>c. e = SafetyError c) (after (on_gateway w (\<lambda>_. gw_discover (Some report))) lift_result)"
    by (rule spec_call) (auto simp: op_discover dest: discover_move discover_error)
qed (elim exE, simp, rule spec_fail, simp)

lemma spec_discover_gateway: "act_spec True w anything public_error (discover_gateway w report)"
  unfolding discover_gateway_def
  by (rule spec_after [OF spec_report] spec_then spec_bind_adapter spec_append spec_rules | (rule plain_acceptable, assumption) | simp)+

end
