(* ===== verification/ControllerSafety.thy ===== *)
theory ControllerSafety
  imports ControllerRules
begin

text \<open>
  The properties of the runtime controller: whatever handlers run, in whatever order, the transition
  log moves by steps of its machine, with records the audit writer accepts; what fails, fails with the gateway halted; a hardware robot is
  validated and armed only with its physical stop bound; a success ends with its evidence frozen.
\<close>

section \<open>Runs of handlers\<close>

inductive handler_step :: "world \<Rightarrow> profile_store \<Rightarrow> bool \<Rightarrow> ctl \<Rightarrow> ctl \<Rightarrow> bool" for w store short where
  discovery: "discover_gateway w report c = Some (r, c') \<Longrightarrow> handler_step w store short c c'"
| validation: "validate_profile w name c = Some (r, c') \<Longrightarrow> handler_step w store short c c'"
| arming: "arm_robot w name challenge dry_run c = Some (r, c') \<Longrightarrow> handler_step w store short c c'"
| running: "short \<longrightarrow> length name \<le> 64 \<Longrightarrow> run_task w store name dry_run c = Some (r, c') \<Longrightarrow> handler_step w store short c c'"
| status: "task_status w c = Some (r, c') \<Longrightarrow> handler_step w store short c c'"
| cancellation: "cancel_task w c = Some (r, c') \<Longrightarrow> handler_step w store short c c'"
| stopping: "emergency_stop w c = Some (r, c') \<Longrightarrow> handler_step w store short c c'"
| physical: "physical_estop w asserted c = Some (u, c') \<Longrightarrow> handler_step w store short c c'"
| observing: "observe_source w source c = Some (ob, c') \<Longrightarrow> handler_step w store short c c'"
| monitoring: "monitor_turn w c = Some (b, c') \<Longrightarrow> handler_step w store short c c'"
| shutdown: "stop_runtime w c = Some (r, c') \<Longrightarrow> handler_step w store short c c'"

lemma spec_step:
  assumes "act_spec True w P E a" "others_follow (audit_world w)" "tl_inv (ct_log c)" "a c = Some (r, c')"
  shows "log_moves b (ct_log c) (ct_log c')"
  using act_specD [OF assms] by (simp add: ctl_moves_def log_moves_def)

lemma handler_moves:
  assumes "handler_step w store short c c'" "others_follow (audit_world w)" "proper_world w" "tl_inv (ct_log c)"
  shows "log_moves short (ct_log c) (ct_log c')"
  using assms(1)
proof cases
  case (running name dry_run r)
  have "log_moves (length name \<le> 64) (ct_log c) (ct_log c')"
    using act_specD [OF spec_run_task [OF assms(3)] assms(2,4) running(2)] by (simp add: ctl_moves_def)
  with running(1) show ?thesis by (auto simp: log_moves_def)
qed (erule spec_step [OF _ assms(2,4), rotated], rule spec_discover_gateway spec_validate_profile spec_arm_robot spec_task_status
      spec_cancel_task [OF assms(3)] spec_emergency_stop spec_physical_estop spec_observe_source
      spec_monitor_turn [OF assms(3)] spec_stop_runtime)+

definition session_inv :: "robot_profile \<Rightarrow> bool \<Rightarrow> ctl \<Rightarrow> bool" where
  "session_inv profile short c \<longleftrightarrow> log_moves short (log_init (gateway_init profile True)) (ct_log c)"

lemma handler_steps_inv:
  assumes "(handler_step w store short)\<^sup>*\<^sup>* (activated profile kind s) c" "others_follow (audit_world w)" "proper_world w"
  shows "session_inv profile short c"
  using assms(1)
proof (induction rule: rtranclp_induct)
  case base
  show ?case by (simp add: session_inv_def activated_def log_moves_refl log_init_inv)
next
  case (step c c')
  then have "log_moves short (ct_log c) (ct_log c')"
    using handler_moves [OF _ assms(2,3)] log_moves_inv by (auto simp: session_inv_def)
  with step(3) show ?case unfolding session_inv_def by (rule log_moves_trans)
qed

section \<open>The gateway comes to rest\<close>

definition log_halted :: "transition_log \<Rightarrow> bool" where
  "log_halted s \<longleftrightarrow> gw_state (tl_gateway s) \<in> {STOPPED, FAULTED, ESTOPPED}"

definition log_begun :: "transition_log \<Rightarrow> bool" where
  "log_begun s \<longleftrightarrow> gw_state (tl_gateway s) = RUNNING \<or> log_halted s"

lemma moved_state:
  assumes "auth_step (tl_gateway s) g" "gw_state (tl_gateway s) = ESTOPPED \<longrightarrow> gw_state g = ESTOPPED"
  shows "(log_halted s \<longrightarrow> log_halted (moved g s)) \<and> (log_begun s \<longrightarrow> log_begun (moved g s))"
  using assms by (auto simp: auth_step_def log_halted_def log_begun_def transition_ok_def allowed_def)

lemma failure_estop_halted: "log_halted (failure_estop calls s)"
  by (simp add: log_halted_def failure_estop_def estop_state)

lemma step_state: "tl_step s t \<Longrightarrow> tl_inv s \<Longrightarrow> (log_halted s \<longrightarrow> log_halted t) \<and> (log_begun s \<longrightarrow> log_begun t)"
proof (induction rule: tl_step.induct)
  case (gateway s g)
  then have "auth_step (tl_gateway s) g" using gw_step_auth by (auto simp: tl_inv_def all_inv_def gw_inv_def)
  with gateway show ?case by (simp add: moved_state)
next
  case (register t s data data' operation outcome)
  obtain r s' where reg: "register_locked operation t data' outcome s = (r, s')" by (metis surj_pair)
  then show ?case by (cases rule: register_cases) (simp_all add: reg log_halted_def log_begun_def)
next
  case (failed_stop s calls)
  then show ?case using failure_estop_halted [of calls s] by (simp add: log_begun_def log_halted_def drain_leave_def)
next
  case (late_stop s n calls)
  then show ?case using failure_estop_halted [of calls s] by (simp add: log_begun_def log_halted_def)
qed (simp_all add: log_halted_def log_begun_def drain_take_def drain_leave_def drain_appended_def drain_failed_def record_failure_def)

lemma steps_state: "tl_step\<^sup>*\<^sup>* s t \<Longrightarrow> tl_inv s \<Longrightarrow> (log_halted s \<longrightarrow> log_halted t) \<and> (log_begun s \<longrightarrow> log_begun t)"
proof (induction rule: rtranclp_induct)
  case (step t u)
  then show ?case using step_state logging.inv_steps by blast
qed simp

text \<open>The conditions on the controller; the adapter's kind never changes.\<close>

definition halted :: "ctl \<Rightarrow> bool" where
  "halted c \<longleftrightarrow> log_halted (ct_log c)"

definition begun :: "adapter_kind set \<Rightarrow> ctl \<Rightarrow> bool" where
  "begun ks c \<longleftrightarrow> log_begun (ct_log c) \<and> ct_adapter c \<in> ks"

definition stable :: "(ctl \<Rightarrow> bool) \<Rightarrow> bool" where
  "stable S \<longleftrightarrow> (\<forall>c c'. tl_inv (ct_log c) \<longrightarrow> ctl_moves False c c' \<longrightarrow> S c \<longrightarrow> S c')"

lemma stable_True: "stable (\<lambda>_. True)" by (simp add: stable_def)

lemma stable_halted: "stable halted" and stable_begun: "stable (begun ks)"
  using steps_state by (auto simp: stable_def halted_def begun_def ctl_moves_def log_moves_def)

lemma stableD: "stable S \<Longrightarrow> tl_inv (ct_log c) \<Longrightarrow> ctl_moves b c c' \<Longrightarrow> S c \<Longrightarrow> S c'"
  unfolding stable_def ctl_moves_def log_moves_def by blast

section \<open>Conditions before and after an action\<close>

definition ctl_spec :: "world \<Rightarrow> (ctl \<Rightarrow> bool) \<Rightarrow> 'a act \<Rightarrow> ('a \<Rightarrow> ctl \<Rightarrow> bool) \<Rightarrow> (py_exn \<Rightarrow> ctl \<Rightarrow> bool) \<Rightarrow> bool" where
  "ctl_spec w S a Q E \<longleftrightarrow> (others_follow (audit_world w) \<longrightarrow> (\<forall>c. tl_inv (ct_log c) \<longrightarrow> S c \<longrightarrow>
     wp a (\<lambda>x c'. tl_inv (ct_log c') \<and> Q x c') (\<lambda>e c'. tl_inv (ct_log c') \<and> E e c') c))"

lemma ctl_specI:
  "(\<And>c. others_follow (audit_world w) \<Longrightarrow> tl_inv (ct_log c) \<Longrightarrow> S c \<Longrightarrow>
     wp a (\<lambda>x c'. tl_inv (ct_log c') \<and> Q x c') (\<lambda>e c'. tl_inv (ct_log c') \<and> E e c') c) \<Longrightarrow> ctl_spec w S a Q E"
  by (simp add: ctl_spec_def)

lemma ctl_specD:
  assumes "ctl_spec w S a Q E" "others_follow (audit_world w)" "tl_inv (ct_log c)" "S c" "a c = Some (r, c')"
  shows "case r of Inl e \<Rightarrow> E e c' | Inr x \<Rightarrow> Q x c'"
proof -
  have "wp a (\<lambda>x c'. tl_inv (ct_log c') \<and> Q x c') (\<lambda>e c'. tl_inv (ct_log c') \<and> E e c') c"
    using assms(1-4) by (simp add: ctl_spec_def)
  from wp_result [OF this assms(5)] show ?thesis by (auto split: sum.splits)
qed

lemma cs_after:
  assumes "ctl_spec w S a R E" "\<And>x. ctl_spec w (R x) (f x) Q E" shows "ctl_spec w S (after a f) Q E"
proof (rule ctl_specI)
  fix c assume h: "others_follow (audit_world w)" "tl_inv (ct_log c)" "S c"
  from assms(1) h have "wp a (\<lambda>x c'. tl_inv (ct_log c') \<and> R x c') (\<lambda>e c'. tl_inv (ct_log c') \<and> E e c') c"
    by (simp add: ctl_spec_def)
  then show "wp (after a f) (\<lambda>x c'. tl_inv (ct_log c') \<and> Q x c') (\<lambda>e c'. tl_inv (ct_log c') \<and> E e c') c"
    unfolding wp_after by (rule wp_mono) (use assms(2) h(1) in \<open>auto simp: ctl_spec_def\<close>)
qed

lemma cs_catching:
  assumes "ctl_spec w S a Q R" "\<And>e. ctl_spec w (R e) (h e) Q E" shows "ctl_spec w S (catching a h) Q E"
proof (rule ctl_specI)
  fix c assume i: "others_follow (audit_world w)" "tl_inv (ct_log c)" "S c"
  from assms(1) i have "wp a (\<lambda>x c'. tl_inv (ct_log c') \<and> Q x c') (\<lambda>e c'. tl_inv (ct_log c') \<and> R e c') c"
    by (simp add: ctl_spec_def)
  then show "wp (catching a h) (\<lambda>x c'. tl_inv (ct_log c') \<and> Q x c') (\<lambda>e c'. tl_inv (ct_log c') \<and> E e c') c"
    unfolding wp_catching by (rule wp_mono) (use assms(2) i(1) in \<open>auto simp: ctl_spec_def\<close>)
qed

lemma cs_weaken:
  assumes "ctl_spec w S a Q E" "\<And>c. S' c \<Longrightarrow> S c" "\<And>x c. Q x c \<Longrightarrow> Q' x c" "\<And>e c. E e c \<Longrightarrow> E' e c"
  shows "ctl_spec w S' a Q' E'"
proof (rule ctl_specI)
  fix c assume "others_follow (audit_world w)" "tl_inv (ct_log c)" "S' c"
  with assms(1,2) have "wp a (\<lambda>x c'. tl_inv (ct_log c') \<and> Q x c') (\<lambda>e c'. tl_inv (ct_log c') \<and> E e c') c"
    by (simp add: ctl_spec_def)
  then show "wp a (\<lambda>x c'. tl_inv (ct_log c') \<and> Q' x c') (\<lambda>e c'. tl_inv (ct_log c') \<and> E' e c') c"
    by (rule wp_mono) (simp_all add: assms(3,4))
qed

text \<open>What is stable holds after an action that moves the log by steps.\<close>

lemma cs_stable:
  assumes "act_spec b w P E a" "stable S" shows "ctl_spec w S a (\<lambda>x c. P x \<and> S c) (\<lambda>e c. E e \<and> S c)"
proof (rule ctl_specI)
  fix c assume h: "others_follow (audit_world w)" "tl_inv (ct_log c)" "S c"
  have "wp a (\<lambda>x c'. ctl_moves b c c' \<and> P x) (\<lambda>e c'. ctl_moves b c c' \<and> E e) c"
    using assms(1) h by (simp add: act_spec_def)
  then show "wp a (\<lambda>x c'. tl_inv (ct_log c') \<and> P x \<and> S c') (\<lambda>e c'. tl_inv (ct_log c') \<and> E e \<and> S c') c"
    by (rule wp_mono) (use h stableD [OF assms(2)] ctl_moves_inv in blast)+
qed

lemma cs_keep: "act_spec b w anything E a \<Longrightarrow> stable S \<Longrightarrow> ctl_spec w S a (\<lambda>_. S) (\<lambda>e c. E e \<and> S c)"
  by (rule cs_weaken [OF cs_stable]) auto

lemma cs_fail: "(\<And>c. S c \<Longrightarrow> E e c) \<Longrightarrow> ctl_spec w S (fail_with e) Q E"
  by (rule ctl_specI) (simp add: wp_simps)

lemma cs_done: "(\<And>c. S c \<Longrightarrow> Q x c) \<Longrightarrow> ctl_spec w S (done_with x) Q E"
  by (rule ctl_specI) (simp add: wp_simps)

lemma cs_reading: "(\<And>c. S c \<Longrightarrow> Q (f c) c) \<Longrightarrow> ctl_spec w S (reading f) Q E"
  by (rule ctl_specI) (simp add: wp_simps)

lemma cs_update: "(\<And>c. ct_log (f c) = ct_log c) \<Longrightarrow> (\<And>c. S c \<Longrightarrow> Q () (f c)) \<Longrightarrow> ctl_spec w S (update f) Q E"
  by (rule ctl_specI) (simp add: wp_simps)

lemma cs_lift: "(\<And>x c. r = Ret x \<Longrightarrow> S c \<Longrightarrow> Q x c) \<Longrightarrow> (\<And>e c. r = Raise e \<Longrightarrow> S c \<Longrightarrow> E e c) \<Longrightarrow> ctl_spec w S (lift_result r) Q E"
  by (cases r) (auto simp: lift_result_def intro: cs_done cs_fail)

lemma cs_ensure: "(\<And>c. x \<Longrightarrow> S c \<Longrightarrow> Q () c) \<Longrightarrow> (\<And>c. \<not> x \<Longrightarrow> S c \<Longrightarrow> E (controller_error code) c) \<Longrightarrow> ctl_spec w S (ensure x code) Q E"
  by (simp add: ensure_def cs_done cs_fail)

lemma cs_if: "(x \<Longrightarrow> ctl_spec w S a Q E) \<Longrightarrow> (\<not> x \<Longrightarrow> ctl_spec w S a' Q E) \<Longrightarrow> ctl_spec w S (if x then a else a') Q E"
  by simp

lemma cs_only_if: "(x \<Longrightarrow> ctl_spec w S a Q E) \<Longrightarrow> (\<And>c. \<not> x \<Longrightarrow> S c \<Longrightarrow> Q () c) \<Longrightarrow> ctl_spec w S (only_if x a) Q E"
  by (simp add: only_if_def cs_done)

lemma cs_pre: "(\<And>c. S c \<Longrightarrow> ctl_spec w (\<lambda>c'. c' = c) a Q E) \<Longrightarrow> ctl_spec w S a Q E"
  by (simp add: ctl_spec_def)

lemma cs_fact: "(x \<Longrightarrow> ctl_spec w S a Q E) \<Longrightarrow> ctl_spec w (\<lambda>c. x \<and> S c) a Q E"
  by (simp add: ctl_spec_def)

text \<open>A call of the gateway: the others have moved; what the call does is said of the state it finds.\<close>

abbreviation gateway_of :: "ctl \<Rightarrow> gateway" where "gateway_of c \<equiv> tl_gateway (ct_log c)"

lemma cs_gateway:
  assumes "stable S" "\<And>t. gateway_op (\<lambda>g. snd (f t g))"
    "\<And>t c. tl_inv (ct_log c) \<Longrightarrow> S c \<Longrightarrow>
       Q (fst (f t (gateway_of c))) (c\<lparr>ct_log := moved (snd (f t (gateway_of c))) (ct_log c)\<rparr>)"
  shows "ctl_spec w S (on_gateway w f) Q E"
proof (rule ctl_specI)
  fix c assume h: "others_follow (audit_world w)" "tl_inv (ct_log c)" "S c"
  define t where "t = w (ct_time c)"
  define c1 where "c1 = c\<lparr>ct_time := Suc (ct_time c), ct_log := mo_others (tn_log t) False (ct_log c)\<rparr>"
  have m: "ctl_moves False c c1"
    using others_move [OF h(1,2), of False "ct_time c" False] by (simp add: ctl_moves_def c1_def t_def)
  have s: "tl_inv (ct_log c1)" "S c1" using ctl_moves_inv [OF m] stableD [OF assms(1) h(2) m h(3)] by simp_all
  then have "tl_step\<^sup>*\<^sup>* (ct_log c1) (moved (snd (f t (gateway_of c1))) (ct_log c1))" using assms(2) by (simp add: gateway_op_def)
  then have "tl_inv (moved (snd (f t (gateway_of c1))) (ct_log c1))" using s(1) by (rule logging.inv_steps)
  with assms(3) [OF s] show "wp (on_gateway w f) (\<lambda>x c'. tl_inv (ct_log c') \<and> Q x c') (\<lambda>e c'. tl_inv (ct_log c') \<and> E e c') c"
    unfolding wp_turn by (simp add: Let_def t_def c1_def)
qed

section \<open>Stopping the gateway\<close>

text \<open>The latch halts the gateway, whether its own record lands or not.\<close>

lemma cs_latch: "ctl_spec w S (latch_adapter_fault w) (\<lambda>_. halted) (\<lambda>_. halted)"
proof (rule cs_weaken)
  show "ctl_spec w (\<lambda>_. True) (latch_adapter_fault w) (\<lambda>_. halted) (\<lambda>_. halted)"
    unfolding latch_adapter_fault_def
  proof (rule cs_after)
    show "ctl_spec w (\<lambda>_. True) (estop_gateway w) (\<lambda>_. halted) (\<lambda>_. halted)"
      unfolding estop_gateway_def
      by (rule cs_gateway [OF stable_True]) (simp_all add: op_estop halted_def log_halted_def estop_state)
    fix r :: "transition option \<times> stop_result"
    have "act_spec False w anything anything (case r of (t, _) \<Rightarrow> after (append_if w ESTOP t) (\<lambda>_. after (observe_state w) (\<lambda>_.
        update (\<lambda>c. c\<lparr>ct_monitor_stop := True\<rparr>))))"
      by (rule spec_then spec_rules | simp)+
    from cs_keep [OF this stable_halted]
    show "ctl_spec w halted (case r of (t, _) \<Rightarrow> after (append_if w ESTOP t) (\<lambda>_. after (observe_state w) (\<lambda>_.
        update (\<lambda>c. c\<lparr>ct_monitor_stop := True\<rparr>)))) (\<lambda>_. halted) (\<lambda>_. halted)"
      by (rule cs_weaken) auto
  qed
qed auto

lemma cs_refuse: "ctl_spec w S (after (latch_adapter_fault w) (\<lambda>_. fail_with e)) Q (\<lambda>_. halted)"
  by (rule cs_after [OF cs_latch]) (simp add: cs_fail)

lemma cs_safety_fault: "ctl_spec w halted (safety_fault w code) Q (\<lambda>_. halted)"
  unfolding safety_fault_def
proof (rule cs_after)
  have "act_spec False w anything anything (append_latest_fault w)" by (rule spec_rules | simp)+
  from cs_keep [OF this stable_halted] show "ctl_spec w halted (append_latest_fault w) (\<lambda>_. halted) (\<lambda>_. halted)"
    by (rule cs_weaken) auto
qed (rule cs_refuse)

text \<open>A heartbeat that a running gateway refuses has faulted it.\<close>

lemma heartbeat_halts:
  assumes "log_begun s" "fst (gw_heartbeat now calls (tl_gateway s)) = Raise (SafetyError code)"
  shows "log_halted (moved (snd (gw_heartbeat now calls (tl_gateway s))) s)"
proof (cases "gw_state (tl_gateway s) = RUNNING")
  case True
  with assms(2) show ?thesis
    by (auto simp: gw_heartbeat_def heartbeat_locked_def require_state_def log_halted_def gw_fault_def fault_locked_def record_stop_def
        do_transition_eq Let_def split: option.splits if_splits)
next
  case False
  then have "snd (gw_heartbeat now calls (tl_gateway s)) = tl_gateway s"
    by (simp add: gw_heartbeat_def heartbeat_locked_def require_state_def split: sum.splits)
  with False assms(1) show ?thesis by (simp add: moved_self log_begun_def)
qed

definition refused :: "adapter_kind set \<Rightarrow> py_exn \<Rightarrow> ctl \<Rightarrow> bool" where
  "refused ks e c \<longleftrightarrow> begun ks c \<and> (\<forall>code. e = SafetyError code \<longrightarrow> halted c)"

lemma cs_begun:
  assumes "act_spec False w anything (\<lambda>e. \<forall>code. e \<noteq> SafetyError code) a"
  shows "ctl_spec w (begun ks) a (\<lambda>_. begun ks) (refused ks)"
  using cs_stable [OF assms stable_begun] by (rule cs_weaken) (auto simp: refused_def)

lemma not_safety [simp]: "controller_error c \<noteq> SafetyError code"
  by (simp add: controller_error_def)

lemma begun_moved: "begun ks c \<Longrightarrow> tl_inv (ct_log c) \<Longrightarrow> gateway_op f \<Longrightarrow> begun ks (c\<lparr>ct_log := moved (f (gateway_of c)) (ct_log c)\<rparr>)"
  using steps_state by (auto simp: begun_def gateway_op_def)

abbreviation audit_lost :: py_exn where "audit_lost \<equiv> controller_error ''AUDIT_INTEGRITY_COMPROMISED''"

lemma cs_beat:
  "ctl_spec w (begun ks) (heartbeat_record w) (\<lambda>_. begun ks) (\<lambda>e c. refused ks e c \<and> (\<forall>code. e = RuntimeControllerError code \<longrightarrow> e = audit_lost))"
  (is "ctl_spec w _ _ _ ?E")
  unfolding heartbeat_record_def beat_gateway_def
proof (rule cs_after)
  show "ctl_spec w (begun ks) (on_gateway w (\<lambda>t. gw_heartbeat (tn_clock t) (mo_stops (tn_log t))))
    (\<lambda>r c. begun ks c \<and> (\<forall>code. r = Raise (SafetyError code) \<longrightarrow> halted c) \<and> (\<forall>code. r \<noteq> Raise (RuntimeControllerError code))) ?E"
  proof (rule cs_gateway [OF stable_begun])
    fix t c assume h: "tl_inv (ct_log c)" "begun ks c"
    let ?g = "\<lambda>g. snd (gw_heartbeat (tn_clock t) (mo_stops (tn_log t)) g)"
    have "\<forall>code. fst (gw_heartbeat (tn_clock t) (mo_stops (tn_log t)) (gateway_of c)) \<noteq> Raise (RuntimeControllerError code)"
      using heartbeat_error by blast
    with begun_moved [OF h(2,1) op_heartbeat] heartbeat_halts [of "ct_log c"] h(2)
    show "begun ks (c\<lparr>ct_log := moved (?g (gateway_of c)) (ct_log c)\<rparr>) \<and>
      (\<forall>code. fst (gw_heartbeat (tn_clock t) (mo_stops (tn_log t)) (gateway_of c)) = Raise (SafetyError code) \<longrightarrow>
        halted (c\<lparr>ct_log := moved (?g (gateway_of c)) (ct_log c)\<rparr>)) \<and>
      (\<forall>code. fst (gw_heartbeat (tn_clock t) (mo_stops (tn_log t)) (gateway_of c)) \<noteq> Raise (RuntimeControllerError code))"
      by (simp add: begun_def halted_def)
  qed (rule op_heartbeat)
  fix r :: "transition result"
  have "act_spec False w anything (\<lambda>e. e = audit_lost) (append_record w HEARTBEAT t None OK)" for t
    by (rule spec_append) simp_all
  from cs_keep [OF this stable_begun [of ks]]
  have a: "ctl_spec w (begun ks) (append_record w HEARTBEAT t None OK) (\<lambda>_. begun ks) ?E" for t
    by (rule cs_weaken) (auto simp: refused_def)
  show "ctl_spec w (\<lambda>c. begun ks c \<and> (\<forall>code. r = Raise (SafetyError code) \<longrightarrow> halted c) \<and> (\<forall>code. r \<noteq> Raise (RuntimeControllerError code)))
    (after (lift_result r) (\<lambda>t. append_record w HEARTBEAT t None OK)) (\<lambda>_. begun ks) ?E"
    by (rule cs_after [OF cs_lift a]) (auto simp: refused_def)
qed

lemma cs_heartbeat: "ctl_spec w (begun ks) (heartbeat_record w) (\<lambda>_. begun ks) (refused ks)"
  by (rule cs_weaken [OF cs_beat]) blast+

section \<open>Activation\<close>

lemma cs_lost: "ctl_spec w (begun ks) (refuse_lost w) (\<lambda>_. begun ks) (refused ks)"
proof (rule cs_begun)
  show "act_spec False w anything (\<lambda>e. \<forall>code. e \<noteq> SafetyError code) (refuse_lost w)" by (rule spec_rules | simp)+
qed

text \<open>An answer of the adapter: it raises neither of the two errors that have clauses of their own.\<close>

lemma cs_adapter:
  assumes "proper_world w" "\<And>x. ctl_spec w (begun ks) (f x) Q E" "\<And>e c. begun ks c \<Longrightarrow> (\<And>code. e \<noteq> SafetyError code \<and> e \<noteq> RuntimeControllerError code) \<Longrightarrow> E e c"
  shows "ctl_spec w (begun ks) (after (asking w tn_status) (\<lambda>r. after (lift_result r) f)) Q E"
proof (rule cs_after)
  have "act_spec False w (\<lambda>r. \<forall>e code. r = Raise e \<longrightarrow> e \<noteq> SafetyError code \<and> e \<noteq> RuntimeControllerError code) (\<lambda>_. False) (asking w tn_status)"
    by (rule spec_asking) (use proper_worldD(5) [OF assms(1)] in blast)
  from cs_stable [OF this stable_begun [of ks]]
  show "ctl_spec w (begun ks) (asking w tn_status)
      (\<lambda>r c. (\<forall>e code. r = Raise e \<longrightarrow> e \<noteq> SafetyError code \<and> e \<noteq> RuntimeControllerError code) \<and> begun ks c) E"
    by (rule cs_weaken) simp_all
  fix r :: "adapter_status result"
  show "ctl_spec w (\<lambda>c. (\<forall>e code. r = Raise e \<longrightarrow> e \<noteq> SafetyError code \<and> e \<noteq> RuntimeControllerError code) \<and> begun ks c)
      (after (lift_result r) f) Q E"
    by (rule cs_after [OF cs_lift assms(2)]) (auto intro: assms(3))
qed

lemma cs_exn:
  "(\<And>c. e = AdapterError c \<Longrightarrow> ctl_spec w S (f c) Q E) \<Longrightarrow> (\<And>c. e = SafetyError c \<Longrightarrow> ctl_spec w S (g c) Q E) \<Longrightarrow>
   (\<And>c. e = RuntimeControllerError c \<Longrightarrow> ctl_spec w S (h c) Q E) \<Longrightarrow>
   ((\<And>c. e \<noteq> RuntimeControllerError c) \<Longrightarrow> ctl_spec w S a Q E) \<Longrightarrow>
   ctl_spec w S (case e of AdapterError c \<Rightarrow> f c | SafetyError c \<Rightarrow> g c | RuntimeControllerError c \<Rightarrow> h c | _ \<Rightarrow> a) Q E"
  by (cases e) simp_all

lemma cs_activate:
  assumes "proper_world w"
  shows "ctl_spec w (begun ks) (activate w) (\<lambda>_. begun ks) (\<lambda>_. halted)"
  unfolding activate_def
proof (rule cs_catching)
  show "ctl_spec w (begun ks) (after (asking w tn_status) (\<lambda>r. after (lift_result r) (\<lambda>status.
      after (refuse_lost w) (\<lambda>_. after (heartbeat_record w) (\<lambda>_. done_with status))))) (\<lambda>_. begun ks) (refused ks)"
    by (rule cs_adapter [OF assms] cs_after [OF cs_lost] cs_after [OF cs_heartbeat] cs_done | simp add: refused_def)+
  fix e
  show "ctl_spec w (refused ks e) (case e of
      RuntimeControllerError code \<Rightarrow> after (latch_adapter_fault w) (\<lambda>_. fail_with e)
    | AdapterError code \<Rightarrow> after (latch_adapter_fault w) (\<lambda>_. refuse_with code)
    | SafetyError code \<Rightarrow> safety_fault w code
    | _ \<Rightarrow> after (latch_adapter_fault w) (\<lambda>_. refuse_with ''UNSAFE_STATE'')) (\<lambda>_. begun ks) (\<lambda>_. halted)"
    by (rule cs_exn) (rule cs_refuse cs_weaken [OF cs_safety_fault]; simp add: refused_def)+
qed

section \<open>Polling\<close>

text \<open>What a poll's body may raise: a gateway's error with the gateway halted; the controller's own with the gateway halted, or
  for a lost audit; with an adapter that is started stage by stage, also for a lost permit.\<close>

definition closed_or_lost :: "py_exn \<Rightarrow> ctl \<Rightarrow> bool" where
  "closed_or_lost e c \<longleftrightarrow> halted c \<or> e = audit_lost \<or> ct_adapter c \<noteq> CaseAdapter"

definition poll_refused :: "py_exn \<Rightarrow> ctl \<Rightarrow> bool" where
  "poll_refused e c \<longleftrightarrow> begun UNIV c \<and> (\<forall>code. e = SafetyError code \<longrightarrow> halted c) \<and>
     (\<forall>code. e = RuntimeControllerError code \<longrightarrow> closed_or_lost e c)"

lemma halted_begun: "halted c \<Longrightarrow> begun UNIV c"
  by (simp add: halted_def begun_def log_begun_def)

lemma cs_append_begun: "ctl_spec w (begun UNIV) (append_record w operation t None OK) (\<lambda>_. begun UNIV) poll_refused"
proof -
  have "act_spec False w anything (\<lambda>e. e = audit_lost) (append_record w operation t None OK)" by (rule spec_append) simp_all
  from cs_keep [OF this stable_begun [of UNIV]] show ?thesis
    by (rule cs_weaken) (auto simp: poll_refused_def closed_or_lost_def)
qed

lemma cs_halted:
  assumes "act_spec False w anything anything a"
  shows "ctl_spec w halted a (\<lambda>_. halted) poll_refused"
  using cs_keep [OF assms stable_halted] by (rule cs_weaken) (auto simp: poll_refused_def closed_or_lost_def halted_begun)

lemma cancel_halts:
  assumes "begun UNIV c"
  shows "halted (c\<lparr>ct_log := moved (snd (gw_cancel calls (gateway_of c))) (ct_log c)\<rparr>)"
  using assms by (auto simp: begun_def log_begun_def halted_def log_halted_def gw_cancel_def cancel_locked_def require_state_def record_stop_def
      do_transition_eq Let_def)

lemma cs_cancel: "ctl_spec w (begun UNIV) (cancel_gateway w) (\<lambda>_. halted) poll_refused"
  unfolding cancel_gateway_def
proof (rule cs_after)
  show "ctl_spec w (begun UNIV) (on_gateway w (\<lambda>t. gw_cancel (mo_stops (tn_log t))))
      (\<lambda>r c. halted c \<and> (\<forall>code. r \<noteq> Raise (RuntimeControllerError code))) poll_refused"
    by (rule cs_gateway [OF stable_begun op_cancel]) (auto simp: cancel_halts dest: cancel_error)
  fix r :: "transition result"
  show "ctl_spec w (\<lambda>c. halted c \<and> (\<forall>code. r \<noteq> Raise (RuntimeControllerError code))) (lift_result r) (\<lambda>_. halted) poll_refused"
    by (rule cs_lift) (auto simp: poll_refused_def halted_begun)
qed

lemma cs_poll_heartbeat: "ctl_spec w (begun UNIV) (heartbeat_record w) (\<lambda>_. begun UNIV) poll_refused"
  by (rule cs_weaken [OF cs_beat]) (auto simp: refused_def poll_refused_def closed_or_lost_def)

lemma cs_any: "act_spec False w anything (\<lambda>_. False) a \<Longrightarrow> ctl_spec w (begun UNIV) a (\<lambda>_. begun UNIV) E"
  by (rule cs_weaken [OF cs_keep [OF _ stable_begun]]) auto

lemma cs_refused: "ctl_spec w S (after (latch_adapter_fault w) (\<lambda>_. fail_with e)) Q poll_refused"
  by (rule cs_weaken [OF cs_refuse]) (auto simp: poll_refused_def closed_or_lost_def halted_begun)

lemma cs_finish: "ctl_spec w (begun UNIV) (finish_succeeded_task w status) (\<lambda>_. halted) poll_refused"
  unfolding finish_succeeded_task_def
proof (rule cs_after)
  show "ctl_spec w (begun UNIV) (catching (freeze_evidence w) (\<lambda>e. case e of
      RuntimeControllerError _ \<Rightarrow> after (latch_adapter_fault w) (\<lambda>_. after (start_task_cleanup w) (\<lambda>_. fail_with e))
    | _ \<Rightarrow> fail_with e)) (\<lambda>_. begun UNIV) poll_refused"
  proof (rule cs_catching)
    have "act_spec False w anything public_error (freeze_evidence w)" by (rule spec_rules | simp)+
    from cs_keep [OF this stable_begun [of UNIV]]
    show "ctl_spec w (begun UNIV) (freeze_evidence w) (\<lambda>_. begun UNIV) (\<lambda>e c. public_error e \<and> begun UNIV c)" .
    fix e
    have "ctl_spec w (begun UNIV) (after (latch_adapter_fault w) (\<lambda>_. after (start_task_cleanup w) (\<lambda>_. fail_with e)))
        (\<lambda>_. begun UNIV) poll_refused"
    proof (rule cs_after)
      show "ctl_spec w (begun UNIV) (latch_adapter_fault w) (\<lambda>_. halted) poll_refused"
        by (rule cs_weaken [OF cs_latch]) (auto simp: poll_refused_def closed_or_lost_def halted_begun)
      have "act_spec False w anything anything (after (start_task_cleanup w) (\<lambda>_. fail_with e))"
        by (rule spec_then spec_rules | simp)+
      from cs_halted [OF this] show "ctl_spec w halted (after (start_task_cleanup w) (\<lambda>_. fail_with e)) (\<lambda>_. begun UNIV) poll_refused"
        by (rule cs_weaken) (auto simp: halted_begun)
    qed
    then show "ctl_spec w (\<lambda>c. public_error e \<and> begun UNIV c) (case e of
        RuntimeControllerError _ \<Rightarrow> after (latch_adapter_fault w) (\<lambda>_. after (start_task_cleanup w) (\<lambda>_. fail_with e))
      | _ \<Rightarrow> fail_with e) (\<lambda>_. begun UNIV) poll_refused"
      by (intro cs_fact) (auto simp: public_error_def)
  qed
  have "act_spec False w anything anything (after (append_record w CANCEL t None OK) (\<lambda>_. after (observe_state w) (\<lambda>_.
      after (update (\<lambda>c. c\<lparr>ct_monitor_stop := True\<rparr>)) (\<lambda>_. done_with status))))" for t
    by (rule spec_append spec_then spec_rules | simp)+
  then show "ctl_spec w (begun UNIV) (after (start_task_cleanup w) (\<lambda>_. after (cancel_gateway w) (\<lambda>t.
      after (append_record w CANCEL t None OK) (\<lambda>_. after (observe_state w) (\<lambda>_.
      after (update (\<lambda>c. c\<lparr>ct_monitor_stop := True\<rparr>)) (\<lambda>_. done_with status)))))) (\<lambda>_. halted) poll_refused"
    by (intro cs_after [OF cs_any] cs_after [OF cs_cancel] cs_halted) (rule spec_rules | simp)+
qed

text \<open>An adapter that is started stage by stage: its next stage raises the controller's errors and its own, never the gateway's.\<close>

definition staged :: "adapter_kind set" where "staged = {PlainAdapter, DeliveryAdapter}"

lemma staged_refused: "begun staged c \<Longrightarrow> (\<And>code. e \<noteq> SafetyError code) \<Longrightarrow> poll_refused e c"
  by (auto simp: staged_def begun_def poll_refused_def closed_or_lost_def)

lemma cs_next_stage:
  assumes "proper_world w"
  shows "ctl_spec w (begun staged) (next_stage w task) (\<lambda>_. begun UNIV) poll_refused"
proof -
  have "act_spec False w anything (\<lambda>e. \<forall>code. e \<noteq> SafetyError code) (next_stage w task)"
    unfolding next_stage_def
    by (rule spec_after [OF spec_asking [where P = "\<lambda>r. \<forall>e. r = Raise e \<longrightarrow> (\<forall>code. e \<noteq> SafetyError code)" and f = tn_status]]
        spec_then spec_issue [OF assms] spec_rules
      | assumption | (use proper_worldD(5) [OF assms] in blast) | (auto simp: public_error_def; fail) | simp)+
  from cs_begun [OF this, of staged] show ?thesis
    by (rule cs_weaken) (auto simp: refused_def begun_def staged_def poll_refused_def closed_or_lost_def)
qed

lemma cs_poll_success:
  assumes "proper_world w"
  shows "ctl_spec w (begun UNIV) (poll_success w status) (\<lambda>_. begun UNIV) poll_refused"
  unfolding poll_success_def
proof (rule cs_after [OF cs_reading [where Q = "\<lambda>r c. begun UNIV c \<and> fst (snd r) = ct_adapter c"]])
  fix r :: "task_profile option \<times> adapter_kind \<times> nat"
  obtain task kind i where r: "r = (task, kind, i)" by (metis surj_pair)
  have finish: "ctl_spec w (begun UNIV) (after (finish_succeeded_task w status) (\<lambda>_. done_with False)) (\<lambda>_. begun UNIV) poll_refused"
    by (rule cs_after [OF cs_finish]) (simp add: cs_done halted_begun)
  have next_ones: "ctl_spec w (begun staged) (after (next_stage w t) (\<lambda>_. done_with True)) (\<lambda>_. begun UNIV) poll_refused" for t
    by (rule cs_after [OF cs_next_stage [OF assms]]) (simp add: cs_done)
  show "ctl_spec w (\<lambda>c. begun UNIV c \<and> fst (snd r) = ct_adapter c) (case r of (task, kind, i) \<Rightarrow>
      case task of None \<Rightarrow> done_with True
      | Some t \<Rightarrow>
          if as_state status \<noteq> ''succeeded'' then done_with True
          else if kind = CaseAdapter \<or> \<not> Suc i < length (tp_stages t)
          then after (finish_succeeded_task w status) (\<lambda>_. done_with False)
          else after (next_stage w t) (\<lambda>_. done_with True)) (\<lambda>_. begun UNIV) poll_refused"
  proof (cases task)
    case (Some t)
    show ?thesis unfolding r Some
    proof (simp, intro conjI impI)
      assume "kind \<noteq> CaseAdapter \<and> Suc i < length (tp_stages t)"
      then have "begun UNIV c \<and> kind = ct_adapter c \<Longrightarrow> begun staged c" for c
        by (cases "ct_adapter c") (auto simp: begun_def staged_def)
      with next_ones show "ctl_spec w (\<lambda>c. begun UNIV c \<and> kind = ct_adapter c) (after (next_stage w t) (\<lambda>_. done_with True)) (\<lambda>_. begun UNIV) poll_refused"
        by (rule cs_weaken) auto
    qed (auto intro: cs_done cs_weaken [OF finish])
  next
    case None
    show ?thesis unfolding r None by simp (rule cs_done, simp)
  qed
qed simp

abbreviation poll_budget :: "adapter_status \<Rightarrow> ctl \<Rightarrow> string option result" where
  "poll_budget status c \<equiv> if ct_adapter c = CaseAdapter then hospital_budget_error status (ct_task c) else Ret None"

lemma cs_budget: "ctl_spec w S (reading (poll_budget status)) (\<lambda>r c. errs {PyOverflowError, PyIndexError} r \<and> S c) E"
  by (rule cs_reading) (simp add: budget_errs)

lemma cs_set_status: "ctl_spec w (begun ks) (update (\<lambda>c. c\<lparr>ct_status := Some status\<rparr>)) (\<lambda>_. begun ks) E"
  by (rule cs_update) (simp_all add: begun_def)

lemma cs_budget_raise:
  "ctl_spec w (\<lambda>c. errs {PyOverflowError, PyIndexError} r \<and> begun UNIV c) (lift_result r) (\<lambda>_. begun UNIV) poll_refused"
  by (rule cs_lift) (auto simp: errs_def poll_refused_def)

lemma cs_poll_body:
  assumes "proper_world w"
  shows "ctl_spec w (begun UNIV) (poll_body w) (\<lambda>_. begun UNIV) poll_refused"
  unfolding poll_body_def
proof (rule cs_adapter [OF assms], rule cs_after [OF cs_set_status], rule cs_after [OF cs_budget], rule cs_after [OF cs_budget_raise])
  fix status :: adapter_status and budget_error :: "string option"
  have rest: "ctl_spec w (begun UNIV) (after (cancel_gateway w) (\<lambda>t. after (append_record w CANCEL t None OK) (\<lambda>_.
      after (observe_state w) (\<lambda>_. after (update (\<lambda>c. c\<lparr>ct_monitor_stop := True\<rparr>)) (\<lambda>_. done_with status))))) (\<lambda>_. begun UNIV) poll_refused"
  proof (rule cs_after [OF cs_cancel])
    fix t
    have "act_spec False w anything anything (after (append_record w CANCEL t None OK) (\<lambda>_.
      after (observe_state w) (\<lambda>_. after (update (\<lambda>c. c\<lparr>ct_monitor_stop := True\<rparr>)) (\<lambda>_. done_with status))))"
      by (rule spec_append spec_then spec_rules | simp)+
    from cs_halted [OF this] show "ctl_spec w halted (after (append_record w CANCEL t None OK) (\<lambda>_.
      after (observe_state w) (\<lambda>_. after (update (\<lambda>c. c\<lparr>ct_monitor_stop := True\<rparr>)) (\<lambda>_. done_with status)))) (\<lambda>_. begun UNIV) poll_refused"
      by (rule cs_weaken) (auto simp: halted_begun)
  qed
  have state: "ctl_spec w (begun UNIV) (gateway_state w) (\<lambda>_. begun UNIV) poll_refused"
    by (rule cs_any) (rule spec_rules, simp)
  have beat: "ctl_spec w (begun UNIV) (after (gateway_state w) (\<lambda>st. after (only_if (beats \<and> st = RUNNING) (heartbeat_record w))
      (\<lambda>_. done_with status))) (\<lambda>_. begun UNIV) poll_refused" for beats
    by (rule cs_after [OF state], rule cs_after [where R = "\<lambda>_. begun UNIV", OF cs_only_if]) (auto intro: cs_poll_heartbeat cs_done)
  show "ctl_spec w (begun UNIV)
     (after (case budget_error of None \<Rightarrow> done_with ()
       | Some code \<Rightarrow> after (latch_adapter_fault w) (\<lambda>_. refuse_with code)) (\<lambda>_.
     after (gateway_state w) (\<lambda>st.
     if st \<noteq> RUNNING then done_with status
     else after (reading ct_cancel_requested) (\<lambda>requested.
       if as_state status = ''cancelled'' \<and> requested then
         after (cancel_gateway w) (\<lambda>t.
         after (append_record w CANCEL t None OK) (\<lambda>_.
         after (observe_state w) (\<lambda>_.
         after (update (\<lambda>c. c\<lparr>ct_monitor_stop := True\<rparr>)) (\<lambda>_. done_with status))))
       else if as_state status \<in> {''failed'', ''faulted'', ''rejected'', ''cancelled''} then
         after (latch_adapter_fault w) (\<lambda>_. refuse_with ''UNSAFE_STATE'')
       else
         after (poll_success w status) (\<lambda>beats.
         after (gateway_state w) (\<lambda>st.
         after (only_if (beats \<and> st = RUNNING) (heartbeat_record w)) (\<lambda>_. done_with status))))))) (\<lambda>_. begun UNIV) poll_refused"
    by (rule cs_after [where R = "\<lambda>_. begun UNIV"], (auto intro: cs_done cs_refused split: option.split)[1],
      rule cs_after [OF state], rule cs_if, rule cs_done, assumption,
      rule cs_after [OF cs_reading [where Q = "\<lambda>_. begun UNIV"]], assumption,
      intro cs_if rest cs_refused cs_after [OF cs_poll_success [OF assms]] beat)
qed (simp add: poll_refused_def)

text \<open>A poll that raises leaves the gateway at rest, unless the audit is lost or the run is staged.\<close>

lemma cs_poll_running:
  assumes "proper_world w"
  shows "ctl_spec w (begun UNIV) (poll_running w) (\<lambda>_. begun UNIV) closed_or_lost"
proof -
  have latch: "ctl_spec w S (after (latch_adapter_fault w) (\<lambda>_. fail_with e)) Q closed_or_lost" for S e Q
    by (rule cs_weaken [OF cs_refuse]) (auto simp: closed_or_lost_def)
  have time: "ctl_spec w (begun UNIV) (asking w tn_clock) (\<lambda>_. begun UNIV) closed_or_lost"
    by (rule cs_any) (rule spec_rules, simp)
  show ?thesis unfolding poll_running_def
  proof (rule cs_after [OF cs_reading [where Q = "\<lambda>_. begun UNIV"]], assumption, rule cs_after [OF time],
      rule cs_after [where R = "\<lambda>_. begun UNIV", OF cs_only_if [OF latch]], assumption, rule cs_catching [OF cs_poll_body [OF assms]])
    fix e
    show "ctl_spec w (poll_refused e) (case e of
         AdapterError code \<Rightarrow> after (latch_adapter_fault w) (\<lambda>_. refuse_with code)
       | SafetyError code \<Rightarrow> safety_fault w code
       | RuntimeControllerError _ \<Rightarrow> fail_with e
       | _ \<Rightarrow> after (latch_adapter_fault w) (\<lambda>_. refuse_with ''UNSAFE_STATE'')) (\<lambda>_. begun UNIV) closed_or_lost"
    proof (cases e)
      case (SafetyError code)
      then show ?thesis by simp (rule cs_weaken [OF cs_safety_fault]; auto simp: poll_refused_def closed_or_lost_def)
    next
      case (RuntimeControllerError code)
      then show ?thesis by (simp, intro cs_fail) (simp add: poll_refused_def)
    qed (simp_all add: latch)
  qed
qed

end
