(* ===== verification/ControllerClaims.thy ===== *)
theory ControllerClaims
  imports ControllerSafety
begin

text \<open>
  The properties of the runtime controller's handlers, on the specifications of their steps: the transition log of a session
  is a run of its machine, an emergency stop is final, what fails leaves the gateway at rest, a success has its evidence frozen,
  and every handler returns once the deadlines it waits for pass.
\<close>

section \<open>Handlers return\<close>

text \<open>\<open>returns w T a\<close>: from any state with the timeout \<open>T\<close> the action has a result, and keeps the timeout.\<close>

definition returns :: "pyfloat \<Rightarrow> 'a act \<Rightarrow> bool" where
  "returns T a \<longleftrightarrow> (\<forall>c. ct_timeout c = T \<longrightarrow> (\<exists>r c'. a c = Some (r, c') \<and> ct_timeout c' = T))"

named_theorems return_rules \<open>actions that return\<close>

lemma returnsD: "returns T a \<Longrightarrow> ct_timeout c = T \<Longrightarrow> \<exists>r c'. a c = Some (r, c') \<and> ct_timeout c' = T"
  by (simp add: returns_def)

lemma return_after [return_rules]:
  assumes "returns T a" "\<And>x. returns T (f x)" shows "returns T (after a f)"
  unfolding returns_def
proof (intro allI impI)
  fix c :: ctl assume "ct_timeout c = T"
  with returnsD [OF assms(1)] obtain r c1 where a: "a c = Some (r, c1)" "ct_timeout c1 = T" by blast
  show "\<exists>r c'. after a f c = Some (r, c') \<and> ct_timeout c' = T"
    using a returnsD [OF assms(2)] by (cases r) (auto simp: after_def)
qed

lemma return_catching [return_rules]:
  assumes "returns T a" "\<And>e. returns T (h e)" shows "returns T (catching a h)"
  unfolding returns_def
proof (intro allI impI)
  fix c :: ctl assume "ct_timeout c = T"
  with returnsD [OF assms(1)] obtain r c1 where a: "a c = Some (r, c1)" "ct_timeout c1 = T" by blast
  show "\<exists>r c'. catching a h c = Some (r, c') \<and> ct_timeout c' = T"
    using a returnsD [OF assms(2)] by (cases r) (auto simp: catching_def)
qed

lemma return_done [return_rules]: "returns T (done_with x)"
  and return_fail [return_rules]: "returns T (fail_with e)"
  and return_ensure [return_rules]: "returns T (ensure b code)"
  and return_lift [return_rules]: "returns T (lift_result r)"
  and return_reading [return_rules]: "returns T (reading f)"
  and return_gateway [return_rules]: "returns T (on_gateway w g)"
  by (auto simp: returns_def done_with_def fail_with_def ensure_def lift_result_def reading_def on_gateway_def Let_def split: sum.split)

lemma return_update [return_rules]: "(\<And>c. ct_timeout (f c) = ct_timeout c) \<Longrightarrow> returns T (update f)"
  by (simp add: returns_def update_def)

lemma return_if [return_rules]: "(x \<Longrightarrow> returns T a) \<Longrightarrow> (\<not> x \<Longrightarrow> returns T a') \<Longrightarrow> returns T (if x then a else a')"
  and return_pair [return_rules]: "(\<And>y z. returns T (f y z)) \<Longrightarrow> returns T (case p of (y, z) \<Rightarrow> f y z)"
  and return_option [return_rules]: "returns T a \<Longrightarrow> (\<And>y. returns T (g y)) \<Longrightarrow> returns T (case u of None \<Rightarrow> a | Some y \<Rightarrow> g y)"
  and return_sum [return_rules]: "(\<And>y. returns T (l y)) \<Longrightarrow> (\<And>z. returns T (k z)) \<Longrightarrow> returns T (case v of Inl y \<Rightarrow> l y | Inr z \<Rightarrow> k z)"
  by (simp_all split: prod.split option.split sum.split)

lemma return_only_if [return_rules]: "returns T a \<Longrightarrow> returns T (only_if x a)"
  by (simp add: only_if_def) (simp add: return_done)

lemma return_asking [return_rules]: "returns T (asking w h)" and return_state [return_rules]: "returns T (gateway_state w)"
  by (simp_all add: asking_def gateway_state_def return_gateway)

lemma return_exn [return_rules]:
  "returns T f0 \<Longrightarrow> returns T f1 \<Longrightarrow> (\<And>code. returns T (f2 code)) \<Longrightarrow> returns
   T f3 \<Longrightarrow> returns T f4 \<Longrightarrow> returns T f5 \<Longrightarrow> (\<And>code. returns T (f6 code))
   \<Longrightarrow> (\<And>code. returns T (f7 code)) \<Longrightarrow> (\<And>code. returns T (f8 code)) \<Longrightarrow>
   returns T f9 \<Longrightarrow> returns T f10 \<Longrightarrow> returns T f11 \<Longrightarrow> returns T f12
   \<Longrightarrow> returns T f13 \<Longrightarrow> returns T f14 \<Longrightarrow> returns T f15 \<Longrightarrow> returns
   T f16 \<Longrightarrow> returns T f17 \<Longrightarrow> returns T f18 \<Longrightarrow> returns T f19 \<Longrightarrow>
   returns T f20 \<Longrightarrow> returns T (case_py_exn f0 f1 f2 f3 f4 f5 f6 f7 f8 f9 f10 f11 f12 f13 f14 f15 f16 f17 f18
   f19 f20 e)"
  by (cases e) simp_all

lemma return_log:
  "(\<And>n s. \<exists>y. f n s = Some y) \<Longrightarrow> returns T (on_log f)"
  unfolding returns_def
proof (intro allI impI)
  fix c :: ctl assume f: "\<And>n s. \<exists>y. f n s = Some y" and c: "ct_timeout c = T"
  from f obtain r n s where "f (ct_time c) (ct_log c) = Some (r, n, s)" by (metis surj_pair)
  with c show "\<exists>r c'. on_log f c = Some (r, c') \<and> ct_timeout c' = T" by (simp add: on_log_def)
qed

text \<open>The deadlines that the drains wait for pass, and an append that is given no time does not succeed.\<close>

definition expires :: "world \<Rightarrow> pyfloat \<Rightarrow> bool" where
  "expires w d \<longleftrightarrow> (\<exists>N. \<forall>k \<ge> N. expired_at d (tn_log (w k)) \<and> mo_append (tn_log (w k)) (Fin 0) \<noteq> Appended)"

definition patient :: "world \<Rightarrow> pyfloat \<Rightarrow> bool" where
  "patient w T \<longleftrightarrow> (\<forall>n. expires w (fadd (mo_clock (tn_log (w n))) T)) \<and>
     (\<forall>d n. expires w d \<longrightarrow> expires w (fadd (mo_clock (tn_log (w n))) (time_left d (tn_log (w n)))))"

lemma drain_returns: "expires w (fadd (mo_clock (tn_log (w n))) T) \<Longrightarrow> \<exists>y. drain_pending (audit_world w) wait_for T n s = Some y"
  using drain_loop_returns [where w = "audit_world w"] by (auto simp: expires_def drain_pending_def)

lemma return_append:
  assumes "patient w T" shows "returns T (append_record w operation t data outcome)"
  unfolding returns_def
proof (intro allI impI)
  fix c :: ctl assume c: "ct_timeout c = T"
  obtain r s where r: "register_transition operation t data outcome (mo_others (tn_log (w (ct_time c))) False (ct_log c)) = (r, s)"
    by (metis surj_pair)
  have "\<exists>y. append_transition (audit_world w) T operation t data outcome (ct_time c) (ct_log c) = Some y"
    using drain_returns [of w "Suc (ct_time c)" T] assms by (cases r) (simp_all add: append_transition_def r patient_def)
  then obtain r' n s' where "append_transition (audit_world w) T operation t data outcome (ct_time c) (ct_log c) = Some (r', n, s')"
    by (metis surj_pair)
  then show "\<exists>r c'. append_record w operation t data outcome c = Some (r, c') \<and> ct_timeout c' = T"
    by (simp add: append_record_def after_def reading_def on_log_def c)
qed

lemma return_register [return_rules]: "returns T (register_record w operation t)"
  unfolding register_record_def by (intro return_rules return_log) (simp split: prod.split)

lemma return_drain_within:
  "patient w T \<Longrightarrow> expires w d \<Longrightarrow> returns T (drain_failed_within w d)"
  unfolding drain_failed_within_def by (intro return_rules return_log drain_returns) (simp add: patient_def)

lemma return_drain:
  assumes "patient w T"
  shows "returns T (after (reading ct_timeout) (\<lambda>timeout. after (on_log (drain_pending (audit_world w) None timeout)) (\<lambda>_. done_with x)))"
  unfolding returns_def
proof (intro allI impI)
  fix c :: ctl assume c: "ct_timeout c = T"
  from assms obtain r n s where "drain_pending (audit_world w) None T (ct_time c) (ct_log c) = Some (r, n, s)"
    using drain_returns [of w "ct_time c" T] by (metis patient_def surj_pair)
  then show "\<exists>r c'. after (reading ct_timeout) (\<lambda>timeout. after (on_log (drain_pending (audit_world w) None timeout)) (\<lambda>_. done_with x)) c =
      Some (r, c') \<and> ct_timeout c' = T"
    using c by (cases r) (simp_all add: after_def reading_def on_log_def done_with_def)
qed

lemma return_deadline:
  assumes "patient w T" "\<And>d. expires w d \<Longrightarrow> returns T (f d)"
  shows "returns T (after (reading ct_timeout) (\<lambda>timeout. after (asking w (\<lambda>t. fadd (mo_clock (tn_log t)) timeout)) f))"
  unfolding returns_def
proof (intro allI impI)
  fix c :: ctl assume c: "ct_timeout c = T"
  let ?t = "w (ct_time c)"
  have "expires w (fadd (mo_clock (tn_log ?t)) T)" using assms(1) by (simp add: patient_def)
  from returnsD [OF assms(2) [OF this]] c
  show "\<exists>r c'. after (reading ct_timeout) (\<lambda>timeout. after (asking w (\<lambda>t. fadd (mo_clock (tn_log t)) timeout)) f) c = Some (r, c') \<and>
      ct_timeout c' = T"
    by (simp add: after_def reading_def asking_def on_gateway_def Let_def)
qed

lemmas handler_defs =
  discover_gateway_def bind_adapter_def report_gateway_def validate_profile_def validate_adapter_def adapter_guard_def arm_robot_def
  arm_adapter_def arm_gateway_def run_task_def issue_permit_def begin_run_def activate_def refuse_lost_def activation_lost_def
  heartbeat_record_def beat_gateway_def safety_fault_def enter_task_def start_monitor_def task_status_def cancel_task_def
  cancel_adapter_def cancel_gateway_def emergency_stop_def physical_estop_def observe_source_def
  poll_running_def poll_body_def poll_success_def next_stage_def finish_succeeded_task_def freeze_evidence_def
  latch_adapter_fault_def estop_gateway_def append_latest_fault_def append_if_def observe_state_def start_task_cleanup_def
  ensure_available_def stop_gateway_def

lemma returns_some: "returns (ct_timeout c) a \<Longrightarrow> \<exists>y. a c = Some y"
  by (auto simp: returns_def)

lemma handlers_return_all:
  assumes "patient w T"
  shows "returns T (discover_gateway w report)" "returns T (validate_profile w name)" "returns T (arm_robot w name challenge dry_run)"
    "returns T (run_task w store name dry_run)" "returns T (task_status w)" "returns T (cancel_task w)" "returns T (emergency_stop w)"
    "returns T (physical_estop w asserted)" "returns T (observe_source w source)" "returns T (monitor_turn w)" "returns T (stop_runtime w)"
  unfolding handler_defs monitor_turn_def stop_runtime_def
  by (intro return_deadline [OF assms] return_drain [OF assms] return_drain_within [OF assms] return_append [OF assms] return_rules; (assumption | simp))+

section \<open>What actions leave alone\<close>

text \<open>\<open>keeps F a\<close>: however the action ends, \<open>F\<close> of the controller is what it was. The log and the count of turns are not among
  the fields \<open>F\<close> looks at.\<close>

definition keeps :: "(ctl \<Rightarrow> 'b) \<Rightarrow> 'a act \<Rightarrow> bool" where
  "keeps F a \<longleftrightarrow> (\<forall>c r c'. a c = Some (r, c') \<longrightarrow> F c' = F c)"

definition own :: "(ctl \<Rightarrow> 'b) \<Rightarrow> bool" where
  "own F \<longleftrightarrow> (\<forall>c n s. F (c\<lparr>ct_time := n, ct_log := s\<rparr>) = F c)"

named_theorems keep_rules \<open>actions that leave fields alone\<close>

lemma keep_after [keep_rules]: "keeps F a \<Longrightarrow> (\<And>x. keeps F (f x)) \<Longrightarrow> keeps F (after a f)"
  unfolding keeps_def after_def by (fastforce split: option.splits sum.splits)

lemma keep_catching [keep_rules]: "keeps F a \<Longrightarrow> (\<And>e. keeps F (h e)) \<Longrightarrow> keeps F (catching a h)"
  unfolding keeps_def catching_def by (fastforce split: option.splits sum.splits)

lemma keep_done [keep_rules]: "keeps F (done_with x)" and keep_fail [keep_rules]: "keeps F (fail_with e)"
  and keep_ensure [keep_rules]: "keeps F (ensure b code)" and keep_lift [keep_rules]: "keeps F (lift_result r)"
  and keep_reading [keep_rules]: "keeps F (reading f)"
  by (auto simp: keeps_def done_with_def fail_with_def ensure_def lift_result_def reading_def split: sum.splits if_splits)

lemma keep_update [keep_rules]: "(\<And>c. F (f c) = F c) \<Longrightarrow> keeps F (update f)"
  by (simp add: keeps_def update_def)

lemma keep_gateway [keep_rules]: "own F \<Longrightarrow> keeps F (on_gateway w g)"
  by (auto simp: keeps_def own_def on_gateway_def Let_def)

lemma keep_log [keep_rules]: "own F \<Longrightarrow> keeps F (on_log g)"
  by (auto simp: keeps_def own_def on_log_def split: option.splits)

lemma keep_asking [keep_rules]: "own F \<Longrightarrow> keeps F (asking w h)" and keep_state [keep_rules]: "own F \<Longrightarrow> keeps F (gateway_state w)"
  by (simp_all add: asking_def gateway_state_def keep_gateway)

lemma keep_if [keep_rules]: "(x \<Longrightarrow> keeps F a) \<Longrightarrow> (\<not> x \<Longrightarrow> keeps F a') \<Longrightarrow> keeps F (if x then a else a')"
  and keep_pair [keep_rules]: "(\<And>y z. keeps F (g y z)) \<Longrightarrow> keeps F (case p of (y, z) \<Rightarrow> g y z)"
  and keep_option [keep_rules]: "keeps F a \<Longrightarrow> (\<And>y. keeps F (h y)) \<Longrightarrow> keeps F (case u of None \<Rightarrow> a | Some y \<Rightarrow> h y)"
  by (simp_all split: prod.split option.split)

lemma keep_only_if [keep_rules]: "keeps F a \<Longrightarrow> keeps F (only_if b a)"
  by (simp add: only_if_def) (simp add: keep_done)

lemma keep_append [keep_rules]: "own F \<Longrightarrow> keeps F (append_record w operation t data outcome)"
  unfolding append_record_def by (intro keep_rules)

text \<open>\<open>gives S a Q\<close>: where the action, begun in \<open>S\<close>, returns a value, that value and the controller are in \<open>Q\<close>.\<close>

definition gives :: "(ctl \<Rightarrow> bool) \<Rightarrow> 'a act \<Rightarrow> ('a \<Rightarrow> ctl \<Rightarrow> bool) \<Rightarrow> bool" where
  "gives S a Q \<longleftrightarrow> (\<forall>c x c'. S c \<longrightarrow> a c = Some (Ret x, c') \<longrightarrow> Q x c')"

lemma givesD: "gives S a Q \<Longrightarrow> S c \<Longrightarrow> a c = Some (Ret x, c') \<Longrightarrow> Q x c'"
  by (simp add: gives_def)

lemma gives_after: "gives S a R \<Longrightarrow> (\<And>x. gives (R x) (f x) Q) \<Longrightarrow> gives S (after a f) Q"
  unfolding gives_def after_def by (fastforce split: option.splits sum.splits)

lemma gives_catching: "gives S a Q \<Longrightarrow> (\<And>e. gives (\<lambda>_. True) (h e) Q) \<Longrightarrow> gives S (catching a h) Q"
  unfolding gives_def catching_def by (fastforce split: option.splits sum.splits)

lemma gives_fail: "gives S (fail_with e) Q"
  by (simp add: gives_def fail_with_def)

lemma gives_done: "(\<And>c. S c \<Longrightarrow> Q x c) \<Longrightarrow> gives S (done_with x) Q"
  by (simp add: gives_def done_with_def)

lemma gives_ensure: "(\<And>c. b \<Longrightarrow> S c \<Longrightarrow> Q () c) \<Longrightarrow> gives S (ensure b code) Q"
  by (simp add: gives_def ensure_def done_with_def fail_with_def)

lemma gives_reading: "(\<And>c. S c \<Longrightarrow> Q (f c) c) \<Longrightarrow> gives S (reading f) Q"
  by (simp add: gives_def reading_def)

lemma gives_update: "(\<And>c. S c \<Longrightarrow> Q () (f c)) \<Longrightarrow> gives S (update f) Q"
  by (simp add: gives_def update_def)

lemma gives_lift: "(\<And>x c. r = Ret x \<Longrightarrow> S c \<Longrightarrow> Q x c) \<Longrightarrow> gives S (lift_result r) Q"
  by (cases r) (auto simp: gives_def lift_result_def done_with_def fail_with_def)

lemma gives_keep: "keeps F a \<Longrightarrow> (\<And>c c'. S c \<Longrightarrow> F c' = F c \<Longrightarrow> Q c') \<Longrightarrow> gives S a (\<lambda>_. Q)"
  unfolding gives_def keeps_def by blast

lemma gives_refuse: "gives S (after a (\<lambda>_. fail_with e)) Q"
  unfolding gives_def after_def fail_with_def by (auto split: option.splits sum.splits)

lemma gives_weaken: "gives S a Q \<Longrightarrow> (\<And>c. S' c \<Longrightarrow> S c) \<Longrightarrow> (\<And>x c. Q x c \<Longrightarrow> Q' x c) \<Longrightarrow> gives S' a Q'"
  unfolding gives_def by blast

section \<open>Hardware\<close>

definition stop_bound :: "robot_profile \<Rightarrow> ctl \<Rightarrow> bool" where
  "stop_bound profile c \<longleftrightarrow> ct_profile c = profile \<and>
     (rp_mode profile = ''hardware'' \<longrightarrow> ct_estop_bound c \<and> ct_adapter c \<noteq> DeliveryAdapter)"

definition safety_verified :: "robot_profile \<Rightarrow> ctl \<Rightarrow> bool" where
  "safety_verified profile c \<longleftrightarrow> stop_bound profile c \<and> (rp_mode profile = ''hardware'' \<longrightarrow> ct_hw_verified c)"

abbreviation safety_fields :: "ctl \<Rightarrow> robot_profile \<times> bool \<times> adapter_kind \<times> bool" where
  "safety_fields c \<equiv> (ct_profile c, ct_estop_bound c, ct_adapter c, ct_hw_verified c)"

lemma own_safety: "own safety_fields"
  by (simp add: own_def)

lemma gives_kept: "keeps safety_fields a \<Longrightarrow> gives (\<lambda>c. P (safety_fields c)) a (\<lambda>_ c. P (safety_fields c))"
  by (auto simp: gives_def keeps_def)

lemma verified_kept: "keeps safety_fields a \<Longrightarrow> gives (safety_verified profile) a (\<lambda>_. safety_verified profile)"
  and profile_kept: "keeps safety_fields a \<Longrightarrow> gives (\<lambda>c. ct_profile c = profile) a (\<lambda>_ c. ct_profile c = profile)"
  and bound_kept: "keeps safety_fields a \<Longrightarrow> gives (stop_bound profile) a (\<lambda>_. stop_bound profile)"
  unfolding safety_verified_def stop_bound_def by (auto simp: gives_def keeps_def)

lemma validate_adapter_bound: "gives (\<lambda>c. ct_profile c = profile) (validate_adapter w profile) (\<lambda>_. safety_verified profile)"
  unfolding validate_adapter_def
proof (rule gives_after [OF profile_kept], intro keep_rules own_safety, rule gives_after [OF profile_kept], intro keep_rules,
    rule gives_after [OF profile_kept], intro keep_rules own_safety, rule gives_after [OF profile_kept], intro keep_rules,
    rule gives_after [OF gives_reading [where Q = "\<lambda>bad c. ct_profile c = profile \<and> (\<not> bad \<longrightarrow> stop_bound profile c)"]])
  fix c :: ctl assume "ct_profile c = profile"
  then show "ct_profile c = profile \<and> (\<not> (rp_mode profile = ''hardware'' \<and> (\<not> ct_estop_bound c \<or> ct_adapter c = DeliveryAdapter)) \<longrightarrow>
      stop_bound profile c)"
    by (auto simp: stop_bound_def)
next
  fix bad
  have "gives (\<lambda>c. ct_profile c = profile \<and> (\<not> bad \<longrightarrow> stop_bound profile c))
      (if bad then fail_with (AdapterError ''PROFILE_INVALID'') else done_with ()) (\<lambda>_. stop_bound profile)"
    by (auto intro: gives_fail gives_done)
  moreover have "gives (stop_bound profile) (only_if (rp_mode profile = ''hardware'') (update (\<lambda>c. c\<lparr>ct_hw_verified := True\<rparr>)))
      (\<lambda>_. safety_verified profile)"
    by (auto simp: only_if_def safety_verified_def stop_bound_def intro: gives_update gives_done)
  moreover have "keeps safety_fields (after (on_gateway w (\<lambda>_. gw_validate)) lift_result)" by (intro keep_rules own_safety)
  ultimately show "gives (\<lambda>c. ct_profile c = profile \<and> (\<not> bad \<longrightarrow> stop_bound profile c))
      (after (if bad then fail_with (AdapterError ''PROFILE_INVALID'') else done_with ()) (\<lambda>_.
       after (only_if (rp_mode profile = ''hardware'') (update (\<lambda>c. c\<lparr>ct_hw_verified := True\<rparr>))) (\<lambda>_.
       after (on_gateway w (\<lambda>_. gw_validate)) lift_result))) (\<lambda>_. safety_verified profile)"
    by (intro gives_after [where R = "\<lambda>_. stop_bound profile"] gives_after [where R = "\<lambda>_. safety_verified profile"] verified_kept)
qed

lemma gives_guard: "gives S a Q \<Longrightarrow> gives S (adapter_guard w a) Q"
  unfolding adapter_guard_def by (rule gives_catching, assumption, case_tac e) (simp_all add: gives_refuse gives_fail)

lemma validated_bound:
  "gives (\<lambda>_. True) (validate_profile w name) (\<lambda>_ c. \<exists>profile. rp_name profile = name \<and> safety_verified profile c)"
  unfolding validate_profile_def
proof (rule gives_after [where R = "\<lambda>_ _. True"], simp add: gives_def,
    rule gives_after [OF gives_reading [where Q = "\<lambda>profile c. ct_profile c = profile"]], rule refl,
    rule gives_after [OF gives_ensure [where Q = "\<lambda>_ c. ct_profile c = profile \<and> rp_name profile = name" for profile]], simp)
  fix profile
  let ?V = "\<lambda>c. rp_name profile = name \<and> safety_verified profile c"
  have guard: "gives (\<lambda>c. ct_profile c = profile \<and> rp_name profile = name) (adapter_guard w (validate_adapter w profile)) (\<lambda>_. ?V)"
    using gives_guard [OF validate_adapter_bound, of profile w w] unfolding gives_def by blast
  show "gives (\<lambda>c. ct_profile c = profile \<and> rp_name profile = name)
    (after (adapter_guard w (validate_adapter w profile)) (\<lambda>t.
     after (append_record w VALIDATE t None OK) (\<lambda>_.
     after (gateway_state w) (\<lambda>st.
     reading (\<lambda>c. [(VStr ''profile'', VStr (rp_name profile)), state_entry st,
       (VStr ''hardware_safety_channel'', VStr (hardware_safety_status c))])))))
    (\<lambda>_ c. \<exists>profile. rp_name profile = name \<and> safety_verified profile c)"
  proof (rule gives_after [OF guard])
    fix t
    have "keeps safety_fields (after (append_record w VALIDATE t None OK) (\<lambda>_. after (gateway_state w) (\<lambda>st.
       reading (\<lambda>c. [(VStr ''profile'', VStr (rp_name profile)), state_entry st,
       (VStr ''hardware_safety_channel'', VStr (hardware_safety_status c))]))))"
      by (intro keep_rules own_safety)
    from verified_kept [OF this, of profile]
    show "gives ?V (after (append_record w VALIDATE t None OK) (\<lambda>_. after (gateway_state w) (\<lambda>st.
       reading (\<lambda>c. [(VStr ''profile'', VStr (rp_name profile)), state_entry st,
       (VStr ''hardware_safety_channel'', VStr (hardware_safety_status c))]))))
      (\<lambda>_ c. \<exists>profile. rp_name profile = name \<and> safety_verified profile c)"
      unfolding gives_def by blast
  qed
qed

lemma arm_adapter_bound:
  "gives (\<lambda>c. ct_profile c = profile) (arm_adapter w profile challenge)
     (\<lambda>_ c. ct_profile c = profile \<and> (rp_mode profile = ''hardware'' \<longrightarrow> ct_estop_bound c))"
  unfolding arm_adapter_def
proof (rule gives_catching)
  let ?B = "\<lambda>c. ct_profile c = profile \<and> (rp_mode profile = ''hardware'' \<longrightarrow> ct_estop_bound c)"
  have "gives (\<lambda>c. ct_profile c = profile \<and> (\<not> bad \<longrightarrow> ?B c))
      (if bad then fail_with (AdapterError ''PROFILE_INVALID'') else done_with ()) (\<lambda>_. ?B)" for bad
    by (auto intro: gives_fail gives_done)
  moreover have "keeps safety_fields (arm_gateway w challenge)"
    unfolding arm_gateway_def by (intro keep_rules own_safety; simp add: own_safety keep_rules)
  then have "gives ?B (arm_gateway w challenge) (\<lambda>_. ?B)" by (auto simp: gives_def keeps_def)
  ultimately show "gives (\<lambda>c. ct_profile c = profile) (after (asking w tn_call) (\<lambda>r. after (lift_result r) (\<lambda>_.
        after (reading (\<lambda>c. rp_mode profile = ''hardware'' \<and> \<not> ct_estop_bound c)) (\<lambda>bad.
        after (if bad then fail_with (AdapterError ''PROFILE_INVALID'') else done_with ()) (\<lambda>_. arm_gateway w challenge))))) (\<lambda>_. ?B)"
    by (intro gives_after [OF profile_kept [OF keep_asking [OF own_safety]]] gives_after [OF profile_kept [OF keep_lift]]
        gives_after [OF gives_reading [where Q = "\<lambda>bad c. ct_profile c = profile \<and> (\<not> bad \<longrightarrow> ?B c)"]] gives_after [where R = "\<lambda>_. ?B"]) auto
qed (case_tac e, simp_all add: gives_refuse gives_fail)

section \<open>A concrete session\<close>

text \<open>The repository's hospital profile, discovered, validated and running, none of it on record yet; nobody else moves, no time
  is given to an append, and every call of the adapter fails.\<close>

definition demo_turn :: turn where
  "demo_turn = \<lparr>tn_log = quiet, tn_clock = Fin 2, tn_spawns = True, tn_marker = False, tn_digest = (\<lambda>x. x), tn_os = demo_os,
     tn_issue = Ret (), tn_current = True, tn_call = Ret (), tn_joined = True, tn_closes = Ret True, tn_factory_closes = None,
     tn_bind = Ret True, tn_status = Raise (AdapterError ''TIMEOUT''), tn_observe = Ret NotObservation, tn_frozen = Ret NotMapping\<rparr>"

abbreviation demo_world :: world where "demo_world \<equiv> \<lambda>_. demo_turn"

definition demo_fresh :: fresh where
  "demo_fresh = \<lparr>fr_timeout = Fin 0, fr_files = demo_files, fr_quarantined = False, fr_cleanup_failed = False\<rparr>"

definition demo_active :: ctl where "demo_active = activated hospital_amr CaseAdapter demo_fresh"

definition demo_run :: ctl where
  "demo_run = demo_active\<lparr>ct_log := moved demo_running (moved demo_armed (moved demo_discovered demo_start))\<rparr>"

lemma demo_turn_sel [simp]:
  "tn_log demo_turn = quiet" "tn_status demo_turn = Raise (AdapterError ''TIMEOUT'')" "tn_call demo_turn = Ret ()"
  "tn_bind demo_turn = Ret True" "tn_issue demo_turn = Ret ()" "tn_marker demo_turn = False"
  by (simp_all add: demo_turn_def)

lemma demo_proper: "proper_world demo_world"
  by (simp add: proper_world_def)

lemma demo_follow: "others_follow (audit_world demo_world)"
  using quiet_follow by simp

lemma demo_patient: "patient demo_world (Fin 0)"
proof -
  have d: "fadd (Fin 2) (Fin 0) = Fin 2" "fsub (Fin 2) (Fin 2) = Fin 0" by (simp_all add: fsub_def float_eval)
  have "mo_append quiet (Fin 0) \<noteq> Appended" by (simp add: quiet_def)
  then have e: "expires demo_world d \<longleftrightarrow> expired_at d quiet" for d by (auto simp: expires_def)
  have "flt (Fin 0) x = False" if "fle x (Fin 0)" for x using that by (cases x) auto
  then show ?thesis unfolding patient_def e by (simp add: expired_at_def time_left_def fmax_def d)
qed

lemma demo_timeout [simp]: "ct_timeout demo_active = Fin 0" "ct_timeout demo_run = Fin 0"
  by (simp_all add: demo_run_def demo_active_def activated_def demo_fresh_def)

lemma demo_run_inv: "tl_inv (ct_log demo_run)"
proof -
  let ?a = "moved demo_discovered demo_start" and ?b = "moved demo_armed (moved demo_discovered demo_start)"
  have "tl_step demo_start ?a"
    by (rule tl_step.gateway) (simp_all add: demo_start_def log_init_def demo_discovered_def gw_step.discover gateway_init_def)
  moreover have "tl_step ?a ?b"
    by (rule tl_step.gateway) (simp_all add: demo_armed_def gw_step.validate demo_discovered_eq do_transition_eq)
  moreover have "tl_step ?b (moved demo_running ?b)"
    by (rule tl_step.gateway) (simp_all add: demo_running_def gw_step.start demo_armed_eq do_transition_eq)
  moreover have "tl_inv demo_start" unfolding demo_start_def by (rule log_init_inv)
  ultimately show ?thesis unfolding demo_run_def by (simp add: tl_step_inv)
qed

lemma demo_run_state: "gw_state (gateway_of demo_run) = RUNNING" "ct_adapter demo_run = CaseAdapter"
  by (simp_all add: demo_run_def demo_running_eq do_transition_eq demo_active_def activated_def)

lemma demo_run_begun: "begun UNIV demo_run"
  by (simp add: begun_def log_begun_def demo_run_state)

text \<open>An append that nobody disturbs, of the transition that has just been made on a log that is up to date.\<close>

definition up_to_date :: "transition_log \<Rightarrow> bool" where
  "up_to_date s \<longleftrightarrow> tl_inv s \<and> \<not> tl_failure s \<and> tl_pending s = [] \<and> tl_next s = length (tl_all s) \<and>
     tl_owner s = NoDrain \<and> \<not> tl_draining s"

lemma nothing_left:
  assumes "tl_inv s" "tl_next s = length (tl_all s)" shows "infer_gateway_fault (tl_next s) (tl_gateway s) = None"
proof -
  have "tr_sequence t < length (tl_all s)" if "t \<in> set (gw_history (tl_gateway s))" for t
  proof -
    have "t \<in> set (tl_all s)" using that assms(1) by (auto simp: tl_inv_def all_inv_def dest: in_set_dropD)
    then show ?thesis using sequence_index [of s t] assms(1) by (simp add: tl_inv_def)
  qed
  then have "transitions_from (tl_next s) (tl_gateway s) = []" by (fastforce simp: transitions_from_def assms(2) filter_empty_conv not_le)
  then show ?thesis by (simp add: infer_gateway_fault_def)
qed

lemma quiet_append:
  assumes "up_to_date s" "tl_inv (moved g s)" "gw_sequence g = Suc (gw_sequence (tl_gateway s))" "gw_latest g = Some t"
    "owns_transition t g" "tr_sequence t = tl_next s" "record_data t data = Ret data'"
    "loggable \<lparr>it_operation = operation, it_transition = t, it_data = data', it_outcome = outcome\<rparr>"
  shows "\<exists>n' s'. append_transition (\<lambda>_. quiet) (Fin 1) operation t data outcome n (moved g s) = Some (Ret (), n', s') \<and>
    up_to_date s' \<and> tl_gateway s' = g"
proof -
  define i where "i = \<lparr>it_operation = operation, it_transition = t, it_data = data', it_outcome = outcome\<rparr>"
  define s1 where "s1 = (moved g s)\<lparr>tl_pending := [(tl_next s, i)]\<rparr>"
  define s2 where "s2 = drain_appended i (drain_take i s1)"
  have u: "\<not> tl_failure s" "tl_pending s = []" "tl_next s = length (tl_all s)" "tl_owner s = NoDrain" "\<not> tl_draining s"
    using assms(1) by (simp_all add: up_to_date_def)
  have all: "tl_all (moved g s) = tl_all s @ [t]" using assms(3,4) by (simp add: moved_def)
  have f1: "tl_failure s1 = False" "tl_draining s1 = False" "tl_next s1 = tl_next s" "tl_gateway s1 = g" "tl_all s1 = tl_all s @ [t]"
    "tl_pending s1 = [(tl_next s, i)]" using u all by (simp_all add: s1_def)
  have f2: "tl_failure s2 = False" "tl_next s2 = Suc (tl_next s)" "tl_gateway s2 = g" "tl_all s2 = tl_all s @ [t]" "tl_pending s2 = []"
    by (simp_all add: s2_def drain_appended_def drain_take_def f1 ddel_def)
  have reg: "register_transition operation t data outcome (moved g s) = (Ret (), s1)"
    using assms(5-7) u by (simp add: register_transition_def register_locked_def i_def [symmetric] s1_def)
  have t: "t \<in> set (tl_all (moved g s))" by (simp add: all)
  have "tl_step (moved g s) s1"
    using tl_step.register [OF t assms(7), of operation outcome] reg assms(5,7) by (simp add: register_transition_def)
  moreover have "tl_step s1 (drain_take i s1)"
    by (rule tl_step.take [of _ None False]) (simp_all add: f1 drain_poll_def next_item_def, simp add: s1_def u)
  moreover have "tl_step (drain_take i s1) s2" unfolding s2_def
    by (rule tl_step.appended) (use assms(8) in \<open>simp_all add: drain_take_def i_def\<close>)
  ultimately have inv2: "tl_inv s2" using assms(2) tl_step_inv by blast
  have none: "next_item s2 = None"
    using nothing_left [OF inv2] by (simp add: next_item_def f2 u)
  have "tl_step s2 (drain_leave s2)"
    by (rule tl_step.leave [of _ None False]) (simp_all add: drain_poll_def none f2 Let_def, simp add: s2_def drain_appended_def)
  from tl_step_inv [OF this inv2] have "up_to_date (drain_leave s2)"
    using u by (simp add: up_to_date_def drain_leave_def f2)
  moreover have d: "fadd (Fin 2) (Fin 1) = Fin 3" "fsub (Fin 3) (Fin 2) = Fin 1" by (rule fadd_2_1)+
  have "drain_poll (Some (tl_next s)) False (expired_at (Fin 3) quiet) s1 = PollTakes i"
    by (simp add: drain_poll_def next_item_def f1)
  moreover have "drain_append quiet (Fin 3) i s1 = (True, s2)"
    using assms(8) by (simp add: drain_append_def append_answer_of_def i_def [symmetric] time_left_def quiet_def d fmax_def s2_def)
  moreover have "drain_poll (Some (tl_next s)) True (expired_at (Fin 3) quiet) s2 = PollReturns"
    by (simp add: drain_poll_def none f2)
  then have "drain_loop (\<lambda>_. quiet) (Fin 3) (Some (tl_next s)) True (Suc (Suc n)) s2 = Some (Ret (), Suc (Suc (Suc n)), drain_leave s2)" for n
    by (subst drain_loop.simps) (simp add: release_def)
  ultimately have "append_transition (\<lambda>_. quiet) (Fin 1) operation t data outcome n (moved g s) =
      Some (Ret (), Suc (Suc (Suc (Suc n))), drain_leave s2)"
    by (simp add: append_transition_def reg drain_pending_def d assms(6)) (subst drain_loop.simps, simp add: Let_def)
  with \<open>up_to_date (drain_leave s2)\<close> show ?thesis by (auto simp: drain_leave_def f2)
qed

lemma caught_up_to_date: "tl_step\<^sup>*\<^sup>* demo_start s \<Longrightarrow> caught_up s \<Longrightarrow> \<exists>s'. up_to_date s' \<and> tl_gateway s' = tl_gateway s"
proof -
  assume r: "tl_step\<^sup>*\<^sup>* demo_start s" and c: "caught_up s"
  have "tl_inv demo_start" unfolding demo_start_def by (rule log_init_inv)
  with r have inv: "tl_inv s" by (rule logging.inv_steps)
  show ?thesis
  proof (cases "tl_owner s = NoDrain")
    case True
    with c inv have "up_to_date s" by (simp add: up_to_date_def caught_up_def)
    then show ?thesis by blast
  next
    case False
    with c have p: "tl_owner s = Polling" by (simp add: caught_up_def)
    have n: "next_item s = None" using nothing_left [OF inv] c by (simp add: next_item_def caught_up_def)
    have "tl_step s (drain_leave s)"
      by (rule tl_step.leave [of _ None False, OF p]) (use c n in \<open>simp add: drain_poll_def caught_up_def\<close>)
    then have "tl_inv (drain_leave s)" using inv by (rule tl_step_inv)
    with c have "up_to_date (drain_leave s)" by (simp add: up_to_date_def caught_up_def drain_leave_def)
    then show ?thesis by (auto simp: drain_leave_def)
  qed
qed

lemma running_up_to_date: "\<exists>s. up_to_date s \<and> tl_gateway s = demo_running"
  using demo_running_logged caught_up_to_date by metis

text \<open>The same call as an action of a controller whose appends are given a second.\<close>

definition logged_run :: "ctl \<Rightarrow> gateway \<Rightarrow> bool" where
  "logged_run c g \<longleftrightarrow> ct_timeout c = Fin 1 \<and> up_to_date (ct_log c) \<and> gateway_of c = g"

lemma quiet_record:
  assumes "\<And>n. tn_log (w n) = quiet" "up_to_date s" "tl_inv (moved g s)" "gw_sequence g = Suc (gw_sequence (tl_gateway s))"
    "gw_latest g = Some t" "owns_transition t g" "tr_sequence t = tl_next s" "record_data t data = Ret data'"
    "loggable \<lparr>it_operation = operation, it_transition = t, it_data = data', it_outcome = outcome\<rparr>"
    "ct_timeout c = Fin 1" "ct_log c = moved g s"
  shows "\<exists>n' s'. append_record w operation t data outcome c = Some (Ret (), c\<lparr>ct_time := n', ct_log := s'\<rparr>) \<and>
    logged_run (c\<lparr>ct_time := n', ct_log := s'\<rparr>) g"
proof -
  have "(\<lambda>n. tn_log (w n)) = (\<lambda>_. quiet)" using assms(1) by blast
  moreover obtain n' s' where "append_transition (\<lambda>_. quiet) (Fin 1) operation t data outcome (ct_time c) (moved g s) = Some (Ret (), n', s')"
    "up_to_date s'" "tl_gateway s' = g" using quiet_append [OF assms(2-9), of "ct_time c"] by blast
  ultimately show ?thesis using assms(10,11)
    by (intro exI [of _ n'] exI [of _ s']) (simp add: append_record_def after_def reading_def on_log_def logged_run_def)
qed

section \<open>The log of a session\<close>

text \<open>C5: Whatever handlers of the runtime run, in whatever order and however the other threads move, the transition log of the
  session is a run of its machine, and its invariant holds; when the names of the tasks are no longer than the audit's
  schema allows, every record that waits is one that the writer accepts, so no record of the runtime's own making is ever refused.\<close>
theorem session_keeps_the_log:
  assumes "(handler_step w store short)\<^sup>*\<^sup>* (activated profile kind s) c" "others_follow (audit_world w)" "proper_world w"
  shows "tl_step\<^sup>*\<^sup>* (log_init (gateway_init profile True)) (ct_log c) \<and> tl_inv (ct_log c) \<and>
    (short \<longrightarrow> (\<forall>(k, i) \<in> set (tl_pending (ct_log c)). loggable i))"
  using handler_steps_inv [OF assms] by (simp add: session_inv_def log_moves_def log_clean_def log_init_def)

theorem session_keeps_the_log_witness:
  "\<exists>r c. physical_estop demo_world True demo_active = Some (r, c) \<and> tl_inv (ct_log c) \<and>
     (\<forall>(k, i) \<in> set (tl_pending (ct_log c)). loggable i)"
proof -
  obtain r c where p: "physical_estop demo_world True demo_active = Some (r, c)"
    using returnsD [OF handlers_return_all(8) [OF demo_patient] demo_timeout(1), of True] by blast
  then have "(handler_step demo_world store True)\<^sup>*\<^sup>* demo_active c" for store by (blast intro: handler_step.physical)
  from session_keeps_the_log [OF this [unfolded demo_active_def] demo_follow demo_proper] p show ?thesis by auto
qed

section \<open>What fails leaves the gateway at rest\<close>


lemma activation_raises:
  assumes "\<forall>n. tn_status (w n) = Raise e" shows "gives (\<lambda>_. True) (activate w) (\<lambda>_ _. False)"
  unfolding activate_def
proof (rule gives_catching)
  have "gives (\<lambda>_. True) (asking w tn_status) (\<lambda>r _. r = Raise e)"
    using assms by (simp add: gives_def asking_def on_gateway_def Let_def)
  then show "gives (\<lambda>_. True) (after (asking w tn_status) (\<lambda>r. after (lift_result r) (\<lambda>status.
      after (refuse_lost w) (\<lambda>_. after (heartbeat_record w) (\<lambda>_. done_with status))))) (\<lambda>_ _. False)"
    by (rule gives_after) (rule gives_after [where R = "\<lambda>_ _. False"], auto simp: gives_def lift_result_def fail_with_def)
qed (case_tac e, simp_all add: gives_refuse safety_fault_def, (simp add: gives_def after_def fail_with_def split: option.splits sum.splits)+)


section \<open>A success\<close>

text \<open>The fields that hold the evidence are written when a task is entered and when its evidence is frozen.\<close>

definition froze :: "world \<Rightarrow> string list \<Rightarrow> ctl \<Rightarrow> bool" where
  "froze w sources c \<longleftrightarrow> ct_frozen c \<and> (\<exists>n. capture_terminal_evidence (tn_frozen (w n)) sources = Ret (ct_terminal c))"

abbreviation evidence_fields :: "ctl \<Rightarrow> bool \<times> (string \<times> observation) list" where
  "evidence_fields c \<equiv> (ct_frozen c, ct_terminal c)"

lemma own_evidence: "own evidence_fields" and own_task: "own ct_task"
  by (simp_all add: own_def)

lemma froze_kept: "keeps evidence_fields a \<Longrightarrow> gives (froze w sources) a (\<lambda>_. froze w sources)"
  by (auto simp: gives_def keeps_def froze_def)

lemma gives_freeze:
  assumes "tp_evidence_sources t \<noteq> []"
  shows "gives (\<lambda>c. ct_task c = Some t) (freeze_evidence w) (\<lambda>_. froze w (tp_evidence_sources t))"
  unfolding freeze_evidence_def
proof (rule gives_after [OF gives_reading [where Q = "\<lambda>task _. task = Some t"]], assumption)
  fix task
  have a: "gives (\<lambda>_. True) (asking w tn_frozen) (\<lambda>r _. \<exists>n. r = tn_frozen (w n))"
    by (auto simp: gives_def asking_def on_gateway_def Let_def)
  have l: "gives (\<lambda>_. \<exists>n. answer = tn_frozen (w n)) (lift_result (capture_terminal_evidence answer sources))
      (\<lambda>snapshot _. \<exists>n. capture_terminal_evidence (tn_frozen (w n)) sources = Ret snapshot)" for answer sources
    by (rule gives_lift) auto
  have "gives (\<lambda>_. True) (after (asking w tn_frozen) (\<lambda>answer. after (lift_result (capture_terminal_evidence answer (tp_evidence_sources t)))
      (\<lambda>snapshot. update (\<lambda>c. c\<lparr>ct_terminal := snapshot, ct_frozen := True\<rparr>)))) (\<lambda>_. froze w (tp_evidence_sources t))"
    by (rule gives_after [OF a], rule gives_after [OF l]) (simp add: gives_def update_def froze_def)
  then show "gives (\<lambda>_. task = Some t) (case task of None \<Rightarrow> done_with ()
     | Some t \<Rightarrow> if tp_evidence_sources t = [] then done_with ()
         else after (asking w tn_frozen) (\<lambda>answer.
           after (lift_result (capture_terminal_evidence answer (tp_evidence_sources t))) (\<lambda>snapshot.
           update (\<lambda>c. c\<lparr>ct_terminal := snapshot, ct_frozen := True\<rparr>)))) (\<lambda>_. froze w (tp_evidence_sources t))"
    using assms by (cases task) (auto simp: gives_def)
qed

lemma gives_never: "(\<And>x. gives (\<lambda>_. True) (f x) (\<lambda>_ _. False)) \<Longrightarrow> gives S (after a f) Q"
  unfolding gives_def after_def by (fastforce split: option.splits sum.splits)

lemma fails_never: "gives S (fail_with e) (\<lambda>_ _. False)" by (rule gives_fail)

lemma keep_cleanup: "keeps evidence_fields (start_task_cleanup w)"
  unfolding start_task_cleanup_def by (intro keep_rules own_evidence; simp)

lemma gives_finish:
  assumes "tp_evidence_sources t \<noteq> []"
  shows "gives (\<lambda>c. ct_task c = Some t) (finish_succeeded_task w status) (\<lambda>_. froze w (tp_evidence_sources t))"
  unfolding finish_succeeded_task_def
proof (rule gives_after)
  have "gives S (after (latch_adapter_fault w) (\<lambda>_. after (start_task_cleanup w) (\<lambda>_. fail_with e))) Q" for S e and Q :: "unit \<Rightarrow> ctl \<Rightarrow> bool"
    by (intro gives_never fails_never)
  then show "gives (\<lambda>c. ct_task c = Some t) (catching (freeze_evidence w) (\<lambda>e. case e of
      RuntimeControllerError _ \<Rightarrow> after (latch_adapter_fault w) (\<lambda>_. after (start_task_cleanup w) (\<lambda>_. fail_with e))
    | _ \<Rightarrow> fail_with e)) (\<lambda>_. froze w (tp_evidence_sources t))"
    by (rule_tac gives_catching [OF gives_freeze [OF assms]], case_tac e) (simp_all add: gives_fail)
  have "keeps evidence_fields (after (start_task_cleanup w) (\<lambda>_. after (cancel_gateway w) (\<lambda>t.
      after (append_record w CANCEL t None OK) (\<lambda>_. after (observe_state w) (\<lambda>_.
      after (update (\<lambda>c. c\<lparr>ct_monitor_stop := True\<rparr>)) (\<lambda>_. done_with status))))))"
    unfolding cancel_gateway_def observe_state_def by (intro keep_cleanup keep_rules own_evidence; simp)
  then show "gives (froze w (tp_evidence_sources t)) (after (start_task_cleanup w) (\<lambda>_. after (cancel_gateway w) (\<lambda>t.
      after (append_record w CANCEL t None OK) (\<lambda>_. after (observe_state w) (\<lambda>_.
      after (update (\<lambda>c. c\<lparr>ct_monitor_stop := True\<rparr>)) (\<lambda>_. done_with status)))))) (\<lambda>_. froze w (tp_evidence_sources t))"
    by (rule froze_kept)
qed

lemma gives_observe:
  "gives (\<lambda>c. ct_frozen c \<and> dget (ct_terminal c) source = Some ob) (observe_source w source) (\<lambda>x _. x = Observed ob)"
  unfolding observe_source_def
proof (rule gives_after)
  let ?S = "\<lambda>c. ct_frozen c \<and> dget (ct_terminal c) source = Some ob"
  have "keeps evidence_fields (ensure_available w)" unfolding ensure_available_def by (intro keep_rules own_evidence)
  then show "gives ?S (ensure_available w) (\<lambda>_. ?S)" by (auto simp: gives_def keeps_def)
  show "gives ?S (after (reading (\<lambda>c. if ct_frozen c then dget (ct_terminal c) source else None)) (\<lambda>frozen.
     case frozen of Some ob \<Rightarrow> done_with (Observed ob)
     | None \<Rightarrow>
         after (reading (\<lambda>c. source \<in> set (rp_observation_sources (ct_profile c)))) (\<lambda>known.
         after (ensure known ''PROFILE_INVALID'') (\<lambda>_.
         after (asking w tn_observe) (\<lambda>r.
         case r of Inr ob \<Rightarrow> done_with ob
         | Inl (AdapterError code) \<Rightarrow> refuse_with code
         | Inl _ \<Rightarrow> refuse_with ''UNSAFE_STATE''))))) (\<lambda>x _. x = Observed ob)"
    by (rule gives_after [OF gives_reading [where Q = "\<lambda>frozen _. frozen = Some ob"]], simp)
      (auto simp: gives_def done_with_def)
qed

text \<open>C3: A success is reported only with its evidence frozen and the robot at rest: when the finishing of a task that names
  evidence sources returns, the gateway is stopped, faulted or in emergency stop, the stored evidence is exactly a checked
  answer of the adapter for those sources, and whoever observes one of them from then on is given
  the stored observation, whatever the adapter would answer.\<close>
theorem success_has_frozen_evidence:
  assumes "finish_succeeded_task w status c = Some (Ret status', c')" "ct_task c = Some t" "tp_evidence_sources t \<noteq> []"
    "others_follow (audit_world w)" "tl_inv (ct_log c)" "gw_state (gateway_of c) \<in> {RUNNING, STOPPED, FAULTED, ESTOPPED}"
    "source \<in> set (tp_evidence_sources t)" "observe_source w' source c' = Some (Ret observed, c'')"
  shows "gw_state (gateway_of c') \<in> {STOPPED, FAULTED, ESTOPPED} \<and> ct_frozen c' \<and>
    snapshot_of (tp_evidence_sources t) (ct_terminal c') \<and>
    (\<exists>n. capture_terminal_evidence (tn_frozen (w n)) (tp_evidence_sources t) = Ret (ct_terminal c')) \<and>
    (\<exists>ob. observed = Observed ob \<and> dget (ct_terminal c') source = Some ob \<and> ob_source ob = source)"
proof -
  have "begun UNIV c" using assms(6) by (auto simp: begun_def log_begun_def log_halted_def)
  from ctl_specD [OF cs_finish assms(4,5) this assms(1)]
  have rest: "gw_state (gateway_of c') \<in> {STOPPED, FAULTED, ESTOPPED}" by (simp add: halted_def log_halted_def)
  have f: "froze w (tp_evidence_sources t) c'" using givesD [OF gives_finish [OF assms(3)] assms(2,1)] .
  then obtain n where n: "capture_terminal_evidence (tn_frozen (w n)) (tp_evidence_sources t) = Ret (ct_terminal c')" by (auto simp: froze_def)
  then have snap: "snapshot_of (tp_evidence_sources t) (ct_terminal c')"
    using capture_checked [where answer = "tn_frozen (w n)" and sources = "tp_evidence_sources t"] by simp
  then have "source \<in> set (dkeys (ct_terminal c'))" using assms(7) by (simp add: snapshot_of_def)
  then obtain ob where ob: "dget (ct_terminal c') source = Some ob"
    by (cases "dget (ct_terminal c') source") (auto simp: dget_map_of dkeys_def map_of_eq_None_iff)
  then have "(source, ob) \<in> set (ct_terminal c')" by (simp add: dget_map_of map_of_SomeD)
  then have "ob_source ob = source" using snap by (auto simp: snapshot_of_def)
  with rest f n snap ob givesD [OF gives_observe [of source ob w'] _ assms(8)] show ?thesis by (auto simp: froze_def)
qed

text \<open>A controller whose only task has succeeded.\<close>

definition demo_evidence :: "(string \<times> observation) list" where
  "demo_evidence = [(''odometry'', \<lparr>ob_source = ''odometry'', ob_timestamp = VFloat (Fin 90), ob_values = []\<rparr>)]"

definition live_turn :: turn where
  "live_turn = demo_turn\<lparr>tn_frozen := Ret (Frozen (map (\<lambda>(k, ob). (k, Observed ob)) demo_evidence))\<rparr>"

definition demo_done :: "transition_log \<Rightarrow> ctl" where
  "demo_done s = demo_active\<lparr>ct_timeout := Fin 1, ct_log := s, ct_task := Some delivery_task\<rparr>"

lemma live_turn_sel [simp]:
  "tn_log live_turn = quiet"
  "tn_spawns live_turn = True" "tn_marker live_turn = False" "tn_call live_turn = Ret ()"
  by (simp_all add: live_turn_def demo_turn_def)

lemma live_frozen: "capture_terminal_evidence (tn_frozen live_turn) [''odometry''] = Ret demo_evidence"
  by (simp add: capture_terminal_evidence_def demo_evidence_def live_turn_def)

lemma delivery_evidence: "tp_evidence_sources delivery_task = [''odometry'']"
  by (simp add: delivery_task_def)

lemma quiet_turn:
  "tn_log (w (ct_time c)) = quiet \<Longrightarrow> on_gateway w f c = (let r = f (w (ct_time c)) (gateway_of c) in
     Some (Ret (fst r), c\<lparr>ct_time := Suc (ct_time c), ct_log := moved (snd r) (ct_log c)\<rparr>))"
  by (simp add: on_gateway_def Let_def)

lemma quiet_asking: "tn_log (w (ct_time c)) = quiet \<Longrightarrow> asking w f c = Some (Ret (f (w (ct_time c))), c\<lparr>ct_time := Suc (ct_time c)\<rparr>)"
  and quiet_state: "tn_log (w (ct_time c)) = quiet \<Longrightarrow> gateway_state w c = Some (Ret (gw_state (gateway_of c)), c\<lparr>ct_time := Suc (ct_time c)\<rparr>)"
  by (simp_all add: asking_def gateway_state_def quiet_turn moved_self)

lemmas run_simps = after_def catching_def done_with_def fail_with_def lift_result_def reading_def update_def only_if_def ensure_def
  quiet_asking quiet_state

text \<open>A stop of the running gateway, on a log that is up to date: what its record needs.\<close>

definition recordable :: "transition_log \<Rightarrow> gateway \<Rightarrow> transition \<Rightarrow> bool" where
  "recordable s g t \<longleftrightarrow> tl_inv (moved g s) \<and> gw_sequence g = Suc (gw_sequence (tl_gateway s)) \<and> gw_latest g = Some t \<and>
     owns_transition t g \<and> tr_sequence t = tl_next s \<and> is_ret (record_data t None)"

lemma recordable_stop:
  assumes "up_to_date s" "tl_step\<^sup>*\<^sup>* s (moved g s)" "gw_sequence g = Suc (gw_sequence (tl_gateway s))"
    "gw_latest g = Some t" "gw_history g = push_history t h" "tr_sequence t = gw_sequence (tl_gateway s)"
  shows "recordable s g t"
proof -
  have "tl_inv s" "tl_next s = gw_sequence (tl_gateway s)" using assms(1) by (auto simp: up_to_date_def tl_inv_def all_inv_def)
  moreover from this have "tl_inv (moved g s)" using assms(2) logging.inv_steps by blast
  moreover have "owns_transition t g" using assms(5) by (simp add: owns_transition_def push_history_def Let_def HISTORY_MAX_def)
  ultimately show ?thesis using assms by (simp add: recordable_def record_data_def split: option.split)
qed

lemma demo_cancel:
  assumes "up_to_date s" "tl_gateway s = demo_running"
  shows "\<exists>t g. gw_cancel (mo_stops quiet) demo_running = (Ret t, g) \<and> recordable s g t"
proof -
  define q where "q = stop_repeatedly (mo_stops quiet)"
  have "tl_step\<^sup>*\<^sup>* s (moved (snd (gw_cancel (mo_stops quiet) demo_running)) s)"
    using op_cancel [of "mo_stops quiet"] assms unfolding gateway_op_def up_to_date_def by metis
  moreover define r where "r = gw_cancel (mo_stops quiet) demo_running"
  moreover define t where "t = mk_transition STOPPED (Some q) (record_stop q demo_running)"
  moreover have "fst r = Ret t" "gw_sequence (snd r) = Suc (gw_sequence demo_running)" "gw_latest (snd r) = Some t"
    "gw_history (snd r) = push_history t (gw_history demo_running)" "tr_sequence t = gw_sequence demo_running"
    by (simp_all add: r_def t_def gw_cancel_def cancel_locked_def demo_running_sel Let_def q_def [symmetric] do_transition_eq
        mk_transition_def record_stop_def)
  ultimately show ?thesis
    using recordable_stop [OF assms(1), of "snd r" t] assms(2) by (metis prod.collapse)
qed

lemma demo_estop:
  assumes "up_to_date s" "tl_gateway s = demo_running"
  shows "\<exists>t g r. gw_estop_attempt (mo_stops quiet) demo_running = ((Some t, r), g) \<and> successful r \<and> recordable s g t"
proof -
  have q: "successful (stop_repeatedly (mo_stops quiet))"
    by (simp add: stop_repeatedly_def combine_stops_def quiet_def successful_stop_def successful_def list_all_iff)
  have "tl_step\<^sup>*\<^sup>* s (moved (snd (gw_estop_attempt (mo_stops quiet) demo_running)) s)"
    using op_estop [of "mo_stops quiet"] assms unfolding gateway_op_def up_to_date_def by metis
  moreover define p where "p = stop_repeatedly (mo_stops quiet)"
  moreover define r where "r = gw_estop_attempt (mo_stops quiet) demo_running"
  moreover define t where "t = mk_transition ESTOPPED (Some p) (record_stop p demo_running)"
  moreover have "fst r = (Some t, p)" "gw_sequence (snd r) = Suc (gw_sequence demo_running)" "gw_latest (snd r) = Some t"
    "gw_history (snd r) = push_history t (gw_history demo_running)" "tr_sequence t = gw_sequence demo_running"
    by (simp_all add: r_def t_def p_def [symmetric] gw_estop_attempt_def estop_locked_def demo_running_sel Let_def do_transition_eq
        mk_transition_def record_stop_def)
  ultimately show ?thesis
    using recordable_stop [OF assms(1), of "snd r" t] assms(2) q by (metis prod.collapse)
qed

lemma quiet_stop:
  assumes "\<And>n. tn_log (w n) = quiet" "up_to_date s" "recordable s g t" "acceptable operation t None OK" "ct_timeout c = Fin 1"
    "ct_log c = moved g s"
  shows "\<exists>n s'. append_record w operation t None OK c = Some (Ret (), c\<lparr>ct_time := n, ct_log := s'\<rparr>) \<and> up_to_date s' \<and> tl_gateway s' = g"
proof -
  from assms(3) obtain d where "record_data t None = Ret d" by (auto simp: recordable_def is_ret_iff)
  with assms show ?thesis
    using quiet_record [where s = s and g = g and t = t and data = None and data' = d and c = c and w = w and operation = operation and outcome = OK]
    by (auto simp: recordable_def acceptable_def logged_run_def)
qed

lemma demo_finish:
  assumes "up_to_date s" "tl_gateway s = demo_running"
  shows "\<exists>c'. finish_succeeded_task (\<lambda>_. live_turn) status (demo_done s) = Some (Ret status, c') \<and> up_to_date (ct_log c') \<and>
    \<not> ct_cleanup_failed c' \<and> \<not> ct_quarantined c' \<and> ct_frozen c' \<and> ct_terminal c' = demo_evidence"
proof -
  let ?w = "\<lambda>_::nat. live_turn"
  obtain t g where t: "gw_cancel (mo_stops quiet) demo_running = (Ret t, g)" "recordable s g t" using demo_cancel [OF assms] by blast
  then have a: "acceptable CANCEL t None OK" using cancel_move [of "mo_stops quiet" demo_running t] by (simp add: cancel_acceptable)
  define c1 where "c1 = (demo_done s)\<lparr>ct_time := Suc (Suc (Suc 0)), ct_terminal := demo_evidence, ct_frozen := True, ct_cleanup_started := True,
    ct_cleanups := 1, ct_log := moved g s\<rparr>"
  have "ct_timeout c1 = Fin 1" "ct_log c1 = moved g s" by (simp_all add: c1_def demo_done_def)
  from quiet_stop [where w = ?w, OF _ assms(1) t(2) a this]
  obtain n s' where "append_record ?w CANCEL t None OK c1 = Some (Ret (), c1\<lparr>ct_time := n, ct_log := s'\<rparr>)" "up_to_date s'" by auto
  then show ?thesis
    by (simp add: finish_succeeded_task_def freeze_evidence_def start_task_cleanup_def cancel_gateway_def observe_state_def run_simps
        demo_done_def demo_active_def activated_def demo_fresh_def delivery_evidence live_frozen quiet_turn assms(2) t c1_def Let_def)
qed

lemma live_follow: "others_follow (audit_world (\<lambda>_. live_turn))"
  using quiet_follow by simp

theorem success_has_frozen_evidence_witness:
  "\<exists>c c' ob. finish_succeeded_task (\<lambda>_. live_turn) \<lparr>as_state = ''succeeded'', as_code = None, as_values = []\<rparr> c =
      Some (Ret \<lparr>as_state = ''succeeded'', as_code = None, as_values = []\<rparr>, c') \<and>
    gw_state (gateway_of c') \<in> {STOPPED, FAULTED, ESTOPPED} \<and> dget (ct_terminal c') ''odometry'' = Some ob"
proof -
  let ?st = "\<lparr>as_state = ''succeeded'', as_code = None, as_values = []\<rparr>"
  obtain s where s: "up_to_date s" "tl_gateway s = demo_running" using running_up_to_date by blast
  obtain c' where f: "finish_succeeded_task (\<lambda>_. live_turn) ?st (demo_done s) = Some (Ret ?st, c')" and c': "up_to_date (ct_log c')"
    "\<not> ct_cleanup_failed c'" "\<not> ct_quarantined c'" "ct_frozen c'" "ct_terminal c' = demo_evidence" using demo_finish [OF s] by blast
  have d: "ct_task (demo_done s) = Some delivery_task" "tl_inv (ct_log (demo_done s))" "gw_state (gateway_of (demo_done s)) = RUNNING"
    using s by (simp_all add: demo_done_def up_to_date_def demo_running_sel)
  have "\<not> tl_quarantined (ct_log c')" using c'(1) unfolding up_to_date_def tl_inv_def stop_inv_def by blast
  then have "\<exists>x c''. observe_source (\<lambda>_. live_turn) ''odometry'' c' = Some (Ret x, c'')"
    using c' by (simp add: observe_source_def ensure_available_def run_simps demo_evidence_def)
  then obtain x c'' where ob: "observe_source (\<lambda>_. live_turn) ''odometry'' c' = Some (Ret x, c'')" by blast
  from success_has_frozen_evidence [OF f d(1) _ live_follow d(2) _ _ ob] d(3) f show ?thesis
    by (auto simp: delivery_evidence)
qed

section \<open>Polling, emergency stop and shutdown\<close>

text \<open>C2: The monitor of a hospital run never gives up on a moving robot: from a gateway that has been started, a poll that raises
  leaves it stopped, faulted or in emergency stop, unless the audit itself has failed, whose own stop is then under way; what
  it raises carries a public code, and a poll that returns leaves the gateway running or at rest.\<close>
theorem hospital_poll_fails_closed:
  assumes "poll_running w c = Some (r, c')" "others_follow (audit_world w)" "proper_world w" "tl_inv (ct_log c)"
    "gw_state (gateway_of c) \<in> {RUNNING, STOPPED, FAULTED, ESTOPPED}" "ct_adapter c = CaseAdapter"
  shows "case r of
      Inl e \<Rightarrow> (\<exists>code \<in> set PUBLIC_CODES. e = RuntimeControllerError code) \<and>
        (gw_state (gateway_of c') \<in> {STOPPED, FAULTED, ESTOPPED} \<or> e = controller_error ''AUDIT_INTEGRITY_COMPROMISED'')
    | Inr _ \<Rightarrow> gw_state (gateway_of c') \<in> {RUNNING, STOPPED, FAULTED, ESTOPPED}"
proof -
  have "begun UNIV c" using assms(5) by (auto simp: begun_def log_begun_def log_halted_def)
  from ctl_specD [OF cs_poll_running [OF assms(3)] assms(2,4) this assms(1)]
  have "case r of Inl e \<Rightarrow> closed_or_lost e c' | Inr _ \<Rightarrow> begun UNIV c'" .
  moreover have m: "ctl_moves False c c' \<and> (case r of Inl e \<Rightarrow> public_error e | Inr _ \<Rightarrow> True)"
    using act_specD [OF spec_poll_running [OF assms(3)] assms(2,4,1)] by simp
  ultimately show ?thesis using assms(6)
    by (auto simp: closed_or_lost_def halted_def log_halted_def begun_def log_begun_def public_error_def ctl_moves_def split: sum.splits)
qed

theorem hospital_poll_fails_closed_witness:
  "\<exists>r c. poll_running demo_world demo_run = Some (r, c) \<and> gw_state (gateway_of c) \<in> {RUNNING, STOPPED, FAULTED, ESTOPPED} \<union>
     {st. r = Raise (controller_error ''AUDIT_INTEGRITY_COMPROMISED'')}"
proof -
  have "returns (Fin 0) (poll_running demo_world)"
    unfolding handler_defs by (intro return_append [OF demo_patient] return_rules; simp)
  from returnsD [OF this demo_timeout(2)] obtain r c where a: "poll_running demo_world demo_run = Some (r, c)" by blast
  from hospital_poll_fails_closed [OF a demo_follow demo_proper demo_run_inv _ demo_run_state(2)] demo_run_state(1) a show ?thesis
    by (cases r) auto
qed

definition estopped :: "ctl \<Rightarrow> bool" where
  "estopped c \<longleftrightarrow> gw_state (gateway_of c) = ESTOPPED"

lemma stable_estopped: "stable estopped"
  using log_moves_extends by (auto simp: stable_def ctl_moves_def estopped_def log_extends_def)

lemma handlers_estopped:
  assumes "(handler_step w store short)\<^sup>*\<^sup>* c c'" "others_follow (audit_world w)" "proper_world w" "tl_inv (ct_log c)" "estopped c"
  shows "tl_inv (ct_log c') \<and> estopped c'"
  using assms(1)
proof (induction rule: rtranclp_induct)
  case (step c1 c2)
  then have "log_moves short (ct_log c1) (ct_log c2)" using handler_moves [OF _ assms(2,3)] by blast
  with step show ?case using log_moves_extends log_moves_inv by (auto simp: estopped_def log_extends_def)
qed (simp add: assms)

lemma cs_estop: "ctl_spec w (\<lambda>_. True) (estop_gateway w) (\<lambda>_. estopped) E"
  unfolding estop_gateway_def by (rule cs_gateway [OF stable_True]) (simp_all add: op_estop estopped_def estop_state)

lemma cs_available: "stable S \<Longrightarrow> ctl_spec w S (ensure_available w) (\<lambda>_. S) (\<lambda>_. S)"
proof -
  assume S: "stable S"
  have "act_spec False w anything anything (ensure_available w)" by (rule spec_rules | simp)+
  from cs_keep [OF this S] show ?thesis by (rule cs_weaken) auto
qed

lemma cs_emergency: "ctl_spec w (\<lambda>_. True) (emergency_stop w) (\<lambda>_. estopped) (\<lambda>_ _. True)"
  unfolding emergency_stop_def
proof (rule cs_after)
  show "ctl_spec w (\<lambda>_. True) (ensure_available w) (\<lambda>_ _. True) (\<lambda>_ _. True)"
    by (rule cs_available [OF stable_True])
  show "ctl_spec w (\<lambda>_. True) (after (estop_gateway w) (\<lambda>(t, result).
     after (append_if w ESTOP t) (\<lambda>_. after (ensure (successful result) ''UNSAFE_STATE'') (\<lambda>_.
     after (observe_state w) (\<lambda>_. after (update (\<lambda>c. c\<lparr>ct_monitor_stop := True\<rparr>)) (\<lambda>_.
     after (gateway_state w) (\<lambda>st. done_with [state_entry st]))))))) (\<lambda>_. estopped) (\<lambda>_ _. True)"
  proof (rule cs_after [OF cs_estop])
    fix r :: "transition option \<times> stop_result"
    have "act_spec False w anything anything (case r of (t, result) \<Rightarrow>
        after (append_if w ESTOP t) (\<lambda>_. after (ensure (successful result) ''UNSAFE_STATE'') (\<lambda>_.
        after (observe_state w) (\<lambda>_. after (update (\<lambda>c. c\<lparr>ct_monitor_stop := True\<rparr>)) (\<lambda>_.
        after (gateway_state w) (\<lambda>st. done_with [state_entry st]))))))"
      by (rule spec_then spec_rules | simp)+
    from cs_keep [OF this stable_estopped]
    show "ctl_spec w estopped (case r of (t, result) \<Rightarrow>
        after (append_if w ESTOP t) (\<lambda>_. after (ensure (successful result) ''UNSAFE_STATE'') (\<lambda>_.
        after (observe_state w) (\<lambda>_. after (update (\<lambda>c. c\<lparr>ct_monitor_stop := True\<rparr>)) (\<lambda>_.
        after (gateway_state w) (\<lambda>st. done_with [state_entry st])))))) (\<lambda>_. estopped) (\<lambda>_ _. True)"
      by (rule cs_weaken) auto
  qed
qed

lemma cs_run_estopped: "ctl_spec w estopped (run_task w store name dry_run) (\<lambda>_ _. False) (\<lambda>_. estopped)"
  unfolding run_task_def
proof (rule cs_after)
  show "ctl_spec w estopped (ensure_available w) (\<lambda>_. estopped) (\<lambda>_. estopped)"
    by (rule cs_available [OF stable_estopped])
next
  fix u
  have g: "ctl_spec w estopped (gateway_state w) (\<lambda>st c. st = ESTOPPED \<and> estopped c) (\<lambda>_. estopped)"
    unfolding gateway_state_def by (rule cs_gateway [OF stable_estopped]) (simp_all add: op_id estopped_def moved_self)
  show "ctl_spec w estopped (after (reading ct_profile) (\<lambda>profile. after (gateway_state w) (\<lambda>st.
     after (ensure (st = ARMED) ''UNSAFE_STATE'') (\<lambda>_. after (lift_result (load_compatible_task store profile name)) (\<lambda>task.
     if dry_run then done_with [(VStr ''dry_run'', VBool True), (VStr ''profile'', VStr (rp_name profile)), task_entry task]
     else after (issue_permit w) (\<lambda>_. after (begin_run w task) (\<lambda>_. after (activate w) (\<lambda>status.
       after (refuse_lost w) (\<lambda>_. after (enter_task w task status) (\<lambda>_. after (start_monitor w) (\<lambda>_.
       after (gateway_state w) (\<lambda>st. done_with [state_entry st, task_entry task]))))))))))))
     (\<lambda>_ _. False) (\<lambda>_. estopped)"
    by (rule cs_after [OF cs_reading [where Q = "\<lambda>_. estopped"]], assumption, rule cs_after [OF g],
        rule cs_after [OF cs_ensure [where Q = "\<lambda>_ _. False"]]) (auto simp: ctl_spec_def)
qed

text \<open>C4: An emergency stop that is reported has landed, and it is final: from then on, whatever handlers run, the gateway stays in
  emergency stop, and no task runs.\<close>
theorem emergency_stop_is_final:
  assumes "emergency_stop w c = Some (Ret d, c1)" "(handler_step w store short)\<^sup>*\<^sup>* c1 c2" "run_task w store name dry_run c2 = Some (r, c3)"
    "others_follow (audit_world w)" "proper_world w" "tl_inv (ct_log c)"
  shows "gw_state (gateway_of c1) = ESTOPPED \<and> gw_state (gateway_of c2) = ESTOPPED \<and> gw_state (gateway_of c3) = ESTOPPED \<and> \<not> is_ret r"
proof -
  have c1: "estopped c1" using ctl_specD [OF cs_emergency assms(4,6) _ assms(1)] by simp
  have "tl_inv (ct_log c1)" using act_specD [OF spec_emergency_stop assms(4,6,1)] by (auto dest: ctl_moves_inv)
  from handlers_estopped [OF assms(2,4,5) this c1] have c2: "tl_inv (ct_log c2)" "estopped c2" by simp_all
  from ctl_specD [OF cs_run_estopped assms(4) this assms(3)] c1 c2 show ?thesis by (cases r) (auto simp: estopped_def)
qed

theorem emergency_stop_is_final_witness:
  "\<exists>c d c1 r c3. gw_state (gateway_of c) = RUNNING \<and> emergency_stop (\<lambda>_. live_turn) c = Some (Ret d, c1) \<and>
     gw_state (gateway_of c1) = ESTOPPED \<and> run_task (\<lambda>_. live_turn) (hospital_store delivery_doc) ''hospital-delivery'' False c1 = Some (r, c3) \<and>
     \<not> is_ret r"
proof -
  let ?w = "\<lambda>_::nat. live_turn"
  obtain s where s: "up_to_date s" "tl_gateway s = demo_running" using running_up_to_date by blast
  obtain t g q where t: "gw_estop_attempt (mo_stops quiet) demo_running = ((Some t, q), g)" "successful q" "recordable s g t"
    using demo_estop [OF s] by blast
  then have a: "acceptable ESTOP t None OK" using estop_attempt_move [of "mo_stops quiet" demo_running t] by (simp add: estop_acceptable)
  define c1 where "c1 = (demo_done s)\<lparr>ct_time := Suc (Suc 0), ct_log := moved g s\<rparr>"
  have c1: "ct_timeout c1 = Fin 1" "ct_log c1 = moved g s" by (simp_all add: c1_def demo_done_def)
  obtain n s' where e: "append_record ?w ESTOP t None OK c1 = Some (Ret (), c1\<lparr>ct_time := n, ct_log := s'\<rparr>)" "up_to_date s'" "tl_gateway s' = g"
    using quiet_stop [where w = ?w, OF _ s(1) t(3) a c1] by auto
  have q: "\<not> tl_quarantined s" "\<not> tl_quarantined s'" using s(1) e(2) unfolding up_to_date_def tl_inv_def stop_inv_def by blast+
  have "\<exists>d c1. emergency_stop ?w (demo_done s) = Some (Ret d, c1) \<and> gw_state (gateway_of c1) = gw_state g \<and> \<not> tl_quarantined (ct_log c1) \<and>
      \<not> ct_quarantined c1 \<and> \<not> ct_cleanup_failed c1"
    using e q t by (simp add: emergency_stop_def ensure_available_def estop_gateway_def append_if_def observe_state_def run_simps
        demo_done_def demo_active_def activated_def demo_fresh_def quiet_turn s c1_def)
  then obtain d c1 where c: "emergency_stop ?w (demo_done s) = Some (Ret d, c1)" "gw_state (gateway_of c1) = gw_state g" "\<not> tl_quarantined (ct_log c1)"
      "\<not> ct_quarantined c1" "\<not> ct_cleanup_failed c1" by blast
  have "gw_state g = ESTOPPED" using estop_state [of "mo_stops quiet" demo_running] t(1) by simp
  with c have "\<exists>r c3. run_task ?w (hospital_store delivery_doc) ''hospital-delivery'' False c1 = Some (r, c3)"
    by (simp add: run_task_def ensure_available_def run_simps)
  then obtain r c3 where r: "run_task ?w (hospital_store delivery_doc) ''hospital-delivery'' False c1 = Some (r, c3)" by blast
  have "proper_world ?w" by (simp add: proper_world_def live_turn_def demo_turn_def)
  moreover have "tl_inv (ct_log (demo_done s))" "gw_state (gateway_of (demo_done s)) = RUNNING"
    using s by (simp_all add: demo_done_def up_to_date_def demo_running_sel)
  ultimately show ?thesis
    using emergency_stop_is_final [OF c(1) rtranclp.rtrancl_refl r live_follow] c(1) r by blast
qed

section \<open>Hardware is bound to its stop\<close>

text \<open>C6: A hardware robot is validated only when its physical emergency stop is bound to the runtime and its adapter is not the
  simulation's, and the profile then counts as verified; the profile that is validated is the one that was named.\<close>
theorem validated_hardware_is_stop_bound:
  assumes "validate_profile w name c = Some (Ret d, c')"
  shows "rp_name (ct_profile c') = name \<and> (rp_mode (ct_profile c') = ''hardware'' \<longrightarrow>
    ct_estop_bound c' \<and> ct_adapter c' \<noteq> DeliveryAdapter \<and> hardware_safety_status c' = ''verified'')"
  using givesD [OF validated_bound TrueI assms] by (auto simp: safety_verified_def stop_bound_def hardware_safety_status_def)

definition hardware_amr :: robot_profile where "hardware_amr = hospital_amr\<lparr>rp_mode := ''hardware''\<rparr>"

lemma hardware_discovered: "\<exists>s. up_to_date s \<and> gw_state (tl_gateway s) = DISCOVERED \<and> gw_profile (tl_gateway s) = hardware_amr \<and>
    gw_report (tl_gateway s) = Some (infer_capabilities demo_snapshot)"
proof -
  let ?g0 = "gateway_init hardware_amr True" and ?R = "Some (infer_capabilities demo_snapshot)"
  define g where "g = snd (gw_discover ?R ?g0)"
  define t where "t = mk_transition DISCOVERED None ?g0"
  have g: "gw_sequence g = Suc (gw_sequence (tl_gateway (log_init ?g0)))" "gw_latest g = Some t" "gw_history g = push_history t (gw_history ?g0)"
    "gw_state g = DISCOVERED" "gw_profile g = hardware_amr" "gw_report g = ?R" "tr_sequence t = 0"
    by (simp_all add: g_def t_def gw_discover_def demo_report do_transition_eq gateway_init_def mk_transition_def log_init_def)
  have u: "up_to_date (log_init ?g0)" using log_init_inv [of hardware_amr True] by (simp add: up_to_date_def log_init_def)
  have "tl_step\<^sup>*\<^sup>* (log_init ?g0) (moved g (log_init ?g0))"
  proof -
    have "tl_gateway (log_init ?g0) = ?g0" by (simp add: log_init_def)
    then show ?thesis using op_discover [of ?R] log_init_inv [of hardware_amr True] unfolding gateway_op_def g_def by metis
  qed
  from recordable_stop [OF u this g(1-3)] g(7) have r: "recordable (log_init ?g0) g t" by (simp add: log_init_def gateway_init_def)
  have "acceptable DISCOVER t None OK"
    by (rule plain_acceptable [of NEW DISCOVERED]) (simp_all add: plain_move_def t_def mk_transition_def gateway_init_def)
  with r quiet_append [OF u, of g t None _ DISCOVER OK 0]
  have "\<exists>s. up_to_date s \<and> tl_gateway s = g" by (auto simp: recordable_def acceptable_def is_ret_iff)
  with g show ?thesis by auto
qed

theorem validated_hardware_is_stop_bound_witness:
  "\<exists>c d c'. validate_profile (\<lambda>_. live_turn) ''hospital-amr'' c = Some (Ret d, c') \<and> rp_mode (ct_profile c') = ''hardware'' \<and>
     hardware_safety_status c' = ''verified''"
proof -
  let ?w = "\<lambda>_::nat. live_turn"
  obtain s where s: "up_to_date s" "gw_state (tl_gateway s) = DISCOVERED" "gw_profile (tl_gateway s) = hardware_amr"
    "gw_report (tl_gateway s) = Some (infer_capabilities demo_snapshot)" using hardware_discovered by blast
  define t where "t = mk_transition VALIDATED None (tl_gateway s)"
  define g where "g = snd (gw_validate (tl_gateway s))"
  have m: "interfaces_match hardware_amr r = interfaces_match hospital_amr r" for r by (simp add: interfaces_match_def hardware_amr_def)
  have k: "required_capability (rp_adapter_kind hardware_amr) = Ret ''mobile_base.twist''" "rp_mode hardware_amr = ''hardware''"
    by (simp_all add: hardware_amr_def hospital_amr_def)
  have v: "gw_validate (tl_gateway s) = (Ret t, g)" "gw_sequence g = Suc (gw_sequence (tl_gateway s))" "gw_latest g = Some t"
    "gw_history g = push_history t (gw_history (tl_gateway s))" "tr_sequence t = gw_sequence (tl_gateway s)" "plain_move DISCOVERED VALIDATED t"
    by (simp_all add: g_def t_def gw_validate_def s k m demo_report demo_supported do_transition_eq mk_transition_def plain_move_def
        del: required_capability.simps)
  have "tl_step\<^sup>*\<^sup>* s (moved g s)" using op_validate s(1) unfolding gateway_op_def up_to_date_def g_def by blast
  from recordable_stop [OF s(1) this v(2-5)] have r: "recordable s g t" .
  have a: "acceptable VALIDATE t None OK" by (rule plain_acceptable [OF v(6)]) simp_all
  define c where "c = demo_active\<lparr>ct_timeout := Fin 1, ct_profile := hardware_amr, ct_adapter := PlainAdapter, ct_estop_bound := True, ct_log := s\<rparr>"
  define c1 where "c1 = c\<lparr>ct_time := Suc (Suc (Suc (Suc 0))), ct_hw_verified := True, ct_log := moved g s\<rparr>"
  have c1: "ct_timeout c1 = Fin 1" "ct_log c1 = moved g s" by (simp_all add: c1_def c_def)
  from quiet_stop [where w = ?w, OF _ s(1) r a c1]
  obtain n s' where e: "append_record ?w VALIDATE t None OK c1 = Some (Ret (), c1\<lparr>ct_time := n, ct_log := s'\<rparr>)" by auto
  have q: "\<not> tl_quarantined s" using s(1) unfolding up_to_date_def tl_inv_def stop_inv_def by blast
  have "rp_name hardware_amr = ''hospital-amr''" by (simp add: hardware_amr_def hospital_amr_def)
  then have "\<exists>d c'. validate_profile ?w ''hospital-amr'' c = Some (Ret d, c') \<and> rp_mode (ct_profile c') = ''hardware''"
    using e q by (simp add: validate_profile_def validate_adapter_def adapter_guard_def ensure_available_def run_simps quiet_turn
        c_def demo_active_def activated_def demo_fresh_def k v(1) c1_def)
  then obtain d c' where "validate_profile ?w ''hospital-amr'' c = Some (Ret d, c')" "rp_mode (ct_profile c') = ''hardware''" by blast
  with validated_hardware_is_stop_bound [OF this(1)] show ?thesis by blast
qed

section \<open>Shutdown\<close>

lemma cs_stop_gateway: "ctl_spec w (begun UNIV) (stop_gateway w) (\<lambda>_. halted) (\<lambda>_. halted)"
  unfolding stop_gateway_def
proof (rule cs_after)
  show "ctl_spec w (begun UNIV) (gateway_state w)
      (\<lambda>st c. begun UNIV c \<and> (st \<noteq> RUNNING \<and> st \<noteq> ESTOPPED \<longrightarrow> halted c)) (\<lambda>_. halted)"
    unfolding gateway_state_def
    by (rule cs_gateway [OF stable_begun]) (auto simp: op_id moved_self begun_def log_begun_def halted_def)
  fix st
  have "ctl_spec w (begun UNIV) (after (gateway_state w) (\<lambda>st. after (estop_gateway w) (\<lambda>(t, result).
      after (case t of None \<Rightarrow> done_with () | Some t \<Rightarrow> register_record w ESTOP t) (\<lambda>_.
      after (start_task_cleanup w) (\<lambda>_. done_with (st = RUNNING \<and> \<not> successful result)))))) (\<lambda>_. halted) (\<lambda>_. halted)"
  proof (rule cs_after)
    show "ctl_spec w (begun UNIV) (gateway_state w) (\<lambda>_ _. True) (\<lambda>_. halted)"
      unfolding gateway_state_def by (rule cs_gateway [OF stable_begun]) (simp_all add: op_id)
    fix st
    show "ctl_spec w (\<lambda>_. True) (after (estop_gateway w) (\<lambda>(t, result).
      after (case t of None \<Rightarrow> done_with () | Some t \<Rightarrow> register_record w ESTOP t) (\<lambda>_.
      after (start_task_cleanup w) (\<lambda>_. done_with (st = RUNNING \<and> \<not> successful result))))) (\<lambda>_. halted) (\<lambda>_. halted)"
    proof (rule cs_after)
      show "ctl_spec w (\<lambda>_. True) (estop_gateway w) (\<lambda>_. halted) (\<lambda>_. halted)"
        by (rule cs_weaken [OF cs_estop]) (auto simp: estopped_def halted_def log_halted_def)
      fix r :: "transition option \<times> stop_result"
      have "act_spec False w anything anything (case r of (t, result) \<Rightarrow>
        after (case t of None \<Rightarrow> done_with () | Some t \<Rightarrow> register_record w ESTOP t) (\<lambda>_.
        after (start_task_cleanup w) (\<lambda>_. done_with (st = RUNNING \<and> \<not> successful result))))"
        by (rule spec_register spec_then spec_rules | simp)+
      from cs_keep [OF this stable_halted]
      show "ctl_spec w halted (case r of (t, result) \<Rightarrow>
        after (case t of None \<Rightarrow> done_with () | Some t \<Rightarrow> register_record w ESTOP t) (\<lambda>_.
        after (start_task_cleanup w) (\<lambda>_. done_with (st = RUNNING \<and> \<not> successful result)))) (\<lambda>_. halted) (\<lambda>_. halted)"
        by (rule cs_weaken) auto
    qed
  qed
  then show "ctl_spec w (\<lambda>c. begun UNIV c \<and> (st \<noteq> RUNNING \<and> st \<noteq> ESTOPPED \<longrightarrow> halted c))
     (if st \<noteq> RUNNING \<and> st \<noteq> ESTOPPED then done_with False
      else after (gateway_state w) (\<lambda>st. after (estop_gateway w) (\<lambda>(t, result).
      after (case t of None \<Rightarrow> done_with () | Some t \<Rightarrow> register_record w ESTOP t) (\<lambda>_.
      after (start_task_cleanup w) (\<lambda>_. done_with (st = RUNNING \<and> \<not> successful result)))))) (\<lambda>_. halted) (\<lambda>_. halted)"
    by (auto intro: cs_done cs_weaken)
qed

lemma cs_stop_runtime: "ctl_spec w (begun UNIV) (stop_runtime w) (\<lambda>_. halted) (\<lambda>_. halted)"
  unfolding stop_runtime_def
proof (rule cs_after [OF cs_reading [where Q = "\<lambda>_. begun UNIV"]], assumption, rule cs_after [OF cs_any], rule spec_asking, rule TrueI,
    rule cs_after [OF cs_update [where Q = "\<lambda>_. begun UNIV"]], simp, simp add: begun_def, rule cs_after [OF cs_stop_gateway])
  fix timeout deadline :: pyfloat and unstopped
  let ?rest = "after (on_gateway w (\<lambda>t g. (tn_joined t, gw_close (mo_stops (tn_log t)) g))) (\<lambda>closed.
     after (gateway_state w) (\<lambda>st. after (drain_failed_within w deadline) (\<lambda>undrained.
     after (reading (\<lambda>c. 0 < ct_cleanups c \<or> ct_monitor c)) (\<lambda>threads. after (asking w tn_joined) (\<lambda>joined.
     after (reading ct_cleanup_failed) (\<lambda>unstarted. after (drain_failed_within w deadline) (\<lambda>undrained2.
     after (asking w tn_joined) (\<lambda>audit_closed. after (asking w tn_closes) (\<lambda>adapter. after (asking w tn_factory_closes) (\<lambda>factory.
     after (ensure (\<not> (unstopped \<or> \<not> closed \<or> undrained \<or> threads \<and> \<not> joined \<or> unstarted \<or> undrained2 \<or> \<not> audit_closed \<or>
         close_failed adapter \<or> (case factory of None \<Rightarrow> False | Some r \<Rightarrow> close_failed r))) ''CLEANUP_FAILED'') (\<lambda>_.
     done_with [state_entry st])))))))))))"
  have "act_spec False w anything anything ?rest" by (rule spec_then spec_close spec_drain_failed spec_rules | simp)+
  from cs_keep [OF this stable_halted] show "ctl_spec w halted ?rest (\<lambda>_. halted) (\<lambda>_. halted)" by (rule cs_weaken) auto
qed

text \<open>C7: A shutdown leaves nothing moving: from a gateway that has been started, stopping the runtime ends with the gateway stopped,
  faulted or in emergency stop, whether the shutdown reports success or a failed cleanup.\<close>
theorem shutdown_halts:
  assumes "stop_runtime w c = Some (r, c')" "others_follow (audit_world w)" "tl_inv (ct_log c)"
    "gw_state (gateway_of c) \<in> {RUNNING, STOPPED, FAULTED, ESTOPPED}"
  shows "gw_state (gateway_of c') \<in> {STOPPED, FAULTED, ESTOPPED}"
proof -
  have "begun UNIV c" using assms(4) by (auto simp: begun_def log_begun_def log_halted_def)
  from ctl_specD [OF cs_stop_runtime assms(2,3) this assms(1)] show ?thesis by (simp add: halted_def log_halted_def split: sum.splits)
qed

theorem shutdown_halts_witness:
  "\<exists>r c. stop_runtime demo_world demo_run = Some (r, c) \<and> gw_state (gateway_of c) \<in> {STOPPED, FAULTED, ESTOPPED}"
proof -
  obtain r c where a: "stop_runtime demo_world demo_run = Some (r, c)"
    using returnsD [OF handlers_return_all(11) [OF demo_patient] demo_timeout(2)] by blast
  with shutdown_halts [OF a demo_follow demo_run_inv] demo_run_state(1) show ?thesis by auto
qed

section \<open>Every handler returns\<close>

text \<open>C8: No handler hangs: once the deadlines that its drains wait for pass, and an append that is given no time does not succeed,
  every handler of the runtime, a turn of its monitor and its shutdown come back with a result or an error, whatever the other
  threads, the adapter and the audit do.\<close>
theorem handlers_return:
  assumes "patient w (ct_timeout c)"
  shows "(\<exists>y. discover_gateway w report c = Some y) \<and> (\<exists>y. validate_profile w name c = Some y) \<and>
    (\<exists>y. arm_robot w name challenge dry_run c = Some y) \<and> (\<exists>y. run_task w store name dry_run c = Some y) \<and>
    (\<exists>y. task_status w c = Some y) \<and> (\<exists>y. cancel_task w c = Some y) \<and> (\<exists>y. emergency_stop w c = Some y) \<and>
    (\<exists>y. physical_estop w asserted c = Some y) \<and> (\<exists>y. observe_source w source c = Some y) \<and>
    (\<exists>y. monitor_turn w c = Some y) \<and> (\<exists>y. stop_runtime w c = Some y)"
  by (intro conjI returns_some handlers_return_all assms)

theorem handlers_return_witness: "\<exists>y. stop_runtime demo_world demo_run = Some y"
  using handlers_return [of demo_world demo_run] demo_patient by simp

section \<open>What an unavailable runtime refuses\<close>

definition refuses :: "world \<Rightarrow> ctl \<Rightarrow> 'a act \<Rightarrow> string \<Rightarrow> bool" where
  "refuses w c a code \<longleftrightarrow> (\<exists>c'. a c = Some (Raise (controller_error code), c') \<and>
     ct_log c' = mo_others (tn_log (w (ct_time c))) False (ct_log c))"

lemma refuses_after:
  assumes "ct_cleanup_failed c \<or> ct_quarantined c"
  shows "refuses w c (after (ensure_available w) f) (if ct_cleanup_failed c then ''CLEANUP_FAILED'' else ''AUDIT_INTEGRITY_COMPROMISED'')"
  using assms by (auto simp: refuses_def ensure_available_def after_def asking_def on_gateway_def Let_def reading_def ensure_def
      done_with_def fail_with_def moved_self)

text \<open>A runtime whose cleanup has failed or whose audit is in quarantine refuses every request with the code of its condition, and
  touches neither the gateway nor the log: nothing is validated, armed, started or stopped. The refusals include the
  operator's emergency stop, which then is not even attempted.\<close>
theorem unavailable_refuses_requests:
  assumes "ct_cleanup_failed c \<or> ct_quarantined c"
  defines "code \<equiv> if ct_cleanup_failed c then ''CLEANUP_FAILED'' else ''AUDIT_INTEGRITY_COMPROMISED''"
  shows "refuses w c (validate_profile w name) code \<and> refuses w c (arm_robot w name challenge dry_run) code \<and>
    refuses w c (run_task w store name dry_run) code \<and> refuses w c (task_status w) code \<and> refuses w c (cancel_task w) code \<and>
    refuses w c (emergency_stop w) code \<and> refuses w c (observe_source w source) code"
  unfolding code_def validate_profile_def arm_robot_def run_task_def task_status_def cancel_task_def emergency_stop_def observe_source_def
  by (intro conjI refuses_after assms)

theorem unavailable_refuses_requests_witness:
  "refuses demo_world (demo_run\<lparr>ct_cleanup_failed := True\<rparr>) (emergency_stop demo_world) ''CLEANUP_FAILED''"
  using unavailable_refuses_requests [of "demo_run\<lparr>ct_cleanup_failed := True\<rparr>" demo_world] by simp

text \<open>A permit that is lost after the run has started ends the handler, not the run: the gateway keeps running.\<close>

lemma lost_permit_keeps_running:
  assumes "\<And>n. mo_others (tn_log (w n)) = (\<lambda>_ s. s)" "\<And>n. \<not> tn_current (w n)" "gw_state (gateway_of c) = RUNNING"
  shows "\<exists>c'. refuse_lost w c = Some (Raise (controller_error ''ESTOP_LATCHED''), c') \<and> gw_state (gateway_of c') = RUNNING"
  using assms by (simp add: refuse_lost_def activation_lost_def start_task_cleanup_def after_def asking_def gateway_state_def on_gateway_def
      Let_def moved_self done_with_def fail_with_def only_if_def reading_def update_def)

end
