(* ===== verification/MissionBudget.thy ===== *)
theory MissionBudget
  imports RuntimeController
begin

text \<open>
  The simulation-time budget of the hospital mission (\<^verbatim>\<open>_hospital_budget_error\<close> in
  \<^verbatim>\<open>agent_ros/runtime/controller.py\<close>), against a specification that says of the reported times themselves when a
  mission is in time: the loop over the stage results computes exactly that.
\<close>

section \<open>The specification\<close>

text \<open>The completion times that the stage results report.\<close>

definition reported_times :: "pyval list \<Rightarrow> rat list \<Rightarrow> bool" where
  "reported_times results ends \<longleftrightarrow>
     list_all2 (\<lambda>r t. \<exists>d. r = VDict d \<and> budget_number (vget d ''elapsed'') = Ret (Some t)) results ends"

definition overdue :: "task_stage \<Rightarrow> rat \<Rightarrow> rat \<Rightarrow> bool" where
  "overdue stage since now \<longleftrightarrow> flt (Fin (ts_timeout stage)) (fsub (Fin now) (Fin since))"

text \<open>The times increase from a beginning, none is later than now, and no stage was overdue when it was completed.\<close>

definition stages_in_time :: "rat \<Rightarrow> rat \<Rightarrow> task_stage list \<Rightarrow> rat list \<Rightarrow> bool" where
  "stages_in_time now since stages ends \<longleftrightarrow> length ends \<le> length stages \<and>
     (\<forall>i < length ends. (since # ends) ! i < ends ! i \<and> ends ! i \<le> now \<and> \<not> overdue (stages ! i) ((since # ends) ! i) (ends ! i))"

definition mission_in_time :: "rat \<Rightarrow> task_stage list \<Rightarrow> rat list \<Rightarrow> bool" where
  "mission_in_time now stages ends \<longleftrightarrow> 0 \<le> now \<and> stages_in_time now 0 stages ends \<and>
     \<not> flt (total_timeout stages) (Fin now) \<and>
     (length ends < length stages \<longrightarrow> \<not> overdue (stages ! length ends) (last (0 # ends)) now)"

section \<open>The loop\<close>

lemma in_time_Nil [simp]: "stages_in_time now since stages []"
  by (simp add: stages_in_time_def)

lemma in_time_Cons:
  "stages_in_time now since (s # stages) (t # ends) \<longleftrightarrow>
     since < t \<and> t \<le> now \<and> \<not> overdue s since t \<and> stages_in_time now t stages ends"
  by (auto simp: stages_in_time_def All_less_Suc2)

lemma reported_Cons:
  "reported_times (r # results) ends \<longleftrightarrow>
     (\<exists>d t ts. ends = t # ts \<and> r = VDict d \<and> budget_number (vget d ''elapsed'') = Ret (Some t) \<and> reported_times results ts)"
  by (auto simp: reported_times_def list_all2_Cons1)

lemma reported_length: "reported_times results ends \<Longrightarrow> length ends = length results"
  by (auto simp: reported_times_def dest: list_all2_lengthD)

lemma budget_stages_iff:
  assumes "length results \<le> length stages"
  shows "budget_stages now stages results since = Ret (Inr final) \<longleftrightarrow>
    (\<exists>ends. reported_times results ends \<and> stages_in_time now since stages ends \<and> final = last (since # ends))"
  using assms
proof (induction results arbitrary: stages since)
  case Nil
  then show ?case by (auto simp: reported_times_def)
next
  case (Cons r results)
  then obtain s ss where stages: "stages = s # ss" "length results \<le> length ss" by (cases stages) auto
  show ?case
  proof (cases r)
    case (VDict d)
    note IH = Cons.IH [OF stages(2)]
    show ?thesis
    proof (cases "budget_number (vget d ''elapsed'')")
      case (Inr n)
      with VDict IH show ?thesis
        by (cases n) (auto simp: stages reported_Cons in_time_Cons overdue_def not_le split: if_splits)
    qed (simp add: VDict reported_Cons)
  qed (auto simp: reported_Cons)
qed

section \<open>Property\<close>

text \<open>The budget check is exact: a status past the start of the mission passes precisely when its elapsed time and the completion
  times of its stage results are finite numbers in strictly increasing order up to the elapsed time, no more of them than stages,
  and no stage, not the stage under way, and not the whole mission has taken longer than the task's timeouts allow.\<close>
theorem budget_check_exact:
  assumes "as_state status \<notin> {''starting'', ''idle''}"
  shows "hospital_budget_error status (Some task) = Ret None \<longleftrightarrow>
    (\<exists>now results ends. budget_number (vget (as_values status) ''elapsed'') = Ret (Some now) \<and>
       vget (as_values status) ''stage_results'' = VList results \<and> reported_times results ends \<and>
       mission_in_time now (tp_stages task) ends)" (is "?L \<longleftrightarrow> ?R")
proof -
  let ?stages = "tp_stages task"
  have core: "(0 \<le> now \<and> length results \<le> length ?stages \<and> (\<exists>final. budget_stages now ?stages results 0 = Ret (Inr final) \<and>
        \<not> flt (total_timeout ?stages) (Fin now) \<and>
        \<not> (length results < length ?stages \<and> overdue (?stages ! length results) final now))) \<longleftrightarrow>
      (\<exists>ends. reported_times results ends \<and> mission_in_time now ?stages ends)" for now results
  proof (cases "length results \<le> length ?stages")
    case True
    have "length ends = length results" if "reported_times results ends" for ends using that by (rule reported_length)
    then show ?thesis unfolding budget_stages_iff [OF True] mission_in_time_def using True by metis
  next
    case False
    then show ?thesis by (auto dest: reported_length simp: mission_in_time_def stages_in_time_def)
  qed
  show ?thesis
  proof (cases "budget_number (vget (as_values status) ''elapsed'')")
    case (Inr n)
    show ?thesis
    proof (cases n)
      case (Some now)
      show ?thesis
      proof (cases "vget (as_values status) ''stage_results''")
        case (VList results)
        have "?L \<longleftrightarrow> 0 \<le> now \<and> length results \<le> length ?stages \<and> (\<exists>final. budget_stages now ?stages results 0 = Ret (Inr final) \<and>
            \<not> flt (total_timeout ?stages) (Fin now) \<and>
            \<not> (length results < length ?stages \<and> overdue (?stages ! length results) final now))"
          using assms Inr Some VList
          by (cases "budget_stages now ?stages results 0")
            (auto simp: hospital_budget_error_def overdue_def not_le not_less split: sum.splits)
        with core [of now results] show ?thesis using Inr Some VList by simp
      qed (use assms Inr Some in \<open>simp_all add: hospital_budget_error_def\<close>)
    qed (use assms Inr in \<open>simp add: hospital_budget_error_def\<close>)
  qed (use assms in \<open>simp add: hospital_budget_error_def\<close>)
qed

definition demo_status :: "rat \<Rightarrow> adapter_status" where
  "demo_status now = \<lparr>as_state = ''running'', as_code = None,
     as_values = [(VStr ''elapsed'', VFloat (Fin now)), (VStr ''stage_results'', VList [])]\<rparr>"

theorem budget_check_exact_witness:
  "mission_in_time 30 (tp_stages delivery_task) [] \<and> hospital_budget_error (demo_status 30) (Some delivery_task) = Ret None"
proof -
  have n: "budget_number (VFloat (Fin 30)) = Ret (Some 30)" by (simp add: budget_number_def)
  have t: "fadd (Fin 0) (Fin 60) = Fin 60" "fsub (Fin 30) (Fin 0) = Fin 30" by (simp_all add: fsub_def float_eval)
  have "mission_in_time 30 (tp_stages delivery_task) []"
    by (simp add: mission_in_time_def total_timeout_def overdue_def delivery_task_def t)
  moreover from this n budget_check_exact [of "demo_status 30" delivery_task]
  have "hospital_budget_error (demo_status 30) (Some delivery_task) = Ret None"
    by (fastforce simp: demo_status_def vget_def reported_times_def)
  ultimately show ?thesis by blast
qed

end
