(* ===== verification/SessionStart.thy ===== *)
theory SessionStart
  imports RuntimeController
begin

text \<open>
  The beginning of a session (\<^verbatim>\<open>discover_robot\<close> in \<^verbatim>\<open>agent_ros/runtime/controller.py\<close> up to the gateway): what
  the composition of the sealed hospital case gives the gateway, and what becomes of an adapter that was made for a session that
  does not begin.
\<close>

section \<open>The sealed composition\<close>

lemma topic_added:
  assumes "with_topic i (Ret types) = Ret types'"
  shows "\<exists>topic live. if_topic i = Some topic \<and> dget types' topic = Some live \<and> if_type i \<in> set live \<and>
    (\<forall>k l. dget types k = Some l \<longrightarrow> dget types' k = Some l)"
  using assms by (auto simp: with_topic_def dget_map_of map_add_def split: option.splits if_splits)

lemma sealed_cases:
  assumes "sealed_hospital_discovery answer profile report = Ret report'"
  obtains command odometry types1 where "ri_command (rp_interfaces profile) = Some command" "ri_odometry (rp_interfaces profile) = Some odometry"
    "with_topic command (Ret (dr_topic_types report)) = Ret types1" "with_topic odometry (Ret types1) = Ret (dr_topic_types report')"
    "dr_blocking_warnings report' = dr_blocking_warnings report" "''mobile_base.twist'' \<in> set (capability_names report')"
    "\<exists>capabilities. answer = Ret (True, capabilities) \<and> ''hospital.delivery'' \<in> set capabilities"
proof -
  from assms obtain available capabilities where a: "answer = Ret (available, capabilities)" "available" "''hospital.delivery'' \<in> set capabilities"
    by (cases answer) (auto simp: sealed_hospital_discovery_def split: prod.splits if_splits)
  from assms a obtain command odometry where i: "ri_command (rp_interfaces profile) = Some command" "ri_odometry (rp_interfaces profile) = Some odometry"
    by (auto simp: sealed_hospital_discovery_def split: option.splits)
  from assms a i obtain types where t: "with_topic odometry (with_topic command (Ret (dr_topic_types report))) = Ret types"
    "report' = report\<lparr>dr_capabilities := dr_capabilities report @
             (if ''mobile_base.twist'' \<in> set (capability_names report) then []
              else [mk_capability ''mobile_base.twist''
                [''sealed:hospital_delivery'', the (if_topic command), the (if_topic odometry)]]),
           dr_warnings := dr_warnings report @ [''sealed hospital lifecycle/profile composition''],
           dr_topic_types := types\<rparr>"
    by (auto simp: sealed_hospital_discovery_def rbind_Inr_iff)
  from t(1) obtain types1 where t1: "with_topic command (Ret (dr_topic_types report)) = Ret types1"
    by (cases "with_topic command (Ret (dr_topic_types report))") (simp_all add: with_topic_def)
  show thesis
    by (rule that [OF i t1]) (use a t t1 in \<open>auto simp: capability_names_def mk_capability_def\<close>)
qed

lemma sealed_supports:
  assumes "sealed_hospital_discovery answer profile report = Ret report'" "rp_adapter_kind profile \<in> {''twist'', ''hospital_delivery''}"
  shows "interfaces_match profile report' \<and> required_capability (rp_adapter_kind profile) = Ret ''mobile_base.twist'' \<and>
    ''mobile_base.twist'' \<in> set (capability_names report') \<and> dr_blocking_warnings report' = dr_blocking_warnings report"
proof (rule sealed_cases [OF assms(1)])
  fix command odometry types1
  assume i: "ri_command (rp_interfaces profile) = Some command" "ri_odometry (rp_interfaces profile) = Some odometry"
    and t: "with_topic command (Ret (dr_topic_types report)) = Ret types1" "with_topic odometry (Ret types1) = Ret (dr_topic_types report')"
    and r: "dr_blocking_warnings report' = dr_blocking_warnings report" "''mobile_base.twist'' \<in> set (capability_names report')"
  from topic_added [OF t(1)] topic_added [OF t(2)]
  have "topic_matches report' (if_topic command) (if_type command) \<and> topic_matches report' (if_topic odometry) (if_type odometry)"
    by (fastforce simp: topic_matches_def dget_list_def)
  with i r assms(2) show ?thesis by (auto simp: interfaces_match_def)
qed

section \<open>Sessions\<close>

lemma session_cases:
  assumes "open_session repr d marker hint s = (Ret (report, c), s')"
  obtains name profile kind where "prepare_discovery repr d name = (True, Ret (profile, kind, report))" "dr_blocking_warnings report = []"
    "c = activated profile kind s" "s' = s"
proof -
  from assms obtain name where n: "fresh_available marker s = Ret ()"
    "(case hint of Some n \<Rightarrow> Ret n | None \<Rightarrow> only_robot_profile_name (dc_names d)) = Ret name"
    unfolding open_session_def by (cases "fresh_available marker s"; cases "case hint of Some n \<Rightarrow> Ret n | None \<Rightarrow> only_robot_profile_name (dc_names d)") auto
  obtain adapter r where p: "prepare_discovery repr d name = (adapter, r)" by (metis surj_pair)
  show thesis
  proof (cases r)
    case (Inr x)
    obtain profile kind rep where x: "x = (profile, kind, rep)" by (metis surj_pair)
    have "adapter" using p Inr by (auto simp: prepare_discovery_def split: sum.splits)
    have "dr_blocking_warnings rep = [] \<and> is_ret (dc_channel d) \<and> report = rep \<and> c = activated profile kind s \<and> s' = s"
      using assms n p Inr x
      by (cases "dr_blocking_warnings rep = []"; cases "is_ret (dc_channel d)") (simp_all add: open_session_def Let_def split: prod.splits)
    with p Inr x \<open>adapter\<close> show thesis by (intro that [of name profile kind]) simp_all
  qed (use assms n p in \<open>simp add: open_session_def Let_def split: prod.splits\<close>)
qed

lemma prepare_cases:
  assumes "prepare_discovery repr d name = (adapter, Ret (profile, kind, report))"
  obtains snapshot where "load_robot_profile repr (dc_store d) name = Ret profile" "make_adapter (dc_factory d) = Ret kind"
    "(if kind = CaseAdapter then sealed_hospital_discovery (dc_available d) profile (infer_capabilities snapshot)
      else Ret (infer_capabilities snapshot)) = Ret report"
  using assms by (auto simp: prepare_discovery_def rbind_Inr_iff split: sum.splits if_splits)

text \<open>The sealed composition is enough for the gateway: when a session of the hospital case begins for a wheeled robot, its adapter
  reported itself available for the delivery, and the gateway of the session accepts the composed report and
  then validates it, so discovery and validation cannot end in an unsupported profile.\<close>
theorem sealed_session_validates:
  assumes "open_session repr d marker hint s = (Ret (report, c), s')" "ct_adapter c = CaseAdapter"
    "rp_adapter_kind (ct_profile c) \<in> {''twist'', ''hospital_delivery''}"
  shows "(\<exists>capabilities. dc_available d = Ret (True, capabilities) \<and> ''hospital.delivery'' \<in> set capabilities) \<and>
    (\<exists>t g u g'. gw_discover (Some report) (tl_gateway (ct_log c)) = (Ret t, g) \<and> gw_validate g = (Ret u, g') \<and>
       gw_state g' = (if rp_mode (ct_profile c) = ''simulation'' then ARMED else VALIDATED))"
proof (rule session_cases [OF assms(1)])
  fix name profile kind
  assume p: "prepare_discovery repr d name = (True, Ret (profile, kind, report))" "dr_blocking_warnings report = []" "c = activated profile kind s"
  then have k: "kind = CaseAdapter" "rp_adapter_kind profile \<in> {''twist'', ''hospital_delivery''}" "ct_profile c = profile"
    using assms(2,3) by (simp_all add: activated_def)
  from p(1) show ?thesis
  proof (rule prepare_cases)
    fix snapshot
    assume "(if kind = CaseAdapter then sealed_hospital_discovery (dc_available d) profile (infer_capabilities snapshot)
      else Ret (infer_capabilities snapshot)) = Ret report"
    with k have sealed: "sealed_hospital_discovery (dc_available d) profile (infer_capabilities snapshot) = Ret report" by simp
    from sealed_supports [OF sealed k(2)] have m: "interfaces_match profile report"
      "required_capability (rp_adapter_kind profile) = Ret ''mobile_base.twist''" "''mobile_base.twist'' \<in> set (capability_names report)" by simp_all
    define g0 where "g0 = gateway_init profile True"
    define g where "g = snd (gw_discover (Some report) g0)"
    have g: "fst (gw_discover (Some report) g0) = Ret (mk_transition DISCOVERED None g0)" "gw_state g = DISCOVERED"
      "gw_profile g = profile" "gw_report g = Some report"
      using p(2) by (simp_all add: g_def g0_def gw_discover_def do_transition_eq gateway_init_def mk_transition_def)
    have "fst (gw_validate g) = Ret (mk_transition (if rp_mode profile = ''simulation'' then ARMED else VALIDATED) None g) \<and>
        gw_state (snd (gw_validate g)) = (if rp_mode profile = ''simulation'' then ARMED else VALIDATED)"
      using g m by (simp add: gw_validate_def do_transition_eq del: required_capability.simps)
    moreover have "tl_gateway (ct_log c) = g0" by (simp add: p(3) activated_def log_init_def g0_def)
    moreover have "\<exists>capabilities. dc_available d = Ret (True, capabilities) \<and> ''hospital.delivery'' \<in> set capabilities"
      by (rule sealed_cases [OF sealed])
    ultimately show ?thesis using g(1) k(3) g_def by (metis prod.collapse)
  qed
qed

definition sealed_calls :: discovery_calls where
  "sealed_calls = \<lparr>dc_names = Ret [''hospital-amr''], dc_store = hospital_store (robot_doc hospital_amr), dc_probe = Ret demo_snapshot,
     dc_factory = Ret (Some CaseAdapter), dc_available = Ret (True, [''hospital.delivery'']), dc_channel = Ret (), dc_close = Ret True\<rparr>"

definition first_session :: fresh where
  "first_session = \<lparr>fr_timeout = Fin 1, fr_files = demo_files, fr_quarantined = False, fr_cleanup_failed = False\<rparr>"

theorem sealed_session_validates_witness:
  "\<exists>report c s' t g u g'. open_session (\<lambda>_. []) sealed_calls False None first_session = (Ret (report, c), s') \<and>
     gw_discover (Some report) (tl_gateway (ct_log c)) = (Ret t, g) \<and> gw_validate g = (Ret u, g') \<and> gw_state g' = ARMED"
proof -
  have i: "rp_interfaces hospital_amr = \<lparr>ri_command = Some \<lparr>if_type = TWIST_TYPE, if_topic = Some ''/cmd_vel'', if_action = None\<rparr>,
       ri_odometry = Some \<lparr>if_type = ODOMETRY_TYPE, if_topic = Some ''/odom'', if_action = None\<rparr>,
       ri_navigation = None, ri_trajectory = None\<rparr>" by (simp add: hospital_amr_def)
  obtain report where r: "sealed_hospital_discovery (Ret (True, [''hospital.delivery''])) hospital_amr (infer_capabilities demo_snapshot) = Ret report"
    "dr_blocking_warnings report = []"
    using demo_report by (simp add: sealed_hospital_discovery_def i with_topic_def)
  have p: "prepare_discovery (\<lambda>_. []) sealed_calls ''hospital-amr'' = (True, Ret (hospital_amr, CaseAdapter, report))"
    by (simp add: prepare_discovery_def sealed_calls_def hospital_amr_loads make_adapter_def r)
  have "dc_names sealed_calls = Ret [''hospital-amr'']" "dc_channel sealed_calls = Ret ()" by (simp_all add: sealed_calls_def)
  then have o: "open_session (\<lambda>_. []) sealed_calls False None first_session = (Ret (report, activated hospital_amr CaseAdapter first_session), first_session)"
    using r(2) p by (simp add: open_session_def fresh_available_def first_session_def only_robot_profile_name_def)
  have "ct_adapter (activated hospital_amr CaseAdapter first_session) = CaseAdapter" by (simp add: activated_def)
  moreover have "rp_adapter_kind (ct_profile (activated hospital_amr CaseAdapter first_session)) \<in> {''twist'', ''hospital_delivery''}"
    "rp_mode (ct_profile (activated hospital_amr CaseAdapter first_session)) = ''simulation''"
    by (simp_all add: activated_def hospital_amr_def)
  ultimately show ?thesis using sealed_session_validates [OF o] o by fastforce
qed

end
