(* ===== verification/EmergencyChannel.thy ===== *)
theory EmergencyChannel
  imports Sequencer
begin

text \<open>
  The emergency side of the adapters (\<^verbatim>\<open>agent_ros/adapters/_safety.py\<close>): the bounded
  worker that owns every call into a transport, and the channel that submits the zero command to it while it latches
  the activation sequencer. A command is known by the number of its result; what the transport does with it is
  an argument of the step. \<open>bw_executed\<close> is a history variable: the commands the worker has
  run, in order.
\<close>

section \<open>The bounded worker\<close>

definition EMERGENCY_QUEUE_CAPACITY :: nat where "EMERGENCY_QUEUE_CAPACITY = 16"

datatype bounded_pc = Waiting | Executing nat | Publishing nat "unit result" | Leaving

record bounded_worker =
  bw_accepting :: bool
  bw_failed :: bool
  bw_stopping :: bool
  bw_thread :: worker_thread
  bw_queue :: "nat list"
  bw_results :: "unit result option list"
  bw_pc :: bounded_pc
  bw_executed :: "nat list"

definition bw_init :: bounded_worker where
  "bw_init = \<lparr>bw_accepting = False, bw_failed = False, bw_stopping = False, bw_thread = NoThread, bw_queue = [],
     bw_results = [], bw_pc = Waiting, bw_executed = []\<rparr>"

definition bw_start :: "bool \<Rightarrow> bounded_worker \<Rightarrow> bool \<times> bounded_worker" where
  "bw_start spawns w =
     (if bw_thread w \<noteq> NoThread then (bw_accepting w \<and> bw_thread w = Alive \<and> \<not> bw_failed w, w)
      else if \<not> spawns then (False, w\<lparr>bw_failed := True\<rparr>)
      else (True, w\<lparr>bw_thread := Alive, bw_accepting := True\<rparr>))"

definition bw_submit :: "bool \<Rightarrow> bounded_worker \<Rightarrow> nat result \<times> bounded_worker" where
  "bw_submit is_callable w =
     (if \<not> is_callable then (rejected ''PROFILE_INVALID'', w)
      else if \<not> bw_accepting w \<or> bw_failed w \<or> bw_thread w \<noteq> Alive then (rejected ''UNSAFE_STATE'', w)
      else if EMERGENCY_QUEUE_CAPACITY \<le> length (bw_queue w) then (rejected ''UNSAFE_STATE'', w\<lparr>bw_failed := True\<rparr>)
      else (Ret (length (bw_results w)),
            w\<lparr>bw_queue := bw_queue w @ [length (bw_results w)], bw_results := bw_results w @ [None]\<rparr>))"

definition bw_close_begin :: "bounded_worker \<Rightarrow> bounded_worker" where
  "bw_close_begin w = w\<lparr>bw_accepting := False, bw_stopping := True\<rparr>"

definition bw_close_result :: "bounded_worker \<Rightarrow> bool" where
  "bw_close_result w = (bw_thread w = NoThread \<or> bw_thread w \<noteq> Alive \<and> bw_queue w = [] \<and> \<not> bw_failed w)"

text \<open>The thread: it takes the oldest command, runs it, records a failure, and only then publishes the result. It looks
  at the stop event and the queue without the lock, so a command can still come in between that look and its end.\<close>

definition bw_take :: "bounded_worker \<Rightarrow> bounded_worker" where
  "bw_take w = (case bw_queue w of [] \<Rightarrow> w | rid # rest \<Rightarrow> w\<lparr>bw_queue := rest, bw_pc := Executing rid\<rparr>)"

definition bw_ran :: "nat \<Rightarrow> unit result \<Rightarrow> bounded_worker \<Rightarrow> bounded_worker" where
  "bw_ran rid r w =
     (let w1 = w\<lparr>bw_pc := Publishing rid r, bw_executed := bw_executed w @ [rid]\<rparr>
      in if is_ret r then w1 else w1\<lparr>bw_failed := True\<rparr>)"

definition bw_publish :: "nat \<Rightarrow> unit result \<Rightarrow> bounded_worker \<Rightarrow> bounded_worker" where
  "bw_publish rid r w = w\<lparr>bw_results := (bw_results w)[rid := Some r], bw_pc := Waiting\<rparr>"

inductive bw_step :: "bounded_worker \<Rightarrow> bounded_worker \<Rightarrow> bool" where
  start: "bw_step w (snd (bw_start spawns w))"
| submit: "bw_step w (snd (bw_submit c w))"
| close: "bw_step w (bw_close_begin w)"
| take: "bw_thread w = Alive \<Longrightarrow> bw_pc w = Waiting \<Longrightarrow> bw_queue w \<noteq> [] \<Longrightarrow> bw_step w (bw_take w)"
| run: "bw_thread w = Alive \<Longrightarrow> bw_pc w = Executing rid \<Longrightarrow> bw_step w (bw_ran rid r w)"
| publish: "bw_thread w = Alive \<Longrightarrow> bw_pc w = Publishing rid r \<Longrightarrow> bw_step w (bw_publish rid r w)"
| leave: "bw_thread w = Alive \<Longrightarrow> bw_pc w = Waiting \<Longrightarrow> bw_queue w = [] \<Longrightarrow> bw_stopping w \<Longrightarrow>
     bw_step w (w\<lparr>bw_pc := Leaving\<rparr>)"
| exits: "bw_thread w = Alive \<Longrightarrow> bw_pc w = Leaving \<Longrightarrow> bw_step w (w\<lparr>bw_thread := Dead\<rparr>)"

inductive_simps bw_step_iff: "bw_step w v"

subsection \<open>The invariant\<close>

definition bw_flight :: "bounded_worker \<Rightarrow> nat list" where
  "bw_flight w = (case bw_pc w of Executing rid \<Rightarrow> [rid] | _ \<Rightarrow> [])"

definition bw_published :: "bounded_worker \<Rightarrow> nat \<Rightarrow> bool" where
  "bw_published w rid \<longleftrightarrow> (case bw_pc w of Publishing r x \<Rightarrow> r \<noteq> rid | _ \<Rightarrow> True)"

text \<open>Every command handed out has been run, is being run or is queued, in the order of submission; what has been
  run is published, except for the last; and a failure is never forgotten.\<close>

definition bw_inv :: "bounded_worker \<Rightarrow> bool" where
  "bw_inv w \<longleftrightarrow>
     bw_executed w @ bw_flight w @ bw_queue w = [0..<length (bw_results w)] \<and> length (bw_queue w) \<le> 16 \<and>
     (\<forall>rid \<in> set (bw_executed w). bw_published w rid \<longrightarrow> bw_results w ! rid \<noteq> None) \<and>
     (\<not> bw_failed w \<longrightarrow> (\<forall>rid < length (bw_results w). bw_results w ! rid \<in> {None, Some (Ret ())}) \<and>
        (\<forall>rid r. bw_pc w = Publishing rid r \<longrightarrow> r = Ret ())) \<and>
     (\<forall>rid r. bw_pc w = Publishing rid r \<longrightarrow> rid \<in> set (bw_executed w)) \<and>
     (bw_thread w = Dead \<longrightarrow> bw_pc w = Leaving) \<and> (bw_thread w = NoThread \<longrightarrow> bw_results w = [] \<and> bw_pc w = Waiting)"

lemma bw_inv_init: "bw_inv bw_init" by (simp add: bw_inv_def bw_init_def bw_flight_def)

lemma bw_executed_less: "bw_inv w \<Longrightarrow> rid \<in> set (bw_executed w) \<Longrightarrow> rid < length (bw_results w)"
  by (auto simp: bw_inv_def dest!: arg_cong [of _ "[0..<length (bw_results w)]" set])

lemma bw_inv_step: assumes "bw_step w v" "bw_inv w" shows "bw_inv v"
  using assms
proof (induction rule: bw_step.induct)
  case (start w spawns)
  then show ?case by (cases "bw_thread w") (auto simp: bw_start_def bw_inv_def bw_flight_def bw_published_def)
next
  case (submit w c)
  from submit bw_executed_less [OF submit] show ?case
    by (auto simp: bw_submit_def bw_inv_def bw_flight_def bw_published_def EMERGENCY_QUEUE_CAPACITY_def nth_append
        split: bounded_pc.splits)
next
  case (close w)
  then show ?case by (simp add: bw_close_begin_def bw_inv_def bw_flight_def bw_published_def)
next
  case (take w)
  then show ?case by (auto simp: bw_take_def bw_inv_def bw_flight_def bw_published_def split: list.splits)
next
  case (run w rid r)
  then show ?case by (cases r) (auto simp: bw_ran_def bw_inv_def bw_flight_def bw_published_def Let_def)
next
  case (publish w rid r)
  from publish bw_executed_less [OF publish(3)] show ?case
    by (auto simp: bw_publish_def bw_inv_def bw_flight_def bw_published_def nth_list_update)
next
  case (leave w)
  then show ?case by (simp add: bw_inv_def bw_flight_def bw_published_def)
next
  case (exits w)
  then show ?case by (simp add: bw_inv_def bw_flight_def bw_published_def)
qed

interpretation emergency: machine bw_step bw_inv
  by unfold_locales (rule bw_inv_step)

subsection \<open>Runs\<close>

abbreviation bw_reach :: "bounded_worker \<Rightarrow> bool" where "bw_reach w \<equiv> bw_step\<^sup>*\<^sup>* bw_init w"

lemma bw_reach_inv: "bw_reach w \<Longrightarrow> bw_inv w"
  using emergency.inv_steps bw_inv_init by blast

text \<open>Results are handed out once and never taken back.\<close>

lemma bw_step_grows: "bw_step w v \<Longrightarrow> length (bw_results w) \<le> length (bw_results v)"
  by (induction rule: bw_step.induct)
    (auto simp: bw_start_def bw_submit_def bw_close_begin_def bw_take_def bw_ran_def bw_publish_def Let_def split: list.splits)

lemma bw_steps_grow: "bw_step\<^sup>*\<^sup>* w v \<Longrightarrow> length (bw_results w) \<le> length (bw_results v)"
  by (induction rule: rtranclp_induct) (auto dest: bw_step_grows)

lemma closed_worker_drained:
  assumes "bw_inv w" "bw_close_result w" "rid < length (bw_results w)"
  shows "bw_results w ! rid = Some (Ret ()) \<and> bw_executed w = [0..<length (bw_results w)]"
proof -
  have d: "bw_thread w = Dead" "bw_queue w = []" "\<not> bw_failed w" "bw_pc w = Leaving"
    using assms by (cases "bw_thread w"; auto simp: bw_inv_def bw_close_result_def)+
  then have x: "bw_executed w = [0..<length (bw_results w)]" using assms(1) by (simp add: bw_inv_def bw_flight_def)
  then have "bw_results w ! rid \<noteq> None" using assms(1,3) d(4) by (auto simp: bw_inv_def bw_published_def)
  with assms(1,3) d(3) x show ?thesis by (auto simp: bw_inv_def)
qed

section \<open>The channel\<close>

text \<open>Sequencers have an identity; what is given to \<^verbatim>\<open>_bind\<close> may not be one (\<open>None\<close>). The channel's state
  is kept next to the sequencer's, since a stop is one region of the latter.\<close>

record channel =
  ch_hardware_verified :: bool
  ch_sequencer :: "nat option"
  ch_verified :: bool
  ch_worker :: bounded_worker

definition channel_init :: "bool \<Rightarrow> bool \<Rightarrow> channel" where
  "channel_init hardware_verified guarded =
     \<lparr>ch_hardware_verified = hardware_verified \<and> guarded, ch_sequencer = None, ch_verified = False, ch_worker = bw_init\<rparr>"

definition channel_bind :: "nat option \<Rightarrow> spawn \<Rightarrow> channel \<Rightarrow> 'v sequencer \<Rightarrow> unit result \<times> channel \<times> 'v sequencer" where
  "channel_bind sequencer sp c s =
     (case sequencer of None \<Rightarrow> (rejected ''PROFILE_INVALID'', c, s)
      | Some i \<Rightarrow>
          if ch_sequencer c \<noteq> None \<and> ch_sequencer c \<noteq> Some i then (rejected ''PROFILE_INVALID'', c, s)
          else (let (started, s1) = seq_start sp s in
                if \<not> started then (rejected ''PROFILE_INVALID'', c, s1)
                else (Ret (), c\<lparr>ch_sequencer := Some i\<rparr>, s1)))"

definition channel_verify :: "string \<Rightarrow> bool result \<Rightarrow> bool \<Rightarrow> channel \<Rightarrow> unit result \<times> channel" where
  "channel_verify mode available spawns c =
     (if mode \<notin> {''simulation'', ''hardware''} then (rejected ''PROFILE_INVALID'', c)
      else case available of Inl _ \<Rightarrow> (rejected ''PROFILE_INVALID'', c)
      | Inr a \<Rightarrow>
          if \<not> a \<or> mode = ''hardware'' \<and> \<not> ch_hardware_verified c then (rejected ''PROFILE_INVALID'', c)
          else (let (started, w) = bw_start spawns (ch_worker c) in
                if \<not> started then (rejected ''PROFILE_INVALID'', c\<lparr>ch_worker := w\<rparr>)
                else (Ret (), c\<lparr>ch_worker := w, ch_verified := True\<rparr>)))"

text \<open>\<^verbatim>\<open>_stop\<close> up to the wait: the zero command is the submission to the worker, made under the sequencer's
  lock; it is accepted when it is queued. The wait and the result are \<open>latch_end\<close>.\<close>

definition channel_stop_begin ::
  "pyfloat \<Rightarrow> pyval \<Rightarrow> channel \<Rightarrow> 'v sequencer \<Rightarrow> bool result \<times> channel \<times> 'v sequencer" where
  "channel_stop_begin now timeout c s =
     (if ch_sequencer c = None \<or> \<not> ch_verified c then (rejected ''UNSAFE_STATE'', c, s)
      else case seq_deadline now timeout of Inl e \<Rightarrow> (Raise e, c, s)
      | Inr _ \<Rightarrow>
          (let (r, w) = bw_submit True (ch_worker c); (accepted, s1) = latch_begin (is_ret r) s
           in (Ret accepted, c\<lparr>ch_worker := w\<rparr>, s1)))"

definition channel_close_begin :: "channel \<Rightarrow> channel" where
  "channel_close_begin c = c\<lparr>ch_worker := bw_close_begin (ch_worker c)\<rparr>"

text \<open>A channel with the sequencer it is bound to, and every thread that acts on the two.\<close>

inductive channel_step :: "channel \<times> 'v sequencer \<Rightarrow> channel \<times> 'v sequencer \<Rightarrow> bool" where
  bind: "channel_step (c, s) (snd (channel_bind i sp c s))"
| verify: "channel_step (c, s) (snd (channel_verify mode available spawns c), s)"
| stop: "channel_step (c, s) (snd (channel_stop_begin now timeout c s))"
| close: "channel_step (c, s) (channel_close_begin c, s)"
| worker: "bw_step (ch_worker c) w \<Longrightarrow> channel_step (c, s) (c\<lparr>ch_worker := w\<rparr>, s)"
| sequencer: "seq_step s t \<Longrightarrow> channel_step (c, s) (c, t)"

text \<open>Each step is, for the worker and for the sequencer, a step of its own or none.\<close>

lemma channel_step_parts:
  "channel_step x y \<Longrightarrow> bw_step\<^sup>*\<^sup>* (ch_worker (fst x)) (ch_worker (fst y)) \<and> seq_step\<^sup>*\<^sup>* (snd x) (snd y)"
proof (induction rule: channel_step.induct)
  case (bind c s i sp)
  have "seq_step\<^sup>*\<^sup>* s (snd (seq_start sp s))" by (rule r_into_rtranclp) (rule seq_step.start)
  then show ?case by (auto simp: channel_bind_def split: option.splits prod.splits)
next
  case (verify c s mode available spawns)
  have "bw_step\<^sup>*\<^sup>* (ch_worker c) (snd (bw_start spawns (ch_worker c)))" by (rule r_into_rtranclp) (rule bw_step.start)
  then show ?case by (auto simp: channel_verify_def split: sum.splits prod.splits)
next
  case (stop c s now timeout)
  have "bw_step\<^sup>*\<^sup>* (ch_worker c) (snd (bw_submit True (ch_worker c)))" by (rule r_into_rtranclp) (rule bw_step.submit)
  moreover have "seq_step\<^sup>*\<^sup>* s (snd (latch_begin z s))" for z by (rule r_into_rtranclp) (rule seq_step.latch)
  ultimately show ?case by (auto simp: channel_stop_begin_def latch_begin_def split: sum.splits prod.splits)
next
  case (close c s)
  have "bw_step\<^sup>*\<^sup>* (ch_worker c) (bw_close_begin (ch_worker c))" by (rule r_into_rtranclp) (rule bw_step.close)
  then show ?case by (simp add: channel_close_begin_def)
qed auto

lemma channel_steps_parts:
  assumes "channel_step\<^sup>*\<^sup>* x y"
  shows "bw_step\<^sup>*\<^sup>* (ch_worker (fst x)) (ch_worker (fst y)) \<and> seq_step\<^sup>*\<^sup>* (snd x) (snd y)"
  using assms
proof (induction rule: rtranclp_induct)
  case (step y z)
  then show ?case using channel_step_parts [OF step(2)] by auto
qed simp

section \<open>What every adapter does with it\<close>

text \<open>The safety side of \<^verbatim>\<open>RobotAdapter\<close> (\<^verbatim>\<open>adapters/base.py\<close>). The adapter's own channel may fail to be
  given or be something else (\<open>None\<close>).\<close>

abbreviation invalid_profile :: "'a result" where "invalid_profile \<equiv> Raise (AdapterError ''PROFILE_INVALID'')"

definition bind_runtime_safety ::
  "nat option \<Rightarrow> spawn \<Rightarrow> channel option result \<Rightarrow> 'v sequencer \<Rightarrow> channel option result \<times> 'v sequencer" where
  "bind_runtime_safety sequencer sp ch s =
     (case ch of Inl e \<Rightarrow> (Raise e, s)
      | Inr ch \<Rightarrow> (case (sequencer, ch) of (Some i, Some c) \<Rightarrow>
          (case channel_bind (Some i) sp c s of
             (Inl _, _, s1) \<Rightarrow> (invalid_profile, s1)
           | (Inr _, c1, s1) \<Rightarrow> (Ret (Some c1), s1))
        | _ \<Rightarrow> (invalid_profile, s)))"

definition validate_runtime_safety ::
  "string \<Rightarrow> bool result \<Rightarrow> bool \<Rightarrow> channel option result \<Rightarrow> unit result \<times> channel option" where
  "validate_runtime_safety mode available spawns ch =
     (case ch of Inl e \<Rightarrow> (Raise e, None)
      | Inr None \<Rightarrow> (invalid_profile, None)
      | Inr (Some c) \<Rightarrow>
          (case channel_verify mode available spawns c of
             (Inl _, c1) \<Rightarrow> (invalid_profile, Some c1)
           | (Inr _, c1) \<Rightarrow> (Ret (), Some c1)))"

text \<open>An adapter is bound to its sequencer or not; a rejection by the sequencer becomes the adapter's error, any other
  exception goes through.\<close>

definition adapter_rejection :: "'a result \<Rightarrow> 'a result" where
  "adapter_rejection r = (case r of Inl (ActivationRejected code) \<Rightarrow> Raise (AdapterError code) | _ \<Rightarrow> r)"

definition activate_start_enqueue ::
  "pyfloat \<Rightarrow> bool \<Rightarrow> permit \<Rightarrow> bool \<Rightarrow> 'v sequencer \<Rightarrow> nat result \<times> 'v sequencer" where
  "activate_start_enqueue now bound p is_callable s =
     (if \<not> bound then (invalid_profile, s)
      else (let (r, s1) = submit_enqueue now (VFloat (Fin 1)) p is_callable s in (adapter_rejection r, s1)))"

definition activate_owned_start ::
  "bool \<Rightarrow> permit \<Rightarrow> bool \<Rightarrow> 'v result \<Rightarrow> 'v sequencer \<Rightarrow> 'v result \<times> 'v sequencer" where
  "activate_owned_start bound p is_callable command s =
     (if \<not> bound then (invalid_profile, s)
      else (let (r, s1) = submit_owned p is_callable command s in (adapter_rejection r, s1)))"

definition permit_is_current :: "bool \<Rightarrow> permit \<Rightarrow> 'v sequencer \<Rightarrow> bool \<times> 'v sequencer" where
  "permit_is_current bound p s = (if \<not> bound then (False, s) else is_current p s)"

definition require_current_permit :: "bool \<Rightarrow> permit \<Rightarrow> 'v sequencer \<Rightarrow> unit result \<times> 'v sequencer" where
  "require_current_permit bound p s =
     (if \<not> bound then (invalid_profile, s)
      else (let (r, s1) = require_current p s in (adapter_rejection r, s1)))"

text \<open>\<^verbatim>\<open>_emergency_stop\<close> turns whatever goes wrong into an adapter error with the code it carries.\<close>

fun carried_code :: "py_exn \<Rightarrow> string" where
  "carried_code (AdapterError code) = code"
| "carried_code (ActivationRejected code) = code"
| "carried_code (SafetyError code) = code"
| "carried_code (RuntimeControllerError code) = code"
| "carried_code _ = ''UNSAFE_STATE''"

definition adapter_stop_begin ::
  "pyfloat \<Rightarrow> pyval \<Rightarrow> channel option result \<Rightarrow> 'v sequencer \<Rightarrow> bool result \<times> channel option \<times> 'v sequencer" where
  "adapter_stop_begin now timeout ch s =
     (case ch of
        Inl e \<Rightarrow> (Raise (AdapterError (carried_code e)), None, s)
      | Inr None \<Rightarrow> (Raise (AdapterError ''UNSAFE_STATE''), None, s)
      | Inr (Some c) \<Rightarrow>
          (case channel_stop_begin now timeout c s of
             (Inl e, c1, s1) \<Rightarrow> (Raise (AdapterError (carried_code e)), Some c1, s1)
           | (Inr accepted, c1, s1) \<Rightarrow> (Ret accepted, Some c1, s1)))"

text \<open>\<^verbatim>\<open>close\<close>, by its regions: what the sequencer, the channel's worker and the owner of the transport
  answer is read when their waits end.\<close>

definition adapter_close_begin :: "channel \<times> 'v sequencer \<Rightarrow> channel \<times> 'v sequencer" where
  "adapter_close_begin x = (fst x, begin_close (snd x))"

definition adapter_close_answer :: "bool \<Rightarrow> bool \<Rightarrow> bool result option \<Rightarrow> bool" where
  "adapter_close_answer channel_closed sequencer_closed owner =
     (channel_closed \<and> sequencer_closed \<and> (case owner of None \<Rightarrow> True | Some (Inl _) \<Rightarrow> False | Some (Inr b) \<Rightarrow> b))"

text \<open>One close with the steps of the other threads between its regions: the sequencer is closed, then the channel, whose
  worker is waited for, then the sequencer's, then the owner is asked.\<close>

inductive adapter_closes ::
  "bool result option \<Rightarrow> channel \<times> 'v sequencer \<Rightarrow> bool \<Rightarrow> channel \<times> 'v sequencer \<Rightarrow> bool" where
  "channel_step\<^sup>*\<^sup>* (adapter_close_begin x) (c, s) \<Longrightarrow> channel_step\<^sup>*\<^sup>* (channel_close_begin c, s) (c1, s1) \<Longrightarrow>
   channel_step\<^sup>*\<^sup>* (c1, s1) (c2, s2) \<Longrightarrow>
   adapter_closes owner x
     (adapter_close_answer (bw_close_result (ch_worker c1)) (close_result s2) owner) (c2, s2)"

text \<open>The owner of a transport is bound once.\<close>

definition bind_runtime_owner :: "bool \<Rightarrow> bool \<Rightarrow> unit result \<times> bool" where
  "bind_runtime_owner is_callable bound = (if \<not> is_callable \<or> bound then (invalid_profile, bound) else (Ret (), True))"

datatype adapter_class = TwistClass | Nav2Class

definition create_adapter :: "pyval \<Rightarrow> adapter_class result" where
  "create_adapter kind =
     (if kind = VStr ''twist'' then Ret TwistClass
      else if kind = VStr ''nav2'' then Ret Nav2Class else invalid_profile)"

section \<open>Properties\<close>

lemma bw_dead_step:
  "bw_step w v \<Longrightarrow> bw_thread w = Dead \<Longrightarrow> bw_thread v = Dead \<and> bw_results v = bw_results w \<and> bw_executed v = bw_executed w"
  by (induction rule: bw_step.induct) (auto simp: bw_start_def bw_submit_def bw_close_begin_def)

lemma bw_dead_steps:
  assumes "bw_step\<^sup>*\<^sup>* w v" "bw_thread w = Dead"
  shows "bw_thread v = Dead \<and> bw_results v = bw_results w \<and> bw_executed v = bw_executed w"
  using assms by (induction rule: rtranclp_induct) (use bw_dead_step in fastforce)+

abbreviation channel_reach :: "bool \<Rightarrow> bool \<Rightarrow> channel \<times> 'v sequencer \<Rightarrow> bool" where
  "channel_reach hw guarded x \<equiv> channel_step\<^sup>*\<^sup>* (channel_init hw guarded, seq_init) x"

lemma channel_reach_parts:
  assumes "channel_reach hw guarded (c, s)" shows "bw_reach (ch_worker c)" "seq_reach s"
  using channel_steps_parts [OF assms] by (simp_all add: channel_init_def)

lemma channel_stop_accepted:
  assumes "channel_stop_begin now timeout c s = (Ret True, c1, s1)"
  shows "bw_submit True (ch_worker c) = (Ret (length (bw_results (ch_worker c))), ch_worker c1) \<and>
    s1 = latch ''ESTOP_LATCHED'' s \<and> length (bw_results (ch_worker c1)) = Suc (length (bw_results (ch_worker c))) \<and>
    bw_thread (ch_worker c1) = Alive"
  using assms by (auto simp: channel_stop_begin_def latch_begin_def bw_submit_def split: if_splits sum.splits prod.splits)

text \<open>The thread of the worker never goes back to not being there.\<close>

lemma bw_step_thread: "bw_step w v \<Longrightarrow> bw_thread w \<noteq> NoThread \<Longrightarrow> bw_thread v \<noteq> NoThread"
  by (induction rule: bw_step.induct)
    (auto simp: bw_start_def bw_submit_def bw_close_begin_def bw_take_def bw_ran_def bw_publish_def Let_def split: list.splits)

lemma bw_steps_thread: "bw_step\<^sup>*\<^sup>* w v \<Longrightarrow> bw_thread w \<noteq> NoThread \<Longrightarrow> bw_thread v \<noteq> NoThread"
  by (induction rule: rtranclp_induct) (auto dest: bw_step_thread)

text \<open>C10: The zero command of an emergency stop is not lost: when a stop was accepted, every later close of the adapter
  that succeeds finds that very command executed without an error, the latch still set, and no activation begun since
  the stop.\<close>
theorem accepted_zero_is_executed:
  assumes "channel_reach hw guarded (c, s)" "channel_stop_begin now timeout c s = (Ret True, c1, s1)"
    "channel_step\<^sup>*\<^sup>* (c1, s1) x" "adapter_closes owner x True (c2, s2)"
  shows "length (bw_results (ch_worker c)) \<in> set (bw_executed (ch_worker c2)) \<and>
    bw_results (ch_worker c2) ! length (bw_results (ch_worker c)) = Some (Ret ()) \<and>
    sq_latched s2 \<and> sq_started s2 = sq_started s \<and> sq_owned s2 = sq_owned s"
proof -
  let ?n = "length (bw_results (ch_worker c))"
  note reach = channel_reach_parts [OF assms(1)]
  note stop = channel_stop_accepted [OF assms(2)]
  obtain c3 s3 c4 s4 where run: "channel_step\<^sup>*\<^sup>* (adapter_close_begin x) (c3, s3)"
      "channel_step\<^sup>*\<^sup>* (channel_close_begin c3, s3) (c4, s4)" "channel_step\<^sup>*\<^sup>* (c4, s4) (c2, s2)"
    and closed: "bw_close_result (ch_worker c4)"
    using assms(4) by (cases rule: adapter_closes.cases) (auto simp: adapter_close_answer_def)
  have closes: "channel_step x (adapter_close_begin x)"
    by (cases x) (simp add: adapter_close_begin_def, rule channel_step.sequencer, rule seq_step.close)
  have "channel_step\<^sup>*\<^sup>* (c1, s1) (c3, s3)"
    using assms(3) closes run(1) by (meson rtranclp.rtrancl_into_rtrancl rtranclp_trans)
  from this channel_step.close [of c3 s3] have "channel_step\<^sup>*\<^sup>* (c1, s1) (channel_close_begin c3, s3)"
    by (rule rtranclp.rtrancl_into_rtrancl)
  from rtranclp_trans [OF this run(2)] have to4: "channel_step\<^sup>*\<^sup>* (c1, s1) (c4, s4)" .
  have r1: "bw_reach (ch_worker c1)"
    using reach(1) bw_step.submit [of "ch_worker c" True] stop by (simp add: rtranclp.rtrancl_into_rtrancl)
  have w4: "bw_step\<^sup>*\<^sup>* (ch_worker c1) (ch_worker c4)" and s2: "seq_step\<^sup>*\<^sup>* s1 s2"
    using channel_steps_parts [OF to4] channel_steps_parts [OF rtranclp_trans [OF to4 run(3)]] by simp_all
  have i4: "bw_inv (ch_worker c4)" using r1 w4 by (meson bw_reach_inv rtranclp_trans)
  have n4: "?n < length (bw_results (ch_worker c4))" using bw_steps_grow [OF w4] stop by simp
  note done4 = closed_worker_drained [OF i4 closed n4]
  have "bw_thread (ch_worker c4) = Dead"
    using bw_steps_thread [OF w4] stop closed by (cases "bw_thread (ch_worker c4)") (simp_all add: bw_close_result_def)
  with channel_steps_parts [OF run(3)]
  have "bw_results (ch_worker c2) = bw_results (ch_worker c4)" "bw_executed (ch_worker c2) = bw_executed (ch_worker c4)"
    using bw_dead_steps [of "ch_worker c4" "ch_worker c2"] by simp_all
  with done4 n4 have "?n \<in> set (bw_executed (ch_worker c2)) \<and> bw_results (ch_worker c2) ! ?n = Some (Ret ())" by simp
  moreover have "sq_latched s2 \<and> activity s2 = activity s1"
    using sequencing.latched_steps [OF s2] latch_inv [OF reach_inv [OF reach(2)]] stop by simp
  ultimately show ?thesis using stop by (simp add: activity_def)
qed

definition demo_bound :: "channel \<times> nat sequencer" where
  "demo_bound = snd (channel_bind (Some 0) SpawnAlive (channel_init True True) seq_init)"

definition demo_verified :: "channel \<times> nat sequencer" where
  "demo_verified = (snd (channel_verify ''hardware'' (Ret True) True (fst demo_bound)), snd demo_bound)"

definition demo_stopped :: "channel \<times> nat sequencer" where
  "demo_stopped = snd (channel_stop_begin (Fin 0) (VFloat (Fin 1)) (fst demo_verified) (snd demo_verified))"

lemmas demo_channel_defs = demo_bound_def demo_verified_def demo_stopped_def channel_bind_def channel_init_def channel_verify_def
  channel_stop_begin_def seq_start_def seq_init_def bw_init_def bw_start_def bw_submit_def latch_begin_def latch_def
  reject_queued_def EMERGENCY_QUEUE_CAPACITY_def seq_deadline_def

theorem accepted_zero_is_executed_witness:
  "\<exists>c s x. adapter_closes None x True (c, s :: nat sequencer) \<and> bw_results (ch_worker c) ! 0 = Some (Ret ()) \<and> sq_latched s"
proof -
  let ?c = "fst demo_stopped" and ?s = "snd demo_stopped"
  define w1 where "w1 = bw_publish 0 (Ret ()) (bw_ran 0 (Ret ()) (bw_take (ch_worker ?c)))"
  let ?x = "(?c\<lparr>ch_worker := w1\<rparr>, ?s)"
  have reach: "channel_reach True True demo_verified"
  proof -
    have "channel_step (channel_init True True, seq_init) demo_bound" unfolding demo_bound_def by (rule channel_step.bind)
    moreover have "channel_step demo_bound demo_verified"
      unfolding demo_verified_def using channel_step.verify [of "fst demo_bound" "snd demo_bound"] by simp
    ultimately show ?thesis by (meson rtranclp.rtrancl_into_rtrancl rtranclp.rtrancl_refl)
  qed
  have stop: "channel_stop_begin (Fin 0) (VFloat (Fin 1)) (fst demo_verified) (snd demo_verified) = (Ret True, ?c, ?s)"
    by (simp add: demo_channel_defs)
  have "bw_step\<^sup>*\<^sup>* (ch_worker ?c) w1"
  proof -
    have "bw_step (ch_worker ?c) (bw_take (ch_worker ?c))" by (rule bw_step.take) (simp_all add: demo_channel_defs)
    moreover have "bw_step (bw_take (ch_worker ?c)) (bw_ran 0 (Ret ()) (bw_take (ch_worker ?c)))"
      by (rule bw_step.run) (simp_all add: demo_channel_defs bw_take_def)
    moreover have "bw_step (bw_ran 0 (Ret ()) (bw_take (ch_worker ?c))) w1"
      unfolding w1_def by (rule bw_step.publish) (simp_all add: demo_channel_defs bw_take_def bw_ran_def)
    ultimately show ?thesis by (meson rtranclp.rtrancl_into_rtrancl rtranclp.rtrancl_refl)
  qed
  then have run: "channel_step\<^sup>*\<^sup>* (?c, ?s) ?x"
  proof (induction rule: rtranclp_induct)
    case (step w v)
    from channel_step.worker [of "?c\<lparr>ch_worker := w\<rparr>" v ?s] step(2)
    have "channel_step (?c\<lparr>ch_worker := w\<rparr>, ?s) (?c\<lparr>ch_worker := v\<rparr>, ?s)" by simp
    with step.IH show ?case by (rule rtranclp.rtrancl_into_rtrancl)
  qed simp
  define w2 where "w2 = (bw_close_begin w1)\<lparr>bw_pc := Leaving\<rparr>"
  let ?c1 = "?c\<lparr>ch_worker := w2\<lparr>bw_thread := Dead\<rparr>\<rparr>" and ?s1 = "begin_close ?s"
  note eval = demo_channel_defs w1_def w2_def bw_take_def bw_ran_def bw_publish_def bw_close_begin_def
  have "channel_step\<^sup>*\<^sup>* (channel_close_begin (?c\<lparr>ch_worker := w1\<rparr>), ?s1) (?c1, ?s1)"
  proof -
    have "bw_step (bw_close_begin w1) w2" unfolding w2_def by (rule bw_step.leave) (simp_all add: eval)
    moreover have "bw_step w2 (w2\<lparr>bw_thread := Dead\<rparr>)" by (rule bw_step.exits) (simp_all add: eval)
    ultimately show ?thesis
      using channel_step.worker [of "?c\<lparr>ch_worker := bw_close_begin w1\<rparr>" w2 ?s1]
        channel_step.worker [of "?c\<lparr>ch_worker := w2\<rparr>" "w2\<lparr>bw_thread := Dead\<rparr>" ?s1]
      by (simp add: channel_close_begin_def rtranclp.rtrancl_into_rtrancl)
  qed
  moreover have "channel_step\<^sup>*\<^sup>* (?c1, ?s1) (?c1, ?s1\<lparr>sq_thread := Dead\<rparr>)"
    by (rule r_into_rtranclp, rule channel_step.sequencer, rule seq_step.exits)
      (simp_all add: demo_channel_defs begin_close_def)
  ultimately have "adapter_closes None ?x (adapter_close_answer (bw_close_result (ch_worker ?c1)) (close_result (?s1\<lparr>sq_thread := Dead\<rparr>)) None)
      (?c1, ?s1\<lparr>sq_thread := Dead\<rparr>)"
    by (intro adapter_closes.intros [where c = "?c\<lparr>ch_worker := w1\<rparr>" and s = ?s1]) (simp_all add: adapter_close_begin_def)
  moreover have "bw_close_result (ch_worker ?c1)" "close_result (?s1\<lparr>sq_thread := Dead\<rparr>)"
    by (simp_all add: eval bw_close_result_def close_result_def begin_close_def)
  ultimately have a: "adapter_closes None ?x True (?c1, ?s1\<lparr>sq_thread := Dead\<rparr>)" by (simp add: adapter_close_answer_def)
  have "length (bw_results (ch_worker (fst demo_verified))) = 0" by (simp add: demo_channel_defs)
  with accepted_zero_is_executed [OF _ stop run a] reach
  have "bw_results (ch_worker ?c1) ! 0 = Some (Ret ()) \<and> sq_latched (?s1\<lparr>sq_thread := Dead\<rparr>)" by simp
  with a show ?thesis by blast
qed

text \<open>A worker whose first start failed can be started again: \<^verbatim>\<open>start\<close> then answers that it runs, and the channel
  verifies, yet the failure is kept and every command is refused.\<close>
theorem restart_after_failed_spawn:
  "\<exists>w. fst (bw_start False bw_init) = False \<and> bw_start True (snd (bw_start False bw_init)) = (True, w) \<and>
     fst (bw_submit True w) = rejected ''UNSAFE_STATE''"
  by (simp add: bw_start_def bw_submit_def bw_init_def)

end
