(* ===== verification/Nav2.thy ===== *)
theory Nav2
  imports EmergencyChannel Adapter
begin

text \<open>
  The Nav2 adapter (\<^verbatim>\<open>agent_ros/adapters/nav2.py\<close>): the transport that sends one goal to an action server
  and cancels it, whose callbacks run on the executor's thread, and the adapter in front of it. Every region under the
  transport's lock is one operation, split where an operation of another thread that takes no lock
  can come in between: \<^verbatim>\<open>send_goal\<close>, on the sequencer's worker, and \<^verbatim>\<open>_enqueue_emergency_zero\<close>, on the
  emergency worker. What the action server answers is an argument. \<open>nt_cancels\<close> (the cancel requests sent),
  \<open>nt_refused\<close> (those whose sending raised) and \<open>nt_zeros\<close> are history variables.
\<close>

section \<open>Goals\<close>

record nav_request =
  nr_action_name :: string
  nr_action_type :: string
  nr_frame :: string
  nr_x :: pyval
  nr_y :: pyval
  nr_yaw :: pyval

record nav_goal =
  nv_frame :: string
  nv_x :: pyval
  nv_y :: pyval
  nv_z :: pyfloat
  nv_w :: pyfloat

definition nav_prepare_goal :: "libm \<Rightarrow> nav_request \<Rightarrow> nav_goal result" where
  "nav_prepare_goal lm r =
     rbind (py_float (nr_yaw r)) (\<lambda>yaw. rbind (fdiv yaw (Fin 2)) (\<lambda>half.
     rbind (py_sin lm half) (\<lambda>z. rbind (py_cos lm half) (\<lambda>w.
       Ret \<lparr>nv_frame = nr_frame r, nv_x = nr_x r, nv_y = nr_y r, nv_z = z, nv_w = w\<rparr>))))"

section \<open>The transport\<close>

datatype nav_state = NavIdle | NavPending | NavRunning | NavRejected | NavCancelling | NavCancelled | NavSucceeded | NavFailed | NavFaulted

fun nav_value :: "nav_state \<Rightarrow> string" where
  "nav_value NavIdle = ''idle''"
| "nav_value NavPending = ''pending''"
| "nav_value NavRunning = ''running''"
| "nav_value NavRejected = ''rejected''"
| "nav_value NavCancelling = ''cancelling''"
| "nav_value NavCancelled = ''cancelled''"
| "nav_value NavSucceeded = ''succeeded''"
| "nav_value NavFailed = ''failed''"
| "nav_value NavFaulted = ''faulted''"

record nav_transport =
  nt_handle :: "nat option"
  nt_state :: nav_state
  nt_cancel_requested :: bool
  nt_cancel_timeout :: pyfloat
  nt_cancel_deadline :: "pyfloat option"
  nt_cancel_generation :: nat
  nt_goal_generation :: nat
  nt_goal_permit :: "permit option"
  nt_emergency_latched :: bool
  nt_cancel_enqueued_for :: "(nat \<times> nat) option"
  nt_cancels :: "(nat \<times> nat) list"
  nt_refused :: "(nat \<times> nat) list"
  nt_zeros :: nat

definition nav_init :: "pyfloat \<Rightarrow> nav_transport" where
  "nav_init timeout = \<lparr>nt_handle = None, nt_state = NavIdle, nt_cancel_requested = False, nt_cancel_timeout = timeout,
     nt_cancel_deadline = None, nt_cancel_generation = 0, nt_goal_generation = 0, nt_goal_permit = None,
     nt_emergency_latched = False, nt_cancel_enqueued_for = None, nt_cancels = [], nt_refused = [], nt_zeros = 0\<rparr>"

text \<open>\<^verbatim>\<open>send_goal\<close>: the reset, then the request, which can raise. Neither takes the lock.\<close>

definition nav_send_reset :: "permit \<Rightarrow> nav_transport \<Rightarrow> nav_transport" where
  "nav_send_reset p n = n\<lparr>nt_cancel_requested := False, nt_emergency_latched := False,
     nt_goal_generation := Suc (nt_goal_generation n), nt_goal_permit := Some p, nt_handle := None,
     nt_cancel_enqueued_for := None\<rparr>"

definition nav_send_mark :: "unit result \<Rightarrow> nav_transport \<Rightarrow> unit result \<times> nav_transport" where
  "nav_send_mark sent n = (case sent of Inl e \<Rightarrow> (Raise e, n) | Inr _ \<Rightarrow> (Ret (), n\<lparr>nt_state := NavPending\<rparr>))"

definition nav_send_goal :: "permit \<Rightarrow> unit result \<Rightarrow> nav_transport \<Rightarrow> unit result \<times> nav_transport" where
  "nav_send_goal p sent n =
     (if p = Foreign then (invalid_profile, n) else nav_send_mark sent (nav_send_reset p n))"

text \<open>\<^verbatim>\<open>_begin_cancel\<close>: at most one request for a handle and generation; the call raises before or after it has sent
  the request, or not.\<close>

datatype cancel_call = CancelRaises | CancelUntracked | CancelTracked

definition nav_begin_cancel :: "nat \<Rightarrow> nat \<Rightarrow> cancel_call \<Rightarrow> nav_transport \<Rightarrow> nav_transport" where
  "nav_begin_cancel h g call n =
     (if nt_cancel_enqueued_for n = Some (h, g) then n
      else (let n1 = n\<lparr>nt_cancel_enqueued_for := Some (h, g), nt_cancel_generation := Suc (nt_cancel_generation n)\<rparr>
            in case call of
                 CancelRaises \<Rightarrow> n1\<lparr>nt_refused := nt_refused n1 @ [(h, g)], nt_state := NavFaulted\<rparr>
               | CancelUntracked \<Rightarrow> n1\<lparr>nt_cancels := nt_cancels n1 @ [(h, g)], nt_state := NavFaulted\<rparr>
               | CancelTracked \<Rightarrow> n1\<lparr>nt_cancels := nt_cancels n1 @ [(h, g)]\<rparr>))"

text \<open>\<^verbatim>\<open>_goal_response\<close>, up to the handle and its result callback, and from the check of the flags on. The response
  can raise, be no handle, or be a handle that is accepted or not.\<close>

datatype goal_response = ResponseRaises | NoHandle | GoalHandle nat bool

definition nav_response_receive :: "goal_response \<Rightarrow> bool \<Rightarrow> nav_transport \<Rightarrow> (nat \<times> bool) option \<times> bool \<times> nav_transport" where
  "nav_response_receive r tracked n =
     (case r of
        ResponseRaises \<Rightarrow> (None, False, n\<lparr>nt_state := NavFaulted\<rparr>)
      | NoHandle \<Rightarrow> (None, True, n\<lparr>nt_handle := None\<rparr>)
      | GoalHandle h accepted \<Rightarrow>
          if accepted \<and> \<not> tracked then (None, False, n\<lparr>nt_handle := Some h, nt_state := NavFaulted\<rparr>)
          else (Some (h, accepted), True, n\<lparr>nt_handle := Some h\<rparr>))"

definition nav_response_decide ::
  "pyfloat \<Rightarrow> nat \<Rightarrow> bool \<Rightarrow> cancel_call \<Rightarrow> (nat \<times> bool) option \<Rightarrow> nav_transport \<Rightarrow> nav_transport" where
  "nav_response_decide now g stale call h n =
     (let accepted = (case h of Some (_, a) \<Rightarrow> a | None \<Rightarrow> False) in
      if nt_cancel_requested n \<or> nt_emergency_latched n \<or> stale
      then (if accepted
            then nav_begin_cancel (fst (the h)) g call (n\<lparr>nt_cancel_requested := True, nt_state := NavCancelling,
                   nt_cancel_deadline := Some (fadd now (nt_cancel_timeout n))\<rparr>)
            else n\<lparr>nt_state := NavCancelled\<rparr>)
      else n\<lparr>nt_state := (if accepted then NavRunning else NavRejected)\<rparr>)"

definition nav_goal_response ::
  "pyfloat \<Rightarrow> nat \<Rightarrow> bool \<Rightarrow> cancel_call \<Rightarrow> goal_response \<Rightarrow> bool \<Rightarrow> nav_transport \<Rightarrow> nav_transport" where
  "nav_goal_response now g stale call r tracked n =
     (let (h, continues, n1) = nav_response_receive r tracked n
      in if continues then nav_response_decide now g stale call h n1 else n1)"

text \<open>\<^verbatim>\<open>_goal_result\<close>: the status of the result, if it has one.\<close>

definition nav_goal_result :: "int option result \<Rightarrow> nav_transport \<Rightarrow> nav_transport" where
  "nav_goal_result r n =
     (case r of
        Inl _ \<Rightarrow> n\<lparr>nt_state := NavFaulted\<rparr>
      | Inr status \<Rightarrow>
          n\<lparr>nt_state := (if nt_cancel_requested n then (if status = Some 5 then NavCancelled else NavFaulted)
                         else (if status = Some 4 then NavSucceeded else NavFailed)),
            nt_cancel_deadline := None\<rparr>)"

definition nav_goal_status :: "pyfloat \<Rightarrow> nav_transport \<Rightarrow> nav_state \<times> nav_transport" where
  "nav_goal_status now n =
     (let n1 = (case nt_cancel_deadline n of
           Some d \<Rightarrow> if nt_state n = NavCancelling \<and> flt d now then n\<lparr>nt_state := NavFaulted\<rparr> else n
         | None \<Rightarrow> n)
      in (nt_state n1, n1))"

definition nav_cancel_goal :: "pyfloat \<Rightarrow> cancel_call \<Rightarrow> nav_transport \<Rightarrow> nav_transport" where
  "nav_cancel_goal now call n =
     (let n1 = n\<lparr>nt_cancel_requested := True, nt_state := NavCancelling,
                 nt_cancel_deadline := Some (fadd now (nt_cancel_timeout n))\<rparr>
      in case nt_handle n1 of None \<Rightarrow> n1 | Some h \<Rightarrow> nav_begin_cancel h (nt_goal_generation n1) call n1)"

text \<open>\<^verbatim>\<open>_cancel_response\<close>: whether the server's answer names a goal that it is cancelling.\<close>

definition nav_cancel_response :: "nat \<Rightarrow> bool result \<Rightarrow> nav_transport \<Rightarrow> nav_transport" where
  "nav_cancel_response generation r n =
     (if generation \<noteq> nt_cancel_generation n then n
      else case r of
        Inl _ \<Rightarrow> n\<lparr>nt_state := NavFaulted\<rparr>
      | Inr accepted \<Rightarrow>
          if accepted then n\<lparr>nt_state := NavCancelling\<rparr>
          else n\<lparr>nt_state := NavFaulted, nt_cancel_deadline := None\<rparr>)"

definition nav_publish_zero :: "unit result \<Rightarrow> nav_transport \<Rightarrow> unit result \<times> nav_transport" where
  "nav_publish_zero published n =
     (case published of Inl e \<Rightarrow> (Raise e, n) | Inr _ \<Rightarrow> (Ret (), n\<lparr>nt_zeros := Suc (nt_zeros n)\<rparr>))"

text \<open>\<^verbatim>\<open>_enqueue_emergency_zero\<close>: the zero command, which can raise, and the flags; then the read of the handle and
  the cancel request.\<close>

definition nav_emergency_raise :: "pyfloat \<Rightarrow> unit result \<Rightarrow> nav_transport \<Rightarrow> unit result \<times> nav_transport" where
  "nav_emergency_raise now published n =
     (case nav_publish_zero published n of
        (Inl e, n1) \<Rightarrow> (Raise e, n1)
      | (Inr _, n1) \<Rightarrow> (Ret (), n1\<lparr>nt_cancel_requested := True, nt_emergency_latched := True, nt_state := NavCancelling,
            nt_cancel_deadline := Some (fadd now (nt_cancel_timeout n1))\<rparr>))"

definition nav_emergency_cancel :: "cancel_call \<Rightarrow> nav_transport \<Rightarrow> nav_transport" where
  "nav_emergency_cancel call n =
     (case nt_handle n of None \<Rightarrow> n | Some h \<Rightarrow> nav_begin_cancel h (nt_goal_generation n) call n)"

section \<open>The adapter\<close>

text \<open>\<^verbatim>\<open>Nav2Transport\<close> as the adapter sees it: the operations it calls, each with its answer or exception. The adapter is
  written over any transport; \<open>nav_ops\<close> below are the ones of the transport above.\<close>

datatype nav_raw = RawStatus adapter_status | RawDict pyval | RawOther

record 't transport_ops =
  op_cancel :: "'t \<Rightarrow> unit result \<times> 't"
  op_zero :: "nat \<Rightarrow> 't \<Rightarrow> unit result \<times> 't"
  op_status :: "'t \<Rightarrow> nav_raw result \<times> 't"

record 't nav2_adapter =
  n2_state :: nav_state
  n2_cancel_sent :: bool
  n2_transport :: 't
  n2_emergency_stops :: nat

definition nav2_init :: "'t \<Rightarrow> 't nav2_adapter" where
  "nav2_init t = \<lparr>n2_state = NavIdle, n2_cancel_sent = False, n2_transport = t, n2_emergency_stops = 0\<rparr>"

definition nav2_validate :: "robot_profile \<Rightarrow> bool result \<Rightarrow> unit result" where
  "nav2_validate profile preflight =
     (case ri_navigation (rp_interfaces profile) of
        None \<Rightarrow> invalid_profile
      | Some i \<Rightarrow>
          if rp_adapter_kind profile \<noteq> ''nav2'' \<or> if_type i \<noteq> NAVIGATE_TO_POSE_TYPE \<or> if_action i = None then invalid_profile
          else case preflight of
            Inl (AdapterError code) \<Rightarrow> Raise (AdapterError code)
          | Inl _ \<Rightarrow> invalid_profile
          | Inr ready \<Rightarrow> if ready then Ret () else invalid_profile)"

datatype nav_task = StageTask task_stage | GoalTask navigation_goal | OtherTask

definition nav_task_goal :: "nav_task \<Rightarrow> navigation_goal result" where
  "nav_task_goal task =
     (case task of
        StageTask st \<Rightarrow> (let g = ts_goal st in
          navigation_goal_of (VStr (pg_frame g)) (VFloat (Fin (pg_x g))) (VFloat (Fin (pg_y g))) (VFloat (Fin (pg_yaw g))))
      | GoalTask g \<Rightarrow> Ret g
      | OtherTask \<Rightarrow> invalid_profile)"

definition nav2_request :: "robot_profile \<Rightarrow> navigation_goal \<Rightarrow> nav_request result" where
  "nav2_request profile g =
     (case ri_navigation (rp_interfaces profile) of
        None \<Rightarrow> Raise PyAssertionError
      | Some i \<Rightarrow> (case if_action i of None \<Rightarrow> Raise PyAssertionError
        | Some action \<Rightarrow> Ret \<lparr>nr_action_name = action, nr_action_type = NAVIGATE_TO_POSE_TYPE, nr_frame = ng_frame g,
            nr_x = ng_x g, nr_y = ng_y g, nr_yaw = ng_yaw g\<rparr>))"

text \<open>\<^verbatim>\<open>start\<close>: preparing the goal, submitting \<open>nav_send_goal\<close> to the sequencer, tracking the answer and the last
  look at the permit are arguments. What is not an adapter error is answered with an emergency stop.\<close>

definition nav2_start ::
  "robot_profile \<Rightarrow> nav_task \<Rightarrow> (nav_request \<Rightarrow> nav_goal result) \<Rightarrow> (nav_goal \<Rightarrow> 't \<Rightarrow> unit result \<times> 't) \<Rightarrow> unit result \<Rightarrow> bool \<Rightarrow>
   't nav2_adapter \<Rightarrow> adapter_status result \<times> 't nav2_adapter" where
  "nav2_start profile task prepare submit tracked current a =
     (case rbind (nav_task_goal task) (nav2_request profile) of
        Inl e \<Rightarrow> (Raise e, a)
      | Inr request \<Rightarrow>
          (let (r, t) = (case prepare request of Inl e \<Rightarrow> (Raise e, n2_transport a)
                 | Inr goal \<Rightarrow> submit goal (n2_transport a));
               a1 = a\<lparr>n2_transport := t\<rparr>
           in case rbind r (\<lambda>_. rbind tracked (\<lambda>_. guard current (AdapterError ''ESTOP_LATCHED''))) of
                Inr _ \<Rightarrow> (Ret \<lparr>as_state = nav_value NavRunning, as_code = None, as_values = []\<rparr>,
                          a1\<lparr>n2_cancel_sent := False, n2_state := NavRunning\<rparr>)
              | Inl (AdapterError code) \<Rightarrow> (Raise (AdapterError code), a1)
              | Inl _ \<Rightarrow> (Raise (AdapterError ''INTERNAL_ERROR''),
                          a1\<lparr>n2_emergency_stops := Suc (n2_emergency_stops a1)\<rparr>)))"

definition nav2_status :: "'t transport_ops \<Rightarrow> 't nav2_adapter \<Rightarrow> adapter_status result \<times> 't nav2_adapter" where
  "nav2_status ops a =
     (let (raw, t) = op_status ops (n2_transport a); a1 = a\<lparr>n2_transport := t\<rparr>;
          unsent = (\<lambda>st. if st = ''faulted'' then a1\<lparr>n2_cancel_sent := False\<rparr> else a1)
      in case raw of
           Inl _ \<Rightarrow> (Raise (AdapterError ''STALE_FEEDBACK''),
                     a1\<lparr>n2_state := NavFaulted, n2_emergency_stops := Suc (n2_emergency_stops a1)\<rparr>)
         | Inr (RawStatus st) \<Rightarrow> (Ret st, unsent (as_state st))
         | Inr (RawDict (VStr st)) \<Rightarrow> (Ret \<lparr>as_state = st, as_code = None, as_values = []\<rparr>, unsent st)
         | Inr _ \<Rightarrow> (Raise (AdapterError ''STALE_FEEDBACK''), a1))"

text \<open>Three zeros, whatever each of them does.\<close>

definition nav2_zeros :: "'t transport_ops \<Rightarrow> 't \<Rightarrow> 't" where
  "nav2_zeros ops t = fold (\<lambda>i t. snd (op_zero ops i t)) [0..<3] t"

definition nav2_stop :: "'t transport_ops \<Rightarrow> 't nav2_adapter \<Rightarrow> unit result \<times> 't nav2_adapter" where
  "nav2_stop ops a =
     (let (cancel, t) = (if n2_cancel_sent a then (Ret (), n2_transport a) else op_cancel ops (n2_transport a));
          a1 = a\<lparr>n2_cancel_sent := True, n2_transport := nav2_zeros ops t\<rparr>
      in if \<not> is_ret cancel then (Raise (AdapterError ''UNSAFE_STATE''), a1\<lparr>n2_state := NavFaulted\<rparr>)
         else (case nav2_status ops a1 of
             (Inl e, a2) \<Rightarrow> (Raise e, a2\<lparr>n2_state := NavFaulted\<rparr>)
           | (Inr st, a2) \<Rightarrow> (Ret (), a2\<lparr>n2_state :=
               (if as_state st = ''cancelled'' then NavCancelled else if as_state st = ''faulted'' then NavFaulted else NavCancelling)\<rparr>)))"

definition nav2_cancel :: "'t transport_ops \<Rightarrow> 't nav2_adapter \<Rightarrow> adapter_status result \<times> 't nav2_adapter" where
  "nav2_cancel ops a =
     (case nav2_stop ops a of (Inl e, a1) \<Rightarrow> (Raise e, a1) | (Inr _, a1) \<Rightarrow> nav2_status ops a1)"

text \<open>The transport above behind the adapter: what the clock and the calls into ROS do is given.\<close>

definition nav_ops :: "pyfloat \<Rightarrow> cancel_call \<Rightarrow> (nat \<Rightarrow> unit result) \<Rightarrow> nav_transport transport_ops" where
  "nav_ops now call published =
     \<lparr>op_cancel = (\<lambda>n. (Ret (), nav_cancel_goal now call n)), op_zero = (\<lambda>i. nav_publish_zero (published i)),
      op_status = (\<lambda>n. let (st, n1) = nav_goal_status now n in (Ret (RawDict (VStr (nav_value st))), n1))\<rparr>"

section \<open>The interface between the two\<close>

text \<open>What the adapter relies on: a cancel is taken, from then on the transport is winding down, which zeros and
  status reads keep, and a transport that winds down never reports that the goal runs or has succeeded.\<close>

definition motion_report :: "string \<Rightarrow> bool" where
  "motion_report st \<longleftrightarrow> st \<in> {''pending'', ''running'', ''succeeded''}"

locale cancelling_transport =
  fixes ops :: "'t transport_ops" and winding :: "'t \<Rightarrow> bool"
  assumes cancel_winds: "op_cancel ops t = (r, t') \<Longrightarrow> r = Ret () \<and> winding t'"
    and zero_winds: "winding t \<Longrightarrow> winding (snd (op_zero ops i t))"
    and status_winds: "winding t \<Longrightarrow> op_status ops t = (raw, t') \<Longrightarrow>
      winding t' \<and> (\<exists>st. raw = Ret (RawDict (VStr st)) \<and> \<not> motion_report st)"
begin

lemma zeros_wind: "winding t \<Longrightarrow> winding (nav2_zeros ops t)"
  by (simp add: nav2_zeros_def zero_winds eval_nat_numeral)

lemma status_still:
  assumes "nav2_status ops a = (r, a')" "winding (n2_transport a)"
  shows "winding (n2_transport a') \<and> (\<exists>st. r = Ret st \<and> \<not> motion_report (as_state st) \<and>
    n2_cancel_sent a' = (n2_cancel_sent a \<and> as_state st \<noteq> ''faulted''))"
proof -
  obtain raw t where t: "op_status ops (n2_transport a) = (raw, t)" by force
  from status_winds [OF assms(2) this] assms(1) t show ?thesis by (auto simp: nav2_status_def Let_def split: if_splits)
qed

text \<open>A stop winds the transport down unless a cancel had been sent before; it does not fail, and what the adapter
  reports from then on is no motion.\<close>

lemma stop_winds:
  assumes "nav2_stop ops a = (r, a')" "n2_cancel_sent a \<longrightarrow> winding (n2_transport a)"
  shows "r = Ret () \<and> winding (n2_transport a') \<and> n2_state a' \<in> {NavCancelling, NavCancelled, NavFaulted}"
proof -
  obtain cancel t where c: "(if n2_cancel_sent a then (Ret (), n2_transport a) else op_cancel ops (n2_transport a)) = (cancel, t)"
    by force
  then have "cancel = Ret () \<and> winding t" using assms(2) cancel_winds by (auto split: if_splits)
  then have w: "winding (nav2_zeros ops t)" "is_ret cancel" using zeros_wind by auto
  obtain st a2 where s: "nav2_status ops (a\<lparr>n2_cancel_sent := True, n2_transport := nav2_zeros ops t\<rparr>) = (st, a2)" by force
  from status_still [OF s] w(1) obtain v where "st = Ret v" "winding (n2_transport a2)" by auto
  with assms(1) c w(2) s show ?thesis by (auto simp: nav2_stop_def split: if_splits)
qed

lemma cancel_still:
  assumes "nav2_cancel ops a = (r, a')" "n2_cancel_sent a \<longrightarrow> winding (n2_transport a)"
  shows "\<exists>st. r = Ret st \<and> \<not> motion_report (as_state st) \<and> winding (n2_transport a')"
proof -
  obtain q b where s: "nav2_stop ops a = (q, b)" by force
  from stop_winds [OF s assms(2)] s assms(1) have "nav2_status ops b = (r, a')" "winding (n2_transport b)"
    by (auto simp: nav2_cancel_def)
  from status_still [OF this] show ?thesis by blast
qed

end

text \<open>The transport keeps this promise: once a cancel has been requested it only cancels or has failed to.\<close>

definition nav_winding :: "nav_transport \<Rightarrow> bool" where
  "nav_winding n \<longleftrightarrow> nt_cancel_requested n \<and> nt_state n \<in> {NavCancelling, NavCancelled, NavFaulted}"

lemma nav_begin_cancel_frame [simp]:
  "nt_handle (nav_begin_cancel h g call n) = nt_handle n"
  "nt_cancel_requested (nav_begin_cancel h g call n) = nt_cancel_requested n"
  "nt_emergency_latched (nav_begin_cancel h g call n) = nt_emergency_latched n"
  "nt_goal_generation (nav_begin_cancel h g call n) = nt_goal_generation n"
  by (auto simp: nav_begin_cancel_def Let_def split: cancel_call.splits)

lemma nav_begin_cancel_winding: "nav_winding n \<Longrightarrow> nav_winding (nav_begin_cancel h g call n)"
  by (auto simp: nav_winding_def nav_begin_cancel_def Let_def split: cancel_call.splits)

lemma nav_cancel_goal_winding: "nav_winding (nav_cancel_goal now call n)"
  by (auto simp: nav_cancel_goal_def Let_def intro!: nav_begin_cancel_winding split: option.splits) (auto simp: nav_winding_def)

lemma nav_status_winding: "nav_winding n \<Longrightarrow> nav_winding (snd (nav_goal_status now n)) \<and>
    \<not> motion_report (nav_value (fst (nav_goal_status now n)))"
  by (auto simp: nav_winding_def nav_goal_status_def motion_report_def Let_def split: option.splits)

interpretation nav_link: cancelling_transport "nav_ops now call published" nav_winding
proof
  fix t :: nav_transport and r raw t' i
  show "r = Ret () \<and> nav_winding t'" if "op_cancel (nav_ops now call published) t = (r, t')"
    using that nav_cancel_goal_winding [of now call t] by (auto simp: nav_ops_def)
  show "nav_winding (snd (op_zero (nav_ops now call published) i t))" if "nav_winding t"
    using that by (auto simp: nav_ops_def nav_publish_zero_def nav_winding_def split: sum.splits)
  show "nav_winding t' \<and> (\<exists>st. raw = Ret (RawDict (VStr st)) \<and> \<not> motion_report st)"
    if "nav_winding t" "op_status (nav_ops now call published) t = (raw, t')"
    using nav_status_winding [OF that(1), of now] that(2) by (auto simp: nav_ops_def split: prod.splits)
qed

section \<open>The callbacks\<close>

text \<open>What can happen to the transport while no goal is sent: everything above but \<open>nav_send_goal\<close>.\<close>

inductive nav_event :: "nav_transport \<Rightarrow> nav_transport \<Rightarrow> bool" where
  response: "nav_event n (nav_goal_response now g stale call r tracked n)"
| result: "nav_event n (nav_goal_result r n)"
| status: "nav_event n (snd (nav_goal_status now n))"
| cancel: "nav_event n (nav_cancel_goal now call n)"
| cancel_response: "nav_event n (nav_cancel_response g answer n)"
| zero: "nav_event n (snd (nav_publish_zero published n))"
| emergency_raise: "nav_event n (snd (nav_emergency_raise now published n))"
| emergency_cancel: "nav_event n (nav_emergency_cancel call n)"

lemma nav_event_winding: "nav_event n m \<Longrightarrow> nav_winding n \<Longrightarrow> nav_winding m"
proof (induction rule: nav_event.induct)
  case (response n now g stale call r tracked)
  have "nav_winding (nav_response_decide now g stale call h m)" if "nav_winding m" for h m
    using that by (auto simp: nav_response_decide_def Let_def intro!: nav_begin_cancel_winding) (auto simp: nav_winding_def)
  moreover have "nav_winding (snd (snd (nav_response_receive r tracked n)))"
    using response by (auto simp: nav_response_receive_def nav_winding_def split: goal_response.splits)
  ultimately show ?case by (auto simp: nav_goal_response_def split: prod.splits)
next
  case (emergency_cancel n call)
  then show ?case by (auto simp: nav_emergency_cancel_def nav_begin_cancel_winding split: option.splits)
qed (auto simp: nav_status_winding nav_cancel_goal_winding,
     auto simp: nav_winding_def nav_goal_result_def nav_cancel_response_def nav_publish_zero_def nav_emergency_raise_def
       split: sum.splits prod.splits)

interpretation nav_callbacks: machine nav_event nav_winding
  by unfold_locales (rule nav_event_winding)

section \<open>One goal against the emergency stop\<close>

text \<open>The threads around one goal, sent under the permit \<open>p\<close>: the sequencer's worker that sends it, the executor that takes
  the answer (holding the lock from the first part to the second, so no other locked region comes in between), the emergency
  worker, which runs the zero command only after the stop has set the latch (\<open>channel_stop_begin\<close> does both
  in one region), and everyone who uses the sequencer.\<close>

datatype sender = Unsent | ResetDone | GoalSent

datatype answer = Unanswered | Receiving "(nat \<times> bool) option" | Answered "nat option"

datatype emergency = Resting | Raised | Finished

record 'v nav_system =
  ny_nav :: nav_transport
  ny_seq :: "'v sequencer"
  ny_sender :: sender
  ny_answer :: answer
  ny_emergency :: emergency

definition accepted_handle :: "(nat \<times> bool) option \<Rightarrow> nat option" where
  "accepted_handle h = (case h of Some (i, True) \<Rightarrow> Some i | _ \<Rightarrow> None)"

definition system_receive :: "goal_response \<Rightarrow> bool \<Rightarrow> 'v nav_system \<Rightarrow> 'v nav_system" where
  "system_receive r tracked y =
     (let (h, continues, n) = nav_response_receive r tracked (ny_nav y)
      in y\<lparr>ny_nav := n, ny_answer := (if continues then Receiving h else Answered None)\<rparr>)"

definition system_decide :: "permit \<Rightarrow> pyfloat \<Rightarrow> cancel_call \<Rightarrow> (nat \<times> bool) option \<Rightarrow> 'v nav_system \<Rightarrow> 'v nav_system" where
  "system_decide p now call h y =
     (let (current, q) = is_current p (ny_seq y)
      in y\<lparr>ny_nav := nav_response_decide now (nt_goal_generation (ny_nav y)) (\<not> current) call h (ny_nav y), ny_seq := q,
           ny_answer := Answered (accepted_handle h)\<rparr>)"

inductive nav_system_step :: "permit \<Rightarrow> 'v nav_system \<Rightarrow> 'v nav_system \<Rightarrow> bool" for p where
  reset: "ny_sender y = Unsent \<Longrightarrow> nav_system_step p y (y\<lparr>ny_nav := nav_send_reset p (ny_nav y), ny_sender := ResetDone\<rparr>)"
| mark: "ny_sender y = ResetDone \<Longrightarrow>
     nav_system_step p y (y\<lparr>ny_nav := snd (nav_send_mark (Ret ()) (ny_nav y)), ny_sender := GoalSent\<rparr>)"
| receive: "ny_sender y = GoalSent \<Longrightarrow> ny_answer y = Unanswered \<Longrightarrow> nav_system_step p y (system_receive r tracked y)"
| decide: "ny_answer y = Receiving h \<Longrightarrow> nav_system_step p y (system_decide p now call h y)"
| zero_raises: "nav_emergency_raise now published (ny_nav y) = (Inl e, n) \<Longrightarrow> nav_system_step p y (y\<lparr>ny_nav := n\<rparr>)"
| raise: "sq_latched (ny_seq y) \<Longrightarrow> ny_emergency y \<noteq> Raised \<Longrightarrow> nav_emergency_raise now published (ny_nav y) = (Inr u, n) \<Longrightarrow>
     nav_system_step p y (y\<lparr>ny_nav := n, ny_emergency := Raised\<rparr>)"
| finish: "ny_emergency y = Raised \<Longrightarrow>
     nav_system_step p y (y\<lparr>ny_nav := nav_emergency_cancel call (ny_nav y), ny_emergency := Finished\<rparr>)"
| locked: "\<forall>h. ny_answer y \<noteq> Receiving h \<Longrightarrow>
     n \<in> {nav_goal_result r (ny_nav y), snd (nav_goal_status now (ny_nav y)), nav_cancel_goal now call (ny_nav y),
       nav_cancel_response g c (ny_nav y)} \<Longrightarrow> nav_system_step p y (y\<lparr>ny_nav := n\<rparr>)"
| zero: "nav_system_step p y (y\<lparr>ny_nav := snd (nav_publish_zero published (ny_nav y))\<rparr>)"
| sequencer: "seq_step (ny_seq y) q \<Longrightarrow> nav_system_step p y (y\<lparr>ny_seq := q\<rparr>)"

text \<open>A request for the handle is out, or its sending raised.\<close>

definition cancel_made :: "nat \<Rightarrow> nav_transport \<Rightarrow> bool" where
  "cancel_made h n \<longleftrightarrow> (h, nt_goal_generation n) \<in> set (nt_cancels n) \<union> set (nt_refused n)"

definition enqueued_made :: "nav_transport \<Rightarrow> bool" where
  "enqueued_made n \<longleftrightarrow> (\<forall>k. nt_cancel_enqueued_for n = Some k \<longrightarrow> k \<in> set (nt_cancels n) \<union> set (nt_refused n))"

definition system_inv :: "'v nav_system \<Rightarrow> bool" where
  "system_inv y \<longleftrightarrow>
     (let n = ny_nav y in
      seq_inv (ny_seq y) \<and> (ny_emergency y \<noteq> Resting \<longrightarrow> sq_latched (ny_seq y)) \<and>
      (ny_sender y \<noteq> GoalSent \<longrightarrow> ny_answer y = Unanswered) \<and> (ny_sender y = Unsent \<or> enqueued_made n) \<and>
      (\<forall>h a. ny_answer y = Receiving (Some (h, a)) \<longrightarrow> nt_handle n = Some h) \<and>
      (\<forall>h. ny_answer y = Answered (Some h) \<longrightarrow> nt_handle n = Some h \<and>
         (cancel_made h n \<and> nav_winding n \<or> ny_emergency y = Resting \<or> ny_emergency y = Raised \<and> nav_winding n)))"

lemma begin_cancel_enqueued: "enqueued_made n \<Longrightarrow> enqueued_made (nav_begin_cancel h g call n)"
  by (auto simp: enqueued_made_def nav_begin_cancel_def Let_def split: cancel_call.splits)

lemma begin_cancel_made: "enqueued_made n \<Longrightarrow> g = nt_goal_generation n \<Longrightarrow> cancel_made h (nav_begin_cancel h g call n)"
  by (auto simp: enqueued_made_def cancel_made_def nav_begin_cancel_def Let_def split: cancel_call.splits)

lemma begin_cancel_keeps: "cancel_made i n \<Longrightarrow> cancel_made i (nav_begin_cancel h g call n)"
  by (auto simp: cancel_made_def nav_begin_cancel_def Let_def split: cancel_call.splits)

text \<open>The locked regions leave the goal and its handle alone and take back no request.\<close>

definition nav_keeps :: "nav_transport \<Rightarrow> nav_transport \<Rightarrow> bool" where
  "nav_keeps n m \<longleftrightarrow> nt_handle m = nt_handle n \<and> nt_goal_generation m = nt_goal_generation n \<and>
     (enqueued_made n \<longrightarrow> enqueued_made m) \<and> (\<forall>h. cancel_made h n \<longrightarrow> cancel_made h m) \<and> (nav_winding n \<longrightarrow> nav_winding m)"

lemma nav_keeps_record:
  "nt_handle m = nt_handle n \<Longrightarrow> nt_goal_generation m = nt_goal_generation n \<Longrightarrow> nt_cancels m = nt_cancels n \<Longrightarrow>
   nt_refused m = nt_refused n \<Longrightarrow> nt_cancel_enqueued_for m = nt_cancel_enqueued_for n \<Longrightarrow>
   (nav_winding n \<Longrightarrow> nav_winding m) \<Longrightarrow> nav_keeps n m"
  by (simp add: nav_keeps_def enqueued_made_def cancel_made_def)

lemma nav_keeps_cancel: "nav_keeps n m \<Longrightarrow> nav_keeps n (nav_begin_cancel h g call m)"
  by (simp add: nav_keeps_def begin_cancel_enqueued begin_cancel_keeps nav_begin_cancel_winding)

lemma nav_cancel_goal_keeps: "nav_keeps n (nav_cancel_goal now call n)"
proof -
  let ?m = "n\<lparr>nt_cancel_requested := True, nt_state := NavCancelling, nt_cancel_deadline := Some (fadd now (nt_cancel_timeout n))\<rparr>"
  have "nav_keeps n ?m" by (rule nav_keeps_record) (simp_all add: nav_winding_def)
  with nav_keeps_cancel [OF this] show ?thesis by (auto simp: nav_cancel_goal_def Let_def split: option.splits)
qed

lemma nav_locked_keeps:
  "nav_keeps n (nav_goal_result r n)" "nav_keeps n (snd (nav_goal_status now n))" "nav_keeps n (nav_cancel_response g c n)"
  "nav_keeps n (snd (nav_publish_zero published n))" "nav_keeps n (snd (nav_emergency_raise now published n))"
  by (rule nav_keeps_record; auto simp: nav_goal_result_def nav_goal_status_def nav_cancel_response_def nav_publish_zero_def
      nav_emergency_raise_def nav_winding_def Let_def split: sum.splits option.splits)+

lemma system_inv_nav:
  "system_inv y \<Longrightarrow> nav_keeps (ny_nav y) n \<Longrightarrow> system_inv (y\<lparr>ny_nav := n\<rparr>)"
  by (auto simp: system_inv_def nav_keeps_def Let_def)

lemma query_latched: "seq_inv q \<Longrightarrow> seq_inv (snd (is_current p q)) \<and> (sq_latched q \<longrightarrow> sq_latched (snd (is_current p q)))"
  using seq_step_inv [OF seq_step.query] latched_frame(5) by blast

lemma latched_not_current: "sq_latched q \<Longrightarrow> \<not> fst (is_current p q)"
  by (cases p; cases "worker_ready q"; use ready_latched [of q] in \<open>auto simp: is_current_def\<close>)

lemma decide_keeps: "nav_keeps n (nav_response_decide now g stale call h n)"
proof -
  let ?m = "n\<lparr>nt_cancel_requested := True, nt_state := NavCancelling, nt_cancel_deadline := Some (fadd now (nt_cancel_timeout n))\<rparr>"
  have "nav_keeps n ?m" "nav_keeps n (n\<lparr>nt_state := NavCancelled\<rparr>)"
    by (rule nav_keeps_record; simp add: nav_winding_def)+
  moreover have "nav_keeps n (n\<lparr>nt_state := st\<rparr>)" if "\<not> nt_cancel_requested n" for st
    using that by (intro nav_keeps_record) (simp_all add: nav_winding_def)
  ultimately show ?thesis
    by (auto simp: nav_response_decide_def Let_def intro: nav_keeps_cancel)
qed

lemma decide_stale:
  assumes "enqueued_made n" "stale" "accepted_handle h = Some i"
  shows "cancel_made i (nav_response_decide now (nt_goal_generation n) stale call h n) \<and>
    nav_winding (nav_response_decide now (nt_goal_generation n) stale call h n)"
proof -
  let ?m = "n\<lparr>nt_cancel_requested := True, nt_state := NavCancelling, nt_cancel_deadline := Some (fadd now (nt_cancel_timeout n))\<rparr>"
  have h: "h = Some (i, True)" using assms(3) by (auto simp: accepted_handle_def split: option.splits bool.splits)
  have "enqueued_made ?m" using assms(1) by (simp add: enqueued_made_def)
  moreover have "nav_winding ?m" by (simp add: nav_winding_def)
  ultimately show ?thesis using begin_cancel_made [of ?m "nt_goal_generation n" i call] nav_begin_cancel_winding [of ?m i "nt_goal_generation n" call]
    assms(2) h by (simp add: nav_response_decide_def)
qed

lemma system_inv_step: "nav_system_step p y z \<Longrightarrow> system_inv y \<Longrightarrow> system_inv z"
proof (induction rule: nav_system_step.induct)
  case (reset y)
  then show ?case by (auto simp: system_inv_def nav_send_reset_def enqueued_made_def Let_def)
next
  case (mark y)
  then show ?case by (auto simp: system_inv_def nav_send_mark_def enqueued_made_def Let_def)
next
  case (receive y r tracked)
  then show ?case
    by (auto simp: system_inv_def system_receive_def nav_response_receive_def enqueued_made_def Let_def split: goal_response.splits)
next
  case (decide y h now call)
  let ?n = "ny_nav y" and ?s = "\<not> fst (is_current p (ny_seq y))"
  let ?m = "nav_response_decide now (nt_goal_generation ?n) ?s call h ?n"
  have inv: "seq_inv (ny_seq y)" "ny_emergency y \<noteq> Resting \<longrightarrow> sq_latched (ny_seq y)" "ny_sender y = GoalSent" "enqueued_made ?n"
    "\<And>i a. h = Some (i, a) \<Longrightarrow> nt_handle ?n = Some i"
    using decide by (cases "ny_sender y"; auto simp: system_inv_def Let_def)+
  note q = query_latched [OF inv(1), of p]
  have "nt_handle ?m = Some i \<and> (cancel_made i ?m \<and> nav_winding ?m \<or> ny_emergency y = Resting)" if "accepted_handle h = Some i" for i
  proof -
    have "nt_handle ?n = Some i" using that inv(5) by (auto simp: accepted_handle_def split: option.splits bool.splits)
    moreover have "cancel_made i ?m \<and> nav_winding ?m" if "ny_emergency y \<noteq> Resting"
      using decide_stale [OF inv(4) _ \<open>accepted_handle h = Some i\<close>, of ?s] latched_not_current [of "ny_seq y" p] inv(2) that by blast
    ultimately show ?thesis using decide_keeps [of ?n now "nt_goal_generation ?n" ?s call h] by (auto simp: nav_keeps_def)
  qed
  with q inv decide_keeps [of ?n now "nt_goal_generation ?n" ?s call h] show ?case
    by (auto simp: system_decide_def system_inv_def nav_keeps_def Let_def split: prod.splits)
next
  case (zero_raises now published y e n)
  from system_inv_nav [OF zero_raises(2) nav_locked_keeps(5) [of "ny_nav y" now published]] zero_raises(1) show ?case by simp
next
  case (raise y now published u n)
  from system_inv_nav [OF raise(4) nav_locked_keeps(5) [of "ny_nav y" now published]] raise(1,3)
  have "system_inv (y\<lparr>ny_nav := n\<rparr>)" by simp
  moreover have "nav_winding n" using raise(3)
    by (auto simp: nav_emergency_raise_def nav_winding_def split: prod.splits sum.splits)
  ultimately show ?case using raise(1) by (auto simp: system_inv_def Let_def)
next
  case (finish y call)
  let ?n = "ny_nav y"
  have k: "nav_keeps ?n (nav_emergency_cancel call ?n)"
    using nav_keeps_cancel [of ?n ?n] by (auto simp: nav_emergency_cancel_def nav_keeps_def split: option.splits)
  have "cancel_made h (nav_emergency_cancel call ?n)" if "nt_handle ?n = Some h" "enqueued_made ?n" for h
    using that begin_cancel_made by (simp add: nav_emergency_cancel_def)
  with k finish show ?case by (auto simp: system_inv_def nav_keeps_def Let_def)
next
  case (locked y n r now call g c)
  then have "nav_keeps (ny_nav y) n" using nav_locked_keeps nav_cancel_goal_keeps by blast
  with locked(3) show ?case by (rule system_inv_nav)
next
  case (zero y published)
  then show ?case by (intro system_inv_nav nav_locked_keeps)
next
  case (sequencer y q)
  with seq_step_inv seq_step_latched show ?case by (auto simp: system_inv_def Let_def)
qed

interpretation nav_threads: machine "nav_system_step p" system_inv
  by unfold_locales (rule system_inv_step)

section \<open>Properties\<close>

definition nav_system_start :: "nav_transport \<Rightarrow> 'v sequencer \<Rightarrow> 'v nav_system" where
  "nav_system_start n q = \<lparr>ny_nav = n, ny_seq = q, ny_sender = Unsent, ny_answer = Unanswered, ny_emergency = Resting\<rparr>"

lemma system_start_inv: "seq_reach q \<Longrightarrow> system_inv (nav_system_start n q)"
  by (simp add: system_inv_def nav_system_start_def reach_inv)



text \<open>A stop of the adapter is final for its goal: the adapter's stop or cancel does not fail, and until the next goal is
  sent, whatever the callbacks bring and however late, neither the status nor another cancel reports that the
  goal is pending, running or has succeeded.\<close>
theorem stopped_goal_reports_no_motion:
  assumes "nav2_stop (nav_ops now call published) a = (r, a1)" "\<not> n2_cancel_sent a"
    "nav_event\<^sup>*\<^sup>* (n2_transport a1) t" "n2_transport b = t"
    "nav2_status (nav_ops now' call' published') b = (r1, b1)" "nav2_cancel (nav_ops now' call' published') b = (r2, b2)"
  shows "r = Ret () \<and> (\<exists>st1 st2. r1 = Ret st1 \<and> r2 = Ret st2 \<and>
    {as_state st1, as_state st2} \<inter> {''pending'', ''running'', ''succeeded''} = {})"
proof -
  from nav_link.stop_winds [OF assms(1)] assms(2) have r: "r = Ret ()" "nav_winding (n2_transport a1)" by simp_all
  from nav_callbacks.inv_steps [OF assms(3) r(2)] assms(4) have w: "nav_winding (n2_transport b)" by simp
  from nav_link.status_still [OF assms(5) w] nav_link.cancel_still [OF assms(6)] w r(1) show ?thesis
    by (auto simp: motion_report_def)
qed

theorem stopped_goal_reports_no_motion_witness:
  "\<exists>a1. nav2_stop (nav_ops (Fin 0) CancelTracked (\<lambda>_. Ret ())) (nav2_init (nav_init (Fin 1))) = (Ret (), a1) \<and>
     nt_zeros (n2_transport a1) = 3"
proof -
  let ?ops = "nav_ops (Fin 0) CancelTracked (\<lambda>_. Ret ())"
  obtain r a1 where a: "nav2_stop ?ops (nav2_init (nav_init (Fin 1))) = (r, a1)" by force
  obtain r1 b1 where s: "nav2_status ?ops a1 = (r1, b1)" by force
  obtain r2 b2 where c: "nav2_cancel ?ops a1 = (r2, b2)" by force
  from stopped_goal_reports_no_motion [OF a _ _ _ s c] have "r = Ret ()" by (simp add: nav2_init_def)
  moreover have "nt_zeros (n2_transport a1) = 3" using a
    by (auto simp: nav2_stop_def nav2_init_def nav_init_def nav_ops_def nav2_zeros_def nav_cancel_goal_def nav_publish_zero_def
        nav2_status_def nav_goal_status_def eval_nat_numeral)
  ultimately show ?thesis using a by blast
qed

section \<open>Two windows\<close>

text \<open>The answer to the cancel request can come after the goal's result: the transport then goes back from cancelled to
  cancelling, without a deadline, and no later status reports an end.\<close>

theorem late_cancel_response_sticks:
  assumes "nt_state n = NavCancelling" "nt_cancel_requested n" "m = nav_cancel_response (nt_cancel_generation n) (Ret True) (nav_goal_result (Ret (Some 5)) n)"
  shows "nt_state (nav_goal_result (Ret (Some 5)) n) = NavCancelled \<and> nav_goal_status now m = (NavCancelling, m)"
  using assms by (simp add: nav_goal_result_def nav_cancel_response_def nav_goal_status_def)

theorem late_cancel_response_sticks_witness:
  "\<exists>n. nav_goal_status (Fin 99) (nav_cancel_response 1 (Ret True) (nav_goal_result (Ret (Some 5)) n)) =
     (NavCancelling, nav_cancel_response 1 (Ret True) (nav_goal_result (Ret (Some 5)) n))"
proof -
  define n where "n = nav_cancel_goal (Fin 0) CancelTracked ((nav_init (Fin 1))\<lparr>nt_handle := Some 7\<rparr>)"
  have "nt_state n = NavCancelling" "nt_cancel_requested n" "nt_cancel_generation n = 1"
    by (simp_all add: n_def nav_cancel_goal_def nav_begin_cancel_def nav_init_def)
  with late_cancel_response_sticks [of n, OF _ _ refl] show ?thesis by metis
qed

text \<open>The emergency command publishes the zero first: when that raises, the goal is not cancelled.\<close>

theorem failed_zero_skips_cancel:
  "nav_emergency_raise now (Raise e) n = (Raise e, n)"
  by (simp add: nav_emergency_raise_def nav_publish_zero_def)

end
