(* ===== verification/Twist.thy ===== *)
theory Twist
  imports EmergencyChannel Adapter
begin

text \<open>
  The velocity adapter (\<^verbatim>\<open>agent_ros/adapters/twist.py\<close>): the transport that drives to a stage's goal by a timer,
  on binary64 floats and with the C library as a parameter, and the adapter in front of it. First every method as a
  whole; then the threads that run them, one step for every region that another thread can separate
  from the next. \<open>tt_log\<close> is a history variable: the commands published, in order.
\<close>

section \<open>Commands and samples\<close>

record motion =
  mn_linear :: pyfloat
  mn_angular :: pyfloat

definition zero_motion :: motion where "zero_motion = \<lparr>mn_linear = Fin 0, mn_angular = Fin 0\<rparr>"

definition motion_of :: "pyfloat \<Rightarrow> pyfloat \<Rightarrow> motion result" where
  "motion_of l a = rbind (twist_command_of (VFloat l) (VFloat a)) (\<lambda>_. Ret \<lparr>mn_linear = l, mn_angular = a\<rparr>)"

record twist_sample =
  sa_time :: pyfloat
  sa_x :: pyfloat
  sa_y :: pyfloat
  sa_yaw :: pyfloat

record quaternion =
  qu_x :: pyfloat
  qu_y :: pyfloat
  qu_z :: pyfloat
  qu_w :: pyfloat

definition yaw_from_quaternion :: "libm \<Rightarrow> quaternion \<Rightarrow> pyfloat" where
  "yaw_from_quaternion lm q =
     lm_atan2 lm (fmul (Fin 2) (fadd (fmul (qu_w q) (qu_z q)) (fmul (qu_x q) (qu_y q))))
       (fsub (Fin 1) (fmul (Fin 2) (fadd (fmul (qu_y q) (qu_y q)) (fmul (qu_z q) (qu_z q)))))"

definition sample_of :: "libm \<Rightarrow> pyfloat \<Rightarrow> pyfloat \<Rightarrow> pyfloat \<Rightarrow> quaternion \<Rightarrow> twist_sample result" where
  "sample_of lm now x y q =
     (let yaw = yaw_from_quaternion lm q in
      rbind (odometry_sample_of (VFloat now) (VFloat x) (VFloat y) (VFloat yaw)) (\<lambda>_.
        Ret \<lparr>sa_time = now, sa_x = x, sa_y = y, sa_yaw = yaw\<rparr>))"

section \<open>The transport\<close>

record twist_transport =
  tt_sample :: "twist_sample option"
  tt_limits :: "motion_limits option"
  tt_period :: pyfloat
  tt_stale_after :: pyfloat
  tt_stage :: "task_stage option"
  tt_permit :: "permit option"
  tt_sequencer :: "nat option"
  tt_generation :: nat
  tt_stage_generation :: nat
  tt_state :: adapter_status
  tt_last :: motion
  tt_log :: "motion list"

definition plain_status :: "string \<Rightarrow> adapter_status" where
  "plain_status st = \<lparr>as_state = st, as_code = None, as_values = []\<rparr>"

definition coded_status :: "string \<Rightarrow> string \<Rightarrow> adapter_status" where
  "coded_status st code = \<lparr>as_state = st, as_code = Some code, as_values = []\<rparr>"

definition twist_init :: "motion_limits option \<Rightarrow> pyfloat \<Rightarrow> pyfloat \<Rightarrow> twist_transport" where
  "twist_init limits period stale = \<lparr>tt_sample = None, tt_limits = limits, tt_period = period, tt_stale_after = stale,
     tt_stage = None, tt_permit = None, tt_sequencer = None, tt_generation = 0, tt_stage_generation = 0,
     tt_state = plain_status ''idle'', tt_last = zero_motion, tt_log = []\<rparr>"

definition twist_publish :: "unit result \<Rightarrow> motion \<Rightarrow> twist_transport \<Rightarrow> unit result \<times> twist_transport" where
  "twist_publish published c t =
     (case published of Inl e \<Rightarrow> (Raise e, t) | Inr _ \<Rightarrow> (Ret (), t\<lparr>tt_log := tt_log t @ [c]\<rparr>))"

definition twist_on_odometry :: "libm \<Rightarrow> pyfloat \<Rightarrow> pyfloat \<Rightarrow> pyfloat \<Rightarrow> quaternion \<Rightarrow> twist_transport \<Rightarrow> unit result \<times> twist_transport" where
  "twist_on_odometry lm now x y q t =
     (case sample_of lm now x y q of Inl e \<Rightarrow> (Raise e, t) | Inr s \<Rightarrow> (Ret (), t\<lparr>tt_sample := Some s\<rparr>))"

definition twist_preflight :: "bool \<Rightarrow> twist_transport \<Rightarrow> bool" where
  "twist_preflight publish_callable t = (tt_limits t \<noteq> None \<and> publish_callable)"

definition start_waypoint :: "task_stage \<Rightarrow> permit \<Rightarrow> twist_transport \<Rightarrow> unit result \<times> twist_transport" where
  "start_waypoint stage p t =
     (if p = Foreign then (invalid_profile, t)
      else (Ret (), t\<lparr>tt_generation := Suc (tt_generation t), tt_stage_generation := Suc (tt_generation t),
                      tt_permit := Some p, tt_stage := Some stage, tt_state := plain_status ''running''\<rparr>))"

definition twist_bind_sequencer :: "nat option \<Rightarrow> twist_transport \<Rightarrow> unit result \<times> twist_transport" where
  "twist_bind_sequencer sequencer t =
     (case sequencer of None \<Rightarrow> (invalid_profile, t)
      | Some i \<Rightarrow> if tt_sequencer t \<noteq> None \<and> tt_sequencer t \<noteq> Some i then (invalid_profile, t)
                  else (Ret (), t\<lparr>tt_sequencer := Some i\<rparr>))"

text \<open>\<^verbatim>\<open>_zero_and_disable\<close>: two regions under two locks. The burst stops at the first publication that raises.\<close>

definition twist_disable :: "adapter_status \<Rightarrow> twist_transport \<Rightarrow> twist_transport" where
  "twist_disable st t = t\<lparr>tt_generation := Suc (tt_generation t), tt_stage := None, tt_permit := None, tt_state := st\<rparr>"

fun twist_zeros :: "(nat \<Rightarrow> unit result) \<Rightarrow> nat \<Rightarrow> nat \<Rightarrow> twist_transport \<Rightarrow> unit result \<times> twist_transport" where
  "twist_zeros published i 0 t = (Ret (), t\<lparr>tt_last := zero_motion\<rparr>)"
| "twist_zeros published i (Suc n) t =
     (case twist_publish (published i) zero_motion t of
        (Inl e, t1) \<Rightarrow> (Raise e, t1) | (Inr _, t1) \<Rightarrow> twist_zeros published (Suc i) n t1)"

definition TWIST_ZERO_BURST :: nat where "TWIST_ZERO_BURST = 3"

definition zero_and_disable :: "(nat \<Rightarrow> unit result) \<Rightarrow> string \<Rightarrow> twist_transport \<Rightarrow> unit result \<times> twist_transport" where
  "zero_and_disable published st t = twist_zeros published 0 TWIST_ZERO_BURST (twist_disable (plain_status st) t)"

definition stop_waypoint :: "(nat \<Rightarrow> unit result) \<Rightarrow> twist_transport \<Rightarrow> unit result \<times> twist_transport" where
  "stop_waypoint published = zero_and_disable published ''stopped''"

definition cancel_waypoint :: "(nat \<Rightarrow> unit result) \<Rightarrow> twist_transport \<Rightarrow> unit result \<times> twist_transport" where
  "cancel_waypoint published t =
     (case stop_waypoint published t of (Inl e, t1) \<Rightarrow> (Raise e, t1)
      | (Inr _, t1) \<Rightarrow> (Ret (), t1\<lparr>tt_state := plain_status ''cancelled''\<rparr>))"

definition enqueue_emergency_zero :: "unit result \<Rightarrow> twist_transport \<Rightarrow> unit result \<times> twist_transport" where
  "enqueue_emergency_zero published t =
     (case twist_publish published zero_motion (twist_disable (plain_status ''estopped'') t) of
        (Inl e, t1) \<Rightarrow> (Raise e, t1) | (Inr _, t1) \<Rightarrow> (Ret (), t1\<lparr>tt_last := zero_motion\<rparr>))"

definition disable_unsafe_stage :: "twist_transport \<Rightarrow> twist_transport" where
  "disable_unsafe_stage = twist_disable (coded_status ''faulted'' ''UNSAFE_STATE'')"

subsection \<open>The control step\<close>

text \<open>What a tick makes of the stage and the sample it has read: nothing to do, a stop with the status that follows
  it, or a command. The clock is read twice. The acceleration limit is taken from the last command.\<close>

datatype plan = PlanStop adapter_status | PlanCommand motion

definition twist_stale :: "pyfloat \<Rightarrow> pyfloat \<Rightarrow> pyfloat \<Rightarrow> twist_sample option \<Rightarrow> bool" where
  "twist_stale now1 now2 stale sample =
     (case sample of None \<Rightarrow> True
      | Some s \<Rightarrow> flt stale (fsub now1 (sa_time s)) \<or> flt (mk_float (1 / 20)) (fsub (sa_time s) now2))"

definition towards :: "pyfloat \<Rightarrow> pyfloat \<Rightarrow> pyfloat \<Rightarrow> pyfloat" where
  "towards delta previous desired = fmax (fsub previous delta) (fmin (fadd previous delta) desired)"

definition twist_command_towards :: "motion_limits \<Rightarrow> pyfloat \<Rightarrow> motion \<Rightarrow> pyfloat \<Rightarrow> pyfloat \<Rightarrow> motion result" where
  "twist_command_towards limits period previous distance error =
     (let desired_linear = (if fle (fabs error) (Fin (py_pi / 2)) then fmin (Fin (max_linear_velocity limits)) distance else Fin 0);
          desired_angular = fclamp (Fin (max_angular_velocity limits)) error;
          linear_delta = fmul (Fin (max_linear_acceleration limits)) period;
          angular_delta = fmul (Fin (max_angular_acceleration limits)) period
      in motion_of (towards linear_delta (mn_linear previous) desired_linear) (towards angular_delta (mn_angular previous) desired_angular))"

definition twist_plan ::
  "libm \<Rightarrow> pyfloat \<Rightarrow> pyfloat \<Rightarrow> task_stage \<Rightarrow> twist_sample option \<Rightarrow> twist_transport \<Rightarrow> plan result" where
  "twist_plan lm now1 now2 stage sample t =
     (if twist_stale now1 now2 (tt_stale_after t) sample then Ret (PlanStop (coded_status ''faulted'' ''STALE_FEEDBACK''))
      else
        (let s = the sample; dx = fsub (Fin (pg_x (ts_goal stage))) (sa_x s); dy = fsub (Fin (pg_y (ts_goal stage))) (sa_y s);
             distance = lm_hypot lm dx dy
         in if fle distance (Fin (ts_tolerance stage)) then Ret (PlanStop (plain_status ''succeeded''))
            else (let turn = fsub (lm_atan2 lm dy dx) (sa_yaw s) in
              rbind (py_sin lm turn) (\<lambda>sine. rbind (py_cos lm turn) (\<lambda>cosine.
                (case tt_limits t of None \<Rightarrow> Ret (PlanStop (coded_status ''faulted'' ''PROFILE_INVALID''))
                 | Some limits \<Rightarrow> rbind (twist_command_towards limits (tt_period t) (tt_last t) distance (lm_atan2 lm sine cosine))
                     (\<lambda>c. Ret (PlanCommand c))))))))"

definition twist_enqueue :: "nat \<Rightarrow> unit result \<Rightarrow> motion \<Rightarrow> twist_transport \<Rightarrow> unit result \<times> twist_transport" where
  "twist_enqueue generation published c t =
     (if generation \<noteq> tt_generation t \<or> tt_stage t = None then (Ret (), t)
      else case twist_publish published c t of
        (Inl e, t1) \<Rightarrow> (Raise e, t1) | (Inr _, t1) \<Rightarrow> (Ret (), t1\<lparr>tt_last := c\<rparr>))"

text \<open>A tick with nothing in between. What the sequencer does with the command is an argument: it refuses it, or
  runs it, and then its exception is the tick's.\<close>

definition twist_finish_stop :: "(nat \<Rightarrow> unit result) \<Rightarrow> adapter_status \<Rightarrow> twist_transport \<Rightarrow> unit result \<times> twist_transport" where
  "twist_finish_stop published st t =
     (case stop_waypoint published t of (Inl e, t1) \<Rightarrow> (Raise e, t1) | (Inr _, t1) \<Rightarrow> (Ret (), t1\<lparr>tt_state := st\<rparr>))"

definition twist_submit :: "nat option \<Rightarrow> bool \<Rightarrow> unit result \<Rightarrow> nat \<Rightarrow> permit option \<Rightarrow> motion \<Rightarrow> twist_transport \<Rightarrow> unit result \<times> twist_transport" where
  "twist_submit owner admitted published generation p c t =
     (if p = None \<or> p = Some Foreign \<or> owner \<noteq> tt_sequencer t then (Ret (), disable_unsafe_stage t)
      else if \<not> admitted then (Ret (), disable_unsafe_stage t)
      else twist_enqueue generation published c t)"

definition control_step ::
  "libm \<Rightarrow> pyfloat \<Rightarrow> pyfloat \<Rightarrow> (nat \<Rightarrow> unit result) \<Rightarrow> nat option \<Rightarrow> bool \<Rightarrow> unit result \<Rightarrow> twist_transport \<Rightarrow> unit result \<times> twist_transport" where
  "control_step lm now1 now2 published owner admitted sent t =
     (case tt_stage t of None \<Rightarrow> (Ret (), t)
      | Some stage \<Rightarrow>
          (case twist_plan lm now1 now2 stage (tt_sample t) t of
             Inl e \<Rightarrow> (Raise e, t)
           | Inr (PlanStop st) \<Rightarrow> twist_finish_stop published st t
           | Inr (PlanCommand c) \<Rightarrow> twist_submit owner admitted sent (tt_stage_generation t) (tt_permit t) c t))"

section \<open>The adapter\<close>

definition twist_validate :: "robot_profile \<Rightarrow> bool result \<Rightarrow> unit result" where
  "twist_validate profile preflight =
     (let i = rp_interfaces profile;
          typed = (\<lambda>r ty. case r of None \<Rightarrow> False | Some r \<Rightarrow> if_type r = ty)
      in if rp_adapter_kind profile \<noteq> ''twist'' \<or> \<not> typed (ri_command i) TWIST_TYPE \<or> \<not> typed (ri_odometry i) ODOMETRY_TYPE
         then invalid_profile
         else case preflight of
           Inl (AdapterError code) \<Rightarrow> Raise (AdapterError code)
         | Inl _ \<Rightarrow> invalid_profile
         | Inr ready \<Rightarrow> if ready then Ret () else invalid_profile)"

definition read_odometry :: "twist_transport \<Rightarrow> twist_sample result" where
  "read_odometry t = (case tt_sample t of None \<Rightarrow> Raise (AdapterError ''STALE_FEEDBACK'') | Some s \<Rightarrow> Ret s)"

text \<open>The adapter's \<^verbatim>\<open>stop\<close> swallows what its transport raises.\<close>

definition twist_stop :: "(nat \<Rightarrow> unit result) \<Rightarrow> twist_transport \<Rightarrow> twist_transport" where
  "twist_stop published t = snd (stop_waypoint published t)"

definition fresh_odometry ::
  "pyfloat \<Rightarrow> rat option \<Rightarrow> pyfloat \<Rightarrow> (nat \<Rightarrow> unit result) \<Rightarrow> twist_transport \<Rightarrow> twist_sample result \<times> twist_transport" where
  "fresh_odometry now stale_after skew published t =
     (let stale = (Raise (AdapterError ''STALE_FEEDBACK''), twist_stop published t) in
      case read_odometry t of Inl _ \<Rightarrow> stale
      | Inr s \<Rightarrow> (case stale_after of None \<Rightarrow> stale
        | Some limit \<Rightarrow> (let age = fsub now (sa_time s) in
            if flt (Fin limit) age \<or> flt age (fneg skew) then stale else (Ret s, t))))"

definition twist_observe ::
  "string list \<Rightarrow> string \<Rightarrow> pyfloat \<Rightarrow> rat option \<Rightarrow> pyfloat \<Rightarrow> (nat \<Rightarrow> unit result) \<Rightarrow> twist_transport \<Rightarrow> observation result \<times> twist_transport" where
  "twist_observe sources source now stale_after skew published t =
     (if source \<noteq> ''odometry'' \<or> source \<notin> set sources then (invalid_profile, t)
      else (case fresh_odometry now stale_after skew published t of
          (Inl e, t1) \<Rightarrow> (Raise e, t1)
        | (Inr s, t1) \<Rightarrow> (Ret \<lparr>ob_source = ''odometry'', ob_timestamp = VFloat (sa_time s),
            ob_values = [(VStr ''x'', VFloat (sa_x s)), (VStr ''y'', VFloat (sa_y s)), (VStr ''yaw'', VFloat (sa_yaw s))]\<rparr>, t1)))"

text \<open>\<^verbatim>\<open>start\<close>: what the sequencer answers to the submission is an argument; the second component says whether the
  emergency stop is asked for.\<close>

definition twist_start ::
  "bool \<Rightarrow> pyfloat \<Rightarrow> rat option \<Rightarrow> pyfloat \<Rightarrow> (nat \<Rightarrow> unit result) \<Rightarrow> (twist_transport \<Rightarrow> unit result \<times> twist_transport) \<Rightarrow> twist_transport \<Rightarrow>
   adapter_status result \<times> bool \<times> twist_transport" where
  "twist_start is_stage now stale_after skew published submit t =
     (if \<not> is_stage then (invalid_profile, False, t)
      else (case fresh_odometry now stale_after skew published t of
          (Inl e, t1) \<Rightarrow> (Raise e, False, t1)
        | (Inr _, t1) \<Rightarrow>
            (case submit t1 of
               (Inr _, t2) \<Rightarrow> (Ret (plain_status ''running''), False, t2)
             | (Inl (AdapterError code), t2) \<Rightarrow> (Raise (AdapterError code), False, t2)
             | (Inl _, t2) \<Rightarrow> (Raise (AdapterError ''INTERNAL_ERROR''), True, t2))))"

definition twist_cancel :: "(nat \<Rightarrow> unit result) \<Rightarrow> (nat \<Rightarrow> unit result) \<Rightarrow> twist_transport \<Rightarrow> adapter_status result \<times> twist_transport" where
  "twist_cancel published again t =
     (case cancel_waypoint published t of
        (Inr _, t1) \<Rightarrow> (Ret (plain_status ''cancelled''), t1)
      | (Inl _, t1) \<Rightarrow> (Raise (AdapterError ''INTERNAL_ERROR''), twist_stop again t1))"

section \<open>Commands within their limits\<close>

text \<open>What is asked of the C library: its results are floats, and a distance is not negative.\<close>

definition libm_floats :: "libm \<Rightarrow> bool" where
  "libm_floats lm \<longleftrightarrow> (\<forall>x y. float_ok (lm_hypot lm x y) \<and> \<not> flt (lm_hypot lm x y) (Fin 0) \<and> float_ok (lm_atan2 lm x y))"

definition limits_ok :: "motion_limits \<Rightarrow> bool" where
  "limits_ok l \<longleftrightarrow> list_all (\<lambda>x. 0 \<le> x \<and> float_ok (Fin x))
     [max_linear_velocity l, max_angular_velocity l, max_linear_acceleration l, max_angular_acceleration l]"

definition motion_within :: "motion_limits \<Rightarrow> motion \<Rightarrow> bool" where
  "motion_within l c \<longleftrightarrow> (\<exists>v w. c = \<lparr>mn_linear = Fin v, mn_angular = Fin w\<rparr> \<and> float_ok (Fin v) \<and> float_ok (Fin w) \<and>
     0 \<le> v \<and> v \<le> max_linear_velocity l \<and> \<bar>w\<bar> \<le> max_angular_velocity l)"

text \<open>A command no further from the previous one than the limits allow in a period, on the floats' own sums.\<close>

definition accelerated_within :: "motion_limits \<Rightarrow> pyfloat \<Rightarrow> motion \<Rightarrow> motion \<Rightarrow> bool" where
  "accelerated_within l period previous c \<longleftrightarrow>
     (let dl = fmul (Fin (max_linear_acceleration l)) period; da = fmul (Fin (max_angular_acceleration l)) period in
      fle (fsub (mn_linear previous) dl) (mn_linear c) \<and> fle (mn_linear c) (fadd (mn_linear previous) dl) \<and>
      fle (fsub (mn_angular previous) da) (mn_angular c) \<and> fle (mn_angular c) (fadd (mn_angular previous) da))"

lemma zero_within: "limits_ok l \<Longrightarrow> motion_within l zero_motion"
  by (simp add: motion_within_def zero_motion_def limits_ok_def b64.rnd_zero)

lemma mk_float_near:
  assumes "float_ok (Fin v)" "0 \<le> d"
  shows "fle (mk_float (v - d)) (Fin v)" "fle (Fin v) (mk_float (v + d))"
  using mk_float_mono [of "v - d" v] mk_float_mono [of v "v + d"] mk_float_id [OF assms(1)] assms(2) by simp_all

lemma delta_cases:
  assumes "0 \<le> a" "0 \<le> p" obtains d where "fmul (Fin a) (Fin p) = Fin d" "0 \<le> d" | "fmul (Fin a) (Fin p) = PInf"
proof -
  have "0 \<le> rnd64 (a * p)" using assms by (simp add: b64.rnd_nonneg)
  then have "\<not> rnd64 (a * p) \<le> - p2 1024" using p2_pos [of 1024] by linarith
  with that \<open>0 \<le> rnd64 (a * p)\<close> show thesis by (cases "p2 1024 \<le> rnd64 (a * p)") (auto simp: mk_float_def Let_def)
qed

lemma towards_between:
  assumes "float_ok (Fin v)" "float_ok (Fin w)" "\<delta> = PInf \<or> (\<exists>d. \<delta> = Fin d \<and> 0 \<le> d)" "lo \<le> v" "v \<le> hi" "lo \<le> w" "w \<le> hi"
  shows "\<exists>r. towards \<delta> (Fin v) (Fin w) = Fin r \<and> float_ok (Fin r) \<and> lo \<le> r \<and> r \<le> hi \<and>
    fle (fsub (Fin v) \<delta>) (Fin r) \<and> fle (Fin r) (fadd (Fin v) \<delta>)"
proof (cases "\<delta> = PInf")
  case True
  then show ?thesis using assms by (auto simp: towards_def fsub_def fmin_def fmax_def)
next
  case False
  then obtain d where d: "\<delta> = Fin d" "0 \<le> d" using assms(3) by auto
  define a b where "a = mk_float (v - d)" and "b = mk_float (v + d)"
  have ab: "fle a (Fin v)" "fle (Fin v) b" "float_ok a" "float_ok b" "a \<noteq> NaN" "b \<noteq> NaN"
    using mk_float_near [OF assms(1) d(2)] by (auto simp: a_def b_def mk_float_ok)
  have "towards \<delta> (Fin v) (Fin w) = fmax a (fmin b (Fin w))" by (simp add: towards_def d a_def b_def fsub_def)
  moreover have "fsub (Fin v) \<delta> = a" "fadd (Fin v) \<delta> = b" by (simp_all add: d a_def b_def fsub_def)
  ultimately show ?thesis using ab assms(2,4-7) by (cases a; cases b) (auto simp: fmin_def fmax_def)
qed

lemma fclamp_ok:
  assumes "0 \<le> m" "float_ok (Fin m)" "float_ok v" obtains c where "fclamp (Fin m) v = Fin c" "\<bar>c\<bar> \<le> m" "float_ok (Fin c)"
proof -
  have "float_ok (Fin (- m))" using assms(2) by (simp add: b64.rnd_neg)
  then show thesis using that fclamp_bounds [OF assms(1), of v] assms by (cases v) (auto simp: fclamp_def fmax_def fmin_def split: if_splits)
qed

lemma command_towards_safe:
  assumes "limits_ok l" "0 \<le> p" "motion_within l previous" "float_ok distance" "\<not> flt distance (Fin 0)" "float_ok error"
  shows "\<exists>c. twist_command_towards l (Fin p) previous distance error = Ret c \<and> motion_within l c \<and>
    accelerated_within l (Fin p) previous c"
proof -
  obtain v w where pr: "previous = \<lparr>mn_linear = Fin v, mn_angular = Fin w\<rparr>" "float_ok (Fin v)" "float_ok (Fin w)" "0 \<le> v"
    "v \<le> max_linear_velocity l" "\<bar>w\<bar> \<le> max_angular_velocity l" using assms(3) by (auto simp: motion_within_def)
  have l: "0 \<le> max_linear_velocity l" "float_ok (Fin (max_linear_velocity l))" "0 \<le> max_angular_velocity l"
    "float_ok (Fin (max_angular_velocity l))" "0 \<le> max_linear_acceleration l" "0 \<le> max_angular_acceleration l"
    using assms(1) by (simp_all only: limits_ok_def list.pred_inject simp_thms)
  let ?desired = "if fle (fabs error) (Fin (py_pi / 2)) then fmin (Fin (max_linear_velocity l)) distance else Fin 0"
  obtain dl where dl: "?desired = Fin dl" "float_ok (Fin dl)" "0 \<le> dl" "dl \<le> max_linear_velocity l"
  proof -
    have "\<exists>dl. fmin (Fin (max_linear_velocity l)) distance = Fin dl \<and> float_ok (Fin dl) \<and> 0 \<le> dl \<and> dl \<le> max_linear_velocity l"
      using l(1,2) assms(4,5) by (cases distance) (auto simp: fmin_def)
    then show thesis using that l(1) by (cases "fle (fabs error) (Fin (py_pi / 2))") (auto simp: b64.rnd_zero)
  qed
  obtain da where da: "fclamp (Fin (max_angular_velocity l)) error = Fin da" "\<bar>da\<bar> \<le> max_angular_velocity l" "float_ok (Fin da)"
    using fclamp_ok [OF l(3,4) assms(6)] .
  have d: "fmul (Fin a) (Fin p) = PInf \<or> (\<exists>d. fmul (Fin a) (Fin p) = Fin d \<and> 0 \<le> d)" if "0 \<le> a" for a
    using delta_cases [OF that assms(2)] by metis
  obtain r where r: "towards (fmul (Fin (max_linear_acceleration l)) (Fin p)) (Fin v) ?desired = Fin r" "float_ok (Fin r)" "0 \<le> r"
    "r \<le> max_linear_velocity l" "fle (fsub (Fin v) (fmul (Fin (max_linear_acceleration l)) (Fin p))) (Fin r)"
    "fle (Fin r) (fadd (Fin v) (fmul (Fin (max_linear_acceleration l)) (Fin p)))"
    using towards_between [OF pr(2) dl(2) d [OF l(5)] pr(4,5) dl(3,4)] unfolding dl(1) by blast
  obtain u where u: "towards (fmul (Fin (max_angular_acceleration l)) (Fin p)) (Fin w) (fclamp (Fin (max_angular_velocity l)) error) = Fin u"
    "float_ok (Fin u)" "- max_angular_velocity l \<le> u" "u \<le> max_angular_velocity l"
    "fle (fsub (Fin w) (fmul (Fin (max_angular_acceleration l)) (Fin p))) (Fin u)"
    "fle (Fin u) (fadd (Fin w) (fmul (Fin (max_angular_acceleration l)) (Fin p)))"
    using towards_between [OF pr(3) da(3) d [OF l(6)], of "- max_angular_velocity l" "max_angular_velocity l"] pr(6) da(2)
    unfolding da(1) by (auto simp: abs_le_iff)
  have "motion_of (Fin r) (Fin u) = Ret \<lparr>mn_linear = Fin r, mn_angular = Fin u\<rparr>"
    by (simp add: motion_of_def twist_command_of_def finite_value_def py_isfinite_def)
  with r u show ?thesis
    by (simp add: twist_command_towards_def Let_def pr(1) motion_within_def accelerated_within_def abs_le_iff del: fmul.simps fadd.simps)
qed

lemma plan_command_safe:
  assumes "twist_plan lm now1 now2 stage sample t = Ret (PlanCommand c)" "libm_floats lm" "tt_limits t = Some l" "limits_ok l"
    "tt_period t = Fin p" "0 \<le> p" "motion_within l (tt_last t)"
  shows "motion_within l c \<and> accelerated_within l (Fin p) (tt_last t) c"
proof -
  obtain x y a b where "twist_command_towards l (Fin p) (tt_last t) (lm_hypot lm x y) (lm_atan2 lm a b) = Ret c"
    using assms(1,3,5) by (auto simp: twist_plan_def Let_def split: if_splits)
  moreover have "\<exists>c. twist_command_towards l (Fin p) (tt_last t) (lm_hypot lm x y) (lm_atan2 lm a b) = Ret c \<and> motion_within l c \<and>
    accelerated_within l (Fin p) (tt_last t) c" for x y a b
    using assms(2) by (intro command_towards_safe assms) (simp_all add: libm_floats_def)
  ultimately show ?thesis by (metis sum.inject(2))
qed

section \<open>The threads\<close>

text \<open>The transport with a tick under way (what it has read), the commands planned so far, the command that has passed the
  generation check in the worker and is not published yet, and the number of starts. The sequencer runs any planned
  command at any time or never: whatever it decides is a run of these steps.\<close>

record twist_system =
  ws_tr :: twist_transport
  ws_tick :: "(task_stage \<times> twist_sample option \<times> nat) option"
  ws_planned :: "(nat \<times> motion) list"
  ws_checked :: "motion option"
  ws_starts :: nat

definition twist_system_init :: "motion_limits option \<Rightarrow> pyfloat \<Rightarrow> pyfloat \<Rightarrow> twist_system" where
  "twist_system_init l period stale =
     \<lparr>ws_tr = twist_init l period stale, ws_tick = None, ws_planned = [], ws_checked = None, ws_starts = 0\<rparr>"

inductive twist_step :: "libm \<Rightarrow> twist_system \<Rightarrow> twist_system \<Rightarrow> bool" for lm where
  odometry: "twist_step lm y (y\<lparr>ws_tr := snd (twist_on_odometry lm now px py q (ws_tr y))\<rparr>)"
| bind: "twist_step lm y (y\<lparr>ws_tr := snd (twist_bind_sequencer i (ws_tr y))\<rparr>)"
| start: "twist_step lm y (y\<lparr>ws_tr := snd (start_waypoint stage p (ws_tr y)), ws_starts := Suc (ws_starts y)\<rparr>)"
| snapshot: "tt_stage (ws_tr y) = Some stage \<Longrightarrow>
     twist_step lm y (y\<lparr>ws_tick := Some (stage, tt_sample (ws_tr y), tt_stage_generation (ws_tr y))\<rparr>)"
| plan: "ws_tick y = Some (stage, sample, g) \<Longrightarrow> twist_plan lm now1 now2 stage sample (ws_tr y) = Ret (PlanCommand c) \<Longrightarrow>
     twist_step lm y (y\<lparr>ws_tick := None, ws_planned := ws_planned y @ [(g, c)]\<rparr>)"
| no_plan: "twist_step lm y (y\<lparr>ws_tick := None\<rparr>)"
| check: "ws_checked y = None \<Longrightarrow> (g, c) \<in> set (ws_planned y) \<Longrightarrow>
     twist_step lm y (if g \<noteq> tt_generation (ws_tr y) \<or> tt_stage (ws_tr y) = None then y else y\<lparr>ws_checked := Some c\<rparr>)"
| publish: "ws_checked y = Some c \<Longrightarrow> twist_publish published c (ws_tr y) = (r, t) \<Longrightarrow>
     twist_step lm y (y\<lparr>ws_tr := (if is_ret r then t\<lparr>tt_last := c\<rparr> else t), ws_checked := None\<rparr>)"
| disable: "twist_step lm y (y\<lparr>ws_tr := twist_disable st (ws_tr y)\<rparr>)"
| zeros: "twist_step lm y (y\<lparr>ws_tr := snd (twist_zeros published 0 n (ws_tr y))\<rparr>)"
| status: "twist_step lm y (y\<lparr>ws_tr := (ws_tr y)\<lparr>tt_state := st\<rparr>\<rparr>)"

lemma twist_zeros_frame:
  "tt_stage (snd (twist_zeros published i n t)) = tt_stage t \<and> tt_limits (snd (twist_zeros published i n t)) = tt_limits t \<and>
   tt_period (snd (twist_zeros published i n t)) = tt_period t \<and>
   (\<exists>k. tt_log (snd (twist_zeros published i n t)) = tt_log t @ replicate k zero_motion) \<and>
   tt_last (snd (twist_zeros published i n t)) \<in> {tt_last t, zero_motion}"
proof (induction published i n t rule: twist_zeros.induct)
  case (1 published i t)
  then show ?case by (simp add: exI [of _ 0])
next
  case (2 published i n t)
  show ?case
  proof (cases "published i")
    case (Inl e)
    then show ?thesis by (simp add: twist_publish_def exI [of _ 0])
  next
    case (Inr u)
    define t1 where "t1 = t\<lparr>tt_log := tt_log t @ [zero_motion]\<rparr>"
    from 2 [of "Ret ()" t1 "()"] Inr obtain k where
      "tt_log (snd (twist_zeros published (Suc i) n t1)) = (tt_log t @ [zero_motion]) @ replicate k zero_motion"
      "tt_stage (snd (twist_zeros published (Suc i) n t1)) = tt_stage t"
      "tt_limits (snd (twist_zeros published (Suc i) n t1)) = tt_limits t"
      "tt_period (snd (twist_zeros published (Suc i) n t1)) = tt_period t"
      "tt_last (snd (twist_zeros published (Suc i) n t1)) \<in> {tt_last t, zero_motion}"
      by (auto simp: twist_publish_def t1_def)
    with Inr show ?thesis by (auto simp: twist_publish_def t1_def intro!: exI [of _ "Suc k"])
  qed
qed

definition twist_inv :: "motion_limits \<Rightarrow> rat \<Rightarrow> twist_system \<Rightarrow> bool" where
  "twist_inv l p y \<longleftrightarrow>
     tt_limits (ws_tr y) = Some l \<and> tt_period (ws_tr y) = Fin p \<and>
     (\<forall>c \<in> {tt_last (ws_tr y)} \<union> set (tt_log (ws_tr y)) \<union> snd ` set (ws_planned y) \<union> set_option (ws_checked y). motion_within l c)"

lemma twist_inv_step:
  assumes "twist_step lm y z" "twist_inv l p y" "libm_floats lm" "limits_ok l" "0 \<le> p"
  shows "twist_inv l p z"
  using assms(1,2)
proof (induction rule: twist_step.induct)
  case (plan y stage sample g now1 now2 c)
  have "motion_within l c"
    using plan_command_safe [OF plan(2) assms(3) _ assms(4) _ assms(5)] plan(3) by (simp add: twist_inv_def)
  with plan(3) show ?case by (auto simp: twist_inv_def)
next
  case (zeros y published n)
  from twist_zeros_frame [of published 0 n "ws_tr y"] zeros zero_within [OF assms(4)] show ?case
    by (auto simp: twist_inv_def)
next
  case (publish y c published r t)
  then show ?case by (auto simp: twist_inv_def twist_publish_def split: sum.splits)
qed (auto simp: twist_inv_def twist_on_odometry_def twist_bind_sequencer_def start_waypoint_def twist_disable_def image_iff
    split: sum.splits option.splits, force+)

text \<open>What follows a state without a stage until the next start: zeros, and at most the one command that had passed its
  check.\<close>

definition stop_follows :: "twist_system \<Rightarrow> twist_system \<Rightarrow> bool" where
  "stop_follows y z \<longleftrightarrow> ws_starts y \<le> ws_starts z \<and>
     (ws_starts z = ws_starts y \<and> tt_stage (ws_tr y) = None \<longrightarrow>
        tt_stage (ws_tr z) = None \<and> ws_checked z \<in> {None, ws_checked y} \<and>
        (\<exists>zs. tt_log (ws_tr z) = tt_log (ws_tr y) @ zs \<and> (\<forall>c \<in> set zs. c \<noteq> zero_motion \<longrightarrow> ws_checked y = Some c) \<and>
           length (filter (\<lambda>c. c \<noteq> zero_motion) zs) + (if ws_checked z = None then 0 else 1) \<le> (if ws_checked y = None then 0 else 1)))"

lemma stop_follows_log:
  assumes "ws_starts z = ws_starts y" "tt_stage (ws_tr y) = None \<Longrightarrow> tt_stage (ws_tr z) = None" "ws_checked z \<in> {None, ws_checked y}"
    "tt_log (ws_tr z) = tt_log (ws_tr y) @ zs" "\<forall>c \<in> set zs. c = zero_motion"
  shows "stop_follows y z"
proof -
  have "filter (\<lambda>c. c \<noteq> zero_motion) zs = []" using assms(5) by simp
  with assms show ?thesis unfolding stop_follows_def by (auto intro!: exI [of _ zs])
qed

lemma step_stop_follows: "twist_step lm y z \<Longrightarrow> stop_follows y z"
proof (induction rule: twist_step.induct)
  case (start y stage p)
  then show ?case by (simp add: stop_follows_def)
next
  case (publish y c published r t)
  then show ?case
    by (cases published) (auto simp: stop_follows_def twist_publish_def intro!: exI [of _ "[]"] exI [of _ "[c]"])
next
  case (zeros y published n)
  from twist_zeros_frame [of published 0 n "ws_tr y"] obtain k where
    "tt_log (snd (twist_zeros published 0 n (ws_tr y))) = tt_log (ws_tr y) @ replicate k zero_motion"
    "tt_stage (snd (twist_zeros published 0 n (ws_tr y))) = tt_stage (ws_tr y)" by auto
  then show ?case by (intro stop_follows_log [where zs = "replicate k zero_motion"]) auto
next
  case (check y g c)
  then show ?case by (auto simp: stop_follows_def)
qed (rule stop_follows_log [where zs = "[]"];
    simp add: twist_on_odometry_def twist_bind_sequencer_def twist_disable_def split: sum.splits option.splits)+

lemma stop_follows_trans:
  assumes "stop_follows x y" "stop_follows y z" shows "stop_follows x z"
proof -
  have le: "ws_starts x \<le> ws_starts y" "ws_starts y \<le> ws_starts z" using assms by (simp_all add: stop_follows_def)
  show ?thesis
  proof (cases "ws_starts z = ws_starts x \<and> tt_stage (ws_tr x) = None")
    case True
    then have eq: "ws_starts y = ws_starts x" "ws_starts z = ws_starts y" using le by simp_all
    obtain us where us: "tt_log (ws_tr y) = tt_log (ws_tr x) @ us" "\<forall>c \<in> set us. c \<noteq> zero_motion \<longrightarrow> ws_checked x = Some c"
      "length (filter (\<lambda>c. c \<noteq> zero_motion) us) + (if ws_checked y = None then 0 else 1) \<le> (if ws_checked x = None then 0 else 1)"
      "tt_stage (ws_tr y) = None" "ws_checked y \<in> {None, ws_checked x}"
      using assms(1) True eq(1) unfolding stop_follows_def by blast
    obtain vs where vs: "tt_log (ws_tr z) = tt_log (ws_tr y) @ vs" "\<forall>c \<in> set vs. c \<noteq> zero_motion \<longrightarrow> ws_checked y = Some c"
      "length (filter (\<lambda>c. c \<noteq> zero_motion) vs) + (if ws_checked z = None then 0 else 1) \<le> (if ws_checked y = None then 0 else 1)"
      "tt_stage (ws_tr z) = None" "ws_checked z \<in> {None, ws_checked y}"
      using assms(2) us(4) eq(2) unfolding stop_follows_def by blast
    have "length (filter (\<lambda>c. c \<noteq> zero_motion) (us @ vs)) + (if ws_checked z = None then 0 else 1) \<le> (if ws_checked x = None then 0 else 1)"
      using us(3) vs(3) by simp
    moreover have "\<forall>c \<in> set (us @ vs). c \<noteq> zero_motion \<longrightarrow> ws_checked x = Some c" using us(2,5) vs(2) by auto
    moreover have "ws_checked z \<in> {None, ws_checked x}" using us(5) vs(5) by auto
    moreover have "tt_log (ws_tr z) = tt_log (ws_tr x) @ us @ vs" using us(1) vs(1) by simp
    ultimately show ?thesis using le vs(4) unfolding stop_follows_def by (intro conjI impI exI [of _ "us @ vs"]) simp_all
  qed (use le in \<open>auto simp: stop_follows_def\<close>)
qed

lemma stop_follows_refl: "stop_follows y y"
  by (rule stop_follows_log [where zs = "[]"]) simp_all

lemma steps_stop_follows: "(twist_step lm)\<^sup>*\<^sup>* y z \<Longrightarrow> stop_follows y z"
  by (induction rule: rtranclp_induct) (auto intro: stop_follows_refl stop_follows_trans step_stop_follows)

section \<open>Properties\<close>

abbreviation twist_reach :: "libm \<Rightarrow> motion_limits \<Rightarrow> rat \<Rightarrow> pyfloat \<Rightarrow> twist_system \<Rightarrow> bool" where
  "twist_reach lm l p stale y \<equiv> (twist_step lm)\<^sup>*\<^sup>* (twist_system_init (Some l) (Fin p) stale) y"

lemma twist_reach_inv:
  assumes "twist_reach lm l p stale y" "libm_floats lm" "limits_ok l" "0 \<le> p" shows "twist_inv l p y"
  using assms(1)
proof (induction rule: rtranclp_induct)
  case base
  then show ?case using zero_within [OF assms(3)] by (simp add: twist_inv_def twist_system_init_def twist_init_def)
qed (rule twist_inv_step [OF _ _ assms(2-4)])

text \<open>C12: Every velocity ever published is finite and within the profile's velocity limits, however ticks, starts, stops and the worker
  interleave, and every command a tick plans is within the profile's acceleration of the last command for the timer's
  period.\<close>
theorem twist_commands_within_limits:
  assumes "twist_reach lm l p stale y" "libm_floats lm" "limits_ok l" "0 \<le> p"
  shows "(\<forall>c \<in> set (tt_log (ws_tr y)). motion_within l c) \<and>
    (\<forall>now1 now2 stage sample c. twist_plan lm now1 now2 stage sample (ws_tr y) = Ret (PlanCommand c) \<longrightarrow>
       motion_within l c \<and> accelerated_within l (Fin p) (tt_last (ws_tr y)) c)"
proof -
  have inv: "twist_inv l p y" by (rule twist_reach_inv [OF assms])
  then have "tt_limits (ws_tr y) = Some l" "tt_period (ws_tr y) = Fin p" "motion_within l (tt_last (ws_tr y))" by (simp_all add: twist_inv_def)
  with plan_command_safe [OF _ assms(2) _ assms(3) _ assms(4)] inv show ?thesis by (auto simp: twist_inv_def)
qed


section \<open>A stop against a tick\<close>

definition unit_libm :: libm where
  "unit_libm = \<lparr>lm_hypot = (\<lambda>_ _. mk_float 4), lm_atan2 = (\<lambda>_ _. mk_float 0), lm_sin = (\<lambda>_. Fin 0), lm_cos = (\<lambda>_. Fin 1)\<rparr>"

definition unit_limits :: motion_limits where
  "unit_limits = \<lparr>max_linear_velocity = 1, max_angular_velocity = 1, max_linear_acceleration = 1, max_angular_acceleration = 1\<rparr>"

definition unit_stage :: task_stage where
  "unit_stage = \<lparr>ts_name = ''there'', ts_goal = \<lparr>pg_frame = ''map'', pg_x = 4, pg_y = 0, pg_yaw = 0\<rparr>, ts_tolerance = 1, ts_timeout = 9\<rparr>"

definition unit_sample :: twist_sample where
  "unit_sample = \<lparr>sa_time = Fin 0, sa_x = Fin 0, sa_y = Fin 0, sa_yaw = Fin 0\<rparr>"

definition unit_command :: motion where "unit_command = \<lparr>mn_linear = Fin 1, mn_angular = Fin 0\<rparr>"

definition still_quaternion :: quaternion where
  "still_quaternion = \<lparr>qu_x = Fin 0, qu_y = Fin 0, qu_z = Fin 0, qu_w = Fin 1\<rparr>"

lemma unit_floats: "libm_floats unit_libm" "limits_ok unit_limits"
  using mk_float_ok [of 4] mk_float_ok [of 0] mk_float_ok [of 1]
  by (simp_all add: libm_floats_def unit_libm_def limits_ok_def unit_limits_def)

text \<open>The run: a tick has planned a command and the worker has let it pass; the stop disables the stage and publishes its
  zeros; then the worker publishes the command.\<close>

definition unit_ready :: twist_system where
  "unit_ready = (twist_system_init (Some unit_limits) (Fin 1) (Fin 1))\<lparr>ws_tr := (twist_init (Some unit_limits) (Fin 1) (Fin 1))
     \<lparr>tt_sample := Some unit_sample, tt_generation := 1, tt_stage_generation := 1, tt_permit := Some (Permit 0),
      tt_stage := Some unit_stage, tt_state := plain_status ''running''\<rparr>, ws_starts := 1\<rparr>"

definition unit_checked :: twist_system where
  "unit_checked = unit_ready\<lparr>ws_planned := [(1, unit_command)], ws_checked := Some unit_command\<rparr>"

definition unit_stopping :: twist_system where
  "unit_stopping = unit_checked\<lparr>ws_tr := twist_disable (plain_status ''stopped'') (ws_tr unit_checked)\<rparr>"

definition unit_stopped :: twist_system where
  "unit_stopped = unit_stopping\<lparr>ws_tr := snd (twist_zeros (\<lambda>_. Ret ()) 0 TWIST_ZERO_BURST (ws_tr unit_stopping))\<rparr>"

definition unit_late :: twist_system where
  "unit_late = unit_stopped\<lparr>ws_tr := (ws_tr unit_stopped)\<lparr>tt_log := tt_log (ws_tr unit_stopped) @ [unit_command], tt_last := unit_command\<rparr>,
     ws_checked := None\<rparr>"

lemma unit_plan:
  "twist_plan unit_libm (Fin 0) (Fin 0) unit_stage (Some unit_sample) (ws_tr unit_ready) = Ret (PlanCommand unit_command)"
  by (simp add: twist_plan_def twist_stale_def unit_sample_def unit_libm_def unit_stage_def unit_ready_def twist_init_def
      twist_command_towards_def towards_def unit_limits_def zero_motion_def unit_command_def fsub_def fclamp_def fmax_def fmin_def
      py_sin_def py_cos_def py_pi_def motion_of_def twist_command_of_def finite_value_def py_isfinite_def float_eval)

lemma unit_ready_reach: "twist_reach unit_libm unit_limits 1 (Fin 1) unit_ready"
proof -
  let ?y = "twist_system_init (Some unit_limits) (Fin 1) (Fin 1)"
  let ?y1 = "?y\<lparr>ws_tr := (ws_tr ?y)\<lparr>tt_sample := Some unit_sample\<rparr>\<rparr>"
  have "sample_of unit_libm (Fin 0) (Fin 0) (Fin 0) still_quaternion = Ret unit_sample"
    by (simp add: sample_of_def yaw_from_quaternion_def unit_libm_def unit_sample_def odometry_sample_of_def finite_value_def py_isfinite_def Let_def)
  then have "twist_step unit_libm ?y ?y1"
    using twist_step.odometry [of unit_libm ?y "Fin 0" "Fin 0" "Fin 0" still_quaternion] by (simp add: twist_on_odometry_def)
  moreover have "twist_step unit_libm ?y1 unit_ready"
    using twist_step.start [of unit_libm ?y1 unit_stage "Permit 0"]
    by (simp add: start_waypoint_def unit_ready_def twist_system_init_def twist_init_def)
  ultimately show ?thesis by (meson rtranclp.rtrancl_into_rtrancl rtranclp.rtrancl_refl)
qed

lemma unit_stopping_reach: "twist_reach unit_libm unit_limits 1 (Fin 1) unit_stopping"
proof -
  let ?y1 = "unit_ready\<lparr>ws_tick := Some (unit_stage, Some unit_sample, 1)\<rparr>"
  let ?y2 = "unit_ready\<lparr>ws_planned := [(1, unit_command)]\<rparr>"
  have "twist_step unit_libm unit_ready ?y1"
    using twist_step.snapshot [of unit_ready unit_stage unit_libm] by (simp add: unit_ready_def)
  moreover have "twist_step unit_libm ?y1 ?y2"
    using twist_step.plan [of ?y1 unit_stage "Some unit_sample" 1 unit_libm "Fin 0" "Fin 0" unit_command] unit_plan
    by (simp add: unit_ready_def twist_system_init_def)
  moreover have "twist_step unit_libm ?y2 unit_checked"
    using twist_step.check [of ?y2 1 unit_command unit_libm] by (simp add: unit_ready_def unit_checked_def twist_system_init_def)
  moreover have "twist_step unit_libm unit_checked unit_stopping" unfolding unit_stopping_def by (rule twist_step.disable)
  ultimately show ?thesis using unit_ready_reach by (meson rtranclp.rtrancl_into_rtrancl)
qed

lemma unit_late_steps: "(twist_step unit_libm)\<^sup>*\<^sup>* unit_stopping unit_late"
proof -
  have "twist_step unit_libm unit_stopping unit_stopped" unfolding unit_stopped_def by (rule twist_step.zeros)
  moreover have "ws_checked unit_stopped = Some unit_command" by (simp add: unit_stopped_def unit_stopping_def unit_checked_def)
  from twist_step.publish [OF this, of "Ret ()" "Ret ()" "(ws_tr unit_stopped)\<lparr>tt_log := tt_log (ws_tr unit_stopped) @ [unit_command]\<rparr>" unit_libm]
  have "twist_step unit_libm unit_stopped unit_late" by (simp add: twist_publish_def unit_late_def)
  ultimately show ?thesis by (meson rtranclp.rtrancl_into_rtrancl rtranclp.rtrancl_refl)
qed

lemma unit_late_log: "tt_log (ws_tr unit_late) = [zero_motion, zero_motion, zero_motion, unit_command]"
  "tt_log (ws_tr unit_stopping) = []" "tt_stage (ws_tr unit_stopping) = None" "ws_starts unit_late = ws_starts unit_stopping"
  by (simp_all add: unit_late_def unit_stopped_def unit_stopping_def unit_checked_def unit_ready_def twist_disable_def twist_init_def
      TWIST_ZERO_BURST_def eval_nat_numeral twist_publish_def)

text \<open>The check of the generation and the publication are two steps: the motion command comes after the zeros of the stop.\<close>

theorem command_after_stop:
  "\<exists>y z. twist_reach unit_libm unit_limits 1 (Fin 1) y \<and> tt_stage (ws_tr y) = None \<and> (twist_step unit_libm)\<^sup>*\<^sup>* y z \<and> ws_starts z = ws_starts y \<and>
     tt_log (ws_tr z) = tt_log (ws_tr y) @ [zero_motion, zero_motion, zero_motion, unit_command] \<and> unit_command \<noteq> zero_motion"
proof (intro exI conjI)
  show "twist_reach unit_libm unit_limits 1 (Fin 1) unit_stopping" by (rule unit_stopping_reach)
  show "(twist_step unit_libm)\<^sup>*\<^sup>* unit_stopping unit_late" by (rule unit_late_steps)
  show "unit_command \<noteq> zero_motion" by (simp add: unit_command_def zero_motion_def)
qed (simp_all add: unit_late_log)

theorem twist_commands_within_limits_witness:
  "motion_within unit_limits unit_command \<and> tt_log (ws_tr unit_late) \<noteq> []"
proof -
  have "twist_reach unit_libm unit_limits 1 (Fin 1) unit_late" using unit_stopping_reach unit_late_steps by (rule rtranclp_trans)
  from twist_commands_within_limits [OF this unit_floats] show ?thesis by (simp add: unit_late_log)
qed


end
