(* ===== verification/AdapterFactory.thy ===== *)
theory AdapterFactory
  imports EmergencyChannel Profiles
begin

text \<open>
  The factory that owns a ROS context, node, executor, its thread and one adapter
  (\<^verbatim>\<open>agent_ros/adapters/factory.py\<close>): how the resources are acquired, given back on every path, and given back
  again after a cleanup that stopped half way. What the ROS calls answer are arguments;
  \<open>fa_acquired\<close> and \<open>fa_released\<close> are history variables.
\<close>

section \<open>State\<close>

text \<open>The resources, in the order in which they must be given back. \<open>Link\<close> is the node's registration with the
  executor.\<close>

datatype resource = Client | Executor | Thread | Link | Node | Context

record factory =
  fa_context :: bool
  fa_node :: bool
  fa_executor :: bool
  fa_thread :: bool
  fa_adapter :: bool
  fa_client :: bool
  fa_executor_shutdown :: bool
  fa_thread_joined :: bool
  fa_node_removed :: bool
  fa_node_destroyed :: bool
  fa_context_shutdown :: bool
  fa_closed :: bool
  fa_acquired :: "resource list"
  fa_released :: "resource list"

definition factory_init :: factory where
  "factory_init = \<lparr>fa_context = False, fa_node = False, fa_executor = False, fa_thread = False, fa_adapter = False, fa_client = False,
     fa_executor_shutdown = True, fa_thread_joined = True, fa_node_removed = True, fa_node_destroyed = True,
     fa_context_shutdown = True, fa_closed = False, fa_acquired = [], fa_released = []\<rparr>"

definition acquire :: "resource \<Rightarrow> factory \<Rightarrow> factory" where
  "acquire r s = s\<lparr>fa_acquired := fa_acquired s @ [r]\<rparr>"

definition owns_resources :: "factory \<Rightarrow> bool" where
  "owns_resources s = (fa_context s \<or> fa_node s \<or> fa_executor s \<or> fa_thread s \<or> fa_client s)"

definition reset_resources :: "factory \<Rightarrow> factory" where
  "reset_resources s = s\<lparr>fa_context := False, fa_node := False, fa_executor := False, fa_thread := False, fa_adapter := False,
     fa_client := False, fa_executor_shutdown := True, fa_thread_joined := True, fa_node_removed := True,
     fa_node_destroyed := True, fa_context_shutdown := True\<rparr>"

section \<open>Giving back\<close>

text \<open>What the calls of a cleanup answer: the client's close, the executor's shutdown (it may return nothing), whether the
  caller is the executor's thread, whether that has ended after the join, and the rest.\<close>

record close_answers =
  ca_client :: "bool result"
  ca_executor :: "bool option result"
  ca_current :: bool
  ca_joined :: bool
  ca_remove :: "unit result"
  ca_destroy :: "unit result"
  ca_context :: "unit result"

definition executor_answer :: "bool option result \<Rightarrow> bool result" where
  "executor_answer r = Ret (case r of Inl _ \<Rightarrow> False | Inr b \<Rightarrow> b \<noteq> Some False)"

definition release :: "resource \<Rightarrow> bool \<Rightarrow> bool result \<Rightarrow> (factory \<Rightarrow> factory) \<Rightarrow> bool result \<times> factory \<Rightarrow> bool result \<times> factory" where
  "release r held answer done x =
     (if fst x \<noteq> Ret True \<or> \<not> held then x
      else case answer of
        Inr True \<Rightarrow> (Ret True, (done (snd x))\<lparr>fa_released := fa_released (snd x) @ [r]\<rparr>)
      | _ \<Rightarrow> (answer, snd x))"

definition close_locked :: "close_answers \<Rightarrow> factory \<Rightarrow> bool result \<times> factory" where
  "close_locked a s =
     (release Context (fa_context s \<and> \<not> fa_context_shutdown s) (Ret (is_ret (ca_context a))) (\<lambda>s. s\<lparr>fa_context_shutdown := True\<rparr>)
     (release Node (fa_node s \<and> \<not> fa_node_destroyed s) (Ret (is_ret (ca_destroy a))) (\<lambda>s. s\<lparr>fa_node_destroyed := True\<rparr>)
     (release Link (fa_executor s \<and> fa_node s \<and> \<not> fa_node_removed s) (Ret (is_ret (ca_remove a))) (\<lambda>s. s\<lparr>fa_node_removed := True\<rparr>)
     (release Thread (fa_thread s \<and> \<not> fa_thread_joined s) (Ret (\<not> ca_current a \<and> ca_joined a)) (\<lambda>s. s\<lparr>fa_thread_joined := True\<rparr>)
     (release Executor (fa_executor s \<and> \<not> fa_executor_shutdown s) (executor_answer (ca_executor a)) (\<lambda>s. s\<lparr>fa_executor_shutdown := True\<rparr>)
     (release Client (fa_client s) (ca_client a) (\<lambda>s. s\<lparr>fa_client := False\<rparr>) (Ret True, s)))))))"

definition factory_close :: "bool \<Rightarrow> close_answers \<Rightarrow> factory \<Rightarrow> bool result \<times> factory" where
  "factory_close timeout_is_number a s =
     (if \<not> timeout_is_number then (Ret False, s)
      else if fa_closed s then (Ret True, s)
      else (case close_locked a s of
          (Inr True, s1) \<Rightarrow> (Ret True, s1\<lparr>fa_closed := True\<rparr>) | (r, s1) \<Rightarrow> (r, s1)))"

section \<open>Acquiring\<close>

datatype built = TwistBuilt | HospitalBuilt | Nav2Built

text \<open>Which adapter a profile is for, or that it is for none: \<^verbatim>\<open>_adapter_constructor\<close>.\<close>

definition topic_of :: "interface_ref option \<Rightarrow> string option" where
  "topic_of i = (case i of None \<Rightarrow> None | Some r \<Rightarrow> if_topic r)"

definition twist_command :: "interface_ref option \<Rightarrow> bool" where
  "twist_command i = (case i of None \<Rightarrow> False | Some r \<Rightarrow> if_type r = TWIST_TYPE \<and> if_topic r \<noteq> None)"

definition adapter_constructor :: "robot_profile \<Rightarrow> built result" where
  "adapter_constructor p =
     (let i = rp_interfaces p; kind = rp_adapter_kind p in
      if estop_topic (rp_safety p) = None \<or> estop_topic (rp_safety p) = Some [] then invalid_profile
      else if kind = ''twist'' then
        (if \<not> twist_command (ri_command i) \<or> topic_of (ri_odometry i) = None \<or> heartbeat_timeout (rp_safety p) = None
         then invalid_profile else Ret TwistBuilt)
      else if kind = ''hospital_delivery'' then
        (if rp_name p \<noteq> ''hospital-amr'' \<or> rp_mode p \<noteq> ''simulation'' \<or> rp_namespace p \<noteq> ''/hospital_amr''
         then invalid_profile else Ret HospitalBuilt)
      else if kind = ''nav2'' then
        (if (case ri_navigation i of None \<Rightarrow> True | Some r \<Rightarrow> if_action r = None) \<or> \<not> twist_command (ri_command i)
         then invalid_profile else Ret Nav2Built)
      else invalid_profile)"

record start_answers =
  sa_import :: bool
  sa_context :: "unit result"
  sa_node :: "unit result"
  sa_executor :: "unit result"
  sa_link :: "unit result"
  sa_spawns :: bool
  sa_entered :: bool

definition start_runtime :: "start_answers \<Rightarrow> factory \<Rightarrow> unit result \<times> factory" where
  "start_runtime a s =
     (if \<not> sa_import a then (invalid_profile, s)
      else case sa_context a of Inl e \<Rightarrow> (Raise e, s) | Inr _ \<Rightarrow>
      (let s1 = acquire Context (s\<lparr>fa_context := True, fa_context_shutdown := False\<rparr>) in
       case sa_node a of Inl e \<Rightarrow> (Raise e, s1) | Inr _ \<Rightarrow>
      (let s2 = acquire Node (s1\<lparr>fa_node := True, fa_node_destroyed := False\<rparr>) in
       case sa_executor a of Inl e \<Rightarrow> (Raise e, s2) | Inr _ \<Rightarrow>
      (let s3 = acquire Executor (s2\<lparr>fa_executor := True, fa_executor_shutdown := False\<rparr>) in
       case sa_link a of Inl e \<Rightarrow> (Raise e, s3) | Inr _ \<Rightarrow>
      (let s4 = acquire Link (s3\<lparr>fa_node_removed := False\<rparr>) in
       if \<not> sa_spawns a then (invalid_profile, s4)
       else (let s5 = acquire Thread (s4\<lparr>fa_thread := True, fa_thread_joined := False\<rparr>) in
         if \<not> sa_entered a then (invalid_profile, s5) else (Ret (), s5)))))))"

text \<open>The body of the call: the runtime, for a hospital profile the client, the adapter, and its binding to this owner.\<close>

record build_answers =
  ba_start :: start_answers
  ba_client :: "unit result"
  ba_adapter :: "unit result"
  ba_bound :: "unit result"

definition build_adapter :: "built \<Rightarrow> build_answers \<Rightarrow> factory \<Rightarrow> unit result \<times> factory" where
  "build_adapter kind a s =
     (case start_runtime (ba_start a) s of (Inl e, s1) \<Rightarrow> (Raise e, s1)
      | (Inr _, s1) \<Rightarrow>
          (let (r, s2) = (if kind = HospitalBuilt
               then (case ba_client a of Inl e \<Rightarrow> (Raise e, s1) | Inr _ \<Rightarrow> (Ret (), acquire Client (s1\<lparr>fa_client := True\<rparr>)))
               else (Ret (), s1))
           in case rbind r (\<lambda>_. rbind (ba_adapter a) (\<lambda>_. ba_bound a)) of
                Inl e \<Rightarrow> (Raise e, s2) | Inr _ \<Rightarrow> (Ret (), s2\<lparr>fa_adapter := True\<rparr>)))"

definition cleanup_failed :: "'a result" where "cleanup_failed = Raise (AdapterError ''CLEANUP_FAILED'')"

definition adapter_failure :: "py_exn \<Rightarrow> py_exn" where
  "adapter_failure e = (case e of AdapterError code \<Rightarrow> AdapterError code | _ \<Rightarrow> AdapterError ''PROFILE_INVALID'')"

text \<open>A cleanup inside the call, and then what follows it.\<close>

definition cleaned :: "close_answers \<Rightarrow> factory \<Rightarrow> (factory \<Rightarrow> 'a result \<times> factory) \<Rightarrow> 'a result \<times> factory" where
  "cleaned a s continue =
     (case close_locked a s of
        (Inl e, s1) \<Rightarrow> (Raise e, s1)
      | (Inr False, s1) \<Rightarrow> (cleanup_failed, s1)
      | (Inr True, s1) \<Rightarrow> continue (reset_resources s1))"

definition factory_build ::
  "robot_profile option \<Rightarrow> build_answers \<Rightarrow> close_answers \<Rightarrow> factory \<Rightarrow> built result \<times> factory" where
  "factory_build profile b c s =
     (case profile of None \<Rightarrow> (invalid_profile, s)
      | Some p \<Rightarrow>
          (case adapter_constructor p of Inl e \<Rightarrow> (Raise e, s)
           | Inr kind \<Rightarrow>
               (case build_adapter kind b s of
                  (Inr _, s1) \<Rightarrow> (Ret kind, s1)
                | (Inl e, s1) \<Rightarrow> cleaned c s1 (\<lambda>s2. (Raise (adapter_failure e), s2)))))"

definition factory_call ::
  "robot_profile option \<Rightarrow> close_answers \<Rightarrow> build_answers \<Rightarrow> close_answers \<Rightarrow> factory \<Rightarrow> built result \<times> factory" where
  "factory_call profile c0 b c s =
     (if fa_closed s \<or> fa_adapter s then (invalid_profile, s)
      else if owns_resources s then cleaned c0 s (factory_build profile b c)
      else factory_build profile b c s)"

section \<open>What is held\<close>

definition held :: "factory \<Rightarrow> resource \<Rightarrow> bool" where
  "held s r = (case r of Client \<Rightarrow> fa_client s | Executor \<Rightarrow> fa_executor s \<and> \<not> fa_executor_shutdown s
     | Thread \<Rightarrow> fa_thread s \<and> \<not> fa_thread_joined s | Link \<Rightarrow> fa_executor s \<and> fa_node s \<and> \<not> fa_node_removed s
     | Node \<Rightarrow> fa_node s \<and> \<not> fa_node_destroyed s | Context \<Rightarrow> fa_context s \<and> \<not> fa_context_shutdown s)"

fun release_rank :: "resource \<Rightarrow> nat" where
  "release_rank Client = 0" | "release_rank Executor = 1" | "release_rank Thread = 2" | "release_rank Link = 3"
| "release_rank Node = 4" | "release_rank Context = 5"

text \<open>Every acquisition is matched by one release, or the resource is held.\<close>

definition accounted :: "factory \<Rightarrow> bool" where
  "accounted s \<longleftrightarrow> (\<forall>r. count_list (fa_acquired s) r = count_list (fa_released s) r + of_bool (held s r))"

text \<open>A cleanup that has come as far as rank \<open>k\<close> from the state \<open>s\<close>.\<close>

definition cleanup_at :: "nat \<Rightarrow> factory \<Rightarrow> bool result \<times> factory \<Rightarrow> bool" where
  "cleanup_at k s x \<longleftrightarrow>
     accounted (snd x) \<and> fa_acquired (snd x) = fa_acquired s \<and> (\<forall>r. k \<le> release_rank r \<longrightarrow> held (snd x) r = held s r) \<and>
     (fst x = Ret True \<longrightarrow> (\<forall>r. release_rank r < k \<longrightarrow> \<not> held (snd x) r)) \<and>
     (\<exists>zs. fa_released (snd x) = fa_released s @ zs \<and> sorted_wrt (\<lambda>p q. release_rank p < release_rank q) zs \<and>
        (\<forall>z \<in> set zs. release_rank z < k \<and> (\<forall>r. release_rank r < release_rank z \<longrightarrow> \<not> held (snd x) r)))"

lemma held_frame [simp]:
  "held (t\<lparr>fa_released := z\<rparr>) = held t" "held (t\<lparr>fa_acquired := z\<rparr>) = held t" "held (t\<lparr>fa_adapter := b\<rparr>) = held t"
  "held (t\<lparr>fa_closed := b\<rparr>) = held t"
  by (auto simp: held_def fun_eq_iff split: resource.splits)

lemma release_rank_inj: "release_rank p = release_rank q \<Longrightarrow> p = q"
  by (cases p; cases q) simp_all

lemma count_list_snoc: "count_list (xs @ [a]) r = count_list xs r + of_bool (a = r)"
  by (induction xs) auto

lemma release_cleanup:
  assumes "cleanup_at k s x" "release_rank r = k" "h = held s r"
    "\<And>t. fa_acquired (done t) = fa_acquired t \<and> fa_released (done t) = fa_released t \<and> (\<forall>q. held (done t) q = (q \<noteq> r \<and> held t q))"
  shows "cleanup_at (Suc k) s (release r h answer done x)"
proof -
  obtain zs where zs: "fa_released (snd x) = fa_released s @ zs" "sorted_wrt (\<lambda>p q. release_rank p < release_rank q) zs"
    "\<forall>z \<in> set zs. release_rank z < k \<and> (\<forall>r. release_rank r < release_rank z \<longrightarrow> \<not> held (snd x) r)"
    using assms(1) unfolding cleanup_at_def by blast
  have rest: "accounted (snd x)" "fa_acquired (snd x) = fa_acquired s" "\<And>r. k \<le> release_rank r \<Longrightarrow> held (snd x) r = held s r"
    "\<And>q. fst x = Ret True \<Longrightarrow> release_rank q < k \<Longrightarrow> \<not> held (snd x) q"
    using assms(1) unfolding cleanup_at_def by blast+
  have eqr: "release_rank q = k \<longleftrightarrow> q = r" for q using assms(2) release_rank_inj by metis
  consider (same) q where "release r h answer done x = (q, snd x)" "q = Ret True \<longrightarrow> fst x = Ret True \<and> \<not> h"
    | (released) "release r h answer done x = (Ret True, (done (snd x))\<lparr>fa_released := fa_released (snd x) @ [r]\<rparr>)" "fst x = Ret True" "h"
  proof (cases "fst x = Ret True \<and> h")
    case True
    show thesis
    proof (cases "answer = Ret True")
      case True
      with \<open>fst x = Ret True \<and> h\<close> show thesis by (intro released) (simp_all add: release_def)
    next
      case False
      with \<open>fst x = Ret True \<and> h\<close> show thesis
        by (intro same [of answer]) (auto simp: release_def split: sum.splits bool.splits)
    qed
  next
    case False
    then show thesis by (intro same [of "fst x"]) (auto simp: release_def)
  qed
  then show ?thesis
  proof cases
    case (same q)
    have "\<not> held (snd x) p" if "q = Ret True" "release_rank p < Suc k" for p
      using same(2) that rest(3,4) assms(2,3) eqr [of p] by (cases "release_rank p = k") auto
    with zs rest show ?thesis unfolding cleanup_at_def same(1)
      by (intro conjI exI [of _ zs]) (auto simp: less_Suc_eq)
  next
    case released
    let ?t = "(done (snd x))\<lparr>fa_released := fa_released (snd x) @ [r]\<rparr>"
    have hd: "held ?t q = (q \<noteq> r \<and> held (snd x) q)" for q
      using assms(4) [of "snd x"] by simp
    have "held (snd x) r" using rest(3) [of r] assms(2,3) released(3) by simp
    then have "accounted ?t" using rest(1) assms(4) [of "snd x"] by (auto simp: accounted_def hd count_list_snoc)
    moreover have "\<not> held ?t p" if "release_rank p < Suc k" for p
      using that rest(4) [OF released(2), of p] eqr [of p] hd [of p] by (auto simp: less_Suc_eq)
    moreover have "sorted_wrt (\<lambda>p q. release_rank p < release_rank q) (zs @ [r])" using zs(2,3) assms(2) by (simp add: sorted_wrt_append)
    moreover have "fa_released ?t = fa_released s @ (zs @ [r])" using zs(1) by simp
    ultimately show ?thesis unfolding cleanup_at_def released(1)
      using rest(2,3) assms(4) [of "snd x"] zs(3) assms(2) hd
      by (intro conjI exI [of _ "zs @ [r]"]) (auto simp: less_Suc_eq)
  qed
qed

lemma close_locked_cleanup: "accounted s \<Longrightarrow> cleanup_at 6 s (close_locked a s)"
proof -
  assume "accounted s"
  then have "cleanup_at 0 s (Ret True, s)" by (simp add: cleanup_at_def)
  then have "cleanup_at (Suc (Suc (Suc (Suc (Suc (Suc 0)))))) s (close_locked a s)"
    unfolding close_locked_def
    by (intro release_cleanup) (auto simp: held_def split: resource.splits)
  then show ?thesis by (simp add: eval_nat_numeral)
qed

lemma close_locked_spec:
  assumes "close_locked a s = (r, s')" "accounted s"
  shows "accounted s'" "r = Ret True \<Longrightarrow> \<not> held s' q"
    "\<exists>zs. fa_released s' = fa_released s @ zs \<and> sorted_wrt (\<lambda>p q. release_rank p < release_rank q) zs \<and>
       (\<forall>z \<in> set zs. \<forall>q. release_rank q < release_rank z \<longrightarrow> \<not> held s' q)"
proof -
  note c = close_locked_cleanup [OF assms(2), of a, unfolded assms(1) cleanup_at_def]
  show "accounted s'" using c by simp
  have "release_rank q < 6" by (cases q) simp_all
  then show "r = Ret True \<Longrightarrow> \<not> held s' q" using c by simp
  show "\<exists>zs. fa_released s' = fa_released s @ zs \<and> sorted_wrt (\<lambda>p q. release_rank p < release_rank q) zs \<and>
       (\<forall>z \<in> set zs. \<forall>q. release_rank q < release_rank z \<longrightarrow> \<not> held s' q)" using c by fastforce
qed

section \<open>Runs\<close>

text \<open>Every use of a factory: calls and closes, with whatever answers.\<close>

inductive factory_step :: "factory \<Rightarrow> factory \<Rightarrow> bool" where
  call: "factory_step s (snd (factory_call profile c0 b c s))"
| close: "factory_step s (snd (factory_close t a s))"

text \<open>Without a context there is nothing else, and the flags are as at the start.\<close>

definition factory_inv :: "factory \<Rightarrow> bool" where
  "factory_inv s \<longleftrightarrow> accounted s \<and>
     (fa_context s \<or> \<not> fa_node s \<and> \<not> fa_executor s \<and> \<not> fa_thread s \<and> \<not> fa_client s \<and> fa_node_removed s)"

text \<open>A cleanup takes no resource and forgets none but the client.\<close>

definition winds_down :: "factory \<Rightarrow> factory \<Rightarrow> bool" where
  "winds_down s t \<longleftrightarrow> fa_context t = fa_context s \<and> fa_node t = fa_node s \<and> fa_executor t = fa_executor s \<and>
     fa_thread t = fa_thread s \<and> (fa_client t \<longrightarrow> fa_client s) \<and> (fa_node_removed s \<longrightarrow> fa_node_removed t) \<and>
     fa_closed t = fa_closed s"

lemma winds_down_release:
  assumes "winds_down s (snd x)" "\<And>t. winds_down t (done t)" shows "winds_down s (snd (release r h ans done x))"
  using assms(1) assms(2) [of "snd x"] by (simp add: release_def winds_down_def split: sum.splits bool.splits)

lemma close_locked_winds_down: "winds_down s (snd (close_locked a s))"
  unfolding close_locked_def by (rule winds_down_release | simp add: winds_down_def)+

lemma release_answers: "is_ret (fst x) \<Longrightarrow> is_ret ans \<Longrightarrow> is_ret (fst (release r h ans done x))"
  by (cases ans) (auto simp: release_def split: bool.splits)

lemma close_locked_answers: "is_ret (ca_client a) \<Longrightarrow> is_ret (fst (close_locked a s))"
  unfolding close_locked_def by (intro release_answers) (simp_all add: executor_answer_def)

lemma close_locked_raises: "close_locked a s = (Raise e, t) \<Longrightarrow> \<not> is_ret (ca_client a)"
  using close_locked_answers [of a s] by auto

lemma close_locked_inv: "factory_inv s \<Longrightarrow> factory_inv (snd (close_locked a s))"
  using close_locked_spec(1) [of a s] close_locked_winds_down [of s a]
  by (cases "close_locked a s") (auto simp: factory_inv_def winds_down_def)

lemma closed_reset:
  assumes "close_locked a s = (Ret True, s')" "accounted s"
  shows "factory_inv (reset_resources s') \<and> \<not> fa_context (reset_resources s')"
proof -
  have "\<not> held (reset_resources s') q" for q by (cases q) (simp_all add: held_def reset_resources_def)
  with close_locked_spec [OF assms] show ?thesis by (auto simp: factory_inv_def accounted_def reset_resources_def)
qed

lemma start_runtime_inv:
  assumes "factory_inv s" "\<not> fa_context s" shows "factory_inv (snd (start_runtime a s))"
proof -
  have fresh: "\<not> fa_node s" "\<not> fa_executor s" "\<not> fa_thread s" "\<not> fa_client s" "fa_node_removed s"
    and acc: "\<And>r. count_list (fa_acquired s) r = count_list (fa_released s) r + of_bool (held s r)"
    using assms by (auto simp: factory_inv_def accounted_def)
  have acc: "count_list (fa_acquired s) r = count_list (fa_released s) r" for r
    using acc [of r] fresh assms(2) by (cases r) (simp_all add: held_def)
  have "accounted (snd (start_runtime a s))" unfolding accounted_def
  proof
    fix r show "count_list (fa_acquired (snd (start_runtime a s))) r = count_list (fa_released (snd (start_runtime a s))) r +
        of_bool (held (snd (start_runtime a s)) r)"
      using fresh assms(2) acc [of r]
      by (cases r) (auto simp: start_runtime_def acquire_def held_def count_list_snoc Let_def split: sum.splits)
  qed
  moreover have "factory_inv s" by (rule assms(1))
  ultimately show ?thesis using fresh by (auto simp: factory_inv_def start_runtime_def acquire_def Let_def split: sum.splits)
qed

lemma start_runtime_frame:
  "start_runtime a s = (Ret (), s') \<Longrightarrow> fa_context s' \<and> fa_client s' = fa_client s"
  by (auto simp: start_runtime_def acquire_def Let_def split: sum.splits if_splits)

lemma build_adapter_inv:
  assumes "factory_inv s" "\<not> fa_context s" shows "factory_inv (snd (build_adapter k a s))"
proof (cases "start_runtime (ba_start a) s")
  case (Pair r s1)
  have inv: "factory_inv s1" using start_runtime_inv [OF assms, of "ba_start a"] Pair by simp
  have "factory_inv ((acquire Client (s1\<lparr>fa_client := True\<rparr>))\<lparr>fa_adapter := b\<rparr>)" "factory_inv (s1\<lparr>fa_adapter := b\<rparr>)"
    if "r = Ret ()" for b
  proof -
    have c: "fa_context s1" "\<not> fa_client s1" using start_runtime_frame Pair that assms by (auto simp: factory_inv_def)
    have "held ((acquire Client (s1\<lparr>fa_client := True\<rparr>))\<lparr>fa_adapter := b\<rparr>) q = (q = Client \<or> held s1 q)" for q
      by (cases q) (simp_all add: held_def acquire_def)
    moreover have "\<not> held s1 Client" using c(2) by (simp add: held_def)
    ultimately show "factory_inv ((acquire Client (s1\<lparr>fa_client := True\<rparr>))\<lparr>fa_adapter := b\<rparr>)"
      using inv c(1) by (auto simp: factory_inv_def accounted_def acquire_def count_list_snoc)
    show "factory_inv (s1\<lparr>fa_adapter := b\<rparr>)" using inv by (simp add: factory_inv_def accounted_def)
  qed
  moreover have "factory_inv (acquire Client (s1\<lparr>fa_client := True\<rparr>)) = factory_inv ((acquire Client (s1\<lparr>fa_client := True\<rparr>))\<lparr>fa_adapter := fa_adapter s1\<rparr>)"
    by (simp add: acquire_def factory_inv_def accounted_def)
  ultimately show ?thesis using Pair inv by (auto simp: build_adapter_def Let_def split: sum.splits)
qed

lemma factory_inv_init: "factory_inv factory_init"
  by (simp add: factory_inv_def accounted_def factory_init_def held_def split: resource.splits)

lemma factory_build_inv:
  assumes "factory_inv s" "\<not> fa_context s"
  shows "factory_inv (snd (factory_build p b c s)) \<and>
    (factory_build p b c s = (Raise e, s') \<longrightarrow> e = AdapterError ''CLEANUP_FAILED'' \<or> \<not> is_ret (ca_client c) \<or> (\<forall>r. \<not> held s' r))"
proof -
  have none: "\<not> held s r" for r using assms by (cases r) (auto simp: factory_inv_def held_def)
  have i: "factory_inv (snd (build_adapter k b s))" for k by (rule build_adapter_inv [OF assms])
  have r: "\<not> held (reset_resources t) r" for t r by (cases r) (simp_all add: held_def reset_resources_def)
  show ?thesis
  proof (cases p)
    case None
    then show ?thesis using assms none by (auto simp: factory_build_def)
  next
    case (Some q)
    show ?thesis
    proof (cases "adapter_constructor q")
      case (Inl err)
      then show ?thesis using Some assms none by (auto simp: factory_build_def)
    next
      case (Inr k)
      obtain res t where b: "build_adapter k b s = (res, t)" by force
      obtain cr t1 where cl: "close_locked c t = (cr, t1)" by force
      have t: "factory_inv t" "factory_inv t1" using i [of k] b close_locked_inv [of t c] cl by simp_all
      show ?thesis
      proof (cases res)
        case (Inr u)
        then show ?thesis using \<open>p = Some q\<close> \<open>adapter_constructor q = Inr k\<close> b t(1) by (simp add: factory_build_def)
      next
        case (Inl err)
        have "cr = Ret True \<Longrightarrow> factory_inv (reset_resources t1)"
          using closed_reset [of c t t1] cl t(1) unfolding factory_inv_def by blast
        then show ?thesis using Inl \<open>p = Some q\<close> \<open>adapter_constructor q = Inr k\<close> b t cl r close_locked_raises [of c t]
          by (auto simp: factory_build_def cleaned_def cleanup_failed_def split: sum.splits bool.splits)
      qed
    qed
  qed
qed

text \<open>Only a close closes.\<close>

lemma start_runtime_closed: "fa_closed (snd (start_runtime a s)) = fa_closed s"
  by (simp add: start_runtime_def acquire_def Let_def split: sum.splits)

lemma build_adapter_closed: "fa_closed (snd (build_adapter k b s)) = fa_closed s"
  using start_runtime_closed [of "ba_start b" s]
  by (cases "start_runtime (ba_start b) s") (auto simp: build_adapter_def acquire_def Let_def split: sum.splits)

lemma cleaned_closed:
  assumes "\<And>t. fa_closed (snd (continue t)) = fa_closed t" shows "fa_closed (snd (cleaned c s continue)) = fa_closed s"
  using close_locked_winds_down [of s c] assms [of "reset_resources (snd (close_locked c s))"]
  by (cases "close_locked c s") (simp add: cleaned_def cleanup_failed_def winds_down_def reset_resources_def split: sum.splits bool.splits)

lemma factory_build_closed: "fa_closed (snd (factory_build p b c s)) = fa_closed s"
proof -
  have "fa_closed (snd (cleaned c t (\<lambda>s2. (Raise e, s2)))) = fa_closed s" if "build_adapter k b s = (r, t)" for k e r t
    using that build_adapter_closed [of k b s] by (simp add: cleaned_closed)
  moreover have "fa_closed t = fa_closed s" if "build_adapter k b s = (r, t)" for k r t
    using that build_adapter_closed [of k b s] by simp
  ultimately show ?thesis by (auto simp: factory_build_def split: option.splits sum.splits prod.splits)
qed

lemma factory_call_closed: "fa_closed (snd (factory_call p c0 b c s)) = fa_closed s"
  using cleaned_closed [of "factory_build p b c" c0 s] factory_build_closed by (simp add: factory_call_def)

definition closed_inv :: "factory \<Rightarrow> bool" where
  "closed_inv s \<longleftrightarrow> factory_inv s \<and> (fa_closed s \<longrightarrow> (\<forall>r. \<not> held s r))"

lemma factory_call_inv:
  assumes "factory_inv s"
  shows "factory_inv (snd (factory_call p c0 b c s)) \<and>
    (factory_call p c0 b c s = (Raise e, s') \<longrightarrow> e = AdapterError ''CLEANUP_FAILED'' \<or> \<not> is_ret (ca_client c) \<or> \<not> is_ret (ca_client c0) \<or>
      s' = s \<or> (\<forall>r. \<not> held s' r))"
proof -
  consider (refused) "fa_closed s \<or> fa_adapter s" | (again) "\<not> fa_closed s" "\<not> fa_adapter s" "owns_resources s"
    | (fresh) "\<not> fa_closed s" "\<not> fa_adapter s" "\<not> owns_resources s" by blast
  then show ?thesis
  proof cases
    case refused
    then show ?thesis using assms by (auto simp: factory_call_def)
  next
    case fresh
    then have "\<not> fa_context s" by (simp add: owns_resources_def)
    from factory_build_inv [OF assms this, of p b c e s'] fresh show ?thesis by (auto simp: factory_call_def)
  next
    case again
    obtain r t where cl: "close_locked c0 s = (r, t)" by force
    have t: "factory_inv t" using close_locked_inv [OF assms, of c0] cl by simp
    show ?thesis
    proof (cases "r = Ret True")
      case True
      with closed_reset [of c0 s t] cl assms have reset: "factory_inv (reset_resources t)" "\<not> fa_context (reset_resources t)"
        by (auto simp: factory_inv_def)
      from factory_build_inv [OF reset, of p b c e s'] True cl again show ?thesis by (auto simp: factory_call_def cleaned_def)
    next
      case False
      then show ?thesis using t cl again close_locked_raises [of c0 s]
        by (auto simp: factory_call_def cleaned_def cleanup_failed_def split: sum.splits bool.splits)
    qed
  qed
qed

lemma factory_close_cases:
  assumes "factory_close t a s = (r, s')"
  obtains (same) "s' = s" "r = Ret True \<longrightarrow> fa_closed s"
  | (cleanup) s1 where "close_locked a s = (r, s1)" "\<not> fa_closed s" "r = Ret True \<Longrightarrow> s' = s1\<lparr>fa_closed := True\<rparr>" "r \<noteq> Ret True \<Longrightarrow> s' = s1"
proof (cases "t \<and> \<not> fa_closed s")
  case True
  obtain q s1 where c: "close_locked a s = (q, s1)" by force
  with assms True have "r = q \<and> s' = (if q = Ret True then s1\<lparr>fa_closed := True\<rparr> else s1)"
    by (cases q) (auto simp: factory_close_def split: bool.splits)
  with c True cleanup show thesis by auto
next
  case False
  with assms same show thesis by (auto simp: factory_close_def split: if_splits)
qed

lemma factory_inv_closed_frame [simp]: "factory_inv (s\<lparr>fa_closed := b\<rparr>) = factory_inv s"
  by (simp add: factory_inv_def accounted_def)

lemma factory_close_inv: "closed_inv s \<Longrightarrow> closed_inv (snd (factory_close t a s))"
proof -
  assume inv: "closed_inv s"
  obtain r s' where c: "factory_close t a s = (r, s')" by force
  then show ?thesis
  proof (cases rule: factory_close_cases)
    case same
    then show ?thesis using inv c by simp
  next
    case (cleanup s1)
    have i: "factory_inv s1" "accounted s" using inv cleanup(1) close_locked_inv [of s a] by (simp_all add: closed_inv_def factory_inv_def)
    have "fa_closed s1 = fa_closed s" using close_locked_winds_down [of s a] cleanup(1) by (simp add: winds_down_def)
    with i cleanup close_locked_spec(2) [OF cleanup(1) i(2)] c show ?thesis
      by (cases "r = Ret True") (auto simp: closed_inv_def)
  qed
qed

lemma factory_step_inv: "factory_step s t \<Longrightarrow> closed_inv s \<Longrightarrow> closed_inv t"
proof (induction rule: factory_step.induct)
  case (call s profile c0 b c)
  have "factory_call profile c0 b c s = (invalid_profile, s)" if "fa_closed s" using that by (simp add: factory_call_def)
  with call factory_call_inv [of s profile c0 b c] factory_call_closed [of profile c0 b c s] show ?case
    by (cases "fa_closed s") (auto simp: closed_inv_def)
qed (rule factory_close_inv)

interpretation adapter_factory: machine factory_step closed_inv
  by unfold_locales (rule factory_step_inv)

lemma closed_inv_init: "closed_inv factory_init"
  using factory_inv_init by (simp add: closed_inv_def factory_init_def)

section \<open>Properties\<close>

text \<open>C14: The factory leaks nothing and gives nothing back twice: in every run of calls and closes, each resource has been released
  exactly as often as acquired, but for one that is still held; a close that succeeds and a call that fails leave nothing
  held, unless the call reports a failed cleanup or the factory was not touched; and a close gives back
  in order, nothing while something it depends on is still held.\<close>
theorem factory_leaks_nothing:
  assumes "factory_step\<^sup>*\<^sup>* factory_init s" "is_ret (ca_client c0)" "is_ret (ca_client c)"
    "factory_close timeout a s = (r, s')" "factory_call profile c0 b c s = (q, s'')"
  shows "(\<forall>x. count_list (fa_acquired s) x = count_list (fa_released s) x + of_bool (held s x)) \<and>
    (r = Ret True \<longrightarrow> (\<forall>x. \<not> held s' x)) \<and>
    (\<forall>e. q = Raise e \<longrightarrow> e = AdapterError ''CLEANUP_FAILED'' \<or> s'' = s \<or> (\<forall>x. \<not> held s'' x)) \<and>
    (\<exists>xs. fa_released s' = fa_released s @ xs \<and> sorted_wrt (\<lambda>x y. release_rank x < release_rank y) xs \<and>
       (\<forall>x \<in> set xs. \<forall>y. release_rank y < release_rank x \<longrightarrow> \<not> held s' y))"
proof -
  have inv: "closed_inv s" by (rule adapter_factory.inv_steps [OF assms(1) closed_inv_init])
  then have acc: "accounted s" by (simp add: closed_inv_def factory_inv_def)
  have "(r = Ret True \<longrightarrow> (\<forall>x. \<not> held s' x)) \<and> (\<exists>xs. fa_released s' = fa_released s @ xs \<and> sorted_wrt (\<lambda>x y. release_rank x < release_rank y) xs \<and>
       (\<forall>x \<in> set xs. \<forall>y. release_rank y < release_rank x \<longrightarrow> \<not> held s' y))"
    using assms(4)
  proof (cases rule: factory_close_cases)
    case same
    then show ?thesis using inv by (auto simp: closed_inv_def intro!: exI [of _ "[]"])
  next
    case (cleanup s1)
    from close_locked_spec [OF cleanup(1) acc] cleanup(3,4) show ?thesis by (cases "r = Ret True") auto
  qed
  moreover have "e = AdapterError ''CLEANUP_FAILED'' \<or> s'' = s \<or> (\<forall>x. \<not> held s'' x)" if "q = Raise e" for e
    using factory_call_inv [of s profile c0 b c e s''] inv assms(2,3,5) that by (auto simp: closed_inv_def)
  ultimately show ?thesis using acc unfolding accounted_def by blast
qed

text \<open>A runtime whose thread does not come up in time, then a cleanup in which the thread does not end, and a later close.\<close>

definition calm_close :: close_answers where
  "calm_close = \<lparr>ca_client = Ret True, ca_executor = Ret None, ca_current = False, ca_joined = True, ca_remove = Ret (), ca_destroy = Ret (),
     ca_context = Ret ()\<rparr>"

definition stuck_close :: close_answers where "stuck_close = calm_close\<lparr>ca_joined := False\<rparr>"

definition late_start :: build_answers where
  "late_start = \<lparr>ba_start = \<lparr>sa_import = True, sa_context = Ret (), sa_node = Ret (), sa_executor = Ret (), sa_link = Ret (),
     sa_spawns = True, sa_entered = False\<rparr>, ba_client = Ret (), ba_adapter = Ret (), ba_bound = Ret ()\<rparr>"

definition ward_profile :: robot_profile where
  "ward_profile = \<lparr>rp_name = ''hospital-amr'', rp_mode = ''simulation'', rp_namespace = ''/hospital_amr'', rp_frames = [],
     rp_adapter_kind = ''hospital_delivery'', rp_interfaces = \<lparr>ri_command = None, ri_odometry = None, ri_navigation = None, ri_trajectory = None\<rparr>,
     rp_limits = \<lparr>max_linear_velocity = 1, max_angular_velocity = 1, max_linear_acceleration = 1, max_angular_acceleration = 1\<rparr>,
     rp_safety = \<lparr>heartbeat_timeout = Some 1, estop_topic = Some ''/estop''\<rparr>, rp_observation_sources = []\<rparr>"

definition half_closed :: factory where
  "half_closed = snd (factory_call (Some ward_profile) calm_close late_start stuck_close factory_init)"

lemmas half_closed_eval = half_closed_def factory_call_def factory_init_def owns_resources_def factory_build_def adapter_constructor_def
  ward_profile_def build_adapter_def late_start_def start_runtime_def acquire_def cleaned_def close_locked_def release_def stuck_close_def
  calm_close_def executor_answer_def cleanup_failed_def

lemma half_closed_eq:
  "fa_acquired half_closed = [Context, Node, Executor, Link, Thread]" "fa_released half_closed = [Executor]" "fa_closed half_closed = False"
  "held half_closed = (\<lambda>r. r \<in> {Context, Node, Link, Thread})"
  by (simp_all add: half_closed_eval Let_def held_def fun_eq_iff split: resource.split)

theorem factory_leaks_nothing_witness:
  "\<exists>s'. factory_close True calm_close half_closed = (Ret True, s') \<and> (\<forall>x. \<not> held s' x) \<and>
     fa_released s' = [Executor, Thread, Link, Node, Context]"
proof -
  have run: "factory_step\<^sup>*\<^sup>* factory_init half_closed" unfolding half_closed_def by (rule r_into_rtranclp) (rule factory_step.call)
  obtain r s' where c: "factory_close True calm_close half_closed = (r, s')" by force
  obtain q s'' where f: "factory_call (Some ward_profile) calm_close late_start calm_close half_closed = (q, s'')" by force
  have e: "r = Ret True" "fa_released s' = [Executor, Thread, Link, Node, Context]"
    using c by (auto simp: factory_close_def half_closed_eval Let_def)
  have "is_ret (ca_client calm_close)" by (simp add: calm_close_def)
  from factory_leaks_nothing [OF run this this c f] e c show ?thesis by auto
qed

end
