(* ===== verification/HospitalTransport.thy ===== *)
theory HospitalTransport
  imports EmergencyChannel Adapter
begin

text \<open>
  The ROS side of the hospital adapters (\<^verbatim>\<open>agent_ros/adapters/hospital.py\<close>): the simulated lifecycle that takes
  fixed actions, and the transport that calls the mission node's services and keeps its latest status. The decoding of
  a message and what a service answers are arguments; \<open>ht_messages\<close> is a history variable: the messages received, with
  the time of their receipt.
\<close>

section \<open>The simulated lifecycle\<close>

datatype hospital_action = PROBE | VALIDATE | START | STATUS | CANCEL | STOP | OBSERVE

definition SIMULATION_COMMANDS_MAX :: nat where "SIMULATION_COMMANDS_MAX = 64"

record simulation =
  hs_commands :: "hospital_action list"
  hs_state :: string

definition simulation_init :: simulation where
  "simulation_init = \<lparr>hs_commands = [], hs_state = ''idle''\<rparr>"

abbreviation available_state :: "string \<Rightarrow> pydict" where
  "available_state st \<equiv> [(VStr ''available'', VBool True), (VStr ''state'', VStr st)]"

abbreviation internal_error :: "'a result" where "internal_error \<equiv> Raise (AdapterError ''INTERNAL_ERROR'')"

text \<open>What is given to \<^verbatim>\<open>dispatch\<close> may be no action at all (\<open>None\<close>).\<close>

definition simulation_dispatch :: "hospital_action option \<Rightarrow> simulation \<Rightarrow> pydict result \<times> simulation" where
  "simulation_dispatch action s =
     (case action of None \<Rightarrow> (invalid_profile, s)
      | Some a \<Rightarrow>
          if length (hs_commands s) = SIMULATION_COMMANDS_MAX then (internal_error, s)
          else (let st = (case a of START \<Rightarrow> ''running'' | CANCEL \<Rightarrow> ''cancelled'' | STOP \<Rightarrow> ''stopped'' | _ \<Rightarrow> hs_state s)
                in (Ret (available_state st), s\<lparr>hs_commands := hs_commands s @ [a], hs_state := st\<rparr>)))"

definition simulation_start_nowait :: "bool \<Rightarrow> simulation \<Rightarrow> pydict result \<times> simulation" where
  "simulation_start_nowait lock_free s =
     (if \<not> lock_free then (internal_error, s)
      else if length (hs_commands s) = SIMULATION_COMMANDS_MAX then (internal_error, s)
      else (Ret (available_state ''running''), s\<lparr>hs_commands := hs_commands s @ [START], hs_state := ''running''\<rparr>))"

text \<open>\<^verbatim>\<open>HospitalDeliveryAdapter\<close>: the status of an action is the state its result names.\<close>

definition status_of_result :: "pydict \<Rightarrow> adapter_status result" where
  "status_of_result d =
     (if \<not> nonempty_str (vget d ''state'') then internal_error
      else Ret \<lparr>as_state = str_val (vget d ''state''), as_code = None, as_values = d\<rparr>)"

definition delivery_invoke :: "hospital_action \<Rightarrow> simulation \<Rightarrow> pydict result \<times> simulation" where
  "delivery_invoke a = simulation_dispatch (Some a)"

definition delivery_status_from :: "hospital_action \<Rightarrow> simulation \<Rightarrow> adapter_status result \<times> simulation" where
  "delivery_status_from a s = (let (r, s1) = delivery_invoke a s in (rbind r status_of_result, s1))"

definition delivery_start :: "bool \<Rightarrow> bool \<Rightarrow> permit \<Rightarrow> bool \<Rightarrow> bool \<Rightarrow> 'v sequencer \<Rightarrow> simulation \<Rightarrow>
    adapter_status result \<times> 'v sequencer \<times> simulation" where
  "delivery_start is_start bound p admitted lock_free q s =
     (if \<not> is_start then (invalid_profile, q, s)
      else if \<not> bound then (invalid_profile, q, s)
      else (case admit p q of
          (Inl e, q1) \<Rightarrow> (adapter_rejection (Raise e), q1, s)
        | (Inr _, q1) \<Rightarrow>
            (let (r, s1) = simulation_start_nowait lock_free s
             in (rbind r status_of_result, q1\<lparr>sq_owned := Suc (sq_owned q1)\<rparr>, s1))))"

definition delivery_observe :: "string \<Rightarrow> pyfloat \<Rightarrow> simulation \<Rightarrow> observation result \<times> simulation" where
  "delivery_observe source now s =
     (if source \<noteq> ''hospital_state'' then (invalid_profile, s)
      else (let (r, s1) = delivery_invoke OBSERVE s
            in (rbind r (\<lambda>d. Ret \<lparr>ob_source = source, ob_timestamp = VFloat now, ob_values = d\<rparr>), s1)))"

section \<open>The transport\<close>

text \<open>The data of a status message: no text, text that does not decode, or whose decoding raises something
  else, or a value.\<close>

datatype message = NoText | Undecodable | DecodeRaises py_exn | Decoded pyval

record hospital_transport =
  ht_status :: "pydict option"
  ht_status_error :: bool
  ht_received_at :: "pyfloat option"
  ht_closed :: bool
  ht_messages :: "(pyfloat \<times> message) list"

definition transport_init :: hospital_transport where
  "transport_init = \<lparr>ht_status = None, ht_status_error = False, ht_received_at = None, ht_closed = False, ht_messages = []\<rparr>"

definition valid_status :: "message \<Rightarrow> pydict option" where
  "valid_status m =
     (case m of
        Decoded (VDict d) \<Rightarrow> if list_all is_str (dkeys d) \<and> nonempty_str (vget d ''state'') then Some d else None
      | _ \<Rightarrow> None)"

definition receive_status :: "pyfloat \<Rightarrow> message \<Rightarrow> hospital_transport \<Rightarrow> unit result \<times> hospital_transport" where
  "receive_status now m s =
     (case m of DecodeRaises e \<Rightarrow> (Raise e, s)
      | _ \<Rightarrow>
          if ht_closed s then (Ret (), s)
          else (let s1 = s\<lparr>ht_messages := ht_messages s @ [(now, m)]\<rparr>
                in case valid_status m of
                     None \<Rightarrow> (Ret (), s1\<lparr>ht_status_error := True\<rparr>)
                   | Some d \<Rightarrow> (Ret (), s1\<lparr>ht_status_error := False, ht_status := Some d, ht_received_at := Some now\<rparr>)))"

definition STATUS_FRESHNESS :: pyfloat where "STATUS_FRESHNESS = Fin 1"

text \<open>One turn of the loop in \<^verbatim>\<open>status\<close>, under the lock: an answer, or a wait. The clock is read up to twice.\<close>

definition status_turn :: "pyfloat \<Rightarrow> pyfloat \<Rightarrow> pyfloat \<Rightarrow> hospital_transport \<Rightarrow> pydict result option" where
  "status_turn now1 now2 deadline s =
     (if ht_closed s \<or> ht_status_error s then Some internal_error
      else case (ht_status s, ht_received_at s) of
        (Some d, Some received) \<Rightarrow>
          if fle (fsub now1 received) STATUS_FRESHNESS then Some (Ret d)
          else if fle (fsub deadline now2) (Fin 0) then Some (Raise (AdapterError ''TIMEOUT'')) else None
      | _ \<Rightarrow> if fle (fsub deadline now2) (Fin 0) then Some (Raise (AdapterError ''TIMEOUT'')) else None)"

text \<open>The loop, over the moments at which it looks: the two clock readings, and the transport as the callbacks have left it.\<close>

fun status_loop :: "pyfloat \<Rightarrow> (pyfloat \<times> pyfloat \<times> hospital_transport) list \<Rightarrow> pydict result option" where
  "status_loop deadline [] = None"
| "status_loop deadline ((now1, now2, s) # looks) =
     (case status_turn now1 now2 deadline s of Some r \<Rightarrow> Some r | None \<Rightarrow> status_loop deadline looks)"

text \<open>\<^verbatim>\<open>close\<close>: marks the transport closed, then destroys what it owns; the answers of the node's destroy calls are given,
  where it has them (\<^verbatim>\<open>is not False\<close>, or an exception).\<close>

definition transport_close :: "bool result list \<Rightarrow> hospital_transport \<Rightarrow> bool \<times> hospital_transport" where
  "transport_close answers s =
     (if ht_closed s then (True, s) else (list_all (\<lambda>r. r = Ret True) answers, s\<lparr>ht_closed := True\<rparr>))"

text \<open>\<^verbatim>\<open>trigger\<close>: which actions have a service, and what comes of the call.\<close>

datatype trigger_answer = NoService | CallRaises py_exn | NoAnswer | Response bool pyval

definition trigger :: "hospital_action \<Rightarrow> trigger_answer \<Rightarrow> hospital_transport \<Rightarrow> pydict result" where
  "trigger a answer s =
     (if a \<notin> {START, CANCEL, STOP} \<or> ht_closed s then invalid_profile
      else case answer of
        NoService \<Rightarrow> Raise (AdapterError ''TIMEOUT'')
      | CallRaises (AdapterError code) \<Rightarrow> Raise (AdapterError code)
      | CallRaises _ \<Rightarrow> Raise (AdapterError ''UNSAFE_STATE'')
      | NoAnswer \<Rightarrow> Raise (AdapterError ''TIMEOUT'')
      | Response success message \<Rightarrow>
          if \<not> success then Raise (AdapterError ''UNSAFE_STATE'')
          else Ret [(VStr ''ok'', VBool True), (VStr ''success'', VBool True),
                    (VStr ''message'', if is_str message then message else VStr [])])"

section \<open>The latest status\<close>

inductive transport_step :: "hospital_transport \<Rightarrow> hospital_transport \<Rightarrow> bool" where
  message: "transport_step s (snd (receive_status now m s))"
| close: "transport_step s (snd (transport_close answers s))"

text \<open>While there is no error, the stored status is the last message, whole, with the time of its receipt; and nothing is
  stored before the first.\<close>

definition transport_inv :: "hospital_transport \<Rightarrow> bool" where
  "transport_inv s \<longleftrightarrow>
     (ht_messages s = [] \<longrightarrow> ht_status s = None \<and> \<not> ht_status_error s) \<and>
     (ht_messages s \<noteq> [] \<longrightarrow>
        (let (t, m) = last (ht_messages s) in
         ht_status_error s = (valid_status m = None) \<and>
         (\<forall>d. valid_status m = Some d \<longrightarrow> ht_status s = Some d \<and> ht_received_at s = Some t)))"

lemma transport_inv_init: "transport_inv transport_init"
  by (simp add: transport_inv_def transport_init_def)

lemma transport_step_inv: "transport_step s t \<Longrightarrow> transport_inv s \<Longrightarrow> transport_inv t"
proof (induction rule: transport_step.induct)
  case (message s now m)
  then show ?case
    by (cases m; cases "valid_status m"; cases "ht_closed s") (auto simp: receive_status_def transport_inv_def Let_def)
next
  case (close s answers)
  then show ?case by (simp add: transport_close_def transport_inv_def)
qed

interpretation status_feed: machine transport_step transport_inv
  by unfold_locales (rule transport_step_inv)

lemma status_turn_Ret:
  "status_turn now1 now2 deadline s = Some (Ret d) \<Longrightarrow> \<not> ht_closed s \<and> \<not> ht_status_error s \<and> ht_status s = Some d \<and>
    (\<exists>t. ht_received_at s = Some t \<and> fle (fsub now1 t) STATUS_FRESHNESS)"
  by (auto simp: status_turn_def split: if_splits option.splits)

lemma status_loop_turn:
  "status_loop deadline looks = Some r \<Longrightarrow> \<exists>(now1, now2, s) \<in> set looks. status_turn now1 now2 deadline s = Some r"
  by (induction deadline looks rule: status_loop.induct) (auto split: option.splits)

text \<open>A status is the mission's latest word: what \<^verbatim>\<open>status\<close> returns is exactly the last message the transport has received when it
  looks, a document with string keys and a state, received at most a second before; a last message that is not valid is never
  papered over by an older one.\<close>
theorem status_is_latest_and_fresh:
  assumes "status_loop deadline looks = Some (Ret d)"
    "\<forall>(now1, now2, s) \<in> set looks. transport_step\<^sup>*\<^sup>* transport_init s"
  shows "\<exists>(now1, now2, s) \<in> set looks. \<exists>t m. ht_messages s \<noteq> [] \<and> last (ht_messages s) = (t, m) \<and> valid_status m = Some d \<and>
    fle (fsub now1 t) STATUS_FRESHNESS \<and> \<not> ht_closed s"
proof -
  obtain now1 now2 s where s: "(now1, now2, s) \<in> set looks" "status_turn now1 now2 deadline s = Some (Ret d)"
    using status_loop_turn [OF assms(1)] by blast
  have inv: "transport_inv s" using status_feed.inv_steps transport_inv_init assms(2) s(1) by blast
  note r = status_turn_Ret [OF s(2)]
  have ne: "ht_messages s \<noteq> []" using inv r by (auto simp: transport_inv_def)
  obtain t m where l: "last (ht_messages s) = (t, m)" by force
  have "valid_status m = Some d \<and> fle (fsub now1 t) STATUS_FRESHNESS"
    using inv ne l r by (cases "valid_status m") (auto simp: transport_inv_def)
  with s(1) ne l r show ?thesis by blast
qed

definition demo_status :: pydict where "demo_status = [(VStr ''state'', VStr ''RUNNING'')]"

definition demo_transport :: hospital_transport where
  "demo_transport = snd (receive_status (Fin 5) (Decoded (VDict demo_status)) (snd (receive_status (Fin 4) Undecodable transport_init)))"

theorem status_is_latest_and_fresh_witness:
  "status_loop (Fin 10) [(Fin 4, Fin 4, transport_init), (Fin (11/2), Fin 6, demo_transport)] = Some (Ret demo_status) \<and>
   fle (fsub (Fin (11/2)) (Fin 5)) STATUS_FRESHNESS"
proof -
  let ?looks = "[(Fin 4, Fin 4, transport_init), (Fin (11/2), Fin 6, demo_transport)]"
  have l: "status_loop (Fin 10) ?looks = Some (Ret demo_status)"
    by (simp add: status_turn_def transport_init_def demo_transport_def receive_status_def valid_status_def demo_status_def dkeys_def
        vget_def STATUS_FRESHNESS_def fsub_def float_eval)
  have "transport_step\<^sup>*\<^sup>* transport_init demo_transport"
    unfolding demo_transport_def by (meson transport_step.message rtranclp.rtrancl_into_rtrancl rtranclp.rtrancl_refl)
  with status_is_latest_and_fresh [OF l] l show ?thesis
    by (auto simp: transport_init_def demo_transport_def receive_status_def valid_status_def demo_status_def dkeys_def vget_def)
qed

end
