(* ===== verification/HospitalLifecycle.thy ===== *)
theory HospitalLifecycle
  imports HospitalTransport
begin

text \<open>
  The client that starts and stops the hospital demonstration (\<^verbatim>\<open>agent_ros/adapters/hospital.py\<close>,
  \<^verbatim>\<open>hospital_process.py\<close>): fixed subprocesses and mission services, run one job at a time by a bounded worker, against a
  stop latch that is never cleared. A job is cut into the regions between which the latch can fall. What processes
  and services answer is an argument; \<open>lc_spawned\<close> and \<open>lc_triggered\<close> are history variables: the
  processes spawned and the mission services called, in order.
\<close>

section \<open>An owned process\<close>

datatype child = NoChild | Running | Ended

definition child_start :: "bool \<Rightarrow> unit result \<Rightarrow> child \<Rightarrow> unit result \<times> child" where
  "child_start argv_ok popen c =
     (if c \<noteq> NoChild \<or> \<not> argv_ok then (invalid_profile, c)
      else case popen of Inl e \<Rightarrow> (Raise e, c) | Inr _ \<Rightarrow> (Ret (), Running))"

text \<open>A signal for the whole group goes out only when the child still leads a group of its own.\<close>

definition signal_exact_group :: "bool result \<Rightarrow> unit result \<Rightarrow> child \<Rightarrow> unit result" where
  "signal_exact_group leads_group kill c =
     (if c = NoChild then Raise (AdapterError ''UNSAFE_STATE'')
      else rbind leads_group (\<lambda>leads. if leads then kill else Raise (AdapterError ''UNSAFE_STATE'')))"

definition child_terminate :: "bool \<Rightarrow> bool result \<Rightarrow> unit result \<Rightarrow> child \<Rightarrow> unit result" where
  "child_terminate owns_group leads_group kill c =
     (if c = NoChild then Raise (AdapterError ''UNSAFE_STATE'')
      else if c = Ended then Ret ()
      else if owns_group then signal_exact_group leads_group kill c else kill)"

text \<open>\<^verbatim>\<open>close\<close>: the kill, where a process that is already gone is no failure, then the wait.\<close>

datatype kill_answer = Killed | AlreadyGone | KillFails

definition child_close :: "kill_answer \<Rightarrow> bool \<Rightarrow> child \<Rightarrow> bool \<times> child" where
  "child_close kill reaped c =
     (if c = NoChild then (True, c)
      else (let c1 = (if reaped then Ended else c) in
            ((c = Running \<longrightarrow> kill \<noteq> KillFails) \<and> reaped \<and> c1 = Ended, c1)))"

section \<open>The answer of a lifecycle command\<close>

text \<open>\<^verbatim>\<open>_exact_json_object\<close>: the decoder's value and the rest behind it, for the text without its leading blanks.\<close>

definition exact_json_object :: "(string \<Rightarrow> (pyval \<times> string) option) \<Rightarrow> string \<Rightarrow> pydict result" where
  "exact_json_object raw_decode raw =
     (case raw_decode (dropWhile py_space raw) of
        Some (VDict d, rest) \<Rightarrow> if strip rest \<noteq> [] \<or> \<not> list_all is_str (dkeys d) then internal_error else Ret d
      | _ \<Rightarrow> internal_error)"

definition command_payload :: "(string \<Rightarrow> (pyval \<times> string) option) \<Rightarrow> string \<Rightarrow> int \<Rightarrow> pydict result" where
  "command_payload raw_decode stdout returncode =
     rbind (exact_json_object raw_decode stdout) (\<lambda>d.
       if returncode \<noteq> 0 \<or> vget d ''ok'' \<noteq> VBool True then Raise (AdapterError ''UNSAFE_STATE'') else Ret d)"

text \<open>The mission is ready to start when its status shows a pose and fresh odometry of the simulation.\<close>

definition also_true :: "bool result \<Rightarrow> bool result \<Rightarrow> bool result" where
  "also_true a b = rbind a (\<lambda>x. if x then b else Ret False)"

definition number_where :: "(pyfloat \<Rightarrow> bool) \<Rightarrow> pyval \<Rightarrow> bool result" where
  "number_where P v = (if is_number v then rbind (py_float v) (\<lambda>x. Ret (is_fin x \<and> P x)) else Ret False)"

definition odometry_ready :: "pydict \<Rightarrow> bool result" where
  "odometry_ready d =
     (case vget d ''pose'' of
        VDict pose \<Rightarrow>
          also_true (all_finite [vget pose ''x'', vget pose ''y'', vget pose ''yaw'']) (
          also_true (number_where (\<lambda>x. fle (Fin 0) x \<and> fle x (Fin 1)) (vget d ''odom_age'')) (
          also_true (Ret (vget d ''feedback_source'' = VStr ''gazebo_diff_drive_odometry''))
            (number_where (\<lambda>x. flt (Fin 0) x) (vget d ''sim_time''))))
      | _ \<Rightarrow> Ret False)"

section \<open>State\<close>

datatype job = StartJob nat | ActionJob hospital_action

datatype spawned = StartProcess | MissionProcess | StopProcess | StatusProcess | CancelProcess

text \<open>Where the worker is in a job; the numbers are the generation under which a start was submitted.\<close>

datatype job_pc = NoJob
  | StartSpawn nat | StartWait nat | StartTimedOut | StartParsed nat "pydict result" | StartRan nat
  | MissionSpawn nat | MissionWait nat | MissionParsed nat "pydict result"
  | OdometryFirst nat | OdometryCheck nat | OdometryStatus nat | TriggerStart nat | StartFinal nat | Compensate
  | Act hospital_action | Interrupting "pydict result" | JobDone "pydict result"

record lifecycle =
  lc_transport :: bool
  lc_generation :: nat
  lc_latched :: bool
  lc_started :: bool
  lc_actions :: "hospital_action list"
  lc_receipt :: "nat option"
  lc_process :: bool
  lc_worker :: bounded_worker
  lc_jobs :: "job list"
  lc_outcomes :: "nat \<Rightarrow> pydict option"
  lc_pc :: job_pc
  lc_spawned :: "spawned list"
  lc_triggered :: "hospital_action list"

definition LIFECYCLE_ACTIONS_MAX :: nat where "LIFECYCLE_ACTIONS_MAX = 64"

text \<open>The constructor: both workers must start; the emergency worker is the one of \<open>EmergencyChannel\<close> with the mission's
  stop service as its command.\<close>

definition lifecycle_init :: "bool \<Rightarrow> bool \<Rightarrow> bool \<Rightarrow> lifecycle result" where
  "lifecycle_init transport worker_spawns emergency_spawns =
     (if \<not> worker_spawns \<or> \<not> emergency_spawns then invalid_profile
      else Ret \<lparr>lc_transport = transport, lc_generation = 0, lc_latched = False, lc_started = False, lc_actions = [], lc_receipt = None,
        lc_process = False, lc_worker = snd (bw_start True bw_init), lc_jobs = [], lc_outcomes = (\<lambda>_. None), lc_pc = NoJob,
        lc_spawned = [], lc_triggered = []\<rparr>)"

definition latch_stop :: "lifecycle \<Rightarrow> lifecycle" where
  "latch_stop s = s\<lparr>lc_generation := Suc (lc_generation s), lc_latched := True\<rparr>"

definition start_was_cancelled :: "nat \<Rightarrow> lifecycle \<Rightarrow> bool" where
  "start_was_cancelled g s = (lc_latched s \<or> g \<noteq> lc_generation s)"

definition receipt_open :: "nat \<Rightarrow> lifecycle \<Rightarrow> bool" where
  "receipt_open rid s = (bw_results (lc_worker s) ! rid = None)"

definition submit_job :: "job \<Rightarrow> lifecycle \<Rightarrow> nat result \<times> lifecycle" where
  "submit_job j s =
     (case bw_submit True (lc_worker s) of
        (Inl _, w) \<Rightarrow> (Raise (AdapterError ''UNSAFE_STATE''), s\<lparr>lc_worker := w\<rparr>)
      | (Inr rid, w) \<Rightarrow> (Ret rid, s\<lparr>lc_worker := w, lc_jobs := lc_jobs s @ [j]\<rparr>))"

definition start_nowait :: "lifecycle \<Rightarrow> pydict result \<times> lifecycle" where
  "start_nowait s =
     (if lc_latched s then (Raise (AdapterError ''ESTOP_LATCHED''), s)
      else if (case lc_receipt s of None \<Rightarrow> False | Some rid \<Rightarrow> receipt_open rid s) then (Raise (AdapterError ''UNSAFE_STATE''), s)
      else (case submit_job (StartJob (lc_generation s)) s of
          (Inl e, s1) \<Rightarrow> (Raise e, s1)
        | (Inr rid, s1) \<Rightarrow> (Ret (available_state ''starting''), s1\<lparr>lc_receipt := Some rid, lc_started := True\<rparr>)))"

section \<open>A start\<close>

abbreviation job_ends :: "pydict result \<Rightarrow> lifecycle \<Rightarrow> lifecycle" where
  "job_ends r s \<equiv> s\<lparr>lc_pc := JobDone r\<rparr>"

abbreviation adapter_raises :: "string \<Rightarrow> lifecycle \<Rightarrow> lifecycle" where
  "adapter_raises code s \<equiv> job_ends (Raise (AdapterError code)) s"

text \<open>The spawn of a start or a mission start: the check of the latch and the spawn are one region under the lock. A call of the
  operating system that fails is reported as a timeout.\<close>

definition spawn_checked :: "spawned \<Rightarrow> nat \<Rightarrow> unit result \<Rightarrow> lifecycle \<Rightarrow> lifecycle" where
  "spawn_checked kind g popen s =
     (if start_was_cancelled g s then s\<lparr>lc_pc := Compensate\<rparr>
      else case popen of
        Inl (AdapterError code) \<Rightarrow> adapter_raises code s
      | Inl _ \<Rightarrow> adapter_raises ''TIMEOUT'' s
      | Inr _ \<Rightarrow> s\<lparr>lc_spawned := lc_spawned s @ [kind], lc_process := (kind = StartProcess \<or> lc_process s),
                    lc_pc := (if kind = StartProcess then StartWait g else MissionWait g)\<rparr>)"

datatype process_end = Exited "pydict result" | TimedOut | WaitFails

definition start_waited :: "process_end \<Rightarrow> nat \<Rightarrow> lifecycle \<Rightarrow> lifecycle" where
  "start_waited e g s =
     (case e of
        Exited r \<Rightarrow> s\<lparr>lc_process := False, lc_pc := StartParsed g r\<rparr>
      | TimedOut \<Rightarrow> (latch_stop s)\<lparr>lc_pc := StartTimedOut\<rparr>
      | WaitFails \<Rightarrow> adapter_raises ''TIMEOUT'' (s\<lparr>lc_process := False\<rparr>))"

definition mission_waited :: "process_end \<Rightarrow> bool \<Rightarrow> nat \<Rightarrow> lifecycle \<Rightarrow> lifecycle" where
  "mission_waited e reaped g s =
     (case e of
        Exited r \<Rightarrow> s\<lparr>lc_pc := MissionParsed g r\<rparr>
      | TimedOut \<Rightarrow> adapter_raises (if reaped then ''TIMEOUT'' else ''CLEANUP_FAILED'') s
      | WaitFails \<Rightarrow> adapter_raises ''TIMEOUT'' s)"

text \<open>A run of the stop command: it may not even be spawned; else its result counts.\<close>

datatype stop_run = StopUnspawned py_exn | StopRan "pydict result"

definition run_stop :: "stop_run \<Rightarrow> lifecycle \<Rightarrow> pydict result \<times> lifecycle" where
  "run_stop run s =
     (case run of
        StopUnspawned (AdapterError code) \<Rightarrow> (Raise (AdapterError code), s)
      | StopUnspawned _ \<Rightarrow> (Raise (AdapterError ''TIMEOUT''), s)
      | StopRan r \<Rightarrow> (r, s\<lparr>lc_spawned := lc_spawned s @ [StopProcess]\<rparr>))"

definition start_timed_out :: "stop_run \<Rightarrow> bool \<Rightarrow> lifecycle \<Rightarrow> lifecycle" where
  "start_timed_out run reaped s =
     (let (r, s1) = run_stop run s
      in adapter_raises (if is_ret r \<and> reaped then ''TIMEOUT'' else ''CLEANUP_FAILED'') (s1\<lparr>lc_process := False\<rparr>))"

definition start_parsed :: "nat \<Rightarrow> pydict result \<Rightarrow> job_pc \<Rightarrow> lifecycle \<Rightarrow> lifecycle" where
  "start_parsed g r continue s =
     (if start_was_cancelled g s then s\<lparr>lc_pc := Compensate\<rparr>
      else if is_ret r then s\<lparr>lc_pc := continue\<rparr> else job_ends r s)"

definition cancelled_or :: "nat \<Rightarrow> job_pc \<Rightarrow> lifecycle \<Rightarrow> lifecycle" where
  "cancelled_or g continue s = s\<lparr>lc_pc := (if start_was_cancelled g s then Compensate else continue)\<rparr>"

definition odometry_check :: "bool \<Rightarrow> nat \<Rightarrow> lifecycle \<Rightarrow> lifecycle" where
  "odometry_check expired g s =
     (if expired then adapter_raises ''TIMEOUT'' s else cancelled_or g (OdometryStatus g) s)"

definition odometry_status :: "pydict result \<Rightarrow> nat \<Rightarrow> lifecycle \<Rightarrow> lifecycle" where
  "odometry_status r g s =
     (case r of
        Inl e \<Rightarrow> if e = AdapterError ''TIMEOUT'' then s\<lparr>lc_pc := OdometryCheck g\<rparr> else job_ends (Raise e) s
      | Inr d \<Rightarrow> (case odometry_ready d of
            Inl e \<Rightarrow> job_ends (Raise e) s
          | Inr ready \<Rightarrow> s\<lparr>lc_pc := (if ready then TriggerStart g else OdometryCheck g)\<rparr>))"

definition trigger_start :: "pydict result \<Rightarrow> nat \<Rightarrow> lifecycle \<Rightarrow> lifecycle" where
  "trigger_start r g s =
     (let s1 = s\<lparr>lc_triggered := lc_triggered s @ [START]\<rparr>
      in if is_ret r then s1\<lparr>lc_pc := StartFinal g\<rparr> else job_ends r s1)"

definition start_final :: "nat \<Rightarrow> lifecycle \<Rightarrow> lifecycle" where
  "start_final g = cancelled_or g (JobDone (Ret (available_state ''running'')))"

definition cancelled_start :: pydict where
  "cancelled_start = available_state ''cancelled'' @ [(VStr ''code'', VStr ''ESTOP_LATCHED'')]"

definition compensate :: "stop_run \<Rightarrow> lifecycle \<Rightarrow> lifecycle" where
  "compensate run s =
     (let (r, s1) = run_stop run s
      in job_ends (rbind r (\<lambda>_. Ret cancelled_start)) (s1\<lparr>lc_started := False\<rparr>))"

section \<open>The other actions\<close>

text \<open>\<^verbatim>\<open>_execute_action\<close> off the transport: the process of an action, and what its payload becomes.\<close>

definition action_result :: "hospital_action \<Rightarrow> pydict \<Rightarrow> pydict" where
  "action_result a payload =
     (case a of
        CANCEL \<Rightarrow> available_state ''cancelled'' @ [(VStr ''result'', VDict payload)]
      | STOP \<Rightarrow> available_state ''stopped'' @ [(VStr ''result'', VDict payload)]
      | _ \<Rightarrow> (case vget payload ''status'' of VDict st \<Rightarrow> st | _ \<Rightarrow> payload))"

definition action_process :: "hospital_action \<Rightarrow> spawned option" where
  "action_process a = (case a of STATUS \<Rightarrow> Some StatusProcess | OBSERVE \<Rightarrow> Some StatusProcess | CANCEL \<Rightarrow> Some CancelProcess
     | STOP \<Rightarrow> Some StopProcess | _ \<Rightarrow> None)"

definition execute_action ::
  "hospital_action \<Rightarrow> pydict result \<Rightarrow> pydict result \<Rightarrow> stop_run \<Rightarrow> lifecycle \<Rightarrow> lifecycle" where
  "execute_action a status called run s =
     (if lc_transport s \<and> a \<in> {STATUS, OBSERVE} then job_ends status s
      else if lc_transport s \<and> a = CANCEL
      then job_ends (rbind called (\<lambda>payload. Ret (action_result CANCEL payload))) (s\<lparr>lc_triggered := lc_triggered s @ [CANCEL]\<rparr>)
      else case action_process a of
        None \<Rightarrow> adapter_raises ''PROFILE_INVALID'' s
      | Some kind \<Rightarrow>
          if a = STOP then (let (r, s1) = run_stop run s in s1\<lparr>lc_pc := Interrupting (rbind r (\<lambda>p. Ret (action_result STOP p)))\<rparr>)
          else job_ends (rbind called (\<lambda>payload. Ret (action_result a payload))) (s\<lparr>lc_spawned := lc_spawned s @ [kind]\<rparr>))"

text \<open>\<^verbatim>\<open>_interrupt_inflight_start\<close>: what it would terminate and wait for.\<close>

definition interrupt_target :: "lifecycle \<Rightarrow> bool \<times> nat option" where
  "interrupt_target s = (lc_process s, case lc_receipt s of None \<Rightarrow> None | Some rid \<Rightarrow> if receipt_open rid s then Some rid else None)"

definition interrupt_start :: "unit result \<Rightarrow> bool \<Rightarrow> pydict result \<Rightarrow> lifecycle \<Rightarrow> lifecycle" where
  "interrupt_start terminated ended r s =
     (let (process, open_receipt) = interrupt_target s in
      case (if process then terminated else Ret ()) of
        Inl (AdapterError code) \<Rightarrow> adapter_raises code s
      | Inl _ \<Rightarrow> adapter_raises ''UNSAFE_STATE'' s
      | Inr _ \<Rightarrow> if open_receipt \<noteq> None \<and> \<not> ended then adapter_raises ''TIMEOUT'' s else job_ends r s)"

section \<open>The worker's turn\<close>

definition take_job :: "lifecycle \<Rightarrow> lifecycle" where
  "take_job s =
     (case bw_queue (lc_worker s) of [] \<Rightarrow> s
      | rid # _ \<Rightarrow> s\<lparr>lc_worker := bw_take (lc_worker s),
          lc_pc := (case lc_jobs s ! rid of StartJob g \<Rightarrow> StartSpawn g | ActionJob a \<Rightarrow> Act a)\<rparr>)"

definition end_job :: "nat \<Rightarrow> pydict result \<Rightarrow> lifecycle \<Rightarrow> lifecycle" where
  "end_job rid r s =
     s\<lparr>lc_worker := bw_ran rid (rbind r (\<lambda>_. Ret ())) (lc_worker s),
       lc_outcomes := (lc_outcomes s)(rid := (case r of Inr d \<Rightarrow> Some d | _ \<Rightarrow> None)), lc_pc := NoJob\<rparr>"

section \<open>What callers see\<close>

definition start_result :: "lifecycle \<Rightarrow> pydict option result" where
  "start_result s =
     (case lc_receipt s of
        None \<Rightarrow> Ret (Some (available_state ''idle''))
      | Some rid \<Rightarrow>
          (case bw_results (lc_worker s) ! rid of
             None \<Rightarrow> Ret (Some (available_state ''starting''))
           | Some (Inl e) \<Rightarrow> Raise (AdapterError (case e of AdapterError code \<Rightarrow> code | _ \<Rightarrow> ''INTERNAL_ERROR''))
           | Some (Inr _) \<Rightarrow> Ret (case lc_outcomes s rid of
               Some d \<Rightarrow> if vget d ''state'' = VStr ''cancelled'' then Some d else None | None \<Rightarrow> None)))"

text \<open>What \<^verbatim>\<open>_submit_and_wait\<close> makes of a receipt when its wait is over.\<close>

definition awaited :: "nat \<Rightarrow> lifecycle \<Rightarrow> pydict result" where
  "awaited rid s =
     (case bw_results (lc_worker s) ! rid of
        None \<Rightarrow> Raise (AdapterError ''TIMEOUT'')
      | Some (Inl e) \<Rightarrow> Raise (AdapterError (case e of AdapterError code \<Rightarrow> code | _ \<Rightarrow> ''INTERNAL_ERROR''))
      | Some (Inr _) \<Rightarrow> (case lc_outcomes s rid of Some d \<Rightarrow> Ret d | None \<Rightarrow> internal_error))"

text \<open>\<^verbatim>\<open>dispatch\<close>, up to the submission: an answer at once, or the receipt to wait for.\<close>

datatype dispatched = Answer "pydict result" | Await nat

definition record_action :: "hospital_action \<Rightarrow> lifecycle \<Rightarrow> unit result \<times> lifecycle" where
  "record_action a s =
     (if a \<notin> {VALIDATE, START, CANCEL, STOP} then (Ret (), s)
      else if length (lc_actions s) = LIFECYCLE_ACTIONS_MAX then (internal_error, s)
      else (Ret (), s\<lparr>lc_actions := lc_actions s @ [a]\<rparr>))"

definition await_job :: "hospital_action \<Rightarrow> lifecycle \<Rightarrow> dispatched \<times> lifecycle" where
  "await_job a s = (case submit_job (ActionJob a) s of (Inl e, s1) \<Rightarrow> (Answer (Raise e), s1) | (Inr rid, s1) \<Rightarrow> (Await rid, s1))"

definition dispatch :: "bool \<Rightarrow> bool \<Rightarrow> hospital_action \<Rightarrow> lifecycle \<Rightarrow> dispatched \<times> lifecycle" where
  "dispatch script_exists script_placed a s =
     (case record_action a s of (Inl e, s1) \<Rightarrow> (Answer (Raise e), s1)
      | (Inr _, s1) \<Rightarrow>
          (case a of
             START \<Rightarrow> (let (r, s2) = start_nowait s1 in (Answer r, s2))
           | PROBE \<Rightarrow> (Answer (Ret [(VStr ''available'', VBool script_exists), (VStr ''state'', VStr ''available'')]), s1)
           | VALIDATE \<Rightarrow> (Answer (if script_exists \<and> script_placed then Ret (available_state ''validated'') else invalid_profile), s1)
           | STATUS \<Rightarrow> (case start_result s1 of
               Inl e \<Rightarrow> (Answer (Raise e), s1)
             | Inr (Some d) \<Rightarrow> (Answer (Ret d), s1)
             | Inr None \<Rightarrow> await_job STATUS s1)
           | STOP \<Rightarrow> await_job STOP (latch_stop s1)
           | _ \<Rightarrow> await_job a s1))"

text \<open>The emergency side: what \<^verbatim>\<open>stop_emergency\<close> makes of its receipt, and the hospital's channel, which latches the
  lifecycle before it submits the stop and takes its acceptance back when the stop has not run through in time.\<close>

definition stop_emergency_end :: "unit result option \<Rightarrow> bool \<Rightarrow> lifecycle \<Rightarrow> unit result \<times> lifecycle" where
  "stop_emergency_end receipt is_mapping s =
     (case receipt of
        None \<Rightarrow> (Raise (AdapterError ''TIMEOUT''), s)
      | Some (Inl e) \<Rightarrow> (Raise (AdapterError (case e of AdapterError code \<Rightarrow> code | _ \<Rightarrow> ''INTERNAL_ERROR'')), s)
      | Some (Inr _) \<Rightarrow> if is_mapping then (Ret (), s\<lparr>lc_started := False\<rparr>) else (internal_error, s))"

definition hospital_submit_zero :: "channel \<Rightarrow> lifecycle \<Rightarrow> nat result \<times> channel \<times> lifecycle" where
  "hospital_submit_zero c s = (let (r, w) = bw_submit True (ch_worker c) in (r, c\<lparr>ch_worker := w\<rparr>, latch_stop s))"

definition hospital_stop_end :: "unit result option \<Rightarrow> stop_result \<Rightarrow> stop_result" where
  "hospital_stop_end receipt r =
     (if sr_accepted r \<and> receipt \<noteq> Some (Ret ())
      then mk_stop (sr_latched r) (sr_quiesced r) False ''SAFETY_COMMAND_FAILED'' else r)"

definition lifecycle_close_answer :: "bool \<Rightarrow> pydict result \<Rightarrow> bool option \<Rightarrow> bool \<Rightarrow> bool \<Rightarrow> bool" where
  "lifecycle_close_answer started stopped transport worker emergency =
     ((started \<longrightarrow> is_ret stopped) \<and> transport \<noteq> Some False \<and> worker \<and> emergency)"

text \<open>\<^verbatim>\<open>HospitalCaseAdapter\<close>: a status is the lower-cased state of an answer; an observation of odometry is its pose.\<close>

definition case_status :: "pydict result \<Rightarrow> adapter_status result" where
  "case_status r =
     rbind r (\<lambda>d. rbind (status_of_result d) (\<lambda>st. Ret (st\<lparr>as_state := lower_str (as_state st)\<rparr>)))"

definition case_invoke :: "pydict result \<Rightarrow> pydict result" where
  "case_invoke r = (case r of Inl (AdapterError code) \<Rightarrow> r | Inl _ \<Rightarrow> internal_error | Inr d \<Rightarrow> r)"

definition case_observe :: "string \<Rightarrow> pyfloat \<Rightarrow> pydict result \<Rightarrow> observation result" where
  "case_observe source now answer =
     (if source \<notin> {''odometry'', ''camera'', ''scan''} then invalid_profile
      else rbind (case_invoke answer) (\<lambda>d.
        rbind (if source = ''odometry'' then projected_pose (AdapterError ''INTERNAL_ERROR'') (vget d ''pose'') else Ret d) (\<lambda>values.
          Ret \<lparr>ob_source = source, ob_timestamp = VFloat now, ob_values = values\<rparr>)))"

definition case_start :: "bool \<Rightarrow> bool \<Rightarrow> permit \<Rightarrow> 'v sequencer \<Rightarrow> lifecycle \<Rightarrow> adapter_status result \<times> 'v sequencer \<times> lifecycle" where
  "case_start is_start bound p q s =
     (if \<not> is_start \<or> \<not> bound then (invalid_profile, q, s)
      else (case admit p q of
          (Inl e, q1) \<Rightarrow> (adapter_rejection (Raise e), q1, s)
        | (Inr _, q1) \<Rightarrow>
            (let (r, s1) = dispatch True True START s
             in (case r of Answer a \<Rightarrow> rbind a status_of_result | Await _ \<Rightarrow> internal_error, q1\<lparr>sq_owned := Suc (sq_owned q1)\<rparr>, s1))))"

section \<open>Steps\<close>

inductive lc_step :: "lifecycle \<Rightarrow> lifecycle \<Rightarrow> bool" where
  latch: "lc_step s (latch_stop s)"
| start: "lc_step s (snd (start_nowait s))"
| submit: "lc_latched s \<or> a \<noteq> STOP \<Longrightarrow> lc_step s (snd (submit_job (ActionJob a) s))"
| note_action: "lc_step s (snd (record_action a s))"
| stopped: "lc_step s (s\<lparr>lc_started := False\<rparr>)"
| emergency: "lc_step s (if lc_transport s then s\<lparr>lc_triggered := lc_triggered s @ [STOP]\<rparr> else snd (run_stop run s))"
| take: "bw_thread (lc_worker s) = Alive \<Longrightarrow> bw_pc (lc_worker s) = Waiting \<Longrightarrow> bw_queue (lc_worker s) \<noteq> [] \<Longrightarrow> lc_step s (take_job s)"
| start_spawn: "lc_pc s = StartSpawn g \<Longrightarrow> lc_step s (spawn_checked StartProcess g popen s)"
| start_wait: "lc_pc s = StartWait g \<Longrightarrow> lc_step s (start_waited e g s)"
| start_timeout: "lc_pc s = StartTimedOut \<Longrightarrow> lc_step s (start_timed_out run reaped s)"
| start_parse: "lc_pc s = StartParsed g r \<Longrightarrow> lc_step s (start_parsed g r (StartRan g) s)"
| start_ran: "lc_pc s = StartRan g \<Longrightarrow> lc_step s (cancelled_or g (if lc_transport s then OdometryFirst g else MissionSpawn g) s)"
| mission_spawn: "lc_pc s = MissionSpawn g \<Longrightarrow> lc_step s (spawn_checked MissionProcess g popen s)"
| mission_wait: "lc_pc s = MissionWait g \<Longrightarrow> lc_step s (mission_waited e reaped g s)"
| mission_parse: "lc_pc s = MissionParsed g r \<Longrightarrow> lc_step s (start_parsed g r (StartFinal g) s)"
| odometry_first: "lc_pc s = OdometryFirst g \<Longrightarrow> lc_step s (cancelled_or g (OdometryCheck g) s)"
| odometry_check: "lc_pc s = OdometryCheck g \<Longrightarrow> lc_step s (odometry_check expired g s)"
| odometry_status: "lc_pc s = OdometryStatus g \<Longrightarrow> lc_step s (odometry_status r g s)"
| trigger: "lc_pc s = TriggerStart g \<Longrightarrow> lc_step s (trigger_start r g s)"
| final: "lc_pc s = StartFinal g \<Longrightarrow> lc_step s (start_final g s)"
| compensate: "lc_pc s = Compensate \<Longrightarrow> lc_step s (compensate run s)"
| act: "lc_pc s = Act a \<Longrightarrow> lc_step s (execute_action a status called run s)"
| interrupt: "lc_pc s = Interrupting r \<Longrightarrow> lc_step s (interrupt_start terminated ended r s)"
| ended: "lc_pc s = JobDone r \<Longrightarrow> bw_pc (lc_worker s) = Executing rid \<Longrightarrow> lc_step s (end_job rid r s)"
| publish: "bw_pc (lc_worker s) = Publishing rid r \<Longrightarrow> lc_step s (s\<lparr>lc_worker := bw_publish rid r (lc_worker s)\<rparr>)"
| close: "lc_step s (s\<lparr>lc_worker := bw_close_begin (lc_worker s)\<rparr>)"
| leave: "bw_thread (lc_worker s) = Alive \<Longrightarrow> bw_pc (lc_worker s) = Waiting \<Longrightarrow> bw_queue (lc_worker s) = [] \<Longrightarrow> bw_stopping (lc_worker s) \<Longrightarrow>
     lc_step s (s\<lparr>lc_worker := (lc_worker s)\<lparr>bw_pc := Leaving\<rparr>\<rparr>)"
| exits: "bw_thread (lc_worker s) = Alive \<Longrightarrow> bw_pc (lc_worker s) = Leaving \<Longrightarrow>
     lc_step s (s\<lparr>lc_worker := (lc_worker s)\<lparr>bw_thread := Dead\<rparr>\<rparr>)"

section \<open>The invariant\<close>

fun in_start :: "job_pc \<Rightarrow> bool" where
  "in_start NoJob = False" | "in_start (Act _) = False" | "in_start (Interrupting _) = False" | "in_start _ = True"

fun job_at :: "job \<Rightarrow> job_pc \<Rightarrow> bool" where
  "job_at (StartJob g) pc = in_start pc"
| "job_at (ActionJob a) pc = (pc = Act a \<or> a = STOP \<and> (\<exists>r. pc = Interrupting r) \<or> (\<exists>r. pc = JobDone r))"

fun is_start :: "job \<Rightarrow> bool" where
  "is_start (StartJob _) = True" | "is_start (ActionJob _) = False"

definition process_known :: "lifecycle \<Rightarrow> bool" where
  "process_known s \<longleftrightarrow> (lc_process s \<longrightarrow> lc_pc s = StartTimedOut \<or> (\<exists>g. lc_pc s = StartWait g))"

definition lifecycle_inv :: "lifecycle \<Rightarrow> bool" where
  "lifecycle_inv s \<longleftrightarrow>
     bw_inv (lc_worker s) \<and> length (lc_jobs s) = length (bw_results (lc_worker s)) \<and>
     (case bw_pc (lc_worker s) of Executing rid \<Rightarrow> job_at (lc_jobs s ! rid) (lc_pc s) | _ \<Rightarrow> lc_pc s = NoJob) \<and>
     process_known s \<and>
     (\<forall>rid. lc_receipt s = Some rid \<longrightarrow> rid < length (lc_jobs s) \<and> is_start (lc_jobs s ! rid)) \<and>
     (\<forall>i < length (lc_jobs s). lc_jobs s ! i = ActionJob STOP \<longrightarrow>
        lc_latched s \<and> (\<forall>j < length (lc_jobs s). i < j \<longrightarrow> \<not> is_start (lc_jobs s ! j))) \<and>
     (\<forall>rid. lc_outcomes s rid \<noteq> None \<longrightarrow> rid < length (lc_jobs s))"

text \<open>A step inside a job changes none of the queue's data.\<close>

lemma lifecycle_inv_job:
  assumes "lifecycle_inv s" "lc_worker t = lc_worker s" "lc_jobs t = lc_jobs s" "lc_receipt t = lc_receipt s"
    "lc_outcomes t = lc_outcomes s" "lc_latched s \<longrightarrow> lc_latched t"
    "lc_pc t = lc_pc s \<or> in_start (lc_pc s) \<and> in_start (lc_pc t) \<and> (\<forall>r. lc_pc s \<noteq> JobDone r) \<or> (\<exists>a. lc_pc s = Act a \<and> job_at (ActionJob a) (lc_pc t)) \<or>
      (\<exists>r. lc_pc s = Interrupting r) \<and> (\<exists>r. lc_pc t = JobDone r)" "process_known t"
  shows "lifecycle_inv t"
proof -
  have "job_at j (lc_pc t)" if "job_at j (lc_pc s)" for j
    using that assms(7) by (cases j) (auto elim: in_start.elims)
  moreover have "lc_pc s = NoJob \<Longrightarrow> lc_pc t = NoJob" using assms(7) by auto
  ultimately show ?thesis using assms(1-6,8) by (auto simp: lifecycle_inv_def split: bounded_pc.splits)
qed

text \<open>A step of the worker alone, outside a job.\<close>

lemma lifecycle_inv_worker:
  assumes "lifecycle_inv s" "bw_step (lc_worker s) w" "length (bw_results w) = length (bw_results (lc_worker s))"
    "\<And>rid. bw_pc w = Executing rid \<longleftrightarrow> bw_pc (lc_worker s) = Executing rid"
  shows "lifecycle_inv (s\<lparr>lc_worker := w\<rparr>)"
proof -
  have inv: "bw_inv w" using assms(1,2) bw_inv_step by (auto simp: lifecycle_inv_def)
  have pc: "case bw_pc (lc_worker s) of Executing rid \<Rightarrow> job_at (lc_jobs s ! rid) (lc_pc s) | _ \<Rightarrow> lc_pc s = NoJob"
    using assms(1) by (simp add: lifecycle_inv_def)
  have "case bw_pc w of Executing rid \<Rightarrow> job_at (lc_jobs s ! rid) (lc_pc s) | _ \<Rightarrow> lc_pc s = NoJob"
  proof (cases "bw_pc w")
    case (Executing rid)
    then have "bw_pc (lc_worker s) = Executing rid" using assms(4) by blast
    with pc Executing show ?thesis by simp
  qed (use pc assms(4) in \<open>cases "bw_pc (lc_worker s)"; force\<close>)+
  with inv assms(1,3) show ?thesis by (auto simp: lifecycle_inv_def process_known_def split: bounded_pc.splits)
qed

lemma executing_less:
  assumes "bw_inv w" "bw_pc w = Executing rid" shows "rid < length (bw_results w)"
  using assms by (auto simp: bw_inv_def bw_flight_def dest!: arg_cong [of _ "[0..<length (bw_results w)]" set])

text \<open>What the worker took before the command it runs is published.\<close>

lemma executed_before_published:
  assumes "bw_inv w" "bw_pc w = Executing i" "j < i" shows "bw_results w ! j \<noteq> None"
proof -
  have all: "bw_executed w @ i # bw_queue w = [0..<length (bw_results w)]"
    and pub: "\<forall>rid \<in> set (bw_executed w). bw_published w rid \<longrightarrow> bw_results w ! rid \<noteq> None"
    using assms(1,2) by (simp_all add: bw_inv_def bw_flight_def)
  have "bw_executed w = [0..<i]"
  proof -
    have "(bw_executed w @ i # bw_queue w) ! length (bw_executed w) = i" by simp
    moreover have "length (bw_executed w) < length (bw_results w)" using arg_cong [OF all, of length] by simp
    ultimately have "length (bw_executed w) = i" using all by simp
    then have "bw_executed w = take i [0..<length (bw_results w)]" using arg_cong [OF all, of "take i"] by simp
    with \<open>length (bw_executed w) < length (bw_results w)\<close> \<open>length (bw_executed w) = i\<close> show ?thesis by simp
  qed
  with pub assms(2,3) show ?thesis by (simp add: bw_published_def)
qed

lemma submit_job_inv:
  assumes "lifecycle_inv s" "is_start j \<Longrightarrow> \<not> lc_latched s" "j = ActionJob STOP \<Longrightarrow> lc_latched s"
  shows "lifecycle_inv (snd (submit_job j s)) \<and>
    (\<forall>rid. fst (submit_job j s) = Ret rid \<longrightarrow> rid < length (lc_jobs (snd (submit_job j s))) \<and> lc_jobs (snd (submit_job j s)) ! rid = j)"
proof (cases "bw_submit True (lc_worker s)")
  case (Pair r w)
  have step: "bw_step (lc_worker s) w" using bw_step.submit [of "lc_worker s" True] Pair by simp
  have pc: "bw_pc w = bw_pc (lc_worker s)" using Pair by (auto simp: bw_submit_def split: if_splits)
  have len: "length (lc_jobs s) = length (bw_results (lc_worker s))" using assms(1) by (simp add: lifecycle_inv_def)
  show ?thesis
  proof (cases r)
    case (Inl e)
    have "length (bw_results w) = length (bw_results (lc_worker s))" using Pair Inl by (auto simp: bw_submit_def split: if_splits)
    from lifecycle_inv_worker [OF assms(1) step this] pc Pair Inl show ?thesis by (simp add: submit_job_def)
  next
    case (Inr rid)
    then have w: "rid = length (bw_results (lc_worker s))" "length (bw_results w) = Suc (length (bw_results (lc_worker s)))"
      using Pair by (auto simp: bw_submit_def split: if_splits)
    have bw: "bw_inv (lc_worker s)" using assms(1) by (simp add: lifecycle_inv_def)
    have less: "i < length (lc_jobs s)" if "bw_pc (lc_worker s) = Executing i" for i
      using executing_less [OF bw that] len by simp
    have "bw_inv w" using bw_inv_step [OF step bw] .
    moreover have "i = length (lc_jobs s) \<or> i < length (lc_jobs s)" if "i < Suc (length (lc_jobs s))" for i using that by linarith
    ultimately have "lifecycle_inv (s\<lparr>lc_worker := w, lc_jobs := lc_jobs s @ [j]\<rparr>)"
      using assms pc w less len
      by (auto simp: lifecycle_inv_def process_known_def nth_append less_Suc_eq split: bounded_pc.splits)
    with Pair Inr w len nth_append_length [of "lc_jobs s" j "[]"] show ?thesis by (simp add: submit_job_def)
  qed
qed

lemma process_at: "lifecycle_inv s \<Longrightarrow> lc_pc s \<noteq> StartTimedOut \<Longrightarrow> (\<And>g. lc_pc s \<noteq> StartWait g) \<Longrightarrow> \<not> lc_process s"
  by (auto simp: lifecycle_inv_def process_known_def)

lemma run_stop_frame [simp]:
  "lc_worker (snd (run_stop run s)) = lc_worker s" "lc_jobs (snd (run_stop run s)) = lc_jobs s"
  "lc_receipt (snd (run_stop run s)) = lc_receipt s" "lc_outcomes (snd (run_stop run s)) = lc_outcomes s"
  "lc_latched (snd (run_stop run s)) = lc_latched s" "lc_pc (snd (run_stop run s)) = lc_pc s"
  "lc_process (snd (run_stop run s)) = lc_process s" "lc_triggered (snd (run_stop run s)) = lc_triggered s"
  by (simp_all add: run_stop_def split: stop_run.splits py_exn.splits)

lemmas job_regions = spawn_checked_def start_waited_def start_timed_out_def start_parsed_def cancelled_or_def mission_waited_def
  odometry_check_def odometry_status_def trigger_start_def start_final_def compensate_def latch_stop_def

lemma lifecycle_inv_start:
  assumes "lifecycle_inv s" "lc_worker t = lc_worker s" "lc_jobs t = lc_jobs s" "lc_receipt t = lc_receipt s"
    "lc_outcomes t = lc_outcomes s" "lc_latched s \<longrightarrow> lc_latched t" "in_start (lc_pc s)" "\<forall>r. lc_pc s \<noteq> JobDone r" "in_start (lc_pc t)"
    "process_known t"
  shows "lifecycle_inv t"
  using assms by (intro lifecycle_inv_job [OF assms(1)]) simp_all

lemma start_regions_inv:
  assumes "lifecycle_inv s"
  shows "lc_pc s = StartSpawn g \<Longrightarrow> lifecycle_inv (spawn_checked StartProcess g popen s)"
    "lc_pc s = MissionSpawn g \<Longrightarrow> lifecycle_inv (spawn_checked MissionProcess g popen s)"
    "lc_pc s = StartWait g \<Longrightarrow> lifecycle_inv (start_waited e g s)"
    "lc_pc s = StartTimedOut \<Longrightarrow> lifecycle_inv (start_timed_out run reaped s)"
    "lc_pc s = StartParsed g r \<Longrightarrow> lifecycle_inv (start_parsed g r (StartRan g) s)"
    "lc_pc s = MissionParsed g r \<Longrightarrow> lifecycle_inv (start_parsed g r (StartFinal g) s)"
    "lc_pc s = StartRan g \<Longrightarrow> lifecycle_inv (cancelled_or g (if b then OdometryFirst g else MissionSpawn g) s)"
    "lc_pc s = OdometryFirst g \<Longrightarrow> lifecycle_inv (cancelled_or g (OdometryCheck g) s)"
    "lc_pc s = MissionWait g \<Longrightarrow> lifecycle_inv (mission_waited e reaped g s)"
    "lc_pc s = OdometryCheck g \<Longrightarrow> lifecycle_inv (odometry_check expired g s)"
    "lc_pc s = OdometryStatus g \<Longrightarrow> lifecycle_inv (odometry_status d g s)"
    "lc_pc s = TriggerStart g \<Longrightarrow> lifecycle_inv (trigger_start d g s)"
    "lc_pc s = StartFinal g \<Longrightarrow> lifecycle_inv (start_final g s)"
    "lc_pc s = Compensate \<Longrightarrow> lifecycle_inv (compensate run s)"
  by (rule lifecycle_inv_start [OF assms];
      use process_at [OF assms] in \<open>simp add: job_regions process_known_def Let_def case_prod_unfold
        split: sum.splits py_exn.splits process_end.splits\<close>)+

lemma act_region_inv:
  assumes "lifecycle_inv s" "lc_pc s = Act a" shows "lifecycle_inv (execute_action a status called run s)"
proof -
  have known: "\<not> lc_process s" by (rule process_at) (simp_all add: assms)
  show ?thesis
    by (rule lifecycle_inv_job [OF assms(1)]; use known assms(2) in \<open>cases a;
      simp add: execute_action_def action_process_def process_known_def Let_def case_prod_unfold\<close>)
qed

lemma interrupt_region_inv:
  assumes "lifecycle_inv s" "lc_pc s = Interrupting r" shows "lifecycle_inv (interrupt_start terminated ended r s)"
proof -
  have known: "\<not> lc_process s" by (rule process_at) (simp_all add: assms)
  show ?thesis
    by (rule lifecycle_inv_job [OF assms(1)]; use known assms(2) in \<open>simp add: interrupt_start_def interrupt_target_def process_known_def
      split: sum.splits py_exn.splits option.splits\<close>)
qed

lemma take_job_inv:
  assumes "lifecycle_inv s" "bw_thread (lc_worker s) = Alive" "bw_pc (lc_worker s) = Waiting" "bw_queue (lc_worker s) \<noteq> []"
  shows "lifecycle_inv (take_job s)"
proof -
  obtain rid rest where q: "bw_queue (lc_worker s) = rid # rest" using assms(4) by (cases "bw_queue (lc_worker s)") auto
  have "bw_inv (bw_take (lc_worker s))" using bw_inv_step [OF bw_step.take] assms by (simp add: lifecycle_inv_def)
  then show ?thesis using assms(1,3) q process_at [OF assms(1)]
    by (cases "lc_jobs s ! rid") (auto simp: lifecycle_inv_def take_job_def bw_take_def process_known_def)
qed

lemma end_job_inv:
  assumes "lifecycle_inv s" "lc_pc s = JobDone r" "bw_pc (lc_worker s) = Executing rid"
  shows "lifecycle_inv (end_job rid r s)"
proof -
  let ?r = "rbind r (\<lambda>_. Ret ())"
  have bw: "bw_inv (lc_worker s)" using assms(1) by (simp add: lifecycle_inv_def)
  have alive: "bw_thread (lc_worker s) = Alive" using bw assms(3) by (cases "bw_thread (lc_worker s)") (auto simp: bw_inv_def)
  have "bw_inv (bw_ran rid ?r (lc_worker s))" using bw_inv_step [OF bw_step.run [OF alive assms(3)] bw] .
  moreover have "rid < length (bw_results (lc_worker s))"
    using executing_less [OF bw assms(3)] .
  ultimately show ?thesis using assms process_at [OF assms(1)]
    by (auto simp: lifecycle_inv_def end_job_def bw_ran_def Let_def process_known_def split: sum.splits)
qed

lemma start_nowait_inv: assumes "lifecycle_inv s" shows "lifecycle_inv (snd (start_nowait s))"
proof (cases "lc_latched s")
  case False
  from submit_job_inv [OF assms, of "StartJob (lc_generation s)"] False
  have sub: "lifecycle_inv (snd (submit_job (StartJob (lc_generation s)) s))"
    "\<And>rid. fst (submit_job (StartJob (lc_generation s)) s) = Ret rid \<Longrightarrow>
       rid < length (lc_jobs (snd (submit_job (StartJob (lc_generation s)) s))) \<and>
       lc_jobs (snd (submit_job (StartJob (lc_generation s)) s)) ! rid = StartJob (lc_generation s)" by auto
  have "lifecycle_inv (t\<lparr>lc_receipt := Some rid, lc_started := True\<rparr>)"
    if "submit_job (StartJob (lc_generation s)) s = (Ret rid, t)" for rid t
    using sub(1) sub(2) [of rid] that by (auto simp: lifecycle_inv_def process_known_def split: bounded_pc.splits)
  with sub(1) show ?thesis using assms by (auto simp: start_nowait_def split: option.splits sum.splits prod.splits)
qed (use assms in \<open>simp add: start_nowait_def\<close>)

lemma bw_publish_inv_step:
  assumes "lifecycle_inv s" "bw_pc (lc_worker s) = Publishing rid r"
  shows "lifecycle_inv (s\<lparr>lc_worker := bw_publish rid r (lc_worker s)\<rparr>)"
proof -
  have bw: "bw_inv (lc_worker s)" using assms(1) by (simp add: lifecycle_inv_def)
  then have "bw_thread (lc_worker s) = Alive" using assms(2) by (cases "bw_thread (lc_worker s)") (auto simp: bw_inv_def)
  from lifecycle_inv_worker [OF assms(1) bw_step.publish [OF this assms(2)]] assms(2) show ?thesis by (simp add: bw_publish_def)
qed

lemma lc_step_inv: "lc_step s t \<Longrightarrow> lifecycle_inv s \<Longrightarrow> lifecycle_inv t"
proof (induction rule: lc_step.induct)
  case (latch s)
  then show ?case by (intro lifecycle_inv_job [OF latch]) (simp_all add: latch_stop_def process_known_def lifecycle_inv_def)
next
  case (submit s a)
  then show ?case using submit_job_inv [of s "ActionJob a"] by auto
next
  case (note_action s a)
  then show ?case
    by (intro lifecycle_inv_job [OF note_action]) (auto simp: record_action_def process_known_def lifecycle_inv_def)
next
  case (stopped s)
  then show ?case by (intro lifecycle_inv_job [OF stopped]) (simp_all add: process_known_def lifecycle_inv_def)
next
  case (emergency s run)
  then show ?case by (intro lifecycle_inv_job [OF emergency]) (simp_all add: process_known_def lifecycle_inv_def)
next
  case (close s)
  show ?case by (rule lifecycle_inv_worker [OF close bw_step.close]) (simp_all add: bw_close_begin_def)
next
  case (leave s)
  show ?case by (rule lifecycle_inv_worker [OF leave(5) bw_step.leave]) (simp_all add: leave)
next
  case (exits s)
  show ?case by (rule lifecycle_inv_worker [OF exits(3) bw_step.exits]) (simp_all add: exits)
next
  case (start_ran s g)
  then show ?case using start_regions_inv(7) by blast
qed (simp_all add: start_regions_inv act_region_inv interrupt_region_inv take_job_inv end_job_inv start_nowait_inv bw_publish_inv_step)

interpretation lifecycle_run: machine lc_step lifecycle_inv
  by unfold_locales (rule lc_step_inv)

lemma lifecycle_init_inv: "lifecycle_init tr True True = Ret s \<Longrightarrow> lifecycle_inv s"
  by (auto simp: lifecycle_init_def lifecycle_inv_def bw_inv_def bw_start_def bw_init_def bw_flight_def process_known_def)

section \<open>After the latch\<close>

definition motion_spawns :: "lifecycle \<Rightarrow> spawned list" where
  "motion_spawns s = filter (\<lambda>k. k = StartProcess \<or> k = MissionProcess) (lc_spawned s)"

definition stop_spawns :: "lifecycle \<Rightarrow> nat" where
  "stop_spawns s = length (filter (\<lambda>k. k = StopProcess) (lc_spawned s))"

text \<open>The calls of the mission's start service, with the one that is past its last check.\<close>

definition start_calls :: "lifecycle \<Rightarrow> nat" where
  "start_calls s = length (filter (\<lambda>a. a = START) (lc_triggered s)) +
     (case lc_pc s of TriggerStart _ \<Rightarrow> 1 | OdometryStatus _ \<Rightarrow> 1 | _ \<Rightarrow> 0)"

text \<open>The starts that have ended in a result of the given kind, with the one whose result is decided.\<close>

definition starts_with_result :: "(pydict \<Rightarrow> bool) \<Rightarrow> lifecycle \<Rightarrow> nat set" where
  "starts_with_result P s = {rid. rid < length (lc_jobs s) \<and> is_start (lc_jobs s ! rid) \<and>
     ((\<exists>d. lc_outcomes s rid = Some d \<and> P d) \<or> bw_pc (lc_worker s) = Executing rid \<and> (\<exists>d. lc_pc s = JobDone (Ret d) \<and> P d))}"

definition latch_follows :: "lifecycle \<Rightarrow> lifecycle \<Rightarrow> bool" where
  "latch_follows s t \<longleftrightarrow>
     stop_spawns s \<le> stop_spawns t \<and>
     (starts_with_result (\<lambda>d. d = cancelled_start) t \<subseteq> starts_with_result (\<lambda>d. d = cancelled_start) s \<or> stop_spawns s < stop_spawns t) \<and>
     (lc_latched s \<longrightarrow> lc_latched t \<and> motion_spawns t = motion_spawns s \<and> start_calls t \<le> start_calls s \<and>
        starts_with_result (\<lambda>d. d \<noteq> cancelled_start) t \<subseteq> starts_with_result (\<lambda>d. d \<noteq> cancelled_start) s)"

lemma latch_follows_refl: "latch_follows s s" by (simp add: latch_follows_def)

lemma latch_follows_trans:
  assumes "latch_follows s t" "latch_follows t u" shows "latch_follows s u"
proof -
  have "stop_spawns s \<le> stop_spawns u"
    "starts_with_result (\<lambda>d. d = cancelled_start) u \<subseteq> starts_with_result (\<lambda>d. d = cancelled_start) s \<or> stop_spawns s < stop_spawns u"
    using assms unfolding latch_follows_def by (linarith, elim conjE disjE) (blast, simp_all)
  moreover have "lc_latched s \<longrightarrow> lc_latched u \<and> motion_spawns u = motion_spawns s \<and> start_calls u \<le> start_calls s \<and>
      starts_with_result (\<lambda>d. d \<noteq> cancelled_start) u \<subseteq> starts_with_result (\<lambda>d. d \<noteq> cancelled_start) s"
    using assms unfolding latch_follows_def by (intro impI, simp) (blast dest: le_trans)
  ultimately show ?thesis by (simp add: latch_follows_def)
qed

text \<open>A step that decides no result and starts nothing.\<close>

lemma latch_follows_frame:
  assumes "lc_jobs t = lc_jobs s" "lc_outcomes t = lc_outcomes s" "lc_latched s \<longrightarrow> lc_latched t"
    "\<And>d rid. bw_pc (lc_worker t) = Executing rid \<Longrightarrow> is_start (lc_jobs s ! rid) \<Longrightarrow> lc_pc t = JobDone (Ret d) \<Longrightarrow>
       bw_pc (lc_worker s) = Executing rid \<and> lc_pc s = JobDone (Ret d)"
    "stop_spawns s \<le> stop_spawns t" "lc_latched s \<longrightarrow> motion_spawns t = motion_spawns s \<and> start_calls t \<le> start_calls s"
  shows "latch_follows s t"
proof -
  have "starts_with_result P t \<subseteq> starts_with_result P s" for P
    using assms(1,2,4) by (auto simp: starts_with_result_def)
  with assms(3,5,6) show ?thesis by (simp add: latch_follows_def)
qed

lemma spawn_counts [simp]:
  "motion_spawns (s\<lparr>lc_spawned := lc_spawned s @ [k]\<rparr>) = (if k = StartProcess \<or> k = MissionProcess then motion_spawns s @ [k] else motion_spawns s)"
  "stop_spawns (s\<lparr>lc_spawned := lc_spawned s @ [k]\<rparr>) = (if k = StopProcess then Suc (stop_spawns s) else stop_spawns s)"
  by (simp_all add: motion_spawns_def stop_spawns_def)

lemma run_stop_counts [simp]:
  "motion_spawns (snd (run_stop run s)) = motion_spawns s" "stop_spawns s \<le> stop_spawns (snd (run_stop run s))"
  "is_ret (fst (run_stop run s)) \<Longrightarrow> stop_spawns (snd (run_stop run s)) = Suc (stop_spawns s)"
  by (auto simp: run_stop_def split: stop_run.splits py_exn.splits)

lemma counts_cong:
  "lc_spawned t = lc_spawned s \<Longrightarrow> motion_spawns t = motion_spawns s \<and> stop_spawns t = stop_spawns s"
  by (simp add: motion_spawns_def stop_spawns_def)

text \<open>The regions of a start decide nothing but a failure, except for the last check and the compensation.\<close>

lemma spawn_checked_cases:
  obtains (cancelled) "spawn_checked kind g popen s = s\<lparr>lc_pc := Compensate\<rparr>"
  | (failed) e where "spawn_checked kind g popen s = s\<lparr>lc_pc := JobDone (Raise e)\<rparr>"
  | (spawned) "\<not> lc_latched s" "spawn_checked kind g popen s = s\<lparr>lc_spawned := lc_spawned s @ [kind],
      lc_process := (kind = StartProcess \<or> lc_process s), lc_pc := (if kind = StartProcess then StartWait g else MissionWait g)\<rparr>"
proof (cases "start_was_cancelled g s")
  case False
  show thesis
  proof (cases popen)
    case (Inl e)
    then have "spawn_checked kind g popen s = s\<lparr>lc_pc := JobDone (Raise (case e of AdapterError code \<Rightarrow> e | _ \<Rightarrow> AdapterError ''TIMEOUT''))\<rparr>"
      using False by (simp add: spawn_checked_def split: py_exn.splits)
    then show thesis by (rule failed)
  next
    case (Inr u)
    with False show thesis by (intro spawned) (simp_all add: spawn_checked_def start_was_cancelled_def)
  qed
qed (use cancelled in \<open>simp add: spawn_checked_def\<close>)

lemma spawn_checked_follows:
  assumes "lc_pc s = StartSpawn h \<or> lc_pc s = MissionSpawn h" "kind = StartProcess \<or> kind = MissionProcess"
  shows "latch_follows s (spawn_checked kind g popen s)"
  using assms by (cases rule: spawn_checked_cases [of kind g popen s])
    (auto intro!: latch_follows_frame simp: start_calls_def motion_spawns_def stop_spawns_def)

text \<open>A region that only moves the worker, to a place no nearer to the start service unless the latch is open.\<close>

lemma latch_follows_move:
  assumes "lc_jobs t = lc_jobs s" "lc_outcomes t = lc_outcomes s" "lc_worker t = lc_worker s" "lc_latched s \<longrightarrow> lc_latched t"
    "lc_spawned t = lc_spawned s" "lc_triggered t = lc_triggered s" "\<And>d. lc_pc t = JobDone (Ret d) \<Longrightarrow> lc_pc s = JobDone (Ret d)"
    "(\<exists>g. lc_pc s = OdometryStatus g) \<or> (\<forall>g. lc_pc t \<noteq> TriggerStart g \<and> (lc_latched s \<longrightarrow> lc_pc t \<noteq> OdometryStatus g))"
  shows "latch_follows s t"
proof (rule latch_follows_frame)
  show "lc_latched s \<longrightarrow> motion_spawns t = motion_spawns s \<and> start_calls t \<le> start_calls s"
    using assms(5,6,8) by (auto simp: motion_spawns_def start_calls_def split: job_pc.splits)
qed (use assms in \<open>simp_all add: stop_spawns_def\<close>)

lemma start_regions_follow:
    "lc_pc s = StartWait g \<Longrightarrow> latch_follows s (start_waited e g s)"
    "lc_pc s = StartParsed g r \<Longrightarrow> latch_follows s (start_parsed g r (StartRan g) s)"
    "lc_pc s = MissionParsed g r \<Longrightarrow> latch_follows s (start_parsed g r (StartFinal g) s)"
    "lc_pc s = StartRan g \<Longrightarrow> latch_follows s (cancelled_or g (if b then OdometryFirst g else MissionSpawn g) s)"
    "lc_pc s = OdometryFirst g \<Longrightarrow> latch_follows s (cancelled_or g (OdometryCheck g) s)"
    "lc_pc s = MissionWait g \<Longrightarrow> latch_follows s (mission_waited e reaped g s)"
    "lc_pc s = OdometryCheck g \<Longrightarrow> latch_follows s (odometry_check expired g s)"
    "lc_pc s = OdometryStatus g \<Longrightarrow> latch_follows s (odometry_status d g s)"
  by (rule latch_follows_move;
      auto simp: start_waited_def start_parsed_def cancelled_or_def mission_waited_def odometry_check_def
        odometry_status_def latch_stop_def start_was_cancelled_def split: sum.splits process_end.splits if_splits)+

lemma trigger_follows:
  assumes "lc_pc s = TriggerStart g" shows "latch_follows s (trigger_start r g s)"
proof (rule latch_follows_frame)
  show "lc_latched s \<longrightarrow> motion_spawns (trigger_start r g s) = motion_spawns s \<and> start_calls (trigger_start r g s) \<le> start_calls s"
    using assms by (simp add: trigger_start_def motion_spawns_def start_calls_def Let_def)
qed (use assms in \<open>auto simp: trigger_start_def stop_spawns_def Let_def split: if_splits\<close>)

text \<open>A step that runs the stop command and decides no result but a failure.\<close>

lemma latch_follows_stop_run:
  assumes "lc_jobs t = lc_jobs s" "lc_outcomes t = lc_outcomes s" "lc_worker t = lc_worker s" "lc_latched t = lc_latched s"
    "lc_spawned t = lc_spawned (snd (run_stop run s))" "start_calls t \<le> start_calls s"
    "\<And>d rid. bw_pc (lc_worker s) = Executing rid \<Longrightarrow> is_start (lc_jobs s ! rid) \<Longrightarrow> lc_pc t = JobDone (Ret d) \<Longrightarrow> lc_pc s = JobDone (Ret d)"
  shows "latch_follows s t"
proof (rule latch_follows_frame)
  have "motion_spawns t = motion_spawns (snd (run_stop run s))" "stop_spawns t = stop_spawns (snd (run_stop run s))"
    using counts_cong [OF assms(5)] by simp_all
  then show "lc_latched s \<longrightarrow> motion_spawns t = motion_spawns s \<and> start_calls t \<le> start_calls s" "stop_spawns s \<le> stop_spawns t"
    using assms(6) by simp_all
qed (use assms in simp_all)

lemma start_timed_out_follows: "lc_pc s = StartTimedOut \<Longrightarrow> latch_follows s (start_timed_out run reaped s)"
  by (rule latch_follows_stop_run [where run = run]) (simp_all add: start_timed_out_def case_prod_unfold Let_def start_calls_def)

lemma emergency_follows:
  "latch_follows s (if lc_transport s then s\<lparr>lc_triggered := lc_triggered s @ [STOP]\<rparr> else snd (run_stop run s))"
proof (cases "lc_transport s")
  case True
  then show ?thesis by (simp, intro latch_follows_frame) (simp_all add: start_calls_def stop_spawns_def motion_spawns_def)
next
  case False
  then show ?thesis by (simp, intro latch_follows_stop_run [where run = run]) (simp_all add: start_calls_def)
qed

lemma running_not_cancelled [simp]: "available_state ''running'' \<noteq> cancelled_start"
  by (simp add: cancelled_start_def)

text \<open>The last check of a start decides \<open>running\<close>, and only while the latch is open; the compensation decides
  \<open>cancelled\<close>, and only when its stop process ran.\<close>

lemma start_final_follows:
  assumes "lc_pc s = StartFinal g" shows "latch_follows s (start_final g s)"
proof -
  let ?t = "start_final g s"
  have t: "stop_spawns ?t = stop_spawns s" "motion_spawns ?t = motion_spawns s" "start_calls ?t = start_calls s" "lc_latched ?t = lc_latched s"
    "lc_jobs ?t = lc_jobs s" "lc_outcomes ?t = lc_outcomes s" "lc_worker ?t = lc_worker s"
    using assms by (simp_all add: start_final_def cancelled_or_def stop_spawns_def motion_spawns_def start_calls_def)
  have "starts_with_result P ?t \<subseteq> starts_with_result P s" if "\<not> P (available_state ''running'') \<or> lc_latched s" for P
    using that t by (auto simp: starts_with_result_def start_final_def cancelled_or_def start_was_cancelled_def split: if_splits)
  with t show ?thesis by (simp add: latch_follows_def)
qed

lemma compensate_follows:
  assumes "lc_pc s = Compensate" shows "latch_follows s (compensate run s)"
proof -
  let ?t = "compensate run s"
  have pc: "lc_pc ?t = JobDone (rbind (fst (run_stop run s)) (\<lambda>_. Ret cancelled_start))"
    and t: "lc_latched ?t = lc_latched s" "lc_jobs ?t = lc_jobs s" "lc_outcomes ?t = lc_outcomes s" "lc_worker ?t = lc_worker s"
      "lc_triggered ?t = lc_triggered s" "lc_spawned ?t = lc_spawned (snd (run_stop run s))"
    by (simp_all add: compensate_def case_prod_unfold Let_def)
  have n: "motion_spawns ?t = motion_spawns s" "stop_spawns ?t = stop_spawns (snd (run_stop run s))" "start_calls ?t = start_calls s"
    using counts_cong [OF t(6)] assms pc t by (simp_all add: start_calls_def)
  have "starts_with_result P ?t \<subseteq> starts_with_result P s" if "\<not> P cancelled_start \<or> \<not> is_ret (fst (run_stop run s))" for P
    using that t pc by (auto simp: starts_with_result_def is_ret_iff)
  moreover have "is_ret (fst (run_stop run s)) \<Longrightarrow> stop_spawns s < stop_spawns ?t" using n by simp
  ultimately show ?thesis using t n by (cases "is_ret (fst (run_stop run s))") (simp_all add: latch_follows_def)
qed

text \<open>The job the worker runs: a start in the regions of a start, and no start elsewhere.\<close>

lemma executing_job:
  assumes "lifecycle_inv s" "bw_pc (lc_worker s) = Executing rid"
  shows "job_at (lc_jobs s ! rid) (lc_pc s)" "rid < length (lc_jobs s)"
  using assms executing_less by (auto simp: lifecycle_inv_def)

lemma execute_action_cases:
  assumes "a \<noteq> STOP"
  obtains r ks as where "execute_action a status called run s =
      s\<lparr>lc_pc := JobDone r, lc_spawned := lc_spawned s @ ks, lc_triggered := lc_triggered s @ as\<rparr>"
    "set ks \<subseteq> {StatusProcess, CancelProcess}" "set as \<subseteq> {CANCEL}"
proof (cases "lc_transport s \<and> a = CANCEL")
  case True
  then show thesis
    by (intro that [where r = "rbind called (\<lambda>payload. Ret (action_result CANCEL payload))" and ks = "[]" and as = "[CANCEL]"])
      (simp_all add: execute_action_def)
next
  case False
  show thesis
  proof (cases "(lc_transport s \<and> a \<in> {STATUS, OBSERVE}) \<or> action_process a = None")
    case True
    with False show thesis
      by (intro that [where r = "if lc_transport s \<and> a \<in> {STATUS, OBSERVE} then status else Raise (AdapterError ''PROFILE_INVALID'')"
            and ks = "[]" and as = "[]"])
        (auto simp: execute_action_def)
  next
    case False
    then obtain k where k: "action_process a = Some k" "\<not> (lc_transport s \<and> a \<in> {STATUS, OBSERVE})" by auto
    have "k = StatusProcess \<or> k = CancelProcess" using assms k(1) by (cases a) (simp_all add: action_process_def)
    moreover have "execute_action a status called run s =
        s\<lparr>lc_pc := JobDone (rbind called (\<lambda>payload. Ret (action_result a payload))), lc_spawned := lc_spawned s @ [k],
          lc_triggered := lc_triggered s @ []\<rparr>"
      using assms k \<open>\<not> (lc_transport s \<and> a = CANCEL)\<close> by (auto simp: execute_action_def)
    ultimately show thesis
      by (intro that [where r = "rbind called (\<lambda>payload. Ret (action_result a payload))" and ks = "[k]" and as = "[]"]) auto
  qed
qed

lemma act_follows:
  assumes "lifecycle_inv s" "lc_pc s = Act a" shows "latch_follows s (execute_action a status called run s)"
proof -
  have no: "\<not> is_start (lc_jobs s ! rid)" if "bw_pc (lc_worker s) = Executing rid" for rid
    using executing_job(1) [OF assms(1) that] assms(2) by (cases "lc_jobs s ! rid") simp_all
  show ?thesis
  proof (cases "a = STOP")
    case True
    then show ?thesis using assms(2) no
      by (intro latch_follows_stop_run [where run = run])
        (auto simp: execute_action_def action_process_def case_prod_unfold Let_def start_calls_def)
  next
    case False
    then obtain r ks as where "execute_action a status called run s =
        s\<lparr>lc_pc := JobDone r, lc_spawned := lc_spawned s @ ks, lc_triggered := lc_triggered s @ as\<rparr>"
      "set ks \<subseteq> {StatusProcess, CancelProcess}" "set as \<subseteq> {CANCEL}"
      by (rule execute_action_cases)
    moreover have "filter (\<lambda>k. k = StartProcess \<or> k = MissionProcess) ks = []" if "set ks \<subseteq> {StatusProcess, CancelProcess}"
      using that by (auto simp: filter_empty_conv)
    moreover have "filter (\<lambda>a. a = START) as = []" if "set as \<subseteq> {CANCEL}" using that by (auto simp: filter_empty_conv)
    ultimately show ?thesis using assms(2) no
      by (intro latch_follows_frame) (auto simp: start_calls_def motion_spawns_def stop_spawns_def)
  qed
qed

lemma interrupt_cases:
  obtains r1 where "interrupt_start terminated ended r s = s\<lparr>lc_pc := JobDone r1\<rparr>"
proof (cases "if fst (interrupt_target s) then terminated else Ret ()")
  case (Inl e)
  then have "interrupt_start terminated ended r s =
      s\<lparr>lc_pc := JobDone (Raise (case e of AdapterError code \<Rightarrow> e | _ \<Rightarrow> AdapterError ''UNSAFE_STATE''))\<rparr>"
    by (simp add: interrupt_start_def case_prod_unfold Let_def split: py_exn.split)
  then show thesis by (rule that)
next
  case (Inr u)
  then have "interrupt_start terminated ended r s = s\<lparr>lc_pc := JobDone
      (if snd (interrupt_target s) \<noteq> None \<and> \<not> ended then Raise (AdapterError ''TIMEOUT'') else r)\<rparr>"
    by (simp add: interrupt_start_def case_prod_unfold Let_def)
  then show thesis by (rule that)
qed

lemma interrupt_follows:
  assumes "lifecycle_inv s" "lc_pc s = Interrupting r" shows "latch_follows s (interrupt_start terminated ended r s)"
proof -
  have no: "\<not> is_start (lc_jobs s ! rid)" if "bw_pc (lc_worker s) = Executing rid" for rid
    using executing_job(1) [OF assms(1) that] assms(2) by (cases "lc_jobs s ! rid") simp_all
  obtain r1 where t: "interrupt_start terminated ended r s = s\<lparr>lc_pc := JobDone r1\<rparr>" by (rule interrupt_cases)
  show ?thesis unfolding t
    by (rule latch_follows_frame) (use assms(2) no in \<open>auto simp: stop_spawns_def motion_spawns_def start_calls_def\<close>)
qed

text \<open>The steps of the worker around a job, and the submissions.\<close>

lemma latch_follows_worker:
  assumes "lc_jobs t = lc_jobs s" "lc_outcomes t = lc_outcomes s" "lc_latched t = lc_latched s" "lc_spawned t = lc_spawned s"
    "lc_triggered t = lc_triggered s" "lc_pc t = lc_pc s"
    "\<And>rid. bw_pc (lc_worker t) = Executing rid \<Longrightarrow> bw_pc (lc_worker s) = Executing rid"
  shows "latch_follows s t"
  by (rule latch_follows_frame) (use assms in \<open>auto simp: stop_spawns_def motion_spawns_def start_calls_def\<close>)

lemma take_job_follows:
  assumes "lifecycle_inv s" "bw_pc (lc_worker s) = Waiting" shows "latch_follows s (take_job s)"
proof -
  have "lc_pc s = NoJob" using assms by (simp add: lifecycle_inv_def)
  then show ?thesis using assms(2)
    by (intro latch_follows_frame)
      (auto simp: take_job_def bw_take_def stop_spawns_def motion_spawns_def start_calls_def split: list.splits job.splits)
qed

lemma end_job_follows:
  assumes "lifecycle_inv s" "lc_pc s = JobDone r" "bw_pc (lc_worker s) = Executing rid" shows "latch_follows s (end_job rid r s)"
proof -
  have "starts_with_result P (end_job rid r s) \<subseteq> starts_with_result P s" for P
    using assms(2,3) executing_job(2) [OF assms(1,3)]
    by (auto simp: starts_with_result_def end_job_def bw_ran_def Let_def split: if_splits sum.splits)
  then show ?thesis using assms(2) by (simp add: latch_follows_def end_job_def motion_spawns_def stop_spawns_def start_calls_def)
qed

lemma submit_follows:
  assumes "lifecycle_inv s" shows "latch_follows s (snd (submit_job j s))"
proof -
  let ?t = "snd (submit_job j s)"
  obtain js where t: "lc_jobs ?t = lc_jobs s @ js" "lc_outcomes ?t = lc_outcomes s" "lc_latched ?t = lc_latched s"
    "lc_spawned ?t = lc_spawned s" "lc_triggered ?t = lc_triggered s" "lc_pc ?t = lc_pc s" "bw_pc (lc_worker ?t) = bw_pc (lc_worker s)"
    by (cases "bw_submit True (lc_worker s)") (force simp: submit_job_def bw_submit_def split: if_splits sum.splits)
  have "rid < length (lc_jobs s)" if "lc_outcomes s rid \<noteq> None" for rid using assms that by (auto simp: lifecycle_inv_def)
  then have "starts_with_result P ?t \<subseteq> starts_with_result P s" for P
    using t executing_job(2) [OF assms] by (auto simp: starts_with_result_def nth_append split: if_splits)
  then show ?thesis using t by (simp add: latch_follows_def motion_spawns_def stop_spawns_def start_calls_def)
qed

lemma start_nowait_follows:
  assumes "lifecycle_inv s" shows "latch_follows s (snd (start_nowait s))"
proof (cases "snd (start_nowait s) = s")
  case False
  then obtain u where t: "snd (start_nowait s) = u \<or> (\<exists>rid. snd (start_nowait s) = u\<lparr>lc_receipt := Some rid, lc_started := True\<rparr>)"
    "u = snd (submit_job (StartJob (lc_generation s)) s)"
    by (auto simp: start_nowait_def split: if_splits option.splits sum.splits prod.splits)
  have "latch_follows s u" using submit_follows [OF assms] t(2) by simp
  moreover have "latch_follows u (u\<lparr>lc_receipt := Some rid, lc_started := True\<rparr>)" for rid
    by (rule latch_follows_worker) simp_all
  ultimately show ?thesis using t(1) latch_follows_trans by metis
qed (simp add: latch_follows_refl)

theorem lc_step_follows: "lc_step s t \<Longrightarrow> lifecycle_inv s \<Longrightarrow> latch_follows s t"
proof (induction rule: lc_step.induct)
  case (latch s)
  show ?case by (rule latch_follows_frame) (simp_all add: latch_stop_def stop_spawns_def motion_spawns_def start_calls_def)
next
  case (note_action s a)
  show ?case by (rule latch_follows_worker) (auto simp: record_action_def split: if_splits)
next
  case (emergency s run)
  show ?case by (rule emergency_follows)
next
  case (start_spawn s g popen)
  then show ?case by (intro spawn_checked_follows) simp_all
next
  case (mission_spawn s g popen)
  then show ?case by (intro spawn_checked_follows) simp_all
next
  case (start_ran s g)
  then show ?case by (intro start_regions_follow)
next
  case (publish s rid r)
  show ?case by (rule latch_follows_worker) (simp_all add: bw_publish_def)
next
  case (close s)
  show ?case by (rule latch_follows_worker) (simp_all add: bw_close_begin_def)
next
  case (stopped s)
  show ?case by (rule latch_follows_worker) simp_all
next
  case (leave s)
  show ?case by (rule latch_follows_worker) simp_all
next
  case (exits s)
  show ?case by (rule latch_follows_worker) simp_all
qed (simp_all add: latch_follows_worker start_regions_follow start_timed_out_follows trigger_follows start_final_follows compensate_follows
   act_follows interrupt_follows take_job_follows end_job_follows submit_follows start_nowait_follows)

lemma lc_steps_follow:
  assumes "lc_step\<^sup>*\<^sup>* s t" "lifecycle_inv s" shows "latch_follows s t"
  using assms
proof (induction rule: rtranclp_induct)
  case (step t u)
  then have "lifecycle_inv t" using lifecycle_run.inv_steps by blast
  with step show ?case using lc_step_follows latch_follows_trans by blast
qed (simp add: latch_follows_refl)

text \<open>C9: A start that meets the latch. Whatever the processes and the services answer, once a reachable state has the latch
  set no process that brings up the simulation or the mission is spawned any more; the mission's start service is called at
  most for the one start that is past its last check of the latch; no further start ends as running; and a start ends as
  cancelled only after a stop process was spawned to take back what it had brought up.\<close>
theorem no_start_after_latch:
  assumes "lifecycle_init tr True True = Ret s0" "lc_step\<^sup>*\<^sup>* s0 s" "lc_latched s" "lc_step\<^sup>*\<^sup>* s t"
  shows "lc_latched t \<and> motion_spawns t = motion_spawns s \<and> start_calls t \<le> start_calls s \<and>
    starts_with_result (\<lambda>d. d \<noteq> cancelled_start) t \<subseteq> starts_with_result (\<lambda>d. d \<noteq> cancelled_start) s \<and>
    (starts_with_result (\<lambda>d. d = cancelled_start) t \<subseteq> starts_with_result (\<lambda>d. d = cancelled_start) s \<or>
      stop_spawns s < stop_spawns t)"
proof -
  have "lifecycle_inv s" using lifecycle_run.inv_steps assms(1,2) lifecycle_init_inv by blast
  with lc_steps_follow [OF assms(4)] assms(3) show ?thesis by (simp add: latch_follows_def)
qed

text \<open>The run of the witness: a start is spawned, the latch falls while it is waited for, and the start is taken back.\<close>

abbreviation run_init :: lifecycle where
  "run_init \<equiv> (case lifecycle_init False True True of Inr s \<Rightarrow> s)"

abbreviation run_spawned :: lifecycle where
  "run_spawned \<equiv> spawn_checked StartProcess 0 (Ret ()) (take_job (snd (start_nowait run_init)))"

abbreviation run_cancelled :: lifecycle where
  "run_cancelled \<equiv> compensate (StopRan (Ret [])) (start_parsed 0 (Ret []) (StartRan 0) (start_waited (Exited (Ret [])) 0 (latch_stop run_spawned)))"

lemmas run_defs = lifecycle_init_def bw_start_def bw_init_def start_nowait_def submit_job_def bw_submit_def take_job_def bw_take_def
  spawn_checked_def start_was_cancelled_def latch_stop_def start_waited_def start_parsed_def compensate_def run_stop_def
  EMERGENCY_QUEUE_CAPACITY_def

lemma run_latched: "lc_step\<^sup>*\<^sup>* run_init (latch_stop run_spawned)" "lc_latched (latch_stop run_spawned)"
proof -
  have "lc_step run_init (snd (start_nowait run_init))" by (rule lc_step.start)
  moreover have "lc_step (snd (start_nowait run_init)) (take_job (snd (start_nowait run_init)))"
    by (rule lc_step.take) (simp_all add: run_defs)
  moreover have "lc_step (take_job (snd (start_nowait run_init))) run_spawned"
    by (rule lc_step.start_spawn) (simp add: run_defs)
  moreover have "lc_step run_spawned (latch_stop run_spawned)" by (rule lc_step.latch)
  ultimately show "lc_step\<^sup>*\<^sup>* run_init (latch_stop run_spawned)" by (meson converse_rtranclp_into_rtranclp r_into_rtranclp)
  show "lc_latched (latch_stop run_spawned)" by (simp add: latch_stop_def)
qed

lemma run_taken_back: "lc_step\<^sup>*\<^sup>* (latch_stop run_spawned) run_cancelled"
proof -
  let ?w = "start_waited (Exited (Ret [])) 0 (latch_stop run_spawned)"
  have "lc_step (latch_stop run_spawned) ?w" by (rule lc_step.start_wait) (simp add: run_defs)
  moreover have "lc_step ?w (start_parsed 0 (Ret []) (StartRan 0) ?w)" by (rule lc_step.start_parse) (simp add: run_defs)
  moreover have "lc_step (start_parsed 0 (Ret []) (StartRan 0) ?w) run_cancelled" by (rule lc_step.compensate) (simp add: run_defs)
  ultimately show ?thesis by (meson converse_rtranclp_into_rtranclp r_into_rtranclp)
qed

theorem no_start_after_latch_witness:
  "motion_spawns run_cancelled = motion_spawns (latch_stop run_spawned) \<and> motion_spawns run_cancelled = [StartProcess] \<and>
   0 \<in> starts_with_result (\<lambda>d. d = cancelled_start) run_cancelled \<and> stop_spawns run_cancelled = 1"
proof -
  have "lifecycle_init False True True = Ret run_init" by (simp add: lifecycle_init_def)
  from no_start_after_latch [OF this run_latched run_taken_back]
  have "motion_spawns run_cancelled = motion_spawns (latch_stop run_spawned)" by blast
  then show ?thesis by (simp add: run_defs motion_spawns_def stop_spawns_def starts_with_result_def)
qed

text \<open>The stop command that is to cut a start short cannot find one: in every reachable state in which the worker comes to
  \<^verbatim>\<open>_interrupt_inflight_start\<close>, no start process is registered and the receipt of the last start is already
  settled, for the stop ran behind that start on the same worker.\<close>
theorem interrupt_finds_nothing:
  assumes "lifecycle_init tr True True = Ret s0" "lc_step\<^sup>*\<^sup>* s0 s" "lc_pc s = Interrupting r"
  shows "interrupt_target s = (False, None)"
proof -
  have inv: "lifecycle_inv s" using lifecycle_run.inv_steps assms(1,2) lifecycle_init_inv by blast
  have "\<not> lc_process s" by (rule process_at [OF inv]) (simp_all add: assms(3))
  moreover have "\<not> receipt_open rid s" if rid: "lc_receipt s = Some rid" for rid
  proof -
    obtain i where i: "bw_pc (lc_worker s) = Executing i"
      using inv assms(3) by (cases "bw_pc (lc_worker s)") (auto simp: lifecycle_inv_def)
    have stop: "lc_jobs s ! i = ActionJob STOP" "i < length (lc_jobs s)"
      using executing_job [OF inv i] assms(3) by (cases "lc_jobs s ! i"; simp)+
    have start: "rid < length (lc_jobs s)" "is_start (lc_jobs s ! rid)" using inv rid by (auto simp: lifecycle_inv_def)
    with stop inv have "rid \<le> i" by (meson lifecycle_inv_def not_le)
    moreover have "rid \<noteq> i" using start stop by auto
    ultimately have "rid < i" by simp
    with inv i have "bw_results (lc_worker s) ! rid \<noteq> None" by (intro executed_before_published) (auto simp: lifecycle_inv_def)
    then show ?thesis by (simp add: receipt_open_def)
  qed
  ultimately show ?thesis by (simp add: interrupt_target_def split: option.splits)
qed

abbreviation run_stopping :: lifecycle where
  "run_stopping \<equiv> execute_action STOP (Ret []) (Ret []) (StopRan (Ret []))
     (take_job (snd (submit_job (ActionJob STOP) (latch_stop run_init))))"

theorem interrupt_finds_nothing_witness:
  "lc_step\<^sup>*\<^sup>* run_init run_stopping \<and> interrupt_target run_stopping = (False, None)"
proof -
  let ?q = "snd (submit_job (ActionJob STOP) (latch_stop run_init))"
  have pc: "lc_pc run_stopping = Interrupting (Ret (action_result STOP []))"
    by (simp add: run_defs execute_action_def action_process_def)
  have "lc_step run_init (latch_stop run_init)" by (rule lc_step.latch)
  moreover have "lc_step (latch_stop run_init) ?q" by (rule lc_step.submit) (simp add: latch_stop_def)
  moreover have "lc_step ?q (take_job ?q)" by (rule lc_step.take) (simp_all add: run_defs)
  moreover have "lc_step (take_job ?q) run_stopping" by (rule lc_step.act) (simp add: run_defs)
  ultimately have run: "lc_step\<^sup>*\<^sup>* run_init run_stopping" by (meson converse_rtranclp_into_rtranclp r_into_rtranclp)
  have "lifecycle_init False True True = Ret run_init" by (simp add: lifecycle_init_def)
  from interrupt_finds_nothing [OF this run pc] run show ?thesis by blast
qed

end
