(* ===== verification/Acceptance.thy ===== *)
theory Acceptance
  imports MissionNode Discovery
begin

text \<open>
  The acceptance of a hospital delivery run (\<^verbatim>\<open>examples/hospital_delivery/scripts/verify_acceptance.py\<close>): the reading of
  the route and of the contact bridge, and the validation of a report. The messages of the errors are the constructors of
  \<open>acceptance_error\<close>. The texts of files come decoded; the picture decoder is an argument.
\<close>

section \<open>Values\<close>

text \<open>\<^verbatim>\<open>_number\<close>: a finite number as a float, or nothing. An integer beyond the range of floats raises.\<close>

definition acc_number :: "pyval \<Rightarrow> pyfloat option result" where
  "acc_number v = (if is_number v then rbind (py_float v) (\<lambda>x. Ret (if is_fin x then Some x else None)) else Ret None)"

text \<open>\<^verbatim>\<open>any(p(x) for x in xs)\<close>, where the test can raise.\<close>

fun any_of :: "('a \<Rightarrow> bool result) \<Rightarrow> 'a list \<Rightarrow> bool result" where
  "any_of p [] = Ret False"
| "any_of p (x # xs) = rbind (p x) (\<lambda>b. if b then Ret True else any_of p xs)"

abbreviation or_else :: "bool \<Rightarrow> bool result \<Rightarrow> bool result" where
  "or_else b r \<equiv> (if b then Ret True else r)"

definition no_number :: "pyval \<Rightarrow> bool result" where
  "no_number v = rbind (acc_number v) (\<lambda>x. Ret (x = None))"

fun list_items :: "pyval \<Rightarrow> pyval list" where
  "list_items (VList vs) = vs" | "list_items _ = []"

text \<open>The items of a value that is no list are never looked at; a value that is no dictionary has no \<^verbatim>\<open>get\<close>.\<close>

fun dict_of :: "pyval \<Rightarrow> pydict result" where
  "dict_of (VDict d) = Ret d" | "dict_of _ = Raise PyAttributeError"

fun dict_items :: "pyval list \<Rightarrow> pydict list" where
  "dict_items [] = []" | "dict_items (VDict d # vs) = d # dict_items vs" | "dict_items (_ # vs) = dict_items vs"

definition positive_int :: "pyval \<Rightarrow> bool" where
  "positive_int v = (case v of VInt n \<Rightarrow> 0 < n | _ \<Rightarrow> False)"

fun py_max :: "pyfloat list \<Rightarrow> pyfloat" where
  "py_max [] = NInf" | "py_max (x # xs) = foldl fmax x xs"

abbreviation pairs :: "'a list \<Rightarrow> ('a \<times> 'a) list" where "pairs xs \<equiv> zip xs (tl xs)"

definition gaps :: "pyfloat list \<Rightarrow> pyfloat list" where
  "gaps xs = map (\<lambda>(first, second). fsub second first) (pairs xs)"

text \<open>\<^verbatim>\<open>xs == sorted(xs)\<close> for floats none of which is a NaN.\<close>

definition in_order :: "pyfloat list \<Rightarrow> bool" where "in_order = sorted_wrt fle"

definition close_within :: "pyfloat \<Rightarrow> pyfloat \<Rightarrow> pyfloat \<Rightarrow> bool" where
  "close_within tol a b =
     (case (a, b) of
        (Fin x, Fin y) \<Rightarrow> x = y \<or> (let d = fabs (fsub b a) in fle d (fabs (fmul tol b)) \<or> fle d (fabs (fmul tol a)))
      | _ \<Rightarrow> a = b \<and> a \<noteq> NaN)"

text \<open>\<^verbatim>\<open>int\<close> of an entry, with the default of \<^verbatim>\<open>get\<close> for a missing key.\<close>

definition int_field :: "pydict \<Rightarrow> string \<Rightarrow> int result" where
  "int_field d k = (case dget d (VStr k) of None \<Rightarrow> Ret (-1) | Some v \<Rightarrow> py_int v)"

section \<open>Pictures\<close>

text \<open>Where the pictures are: the regular files by the parts of their path below the project, the decoder's width and height of
  a file (nothing when it cannot decode it or the picture is empty), and the text of a value that is not a string.\<close>

record picture_store =
  ps_files :: "string list \<Rightarrow> string option"
  ps_decode :: "string list \<Rightarrow> (int \<times> int) option"
  ps_text :: "pyval \<Rightarrow> string"

definition PNG_MAGIC :: string where
  "PNG_MAGIC = [CHR 0x89, CHR ''P'', CHR ''N'', CHR ''G'', CHR 0x0D, CHR 0x0A, CHR 0x1A, CHR 0x0A]"

definition png_body :: "picture_store \<Rightarrow> pydict \<Rightarrow> bool result" where
  "png_body ps camera =
     (let p = (case vget camera ''path'' of VStr s \<Rightarrow> s | v \<Rightarrow> ps_text ps v); parts = path_parts p
      in if starts_with ''/'' p \<or> ''..'' \<in> set parts then Ret False
         else case ps_files ps parts of None \<Rightarrow> Ret False
         | Some content \<Rightarrow>
             if lower_str (path_suffix parts) \<noteq> ''.png'' then Ret False
             else rbind (int_field camera ''bytes'') (\<lambda>size.
               if int (length content) \<noteq> size \<or> take 8 content \<noteq> PNG_MAGIC then Ret False
               else (case ps_decode ps parts of None \<Rightarrow> Ret False
                 | Some (width, height) \<Rightarrow>
                     rbind (int_field camera ''width'') (\<lambda>w. if width \<noteq> w then Ret False
                       else rbind (int_field camera ''height'') (\<lambda>h. Ret (height = h))))))"

definition valid_png :: "picture_store \<Rightarrow> pyval \<Rightarrow> bool result" where
  "valid_png ps v =
     (case v of
        VDict camera \<Rightarrow>
          if \<not> truthy (vget camera ''path'') then Ret False
          else (case png_body ps camera of
              Inl e \<Rightarrow> if e \<in> {PyOSError, PyTypeError, PyValueError, PyIndexError} then Ret False else Raise e
            | Inr b \<Rightarrow> Ret b)
      | _ \<Rightarrow> Ret False)"

section \<open>The route and the contact bridge\<close>

definition EXPECTED_STAGE_IDS :: "string list" where "EXPECTED_STAGE_IDS = [''pharmacy'', ''ward2'', ''laboratory'']"

definition load_strict_json :: "pyval result \<Rightarrow> pydict result" where
  "load_strict_json decoded = rbind decoded (\<lambda>v. case v of VDict d \<Rightarrow> Ret d | _ \<Rightarrow> Raise PyValueError)"

definition bad_point :: "nat \<Rightarrow> pyval \<Rightarrow> bool result" where
  "bad_point n v = or_else (\<not> is_list v \<or> length (list_items v) \<noteq> n) (any_of no_number (list_items v))"

definition far_apart :: "pyval \<times> pyval \<Rightarrow> bool result" where
  "far_apart = (\<lambda>(a, b). rbind (py_float a) (\<lambda>x. rbind (py_float b) (\<lambda>y.
     Ret (flt (mk_float (1 / 1000000000)) (fabs (fsub x y))))))"

definition check_stage :: "pydict \<Rightarrow> unit result" where
  "check_stage stage =
     (let endpoint = vget stage ''endpoint''; waypoints = vget stage ''waypoints'' in
      rbind (rbind (bad_point 2 endpoint) (\<lambda>b. or_else b (Ret (\<not> is_list waypoints \<or> list_items waypoints = [])))) (\<lambda>b.
      rbind (guard (\<not> b) PyValueError) (\<lambda>_.
      rbind (any_of (bad_point 2) (list_items waypoints)) (\<lambda>b.
      rbind (guard (\<not> b) PyValueError) (\<lambda>_.
      rbind (any_of far_apart (zip (list_items endpoint) (list_items (last (list_items waypoints))))) (\<lambda>b.
        guard (\<not> b) PyValueError))))))"

definition load_acceptance_route :: "pyval result \<Rightarrow> pydict result" where
  "load_acceptance_route decoded =
     rbind (load_strict_json decoded) (\<lambda>route.
     rbind (bad_point 3 (vget route ''start'')) (\<lambda>b.
     rbind (guard (\<not> b) PyValueError) (\<lambda>_.
     let stages = vget route ''stages'' in
     rbind (guard (is_list stages \<and> length (list_items stages) = length EXPECTED_STAGE_IDS) PyValueError) (\<lambda>_.
     rbind (guard (map (\<lambda>d. vget d ''id'') (dict_items (list_items stages)) = map VStr EXPECTED_STAGE_IDS) PyValueError) (\<lambda>_.
     rbind (rmap (\<lambda>v. rbind (dict_of v) check_stage) (list_items stages)) (\<lambda>_. Ret route))))))"

definition load_contact_sources :: "pyval result \<Rightarrow> string list result" where
  "load_contact_sources bridges =
     (case bridges of
        Inl _ \<Rightarrow> Raise PyValueError
      | Inr v \<Rightarrow>
          if \<not> is_list v then Raise PyValueError
          else (let sources = map (\<lambda>d. vget d ''gz_topic_name'') (filter (\<lambda>d.
                      vget d ''ros_topic_name'' = VStr ''/hospital_amr/contacts'' \<and> vget d ''direction'' = VStr ''GZ_TO_ROS'')
                    (dict_items (list_items v)))
                in if length sources \<noteq> 5 \<or> \<not> list_all nonempty_str sources \<or> \<not> distinct sources then Raise PyValueError
                   else Ret (map str_val sources)))"

section \<open>The validation of a report\<close>

datatype acceptance_error =
    SchemaVersion pyval | MissionState pyval | MissionFailure pyval | MetricSource | RouteFrame | TimeDomain
  | StageOrder | StageNotReached pyval | StageError pyval pyval | StageElapsed pyval
  | ElapsedTime pyval | StageElapsedOrder | StageBudget | WallElapsed | RealTimeFactor | StoppedDrift pyval
  | OdometryMissing | OdometrySummary | OdometryWall | InitialPoseMissing | InitialPose
  | UnknownPublishers pyval | ControllerNotPublishing
  | PublisherEvidence | PublisherInspection pyval | PublisherSamples | PublisherTimes | PublisherCoverage
  | PublisherShared pyval | PublisherChanged
  | Camera | InitialCamera
  | ContactEvidence | ContactCoverage | ContactTopic | ContactMessages | ProhibitedContact pyval | BridgeConfig | ConfiguredSources
  | ContactPublishers | ContactTimes | ContactNotLive | ContactChanged | ContactSampling
  | CollisionFree | SafetyStopFailure

abbreviation fault_if :: "bool \<Rightarrow> acceptance_error \<Rightarrow> acceptance_error list" where
  "fault_if b e \<equiv> (if b then [e] else [])"

definition header_errors :: "pydict \<Rightarrow> acceptance_error list" where
  "header_errors r =
     fault_if (\<not> same_value (vget r ''schema_version'') (VInt 2)) (SchemaVersion (vget r ''schema_version'')) @
     fault_if (vget r ''mission_state'' \<noteq> VStr ''SUCCEEDED'') (MissionState (vget r ''mission_state'')) @
     fault_if (vget r ''failure_code'' \<noteq> VNone) (MissionFailure (vget r ''failure_code'')) @
     fault_if (vget r ''metric_source'' \<noteq> VStr ''diff_drive_odometry'') MetricSource @
     fault_if (vget r ''route_frame'' \<noteq> VStr ''world'') RouteFrame @
     fault_if (vget r ''time_domain'' \<noteq> VStr ''ros_sim_time'') TimeDomain"

text \<open>A number is \<open>within\<close> bounds when it is one; \<open>positive\<close> is the lower bound above zero.\<close>

definition outside :: "pyfloat option \<Rightarrow> pyfloat \<Rightarrow> bool" where
  "outside x hi = (case x of None \<Rightarrow> True | Some v \<Rightarrow> flt v (Fin 0) \<or> flt hi v)"

definition not_positive :: "pyfloat option \<Rightarrow> bool" where
  "not_positive x = (case x of None \<Rightarrow> True | Some v \<Rightarrow> fle v (Fin 0))"

definition exceeds :: "pyfloat option \<Rightarrow> pyfloat \<Rightarrow> bool" where
  "exceeds x hi = (case x of None \<Rightarrow> True | Some v \<Rightarrow> flt hi v)"

text \<open>One stage: its errors, and its elapsed time where that is positive.\<close>

definition stage_check :: "pyval \<Rightarrow> (acceptance_error list \<times> pyfloat list) result" where
  "stage_check v =
     rbind (dict_of v) (\<lambda>d.
     rbind (acc_number (vget d ''endpoint_error'')) (\<lambda>error.
     rbind (acc_number (vget d ''elapsed'')) (\<lambda>elapsed.
       Ret (fault_if (vget d ''reached'' \<noteq> VBool True) (StageNotReached (vget d ''id'')) @
            fault_if (outside error (Fin (1 / 2))) (StageError (vget d ''id'') (vget d ''endpoint_error'')) @
            fault_if (not_positive elapsed) (StageElapsed (vget d ''id'')),
            if not_positive elapsed then [] else [the elapsed]))))"

definition stages_check :: "pyval \<Rightarrow> (acceptance_error list \<times> pyfloat list) result" where
  "stages_check stages =
     (if \<not> is_list stages \<or> map (\<lambda>d. vget d ''id'') (dict_items (list_items stages)) \<noteq> map VStr EXPECTED_STAGE_IDS
      then Ret ([StageOrder], [])
      else rbind (rmap stage_check (list_items stages)) (\<lambda>cs. Ret (concat (map fst cs), concat (map snd cs))))"

definition MAX_ELAPSED :: pyfloat where "MAX_ELAPSED = Fin 180"
definition MAX_WALL_ELAPSED :: pyfloat where "MAX_WALL_ELAPSED = Fin 300"
definition MAX_STAGE_DURATION :: pyfloat where "MAX_STAGE_DURATION = Fin 60"
definition MAX_DRIFT :: pyfloat where "MAX_DRIFT = mk_float (2 / 100)"
definition FACTOR_TOLERANCE :: pyfloat where "FACTOR_TOLERANCE = mk_float (1 / 1000000)"

definition stage_durations :: "pyfloat list \<Rightarrow> pyfloat list" where
  "stage_durations values = hd values # gaps values"

definition elapsed_errors :: "pyfloat list \<Rightarrow> pyfloat option \<Rightarrow> pyval \<Rightarrow> acceptance_error list" where
  "elapsed_errors stage_times elapsed raw =
     fault_if (not_positive elapsed \<or> exceeds elapsed MAX_ELAPSED) (ElapsedTime raw) @
     (if length stage_times = length EXPECTED_STAGE_IDS
      then fault_if (\<not> in_order stage_times \<or> \<not> distinct stage_times \<or> elapsed = None \<or> flt (the elapsed) (last stage_times)) StageElapsedOrder @
           fault_if (list_ex (\<lambda>d. fle d (Fin 0) \<or> flt MAX_STAGE_DURATION d) (stage_durations stage_times)) StageBudget
      else [])"

definition factor_errors :: "pyfloat option \<Rightarrow> pyfloat option \<Rightarrow> pyfloat option \<Rightarrow> acceptance_error list result" where
  "factor_errors factor elapsed wall =
     rbind (or_else (not_positive factor \<or> elapsed = None \<or> not_positive wall)
       (rbind (fdiv (the elapsed) (the wall)) (\<lambda>q. Ret (\<not> close_within FACTOR_TOLERANCE (the factor) q)))) (\<lambda>bad.
     Ret (fault_if (not_positive wall \<or> exceeds wall MAX_WALL_ELAPSED) WallElapsed @ fault_if bad RealTimeFactor))"

text \<open>The four moments of a clock, in the order in which they must come.\<close>

definition clock_fields :: "pydict \<Rightarrow> string list \<Rightarrow> pyfloat option list result" where
  "clock_fields d ks = rmap (\<lambda>k. acc_number (vget d k)) ks"

definition clock_wrong :: "pyfloat option list \<Rightarrow> bool" where
  "clock_wrong ts =
     (case ts of [Some monitor_started, Some mission_started, Some terminal_at, Some monitor_stopped] \<Rightarrow>
        \<not> (fle monitor_started mission_started \<and> flt mission_started terminal_at \<and> fle terminal_at monitor_stopped)
      | _ \<Rightarrow> True)"

definition SIM_CLOCK :: "string list" where
  "SIM_CLOCK = [''monitor_started_sim_time'', ''mission_started_sim_time'', ''terminal_sim_time'', ''monitor_stopped_sim_time'']"

definition WALL_CLOCK :: "string list" where
  "WALL_CLOCK = [''monitor_started_wall_monotonic'', ''mission_started_wall_monotonic'', ''terminal_wall_monotonic'', ''monitor_stopped_wall_monotonic'']"

definition MONITOR_TAIL :: pyfloat where "MONITOR_TAIL = Fin (5 / 2)"

definition initial_pose_errors :: "libm \<Rightarrow> pyval \<Rightarrow> acceptance_error list result" where
  "initial_pose_errors lm initial =
     (case initial of
        VDict d \<Rightarrow>
          rbind (acc_number (vget d ''x'')) (\<lambda>x. rbind (acc_number (vget d ''y'')) (\<lambda>y. rbind (acc_number (vget d ''yaw'')) (\<lambda>yaw.
            Ret (fault_if (x = None \<or> y = None \<or> yaw = None \<or> flt (Fin (1 / 4)) (lm_hypot lm (the x) (the y)) \<or> flt (Fin (1 / 4)) (fabs (the yaw)))
              InitialPose))))
      | _ \<Rightarrow> Ret [InitialPoseMissing])"

definition odometry_errors :: "libm \<Rightarrow> pyval \<Rightarrow> acceptance_error list result" where
  "odometry_errors lm odometry =
     (case odometry of
        VDict d \<Rightarrow>
          rbind (clock_fields d SIM_CLOCK) (\<lambda>sim.
          rbind (clock_fields d WALL_CLOCK) (\<lambda>wall.
          rbind (initial_pose_errors lm (vget d ''initial_odom_pose'')) (\<lambda>pose.
            Ret (fault_if (vget d ''topic'' \<noteq> VStr ''/odom'' \<or> \<not> positive_int (vget d ''sample_count'') \<or>
                   \<not> positive_int (vget d ''post_terminal_sample_count'') \<or> clock_wrong sim \<or>
                   flt (fsub (the (sim ! 3)) (the (sim ! 2))) MONITOR_TAIL) OdometrySummary @
                 fault_if (clock_wrong wall) OdometryWall @ pose))))
      | _ \<Rightarrow> Ret [OdometryMissing])"

definition drift_errors :: "pydict \<Rightarrow> acceptance_error list result" where
  "drift_errors r =
     rbind (acc_number (vget r ''stopped_drift_m'')) (\<lambda>drift.
       Ret (fault_if (outside drift MAX_DRIFT) (StoppedDrift (vget r ''stopped_drift_m''))))"

section \<open>The publishers of the velocity topic\<close>

definition MISSION_NODE :: string where "MISSION_NODE = ''/hospital_mission_controller''"
definition BRIDGE_NODE :: string where "BRIDGE_NODE = ''/hospital_ros_gz_bridge''"

abbreviation dict_field :: "pyval \<Rightarrow> string \<Rightarrow> pyval" where
  "dict_field v k \<equiv> (case v of VDict d \<Rightarrow> vget d k | _ \<Rightarrow> VNone)"

definition sample_time :: "pyval \<Rightarrow> pyfloat option result" where
  "sample_time v = acc_number (dict_field v ''at_unix'')"

text \<open>The samples cover an interval when they begin, follow one another and end within a second.\<close>

definition uncovered :: "pyfloat \<Rightarrow> pyfloat \<Rightarrow> pyfloat list \<Rightarrow> bool" where
  "uncovered started stopped ts \<longleftrightarrow>
     flt (Fin 1) (fsub (hd ts) started) \<or> flt (Fin 1) (fsub stopped (last ts)) \<or> gaps ts \<noteq> [] \<and> flt (Fin 1) (py_max (gaps ts))"

definition required_duration :: "pyfloat option \<Rightarrow> pyfloat" where
  "required_duration wall = fadd (case wall of None \<Rightarrow> Fin 0 | Some w \<Rightarrow> w) MONITOR_TAIL"

definition publisher_time_errors :: "pyfloat option \<Rightarrow> pyfloat option \<Rightarrow> pyfloat option \<Rightarrow> pyfloat option list \<Rightarrow> acceptance_error list" where
  "publisher_time_errors wall started stopped ts =
     (if started = None \<or> stopped = None \<or> flt (the stopped) (the started) \<or> None \<in> set ts \<or> \<not> in_order (map the ts) then [PublisherTimes]
      else fault_if (uncovered (the started) (the stopped) (map the ts) \<or> flt (fsub (the stopped) (the started)) (required_duration wall))
        PublisherCoverage)"

text \<open>A sample is exclusive when its one endpoint is the mission controller with an identity.\<close>

definition exclusive :: "pyval \<Rightarrow> bool" where
  "exclusive sample =
     (case dict_field sample ''endpoints'' of
        VList [VDict d] \<Rightarrow> vget d ''node'' = VStr MISSION_NODE \<and> truthy (vget d ''gid'')
      | _ \<Rightarrow> False)"

text \<open>Every identity in the samples, as they go into a set: one that cannot be hashed raises.\<close>

definition sample_gids :: "pyval \<Rightarrow> pyval list" where
  "sample_gids sample = filter truthy (map (\<lambda>d. vget d ''gid'') (dict_items (list_items (dict_field sample ''endpoints''))))"

definition gid_errors :: "pyval list \<Rightarrow> acceptance_error list result" where
  "gid_errors samples =
     (let gids = concat (map sample_gids samples)
      in if \<not> list_all hashable gids then Raise PyTypeError
         else Ret (fault_if (gids = [] \<or> \<not> list_all (same_value (hd gids)) gids) PublisherChanged))"

definition publisher_sample_errors :: "pyfloat option \<Rightarrow> pydict \<Rightarrow> acceptance_error list result" where
  "publisher_sample_errors wall evidence =
     (let samples = list_items (vget evidence ''samples'')
      in if samples = [] then Ret [PublisherSamples]
         else rbind (acc_number (vget evidence ''monitor_started_unix'')) (\<lambda>started.
              rbind (acc_number (vget evidence ''monitor_stopped_unix'')) (\<lambda>stopped.
              rbind (rmap sample_time samples) (\<lambda>ts.
              rbind (gid_errors samples) (\<lambda>changed.
                Ret (publisher_time_errors wall started stopped ts @
                     (case find (\<lambda>x. \<not> exclusive x) samples of None \<Rightarrow> [] | Some x \<Rightarrow> [PublisherShared x]) @ changed))))))"

definition publisher_errors :: "pyfloat option \<Rightarrow> pydict \<Rightarrow> acceptance_error list result" where
  "publisher_errors wall r =
     (let unknown = vget r ''unknown_publishers''; inspection = dict_field (vget r ''publisher_evidence'') ''inspection_errors'' in
      rbind (case vget r ''publisher_evidence'' of
          VDict evidence \<Rightarrow>
            rbind (publisher_sample_errors wall evidence) (\<lambda>es. Ret (fault_if (inspection \<noteq> VList []) (PublisherInspection inspection) @ es))
        | _ \<Rightarrow> Ret [PublisherEvidence]) (\<lambda>es.
      Ret (fault_if (unknown \<noteq> VList []) (UnknownPublishers unknown) @
           fault_if (VStr MISSION_NODE \<notin> set (list_items (vget r ''cmd_vel_publishers''))) ControllerNotPublishing @ es)))"

section \<open>Contacts\<close>

text \<open>The identities of the bridge's endpoints in a sample.\<close>

definition bridge_gids :: "pyval list \<Rightarrow> string list" where
  "bridge_gids endpoints = remdups (map (\<lambda>d. str_val (vget d ''gid''))
     (filter (\<lambda>d. vget d ''node'' = VStr BRIDGE_NODE \<and> nonempty_str (vget d ''gid'')) (dict_items endpoints)))"

text \<open>The loop over the samples, up to the first that fails: its error, and the times seen until then.\<close>

fun contact_samples :: "nat \<Rightarrow> string list option \<Rightarrow> pyval list \<Rightarrow> (acceptance_error list \<times> pyfloat list) result" where
  "contact_samples n expected [] = Ret ([], [])"
| "contact_samples n expected (sample # samples) =
     rbind (sample_time sample) (\<lambda>stamp.
     case stamp of None \<Rightarrow> Ret ([ContactTimes], [])
     | Some t \<Rightarrow>
         let endpoints = dict_field sample ''endpoints''; gids = bridge_gids (list_items endpoints) in
         if \<not> is_list endpoints \<or> length (list_items endpoints) \<noteq> n \<or> length gids \<noteq> n then Ret ([ContactNotLive], [t])
         else if expected \<noteq> None \<and> set gids \<noteq> set (the expected) then Ret ([ContactChanged], [t])
         else rbind (contact_samples n (Some (case expected of None \<Rightarrow> gids | Some e \<Rightarrow> e)) samples) (\<lambda>(es, ts). Ret (es, t # ts)))"

definition contact_sampling_errors :: "nat \<Rightarrow> pyfloat option \<Rightarrow> pyfloat option \<Rightarrow> pyval \<Rightarrow> acceptance_error list result" where
  "contact_sampling_errors n started stopped samples =
     (if list_items samples = [] then Ret [ContactPublishers]
      else rbind (contact_samples n None (list_items samples)) (\<lambda>(es, ts).
        Ret (es @ fault_if (ts \<noteq> [] \<and> (\<not> in_order ts \<or> started = None \<or> stopped = None \<or> uncovered (the started) (the stopped) ts)) ContactSampling)))"

definition contact_window_wrong :: "pyfloat option \<Rightarrow> pyfloat option list \<Rightarrow> bool" where
  "contact_window_wrong wall window =
     (case window of [Some started, Some stopped, Some publisher_started, Some publisher_stopped] \<Rightarrow>
        flt stopped started \<or> flt (fsub stopped started) (required_duration wall) \<or>
        flt (mk_float (1 / 10)) (fabs (fsub started publisher_started)) \<or> flt (mk_float (1 / 10)) (fabs (fsub stopped publisher_stopped))
      | _ \<Rightarrow> True)"

definition contact_errors :: "pyval result \<Rightarrow> pyfloat option \<Rightarrow> pydict \<Rightarrow> acceptance_error list result" where
  "contact_errors bridges wall r =
     (let publisher = vget r ''publisher_evidence'' in
      case vget r ''contact_evidence'' of
        VDict d \<Rightarrow>
          rbind (rmap acc_number [vget d ''monitor_started_unix'', vget d ''monitor_stopped_unix'',
              dict_field publisher ''monitor_started_unix'', dict_field publisher ''monitor_stopped_unix'']) (\<lambda>window.
          let (bridge, sources) = (case load_contact_sources bridges of Inl e \<Rightarrow> ([BridgeConfig], []) | Inr ss \<Rightarrow> ([], ss)) in
          rbind (contact_sampling_errors (length sources) (window ! 0) (window ! 1) (vget d ''publisher_samples'')) (\<lambda>sampling.
            Ret (fault_if (contact_window_wrong wall window) ContactCoverage @
                 fault_if (vget d ''topic_publishers_seen'' \<noteq> VBool True) ContactTopic @
                 fault_if (\<not> positive_int (vget d ''messages'')) ContactMessages @
                 fault_if (vget d ''prohibited_contacts'' \<noteq> VList []) (ProhibitedContact (vget d ''prohibited_contacts'')) @
                 bridge @ fault_if (vget d ''configured_sources'' \<noteq> VList (map VStr sources)) ConfiguredSources @ sampling)))
      | _ \<Rightarrow> Ret [ContactEvidence])"

section \<open>The whole report\<close>

definition safety_errors :: "pydict \<Rightarrow> acceptance_error list" where
  "safety_errors r =
     fault_if (dict_field (vget r ''safety'') ''collision_free'' \<noteq> VBool True) CollisionFree @
     fault_if (dict_field (vget r ''safety'') ''safety_stop_failure'' \<noteq> VBool False) SafetyStopFailure"

definition camera_errors :: "picture_store \<Rightarrow> pydict \<Rightarrow> acceptance_error list result" where
  "camera_errors ps r =
     rbind (valid_png ps (vget r ''camera'')) (\<lambda>last. rbind (valid_png ps (vget r ''initial_camera'')) (\<lambda>first.
       Ret (fault_if (\<not> last) Camera @ fault_if (\<not> first) InitialCamera)))"

definition validate_acceptance_report :: "libm \<Rightarrow> pyval result \<Rightarrow> picture_store \<Rightarrow> pydict \<Rightarrow> acceptance_error list result" where
  "validate_acceptance_report lm bridges ps r =
     rbind (stages_check (vget r ''stages'')) (\<lambda>(stage_errors, stage_times).
     rbind (acc_number (vget r ''elapsed_seconds'')) (\<lambda>elapsed.
     rbind (acc_number (vget r ''wall_elapsed_seconds'')) (\<lambda>wall.
     rbind (acc_number (vget r ''real_time_factor'')) (\<lambda>factor.
     rbind (factor_errors factor elapsed wall) (\<lambda>factors.
     rbind (drift_errors r) (\<lambda>drift.
     rbind (odometry_errors lm (vget r ''odometry_evidence'')) (\<lambda>odometry.
     rbind (publisher_errors wall r) (\<lambda>publishers.
     rbind (camera_errors ps r) (\<lambda>cameras.
     rbind (contact_errors bridges wall r) (\<lambda>contacts.
       Ret (header_errors r @ stage_errors @ elapsed_errors stage_times elapsed (vget r ''elapsed_seconds'') @ factors @ drift @
         odometry @ publishers @ cameras @ contacts @ safety_errors r)))))))))))"

text \<open>What validation writes into the report, and what the command makes of a report it was given: one that cannot be
  validated is replaced by a failure.\<close>

record checked =
  ck_errors :: "acceptance_error list option"
  ck_passed :: bool

definition checked_report :: "libm \<Rightarrow> pyval result \<Rightarrow> picture_store \<Rightarrow> pydict \<Rightarrow> checked" where
  "checked_report lm bridges ps r =
     (case validate_acceptance_report lm bridges ps r of
        Inl _ \<Rightarrow> \<lparr>ck_errors = None, ck_passed = False\<rparr>
      | Inr es \<Rightarrow> \<lparr>ck_errors = Some es, ck_passed = (es = [])\<rparr>)"

definition validate_command :: "libm \<Rightarrow> pyval result \<Rightarrow> pyval result \<Rightarrow> picture_store \<Rightarrow> checked option \<times> nat" where
  "validate_command lm decoded bridges ps =
     (case load_strict_json decoded of
        Inl _ \<Rightarrow> (None, 1)
      | Inr r \<Rightarrow> let c = checked_report lm bridges ps r in (Some c, if ck_errors c = Some [] then 0 else 1))"

section \<open>An accepted report\<close>

lemma accepted_parts:
  assumes "validate_acceptance_report lm bridges ps r = Ret []"
  obtains ts elapsed wall where "header_errors r = []" "safety_errors r = []" "stages_check (vget r ''stages'') = Ret ([], ts)"
    "acc_number (vget r ''elapsed_seconds'') = Ret elapsed" "elapsed_errors ts elapsed (vget r ''elapsed_seconds'') = []"
    "acc_number (vget r ''wall_elapsed_seconds'') = Ret wall" "publisher_errors wall r = Ret []" "contact_errors bridges wall r = Ret []"
    "odometry_errors lm (vget r ''odometry_evidence'') = Ret []" "drift_errors r = Ret []"
  using assms by (auto simp: validate_acceptance_report_def)

lemma acc_number_Some: "acc_number v = Ret (Some x) \<Longrightarrow> is_fin x"
  by (auto simp: acc_number_def split: if_splits)

lemma stage_check_ok:
  assumes "stage_check v = Ret ([], ts)"
  obtains d x t where "v = VDict d" "vget d ''reached'' = VBool True"
    "acc_number (vget d ''endpoint_error'') = Ret (Some (Fin x))" "0 \<le> x" "x \<le> 1 / 2"
    "acc_number (vget d ''elapsed'') = Ret (Some (Fin t))" "0 < t" "ts = [Fin t]"
proof (cases v)
  case (VDict d)
  with assms obtain error elapsed where n: "acc_number (vget d ''endpoint_error'') = Ret error" "acc_number (vget d ''elapsed'') = Ret elapsed"
    and ok: "vget d ''reached'' = VBool True" "\<not> outside error (Fin (1 / 2))" "\<not> not_positive elapsed" "ts = [the elapsed]"
    by (auto simp: stage_check_def split: if_splits)
  from ok(2,3) obtain e t where "error = Some e" "elapsed = Some t" by (auto simp: outside_def not_positive_def split: option.splits)
  with n ok acc_number_Some obtain x u where "error = Some (Fin x)" "elapsed = Some (Fin u)" by (metis is_fin_iff)
  with n ok show thesis by (intro that [OF VDict]) (auto simp: outside_def not_positive_def)
qed (use assms in \<open>auto simp: stage_check_def\<close>)

lemma stage_checks_ok:
  assumes "rmap stage_check vs = Ret cs" "concat (map fst cs) = []"
  shows "\<exists>ds. vs = map VDict ds \<and> list_all2 (\<lambda>d t. stage_check (VDict d) = Ret ([], [t])) ds (concat (map snd cs))"
  using assms
proof (induction vs arbitrary: cs)
  case (Cons v vs)
  then obtain ts cs1 where c: "stage_check v = Ret ([], ts)" "rmap stage_check vs = Ret cs1" "cs = ([], ts) # cs1" "concat (map fst cs1) = []"
    by auto
  with Cons.IH obtain ds where ds: "vs = map VDict ds" "list_all2 (\<lambda>d t. stage_check (VDict d) = Ret ([], [t])) ds (concat (map snd cs1))" by blast
  from c(1) obtain d t where "v = VDict d" "ts = [Fin t]" by (rule stage_check_ok)
  with c ds show ?case by (intro exI [of _ "d # ds"]) simp
qed simp

lemma stages_check_ok:
  assumes "stages_check v = Ret ([], ts)"
  obtains ds where "v = VList (map VDict ds)" "map (\<lambda>d. vget d ''id'') ds = map VStr EXPECTED_STAGE_IDS"
    "list_all2 (\<lambda>d t. stage_check (VDict d) = Ret ([], [t])) ds ts"
proof -
  from assms obtain vs cs where v: "v = VList vs" "map (\<lambda>d. vget d ''id'') (dict_items vs) = map VStr EXPECTED_STAGE_IDS"
    "rmap stage_check vs = Ret cs" "concat (map fst cs) = []" "ts = concat (map snd cs)"
    by (cases v) (auto simp: stages_check_def split: if_splits)
  from stage_checks_ok [OF v(3,4)] obtain ds where ds: "vs = map VDict ds" "list_all2 (\<lambda>d t. stage_check (VDict d) = Ret ([], [t])) ds ts"
    using v(5) by blast
  moreover have "dict_items (map VDict ds) = ds" by (induction ds) simp_all
  ultimately show thesis using that v(1,2) by simp
qed

text \<open>C16: An accepted report is evidence of a delivery. Its mission succeeded without a failure; its three stages were reached in
  order, each within half a metre of its endpoint; their times increase strictly up to the run's, of at most 180 seconds, with at most
  60 seconds between them; and the robot stood still at the end, within 2 cm.\<close>
theorem accepted_report_is_evidence:
  assumes "validate_acceptance_report lm bridges ps r = Ret []"
  shows "vget r ''mission_state'' = VStr ''SUCCEEDED'' \<and> vget r ''failure_code'' = VNone \<and>
    (\<exists>ds t1 t2 t3 total drift. vget r ''stages'' = VList (map VDict ds) \<and> map (\<lambda>d. vget d ''id'') ds = map VStr EXPECTED_STAGE_IDS \<and>
      (\<forall>d \<in> set ds. vget d ''reached'' = VBool True \<and> (\<exists>x. acc_number (vget d ''endpoint_error'') = Ret (Some (Fin x)) \<and> 0 \<le> x \<and> x \<le> 1 / 2)) \<and>
      map (\<lambda>d. acc_number (vget d ''elapsed'')) ds = [Ret (Some (Fin t1)), Ret (Some (Fin t2)), Ret (Some (Fin t3))] \<and>
      acc_number (vget r ''elapsed_seconds'') = Ret (Some (Fin total)) \<and> 0 < t1 \<and> t1 < t2 \<and> t2 < t3 \<and> t3 \<le> total \<and> total \<le> 180 \<and>
      t1 \<le> 60 \<and> fle (fsub (Fin t2) (Fin t1)) (Fin 60) \<and> fle (fsub (Fin t3) (Fin t2)) (Fin 60) \<and>
      acc_number (vget r ''stopped_drift_m'') = Ret (Some drift) \<and> fle drift (mk_float (2 / 100)))"
proof -
  from assms obtain ts elapsed where parts: "header_errors r = []" "stages_check (vget r ''stages'') = Ret ([], ts)"
    "acc_number (vget r ''elapsed_seconds'') = Ret elapsed" "elapsed_errors ts elapsed (vget r ''elapsed_seconds'') = []" "drift_errors r = Ret []"
    by (rule accepted_parts)
  from parts(2) obtain ds where ds: "vget r ''stages'' = VList (map VDict ds)" "map (\<lambda>d. vget d ''id'') ds = map VStr EXPECTED_STAGE_IDS"
    "list_all2 (\<lambda>d t. stage_check (VDict d) = Ret ([], [t])) ds ts" by (rule stages_check_ok)
  have each: "vget d ''reached'' = VBool True \<and> (\<exists>x. acc_number (vget d ''endpoint_error'') = Ret (Some (Fin x)) \<and> 0 \<le> x \<and> x \<le> 1 / 2) \<and>
      (\<exists>u. acc_number (vget d ''elapsed'') = Ret (Some (Fin u)) \<and> 0 < u \<and> t = Fin u)" if "stage_check (VDict d) = Ret ([], [t])" for d t
    using that by (rule stage_check_ok) auto
  have "length ds = 3" using arg_cong [OF ds(2), of length] by (simp add: EXPECTED_STAGE_IDS_def)
  with ds(3) obtain d1 d2 d3 x1 x2 x3 where list: "ds = [d1, d2, d3]" "ts = [x1, x2, x3]"
    and c: "stage_check (VDict d1) = Ret ([], [x1])" "stage_check (VDict d2) = Ret ([], [x2])" "stage_check (VDict d3) = Ret ([], [x3])"
    by (auto simp: length_Suc_conv eval_nat_numeral list_all2_Cons1)
  from each [OF c(1)] each [OF c(2)] each [OF c(3)] obtain t1 t2 t3 where t: "x1 = Fin t1" "x2 = Fin t2" "x3 = Fin t3" "0 < t1"
    "acc_number (vget d1 ''elapsed'') = Ret (Some (Fin t1))" "acc_number (vget d2 ''elapsed'') = Ret (Some (Fin t2))"
    "acc_number (vget d3 ''elapsed'') = Ret (Some (Fin t3))" by blast
  from parts(4) obtain e where e: "elapsed = Some e" "\<not> flt MAX_ELAPSED e"
    by (auto simp: elapsed_errors_def not_positive_def exceeds_def split: option.splits if_splits)
  moreover obtain total where "e = Fin total" using parts(3) e acc_number_Some is_fin_iff by metis
  ultimately have total: "elapsed = Some (Fin total)" "total \<le> 180" by (simp_all add: MAX_ELAPSED_def)
  have order: "t1 < t2 \<and> t2 < t3 \<and> t3 \<le> total \<and> t1 \<le> 60 \<and> \<not> flt (Fin 60) (fsub (Fin t2) (Fin t1)) \<and> \<not> flt (Fin 60) (fsub (Fin t3) (Fin t2))"
    using parts(4) by (auto simp: elapsed_errors_def list t total EXPECTED_STAGE_IDS_def in_order_def stage_durations_def gaps_def
        MAX_STAGE_DURATION_def split: if_splits)
  have "fsub (Fin t2) (Fin t1) \<noteq> NaN" "fsub (Fin t3) (Fin t2) \<noteq> NaN" by (simp_all add: fsub_def)
  with order have spans: "fle (fsub (Fin t2) (Fin t1)) (Fin 60)" "fle (fsub (Fin t3) (Fin t2)) (Fin 60)" by (simp_all add: not_flt)
  from parts(5) obtain drift where "acc_number (vget r ''stopped_drift_m'') = Ret (Some drift)" "\<not> flt MAX_DRIFT drift"
    by (auto simp: drift_errors_def outside_def split: option.splits if_splits)
  moreover from this have "fle drift (mk_float (2 / 100))" using acc_number_Some not_flt MAX_DRIFT_def mk_float_not_NaN
    by (metis is_fin.simps(4))
  moreover have "vget r ''mission_state'' = VStr ''SUCCEEDED''" "vget r ''failure_code'' = VNone"
    using parts(1) by (auto simp: header_errors_def split: if_splits)
  moreover have "\<forall>d \<in> set ds. vget d ''reached'' = VBool True \<and> (\<exists>x. acc_number (vget d ''endpoint_error'') = Ret (Some (Fin x)) \<and> 0 \<le> x \<and> x \<le> 1 / 2)"
    using each [OF c(1)] each [OF c(2)] each [OF c(3)] by (simp add: list)
  moreover have "map (\<lambda>d. acc_number (vget d ''elapsed'')) ds = [Ret (Some (Fin t1)), Ret (Some (Fin t2)), Ret (Some (Fin t3))]"
    using t by (simp add: list)
  moreover have "acc_number (vget r ''elapsed_seconds'') = Ret (Some (Fin total))" using parts(3) total(1) by simp
  ultimately show ?thesis using ds(1,2) t(4) order spans total(2)
    by (intro conjI exI [of _ ds] exI [of _ t1] exI [of _ t2] exI [of _ t3] exI [of _ total] exI [of _ drift]) (elim conjE, assumption)+
qed

end
