(* ===== verification/AcceptanceMetrics.thy ===== *)
theory AcceptanceMetrics
  imports Acceptance
begin

text \<open>
  What the acceptance derives from the odometry (\<^verbatim>\<open>derive_odom_metrics\<close> of \<^verbatim>\<open>verify_acceptance.py\<close>): when
  and how exactly each stage of the route was reached, and the times and poses of the run. Samples are those the
  monitor's callback records; the route is one that \<^verbatim>\<open>load_acceptance_route\<close> returned.
\<close>

record odom_sample =
  os_sim :: pyfloat
  os_wall :: pyfloat
  os_x :: pyfloat
  os_y :: pyfloat
  os_yaw :: pyfloat

record stage_metric =
  sg_id :: pyval
  sg_name :: pyval
  sg_reached :: bool
  sg_error :: "pyfloat option"
  sg_elapsed :: "pyfloat option"

record odom_metrics =
  om_stages :: "stage_metric list"
  om_elapsed :: pyfloat
  om_wall_elapsed :: pyfloat
  om_factor :: pyfloat
  om_terminal :: odom_sample
  om_stopped :: odom_sample
  om_drift :: pyfloat
  om_count :: nat
  om_first :: odom_sample
  om_last :: odom_sample
  om_post_count :: nat

text \<open>The bounds of the run: its simulation and wall times, when the mission started and when it ended.\<close>

record run_bounds =
  rb_sim_started :: pyfloat
  rb_sim_ended :: pyfloat
  rb_wall_started :: pyfloat
  rb_wall_ended :: pyfloat

definition ros_stamp_seconds :: "pyval \<Rightarrow> pyval \<Rightarrow> pyfloat result" where
  "ros_stamp_seconds sec nanosec =
     (case (sec, nanosec) of
        (VInt s, VInt n) \<Rightarrow>
          if s < 0 \<or> n < 0 \<or> 1000000000 \<le> n \<or> s = 0 \<and> n = 0 then Raise PyValueError
          else rbind (fdiv (mk_float (of_int n)) (Fin 1000000000)) (\<lambda>f. rbind (float_of_int s) (\<lambda>x. Ret (fadd x f)))
      | _ \<Rightarrow> Raise PyValueError)"

definition stage_row :: "pyval \<Rightarrow> (pyval \<times> pyval \<times> pyfloat \<times> pyfloat) result" where
  "stage_row v =
     rbind (dict_of v) (\<lambda>d.
     case dget d (VStr ''id'') of
       None \<Rightarrow> Raise PyKeyError
     | Some i \<Rightarrow>
         (case list_items (vget d ''endpoint'') of
            a # b # _ \<Rightarrow> rbind (py_float a) (\<lambda>x. rbind (py_float b) (\<lambda>y.
              Ret (i, (case dget d (VStr ''name'') of None \<Rightarrow> i | Some n \<Rightarrow> n), x, y)))
          | _ \<Rightarrow> Raise PyIndexError))"

definition world_to_odom :: "libm \<Rightarrow> pyval list \<Rightarrow> pyfloat \<Rightarrow> pyfloat \<Rightarrow> (pyfloat \<times> pyfloat) result" where
  "world_to_odom lm start world_x world_y =
     rbind (rmap py_float start) (\<lambda>pose.
     case pose of
       [start_x, start_y, start_yaw] \<Rightarrow>
         let dx = fsub world_x start_x; dy = fsub world_y start_y in
         rbind (py_cos lm start_yaw) (\<lambda>cosine. rbind (py_sin lm start_yaw) (\<lambda>sine.
           Ret (fadd (fmul cosine dx) (fmul sine dy), fadd (fmul (fneg sine) dx) (fmul cosine dy))))
     | _ \<Rightarrow> Raise PyValueError)"

fun first_index :: "('a \<Rightarrow> bool) \<Rightarrow> 'a list \<Rightarrow> nat option" where
  "first_index p [] = None"
| "first_index p (x # xs) = (if p x then Some 0 else map_option Suc (first_index p xs))"

definition sample_distance :: "libm \<Rightarrow> pyfloat \<times> pyfloat \<Rightarrow> odom_sample \<Rightarrow> pyfloat" where
  "sample_distance lm target s = lm_hypot lm (fsub (os_x s) (fst target)) (fsub (os_y s) (snd target))"

text \<open>One stage, searched for from the sample after the one that reached the stage before.\<close>

definition find_stage ::
  "libm \<Rightarrow> pyfloat \<Rightarrow> (nat \<times> odom_sample) list \<Rightarrow> nat \<Rightarrow> pyfloat \<times> pyfloat \<Rightarrow> (nat \<times> odom_sample) option \<times> pyfloat option" where
  "find_stage lm tolerance limit cursor target =
     (let candidates = drop cursor limit; distances = map (\<lambda>c. sample_distance lm target (snd c)) candidates
      in case first_index (\<lambda>d. fle d tolerance) distances of
           Some k \<Rightarrow> (Some (candidates ! k), Some (distances ! k))
         | None \<Rightarrow> (None, if distances = [] then None else Some (py_min distances)))"

fun stage_metrics ::
  "libm \<Rightarrow> pyfloat \<Rightarrow> pyfloat \<Rightarrow> pyval list \<Rightarrow> (nat \<times> odom_sample) list \<Rightarrow> nat \<Rightarrow> (pyval \<times> pyval \<times> pyfloat \<times> pyfloat) list \<Rightarrow>
    stage_metric list result" where
  "stage_metrics lm tolerance started start limit cursor [] = Ret []"
| "stage_metrics lm tolerance started start limit cursor ((i, name, x, y) # rows) =
     rbind (world_to_odom lm start x y) (\<lambda>target.
     let (entered, error) = find_stage lm tolerance limit cursor target in
     rbind (stage_metrics lm tolerance started start limit (case entered of None \<Rightarrow> cursor | Some (index, _) \<Rightarrow> Suc index) rows) (\<lambda>ms.
       Ret (\<lparr>sg_id = i, sg_name = name, sg_reached = (entered \<noteq> None), sg_error = error,
             sg_elapsed = map_option (\<lambda>e. fsub (os_sim (snd e)) started) entered\<rparr> # ms)))"

definition sample_finite :: "odom_sample \<Rightarrow> bool" where
  "sample_finite s \<longleftrightarrow> is_fin (os_sim s) \<and> is_fin (os_wall s) \<and> is_fin (os_x s) \<and> is_fin (os_y s) \<and> is_fin (os_yaw s)"

definition bounds_ok :: "run_bounds \<Rightarrow> bool" where
  "bounds_ok b \<longleftrightarrow>
     is_fin (rb_sim_started b) \<and> is_fin (rb_sim_ended b) \<and> is_fin (rb_wall_started b) \<and> is_fin (rb_wall_ended b) \<and>
     \<not> (fle (rb_sim_started b) (Fin 0) \<or> fle (rb_sim_ended b) (rb_sim_started b) \<or>
        flt (rb_wall_started b) (Fin 0) \<or> fle (rb_wall_ended b) (rb_wall_started b))"

definition samples_ok :: "odom_sample list \<Rightarrow> bool" where
  "samples_ok samples \<longleftrightarrow>
     samples \<noteq> [] \<and> list_all sample_finite samples \<and>
     list_all (\<lambda>s. \<not> fle (os_sim s) (Fin 0) \<and> \<not> flt (os_wall s) (Fin 0)) samples \<and>
     list_all (\<lambda>(a, b). \<not> fle (os_sim b) (os_sim a) \<and> \<not> flt (os_wall b) (os_wall a)) (pairs samples)"

definition route_start :: "pydict \<Rightarrow> pyval list" where
  "route_start route = (case dget route (VStr ''start'') of None \<Rightarrow> replicate 3 (VFloat (Fin 0)) | Some v \<Rightarrow> list_items v)"

definition before_end :: "run_bounds \<Rightarrow> odom_sample list \<Rightarrow> (nat \<times> odom_sample) list" where
  "before_end b ordered = filter (\<lambda>(_, s). fle (os_sim s) (rb_sim_ended b)) (enumerate 0 ordered)"

definition odom_tolerance :: pyfloat where "odom_tolerance = Fin (1 / 2)"

definition derive_odom_metrics :: "libm \<Rightarrow> pydict \<Rightarrow> odom_sample list \<Rightarrow> run_bounds \<Rightarrow> odom_metrics result" where
  "derive_odom_metrics lm route samples b =
     rbind (rmap stage_row (list_items (vget route ''stages''))) (\<lambda>rows.
     rbind (guard (length rows = 3) PyValueError) (\<lambda>_.
     rbind (guard (bounds_ok b) PyValueError) (\<lambda>_.
     rbind (guard (samples_ok samples) PyValueError) (\<lambda>_.
     let ordered = filter (\<lambda>s. fle (rb_sim_started b) (os_sim s)) samples in
     rbind (guard (ordered \<noteq> []) PyValueError) (\<lambda>_.
     rbind (stage_metrics lm odom_tolerance (rb_sim_started b) (route_start route) (before_end b ordered) 0 rows) (\<lambda>stages.
     let ended = filter (\<lambda>s. fle (os_sim s) (rb_sim_ended b)) ordered;
         terminal = (if ended = [] then hd ordered else last ended); stopped = last samples;
         sim_elapsed = fsub (rb_sim_ended b) (rb_sim_started b); wall_elapsed = fsub (rb_wall_ended b) (rb_wall_started b) in
     rbind (fdiv sim_elapsed wall_elapsed) (\<lambda>factor.
       Ret \<lparr>om_stages = stages, om_elapsed = sim_elapsed, om_wall_elapsed = wall_elapsed, om_factor = factor,
            om_terminal = terminal, om_stopped = stopped,
            om_drift = lm_hypot lm (fsub (os_x stopped) (os_x terminal)) (fsub (os_y stopped) (os_y terminal)),
            om_count = length samples, om_first = hd samples, om_last = stopped,
            om_post_count = length (filter (\<lambda>s. flt (rb_sim_ended b) (os_sim s)) samples)\<rparr>)))))))"

text \<open>The metrics as they go into the report.\<close>

abbreviation float_or_none :: "pyfloat option \<Rightarrow> pyval" where
  "float_or_none x \<equiv> (case x of None \<Rightarrow> VNone | Some v \<Rightarrow> VFloat v)"

definition stage_document :: "stage_metric \<Rightarrow> pyval" where
  "stage_document g = VDict [(VStr ''id'', sg_id g), (VStr ''name'', sg_name g), (VStr ''reached'', VBool (sg_reached g)),
     (VStr ''endpoint_error'', float_or_none (sg_error g)), (VStr ''elapsed'', float_or_none (sg_elapsed g))]"

definition pose_document :: "odom_sample \<Rightarrow> pyval" where
  "pose_document s = VDict [(VStr ''x'', VFloat (os_x s)), (VStr ''y'', VFloat (os_y s)), (VStr ''yaw'', VFloat (os_yaw s))]"

definition evidence_document :: "run_bounds \<Rightarrow> odom_metrics \<Rightarrow> pydict" where
  "evidence_document b m =
     [(VStr ''topic'', VStr ''/odom''), (VStr ''sample_count'', VInt (int (om_count m))),
      (VStr ''monitor_started_sim_time'', VFloat (os_sim (om_first m))), (VStr ''mission_started_sim_time'', VFloat (rb_sim_started b)),
      (VStr ''terminal_sim_time'', VFloat (rb_sim_ended b)), (VStr ''monitor_stopped_sim_time'', VFloat (os_sim (om_last m))),
      (VStr ''monitor_started_wall_monotonic'', VFloat (os_wall (om_first m))), (VStr ''mission_started_wall_monotonic'', VFloat (rb_wall_started b)),
      (VStr ''terminal_wall_monotonic'', VFloat (rb_wall_ended b)), (VStr ''monitor_stopped_wall_monotonic'', VFloat (os_wall (om_last m))),
      (VStr ''post_terminal_sample_count'', VInt (int (om_post_count m))), (VStr ''initial_odom_pose'', pose_document (om_first m))]"

definition metrics_document :: "run_bounds \<Rightarrow> odom_metrics \<Rightarrow> pydict" where
  "metrics_document b m =
     [(VStr ''metric_source'', VStr ''diff_drive_odometry''), (VStr ''route_frame'', VStr ''world''), (VStr ''time_domain'', VStr ''ros_sim_time''),
      (VStr ''stages'', VList (map stage_document (om_stages m))), (VStr ''elapsed_seconds'', VFloat (om_elapsed m)),
      (VStr ''wall_elapsed_seconds'', VFloat (om_wall_elapsed m)), (VStr ''real_time_factor'', VFloat (om_factor m)),
      (VStr ''terminal_pose'', pose_document (om_terminal m)), (VStr ''stopped_pose'', pose_document (om_stopped m)),
      (VStr ''stopped_drift_m'', VFloat (om_drift m)), (VStr ''odometry_evidence'', VDict (evidence_document b m))]"

section \<open>Lists in order\<close>

lemma pairs_sorted:
  assumes "transp R" shows "list_all (\<lambda>(a, b). R a b) (pairs xs) \<longleftrightarrow> sorted_wrt R xs"
proof (induction xs)
  case (Cons x xs)
  show ?case
  proof (cases xs)
    case (Cons y ys)
    then have "list_all (R x) ys" if "R x y" "sorted_wrt R (y # ys)"
      using that transpD [OF assms] by (auto simp: list_all_iff)
    with Cons.IH Cons show ?thesis by (auto simp: list_all_iff)
  qed simp
qed simp

text \<open>In a list along which a condition is only ever lost, those that meet it are the front.\<close>

lemma filter_enumerate_front:
  assumes "sorted_wrt (\<lambda>a b. P b \<longrightarrow> P a) xs"
  shows "filter (\<lambda>(_, s). P s) (enumerate n xs) = enumerate n (takeWhile P xs)"
  using assms
proof (induction xs arbitrary: n)
  case (Cons x xs)
  then have "\<not> P x \<Longrightarrow> takeWhile P xs = []" by (cases xs) auto
  with Cons show ?case by (cases "P x") auto
qed simp

lemma filter_front:
  assumes "sorted_wrt (\<lambda>a b. P b \<longrightarrow> P a) xs" shows "filter P xs = takeWhile P xs"
  using assms by (induction xs) (auto simp: filter_empty_conv)

lemma first_index_iff:
  "first_index p xs = Some k \<longleftrightarrow> k < length xs \<and> p (xs ! k) \<and> (\<forall>j < k. \<not> p (xs ! j))"
proof (induction xs arbitrary: k)
  case (Cons x xs)
  show ?case by (cases k) (auto simp: Cons.IH less_Suc_eq_0_disj)
qed simp

lemma first_index_map: "first_index p (map f xs) = first_index (\<lambda>x. p (f x)) xs"
  by (induction xs) simp_all

lemma first_index_None: "first_index p xs = None \<longleftrightarrow> (\<forall>j < length xs. \<not> p (xs ! j))"
  by (induction xs) (auto simp: less_Suc_eq_0_disj)

text \<open>What is looked for can be found in order: at strictly increasing places.\<close>

definition visited_in_order :: "('a \<Rightarrow> 'b \<Rightarrow> bool) \<Rightarrow> 'a list \<Rightarrow> 'b list \<Rightarrow> bool" where
  "visited_in_order P as xs \<longleftrightarrow> (\<exists>ks. sorted_wrt (<) ks \<and> list_all2 (\<lambda>a k. k < length xs \<and> P a (xs ! k)) as ks)"

text \<open>The first place that fits is as good as any.\<close>

lemma visited_greedy:
  "visited_in_order P (a # as) xs \<longleftrightarrow>
    (case first_index (P a) xs of None \<Rightarrow> False | Some k \<Rightarrow> visited_in_order P as (drop (Suc k) xs))"
proof (cases "first_index (P a) xs")
  case None
  then have "\<forall>j < length xs. \<not> P a (xs ! j)" by (simp add: first_index_None)
  then have "\<not> visited_in_order P (a # as) xs" by (auto simp: visited_in_order_def list_all2_Cons1)
  with None show ?thesis by simp
next
  case (Some k)
  then have k: "k < length xs" "P a (xs ! k)" and least: "\<And>j. j < k \<Longrightarrow> \<not> P a (xs ! j)" by (auto simp: first_index_iff)
  have "visited_in_order P as (drop (Suc k) xs)" if visited: "visited_in_order P (a # as) xs"
  proof -
    from visited obtain k0 ks where ks: "sorted_wrt (<) (k0 # ks)" "P a (xs ! k0)" "list_all2 (\<lambda>a k. k < length xs \<and> P a (xs ! k)) as ks"
      by (auto simp: visited_in_order_def list_all2_Cons1)
    then have "k \<le> k0" using least not_less by blast
    with ks(1) have after: "\<And>j. j \<in> set ks \<Longrightarrow> k < j" by fastforce
    have "sorted_wrt (<) (map (\<lambda>j. j - Suc k) ks)"
      unfolding sorted_wrt_map
    proof (rule sorted_wrt_mono_rel [of ks "(<)"])
      show "x - Suc k < y - Suc k" if "x \<in> set ks" "x < y" for x y using that(2) after [OF that(1)] by linarith
    qed (use ks(1) in simp)
    moreover have "list_all2 (\<lambda>a j. j < length (drop (Suc k) xs) \<and> P a (drop (Suc k) xs ! j)) as (map (\<lambda>j. j - Suc k) ks)"
      unfolding list.rel_map
    proof (rule list.rel_mono_strong [OF ks(3)])
      fix a j assume "j \<in> set ks" "j < length xs \<and> P a (xs ! j)"
      moreover from this after [of j] have "j - Suc k < length xs - Suc k" by linarith
      ultimately show "j - Suc k < length (drop (Suc k) xs) \<and> P a (drop (Suc k) xs ! (j - Suc k))" using after [of j] by simp
    qed
    ultimately show ?thesis unfolding visited_in_order_def by blast
  qed
  moreover have "visited_in_order P (a # as) xs" if visited: "visited_in_order P as (drop (Suc k) xs)"
  proof -
    from visited obtain ks where ks: "sorted_wrt (<) ks" "list_all2 (\<lambda>a j. j < length (drop (Suc k) xs) \<and> P a (drop (Suc k) xs ! j)) as ks"
      by (auto simp: visited_in_order_def)
    have "sorted_wrt (<) (k # map (\<lambda>j. Suc k + j) ks)" using ks(1) by (simp add: sorted_wrt_map)
    moreover have "list_all2 (\<lambda>a j. j < length xs \<and> P a (xs ! j)) (a # as) (k # map (\<lambda>j. Suc k + j) ks)"
      using k by (auto simp: list.rel_map intro!: list.rel_mono_strong [OF ks(2)])
    ultimately show ?thesis unfolding visited_in_order_def by blast
  qed
  ultimately show ?thesis using Some by auto
qed

lemma visited_Nil [simp]: "visited_in_order P [] xs"
  by (auto simp: visited_in_order_def intro: exI [of _ "[]"])

section \<open>The stages in the odometry\<close>

definition near :: "libm \<Rightarrow> pyfloat \<times> pyfloat \<Rightarrow> odom_sample \<Rightarrow> bool" where
  "near lm target s \<longleftrightarrow> fle (sample_distance lm target s) odom_tolerance"

lemma find_stage_enumerate:
  "find_stage lm odom_tolerance (enumerate 0 w) c target =
     (case first_index (near lm target) (drop c w) of
        Some k \<Rightarrow> (Some (c + k, w ! (c + k)), Some (sample_distance lm target (w ! (c + k))))
      | None \<Rightarrow> (None, if drop c w = [] then None else Some (py_min (map (sample_distance lm target) (drop c w)))))"
proof -
  have d: "map (\<lambda>x. sample_distance lm target (snd x)) (drop c (enumerate 0 w)) = map (sample_distance lm target) (drop c w)"
    by (simp flip: map_map [of _ snd, unfolded comp_def] drop_map)
  have n: "drop c (enumerate 0 w) ! k = (c + k, w ! (c + k))" if "k < length (drop c w)" for k
    using that by (simp add: nth_enumerate_eq)
  show ?thesis
  proof (cases "first_index (near lm target) (drop c w)")
    case None
    then have "first_index (\<lambda>d. fle d odom_tolerance) (map (sample_distance lm target) (drop c w)) = None"
      by (simp add: first_index_map near_def [abs_def])
    with None show ?thesis by (simp add: find_stage_def d)
  next
    case (Some k)
    then have "first_index (\<lambda>d. fle d odom_tolerance) (map (sample_distance lm target) (drop c w)) = Some k"
      by (simp add: first_index_map near_def [abs_def])
    moreover have "k < length (drop c w)" using Some by (simp add: first_index_iff)
    ultimately show ?thesis using Some n [of k] by (simp add: find_stage_def d)
  qed
qed

definition stage_targets :: "libm \<Rightarrow> pyval list \<Rightarrow> (pyval \<times> pyval \<times> pyfloat \<times> pyfloat) list \<Rightarrow> (pyfloat \<times> pyfloat) list result" where
  "stage_targets lm start rows = rmap (\<lambda>(_, _, x, y). world_to_odom lm start x y) rows"

lemma stage_metrics_reached:
  assumes "stage_metrics lm odom_tolerance started start (enumerate 0 w) c rows = Ret gs"
  obtains targets where "stage_targets lm start rows = Ret targets" "list_all sg_reached gs \<longleftrightarrow> visited_in_order (near lm) targets (drop c w)"
  using assms
proof (induction rows arbitrary: c gs thesis)
  case (Cons row rows)
  obtain i n x y where row: "row = (i, n, x, y)" by (cases row)
  from Cons.prems(2) obtain target ms where t: "world_to_odom lm start x y = Ret target"
    and m: "stage_metrics lm odom_tolerance started start (enumerate 0 w)
        (case fst (find_stage lm odom_tolerance (enumerate 0 w) c target) of None \<Rightarrow> c | Some (index, _) \<Rightarrow> Suc index) rows = Ret ms"
    and gs: "gs = \<lparr>sg_id = i, sg_name = n, sg_reached = (fst (find_stage lm odom_tolerance (enumerate 0 w) c target) \<noteq> None),
        sg_error = snd (find_stage lm odom_tolerance (enumerate 0 w) c target),
        sg_elapsed = map_option (\<lambda>e. fsub (os_sim (snd e)) started) (fst (find_stage lm odom_tolerance (enumerate 0 w) c target))\<rparr> # ms"
    by (auto simp: row case_prod_unfold Let_def)
  from m obtain targets where ts: "stage_targets lm start rows = Ret targets"
    and r: "list_all sg_reached ms \<longleftrightarrow> visited_in_order (near lm) targets (drop
        (case fst (find_stage lm odom_tolerance (enumerate 0 w) c target) of None \<Rightarrow> c | Some (index, _) \<Rightarrow> Suc index) w)"
    using Cons.IH by blast
  have "list_all sg_reached gs \<longleftrightarrow> visited_in_order (near lm) (target # targets) (drop c w)"
    using r by (simp add: gs find_stage_enumerate visited_greedy ac_simps split: option.splits)
  moreover have "stage_targets lm start (row # rows) = Ret (target # targets)" using t ts by (simp add: stage_targets_def row)
  ultimately show ?case by (rule Cons.prems(1) [rotated])
qed (simp add: stage_targets_def)

text \<open>The run's samples, from the start of the mission to its end.\<close>

definition run_window :: "run_bounds \<Rightarrow> odom_sample list \<Rightarrow> odom_sample list" where
  "run_window b samples = filter (\<lambda>s. fle (rb_sim_started b) (os_sim s) \<and> fle (os_sim s) (rb_sim_ended b)) samples"

definition route_targets :: "libm \<Rightarrow> pydict \<Rightarrow> (pyfloat \<times> pyfloat) list result" where
  "route_targets lm route = rbind (rmap stage_row (list_items (vget route ''stages''))) (stage_targets lm (route_start route))"

lemma flt_trans: "flt x y \<Longrightarrow> flt y z \<Longrightarrow> flt x z"
  by (cases x; cases y; cases z) auto

lemma samples_ok_sorted:
  assumes "samples_ok samples" shows "sorted_wrt (\<lambda>a b. flt (os_sim a) (os_sim b)) samples" "sorted_wrt (\<lambda>a b. fle (os_wall a) (os_wall b)) samples"
proof -
  have fin: "\<forall>s \<in> set samples. is_fin (os_sim s) \<and> is_fin (os_wall s)"
    using assms by (auto simp: samples_ok_def list_all_iff sample_finite_def)
  have "list_all (\<lambda>(a, b). flt (os_sim a) (os_sim b) \<and> fle (os_wall a) (os_wall b)) (pairs samples)"
    unfolding list_all_iff
  proof (intro ballI, clarify)
    fix a b assume ab: "(a, b) \<in> set (pairs samples)"
    then have "a \<in> set samples" "b \<in> set samples" using list.set_sel(2) by (cases samples; auto dest: set_zip_leftD set_zip_rightD)+
    with fin have "is_fin (os_sim a)" "is_fin (os_sim b)" "is_fin (os_wall a)" "is_fin (os_wall b)" by blast+
    with ab assms show "flt (os_sim a) (os_sim b) \<and> fle (os_wall a) (os_wall b)"
      by (auto simp: samples_ok_def list_all_iff is_fin_iff)
  qed
  then have "list_all (\<lambda>(a, b). flt (os_sim a) (os_sim b)) (pairs samples)" "list_all (\<lambda>(a, b). fle (os_wall a) (os_wall b)) (pairs samples)"
    by (auto simp: list_all_iff)
  moreover have "transp (\<lambda>a b. flt (os_sim a) (os_sim b))" "transp (\<lambda>a b. fle (os_wall a) (os_wall b))"
    using flt_trans fle_trans by (auto intro!: transpI)
  ultimately show "sorted_wrt (\<lambda>a b. flt (os_sim a) (os_sim b)) samples" "sorted_wrt (\<lambda>a b. fle (os_wall a) (os_wall b)) samples"
    using pairs_sorted by (blast, blast)
qed

text \<open>The samples before the end are a front of those after the start, with their places.\<close>

lemma before_end_window:
  assumes "samples_ok samples"
  shows "before_end b (filter (\<lambda>s. fle (rb_sim_started b) (os_sim s)) samples) = enumerate 0 (run_window b samples)"
proof -
  let ?o = "filter (\<lambda>s. fle (rb_sim_started b) (os_sim s)) samples"
  have "sorted_wrt (\<lambda>a b. flt (os_sim a) (os_sim b)) ?o" using samples_ok_sorted(1) [OF assms] by (rule sorted_wrt_filter)
  then have front: "sorted_wrt (\<lambda>x y. fle (os_sim y) (rb_sim_ended b) \<longrightarrow> fle (os_sim x) (rb_sim_ended b)) ?o"
    by (rule sorted_wrt_mono_rel [rotated]) (blast dest: flt_le fle_trans)
  have "run_window b samples = filter (\<lambda>s. fle (os_sim s) (rb_sim_ended b)) ?o" by (simp add: run_window_def conj_commute)
  with filter_enumerate_front [OF front, of 0] filter_front [OF front] show ?thesis by (simp add: before_end_def)
qed

text \<open>C17: The stages count as reached exactly when the robot came near their endpoints one after the other: the search, which
  takes the first sample near each endpoint, misses no run that did.\<close>
theorem reached_iff_visited:
  assumes "derive_odom_metrics lm route samples b = Ret m" "route_targets lm route = Ret targets"
  shows "list_all sg_reached (om_stages m) \<longleftrightarrow> visited_in_order (near lm) targets (run_window b samples)"
proof -
  obtain rows where rows: "rmap stage_row (list_items (vget route ''stages'')) = Ret rows" and ok: "samples_ok samples"
    and ms: "stage_metrics lm odom_tolerance (rb_sim_started b) (route_start route)
      (before_end b (filter (\<lambda>s. fle (rb_sim_started b) (os_sim s)) samples)) 0 rows = Ret (om_stages m)"
    using assms(1) by (auto simp: derive_odom_metrics_def Let_def)
  from stage_metrics_reached [OF ms [unfolded before_end_window [OF ok]]]
  obtain ts where "stage_targets lm (route_start route) rows = Ret ts"
    "list_all sg_reached (om_stages m) \<longleftrightarrow> visited_in_order (near lm) ts (drop 0 (run_window b samples))" by blast
  with rows assms(2) show ?thesis by (simp add: route_targets_def)
qed

section \<open>A run\<close>

text \<open>A straight corridor with its stages a metre apart, and a C library that suffices for it.\<close>

definition corridor_libm :: libm where
  "corridor_libm = \<lparr>lm_hypot = (\<lambda>x y. fmax (fabs x) (fabs y)), lm_atan2 = (\<lambda>_ _. Fin 0), lm_sin = (\<lambda>_. Fin 0), lm_cos = (\<lambda>_. Fin 1)\<rparr>"

definition corridor_stage :: "string \<times> int \<Rightarrow> pyval" where
  "corridor_stage = (\<lambda>(i, x). VDict [(VStr ''id'', VStr i), (VStr ''endpoint'', VList [VInt x, VInt 0]),
     (VStr ''waypoints'', VList [VList [VInt x, VInt 0]])])"

definition corridor_route :: pydict where
  "corridor_route = [(VStr ''start'', VList [VInt 0, VInt 0, VInt 0]),
     (VStr ''stages'', VList (map corridor_stage [(''pharmacy'', 1), (''ward2'', 2), (''laboratory'', 3)]))]"

definition corridor_sample :: "int \<times> int \<Rightarrow> odom_sample" where
  "corridor_sample = (\<lambda>(t, x). \<lparr>os_sim = Fin (of_int t), os_wall = Fin (of_int t), os_x = Fin (of_int x), os_y = Fin 0, os_yaw = Fin 0\<rparr>)"

definition corridor_samples :: "odom_sample list" where
  "corridor_samples = map corridor_sample [(1, 0), (2, 1), (3, 2), (4, 3), (5, 3), (8, 3)]"

definition corridor_bounds :: run_bounds where
  "corridor_bounds = \<lparr>rb_sim_started = Fin 1, rb_sim_ended = Fin 4, rb_wall_started = Fin 1, rb_wall_ended = Fin 4\<rparr>"

lemmas corridor_defs = corridor_libm_def corridor_stage_def corridor_route_def corridor_sample_def corridor_samples_def corridor_bounds_def

lemma corridor_targets: "route_targets corridor_libm corridor_route = Ret [(Fin 1, Fin 0), (Fin 2, Fin 0), (Fin 3, Fin 0)]"
  by (simp add: corridor_defs route_targets_def route_start_def stage_row_def stage_targets_def world_to_odom_def vget_def
      fsub_def py_cos_def py_sin_def float_of_int_def Let_def)

lemma stage_metrics_defined:
  assumes "stage_targets lm start rows = Ret targets" shows "\<exists>gs. stage_metrics lm tolerance started start limit c rows = Ret gs"
  using assms
proof (induction rows arbitrary: c targets)
  case (Cons row rows)
  obtain i n x y where row: "row = (i, n, x, y)" by (cases row)
  from Cons.prems obtain target ts where t: "world_to_odom lm start x y = Ret target" "stage_targets lm start rows = Ret ts"
    by (auto simp: row stage_targets_def)
  with Cons.IH [OF t(2)] show ?case by (simp add: row case_prod_unfold Let_def)
qed simp

lemma corridor_derived: "\<exists>m. derive_odom_metrics corridor_libm corridor_route corridor_samples corridor_bounds = Ret m"
proof -
  obtain rows where rows: "rmap stage_row (list_items (vget corridor_route ''stages'')) = Ret rows" "length rows = 3"
    by (simp add: corridor_defs stage_row_def vget_def float_of_int_def)
  have ok: "bounds_ok corridor_bounds" "samples_ok corridor_samples"
    by (simp_all add: corridor_defs bounds_ok_def samples_ok_def sample_finite_def)
  have ordered: "filter (\<lambda>s. fle (rb_sim_started corridor_bounds) (os_sim s)) corridor_samples = corridor_samples" "corridor_samples \<noteq> []"
    by (simp_all add: corridor_samples_def corridor_sample_def corridor_bounds_def)
  have "stage_targets corridor_libm (route_start corridor_route) rows = Ret [(Fin 1, Fin 0), (Fin 2, Fin 0), (Fin 3, Fin 0)]"
    using corridor_targets rows(1) by (simp add: route_targets_def)
  from stage_metrics_defined [OF this] obtain gs where gs: "stage_metrics corridor_libm odom_tolerance (rb_sim_started corridor_bounds)
      (route_start corridor_route) (before_end corridor_bounds corridor_samples) 0 rows = Ret gs" by blast
  have "fdiv (fsub (rb_sim_ended corridor_bounds) (rb_sim_started corridor_bounds))
      (fsub (rb_wall_ended corridor_bounds) (rb_wall_started corridor_bounds)) = Ret (Fin 1)"
    by (simp add: corridor_bounds_def fsub_def)
  with rows ok ordered gs show ?thesis by (simp add: derive_odom_metrics_def Let_def)
qed

lemma corridor_visited:
  "visited_in_order (near corridor_libm) [(Fin 1, Fin 0), (Fin 2, Fin 0), (Fin 3, Fin 0)] (run_window corridor_bounds corridor_samples)"
proof -
  have window: "run_window corridor_bounds corridor_samples = map corridor_sample [(1, 0), (2, 1), (3, 2), (4, 3)]"
    by (simp add: run_window_def corridor_samples_def corridor_sample_def corridor_bounds_def)
  have "near corridor_libm (Fin (of_int x), Fin 0) (corridor_sample (t, x))" for t x
    by (simp add: near_def sample_distance_def corridor_sample_def corridor_libm_def fsub_def odom_tolerance_def fmax_def)
  from this [of 1] this [of 2] this [of 3] show ?thesis unfolding visited_in_order_def
    by (intro exI [of _ "[1, 2, 3]"]) (simp add: window)
qed

theorem reached_iff_visited_witness:
  "\<exists>m. derive_odom_metrics corridor_libm corridor_route corridor_samples corridor_bounds = Ret m \<and> list_all sg_reached (om_stages m)"
  using corridor_derived corridor_visited reached_iff_visited [OF _ corridor_targets] by blast

end
