(* ===== verification/AcceptanceRun.thy ===== *)
theory AcceptanceRun
  imports AcceptanceMetrics
begin

text \<open>
  The generation of an acceptance report (\<^verbatim>\<open>generate_acceptance_report\<close> of \<^verbatim>\<open>verify_acceptance.py\<close>): a monitor
  that listens to the status, the odometry and the contacts and samples the graph while one mission runs. The loops
  run over what they meet: at each turn the clock readings, at most one message, and the answers of the graph. \<open>mn_seen\<close>
  is a history variable: the pairs of all contacts received.
\<close>

section \<open>The monitor\<close>

datatype stamp_error = StampMalformed | StampNotIncreasing

type_synonym endpoints = "(string \<times> string) list"

record monitor =
  mn_latest :: "pyval option"
  mn_odom :: "odom_sample list"
  mn_stamp_errors :: "stamp_error list"
  mn_publishers :: "(pyfloat \<times> endpoints) list"
  mn_inspection :: "py_exn list"
  mn_messages :: nat
  mn_prohibited :: "(pyfloat \<times> string \<times> string) list"
  mn_topic_seen :: bool
  mn_contact_samples :: "(pyfloat \<times> endpoints) list"
  mn_seen :: "(string \<times> string) list"

definition monitor_init :: monitor where
  "monitor_init = \<lparr>mn_latest = None, mn_odom = [], mn_stamp_errors = [], mn_publishers = [], mn_inspection = [], mn_messages = 0,
     mn_prohibited = [], mn_topic_seen = False, mn_contact_samples = [], mn_seen = []\<rparr>"

text \<open>\<^verbatim>\<open>is_prohibited_robot_contact\<close>: the names form a set, so that equal names are one.\<close>

fun contains :: "string \<Rightarrow> string \<Rightarrow> bool" where
  "contains t [] = (t = [])"
| "contains t (c # cs) = (starts_with t (c # cs) \<or> contains t cs)"

definition is_prohibited_robot_contact :: "string \<Rightarrow> string \<Rightarrow> bool" where
  "is_prohibited_robot_contact first second =
     (let names = remdups [first, second]
      in length (filter (contains ''hospital_amr'') names) = 1 \<and> \<not> list_ex (contains ''ground_plane'') names)"

fun collapse_slashes :: "string \<Rightarrow> string" where
  "collapse_slashes (c # d # cs) =
     (if c = CHR ''/'' \<and> d = CHR ''/'' then c # collapse_slashes cs else c # collapse_slashes (d # cs))"
| "collapse_slashes cs = cs"

definition strip_char :: "char \<Rightarrow> string \<Rightarrow> string" where
  "strip_char c s = rstrip_char c (dropWhile (\<lambda>x. x = c) s)"

text \<open>An endpoint as the graph reports it: namespace, name and identity (as text).\<close>

type_synonym endpoint_info = "string \<times> string \<times> string"

definition graph_endpoints :: "endpoint_info list \<Rightarrow> endpoints" where
  "graph_endpoints infos = map (\<lambda>(namespace, name, gid).
     (let ns = strip_char (CHR ''/'') namespace
      in (collapse_slashes ((if ns \<noteq> [] then CHR ''/'' # ns else []) @ CHR ''/'' # name), gid))) infos"

record graph_answers =
  ga_velocity :: "endpoint_info list result"
  ga_velocity_at :: pyfloat
  ga_contacts :: "endpoint_info list result"
  ga_contacts_at :: pyfloat

definition sample_publishers :: "graph_answers \<Rightarrow> monitor \<Rightarrow> monitor" where
  "sample_publishers g m =
     (case ga_velocity g of
        Inl e \<Rightarrow> m\<lparr>mn_inspection := mn_inspection m @ [e]\<rparr>
      | Inr velocity \<Rightarrow>
          let m1 = m\<lparr>mn_publishers := mn_publishers m @ [(ga_velocity_at g, graph_endpoints velocity)]\<rparr> in
          (case ga_contacts g of
             Inl e \<Rightarrow> m1\<lparr>mn_inspection := mn_inspection m1 @ [e]\<rparr>
           | Inr contacts \<Rightarrow> m1\<lparr>mn_contact_samples := mn_contact_samples m1 @ [(ga_contacts_at g, graph_endpoints contacts)],
                              mn_topic_seen := (mn_topic_seen m1 \<or> graph_endpoints contacts \<noteq> [])\<rparr>))"

text \<open>An odometry message: its stamp, the moment of its receipt, its position and its orientation.\<close>

record odometry =
  od_sec :: pyval
  od_nanosec :: pyval
  od_now :: pyfloat
  od_x :: pyfloat
  od_y :: pyfloat
  od_orientation :: "pyfloat \<times> pyfloat \<times> pyfloat \<times> pyfloat"

datatype monitor_event = StatusMessage "pyval option" | OdometryMessage odometry | ContactsMessage "(pyfloat \<times> string \<times> string) list"

definition on_status :: "pyval option \<Rightarrow> monitor \<Rightarrow> monitor" where
  "on_status decoded m = (case decoded of None \<Rightarrow> m | Some v \<Rightarrow> m\<lparr>mn_latest := Some v\<rparr>)"

definition odometry_yaw :: "libm \<Rightarrow> pyfloat \<times> pyfloat \<times> pyfloat \<times> pyfloat \<Rightarrow> pyfloat" where
  "odometry_yaw lm = (\<lambda>(x, y, z, w). lm_atan2 lm (fmul (Fin 2) (fadd (fmul w z) (fmul x y)))
     (fsub (Fin 1) (fmul (Fin 2) (fadd (fmul y y) (fmul z z)))))"

definition on_odometry :: "libm \<Rightarrow> odometry \<Rightarrow> monitor \<Rightarrow> monitor" where
  "on_odometry lm msg m =
     (case ros_stamp_seconds (od_sec msg) (od_nanosec msg) of
        Inl _ \<Rightarrow> m\<lparr>mn_stamp_errors := mn_stamp_errors m @ [StampMalformed]\<rparr>
      | Inr stamp \<Rightarrow>
          if mn_odom m \<noteq> [] \<and> fle stamp (os_sim (last (mn_odom m))) then m\<lparr>mn_stamp_errors := mn_stamp_errors m @ [StampNotIncreasing]\<rparr>
          else m\<lparr>mn_odom := mn_odom m @ [\<lparr>os_sim = stamp, os_wall = od_now msg, os_x = od_x msg, os_y = od_y msg,
            os_yaw = odometry_yaw lm (od_orientation msg)\<rparr>]\<rparr>)"

definition on_contact :: "pyfloat \<times> string \<times> string \<Rightarrow> monitor \<Rightarrow> monitor" where
  "on_contact c m =
     (let m1 = m\<lparr>mn_seen := mn_seen m @ [snd c]\<rparr>
      in if \<not> is_prohibited_robot_contact (fst (snd c)) (snd (snd c)) \<or> c \<in> set (mn_prohibited m) then m1
         else m1\<lparr>mn_prohibited := mn_prohibited m @ [c]\<rparr>)"

definition on_contacts :: "(pyfloat \<times> string \<times> string) list \<Rightarrow> monitor \<Rightarrow> monitor" where
  "on_contacts cs m = fold on_contact cs (m\<lparr>mn_messages := Suc (mn_messages m)\<rparr>)"

definition handle :: "libm \<Rightarrow> monitor_event option \<Rightarrow> monitor \<Rightarrow> monitor" where
  "handle lm e m =
     (case e of None \<Rightarrow> m | Some (StatusMessage v) \<Rightarrow> on_status v m | Some (OdometryMessage msg) \<Rightarrow> on_odometry lm msg m
      | Some (ContactsMessage cs) \<Rightarrow> on_contacts cs m)"

section \<open>The loops\<close>

text \<open>Nothing is returned when the script of what a loop meets ends before the loop does.\<close>

fun spin_while :: "libm \<Rightarrow> (monitor \<Rightarrow> bool) \<Rightarrow> pyfloat \<Rightarrow> (pyfloat \<times> monitor_event option) list \<Rightarrow> monitor \<Rightarrow> monitor option" where
  "spin_while lm waits deadline [] m = None"
| "spin_while lm waits deadline ((now, e) # looks) m =
     (if flt now deadline \<and> waits m then spin_while lm waits deadline looks (handle lm e m) else Some m)"

definition not_ready :: "monitor \<Rightarrow> bool" where
  "not_ready m \<longleftrightarrow> mn_latest m = None \<or> mn_odom m = []"

text \<open>\<^verbatim>\<open>latest[0].get(k)\<close>.\<close>

definition latest_dict :: "monitor \<Rightarrow> pydict result" where
  "latest_dict m = dict_of (the (mn_latest m))"

definition with_failure :: "string \<Rightarrow> pydict \<Rightarrow> pydict" where
  "with_failure code d = dset (VStr ''failure_code'') (VStr code) d"

datatype start_answer = ServiceMissing | NotDone | CallRaises py_exn | Rejected | Accepted pyfloat

text \<open>Where the run stands when the mission has been started, or could not be.\<close>

record run_state =
  rs_terminal :: "pydict option"
  rs_sim_started :: "pyfloat option"
  rs_wall_started :: "pyfloat option"
  rs_sim_ended :: "pyfloat option"
  rs_wall_ended :: "pyfloat option"

definition run_init :: run_state where
  "run_init = \<lparr>rs_terminal = None, rs_sim_started = None, rs_wall_started = None, rs_sim_ended = None, rs_wall_ended = None\<rparr>"

definition last_sim :: "monitor \<Rightarrow> pyfloat option" where
  "last_sim m = (if mn_odom m = [] then None else Some (os_sim (last (mn_odom m))))"

definition velocity_exclusive :: "monitor \<Rightarrow> bool result" where
  "velocity_exclusive m =
     (if mn_publishers m = [] then Raise PyIndexError
      else Ret (case snd (last (mn_publishers m)) of [(node, _)] \<Rightarrow> node = MISSION_NODE | _ \<Rightarrow> False))"

text \<open>Up to the call of the start service; \<open>m1\<close> is the monitor after the wait for the answer, if there is one.\<close>

definition start_mission :: "start_answer \<Rightarrow> monitor \<Rightarrow> monitor \<Rightarrow> (run_state \<times> monitor) result" where
  "start_mission answer m m1 =
     rbind (if mn_latest m = None then Ret True else rbind (latest_dict m) (\<lambda>d. Ret (vget d ''state'' \<noteq> VStr ''IDLE''))) (\<lambda>busy.
     if busy \<or> mn_odom m = []
     then rbind (if mn_latest m = None then Ret [(VStr ''state'', VStr ''NO_STATUS'')] else latest_dict m) (\<lambda>d.
       Ret (run_init\<lparr>rs_terminal := Some (with_failure (if mn_odom m = [] then ''ODOM_NOT_READY'' else ''MISSION_NOT_IDLE'') d)\<rparr>, m))
     else rbind (velocity_exclusive m) (\<lambda>sole.
       let fails = (\<lambda>code n. rbind (latest_dict n) (\<lambda>d. Ret (run_init\<lparr>rs_terminal := Some (with_failure code d)\<rparr>, n))) in
       if \<not> sole then fails ''CMD_VEL_NOT_EXCLUSIVE'' m
       else (case answer of
           ServiceMissing \<Rightarrow> fails ''MISSION_SERVICE_UNAVAILABLE'' m
         | NotDone \<Rightarrow> fails ''MISSION_START_REJECTED'' m1
         | CallRaises e \<Rightarrow> Raise e
         | Rejected \<Rightarrow> fails ''MISSION_START_REJECTED'' m1
         | Accepted now \<Rightarrow> Ret (run_init\<lparr>rs_wall_started := Some now, rs_sim_started := last_sim m1\<rparr>, m1))))"

text \<open>One turn of a watching loop: the clock at its head and after the spin, the message, the graph if it is sampled, and the
  clock after that.\<close>

record look =
  lk_now :: pyfloat
  lk_event :: "monitor_event option"
  lk_after :: pyfloat
  lk_graph :: graph_answers
  lk_end :: pyfloat

definition SAMPLE_PERIOD :: pyfloat where "SAMPLE_PERIOD = Fin (1 / 4)"

definition take_look :: "libm \<Rightarrow> look \<Rightarrow> pyfloat \<Rightarrow> monitor \<Rightarrow> pyfloat \<times> monitor" where
  "take_look lm k next_sample m =
     (let m1 = handle lm (lk_event k) m
      in if fle next_sample (lk_after k) then (fadd (lk_end k) SAMPLE_PERIOD, sample_publishers (lk_graph k) m1) else (next_sample, m1))"

definition TERMINAL_STATES :: "string list" where "TERMINAL_STATES = [''SUCCEEDED'', ''FAILED'', ''CANCELLED'', ''ESTOPPED'']"

definition mission_ended :: "monitor \<Rightarrow> bool result" where
  "mission_ended m = (if mn_latest m = None then Ret False else rbind (latest_dict m) (\<lambda>d. in_strs (vget d ''state'') TERMINAL_STATES))"

fun watch_mission :: "libm \<Rightarrow> pyfloat \<Rightarrow> pyfloat \<Rightarrow> look list \<Rightarrow> run_state \<Rightarrow> monitor \<Rightarrow> (pyfloat \<times> run_state \<times> monitor) result option" where
  "watch_mission lm deadline next_sample [] s m = None"
| "watch_mission lm deadline next_sample (k # looks) s m =
     (if \<not> flt (lk_now k) deadline then Some (Ret (next_sample, s, m))
      else (let (next1, m1) = take_look lm k next_sample m in
        if rs_terminal s \<noteq> None then Some (Ret (next1, s, m1))
        else (case mission_ended m1 of
            Inl e \<Rightarrow> Some (Raise e)
          | Inr False \<Rightarrow> watch_mission lm deadline next1 looks s m1
          | Inr True \<Rightarrow> Some (rbind (latest_dict m1) (\<lambda>d.
              Ret (next1, s\<lparr>rs_terminal := Some d, rs_wall_ended := Some (lk_end k), rs_sim_ended := last_sim m1\<rparr>, m1))))))"

definition settled :: "run_state \<Rightarrow> monitor \<Rightarrow> bool" where
  "settled s m = (case (rs_sim_ended s, last_sim m) of (Some ended, Some sim) \<Rightarrow> fle MONITOR_TAIL (fsub sim ended) | _ \<Rightarrow> False)"

fun watch_stop :: "libm \<Rightarrow> pyfloat \<Rightarrow> pyfloat \<Rightarrow> look list \<Rightarrow> run_state \<Rightarrow> monitor \<Rightarrow> monitor option" where
  "watch_stop lm deadline next_sample [] s m = None"
| "watch_stop lm deadline next_sample (k # looks) s m =
     (if \<not> flt (lk_now k) deadline then Some m
      else (let (next1, m1) = take_look lm k next_sample m
            in if settled s m1 then Some m1 else watch_stop lm deadline next1 looks s m1))"

text \<open>Between the two: what a run without an end is given for one.\<close>

definition complete_end :: "pyfloat \<Rightarrow> run_state \<Rightarrow> monitor \<Rightarrow> run_state result" where
  "complete_end now s m =
     rbind (case rs_terminal s of
         Some d \<Rightarrow> Ret d
       | None \<Rightarrow> rbind (if mn_latest m = None then Ret [(VStr ''state'', VStr ''NO_STATUS'')] else latest_dict m) (\<lambda>d.
           Ret (if truthy (vget d ''failure_code'') then d else with_failure ''ACCEPTANCE_WALL_TIMEOUT'' d))) (\<lambda>terminal.
     Ret (s\<lparr>rs_terminal := Some terminal,
            rs_wall_ended := (case rs_wall_ended s of None \<Rightarrow> Some now | w \<Rightarrow> w),
            rs_sim_ended := (case rs_sim_ended s of None \<Rightarrow> last_sim m | t \<Rightarrow> t)\<rparr>))"

section \<open>The report\<close>

fun insert_text :: "string \<Rightarrow> string list \<Rightarrow> string list" where
  "insert_text t [] = [t]"
| "insert_text t (u # us) = (if t = u then u # us else if text_le t u then t # u # us else u # insert_text t us)"

text \<open>\<^verbatim>\<open>sorted(set(ts))\<close>.\<close>

definition sorted_set :: "string list \<Rightarrow> string list" where
  "sorted_set ts = foldr insert_text ts []"

abbreviation text_list :: "string list \<Rightarrow> pyval" where "text_list ts \<equiv> VList (map VStr ts)"

definition endpoint_document :: "string \<times> string \<Rightarrow> pyval" where
  "endpoint_document = (\<lambda>(node, gid). VDict [(VStr ''node'', VStr node), (VStr ''gid'', VStr gid)])"

definition sample_document :: "pyfloat \<times> endpoints \<Rightarrow> pyval" where
  "sample_document = (\<lambda>(at_unix, es). VDict [(VStr ''at_unix'', VFloat at_unix), (VStr ''endpoints'', VList (map endpoint_document es))])"

definition contact_document :: "pyfloat \<times> string \<times> string \<Rightarrow> pyval" where
  "contact_document = (\<lambda>(at_unix, first, second).
     VDict [(VStr ''at_unix'', VFloat at_unix), (VStr ''collision1'', VStr first), (VStr ''collision2'', VStr second)])"

definition stamp_error_text :: "stamp_error \<Rightarrow> string" where
  "stamp_error_text e = (case e of StampMalformed \<Rightarrow> ''odometry stamp is malformed or zero''
     | StampNotIncreasing \<Rightarrow> ''odometry sim time is not strictly increasing'')"

text \<open>What stands in for metrics that could not be derived. The texts of the exceptions, here and in the inspection errors, are
  not modelled.\<close>

definition no_metrics :: "monitor \<Rightarrow> pydict" where
  "no_metrics m =
     [(VStr ''metric_source'', VStr ''diff_drive_odometry''), (VStr ''route_frame'', VStr ''world''), (VStr ''time_domain'', VStr ''ros_sim_time''),
      (VStr ''stages'', VList []), (VStr ''elapsed_seconds'', VNone), (VStr ''wall_elapsed_seconds'', VNone), (VStr ''real_time_factor'', VNone),
      (VStr ''terminal_pose'', VNone), (VStr ''stopped_pose'', VNone), (VStr ''stopped_drift_m'', VNone),
      (VStr ''odometry_evidence'', VDict [(VStr ''topic'', VStr ''/odom''), (VStr ''sample_count'', VInt (int (length (mn_odom m)))),
         (VStr ''stamp_errors'', text_list (map stamp_error_text (mn_stamp_errors m))), (VStr ''derivation_error'', VStr [])])]"

definition bounds_of :: "run_state \<Rightarrow> run_bounds option" where
  "bounds_of s =
     (case (rs_sim_ended s, rs_wall_ended s) of
        (Some sim_ended, Some wall_ended) \<Rightarrow>
          Some \<lparr>rb_sim_started = (case rs_sim_started s of None \<Rightarrow> sim_ended | Some t \<Rightarrow> t), rb_sim_ended = sim_ended,
                rb_wall_started = (case rs_wall_started s of None \<Rightarrow> wall_ended | Some t \<Rightarrow> t), rb_wall_ended = wall_ended\<rparr>
      | _ \<Rightarrow> None)"

definition report_metrics :: "libm \<Rightarrow> pydict \<Rightarrow> run_state \<Rightarrow> monitor \<Rightarrow> pydict result" where
  "report_metrics lm route s m =
     (if mn_stamp_errors m \<noteq> [] then Ret (no_metrics m)
      else case bounds_of s of
        None \<Rightarrow> Ret (no_metrics m)
      | Some b \<Rightarrow>
          (case derive_odom_metrics lm route (mn_odom m) b of
             Inl e \<Rightarrow> if e \<in> {PyKeyError, PyTypeError, PyValueError} then Ret (no_metrics m) else Raise e
           | Inr metrics \<Rightarrow> Ret (metrics_document b metrics)))"

definition observed_endpoints :: "monitor \<Rightarrow> endpoints" where
  "observed_endpoints m = rev (remdups (rev (concat (map snd (mn_publishers m)))))"

definition publisher_document :: "pyfloat \<Rightarrow> pyfloat \<Rightarrow> monitor \<Rightarrow> pydict" where
  "publisher_document started stopped m =
     [(VStr ''monitor_started_unix'', VFloat started), (VStr ''monitor_stopped_unix'', VFloat stopped),
      (VStr ''samples'', VList (map sample_document (mn_publishers m))), (VStr ''inspection_errors'', text_list (map (\<lambda>_. []) (mn_inspection m))),
      (VStr ''observed_endpoints'', VList (map endpoint_document (observed_endpoints m)))]"

definition contacts_document :: "pyfloat \<Rightarrow> pyfloat \<Rightarrow> string list \<Rightarrow> monitor \<Rightarrow> pydict" where
  "contacts_document started stopped sources m =
     [(VStr ''topic'', VStr ''/hospital_amr/contacts''), (VStr ''monitor_started_unix'', VFloat started), (VStr ''monitor_stopped_unix'', VFloat stopped),
      (VStr ''topic_publishers_seen'', VBool (mn_topic_seen m)), (VStr ''messages'', VInt (int (mn_messages m))),
      (VStr ''prohibited_contacts'', VList (map contact_document (mn_prohibited m))), (VStr ''configured_sources'', text_list sources),
      (VStr ''publisher_samples'', VList (map sample_document (mn_contact_samples m)))]"

definition report_document :: "pyfloat \<Rightarrow> pyfloat \<Rightarrow> pyfloat \<Rightarrow> string list \<Rightarrow> pyval \<times> pyval \<Rightarrow> pydict \<Rightarrow> pydict \<Rightarrow> bool \<Rightarrow> monitor \<Rightarrow> pydict" where
  "report_document now started stopped sources cameras terminal metrics safety_stop m =
     (let publishers = sorted_set (map fst (observed_endpoints m)) in
      [(VStr ''schema_version'', VInt 2), (VStr ''generated_at_unix'', VFloat now), (VStr ''mission_state'', vget terminal ''state''),
       (VStr ''failure_code'', vget terminal ''failure_code'')] @ metrics @
      [(VStr ''cmd_vel_publishers'', text_list publishers), (VStr ''unknown_publishers'', text_list (filter (\<lambda>n. n \<noteq> MISSION_NODE) publishers)),
       (VStr ''publisher_evidence'', VDict (publisher_document started stopped m)),
       (VStr ''contact_evidence'', VDict (contacts_document started stopped sources m)),
       (VStr ''camera'', snd cameras), (VStr ''initial_camera'', fst cameras),
       (VStr ''safety'', VDict [(VStr ''collision_free'', VBool (mn_topic_seen m \<and> mn_prohibited m = [])),
          (VStr ''safety_stop_failure'', VBool safety_stop)])])"

text \<open>Everything a run meets, in the order in which it does.\<close>

record run_script =
  sc_timeout :: pyfloat
  sc_started_at :: pyfloat
  sc_waiting_from :: pyfloat
  sc_ready_from :: pyfloat
  sc_ready :: "(pyfloat \<times> monitor_event option) list"
  sc_graph :: graph_answers
  sc_answer :: start_answer
  sc_wait :: "monitor_event option list"
  sc_mission :: "look list"
  sc_ended :: pyfloat
  sc_stop_from :: pyfloat
  sc_stop :: "look list"
  sc_stopped_at :: pyfloat
  sc_generated_at :: pyfloat
  sc_cameras :: "pyval \<times> pyval"

definition monitored :: "libm \<Rightarrow> run_script \<Rightarrow> (run_state \<times> monitor) result option" where
  "monitored lm x =
     (case spin_while lm not_ready (fadd (sc_ready_from x) (Fin 10)) (sc_ready x) monitor_init of
        None \<Rightarrow> None
      | Some m0 \<Rightarrow>
          (let m = sample_publishers (sc_graph x) m0 in
           case start_mission (sc_answer x) m (fold (handle lm) (sc_wait x) m) of
             Inl e \<Rightarrow> Some (Raise e)
           | Inr (s1, m1) \<Rightarrow>
               (case watch_mission lm (fadd (sc_waiting_from x) (sc_timeout x)) (Fin 0) (sc_mission x) s1 m1 of
                  None \<Rightarrow> None
                | Some (Inl e) \<Rightarrow> Some (Raise e)
                | Some (Inr (next_sample, s2, m2)) \<Rightarrow>
                    (case complete_end (sc_ended x) s2 m2 of
                       Inl e \<Rightarrow> Some (Raise e)
                     | Inr s3 \<Rightarrow>
                         (case watch_stop lm (fadd (sc_stop_from x) (Fin 10)) next_sample (sc_stop x) s3 m2 of
                            None \<Rightarrow> None
                          | Some m3 \<Rightarrow> Some (Ret (s3, m3)))))))"

definition generate_acceptance_report :: "libm \<Rightarrow> pyval result \<Rightarrow> pyval result \<Rightarrow> run_script \<Rightarrow> pydict result option" where
  "generate_acceptance_report lm bridges route x =
     (case load_contact_sources bridges of
        Inl e \<Rightarrow> Some (Raise e)
      | Inr sources \<Rightarrow>
          (case monitored lm x of
             None \<Rightarrow> None
           | Some (Inl e) \<Rightarrow> Some (Raise e)
           | Some (Inr (s, m)) \<Rightarrow>
               Some (rbind (load_acceptance_route route) (\<lambda>r. rbind (report_metrics lm r s m) (\<lambda>metrics.
                 rbind (in_strs (vget (the (rs_terminal s)) ''failure_code'') [''OBSTACLE_BLOCKED'', ''ODOM_STALE'']) (\<lambda>safety_stop.
                 Ret (report_document (sc_generated_at x) (sc_started_at x) (sc_stopped_at x) sources (sc_cameras x) (the (rs_terminal s))
                   metrics safety_stop m)))))))"

section \<open>What the monitor keeps\<close>

text \<open>A condition on the monitor that every callback and every sampling of the graph keeps holds to the end of a run.\<close>

locale watched =
  fixes P :: "monitor \<Rightarrow> bool" and lm :: libm
  assumes init: "P monitor_init"
    and handled: "P m \<Longrightarrow> P (handle lm e m)"
    and sampled: "P m \<Longrightarrow> P (sample_publishers g m)"
begin

lemma spin_keeps: "spin_while lm waits deadline looks m = Some m1 \<Longrightarrow> P m \<Longrightarrow> P m1"
proof (induction looks arbitrary: m)
  case (Cons k looks)
  with Cons.IH [of "handle lm (snd k) m"] handled [of m "snd k"] show ?case by (cases k) (auto split: if_splits)
qed simp

lemma fold_keeps: "P m \<Longrightarrow> P (fold (handle lm) es m)"
  by (induction es arbitrary: m) (auto intro: handled)

lemma look_keeps: "P m \<Longrightarrow> P (snd (take_look lm k next_sample m))"
  by (simp add: take_look_def handled sampled Let_def)

lemma mission_keeps: "watch_mission lm deadline next_sample looks s m = Some (Ret (n, s1, m1)) \<Longrightarrow> P m \<Longrightarrow> P m1"
proof (induction looks arbitrary: next_sample m)
  case (Cons k looks)
  from Cons.IH [of _ "snd (take_look lm k next_sample m)"] Cons.prems look_keeps [of m k next_sample]
  show ?case by (auto simp: case_prod_unfold Let_def split: if_splits sum.splits bool.splits)
qed simp

lemma stop_keeps: "watch_stop lm deadline next_sample looks s m = Some m1 \<Longrightarrow> P m \<Longrightarrow> P m1"
proof (induction looks arbitrary: next_sample m)
  case (Cons k looks)
  from Cons.IH [of _ "snd (take_look lm k next_sample m)"] Cons.prems look_keeps [of m k next_sample]
  show ?case by (auto simp: case_prod_unfold Let_def split: if_splits)
qed simp

lemma start_keeps: "start_mission answer m m1 = Ret (s, m2) \<Longrightarrow> P m \<Longrightarrow> P m1 \<Longrightarrow> P m2"
  by (auto simp: start_mission_def Let_def split: if_splits start_answer.splits)

lemma monitored_keeps:
  assumes "monitored lm x = Some (Ret (s, m))" shows "P m"
proof -
  obtain m0 s1 m1 n s2 m2 where m0: "spin_while lm not_ready (fadd (sc_ready_from x) (Fin 10)) (sc_ready x) monitor_init = Some m0"
    and m1: "start_mission (sc_answer x) (sample_publishers (sc_graph x) m0) (fold (handle lm) (sc_wait x) (sample_publishers (sc_graph x) m0)) = Ret (s1, m1)"
    and m2: "watch_mission lm (fadd (sc_waiting_from x) (sc_timeout x)) (Fin 0) (sc_mission x) s1 m1 = Some (Ret (n, s2, m2))"
    and m3: "watch_stop lm (fadd (sc_stop_from x) (Fin 10)) n (sc_stop x) s m2 = Some m"
    using assms by (auto simp: monitored_def Let_def split: option.splits sum.splits prod.splits)
  have "P m0" using spin_keeps [OF m0 init] .
  then have "P m1" using start_keeps [OF m1] sampled fold_keeps by blast
  then show ?thesis using mission_keeps [OF m2] stop_keeps [OF m3] by blast
qed

end

definition contacts_known :: "monitor \<Rightarrow> bool" where
  "contacts_known m \<longleftrightarrow> (\<forall>(first, second) \<in> set (mn_seen m). is_prohibited_robot_contact first second \<longrightarrow>
     (\<exists>t. (t, first, second) \<in> set (mn_prohibited m)))"

lemma on_contact_known: "contacts_known m \<Longrightarrow> contacts_known (on_contact c m)"
  by (cases c) (auto simp: contacts_known_def on_contact_def Let_def)

lemma fold_contact_known: "contacts_known m \<Longrightarrow> contacts_known (fold on_contact cs m)"
  by (induction cs arbitrary: m) (auto intro: on_contact_known)

interpretation contact_watch: watched contacts_known lm for lm
proof
  show "contacts_known monitor_init" by (simp add: contacts_known_def monitor_init_def)
  show "contacts_known (handle lm e m)" if "contacts_known m" for m e
  proof (cases e)
    case (Some event)
    then show ?thesis using that fold_contact_known [of "m\<lparr>mn_messages := Suc (mn_messages m)\<rparr>"]
      by (cases event) (auto simp: handle_def on_status_def on_odometry_def on_contacts_def contacts_known_def split: option.splits sum.splits)
  qed (use that in \<open>simp add: handle_def\<close>)
  show "contacts_known (sample_publishers g m)" if "contacts_known m" for m g
    using that by (auto simp: sample_publishers_def contacts_known_def Let_def split: sum.splits)
qed

section \<open>A report that passes\<close>

lemma dget_append: "dget (xs @ ys) k = (case dget xs k of None \<Rightarrow> dget ys k | Some v \<Rightarrow> Some v)"
  by (induction xs k rule: dget.induct) auto

definition METRIC_KEYS :: "string list" where
  "METRIC_KEYS = [''metric_source'', ''route_frame'', ''time_domain'', ''stages'', ''elapsed_seconds'', ''wall_elapsed_seconds'',
     ''real_time_factor'', ''terminal_pose'', ''stopped_pose'', ''stopped_drift_m'', ''odometry_evidence'']"

lemma report_metrics_keys: "report_metrics lm route s m = Ret metrics \<Longrightarrow> dkeys metrics = map VStr METRIC_KEYS"
  by (auto simp: report_metrics_def no_metrics_def metrics_document_def METRIC_KEYS_def dkeys_def split: if_splits option.splits sum.splits)

lemma report_fields:
  assumes "dkeys metrics = map VStr METRIC_KEYS"
    "r = report_document now started stopped sources cameras terminal metrics safety_stop m"
  shows "vget r ''mission_state'' = vget terminal ''state''" "vget r ''stages'' = vget metrics ''stages''"
    "vget r ''publisher_evidence'' = VDict (publisher_document started stopped m)"
    "vget r ''contact_evidence'' = VDict (contacts_document started stopped sources m)"
proof -
  have none: "dget metrics (VStr k) = None" if "k \<notin> set METRIC_KEYS" for k
    using that assms(1) by (auto simp: dget_None_iff)
  have some: "dget metrics (VStr ''stages'') \<noteq> None" using assms(1) by (auto simp: dget_None_iff METRIC_KEYS_def)
  show "vget r ''mission_state'' = vget terminal ''state''" by (simp add: assms(2) report_document_def vget_def Let_def)
  show "vget r ''stages'' = vget metrics ''stages''" using some by (auto simp: assms(2) report_document_def vget_def dget_append Let_def)
  show "vget r ''publisher_evidence'' = VDict (publisher_document started stopped m)"
    "vget r ''contact_evidence'' = VDict (contacts_document started stopped sources m)"
    using none [of "''publisher_evidence''"] none [of "''contact_evidence''"]
    by (simp_all add: assms(2) report_document_def vget_def dget_append METRIC_KEYS_def Let_def)
qed

lemma no_metrics_fail: "stages_check (vget (no_metrics m) ''stages'') \<noteq> Ret ([], ts)"
  by (simp add: stages_check_def no_metrics_def vget_def EXPECTED_STAGE_IDS_def)

lemma metrics_reached:
  assumes "stages_check (vget (metrics_document b mm) ''stages'') = Ret ([], ts)" shows "list_all sg_reached (om_stages mm)"
proof -
  have v: "vget (metrics_document b mm) ''stages'' = VList (map stage_document (om_stages mm))" by (simp add: metrics_document_def vget_def)
  from assms [unfolded v] obtain ds where ds: "map stage_document (om_stages mm) = map VDict ds"
    "list_all2 (\<lambda>d t. stage_check (VDict d) = Ret ([], [t])) ds ts" by (rule stages_check_ok) simp
  have "sg_reached g" if "g \<in> set (om_stages mm)" for g
  proof -
    from that ds(1) obtain d where d: "stage_document g = VDict d" "d \<in> set ds" by (metis imageE image_eqI list.set_map)
    with ds(2) obtain t where "stage_check (VDict d) = Ret ([], [t])" by (auto simp: list_all2_conv_all_nth in_set_conv_nth)
    then have "vget d ''reached'' = VBool True" by (rule stage_check_ok) simp
    with d(1) show ?thesis by (auto simp: stage_document_def vget_def)
  qed
  then show ?thesis by (simp add: list_all_iff)
qed

lemma exclusive_sample:
  "exclusive (sample_document (t, es)) \<Longrightarrow> \<exists>g. es = [(MISSION_NODE, g)] \<and> g \<noteq> []"
  by (cases es rule: remdups_adj.cases) (auto simp: exclusive_def sample_document_def endpoint_document_def vget_def)

lemma publisher_samples_ok:
  assumes "publisher_errors wall r = Ret []" "vget r ''publisher_evidence'' = VDict (publisher_document started stopped m)"
  shows "mn_publishers m \<noteq> []" "mn_inspection m = []" "\<forall>(t, es) \<in> set (mn_publishers m). \<exists>g. es = [(MISSION_NODE, g)] \<and> g \<noteq> []"
proof -
  have fields: "vget (publisher_document started stopped m) ''samples'' = VList (map sample_document (mn_publishers m))"
    "vget (publisher_document started stopped m) ''inspection_errors'' = text_list (map (\<lambda>_. []) (mn_inspection m))"
    by (simp_all add: publisher_document_def vget_def)
  from assms have ok: "publisher_sample_errors wall (publisher_document started stopped m) = Ret []"
    and "text_list (map (\<lambda>_. []) (mn_inspection m)) = VList []"
    by (auto simp: publisher_errors_def fields Let_def split: if_splits)
  then show "mn_inspection m = []" by simp
  from ok have ne: "map sample_document (mn_publishers m) \<noteq> []" and "find (\<lambda>x. \<not> exclusive x) (map sample_document (mn_publishers m)) = None"
    by (auto simp: publisher_sample_errors_def fields Let_def split: if_splits option.splits)
  then have "\<forall>x \<in> set (mn_publishers m). exclusive (sample_document x)" by (auto simp: find_None_iff)
  then show "\<forall>(t, es) \<in> set (mn_publishers m). \<exists>g. es = [(MISSION_NODE, g)] \<and> g \<noteq> []" using exclusive_sample by blast
  show "mn_publishers m \<noteq> []" using ne by simp
qed

lemma no_prohibited_contact:
  assumes "contact_errors bridges wall r = Ret []" "vget r ''contact_evidence'' = VDict (contacts_document started stopped sources m)"
  shows "mn_prohibited m = []"
  using assms by (auto simp: contact_errors_def contacts_document_def vget_def Let_def split: if_splits prod.splits)

text \<open>C15: A report that a run generated and the validation passes is of a real delivery: this run started the mission itself, the
  odometry it received from then to the end visits the endpoints of the route's stages in order, no contact message held a
  contact of the robot with the building, every sample of the velocity topic found the mission controller as the only publisher,
  and the mission's own last word is that it succeeded.\<close>
theorem passed_report_is_real:
  assumes "generate_acceptance_report lm bridges route x = Some (Ret r)" "validate_acceptance_report lm bridges ps r = Ret []"
  shows "\<exists>rt targets s m b. load_acceptance_route route = Ret rt \<and> route_targets lm rt = Ret targets \<and>
    monitored lm x = Some (Ret (s, m)) \<and> bounds_of s = Some b \<and> rs_wall_started s \<noteq> None \<and> rs_sim_started s \<noteq> None \<and>
    visited_in_order (near lm) targets (run_window b (mn_odom m)) \<and>
    (\<forall>(first, second) \<in> set (mn_seen m). \<not> is_prohibited_robot_contact first second) \<and>
    mn_publishers m \<noteq> [] \<and> mn_inspection m = [] \<and> (\<forall>(t, es) \<in> set (mn_publishers m). \<exists>g. es = [(MISSION_NODE, g)] \<and> g \<noteq> []) \<and>
    vget (the (rs_terminal s)) ''state'' = VStr ''SUCCEEDED''"
proof -
  obtain sources s m rt metrics stop where run: "monitored lm x = Some (Ret (s, m))" and rt: "load_acceptance_route route = Ret rt"
    and metrics: "report_metrics lm rt s m = Ret metrics"
    and r: "r = report_document (sc_generated_at x) (sc_started_at x) (sc_stopped_at x) sources (sc_cameras x) (the (rs_terminal s)) metrics stop m"
    using assms(1) by (auto simp: generate_acceptance_report_def split: sum.splits option.splits prod.splits)
  note fields = report_fields [OF report_metrics_keys [OF metrics] r]
  from assms(2) obtain ts wall where v: "header_errors r = []" "stages_check (vget r ''stages'') = Ret ([], ts)"
    "publisher_errors wall r = Ret []" "contact_errors bridges wall r = Ret []" by (rule accepted_parts)
  have not_missing: "metrics \<noteq> no_metrics m" using v(2) no_metrics_fail fields(2) by auto
  with metrics obtain b mm where b: "bounds_of s = Some b" and mm: "derive_odom_metrics lm rt (mn_odom m) b = Ret mm" "metrics = metrics_document b mm"
    by (auto simp: report_metrics_def split: if_splits option.splits sum.splits)
  have reached: "list_all sg_reached (om_stages mm)" using v(2) metrics_reached fields(2) mm(2) by simp
  obtain rows targets where rows: "rmap stage_row (list_items (vget rt ''stages'')) = Ret rows" "stage_targets lm (route_start rt) rows = Ret targets"
    and bounds: "bounds_ok b"
    using mm(1) stage_metrics_reached before_end_window
    by (simp add: derive_odom_metrics_def Let_def) metis
  then have targets: "route_targets lm rt = Ret targets" by (simp add: route_targets_def)
  have started: "rs_wall_started s \<noteq> None" "rs_sim_started s \<noteq> None"
    using b bounds fle_refl by (auto simp: bounds_of_def bounds_ok_def is_fin_iff split: option.splits)
  have "\<forall>(first, second) \<in> set (mn_seen m). \<not> is_prohibited_robot_contact first second"
    using contact_watch.monitored_keeps [OF run] no_prohibited_contact [OF v(4) fields(4)] by (auto simp: contacts_known_def)
  moreover have "vget (the (rs_terminal s)) ''state'' = VStr ''SUCCEEDED''" using v(1) fields(1) by (auto simp: header_errors_def split: if_splits)
  ultimately show ?thesis
    using rt targets run b started reached_iff_visited [OF mm(1) targets] reached publisher_samples_ok [OF v(3) fields(3)] by blast
qed

end
