(* ===== verification/AcceptanceDemo.thy ===== *)
theory AcceptanceDemo
  imports AcceptanceRun
begin

text \<open>
  A whole run in which the acceptance passes: a straight corridor with the three stages on it, a robot that drives along it, and the
  report of that run, derived and validated step by step. The theorems of the acceptance apply to it.
\<close>

section \<open>The script of the run\<close>

definition corridor_bridges :: pyval where
  "corridor_bridges = VList (map (\<lambda>c. VDict [(VStr ''gz_topic_name'', VStr [c]),
     (VStr ''ros_topic_name'', VStr ''/hospital_amr/contacts''), (VStr ''direction'', VStr ''GZ_TO_ROS'')]) ''abcde'')"

definition corridor_graph :: "int \<Rightarrow> graph_answers" where
  "corridor_graph k = \<lparr>ga_velocity = Ret [(''/'', ''hospital_mission_controller'', ''g'')], ga_velocity_at = Fin (of_int k),
     ga_contacts = Ret (map (\<lambda>c. (''/'', ''hospital_ros_gz_bridge'', [c])) ''abcde''), ga_contacts_at = Fin (of_int k)\<rparr>"

definition corridor_odometry :: "int \<Rightarrow> int \<Rightarrow> int \<Rightarrow> monitor_event option" where
  "corridor_odometry t k x = Some (OdometryMessage \<lparr>od_sec = VInt t, od_nanosec = VInt 0, od_now = Fin (of_int k), od_x = Fin (of_int x), od_y = Fin 0,
     od_orientation = (Fin 0, Fin 0, Fin 0, Fin 1)\<rparr>)"

definition corridor_status :: "string \<Rightarrow> monitor_event option" where
  "corridor_status st = Some (StatusMessage (Some (VDict [(VStr ''state'', VStr st)])))"

definition corridor_contact :: "monitor_event option" where
  "corridor_contact = Some (ContactsMessage [(Fin 0, ''hospital_amr::wheel'', ''ground_plane::link'')])"

definition corridor_look :: "int \<Rightarrow> monitor_event option \<Rightarrow> look" where
  "corridor_look k e = \<lparr>lk_now = Fin (of_int k), lk_event = e, lk_after = Fin (of_int k), lk_graph = corridor_graph k, lk_end = Fin (of_int k)\<rparr>"

definition corridor_camera :: pyval where
  "corridor_camera = VDict [(VStr ''path'', VStr ''logs/a.png''), (VStr ''bytes'', VInt 8), (VStr ''width'', VInt 1), (VStr ''height'', VInt 1)]"

definition corridor_pictures :: picture_store where
  "corridor_pictures = \<lparr>ps_files = (\<lambda>_. Some PNG_MAGIC), ps_decode = (\<lambda>_. Some (1, 1)), ps_text = (\<lambda>_. [])\<rparr>"

definition corridor_run :: run_script where
  "corridor_run = \<lparr>sc_timeout = Fin 300, sc_started_at = Fin 2, sc_waiting_from = Fin 2, sc_ready_from = Fin 0,
     sc_ready = [(Fin 0, corridor_status ''IDLE''), (Fin 0, corridor_contact), (Fin 1, corridor_odometry 1 1 0), (Fin 2, None)],
     sc_graph = corridor_graph 2, sc_answer = Accepted (Fin 3), sc_wait = [],
     sc_mission = [corridor_look 3 (corridor_odometry 2 3 1), corridor_look 4 (corridor_odometry 3 4 2), corridor_look 5 (corridor_odometry 4 5 3),
       corridor_look 6 (corridor_status ''SUCCEEDED'')],
     sc_ended = Fin 6, sc_stop_from = Fin 6, sc_stop = [corridor_look 7 (corridor_odometry 5 7 3), corridor_look 8 (corridor_odometry 8 8 3)],
     sc_stopped_at = Fin 9, sc_generated_at = Fin 9, sc_cameras = (corridor_camera, corridor_camera)\<rparr>"

lemma corridor_graph_names [simp]:
  "graph_endpoints [(''/'', ''hospital_mission_controller'', ''g'')] = [(MISSION_NODE, ''g'')]"
  "graph_endpoints (map (\<lambda>c. (''/'', ''hospital_ros_gz_bridge'', [c])) ''abcde'') = map (\<lambda>c. (BRIDGE_NODE, [c])) ''abcde''"
  by (simp_all add: graph_endpoints_def strip_char_def rstrip_char_def MISSION_NODE_def BRIDGE_NODE_def)

lemma corridor_sampling:
  "sample_publishers (corridor_graph k) m = m\<lparr>mn_publishers := mn_publishers m @ [(Fin (of_int k), [(MISSION_NODE, ''g'')])],
     mn_contact_samples := mn_contact_samples m @ [(Fin (of_int k), map (\<lambda>c. (BRIDGE_NODE, [c])) ''abcde'')], mn_topic_seen := True\<rparr>"
  by (simp add: sample_publishers_def corridor_graph_def del: list.map)

lemma corridor_stamp: "0 < t \<Longrightarrow> t < 2 ^ 53 \<Longrightarrow> ros_stamp_seconds (VInt t) (VInt 0) = Ret (Fin (of_int t))"
  by (simp add: ros_stamp_seconds_def float_of_int_small mk_float_int)

lemma corridor_handles:
  "handle corridor_libm (corridor_status st) m = m\<lparr>mn_latest := Some (VDict [(VStr ''state'', VStr st)])\<rparr>"
  "handle corridor_libm corridor_contact m = m\<lparr>mn_messages := Suc (mn_messages m), mn_seen := mn_seen m @ [(''hospital_amr::wheel'', ''ground_plane::link'')]\<rparr>"
  "0 < t \<Longrightarrow> t < 2 ^ 53 \<Longrightarrow> mn_odom m = [] \<or> flt (os_sim (last (mn_odom m))) (Fin (of_int t)) \<Longrightarrow>
    handle corridor_libm (corridor_odometry t k x) m = m\<lparr>mn_odom := mn_odom m @
      [\<lparr>os_sim = Fin (of_int t), os_wall = Fin (of_int k), os_x = Fin (of_int x), os_y = Fin 0, os_yaw = Fin 0\<rparr>]\<rparr>"
    apply (simp add: handle_def corridor_status_def on_status_def)
   apply (simp add: handle_def corridor_contact_def on_contacts_def on_contact_def is_prohibited_robot_contact_def starts_with_def)
  apply (auto simp: handle_def corridor_odometry_def on_odometry_def corridor_stamp odometry_yaw_def corridor_libm_def dest: flt_not_fle)
  done

section \<open>What the monitor makes of it\<close>

definition corridor_moment :: "int \<times> int \<times> int \<Rightarrow> odom_sample" where
  "corridor_moment = (\<lambda>(t, k, x). \<lparr>os_sim = Fin (of_int t), os_wall = Fin (of_int k), os_x = Fin (of_int x), os_y = Fin 0, os_yaw = Fin 0\<rparr>)"

definition corridor_moments :: "odom_sample list" where
  "corridor_moments = map corridor_moment [(1, 1, 0), (2, 3, 1), (3, 4, 2), (4, 5, 3), (5, 7, 3), (8, 8, 3)]"

definition corridor_monitor :: monitor where
  "corridor_monitor = \<lparr>mn_latest = Some (VDict [(VStr ''state'', VStr ''SUCCEEDED'')]), mn_odom = corridor_moments, mn_stamp_errors = [],
     mn_publishers = map (\<lambda>k. (Fin (of_int k), [(MISSION_NODE, ''g'')])) [2, 3, 4, 5, 6, 7, 8], mn_inspection = [], mn_messages = 1,
     mn_prohibited = [], mn_topic_seen = True,
     mn_contact_samples = map (\<lambda>k. (Fin (of_int k), map (\<lambda>c. (BRIDGE_NODE, [c])) ''abcde'')) [2, 3, 4, 5, 6, 7, 8],
     mn_seen = [(''hospital_amr::wheel'', ''ground_plane::link'')]\<rparr>"

definition corridor_end :: run_state where
  "corridor_end = \<lparr>rs_terminal = Some [(VStr ''state'', VStr ''SUCCEEDED'')], rs_sim_started = Some (Fin 1), rs_wall_started = Some (Fin 3),
     rs_sim_ended = Some (Fin 4), rs_wall_ended = Some (Fin 6)\<rparr>"

lemma corridor_next: "fle (fadd (Fin (of_int k)) SAMPLE_PERIOD) (Fin (of_int (k + 1)))" if "\<bar>k + 1\<bar> < 2 ^ 53"
  using mk_float_mono [of "of_int k + 1 / 4" "of_int (k + 1)"] mk_float_int [OF that] by (simp add: SAMPLE_PERIOD_def)

lemma corridor_looks:
  "fle next_sample (Fin (of_int k)) \<Longrightarrow> take_look corridor_libm (corridor_look k e) next_sample m =
     (fadd (Fin (of_int k)) SAMPLE_PERIOD, sample_publishers (corridor_graph k) (handle corridor_libm e m))"
  by (simp add: take_look_def corridor_look_def)

lemma corridor_numbers: "of_int 2 = (2 :: rat)" "of_int 3 = (3 :: rat)" by simp_all

lemma corridor_monitored: "monitored corridor_libm corridor_run = Some (Ret (corridor_end, corridor_monitor))"
proof -
  let ?h = "handle corridor_libm"
  define m0 where "m0 = ?h (corridor_odometry 1 1 0) (?h corridor_contact (?h (corridor_status ''IDLE'') monitor_init))"
  have m0: "m0 = monitor_init\<lparr>mn_latest := Some (VDict [(VStr ''state'', VStr ''IDLE'')]), mn_messages := 1,
      mn_seen := [(''hospital_amr::wheel'', ''ground_plane::link'')], mn_odom := [corridor_moment (1, 1, 0)]\<rparr>"
    by (simp add: m0_def corridor_handles monitor_init_def corridor_moment_def)
  have ready: "spin_while corridor_libm not_ready (fadd (sc_ready_from corridor_run) (Fin 10)) (sc_ready corridor_run) monitor_init = Some m0"
    by (simp add: corridor_run_def m0_def corridor_handles not_ready_def monitor_init_def)
  define m1 where "m1 = sample_publishers (corridor_graph 2) m0"
  have m1: "mn_latest m1 = Some (VDict [(VStr ''state'', VStr ''IDLE'')])" "mn_odom m1 = [corridor_moment (1, 1, 0)]"
    "mn_publishers m1 = [(Fin 2, [(MISSION_NODE, ''g'')])]"
    by (simp_all add: m1_def m0 corridor_sampling monitor_init_def)
  let ?s1 = "run_init\<lparr>rs_wall_started := Some (Fin 3), rs_sim_started := Some (Fin 1)\<rparr>"
  have start: "start_mission (sc_answer corridor_run) m1 (fold ?h (sc_wait corridor_run) m1) = Ret (?s1, m1)"
    by (simp add: start_mission_def corridor_run_def latest_dict_def vget_def velocity_exclusive_def last_sim_def m1 corridor_moment_def)
  have periods: "fle (Fin 0) (Fin 3)" "fle (fadd (Fin 3) SAMPLE_PERIOD) (Fin 4)" "fle (fadd (Fin 4) SAMPLE_PERIOD) (Fin 5)"
    "fle (fadd (Fin 5) SAMPLE_PERIOD) (Fin 6)" "fle (fadd (Fin 6) SAMPLE_PERIOD) (Fin 7)" "fle (fadd (Fin 7) SAMPLE_PERIOD) (Fin 8)"
    using corridor_next [of 3] corridor_next [of 4] corridor_next [of 5] corridor_next [of 6] corridor_next [of 7] by simp_all
  define turn where "turn = (\<lambda>k e m. sample_publishers (corridor_graph k) (?h e m))"
  define m2 where "m2 = turn 3 (corridor_odometry 2 3 1) m1"
  define m3 where "m3 = turn 4 (corridor_odometry 3 4 2) m2"
  define m4 where "m4 = turn 5 (corridor_odometry 4 5 3) m3"
  define m5 where "m5 = turn 6 (corridor_status ''SUCCEEDED'') m4"
  define m6 where "m6 = turn 7 (corridor_odometry 5 7 3) m5"
  define m7 where "m7 = turn 8 (corridor_odometry 8 8 3) m6"
  note turns = m1_def m0 m2_def m3_def m4_def m5_def m6_def m7_def turn_def corridor_sampling corridor_handles corridor_moment_def monitor_init_def
  have m7: "m7 = corridor_monitor" by (simp add: turns corridor_monitor_def corridor_moments_def)
  have latest: "mn_latest m2 = Some (VDict [(VStr ''state'', VStr ''IDLE'')])" "mn_latest m3 = Some (VDict [(VStr ''state'', VStr ''IDLE'')])"
    "mn_latest m4 = Some (VDict [(VStr ''state'', VStr ''IDLE'')])" "mn_latest m5 = Some (VDict [(VStr ''state'', VStr ''SUCCEEDED'')])"
    "last_sim m5 = Some (Fin 4)" "last_sim m6 = Some (Fin 5)" "last_sim m7 = Some (Fin 8)"
    by (simp_all add: turns last_sim_def)
  have steps: "fle n (Fin 3) \<Longrightarrow> take_look corridor_libm (corridor_look 3 (corridor_odometry 2 3 1)) n m1 = (fadd (Fin 3) SAMPLE_PERIOD, m2)"
    "fle n (Fin 4) \<Longrightarrow> take_look corridor_libm (corridor_look 4 (corridor_odometry 3 4 2)) n m2 = (fadd (Fin 4) SAMPLE_PERIOD, m3)"
    "fle n (Fin 5) \<Longrightarrow> take_look corridor_libm (corridor_look 5 (corridor_odometry 4 5 3)) n m3 = (fadd (Fin 5) SAMPLE_PERIOD, m4)"
    "fle n (Fin 6) \<Longrightarrow> take_look corridor_libm (corridor_look 6 (corridor_status ''SUCCEEDED'')) n m4 = (fadd (Fin 6) SAMPLE_PERIOD, m5)"
    "fle n (Fin 7) \<Longrightarrow> take_look corridor_libm (corridor_look 7 (corridor_odometry 5 7 3)) n m5 = (fadd (Fin 7) SAMPLE_PERIOD, m6)"
    "fle n (Fin 8) \<Longrightarrow> take_look corridor_libm (corridor_look 8 (corridor_odometry 8 8 3)) n m6 = (fadd (Fin 8) SAMPLE_PERIOD, m7)" for n
    by (simp_all add: corridor_looks m2_def m3_def m4_def m5_def m6_def m7_def turn_def)
  have clock: "lk_now (corridor_look k e) = Fin (of_int k)" "lk_end (corridor_look k e) = Fin (of_int k)" for k e
    by (simp_all add: corridor_look_def)
  have ended: "mission_ended m2 = Ret False" "mission_ended m3 = Ret False" "mission_ended m4 = Ret False" "mission_ended m5 = Ret True"
    "latest_dict m5 = Ret [(VStr ''state'', VStr ''SUCCEEDED'')]"
    by (simp_all add: mission_ended_def latest_dict_def latest vget_def TERMINAL_STATES_def)
  have mission: "watch_mission corridor_libm (fadd (sc_waiting_from corridor_run) (sc_timeout corridor_run)) (Fin 0) (sc_mission corridor_run) ?s1 m1 =
      Some (Ret (fadd (Fin 6) SAMPLE_PERIOD, corridor_end, m5))"
    by (simp add: corridor_run_def run_init_def corridor_end_def clock steps periods ended latest)
  have complete: "complete_end (sc_ended corridor_run) corridor_end m5 = Ret corridor_end"
    by (simp add: complete_end_def corridor_end_def)
  have stop: "watch_stop corridor_libm (fadd (sc_stop_from corridor_run) (Fin 10)) (fadd (Fin 6) SAMPLE_PERIOD) (sc_stop corridor_run) corridor_end m5 = Some m7"
    by (simp add: corridor_run_def clock steps periods settled_def corridor_end_def latest MONITOR_TAIL_def fsub_def)
  have "sc_graph corridor_run = corridor_graph 2" by (simp add: corridor_run_def)
  with ready start mission complete stop show ?thesis by (simp add: monitored_def m7 flip: m1_def)
qed

section \<open>The metrics and the report\<close>

definition corridor_limits :: run_bounds where
  "corridor_limits = \<lparr>rb_sim_started = Fin 1, rb_sim_ended = Fin 4, rb_wall_started = Fin 3, rb_wall_ended = Fin 6\<rparr>"

definition corridor_reached :: "string \<Rightarrow> int \<Rightarrow> stage_metric" where
  "corridor_reached i k = \<lparr>sg_id = VStr i, sg_name = VStr i, sg_reached = True, sg_error = Some (Fin 0), sg_elapsed = Some (Fin (of_int k))\<rparr>"

definition corridor_metrics :: odom_metrics where
  "corridor_metrics = \<lparr>om_stages = [corridor_reached ''pharmacy'' 1, corridor_reached ''ward2'' 2, corridor_reached ''laboratory'' 3],
     om_elapsed = Fin 3, om_wall_elapsed = Fin 3, om_factor = Fin 1, om_terminal = corridor_moment (4, 5, 3), om_stopped = corridor_moment (8, 8, 3),
     om_drift = Fin 0, om_count = 6, om_first = corridor_moment (1, 1, 0), om_last = corridor_moment (8, 8, 3), om_post_count = 2\<rparr>"

lemma corridor_search:
  "find_stage corridor_libm odom_tolerance (enumerate 0 (take 4 corridor_moments)) 0 (Fin 1, Fin 0) = (Some (1, corridor_moment (2, 3, 1)), Some (Fin 0))"
  "find_stage corridor_libm odom_tolerance (enumerate 0 (take 4 corridor_moments)) 2 (Fin 2, Fin 0) = (Some (2, corridor_moment (3, 4, 2)), Some (Fin 0))"
  "find_stage corridor_libm odom_tolerance (enumerate 0 (take 4 corridor_moments)) 3 (Fin 3, Fin 0) = (Some (3, corridor_moment (4, 5, 3)), Some (Fin 0))"
  by (simp_all add: find_stage_def corridor_moments_def corridor_moment_def sample_distance_def corridor_libm_def fsub_def fmax_def odom_tolerance_def)

lemma corridor_rows:
  "rmap stage_row (list_items (vget corridor_route ''stages'')) = Ret [(VStr ''pharmacy'', VStr ''pharmacy'', Fin 1, Fin 0),
     (VStr ''ward2'', VStr ''ward2'', Fin 2, Fin 0), (VStr ''laboratory'', VStr ''laboratory'', Fin 3, Fin 0)]"
  "route_start corridor_route = [VInt 0, VInt 0, VInt 0]"
  by (simp_all add: corridor_defs stage_row_def vget_def float_of_int_def route_start_def)

lemma corridor_world:
  "world_to_odom corridor_libm [VInt 0, VInt 0, VInt 0] (Fin 1) (Fin 0) = Ret (Fin 1, Fin 0)"
  "world_to_odom corridor_libm [VInt 0, VInt 0, VInt 0] (Fin 2) (Fin 0) = Ret (Fin 2, Fin 0)"
  "world_to_odom corridor_libm [VInt 0, VInt 0, VInt 0] (Fin 3) (Fin 0) = Ret (Fin 3, Fin 0)"
  by (simp_all add: world_to_odom_def corridor_libm_def fsub_def py_cos_def py_sin_def float_of_int_def)

lemma corridor_derivation: "derive_odom_metrics corridor_libm corridor_route corridor_moments corridor_limits = Ret corridor_metrics"
proof -
  have ok: "bounds_ok corridor_limits" "samples_ok corridor_moments"
    by (simp_all add: corridor_limits_def corridor_moments_def corridor_moment_def bounds_ok_def samples_ok_def sample_finite_def)
  have ordered: "filter (\<lambda>s. fle (rb_sim_started corridor_limits) (os_sim s)) corridor_moments = corridor_moments"
    "filter (\<lambda>s. fle (os_sim s) (rb_sim_ended corridor_limits)) corridor_moments = take 4 corridor_moments"
    "length (filter (\<lambda>s. flt (rb_sim_ended corridor_limits) (os_sim s)) corridor_moments) = 2"
    by (simp_all add: corridor_moments_def corridor_moment_def corridor_limits_def)
  have window: "before_end corridor_limits corridor_moments = enumerate 0 (take 4 corridor_moments)"
    by (simp add: before_end_def corridor_moments_def corridor_moment_def corridor_limits_def)
  have start: "rb_sim_started corridor_limits = Fin 1" by (simp add: corridor_limits_def)
  have stages: "stage_metrics corridor_libm odom_tolerance (rb_sim_started corridor_limits) [VInt 0, VInt 0, VInt 0] (enumerate 0 (take 4 corridor_moments)) 0
      [(VStr ''pharmacy'', VStr ''pharmacy'', Fin 1, Fin 0), (VStr ''ward2'', VStr ''ward2'', Fin 2, Fin 0), (VStr ''laboratory'', VStr ''laboratory'', Fin 3, Fin 0)] =
      Ret (om_stages corridor_metrics)"
    using corridor_search by (simp add: start corridor_world eval_nat_numeral corridor_moment_def corridor_metrics_def corridor_reached_def fsub_def del: enumerate_simps)
  have ends: "corridor_moments \<noteq> []" "length corridor_moments = 6" "take 4 corridor_moments \<noteq> []" "hd corridor_moments = corridor_moment (1, 1, 0)"
    "last corridor_moments = corridor_moment (8, 8, 3)" "last (take 4 corridor_moments) = corridor_moment (4, 5, 3)"
    by (simp_all add: corridor_moments_def)
  show ?thesis
    by (simp add: derive_odom_metrics_def corridor_rows ok ordered window ends Let_def stages del: stage_metrics.simps filter_filter)
      (simp add: corridor_limits_def corridor_metrics_def corridor_moment_def corridor_libm_def fsub_def fmax_def)
qed

lemma tiny_tolerance: "\<not> flt (mk_float (1 / 1000000000)) (Fin 0)" "\<not> flt (mk_float (1 / 10)) (Fin 0)" "\<not> flt (mk_float (2 / 100)) (Fin 0)"
  using mk_float_mono [of 0 "1 / 1000000000"] mk_float_mono [of 0 "1 / 10"] mk_float_mono [of 0 "2 / 100"] fle_not_flt by auto

lemma corridor_loads:
  "load_acceptance_route (Ret (VDict corridor_route)) = Ret corridor_route"
  "load_contact_sources (Ret corridor_bridges) = Ret (map (\<lambda>c. [c]) ''abcde'')"
proof -
  show "load_acceptance_route (Ret (VDict corridor_route)) = Ret corridor_route"
    by (simp add: load_acceptance_route_def load_strict_json_def corridor_route_def corridor_stage_def vget_def bad_point_def no_number_def acc_number_def
        float_of_int_def check_stage_def far_apart_def fsub_def tiny_tolerance EXPECTED_STAGE_IDS_def Let_def)
  show "load_contact_sources (Ret corridor_bridges) = Ret (map (\<lambda>c. [c]) ''abcde'')"
    by (simp add: load_contact_sources_def corridor_bridges_def vget_def Let_def)
qed

definition corridor_report :: pydict where
  "corridor_report = report_document (Fin 9) (Fin 2) (Fin 9) (map (\<lambda>c. [c]) ''abcde'') (corridor_camera, corridor_camera)
     [(VStr ''state'', VStr ''SUCCEEDED'')] (metrics_document corridor_limits corridor_metrics) False corridor_monitor"

lemma corridor_generated:
  "generate_acceptance_report corridor_libm (Ret corridor_bridges) (Ret (VDict corridor_route)) corridor_run = Some (Ret corridor_report)"
proof -
  have "report_metrics corridor_libm corridor_route corridor_end corridor_monitor = Ret (metrics_document corridor_limits corridor_metrics)"
    using corridor_derivation by (simp add: report_metrics_def bounds_of_def corridor_end_def corridor_monitor_def corridor_limits_def)
  moreover have "sc_generated_at corridor_run = Fin 9" "sc_started_at corridor_run = Fin 2" "sc_stopped_at corridor_run = Fin 9"
    "sc_cameras corridor_run = (corridor_camera, corridor_camera)" "rs_terminal corridor_end = Some [(VStr ''state'', VStr ''SUCCEEDED'')]"
    by (simp_all add: corridor_run_def corridor_end_def)
  ultimately show ?thesis
    by (simp add: generate_acceptance_report_def corridor_loads corridor_monitored corridor_report_def vget_def in_strs_def)
qed

lemma corridor_sorted: "sorted_set (map fst (observed_endpoints corridor_monitor)) = [MISSION_NODE]"
  by (simp add: sorted_set_def observed_endpoints_def corridor_monitor_def)

lemma corridor_sole: "map VStr [MISSION_NODE] = [VStr MISSION_NODE]" by simp

lemma corridor_quiet: "mn_prohibited corridor_monitor = []" "mn_topic_seen corridor_monitor"
  by (simp_all add: corridor_monitor_def)

lemma corridor_fields:
  "vget corridor_report ''schema_version'' = VInt 2" "vget corridor_report ''mission_state'' = VStr ''SUCCEEDED''"
  "vget corridor_report ''failure_code'' = VNone" "vget corridor_report ''metric_source'' = VStr ''diff_drive_odometry''"
  "vget corridor_report ''route_frame'' = VStr ''world''" "vget corridor_report ''time_domain'' = VStr ''ros_sim_time''"
  "vget corridor_report ''stages'' = VList (map stage_document (om_stages corridor_metrics))" "vget corridor_report ''elapsed_seconds'' = VFloat (Fin 3)"
  "vget corridor_report ''wall_elapsed_seconds'' = VFloat (Fin 3)" "vget corridor_report ''real_time_factor'' = VFloat (Fin 1)"
  "vget corridor_report ''stopped_drift_m'' = VFloat (Fin 0)" "vget corridor_report ''odometry_evidence'' = VDict (evidence_document corridor_limits corridor_metrics)"
  "vget corridor_report ''unknown_publishers'' = VList []" "vget corridor_report ''cmd_vel_publishers'' = VList [VStr MISSION_NODE]"
  "vget corridor_report ''publisher_evidence'' = VDict (publisher_document (Fin 2) (Fin 9) corridor_monitor)"
  "vget corridor_report ''contact_evidence'' = VDict (contacts_document (Fin 2) (Fin 9) (map (\<lambda>c. [c]) ''abcde'') corridor_monitor)"
  "vget corridor_report ''camera'' = corridor_camera" "vget corridor_report ''initial_camera'' = corridor_camera"
  "vget corridor_report ''safety'' = VDict [(VStr ''collision_free'', VBool True), (VStr ''safety_stop_failure'', VBool False)]"
  by (simp_all add: corridor_report_def report_document_def metrics_document_def vget_def corridor_sorted corridor_sole corridor_quiet Let_def corridor_metrics_def
      del: list.map)

section \<open>The report passes\<close>

lemma corridor_tail: "fle (fadd (Fin 3) MONITOR_TAIL) (Fin 7)"
  using mk_float_mono [of "11 / 2" 7] by (simp add: MONITOR_TAIL_def)

lemma corridor_header: "header_errors corridor_report = []" "safety_errors corridor_report = []"
  unfolding header_errors_def safety_errors_def corridor_fields by (simp_all add: same_value_def vget_def)

lemma corridor_drift: "drift_errors corridor_report = Ret []"
  unfolding drift_errors_def corridor_fields using tiny_tolerance(3) by (simp add: acc_number_def outside_def MAX_DRIFT_def)

lemma corridor_stages: "stages_check (vget corridor_report ''stages'') = Ret ([], [Fin 1, Fin 2, Fin 3])"
  unfolding corridor_fields
  by (simp add: stages_check_def stage_check_def stage_document_def corridor_metrics_def corridor_reached_def vget_def acc_number_def
      EXPECTED_STAGE_IDS_def outside_def not_positive_def)

lemma corridor_times: "elapsed_errors [Fin 1, Fin 2, Fin 3] (Some (Fin 3)) v = []" "factor_errors (Some (Fin 1)) (Some (Fin 3)) (Some (Fin 3)) = Ret []"
  by (simp_all add: elapsed_errors_def factor_errors_def not_positive_def exceeds_def MAX_ELAPSED_def MAX_WALL_ELAPSED_def EXPECTED_STAGE_IDS_def
      in_order_def stage_durations_def gaps_def fsub_def MAX_STAGE_DURATION_def close_within_def)

lemma corridor_odometry_ok: "odometry_errors corridor_libm (VDict (evidence_document corridor_limits corridor_metrics)) = Ret []"
  by (simp add: odometry_errors_def evidence_document_def corridor_limits_def corridor_metrics_def corridor_moment_def clock_fields_def SIM_CLOCK_def
      WALL_CLOCK_def clock_wrong_def initial_pose_errors_def pose_document_def vget_def acc_number_def positive_int_def MONITOR_TAIL_def fsub_def
      corridor_libm_def fmax_def)

definition corridor_bridge_ends :: endpoints where
  "corridor_bridge_ends = map (\<lambda>c. (BRIDGE_NODE, [c])) ''abcde''"

definition corridor_sources :: "string list" where
  "corridor_sources = map (\<lambda>c. [c]) ''abcde''"

abbreviation corridor_sample :: "int \<Rightarrow> pyval" where
  "corridor_sample k \<equiv> sample_document (Fin (of_int k), [(MISSION_NODE, ''g'')])"

abbreviation corridor_contact_sample :: "int \<Rightarrow> pyval" where
  "corridor_contact_sample k \<equiv> sample_document (Fin (of_int k), corridor_bridge_ends)"

lemma corridor_sample_fields:
  "sample_time (sample_document (Fin t, es)) = Ret (Some (Fin t))"
  "dict_field (sample_document (Fin t, es)) ''endpoints'' = VList (map endpoint_document es)"
  "exclusive (sample_document (Fin t, [(MISSION_NODE, ''g'')]))" "sample_gids (sample_document (Fin t, [(MISSION_NODE, ''g'')])) = [VStr ''g'']"
  by (simp_all add: sample_time_def sample_document_def vget_def acc_number_def exclusive_def sample_gids_def endpoint_document_def)

lemma corridor_bridge_gids: "bridge_gids (map endpoint_document corridor_bridge_ends) = corridor_sources"
  "length corridor_bridge_ends = 5" "length corridor_sources = 5"
  by (simp_all add: corridor_bridge_ends_def corridor_sources_def bridge_gids_def endpoint_document_def vget_def)

lemma corridor_documents:
  "vget (publisher_document (Fin 2) (Fin 9) corridor_monitor) ''samples'' = VList (map corridor_sample [2, 3, 4, 5, 6, 7, 8])"
  "vget (publisher_document (Fin 2) (Fin 9) corridor_monitor) ''monitor_started_unix'' = VFloat (Fin 2)"
  "vget (publisher_document (Fin 2) (Fin 9) corridor_monitor) ''monitor_stopped_unix'' = VFloat (Fin 9)"
  "vget (publisher_document (Fin 2) (Fin 9) corridor_monitor) ''inspection_errors'' = VList []"
  "vget (contacts_document (Fin 2) (Fin 9) ss corridor_monitor) ''monitor_started_unix'' = VFloat (Fin 2)"
  "vget (contacts_document (Fin 2) (Fin 9) ss corridor_monitor) ''monitor_stopped_unix'' = VFloat (Fin 9)"
  "vget (contacts_document (Fin 2) (Fin 9) ss corridor_monitor) ''topic_publishers_seen'' = VBool True"
  "vget (contacts_document (Fin 2) (Fin 9) ss corridor_monitor) ''messages'' = VInt 1"
  "vget (contacts_document (Fin 2) (Fin 9) ss corridor_monitor) ''prohibited_contacts'' = VList []"
  "vget (contacts_document (Fin 2) (Fin 9) ss corridor_monitor) ''configured_sources'' = VList (map VStr ss)"
  "vget (contacts_document (Fin 2) (Fin 9) ss corridor_monitor) ''publisher_samples'' = VList (map corridor_contact_sample [2, 3, 4, 5, 6, 7, 8])"
  by (simp_all add: publisher_document_def contacts_document_def vget_def corridor_monitor_def corridor_bridge_ends_def)

lemma corridor_covered: "\<not> uncovered (Fin 2) (Fin 9) (map (\<lambda>k. Fin (of_int k)) [2, 3, 4, 5, 6, 7, 8])"
  "in_order (map (\<lambda>k. Fin (of_int k)) [2, 3, 4, 5, 6, 7, 8])" "\<not> flt (fsub (Fin 9) (Fin 2)) (required_duration (Some (Fin 3)))"
  using corridor_tail fle_not_flt by (simp_all add: uncovered_def gaps_def in_order_def fsub_def fmax_def required_duration_def)

lemma corridor_publishers: "publisher_errors (Some (Fin 3)) corridor_report = Ret []"
proof -
  have each: "rmap sample_time (map corridor_sample ks) = Ret (map (\<lambda>k. Some (Fin (of_int k))) ks)" for ks
    by (induction ks) (simp_all add: corridor_sample_fields)
  have "publisher_time_errors (Some (Fin 3)) (Some (Fin 2)) (Some (Fin 9)) (map (\<lambda>k. Some (Fin (of_int k))) [2, 3, 4, 5, 6, 7, 8]) = []"
    using corridor_covered by (simp add: publisher_time_errors_def)
  moreover have "gid_errors (map corridor_sample [2, 3, 4, 5, 6, 7, 8]) = Ret []"
    by (simp add: gid_errors_def corridor_sample_fields same_value_def)
  moreover have "find (\<lambda>x. \<not> exclusive x) (map corridor_sample ks) = None" for ks by (induction ks) (simp_all add: corridor_sample_fields)
  ultimately have "publisher_sample_errors (Some (Fin 3)) (publisher_document (Fin 2) (Fin 9) corridor_monitor) = Ret []"
    unfolding publisher_sample_errors_def corridor_documents Let_def list_items.simps each
    by (simp add: acc_number_def del: list.map)
  then show ?thesis unfolding publisher_errors_def corridor_fields Let_def by (simp add: corridor_documents)
qed

lemma corridor_contact_samples:
  "contact_samples 5 e (map corridor_contact_sample ks) = Ret ([], map (\<lambda>k. Fin (of_int k)) ks)"
  if "e = None \<or> e = Some corridor_sources"
  using that
proof (induction ks arbitrary: e)
  case (Cons k ks)
  have "contact_samples 5 (Some corridor_sources) (map corridor_contact_sample ks) = Ret ([], map (\<lambda>k. Fin (of_int k)) ks)"
    by (rule Cons.IH) simp
  with Cons.prems show ?case
    by (auto simp: corridor_sample_fields corridor_bridge_gids)
qed simp

lemma corridor_contacts: "contact_errors (Ret corridor_bridges) (Some (Fin 3)) corridor_report = Ret []"
proof -
  have samples: "contact_samples 5 None (map corridor_contact_sample [2, 3, 4, 5, 6, 7, 8]) = Ret ([], map (\<lambda>k. Fin (of_int k)) [2, 3, 4, 5, 6, 7, 8])"
    by (rule corridor_contact_samples) simp
  have sampling: "contact_sampling_errors 5 (Some (Fin 2)) (Some (Fin 9)) (VList (map corridor_contact_sample [2, 3, 4, 5, 6, 7, 8])) = Ret []"
    using corridor_covered unfolding contact_sampling_errors_def list_items.simps samples by simp
  have "\<not> contact_window_wrong (Some (Fin 3)) [Some (Fin 2), Some (Fin 9), Some (Fin 2), Some (Fin 9)]"
    using corridor_covered(3) tiny_tolerance by (simp add: contact_window_wrong_def fsub_def)
  with sampling show ?thesis unfolding contact_errors_def corridor_fields Let_def corridor_loads corridor_sources_def [symmetric]
    by (simp add: corridor_bridge_gids corridor_documents acc_number_def positive_int_def del: list.map)
qed

lemma corridor_cameras: "camera_errors corridor_pictures corridor_report = Ret []"
  unfolding camera_errors_def corridor_fields
  by (simp add: corridor_camera_def valid_png_def png_body_def corridor_pictures_def vget_def path_parts_def path_suffix_def name_suffix_def
      starts_with_def int_field_def PNG_MAGIC_def lower_str_def lower_char_def is_upper_def in_range_def Let_def)

lemma corridor_accepted: "validate_acceptance_report corridor_libm (Ret corridor_bridges) corridor_pictures corridor_report = Ret []"
  unfolding validate_acceptance_report_def corridor_stages corridor_publishers corridor_contacts corridor_cameras
  by (simp add: corridor_fields acc_number_def corridor_times corridor_publishers corridor_contacts corridor_cameras corridor_header corridor_drift
      corridor_odometry_ok)

theorem accepted_report_is_evidence_witness:
  "vget corridor_report ''mission_state'' = VStr ''SUCCEEDED'' \<and> vget corridor_report ''failure_code'' = VNone \<and>
    (\<exists>ds t1 t2 t3. vget corridor_report ''stages'' = VList (map VDict ds) \<and> map (\<lambda>d. vget d ''id'') ds = map VStr EXPECTED_STAGE_IDS \<and>
      map (\<lambda>d. acc_number (vget d ''elapsed'')) ds = [Ret (Some (Fin t1)), Ret (Some (Fin t2)), Ret (Some (Fin t3))] \<and> 0 < t1 \<and> t1 < t2 \<and> t2 < t3)"
  using accepted_report_is_evidence [OF corridor_accepted] by (elim conjE exE, intro conjI exI) assumption+

theorem passed_report_is_real_witness:
  "\<exists>targets b. bounds_of corridor_end = Some b \<and> visited_in_order (near corridor_libm) targets (run_window b corridor_moments) \<and>
    route_targets corridor_libm corridor_route = Ret targets \<and>
    \<not> is_prohibited_robot_contact ''hospital_amr::wheel'' ''ground_plane::link''"
proof -
  have "mn_odom corridor_monitor = corridor_moments" "(''hospital_amr::wheel'', ''ground_plane::link'') \<in> set (mn_seen corridor_monitor)"
    by (simp_all add: corridor_monitor_def)
  with passed_report_is_real [OF corridor_generated corridor_accepted] corridor_monitored corridor_loads(1) show ?thesis by auto
qed

end
