(* ===== verification/Evidence.thy ===== *)
theory Evidence
  imports PyText PyValue
begin

text \<open>
  The evidence directory: \<^verbatim>\<open>agent_ros/runtime/evidence.py\<close>. The directory is a list of names with the files they name, and the store
  counts the descriptors it holds open. What each system call answers is an argument of the operation: whether it fails, how much of
  a read or a write it does, and, for a read, what the file behind the descriptor is at that moment, since other processes may write to
  it. JSON encoding is a parameter.
\<close>

section \<open>Files\<close>

record ev_node =
  nd_regular :: bool
  nd_device :: int
  nd_inode :: int
  nd_mtime :: int
  nd_content :: string

record file_info =
  fi_regular :: bool
  fi_device :: int
  fi_inode :: int
  fi_size :: int
  fi_mtime :: int

definition info_of :: "ev_node \<Rightarrow> file_info" where
  "info_of n = \<lparr>fi_regular = nd_regular n, fi_device = nd_device n, fi_inode = nd_inode n, fi_size = int (length (nd_content n)), fi_mtime = nd_mtime n\<rparr>"

type_synonym ev_dir = "(string \<times> ev_node) list"

record ev_fs =
  fs_dir :: ev_dir
  fs_open :: nat

type_synonym 'a fs_step = "ev_fs \<Rightarrow> 'a result \<times> ev_fs"

definition fs_ret :: "'a \<Rightarrow> 'a fs_step" where "fs_ret x s = (Ret x, s)"
definition fs_raise :: "py_exn \<Rightarrow> 'a fs_step" where "fs_raise e s = (Raise e, s)"

definition fs_bind :: "'a fs_step \<Rightarrow> ('a \<Rightarrow> 'b fs_step) \<Rightarrow> 'b fs_step" where
  "fs_bind m f s = (case m s of (Inl e, s1) \<Rightarrow> (Inl e, s1) | (Inr x, s1) \<Rightarrow> f x s1)"

text \<open>\<^verbatim>\<open>try: body finally: cleanup\<close>: an exception of the cleanup takes the place of whatever the body ends with.\<close>

definition ensuring :: "'a fs_step \<Rightarrow> unit fs_step \<Rightarrow> 'a fs_step" where
  "ensuring body cleanup s =
     (case body s of (r, s1) \<Rightarrow> (case cleanup s1 of (Inl e, s2) \<Rightarrow> (Inl e, s2) | (Inr _, s2) \<Rightarrow> (r, s2)))"

definition as_evidence :: "'a fs_step \<Rightarrow> 'a fs_step" where
  "as_evidence m s = (case m s of (Inl e, s1) \<Rightarrow> (Inl (if e = PyOSError then EvidenceError else e), s1) | (Inr x, s1) \<Rightarrow> (Inr x, s1))"

lemmas fs_simps = fs_ret_def fs_raise_def fs_bind_def ensuring_def as_evidence_def

definition held :: "ev_fs \<Rightarrow> ev_fs" where "held s = s\<lparr>fs_open := Suc (fs_open s)\<rparr>"

text \<open>\<^verbatim>\<open>_close\<close>: a descriptor that cannot be closed stays counted.\<close>

definition close_fd :: "bool \<Rightarrow> unit fs_step" where
  "close_fd ok s = (if ok then (Ret (), s\<lparr>fs_open := fs_open s - 1\<rparr>) else (Raise EvidenceError, s))"

text \<open>A body that runs with the directory open.\<close>

definition with_root :: "bool \<Rightarrow> bool \<Rightarrow> 'a fs_step \<Rightarrow> 'a fs_step" where
  "with_root opens closes body s =
     (if opens then ensuring body (close_fd closes) (held s) else (Raise PyOSError, s))"

section \<open>References\<close>

definition MEDIA_TYPES :: "(string \<times> string) list" where
  "MEDIA_TYPES = [(''.json'', ''application/json''), (''.png'', ''image/png'')]"

definition report_id_ok :: "string \<Rightarrow> bool" where
  "report_id_ok = rx (\<lambda>c. is_lower c \<or> is_digit c) (\<lambda>c. is_lower c \<or> is_digit c \<or> c = CHR ''_'' \<or> c = CHR ''-'') 1 (Some 64)"

definition validate_id :: "pyval \<Rightarrow> string result" where
  "validate_id v = (case v of VStr s \<Rightarrow> if report_id_ok s then Ret s else Raise EvidenceError | _ \<Rightarrow> Raise EvidenceError)"

record ev_reference =
  er_report_id :: string
  er_relative_path :: string
  er_media_type :: string
  er_size :: int
  er_device :: int
  er_inode :: int
  er_mtime :: int

definition reference_of :: "string \<Rightarrow> string \<Rightarrow> file_info \<Rightarrow> ev_reference" where
  "reference_of report_id name info =
     \<lparr>er_report_id = report_id, er_relative_path = name, er_media_type = the (dget MEDIA_TYPES (name_suffix name)), er_size = fi_size info,
      er_device = fi_device info, er_inode = fi_inode info, er_mtime = fi_mtime info\<rparr>"

definition matches_reference :: "ev_reference \<Rightarrow> file_info \<Rightarrow> bool" where
  "matches_reference r info \<longleftrightarrow>
     er_device r = fi_device info \<and> er_inode r = fi_inode info \<and> er_size r = fi_size info \<and> er_mtime r = fi_mtime info"

definition same_snapshot :: "file_info \<Rightarrow> file_info \<Rightarrow> bool" where
  "same_snapshot a b \<longleftrightarrow> fi_device a = fi_device b \<and> fi_inode a = fi_inode b \<and> fi_size a = fi_size b \<and> fi_mtime a = fi_mtime b"

section \<open>Opening the store\<close>

record init_os =
  io_mkdir :: bool
  io_chmod :: bool
  io_root :: bool
  io_close :: bool

definition evidence_init :: "init_os \<Rightarrow> unit fs_step" where
  "evidence_init os =
     as_evidence (if \<not> io_mkdir os \<or> \<not> io_chmod os \<or> \<not> io_root os then fs_raise PyOSError else (\<lambda>s. close_fd (io_close os) (held s)))"

section \<open>Finding a report\<close>

record stat_os =
  so_root :: bool
  so_stat :: bool
  so_close :: bool

definition stat_call :: "bool \<Rightarrow> string \<Rightarrow> file_info fs_step" where
  "stat_call ok name s =
     (case dget (fs_dir s) name of Some n \<Rightarrow> (if ok then Ret (info_of n) else Raise PyOSError, s) | None \<Rightarrow> (Raise PyOSError, s))"

definition stat_name :: "stat_os \<Rightarrow> string \<Rightarrow> file_info fs_step" where
  "stat_name os name =
     fs_bind (as_evidence (with_root (so_root os) (so_close os) (stat_call (so_stat os) name))) (\<lambda>info.
       if fi_regular info then fs_ret info else fs_raise EvidenceError)"

record get_os =
  go_stats :: "string \<Rightarrow> stat_os"
  go_root :: bool
  go_list :: bool
  go_stat :: "string \<Rightarrow> bool"
  go_close :: bool

definition candidates :: "(string \<Rightarrow> bool) \<Rightarrow> ev_dir \<Rightarrow> (string \<times> file_info) list" where
  "candidates stat dir =
     map (\<lambda>(name, node). (name, info_of node)) (filter (\<lambda>(name, node).
       dget MEDIA_TYPES (name_suffix name) \<noteq> None \<and> report_id_ok (name_stem name) \<and> stat name \<and> nd_regular node) dir)"

definition safe_candidates :: "get_os \<Rightarrow> (string \<times> file_info) list fs_step" where
  "safe_candidates os =
     as_evidence (with_root (go_root os) (go_close os) (\<lambda>s.
       if go_list os then (Ret (candidates (go_stat os) (fs_dir s)), s) else (Raise PyOSError, s)))"

text \<open>The key of \<^verbatim>\<open>max\<close>: the time of the last change, then the name.\<close>

definition older :: "string \<times> file_info \<Rightarrow> string \<times> file_info \<Rightarrow> bool" where
  "older a b \<longleftrightarrow> fi_mtime (snd a) < fi_mtime (snd b) \<or> fi_mtime (snd a) = fi_mtime (snd b) \<and> \<not> text_le (fst b) (fst a)"

fun newest :: "string \<times> file_info \<Rightarrow> (string \<times> file_info) list \<Rightarrow> string \<times> file_info" where
  "newest best [] = best"
| "newest best (c # cs) = newest (if older best c then c else best) cs"

text \<open>The files of one report that can be looked at, under either suffix.\<close>

fun stat_names :: "(string \<Rightarrow> stat_os) \<Rightarrow> string list \<Rightarrow> (string \<times> file_info) list fs_step" where
  "stat_names os [] s = (Ret [], s)"
| "stat_names os (n # ns) s =
     (case stat_name (os n) n s of
        (Inl _, s1) \<Rightarrow> stat_names os ns s1
      | (Inr info, s1) \<Rightarrow> fs_bind (stat_names os ns) (\<lambda>cs. fs_ret ((n, info) # cs)) s1)"

definition ev_get :: "get_os \<Rightarrow> pyval \<Rightarrow> ev_reference fs_step" where
  "ev_get os report_id =
     (if report_id = VNone
      then fs_bind (safe_candidates os) (\<lambda>cs.
        case cs of [] \<Rightarrow> fs_raise EvidenceError
        | c # rest \<Rightarrow> let (name, info) = newest c rest in fs_ret (reference_of (name_stem name) name info))
      else case validate_id report_id of
        Inl e \<Rightarrow> fs_raise e
      | Inr i \<Rightarrow>
          fs_bind (stat_names (go_stats os) (map (\<lambda>(suffix, _). i @ suffix) MEDIA_TYPES)) (\<lambda>cs.
            case cs of [(name, info)] \<Rightarrow> fs_ret (reference_of i name info) | _ \<Rightarrow> fs_raise EvidenceError))"

section \<open>Reading a report\<close>

text \<open>\<^verbatim>\<open>os.read\<close> of at most \<open>n\<close> bytes delivers at least one of those there are, and how many is up to the system.\<close>

definition os_read :: "string \<Rightarrow> nat \<Rightarrow> nat \<Rightarrow> nat \<Rightarrow> string" where
  "os_read content offset n k = take (min n (Suc k)) (drop offset content)"

text \<open>A call finds the file as it is then, and the bound the system sets; or it fails.\<close>

type_synonym read_call = "(ev_node \<times> nat) option"

record read_os =
  ro_root :: bool
  ro_open :: bool
  ro_before :: "ev_node option"
  ro_reads :: "nat \<Rightarrow> read_call"
  ro_after :: "ev_node option"
  ro_close :: bool
  ro_close_root :: bool

definition CHUNK :: nat where "CHUNK = 65536"

function read_chunks :: "(nat \<Rightarrow> read_call) \<Rightarrow> nat \<Rightarrow> nat \<Rightarrow> nat \<Rightarrow> (nat \<times> string) result" where
  "read_chunks calls i offset remaining =
     (if remaining = 0 then Ret (i, [])
      else case calls i of
        None \<Rightarrow> Raise PyOSError
      | Some (node, k) \<Rightarrow>
          let chunk = os_read (nd_content node) offset (min CHUNK remaining) k in
          if chunk = [] then Raise EvidenceError
          else rbind (read_chunks calls (Suc i) (offset + length chunk) (remaining - length chunk)) (\<lambda>(j, chunks). Ret (j, chunk @ chunks)))"
  by pat_completeness auto
termination
  by (relation "measure (\<lambda>(calls, i, offset, remaining). remaining)") auto

declare read_chunks.simps [simp del]

definition read_checked :: "read_os \<Rightarrow> ev_reference \<Rightarrow> string result" where
  "read_checked os r =
     (case ro_before os of
        None \<Rightarrow> Raise PyOSError
      | Some before \<Rightarrow>
          if \<not> nd_regular before \<or> \<not> matches_reference r (info_of before) then Raise EvidenceError
          else rbind (read_chunks (ro_reads os) 0 0 (nat (er_size r))) (\<lambda>(i, content).
            case ro_reads os i of
              None \<Rightarrow> Raise PyOSError
            | Some (node, k) \<Rightarrow>
                if os_read (nd_content node) (length content) 1 k \<noteq> [] then Raise EvidenceError
                else case ro_after os of
                  None \<Rightarrow> Raise PyOSError
                | Some after \<Rightarrow>
                    if \<not> matches_reference r (info_of after) \<or> \<not> same_snapshot (info_of before) (info_of after)
                    then Raise EvidenceError else Ret content))"

text \<open>The root is closed only when the file could be.\<close>

definition read_opened :: "read_os \<Rightarrow> ev_reference \<Rightarrow> string fs_step" where
  "read_opened os r =
     (if ro_open os
      then (\<lambda>s. ensuring (\<lambda>s. (read_checked os r, s)) (fs_bind (close_fd (ro_close os)) (\<lambda>_. close_fd (ro_close_root os))) (held s))
      else ensuring (fs_raise PyOSError) (close_fd (ro_close_root os)))"

definition ev_read :: "read_os \<Rightarrow> ev_reference \<Rightarrow> pyval \<Rightarrow> string fs_step" where
  "ev_read os r max_bytes =
     (case max_bytes of
        VInt n \<Rightarrow>
          if n < 1 \<or> er_size r < 0 \<or> n < er_size r \<or> \<not> report_id_ok (er_report_id r) then fs_raise EvidenceError
          else (let suffix = path_suffix (path_parts (er_relative_path r)) in
            if er_report_id r @ suffix \<noteq> er_relative_path r \<or> dget MEDIA_TYPES suffix \<noteq> Some (er_media_type r) then fs_raise EvidenceError
            else as_evidence (\<lambda>s. if ro_root os then read_opened os r (held s) else (Raise PyOSError, s)))
      | _ \<Rightarrow> fs_raise EvidenceError)"

section \<open>Writing a report\<close>

record write_os =
  wo_token :: string
  wo_root :: bool
  wo_create :: "(int \<times> int) option"
  wo_writes :: "nat \<Rightarrow> int option"
  wo_mtime :: int
  wo_sync :: bool
  wo_close :: bool
  wo_replace :: bool
  wo_sync_root :: bool
  wo_unlink :: bool
  wo_close_again :: bool
  wo_close_root :: bool

function write_chunks :: "(nat \<Rightarrow> int option) \<Rightarrow> nat \<Rightarrow> string \<Rightarrow> string \<Rightarrow> bool \<times> string" where
  "write_chunks calls i rest written =
     (if rest = [] then (True, written)
      else case calls i of
        None \<Rightarrow> (False, written)
      | Some n \<Rightarrow> if n \<le> 0 then (False, written)
                  else write_chunks calls (Suc i) (drop (nat n) rest) (written @ take (nat n) rest))"
  by pat_completeness auto
termination
  by (relation "measure (\<lambda>(calls, i, rest, written). length rest)") auto

declare write_chunks.simps [simp del]

definition dir_remove :: "string \<Rightarrow> ev_dir \<Rightarrow> ev_dir" where
  "dir_remove name dir = filter (\<lambda>(n, _). n \<noteq> name) dir"

definition dir_rename :: "string \<Rightarrow> string \<Rightarrow> ev_dir \<Rightarrow> ev_dir" where
  "dir_rename src dst dir = (case dget dir src of None \<Rightarrow> dir | Some n \<Rightarrow> dset dst n (dir_remove src dir))"

text \<open>The closing of whatever is still open at the end: of the file, where it is, and then of the root.\<close>

definition close_rest :: "write_os \<Rightarrow> bool \<Rightarrow> unit fs_step" where
  "close_rest os file_open =
     (if file_open then fs_bind (close_fd (wo_close_again os)) (\<lambda>_. close_fd (wo_close_root os)) else close_fd (wo_close_root os))"

text \<open>A failed call: the temporary file is removed if it can be.\<close>

definition abandon :: "write_os \<Rightarrow> bool \<Rightarrow> string \<Rightarrow> unit fs_step" where
  "abandon os file_open temporary =
     ensuring (\<lambda>s. (Raise EvidenceError, if wo_unlink os then s\<lparr>fs_dir := dir_remove temporary (fs_dir s)\<rparr> else s)) (close_rest os file_open)"

definition replace_file :: "write_os \<Rightarrow> string \<Rightarrow> string \<Rightarrow> unit fs_step" where
  "replace_file os temporary destination s =
     (if \<not> wo_replace os then abandon os False temporary s
      else let s1 = s\<lparr>fs_dir := dir_rename temporary destination (fs_dir s)\<rparr> in
        if \<not> wo_sync_root os then abandon os False temporary s1 else ensuring (fs_ret ()) (close_rest os False) s1)"

text \<open>The close inside the body raises an evidence error, which the handler of the system's errors does not see.\<close>

definition write_file :: "write_os \<Rightarrow> string \<Rightarrow> string \<Rightarrow> string \<Rightarrow> unit fs_step" where
  "write_file os temporary destination encoded s =
     (if \<not> wo_root os then (Raise EvidenceError, s)
      else case wo_create os of
        None \<Rightarrow> abandon os False temporary (held s)
      | Some (device, inode) \<Rightarrow>
          if dget (fs_dir s) temporary \<noteq> None then abandon os False temporary (held s)
          else let (complete, content) = write_chunks (wo_writes os) 0 encoded [];
                   node = \<lparr>nd_regular = True, nd_device = device, nd_inode = inode, nd_mtime = wo_mtime os, nd_content = content\<rparr>;
                   s1 = held (held (s\<lparr>fs_dir := dset temporary node (fs_dir s)\<rparr>)) in
               if \<not> complete \<or> \<not> wo_sync os then abandon os True temporary s1
               else if \<not> wo_close os then ensuring (fs_raise EvidenceError) (close_rest os True) s1
               else replace_file os temporary destination (s1\<lparr>fs_open := fs_open s1 - 1\<rparr>))"

definition temporary_name :: "write_os \<Rightarrow> string \<Rightarrow> string" where
  "temporary_name os report_id = ''.'' @ report_id @ ''.'' @ wo_token os @ ''.tmp''"

definition encode_evidence :: "(pyval \<Rightarrow> string result) \<Rightarrow> pyval \<Rightarrow> string result" where
  "encode_evidence dumps value =
     (case value of
        VList _ \<Rightarrow> rbind (case dumps value of Inl e \<Rightarrow> Raise (if e \<in> {PyTypeError, PyValueError} then EvidenceError else e) | r \<Rightarrow> r)
          (\<lambda>t. Ret (t @ [CHR 0x0A]))
      | VDict _ \<Rightarrow> rbind (case dumps value of Inl e \<Rightarrow> Raise (if e \<in> {PyTypeError, PyValueError} then EvidenceError else e) | r \<Rightarrow> r)
          (\<lambda>t. Ret (t @ [CHR 0x0A]))
      | _ \<Rightarrow> Raise EvidenceError)"

definition write_json :: "(pyval \<Rightarrow> string result) \<Rightarrow> write_os \<Rightarrow> get_os \<Rightarrow> pyval \<Rightarrow> pyval \<Rightarrow> ev_reference fs_step" where
  "write_json dumps os reading report_id value =
     (case rbind (validate_id report_id) (\<lambda>i. rbind (encode_evidence dumps value) (\<lambda>t. Ret (i, t))) of
        Inl e \<Rightarrow> fs_raise e
      | Inr (i, encoded) \<Rightarrow>
          fs_bind (write_file os (temporary_name os i) (i @ ''.json'') encoded) (\<lambda>_. ev_get reading report_id))"

section \<open>The directory and the descriptors\<close>

lemma ensuring_Inr: "ensuring body cleanup s = (Inr x, s2) \<longleftrightarrow> (\<exists>s1. body s = (Inr x, s1) \<and> cleanup s1 = (Inr (), s2))"
  by (auto simp: ensuring_def split: prod.splits sum.splits)

lemma fs_bind_Inr: "fs_bind m f s = (Inr y, s2) \<longleftrightarrow> (\<exists>x s1. m s = (Inr x, s1) \<and> f x s1 = (Inr y, s2))"
  by (auto simp: fs_bind_def split: prod.splits sum.splits)

lemma as_evidence_Inr: "as_evidence m s = (Inr x, s1) \<longleftrightarrow> m s = (Inr x, s1)"
  by (auto simp: as_evidence_def split: prod.splits sum.splits if_splits)

lemma close_fd_Inr: "close_fd ok s = (Inr u, s1) \<longleftrightarrow> ok \<and> s1 = s\<lparr>fs_open := fs_open s - 1\<rparr>"
  by (auto simp: close_fd_def)

lemmas fs_results = ensuring_Inr fs_bind_Inr as_evidence_Inr close_fd_Inr

text \<open>What a step does to the directory, whatever it ends with.\<close>

definition touches :: "(ev_dir \<Rightarrow> ev_dir \<Rightarrow> bool) \<Rightarrow> 'a fs_step \<Rightarrow> bool" where
  "touches R m \<longleftrightarrow> (\<forall>s. R (fs_dir s) (fs_dir (snd (m s))))"

definition looks :: "'a fs_step \<Rightarrow> bool" where "looks = touches (=)"

lemma looks_dir: "looks m \<Longrightarrow> m s = (r, s1) \<Longrightarrow> fs_dir s1 = fs_dir s"
  by (metis looks_def touches_def snd_conv)

lemma looksI: "(\<And>s r s1. m s = (r, s1) \<Longrightarrow> fs_dir s1 = fs_dir s) \<Longrightarrow> looks m"
  by (simp add: looks_def touches_def) (metis prod.collapse)

lemma looks_rules [intro, simp]:
  "looks (fs_ret x)" "looks (fs_raise e)" "looks (close_fd ok)" "looks (stat_call ok name)"
  by (auto intro!: looksI simp: fs_simps close_fd_def stat_call_def split: if_splits option.splits)

lemma looks_bind: "looks m \<Longrightarrow> (\<And>x. looks (f x)) \<Longrightarrow> looks (fs_bind m f)"
  by (rule looksI) (auto simp: fs_bind_def split: prod.splits sum.splits, (metis looks_dir)+)

lemma looks_ensuring: "looks body \<Longrightarrow> looks cleanup \<Longrightarrow> looks (ensuring body cleanup)"
  by (rule looksI) (auto simp: ensuring_def split: prod.splits sum.splits, (metis looks_dir)+)

lemma looks_as_evidence: "looks m \<Longrightarrow> looks (as_evidence m)"
  by (rule looksI) (auto simp: as_evidence_def split: prod.splits sum.splits dest: looks_dir)

lemma looks_held: "looks m \<Longrightarrow> looks (\<lambda>s. m (held s))"
  by (rule looksI) (auto simp: held_def dest: looks_dir)

lemma looks_root: "looks body \<Longrightarrow> looks (with_root opens closes body)"
  using looks_held [OF looks_ensuring [of body "close_fd closes"]] by (auto intro!: looksI simp: with_root_def split: if_splits dest: looks_dir)

lemma looks_stat: "looks (stat_name os name)"
  unfolding stat_name_def by (intro looks_bind looks_as_evidence looks_root) auto

lemma looks_stats: "looks (stat_names os names)"
proof (induction names)
  case (Cons n ns)
  have tail: "looks (fs_bind (stat_names os ns) (\<lambda>cs. fs_ret (c # cs)))" for c by (intro looks_bind Cons.IH) auto
  show ?case
    by (rule looksI) (auto split: prod.splits sum.splits, (metis looks_dir looks_stat Cons.IH tail)+)
qed (auto intro!: looksI)

lemma looks_get: "looks (ev_get os report_id)"
proof -
  have "looks (\<lambda>s. if go_list os then (Ret (candidates (go_stat os) (fs_dir s)), s) else (Raise PyOSError, s))" by (rule looksI) (auto split: if_splits)
  then have "looks (safe_candidates os)" unfolding safe_candidates_def by (intro looks_as_evidence looks_root)
  then show ?thesis unfolding ev_get_def
    by (auto intro!: looks_bind looks_stats split: list.splits sum.splits prod.splits simp: Let_def)
qed

section \<open>Finding\<close>

lemma stat_name_found:
  assumes "stat_name os name s = (Inr info, s1)"
  shows "\<exists>node. dget (fs_dir s) name = Some node \<and> nd_regular node \<and> info = info_of node"
proof -
  from assms obtain s2 where "with_root (so_root os) (so_close os) (stat_call (so_stat os) name) s = (Inr info, s2)" "fi_regular info"
    by (auto simp: stat_name_def fs_results fs_ret_def fs_raise_def split: if_splits)
  then obtain s3 where "stat_call (so_stat os) name (held s) = (Inr info, s3)" by (auto simp: with_root_def fs_results split: if_splits)
  with \<open>fi_regular info\<close> show ?thesis by (auto simp: stat_call_def held_def info_of_def split: option.splits if_splits)
qed

lemma stat_names_found:
  assumes "stat_names os names s = (Inr cs, s1)" "(name, info) \<in> set cs"
  shows "name \<in> set names \<and> (\<exists>node. dget (fs_dir s) name = Some node \<and> nd_regular node \<and> info = info_of node)"
  using assms
proof (induction names arbitrary: s cs)
  case (Cons n ns)
  obtain r s2 where st: "stat_name (os n) n s = (r, s2)" by fastforce
  then have same: "fs_dir s2 = fs_dir s" by (rule looks_dir [OF looks_stat])
  show ?case
  proof (cases r)
    case (Inl e)
    with Cons st same show ?thesis by fastforce
  next
    case (Inr i)
    with Cons.prems st obtain rest where rest: "stat_names os ns s2 = (Inr rest, s1)" "cs = (n, i) # rest" by (auto simp: fs_results fs_ret_def)
    with Cons.prems(2) Cons.IH [OF rest(1)] stat_name_found st Inr same show ?thesis by auto
  qed
qed simp

lemma newest_mem: "newest b cs \<in> set (b # cs)"
proof (induction cs arbitrary: b)
  case (Cons c cs)
  from Cons [of "if older b c then c else b"] show ?case by (auto split: if_splits)
qed simp

lemma not_older: "\<not> older b a \<longleftrightarrow> fi_mtime (snd a) < fi_mtime (snd b) \<or> fi_mtime (snd a) = fi_mtime (snd b) \<and> text_le (fst a) (fst b)"
  by (auto simp: older_def)

lemma not_older_trans: "\<not> older b a \<Longrightarrow> \<not> older c b \<Longrightarrow> \<not> older c a"
  unfolding not_older by (auto intro: text_le_trans)

lemma older_not: "older a b \<Longrightarrow> \<not> older b a"
  unfolding not_older using text_le_total by (auto simp: older_def)

lemma older_irrefl: "\<not> older a a"
  by (simp add: older_def)

lemma newest_max: "c \<in> set (b # cs) \<Longrightarrow> \<not> older (newest b cs) c"
proof (induction cs arbitrary: b c)
  case (Cons d cs)
  define m where "m = (if older b d then d else b)"
  have m: "\<not> older m b" "\<not> older m d" by (simp_all add: m_def older_irrefl older_not)
  have top: "\<not> older (newest m cs) m" by (rule Cons.IH) simp
  have "\<not> older (newest m cs) b" "\<not> older (newest m cs) d" by (rule not_older_trans [OF m(1) top], rule not_older_trans [OF m(2) top])
  moreover have "\<not> older (newest m cs) c" if "c \<in> set cs" by (rule Cons.IH) (simp add: that)
  ultimately show ?case using Cons.prems by (auto simp flip: m_def)
qed (simp add: older_irrefl)

text \<open>A reference is only ever to a regular file of the directory with a safe name of its own, as the file was then; asked for the
  newest, it is to one that no other report of the directory that could be looked at is newer than.\<close>
theorem reference_is_confined:
  assumes "ev_get os report_id s = (Ret r, s1)" "distinct (dkeys (fs_dir s))"
  shows "report_id_ok (er_report_id r) \<and> fs_dir s1 = fs_dir s \<and>
    (er_relative_path r, er_media_type r) \<in> set (map (\<lambda>(suffix, media). (er_report_id r @ suffix, media)) MEDIA_TYPES) \<and>
    (\<exists>node. dget (fs_dir s) (er_relative_path r) = Some node \<and> nd_regular node \<and> matches_reference r (info_of node)) \<and>
    (report_id = VNone \<or> report_id = VStr (er_report_id r)) \<and>
    (report_id = VNone \<longrightarrow> (\<forall>name info. (name, info) \<in> set (candidates (go_stat os) (fs_dir s)) \<longrightarrow> fi_mtime info \<le> er_mtime r))"
proof -
  have dir: "fs_dir s1 = fs_dir s" using assms(1) by (rule looks_dir [OF looks_get])
  have media: "er_media_type (reference_of i name info) = m" if "dget MEDIA_TYPES (name_suffix name) = Some m" for i name info m
    using that by (simp add: reference_of_def)
  show ?thesis
  proof (cases "report_id = VNone")
    case True
    with assms(1) obtain cs s2 where found: "safe_candidates os s = (Ret cs, s2)"
      and pick: "(case cs of [] \<Rightarrow> fs_raise EvidenceError
        | c # rest \<Rightarrow> let (name, info) = newest c rest in fs_ret (reference_of (name_stem name) name info)) s2 = (Ret r, s1)"
      unfolding ev_get_def if_P [OF True] fs_bind_Inr by blast
    from pick obtain c rest where cs: "cs = c # rest" by (cases cs) (auto simp: fs_raise_def)
    with pick have r: "r = (case newest c rest of (name, info) \<Rightarrow> reference_of (name_stem name) name info)"
      by (auto simp: fs_ret_def split: prod.splits)
    from found have eq: "cs = candidates (go_stat os) (fs_dir s)"
      by (auto simp: safe_candidates_def with_root_def fs_results held_def split: if_splits)
    obtain name info where n: "newest c rest = (name, info)" by fastforce
    with newest_mem [of c rest] cs eq have "(name, info) \<in> set (candidates (go_stat os) (fs_dir s))" by simp
    then obtain node m where node: "(name, node) \<in> set (fs_dir s)" "info = info_of node" "nd_regular node" "report_id_ok (name_stem name)"
      "dget MEDIA_TYPES (name_suffix name) = Some m" by (auto simp: candidates_def)
    have "dget (fs_dir s) name = Some node" using node(1) assms(2) by (simp add: dget_map_of dkeys_def map_of_eq_Some_iff)
    moreover have "fi_mtime j \<le> fi_mtime info" if "(k, j) \<in> set (candidates (go_stat os) (fs_dir s))" for k j
      using newest_max [of "(k, j)" c rest] that cs eq n by (auto simp: older_def)
    moreover have "(name, m) \<in> set (map (\<lambda>(suffix, media). (name_stem name @ suffix, media)) MEDIA_TYPES)"
      using node(5) name_stem_suffix [of name] by (auto simp: MEDIA_TYPES_def split: if_splits)
    ultimately show ?thesis using r n node True dir media [OF node(5)]
      by (auto simp: reference_of_def matches_reference_def)
  next
    case False
    with assms(1) obtain i where i: "report_id = VStr i" "report_id_ok i"
      by (cases report_id) (auto simp: ev_get_def validate_id_def fs_raise_def split: if_splits)
    with assms(1) have "fs_bind (stat_names (go_stats os) (map (\<lambda>(suffix, _). i @ suffix) MEDIA_TYPES))
        (\<lambda>cs. case cs of [(name, info)] \<Rightarrow> fs_ret (reference_of i name info) | _ \<Rightarrow> fs_raise EvidenceError) s = (Ret r, s1)"
      by (simp add: ev_get_def validate_id_def)
    then obtain cs s2 where found: "stat_names (go_stats os) (map (\<lambda>(suffix, _). i @ suffix) MEDIA_TYPES) s = (Ret cs, s2)"
      and pick: "(case cs of [(name, info)] \<Rightarrow> fs_ret (reference_of i name info) | _ \<Rightarrow> fs_raise EvidenceError) s2 = (Ret r, s1)"
      unfolding fs_bind_Inr by blast
    from pick obtain name info where "cs = [(name, info)]" and r: "r = reference_of i name info"
      by (cases cs rule: remdups_adj.cases) (auto simp: fs_ret_def fs_raise_def)
    with found have cs: "stat_names (go_stats os) (map (\<lambda>(suffix, _). i @ suffix) MEDIA_TYPES) s = (Inr [(name, info)], s2)" by simp
    from stat_names_found [OF cs, of name info] obtain node suffix m where node: "dget (fs_dir s) name = Some node" "nd_regular node" "info = info_of node"
      and name: "name = i @ suffix" "(suffix, m) \<in> set MEDIA_TYPES" by auto
    have "i \<noteq> []" using rx_nonempty i(2) by (simp add: report_id_ok_def)
    then have "name_suffix name = suffix" using name name_suffix_append(1) [of i "tl suffix"] by (auto simp: MEDIA_TYPES_def)
    then have "er_media_type r = m" using name(2) media r by (auto simp: MEDIA_TYPES_def)
    moreover have "(i @ suffix, m) \<in> set (map (\<lambda>(suffix, media). (i @ suffix, media)) MEDIA_TYPES)" using name(2) by force
    ultimately show ?thesis using i r node name(1) dir by (auto simp: reference_of_def matches_reference_def)
  qed
qed

section \<open>Reading\<close>

lemma os_read_take: "os_read content offset n k = take (length (os_read content offset n k)) (drop offset content)"
  unfolding os_read_def by (metis append_eq_conv_conj append_take_drop_id)

lemma read_chunks_Ret:
  assumes "read_chunks calls i offset remaining = Ret (j, data)"
    "\<And>m node k. calls m = Some (node, k) \<Longrightarrow> nd_content node = content"
  shows "data = take remaining (drop offset content) \<and> length data = remaining"
  using assms(1)
proof (induction calls\<equiv>calls i offset remaining arbitrary: j data rule: read_chunks.induct)
  case (1 i offset remaining)
  show ?case
  proof (cases "remaining = 0")
    case False
    with 1(2) obtain node k where call: "calls i = Some (node, k)" by (auto simp: read_chunks.simps [of calls i] split: option.splits)
    define chunk where "chunk = os_read content offset (min CHUNK remaining) k"
    have c: "chunk = os_read (nd_content node) offset (min CHUNK remaining) k" using assms(2) [OF call] by (simp add: chunk_def)
    have "read_chunks calls i offset remaining =
        (if chunk = [] then Raise EvidenceError
         else rbind (read_chunks calls (Suc i) (offset + length chunk) (remaining - length chunk)) (\<lambda>(j, chunks). Ret (j, chunk @ chunks)))"
      by (subst read_chunks.simps) (simp add: False call Let_def flip: c)
    with 1(2) obtain rest where rest: "chunk \<noteq> []" "read_chunks calls (Suc i) (offset + length chunk) (remaining - length chunk) = Ret (j, rest)"
      "data = chunk @ rest" by (auto split: if_splits)
    note ih = conjunct1 [OF 1(1) [OF False call refl c rest(1) rest(2)]] conjunct2 [OF 1(1) [OF False call refl c rest(1) rest(2)]]
    have len: "length chunk \<le> remaining" by (simp add: chunk_def os_read_def)
    have "chunk = take (length chunk) (drop offset content)" unfolding chunk_def by (rule os_read_take)
    then have "take remaining (drop offset content) = chunk @ rest"
      using len by (metis add.commute drop_drop ih(1) le_add_diff_inverse take_add)
    with rest(3) ih(2) len show ?thesis by simp
  qed (use 1(2) in \<open>simp add: read_chunks.simps\<close>)
qed

text \<open>One change of a file after another gives it a later time, unless it leaves the content as it was.\<close>

definition later :: "ev_node \<Rightarrow> ev_node \<Rightarrow> bool" where
  "later a b \<longleftrightarrow> nd_mtime a < nd_mtime b \<or> nd_mtime a = nd_mtime b \<and> nd_content a = nd_content b"

lemma ev_read_Ret:
  assumes "ev_read os r max_bytes s = (Ret data, s1)"
  obtains before after j node k n where "ro_before os = Some before" "ro_after os = Some after" "max_bytes = VInt n" "0 \<le> er_size r" "er_size r \<le> n"
    "nd_regular before" "matches_reference r (info_of before)" "matches_reference r (info_of after)"
    "read_chunks (ro_reads os) 0 0 (nat (er_size r)) = Ret (j, data)" "ro_reads os j = Some (node, k)"
    "os_read (nd_content node) (length data) 1 k = []"
proof -
  from assms obtain n where n: "max_bytes = VInt n" "0 \<le> er_size r" "er_size r \<le> n"
    and "as_evidence (\<lambda>s. if ro_root os then read_opened os r (held s) else (Raise PyOSError, s)) s = (Ret data, s1)"
    by (auto simp: ev_read_def fs_raise_def Let_def split: pyval.splits if_splits)
  then have "read_checked os r = Ret data"
    by (auto simp: fs_results read_opened_def fs_raise_def split: if_splits)
  then obtain before where b: "ro_before os = Some before" "nd_regular before" "matches_reference r (info_of before)"
    and "rbind (read_chunks (ro_reads os) 0 0 (nat (er_size r))) (\<lambda>(i, content).
        case ro_reads os i of None \<Rightarrow> Raise PyOSError
        | Some (node, k) \<Rightarrow>
            if os_read (nd_content node) (length content) 1 k \<noteq> [] then Raise EvidenceError
            else case ro_after os of None \<Rightarrow> Raise PyOSError
              | Some after \<Rightarrow> if \<not> matches_reference r (info_of after) \<or> \<not> same_snapshot (info_of before) (info_of after)
                  then Raise EvidenceError else Ret content) = Ret data"
    unfolding read_checked_def by (cases "ro_before os") (auto split: if_splits)
  then obtain j content where c: "read_chunks (ro_reads os) 0 0 (nat (er_size r)) = Ret (j, content)"
    and "(case ro_reads os j of None \<Rightarrow> Raise PyOSError
        | Some (node, k) \<Rightarrow>
            if os_read (nd_content node) (length content) 1 k \<noteq> [] then Raise EvidenceError
            else case ro_after os of None \<Rightarrow> Raise PyOSError
              | Some after \<Rightarrow> if \<not> matches_reference r (info_of after) \<or> \<not> same_snapshot (info_of before) (info_of after)
                  then Raise EvidenceError else Ret content) = Ret data" by (auto simp del: One_nat_def)
  then obtain node k after where "ro_reads os j = Some (node, k)" "os_read (nd_content node) (length content) 1 k = []" "ro_after os = Some after"
    "matches_reference r (info_of after)" "content = data"
    by (cases "ro_reads os j"; cases "ro_after os") (auto split: if_splits)
  with b c n show thesis using that by blast
qed


section \<open>Writing\<close>

lemma write_chunks_ok: "write_chunks calls i rest written = (True, content) \<Longrightarrow> content = written @ rest"
proof (induction calls i rest written rule: write_chunks.induct)
  case (1 calls i rest written)
  then show ?case by (subst (asm) (2) write_chunks.simps) (auto split: if_splits option.splits)
qed

text \<open>A name other than that of the temporary file keeps its file, up to the replacement.\<close>

definition keeps_name :: "string \<Rightarrow> ev_dir \<Rightarrow> ev_dir \<Rightarrow> bool" where
  "keeps_name name d d1 \<longleftrightarrow> dget d1 name = dget d name"

lemma dget_remove: "dget (dir_remove name dir) k = (if k = name then None else dget dir k)"
  by (induction dir) (auto simp: dir_remove_def)

lemma close_rest_looks: "looks (close_rest os file_open)"
  unfolding close_rest_def by (auto intro: looks_bind)

lemma abandon_dir:
  assumes "abandon os file_open temporary s = (r, s1)" shows "\<exists>e. r = Raise e" "k \<noteq> temporary \<Longrightarrow> dget (fs_dir s1) k = dget (fs_dir s) k"
  using assms looks_dir [OF close_rest_looks [of os file_open]]
  by (auto simp: abandon_def ensuring_def dget_remove split: prod.splits sum.splits if_splits)

lemma held_dir [simp]: "fs_dir (held s) = fs_dir s"
  by (simp add: held_def)

text \<open>The outcomes of a write: it fails and every other name keeps its file, or the destination has got the new one.\<close>

definition file_with :: "string \<Rightarrow> ev_node option \<Rightarrow> bool" where
  "file_with content f \<longleftrightarrow> (\<exists>node. f = Some node \<and> nd_regular node \<and> nd_content node = content)"

lemma replace_outcome:
  assumes "replace_file os temporary destination s = (r, s1)" "dget (fs_dir s) temporary = Some node" "temporary \<noteq> destination"
  shows "k \<noteq> temporary \<Longrightarrow> k \<noteq> destination \<Longrightarrow> dget (fs_dir s1) k = dget (fs_dir s) k"
    "dget (fs_dir s1) destination = dget (fs_dir s) destination \<and> \<not> is_ret r \<or> dget (fs_dir s1) destination = Some node"
proof -
  let ?s = "s\<lparr>fs_dir := dir_rename temporary destination (fs_dir s)\<rparr>"
  have dir: "dget (dir_rename temporary destination (fs_dir s)) j = (if j = destination then Some node else if j = temporary then None else dget (fs_dir s) j)" for j
    using assms(2) by (simp add: dir_rename_def dget_remove)
  consider (early) "abandon os False temporary s = (r, s1)" | (late) "abandon os False temporary ?s = (r, s1)"
    | (finished) "ensuring (fs_ret ()) (close_rest os False) ?s = (r, s1)"
    using assms(1) by (auto simp: replace_file_def Let_def split: if_splits)
  then have "(\<forall>j. j \<noteq> temporary \<longrightarrow> dget (fs_dir s1) j = dget (fs_dir s) j) \<and> \<not> is_ret r \<or> (\<forall>j. j \<noteq> temporary \<longrightarrow> dget (fs_dir s1) j = dget (fs_dir ?s) j)"
  proof cases
    case early
    from abandon_dir [OF this] show ?thesis by auto
  next
    case late
    from abandon_dir(2) [OF this] show ?thesis by blast
  next
    case finished
    have "looks (ensuring (fs_ret ()) (close_rest os False))" by (intro looks_ensuring close_rest_looks) auto
    from looks_dir [OF this finished] show ?thesis by simp
  qed
  then show "k \<noteq> temporary \<Longrightarrow> k \<noteq> destination \<Longrightarrow> dget (fs_dir s1) k = dget (fs_dir s) k"
    "dget (fs_dir s1) destination = dget (fs_dir s) destination \<and> \<not> is_ret r \<or> dget (fs_dir s1) destination = Some node"
    using assms(3) by (auto simp: dir)
qed

lemma write_file_outcome:
  assumes "write_file os temporary destination encoded s = (r, s1)" "temporary \<noteq> destination"
  shows "k \<noteq> temporary \<Longrightarrow> k \<noteq> destination \<Longrightarrow> dget (fs_dir s1) k = dget (fs_dir s) k"
    "dget (fs_dir s1) destination = dget (fs_dir s) destination \<and> \<not> is_ret r \<or> file_with encoded (dget (fs_dir s1) destination)"
proof -
  let ?P = "(\<forall>k. k \<noteq> temporary \<longrightarrow> k \<noteq> destination \<longrightarrow> dget (fs_dir s1) k = dget (fs_dir s) k) \<and>
    (dget (fs_dir s1) destination = dget (fs_dir s) destination \<and> \<not> is_ret r \<or> file_with encoded (dget (fs_dir s1) destination))"
  have failed: ?P if "abandon os b temporary t = (r, s1)" "\<And>k. k \<noteq> temporary \<Longrightarrow> dget (fs_dir t) k = dget (fs_dir s) k" for b t
    using abandon_dir [OF that(1)] that(2) assms(2) by auto
  obtain complete content where w: "write_chunks (wo_writes os) 0 encoded [] = (complete, content)" by fastforce
  have ?P
  proof (cases "wo_root os \<and> dget (fs_dir s) temporary = None \<and> wo_create os \<noteq> None")
    case False
    have keep: "dget (fs_dir (held s)) k = dget (fs_dir s) k" for k by simp
    show ?thesis
    proof (cases "wo_root os")
      case True
      with False assms(1) have "abandon os False temporary (held s) = (r, s1)" by (auto simp: write_file_def split: option.splits)
      then show ?thesis by (rule failed) (rule keep)
    qed (use assms(1) in \<open>auto simp: write_file_def\<close>)
  next
    case True
    then obtain device inode where made: "wo_create os = Some (device, inode)" by auto
    define node where "node = \<lparr>nd_regular = True, nd_device = device, nd_inode = inode, nd_mtime = wo_mtime os, nd_content = content\<rparr>"
    define t where "t = held (held (s\<lparr>fs_dir := dset temporary node (fs_dir s)\<rparr>))"
    have dir: "dget (fs_dir t) k = (if k = temporary then Some node else dget (fs_dir s) k)" for k by (simp add: t_def)
    have "write_file os temporary destination encoded s = (if \<not> complete \<or> \<not> wo_sync os then abandon os True temporary t
        else if \<not> wo_close os then ensuring (fs_raise EvidenceError) (close_rest os True) t
        else replace_file os temporary destination (t\<lparr>fs_open := fs_open t - 1\<rparr>))"
      using True made w by (simp add: write_file_def node_def t_def Let_def)
    note run = trans [OF this [symmetric] assms(1)]
    show ?thesis
    proof (cases "\<not> complete \<or> \<not> wo_sync os")
      case True
      with run have "abandon os True temporary t = (r, s1)" by simp
      then show ?thesis by (rule failed) (simp add: dir)
    next
      case ok: False
      show ?thesis
      proof (cases "wo_close os")
        case False
        with ok run have e: "ensuring (fs_raise EvidenceError) (close_rest os True) t = (r, s1)" by simp
        have "looks (ensuring (fs_raise EvidenceError) (close_rest os True))" by (intro looks_ensuring close_rest_looks) auto
        from looks_dir [OF this e] have "fs_dir s1 = fs_dir t" .
        moreover have "\<not> is_ret r" using e by (auto simp: ensuring_def fs_raise_def split: prod.splits sum.splits)
        ultimately show ?thesis using assms(2) by (simp add: dir)
      next
        case True
        with ok run have e: "replace_file os temporary destination (t\<lparr>fs_open := fs_open t - 1\<rparr>) = (r, s1)" by simp
        have node: "nd_regular node" "nd_content node = encoded" using w ok write_chunks_ok [of "wo_writes os" 0 encoded "[]" content] by (auto simp: node_def)
        from replace_outcome [OF e, of node] assms(2) node show ?thesis by (auto simp: dir file_with_def)
      qed
    qed
  qed
  then show "k \<noteq> temporary \<Longrightarrow> k \<noteq> destination \<Longrightarrow> dget (fs_dir s1) k = dget (fs_dir s) k"
    "dget (fs_dir s1) destination = dget (fs_dir s) destination \<and> \<not> is_ret r \<or> file_with encoded (dget (fs_dir s1) destination)" by blast+
qed

lemma temporary_apart: "report_id_ok i \<Longrightarrow> temporary_name os i \<noteq> i @ suffix"
  by (cases i) (auto simp: temporary_name_def report_id_ok_def is_lower_def is_digit_def in_range_def)

lemma write_json_writes:
  assumes "write_json dumps os reading report_id value s = (r, s2)"
  obtains (refused) e where "r = Raise e" "s2 = s"
    | (tried) i encoded r1 s1 where "report_id = VStr i" "report_id_ok i" "encode_evidence dumps value = Ret encoded"
      "write_file os (temporary_name os i) (i @ ''.json'') encoded s = (r1, s1)" "fs_dir s2 = fs_dir s1" "is_ret r \<Longrightarrow> is_ret r1 \<and> ev_get reading report_id s1 = (r, s2)"
proof (cases "rbind (validate_id report_id) (\<lambda>i. rbind (encode_evidence dumps value) (\<lambda>t. Ret (i, t)))")
  case (Inl e)
  with assms show thesis by (intro refused) (auto simp: write_json_def fs_raise_def)
next
  case (Inr p)
  then obtain i encoded where p: "p = (i, encoded)" "report_id = VStr i" "report_id_ok i" "encode_evidence dumps value = Ret encoded"
    by (auto simp: validate_id_def split: pyval.splits if_splits)
  obtain r1 s1 where w: "write_file os (temporary_name os i) (i @ ''.json'') encoded s = (r1, s1)" by fastforce
  show thesis
  proof (cases r1)
    case (Inl e)
    with assms Inr p w show thesis by (intro tried [OF p(2-4) w]) (auto simp: write_json_def fs_bind_def)
  next
    case (Inr u)
    with assms \<open>rbind _ _ = Inr p\<close> p w have "ev_get reading report_id s1 = (r, s2)" by (simp add: write_json_def fs_bind_def)
    with Inr looks_dir [OF looks_get] show thesis by (intro tried [OF p(2-4) w]) auto
  qed
qed

text \<open>C28: A report is written whole or not at all. Whatever fails, the report's file is afterwards either as it was, and then the call
  failed, or a regular file with exactly the encoded value; no other file of the directory changes but the temporary one.\<close>
theorem report_written_whole_or_not:
  assumes "write_json dumps os reading report_id value s = (r, s1)"
  shows "(\<exists>e. r = Raise e) \<and> s1 = s \<or>
    (\<exists>i encoded. report_id = VStr i \<and> encode_evidence dumps value = Ret encoded \<and>
      (\<forall>k. k \<noteq> temporary_name os i \<longrightarrow> k \<noteq> i @ ''.json'' \<longrightarrow> dget (fs_dir s1) k = dget (fs_dir s) k) \<and>
      ((\<exists>e. r = Raise e) \<and> dget (fs_dir s1) (i @ ''.json'') = dget (fs_dir s) (i @ ''.json'') \<or>
        file_with encoded (dget (fs_dir s1) (i @ ''.json''))))"
  using assms
proof (cases rule: write_json_writes)
  case (tried i encoded r1 s2)
  note w = write_file_outcome [OF tried(4) temporary_apart [OF tried(2)]]
  have "is_ret r \<longrightarrow> is_ret r1" using tried(6) by blast
  then have "(\<exists>e. r = Raise e) \<or> is_ret r1" by (cases r) auto
  with tried w show ?thesis by auto
qed auto

text \<open>The system leaves a file alone while it is read.\<close>

definition quiet_read :: "ev_node \<Rightarrow> read_os \<Rightarrow> bool" where
  "quiet_read node os \<longleftrightarrow> ro_root os \<and> ro_open os \<and> ro_before os = Some node \<and> ro_after os = Some node \<and>
     (\<forall>i. map_option fst (ro_reads os i) = Some node) \<and> ro_close os \<and> ro_close_root os"

lemma quiet_chunks:
  assumes "\<And>i. map_option fst (calls i) = Some node" "offset + remaining \<le> length (nd_content node)"
  shows "\<exists>j. read_chunks calls i offset remaining = Ret (j, take remaining (drop offset (nd_content node)))"
  using assms(2)
proof (induction remaining arbitrary: i offset rule: less_induct)
  case (less remaining)
  show ?case
  proof (cases "remaining = 0")
    case False
    from assms(1) [of i] obtain k where call: "calls i = Some (node, k)" by auto
    define chunk where "chunk = os_read (nd_content node) offset (min CHUNK remaining) k"
    have ne: "chunk \<noteq> []" using False less.prems by (simp add: chunk_def os_read_def CHUNK_def)
    have len: "length chunk \<le> remaining" by (simp add: chunk_def os_read_def)
    then obtain j where "read_chunks calls (Suc i) (offset + length chunk) (remaining - length chunk) =
        Ret (j, take (remaining - length chunk) (drop (offset + length chunk) (nd_content node)))"
      using less.IH [of "remaining - length chunk" "offset + length chunk" "Suc i"] ne less.prems False by auto
    moreover have "chunk = take (length chunk) (drop offset (nd_content node))" unfolding chunk_def by (rule os_read_take)
    ultimately have "read_chunks calls i offset remaining = Ret (j, take remaining (drop offset (nd_content node)))"
      using False call ne len by (subst read_chunks.simps) (simp add: Let_def flip: chunk_def, metis add.commute drop_drop le_add_diff_inverse take_add)
    then show ?thesis by blast
  qed (simp add: read_chunks.simps)
qed

lemma report_path:
  assumes "report_id_ok i" shows "path_suffix (path_parts (i @ ''.json'')) = ''.json''"
proof -
  have "i \<noteq> []" and "CHR ''/'' \<notin> set i" "CHR ''.'' \<notin> set i"
    using assms rx_nonempty rx_chars unfolding report_id_ok_def by (fastforce simp: is_lower_def is_digit_def in_range_def)+
  moreover from this have "list_all (\<lambda>c. c \<noteq> CHR ''/'') (i @ ''.json'')" by (auto simp: list_all_iff)
  ultimately show ?thesis using name_suffix_append(1) [of i "''json''"] by (simp add: path_parts_def split_char_none path_suffix_def)
qed

lemma quiet_read_returns:
  assumes "quiet_read node how" "nd_regular node" "matches_reference r (info_of node)" "er_size r \<le> n" "1 \<le> n" "report_id_ok (er_report_id r)"
    "er_relative_path r = er_report_id r @ ''.json''" "er_media_type r = ''application/json''"
  shows "ev_read how r (VInt n) s = (Ret (nd_content node), s)"
proof -
  have size: "er_size r = int (length (nd_content node))" using assms(3) by (simp add: matches_reference_def info_of_def)
  obtain j where chunks: "read_chunks (ro_reads how) 0 0 (nat (er_size r)) = Ret (j, nd_content node)"
    using quiet_chunks [of "ro_reads how" node 0 "nat (er_size r)" 0] assms(1) by (auto simp: quiet_read_def size)
  from assms(1) obtain k where "ro_reads how j = Some (node, k)" unfolding quiet_read_def by (metis (no_types, lifting) map_option_eq_Some prod.collapse)
  with chunks assms(1-3) have "read_checked how r = Ret (nd_content node)"
    by (simp add: read_checked_def quiet_read_def same_snapshot_def os_read_def)
  then have "read_opened how r (held s) = (Ret (nd_content node), s)"
    using assms(1) by (cases s) (simp add: read_opened_def quiet_read_def fs_simps close_fd_def held_def)
  moreover have "path_suffix (path_parts (er_relative_path r)) = ''.json''" by (simp add: assms(7) report_path [OF assms(6)])
  ultimately show ?thesis
    using assms size by (simp add: ev_read_def MEDIA_TYPES_def as_evidence_def quiet_read_def)
qed

text \<open>C26: What was written is read back: a reference that \<open>write_json\<close> returns reads as the encoded value, byte for byte, whatever
  else the directory holds.\<close>
theorem written_report_reads_back:
  assumes "write_json dumps os reading (VStr i) value s = (Ret r, s1)" "er_media_type r = ''application/json''"
    "dget (fs_dir s1) (er_relative_path r) = Some node" "quiet_read node how" "er_size r \<le> n" "1 \<le> n" "distinct (dkeys (fs_dir s1))"
  shows "\<exists>t. dumps value = Ret t \<and> ev_read how r (VInt n) s1 = (Ret (t @ [CHR 0x0A]), s1)"
  using assms(1)
proof (cases rule: write_json_writes)
  case (tried j encoded r1 s2)
  then have i: "i = j" and got: "ev_get reading (VStr i) s2 = (Ret r, s1)" and wrote: "is_ret r1" and dir: "fs_dir s1 = fs_dir s2" by auto
  from reference_is_confined [OF got] assms(7) dir have confined: "report_id_ok (er_report_id r)" "er_report_id r = i"
    "(er_relative_path r, er_media_type r) \<in> set (map (\<lambda>(suffix, media). (er_report_id r @ suffix, media)) MEDIA_TYPES)"
    "\<exists>node. dget (fs_dir s1) (er_relative_path r) = Some node \<and> nd_regular node \<and> matches_reference r (info_of node)" by auto
  then have path: "er_relative_path r = i @ ''.json''" using assms(2) by (auto simp: MEDIA_TYPES_def)
  have "file_with encoded (dget (fs_dir s1) (i @ ''.json''))"
    using write_file_outcome(2) [OF tried(4) temporary_apart [OF tried(2)]] wrote by (simp add: i dir)
  then have node: "nd_regular node" "nd_content node = encoded" "matches_reference r (info_of node)"
    using assms(3) confined(4) by (auto simp: path file_with_def)
  have "ev_read how r (VInt n) s1 = (Ret (nd_content node), s1)"
    using assms(2,4-6) node confined(1,2) path by (intro quiet_read_returns) simp_all
  then show ?thesis using tried(3) node(2) by (auto simp: encode_evidence_def split: pyval.splits sum.splits if_splits)
qed auto

section \<open>Descriptors\<close>

definition balanced :: "'a fs_step \<Rightarrow> bool" where
  "balanced m \<longleftrightarrow> (\<forall>s. fs_open (snd (m s)) = fs_open s)"

lemma balancedD: "balanced m \<Longrightarrow> m s = (r, s1) \<Longrightarrow> fs_open s1 = fs_open s"
  by (metis balanced_def snd_conv)

lemma balancedI: "(\<And>s r s1. m s = (r, s1) \<Longrightarrow> fs_open s1 = fs_open s) \<Longrightarrow> balanced m"
  by (simp add: balanced_def) (metis prod.collapse)

lemma balanced_basic [simp, intro]: "balanced (fs_ret x)" "balanced (fs_raise e)" "balanced (stat_call ok name)"
  by (auto simp: balanced_def fs_simps stat_call_def split: option.splits)

lemma balanced_bind: "balanced m \<Longrightarrow> (\<And>x. balanced (f x)) \<Longrightarrow> balanced (fs_bind m f)"
  by (rule balancedI) (auto simp: fs_bind_def split: prod.splits sum.splits, (metis balancedD)+)

lemma balanced_as_evidence: "balanced m \<Longrightarrow> balanced (as_evidence m)"
  by (rule balancedI) (auto simp: as_evidence_def split: prod.splits sum.splits dest: balancedD)

lemma balanced_held: "balanced body \<Longrightarrow> fs_open (snd (ensuring body (close_fd True) (held s))) = fs_open s"
  by (auto simp: ensuring_def close_fd_def held_def split: prod.splits dest: balancedD)

lemma balanced_root: "balanced body \<Longrightarrow> balanced (with_root opens True body)"
  unfolding balanced_def with_root_def by (auto simp: balanced_held balanced_def)

lemma balanced_stat: "so_close os \<Longrightarrow> balanced (stat_name os name)"
  unfolding stat_name_def by (auto intro!: balanced_bind balanced_as_evidence balanced_root)

lemma balanced_stats: "(\<And>n. so_close (os n)) \<Longrightarrow> balanced (stat_names os names)"
proof (induction names)
  case (Cons n ns)
  have tail: "balanced (fs_bind (stat_names os ns) (\<lambda>cs. fs_ret (c # cs)))" for c using Cons by (intro balanced_bind) auto
  show ?case using balanced_stat [of "os n" n] Cons
    by (intro balancedI) (auto split: prod.splits sum.splits, (metis balancedD tail)+)
qed (auto simp: balanced_def)

definition get_closes :: "get_os \<Rightarrow> bool" where
  "get_closes os \<longleftrightarrow> go_close os \<and> (\<forall>n. so_close (go_stats os n))"

lemma balanced_get: "get_closes os \<Longrightarrow> balanced (ev_get os report_id)"
proof -
  assume ok: "get_closes os"
  have "balanced (\<lambda>s. if go_list os then (Ret (candidates (go_stat os) (fs_dir s)), s) else (Raise PyOSError, s))" by (simp add: balanced_def)
  then have "balanced (safe_candidates os)" using ok by (auto simp: safe_candidates_def get_closes_def intro!: balanced_as_evidence balanced_root)
  then show ?thesis using ok unfolding ev_get_def get_closes_def
    by (auto intro!: balanced_bind balanced_stats split: list.splits sum.splits prod.splits simp: Let_def)
qed

definition write_closes :: "write_os \<Rightarrow> bool" where
  "write_closes os \<longleftrightarrow> wo_close os \<and> wo_close_again os \<and> wo_close_root os"

lemma abandon_closes:
  assumes "write_closes os" "abandon os b temporary s = (r, s1)" "b \<longrightarrow> 1 < fs_open s" "0 < fs_open s"
  shows "fs_open s1 = fs_open s - (if b then 2 else 1)"
  using assms by (auto simp: write_closes_def abandon_def ensuring_def close_rest_def fs_bind_def close_fd_def split: if_splits)

lemma replace_closes:
  assumes "write_closes os" "replace_file os temporary destination s = (r, s1)" "0 < fs_open s" shows "fs_open s1 = fs_open s - 1"
  using assms abandon_closes [of os False temporary]
  by (auto simp: replace_file_def write_closes_def ensuring_def close_rest_def fs_ret_def close_fd_def Let_def split: if_splits)

lemma balanced_write: "write_closes os \<Longrightarrow> balanced (write_file os temporary destination encoded)"
proof (rule balancedI)
  fix s r s1
  assume ok: "write_closes os" and w: "write_file os temporary destination encoded s = (r, s1)"
  have [simp]: "fs_open (held t) = Suc (fs_open t)" for t by (simp add: held_def)
  have once: "fs_open s1 = fs_open s" if "abandon os False temporary (held s) = (r, s1)"
    using abandon_closes [OF ok that] by simp
  have twice: "fs_open s1 = fs_open t" if "abandon os True temporary (held (held t)) = (r, s1)" for t
    using abandon_closes [OF ok that] by simp
  have rest: "fs_open s1 = fs_open t" if "replace_file os temporary destination (t\<lparr>fs_open := Suc (fs_open t)\<rparr>) = (r, s1)" for t
    using replace_closes [OF ok that] by simp
  have [simp]: "held (held t)\<lparr>fs_open := n\<rparr> = t\<lparr>fs_open := n\<rparr>" for t n by (simp add: held_def)
  have dir: "fs_open (s\<lparr>fs_dir := d\<rparr>) = fs_open s" for d by simp
  note cases = twice [of "s\<lparr>fs_dir := d\<rparr>" for d, unfolded dir] rest [of "s\<lparr>fs_dir := d\<rparr>" for d, unfolded dir]
  show "fs_open s1 = fs_open s"
    using w ok once cases unfolding write_file_def write_closes_def Let_def
    by (auto split: if_splits option.splits prod.splits simp del: One_nat_def)
qed

lemma balanced_read: "ro_close os \<Longrightarrow> ro_close_root os \<Longrightarrow> balanced (ev_read os r max_bytes)"
proof -
  assume ok: "ro_close os" "ro_close_root os"
  have "fs_open (snd (read_opened os r (held s))) = fs_open s" for s
    using ok by (simp add: read_opened_def fs_simps close_fd_def held_def)
  then have "balanced (\<lambda>s. if ro_root os then read_opened os r (held s) else (Raise PyOSError, s))" by (simp add: balanced_def)
  then show ?thesis by (auto simp: ev_read_def Let_def intro!: balanced_as_evidence split: pyval.splits)
qed

text \<open>No operation leaves a descriptor open, whatever else fails, as long as descriptors can be closed.\<close>
theorem evidence_leaks_nothing:
  assumes "get_closes reading" "write_closes writing" "ro_close how" "ro_close_root how" "io_close starting"
  shows "balanced (ev_get reading report_id) \<and> balanced (write_json dumps writing reading report_id value) \<and> balanced (ev_read how r max_bytes) \<and>
    balanced (evidence_init starting)"
proof (intro conjI)
  show "balanced (write_json dumps writing reading report_id value)"
    using assms(1,2) by (auto simp: write_json_def intro!: balanced_bind balanced_write balanced_get split: sum.splits)
  have "balanced (\<lambda>s. close_fd True (held s))" by (simp add: balanced_def close_fd_def held_def)
  then show "balanced (evidence_init starting)" using assms(5) unfolding evidence_init_def by (intro balanced_as_evidence) auto
qed (use assms balanced_get balanced_read in blast)+

section \<open>Failing closes and ambiguous reports\<close>

text \<open>When the temporary file cannot be closed its removal is not tried, since the handler is for the errors of the system only.\<close>

theorem unclosed_temporary_stays:
  assumes "wo_root os" "wo_create os = Some p" "dget (fs_dir s) temporary = None" "fst (write_chunks (wo_writes os) 0 encoded [])" "wo_sync os"
    "\<not> wo_close os" "write_file os temporary destination encoded s = (r, s1)"
  shows "(\<exists>e. r = Raise e) \<and> dget (fs_dir s1) temporary \<noteq> None"
proof -
  obtain content where w: "write_chunks (wo_writes os) 0 encoded [] = (True, content)" using assms(4) by (cases "write_chunks (wo_writes os) 0 encoded []") simp
  define t where "t = held (held (s\<lparr>fs_dir := dset temporary \<lparr>nd_regular = True, nd_device = fst p, nd_inode = snd p, nd_mtime = wo_mtime os, nd_content = content\<rparr> (fs_dir s)\<rparr>))"
  have e: "ensuring (fs_raise EvidenceError) (close_rest os True) t = (r, s1)"
    using assms w by (cases p) (simp add: write_file_def Let_def t_def)
  have "looks (ensuring (fs_raise EvidenceError) (close_rest os True))" by (intro looks_ensuring close_rest_looks) auto
  from looks_dir [OF this e] have "dget (fs_dir s1) temporary \<noteq> None" by (simp add: t_def)
  then show ?thesis using e by (auto simp: ensuring_def fs_raise_def split: prod.splits sum.splits)
qed

text \<open>A picture of the same name makes a report impossible to get.\<close>

theorem ambiguous_report_fails:
  assumes "dget (fs_dir s) (i @ ''.json'') = Some report" "dget (fs_dir s) (i @ ''.png'') = Some picture" "nd_regular report" "nd_regular picture"
    "\<And>n. so_root (go_stats os n) \<and> so_stat (go_stats os n) \<and> so_close (go_stats os n)"
  shows "fst (ev_get os (VStr i) s) = Raise EvidenceError"
proof (cases "report_id_ok i")
  case True
  have each: "stat_name (go_stats os n) n s = (Ret (info_of node), s)" if "dget (fs_dir s) n = Some node" "nd_regular node" for n node
    using that assms(5) by (cases s) (simp add: stat_name_def with_root_def fs_simps close_fd_def stat_call_def held_def info_of_def)
  show ?thesis using True each [OF assms(1,3)] each [OF assms(2,4)]
    by (simp add: ev_get_def validate_id_def MEDIA_TYPES_def fs_bind_def fs_ret_def fs_raise_def)
qed (simp add: ev_get_def validate_id_def fs_raise_def)

section \<open>A directory\<close>

definition demo_dumps :: "pyval \<Rightarrow> string result" where "demo_dumps v = Ret ''{}''"

definition demo_stats :: stat_os where "demo_stats = \<lparr>so_root = True, so_stat = True, so_close = True\<rparr>"

definition demo_getting :: get_os where
  "demo_getting = \<lparr>go_stats = (\<lambda>_. demo_stats), go_root = True, go_list = True, go_stat = (\<lambda>_. True), go_close = True\<rparr>"

definition demo_node :: "int \<Rightarrow> string \<Rightarrow> ev_node" where
  "demo_node t content = \<lparr>nd_regular = True, nd_device = 1, nd_inode = t, nd_mtime = t, nd_content = content\<rparr>"

definition demo_fs :: ev_fs where
  "demo_fs = \<lparr>fs_dir = [(''a.json'', demo_node 1 ''[1]''), (''b.png'', demo_node 2 ''p''), (''c.txt'', demo_node 3 ''t'')], fs_open = 0\<rparr>"

text \<open>Two writes, of two bytes and of one, complete it.\<close>

definition demo_writing :: write_os where
  "demo_writing = \<lparr>wo_token = ''0'', wo_root = True, wo_create = Some (1, 7), wo_writes = (\<lambda>i. Some (if i = 0 then 2 else 1)), wo_mtime = 4, wo_sync = True,
     wo_close = True, wo_replace = True, wo_sync_root = True, wo_unlink = True, wo_close_again = True, wo_close_root = True\<rparr>"

definition demo_reading :: "ev_node \<Rightarrow> read_os" where
  "demo_reading node = \<lparr>ro_root = True, ro_open = True, ro_before = Some node, ro_reads = (\<lambda>i. Some (node, i)), ro_after = Some node,
     ro_close = True, ro_close_root = True\<rparr>"

lemmas demo_defs = demo_dumps_def demo_stats_def demo_getting_def demo_node_def demo_fs_def demo_writing_def demo_reading_def

definition demo_reference :: ev_reference where
  "demo_reference = \<lparr>er_report_id = ''a'', er_relative_path = ''a.json'', er_media_type = ''application/json'', er_size = 3, er_device = 1, er_inode = 7,
     er_mtime = 4\<rparr>"

definition demo_after :: ev_fs where
  "demo_after = demo_fs\<lparr>fs_dir := [(''a.json'', \<lparr>nd_regular = True, nd_device = 1, nd_inode = 7, nd_mtime = 4, nd_content = ''{}'' @ [CHR 0x0A]\<rparr>),
     (''b.png'', demo_node 2 ''p''), (''c.txt'', demo_node 3 ''t'')]\<rparr>"

lemma demo_newest: "ev_get demo_getting VNone demo_fs = (Ret (reference_of ''b'' ''b.png'' (info_of (demo_node 2 ''p''))), demo_fs)"
  by (simp add: ev_get_def safe_candidates_def with_root_def fs_simps close_fd_def held_def candidates_def demo_defs name_suffix_def name_stem_def Let_def
      MEDIA_TYPES_def report_id_ok_def is_lower_def is_digit_def in_range_def older_def info_of_def)

lemma demo_written: "write_json demo_dumps demo_writing demo_getting (VStr ''a'') (VDict []) demo_fs = (Ret demo_reference, demo_after)"
proof -
  have id: "validate_id (VStr ''a'') = Ret ''a''" by (simp add: validate_id_def report_id_ok_def is_lower_def in_range_def)
  have chunks: "write_chunks (wo_writes demo_writing) 0 (''{}'' @ [CHR 0x0A]) [] = (True, ''{}'' @ [CHR 0x0A])"
    by (simp add: write_chunks.simps demo_defs)
  have "write_file demo_writing (temporary_name demo_writing ''a'') ''a.json'' (''{}'' @ [CHR 0x0A]) demo_fs = (Ret (), demo_after)"
    using chunks by (simp add: write_file_def replace_file_def temporary_name_def held_def dir_rename_def dir_remove_def ensuring_def fs_ret_def
        close_rest_def close_fd_def demo_defs demo_after_def Let_def)
  moreover have "ev_get demo_getting (VStr ''a'') demo_after = (Ret demo_reference, demo_after)"
    using id by (simp add: ev_get_def MEDIA_TYPES_def stat_name_def with_root_def fs_simps close_fd_def held_def stat_call_def info_of_def demo_defs
        demo_after_def demo_reference_def reference_of_def name_suffix_def Let_def)
  ultimately show ?thesis using id by (simp add: write_json_def encode_evidence_def fs_bind_def demo_dumps_def)
qed

theorem reference_is_confined_witness:
  "report_id_ok ''b'' \<and> (\<exists>node. dget (fs_dir demo_fs) ''b.png'' = Some node \<and> nd_regular node) \<and>
    (\<forall>name info. (name, info) \<in> set (candidates (\<lambda>_. True) (fs_dir demo_fs)) \<longrightarrow> fi_mtime info \<le> 2)"
  using reference_is_confined [OF demo_newest] by (simp add: reference_of_def info_of_def demo_node_def demo_fs_def demo_getting_def dkeys_def)

theorem report_written_whole_or_not_witness:
  "dget (fs_dir demo_after) ''b.png'' = dget (fs_dir demo_fs) ''b.png'' \<and> file_with (''{}'' @ [CHR 0x0A]) (dget (fs_dir demo_after) ''a.json'')"
  using report_written_whole_or_not [OF demo_written] by (auto simp: encode_evidence_def demo_dumps_def temporary_name_def)

theorem written_report_reads_back_witness:
  "\<exists>node. ev_read (demo_reading node) demo_reference (VInt 10) demo_after = (Ret (''{}'' @ [CHR 0x0A]), demo_after)"
proof -
  obtain node where node: "dget (fs_dir demo_after) ''a.json'' = Some node" by (simp add: demo_after_def)
  have "quiet_read node (demo_reading node)" by (simp add: quiet_read_def demo_reading_def)
  moreover have "distinct (dkeys (fs_dir demo_after))" by (simp add: demo_after_def dkeys_def)
  ultimately show ?thesis
    using written_report_reads_back [OF demo_written, of node "demo_reading node" 10] node by (auto simp: demo_reference_def demo_dumps_def)
qed


theorem evidence_leaks_nothing_witness:
  "fs_open (snd (write_json demo_dumps demo_writing demo_getting (VStr ''a'') (VDict []) demo_fs)) = 0"
proof -
  have "balanced (write_json demo_dumps demo_writing demo_getting (VStr ''a'') (VDict []))"
    using evidence_leaks_nothing [of demo_getting demo_writing "demo_reading (demo_node 1 [])" "\<lparr>io_mkdir = True, io_chmod = True, io_root = True, io_close = True\<rparr>"]
    by (simp add: get_closes_def write_closes_def demo_defs)
  then show ?thesis by (simp add: balanced_def demo_fs_def)
qed

end
