(* ===== verification/McpServer.thy ===== *)
theory McpServer
  imports Evidence RuntimeController Machines
begin

text \<open>
  The agent's side of the runtime: \<^verbatim>\<open>mcp_server/ros2_mcp_server.py\<close>, and \<^verbatim>\<open>get_evidence\<close> of
  \<^verbatim>\<open>agent_ros/runtime/controller.py\<close>. The tools with their response schemas, the answers to calls whose operations return or
  raise, and the one controller that the process owns. The schema validator is a parameter that raises what it
  likes on a document that does not follow the schema; what JSON Schema 2020-12 says of the keywords in use is \<open>schema_rule\<close>. The server
  framework checks the arguments of a call; picture decoding is an argument.
\<close>

section \<open>Response schemas\<close>

text \<open>An object allows no properties but its own; a schema of two groups of keywords asks for both.\<close>

datatype json_schema =
    JText nat
  | JEnum "string list"
  | JConst bool
  | JBoolean
  | JNull
  | JNumber "rat option"
  | JInteger "int option"
  | JArray json_schema
  | JObject "(string \<times> json_schema) list" "string list"
  | JOneOf "json_schema list"
  | JBoth json_schema json_schema

definition not_below :: "pyval \<Rightarrow> rat option \<Rightarrow> bool" where
  "not_below v least = (case least of None \<Rightarrow> True | Some r \<Rightarrow>
     (case v of VInt n \<Rightarrow> r \<le> of_int n | VFloat x \<Rightarrow> \<not> flt x (Fin r) | _ \<Rightarrow> False))"

definition integral :: "pyval \<Rightarrow> bool" where
  "integral v = (case v of VInt n \<Rightarrow> True | VFloat (Fin r) \<Rightarrow> of_int \<lfloor>r\<rfloor> = r | _ \<Rightarrow> False)"

definition property_ok :: "(json_schema \<Rightarrow> pyval \<Rightarrow> bool) \<Rightarrow> (string \<times> json_schema) list \<Rightarrow> pyval \<times> pyval \<Rightarrow> bool" where
  "property_ok follows ps kv = (case fst kv of VStr k \<Rightarrow> (case dget ps k of None \<Rightarrow> False | Some s \<Rightarrow> follows s (snd kv)) | _ \<Rightarrow> False)"

text \<open>What a document must be to follow a schema, given which parts follow which schemas.\<close>

definition schema_rule :: "(json_schema \<Rightarrow> pyval \<Rightarrow> bool) \<Rightarrow> json_schema \<Rightarrow> pyval \<Rightarrow> bool" where
  "schema_rule follows s v =
     (case s of
        JText n \<Rightarrow> (case v of VStr t \<Rightarrow> n \<le> length t | _ \<Rightarrow> False)
      | JEnum ts \<Rightarrow> (case v of VStr t \<Rightarrow> t \<in> set ts | _ \<Rightarrow> False)
      | JConst b \<Rightarrow> v = VBool b
      | JBoolean \<Rightarrow> is_bool v
      | JNull \<Rightarrow> v = VNone
      | JNumber least \<Rightarrow> is_number v \<and> not_below v least
      | JInteger least \<Rightarrow> integral v \<and> not_below v (map_option of_int least)
      | JArray item \<Rightarrow> (case v of VList vs \<Rightarrow> list_all (follows item) vs | _ \<Rightarrow> False)
      | JObject ps required \<Rightarrow> (case v of
          VDict d \<Rightarrow> list_all (\<lambda>k. dget d (VStr k) \<noteq> None) required \<and> list_all (property_ok follows ps) d
        | _ \<Rightarrow> False)
      | JOneOf ss \<Rightarrow> length (filter (\<lambda>s. follows s v) ss) = 1
      | JBoth s1 s2 \<Rightarrow> follows s1 v \<and> follows s2 v)"

definition follows_json_schema :: "(json_schema \<Rightarrow> pyval \<Rightarrow> bool) \<Rightarrow> bool" where
  "follows_json_schema follows \<longleftrightarrow> (\<forall>s v. follows s v = schema_rule follows s v)"

lemma property_size: "dget ps k = Some s \<Longrightarrow> size s < Suc (size_list (size_prod (\<lambda>_. 0) size) ps)"
  by (induction ps k rule: dget.induct) (auto split: if_splits)

lemma property_ok_cong:
  "(\<And>s w. size s < Suc (size_list (size_prod (\<lambda>_. 0) size) ps) \<Longrightarrow> f s w = g s w) \<Longrightarrow> property_ok f ps kv = property_ok g ps kv"
  using property_size [of ps] by (auto simp: property_ok_def split: pyval.splits option.splits)

text \<open>The rules determine the relation: they lead from a schema to smaller ones.\<close>

lemma schema_rule_cong [fundef_cong]:
  assumes "s = s'" "v = v'" "\<And>t w. size t < size s' \<Longrightarrow> f t w = g t w"
  shows "schema_rule f s v = schema_rule g s' v'"
proof (cases s')
  case (JObject ps required)
  have "property_ok f ps = property_ok g ps"
    by (rule ext, rule property_ok_cong, rule assms(3)) (simp add: JObject)
  then show ?thesis using assms(1,2) by (simp add: schema_rule_def JObject split: pyval.splits)
next
  case (JArray item)
  have "f item = g item" by (rule ext, rule assms(3)) (simp add: JArray)
  then show ?thesis using assms(1,2) by (simp add: schema_rule_def JArray split: pyval.splits)
next
  case (JOneOf ss)
  have "filter (\<lambda>s. f s v') ss = filter (\<lambda>s. g s v') ss"
    by (rule filter_cong) (auto simp: JOneOf intro!: assms(3) le_imp_less_Suc size_list_estimation' [OF _ order_refl])
  then show ?thesis using assms(1,2) by (simp add: schema_rule_def JOneOf)
qed (use assms in \<open>auto simp: schema_rule_def split: pyval.splits\<close>)

function conforms :: "json_schema \<Rightarrow> pyval \<Rightarrow> bool" where
  "conforms s v = schema_rule conforms s v"
  by pat_completeness auto
termination
  by (relation "measure (\<lambda>(s, v). size s)") auto

declare conforms.simps [simp del]

lemma conforms_follows: "follows_json_schema conforms"
  unfolding follows_json_schema_def by (intro allI conforms.simps)

lemma follows_unique: "follows_json_schema follows \<Longrightarrow> follows s v = conforms s v"
proof (induction s arbitrary: v rule: measure_induct_rule [of size])
  case (less s)
  have "schema_rule follows s v = schema_rule conforms s v" by (rule schema_rule_cong) (auto simp: less.IH less.prems)
  with less.prems show ?case unfolding follows_json_schema_def by (metis conforms.simps)
qed

lemma conforms_cases [simp]:
  "conforms (JText n) v = (case v of VStr t \<Rightarrow> n \<le> length t | _ \<Rightarrow> False)"
  "conforms (JEnum ts) v = (case v of VStr t \<Rightarrow> t \<in> set ts | _ \<Rightarrow> False)"
  "conforms (JConst b) v = (v = VBool b)" "conforms JBoolean v = is_bool v" "conforms JNull v = (v = VNone)"
  "conforms (JNumber least) v = (is_number v \<and> not_below v least)"
  "conforms (JInteger m) v = (integral v \<and> not_below v (map_option of_int m))"
  "conforms (JArray item) v = (case v of VList vs \<Rightarrow> list_all (conforms item) vs | _ \<Rightarrow> False)"
  "conforms (JObject ps required) v = (case v of
     VDict d \<Rightarrow> list_all (\<lambda>k. dget d (VStr k) \<noteq> None) required \<and> list_all (property_ok conforms ps) d | _ \<Rightarrow> False)"
  "conforms (JOneOf ss) v = (length (filter (\<lambda>s. conforms s v) ss) = 1)"
  "conforms (JBoth s1 s2) v = (conforms s1 v \<and> conforms s2 v)"
  by (subst conforms.simps; simp add: schema_rule_def)+

section \<open>The schemas of the tools\<close>

definition REMEDIATION :: "(string \<times> string) list" where
  "REMEDIATION =
     [(''UNSAFE_STATE'', ''Inspect connection_status, validate the reviewed profile, and retry safely.''),
      (''PROFILE_INVALID'', ''Use a repository-owned profile or task name and resolve validation warnings.''),
      (''CONTROLLER_CONFLICT'', ''Remove conflicting command publishers before retrying discovery.''),
      (''STALE_FEEDBACK'', ''Restore fresh robot feedback before issuing another operation.''),
      (''TIMEOUT'', ''Inspect task_status and evidence, then cancel or stop the runtime if needed.''),
      (''EVIDENCE_INVALID'', ''Regenerate evidence in the managed evidence store.''),
      (''AUDIT_INTEGRITY_COMPROMISED'', ''Stop operation and have an operator inspect the audit store.''),
      (''ESTOP_LATCHED'', ''Keep the robot stopped and follow the operator-only reset procedure.''),
      (''OPERATOR_REQUIRED'', ''Have an operator create a fresh out-of-band hardware challenge.''),
      (''CLEANUP_FAILED'', ''Keep the robot stopped and inspect managed runtime cleanup.'')]"

definition MCP_STATE :: json_schema where
  "MCP_STATE = JEnum [''NEW'', ''DISCOVERED'', ''VALIDATED'', ''ARMED'', ''RUNNING'', ''STOPPED'', ''ESTOPPED'', ''FAULTED'']"

definition MCP_TEXT :: json_schema where "MCP_TEXT = JText 1"

definition CHANNEL_SCHEMA :: json_schema where "CHANNEL_SCHEMA = JEnum [''simulation_only'', ''unverified'', ''verified'']"

definition error_body_schema :: json_schema where
  "error_body_schema = JObject [(''code'', JEnum (map fst REMEDIATION)), (''remediation'', JText 1)] [''code'', ''remediation'']"

definition ERROR_SCHEMA :: json_schema where
  "ERROR_SCHEMA = JObject [(''ok'', JConst False), (''error'', error_body_schema)] [''ok'', ''error'']"

definition response_schema :: "json_schema \<Rightarrow> json_schema" where
  "response_schema data =
     JBoth (JObject [(''ok'', JBoolean), (''data'', data), (''error'', error_body_schema)] [])
       (JOneOf [JObject [(''ok'', JConst True), (''data'', data)] [''ok'', ''data''], ERROR_SCHEMA])"

text \<open>The tools and their arguments, as the framework delivers them.\<close>

datatype request =
    DiscoverRobot "string option"
  | ValidateProfile string
  | ConnectionStatus
  | ListCapabilities
  | ArmRobot string string bool
  | RunTask string bool
  | TaskStatus
  | CancelTask
  | EmergencyStop
  | Observe string
  | GetEvidence "string option"
  | StopRuntime

fun data_schema :: "request \<Rightarrow> json_schema" where
  "data_schema (DiscoverRobot _) = JObject [(''profile'', MCP_TEXT), (''state'', MCP_STATE), (''capabilities'', JArray MCP_TEXT),
     (''hardware_safety_channel'', CHANNEL_SCHEMA)] [''profile'', ''state'', ''capabilities'', ''hardware_safety_channel'']"
| "data_schema (ValidateProfile _) = JObject [(''profile'', MCP_TEXT), (''state'', MCP_STATE), (''hardware_safety_channel'', CHANNEL_SCHEMA)]
     [''profile'', ''state'', ''hardware_safety_channel'']"
| "data_schema ConnectionStatus = JObject [(''state'', MCP_STATE)] [''state'']"
| "data_schema ListCapabilities = JObject [(''capabilities'', JArray MCP_TEXT)] [''capabilities'']"
| "data_schema (ArmRobot _ _ _) = JObject [(''profile'', MCP_TEXT), (''state'', MCP_STATE), (''dry_run'', JBoolean)] [''profile'', ''state'']"
| "data_schema (RunTask _ _) = JObject [(''task'', MCP_TEXT), (''state'', MCP_STATE), (''profile'', MCP_TEXT), (''dry_run'', JBoolean)] [''task'']"
| "data_schema TaskStatus = JObject [(''state'', MCP_STATE), (''task'', JOneOf [MCP_TEXT, JNull]), (''hardware_safety_channel'', CHANNEL_SCHEMA),
     (''adapter_state'', MCP_TEXT), (''code'', JOneOf [MCP_TEXT, JNull]), (''elapsed'', JNumber (Some 0)), (''stage_index'', JInteger (Some 0))]
     [''state'', ''task'', ''hardware_safety_channel'']"
| "data_schema CancelTask = JObject [(''state'', MCP_STATE), (''adapter_state'', MCP_TEXT)] [''state'', ''adapter_state'']"
| "data_schema EmergencyStop = JObject [(''state'', MCP_STATE)] [''state'']"
| "data_schema (Observe _) = JObject [(''source'', JEnum [''odometry'', ''camera'', ''scan'']), (''timestamp'', JNumber None),
     (''values'', JObject [(''x'', JNumber None), (''y'', JNumber None), (''yaw'', JNumber None)] [])] [''source'', ''timestamp'', ''values'']"
| "data_schema (GetEvidence _) = JObject [(''report_id'', MCP_TEXT), (''relative_path'', MCP_TEXT),
     (''media_type'', JEnum [''application/json'', ''image/png'']), (''size'', JInteger (Some 0))] [''report_id'', ''relative_path'', ''media_type'', ''size'']"
| "data_schema StopRuntime = JObject [(''state'', MCP_STATE)] [''state'']"

definition RESPONSE_SCHEMA :: "request \<Rightarrow> json_schema" where
  "RESPONSE_SCHEMA q = response_schema (data_schema q)"

section \<open>Answers\<close>

record tool_result =
  tr_structured :: pydict
  tr_image :: "string option"
  tr_is_error :: bool

type_synonym validator = "json_schema \<Rightarrow> pyval \<Rightarrow> unit result"

fun json_ok :: "pyval \<Rightarrow> bool" where
  "json_ok (VFloat x) = is_fin x"
| "json_ok (VList vs) = list_all json_ok vs"
| "json_ok (VDict d) = list_all (\<lambda>kv. is_str (fst kv) \<and> json_ok (snd kv)) d"
| "json_ok _ = True"

definition validate_json_value :: "pyval \<Rightarrow> pyval result" where
  "validate_json_value v = (if json_ok v then Ret v else Raise PyValueError)"

definition mcp_success :: "validator \<Rightarrow> pyval \<Rightarrow> json_schema \<Rightarrow> string option \<Rightarrow> tool_result result" where
  "mcp_success validate data schema shown =
     rbind (validate_json_value data) (\<lambda>v.
     rbind (guard (\<exists>d. v = VDict d) PyValueError) (\<lambda>_.
     let structured = [(VStr ''ok'', VBool True), (VStr ''data'', v)] in
     rbind (validate schema (VDict structured)) (\<lambda>_.
       Ret \<lparr>tr_structured = structured, tr_image = shown, tr_is_error = False\<rparr>)))"

definition mcp_error :: "string \<Rightarrow> tool_result" where
  "mcp_error code =
     (let stable = (if dget REMEDIATION code = None then ''UNSAFE_STATE'' else code) in
      \<lparr>tr_structured = [(VStr ''ok'', VBool False),
         (VStr ''error'', VDict [(VStr ''code'', VStr stable), (VStr ''remediation'', VStr (the (dget REMEDIATION stable)))])],
       tr_image = None, tr_is_error = True\<rparr>)"

definition mcp_invoke :: "validator \<Rightarrow> pyval result \<Rightarrow> json_schema \<Rightarrow> tool_result" where
  "mcp_invoke validate outcome schema =
     (case rbind outcome (\<lambda>data. mcp_success validate data schema None) of
        Inr r \<Rightarrow> r
      | Inl (RuntimeControllerError code) \<Rightarrow> mcp_error code
      | Inl _ \<Rightarrow> mcp_error ''UNSAFE_STATE'')"

section \<open>Evidence\<close>

definition get_evidence :: "world \<Rightarrow> ev_reference result \<Rightarrow> ev_reference act" where
  "get_evidence w found =
     after (ensure_available w) (\<lambda>_.
     case found of Inr r \<Rightarrow> done_with r | Inl EvidenceError \<Rightarrow> refuse_with ''EVIDENCE_INVALID'' | Inl e \<Rightarrow> fail_with e)"

definition PNG_SIGNATURE :: string where
  "PNG_SIGNATURE = [CHR 0x89, CHR ''P'', CHR ''N'', CHR ''G'', CHR 0x0D, CHR 0x0A, CHR 0x1A, CHR 0x0A]"

definition MAX_EVIDENCE_BYTES :: int where "MAX_EVIDENCE_BYTES = 16 * 1024 * 1024"
definition MAX_IMAGE_PIXELS :: int where "MAX_IMAGE_PIXELS = 16000000"

text \<open>A picture as the decoder opens it: its format, width and height, and whether its pixels load.\<close>

type_synonym opened_picture = "(string \<times> int \<times> int \<times> unit result) result"

definition decoded_picture :: "opened_picture \<Rightarrow> unit result" where
  "decoded_picture opened =
     rbind opened (\<lambda>(format, width, height, loaded).
     rbind (guard (format = ''PNG'' \<and> 1 \<le> width \<and> 1 \<le> height \<and> width * height \<le> MAX_IMAGE_PIXELS) EvidenceError) (\<lambda>_. loaded))"

definition evidence_metadata :: "ev_reference \<Rightarrow> pyval" where
  "evidence_metadata r = VDict [(VStr ''report_id'', VStr (er_report_id r)), (VStr ''relative_path'', VStr (er_relative_path r)),
     (VStr ''media_type'', VStr (er_media_type r)), (VStr ''size'', VInt (er_size r))]"

definition evidence_body :: "validator \<Rightarrow> ev_reference fs_step \<Rightarrow> (ev_reference \<Rightarrow> pyval \<Rightarrow> string fs_step) \<Rightarrow> (string \<Rightarrow> opened_picture) \<Rightarrow>
    json_schema \<Rightarrow> tool_result fs_step" where
  "evidence_body validate found read picture schema =
     fs_bind found (\<lambda>r.
     if er_media_type r \<noteq> ''image/png'' then (\<lambda>s. (mcp_success validate (evidence_metadata r) schema None, s))
     else if er_size r < int (length PNG_SIGNATURE) \<or> MAX_EVIDENCE_BYTES < er_size r then fs_raise EvidenceError
     else fs_bind (read r (VInt MAX_EVIDENCE_BYTES)) (\<lambda>content s.
       (rbind (guard (int (length content) = er_size r \<and> starts_with PNG_SIGNATURE content) EvidenceError) (\<lambda>_.
        rbind (decoded_picture (picture content)) (\<lambda>_. mcp_success validate (evidence_metadata r) schema (Some content))), s)))"

definition evidence_result :: "validator \<Rightarrow> ev_reference fs_step \<Rightarrow> (ev_reference \<Rightarrow> pyval \<Rightarrow> string fs_step) \<Rightarrow> (string \<Rightarrow> opened_picture) \<Rightarrow>
    json_schema \<Rightarrow> ev_fs \<Rightarrow> tool_result \<times> ev_fs" where
  "evidence_result validate found read picture schema s =
     (case evidence_body validate found read picture schema s of
        (Inr r, s1) \<Rightarrow> (r, s1)
      | (Inl (RuntimeControllerError code), s1) \<Rightarrow> (mcp_error code, s1)
      | (Inl _, s1) \<Rightarrow> (mcp_error ''EVIDENCE_INVALID'', s1))"

section \<open>Calls\<close>

text \<open>What the operations of the controller return or raise.\<close>

record operations =
  op_discover :: "string option \<Rightarrow> pyval result"
  op_validate :: "string \<Rightarrow> pyval result"
  op_state :: safety_state
  op_arm :: "string \<Rightarrow> string \<Rightarrow> bool \<Rightarrow> pyval result"
  op_run :: "string \<Rightarrow> bool \<Rightarrow> pyval result"
  op_status :: "pyval result"
  op_cancel :: "pyval result"
  op_estop :: "pyval result"
  op_observe :: "string \<Rightarrow> observed result"
  op_evidence :: "string option \<Rightarrow> ev_reference fs_step"
  op_read :: "ev_reference \<Rightarrow> pyval \<Rightarrow> string fs_step"
  op_picture :: "string \<Rightarrow> opened_picture"
  op_stop :: "pyval result"

record mcp_state =
  mc_capabilities :: "string list"
  mc_files :: ev_fs

text \<open>What discovery established is kept before the response is checked.\<close>

definition discovered_capabilities :: "pyval \<Rightarrow> string list result" where
  "discovered_capabilities v =
     (case v of
        VDict d \<Rightarrow> (case dget d (VStr ''capabilities'') of
            None \<Rightarrow> Ret []
          | Some (VList vs) \<Rightarrow> if list_all is_str vs then Ret (map str_val vs) else Raise (RuntimeControllerError ''UNSAFE_STATE'')
          | Some _ \<Rightarrow> Raise (RuntimeControllerError ''UNSAFE_STATE''))
      | _ \<Rightarrow> Raise PyAttributeError)"

definition observation_data :: "observed \<Rightarrow> pyval result" where
  "observation_data answer =
     (case answer of
        NotObservation \<Rightarrow> Raise (RuntimeControllerError ''UNSAFE_STATE'')
      | Observed ob \<Rightarrow> Ret (VDict [(VStr ''source'', VStr (ob_source ob)), (VStr ''timestamp'', ob_timestamp ob), (VStr ''values'', VDict (ob_values ob))]))"

text \<open>One call. \<open>controller\<close> is the outcome of getting the controller, which some tools do before the part that turns
  exceptions into answers.\<close>

fun serve :: "validator \<Rightarrow> unit result \<Rightarrow> operations \<Rightarrow> request \<Rightarrow> mcp_state \<Rightarrow> tool_result result \<times> mcp_state" where
  "serve validate controller ops (DiscoverRobot hint) m =
     (let found = rbind controller (\<lambda>_. rbind (op_discover ops hint) (\<lambda>v. rbind (discovered_capabilities v) (\<lambda>cs. Ret (v, cs)))) in
      (Ret (mcp_invoke validate (rbind found (\<lambda>(v, _). Ret v)) (RESPONSE_SCHEMA (DiscoverRobot hint))),
       case found of Inl _ \<Rightarrow> m | Inr (_, cs) \<Rightarrow> m\<lparr>mc_capabilities := cs\<rparr>))"
| "serve validate controller ops (ValidateProfile name) m =
     (Ret (mcp_invoke validate (rbind controller (\<lambda>_. op_validate ops name)) (RESPONSE_SCHEMA (ValidateProfile name))), m)"
| "serve validate controller ops ConnectionStatus m =
     (Ret (mcp_invoke validate (rbind controller (\<lambda>_. Ret (VDict [(VStr ''state'', VStr (state_value (op_state ops)))]))) (RESPONSE_SCHEMA ConnectionStatus)), m)"
| "serve validate controller ops ListCapabilities m =
     (mcp_success validate (VDict [(VStr ''capabilities'', VList (map VStr (mc_capabilities m)))]) (RESPONSE_SCHEMA ListCapabilities) None, m)"
| "serve validate controller ops (ArmRobot name challenge dry_run) m =
     (Ret (mcp_invoke validate (rbind controller (\<lambda>_. op_arm ops name challenge dry_run)) (RESPONSE_SCHEMA (ArmRobot name challenge dry_run))), m)"
| "serve validate controller ops (RunTask name dry_run) m =
     (Ret (mcp_invoke validate (rbind controller (\<lambda>_. op_run ops name dry_run)) (RESPONSE_SCHEMA (RunTask name dry_run))), m)"
| "serve validate controller ops TaskStatus m = (rbind controller (\<lambda>_. Ret (mcp_invoke validate (op_status ops) (RESPONSE_SCHEMA TaskStatus))), m)"
| "serve validate controller ops CancelTask m = (rbind controller (\<lambda>_. Ret (mcp_invoke validate (op_cancel ops) (RESPONSE_SCHEMA CancelTask))), m)"
| "serve validate controller ops EmergencyStop m = (rbind controller (\<lambda>_. Ret (mcp_invoke validate (op_estop ops) (RESPONSE_SCHEMA EmergencyStop))), m)"
| "serve validate controller ops (Observe source) m =
     (Ret (mcp_invoke validate (rbind controller (\<lambda>_. rbind (op_observe ops source) observation_data)) (RESPONSE_SCHEMA (Observe source))), m)"
| "serve validate controller ops (GetEvidence report_id) m =
     (case controller of Inl e \<Rightarrow> (Raise e, m)
      | Inr _ \<Rightarrow> (case evidence_result validate (op_evidence ops report_id) (op_read ops) (op_picture ops) (RESPONSE_SCHEMA (GetEvidence report_id)) (mc_files m) of
          (r, s) \<Rightarrow> (Ret r, m\<lparr>mc_files := s\<rparr>)))"
| "serve validate controller ops StopRuntime m = (rbind controller (\<lambda>_. Ret (mcp_invoke validate (op_stop ops) (RESPONSE_SCHEMA StopRuntime))), m)"

section \<open>Answers follow their schemas\<close>

lemma property_ok_simp [simp]:
  "property_ok f ps (VStr k, v) = (case dget ps k of None \<Rightarrow> False | Some s \<Rightarrow> f s v)"
  by (simp add: property_ok_def split: option.split)

lemma remediation_nonempty: "dget REMEDIATION code = Some t \<Longrightarrow> t \<noteq> []"
  by (auto simp: REMEDIATION_def split: if_splits)

lemma stable_code:
  obtains stable t where "dget REMEDIATION stable = Some t" "stable = (if dget REMEDIATION code = None then ''UNSAFE_STATE'' else code)" "t \<noteq> []"
proof -
  define stable where "stable = (if dget REMEDIATION code = None then ''UNSAFE_STATE'' else code)"
  have "dget REMEDIATION stable \<noteq> None" by (simp add: stable_def) (simp add: REMEDIATION_def)
  then obtain t where "dget REMEDIATION stable = Some t" by auto
  then show thesis using that remediation_nonempty stable_def by blast
qed

lemma error_conforms: "conforms (response_schema data) (VDict (tr_structured (mcp_error code)))"
proof -
  obtain stable t where st: "dget REMEDIATION stable = Some t" "stable = (if dget REMEDIATION code = None then ''UNSAFE_STATE'' else code)" "t \<noteq> []"
    by (rule stable_code)
  have "conforms error_body_schema (VDict [(VStr ''code'', VStr stable), (VStr ''remediation'', VStr t)])"
    using st(1,3) by (cases t) (auto simp: error_body_schema_def dget_map_of dest!: map_of_SomeD intro: rev_image_eqI)
  moreover have "tr_structured (mcp_error code) = [(VStr ''ok'', VBool False), (VStr ''error'', VDict [(VStr ''code'', VStr stable), (VStr ''remediation'', VStr t)])]"
    using st(1) by (simp add: mcp_error_def Let_def flip: st(2))
  ultimately show ?thesis by (simp add: response_schema_def ERROR_SCHEMA_def)
qed

lemma error_is_error [simp]: "tr_is_error (mcp_error code)" "tr_image (mcp_error code) = None" "vget (tr_structured (mcp_error code)) ''ok'' = VBool False"
  by (simp_all add: mcp_error_def vget_def Let_def)

text \<open>An answer is right when it follows its schema, and says of itself whether it is an error.\<close>

definition answer_ok :: "json_schema \<Rightarrow> tool_result \<Rightarrow> bool" where
  "answer_ok schema r \<longleftrightarrow> conforms schema (VDict (tr_structured r)) \<and> json_ok (VDict (tr_structured r)) \<and>
     vget (tr_structured r) ''ok'' = VBool (\<not> tr_is_error r)"

lemma error_ok: "answer_ok (response_schema data) (mcp_error code)"
  using error_conforms by (auto simp: answer_ok_def mcp_error_def Let_def vget_def)

lemma success_ok:
  assumes "follows_json_schema (\<lambda>s v. is_ret (validate s v))" "mcp_success validate data schema shown = Ret r"
  shows "answer_ok schema r \<and> \<not> tr_is_error r \<and> vget (tr_structured r) ''data'' = data"
proof -
  from assms(2) have r: "tr_structured r = [(VStr ''ok'', VBool True), (VStr ''data'', data)]" "\<not> tr_is_error r" "json_ok data"
    "is_ret (validate schema (VDict (tr_structured r)))"
    by (auto simp: mcp_success_def validate_json_value_def Let_def is_ret_iff split: if_splits)
  then show ?thesis using follows_unique [OF assms(1)] by (simp add: answer_ok_def vget_def)
qed

lemma invoke_ok:
  assumes "follows_json_schema (\<lambda>s v. is_ret (validate s v))"
  shows "answer_ok (response_schema data) (mcp_invoke validate outcome (response_schema data))"
  unfolding mcp_invoke_def
  using success_ok [OF assms] error_ok by (auto split: sum.splits py_exn.splits)

lemma evidence_ok:
  assumes "follows_json_schema (\<lambda>s v. is_ret (validate s v))"
  shows "answer_ok (response_schema data) (fst (evidence_result validate found read picture (response_schema data) s))"
proof -
  obtain r s1 where b: "evidence_body validate found read picture (response_schema data) s = (r, s1)" by fastforce
  have "answer_ok (response_schema data) x" if "r = Ret x" for x
    using b that success_ok [OF assms]
    by (auto simp: evidence_body_def fs_bind_def fs_raise_def split: prod.splits sum.splits if_splits)
  then show ?thesis using b error_ok by (auto simp: evidence_result_def split: sum.splits py_exn.splits)
qed

text \<open>Tools that get the controller before the part that turns exceptions into answers.\<close>

fun gets_controller_first :: "request \<Rightarrow> bool" where
  "gets_controller_first TaskStatus = True" | "gets_controller_first CancelTask = True" | "gets_controller_first EmergencyStop = True"
| "gets_controller_first (GetEvidence _) = True" | "gets_controller_first StopRuntime = True" | "gets_controller_first _ = False"

lemma list_answer:
  assumes "follows_json_schema (\<lambda>s v. is_ret (validate s v))"
  shows "is_ret (mcp_success validate (VDict [(VStr ''capabilities'', VList (map VStr cs))]) (RESPONSE_SCHEMA ListCapabilities) None) \<longleftrightarrow> [] \<notin> set cs"
proof -
  have "is_ret (validate (RESPONSE_SCHEMA ListCapabilities) (VDict [(VStr ''ok'', VBool True), (VStr ''data'', VDict [(VStr ''capabilities'', VList (map VStr cs))])])) \<longleftrightarrow>
      list_all (\<lambda>c. 1 \<le> length c) cs"
    using follows_unique [OF assms] by (simp add: RESPONSE_SCHEMA_def response_schema_def ERROR_SCHEMA_def MCP_TEXT_def list.pred_map comp_def)
  also have "\<dots> \<longleftrightarrow> [] \<notin> set cs" by (auto simp: list_all_iff Suc_le_eq)
  finally show ?thesis by (simp add: mcp_success_def validate_json_value_def list_all_iff is_ret_iff Let_def)
qed

text \<open>C18: Every call is answered by a document that follows the response schema of its tool, whatever its operation returns or raises:
  with what the operation returned, or with one of the ten errors and its remedy. The exceptions are the tools that get the controller first when
  there is none to get, and the list of capabilities when the last discovery reported an empty one.\<close>
theorem every_answer_follows_its_schema:
  assumes "follows_json_schema (\<lambda>s v. is_ret (validate s v))"
  shows "case fst (serve validate controller ops q m) of
      Inr r \<Rightarrow> answer_ok (RESPONSE_SCHEMA q) r
    | Inl e \<Rightarrow> gets_controller_first q \<and> controller = Raise e \<or> q = ListCapabilities \<and> [] \<in> set (mc_capabilities m)"
proof (cases q)
  case ListCapabilities
  show ?thesis
  proof (cases "mcp_success validate (VDict [(VStr ''capabilities'', VList (map VStr (mc_capabilities m)))]) (RESPONSE_SCHEMA ListCapabilities) None")
    case (Inl e)
    then show ?thesis using list_answer [OF assms, of "mc_capabilities m"] ListCapabilities by simp
  next
    case (Inr r)
    then show ?thesis using success_ok [OF assms] ListCapabilities by simp
  qed
next
  case (GetEvidence i)
  then show ?thesis using evidence_ok [OF assms] by (auto simp: RESPONSE_SCHEMA_def split: sum.splits prod.splits) (metis fst_conv)
qed (use invoke_ok [OF assms] in \<open>auto simp: RESPONSE_SCHEMA_def Let_def rbind_Inl_iff split: sum.splits prod.splits\<close>)

text \<open>So an emergency stop whose controller cannot be had raises, where a look at the connection is answered with the reason.\<close>

theorem unavailable_controller_escapes:
  "fst (serve validate (Raise e) ops EmergencyStop m) = Raise e"
  "fst (serve validate (Raise (RuntimeControllerError ''CLEANUP_FAILED'')) ops ConnectionStatus m) = Ret (mcp_error ''CLEANUP_FAILED'')"
  by (simp_all add: mcp_invoke_def)

end
