(* ===== verification/McpRuntime.thy ===== *)
theory McpRuntime
  imports McpServer ControllerClaims HospitalLifecycle
begin

text \<open>
  The server with its runtime (\<^verbatim>\<open>mcp_server/ros2_mcp_server.py\<close>): the one controller of the process, with the threads that ask for it
  and close it as steps, and the documents of the controller's handlers against the schemas of their tools.
\<close>

section \<open>The controller of the process\<close>

text \<open>\<open>sn_live\<close> is a history variable: the controllers made and not yet stopped. \<open>sn_closer\<close> is what the closing thread
  holds between its two critical sections.\<close>

record singleton =
  sn_controller :: "nat option"
  sn_closing :: bool
  sn_failed :: bool
  sn_next :: nat
  sn_live :: "nat set"
  sn_closer :: "nat option"

definition singleton_init :: singleton where
  "singleton_init = \<lparr>sn_controller = None, sn_closing = False, sn_failed = False, sn_next = 0, sn_live = {}, sn_closer = None\<rparr>"

text \<open>A caller that finds a close under way waits. Making a controller may raise.\<close>

datatype 'a got = Waits | Gets 'a | Refused py_exn

definition get_runtime_controller :: "unit result \<Rightarrow> singleton \<Rightarrow> nat got \<times> singleton" where
  "get_runtime_controller made s =
     (if sn_closing s then (Waits, s)
      else if sn_failed s then (Refused (RuntimeControllerError ''CLEANUP_FAILED''), s)
      else case sn_controller s of
        Some i \<Rightarrow> (Gets i, s)
      | None \<Rightarrow> (case made of
            Inl e \<Rightarrow> (Refused e, s)
          | Inr _ \<Rightarrow> (Gets (sn_next s), s\<lparr>sn_controller := Some (sn_next s), sn_next := Suc (sn_next s), sn_live := insert (sn_next s) (sn_live s)\<rparr>)))"

text \<open>\<^verbatim>\<open>close_runtime_controller\<close> up to the call, and from its return on.\<close>

definition begin_close :: "singleton \<Rightarrow> nat option got \<times> singleton" where
  "begin_close s =
     (if sn_closing s then (Waits, s)
      else case sn_controller s of
        None \<Rightarrow> (Gets None, s)
      | Some i \<Rightarrow> (Gets (Some i), s\<lparr>sn_closing := True, sn_closer := Some i\<rparr>))"

definition end_close :: "unit result \<Rightarrow> singleton \<Rightarrow> bool result \<times> singleton" where
  "end_close stopped s =
     (case stopped of
        Inr _ \<Rightarrow> (Ret True, s\<lparr>sn_controller := None, sn_failed := False, sn_closing := False, sn_closer := None, sn_live := sn_live s - set_option (sn_closer s)\<rparr>)
      | Inl e \<Rightarrow> (case e of RuntimeControllerError _ \<Rightarrow> Ret False | _ \<Rightarrow> Raise e, s\<lparr>sn_failed := True, sn_closing := False, sn_closer := None\<rparr>))"

inductive sn_step :: "singleton \<Rightarrow> singleton \<Rightarrow> bool" where
  get: "sn_step s (snd (get_runtime_controller made s))"
| close_begins: "sn_step s (snd (begin_close s))"
| close_ends: "sn_closer s \<noteq> None \<Longrightarrow> sn_step s (snd (end_close stopped s))"

inductive_simps sn_step_simps: "sn_step s t"

text \<open>At most one controller is alive, and it is the one that the process knows.\<close>

definition sn_inv :: "singleton \<Rightarrow> bool" where
  "sn_inv s \<longleftrightarrow> sn_live s = set_option (sn_controller s) \<and> (sn_failed s \<longrightarrow> sn_controller s \<noteq> None) \<and>
     sn_closer s = (if sn_closing s then sn_controller s else None) \<and> (sn_closing s \<longrightarrow> sn_controller s \<noteq> None) \<and>
     (\<forall>i \<in> sn_live s. i < sn_next s)"

interpretation owning: machine sn_step sn_inv
proof
  fix s t assume "sn_step s t" "sn_inv s"
  then show "sn_inv t"
    by (cases rule: sn_step.cases)
      (auto simp: sn_inv_def get_runtime_controller_def begin_close_def end_close_def split: if_splits option.splits sum.splits)
qed

lemma sn_init_inv: "sn_inv singleton_init"
  unfolding sn_inv_def singleton_init_def by simp

lemma sn_reach_inv: "sn_step\<^sup>*\<^sup>* singleton_init s \<Longrightarrow> sn_inv s"
  using owning.inv_steps sn_init_inv by blast

text \<open>C20: However the threads of the server get and close the controller, at most one is alive, it is the one they get, and another is made only
  when that one has been stopped successfully: after a failed stop every request for one is refused until a later stop succeeds.\<close>
theorem one_controller_at_a_time:
  assumes "sn_step\<^sup>*\<^sup>* singleton_init s" "get_runtime_controller made s = (answer, t)"
  shows "card (sn_live s) \<le> 1 \<and> (\<forall>i. answer = Gets i \<longrightarrow> sn_live t = {i} \<and> \<not> sn_closing s) \<and>
    (sn_next t \<noteq> sn_next s \<longrightarrow> sn_live s = {} \<and> \<not> sn_failed s) \<and> (sn_failed s \<and> \<not> sn_closing s \<longrightarrow> answer = Refused (RuntimeControllerError ''CLEANUP_FAILED'') \<and> t = s)"
  using sn_reach_inv [OF assms(1)] assms(2)
  by (auto simp: sn_inv_def get_runtime_controller_def split: if_splits option.splits sum.splits)

text \<open>A stop that fails leaves its controller where it is, for a later close to stop.\<close>

definition after_failed_stop :: singleton where
  "after_failed_stop = \<lparr>sn_controller = Some 0, sn_closing = False, sn_failed = True, sn_next = 1, sn_live = {0}, sn_closer = None\<rparr>"

lemma failed_stop_reached: "sn_step\<^sup>*\<^sup>* singleton_init after_failed_stop"
proof -
  let ?a = "singleton_init\<lparr>sn_controller := Some 0, sn_next := 1, sn_live := {0}\<rparr>"
  let ?b = "?a\<lparr>sn_closing := True, sn_closer := Some 0\<rparr>"
  have "sn_step singleton_init ?a" using sn_step.get [of singleton_init "Ret ()"] by (simp add: get_runtime_controller_def singleton_init_def)
  moreover have "sn_step ?a ?b" using sn_step.close_begins [of ?a] by (simp add: begin_close_def singleton_init_def)
  moreover have "sn_step ?b after_failed_stop"
    using sn_step.close_ends [of ?b "Raise (RuntimeControllerError ''CLEANUP_FAILED'')"] by (simp add: end_close_def singleton_init_def after_failed_stop_def)
  ultimately show ?thesis by (meson rtranclp.rtrancl_into_rtrancl r_into_rtranclp)
qed

theorem one_controller_at_a_time_witness:
  "card (sn_live after_failed_stop) \<le> 1 \<and> fst (get_runtime_controller (Ret ()) after_failed_stop) = Refused (RuntimeControllerError ''CLEANUP_FAILED'')"
  using one_controller_at_a_time [OF failed_stop_reached, of "Ret ()"] by (cases "get_runtime_controller (Ret ()) after_failed_stop") (simp add: after_failed_stop_def)

section \<open>The documents of the handlers\<close>

text \<open>A document fits a tool when the tool answers with it.\<close>

definition fits :: "request \<Rightarrow> pydict \<Rightarrow> bool" where
  "fits q d \<longleftrightarrow> conforms (data_schema q) (VDict d) \<and> json_ok (VDict d)"

lemma fits_answered:
  assumes "follows_json_schema (\<lambda>s v. is_ret (validate s v))" "fits q d"
  shows "mcp_invoke validate (Ret (VDict d)) (RESPONSE_SCHEMA q) =
    \<lparr>tr_structured = [(VStr ''ok'', VBool True), (VStr ''data'', VDict d)], tr_image = None, tr_is_error = False\<rparr>"
proof -
  have "is_ret (validate (RESPONSE_SCHEMA q) (VDict [(VStr ''ok'', VBool True), (VStr ''data'', VDict d)]))"
    using assms(2) follows_unique [OF assms(1)] by (simp add: fits_def RESPONSE_SCHEMA_def response_schema_def ERROR_SCHEMA_def del: conforms_cases(9))
      (simp add: error_body_schema_def)
  then show ?thesis using assms(2)
    by (auto simp: mcp_invoke_def mcp_success_def validate_json_value_def fits_def Let_def is_ret_iff simp del: json_ok.simps split: sum.splits)
qed

lemma state_fits [simp]: "conforms MCP_STATE (VStr (state_value st))"
  by (cases st) (simp_all add: MCP_STATE_def)

lemma channel_fits [simp]: "conforms CHANNEL_SCHEMA (VStr (hardware_safety_status c))"
  by (simp add: hardware_safety_status_def CHANNEL_SCHEMA_def)

lemma text_fits [simp]: "conforms MCP_TEXT v \<longleftrightarrow> (\<exists>t. v = VStr t \<and> t \<noteq> [])"
  by (cases v) (auto simp: MCP_TEXT_def Suc_le_eq)

lemma gives_next: "(\<And>x. gives (\<lambda>_. True) (f x) Q) \<Longrightarrow> gives (\<lambda>_. True) (after a f) Q"
  by (rule gives_after [of _ _ "\<lambda>_ _. True"]) (simp_all add: gives_def)

lemma gives_then: "gives (\<lambda>_. True) a (\<lambda>x _. R x) \<Longrightarrow> (\<And>x. R x \<Longrightarrow> gives (\<lambda>_. True) (f x) Q) \<Longrightarrow> gives (\<lambda>_. True) (after a f) Q"
  unfolding gives_def after_def by (fastforce split: option.splits sum.splits)

lemma gives_require: "(b \<Longrightarrow> gives (\<lambda>_. True) (f ()) Q) \<Longrightarrow> gives (\<lambda>_. True) (after (ensure b code) f) Q"
  by (rule gives_then [of _ "\<lambda>_. b"]) (auto intro: gives_ensure)

lemma gives_either: "(b \<Longrightarrow> gives S a Q) \<Longrightarrow> (\<not> b \<Longrightarrow> gives S a' Q) \<Longrightarrow> gives S (if b then a else a') Q"
  by simp

lemma validate_fits: "name \<noteq> [] \<Longrightarrow> gives (\<lambda>_. True) (validate_profile w name) (\<lambda>d _. fits (ValidateProfile name) d)"
  unfolding validate_profile_def
  by (intro gives_next gives_require gives_reading) (simp add: fits_def)

lemma arm_fits: "name \<noteq> [] \<Longrightarrow> gives (\<lambda>_. True) (arm_robot w name challenge dry_run) (\<lambda>d _. fits (ArmRobot name code dry_run) d)"
  unfolding arm_robot_def
  by (intro gives_next gives_require gives_either gives_done; simp add: fits_def)

lemma compatible_names:
  assumes "load_compatible_task store profile name = Ret task" shows "tp_name task \<noteq> []" "rp_name profile \<noteq> []"
proof -
  from assms have "load_task_profile store name = Ret task" "tp_robot_profile task = rp_name profile"
    by (auto simp: load_compatible_task_def split: sum.splits if_splits)
  then have "task_wf task" using task_from_mapping_wf by (auto simp: load_task_profile_def load_profile_Inr)
  then show "tp_name task \<noteq> []" "rp_name profile \<noteq> []"
    using \<open>tp_robot_profile task = rp_name profile\<close> by (auto simp: task_wf_def text_ok_def)
qed

lemma run_fits: "gives (\<lambda>_. True) (run_task w store name dry_run) (\<lambda>d _. fits (RunTask name dry_run) d)"
  unfolding run_task_def
proof (rule gives_next, rule gives_next, rule gives_next, rule gives_require)
  fix profile :: robot_profile
  show "gives (\<lambda>_. True) (after (lift_result (load_compatible_task store profile name)) (\<lambda>task.
      if dry_run then done_with [(VStr ''dry_run'', VBool True), (VStr ''profile'', VStr (rp_name profile)), task_entry task]
      else after (issue_permit w) (\<lambda>_. after (begin_run w task) (\<lambda>_. after (activate w) (\<lambda>status. after (refuse_lost w) (\<lambda>_.
        after (enter_task w task status) (\<lambda>_. after (start_monitor w) (\<lambda>_. after (gateway_state w) (\<lambda>st. done_with [state_entry st, task_entry task])))))))))
      (\<lambda>d _. fits (RunTask name dry_run) d)"
  proof (rule gives_then)
    show "gives (\<lambda>_. True) (lift_result (load_compatible_task store profile name)) (\<lambda>task _. load_compatible_task store profile name = Ret task)"
      by (rule gives_lift)
  qed (auto intro!: gives_next gives_done simp: fits_def task_entry_def dest: compatible_names)
qed

lemma estop_fits: "gives (\<lambda>_. True) (emergency_stop w) (\<lambda>d _. fits EmergencyStop d)"
  unfolding emergency_stop_def
  by (intro gives_next gives_done) (auto intro!: gives_next gives_done simp: fits_def split: prod.splits)

lemma stop_fits: "gives (\<lambda>_. True) (stop_runtime w) (\<lambda>d _. fits StopRuntime d)"
  unfolding stop_runtime_def by (intro gives_next gives_done) (simp add: fits_def)

text \<open>The adapter's statuses have a state, and a code is not empty.\<close>

definition status_named :: "adapter_status \<Rightarrow> bool" where
  "status_named st \<longleftrightarrow> as_state st \<noteq> [] \<and> as_code st \<noteq> Some []"

lemma asked_status: "(\<And>n st. tn_status (w n) = Ret st \<Longrightarrow> status_named st) \<Longrightarrow>
    gives (\<lambda>_. True) (asking w tn_status) (\<lambda>r _. \<forall>st. r = Ret st \<longrightarrow> status_named st)"
  by (auto simp: gives_def asking_def on_gateway_def Let_def)

lemma cancel_adapter_named:
  assumes "\<And>n st. tn_status (w n) = Ret st \<Longrightarrow> status_named st"
  shows "gives (\<lambda>_. True) (cancel_adapter w) (\<lambda>r _. status_named (fst r))"
  unfolding cancel_adapter_def
proof (rule gives_catching)
  show "gives (\<lambda>_. True) (after (asking w tn_status) (\<lambda>r. after (lift_result r) (\<lambda>status.
        after (gateway_state w) (\<lambda>st.
        after (ensure (st = RUNNING) ''ESTOP_LATCHED'') (\<lambda>_.
        if as_state status = ''faulted'' then after (latch_adapter_fault w) (\<lambda>_. refuse_with ''UNSAFE_STATE'')
        else if as_state status = ''cancelled'' then after (cancel_gateway w) (\<lambda>t. done_with (status, Some t))
        else done_with (status, None)))))) (\<lambda>r _. status_named (fst r))"
  proof (rule gives_then [OF asked_status [OF assms]], assumption)
    fix r assume "\<forall>st. r = Ret st \<longrightarrow> status_named st"
    then have lifted: "gives (\<lambda>_. True) (lift_result r) (\<lambda>st _. status_named st)" by (auto intro: gives_lift)
    show "gives (\<lambda>_. True) (after (lift_result r) (\<lambda>status.
        after (gateway_state w) (\<lambda>st.
        after (ensure (st = RUNNING) ''ESTOP_LATCHED'') (\<lambda>_.
        if as_state status = ''faulted'' then after (latch_adapter_fault w) (\<lambda>_. refuse_with ''UNSAFE_STATE'')
        else if as_state status = ''cancelled'' then after (cancel_gateway w) (\<lambda>t. done_with (status, Some t))
        else done_with (status, None))))) (\<lambda>r _. status_named (fst r))"
      by (rule gives_then [OF lifted]) (auto intro!: gives_next gives_done gives_refuse)
  qed
qed (auto intro: gives_refuse gives_fail split: py_exn.splits)

lemma cancel_fits:
  assumes "\<And>n st. tn_status (w n) = Ret st \<Longrightarrow> status_named st"
  shows "gives (\<lambda>_. True) (cancel_task w) (\<lambda>d _. fits CancelTask d)"
  unfolding cancel_task_def
proof (rule gives_next, rule gives_next, rule gives_require)
  show "gives (\<lambda>_. True) (after (cancel_adapter w) (\<lambda>(status, t).
     after (gateway_state w) (\<lambda>st.
     after (update (\<lambda>c. c\<lparr>ct_cancel_requested := (as_state status = ''cancelling''), ct_observed := st,
       ct_monitor_stop := (as_state status = ''cancelled'' \<or> ct_monitor_stop c)\<rparr>)) (\<lambda>_.
     after (append_if w audit_operation.CANCEL t) (\<lambda>_.
     after (gateway_state w) (\<lambda>st.
     done_with [state_entry st, (VStr ''adapter_state'', VStr (as_state status))])))))) (\<lambda>d _. fits CancelTask d)"
    by (rule gives_then [OF cancel_adapter_named [OF assms]], assumption)
      (auto intro!: gives_next gives_done simp: fits_def status_named_def split: prod.splits)
qed

definition status_fields :: "ctl \<Rightarrow> adapter_status option \<times> task_profile option" where
  "status_fields c = (ct_status c, ct_task c)"

definition named_run :: "ctl \<Rightarrow> bool" where
  "named_run c \<longleftrightarrow> (\<forall>st. ct_status c = Some st \<longrightarrow> status_named st) \<and> (\<forall>t. ct_task c = Some t \<longrightarrow> tp_name t \<noteq> [])"

lemma gives_named: "own status_fields \<Longrightarrow> keeps status_fields a \<Longrightarrow> gives named_run a (\<lambda>_. named_run)"
  unfolding gives_def keeps_def by (auto simp: status_fields_def named_run_def)

lemma own_status: "own status_fields"
  by (simp add: own_def status_fields_def)

lemma elapsed_fits:
  assumes "status_elapsed values = Ret entries"
  shows "entries = [] \<or> (\<exists>r. entries = [(VStr ''elapsed'', VFloat (Fin r))] \<and> 0 \<le> r)"
  using assms by (auto simp: status_elapsed_def Let_def is_fin_iff split: if_splits)

lemma stage_fits: "status_stage values = [] \<or> (\<exists>n. status_stage values = [(VStr ''stage_index'', VInt n)] \<and> 0 \<le> n)"
  by (auto simp: status_stage_def split: pyval.splits)

lemma optional_text_fits: "u \<noteq> Some [] \<Longrightarrow> conforms (JOneOf [MCP_TEXT, JNull]) (opt_str u)"
  by (cases u) (simp_all add: opt_str_def)

lemma task_status_document:
  assumes "t \<noteq> Some []" "status_named s" "status_elapsed v = Ret entries"
  shows "fits TaskStatus ([state_entry st, (VStr ''task'', opt_str t), (VStr ''hardware_safety_channel'', VStr (hardware_safety_status h))] @
    [(VStr ''adapter_state'', VStr (as_state s)), (VStr ''code'', opt_str (as_code s))] @ entries @ status_stage v)"
proof -
  obtain ps req where ps: "data_schema TaskStatus = JObject ps req" by simp
  have "list_all (property_ok conforms ps) entries \<and> list_all (\<lambda>kv. is_str (fst kv) \<and> json_ok (snd kv)) entries"
    using elapsed_fits [OF assms(3)] ps by (auto simp: not_below_def)
  moreover have "list_all (property_ok conforms ps) (status_stage v) \<and> list_all (\<lambda>kv. is_str (fst kv) \<and> json_ok (snd kv)) (status_stage v)"
    using stage_fits [of v] ps by (auto simp: not_below_def integral_def)
  moreover have "json_ok (opt_str u)" for u by (cases u) (simp_all add: opt_str_def)
  moreover have "conforms (JOneOf [MCP_TEXT, JNull]) (opt_str t)" "conforms (JOneOf [MCP_TEXT, JNull]) (opt_str (as_code s))"
    using assms(1,2) optional_text_fits by (simp_all add: status_named_def del: conforms_cases)
  ultimately show ?thesis using assms(2) ps by (auto simp: fits_def status_named_def simp del: conforms_cases(10))
qed

lemma task_status_base:
  assumes "t \<noteq> Some []"
  shows "fits TaskStatus [state_entry st, (VStr ''task'', opt_str t), (VStr ''hardware_safety_channel'', VStr (hardware_safety_status h))]"
proof -
  have "conforms (JOneOf [MCP_TEXT, JNull]) (opt_str t)" by (rule optional_text_fits [OF assms])
  moreover have "json_ok (opt_str t)" by (cases t) (simp_all add: opt_str_def)
  ultimately show ?thesis by (simp add: fits_def del: conforms_cases(10))
qed

lemma status_fits: "gives named_run (task_status w) (\<lambda>d _. fits TaskStatus d)"
  unfolding task_status_def
proof (rule gives_after)
  show "gives named_run (ensure_available w) (\<lambda>_. named_run)"
    unfolding ensure_available_def by (intro gives_named own_status keep_rules)
  show "gives named_run (after (gateway_state w) (\<lambda>st.
     after (reading (\<lambda>c. ([state_entry st, (VStr ''task'', opt_str (map_option tp_name (ct_task c))),
         (VStr ''hardware_safety_channel'', VStr (hardware_safety_status c))], ct_status c))) (\<lambda>(base, status).
     case status of None \<Rightarrow> done_with base
     | Some s \<Rightarrow> after (lift_result (status_elapsed (as_values s))) (\<lambda>elapsed.
         done_with (base @ [(VStr ''adapter_state'', VStr (as_state s)), (VStr ''code'', opt_str (as_code s))] @
           elapsed @ status_stage (as_values s)))))) (\<lambda>d _. fits TaskStatus d)" for u :: unit
  proof (rule gives_after)
    show "gives named_run (gateway_state w) (\<lambda>_. named_run)" by (intro gives_named own_status keep_rules)
    fix st
    let ?R = "\<lambda>(base, status) (c :: ctl). (\<exists>t h. base = [state_entry st, (VStr ''task'', opt_str t), (VStr ''hardware_safety_channel'', VStr (hardware_safety_status h))] \<and> t \<noteq> Some []) \<and>
      (\<forall>s. status = Some s \<longrightarrow> status_named s)"
    show "gives named_run (after (reading (\<lambda>c. ([state_entry st, (VStr ''task'', opt_str (map_option tp_name (ct_task c))),
         (VStr ''hardware_safety_channel'', VStr (hardware_safety_status c))], ct_status c))) (\<lambda>(base, status).
     case status of None \<Rightarrow> done_with base
     | Some s \<Rightarrow> after (lift_result (status_elapsed (as_values s))) (\<lambda>elapsed.
         done_with (base @ [(VStr ''adapter_state'', VStr (as_state s)), (VStr ''code'', opt_str (as_code s))] @
           elapsed @ status_stage (as_values s))))) (\<lambda>d _. fits TaskStatus d)"
    proof (rule gives_after [where R = ?R])
      show "gives named_run (reading (\<lambda>c. ([state_entry st, (VStr ''task'', opt_str (map_option tp_name (ct_task c))),
         (VStr ''hardware_safety_channel'', VStr (hardware_safety_status c))], ct_status c))) ?R"
        by (rule gives_reading) (auto simp: named_run_def)
      fix x :: "pydict \<times> adapter_status option"
      obtain base status where x: "x = (base, status)" by fastforce
      show "gives (?R x) (case x of (base, status) \<Rightarrow> case status of None \<Rightarrow> done_with base
         | Some s \<Rightarrow> after (lift_result (status_elapsed (as_values s))) (\<lambda>elapsed.
             done_with (base @ [(VStr ''adapter_state'', VStr (as_state s)), (VStr ''code'', opt_str (as_code s))] @
               elapsed @ status_stage (as_values s)))) (\<lambda>d _. fits TaskStatus d)"
      proof (cases status)
        case None
        show ?thesis unfolding x None prod.case option.case by (rule gives_done) (auto intro!: task_status_base)
      next
        case (Some s)
        have lifted: "gives (?R x) (lift_result (status_elapsed (as_values s)))
            (\<lambda>entries c. ?R x c \<and> status_elapsed (as_values s) = Ret entries)" by (rule gives_lift) auto
        show ?thesis unfolding x Some prod.case option.case
          by (rule gives_after [OF lifted [unfolded x Some prod.case]], rule gives_done)
            (auto intro!: task_status_document [unfolded append_Cons append_Nil])
      qed
    qed
  qed
qed

text \<open>What a handler returns is what its tool answers with.\<close>

definition passes :: "validator \<Rightarrow> request \<Rightarrow> (pydict result \<times> 'c) option \<Rightarrow> bool" where
  "passes validate q r \<longleftrightarrow> (\<forall>d c. r = Some (Ret d, c) \<longrightarrow> mcp_invoke validate (Ret (VDict d)) (RESPONSE_SCHEMA q) =
     \<lparr>tr_structured = [(VStr ''ok'', VBool True), (VStr ''data'', VDict d)], tr_image = None, tr_is_error = False\<rparr>)"

lemma gives_passes:
  assumes "follows_json_schema (\<lambda>s v. is_ret (validate s v))" "gives S a (\<lambda>d _. fits q d)" "S c" shows "passes validate q (a c)"
  using fits_answered [OF assms(1)] givesD [OF assms(2,3)] by (auto simp: passes_def)


definition demo_validator :: validator where
  "demo_validator s v = (if conforms s v then Ret () else Raise PyValueError)"

lemma demo_validator_follows: "follows_json_schema (\<lambda>s v. is_ret (demo_validator s v))"
proof -
  have "(\<lambda>s v. is_ret (demo_validator s v)) = conforms" by (intro ext) (simp add: demo_validator_def)
  then show ?thesis using conforms_follows by simp
qed

theorem every_answer_follows_its_schema_witness:
  "\<forall>ops m. case fst (serve demo_validator (Ret ()) ops ConnectionStatus m) of Inr r \<Rightarrow> answer_ok (RESPONSE_SCHEMA ConnectionStatus) r | Inl _ \<Rightarrow> False"
proof (intro allI)
  fix ops m
  show "case fst (serve demo_validator (Ret ()) ops ConnectionStatus m) of Inr r \<Rightarrow> answer_ok (RESPONSE_SCHEMA ConnectionStatus) r | Inl _ \<Rightarrow> False"
    using every_answer_follows_its_schema [OF demo_validator_follows, where controller = "Ret ()" and ops = ops and q = ConnectionStatus and m = m]
    by simp
qed


section \<open>Observations\<close>

lemma invoke_rejected:
  assumes "follows_json_schema (\<lambda>s v. is_ret (validate s v))" "\<And>s v code. validate s v \<noteq> Raise (RuntimeControllerError code)"
    "\<not> conforms schema (VDict [(VStr ''ok'', VBool True), (VStr ''data'', VDict d)])"
  shows "mcp_invoke validate (Ret (VDict d)) schema = mcp_error ''UNSAFE_STATE''"
proof (cases "validate schema (VDict [(VStr ''ok'', VBool True), (VStr ''data'', VDict d)])")
  case (Inl e)
  with assms(2) have "\<forall>code. e \<noteq> RuntimeControllerError code" by metis
  then have "(case e of RuntimeControllerError code \<Rightarrow> mcp_error code | _ \<Rightarrow> mcp_error ''UNSAFE_STATE'') = mcp_error ''UNSAFE_STATE''"
    by (cases e) simp_all
  with Inl show ?thesis by (simp add: mcp_invoke_def mcp_success_def validate_json_value_def Let_def del: json_ok.simps)
next
  case (Inr u)
  with assms(3) follows_unique [OF assms(1)] show ?thesis by (metis is_ret_iff)
qed

text \<open>The hospital's adapter answers for the camera and the scan with its whole status, which the schema of the tool does not allow: such a
  call is always answered with an error.\<close>

theorem camera_is_never_observed:
  assumes "follows_json_schema (\<lambda>s v. is_ret (validate s v))" "source \<in> {''camera'', ''scan''}" "case_observe source now (Ret d) = Ret ob"
    "vget d ''state'' = VStr st" "\<And>s v code. validate s v \<noteq> Raise (RuntimeControllerError code)"
  shows "mcp_invoke validate (observation_data (Observed ob)) (RESPONSE_SCHEMA (Observe source)) = mcp_error ''UNSAFE_STATE''"
proof -
  have ob: "ob_values ob = d" using assms(2,3) by (auto simp: case_observe_def case_invoke_def)
  have "dget d (VStr ''state'') = Some (VStr st)" using assms(4) by (auto simp: vget_def split: option.splits)
  then have "(VStr ''state'', VStr st) \<in> set d" by (rule dget_Some_mem)
  then have "\<not> list_all (property_ok conforms [(''x'', JNumber None), (''y'', JNumber None), (''yaw'', JNumber None)]) d"
    unfolding list_all_iff by (intro notI) (drule (1) bspec, simp)
  then have "\<not> conforms (RESPONSE_SCHEMA (Observe source)) (VDict [(VStr ''ok'', VBool True), (VStr ''data'',
      VDict [(VStr ''source'', VStr (ob_source ob)), (VStr ''timestamp'', ob_timestamp ob), (VStr ''values'', VDict (ob_values ob))])])"
    by (simp add: RESPONSE_SCHEMA_def response_schema_def ob)
  then show ?thesis unfolding observation_data_def observed.case by (rule invoke_rejected [OF assms(1,5)])
qed

end
