(* ===== verification/ToolSequence.thy ===== *)
theory ToolSequence
  imports McpRuntime
begin

text \<open>
  The demonstration as an agent runs it: \<^verbatim>\<open>scripts/run_via_mcp.py\<close>. The client of the server is a function from requests and a state
  of its own to outcomes, so that it may be anything, a server of \<open>McpServer\<close> included; the clock is its readings, in order. The loop over the
  task's status has no bound but the clock, and is a partial function whose end is a theorem.
\<close>

section \<open>Calls\<close>

datatype sequence_stop = ToolSequenceError string | OtherError

definition PUBLIC_CODES :: "string list" where
  "PUBLIC_CODES = [''UNSAFE_STATE'', ''PROFILE_INVALID'', ''CONTROLLER_CONFLICT'', ''STALE_FEEDBACK'', ''TIMEOUT'', ''EVIDENCE_INVALID'',
     ''AUDIT_INTEGRITY_COMPROMISED'', ''ESTOP_LATCHED'', ''OPERATOR_REQUIRED'', ''CLEANUP_FAILED'']"

definition sequence_error :: "string \<Rightarrow> sequence_stop" where
  "sequence_error code = ToolSequenceError (if code \<in> set PUBLIC_CODES then code else ''UNSAFE_STATE'')"

abbreviation unsafe_state :: sequence_stop where "unsafe_state \<equiv> ToolSequenceError ''UNSAFE_STATE''"

text \<open>What the JSON decoder says of the text of an exception, and what a call ends with.\<close>

datatype decoded = Decodes pyval | NotJson | DecodeRaises py_exn

datatype call_outcome = CallRaises decoded | Responds pyval

fun tool_name :: "request \<Rightarrow> string" where
  "tool_name (DiscoverRobot _) = ''discover_robot''"
| "tool_name (ValidateProfile _) = ''validate_profile''"
| "tool_name ConnectionStatus = ''connection_status''"
| "tool_name ListCapabilities = ''list_capabilities''"
| "tool_name (ArmRobot _ _ _) = ''arm_robot''"
| "tool_name (RunTask _ _) = ''run_task''"
| "tool_name TaskStatus = ''task_status''"
| "tool_name CancelTask = ''cancel_task''"
| "tool_name EmergencyStop = ''emergency_stop''"
| "tool_name (Observe _) = ''observe''"
| "tool_name (GetEvidence _) = ''get_evidence''"
| "tool_name StopRuntime = ''stop_runtime''"

definition failed_record :: "string \<Rightarrow> pydict" where
  "failed_record name = [(VStr ''tool'', VStr name), (VStr ''ok'', VBool False)]"

definition text_entry :: "pydict \<Rightarrow> string \<Rightarrow> pydict" where
  "text_entry data k = (case vget data k of VStr t \<Rightarrow> if t \<noteq> [] then [(VStr k, VStr t)] else [] | _ \<Rightarrow> [])"

definition number_entry :: "pydict \<Rightarrow> string \<Rightarrow> pydict result" where
  "number_entry data k =
     (let v = vget data k in
      if is_number v then rbind (py_isfinite v) (\<lambda>finite. Ret (if finite then [(VStr k, v)] else [])) else Ret [])"

definition tool_record :: "string \<Rightarrow> pydict \<Rightarrow> pydict result" where
  "tool_record name data =
     rbind (number_entry data ''elapsed'') (\<lambda>elapsed. rbind (number_entry data ''stage_index'') (\<lambda>stage.
       Ret ([(VStr ''tool'', VStr name), (VStr ''ok'', VBool True)] @
         concat (map (text_entry data) [''state'', ''adapter_state'', ''source'']) @ elapsed @ stage)))"

definition error_code_of :: "pyval \<Rightarrow> string" where
  "error_code_of document =
     (case document of VDict d \<Rightarrow> (case vget d ''error'' of VDict e \<Rightarrow> (case vget e ''code'' of VStr c \<Rightarrow> c | _ \<Rightarrow> ''UNSAFE_STATE'') | _ \<Rightarrow> ''UNSAFE_STATE'')
      | _ \<Rightarrow> ''UNSAFE_STATE'')"

fun judge :: "call_outcome \<Rightarrow> sequence_stop + pydict" where
  "judge (CallRaises (Decodes v)) = Inl (sequence_error (error_code_of v))"
| "judge (CallRaises NotJson) = Inl unsafe_state"
| "judge (CallRaises (DecodeRaises e)) = Inl (if e \<in> {PyTypeError, PyAttributeError} then unsafe_state else OtherError)"
| "judge (Responds payload) =
     (case payload of
        VDict d \<Rightarrow> (case vget d ''ok'' of
            VBool True \<Rightarrow> (case vget d ''data'' of VDict data \<Rightarrow> Inr data | _ \<Rightarrow> Inl unsafe_state)
          | VBool False \<Rightarrow> Inl (sequence_error (error_code_of payload))
          | _ \<Rightarrow> Inl unsafe_state)
      | _ \<Rightarrow> Inl unsafe_state)"

type_synonym 'm client = "request \<Rightarrow> 'm \<Rightarrow> call_outcome \<times> 'm"

text \<open>\<open>tq_asked\<close> is a history variable: the requests and the states of the client in which they were made.\<close>

record 'm tool_run =
  tq_server :: 'm
  tq_asked :: "(request \<times> 'm) list"
  tq_tools :: "pydict list"
  tq_looks :: nat

type_synonym ('m, 'a) tool_step = "'m tool_run \<Rightarrow> (sequence_stop + 'a) \<times> 'm tool_run"

definition recorded :: "pydict \<Rightarrow> 'm tool_run \<Rightarrow> 'm tool_run" where
  "recorded r s = s\<lparr>tq_tools := tq_tools s @ [r]\<rparr>"

text \<open>A document whose number cannot be read as a float raises before the call is recorded.\<close>

definition tool_call :: "'m client \<Rightarrow> request \<Rightarrow> ('m, pydict) tool_step" where
  "tool_call client q s =
     (case client q (tq_server s) of (outcome, m) \<Rightarrow>
        let s1 = s\<lparr>tq_server := m, tq_asked := tq_asked s @ [(q, tq_server s)]\<rparr> in
        case judge outcome of
          Inl e \<Rightarrow> (Inl e, recorded (failed_record (tool_name q)) s1)
        | Inr data \<Rightarrow> (case tool_record (tool_name q) data of
            Inl _ \<Rightarrow> (Inl OtherError, s1)
          | Inr r \<Rightarrow> (Inr data, recorded r s1)))"

section \<open>The sequence\<close>

definition WALL_TIMEOUT :: pyfloat where "WALL_TIMEOUT = Fin 600"
definition POLL_INTERVAL :: pyfloat where "POLL_INTERVAL = Fin (1 / 2)"

definition check_timing :: "pyval \<Rightarrow> pyval \<Rightarrow> pyfloat result" where
  "check_timing wall poll =
     rbind (guard (is_number wall) PyValueError) (\<lambda>_. rbind (py_float wall) (\<lambda>limit.
     rbind (guard (is_fin limit \<and> flt (Fin 0) limit \<and> \<not> flt WALL_TIMEOUT limit) PyValueError) (\<lambda>_.
     rbind (guard (is_number poll) PyValueError) (\<lambda>_. rbind (py_float poll) (\<lambda>interval.
     rbind (guard (is_fin interval \<and> \<not> flt interval (Fin 0)) PyValueError) (\<lambda>_. Ret limit))))))"

definition opening_calls :: "request list" where
  "opening_calls =
     [DiscoverRobot (Some ''hospital-amr''), ValidateProfile ''hospital-amr'', ArmRobot ''hospital-amr'' ''hospital_delivery_reviewed'' False,
      RunTask ''hospital-delivery'' False]"

fun call_all :: "'m client \<Rightarrow> request list \<Rightarrow> ('m, unit) tool_step" where
  "call_all client [] s = (Inr (), s)"
| "call_all client (q # qs) s = (case tool_call client q s of (Inl e, s1) \<Rightarrow> (Inl e, s1) | (Inr _, s1) \<Rightarrow> call_all client qs s1)"

text \<open>What a status says: the end of the task, a failure, or nothing yet.\<close>

definition status_verdict :: "pydict \<Rightarrow> sequence_stop + bool" where
  "status_verdict status =
     (if vget status ''adapter_state'' = VStr ''succeeded'' \<and> vget status ''state'' = VStr ''STOPPED'' then Inr True
      else case in_strs (vget status ''state'') [''FAULTED'', ''ESTOPPED''] of
        Inl _ \<Rightarrow> Inl OtherError
      | Inr bad \<Rightarrow> if bad then Inl unsafe_state else Inr False)"

partial_function (option) poll_status ::
  "'m client \<Rightarrow> (nat \<Rightarrow> pyfloat) \<Rightarrow> pyfloat \<Rightarrow> pyfloat \<Rightarrow> 'm tool_run \<Rightarrow> ((sequence_stop + unit) \<times> 'm tool_run) option" where
  "poll_status client clock started limit s =
     (let s1 = s\<lparr>tq_looks := Suc (tq_looks s)\<rparr> in
      if flt limit (fsub (clock (tq_looks s)) started) then Some (Inl (sequence_error ''TIMEOUT''), s1)
      else case tool_call client TaskStatus s1 of
        (Inl e, s2) \<Rightarrow> Some (Inl e, s2)
      | (Inr status, s2) \<Rightarrow> (case status_verdict status of
          Inl e \<Rightarrow> Some (Inl e, s2)
        | Inr over \<Rightarrow> if over then Some (Inr (), s2) else poll_status client clock started limit s2))"

definition project_number :: "pyval \<Rightarrow> sequence_stop + pyval" where
  "project_number v =
     (if \<not> is_number v then Inl unsafe_state
      else case py_float v of Inl _ \<Rightarrow> Inl OtherError | Inr x \<Rightarrow> if is_fin x then Inr (VFloat x) else Inl unsafe_state)"

definition project_values :: "pyval \<Rightarrow> sequence_stop + pydict" where
  "project_values v =
     (case v of
        VDict d \<Rightarrow>
          if \<not> keys_are d [''x'', ''y'', ''yaw''] then Inl unsafe_state
          else (case project_number (vget d ''x'') of Inl e \<Rightarrow> Inl e | Inr x \<Rightarrow>
            case project_number (vget d ''y'') of Inl e \<Rightarrow> Inl e | Inr y \<Rightarrow>
            case project_number (vget d ''yaw'') of Inl e \<Rightarrow> Inl e | Inr yaw \<Rightarrow>
              Inr [(VStr ''x'', x), (VStr ''y'', y), (VStr ''yaw'', yaw)])
      | _ \<Rightarrow> Inl unsafe_state)"

definition observe_end :: "'m client \<Rightarrow> ('m, pydict) tool_step" where
  "observe_end client s =
     (case tool_call client (Observe ''odometry'') s of
        (Inl e, s1) \<Rightarrow> (Inl e, s1)
      | (Inr observed, s1) \<Rightarrow> (case project_values (vget observed ''values'') of
          Inl e \<Rightarrow> (Inl e, s1)
        | Inr projected \<Rightarrow> (Inr [(VStr ''source'', VStr ''odometry''), (VStr ''values'', VDict projected)], s1)))"

definition sequence_body :: "'m client \<Rightarrow> (nat \<Rightarrow> pyfloat) \<Rightarrow> pyfloat \<Rightarrow> pyfloat \<Rightarrow> 'm tool_run \<Rightarrow> ((sequence_stop + pydict) \<times> 'm tool_run) option" where
  "sequence_body client clock started limit s =
     (case call_all client opening_calls s of
        (Inl e, s1) \<Rightarrow> Some (Inl e, s1)
      | (Inr _, s1) \<Rightarrow> (case poll_status client clock started limit s1 of
          None \<Rightarrow> None
        | Some (Inl e, s2) \<Rightarrow> Some (Inl e, s2)
        | Some (Inr _, s2) \<Rightarrow> Some (observe_end client s2)))"

text \<open>The cleanup, whatever came before: the code it leaves, or none of its own.\<close>

definition request_stop :: "'m client \<Rightarrow> 'm tool_run \<Rightarrow> bool \<times> 'm tool_run" where
  "request_stop client s =
     (case tool_call client StopRuntime s of
        (Inr _, s1) \<Rightarrow> (True, s1)
      | (Inl (ToolSequenceError _), s1) \<Rightarrow> (False, s1)
      | (Inl OtherError, s1) \<Rightarrow> (False, recorded (failed_record ''stop_runtime'') s1))"

definition error_of :: "sequence_stop + 'a \<Rightarrow> string option" where
  "error_of r = (case r of Inr _ \<Rightarrow> None | Inl (ToolSequenceError code) \<Rightarrow> Some code | Inl OtherError \<Rightarrow> Some ''UNSAFE_STATE'')"

definition acceptance_reference :: pyval where
  "acceptance_reference = VDict [(VStr ''relative_path'', VStr ''evidence/acceptance_report.json''), (VStr ''role'', VStr ''separate_independent_acceptance'')]"

definition trace_of :: "pydict list \<Rightarrow> string option \<Rightarrow> pyfloat \<Rightarrow> pydict option \<Rightarrow> pydict" where
  "trace_of tools error elapsed observation =
     [(VStr ''schema_version'', VInt 1), (VStr ''case'', VStr ''hospital_delivery''), (VStr ''control_plane'', VStr ''production_fastmcp_stdio''),
      (VStr ''authority'', VStr ''repository_profiles_only''), (VStr ''tools'', VList (map VDict tools)),
      (VStr ''result'', VStr (if error = None then ''SUCCEEDED'' else ''FAILED'')), (VStr ''wall_elapsed_seconds'', VFloat elapsed),
      (VStr ''independent_acceptance_reference'', acceptance_reference)] @
     (case observation of None \<Rightarrow> [] | Some d \<Rightarrow> [(VStr ''observation'', VDict d)]) @
     (case error of None \<Rightarrow> [] | Some code \<Rightarrow> [(VStr ''error_code'', VStr code)])"

text \<open>\<open>tq_looks\<close> is also the number of the clock's next reading.\<close>

definition finish_trace :: "'m client \<Rightarrow> (nat \<Rightarrow> pyfloat) \<Rightarrow> pyfloat \<Rightarrow> sequence_stop + pydict \<Rightarrow> 'm tool_run \<Rightarrow> pydict \<times> 'm tool_run" where
  "finish_trace client clock started r s =
     (case request_stop client s of (stopped, s1) \<Rightarrow>
        let elapsed = fsub (clock (tq_looks s1)) started;
            sound = is_fin elapsed \<and> \<not> flt elapsed (Fin 0);
            error = (if \<not> sound then Some ''UNSAFE_STATE'' else if \<not> stopped then Some ''CLEANUP_FAILED'' else error_of r)
        in (trace_of (tq_tools s1) error (if sound then elapsed else Fin 0) (case r of Inl _ \<Rightarrow> None | Inr d \<Rightarrow> Some d), s1))"

definition execute_tool_sequence :: "'m client \<Rightarrow> (nat \<Rightarrow> pyfloat) \<Rightarrow> pyval \<Rightarrow> pyval \<Rightarrow> 'm \<Rightarrow> (pydict \<times> 'm tool_run) result option" where
  "execute_tool_sequence client clock wall poll m =
     (case check_timing wall poll of
        Inl e \<Rightarrow> Some (Raise e)
      | Inr limit \<Rightarrow>
          (case sequence_body client clock (clock 0) limit \<lparr>tq_server = m, tq_asked = [], tq_tools = [], tq_looks = 1\<rparr> of
             None \<Rightarrow> None
           | Some (r, s) \<Rightarrow> Some (Ret (finish_trace client clock (clock 0) r s))))"

section \<open>The records of a run\<close>

text \<open>A call that came back with a document, and what it left.\<close>

definition answered_with :: "'m client \<Rightarrow> request \<times> 'm \<Rightarrow> pydict \<Rightarrow> bool" where
  "answered_with client qm d \<longleftrightarrow> judge (fst (client (fst qm) (snd qm))) = Inr d"

lemma tool_call_Inr:
  assumes "tool_call client q s = (Inr d, s1)"
  shows "answered_with client (q, tq_server s) d" "tq_asked s1 = tq_asked s @ [(q, tq_server s)]" "tq_looks s1 = tq_looks s"
    "\<exists>r. tool_record (tool_name q) d = Ret r \<and> tq_tools s1 = tq_tools s @ [r]"
  using assms by (auto simp: tool_call_def answered_with_def recorded_def Let_def split: prod.splits sum.splits)

lemma tool_call_looks: "tq_looks (snd (tool_call client q s)) = tq_looks s"
  by (auto simp: tool_call_def recorded_def Let_def split: prod.splits sum.splits)

text \<open>A run that went well so far: the answered requests since a moment, with the records they left.\<close>

definition went_well :: "'m client \<Rightarrow> request list \<Rightarrow> 'm tool_run \<Rightarrow> 'm tool_run \<Rightarrow> bool" where
  "went_well client qs s s1 \<longleftrightarrow>
     (\<exists>ms ds rs. length ms = length qs \<and> length ds = length qs \<and> length rs = length qs \<and>
        tq_asked s1 = tq_asked s @ zip qs ms \<and> tq_tools s1 = tq_tools s @ rs \<and>
        (\<forall>i < length qs. answered_with client (qs ! i, ms ! i) (ds ! i) \<and> tool_record (tool_name (qs ! i)) (ds ! i) = Ret (rs ! i)))"

lemma went_well_none [simp]: "went_well client [] s s"
  by (simp add: went_well_def)

lemma went_well_trans:
  assumes "went_well client qs s s1" "went_well client rs s1 s2" shows "went_well client (qs @ rs) s s2"
proof -
  from assms(1) obtain ms ds ts where a: "length ms = length qs" "length ds = length qs" "length ts = length qs" "tq_asked s1 = tq_asked s @ zip qs ms"
    "tq_tools s1 = tq_tools s @ ts" "\<forall>i < length qs. answered_with client (qs ! i, ms ! i) (ds ! i) \<and> tool_record (tool_name (qs ! i)) (ds ! i) = Ret (ts ! i)"
    unfolding went_well_def by blast
  from assms(2) obtain ms' ds' ts' where b: "length ms' = length rs" "length ds' = length rs" "length ts' = length rs" "tq_asked s2 = tq_asked s1 @ zip rs ms'"
    "tq_tools s2 = tq_tools s1 @ ts'" "\<forall>i < length rs. answered_with client (rs ! i, ms' ! i) (ds' ! i) \<and> tool_record (tool_name (rs ! i)) (ds' ! i) = Ret (ts' ! i)"
    unfolding went_well_def by blast
  show ?thesis unfolding went_well_def
    by (rule exI [of _ "ms @ ms'"], rule exI [of _ "ds @ ds'"], rule exI [of _ "ts @ ts'"]) (use a b in \<open>auto simp: nth_append\<close>)
qed

lemma went_well_call: "tool_call client q s = (Inr d, s1) \<Longrightarrow> went_well client [q] s s1"
  using tool_call_Inr [of client q s d s1] unfolding went_well_def
  by (fastforce intro: exI [of _ "[tq_server s]"] exI [of _ "[d]"])

lemma call_all_well: "call_all client qs s = (Inr u, s1) \<Longrightarrow> went_well client qs s s1 \<and> tq_looks s1 = tq_looks s"
proof (induction client qs s rule: call_all.induct)
  case (2 client q qs s)
  from "2.prems" obtain d s2 where d: "tool_call client q s = (Inr d, s2)" "call_all client qs s2 = (Inr u, s1)"
    by (auto split: prod.splits sum.splits)
  have "went_well client qs s2 s1 \<and> tq_looks s1 = tq_looks s2" using "2.IH" [of "Inr d" s2 d] d by (metis prod.collapse)
  with went_well_trans [OF went_well_call [OF d(1)]] tool_call_Inr(3) [OF d(1)] show ?case by simp
qed simp

lemma call_all_looks: "tq_looks (snd (call_all client qs s)) = tq_looks s"
proof (induction client qs s rule: call_all.induct)
  case (2 client q qs s)
  show ?case using tool_call_looks [of client q s] "2.IH" by (auto split: prod.splits sum.splits)
qed simp

lemma went_well_looks [simp]: "went_well client qs (s\<lparr>tq_looks := n\<rparr>) s1 = went_well client qs s s1"
  by (simp add: went_well_def)

lemma verdict_over: "status_verdict d = Inr over \<Longrightarrow> over \<longleftrightarrow> vget d ''adapter_state'' = VStr ''succeeded'' \<and> vget d ''state'' = VStr ''STOPPED''"
  by (auto simp: status_verdict_def split: if_splits sum.splits)

lemmas poll_status_induct = poll_status.raw_induct [rotated, consumes 1, case_names step]

text \<open>A wait that ends well ended with a status of success, each look before it in time.\<close>

definition waited_well :: "'m client \<Rightarrow> (nat \<Rightarrow> pyfloat) \<Rightarrow> pyfloat \<Rightarrow> pyfloat \<Rightarrow> 'm tool_run \<Rightarrow> 'm tool_run \<Rightarrow> nat \<Rightarrow> bool" where
  "waited_well client clock started limit s s1 n \<longleftrightarrow>
     went_well client (replicate (Suc n) TaskStatus) s s1 \<and> tq_looks s1 = tq_looks s + Suc n \<and>
     (\<forall>k \<le> n. \<not> flt limit (fsub (clock (tq_looks s + k)) started)) \<and>
     (\<exists>m d. last (tq_asked s1) = (TaskStatus, m) \<and> answered_with client (TaskStatus, m) d \<and> status_verdict d = Inr True)"

lemma poll_status_well:
  "poll_status client clock started limit s = Some (r, s1) \<Longrightarrow> r = Inr () \<Longrightarrow> \<exists>n. waited_well client clock started limit s s1 n"
proof (induction client clock started limit s "(r, s1)" arbitrary: rule: poll_status_induct)
  case (step poll client clock started limit s)
  let ?s = "s\<lparr>tq_looks := Suc (tq_looks s)\<rparr>"
  from step(2,3) have look: "\<not> flt limit (fsub (clock (tq_looks s)) started)" by (auto simp: Let_def split: if_splits)
  with step(2,3) obtain d s2 where d: "tool_call client TaskStatus ?s = (Inr d, s2)"
    and rest: "(case status_verdict d of Inl e \<Rightarrow> Some (Inl e, s2) | Inr over \<Rightarrow> if over then Some (Inr (), s2) else poll client clock started limit s2) = Some (r, s1)"
    by (auto simp: Let_def split: prod.splits sum.splits)
  have one: "went_well client [TaskStatus] s s2" "tq_looks s2 = Suc (tq_looks s)" using went_well_call [OF d] tool_call_Inr(3) [OF d] by simp_all
  from rest step(3) obtain over where over: "status_verdict d = Inr over" by (auto split: sum.splits)
  show ?case
  proof (cases over)
    case True
    with rest over have "s1 = s2" by simp
    moreover have "last (tq_asked s2) = (TaskStatus, tq_server ?s)" "answered_with client (TaskStatus, tq_server ?s) d" using tool_call_Inr(1,2) [OF d] by simp_all
    ultimately have "waited_well client clock started limit s s1 0" using one look True over by (auto simp: waited_well_def)
    then show ?thesis ..
  next
    case False
    with rest over have "poll client clock started limit s2 = Some (r, s1)" by simp
    from step(1) [OF this step(3)] obtain n where n: "waited_well client clock started limit s2 s1 n" by blast
    have "\<not> flt limit (fsub (clock (tq_looks s + k)) started)" if "k \<le> Suc n" for k
      using n look one(2) that by (cases k) (auto simp: waited_well_def)
    moreover have "went_well client (replicate (Suc (Suc n)) TaskStatus) s s1"
      using went_well_trans [OF one(1), of "replicate (Suc n) TaskStatus" s1] n by (simp add: waited_well_def)
    ultimately have "waited_well client clock started limit s s1 (Suc n)" using n one(2) by (simp add: waited_well_def)
    then show ?thesis ..
  qed
qed

section \<open>The end of a run\<close>

lemma poll_status_ends:
  assumes "tq_looks s \<le> n" "flt limit (fsub (clock n) started)"
  shows "\<exists>r. poll_status client clock started limit s = Some r"
  using assms(1)
proof (induction "n - tq_looks s" arbitrary: s)
  case 0
  then have "tq_looks s = n" by simp
  with assms(2) show ?case by (subst poll_status.simps) (simp add: Let_def)
next
  case (Suc k)
  let ?s = "s\<lparr>tq_looks := Suc (tq_looks s)\<rparr>"
  obtain r s2 where c: "tool_call client TaskStatus ?s = (r, s2)" by fastforce
  then have looks: "tq_looks s2 = Suc (tq_looks s)" using tool_call_looks [of client TaskStatus ?s] by simp
  have "\<exists>r. poll_status client clock started limit s2 = Some r" by (rule Suc.hyps(1)) (use Suc.hyps(2) looks in simp_all)
  with c show ?case by (subst poll_status.simps) (auto simp: Let_def split: sum.splits)
qed

text \<open>The case ends, whatever the server answers, if the clock passes the limit.\<close>
theorem sequence_ends:
  assumes "check_timing wall poll = Ret limit" "0 < n" "flt limit (fsub (clock n) (clock 0))"
  shows "\<exists>trace s. execute_tool_sequence client clock wall poll m = Some (Ret (trace, s))"
proof -
  let ?s = "\<lparr>tq_server = m, tq_asked = [], tq_tools = [], tq_looks = 1\<rparr>"
  obtain r s1 where c: "call_all client opening_calls ?s = (r, s1)" by fastforce
  then have "tq_looks s1 \<le> n" using call_all_looks [of client opening_calls ?s] assms(2) by simp
  then have "\<exists>r. poll_status client clock (clock 0) limit s1 = Some r" by (rule poll_status_ends) (rule assms(3))
  then have "\<exists>r s. sequence_body client clock (clock 0) limit ?s = Some (r, s)"
    using c by (auto simp: sequence_body_def split: sum.splits)
  then show ?thesis using assms(1) by (auto simp: execute_tool_sequence_def)
qed

section \<open>What a trace says\<close>

lemma trace_fields [simp]:
  "vget (trace_of tools error elapsed observation) ''result'' = VStr (if error = None then ''SUCCEEDED'' else ''FAILED'')"
  "vget (trace_of tools error elapsed observation) ''tools'' = VList (map VDict tools)"
  "vget (trace_of tools error elapsed observation) ''wall_elapsed_seconds'' = VFloat elapsed"
  "vget (trace_of tools error elapsed observation) ''error_code'' = opt_str error"
  "vget (trace_of tools error elapsed observation) ''observation'' = (case observation of None \<Rightarrow> VNone | Some d \<Rightarrow> VDict d)"
  by (auto simp: trace_of_def vget_def opt_str_def split: option.splits)

definition succeeded :: "pydict \<Rightarrow> bool" where "succeeded trace \<longleftrightarrow> vget trace ''result'' = VStr ''SUCCEEDED''"

lemma request_stop_well: "request_stop client s = (True, s1) \<Longrightarrow> went_well client [StopRuntime] s s1 \<and> tq_looks s1 = tq_looks s"
  by (auto simp: request_stop_def tool_call_Inr(3) intro: went_well_call split: prod.splits sum.splits sequence_stop.splits)

lemma observe_end_well: "observe_end client s = (Inr d, s1) \<Longrightarrow> went_well client [Observe ''odometry''] s s1 \<and> tq_looks s1 = tq_looks s"
  by (auto simp: observe_end_def tool_call_Inr(3) intro: went_well_call split: prod.splits sum.splits)

definition whole_case :: "nat \<Rightarrow> request list" where
  "whole_case n = opening_calls @ replicate (Suc n) TaskStatus @ [Observe ''odometry'', StopRuntime]"

lemma succeeded_run:
  assumes "execute_tool_sequence client clock wall poll m = Some (Ret (trace, s))" "succeeded trace"
  obtains limit n s1 s2 s3 d where "check_timing wall poll = Ret limit"
    "went_well client opening_calls \<lparr>tq_server = m, tq_asked = [], tq_tools = [], tq_looks = 1\<rparr> s1" "tq_looks s1 = 1"
    "waited_well client clock (clock 0) limit s1 s2 n" "observe_end client s2 = (Inr d, s3)" "request_stop client s3 = (True, s)"
    "trace = trace_of (tq_tools s) None (fsub (clock (tq_looks s)) (clock 0)) (Some d)"
    "is_fin (fsub (clock (tq_looks s)) (clock 0))" "\<not> flt (fsub (clock (tq_looks s)) (clock 0)) (Fin 0)"
proof -
  let ?s = "\<lparr>tq_server = m, tq_asked = [], tq_tools = [], tq_looks = 1\<rparr>"
  from assms(1) obtain limit r s3 where l: "check_timing wall poll = Ret limit" "sequence_body client clock (clock 0) limit ?s = Some (r, s3)"
    and f: "finish_trace client clock (clock 0) r s3 = (trace, s)"
    by (auto simp: execute_tool_sequence_def split: sum.splits option.splits)
  obtain stopped t where st: "request_stop client s3 = (stopped, t)" by fastforce
  from f st assms(2) have t: "t = s" "stopped" "error_of r = None" "is_fin (fsub (clock (tq_looks s)) (clock 0))" "\<not> flt (fsub (clock (tq_looks s)) (clock 0)) (Fin 0)"
    by (auto simp: finish_trace_def Let_def succeeded_def split: if_splits)
  then obtain d where d: "r = Inr d" by (auto simp: error_of_def split: sum.splits sequence_stop.splits)
  with l(2) obtain s1 s2 where "call_all client opening_calls ?s = (Inr (), s1)" "poll_status client clock (clock 0) limit s1 = Some (Inr (), s2)"
    and ob: "observe_end client s2 = (Inr d, s3)"
    unfolding sequence_body_def by (auto split: prod.splits sum.splits option.splits)
  then obtain n where w: "went_well client opening_calls ?s s1" "tq_looks s1 = 1" "waited_well client clock (clock 0) limit s1 s2 n"
    using call_all_well [of client opening_calls ?s] poll_status_well [of client clock "clock 0" limit s1] by fastforce
  have "trace = trace_of (tq_tools s) None (fsub (clock (tq_looks s)) (clock 0)) (Some d)"
    using f st t d by (simp add: finish_trace_def Let_def error_of_def)
  with that [OF l(1) w ob] st t show thesis by simp
qed

lemma succeeded_asked:
  assumes "execute_tool_sequence client clock wall poll m = Some (Ret (trace, s))" "succeeded trace"
  obtains n ms ds where "tq_asked s = zip (whole_case n) ms" "length ms = length (whole_case n)" "length ds = length (whole_case n)" "tq_looks s = n + 2"
    "\<forall>i < length (whole_case n). answered_with client (whole_case n ! i, ms ! i) (ds ! i) \<and> tool_record (tool_name (whole_case n ! i)) (ds ! i) = Ret (tq_tools s ! i)"
    "length (tq_tools s) = length (whole_case n)"
proof -
  from succeeded_run [OF assms] obtain limit n s1 s2 s3 d where
    r: "went_well client opening_calls \<lparr>tq_server = m, tq_asked = [], tq_tools = [], tq_looks = 1\<rparr> s1" "tq_looks s1 = 1"
    "waited_well client clock (clock 0) limit s1 s2 n" "observe_end client s2 = (Inr d, s3)" "request_stop client s3 = (True, s)" by metis
  from r(3) have polled: "went_well client (replicate (Suc n) TaskStatus) s1 s2" "tq_looks s2 = n + 2" using r(2) by (simp_all add: waited_well_def)
  have ended: "went_well client [Observe ''odometry''] s2 s3" "went_well client [StopRuntime] s3 s" "tq_looks s = n + 2"
    using observe_end_well [OF r(4)] request_stop_well [OF r(5)] polled(2) by simp_all
  have "went_well client (opening_calls @ (replicate (Suc n) TaskStatus @ ([Observe ''odometry''] @ [StopRuntime])))
      \<lparr>tq_server = m, tq_asked = [], tq_tools = [], tq_looks = 1\<rparr> s"
    by (rule went_well_trans [OF r(1) went_well_trans [OF polled(1) went_well_trans [OF ended(1,2)]]])
  then have "went_well client (whole_case n) \<lparr>tq_server = m, tq_asked = [], tq_tools = [], tq_looks = 1\<rparr> s" by (simp add: whole_case_def)
  then obtain ms ds rs where "length ms = length (whole_case n)" "length ds = length (whole_case n)" "length rs = length (whole_case n)"
    "tq_asked s = zip (whole_case n) ms" "tq_tools s = rs"
    "\<forall>i < length (whole_case n). answered_with client (whole_case n ! i, ms ! i) (ds ! i) \<and> tool_record (tool_name (whole_case n ! i)) (ds ! i) = Ret (rs ! i)"
    unfolding went_well_def by auto
  with that ended(3) show thesis by blast
qed

lemma answered_unique: "answered_with client qm d \<Longrightarrow> answered_with client qm d' \<Longrightarrow> d = d'"
  by (simp add: answered_with_def)

lemma project_number_Inr: "project_number v = Inr w \<Longrightarrow> \<exists>q. w = VFloat (Fin q)"
  by (auto simp: project_number_def is_fin_iff split: if_splits sum.splits)

lemma project_values_Inr:
  assumes "project_values v = Inr vs" shows "\<exists>x y yaw. vs = [(VStr ''x'', VFloat (Fin x)), (VStr ''y'', VFloat (Fin y)), (VStr ''yaw'', VFloat (Fin yaw))]"
proof -
  from assms obtain d where "v = VDict d" by (cases v) (auto simp: project_values_def)
  with assms obtain x y yaw where "project_number (vget d ''x'') = Inr x" "project_number (vget d ''y'') = Inr y" "project_number (vget d ''yaw'') = Inr yaw"
    "vs = [(VStr ''x'', x), (VStr ''y'', y), (VStr ''yaw'', yaw)]"
    by (auto simp: project_values_def split: if_splits sum.splits)
  then show ?thesis using project_number_Inr by blast
qed

lemma last_status:
  assumes "execute_tool_sequence client clock wall poll m = Some (Ret (trace, s))" "succeeded trace" "tq_asked s = zip (whole_case n) ms" "length ms = length (whole_case n)"
  shows "\<exists>d. answered_with client (TaskStatus, ms ! (n + 4)) d \<and> status_verdict d = Inr True"
proof -
  from succeeded_run [OF assms(1,2)] obtain limit k s1 s2 s3 d where
    r: "went_well client opening_calls \<lparr>tq_server = m, tq_asked = [], tq_tools = [], tq_looks = 1\<rparr> s1"
    "waited_well client clock (clock 0) limit s1 s2 k" "observe_end client s2 = (Inr d, s3)" "request_stop client s3 = (True, s)" by metis
  obtain m1 d1 where l: "last (tq_asked s2) = (TaskStatus, m1)" "answered_with client (TaskStatus, m1) d1" "status_verdict d1 = Inr True"
    using r(2) by (auto simp: waited_well_def)
  have "length (tq_asked s1) = 4" using r(1) by (auto simp: went_well_def opening_calls_def)
  moreover have "went_well client (replicate (Suc k) TaskStatus) s1 s2" using r(2) by (simp add: waited_well_def)
  ultimately have len: "length (tq_asked s2) = k + 5" by (auto simp: went_well_def)
  obtain a b where tail: "tq_asked s = tq_asked s2 @ [a, b]"
    using observe_end_well [OF r(3)] request_stop_well [OF r(4)] by (auto simp: went_well_def length_Suc_conv)
  have "length (tq_asked s) = n + 7" using assms(3,4) by (simp add: whole_case_def opening_calls_def)
  with tail len have "k = n" by simp
  moreover have "tq_asked s2 \<noteq> []" using len by auto
  ultimately have "tq_asked s ! (n + 4) = last (tq_asked s2)" using tail len by (simp add: nth_append last_conv_nth add.commute)
  moreover have "n + 4 < length (whole_case n)" by (simp add: whole_case_def opening_calls_def)
  ultimately have "ms ! (n + 4) = m1" using l(1) assms(3,4) by (simp add: nth_zip)
  with l show ?thesis by auto
qed

text \<open>A trace that says the case succeeded stands for exactly the reviewed calls, in their order and each answered with a document, the wait having ended
  with a status of success; it has a record of each answer, no error code, and a time that is not negative.\<close>
theorem succeeded_trace_is_truthful:
  assumes "execute_tool_sequence client clock wall poll m = Some (Ret (trace, s))" "succeeded trace"
  shows "\<exists>n ms ds rs. tq_asked s = zip (whole_case n) ms \<and> length ms = length (whole_case n) \<and> length rs = length (whole_case n) \<and>
    (\<forall>i < length (whole_case n). answered_with client (whole_case n ! i, ms ! i) (ds ! i) \<and> tool_record (tool_name (whole_case n ! i)) (ds ! i) = Ret (rs ! i)) \<and>
    vget (ds ! (n + 4)) ''adapter_state'' = VStr ''succeeded'' \<and> vget (ds ! (n + 4)) ''state'' = VStr ''STOPPED'' \<and>
    vget trace ''tools'' = VList (map VDict rs) \<and> vget trace ''error_code'' = VNone \<and>
    (\<exists>x y yaw. vget trace ''observation'' = VDict [(VStr ''source'', VStr ''odometry''),
       (VStr ''values'', VDict [(VStr ''x'', VFloat (Fin x)), (VStr ''y'', VFloat (Fin y)), (VStr ''yaw'', VFloat (Fin yaw))])]) \<and>
    (\<exists>t. vget trace ''wall_elapsed_seconds'' = VFloat (Fin t) \<and> 0 \<le> t)"
proof -
  from succeeded_asked [OF assms] obtain n ms ds where a: "tq_asked s = zip (whole_case n) ms" "length ms = length (whole_case n)"
    "\<forall>i < length (whole_case n). answered_with client (whole_case n ! i, ms ! i) (ds ! i) \<and> tool_record (tool_name (whole_case n ! i)) (ds ! i) = Ret (tq_tools s ! i)"
    "length (tq_tools s) = length (whole_case n)" by metis
  obtain d1 where d1: "answered_with client (TaskStatus, ms ! (n + 4)) d1" "status_verdict d1 = Inr True"
    using last_status [OF assms a(1,2)] by blast
  have "n + 4 < length (whole_case n)" "whole_case n ! (n + 4) = TaskStatus"
    by (simp_all add: whole_case_def opening_calls_def nth_append del: replicate.simps)
  with a(3) d1(1) have "ds ! (n + 4) = d1" by (metis answered_unique)
  then have over: "vget (ds ! (n + 4)) ''adapter_state'' = VStr ''succeeded''" "vget (ds ! (n + 4)) ''state'' = VStr ''STOPPED''"
    using verdict_over [OF d1(2)] by simp_all
  from succeeded_run [OF assms] obtain s2 s3 d where d: "observe_end client s2 = (Inr d, s3)"
    "trace = trace_of (tq_tools s) None (fsub (clock (tq_looks s)) (clock 0)) (Some d)"
    "is_fin (fsub (clock (tq_looks s)) (clock 0))" "\<not> flt (fsub (clock (tq_looks s)) (clock 0)) (Fin 0)" by metis
  from d(1) obtain vs where "d = [(VStr ''source'', VStr ''odometry''), (VStr ''values'', VDict vs)]" "\<exists>v. project_values v = Inr vs"
    by (auto simp: observe_end_def split: prod.splits sum.splits)
  moreover from this(2) have "\<exists>x y yaw. vs = [(VStr ''x'', VFloat (Fin x)), (VStr ''y'', VFloat (Fin y)), (VStr ''yaw'', VFloat (Fin yaw))]"
    using project_values_Inr by blast
  moreover have "\<exists>t. fsub (clock (tq_looks s)) (clock 0) = Fin t \<and> 0 \<le> t" using d(3,4) by (auto simp: is_fin_iff not_less)
  ultimately show ?thesis using a over d(2)
    by (intro exI [of _ n] exI [of _ ms] exI [of _ ds] exI [of _ "tq_tools s"]) (auto simp: opt_str_def)
qed

lemma tool_call_asks: "tq_asked (snd (tool_call client q s)) = tq_asked s @ [(q, tq_server s)]"
  by (auto simp: tool_call_def recorded_def Let_def split: prod.splits sum.splits)

lemma tool_record_start: "tool_record name d = Ret r \<Longrightarrow> vget r ''tool'' = VStr name \<and> vget r ''ok'' = VBool True"
  by (auto simp: tool_record_def vget_def)

lemma request_stop_asks:
  assumes "request_stop client s = (stopped, s1)"
  shows "tq_asked s1 = tq_asked s @ [(StopRuntime, tq_server s)]" "tq_tools s1 \<noteq> []" "vget (last (tq_tools s1)) ''tool'' = VStr ''stop_runtime''"
    "stopped \<Longrightarrow> vget (last (tq_tools s1)) ''ok'' = VBool True"
proof -
  obtain r s2 where c: "tool_call client StopRuntime s = (r, s2)" by fastforce
  with assms have tq: "tq_asked s1 = tq_asked s2" by (auto simp: request_stop_def recorded_def split: sum.splits sequence_stop.splits)
  then show "tq_asked s1 = tq_asked s @ [(StopRuntime, tq_server s)]" using tool_call_asks [of client StopRuntime s] c by simp
  have "tq_tools s1 \<noteq> [] \<and> vget (last (tq_tools s1)) ''tool'' = VStr ''stop_runtime'' \<and> (stopped \<longrightarrow> vget (last (tq_tools s1)) ''ok'' = VBool True)"
  proof (cases r)
    case (Inr d)
    with c assms tool_call_Inr(4) [of client StopRuntime s d s2] show ?thesis by (auto simp: request_stop_def dest: tool_record_start)
  next
    case (Inl e)
    with c assms show ?thesis
      by (cases e) (auto simp: request_stop_def tool_call_def recorded_def failed_record_def vget_def Let_def split: prod.splits sum.splits)
  qed
  then show "tq_tools s1 \<noteq> []" "vget (last (tq_tools s1)) ''tool'' = VStr ''stop_runtime''"
    "stopped \<Longrightarrow> vget (last (tq_tools s1)) ''ok'' = VBool True" by simp_all
qed

text \<open>Every error of the sequence has one of the public codes.\<close>

definition public_error :: "sequence_stop + 'a \<Rightarrow> bool" where
  "public_error r \<longleftrightarrow> (\<forall>code. r = Inl (ToolSequenceError code) \<longrightarrow> code \<in> set PUBLIC_CODES)"

lemma public_unsafe [simp]: "''UNSAFE_STATE'' \<in> set PUBLIC_CODES" "''CLEANUP_FAILED'' \<in> set PUBLIC_CODES" "''TIMEOUT'' \<in> set PUBLIC_CODES"
  by (simp_all add: PUBLIC_CODES_def)

lemma judge_public: "public_error (judge outcome)"
  by (cases outcome rule: judge.cases) (auto simp: public_error_def sequence_error_def split: if_splits pyval.splits bool.splits)

lemma tool_call_public: "public_error (fst (tool_call client q s))"
  using judge_public by (auto simp: tool_call_def public_error_def Let_def split: prod.splits sum.splits)

lemma public_cases: "public_error (Inr x)" "public_error (Inl OtherError)" "public_error (Inl e) = public_error (Inl e :: sequence_stop + unit)"
  by (auto simp: public_error_def)

lemma call_all_public: "public_error (fst (call_all client qs s))"
proof (induction client qs s rule: call_all.induct)
  case (2 client q qs s)
  show ?case using tool_call_public [of client q s] "2.IH" by (auto simp: public_error_def split: prod.splits sum.splits)
qed (simp add: public_cases)

lemma poll_status_public: "poll_status client clock started limit s = Some y \<Longrightarrow> public_error (fst y)"
proof (induction rule: poll_status_induct)
  case (step poll client clock started limit s y)
  let ?s = "s\<lparr>tq_looks := Suc (tq_looks s)\<rparr>"
  obtain r s2 where c: "tool_call client TaskStatus ?s = (r, s2)" by fastforce
  have "public_error r" using tool_call_public [of client TaskStatus ?s] c by simp
  moreover have "public_error (status_verdict d)" for d by (auto simp: status_verdict_def public_error_def split: if_splits sum.splits)
  ultimately show ?case using step c
    by (auto simp: Let_def public_error_def sequence_error_def split: if_splits sum.splits)
qed

lemma project_public: "public_error (project_values v)"
  by (auto simp: project_values_def project_number_def public_error_def split: pyval.splits if_splits sum.splits)

lemma observe_public: "public_error (fst (observe_end client s))"
  using tool_call_public [of client "Observe ''odometry''" s] project_public
  by (auto simp: observe_end_def public_error_def split: prod.splits sum.splits)

lemma body_public: "sequence_body client clock started limit s = Some (r, s1) \<Longrightarrow> public_error r"
proof -
  assume body: "sequence_body client clock started limit s = Some (r, s1)"
  obtain r1 s2 where c: "call_all client opening_calls s = (r1, s2)" by fastforce
  then have "public_error r1" using call_all_public [of client opening_calls s] by simp
  moreover have "public_error r2" if "poll_status client clock started limit s2 = Some (r2, s3)" for r2 s3 using poll_status_public [OF that] by simp
  moreover have "public_error (fst (observe_end client s3))" for s3 by (rule observe_public)
  ultimately show ?thesis using body c
    by (auto simp: sequence_body_def public_error_def split: sum.splits option.splits prod.splits) (metis fst_conv)+
qed

lemma succeeded_trace_of [simp]: "succeeded (trace_of tools error elapsed observation) \<longleftrightarrow> error = None"
  by (simp add: succeeded_def)

lemma finish_trace_error:
  assumes "finish_trace client clock started r s = (trace, s1)"
  obtains stopped error elapsed where "request_stop client s = (stopped, s1)"
    "trace = trace_of (tq_tools s1) error elapsed (case r of Inl _ \<Rightarrow> None | Inr d \<Rightarrow> Some d)"
    "error \<in> {Some ''UNSAFE_STATE'', Some ''CLEANUP_FAILED'', error_of r}" "error = None \<Longrightarrow> stopped"
proof -
  obtain stopped t where "request_stop client s = (stopped, t)" by fastforce
  with assms that show thesis by (auto simp: finish_trace_def Let_def split: if_splits)
qed

text \<open>C22: The cleanup is always asked for, last of all, and only a trace whose cleanup was answered says that the case succeeded; a failure has
  one of the ten public codes.\<close>
theorem stop_is_always_asked:
  assumes "execute_tool_sequence client clock wall poll m = Some (Ret (trace, s))"
  shows "(\<exists>before mstop. tq_asked s = before @ [(StopRuntime, mstop)]) \<and> tq_tools s \<noteq> [] \<and>
    vget (last (tq_tools s)) ''tool'' = VStr ''stop_runtime'' \<and> (succeeded trace \<longrightarrow> vget (last (tq_tools s)) ''ok'' = VBool True) \<and>
    (if succeeded trace then vget trace ''error_code'' = VNone else \<exists>code \<in> set PUBLIC_CODES. vget trace ''error_code'' = VStr code)"
proof -
  let ?s = "\<lparr>tq_server = m, tq_asked = [], tq_tools = [], tq_looks = 1\<rparr>"
  from assms obtain limit r s3 where l: "sequence_body client clock (clock 0) limit ?s = Some (r, s3)"
    and f: "finish_trace client clock (clock 0) r s3 = (trace, s)"
    by (auto simp: execute_tool_sequence_def split: sum.splits option.splits)
  from finish_trace_error [OF f] obtain stopped error elapsed where st: "request_stop client s3 = (stopped, s)"
    and trace: "trace = trace_of (tq_tools s) error elapsed (case r of Inl _ \<Rightarrow> None | Inr d \<Rightarrow> Some d)"
    and error: "error \<in> {Some ''UNSAFE_STATE'', Some ''CLEANUP_FAILED'', error_of r}" "error = None \<Longrightarrow> stopped" by blast
  have "public_error r" by (rule body_public [OF l])
  then have "error = None \<or> (\<exists>code \<in> set PUBLIC_CODES. error = Some code)"
    using error(1) by (auto simp: error_of_def public_error_def split: sum.splits sequence_stop.splits)
  then show ?thesis using request_stop_asks [OF st] error(2) by (auto simp: trace opt_str_def)
qed

section \<open>Against the server\<close>

text \<open>The transport answers with what the server answered; it may also fail.\<close>

definition server_answers :: "validator \<Rightarrow> ('m \<Rightarrow> unit result) \<Rightarrow> ('m \<Rightarrow> operations) \<Rightarrow> ('m \<Rightarrow> mcp_state) \<Rightarrow> 'm client \<Rightarrow> bool" where
  "server_answers validate controller ops kept client \<longleftrightarrow>
     (\<forall>q m v. fst (client q m) = Responds v \<longrightarrow>
        (\<exists>r. fst (serve validate (controller m) (ops m) q (kept m)) = Ret r \<and> v = VDict (tr_structured r)))"

lemma codes_agree: "set PUBLIC_CODES = set (map fst REMEDIATION)"
  by (auto simp: PUBLIC_CODES_def REMEDIATION_def)

text \<open>The error that the server answers with is the one the sequence reads back from the text of the exception.\<close>

lemma error_read_back:
  "judge (CallRaises (Decodes (VDict (tr_structured (mcp_error code))))) = Inl (ToolSequenceError (if code \<in> set PUBLIC_CODES then code else ''UNSAFE_STATE''))"
proof -
  have "dget REMEDIATION code = None \<longleftrightarrow> code \<notin> set PUBLIC_CODES" using codes_agree dget_None_iff [of REMEDIATION code] by (simp add: dkeys_def)
  then show ?thesis by (simp add: mcp_error_def Let_def error_code_of_def vget_def sequence_error_def)
qed

lemma invoke_succeeds:
  assumes "vget (tr_structured (mcp_invoke validate outcome schema)) ''ok'' = VBool True"
  shows "outcome = Ret (vget (tr_structured (mcp_invoke validate outcome schema)) ''data'')"
proof (cases "rbind outcome (\<lambda>data. mcp_success validate data schema None)")
  case (Inl e)
  then have "\<exists>code. mcp_invoke validate outcome schema = mcp_error code" by (cases e) (auto simp: mcp_invoke_def)
  with assms show ?thesis by auto
next
  case (Inr r)
  then obtain data where "outcome = Ret data" "mcp_success validate data schema None = Ret r" by auto
  moreover from this(2) have "vget (tr_structured r) ''data'' = data"
    by (auto simp: mcp_success_def validate_json_value_def Let_def vget_def split: if_splits)
  ultimately show ?thesis using Inr by (simp add: mcp_invoke_def)
qed

lemma judge_answer: "judge (Responds (VDict d)) = Inr data \<longleftrightarrow> vget d ''ok'' = VBool True \<and> vget d ''data'' = VDict data"
  by (auto split: pyval.splits bool.splits)

lemma answered_operation:
  assumes "server_answers validate controller ops kept client" "answered_with client (q, m) d"
  shows "\<exists>r. fst (serve validate (controller m) (ops m) q (kept m)) = Ret r \<and> vget (tr_structured r) ''ok'' = VBool True \<and> vget (tr_structured r) ''data'' = VDict d"
proof (cases "fst (client q m)")
  case (CallRaises decoded)
  with assms(2) show ?thesis by (cases decoded) (auto simp: answered_with_def sequence_error_def split: if_splits)
next
  case (Responds v)
  with assms(1) obtain r where r: "fst (serve validate (controller m) (ops m) q (kept m)) = Ret r" "v = VDict (tr_structured r)"
    unfolding server_answers_def by blast
  with assms(2) Responds have "judge (Responds (VDict (tr_structured r))) = Inr d" by (simp add: answered_with_def)
  with r show ?thesis unfolding judge_answer by blast
qed

text \<open>Of the server's tools: a document that came back is what the operation of the controller returned.\<close>

lemma operation_returned:
  assumes "server_answers validate controller ops kept client" "answered_with client (q, m) d"
    "fst (serve validate (controller m) (ops m) q (kept m)) = Ret (mcp_invoke validate outcome (RESPONSE_SCHEMA q)) \<or>
     fst (serve validate (controller m) (ops m) q (kept m)) = rbind (controller m) (\<lambda>_. Ret (mcp_invoke validate outcome (RESPONSE_SCHEMA q)))"
  shows "outcome = Ret (VDict d)"
  using answered_operation [OF assms(1,2)] assms(3) invoke_succeeds by fastforce

text \<open>C21: When the trace of a run against the server says that the case succeeded, the controller itself returned: it armed the robot, ran the task, reported
  the stopped success in the end, and was shut down, in this order and in the states in which it was asked.\<close>
theorem succeeded_case_was_run:
  assumes "server_answers validate controller ops kept client"
    "execute_tool_sequence client clock wall poll m = Some (Ret (trace, s))" "succeeded trace"
  shows "\<exists>n ms. tq_asked s = zip (whole_case n) ms \<and> length ms = length (whole_case n) \<and>
    (\<exists>d. op_arm (ops (ms ! 2)) ''hospital-amr'' ''hospital_delivery_reviewed'' False = Ret (VDict d)) \<and>
    (\<exists>d. op_run (ops (ms ! 3)) ''hospital-delivery'' False = Ret (VDict d)) \<and>
    (\<exists>d. op_status (ops (ms ! (n + 4))) = Ret (VDict d) \<and> vget d ''state'' = VStr ''STOPPED'' \<and> vget d ''adapter_state'' = VStr ''succeeded'') \<and>
    (\<exists>d. op_stop (ops (ms ! (n + 6))) = Ret (VDict d))"
proof -
  from succeeded_asked [OF assms(2,3)] obtain n ms ds where a: "tq_asked s = zip (whole_case n) ms" "length ms = length (whole_case n)"
    "\<forall>i < length (whole_case n). answered_with client (whole_case n ! i, ms ! i) (ds ! i) \<and> tool_record (tool_name (whole_case n ! i)) (ds ! i) = Ret (tq_tools s ! i)"
    by metis
  have q: "whole_case n ! 2 = ArmRobot ''hospital-amr'' ''hospital_delivery_reviewed'' False" "whole_case n ! 3 = RunTask ''hospital-delivery'' False"
    "whole_case n ! (n + 6) = StopRuntime" "length (whole_case n) = n + 7"
    by (simp_all add: whole_case_def opening_calls_def nth_append del: replicate.simps)
  have came: "answered_with client (whole_case n ! i, ms ! i) (ds ! i)" if "i < n + 7" for i using a(3) q(4) that by simp
  have "rbind (controller (ms ! 2)) (\<lambda>_. op_arm (ops (ms ! 2)) ''hospital-amr'' ''hospital_delivery_reviewed'' False) = Ret (VDict (ds ! 2))"
    by (rule operation_returned [OF assms(1) came [of 2, unfolded q(1)]]) simp_all
  moreover have "rbind (controller (ms ! 3)) (\<lambda>_. op_run (ops (ms ! 3)) ''hospital-delivery'' False) = Ret (VDict (ds ! 3))"
    by (rule operation_returned [OF assms(1) came [of 3, unfolded q(2)]]) simp_all
  moreover have "op_stop (ops (ms ! (n + 6))) = Ret (VDict (ds ! (n + 6)))"
    by (rule operation_returned [OF assms(1) came [of "n + 6", unfolded q(3)]]) simp_all
  moreover obtain d where d: "answered_with client (TaskStatus, ms ! (n + 4)) d" "status_verdict d = Inr True" using last_status [OF assms(2,3) a(1,2)] by blast
  moreover have "op_status (ops (ms ! (n + 4))) = Ret (VDict d)" by (rule operation_returned [OF assms(1) d(1)]) simp
  ultimately show ?thesis using a(1,2) verdict_over [OF d(2)] by (intro exI [of _ n] exI [of _ ms]) auto
qed

section \<open>The environment of the server\<close>

definition ROS_ENVIRONMENT_KEYS :: "string list" where
  "ROS_ENVIRONMENT_KEYS = [''AMENT_PREFIX_PATH'', ''CMAKE_PREFIX_PATH'', ''COLCON_PREFIX_PATH'', ''LD_LIBRARY_PATH'', ''PATH'', ''PYTHONPATH'',
     ''RMW_IMPLEMENTATION'', ''ROS_DISTRO'', ''ROS_DOMAIN_ID'', ''ROS_PYTHON_VERSION'', ''ROS_VERSION'']"

definition forward_key :: "(string \<times> string) list \<Rightarrow> string \<Rightarrow> (string \<times> string) list \<Rightarrow> (string \<times> string) list" where
  "forward_key environ k d = (case dget environ k of None \<Rightarrow> d | Some v \<Rightarrow> if v \<noteq> [] then dset k v d else d)"

definition server_environment :: "(string \<times> string) list \<Rightarrow> (string \<times> string) list" where
  "server_environment environ = fold (forward_key environ) ROS_ENVIRONMENT_KEYS [(''PYTHONUNBUFFERED'', ''1''), (''PYTHONNOUSERSITE'', ''1'')]"

lemma forwarded:
  "dget (fold (forward_key environ) ks d) k = (if k \<in> set ks \<and> dget environ k \<notin> {None, Some []} then dget environ k else dget d k)"
  by (induction ks arbitrary: d) (auto simp: forward_key_def split: option.splits)

text \<open>The server gets the two switches of its interpreter and, of the environment, exactly the non-empty values of the fixed keys.\<close>
theorem server_environment_exact:
  "dget (server_environment environ) k =
    (if k \<in> set ROS_ENVIRONMENT_KEYS \<and> dget environ k \<noteq> Some [] then dget environ k
     else if k \<in> {''PYTHONUNBUFFERED'', ''PYTHONNOUSERSITE''} then Some ''1'' else None)"
  unfolding server_environment_def forwarded by (auto simp: ROS_ENVIRONMENT_KEYS_def)

section \<open>Writing the trace\<close>

text \<open>\<open>to_write\<close>: how much reached the file and what was raised, when not all of it did.\<close>

record trace_os =
  to_mkdir :: bool
  to_create :: "(string \<times> int \<times> int) option"
  to_chmod :: bool
  to_write :: "(nat \<times> py_exn) option"
  to_mtime :: int
  to_close :: bool
  to_replace :: bool
  to_chmod_after :: bool
  to_unlink :: bool

definition stream_outcome :: "trace_os \<Rightarrow> string \<Rightarrow> py_exn option \<times> string" where
  "stream_outcome os encoded =
     (if \<not> to_chmod os then (Some PyOSError, [])
      else case to_write os of
        Some (k, e) \<Rightarrow> (Some e, take k encoded)
      | None \<Rightarrow> (if to_close os then None else Some PyOSError, encoded))"

definition discard :: "trace_os \<Rightarrow> string \<Rightarrow> py_exn \<Rightarrow> unit fs_step" where
  "discard os temporary e s =
     (if dget (fs_dir s) temporary = None then (Raise e, s)
      else if to_unlink os then (Raise e, s\<lparr>fs_dir := dir_remove temporary (fs_dir s)\<rparr>) else (Raise PyOSError, s))"

definition trace_temporary :: "string \<Rightarrow> string \<Rightarrow> string" where
  "trace_temporary destination token = ''.'' @ destination @ ''.'' @ token"

lemma trace_temporary_apart [simp]: "trace_temporary destination token \<noteq> destination" "destination \<noteq> trace_temporary destination token"
proof -
  have "length (trace_temporary destination token) \<noteq> length destination" by (simp add: trace_temporary_def)
  then show "trace_temporary destination token \<noteq> destination" "destination \<noteq> trace_temporary destination token" by metis+
qed

definition write_trace_atomic :: "(pyval \<Rightarrow> string result) \<Rightarrow> trace_os \<Rightarrow> string \<Rightarrow> pydict \<Rightarrow> unit fs_step" where
  "write_trace_atomic dumps os destination trace s =
     (if \<not> to_mkdir os then (Raise PyOSError, s)
      else case dumps (VDict trace) of
        Inl e \<Rightarrow> (Raise e, s)
      | Inr t \<Rightarrow> (case to_create os of
          None \<Rightarrow> (Raise PyOSError, s)
        | Some (token, device, inode) \<Rightarrow>
            let temporary = trace_temporary destination token in
            if dget (fs_dir s) temporary \<noteq> None then (Raise PyOSError, s)
            else (case stream_outcome os (t @ [CHR 0x0A]) of (failure, content) \<Rightarrow>
              let node = \<lparr>nd_regular = True, nd_device = device, nd_inode = inode, nd_mtime = to_mtime os, nd_content = content\<rparr>;
                  s1 = s\<lparr>fs_dir := dset temporary node (fs_dir s)\<rparr>
              in case failure of
                   Some e \<Rightarrow> discard os temporary e s1
                 | None \<Rightarrow>
                     if \<not> to_replace os then discard os temporary PyOSError s1
                     else let s2 = s1\<lparr>fs_dir := dir_rename temporary destination (fs_dir s1)\<rparr> in
                       if \<not> to_chmod_after os then discard os temporary PyOSError s2 else (Ret (), s2))))"

text \<open>The trace of a run that raised, and the exit of the script.\<close>

definition failed_trace :: pydict where
  "failed_trace =
     [(VStr ''schema_version'', VInt 1), (VStr ''case'', VStr ''hospital_delivery''), (VStr ''control_plane'', VStr ''production_fastmcp_stdio''),
      (VStr ''authority'', VStr ''repository_profiles_only''), (VStr ''tools'', VList []), (VStr ''result'', VStr ''FAILED''),
      (VStr ''error_code'', VStr ''UNSAFE_STATE''), (VStr ''wall_elapsed_seconds'', VFloat (Fin 0)),
      (VStr ''independent_acceptance_reference'', acceptance_reference)]"

definition run_via_mcp :: "(pyval \<Rightarrow> string result) \<Rightarrow> trace_os \<Rightarrow> string \<Rightarrow> pydict result \<Rightarrow> int fs_step" where
  "run_via_mcp dumps os path outcome =
     (let trace = (case outcome of Inl _ \<Rightarrow> failed_trace | Inr t \<Rightarrow> t) in
      fs_bind (write_trace_atomic dumps os path trace) (\<lambda>_. fs_ret (if succeeded trace then 0 else 1)))"

lemma dget_rename: "dget dir src = Some n \<Longrightarrow> src \<noteq> dst \<Longrightarrow> dget (dir_rename src dst dir) k = (if k = dst then Some n else if k = src then None else dget dir k)"
  by (simp add: dir_rename_def dget_remove)

lemma write_trace_others:
  assumes "write_trace_atomic dumps os destination trace s = (r, s1)" "k \<noteq> destination" "\<And>token. k \<noteq> trace_temporary destination token"
  shows "dget (fs_dir s1) k = dget (fs_dir s) k"
  using assms by (auto simp: write_trace_atomic_def discard_def Let_def dget_remove dget_rename split: if_splits sum.splits option.splits prod.splits)

lemma write_trace_destination:
  assumes "write_trace_atomic dumps os destination trace s = (r, s1)"
  shows "dget (fs_dir s1) destination = dget (fs_dir s) destination \<and> \<not> is_ret r \<or>
    (\<exists>t. dumps (VDict trace) = Ret t \<and> file_with (t @ [CHR 0x0A]) (dget (fs_dir s1) destination))"
  using assms
  by (auto simp: write_trace_atomic_def discard_def stream_outcome_def Let_def dget_remove dget_rename file_with_def split: if_splits sum.splits option.splits prod.splits)

text \<open>The script exits with success only when its directory holds, whole, a trace that says the case succeeded; and whatever happens, the trace's
  file is the one of before or the one of this run, and no other file is touched but the temporary one.\<close>
theorem exit_zero_is_success:
  assumes "run_via_mcp dumps os path outcome s = (r, s1)"
  shows "(r = Ret 0 \<longrightarrow> (\<exists>trace t. outcome = Ret trace \<and> succeeded trace \<and> dumps (VDict trace) = Ret t \<and> file_with (t @ [CHR 0x0A]) (dget (fs_dir s1) path))) \<and>
    (dget (fs_dir s1) path = dget (fs_dir s) path \<or> (\<exists>trace t. dumps (VDict trace) = Ret t \<and> file_with (t @ [CHR 0x0A]) (dget (fs_dir s1) path))) \<and>
    (\<forall>k. k \<noteq> path \<and> (\<forall>token. k \<noteq> trace_temporary path token) \<longrightarrow> dget (fs_dir s1) k = dget (fs_dir s) k)"
proof -
  define trace where "trace = (case outcome of Inl _ \<Rightarrow> failed_trace | Inr t \<Rightarrow> t)"
  obtain u s2 where w: "write_trace_atomic dumps os path trace s = (u, s2)" by fastforce
  with assms have s: "s1 = s2" "r = rbind u (\<lambda>_. Ret (if succeeded trace then 0 else 1))"
    by (auto simp: run_via_mcp_def fs_bind_def fs_ret_def simp flip: trace_def split: sum.splits)
  have "\<not> succeeded failed_trace" by (simp add: succeeded_def failed_trace_def vget_def)
  then have "\<exists>t. outcome = Ret t \<and> trace = t" if "succeeded trace" using that by (auto simp: trace_def split: sum.splits)
  then show ?thesis using write_trace_destination [OF w] write_trace_others [OF w] s
    by (auto simp: is_ret_iff split: if_splits)
qed

text \<open>A trace that cannot be encoded leaves the one of an earlier run where it is.\<close>

theorem stale_trace_stays:
  assumes "dumps (VDict trace) = Raise e" "to_mkdir os"
  shows "run_via_mcp dumps os path (Ret trace) s = (Raise e, s)"
  using assms by (simp add: run_via_mcp_def write_trace_atomic_def fs_bind_def)

section \<open>A run\<close>

definition demo_document :: "request \<Rightarrow> pydict" where
  "demo_document q =
     (case q of
        DiscoverRobot _ \<Rightarrow> [(VStr ''profile'', VStr ''hospital-amr''), (VStr ''state'', VStr ''DISCOVERED''), (VStr ''capabilities'', VList []),
          (VStr ''hardware_safety_channel'', VStr ''simulation_only'')]
      | ValidateProfile _ \<Rightarrow> [(VStr ''profile'', VStr ''hospital-amr''), (VStr ''state'', VStr ''VALIDATED''), (VStr ''hardware_safety_channel'', VStr ''simulation_only'')]
      | ArmRobot _ _ _ \<Rightarrow> [(VStr ''profile'', VStr ''hospital-amr''), (VStr ''state'', VStr ''ARMED'')]
      | RunTask _ _ \<Rightarrow> [(VStr ''task'', VStr ''hospital-delivery''), (VStr ''state'', VStr ''RUNNING'')]
      | TaskStatus \<Rightarrow> [(VStr ''state'', VStr ''STOPPED''), (VStr ''task'', VStr ''hospital-delivery''), (VStr ''hardware_safety_channel'', VStr ''simulation_only''),
          (VStr ''adapter_state'', VStr ''succeeded''), (VStr ''elapsed'', VFloat (Fin 1))]
      | Observe _ \<Rightarrow> [(VStr ''source'', VStr ''odometry''), (VStr ''timestamp'', VFloat (Fin 1)),
          (VStr ''values'', VDict [(VStr ''x'', VFloat (Fin 2)), (VStr ''y'', VInt 3), (VStr ''yaw'', VFloat (Fin 0))])]
      | _ \<Rightarrow> [(VStr ''state'', VStr ''STOPPED'')])"

definition demo_operations :: operations where
  "demo_operations = \<lparr>op_discover = \<lambda>h. Ret (VDict (demo_document (DiscoverRobot h))), op_validate = \<lambda>n. Ret (VDict (demo_document (ValidateProfile n))), op_state = STOPPED,
     op_arm = \<lambda>n c d. Ret (VDict (demo_document (ArmRobot n c d))), op_run = \<lambda>n d. Ret (VDict (demo_document (RunTask n d))),
     op_status = Ret (VDict (demo_document TaskStatus)), op_cancel = Raise PyRuntimeError, op_estop = Raise PyRuntimeError,
     op_observe = \<lambda>s. Ret (Observed \<lparr>ob_source = s, ob_timestamp = VFloat (Fin 1), ob_values = [(VStr ''x'', VFloat (Fin 2)), (VStr ''y'', VInt 3), (VStr ''yaw'', VFloat (Fin 0))]\<rparr>),
     op_evidence = \<lambda>_. fs_raise EvidenceError, op_read = \<lambda>_ _. fs_raise EvidenceError, op_picture = \<lambda>_. Raise PyOSError,
     op_stop = Ret (VDict (demo_document StopRuntime))\<rparr>"

definition demo_held :: mcp_state where "demo_held = \<lparr>mc_capabilities = [], mc_files = demo_fs\<rparr>"

definition demo_client :: "unit client" where
  "demo_client q m =
     ((case fst (serve demo_validator (Ret ()) demo_operations q demo_held) of
         Inr r \<Rightarrow> if tr_is_error r then CallRaises (Decodes (VDict (tr_structured r))) else Responds (VDict (tr_structured r))
       | Inl _ \<Rightarrow> CallRaises NotJson), m)"

lemma demo_client_answers: "server_answers demo_validator (\<lambda>_. Ret ()) (\<lambda>_. demo_operations) (\<lambda>_. demo_held) demo_client"
  by (auto simp: server_answers_def demo_client_def split: sum.splits if_splits)

lemma demo_fits: "q \<in> set (whole_case 0) \<Longrightarrow> fits q (demo_document q)"
  by (auto simp: whole_case_def opening_calls_def demo_document_def fits_def MCP_STATE_def CHANNEL_SCHEMA_def not_below_def)

lemma demo_answer:
  assumes "q \<in> set (whole_case 0)"
  shows "judge (fst (demo_client q m)) = Inr (demo_document q)"
proof -
  have "fst (serve demo_validator (Ret ()) demo_operations q demo_held) = Ret (mcp_invoke demo_validator (Ret (VDict (demo_document q))) (RESPONSE_SCHEMA q))"
    using assms by (auto simp: whole_case_def opening_calls_def demo_operations_def demo_document_def discovered_capabilities_def observation_data_def Let_def)
  then show ?thesis using fits_answered [OF demo_validator_follows demo_fits [OF assms]] by (simp add: demo_client_def vget_def)
qed

definition demo_record :: "request \<Rightarrow> pydict" where
  "demo_record q = (case tool_record (tool_name q) (demo_document q) of Inl _ \<Rightarrow> [] | Inr r \<Rightarrow> r)"

lemma demo_call [simp]:
  assumes "q \<in> set (whole_case 0)"
  shows "tool_call demo_client q s = (Inr (demo_document q), recorded (demo_record q) (s\<lparr>tq_server := (), tq_asked := tq_asked s @ [(q, ())]\<rparr>))"
proof -
  have "is_ret (tool_record (tool_name q) (demo_document q))"
    using assms by (auto simp: whole_case_def opening_calls_def demo_document_def tool_record_def number_entry_def py_isfinite_def vget_def)
  then have "tool_record (tool_name q) (demo_document q) = Ret (demo_record q)" by (auto simp: is_ret_iff demo_record_def)
  moreover have "snd (demo_client q (tq_server s)) = ()" by simp
  ultimately show ?thesis using demo_answer [OF assms] by (cases "demo_client q (tq_server s)") (simp add: tool_call_def)
qed

lemma demo_asked [simp]:
  "DiscoverRobot (Some ''hospital-amr'') \<in> set (whole_case 0)" "ValidateProfile ''hospital-amr'' \<in> set (whole_case 0)"
  "ArmRobot ''hospital-amr'' ''hospital_delivery_reviewed'' False \<in> set (whole_case 0)" "RunTask ''hospital-delivery'' False \<in> set (whole_case 0)"
  "TaskStatus \<in> set (whole_case 0)" "Observe ''odometry'' \<in> set (whole_case 0)" "StopRuntime \<in> set (whole_case 0)"
  by (simp_all add: whole_case_def opening_calls_def)

definition demo_clock :: "nat \<Rightarrow> pyfloat" where "demo_clock n = (if n \<le> 3 then Fin 0 else Fin 601)"

definition demo_start :: "unit tool_run" where "demo_start = \<lparr>tq_server = (), tq_asked = [], tq_tools = [], tq_looks = 1\<rparr>"

lemma demo_timing: "check_timing (VInt 600) (VFloat (Fin (1 / 2))) = Ret (Fin 600)"
  by (simp add: check_timing_def WALL_TIMEOUT_def float_of_int_small guard_def)

lemma demo_execution:
  obtains trace s where "execute_tool_sequence demo_client demo_clock (VInt 600) (VFloat (Fin (1 / 2))) () = Some (Ret (trace, s))" "succeeded trace"
proof -
  have clock: "fsub (demo_clock n) (demo_clock 0) = Fin 0" if "n \<le> 3" for n using that by (simp add: demo_clock_def fsub_def)
  obtain s1 where opened: "call_all demo_client opening_calls demo_start = (Inr (), s1)" "tq_looks s1 = 1"
    by (simp add: opening_calls_def demo_start_def recorded_def)
  have over: "status_verdict (demo_document TaskStatus) = Inr True" by (simp add: status_verdict_def demo_document_def vget_def)
  obtain s2 where polled: "poll_status demo_client demo_clock (demo_clock 0) (Fin 600) s1 = Some (Inr (), s2)" "tq_looks s2 = 2"
    by (subst (asm) poll_status.simps) (simp add: Let_def opened(2) clock over recorded_def)
  have "\<exists>vs. project_values (vget (demo_document (Observe ''odometry'')) ''values'') = Inr vs"
    by (simp add: demo_document_def vget_def project_values_def project_number_def keys_are_def dkeys_def float_of_int_small)
  then obtain d s3 where observed: "observe_end demo_client s2 = (Inr d, s3)" "tq_looks s3 = 2"
    using polled(2) by (auto simp: observe_end_def recorded_def)
  have body: "sequence_body demo_client demo_clock (demo_clock 0) (Fin 600) demo_start = Some (Inr d, s3)"
    by (simp add: sequence_body_def opened polled observed)
  obtain trace s where "finish_trace demo_client demo_clock (demo_clock 0) (Inr d) s3 = (trace, s)" "succeeded trace"
    using clock [of 2] observed(2) by (simp add: finish_trace_def request_stop_def recorded_def error_of_def)
  with that body demo_timing show thesis by (simp add: execute_tool_sequence_def demo_start_def)
qed

theorem sequence_ends_witness:
  "\<exists>trace s. execute_tool_sequence demo_client demo_clock (VInt 600) (VFloat (Fin (1 / 2))) () = Some (Ret (trace, s))"
  by (rule sequence_ends [OF demo_timing, of 4]) (simp_all add: demo_clock_def fsub_def mk_float_int)

theorem succeeded_trace_is_truthful_witness:
  "\<exists>trace s. execute_tool_sequence demo_client demo_clock (VInt 600) (VFloat (Fin (1 / 2))) () = Some (Ret (trace, s)) \<and> vget trace ''error_code'' = VNone"
proof -
  obtain trace s where e: "execute_tool_sequence demo_client demo_clock (VInt 600) (VFloat (Fin (1 / 2))) () = Some (Ret (trace, s))" "succeeded trace"
    by (rule demo_execution)
  from succeeded_trace_is_truthful [OF e] e(1) show ?thesis by blast
qed

theorem stop_is_always_asked_witness:
  "\<exists>trace s. execute_tool_sequence demo_client demo_clock (VInt 600) (VFloat (Fin (1 / 2))) () = Some (Ret (trace, s)) \<and> fst (last (tq_asked s)) = StopRuntime"
proof -
  obtain trace s where e: "execute_tool_sequence demo_client demo_clock (VInt 600) (VFloat (Fin (1 / 2))) () = Some (Ret (trace, s))" "succeeded trace"
    by (rule demo_execution)
  from stop_is_always_asked [OF e(1)] e(1) show ?thesis by fastforce
qed

theorem succeeded_case_was_run_witness:
  "\<exists>d. op_status demo_operations = Ret (VDict d) \<and> vget d ''state'' = VStr ''STOPPED''"
proof -
  obtain trace s where e: "execute_tool_sequence demo_client demo_clock (VInt 600) (VFloat (Fin (1 / 2))) () = Some (Ret (trace, s))" "succeeded trace"
    by (rule demo_execution)
  from succeeded_case_was_run [OF demo_client_answers e] show ?thesis by blast
qed

definition demo_trace_os :: trace_os where
  "demo_trace_os = \<lparr>to_mkdir = True, to_create = Some (''x'', 1, 7), to_chmod = True, to_write = None, to_mtime = 5, to_close = True, to_replace = True,
     to_chmod_after = True, to_unlink = True\<rparr>"

theorem exit_zero_is_success_witness:
  "\<exists>s1. run_via_mcp demo_dumps demo_trace_os ''trace.json'' (Raise PyRuntimeError) demo_fs = (Ret 1, s1) \<and> dget (fs_dir s1) ''a.json'' = dget (fs_dir demo_fs) ''a.json''"
proof -
  obtain r s1 where r: "run_via_mcp demo_dumps demo_trace_os ''trace.json'' (Raise PyRuntimeError) demo_fs = (r, s1)" by fastforce
  then have "r = Ret 1"
    by (auto simp: run_via_mcp_def write_trace_atomic_def demo_trace_os_def demo_dumps_def demo_fs_def fs_bind_def fs_ret_def stream_outcome_def trace_temporary_def Let_def
        failed_trace_def succeeded_def vget_def)
  moreover have "''a.json'' \<noteq> trace_temporary ''trace.json'' token" for token by (simp add: trace_temporary_def)
  ultimately show ?thesis using exit_zero_is_success [OF r] r by simp
qed

end
