(* ===== verification/Processes.thy ===== *)
theory Processes
  imports PyText PyValue
begin

text \<open>
  The processes that the demonstration's scripts manage: the first part of \<^verbatim>\<open>scripts/codex_project.py\<close>, on what \<^verbatim>\<open>/proc\<close> says of a process,
  its identity, and the two ways of ending it. Other processes come and go while these functions run: what a look at the system sees is
  given moment by moment, and each look takes one. The waits are bounded by the clock only, and are partial functions whose end is a
  theorem. \<open>pr_sent\<close> is a history variable: the signals that were sent.
\<close>

section \<open>What the system says of a process\<close>

text \<open>\<open>Ret None\<close> stands for the three errors that mean there is no such process to look at: \<^verbatim>\<open>FileNotFoundError\<close>,
  \<^verbatim>\<open>ProcessLookupError\<close>, \<^verbatim>\<open>PermissionError\<close>.\<close>

type_synonym 'a seen = "'a option result"

definition seen_bind :: "'a seen \<Rightarrow> ('a \<Rightarrow> 'b seen) \<Rightarrow> 'b seen" where
  "seen_bind m f = (case m of Inl e \<Rightarrow> Raise e | Inr None \<Rightarrow> Ret None | Inr (Some x) \<Rightarrow> f x)"

record proc_view =
  pv_stat :: "string seen"
  pv_cmdline :: "string seen"
  pv_pgid :: "int seen"
  pv_cwd :: string

text \<open>What follows the last closing parenthesis of \<^verbatim>\<open>stat\<close> and the space after it, in words.\<close>

definition stat_fields :: "string \<Rightarrow> string list" where
  "stat_fields stat = py_words (drop 1 (rev (takeWhile (\<lambda>c. c \<noteq> CHR '')'') (rev stat))))"

definition field_at :: "nat \<Rightarrow> string list \<Rightarrow> int result" where
  "field_at i parts =
     (if i < length parts then (case int_of_text (parts ! i) of None \<Rightarrow> Raise PyValueError | Some n \<Rightarrow> Ret n) else Raise PyIndexError)"

definition proc_identity :: "proc_view \<Rightarrow> (int \<times> string list \<times> int) seen" where
  "proc_identity view =
     seen_bind (pv_stat view) (\<lambda>stat.
     rbind (field_at 19 (stat_fields stat)) (\<lambda>start.
     seen_bind (pv_cmdline view) (\<lambda>raw.
     seen_bind (pv_pgid view) (\<lambda>pgid.
       Ret (Some (start, filter (\<lambda>part. part \<noteq> []) (split_char (CHR 0x00) raw), pgid))))))"

definition record_process :: "proc_view \<Rightarrow> int \<Rightarrow> string \<Rightarrow> pydict seen" where
  "record_process view pid name =
     seen_bind (proc_identity view) (\<lambda>(start, cmdline, pgid).
       Ret (Some [(VStr ''name'', VStr name), (VStr ''pid'', VInt pid), (VStr ''start_time_ticks'', VInt start), (VStr ''cmdline'', VList (map VStr cmdline)),
         (VStr ''cwd'', VStr (pv_cwd view)), (VStr ''pgid'', VInt pgid), (VStr ''owns_process_group'', VBool (pgid = pid))]))"

section \<open>Records\<close>

definition int_entry :: "pydict \<Rightarrow> string \<Rightarrow> int \<Rightarrow> int result" where
  "int_entry d k otherwise = (case dget d (VStr k) of None \<Rightarrow> Ret otherwise | Some v \<Rightarrow> py_int v)"

definition list_entry :: "pydict \<Rightarrow> string \<Rightarrow> pyval list result" where
  "list_entry d k =
     (case dget d (VStr k) of
        None \<Rightarrow> Ret []
      | Some v \<Rightarrow> (case v of VList vs \<Rightarrow> Ret vs | VStr s \<Rightarrow> Ret (map (\<lambda>c. VStr [c]) s) | VDict e \<Rightarrow> Ret (dkeys e) | _ \<Rightarrow> Raise PyTypeError))"

fun py_and :: "bool result list \<Rightarrow> bool result" where
  "py_and [] = Ret True"
| "py_and (r # rs) = rbind r (\<lambda>b. if b then py_and rs else Ret False)"

definition same_identity :: "proc_view \<Rightarrow> pydict \<Rightarrow> int \<times> string list \<times> int \<Rightarrow> bool result" where
  "same_identity view d i =
     (case i of (start, cmdline, pgid) \<Rightarrow>
        py_and [rbind (int_entry d ''start_time_ticks'' (-1)) (\<lambda>n. Ret (start = n)),
          rbind (list_entry d ''cmdline'') (\<lambda>vs. Ret (map VStr cmdline = vs)),
          Ret (vget d ''cwd'' = VStr (pv_cwd view)),
          rbind (int_entry d ''pgid'' pgid) (\<lambda>n. Ret (pgid = n))])"

definition process_matches :: "(int \<Rightarrow> proc_view) \<Rightarrow> pyval \<Rightarrow> bool result" where
  "process_matches look v =
     (case v of
        VDict d \<Rightarrow> (case dget d (VStr ''pid'') of
            None \<Rightarrow> Ret False
          | Some p \<Rightarrow>
              (case rbind (py_int p) (\<lambda>pid. rbind (proc_identity (look pid)) (\<lambda>i. Ret (pid, i))) of
                 Inl e \<Rightarrow> if e = PyValueError then Ret False else Raise e
               | Inr (pid, None) \<Rightarrow> Ret False
               | Inr (pid, Some i) \<Rightarrow> same_identity (look pid) d i))
      | _ \<Rightarrow> Raise PyTypeError)"

definition MANAGED_PROCESS_NAME :: string where "MANAGED_PROCESS_NAME = ''hospital-delivery-launch''"

definition MANAGED_LAUNCH_PREFIX :: "string list" where
  "MANAGED_LAUNCH_PREFIX = [''/usr/bin/python3'', ''/opt/ros/lyrical/bin/ros2'', ''launch'', ''smartcar_bringup'', ''hospital_delivery.launch.py'']"

text \<open>\<open>project\<close> is \<^verbatim>\<open>str(PROJECT_ROOT)\<close>.\<close>

definition authorized_launch :: "string \<Rightarrow> pydict \<Rightarrow> bool result" where
  "authorized_launch project d =
     py_and [Ret (vget d ''name'' = VStr MANAGED_PROCESS_NAME), Ret (vget d ''cwd'' = VStr project), Ret (vget d ''owns_process_group'' = VBool True),
       rbind (int_entry d ''pgid'' (-1)) (\<lambda>g. rbind (int_entry d ''pid'' (-2)) (\<lambda>p. Ret (g = p))),
       (case vget d ''cmdline'' of
          VList vs \<Rightarrow>
            if take (length MANAGED_LAUNCH_PREFIX) vs = map VStr MANAGED_LAUNCH_PREFIX \<and> length vs = length MANAGED_LAUNCH_PREFIX + 1
            then in_strs (last vs) [''headless:=true'', ''headless:=false''] else Ret False
        | _ \<Rightarrow> Ret False)]"

text \<open>A scan of \<^verbatim>\<open>/proc\<close>: the directories that start with a digit, with their \<^verbatim>\<open>stat\<close> where it can be read.\<close>

type_synonym proc_scan = "(string \<times> string option) list"

definition member_of :: "int \<Rightarrow> string \<times> string option \<Rightarrow> int list" where
  "member_of pgid entry =
     (case entry of
        (name, Some stat) \<Rightarrow> (case field_at 2 (stat_fields stat) of
            Inr g \<Rightarrow> if g = pgid then (case int_of_text name of None \<Rightarrow> [] | Some p \<Rightarrow> [p]) else []
          | Inl _ \<Rightarrow> [])
      | (name, None) \<Rightarrow> [])"

definition group_members :: "proc_scan \<Rightarrow> int \<Rightarrow> int list" where
  "group_members scan pgid = concat (map (member_of pgid) scan)"

section \<open>Moments\<close>

datatype signal_answer = Delivered | NoSuchProcess | SignalFails

datatype signal = SIGTERM | SIGKILL

text \<open>\<open>pm_signal\<close> is the answer to a signal sent then to a process, or to a group; \<open>pm_exited\<close> is \<^verbatim>\<open>process.poll() is not None\<close> of a child, and \<open>pm_wait_exits\<close> that a bounded wait for it ended in time.\<close>

record proc_moment =
  pm_look :: "int \<Rightarrow> proc_view"
  pm_scan :: proc_scan
  pm_clock :: pyfloat
  pm_signal :: "bool \<Rightarrow> int \<Rightarrow> signal_answer"
  pm_exited :: bool
  pm_wait_exits :: bool

type_synonym proc_world = "nat \<Rightarrow> proc_moment"

record proc_run =
  pr_turn :: nat
  pr_sent :: "(bool \<times> int \<times> signal) list"

definition turned :: "proc_run \<Rightarrow> proc_run" where "turned r = r\<lparr>pr_turn := Suc (pr_turn r)\<rparr>"

abbreviation moment_of :: "proc_world \<Rightarrow> proc_run \<Rightarrow> proc_moment" where "moment_of w r \<equiv> w (pr_turn r)"

definition send_signal :: "proc_world \<Rightarrow> bool \<Rightarrow> int \<Rightarrow> signal \<Rightarrow> proc_run \<Rightarrow> signal_answer \<times> proc_run" where
  "send_signal w owns pid sig r = (pm_signal (moment_of w r) owns pid, turned (r\<lparr>pr_sent := pr_sent r @ [(owns, pid, sig)]\<rparr>))"

text \<open>Looking until something is gone or the clock is at the deadline: whether it was seen to be gone.\<close>

partial_function (option) wait_gone :: "proc_world \<Rightarrow> (proc_moment \<Rightarrow> bool result) \<Rightarrow> pyfloat \<Rightarrow> proc_run \<Rightarrow> (bool result \<times> proc_run) option" where
  "wait_gone w gone deadline r =
     (if \<not> flt (pm_clock (moment_of w r)) deadline then Some (Ret False, turned r)
      else case gone (moment_of w r) of
        Inl e \<Rightarrow> Some (Raise e, turned r)
      | Inr b \<Rightarrow> if b then Some (Ret True, turned r) else wait_gone w gone deadline (turned r))"

section \<open>Ending a recorded process\<close>

definition launch_target :: "pydict \<Rightarrow> (int \<times> bool) result" where
  "launch_target d =
     rbind (case dget d (VStr ''pid'') of None \<Rightarrow> Raise PyKeyError | Some v \<Rightarrow> py_int v) (\<lambda>pid.
     if truthy (vget d ''owns_process_group'') then rbind (int_entry d ''pgid'' (-1)) (\<lambda>g. Ret (pid, g = pid)) else Ret (pid, False))"

definition target_gone :: "pydict \<Rightarrow> int \<Rightarrow> bool \<Rightarrow> proc_moment \<Rightarrow> bool result" where
  "target_gone d pid owns m =
     (if owns then Ret (group_members (pm_scan m) pid = []) else rbind (process_matches (pm_look m) (VDict d)) (\<lambda>b. Ret (\<not> b)))"

definition last_look :: "proc_world \<Rightarrow> (proc_moment \<Rightarrow> bool result) \<Rightarrow> pyfloat \<Rightarrow> proc_run \<Rightarrow> (bool result \<times> proc_run) option" where
  "last_look w gone deadline r =
     (case wait_gone w gone deadline r of
        None \<Rightarrow> None
      | Some (Inl e, r1) \<Rightarrow> Some (Raise e, r1)
      | Some (Inr _, r1) \<Rightarrow> Some (gone (moment_of w r1), turned r1))"

text \<open>From the moment at which the first wait has ended in vain.\<close>

definition escalate :: "proc_world \<Rightarrow> (proc_moment \<Rightarrow> bool result) \<Rightarrow> bool \<Rightarrow> int \<Rightarrow> proc_run \<Rightarrow> (bool result \<times> proc_run) option" where
  "escalate w gone owns pid r =
     (case gone (moment_of w r) of
        Inl e \<Rightarrow> Some (Raise e, turned r)
      | Inr b \<Rightarrow>
          (case (if b then (Delivered, turned r) else send_signal w owns pid SIGKILL (turned r)) of
             (SignalFails, r1) \<Rightarrow> Some (Raise PyOSError, r1)
           | (_, r1) \<Rightarrow> last_look w gone (fadd (pm_clock (moment_of w r1)) (Fin 2)) (turned r1)))"

definition end_target :: "proc_world \<Rightarrow> (proc_moment \<Rightarrow> bool result) \<Rightarrow> pyfloat \<Rightarrow> bool \<Rightarrow> int \<Rightarrow> proc_run \<Rightarrow> (bool result \<times> proc_run) option" where
  "end_target w gone term_timeout owns pid r =
     (case send_signal w owns pid SIGTERM r of
        (NoSuchProcess, r1) \<Rightarrow> Some (Ret True, r1)
      | (SignalFails, r1) \<Rightarrow> Some (Raise PyOSError, r1)
      | (Delivered, r1) \<Rightarrow>
          (case wait_gone w gone (fadd (pm_clock (moment_of w r1)) term_timeout) (turned r1) of
             None \<Rightarrow> None
           | Some (Inl e, r2) \<Rightarrow> Some (Raise e, r2)
           | Some (Inr b, r2) \<Rightarrow> if b then Some (Ret True, r2) else escalate w gone owns pid r2))"

definition may_terminate :: "string \<Rightarrow> (int \<Rightarrow> proc_view) \<Rightarrow> bool \<Rightarrow> pydict \<Rightarrow> (int \<times> bool) option result" where
  "may_terminate project look require_authorized d =
     rbind (process_matches look (VDict d)) (\<lambda>same. if \<not> same then Ret None
       else rbind (if require_authorized then authorized_launch project d else Ret True) (\<lambda>ok. if \<not> ok then Ret None
         else rbind (launch_target d) (\<lambda>t. Ret (Some t))))"

definition terminate_managed_process ::
  "string \<Rightarrow> proc_world \<Rightarrow> pyfloat \<Rightarrow> bool \<Rightarrow> pydict \<Rightarrow> proc_run \<Rightarrow> (bool result \<times> proc_run) option" where
  "terminate_managed_process project w term_timeout require_authorized d r =
     (case may_terminate project (pm_look (moment_of w r)) require_authorized d of
        Inl e \<Rightarrow> Some (Raise e, turned r)
      | Inr None \<Rightarrow> Some (Ret False, turned r)
      | Inr (Some (pid, owns)) \<Rightarrow> end_target w (target_gone d pid owns) term_timeout owns pid (turned r))"

section \<open>Ending a launch that was just started\<close>

definition group_gone :: "int \<Rightarrow> proc_moment \<Rightarrow> bool result" where
  "group_gone pid m = Ret (group_members (pm_scan m) pid = [])"

definition end_spawned :: "proc_world \<Rightarrow> int \<Rightarrow> proc_run \<Rightarrow> (bool result \<times> proc_run) option" where
  "end_spawned w pid r =
     (if group_members (pm_scan (moment_of w r)) pid = []
      then Some (Ret (pm_exited (moment_of w r)), turned r)
      else case send_signal w True pid SIGKILL (turned r) of
        (Delivered, r1) \<Rightarrow>
          if \<not> pm_exited (moment_of w r1) \<and> \<not> pm_wait_exits (moment_of w r1) then Some (Ret False, turned r1)
          else (case wait_gone w (group_gone pid) (fadd (pm_clock (moment_of w r1)) (Fin 2)) (turned r1) of
              None \<Rightarrow> None
            | Some (_, r2) \<Rightarrow> Some (Ret (pm_exited (moment_of w r2) \<and> group_members (pm_scan (moment_of w r2)) pid = []), turned r2))
      | (_, r1) \<Rightarrow> Some (Ret False, r1))"

definition terminate_spawned_launch :: "proc_world \<Rightarrow> int \<Rightarrow> pyfloat \<Rightarrow> proc_run \<Rightarrow> (bool result \<times> proc_run) option" where
  "terminate_spawned_launch w pid term_timeout r =
     (let running = \<not> pm_exited (moment_of w r); members = group_members (pm_scan (moment_of w r)) pid in
      if pid \<le> 0 then Some (Ret False, turned r)
      else if \<not> running \<and> members = [] then Some (Ret True, turned r)
      else if running \<and> pv_pgid (pm_look (moment_of w r) pid) \<noteq> Ret (Some pid) then Some (Ret False, turned r)
      else case send_signal w True pid SIGTERM (turned r) of
        (Delivered, r1) \<Rightarrow>
          (case wait_gone w (group_gone pid) (fadd (pm_clock (moment_of w r1)) (fmax (Fin 0) term_timeout)) (turned r1) of
             None \<Rightarrow> None
           | Some (_, r2) \<Rightarrow> end_spawned w pid r2)
      | (_, r1) \<Rightarrow> Some (Ret False, r1))"

section \<open>The start time\<close>

text \<open>A line of \<^verbatim>\<open>stat\<close> as the kernel writes it: the command's name is in parentheses, whatever is in it.\<close>

definition stat_line :: "string \<Rightarrow> string \<Rightarrow> string list \<Rightarrow> string" where
  "stat_line pid comm rest = pid @ '' ('' @ comm @ '')'' @ concat (map (\<lambda>w. CHR '' '' # w) rest) @ [CHR 0x0A]"

lemma py_space_blank [simp]: "py_space CHR '' ''" "py_space CHR 0x0A"
  by (simp_all add: py_space_def)

lemma py_words_space [simp]: "py_space c \<Longrightarrow> py_words (c # cs) = py_words cs"
  by (simp add: py_words_def)

lemma py_words_Nil [simp]: "py_words [] = []"
  by (simp add: py_words_def)

lemma py_words_rest: "list_all is_word ws \<Longrightarrow> py_words (concat (map (\<lambda>w. CHR '' '' # w) ws) @ [CHR 0x0A]) = ws"
proof (induction ws)
  case (Cons w ws)
  show ?case
  proof (cases ws)
    case Nil
    with Cons.prems show ?thesis by simp
  next
    case (Cons v vs)
    with Cons.prems Cons.IH show ?thesis by simp
  qed
qed simp

lemma stat_fields_line:
  assumes "list_all is_word rest" "list_all (\<lambda>w. CHR '')'' \<notin> set w) rest" "rest \<noteq> []"
  shows "stat_fields (stat_line pid comm rest) = rest"
proof -
  define tail where "tail = concat (map (\<lambda>w. CHR '' '' # w) rest) @ [CHR 0x0A]"
  have "CHR '')'' \<notin> set tail" using assms(2) by (auto simp: tail_def list_all_iff)
  then have "takeWhile (\<lambda>c. c \<noteq> CHR '')'') (rev tail @ CHR '')'' # rev (pid @ '' ('' @ comm)) = rev tail"
    by (subst takeWhile_append2) auto
  then have "rev (takeWhile (\<lambda>c. c \<noteq> CHR '')'') (rev (stat_line pid comm rest))) = tail" by (simp add: stat_line_def tail_def)
  moreover have "py_words (drop 1 tail) = py_words tail" using assms(3) by (cases rest) (simp_all add: tail_def)
  ultimately show ?thesis using py_words_rest [OF assms(1)] by (simp add: stat_fields_def tail_def)
qed

lemma digit_char:
  fixes n :: nat
  assumes "n < 10"
  shows "is_digit (char_of (48 + n))" "of_char (char_of (48 + n)) = 48 + n" "\<not> py_space (char_of (48 + n))" "char_of (48 + n) \<noteq> CHR ''-''" "char_of (48 + n) \<noteq> CHR ''+''"
proof -
  have code: "of_char (char_of (48 + n)) = 48 + n" using assms by simp
  then show "of_char (char_of (48 + n)) = 48 + n" "is_digit (char_of (48 + n))" "\<not> py_space (char_of (48 + n))"
    using assms by (auto simp: is_digit_def in_range_def py_space_def)
  have "of_char (CHR ''-'') = (45 :: nat)" "of_char (CHR ''+'') = (43 :: nat)" by simp_all
  with code show "char_of (48 + n) \<noteq> CHR ''-''" "char_of (48 + n) \<noteq> CHR ''+''" by force+
qed

lemma digits_value_show: "digits_value ended m (show_nat n @ cs) = digits_value True (m * 10 ^ length (show_nat n) + n) cs"
proof (induction n arbitrary: m ended cs rule: show_nat.induct)
  case (1 n)
  show ?case
  proof (cases "n < 10")
    case True
    then show ?thesis using digit_char [OF True] by (simp add: show_nat.simps [of n] mult.commute)
  next
    case False
    have "n mod 10 < 10" by simp
    note last = digit_char [OF this]
    have "digits_value ended m (show_nat n @ cs) = digits_value True (m * 10 ^ length (show_nat (n div 10)) + n div 10) (char_of (48 + n mod 10) # cs)"
      using False 1 by (simp add: show_nat.simps [of n])
    also have "\<dots> = digits_value True (10 * (m * 10 ^ length (show_nat (n div 10)) + n div 10) + n mod 10) cs" using last(1,2) by simp
    also have "10 * (m * 10 ^ length (show_nat (n div 10)) + n div 10) + n mod 10 = m * 10 ^ length (show_nat n) + n"
      using False by (simp add: show_nat.simps [of n] algebra_simps)
    finally show ?thesis .
  qed
qed

lemma show_nat_chars: "show_nat n \<noteq> [] \<and> list_all (\<lambda>c. \<not> py_space c \<and> c \<noteq> CHR ''-'' \<and> c \<noteq> CHR ''+'') (show_nat n)"
proof (induction n rule: show_nat.induct)
  case (1 n)
  have "n mod 10 < 10" by simp
  note last = digit_char [OF this]
  show ?case
  proof (cases "n < 10")
    case True
    then show ?thesis using digit_char [OF True] by (simp add: show_nat.simps [of n])
  next
    case False
    with 1 last show ?thesis by (simp add: show_nat.simps [of n])
  qed
qed

lemma strip_none: "list_all (\<lambda>c. \<not> py_space c) s \<Longrightarrow> strip s = s"
proof -
  assume all: "list_all (\<lambda>c. \<not> py_space c) s"
  then have "dropWhile py_space s = s" by (cases s) simp_all
  moreover have "dropWhile py_space (rev s) = rev s" using all by (cases "rev s") (auto simp: list_all_iff dest: arg_cong [of "rev s" _ set])
  ultimately show ?thesis by (simp add: strip_def)
qed

lemma int_of_show_nat: "int_of_text (show_nat n) = Some (int n)"
proof -
  note chars = show_nat_chars [of n]
  then have "strip (show_nat n) = show_nat n" by (intro strip_none) (simp add: list_all_iff)
  moreover obtain c cs where c: "show_nat n = c # cs" using chars by (cases "show_nat n") simp_all
  moreover have "digits_value False 0 (show_nat n) = Some n" using digits_value_show [of False 0 n "[]"] by simp
  ultimately show ?thesis using chars by (simp add: int_of_text_def)
qed

text \<open>Whatever a process calls itself, parentheses and blanks included, its start time and its group are read from the kernel's own fields.\<close>
theorem command_name_cannot_interfere:
  assumes "list_all is_word rest" "list_all (\<lambda>w. CHR '')'' \<notin> set w) rest" "rest ! 19 = show_nat start" "rest ! 2 = show_nat grp" "20 \<le> length rest"
  shows "field_at 19 (stat_fields (stat_line pid comm rest)) = Ret (int start) \<and>
    member_of pgid (show_nat p, Some (stat_line pid comm rest)) = (if int grp = pgid then [int p] else [])"
proof -
  have "rest \<noteq> []" using assms(5) by auto
  then show ?thesis using assms stat_fields_line [OF assms(1,2)] by (simp add: field_at_def member_of_def int_of_show_nat)
qed

section \<open>Signals\<close>

definition signals_sent :: "bool \<Rightarrow> int \<Rightarrow> proc_run \<Rightarrow> proc_run \<Rightarrow> bool" where
  "signals_sent owns pid r r1 \<longleftrightarrow> pr_sent r1 \<in> {pr_sent r, pr_sent r @ [(owns, pid, SIGTERM)], pr_sent r @ [(owns, pid, SIGTERM), (owns, pid, SIGKILL)]}"

definition seen_gone :: "proc_world \<Rightarrow> (proc_moment \<Rightarrow> bool result) \<Rightarrow> proc_run \<Rightarrow> proc_run \<Rightarrow> bool" where
  "seen_gone w gone r r1 \<longleftrightarrow> (\<exists>k. pr_turn r \<le> k \<and> k < pr_turn r1 \<and> gone (w k) = Ret True)"

lemma seen_gone_now: "gone (moment_of w r) = Ret True \<Longrightarrow> pr_turn r < pr_turn r1 \<Longrightarrow> seen_gone w gone r r1"
  unfolding seen_gone_def by (intro exI [of _ "pr_turn r"]) simp

lemma seen_gone_earlier: "seen_gone w gone r1 r2 \<Longrightarrow> pr_turn r \<le> pr_turn r1 \<Longrightarrow> seen_gone w gone r r2"
  unfolding seen_gone_def by (meson le_trans)

lemma seen_gone_later: "seen_gone w gone r r1 \<Longrightarrow> pr_turn r1 \<le> pr_turn r2 \<Longrightarrow> seen_gone w gone r r2"
  unfolding seen_gone_def by (meson less_le_trans)

lemma turned_turn [simp]: "pr_turn (turned r) = Suc (pr_turn r)" "pr_sent (turned r) = pr_sent r"
  by (simp_all add: turned_def)

lemmas wait_gone_induct = wait_gone.raw_induct [rotated, consumes 1, case_names step]

lemma wait_gone_result:
  "wait_gone w gone deadline r = Some (res, r1) \<Longrightarrow>
    pr_sent r1 = pr_sent r \<and> pr_turn r < pr_turn r1 \<and> (res = Ret True \<longrightarrow> seen_gone w gone r r1)"
proof (induction w gone deadline r "(res, r1)" arbitrary: rule: wait_gone_induct)
  case (step waiting w gone deadline r)
  show ?case
  proof (cases "flt (pm_clock (moment_of w r)) deadline \<and> gone (moment_of w r) = Ret False")
    case True
    with step(2) have "waiting w gone deadline (turned r) = Some (res, r1)" by simp
    from step(1) [OF this] show ?thesis using seen_gone_earlier [of w gone "turned r" r1 r] by auto
  next
    case False
    with step(2) show ?thesis by (auto intro: seen_gone_now split: if_splits sum.splits)
  qed
qed

lemma last_look_result:
  assumes "last_look w gone deadline r = Some (res, r1)"
  shows "pr_sent r1 = pr_sent r \<and> pr_turn r < pr_turn r1 \<and> (res = Ret True \<longrightarrow> seen_gone w gone r r1)"
proof -
  from assms obtain q r2 where w: "wait_gone w gone deadline r = Some (q, r2)" by (auto simp: last_look_def split: option.splits)
  with assms have r1: "q = Inl e \<Longrightarrow> res = Raise e \<and> r1 = r2" "q = Inr b \<Longrightarrow> res = gone (moment_of w r2) \<and> r1 = turned r2" for e b
    by (auto simp: last_look_def)
  have "pr_sent r1 = pr_sent r2" "pr_turn r2 \<le> pr_turn r1" using r1 by (cases q; simp)+
  moreover have "seen_gone w gone r2 r1" if "res = Ret True" using r1 that by (cases q) (auto intro: seen_gone_now)
  ultimately show ?thesis using wait_gone_result [OF w] seen_gone_earlier [of w gone r2 r1 r] by auto
qed

lemma escalate_result:
  assumes "escalate w gone owns pid r = Some (res, r1)"
  shows "pr_sent r1 \<in> {pr_sent r, pr_sent r @ [(owns, pid, SIGKILL)]} \<and> pr_turn r < pr_turn r1 \<and> (res = Ret True \<longrightarrow> seen_gone w gone r r1)"
proof (cases "gone (moment_of w r)")
  case (Inl e)
  with assms show ?thesis by (auto simp: escalate_def turned_def)
next
  case (Inr b)
  obtain answer r2 where s: "(if b then (Delivered, turned r) else send_signal w owns pid SIGKILL (turned r)) = (answer, r2)" by fastforce
  then have r2: "pr_sent r2 \<in> {pr_sent r, pr_sent r @ [(owns, pid, SIGKILL)]}" "pr_turn r < pr_turn r2"
    by (auto simp: send_signal_def turned_def split: if_splits)
  show ?thesis
  proof (cases "answer = SignalFails")
    case True
    with assms Inr s r2 show ?thesis by (auto simp: escalate_def)
  next
    case False
    with assms Inr s have "last_look w gone (fadd (pm_clock (moment_of w r2)) (Fin 2)) (turned r2) = Some (res, r1)"
      by (cases answer) (simp_all add: escalate_def)
    from last_look_result [OF this] r2 show ?thesis using seen_gone_earlier [of w gone "turned r2" r1 r] by auto
  qed
qed

lemma end_target_result:
  assumes "end_target w gone term_timeout owns pid r = Some (res, r1)"
  shows "signals_sent owns pid r r1 \<and> pr_turn r < pr_turn r1 \<and> (res = Ret True \<longrightarrow> seen_gone w gone r r1 \<or> pm_signal (moment_of w r) owns pid = NoSuchProcess)"
proof (cases "pm_signal (moment_of w r) owns pid")
  case Delivered
  define r2 where "r2 = turned (r\<lparr>pr_sent := pr_sent r @ [(owns, pid, SIGTERM)]\<rparr>)"
  have r2: "pr_sent r2 = pr_sent r @ [(owns, pid, SIGTERM)]" "pr_turn r2 = Suc (pr_turn r)" by (simp_all add: r2_def turned_def)
  from assms Delivered obtain q r3 where w: "wait_gone w gone (fadd (pm_clock (moment_of w r2)) term_timeout) (turned r2) = Some (q, r3)"
    and rest: "(case q of Inl e \<Rightarrow> Some (Raise e, r3) | Inr b \<Rightarrow> if b then Some (Ret True, r3) else escalate w gone owns pid r3) = Some (res, r1)"
    by (auto simp: end_target_def send_signal_def simp flip: r2_def split: option.splits sum.splits)
  have r3: "pr_sent r3 = pr_sent r2" "pr_turn r < pr_turn r3" "q = Ret True \<Longrightarrow> seen_gone w gone r r3"
    using wait_gone_result [OF w] r2 seen_gone_earlier [of w gone "turned r2" r3 r] by auto
  show ?thesis
  proof (cases "q = Ret False")
    case True
    with rest have "escalate w gone owns pid r3 = Some (res, r1)" by simp
    from escalate_result [OF this] r2 r3 show ?thesis by (auto simp: signals_sent_def intro: seen_gone_earlier)
  next
    case False
    with rest r2 r3 show ?thesis by (auto simp: signals_sent_def split: sum.splits if_splits)
  qed
qed (use assms in \<open>auto simp: end_target_def send_signal_def turned_def signals_sent_def\<close>)

lemma terminate_managed_result:
  assumes "terminate_managed_process project w term_timeout require_authorized d r = Some (res, r1)"
  shows "(pr_sent r1 = pr_sent r \<and> res \<noteq> Ret True \<and> pr_turn r < pr_turn r1) \<or>
    (\<exists>pid owns. process_matches (pm_look (moment_of w r)) (VDict d) = Ret True \<and> (require_authorized \<longrightarrow> authorized_launch project d = Ret True) \<and>
      launch_target d = Ret (pid, owns) \<and> signals_sent owns pid r r1 \<and> Suc (pr_turn r) < pr_turn r1 \<and>
      (res = Ret True \<longrightarrow> seen_gone w (target_gone d pid owns) r r1 \<or> pm_signal (w (Suc (pr_turn r))) owns pid = NoSuchProcess))"
proof (cases "may_terminate project (pm_look (moment_of w r)) require_authorized d")
  case (Inr t)
  show ?thesis
  proof (cases t)
    case (Some target)
    obtain pid owns where t: "target = (pid, owns)" by fastforce
    with Inr Some have ok: "process_matches (pm_look (moment_of w r)) (VDict d) = Ret True" "require_authorized \<longrightarrow> authorized_launch project d = Ret True"
      "launch_target d = Ret (pid, owns)"
      by (auto simp: may_terminate_def split: if_splits)
    from assms Inr Some t have "end_target w (target_gone d pid owns) term_timeout owns pid (turned r) = Some (res, r1)"
      by (simp add: terminate_managed_process_def)
    from end_target_result [OF this] ok show ?thesis by (auto simp: signals_sent_def intro: seen_gone_earlier)
  qed (use assms Inr in \<open>auto simp: terminate_managed_process_def\<close>)
qed (use assms in \<open>auto simp: terminate_managed_process_def\<close>)

text \<open>C25: A recorded process gets a signal only after it was found to be the one recorded, by its start time, command, directory and group, and, where that is
  asked for, to be the one launch that the project starts; then the signals go to it or, when it leads its group, to that, a kill last. It is said
  to have ended only when it was seen to be gone.\<close>
theorem only_the_recorded_is_signalled:
  assumes "terminate_managed_process project w term_timeout require_authorized d r = Some (res, r1)"
  shows "(pr_sent r1 \<noteq> pr_sent r \<longrightarrow> process_matches (pm_look (moment_of w r)) (VDict d) = Ret True \<and> (require_authorized \<longrightarrow> authorized_launch project d = Ret True) \<and>
      (\<exists>pid owns. launch_target d = Ret (pid, owns) \<and> signals_sent owns pid r r1)) \<and>
    (res = Ret True \<longrightarrow> (\<exists>pid owns. launch_target d = Ret (pid, owns) \<and>
      (seen_gone w (target_gone d pid owns) r r1 \<or> pm_signal (w (Suc (pr_turn r))) owns pid = NoSuchProcess)))"
  using terminate_managed_result [OF assms] by auto

section \<open>The ends of the waits\<close>

definition clock_passes :: "proc_world \<Rightarrow> bool" where
  "clock_passes w \<longleftrightarrow> (\<forall>n t. is_fin t \<longrightarrow> (\<exists>k > n. \<not> flt (pm_clock (w k)) (fadd (pm_clock (w n)) t)))"

lemma wait_gone_ends:
  assumes "pr_turn r \<le> k" "\<not> flt (pm_clock (w k)) deadline"
  shows "\<exists>y. wait_gone w gone deadline r = Some y"
  using assms(1)
proof (induction "k - pr_turn r" arbitrary: r)
  case 0
  then have "pr_turn r = k" by simp
  with assms(2) show ?case by (subst wait_gone.simps) simp
next
  case (Suc n)
  have "\<exists>y. wait_gone w gone deadline (turned r) = Some y" by (rule Suc.hyps(1)) (use Suc.hyps(2) in simp_all)
  then show ?case by (subst wait_gone.simps) (auto split: sum.splits)
qed

lemma clock_deadline:
  assumes "clock_passes w" "is_fin t" "pr_turn r = Suc n" shows "wait_gone w gone (fadd (pm_clock (w n)) t) r \<noteq> None"
proof -
  from assms obtain k where "n < k" "\<not> flt (pm_clock (w k)) (fadd (pm_clock (w n)) t)" unfolding clock_passes_def by blast
  then have "\<exists>y. wait_gone w gone (fadd (pm_clock (w n)) t) r = Some y" using assms(3) by (intro wait_gone_ends [of r k]) simp_all
  then show ?thesis by simp
qed

lemma last_look_ends: "clock_passes w \<Longrightarrow> is_fin t \<Longrightarrow> pr_turn r = Suc n \<Longrightarrow> last_look w gone (fadd (pm_clock (w n)) t) r \<noteq> None"
  using clock_deadline [of w t r n gone] by (auto simp: last_look_def split: option.splits sum.splits)

lemma sent_turn: "send_signal w owns pid sig r = (answer, r1) \<Longrightarrow> pr_turn r1 = Suc (pr_turn r)"
  by (auto simp: send_signal_def)

lemma escalate_ends: "clock_passes w \<Longrightarrow> escalate w gone owns pid r \<noteq> None"
  by (auto simp: escalate_def last_look_ends simp del: not_None_eq split: sum.splits prod.splits signal_answer.splits)

lemma end_target_ends: "clock_passes w \<Longrightarrow> is_fin t \<Longrightarrow> end_target w gone t owns pid r \<noteq> None"
  by (auto simp: end_target_def escalate_ends clock_deadline simp del: not_None_eq split: sum.splits prod.splits signal_answer.splits option.splits)

lemma end_spawned_ends: "clock_passes w \<Longrightarrow> end_spawned w pid r \<noteq> None"
  by (auto simp: end_spawned_def clock_deadline simp del: not_None_eq split: prod.splits signal_answer.splits option.splits)

lemma terminate_spawned_ends:
  assumes "clock_passes w" "is_fin term_timeout" shows "terminate_spawned_launch w pid term_timeout r \<noteq> None"
proof -
  have "is_fin (fmax (Fin 0) term_timeout)" using assms(2) by (auto simp: is_fin_iff fmax_def)
  with assms(1) show ?thesis
    by (auto simp: terminate_spawned_launch_def end_spawned_ends clock_deadline Let_def simp del: not_None_eq split: prod.splits signal_answer.splits option.splits)
qed

text \<open>Both ways of ending a process return, if the clock goes on.\<close>
theorem terminations_end:
  assumes "clock_passes w" "is_fin term_timeout"
  shows "(\<exists>res r1. terminate_managed_process project w term_timeout require_authorized d r = Some (res, r1)) \<and>
    (\<exists>res r1. terminate_spawned_launch w pid term_timeout r = Some (res, r1))"
proof
  have "terminate_managed_process project w term_timeout require_authorized d r \<noteq> None"
    using end_target_ends [OF assms] by (auto simp: terminate_managed_process_def simp del: not_None_eq split: sum.splits prod.splits option.splits)
  then show "\<exists>res r1. terminate_managed_process project w term_timeout require_authorized d r = Some (res, r1)" by auto
  show "\<exists>res r1. terminate_spawned_launch w pid term_timeout r = Some (res, r1)" using terminate_spawned_ends [OF assms, of pid r] by auto
qed

section \<open>A launch that was just started\<close>

text \<open>The members of its group seen to be gone, and it to have exited.\<close>

definition launch_gone :: "int \<Rightarrow> proc_moment \<Rightarrow> bool result" where
  "launch_gone pid m = Ret (pm_exited m \<and> group_members (pm_scan m) pid = [])"

lemma end_spawned_result:
  assumes "end_spawned w pid r = Some (res, r1)"
  shows "pr_sent r1 \<in> {pr_sent r, pr_sent r @ [(True, pid, SIGKILL)]} \<and> pr_turn r < pr_turn r1 \<and> (\<exists>b. res = Ret b) \<and>
    (res = Ret True \<longrightarrow> seen_gone w (launch_gone pid) r r1)"
proof (cases "group_members (pm_scan (moment_of w r)) pid = []")
  case True
  with assms show ?thesis by (auto simp: end_spawned_def launch_gone_def intro: seen_gone_now)
next
  case False
  define r2 where "r2 = turned ((turned r)\<lparr>pr_sent := pr_sent r @ [(True, pid, SIGKILL)]\<rparr>)"
  have r2: "pr_sent r2 = pr_sent r @ [(True, pid, SIGKILL)]" "pr_turn r2 = Suc (Suc (pr_turn r))" by (simp_all add: r2_def turned_def)
  have sent: "send_signal w True pid SIGKILL (turned r) = (pm_signal (moment_of w (turned r)) True pid, r2)" by (simp add: send_signal_def r2_def)
  show ?thesis
  proof (cases "pm_signal (moment_of w (turned r)) True pid = Delivered \<and> (pm_exited (moment_of w r2) \<or> pm_wait_exits (moment_of w r2))")
    case True
    with assms False sent obtain q r3 where w: "wait_gone w (group_gone pid) (fadd (pm_clock (moment_of w r2)) (Fin 2)) (turned r2) = Some (q, r3)"
      and rest: "res = launch_gone pid (moment_of w r3)" "r1 = turned r3"
      by (auto simp: end_spawned_def launch_gone_def split: option.splits)
    have "pr_sent r3 = pr_sent r2" "pr_turn r < pr_turn r3" using wait_gone_result [OF w] r2 by auto
    moreover have "seen_gone w (launch_gone pid) r3 r1" if "res = Ret True" using rest that by (auto intro: seen_gone_now)
    ultimately show ?thesis using rest r2 seen_gone_earlier [of w "launch_gone pid" r3 r1 r] by (auto simp: launch_gone_def)
  next
    case not_ended: False
    with assms False sent r2 show ?thesis by (auto simp: end_spawned_def split: signal_answer.splits if_splits)
  qed
qed

lemma spawned_result:
  assumes "terminate_spawned_launch w pid term_timeout r = Some (res, r1)"
  shows "(\<exists>b. res = Ret b) \<and> (\<forall>s \<in> set (drop (length (pr_sent r)) (pr_sent r1)). fst s \<and> fst (snd s) = pid) \<and> take (length (pr_sent r)) (pr_sent r1) = pr_sent r \<and>
    (res = Ret True \<longrightarrow> 0 < pid \<and> seen_gone w (launch_gone pid) r r1) \<and> pr_turn r < pr_turn r1"
proof -
  let ?running = "\<not> pm_exited (moment_of w r)" and ?members = "group_members (pm_scan (moment_of w r)) pid"
  define r2 where "r2 = turned ((turned r)\<lparr>pr_sent := pr_sent r @ [(True, pid, SIGTERM)]\<rparr>)"
  have r2: "pr_sent r2 = pr_sent r @ [(True, pid, SIGTERM)]" "pr_turn r2 = Suc (Suc (pr_turn r))" by (simp_all add: r2_def turned_def)
  have sent: "send_signal w True pid SIGTERM (turned r) = (pm_signal (moment_of w (turned r)) True pid, r2)" by (simp add: send_signal_def r2_def)
  consider (early) "pid \<le> 0 \<or> \<not> ?running \<and> ?members = [] \<or> ?running \<and> pv_pgid (pm_look (moment_of w r) pid) \<noteq> Ret (Some pid)"
    | (failed) "0 < pid" "\<not> (\<not> ?running \<and> ?members = [])" "\<not> (?running \<and> pv_pgid (pm_look (moment_of w r) pid) \<noteq> Ret (Some pid))" "pm_signal (moment_of w (turned r)) True pid \<noteq> Delivered"
    | (sent) "0 < pid" "\<not> (\<not> ?running \<and> ?members = [])" "\<not> (?running \<and> pv_pgid (pm_look (moment_of w r) pid) \<noteq> Ret (Some pid))" "pm_signal (moment_of w (turned r)) True pid = Delivered"
    by linarith
  then show ?thesis
  proof cases
    case early
    with assms show ?thesis by (auto simp: terminate_spawned_launch_def Let_def launch_gone_def intro: seen_gone_now split: if_splits)
  next
    case failed
    with assms sent r2 show ?thesis by (auto simp: terminate_spawned_launch_def Let_def split: signal_answer.splits if_splits)
  next
    case sent': sent
    with assms sent obtain q r3 where w: "wait_gone w (group_gone pid) (fadd (pm_clock (moment_of w r2)) (fmax (Fin 0) term_timeout)) (turned r2) = Some (q, r3)"
      and e: "end_spawned w pid r3 = Some (res, r1)"
      by (auto simp: terminate_spawned_launch_def Let_def split: option.splits if_splits)
    have r3: "pr_sent r3 = pr_sent r2" "pr_turn r < pr_turn r3" using wait_gone_result [OF w] r2 by auto
    have "seen_gone w (launch_gone pid) r r1" if "res = Ret True"
      using end_spawned_result [OF e] that r3(2) seen_gone_earlier [of w "launch_gone pid" r3 r1 r] by simp
    then show ?thesis using end_spawned_result [OF e] r2 r3 sent'(1) by auto
  qed
qed

text \<open>A launch that was just started is ended through its own group only, and is said to have ended only when it had exited and its group was
  seen to be empty; what goes wrong on the way is an answer, not an exception.\<close>
theorem spawned_launch_is_ended:
  assumes "terminate_spawned_launch w pid term_timeout r = Some (res, r1)"
  shows "(\<exists>b. res = Ret b) \<and> (\<forall>s \<in> set (drop (length (pr_sent r)) (pr_sent r1)). fst s \<and> fst (snd s) = pid) \<and> take (length (pr_sent r)) (pr_sent r1) = pr_sent r \<and>
    (res = Ret True \<longrightarrow> 0 < pid \<and> seen_gone w (launch_gone pid) r r1)"
  using spawned_result [OF assms] by blast

section \<open>A process that is ended\<close>

definition demo_view :: proc_view where
  "demo_view = \<lparr>pv_stat = Ret (Some ''7 (a b) S 1 7 7 0 0 0 0 0 0 0 0 0 0 0 0 0 1 0 42''), pv_cmdline = Ret (Some (''a'' @ [CHR 0x00])), pv_pgid = Ret (Some 7), pv_cwd = ''/''\<rparr>"

lemma demo_identity: "proc_identity demo_view = Ret (Some (42, [''a''], 7))"
  by code_simp

definition demo_record :: pydict where
  "demo_record = [(VStr ''pid'', VInt 7), (VStr ''start_time_ticks'', VInt 42), (VStr ''cmdline'', VList [VStr ''a'']), (VStr ''cwd'', VStr ''/''), (VStr ''pgid'', VInt 7),
     (VStr ''owns_process_group'', VBool True)]"

definition demo_world :: proc_world where
  "demo_world = (\<lambda>_. \<lparr>pm_look = \<lambda>_. demo_view, pm_scan = [], pm_clock = Fin 0, pm_signal = \<lambda>_ _. NoSuchProcess, pm_exited = True, pm_wait_exits = True\<rparr>)"

theorem only_the_recorded_is_signalled_witness:
  "\<exists>r1. terminate_managed_process ''/p'' demo_world (Fin 8) False demo_record \<lparr>pr_turn = 0, pr_sent = []\<rparr> = Some (Ret True, r1) \<and> pr_sent r1 \<noteq> [] \<and>
    process_matches (\<lambda>_. demo_view) (VDict demo_record) = Ret True"
proof -
  have "\<exists>r1. terminate_managed_process ''/p'' demo_world (Fin 8) False demo_record \<lparr>pr_turn = 0, pr_sent = []\<rparr> = Some (Ret True, r1) \<and> pr_sent r1 = [(True, 7, SIGTERM)]"
    by (simp add: terminate_managed_process_def may_terminate_def process_matches_def demo_identity same_identity_def demo_record_def demo_world_def int_entry_def
        list_entry_def vget_def launch_target_def end_target_def send_signal_def turned_def)
      (simp add: demo_view_def)
  then obtain r1 where r1: "terminate_managed_process ''/p'' demo_world (Fin 8) False demo_record \<lparr>pr_turn = 0, pr_sent = []\<rparr> = Some (Ret True, r1)"
    "pr_sent r1 = [(True, 7, SIGTERM)]" by blast
  from only_the_recorded_is_signalled [OF r1(1)] r1 show ?thesis by (simp add: demo_world_def)
qed

end
