(* ===== verification/ProjectFiles.thy ===== *)
theory ProjectFiles
  imports Processes
begin

text \<open>
  What the project keeps on disk between the calls of its command line (\<^verbatim>\<open>scripts/codex_project.py\<close>): the processes it runs, the reservation
  of a startup, and the marker of a startup whose cleanup failed. A file is what its decoding gives, and a write is one of three things: done, done
  although it raises in the end, or not done.
\<close>

section \<open>Steps\<close>

text \<open>\<^verbatim>\<open>ProjectLifecycleError\<close> is a \<^verbatim>\<open>RuntimeError\<close>, and what handles the one handles the other.\<close>

abbreviation ProjectLifecycleError :: py_exn where "ProjectLifecycleError \<equiv> PyRuntimeError"

text \<open>A file is missing, is found damaged by a check that the code makes (\<^verbatim>\<open>OSError\<close>, \<^verbatim>\<open>JSONDecodeError\<close>), raises something else
  when it is read, or holds a document.\<close>

datatype stored = Missing | Broken | Escapes py_exn | Stored pyval

record project =
  prj_state :: stored
  prj_startup :: stored
  prj_failure :: stored
  prj_run :: proc_run

type_synonym 'a project_step = "project \<Rightarrow> ('a result \<times> project) option"

definition prj_of :: "'a result \<Rightarrow> 'a project_step" where "prj_of r s = Some (r, s)"

abbreviation prj_ret :: "'a \<Rightarrow> 'a project_step" where "prj_ret x \<equiv> prj_of (Ret x)"
abbreviation prj_raise :: "py_exn \<Rightarrow> 'a project_step" where "prj_raise e \<equiv> prj_of (Raise e)"

definition prj_bind :: "'a project_step \<Rightarrow> ('a \<Rightarrow> 'b project_step) \<Rightarrow> 'b project_step" where
  "prj_bind m f s = (case m s of None \<Rightarrow> None | Some (Inl e, s1) \<Rightarrow> Some (Raise e, s1) | Some (Inr x, s1) \<Rightarrow> f x s1)"

definition looking :: "proc_world \<Rightarrow> (proc_moment \<Rightarrow> 'a result) \<Rightarrow> 'a project_step" where
  "looking w f s = Some (f (moment_of w (prj_run s)), s\<lparr>prj_run := turned (prj_run s)\<rparr>)"

definition process_step :: "(proc_run \<Rightarrow> (bool result \<times> proc_run) option) \<Rightarrow> bool project_step" where
  "process_step f s = (case f (prj_run s) of None \<Rightarrow> None | Some (res, r) \<Rightarrow> Some (res, s\<lparr>prj_run := r\<rparr>))"

definition reading_file :: "(project \<Rightarrow> 'a result) \<Rightarrow> 'a project_step" where
  "reading_file f s = Some (f s, s)"

datatype write_answer = Written | WrittenRaises py_exn | NotWritten py_exn

definition write_doc :: "(stored \<Rightarrow> project \<Rightarrow> project) \<Rightarrow> write_answer \<Rightarrow> pyval \<Rightarrow> unit project_step" where
  "write_doc put answer v s =
     Some (case answer of Written \<Rightarrow> (Ret (), put (Stored v) s) | WrittenRaises e \<Rightarrow> (Raise e, put (Stored v) s) | NotWritten e \<Rightarrow> (Raise e, s))"

text \<open>\<^verbatim>\<open>unlink(missing_ok=True)\<close>: the exception, if it raises.\<close>

definition unlink_doc :: "(stored \<Rightarrow> project \<Rightarrow> project) \<Rightarrow> py_exn option \<Rightarrow> unit project_step" where
  "unlink_doc put answer s = Some (case answer of None \<Rightarrow> (Ret (), put Missing s) | Some e \<Rightarrow> (Raise e, s))"

abbreviation put_state :: "stored \<Rightarrow> project \<Rightarrow> project" where "put_state x s \<equiv> s\<lparr>prj_state := x\<rparr>"
abbreviation put_startup :: "stored \<Rightarrow> project \<Rightarrow> project" where "put_startup x s \<equiv> s\<lparr>prj_startup := x\<rparr>"
abbreviation put_failure :: "stored \<Rightarrow> project \<Rightarrow> project" where "put_failure x s \<equiv> s\<lparr>prj_failure := x\<rparr>"

fun read_doc :: "stored \<Rightarrow> pyval option result" where
  "read_doc Missing = Ret None" | "read_doc Broken = Raise ProjectLifecycleError" | "read_doc (Escapes e) = Raise e" | "read_doc (Stored v) = Ret (Some v)"

section \<open>The state file\<close>

record runtime_state =
  rs_live :: "pydict list"
  rs_stale :: "pydict list"
  rs_groups :: "(int \<times> int list \<times> pydict) list"
  rs_token :: "string option"

definition STATE_VERSION :: int where "STATE_VERSION = 1"

definition state_payload :: "pyval \<Rightarrow> (pyval list \<times> string option) result" where
  "state_payload v =
     (case v of
        VDict d \<Rightarrow>
          let token = vget d ''startup_token'' in
          (case vget d ''processes'' of
             VList vs \<Rightarrow>
               if same_value (vget d ''version'') (VInt STATE_VERSION) \<and> (token = VNone \<or> nonempty_str token)
               then Ret (vs, if token = VNone then None else Some (str_val token)) else Raise ProjectLifecycleError
           | _ \<Rightarrow> Raise ProjectLifecycleError)
      | _ \<Rightarrow> Raise PyAttributeError)"

text \<open>A record is live, or stale, or stale with members of its group about although it is the launch the project starts.\<close>

datatype standing = Live | Stale | Unresolved int "int list"

definition pgid_entry :: "pydict \<Rightarrow> int result" where
  "pgid_entry d = (case dget d (VStr ''pgid'') of None \<Rightarrow> Raise PyKeyError | Some v \<Rightarrow> py_int v)"

definition standing_of :: "proc_world \<Rightarrow> string \<Rightarrow> pyval \<Rightarrow> (pydict \<times> standing) project_step" where
  "standing_of w project v =
     prj_bind (looking w (\<lambda>m. process_matches (pm_look m) v)) (\<lambda>live.
     case v of
       VDict d \<Rightarrow>
         if live then prj_ret (d, Live)
         else prj_bind (prj_of (authorized_launch project d)) (\<lambda>authorized.
           if \<not> authorized then prj_ret (d, Stale)
           else prj_bind (prj_of (pgid_entry d)) (\<lambda>pgid.
             prj_bind (looking w (\<lambda>m. Ret (sort (group_members (pm_scan m) pgid)))) (\<lambda>members.
               prj_ret (d, if members = [] then Stale else Unresolved pgid members))))
     | _ \<Rightarrow> prj_raise PyTypeError)"

fun standings :: "proc_world \<Rightarrow> string \<Rightarrow> pyval list \<Rightarrow> (pydict \<times> standing) list project_step" where
  "standings w project [] = prj_ret []"
| "standings w project (v # vs) = prj_bind (standing_of w project v) (\<lambda>x. prj_bind (standings w project vs) (\<lambda>xs. prj_ret (x # xs)))"

definition group_of_standing :: "pydict \<times> standing \<Rightarrow> (int \<times> int list \<times> pydict) list" where
  "group_of_standing x = (case x of (d, Unresolved pgid members) \<Rightarrow> [(pgid, members, d)] | _ \<Rightarrow> [])"

definition load_runtime_state :: "proc_world \<Rightarrow> string \<Rightarrow> runtime_state project_step" where
  "load_runtime_state w project =
     prj_bind (reading_file (\<lambda>s. read_doc (prj_state s))) (\<lambda>v.
     case v of
       None \<Rightarrow> prj_ret \<lparr>rs_live = [], rs_stale = [], rs_groups = [], rs_token = None\<rparr>
     | Some payload \<Rightarrow>
         prj_bind (prj_of (state_payload payload)) (\<lambda>(vs, token).
         prj_bind (standings w project vs) (\<lambda>xs.
           prj_ret \<lparr>rs_live = map fst (filter (\<lambda>x. snd x = Live) xs), rs_stale = map fst (filter (\<lambda>x. snd x \<noteq> Live) xs),
             rs_groups = concat (map group_of_standing xs), rs_token = token\<rparr>)))"

definition state_doc :: "pydict list \<Rightarrow> string option \<Rightarrow> pyval" where
  "state_doc records token =
     VDict ([(VStr ''version'', VInt STATE_VERSION), (VStr ''processes'', VList (map VDict records))] @
       (case token of None \<Rightarrow> [] | Some t \<Rightarrow> [(VStr ''startup_token'', VStr t)]))"

section \<open>The reservation and the marker\<close>

record startup =
  su_token :: string
  su_cancelled :: bool
  su_handoff :: bool
  su_unresolved :: "(int \<times> pydict option) option"

definition unresolved_of :: "pyval \<Rightarrow> (int \<times> pydict option) option result" where
  "unresolved_of v =
     (case v of
        VNone \<Rightarrow> Ret None
      | VDict u \<Rightarrow> (case vget u ''pid'' of
          VInt p \<Rightarrow>
            if p \<le> 0 then Raise ProjectLifecycleError
            else (case dget u (VStr ''record'') of
                None \<Rightarrow> Ret (Some (p, None))
              | Some (VDict d) \<Rightarrow> Ret (Some (p, Some d))
              | Some _ \<Rightarrow> Raise ProjectLifecycleError)
        | _ \<Rightarrow> Raise ProjectLifecycleError)
      | _ \<Rightarrow> Raise ProjectLifecycleError)"

definition startup_of :: "pyval \<Rightarrow> startup result" where
  "startup_of v =
     (case v of
        VDict d \<Rightarrow>
          rbind (guard (nonempty_str (vget d ''token'') \<and> is_bool (vget d ''cancelled'')) ProjectLifecycleError) (\<lambda>_.
          rbind (in_strs (vget d ''phase'') [''building'', ''handoff'']) (\<lambda>known.
          rbind (guard known ProjectLifecycleError) (\<lambda>_.
          rbind (unresolved_of (vget d ''unresolved_launch'')) (\<lambda>unresolved.
            Ret \<lparr>su_token = str_val (vget d ''token''), su_cancelled = (vget d ''cancelled'' = VBool True),
              su_handoff = (vget d ''phase'' = VStr ''handoff''), su_unresolved = unresolved\<rparr>))))
      | _ \<Rightarrow> Raise ProjectLifecycleError)"

definition load_startup :: "stored \<Rightarrow> startup option result" where
  "load_startup x = rbind (read_doc x) (\<lambda>v. case v of None \<Rightarrow> Ret None | Some payload \<Rightarrow> rbind (startup_of payload) (\<lambda>u. Ret (Some u)))"

definition startup_doc :: "string \<Rightarrow> bool \<Rightarrow> bool \<Rightarrow> (int \<times> pydict option) option \<Rightarrow> pyval" where
  "startup_doc token cancelled handoff unresolved =
     VDict ([(VStr ''token'', VStr token), (VStr ''cancelled'', VBool cancelled), (VStr ''phase'', VStr (if handoff then ''handoff'' else ''building''))] @
       (case unresolved of
          None \<Rightarrow> []
        | Some (p, r) \<Rightarrow> [(VStr ''unresolved_launch'', VDict ((VStr ''pid'', VInt p) # (case r of None \<Rightarrow> [] | Some d \<Rightarrow> [(VStr ''record'', VDict d)])))]))"

definition load_startup_failure :: "stored \<Rightarrow> int option result" where
  "load_startup_failure x =
     rbind (read_doc x) (\<lambda>v.
       case v of
         None \<Rightarrow> Ret None
       | Some (VDict d) \<Rightarrow> (case vget d ''pid'' of VInt p \<Rightarrow> if p \<le> 0 then Raise ProjectLifecycleError else Ret (Some p) | _ \<Rightarrow> Raise ProjectLifecycleError)
       | Some _ \<Rightarrow> Raise ProjectLifecycleError)"

definition failure_doc :: "int \<Rightarrow> pyval" where "failure_doc pid = VDict [(VStr ''pid'', VInt pid)]"

section \<open>What is written reads back\<close>

lemma state_payload_doc: "token \<noteq> Some [] \<Longrightarrow> state_payload (state_doc records token) = Ret (map VDict records, token)"
  by (cases token) (simp_all add: state_payload_def state_doc_def vget_def same_value_def Let_def)

lemma load_startup_doc:
  assumes "token \<noteq> []" "\<And>p r. unresolved = Some (p, r) \<Longrightarrow> 0 < p"
  shows "load_startup (Stored (startup_doc token cancelled handoff unresolved)) =
    Ret (Some \<lparr>su_token = token, su_cancelled = cancelled, su_handoff = handoff, su_unresolved = unresolved\<rparr>)"
  using assms
  by (cases unresolved) (auto simp: load_startup_def startup_of_def startup_doc_def vget_def in_strs_def unresolved_of_def split: option.splits)

lemma load_failure_doc: "0 < pid \<Longrightarrow> load_startup_failure (Stored (failure_doc pid)) = Ret (Some pid)"
  by (simp add: load_startup_failure_def failure_doc_def vget_def)

section \<open>Ends of steps\<close>

lemma prj_bind_Some: "prj_bind m f s = Some (r, s2) \<longleftrightarrow> (\<exists>e. m s = Some (Inl e, s2) \<and> r = Inl e) \<or> (\<exists>x s1. m s = Some (Inr x, s1) \<and> f x s1 = Some (r, s2))"
  by (auto simp: prj_bind_def split: option.splits prod.splits sum.splits)

text \<open>The files stay, and the moments go on.\<close>

definition only_looks :: "'a project_step \<Rightarrow> bool" where
  "only_looks m \<longleftrightarrow> (\<forall>s r s1. m s = Some (r, s1) \<longrightarrow>
     prj_state s1 = prj_state s \<and> prj_startup s1 = prj_startup s \<and> prj_failure s1 = prj_failure s \<and> pr_turn (prj_run s) \<le> pr_turn (prj_run s1))"

lemma only_looksD:
  assumes "only_looks m" "m s = Some (r, s1)"
  shows "prj_state s1 = prj_state s" "prj_startup s1 = prj_startup s" "prj_failure s1 = prj_failure s" "pr_turn (prj_run s) \<le> pr_turn (prj_run s1)"
  using assms by (auto simp: only_looks_def)

lemma only_looks_rules [intro, simp]: "only_looks (prj_of r)" "only_looks (looking w f)" "only_looks (reading_file g)"
  by (auto simp: only_looks_def prj_of_def looking_def reading_file_def)

lemma only_looks_bind: "only_looks m \<Longrightarrow> (\<And>x. only_looks (f x)) \<Longrightarrow> only_looks (prj_bind m f)"
proof -
  assume m: "only_looks m" and f: "\<And>x. only_looks (f x)"
  have "prj_state s2 = prj_state s \<and> prj_startup s2 = prj_startup s \<and> prj_failure s2 = prj_failure s \<and> pr_turn (prj_run s) \<le> pr_turn (prj_run s2)"
    if "prj_bind m f s = Some (r, s2)" for s r s2
    using that unfolding prj_bind_Some
  proof (elim disjE exE conjE)
    fix x s1 assume "m s = Some (Inr x, s1)" "f x s1 = Some (r, s2)"
    then show ?thesis using only_looksD [OF m, of s "Inr x" s1] only_looksD [OF f, of x s1 r s2] by simp
  next
    fix e assume "m s = Some (Inl e, s2)"
    then show ?thesis using only_looksD [OF m, of s "Inl e" s2] by simp
  qed
  then show ?thesis unfolding only_looks_def by blast
qed

lemma only_looks_standing: "only_looks (standing_of w project v)"
  unfolding standing_of_def by (auto intro!: only_looks_bind split: pyval.split)

lemma only_looks_standings: "only_looks (standings w project vs)"
  by (induction vs) (auto intro!: only_looks_bind only_looks_standing)

lemma only_looks_load: "only_looks (load_runtime_state w project)"
  unfolding load_runtime_state_def by (auto intro!: only_looks_bind only_looks_standings split: option.split)

end
