(* ===== verification/ProjectLifecycle.thy ===== *)
theory ProjectLifecycle
  imports ProjectFiles
begin

text \<open>
  The regions of \<^verbatim>\<open>ProjectLifecycle\<close> in \<^verbatim>\<open>scripts/codex_project.py\<close>: what a start does under the lock before the build and
  after it, how it ends a launch that did not come up, what it puts right in the end, and the whole of a stop. A region runs under the lock of
  the project, so that no other region runs meanwhile; the build, the waiting for the graph and the ending of a launch are outside.
\<close>

definition startups :: "startup option project_step" where "startups = reading_file (\<lambda>s. load_startup (prj_startup s))"
definition failures :: "int option project_step" where "failures = reading_file (\<lambda>s. load_startup_failure (prj_failure s))"

section \<open>Starting\<close>

definition start_reserve :: "proc_world \<Rightarrow> string \<Rightarrow> write_answer \<Rightarrow> string \<Rightarrow> unit project_step" where
  "start_reserve w project answer token =
     prj_bind (load_runtime_state w project) (\<lambda>state.
     if rs_live state \<noteq> [] then prj_raise ProjectLifecycleError
     else prj_bind startups (\<lambda>startup. if startup \<noteq> None then prj_raise ProjectLifecycleError
     else prj_bind failures (\<lambda>failure. if failure \<noteq> None then prj_raise ProjectLifecycleError
     else if rs_groups state \<noteq> [] then prj_raise ProjectLifecycleError
     else write_doc put_startup answer (startup_doc token False False None))))"

text \<open>What the system answers during the handoff; \<open>ho_spawn\<close> is the new process, or what the making of its environment or the launch
  itself raised.\<close>

record handoff_os =
  ho_reserve :: write_answer
  ho_log :: "unit result"
  ho_spawn :: "int result"
  ho_state :: write_answer
  ho_failure :: write_answer
  ho_unresolved :: write_answer
  ho_unlink :: "py_exn option"
  ho_close :: "unit result"

text \<open>The launch is ended because its identity could not be published; if that fails too, its number is kept, with its record if there is one.
  What the region ends with is the record of the launch or an exception, and whether the reservation is to be preserved.\<close>

definition handoff_failed :: "proc_world \<Rightarrow> handoff_os \<Rightarrow> string \<Rightarrow> int \<Rightarrow> pydict option \<Rightarrow> py_exn \<Rightarrow> (pydict result \<times> bool) project_step" where
  "handoff_failed w os token pid known e s =
     (case process_step (terminate_spawned_launch w pid (Fin 8)) s of
        None \<Rightarrow> None
      | Some (res, s1) \<Rightarrow>
          if res = Ret True then Some (Ret (Raise e, False), s1)
          else (case write_doc put_failure (ho_failure os) (failure_doc pid) s1 of
              None \<Rightarrow> None
            | Some (_, s2) \<Rightarrow> (case write_doc put_startup (ho_unresolved os) (startup_doc token True True (Some (pid, known))) s2 of
                None \<Rightarrow> None
              | Some (_, s3) \<Rightarrow> Some (Ret (Raise ProjectLifecycleError, True), s3))))"

definition publish_launch :: "proc_world \<Rightarrow> handoff_os \<Rightarrow> string \<Rightarrow> int \<Rightarrow> (pydict result \<times> bool) project_step" where
  "publish_launch w os token pid s =
     (case looking w (\<lambda>m. case record_process (pm_look m pid) pid MANAGED_PROCESS_NAME of
          Inl e \<Rightarrow> Raise e | Inr None \<Rightarrow> Raise PyOSError | Inr (Some d) \<Rightarrow> Ret d) s of
        None \<Rightarrow> None
      | Some (Inl e, s1) \<Rightarrow> handoff_failed w os token pid None e s1
      | Some (Inr d, s1) \<Rightarrow> (case write_doc put_state (ho_state os) (state_doc [d] (Some token)) s1 of
          None \<Rightarrow> None
        | Some (Inl e, s2) \<Rightarrow> handoff_failed w os token pid (Some d) e s2
        | Some (Inr _, s2) \<Rightarrow> (case unlink_doc put_startup (ho_unlink os) s2 of
            None \<Rightarrow> None
          | Some (Inl e, s3) \<Rightarrow> Some (Ret (Raise e, False), s3)
          | Some (Inr _, s3) \<Rightarrow> Some (Ret (Ret d, False), s3))))"

definition closing_log :: "handoff_os \<Rightarrow> (pydict result \<times> bool) \<Rightarrow> pydict result \<times> bool" where
  "closing_log os x = (case ho_close os of Inl e \<Rightarrow> (Raise e, snd x) | Inr _ \<Rightarrow> x)"

definition start_handoff :: "proc_world \<Rightarrow> handoff_os \<Rightarrow> string \<Rightarrow> (pydict result \<times> bool) project_step" where
  "start_handoff w os token =
     prj_bind startups (\<lambda>startup.
     case startup of
       None \<Rightarrow> prj_ret (Raise ProjectLifecycleError, False)
     | Some u \<Rightarrow>
         if su_token u \<noteq> token \<or> su_cancelled u then prj_ret (Raise ProjectLifecycleError, False)
         else prj_bind (write_doc put_startup (ho_reserve os) (startup_doc token False True None)) (\<lambda>_.
           case ho_log os of
             Inl e \<Rightarrow> prj_raise e
           | Inr _ \<Rightarrow> (case ho_spawn os of
               Inl e \<Rightarrow> prj_ret (closing_log os (Raise e, False))
             | Inr pid \<Rightarrow> prj_bind (publish_launch w os token pid) (\<lambda>x. prj_ret (closing_log os x)))))"

text \<open>The launch did not come up: whether it could be ended, or its group is empty after all.\<close>

definition end_failed_launch :: "proc_world \<Rightarrow> string \<Rightarrow> pydict \<Rightarrow> bool project_step" where
  "end_failed_launch w project d =
     prj_bind (process_step (terminate_managed_process project w (Fin 8) True d)) (\<lambda>terminated.
     if terminated then prj_ret True
     else prj_bind (prj_of (pgid_entry d)) (\<lambda>pgid. looking w (\<lambda>m. Ret (group_members (pm_scan m) pgid = []))))"

definition add_record :: "pydict \<Rightarrow> pydict list \<Rightarrow> pydict list" where
  "add_record d ds = (if d \<in> set ds then ds else ds @ [d])"

definition add_groups :: "(int \<times> int list \<times> pydict) list \<Rightarrow> pydict list \<Rightarrow> pydict list" where
  "add_groups groups ds = fold (\<lambda>(_, _, d). add_record d) groups ds"

text \<open>Records are compared as they were written: the code's own have their entries in one order.\<close>

definition start_failed :: "proc_world \<Rightarrow> string \<Rightarrow> write_answer \<Rightarrow> pydict \<Rightarrow> bool \<Rightarrow> unit project_step" where
  "start_failed w project answer d terminated =
     prj_bind (load_runtime_state w project) (\<lambda>state.
     prj_bind startups (\<lambda>startup.
       let kept = add_groups (rs_groups state) (rs_live state);
           retained = (if terminated then kept else add_record d kept);
           token = (case startup of Some u \<Rightarrow> if rs_token state = Some (su_token u) then rs_token state else None | None \<Rightarrow> None)
       in write_doc put_state answer (state_doc retained token)))"

definition start_released :: "py_exn option \<Rightarrow> string \<Rightarrow> bool \<Rightarrow> unit project_step" where
  "start_released answer token preserve =
     prj_bind startups (\<lambda>startup.
     case startup of
       None \<Rightarrow> prj_ret ()
     | Some u \<Rightarrow> if su_token u = token \<and> su_unresolved u = None \<and> \<not> preserve then unlink_doc put_startup answer else prj_ret ())"

section \<open>Stopping\<close>

text \<open>\<open>so_estop\<close> is the answer of the emergency stop's service, \<^verbatim>\<open>OSError\<close> standing for a timeout too; \<open>so_unlink\<close> gives
  those of the removals in their order in the text.\<close>

record stop_os =
  so_cancel :: write_answer
  so_estop :: "unit result"
  so_state :: write_answer
  so_unlink :: "nat \<Rightarrow> py_exn option"

record stop_answer =
  sp_ok :: bool
  sp_running :: bool
  sp_terminated :: "bool list"
  sp_stale :: "pydict list"
  sp_groups :: "(int \<times> int list) list"

definition startup_unsure :: "startup option \<Rightarrow> int option \<Rightarrow> bool" where
  "startup_unsure startup failure \<longleftrightarrow> (\<exists>u. startup = Some u \<and> (su_unresolved u \<noteq> None \<or> su_handoff u)) \<or> failure \<noteq> None"

definition cancel_startup :: "stop_os \<Rightarrow> startup option \<Rightarrow> bool \<Rightarrow> unit project_step" where
  "cancel_startup os startup unsure =
     (case startup of
        Some u \<Rightarrow> if unsure then prj_ret () else write_doc put_startup (so_cancel os) (startup_doc (su_token u) True (su_handoff u) None)
      | None \<Rightarrow> prj_ret ())"

text \<open>A reservation of which only the phase is known, whose launch is the one in the state file.\<close>

definition phase_only :: "string \<Rightarrow> startup option \<Rightarrow> int option \<Rightarrow> runtime_state \<Rightarrow> bool result" where
  "phase_only project startup failure state =
     (let authority = rs_live state @ rs_stale state @ map (\<lambda>(_, _, d). d) (rs_groups state) in
      case startup of
        None \<Rightarrow> Ret False
      | Some u \<Rightarrow>
          if su_handoff u \<and> su_unresolved u = None \<and> failure = None \<and> rs_token state = Some (su_token u) \<and> authority \<noteq> []
          then py_and (map (authorized_launch project) authority) else Ret False)"

definition unresolved_launch :: "startup option \<Rightarrow> int option \<Rightarrow> (int \<times> pydict option) option" where
  "unresolved_launch startup failure =
     (case startup of
        Some u \<Rightarrow> (case su_unresolved u of Some x \<Rightarrow> Some x | None \<Rightarrow> map_option (\<lambda>p. (p, None)) failure)
      | None \<Rightarrow> map_option (\<lambda>p. (p, None)) failure)"

definition members_now :: "proc_world \<Rightarrow> int \<Rightarrow> int list project_step" where
  "members_now w pid = looking w (\<lambda>m. Ret (sort (group_members (pm_scan m) pid)))"

definition end_unresolved :: "proc_world \<Rightarrow> string \<Rightarrow> int list \<Rightarrow> pydict option \<Rightarrow> bool project_step" where
  "end_unresolved w project members known =
     (case known of
        Some d \<Rightarrow>
          if members = [] then prj_ret False
          else prj_bind (prj_of (authorized_launch project d)) (\<lambda>authorized. if \<not> authorized then prj_ret False
            else prj_bind (looking w (\<lambda>m. process_matches (pm_look m) (VDict d))) (\<lambda>same. if \<not> same then prj_ret False
              else process_step (terminate_managed_process project w (Fin 8) True d)))
      | None \<Rightarrow> prj_ret False)"

text \<open>Whether the startup is still not sure, and the groups that are in the way.\<close>

definition settle_startup :: "proc_world \<Rightarrow> string \<Rightarrow> stop_os \<Rightarrow> (int \<times> pydict option) option \<Rightarrow> bool \<Rightarrow> (bool \<times> (int \<times> int list) list) project_step" where
  "settle_startup w project os launch unsure =
     (case launch of
        None \<Rightarrow> prj_ret (unsure, [])
      | Some (pid, known) \<Rightarrow>
          if \<not> unsure then prj_ret (unsure, [])
          else prj_bind (members_now w pid) (\<lambda>members.
            prj_bind (end_unresolved w project members known) (\<lambda>ended.
            prj_bind (if ended then members_now w pid else prj_ret members) (\<lambda>left.
              if left \<noteq> [] then prj_ret (True, [(pid, left)])
              else prj_bind (unlink_doc put_startup (so_unlink os 0)) (\<lambda>_.
                prj_bind (unlink_doc put_failure (so_unlink os 1)) (\<lambda>_. prj_ret (False, [])))))))"

definition estop_mission :: "stop_os \<Rightarrow> pydict list \<Rightarrow> unit project_step" where
  "estop_mission os live =
     (if live = [] then prj_ret () else case so_estop os of Inl e \<Rightarrow> if e = PyOSError then prj_ret () else prj_raise e | Inr _ \<Rightarrow> prj_ret ())"

fun terminate_all :: "proc_world \<Rightarrow> string \<Rightarrow> pydict list \<Rightarrow> bool list project_step" where
  "terminate_all w project [] = prj_ret []"
| "terminate_all w project (d # ds) =
     prj_bind (process_step (terminate_managed_process project w (Fin 8) True d)) (\<lambda>b. prj_bind (terminate_all w project ds) (\<lambda>bs. prj_ret (b # bs)))"

definition remaining_records :: "runtime_state \<Rightarrow> bool list \<Rightarrow> pydict list" where
  "remaining_records state results = add_groups (rs_groups state) (map fst (filter (\<lambda>x. \<not> snd x) (zip (rs_live state) results)))"

definition commit_phase :: "stop_os \<Rightarrow> bool \<Rightarrow> bool \<Rightarrow> bool project_step" where
  "commit_phase os settled unsure =
     (if settled
      then prj_bind (unlink_doc put_startup (so_unlink os 2)) (\<lambda>_. prj_bind (unlink_doc put_failure (so_unlink os 3)) (\<lambda>_. prj_ret False))
      else prj_ret unsure)"

definition clear_startup :: "stop_os \<Rightarrow> bool \<Rightarrow> unit project_step" where
  "clear_startup os unsure =
     (if unsure then prj_ret ()
      else prj_bind (unlink_doc put_startup (so_unlink os 4)) (\<lambda>_. unlink_doc put_failure (so_unlink os 5)))"

definition stop_processes ::
  "proc_world \<Rightarrow> string \<Rightarrow> stop_os \<Rightarrow> startup option \<Rightarrow> runtime_state \<Rightarrow> bool \<Rightarrow> bool \<Rightarrow> (int \<times> int list) list \<Rightarrow> stop_answer project_step" where
  "stop_processes w project os startup state committed unsure blocked =
     prj_bind (estop_mission os (rs_live state)) (\<lambda>_.
     prj_bind (terminate_all w project (rs_live state)) (\<lambda>results.
       let remaining = remaining_records state results in
     prj_bind (commit_phase os (committed \<and> list_all id results \<and> rs_groups state = [] \<and> remaining = []) unsure) (\<lambda>unsure'.
       let token = (if committed \<and> unsure' then map_option su_token startup else None) in
     prj_bind (write_doc put_state (so_state os) (state_doc remaining token)) (\<lambda>_.
     prj_bind (clear_startup os unsure') (\<lambda>_.
       prj_ret \<lparr>sp_ok = list_all id results \<and> rs_groups state = [] \<and> \<not> unsure', sp_running = remaining \<noteq> [] \<or> unsure', sp_terminated = results,
         sp_stale = rs_stale state, sp_groups = map (\<lambda>(g, ms, _). (g, ms)) (rs_groups state) @ blocked\<rparr>)))))"

definition stop_project :: "proc_world \<Rightarrow> string \<Rightarrow> stop_os \<Rightarrow> stop_answer project_step" where
  "stop_project w project os =
     prj_bind startups (\<lambda>startup. prj_bind failures (\<lambda>failure.
       let unsure = startup_unsure startup failure in
     prj_bind (cancel_startup os startup unsure) (\<lambda>_.
     prj_bind (load_runtime_state w project) (\<lambda>state.
     prj_bind (prj_of (phase_only project startup failure state)) (\<lambda>committed.
     prj_bind (settle_startup w project os (unresolved_launch startup failure) unsure) (\<lambda>(unsure', blocked).
       stop_processes w project os startup state committed unsure' blocked))))))"

section \<open>Looking\<close>

record status_answer =
  sa_running :: bool
  sa_live :: "pydict list"
  sa_stale :: "pydict list"
  sa_groups :: "(int \<times> int list) list"

definition project_status :: "proc_world \<Rightarrow> string \<Rightarrow> status_answer project_step" where
  "project_status w project =
     prj_bind (load_runtime_state w project) (\<lambda>state.
     prj_bind startups (\<lambda>startup.
     prj_bind failures (\<lambda>failure.
     prj_bind (case unresolved_launch startup failure of
         None \<Rightarrow> prj_ret []
       | Some (pid, _) \<Rightarrow> prj_bind (members_now w pid) (\<lambda>members. prj_ret [(pid, members)])) (\<lambda>more.
       prj_ret \<lparr>sa_running = rs_live state \<noteq> [] \<or> rs_groups state \<noteq> [] \<or> startup \<noteq> None \<or> failure \<noteq> None, sa_live = rs_live state,
         sa_stale = rs_stale state, sa_groups = map (\<lambda>(g, ms, _). (g, ms)) (rs_groups state) @ more\<rparr>))))"

end
