(* ===== verification/ProjectMachine.thy ===== *)
theory ProjectMachine
  imports ProjectLifecycle Machines
begin

text \<open>
  What holds of the project's files between any two regions of its command lines, and a stop from there on: the invariant over the three files, the
  starting command lines and the launches that are loose, that is spawned and with a process group that was not seen to be empty since.
\<close>

section \<open>Records and groups\<close>

definition group_ended :: "proc_world \<Rightarrow> int \<Rightarrow> nat \<Rightarrow> nat \<Rightarrow> bool" where
  "group_ended w p a b \<longleftrightarrow> (\<exists>k. a \<le> k \<and> k < b \<and> (group_members (pm_scan (w k)) p = [] \<or> pm_signal (w k) True p = NoSuchProcess))"

lemma group_ended_mono: "group_ended w p a b \<Longrightarrow> a' \<le> a \<Longrightarrow> b \<le> b' \<Longrightarrow> group_ended w p a' b'"
  unfolding group_ended_def by (meson le_trans less_le_trans)

definition record_of :: "string \<Rightarrow> int \<Rightarrow> pydict \<Rightarrow> bool" where
  "record_of project p d \<longleftrightarrow> authorized_launch project d = Ret True \<and> launch_target d = Ret (p, True) \<and> pgid_entry d = Ret p"

definition recorded :: "string \<Rightarrow> int \<Rightarrow> stored \<Rightarrow> bool" where
  "recorded project p x \<longleftrightarrow> (\<exists>v vs token d. x = Stored v \<and> state_payload v = Ret (vs, token) \<and> VDict d \<in> set vs \<and> record_of project p d)"

definition state_token :: "stored \<Rightarrow> string option" where
  "state_token x = (case x of Stored v \<Rightarrow> (case state_payload v of Inr (_, token) \<Rightarrow> token | Inl _ \<Rightarrow> None) | _ \<Rightarrow> None)"

abbreviation turn_of :: "project \<Rightarrow> nat" where "turn_of s \<equiv> pr_turn (prj_run s)"

lemma ended_by_termination:
  assumes "terminate_managed_process project w t require d r = Some (Ret True, r1)" "record_of project p d"
  shows "group_ended w p (pr_turn r) (pr_turn r1)"
proof -
  from terminate_managed_result [OF assms(1)] assms(2)
  have turn: "Suc (pr_turn r) < pr_turn r1" and "seen_gone w (target_gone d p True) r r1 \<or> pm_signal (w (Suc (pr_turn r))) True p = NoSuchProcess"
    by (auto simp: record_of_def)
  then show ?thesis
  proof (elim disjE)
    assume "seen_gone w (target_gone d p True) r r1"
    then show ?thesis by (auto simp: seen_gone_def target_gone_def group_ended_def)
  next
    assume "pm_signal (w (Suc (pr_turn r))) True p = NoSuchProcess"
    with turn show ?thesis unfolding group_ended_def by (intro exI [of _ "Suc (pr_turn r)"]) simp
  qed
qed

lemma terminate_turn: "terminate_managed_process project w t require d r = Some (res, r1) \<Longrightarrow> pr_turn r \<le> pr_turn r1"
  using terminate_managed_result by fastforce

lemma standing_of_record:
  assumes "standing_of w project (VDict d) s = Some (Inr x, s1)" "record_of project p d"
  shows "x = (d, Live) \<or> (\<exists>g ms. x = (d, Unresolved g ms)) \<or> group_ended w p (turn_of s) (turn_of s1)"
proof -
  have auth: "authorized_launch project d = Ret True" "pgid_entry d = Ret p" using assms(2) by (simp_all add: record_of_def)
  show ?thesis
  proof (cases "process_matches (pm_look (moment_of w (prj_run s))) (VDict d) = Ret True")
    case True
    with assms(1) show ?thesis by (auto simp: standing_of_def prj_bind_Some looking_def prj_of_def)
  next
    case False
    let ?members = "group_members (pm_scan (w (Suc (turn_of s)))) p"
    from False assms(1) auth have "x = (d, if ?members = [] then Stale else Unresolved p (sort ?members))" "turn_of s1 = Suc (Suc (turn_of s))"
      by (auto simp: standing_of_def prj_bind_Some looking_def prj_of_def split: if_splits) (metis list.size(3) length_0_conv length_sort)+
    then show ?thesis by (auto simp: group_ended_def split: if_splits intro: exI [of _ "Suc (turn_of s)"])
  qed
qed

lemma standings_record:
  assumes "standings w project vs s = Some (Inr xs, s1)" "VDict d \<in> set vs" "record_of project p d"
  shows "(d, Live) \<in> set xs \<or> (\<exists>g ms. (d, Unresolved g ms) \<in> set xs) \<or> group_ended w p (turn_of s) (turn_of s1)"
  using assms
proof (induction vs arbitrary: s xs)
  case (Cons v vs)
  from Cons.prems(1) obtain x ys s2 where x: "standing_of w project v s = Some (Inr x, s2)" "standings w project vs s2 = Some (Inr ys, s1)" "xs = x # ys"
    by (auto simp: prj_bind_Some prj_of_def)
  have turns: "turn_of s \<le> turn_of s2" "turn_of s2 \<le> turn_of s1"
    using only_looksD(4) [OF only_looks_standing x(1)] only_looksD(4) [OF only_looks_standings x(2)] by simp_all
  show ?case
  proof (cases "v = VDict d")
    case True
    with standing_of_record [of w project d s x s2 p] x Cons.prems(3) turns show ?thesis by (auto intro: group_ended_mono)
  next
    case False
    with Cons.prems(2) have "VDict d \<in> set vs" by simp
    from Cons.IH [OF x(2) this Cons.prems(3)] x(3) turns show ?thesis by (auto intro: group_ended_mono)
  qed
qed simp

text \<open>What a load of the state says of a recorded launch.\<close>

definition in_state :: "string \<Rightarrow> int \<Rightarrow> runtime_state \<Rightarrow> bool" where
  "in_state project p st \<longleftrightarrow> (\<exists>d. record_of project p d \<and> (d \<in> set (rs_live st) \<or> d \<in> set (map (\<lambda>(_, _, d). d) (rs_groups st))))"

lemma load_state_Inr:
  assumes "load_runtime_state w project s = Some (Inr st, s1)"
  shows "rs_token st = state_token (prj_state s)"
    "recorded project p (prj_state s) \<Longrightarrow> in_state project p st \<or> group_ended w p (turn_of s) (turn_of s1)"
proof -
  from assms consider (none) "prj_state s = Missing" "rs_token st = None"
    | (some) v vs token xs where "prj_state s = Stored v" "state_payload v = Ret (vs, token)" "standings w project vs s = Some (Inr xs, s1)"
        "st = \<lparr>rs_live = map fst (filter (\<lambda>x. snd x = Live) xs), rs_stale = map fst (filter (\<lambda>x. snd x \<noteq> Live) xs),
             rs_groups = concat (map group_of_standing xs), rs_token = token\<rparr>"
    by (cases "prj_state s") (auto simp: load_runtime_state_def prj_bind_Some reading_file_def prj_of_def)
  note cases = this
  from cases show "rs_token st = state_token (prj_state s)" by cases (simp_all add: state_token_def)
  show "in_state project p st \<or> group_ended w p (turn_of s) (turn_of s1)" if "recorded project p (prj_state s)"
    using cases
  proof cases
    case none
    with that show ?thesis by (simp add: recorded_def)
  next
    case some
    with that obtain d where d: "VDict d \<in> set vs" "record_of project p d" by (auto simp: recorded_def)
    from standings_record [OF some(3) d] show ?thesis
    proof (elim disjE exE)
      assume "(d, Live) \<in> set xs"
      then have "d \<in> set (rs_live st)" by (force simp: some(4))
      with d(2) show ?thesis by (auto simp: in_state_def)
    next
      fix g ms assume "(d, Unresolved g ms) \<in> set xs"
      then have "(g, ms, d) \<in> set (rs_groups st)" by (force simp: some(4) group_of_standing_def)
      with d(2) show ?thesis by (force simp: in_state_def)
    qed simp
  qed
qed

lemma add_record_set [simp]: "set (add_record d ds) = insert d (set ds)"
  by (auto simp: add_record_def)

lemma add_groups_set [simp]: "set (add_groups groups ds) = set (map (\<lambda>(_, _, d). d) groups) \<union> set ds"
  unfolding add_groups_def by (induction groups arbitrary: ds) auto

lemma recorded_doc:
  "token \<noteq> Some [] \<Longrightarrow> recorded project p (Stored (state_doc ds token)) \<longleftrightarrow> (\<exists>d \<in> set ds. record_of project p d)"
  "token \<noteq> Some [] \<Longrightarrow> state_token (Stored (state_doc ds token)) = token"
  by (auto simp: recorded_def state_token_def state_payload_doc)

section \<open>What holds of the files\<close>

text \<open>Where a starting command line is: before its reservation, between that and the handoff, waiting for the graph, with a launch that did not come up
  and was or was not ended, about to release the reservation unless it is to be preserved, or gone.\<close>

datatype starter = Idle | Reserved | Launched pydict | Ending pydict bool | Leaving bool | Over

text \<open>A launch that no record of the state names is covered by a reservation in its handoff, whose number or marker, if it has one, is its own; and by
  one that has neither only while the state was not written by that handoff.\<close>

definition covered :: "stored \<Rightarrow> startup option \<Rightarrow> int option \<Rightarrow> int \<Rightarrow> bool" where
  "covered st x f p \<longleftrightarrow> (\<exists>u. x = Some u \<and> su_handoff u \<and>
     (case su_unresolved u of Some (q, _) \<Rightarrow> q = p | None \<Rightarrow> (case f of Some q \<Rightarrow> q = p | None \<Rightarrow> state_token st \<noteq> Some (su_token u))))"

definition token_ok :: "(string \<Rightarrow> starter) \<Rightarrow> bool \<Rightarrow> startup \<Rightarrow> bool" where
  "token_ok \<sigma> all_recorded u \<longleftrightarrow> su_token u \<noteq> [] \<and>
     (case \<sigma> (su_token u) of
        Reserved \<Rightarrow> \<not> su_handoff u
      | Leaving preserve \<Rightarrow> preserve \<or> \<not> su_handoff u \<or> su_unresolved u \<noteq> None \<or> all_recorded
      | Over \<Rightarrow> True
      | _ \<Rightarrow> False)"

definition lm_ok :: "string \<Rightarrow> (string \<Rightarrow> starter) \<Rightarrow> int set \<Rightarrow> stored \<Rightarrow> stored \<Rightarrow> stored \<Rightarrow> bool" where
  "lm_ok project \<sigma> L st su fl \<longleftrightarrow> (\<exists>x f. load_startup su = Ret x \<and> load_startup_failure fl = Ret f \<and> (\<exists>q. L \<subseteq> {q}) \<and>
     (\<forall>p \<in> L. recorded project p st \<or> covered st x f p) \<and>
     (\<forall>u. x = Some u \<longrightarrow> token_ok \<sigma> (\<forall>p \<in> L. recorded project p st) u \<and> (\<not> su_handoff u \<longrightarrow> L = {} \<and> f = None)) \<and>
     (\<forall>t. \<sigma> t \<in> {Idle, Reserved} \<longrightarrow> state_token st \<noteq> Some t))"

lemma token_ok_mono: "token_ok \<sigma> b u \<Longrightarrow> (b \<Longrightarrow> b') \<Longrightarrow> token_ok \<sigma> b' u"
  by (auto simp: token_ok_def split: starter.splits)

lemma lm_ok_less: "lm_ok project \<sigma> L st su fl \<Longrightarrow> L' \<subseteq> L \<Longrightarrow> lm_ok project \<sigma> L' st su fl"
  unfolding lm_ok_def
  by (elim exE conjE, rule exI, rule exI, intro conjI) (assumption | blast intro: token_ok_mono)+

lemma lm_okD:
  assumes "lm_ok project \<sigma> L st su fl" "load_startup su = Ret x" "load_startup_failure fl = Ret f"
  shows "\<exists>q. L \<subseteq> {q}" "p \<in> L \<Longrightarrow> recorded project p st \<or> covered st x f p"
    "x = Some u \<Longrightarrow> token_ok \<sigma> (\<forall>p \<in> L. recorded project p st) u" "x = Some u \<Longrightarrow> \<not> su_handoff u \<Longrightarrow> L = {} \<and> f = None"
    "\<sigma> t \<in> {Idle, Reserved} \<Longrightarrow> state_token st \<noteq> Some t"
  using assms unfolding lm_ok_def by auto

lemma lm_okI:
  assumes "load_startup su = Ret x" "load_startup_failure fl = Ret f" "L \<subseteq> {q}" "\<And>p. p \<in> L \<Longrightarrow> recorded project p st \<or> covered st x f p"
    "\<And>u. x = Some u \<Longrightarrow> token_ok \<sigma> (\<forall>p \<in> L. recorded project p st) u" "\<And>u. x = Some u \<Longrightarrow> \<not> su_handoff u \<Longrightarrow> L = {} \<and> f = None"
    "\<And>t. \<sigma> t \<in> {Idle, Reserved} \<Longrightarrow> state_token st \<noteq> Some t"
  shows "lm_ok project \<sigma> L st su fl"
  unfolding lm_ok_def using assms by (intro exI [of _ x] exI [of _ f] conjI exI [of _ q]) auto

lemma load_Missing [simp]: "load_startup Missing = Ret None" "load_startup_failure Missing = Ret None"
  by (simp_all add: load_startup_def load_startup_failure_def)

text \<open>When every loose launch is in the state, the reservation and the marker may go.\<close>

lemma lm_ok_unlinked:
  assumes "lm_ok project \<sigma> L st su fl" "\<And>p. p \<in> L \<Longrightarrow> recorded project p st"
  shows "lm_ok project \<sigma> L st Missing fl" "lm_ok project \<sigma> L st su Missing"
proof -
  from assms(1) obtain x f where xf: "load_startup su = Ret x" "load_startup_failure fl = Ret f" unfolding lm_ok_def by blast
  note ok = lm_okD [OF assms(1) xf]
  obtain q where q: "L \<subseteq> {q}" using ok(1) by blast
  show "lm_ok project \<sigma> L st Missing fl" by (rule lm_okI [OF load_Missing(1) xf(2) q]) (use ok assms(2) in auto)
  show "lm_ok project \<sigma> L st su Missing" by (rule lm_okI [OF xf(1) load_Missing(2) q]) (use ok assms(2) in auto)
qed

section \<open>Steps with exceptions\<close>

text \<open>From where \<open>P\<close> holds a step ends where \<open>Q\<close> does, of what it gives, or raises where \<open>R\<close> does.\<close>

definition leads :: "(project \<Rightarrow> bool) \<Rightarrow> 'a project_step \<Rightarrow> ('a \<Rightarrow> project \<Rightarrow> bool) \<Rightarrow> (project \<Rightarrow> bool) \<Rightarrow> bool" where
  "leads P m Q R \<longleftrightarrow> (\<forall>s x s1. P s \<longrightarrow> m s = Some (Inr x, s1) \<longrightarrow> Q x s1) \<and> (\<forall>s e s1. P s \<longrightarrow> m s = Some (Inl e, s1) \<longrightarrow> R s1)"

lemma leadsI: "(\<And>s x s1. P s \<Longrightarrow> m s = Some (Inr x, s1) \<Longrightarrow> Q x s1) \<Longrightarrow> (\<And>s e s1. P s \<Longrightarrow> m s = Some (Inl e, s1) \<Longrightarrow> R s1) \<Longrightarrow> leads P m Q R"
  unfolding leads_def by blast

lemma leadsD: "leads P m Q R \<Longrightarrow> P s \<Longrightarrow> m s = Some (Inr x, s1) \<Longrightarrow> Q x s1" "leads P m Q R \<Longrightarrow> P s \<Longrightarrow> m s = Some (Inl e, s1) \<Longrightarrow> R s1"
  unfolding leads_def by blast+

lemma leads_bind:
  assumes "leads P m Q R" "\<And>x. leads (Q x) (f x) Q' R" shows "leads P (prj_bind m f) Q' R"
proof (rule leadsI)
  fix s x s1 assume "P s" "prj_bind m f s = Some (Inr x, s1)"
  then show "Q' x s1" unfolding prj_bind_Some using leadsD(1) [OF assms(1)] leadsD(1) [OF assms(2)] by blast
next
  fix s e s1 assume "P s" "prj_bind m f s = Some (Inl e, s1)"
  then show "R s1" unfolding prj_bind_Some using leadsD [OF assms(1)] leadsD(2) [OF assms(2)] by blast
qed

lemma leads_of: "(\<And>s x. P s \<Longrightarrow> r = Inr x \<Longrightarrow> Q x s) \<Longrightarrow> (\<And>s. P s \<Longrightarrow> R s) \<Longrightarrow> leads P (prj_of r) Q R"
  by (rule leadsI) (auto simp: prj_of_def)

lemma leads_known: "(\<And>s. P s \<Longrightarrow> R s) \<Longrightarrow> leads P (prj_of r) (\<lambda>x s. P s \<and> r = Ret x) R"
  by (rule leads_of) simp_all

lemma leads_ret: "(\<And>s. P s \<Longrightarrow> Q x s) \<Longrightarrow> leads P (prj_ret x) Q R"
  by (rule leadsI) (auto simp: prj_of_def)

lemma leads_raise: "(\<And>s. P s \<Longrightarrow> R s) \<Longrightarrow> leads P (prj_raise e) Q R"
  by (rule leadsI) (auto simp: prj_of_def)

lemma leads_if: "(b \<Longrightarrow> leads P m Q R) \<Longrightarrow> (\<not> b \<Longrightarrow> leads P m' Q R) \<Longrightarrow> leads P (if b then m else m') Q R"
  by simp

lemma leads_weaken: "leads P m Q R \<Longrightarrow> (\<And>s. P' s \<Longrightarrow> P s) \<Longrightarrow> (\<And>x s. Q x s \<Longrightarrow> Q' x s) \<Longrightarrow> leads P' m Q' R"
  unfolding leads_def by blast

lemma leads_ex: "(\<And>a. leads (P a) m Q R) \<Longrightarrow> leads (\<lambda>s. \<exists>a. P a s) m Q R"
  unfolding leads_def by blast

lemma leads_fact: "(F \<Longrightarrow> leads P m Q R) \<Longrightarrow> leads (\<lambda>s. P s \<and> F) m Q R"
  unfolding leads_def by blast

section \<open>The launches that are loose\<close>

definition loose_now :: "proc_world \<Rightarrow> int set \<Rightarrow> project \<Rightarrow> int set" where
  "loose_now w L s = {p \<in> L. \<not> group_ended w p 0 (turn_of s)}"

text \<open>The files are these, all is well with them, and \<open>Q\<close> holds of every launch that is still loose.\<close>

definition files_are :: "proc_world \<Rightarrow> string \<Rightarrow> (string \<Rightarrow> starter) \<Rightarrow> int set \<Rightarrow> stored \<Rightarrow> stored \<Rightarrow> stored \<Rightarrow> (int \<Rightarrow> bool) \<Rightarrow> project \<Rightarrow> bool" where
  "files_are w project \<sigma> L st su fl Q s \<longleftrightarrow> prj_state s = st \<and> prj_startup s = su \<and> prj_failure s = fl \<and>
     lm_ok project \<sigma> (loose_now w L s) st su fl \<and> (\<forall>p \<in> loose_now w L s. Q p)"

definition files_ok :: "proc_world \<Rightarrow> string \<Rightarrow> (string \<Rightarrow> starter) \<Rightarrow> int set \<Rightarrow> project \<Rightarrow> bool" where
  "files_ok w project \<sigma> L s \<longleftrightarrow> lm_ok project \<sigma> (loose_now w L s) (prj_state s) (prj_startup s) (prj_failure s)"

lemma loose_now_less: "turn_of s \<le> turn_of s1 \<Longrightarrow> loose_now w L s1 \<subseteq> loose_now w L s"
  by (auto simp: loose_now_def intro: group_ended_mono)

lemma loose_nowI: "p \<in> loose_now w L s1 \<Longrightarrow> group_ended w p a b \<Longrightarrow> b \<le> turn_of s1 \<Longrightarrow> False"
  by (auto simp: loose_now_def intro: group_ended_mono)

lemma files_are_ok: "files_are w project \<sigma> L st su fl Q s \<Longrightarrow> files_ok w project \<sigma> L s"
  by (auto simp: files_are_def files_ok_def)

lemma files_are_later:
  assumes "files_are w project \<sigma> L st su fl Q s" "prj_state s1 = prj_state s" "prj_startup s1 = prj_startup s" "prj_failure s1 = prj_failure s"
    "turn_of s \<le> turn_of s1" "\<And>p. p \<in> loose_now w L s1 \<Longrightarrow> Q p \<Longrightarrow> Q' p"
  shows "files_are w project \<sigma> L st su fl Q' s1"
  using assms loose_now_less [OF assms(5), of w L] unfolding files_are_def by (auto intro: lm_ok_less)

lemma leads_looks:
  assumes "only_looks m" shows "leads (files_are w project \<sigma> L st su fl Q) m (\<lambda>_. files_are w project \<sigma> L st su fl Q) (files_ok w project \<sigma> L)"
proof (rule leadsI)
  fix s x s1 assume "files_are w project \<sigma> L st su fl Q s" "m s = Some (Inr x, s1)"
  then show "files_are w project \<sigma> L st su fl Q s1" using only_looksD [OF assms, of s "Inr x" s1] by (auto intro: files_are_later)
next
  fix s e s1 assume "files_are w project \<sigma> L st su fl Q s" "m s = Some (Inl e, s1)"
  then have "files_are w project \<sigma> L st su fl Q s1" using only_looksD [OF assms, of s "Inl e" s1] by (auto intro: files_are_later)
  then show "files_ok w project \<sigma> L s1" by (rule files_are_ok)
qed

lemma process_step_looks: "(\<And>r res r1. f r = Some (res, r1) \<Longrightarrow> pr_turn r \<le> pr_turn r1) \<Longrightarrow> only_looks (process_step f)"
  by (auto simp: only_looks_def process_step_def split: option.splits)

lemma only_looks_terminate: "only_looks (process_step (terminate_managed_process project w t require d))"
  by (rule process_step_looks) (rule terminate_turn)

lemma only_looks_all: "only_looks (terminate_all w project ds)"
  by (induction ds) (auto intro!: only_looks_bind only_looks_terminate)

lemma only_looks_unresolved: "only_looks (end_unresolved w project members known)"
  unfolding end_unresolved_def by (auto intro!: only_looks_bind only_looks_terminate split: option.split)

text \<open>A load of the state.\<close>

lemma leads_load:
  "leads (files_are w project \<sigma> L st su fl Q) (load_runtime_state w project)
    (\<lambda>state s. files_are w project \<sigma> L st su fl (\<lambda>p. Q p \<and> (recorded project p st \<longrightarrow> in_state project p state)) s \<and> rs_token state = state_token st)
    (files_ok w project \<sigma> L)"
proof (rule leadsI)
  fix s state s1 assume s: "files_are w project \<sigma> L st su fl Q s" and load: "load_runtime_state w project s = Some (Inr state, s1)"
  note looks = only_looksD [OF only_looks_load load]
  have st: "prj_state s = st" using s by (simp add: files_are_def)
  have "in_state project p state" if "p \<in> loose_now w L s1" "recorded project p st" for p
    using load_state_Inr(2) [OF load, of p] loose_nowI [OF that(1)] that(2) st by auto
  then have "files_are w project \<sigma> L st su fl (\<lambda>p. Q p \<and> (recorded project p st \<longrightarrow> in_state project p state)) s1"
    by (intro files_are_later [OF s]) (use looks in auto)
  then show "files_are w project \<sigma> L st su fl (\<lambda>p. Q p \<and> (recorded project p st \<longrightarrow> in_state project p state)) s1 \<and> rs_token state = state_token st"
    using load_state_Inr(1) [OF load] st by simp
next
  fix s e s1 assume "files_are w project \<sigma> L st su fl Q s" "load_runtime_state w project s = Some (Inl e, s1)"
  with leadsD(2) [OF leads_looks [OF only_looks_load]] show "files_ok w project \<sigma> L s1" by metis
qed

text \<open>Ending the processes of a state: what of it is still loose remains.\<close>

definition remains :: "string \<Rightarrow> runtime_state \<Rightarrow> bool list \<Rightarrow> int \<Rightarrow> bool" where
  "remains project state results p \<longleftrightarrow> (\<exists>d \<in> set (remaining_records state results). record_of project p d)"

lemma terminate_all_record:
  assumes "terminate_all w project ds s = Some (Inr bs, s1)" "d \<in> set ds" "record_of project p d"
  shows "(d, False) \<in> set (zip ds bs) \<or> group_ended w p (turn_of s) (turn_of s1)"
  using assms
proof (induction ds arbitrary: s bs)
  case (Cons c ds)
  from Cons.prems(1) obtain b cs s2 where b: "process_step (terminate_managed_process project w (Fin 8) True c) s = Some (Inr b, s2)"
    "terminate_all w project ds s2 = Some (Inr cs, s1)" "bs = b # cs"
    by (auto simp: prj_bind_Some prj_of_def)
  have turns: "turn_of s \<le> turn_of s2" "turn_of s2 \<le> turn_of s1"
    using only_looksD(4) [OF only_looks_terminate b(1)] only_looksD(4) [OF only_looks_all b(2)] by simp_all
  show ?case
  proof (cases "d \<in> set ds")
    case True
    from Cons.IH [OF b(2) True Cons.prems(3)] b(3) turns show ?thesis by (auto intro: group_ended_mono)
  next
    case False
    with Cons.prems(2) have c: "c = d" by simp
    have "group_ended w p (turn_of s) (turn_of s2)" if "b"
      using b(1) that c ended_by_termination [OF _ Cons.prems(3)] by (auto simp: process_step_def split: option.splits)
    then show ?thesis using c b(3) turns by (cases b) (auto intro: group_ended_mono)
  qed
qed simp

lemma leads_terminate_all:
  "leads (files_are w project \<sigma> L st su fl (\<lambda>p. Q p \<and> (recorded project p st \<longrightarrow> in_state project p state))) (terminate_all w project (rs_live state))
    (\<lambda>results. files_are w project \<sigma> L st su fl (\<lambda>p. Q p \<and> (recorded project p st \<longrightarrow> remains project state results p))) (files_ok w project \<sigma> L)"
proof (rule leadsI)
  fix s bs s1 assume s: "files_are w project \<sigma> L st su fl (\<lambda>p. Q p \<and> (recorded project p st \<longrightarrow> in_state project p state)) s"
    and all: "terminate_all w project (rs_live state) s = Some (Inr bs, s1)"
  note looks = only_looksD [OF only_looks_all all]
  have "remains project state bs p" if "p \<in> loose_now w L s1" "in_state project p state" for p
  proof -
    from that(2) obtain d where d: "record_of project p d" "d \<in> set (rs_live state) \<or> d \<in> set (map (\<lambda>(_, _, d). d) (rs_groups state))"
      unfolding in_state_def by blast
    from d(2) have "d \<in> set (remaining_records state bs)"
    proof
      assume "d \<in> set (rs_live state)"
      from terminate_all_record [OF all this d(1)] loose_nowI [OF that(1)] have "(d, False) \<in> set (zip (rs_live state) bs)" by auto
      then show ?thesis by (force simp: remaining_records_def)
    qed (simp add: remaining_records_def)
    with d(1) show ?thesis by (auto simp: remains_def)
  qed
  then show "files_are w project \<sigma> L st su fl (\<lambda>p. Q p \<and> (recorded project p st \<longrightarrow> remains project state bs p)) s1"
    by (intro files_are_later [OF s]) (use looks in auto)
next
  fix s e s1 assume "files_are w project \<sigma> L st su fl (\<lambda>p. Q p \<and> (recorded project p st \<longrightarrow> in_state project p state)) s"
    "terminate_all w project (rs_live state) s = Some (Inl e, s1)"
  with leadsD(2) [OF leads_looks [OF only_looks_all]] show "files_ok w project \<sigma> L s1" by metis
qed

section \<open>A stop\<close>

lemma leads_write:
  assumes "\<And>s. P s \<Longrightarrow> Q () (put (Stored v) s)" "\<And>s. P s \<Longrightarrow> R (put (Stored v) s)" "\<And>s. P s \<Longrightarrow> R s"
  shows "leads P (write_doc put answer v) Q R"
  by (rule leadsI) (use assms in \<open>auto simp: write_doc_def split: write_answer.splits\<close>)

lemma leads_unlink: "(\<And>s. P s \<Longrightarrow> Q () (put Missing s)) \<Longrightarrow> (\<And>s. P s \<Longrightarrow> R s) \<Longrightarrow> leads P (unlink_doc put answer) Q R"
  by (rule leadsI) (auto simp: unlink_doc_def split: option.splits)

lemma loose_now_put [simp]: "loose_now w L (put_state x s) = loose_now w L s" "loose_now w L (put_startup x s) = loose_now w L s" "loose_now w L (put_failure x s) = loose_now w L s"
  by (simp_all add: loose_now_def)

lemma cancelled_ok:
  assumes ok: "lm_ok project \<sigma> L st su fl" and load: "load_startup su = Ret (Some u)" "\<not> su_handoff u"
  shows "lm_ok project \<sigma> L st (Stored (startup_doc (su_token u) True (su_handoff u) None)) fl"
proof -
  obtain f where f: "load_startup_failure fl = Ret f" using ok unfolding lm_ok_def by blast
  note d = lm_okD [OF ok load(1) f]
  have none: "L = {}" "f = None" and tok: "su_token u \<noteq> []" using d(4) [OF refl load(2)] d(3) [OF refl] by (auto simp: token_ok_def)
  have "token_ok \<sigma> b \<lparr>su_token = su_token u, su_cancelled = True, su_handoff = su_handoff u, su_unresolved = None\<rparr>" for b
    using d(3) [OF refl] load(2) by (auto simp: token_ok_def split: starter.splits)
  then show ?thesis using load(2) none d(5) by (intro lm_okI [OF load_startup_doc f, where q = 0]) (use tok in auto)
qed

lemma leads_cancel:
  assumes "load_startup su = Ret x" "load_startup_failure fl = Ret f" "unsure = startup_unsure x f"
  shows "leads (files_are w project \<sigma> L st su fl (\<lambda>_. True)) (cancel_startup os x unsure)
    (\<lambda>_ s. \<exists>su'. files_are w project \<sigma> L st su' fl (\<lambda>p. \<not> unsure \<longrightarrow> recorded project p st) s \<and> (unsure \<longrightarrow> su' = su)) (files_ok w project \<sigma> L)"
proof (cases unsure)
  case True
  then have "cancel_startup os x unsure = prj_ret ()" by (auto simp: cancel_startup_def split: option.split)
  then show ?thesis using True by (auto intro!: leads_ret simp: files_are_def)
next
  case False
  then have f: "f = None" using assms(3) by (simp add: startup_unsure_def)
  show ?thesis
  proof (cases x)
    case None
    have "recorded project p st" if "files_are w project \<sigma> L st su fl (\<lambda>_. True) s" "p \<in> loose_now w L s" for s p
      using that lm_okD(2) [of project \<sigma> "loose_now w L s" st su fl x f p] assms(1,2) None by (auto simp: files_are_def covered_def)
    then show ?thesis using None by (auto intro!: leads_ret simp: cancel_startup_def files_are_def)
  next
    case (Some u)
    with False assms(3) have u: "\<not> su_handoff u" by (auto simp: startup_unsure_def)
    let ?su = "Stored (startup_doc (su_token u) True (su_handoff u) None)"
    have none: "loose_now w L s = {}" and ok: "lm_ok project \<sigma> (loose_now w L s) st ?su fl" if "files_are w project \<sigma> L st su fl (\<lambda>_. True) s" for s
      using that lm_okD(4) [of project \<sigma> "loose_now w L s" st su fl x f u] cancelled_ok [of project \<sigma> "loose_now w L s" st su fl u] assms(1,2) Some u
      by (auto simp: files_are_def)
    have new: "files_are w project \<sigma> L st ?su fl (\<lambda>p. \<not> unsure \<longrightarrow> recorded project p st) (put_startup ?su s)"
      if "files_are w project \<sigma> L st su fl (\<lambda>_. True) s" for s
      using that none [OF that] ok [OF that] by (simp add: files_are_def)
    have "leads (files_are w project \<sigma> L st su fl (\<lambda>_. True)) (write_doc put_startup (so_cancel os) (startup_doc (su_token u) True (su_handoff u) None))
        (\<lambda>_ s. \<exists>su'. files_are w project \<sigma> L st su' fl (\<lambda>p. \<not> unsure \<longrightarrow> recorded project p st) s \<and> (unsure \<longrightarrow> su' = su)) (files_ok w project \<sigma> L)"
      by (rule leads_write) (use False in \<open>blast intro: new files_are_ok\<close>)+
    then show ?thesis using Some False by (simp add: cancel_startup_def)
  qed
qed

text \<open>The phase alone is enough only when the state was written by the handoff.\<close>

lemma phase_only_True:
  assumes "phase_only project x f state = Ret True"
  obtains u where "x = Some u" "su_handoff u" "su_unresolved u = None" "f = None" "rs_token state = Some (su_token u)"
  using assms that by (auto simp: phase_only_def Let_def split: option.splits if_splits)

lemma members_now_Some: "members_now w q s = Some (r, s1) \<longleftrightarrow> r = Ret (sort (group_members (pm_scan (moment_of w (prj_run s))) q)) \<and> s1 = s\<lparr>prj_run := turned (prj_run s)\<rparr>"
  by (auto simp: members_now_def looking_def)

text \<open>A group seen to be empty is no longer loose.\<close>

lemma leads_members:
  "leads (files_are w project \<sigma> L st su fl Q) (members_now w q)
    (\<lambda>members. files_are w project \<sigma> L st su fl (\<lambda>p. Q p \<and> (members = [] \<longrightarrow> p \<noteq> q))) (files_ok w project \<sigma> L)"
proof (rule leadsI)
  fix s members s1 assume s: "files_are w project \<sigma> L st su fl Q s" and m: "members_now w q s = Some (Inr members, s1)"
  have "group_ended w q (turn_of s) (turn_of s1)" if "members = []"
  proof -
    have "group_members (pm_scan (w (turn_of s))) q = []" using m that by (simp add: members_now_Some) (metis length_0_conv length_sort)
    then show ?thesis using m by (auto simp: group_ended_def members_now_Some)
  qed
  then have "members = [] \<longrightarrow> p \<noteq> q" if "p \<in> loose_now w L s1" for p using loose_nowI [OF that] by blast
  then show "files_are w project \<sigma> L st su fl (\<lambda>p. Q p \<and> (members = [] \<longrightarrow> p \<noteq> q)) s1"
    by (intro files_are_later [OF s]) (use m in \<open>auto simp: members_now_Some\<close>)
qed (simp add: members_now_Some)

lemma covered_launch: "covered st x f p \<Longrightarrow> unresolved_launch x f = Some (q, known) \<Longrightarrow> p = q"
  by (auto simp: covered_def unresolved_launch_def split: option.splits)

lemma files_unlinked:
  assumes "files_are w project \<sigma> L st su fl Q s" "\<And>p. p \<in> loose_now w L s \<Longrightarrow> Q p \<Longrightarrow> recorded project p st"
  shows "files_are w project \<sigma> L st Missing fl Q (put_startup Missing s)" "files_are w project \<sigma> L st su Missing Q (put_failure Missing s)"
  using assms lm_ok_unlinked [of project \<sigma> "loose_now w L s" st su fl] by (auto simp: files_are_def)

lemma leads_unlinks:
  assumes "\<And>p. Q p \<Longrightarrow> recorded project p st"
  shows "leads (files_are w project \<sigma> L st su fl Q) (prj_bind (unlink_doc put_startup a) (\<lambda>_. prj_bind (unlink_doc put_failure b) (\<lambda>_. prj_ret x)))
    (\<lambda>y s. files_are w project \<sigma> L st Missing Missing Q s \<and> y = x) (files_ok w project \<sigma> L)"
proof (rule leads_bind)
  show "leads (files_are w project \<sigma> L st su fl Q) (unlink_doc put_startup a) (\<lambda>_. files_are w project \<sigma> L st Missing fl Q) (files_ok w project \<sigma> L)"
    by (rule leads_unlink) (blast intro: files_unlinked(1) files_are_ok assms)+
  show "leads (files_are w project \<sigma> L st Missing fl Q) (prj_bind (unlink_doc put_failure b) (\<lambda>_. prj_ret x))
      (\<lambda>y s. files_are w project \<sigma> L st Missing Missing Q s \<and> y = x) (files_ok w project \<sigma> L)" for u :: unit
  proof (rule leads_bind)
    show "leads (files_are w project \<sigma> L st Missing fl Q) (unlink_doc put_failure b) (\<lambda>_. files_are w project \<sigma> L st Missing Missing Q) (files_ok w project \<sigma> L)"
      by (rule leads_unlink) (blast intro: files_unlinked(2) files_are_ok assms)+
  qed (rule leads_ret, simp)
qed

lemma files_are_weaken: "files_are w project \<sigma> L st su fl Q s \<Longrightarrow> (\<And>p. p \<in> loose_now w L s \<Longrightarrow> Q p \<Longrightarrow> Q' p) \<Longrightarrow> files_are w project \<sigma> L st su fl Q' s"
  by (auto simp: files_are_def)

text \<open>An unresolved launch that is not in the state is the one that the reservation or the marker names.\<close>

lemma leads_settle:
  assumes "unsure \<Longrightarrow> load_startup su = Ret x \<and> load_startup_failure fl = Ret f"
  shows "leads (files_are w project \<sigma> L st su fl (\<lambda>p. Q p \<and> (\<not> unsure \<longrightarrow> recorded project p st))) (settle_startup w project os (unresolved_launch x f) unsure)
    (\<lambda>y s. \<exists>su' fl'. files_are w project \<sigma> L st su' fl' (\<lambda>p. Q p \<and> (\<not> fst y \<longrightarrow> recorded project p st)) s \<and> (fst y \<longrightarrow> unsure \<and> su' = su \<and> fl' = fl))
    (files_ok w project \<sigma> L)" (is "leads ?P _ ?Post ?R")
proof (cases "unsure \<and> unresolved_launch x f \<noteq> None")
  case False
  then have "settle_startup w project os (unresolved_launch x f) unsure = prj_ret (unsure, [])"
    by (auto simp: settle_startup_def split: option.splits)
  moreover have "leads ?P (prj_ret (unsure, [])) ?Post ?R" by (rule leads_ret, rule exI [of _ su], rule exI [of _ fl]) simp
  ultimately show ?thesis by simp
next
  case True
  then obtain q known where launch: "unresolved_launch x f = Some (q, known)" and unsure by auto
  let ?F = "\<lambda>ms. files_are w project \<sigma> L st su fl (\<lambda>p. Q p \<and> (ms = [] \<longrightarrow> p \<noteq> q))"
  have start: "leads ?P (members_now w q) ?F ?R"
    by (rule leads_weaken [OF leads_members [where Q = Q]]) (auto elim!: files_are_weaken)
  have again: "leads (?F members) (if ended then members_now w q else prj_ret members) ?F ?R" for ended members
  proof (rule leads_if)
    show "leads (?F members) (members_now w q) ?F ?R"
      by (rule leads_weaken [OF leads_members [where Q = Q]]) (auto elim!: files_are_weaken)
    show "leads (?F members) (prj_ret members) ?F ?R" by (rule leads_ret)
  qed
  have unlinks: "leads (?F []) (prj_bind (unlink_doc put_startup (so_unlink os 0)) (\<lambda>_. prj_bind (unlink_doc put_failure (so_unlink os 1)) (\<lambda>_. prj_ret (False, [])))) ?Post ?R"
  proof -
    have "recorded project p st" if "?F [] s" "p \<in> loose_now w L s" for p s
      using that lm_okD(2) [of project \<sigma> "loose_now w L s" st su fl x f p] assms [OF \<open>unsure\<close>] covered_launch [OF _ launch] by (auto simp: files_are_def)
    then have all: "files_are w project \<sigma> L st su fl (\<lambda>p. Q p \<and> recorded project p st) s" if "?F [] s" for s
      using that by (simp add: files_are_def)
    show ?thesis
    proof (rule leads_weaken [OF leads_unlinks [where Q = "\<lambda>p. Q p \<and> recorded project p st" and su = su and fl = fl and st = st]])
      show "recorded project p st" if "Q p \<and> recorded project p st" for p using that by simp
      show "files_are w project \<sigma> L st su fl (\<lambda>p. Q p \<and> recorded project p st) s" if "?F [] s" for s using all [OF that] .
    qed (intro exI [of _ Missing], simp)
  qed
  have "leads ?P (prj_bind (members_now w q) (\<lambda>members. prj_bind (end_unresolved w project members known) (\<lambda>ended.
      prj_bind (if ended then members_now w q else prj_ret members) (\<lambda>left.
        if left \<noteq> [] then prj_ret (True, [(q, left)])
        else prj_bind (unlink_doc put_startup (so_unlink os 0)) (\<lambda>_. prj_bind (unlink_doc put_failure (so_unlink os 1)) (\<lambda>_. prj_ret (False, []))))))) ?Post ?R"
  proof (rule leads_bind [OF start], rule leads_bind [OF leads_looks [OF only_looks_unresolved]], rule leads_bind [OF again], rule leads_if)
    fix left :: "int list"
    show "leads (?F left) (prj_ret (True, [(q, left)])) ?Post ?R" using \<open>unsure\<close> by (intro leads_ret) (auto elim!: files_are_weaken)
    show "leads (?F left) (prj_bind (unlink_doc put_startup (so_unlink os 0)) (\<lambda>_. prj_bind (unlink_doc put_failure (so_unlink os 1)) (\<lambda>_. prj_ret (False, [])))) ?Post ?R"
      if "\<not> left \<noteq> []" using unlinks that by simp
  qed
  then show ?thesis using launch \<open>unsure\<close> by (simp add: settle_startup_def)
qed

text \<open>A state that still names what was recorded may take the place of the old one, with no token, or with the token of the handoff that wrote it.\<close>

lemma state_written_ok:
  assumes ok: "lm_ok project \<sigma> L st su fl" and ds: "\<And>p. p \<in> L \<Longrightarrow> recorded project p st \<Longrightarrow> \<exists>d \<in> set ds. record_of project p d"
    and token: "token = None \<or> token = state_token st \<and> token \<noteq> Some []"
  shows "lm_ok project \<sigma> L (Stored (state_doc ds token)) su fl"
proof -
  from ok obtain x f where xf: "load_startup su = Ret x" "load_startup_failure fl = Ret f" unfolding lm_ok_def by blast
  note d = lm_okD [OF ok xf]
  have ne: "token \<noteq> Some []" using token by auto
  note doc = recorded_doc [OF ne]
  obtain q where q: "L \<subseteq> {q}" using d(1) by blast
  have tok: "state_token (Stored (state_doc ds token)) \<in> {None, state_token st}" using token doc(2) by auto
  show ?thesis
  proof (rule lm_okI [OF xf q])
    fix p assume p: "p \<in> L"
    show "recorded project p (Stored (state_doc ds token)) \<or> covered (Stored (state_doc ds token)) x f p"
      using d(2) [OF p] ds [OF p] tok doc(1) by (auto simp: covered_def split: option.splits)
  next
    fix u assume u: "x = Some u"
    show "token_ok \<sigma> (\<forall>p \<in> L. recorded project p (Stored (state_doc ds token))) u"
      by (rule token_ok_mono [OF d(3) [OF u]]) (use ds doc(1) in blast)
  next
    fix u assume "x = Some u" "\<not> su_handoff u"
    then show "L = {} \<and> f = None" by (rule d(4))
  next
    fix t assume "\<sigma> t \<in> {Idle, Reserved}"
    then show "state_token (Stored (state_doc ds token)) \<noteq> Some t" using d(5) tok by auto
  qed
qed

definition stopped_fine :: "proc_world \<Rightarrow> string \<Rightarrow> (string \<Rightarrow> starter) \<Rightarrow> int set \<Rightarrow> stop_answer \<Rightarrow> project \<Rightarrow> bool" where
  "stopped_fine w project \<sigma> L a s \<longleftrightarrow> files_ok w project \<sigma> L s \<and> (sp_ok a \<longrightarrow> loose_now w L s = {} \<and> prj_startup s = Missing \<and> \<not> sp_running a)"

lemma leads_commit:
  assumes loads: "unsure \<Longrightarrow> load_startup su = Ret x \<and> load_startup_failure fl = Ret f"
    and committed: "settled \<Longrightarrow> phase_only project x f state = Ret True \<and> remaining_records state results = []" and token: "rs_token state = state_token st"
  shows "leads (files_are w project \<sigma> L st su fl (\<lambda>p. (\<not> unsure \<longrightarrow> recorded project p st) \<and> (recorded project p st \<longrightarrow> remains project state results p)))
      (commit_phase os settled unsure)
      (\<lambda>unsure' s. \<exists>su' fl'. files_are w project \<sigma> L st su' fl' (\<lambda>p. (\<not> unsure' \<longrightarrow> recorded project p st) \<and> (recorded project p st \<longrightarrow> remains project state results p)) s \<and>
        (unsure' \<longrightarrow> unsure \<and> \<not> settled \<and> su' = su \<and> fl' = fl)) (files_ok w project \<sigma> L)" (is "leads ?P _ ?Post ?R")
proof (cases settled)
  case True
  have settled: "phase_only project x f state = Ret True" "remaining_records state results = []" using committed [OF True] by simp_all
  obtain u where u: "x = Some u" "su_unresolved u = None" "f = None" "rs_token state = Some (su_token u)"
    by (rule phase_only_True [OF settled(1)])
  have none: "loose_now w L s = {}" if s: "?P s" for s
  proof -
    have ok: "lm_ok project \<sigma> (loose_now w L s) st su fl" using s by (simp add: files_are_def)
    have False if p: "p \<in> loose_now w L s" for p
    proof -
      have q: "\<not> unsure \<longrightarrow> recorded project p st" "recorded project p st \<longrightarrow> remains project state results p" using s p by (simp_all add: files_are_def)
      have "\<not> covered st x f p" using u token by (simp add: covered_def)
      then have "recorded project p st" if unsure using lm_okD(2) [OF ok conjunct1 [OF loads [OF that]] conjunct2 [OF loads [OF that]] p] by simp
      with q have "remains project state results p" by blast
      with settled(2) show False by (simp add: remains_def)
    qed
    then show ?thesis by blast
  qed
  have "leads ?P (prj_bind (unlink_doc put_startup (so_unlink os 2)) (\<lambda>_. prj_bind (unlink_doc put_failure (so_unlink os 3)) (\<lambda>_. prj_ret False))) ?Post ?R"
  proof (rule leads_weaken [OF leads_unlinks [where Q = "\<lambda>p. recorded project p st \<and> remains project state results p"]])
    fix s assume "?P s"
    with none [OF this] show "files_are w project \<sigma> L st su fl (\<lambda>p. recorded project p st \<and> remains project state results p) s"
      by (simp add: files_are_def)
  next
    fix y s assume "files_are w project \<sigma> L st Missing Missing (\<lambda>p. recorded project p st \<and> remains project state results p) s \<and> y = False"
    then show "?Post y s" by (intro exI [of _ Missing]) (auto elim!: files_are_weaken)
  qed simp
  then show ?thesis using True by (simp add: commit_phase_def)
next
  case False
  have "leads ?P (prj_ret unsure) ?Post ?R" by (rule leads_ret, rule exI [of _ su], rule exI [of _ fl]) (simp add: False)
  then show ?thesis by (simp add: commit_phase_def False)
qed

lemma leads_stop_processes:
  assumes loads: "unsure \<Longrightarrow> load_startup su = Ret x \<and> load_startup_failure fl = Ret f"
    and committed: "phase_only project x f state = Ret committed" and token: "rs_token state = state_token st"
  shows "leads (files_are w project \<sigma> L st su fl (\<lambda>p. (\<not> unsure \<longrightarrow> recorded project p st) \<and> (recorded project p st \<longrightarrow> in_state project p state)))
      (stop_processes w project os x state committed unsure blocked) (stopped_fine w project \<sigma> L) (files_ok w project \<sigma> L)"
  unfolding stop_processes_def Let_def
proof (rule leads_bind [OF leads_looks], goal_cases)
  case 1
  show ?case by (auto simp: estop_mission_def split: sum.split)
next
  case (2 e)
  show ?case
  proof (rule leads_bind [OF leads_terminate_all], rule leads_bind [OF leads_commit [OF loads _ token]], goal_cases)
    case 1
    then show ?case .
  next
    case (2 results)
    then show ?case using committed by simp
  next
    case (3 results unsure')
    let ?settled = "committed \<and> list_all id results \<and> rs_groups state = [] \<and> remaining_records state results = []"
    let ?ds = "remaining_records state results"
    let ?token = "if committed \<and> unsure' then map_option su_token x else None"
    let ?new = "Stored (state_doc ?ds ?token)"
    let ?answer = "\<lparr>sp_ok = list_all id results \<and> rs_groups state = [] \<and> \<not> unsure', sp_running = ?ds \<noteq> [] \<or> unsure', sp_terminated = results,
         sp_stale = rs_stale state, sp_groups = map (\<lambda>(g, ms, _). (g, ms)) (rs_groups state) @ blocked\<rparr>"
    show ?case
    proof (intro leads_ex, rule leads_fact)
      fix su' fl' assume kept: "unsure' \<longrightarrow> unsure \<and> \<not> ?settled \<and> su' = su \<and> fl' = fl"
      let ?Q = "\<lambda>p. (\<not> unsure' \<longrightarrow> recorded project p st) \<and> (recorded project p st \<longrightarrow> remains project state results p)"
      let ?Q' = "\<lambda>p. \<not> unsure' \<longrightarrow> recorded project p ?new \<and> remains project state results p"
      have new: "files_are w project \<sigma> L ?new su' fl' ?Q' (put_state ?new s)" if s: "files_are w project \<sigma> L st su' fl' ?Q s" for s
      proof -
        have ok: "lm_ok project \<sigma> (loose_now w L s) st su' fl'" using s by (simp add: files_are_def)
        have tok: "?token = None \<or> ?token = state_token st \<and> ?token \<noteq> Some []"
        proof (cases "committed \<and> unsure'")
          case True
          with committed obtain u where u: "x = Some u" "rs_token state = Some (su_token u)" using phase_only_True by metis
          have "su_token u \<noteq> []" using lm_okD(3) [OF ok _ _ u(1)] kept loads True by (auto simp: token_ok_def)
          with u True token show ?thesis by simp
        qed auto
        have "\<exists>d \<in> set ?ds. record_of project p d" if "p \<in> loose_now w L s" "recorded project p st" for p
          using s that by (auto simp: files_are_def remains_def)
        then have "lm_ok project \<sigma> (loose_now w L s) ?new su' fl'" by (rule state_written_ok [OF ok _ tok])
        moreover have ne: "?token \<noteq> Some []" using tok by force
        have "recorded project p ?new" if "remains project state results p" for p
          using that recorded_doc(1) [OF ne] unfolding remains_def by blast
        ultimately show ?thesis using s by (auto simp: files_are_def)
      qed
      show "leads (files_are w project \<sigma> L st su' fl' ?Q)
          (prj_bind (write_doc put_state (so_state os) (state_doc ?ds ?token)) (\<lambda>_. prj_bind (clear_startup os unsure') (\<lambda>_. prj_ret ?answer)))
          (stopped_fine w project \<sigma> L) (files_ok w project \<sigma> L)"
      proof (rule leads_bind)
        show "leads (files_are w project \<sigma> L st su' fl' ?Q) (write_doc put_state (so_state os) (state_doc ?ds ?token))
            (\<lambda>_. files_are w project \<sigma> L ?new su' fl' ?Q') (files_ok w project \<sigma> L)"
          by (rule leads_write) (blast intro: new files_are_ok)+
      next
        fix u :: unit
        show "leads (files_are w project \<sigma> L ?new su' fl' ?Q') (prj_bind (clear_startup os unsure') (\<lambda>_. prj_ret ?answer)) (stopped_fine w project \<sigma> L) (files_ok w project \<sigma> L)"
        proof (cases unsure')
          case True
          then show ?thesis unfolding clear_startup_def if_P [OF True]
            by (intro leads_bind [OF leads_ret [where Q = "\<lambda>_. files_are w project \<sigma> L ?new su' fl' ?Q'"]] leads_ret)
              (simp_all add: stopped_fine_def files_are_ok)
        next
          case False
          have gone: "loose_now w L s = {} \<and> ?ds = []"
            if "files_are w project \<sigma> L ?new Missing Missing ?Q' s" "list_all id results" "rs_groups state = []" for s
          proof -
            have "?ds = []" using that(2,3) by (auto simp: remaining_records_def add_groups_def list_all_iff filter_empty_conv dest: set_zip_rightD)
            then show ?thesis using that(1) False by (auto simp: files_are_def remains_def)
          qed
          have one: "leads (files_are w project \<sigma> L ?new su' fl' ?Q') (unlink_doc put_startup (so_unlink os 4))
              (\<lambda>_. files_are w project \<sigma> L ?new Missing fl' ?Q') (files_ok w project \<sigma> L)"
            by (rule leads_unlink) (use False in \<open>blast intro: files_unlinked(1) files_are_ok\<close>)+
          have two: "leads (files_are w project \<sigma> L ?new Missing fl' ?Q') (unlink_doc put_failure (so_unlink os 5))
              (\<lambda>_. files_are w project \<sigma> L ?new Missing Missing ?Q') (files_ok w project \<sigma> L)"
            by (rule leads_unlink) (use False in \<open>blast intro: files_unlinked(2) files_are_ok\<close>)+
          show ?thesis unfolding clear_startup_def if_not_P [OF False]
          proof (rule leads_bind [OF leads_bind [OF one two]], rule leads_ret)
            fix s assume s: "files_are w project \<sigma> L ?new Missing Missing ?Q' s"
            then have "prj_startup s = Missing" by (simp add: files_are_def)
            with gone [OF s] files_are_ok [OF s] False show "stopped_fine w project \<sigma> L ?answer s" by (auto simp: stopped_fine_def)
          qed
        qed
      qed
    qed
  qed
qed

lemma leads_reading:
  assumes "\<And>s x. P s \<Longrightarrow> g s = Ret x \<Longrightarrow> Q x s" "\<And>s. P s \<Longrightarrow> R s"
  shows "leads P (reading_file g) Q R"
  by (rule leadsI) (auto simp: reading_file_def assms)

lemma leads_settled:
  assumes loads: "unsure \<Longrightarrow> load_startup su = Ret x \<and> load_startup_failure fl = Ret f"
    and committed: "phase_only project x f state = Ret committed" and token: "rs_token state = state_token st"
  shows "leads (files_are w project \<sigma> L st su fl (\<lambda>p. (\<not> unsure \<longrightarrow> recorded project p st) \<and> (recorded project p st \<longrightarrow> in_state project p state)))
      (prj_bind (settle_startup w project os (unresolved_launch x f) unsure) (\<lambda>(unsure, blocked). stop_processes w project os x state committed unsure blocked))
      (stopped_fine w project \<sigma> L) (files_ok w project \<sigma> L)"
proof (rule leads_bind [OF leads_weaken [OF leads_settle [OF loads, where Q = "\<lambda>p. recorded project p st \<longrightarrow> in_state project p state"]]])
  fix s assume "files_are w project \<sigma> L st su fl (\<lambda>p. (\<not> unsure \<longrightarrow> recorded project p st) \<and> (recorded project p st \<longrightarrow> in_state project p state)) s"
  then show "files_are w project \<sigma> L st su fl (\<lambda>p. (recorded project p st \<longrightarrow> in_state project p state) \<and> (\<not> unsure \<longrightarrow> recorded project p st)) s"
    by (simp add: files_are_def)
next
  fix y s
  assume "\<exists>su' fl'. files_are w project \<sigma> L st su' fl' (\<lambda>p. (recorded project p st \<longrightarrow> in_state project p state) \<and> (\<not> fst y \<longrightarrow> recorded project p st)) s \<and>
    (fst y \<longrightarrow> unsure \<and> su' = su \<and> fl' = fl)"
  then show "\<exists>su' fl'. files_are w project \<sigma> L st su' fl' (\<lambda>p. (\<not> fst y \<longrightarrow> recorded project p st) \<and> (recorded project p st \<longrightarrow> in_state project p state)) s \<and>
    (fst y \<longrightarrow> unsure \<and> su' = su \<and> fl' = fl)"
    by (elim exE conjE) (intro exI conjI, auto elim!: files_are_weaken)
next
  fix y :: "bool \<times> (int \<times> int list) list"
  obtain unsure' blocked where y: "y = (unsure', blocked)" by fastforce
  show "leads (\<lambda>s. \<exists>su' fl'. files_are w project \<sigma> L st su' fl' (\<lambda>p. (\<not> fst y \<longrightarrow> recorded project p st) \<and> (recorded project p st \<longrightarrow> in_state project p state)) s \<and>
      (fst y \<longrightarrow> unsure \<and> su' = su \<and> fl' = fl))
    (case y of (unsure, blocked) \<Rightarrow> stop_processes w project os x state committed unsure blocked) (stopped_fine w project \<sigma> L) (files_ok w project \<sigma> L)"
    unfolding y prod.case fst_conv
  proof (intro leads_ex, rule leads_fact)
    fix su' fl' assume kept: "unsure' \<longrightarrow> unsure \<and> su' = su \<and> fl' = fl"
    show "leads (files_are w project \<sigma> L st su' fl' (\<lambda>p. (\<not> unsure' \<longrightarrow> recorded project p st) \<and> (recorded project p st \<longrightarrow> in_state project p state)))
        (stop_processes w project os x state committed unsure' blocked) (stopped_fine w project \<sigma> L) (files_ok w project \<sigma> L)"
      by (rule leads_stop_processes [OF _ committed token]) (use kept loads in simp)
  qed
qed

lemma leads_stop: "leads (files_are w project \<sigma> L st su fl (\<lambda>_. True)) (stop_project w project os) (stopped_fine w project \<sigma> L) (files_ok w project \<sigma> L)"
  unfolding stop_project_def startups_def failures_def Let_def
proof (rule leads_bind)
  show "leads (files_are w project \<sigma> L st su fl (\<lambda>_. True)) (reading_file (\<lambda>s. load_startup (prj_startup s)))
      (\<lambda>x s. files_are w project \<sigma> L st su fl (\<lambda>_. True) s \<and> load_startup su = Ret x) (files_ok w project \<sigma> L)"
    by (rule leads_reading) (auto simp: files_are_def files_ok_def)
next
  fix x
  show "leads (\<lambda>s. files_are w project \<sigma> L st su fl (\<lambda>_. True) s \<and> load_startup su = Ret x)
      (prj_bind (reading_file (\<lambda>s. load_startup_failure (prj_failure s))) (\<lambda>f.
        prj_bind (cancel_startup os x (startup_unsure x f)) (\<lambda>_. prj_bind (load_runtime_state w project) (\<lambda>state.
        prj_bind (prj_of (phase_only project x f state)) (\<lambda>committed.
        prj_bind (settle_startup w project os (unresolved_launch x f) (startup_unsure x f)) (\<lambda>(unsure, blocked).
          stop_processes w project os x state committed unsure blocked))))))
      (stopped_fine w project \<sigma> L) (files_ok w project \<sigma> L)"
  proof (rule leads_fact, rule leads_bind)
    show "leads (files_are w project \<sigma> L st su fl (\<lambda>_. True)) (reading_file (\<lambda>s. load_startup_failure (prj_failure s)))
        (\<lambda>f s. files_are w project \<sigma> L st su fl (\<lambda>_. True) s \<and> load_startup_failure fl = Ret f) (files_ok w project \<sigma> L)"
      by (rule leads_reading) (auto simp: files_are_def files_ok_def)
  next
    fix f assume x: "load_startup su = Ret x"
    let ?unsure = "startup_unsure x f"
    show "leads (\<lambda>s. files_are w project \<sigma> L st su fl (\<lambda>_. True) s \<and> load_startup_failure fl = Ret f)
        (prj_bind (cancel_startup os x ?unsure) (\<lambda>_. prj_bind (load_runtime_state w project) (\<lambda>state.
          prj_bind (prj_of (phase_only project x f state)) (\<lambda>committed.
          prj_bind (settle_startup w project os (unresolved_launch x f) ?unsure) (\<lambda>(unsure, blocked).
            stop_processes w project os x state committed unsure blocked)))))
        (stopped_fine w project \<sigma> L) (files_ok w project \<sigma> L)"
    proof (rule leads_fact, rule leads_bind [OF leads_cancel [OF x _ refl]], assumption, intro leads_ex, rule leads_fact, rule leads_bind [OF leads_load],
        rule leads_fact, rule leads_bind [OF leads_known], rule files_are_ok, assumption, rule leads_fact, rule leads_settled)
    qed (use x in simp_all)
  qed
qed

end
