(* ===== verification/LaunchMachine.thy ===== *)
theory LaunchMachine
  imports ProjectMachine
begin

text \<open>
  The starts and stops of the project together (\<^verbatim>\<open>scripts/codex_project.py\<close>): any number of command lines that start it, each between its
  regions where another may run, those that stop it, and deaths of the starting ones at any moment, in the middle of the handoff too. \<open>lm_loose\<close>
  is a history variable: the launches that were spawned and whose process group was not seen to be empty since.
\<close>

section \<open>The machine\<close>

record launch_machine =
  lm_state :: stored
  lm_startup :: stored
  lm_failure :: stored
  lm_starter :: "string \<Rightarrow> starter"
  lm_loose :: "int set"

definition opened :: "launch_machine \<Rightarrow> project" where
  "opened m = \<lparr>prj_state = lm_state m, prj_startup = lm_startup m, prj_failure = lm_failure m, prj_run = \<lparr>pr_turn = 0, pr_sent = []\<rparr>\<rparr>"

definition settled :: "proc_world \<Rightarrow> (string \<Rightarrow> starter) \<Rightarrow> int set \<Rightarrow> project \<Rightarrow> launch_machine" where
  "settled w \<sigma> L s = \<lparr>lm_state = prj_state s, lm_startup = prj_startup s, lm_failure = prj_failure s, lm_starter = \<sigma>, lm_loose = loose_now w L s\<rparr>"

text \<open>A handoff goes on to the launch with a reservation that is its own and was not cancelled.\<close>

definition may_launch :: "string \<Rightarrow> stored \<Rightarrow> bool" where
  "may_launch t su \<longleftrightarrow> (\<exists>u. load_startup su = Ret (Some u) \<and> su_token u = t \<and> \<not> su_cancelled u)"

definition launched_by :: "handoff_os \<Rightarrow> string \<Rightarrow> stored \<Rightarrow> int set" where
  "launched_by os t su = (if may_launch t su \<and> ho_reserve os = Written \<and> ho_log os = Ret () then (case ho_spawn os of Inr pid \<Rightarrow> {pid} | Inl _ \<Rightarrow> {}) else {})"

text \<open>The process that was made is the one of the command: its number is positive, and what \<^verbatim>\<open>/proc\<close> says of it then is the launch that
  the project starts.\<close>

definition recognised :: "proc_world \<Rightarrow> string \<Rightarrow> handoff_os \<Rightarrow> bool" where
  "recognised w project os \<longleftrightarrow> (\<forall>pid. ho_spawn os = Ret pid \<longrightarrow> 0 < pid \<and>
     (\<forall>d. record_process (pm_look (w 0) pid) pid MANAGED_PROCESS_NAME = Ret (Some d) \<longrightarrow> record_of project pid d))"

definition after_handoff :: "(pydict result \<times> bool) result \<Rightarrow> starter" where
  "after_handoff r = (case r of Inr (Inr d, _) \<Rightarrow> Launched d | Inr (Inl _, preserve) \<Rightarrow> Leaving preserve | Inl _ \<Rightarrow> Leaving False)"

text \<open>What a handoff that is cut short leaves in the files, and what it has launched.\<close>

inductive handoff_cut :: "string \<Rightarrow> string \<Rightarrow> project \<Rightarrow> project \<Rightarrow> int set \<Rightarrow> bool" for project t s where
  phase: "handoff_cut project t s (put_startup (Stored (startup_doc t False True None)) s) {}"
| launch: "0 < pid \<Longrightarrow> handoff_cut project t s (put_startup (Stored (startup_doc t False True None)) s) {pid}"
| publish: "handoff_cut project t s s1 {pid} \<Longrightarrow> record_of project pid d \<Longrightarrow> handoff_cut project t s (put_state (Stored (state_doc [d] (Some t))) s1) {pid}"
| mark: "handoff_cut project t s s1 {pid} \<Longrightarrow> handoff_cut project t s (put_failure (Stored (failure_doc pid)) s1) {pid}"
| keep: "handoff_cut project t s s1 {pid} \<Longrightarrow> handoff_cut project t s (put_startup (Stored (startup_doc t True True (Some (pid, known)))) s1) {pid}"

text \<open>A command line that reserves has a number of its own; what it does when the build fails or the graph is up needs no look at the files.\<close>

inductive lm_step :: "string \<Rightarrow> launch_machine \<Rightarrow> launch_machine \<Rightarrow> bool" for project where
  reserves: "lm_starter m t = Idle \<Longrightarrow> t \<noteq> [] \<Longrightarrow> start_reserve w project answer t (opened m) = Some (r, s) \<Longrightarrow>
    lm_step project m (settled w ((lm_starter m)(t := (if is_ret r then Reserved else Over))) (lm_loose m) s)"
| gives_up: "lm_starter m t = Reserved \<Longrightarrow> lm_step project m (m\<lparr>lm_starter := (lm_starter m)(t := Leaving False)\<rparr>)"
| hands_off: "lm_starter m t = Reserved \<Longrightarrow> recognised w project os \<Longrightarrow> start_handoff w os t (opened m) = Some (r, s) \<Longrightarrow>
    lm_step project m (settled w ((lm_starter m)(t := after_handoff r)) (lm_loose m \<union> launched_by os t (lm_startup m)) s)"
| is_cut: "lm_starter m t = Reserved \<Longrightarrow> may_launch t (lm_startup m) \<Longrightarrow> handoff_cut project t (opened m) s P \<Longrightarrow>
    lm_step project m \<lparr>lm_state = prj_state s, lm_startup = prj_startup s, lm_failure = prj_failure s, lm_starter = (lm_starter m)(t := Over), lm_loose = lm_loose m \<union> P\<rparr>"
| comes_up: "lm_starter m t = Launched d \<Longrightarrow> lm_step project m (m\<lparr>lm_starter := (lm_starter m)(t := Leaving False)\<rparr>)"
| ends: "lm_starter m t = Launched d \<Longrightarrow> end_failed_launch w project d (opened m) = Some (r, s) \<Longrightarrow>
    lm_step project m (settled w ((lm_starter m)(t := (case r of Inl _ \<Rightarrow> Leaving False | Inr b \<Rightarrow> Ending d b))) (lm_loose m) s)"
| puts_right: "lm_starter m t = Ending d b \<Longrightarrow> start_failed w project answer d b (opened m) = Some (r, s) \<Longrightarrow>
    lm_step project m (settled w ((lm_starter m)(t := Leaving False)) (lm_loose m) s)"
| releases: "lm_starter m t = Leaving preserve \<Longrightarrow> start_released unlink t preserve (opened m) = Some (r, s) \<Longrightarrow>
    lm_step project m (settled w ((lm_starter m)(t := Over)) (lm_loose m) s)"
| stops: "stop_project w project sos (opened m) = Some (r, s) \<Longrightarrow> lm_step project m (settled w (lm_starter m) (lm_loose m) s)"
| dies: "lm_step project m (m\<lparr>lm_starter := (lm_starter m)(t := Over)\<rparr>)"

definition lm_init :: launch_machine where
  "lm_init = \<lparr>lm_state = Missing, lm_startup = Missing, lm_failure = Missing, lm_starter = \<lambda>_. Idle, lm_loose = {}\<rparr>"

definition lm_reachable :: "string \<Rightarrow> launch_machine \<Rightarrow> bool" where
  "lm_reachable project m \<longleftrightarrow> (lm_step project)\<^sup>*\<^sup>* lm_init m"

definition lm_inv :: "string \<Rightarrow> launch_machine \<Rightarrow> bool" where
  "lm_inv project m \<longleftrightarrow> lm_ok project (lm_starter m) (lm_loose m) (lm_state m) (lm_startup m) (lm_failure m) \<and> lm_starter m [] \<in> {Idle, Over}"

section \<open>The invariant\<close>

lemma load_phase:
  "t \<noteq> [] \<Longrightarrow> load_startup (Stored (startup_doc t c h None)) = Ret (Some \<lparr>su_token = t, su_cancelled = c, su_handoff = h, su_unresolved = None\<rparr>)"
  by (rule load_startup_doc) simp_all

lemma load_kept:
  assumes "t \<noteq> []" "0 < pid"
  shows "load_startup (Stored (startup_doc t c h (Some (pid, known)))) = Ret (Some \<lparr>su_token = t, su_cancelled = c, su_handoff = h, su_unresolved = Some (pid, known)\<rparr>)"
  by (rule load_startup_doc) (use assms in auto)

lemma handoff_ok:
  assumes ok: "lm_ok project \<sigma> {} st su fl" and f: "load_startup_failure fl = Ret None" and t: "t \<noteq> []" "\<sigma> t = Reserved"
    and L: "L \<subseteq> {pid}" "L \<noteq> {} \<Longrightarrow> 0 < pid"
    and st': "st' = st \<or> (\<exists>d. st' = Stored (state_doc [d] (Some t)) \<and> record_of project pid d)"
    and su': "su' = Stored (startup_doc t False True None) \<or> (\<exists>known. 0 < pid \<and> su' = Stored (startup_doc t True True (Some (pid, known))))"
    and fl': "fl' = fl \<or> 0 < pid \<and> fl' = Stored (failure_doc pid)"
    and n: "n = Over \<or> n = Leaving True \<or> n = Leaving False \<and> (\<forall>p \<in> L. recorded project p st')"
  shows "lm_ok project (\<sigma>(t := n)) L st' su' fl'"
proof -
  obtain x where x: "load_startup su = Ret x" using ok unfolding lm_ok_def by blast
  note d = lm_okD [OF ok x f]
  have fresh: "state_token st \<noteq> Some t" using d(5) [of t] t(2) by simp
  have "\<exists>u'. load_startup su' = Ret (Some u') \<and> su_token u' = t \<and> su_handoff u' \<and> (su_unresolved u' = None \<or> (\<exists>known. su_unresolved u' = Some (pid, known)))"
    using su' by (elim disjE exE conjE) (simp_all add: load_phase load_kept t(1))
  then obtain u' where u': "load_startup su' = Ret (Some u')" "su_token u' = t" "su_handoff u'" "su_unresolved u' = None \<or> (\<exists>known. su_unresolved u' = Some (pid, known))"
    by blast
  obtain f' where f': "load_startup_failure fl' = Ret f'" "f' = None \<or> f' = Some pid" using fl' f by (auto simp: load_failure_doc)
  have ne: "Some t \<noteq> Some []" using t(1) by simp
  note doc = recorded_doc [OF ne]
  have token: "state_token st' \<in> {state_token st, Some t}" using st' doc(2) by auto
  have rec: "recorded project pid st' \<or> state_token st' \<noteq> Some t" using st' fresh doc(1) by auto
  show ?thesis
  proof (rule lm_okI [OF u'(1) f'(1) L(1)])
    fix p assume "p \<in> L"
    then have "p = pid" using L(1) by blast
    then show "recorded project p st' \<or> covered st' (Some u') f' p" using u' f'(2) rec by (auto simp: covered_def)
  next
    fix u assume "Some u' = Some u"
    then show "token_ok (\<sigma>(t := n)) (\<forall>p \<in> L. recorded project p st') u" using u' t(1) n by (auto simp: token_ok_def)
  next
    fix u assume "Some u' = Some u" "\<not> su_handoff u"
    then show "L = {} \<and> f' = None" using u' by simp
  next
    fix t' assume a: "(\<sigma>(t := n)) t' \<in> {Idle, Reserved}"
    then have "t' \<noteq> t" using n by auto
    with a d(5) [of t'] token show "state_token st' \<noteq> Some t'" by auto
  qed
qed

lemma lm_ok_starter:
  assumes ok: "lm_ok project \<sigma> L st su fl" and n: "n \<notin> {Idle, Reserved}"
    and own: "\<And>u. load_startup su = Ret (Some u) \<Longrightarrow> su_token u = t \<Longrightarrow> token_ok \<sigma> (\<forall>p \<in> L. recorded project p st) u \<Longrightarrow>
      token_ok (\<sigma>(t := n)) (\<forall>p \<in> L. recorded project p st) u"
  shows "lm_ok project (\<sigma>(t := n)) L st su fl"
proof -
  obtain x f where xf: "load_startup su = Ret x" "load_startup_failure fl = Ret f" using ok unfolding lm_ok_def by blast
  note d = lm_okD [OF ok xf]
  obtain q where q: "L \<subseteq> {q}" using d(1) by blast
  show ?thesis
  proof (rule lm_okI [OF xf q])
    fix u assume u: "x = Some u"
    show "token_ok (\<sigma>(t := n)) (\<forall>p \<in> L. recorded project p st) u"
    proof (cases "su_token u = t")
      case True
      then show ?thesis using own d(3) [OF u] xf(1) u by simp
    next
      case False
      then show ?thesis using d(3) [OF u] by (simp add: token_ok_def)
    qed
  next
    fix t' assume "(\<sigma>(t := n)) t' \<in> {Idle, Reserved}"
    then show "state_token st \<noteq> Some t'" using n d(5) [of t'] by (auto split: if_splits)
  qed (use d in blast)+
qed

section \<open>The handoff\<close>

lemma write_doc_Some: "write_doc put answer v s = Some (r, s1) \<Longrightarrow> s1 = put (Stored v) s \<or> s1 = s \<and> \<not> is_ret r"
  by (auto simp: write_doc_def split: write_answer.splits)

lemma handoff_failed_result:
  assumes "handoff_failed w os t pid known e s = Some (r, s1)"
  shows "\<exists>e' preserve. r = Ret (Raise e', preserve) \<and> prj_state s1 = prj_state s \<and> turn_of s \<le> turn_of s1 \<and>
    (if preserve then prj_startup s1 \<in> {prj_startup s, Stored (startup_doc t True True (Some (pid, known)))} \<and> prj_failure s1 \<in> {prj_failure s, Stored (failure_doc pid)}
     else prj_startup s1 = prj_startup s \<and> prj_failure s1 = prj_failure s \<and> group_ended w pid (turn_of s) (turn_of s1))"
proof -
  from assms obtain res r2 where sp: "terminate_spawned_launch w pid (Fin 8) (prj_run s) = Some (res, r2)"
    by (auto simp: handoff_failed_def process_step_def split: option.splits)
  have turns: "pr_turn (prj_run s) \<le> pr_turn r2" using spawned_result [OF sp] by simp
  show ?thesis
  proof (cases "res = Ret True")
    case True
    with spawned_result [OF sp] have "seen_gone w (launch_gone pid) (prj_run s) r2" by simp
    then have "group_ended w pid (pr_turn (prj_run s)) (pr_turn r2)" by (auto simp: seen_gone_def launch_gone_def group_ended_def)
    moreover have "r = Ret (Raise (e), False)" "s1 = s\<lparr>prj_run := r2\<rparr>"
      using assms sp True by (simp_all add: handoff_failed_def process_step_def)
    ultimately show ?thesis using turns by (intro exI [of _ e] exI [of _ False]) simp
  next
    case False
    let ?s = "s\<lparr>prj_run := r2\<rparr>"
    obtain a s2 where one: "write_doc put_failure (ho_failure os) (failure_doc pid) ?s = Some (a, s2)" unfolding write_doc_def by (metis surj_pair)
    obtain b s3 where two: "write_doc put_startup (ho_unresolved os) (startup_doc t True True (Some (pid, known))) s2 = Some (b, s3)"
      unfolding write_doc_def by (metis surj_pair)
    have "r = Ret (Raise ProjectLifecycleError, True)" "s1 = s3"
      using assms sp False one two by (simp_all add: handoff_failed_def process_step_def)
    note res = this
    have two': "s3 = put_startup (Stored (startup_doc t True True (Some (pid, known)))) s2 \<or> s3 = s2" using write_doc_Some [OF two] by blast
    have "s2 = put_failure (Stored (failure_doc pid)) ?s \<or> s2 = ?s" using write_doc_Some [OF one] by blast
    then have "prj_state s2 = prj_state s \<and> turn_of s2 = pr_turn r2 \<and> prj_startup s2 = prj_startup s \<and> (prj_failure s2 = prj_failure s \<or> prj_failure s2 = Stored (failure_doc pid))"
      by (elim disjE) simp_all
    with two' have "prj_state s3 = prj_state s \<and> turn_of s3 = pr_turn r2 \<and> (prj_startup s3 = prj_startup s \<or> prj_startup s3 = Stored (startup_doc t True True (Some (pid, known)))) \<and>
        (prj_failure s3 = prj_failure s \<or> prj_failure s3 = Stored (failure_doc pid))" by (elim disjE) simp_all
    then show ?thesis unfolding res using turns by (intro exI [of _ ProjectLifecycleError] exI [of _ True]) simp
  qed
qed

text \<open>How a handoff that has launched ends: the launch may be kept, with or without a new state, it was ended, or it was published.\<close>

definition kept_launch :: "string \<Rightarrow> int \<Rightarrow> project \<Rightarrow> project \<Rightarrow> bool" where
  "kept_launch t pid s s1 \<longleftrightarrow> (prj_startup s1 = prj_startup s \<or> (\<exists>known. prj_startup s1 = Stored (startup_doc t True True (Some (pid, known))))) \<and>
     prj_failure s1 \<in> {prj_failure s, Stored (failure_doc pid)}"

definition published :: "string \<Rightarrow> string \<Rightarrow> int \<Rightarrow> project \<Rightarrow> bool" where
  "published project t pid s1 \<longleftrightarrow> (\<exists>d. prj_state s1 = Stored (state_doc [d] (Some t)) \<and> record_of project pid d)"

definition handed_off :: "proc_world \<Rightarrow> string \<Rightarrow> string \<Rightarrow> int \<Rightarrow> project \<Rightarrow> pydict result \<times> bool \<Rightarrow> project \<Rightarrow> bool" where
  "handed_off w project t pid s y s1 \<longleftrightarrow> turn_of s \<le> turn_of s1 \<and> (prj_state s1 = prj_state s \<or> published project t pid s1) \<and>
     (\<not> is_ret (fst y) \<and> snd y \<and> kept_launch t pid s s1 \<or>
      \<not> is_ret (fst y) \<and> \<not> snd y \<and> prj_startup s1 = prj_startup s \<and> prj_failure s1 = prj_failure s \<and> group_ended w pid (turn_of s) (turn_of s1) \<or>
      \<not> snd y \<and> published project t pid s1 \<and> prj_failure s1 = prj_failure s \<and> (prj_startup s1 = Missing \<or> prj_startup s1 = prj_startup s \<and> \<not> is_ret (fst y)))"

lemma failed_handed_off:
  assumes "handoff_failed w os t pid known e s = Some (r, s1)" "turn_of s0 \<le> turn_of s" "prj_startup s = prj_startup s0" "prj_failure s = prj_failure s0"
    "prj_state s = prj_state s0 \<or> published project t pid s"
  shows "\<exists>y. r = Ret y \<and> handed_off w project t pid s0 y s1"
proof -
  from handoff_failed_result [OF assms(1)] obtain e' preserve where r: "r = Ret (Raise e', preserve)" "prj_state s1 = prj_state s" "turn_of s \<le> turn_of s1"
    and q: "if preserve then prj_startup s1 \<in> {prj_startup s, Stored (startup_doc t True True (Some (pid, known)))} \<and> prj_failure s1 \<in> {prj_failure s, Stored (failure_doc pid)}
      else prj_startup s1 = prj_startup s \<and> prj_failure s1 = prj_failure s \<and> group_ended w pid (turn_of s) (turn_of s1)" by blast
  have "prj_state s1 = prj_state s0 \<or> published project t pid s1" using assms(5) r(2) by (simp add: published_def)
  moreover have "kept_launch t pid s0 s1" if preserve using q that assms(3,4) by (auto simp: kept_launch_def)
  moreover have "group_ended w pid (turn_of s0) (turn_of s1)" if "\<not> preserve" using q that assms(2) by (auto intro: group_ended_mono)
  ultimately have "handed_off w project t pid s0 (Raise e', preserve) s1" using q r(3) assms(2,3,4) by (cases preserve) (auto simp: handed_off_def)
  with r(1) show ?thesis by blast
qed

lemma publish_launch_result:
  assumes "publish_launch w os t pid s = Some (r, s1)" "recognised w project os" "ho_spawn os = Ret pid" "turn_of s = 0"
  shows "\<exists>y. r = Ret y \<and> handed_off w project t pid s y s1"
proof -
  define look where "look = (case record_process (pm_look (w 0) pid) pid MANAGED_PROCESS_NAME of Inl e \<Rightarrow> Raise e | Inr None \<Rightarrow> Raise PyOSError | Inr (Some d) \<Rightarrow> Ret d)"
  define s2 where "s2 = s\<lparr>prj_run := turned (prj_run s)\<rparr>"
  have s2: "turn_of s \<le> turn_of s2" "prj_startup s2 = prj_startup s" "prj_failure s2 = prj_failure s" "prj_state s2 = prj_state s" by (simp_all add: s2_def turned_def)
  have seen: "looking w (\<lambda>m. case record_process (pm_look m pid) pid MANAGED_PROCESS_NAME of Inl e \<Rightarrow> Raise e | Inr None \<Rightarrow> Raise PyOSError | Inr (Some d) \<Rightarrow> Ret d) s =
      Some (look, s2)" using assms(4) by (simp add: looking_def look_def s2_def)
  show ?thesis
  proof (cases look)
    case (Inl e)
    with assms(1) seen have "handoff_failed w os t pid None e s2 = Some (r, s1)" by (simp add: publish_launch_def)
    then show ?thesis by (rule failed_handed_off) (simp_all add: s2)
  next
    case (Inr d)
    then have d: "record_of project pid d" using assms(2,3) by (auto simp: look_def recognised_def split: sum.splits option.splits)
    define s3 where "s3 = put_state (Stored (state_doc [d] (Some t))) s2"
    have s3: "turn_of s \<le> turn_of s3" "prj_startup s3 = prj_startup s" "prj_failure s3 = prj_failure s" "published project t pid s3"
      using d by (auto simp: s3_def s2 published_def)
    from Inr assms(1) seen show ?thesis
    proof (cases "ho_state os")
      case Written
      then have wr: "write_doc put_state (ho_state os) (state_doc [d] (Some t)) s2 = Some (Ret (), s3)" by (simp add: write_doc_def s3_def)
      show ?thesis
      proof (cases "ho_unlink os")
        case None
        with Inr assms(1) seen wr have "r = Ret (Ret d, False)" "s1 = put_startup Missing s3" by (simp_all add: publish_launch_def unlink_doc_def)
        then show ?thesis using s3 by (simp add: handed_off_def published_def)
      next
        case (Some e)
        with Inr assms(1) seen wr have "r = Ret (Raise e, False)" "s1 = s3" by (simp_all add: publish_launch_def unlink_doc_def)
        then show ?thesis using s3 by (simp add: handed_off_def)
      qed
    next
      case (WrittenRaises e)
      with Inr assms(1) seen have "handoff_failed w os t pid (Some d) e s3 = Some (r, s1)" by (simp add: publish_launch_def write_doc_def s3_def)
      then show ?thesis by (rule failed_handed_off) (simp_all add: s3)
    next
      case (NotWritten e)
      with Inr assms(1) seen have "handoff_failed w os t pid (Some d) e s2 = Some (r, s1)" by (simp add: publish_launch_def write_doc_def)
      then show ?thesis by (rule failed_handed_off) (simp_all add: s2)
    qed
  qed
qed

lemma start_handoff_result:
  assumes "start_handoff w os t s = Some (r, s1)" "recognised w project os" "turn_of s = 0"
  shows "(launched_by os t (prj_startup s) = {} \<and> after_handoff r = Leaving False \<and> prj_state s1 = prj_state s \<and> prj_failure s1 = prj_failure s \<and> turn_of s1 = 0 \<and>
      (prj_startup s1 = prj_startup s \<or> may_launch t (prj_startup s) \<and> prj_startup s1 = Stored (startup_doc t False True None))) \<or>
    (\<exists>pid y. launched_by os t (prj_startup s) = {pid} \<and> may_launch t (prj_startup s) \<and> 0 < pid \<and> r = Ret (closing_log os y) \<and>
      handed_off w project t pid (put_startup (Stored (startup_doc t False True None)) s) y s1)"
proof (cases "may_launch t (prj_startup s)")
  case False
  have "s1 = s \<and> after_handoff r = Leaving False"
  proof (cases "load_startup (prj_startup s)")
    case (Inl e)
    with assms(1) show ?thesis by (auto simp: start_handoff_def startups_def reading_file_def prj_bind_def after_handoff_def)
  next
    case (Inr x)
    then have "su_token u \<noteq> t \<or> su_cancelled u" if "x = Some u" for u using False that by (auto simp: may_launch_def)
    with assms(1) Inr show ?thesis by (cases x) (auto simp: start_handoff_def startups_def reading_file_def prj_bind_def prj_of_def after_handoff_def)
  qed
  with assms(3) False show ?thesis by (simp add: launched_by_def)
next
  case True
  then obtain u where u: "load_startup (prj_startup s) = Ret (Some u)" "su_token u = t" "\<not> su_cancelled u" by (auto simp: may_launch_def)
  let ?s = "put_startup (Stored (startup_doc t False True None)) s"
  show ?thesis
  proof (cases "ho_reserve os = Written \<and> ho_log os = Ret () \<and> is_ret (ho_spawn os)")
    case False
    with assms(1,3) u True show ?thesis
      by (auto simp: start_handoff_def launched_by_def startups_def reading_file_def prj_bind_Some prj_of_def after_handoff_def write_doc_def closing_log_def
          split: write_answer.splits sum.splits)
  next
    case ok: True
    then obtain pid where pid: "ho_spawn os = Ret pid" by (auto simp: is_ret_iff)
    with assms(1) u ok obtain y' where y': "publish_launch w os t pid ?s = Some (y', s1)" "\<And>y. y' = Ret y \<Longrightarrow> r = Ret (closing_log os y)"
      by (auto simp: start_handoff_def startups_def reading_file_def prj_bind_Some prj_of_def write_doc_def)
    from publish_launch_result [OF y'(1) assms(2) pid] assms(3) obtain y where "y' = Ret y" "handed_off w project t pid ?s y s1" by auto
    with y'(2) ok pid True assms(2) show ?thesis by (intro disjI2 exI [of _ pid] exI [of _ y]) (simp add: launched_by_def recognised_def)
  qed
qed

section \<open>The steps keep the invariant\<close>

abbreviation lm_fine :: "string \<Rightarrow> launch_machine \<Rightarrow> bool" where
  "lm_fine project m \<equiv> lm_ok project (lm_starter m) (lm_loose m) (lm_state m) (lm_startup m) (lm_failure m)"

lemma opened_simps [simp]: "prj_state (opened m) = lm_state m" "prj_startup (opened m) = lm_startup m" "prj_failure (opened m) = lm_failure m" "turn_of (opened m) = 0"
  by (simp_all add: opened_def)

lemma settled_simps [simp]: "lm_state (settled w \<sigma> L s) = prj_state s" "lm_startup (settled w \<sigma> L s) = prj_startup s" "lm_failure (settled w \<sigma> L s) = prj_failure s"
  "lm_starter (settled w \<sigma> L s) = \<sigma>" "lm_loose (settled w \<sigma> L s) = loose_now w L s"
  by (simp_all add: settled_def)

lemma loose_now_subset: "loose_now w L s \<subseteq> L" by (auto simp: loose_now_def)

lemma loose_now_opened [simp]: "loose_now w L (opened m) = L" by (auto simp: loose_now_def group_ended_def)

lemma may_launch_clear:
  assumes ok: "lm_fine project m" and t: "lm_starter m t = Reserved" and may: "may_launch t (lm_startup m)"
  shows "lm_loose m = {} \<and> load_startup_failure (lm_failure m) = Ret None"
proof -
  obtain x f where xf: "load_startup (lm_startup m) = Ret x" "load_startup_failure (lm_failure m) = Ret f" using ok unfolding lm_ok_def by blast
  note d = lm_okD [OF ok xf]
  from may xf(1) obtain u where u: "x = Some u" "su_token u = t" by (auto simp: may_launch_def)
  then have "\<not> su_handoff u" using d(3) [OF u(1)] t by (simp add: token_ok_def)
  with d(4) [OF u(1)] xf(2) show ?thesis by simp
qed

lemma looks_fine:
  assumes "lm_fine project m" "prj_state s = lm_state m" "prj_startup s = lm_startup m" "prj_failure s = lm_failure m"
  shows "files_ok w project (lm_starter m) (lm_loose m) s"
  using lm_ok_less [OF assms(1) loose_now_subset] assms(2-4) by (simp add: files_ok_def)

lemma opened_files: "lm_fine project m \<Longrightarrow> files_are w project (lm_starter m) (lm_loose m) (lm_state m) (lm_startup m) (lm_failure m) (\<lambda>_. True) (opened m)"
  by (simp add: files_are_def)

text \<open>A starting command line goes on.\<close>

lemma starter_goes:
  assumes "files_ok w project \<sigma> L s" "n \<notin> {Idle, Reserved}" "n = Over \<or> n = Leaving False \<and> (\<forall>p. \<sigma> t \<noteq> Leaving p) \<and> \<sigma> t \<noteq> Over \<or> (\<exists>d. \<sigma> t = Launched d)"
  shows "files_ok w project (\<sigma>(t := n)) L s"
  unfolding files_ok_def
proof (rule lm_ok_starter [OF assms(1) [unfolded files_ok_def] assms(2)])
  fix u b assume "su_token u = t" "token_ok \<sigma> b u"
  with assms(3) show "token_ok (\<sigma>(t := n)) b u" by (auto simp: token_ok_def split: starter.splits)
qed

lemma start_failed_fine:
  "leads (files_are w project \<sigma> L st su fl (\<lambda>_. True)) (start_failed w project answer d b) (\<lambda>_. files_ok w project \<sigma> L) (files_ok w project \<sigma> L)"
  unfolding start_failed_def startups_def Let_def
proof (rule leads_bind [OF leads_load], rule leads_fact, rule leads_bind)
  fix state :: runtime_state
  let ?Q = "files_are w project \<sigma> L st su fl (\<lambda>p. True \<and> (recorded project p st \<longrightarrow> in_state project p state))"
  show "leads ?Q (reading_file (\<lambda>s. load_startup (prj_startup s))) (\<lambda>x s. ?Q s \<and> load_startup su = Ret x) (files_ok w project \<sigma> L)"
    by (rule leads_reading) (auto simp: files_are_def files_ok_def)
next
  fix state :: runtime_state and x :: "startup option" assume token: "rs_token state = state_token st"
  let ?kept = "add_groups (rs_groups state) (rs_live state)"
  let ?ds = "if b then ?kept else add_record d ?kept"
  let ?token = "case x of None \<Rightarrow> None | Some u \<Rightarrow> if rs_token state = Some (su_token u) then rs_token state else None"
  let ?Q = "files_are w project \<sigma> L st su fl (\<lambda>p. True \<and> (recorded project p st \<longrightarrow> in_state project p state))"
  have new: "files_ok w project \<sigma> L (put_state (Stored (state_doc ?ds ?token)) s)" if s: "?Q s" and x: "load_startup su = Ret x" for s
  proof -
    have ok: "lm_ok project \<sigma> (loose_now w L s) st su fl" using s by (simp add: files_are_def)
    obtain f where f: "load_startup_failure fl = Ret f" using ok unfolding lm_ok_def by blast
    have "\<exists>d \<in> set ?ds. record_of project p d" if "p \<in> loose_now w L s" "recorded project p st" for p
    proof -
      have "in_state project p state" using s that by (simp add: files_are_def)
      then obtain e where e: "record_of project p e" "e \<in> set (rs_live state) \<or> e \<in> set (map (\<lambda>(_, _, d). d) (rs_groups state))"
        unfolding in_state_def by blast
      have "set ?kept \<subseteq> set ?ds" by (cases b) (simp_all only: if_True if_False add_record_set subset_insertI subset_refl)
      moreover have "e \<in> set ?kept" using e(2) unfolding add_groups_set by blast
      ultimately have "e \<in> set ?ds" by blast
      with e(1) show ?thesis by blast
    qed
    moreover have "?token = None \<or> ?token = state_token st \<and> ?token \<noteq> Some []"
      using lm_okD(3) [OF ok x f] token by (auto simp: token_ok_def split: option.splits)
    ultimately have "lm_ok project \<sigma> (loose_now w L s) (Stored (state_doc ?ds ?token)) su fl" by (rule state_written_ok [OF ok])
    then show ?thesis using s by (simp add: files_ok_def files_are_def)
  qed
  show "leads (\<lambda>s. ?Q s \<and> load_startup su = Ret x) (write_doc put_state answer (state_doc ?ds ?token)) (\<lambda>_. files_ok w project \<sigma> L) (files_ok w project \<sigma> L)"
    by (rule leads_write) (blast intro: new files_are_ok)+
qed

lemma start_released_fine:
  assumes ok: "lm_fine project m" and t: "lm_starter m t = Leaving preserve" and run: "start_released answer t preserve (opened m) = Some (r, s)"
  shows "files_ok w project (lm_starter m) (lm_loose m) s"
proof -
  obtain x f where xf: "load_startup (lm_startup m) = Ret x" "load_startup_failure (lm_failure m) = Ret f" using ok unfolding lm_ok_def by blast
  note d = lm_okD [OF ok xf]
  consider (stays) "s = opened m" | (gone) u where "x = Some u" "su_token u = t" "su_unresolved u = None" "\<not> preserve" "s = put_startup Missing (opened m)"
    using run xf(1)
    by (auto simp: start_released_def startups_def reading_file_def prj_bind_Some prj_of_def unlink_doc_def split: option.splits if_splits)
  then show ?thesis
  proof cases
    case stays
    then show ?thesis using ok by (simp add: files_ok_def)
  next
    case gone
    have rec: "recorded project p (lm_state m)" if "p \<in> lm_loose m" for p
      using d(3) [OF gone(1)] d(4) [OF gone(1)] gone t that by (auto simp: token_ok_def)
    from lm_ok_unlinked(1) [OF ok rec] gone(5) show ?thesis by (simp add: files_ok_def)
  qed
qed

lemma start_reserve_fine:
  assumes ok: "lm_fine project m" and t: "lm_starter m t = Idle" "t \<noteq> []" and run: "start_reserve w project answer t (opened m) = Some (r, s)"
  shows "files_ok w project ((lm_starter m)(t := (if is_ret r then Reserved else Over))) (lm_loose m) s \<and> (is_ret r \<longrightarrow> loose_now w (lm_loose m) s = {})"
proof -
  let ?\<sigma> = "lm_starter m" and ?L = "lm_loose m"
  obtain x f where xf: "load_startup (lm_startup m) = Ret x" "load_startup_failure (lm_failure m) = Ret f" using ok unfolding lm_ok_def by blast
  note files = opened_files [OF ok, of w]
  define refused where "refused s \<longleftrightarrow> files_ok w project ?\<sigma> ?L s" for s
  have looks: "leads (files_are w project ?\<sigma> ?L (lm_state m) (lm_startup m) (lm_failure m) (\<lambda>_. True)) (load_runtime_state w project)
      (\<lambda>state s. files_are w project ?\<sigma> ?L (lm_state m) (lm_startup m) (lm_failure m) (\<lambda>p. recorded project p (lm_state m) \<longrightarrow> in_state project p state) s) (files_ok w project ?\<sigma> ?L)"
    by (rule leads_weaken [OF leads_load]) (auto simp: files_are_def)
  from run obtain l s2 where l: "load_runtime_state w project (opened m) = Some (l, s2)" by (auto simp: start_reserve_def prj_bind_Some)
  have s2: "files_ok w project ?\<sigma> ?L s2" using looks_fine [OF ok] only_looksD [OF only_looks_load l] by simp
  have put_over: "files_ok w project (?\<sigma>(t := Over)) ?L s2" using starter_goes [OF s2, of Over t] by simp
  consider (raises) "\<not> is_ret r" "s = s2"
    | (reaches) state where "l = Ret state" "rs_live state = []" "rs_groups state = []" "x = None" "f = None"
        "write_doc put_startup answer (startup_doc t False False None) s2 = Some (r, s)"
  proof (cases l)
    case (Inl e)
    with run l that(1) show thesis by (auto simp: start_reserve_def prj_bind_def)
  next
    case (Inr state)
    have files: "prj_startup s2 = lm_startup m" "prj_failure s2 = lm_failure m" using only_looksD [OF only_looks_load l] by simp_all
    from run l Inr files xf that show thesis
      by (auto simp: start_reserve_def prj_bind_def prj_of_def startups_def failures_def reading_file_def split: if_splits)
  qed
  then show ?thesis
  proof cases
    case raises
    with put_over show ?thesis by simp
  next
    case reaches
    have kept: "prj_state s2 = lm_state m" "prj_failure s2 = lm_failure m" using only_looksD [OF only_looks_load l] by simp_all
    have none: "loose_now w ?L s2 = {}"
    proof -
      have "files_are w project ?\<sigma> ?L (lm_state m) (lm_startup m) (lm_failure m) (\<lambda>p. recorded project p (lm_state m) \<longrightarrow> in_state project p state) s2"
        using leadsD(1) [OF looks files l [unfolded reaches(1)]] .
      moreover have "\<not> in_state project p state" for p using reaches by (simp add: in_state_def)
      ultimately have "\<not> recorded project p (lm_state m)" if "p \<in> loose_now w ?L s2" for p using that by (simp add: files_are_def)
      moreover have "recorded project p (lm_state m)" if "p \<in> loose_now w ?L s2" for p
        using lm_okD(2) [OF ok xf, of p] reaches(4) subsetD [OF loose_now_subset that] by (simp add: covered_def)
      ultimately show ?thesis by blast
    qed
    have new: "files_ok w project (?\<sigma>(t := n)) ?L (put_startup (Stored (startup_doc t False False None)) s2)" if "n = Reserved \<or> n = Over" for n
      unfolding files_ok_def
    proof (simp add: none kept, rule lm_okI [OF load_phase [OF t(2)] xf(2), where q = 0], goal_cases)
      case (5 t')
      then have "?\<sigma> t' \<in> {Idle, Reserved}" using t(1) by (auto split: if_splits)
      then show ?case using lm_okD(5) [OF ok xf] by blast
    qed (use that t(2) reaches(5) in \<open>auto simp: token_ok_def\<close>)
    have "s = put_startup (Stored (startup_doc t False False None)) s2 \<or> s = s2 \<and> \<not> is_ret r" using write_doc_Some [OF reaches(6)] by blast
    then show ?thesis using new [of Reserved] new [of Over] put_over none by (elim disjE) auto
  qed
qed

lemma closing_log_after: "after_handoff (Ret (closing_log os y)) = (case ho_close os of Inl _ \<Rightarrow> Leaving (snd y) | Inr _ \<Rightarrow> after_handoff (Ret y))"
  by (simp add: closing_log_def after_handoff_def split: sum.split)

lemma after_not_ret: "\<not> is_ret (fst y) \<Longrightarrow> after_handoff (Ret (closing_log os y)) = Leaving (snd y)"
  by (cases y) (auto simp: closing_log_def after_handoff_def split: sum.split)

lemma start_handoff_fine:
  assumes ok: "lm_fine project m" and t: "lm_starter m t = Reserved" "t \<noteq> []" and rec: "recognised w project os"
    and run: "start_handoff w os t (opened m) = Some (r, s)"
  shows "files_ok w project ((lm_starter m)(t := after_handoff r)) (lm_loose m \<union> launched_by os t (lm_startup m)) s \<and> (launched_by os t (lm_startup m) \<noteq> {} \<longrightarrow> lm_loose m = {})"
proof -
  let ?\<sigma> = "lm_starter m" and ?h = "Stored (startup_doc t False True None)"
  consider (none) "launched_by os t (lm_startup m) = {}" "after_handoff r = Leaving False" "prj_state s = lm_state m" "prj_failure s = lm_failure m" "turn_of s = 0"
      "prj_startup s = lm_startup m \<or> may_launch t (lm_startup m) \<and> prj_startup s = ?h"
    | (launch) pid y where "launched_by os t (lm_startup m) = {pid}" "may_launch t (lm_startup m)" "0 < pid" "r = Ret (closing_log os y)"
      "handed_off w project t pid (put_startup ?h (opened m)) y s"
    by (rule disjE [OF start_handoff_result [OF run rec opened_simps(4), unfolded opened_simps]])
      (elim conjE, erule (5) that(1), elim exE conjE, erule (4) that(2))
  then show ?thesis
  proof cases
    case none
    have loose: "loose_now w (lm_loose m) s = lm_loose m" using none(5) by (auto simp: loose_now_def group_ended_def)
    from none(6) show ?thesis
    proof
      assume "prj_startup s = lm_startup m"
      then have "files_ok w project ?\<sigma> (lm_loose m) s" using none ok loose by (simp add: files_ok_def)
      from starter_goes [OF this, of "Leaving False" t] t none(1,2) show ?thesis by simp
    next
      assume h: "may_launch t (lm_startup m) \<and> prj_startup s = ?h"
      then have clear: "lm_loose m = {}" "load_startup_failure (lm_failure m) = Ret None" using may_launch_clear [OF ok t(1)] by simp_all
      have "lm_ok project (?\<sigma>(t := Leaving False)) {} (lm_state m) ?h (lm_failure m)"
        by (rule handoff_ok [where pid = 1 and st = "lm_state m" and su = "lm_startup m" and fl = "lm_failure m"]) (use ok clear t in simp_all)
      then show ?thesis using none h clear loose by (simp add: files_ok_def)
    qed
  next
    case launch
    have clear: "lm_loose m = {}" "load_startup_failure (lm_failure m) = Ret None" using may_launch_clear [OF ok t(1) launch(2)] by simp_all
    have "files_ok w project (?\<sigma>(t := after_handoff r)) {pid} s"
    proof -
      let ?L = "loose_now w {pid} s"
      from launch(5) have state: "prj_state s = lm_state m \<or> (\<exists>d. prj_state s = Stored (state_doc [d] (Some t)) \<and> record_of project pid d)"
        unfolding handed_off_def published_def by simp
      have rec_pub: "recorded project p (prj_state s)" if "published project t pid s" "p \<in> ?L" for p
        using that t(2) loose_now_subset [of w "{pid}" s] by (auto simp: published_def recorded_doc)
      have ends: "lm_ok project (?\<sigma>(t := n)) ?L (prj_state s) su' fl'"
        if "su' = ?h \<or> (\<exists>known. 0 < pid \<and> su' = Stored (startup_doc t True True (Some (pid, known))))" "fl' = lm_failure m \<or> 0 < pid \<and> fl' = Stored (failure_doc pid)"
          "n = Over \<or> n = Leaving True \<or> n = Leaving False \<and> (\<forall>p \<in> ?L. recorded project p (prj_state s))" for n su' fl'
      proof (rule handoff_ok [where \<sigma> = ?\<sigma> and pid = pid and st = "lm_state m" and su = "lm_startup m" and fl = "lm_failure m"])
        show "lm_ok project ?\<sigma> {} (lm_state m) (lm_startup m) (lm_failure m)" using ok clear(1) by simp
      qed (rule clear(2) t loose_now_subset launch(3) state that)+
      from launch(5) consider (kept) "\<not> is_ret (fst y)" "snd y" "kept_launch t pid (put_startup ?h (opened m)) s"
        | (ended) "\<not> is_ret (fst y)" "\<not> snd y" "prj_startup s = ?h" "prj_failure s = lm_failure m" "group_ended w pid 0 (turn_of s)"
        | (pub) "\<not> snd y" "published project t pid s" "prj_failure s = lm_failure m" "prj_startup s = Missing \<or> prj_startup s = ?h \<and> \<not> is_ret (fst y)"
        unfolding handed_off_def by auto
      then show ?thesis
      proof cases
        case kept
        then have "lm_ok project (?\<sigma>(t := Leaving True)) ?L (prj_state s) (prj_startup s) (prj_failure s)"
          by (intro ends) (use launch(3) in \<open>auto simp: kept_launch_def\<close>)
        with kept launch(4) show ?thesis by (simp add: files_ok_def after_not_ret)
      next
        case ended
        then have "?L = {}" by (auto simp: loose_now_def)
        then have "lm_ok project (?\<sigma>(t := Leaving False)) ?L (prj_state s) (prj_startup s) (prj_failure s)" by (intro ends) (use ended in simp_all)
        with ended launch(4) show ?thesis by (simp add: files_ok_def after_not_ret)
      next
        case pub
        have base: "lm_ok project (?\<sigma>(t := Leaving False)) ?L (prj_state s) ?h (lm_failure m)" by (intro ends) (use rec_pub pub(2) in simp_all)
        from pub(4) show ?thesis
        proof
          assume "prj_startup s = ?h \<and> \<not> is_ret (fst y)"
          with base pub launch(4) show ?thesis by (simp add: files_ok_def after_not_ret)
        next
          assume gone: "prj_startup s = Missing"
          have "lm_ok project (?\<sigma>(t := Leaving False)) ?L (prj_state s) Missing (lm_failure m)" by (rule lm_ok_unlinked(1) [OF base]) (rule rec_pub [OF pub(2)])
          then have "lm_ok project ((?\<sigma>(t := Leaving False))(t := after_handoff r)) ?L (prj_state s) Missing (lm_failure m)"
            by (rule lm_ok_starter) (simp_all add: after_handoff_def split: sum.split prod.split)
          with gone pub(3) show ?thesis by (simp add: files_ok_def)
        qed
      qed
    qed
    with clear launch(1) show ?thesis by simp
  qed
qed

lemma handoff_cut_files:
  assumes "handoff_cut project t s s1 P"
  shows "(P = {} \<and> s1 = put_startup (Stored (startup_doc t False True None)) s) \<or>
    (\<exists>pid. 0 < pid \<and> P = {pid} \<and> (prj_state s1 = prj_state s \<or> (\<exists>d. prj_state s1 = Stored (state_doc [d] (Some t)) \<and> record_of project pid d)) \<and>
      (prj_startup s1 = Stored (startup_doc t False True None) \<or> (\<exists>known. 0 < pid \<and> prj_startup s1 = Stored (startup_doc t True True (Some (pid, known))))) \<and>
      (prj_failure s1 = prj_failure s \<or> 0 < pid \<and> prj_failure s1 = Stored (failure_doc pid)))"
  using assms by induction auto

lemma is_cut_fine:
  assumes ok: "lm_fine project m" and t: "lm_starter m t = Reserved" "t \<noteq> []" and may: "may_launch t (lm_startup m)"
    and cut: "handoff_cut project t (opened m) s P"
  shows "lm_ok project ((lm_starter m)(t := Over)) (lm_loose m \<union> P) (prj_state s) (prj_startup s) (prj_failure s) \<and> lm_loose m = {}"
proof -
  have clear: "lm_loose m = {}" "load_startup_failure (lm_failure m) = Ret None" using may_launch_clear [OF ok t(1) may] by simp_all
  have base: "lm_ok project (lm_starter m) {} (lm_state m) (lm_startup m) (lm_failure m)" using ok clear(1) by simp
  note fine = handoff_ok [OF base clear(2) t(2,1)]
  consider (phase) "P = {}" "s = put_startup (Stored (startup_doc t False True None)) (opened m)"
    | (launch) pid where "0 < pid" "P = {pid}" "prj_state s = lm_state m \<or> (\<exists>d. prj_state s = Stored (state_doc [d] (Some t)) \<and> record_of project pid d)"
      "prj_startup s = Stored (startup_doc t False True None) \<or> (\<exists>known. 0 < pid \<and> prj_startup s = Stored (startup_doc t True True (Some (pid, known))))"
      "prj_failure s = lm_failure m \<or> 0 < pid \<and> prj_failure s = Stored (failure_doc pid)"
    using handoff_cut_files [OF cut] unfolding opened_simps by blast
  then have "lm_ok project ((lm_starter m)(t := Over)) P (prj_state s) (prj_startup s) (prj_failure s)"
  proof cases
    case phase
    then show ?thesis by (intro fine [where pid = 1]) simp_all
  next
    case launch
    show ?thesis by (rule fine [OF _ _ launch(3,4,5)]) (use launch(1,2) in simp_all)
  qed
  with clear(1) show ?thesis by simp
qed

lemma fine_goes: "files_ok w project ((lm_starter m)(t := n)) (lm_loose m) (opened m) \<Longrightarrow> lm_fine project (m\<lparr>lm_starter := (lm_starter m)(t := n)\<rparr>)"
  by (simp add: files_ok_def)

lemma only_looks_end: "only_looks (end_failed_launch w project d)"
  unfolding end_failed_launch_def by (auto intro!: only_looks_bind only_looks_terminate)

lemma leads_result: "leads P m (\<lambda>_. R) R \<Longrightarrow> P s \<Longrightarrow> m s = Some (r, s1) \<Longrightarrow> R s1"
  by (cases r) (auto dest: leadsD)

lemma stop_fine: "leads (files_are w project \<sigma> L st su fl (\<lambda>_. True)) (stop_project w project os) (\<lambda>_. files_ok w project \<sigma> L) (files_ok w project \<sigma> L)"
  by (rule leads_weaken [OF leads_stop]) (auto simp: stopped_fine_def)

lemma lm_step_keeps:
  assumes "lm_step project m m1" "lm_inv project m"
  shows "lm_inv project m1 \<and> (lm_loose m1 \<subseteq> lm_loose m \<or> lm_loose m = {})"
  using assms(1)
proof cases
  note ok = conjunct1 [OF assms(2) [unfolded lm_inv_def]]
  have own: "t \<noteq> []" if "lm_starter m t \<notin> {Idle, Over}" for t using assms(2) that by (auto simp: lm_inv_def)
  note files = opened_files [OF ok]
  have here: "files_ok w project (lm_starter m) (lm_loose m) (opened m)" for w using looks_fine [OF ok] by simp
  {
    case (reserves t w answer r s)
    from start_reserve_fine [OF ok reserves(2,3,4)] assms(2) reserves(1,3) show ?thesis by (auto simp: lm_inv_def files_ok_def loose_now_def)
  next
    case (gives_up t)
    have "lm_fine project m1" unfolding gives_up(1) by (rule fine_goes, rule starter_goes [OF here]) (use gives_up in simp_all)
    with gives_up assms(2) own [of t] show ?thesis by (auto simp: lm_inv_def)
  next
    case (hands_off t w os r s)
    with own [of t] have t: "t \<noteq> []" by simp
    from start_handoff_fine [OF ok hands_off(2) t hands_off(3,4)] assms(2) hands_off(1) t show ?thesis by (auto simp: lm_inv_def files_ok_def loose_now_def)
  next
    case (is_cut t s P)
    with own [of t] have t: "t \<noteq> []" by simp
    from is_cut_fine [OF ok is_cut(2) t is_cut(3,4)] assms(2) is_cut(1) t show ?thesis by (auto simp: lm_inv_def)
  next
    case (comes_up t d)
    have "lm_fine project m1" unfolding comes_up(1) by (rule fine_goes, rule starter_goes [OF here]) (use comes_up in simp_all)
    with comes_up assms(2) own [of t] show ?thesis by (auto simp: lm_inv_def)
  next
    case (ends t d w r s)
    have "files_ok w project (lm_starter m) (lm_loose m) s" by (rule looks_fine [OF ok]) (use only_looksD [OF only_looks_end ends(3)] in simp_all)
    then have "files_ok w project ((lm_starter m)(t := (case r of Inl _ \<Rightarrow> Leaving False | Inr b \<Rightarrow> Ending d b))) (lm_loose m) s"
      by (rule starter_goes) (use ends(2) in \<open>auto split: sum.split\<close>)
    with ends(1,2) assms(2) own [of t] show ?thesis by (auto simp: lm_inv_def files_ok_def loose_now_def)
  next
    case (puts_right t d b w answer r s)
    have "files_ok w project (lm_starter m) (lm_loose m) s" by (rule leads_result [OF start_failed_fine files puts_right(3)])
    then have "files_ok w project ((lm_starter m)(t := Leaving False)) (lm_loose m) s" by (rule starter_goes) (use puts_right(2) in simp_all)
    with puts_right(1,2) assms(2) own [of t] show ?thesis by (auto simp: lm_inv_def files_ok_def loose_now_def)
  next
    case (releases t preserve unlink r s w)
    have "files_ok w project (lm_starter m) (lm_loose m) s" by (rule start_released_fine [OF ok releases(2,3)])
    then have "files_ok w project ((lm_starter m)(t := Over)) (lm_loose m) s" by (rule starter_goes) simp_all
    with releases(1) assms(2) show ?thesis by (auto simp: lm_inv_def files_ok_def loose_now_def)
  next
    case (stops w sos r s)
    have "files_ok w project (lm_starter m) (lm_loose m) s" by (rule leads_result [OF stop_fine files stops(2)])
    with stops(1) assms(2) show ?thesis by (auto simp: lm_inv_def files_ok_def loose_now_def)
  next
    case (dies t)
    have "lm_fine project m1" unfolding dies(1) by (rule fine_goes, rule starter_goes [OF here]) simp_all
    with dies assms(2) show ?thesis by (auto simp: lm_inv_def)
  }
qed

interpretation launches: machine "lm_step project" "lm_inv project" for project
  by unfold_locales (use lm_step_keeps in blast)

lemma lm_init_inv: "lm_inv project lm_init"
  unfolding lm_inv_def by (auto simp: lm_init_def state_token_def intro!: lm_okI [where x = None and f = None and q = 0])

lemma lm_reachable_inv: "lm_reachable project m \<Longrightarrow> lm_inv project m"
  unfolding lm_reachable_def by (rule launches.inv_steps) (auto intro: lm_init_inv)

section \<open>What the machine promises\<close>

text \<open>C23: However command lines start and stop the project, and whenever they die, at most one launch is loose, a launch is started only when none is, and
  every loose launch is named by the state, or by a reservation in its handoff or the marker beside it.\<close>
theorem one_launch_at_a_time:
  assumes "lm_reachable project m" "lm_step project m m1"
  shows "(\<exists>q. lm_loose m1 \<subseteq> {q}) \<and> (lm_loose m1 \<subseteq> lm_loose m \<or> lm_loose m = {}) \<and>
    (\<forall>p \<in> lm_loose m1. recorded project p (lm_state m1) \<or>
      (\<exists>x f. load_startup (lm_startup m1) = Ret x \<and> load_startup_failure (lm_failure m1) = Ret f \<and> covered (lm_state m1) x f p))"
proof -
  note inv = lm_step_keeps [OF assms(2) lm_reachable_inv [OF assms(1)]]
  then show ?thesis unfolding lm_inv_def lm_ok_def by blast
qed

text \<open>C24: When a stop says that it succeeded, the process group of every launch ever made was seen to be empty after it, nothing runs or is reserved, and
  no starting command line that reserved before the stop goes on to launch.\<close>
theorem stop_ok_is_stopped:
  assumes "lm_reachable project m" "stop_project w project os (opened m) = Some (Inr a, s)" "sp_ok a"
  shows "(\<forall>p \<in> lm_loose m. group_ended w p 0 (turn_of s)) \<and> prj_startup s = Missing \<and> \<not> sp_running a \<and>
    (\<forall>w' hos t. start_handoff w' hos t s = Some (Ret (Raise ProjectLifecycleError, False), s))"
proof -
  from lm_reachable_inv [OF assms(1)] have ok: "lm_fine project m" by (simp add: lm_inv_def)
  from leadsD(1) [OF leads_stop opened_files [OF ok] assms(2)] assms(3) have "loose_now w (lm_loose m) s = {}" "prj_startup s = Missing" "\<not> sp_running a"
    by (simp_all add: stopped_fine_def)
  then show ?thesis by (auto simp: loose_now_def start_handoff_def startups_def reading_file_def prj_bind_def prj_of_def)
qed

text \<open>A starting command line that died between the handoff and the state leaves a reservation that no stop removes and no start passes.\<close>

lemma leads_files:
  assumes "only_looks m" "\<And>s s1. F s \<Longrightarrow> prj_state s1 = prj_state s \<Longrightarrow> prj_startup s1 = prj_startup s \<Longrightarrow> prj_failure s1 = prj_failure s \<Longrightarrow> F s1"
  shows "leads F m (\<lambda>_. F) F"
  by (rule leadsI) (blast intro: assms(2) only_looksD [OF assms(1)])+

lemma only_looks_estop: "only_looks (estop_mission os ds)"
  by (auto simp: estop_mission_def split: sum.split)

lemma unsure_stop_keeps:
  "leads (\<lambda>s. prj_startup s = x) (stop_processes w project os startup st False True blocked) (\<lambda>a s. prj_startup s = x \<and> \<not> sp_ok a) (\<lambda>s. prj_startup s = x)"
  unfolding stop_processes_def Let_def commit_phase_def clear_startup_def
proof (rule leads_bind [OF leads_files [OF only_looks_estop]], simp, rule leads_bind [OF leads_files [OF only_looks_all]], simp, goal_cases)
  case (1 _ results)
  show ?case
    by (simp, rule leads_bind [OF leads_ret [where Q = "\<lambda>y s. prj_startup s = x \<and> y"]], simp, rule leads_fact, simp,
        rule leads_bind [OF leads_write [where Q = "\<lambda>_ s. prj_startup s = x"]])
      (auto intro!: leads_bind [OF leads_ret [where Q = "\<lambda>_ s. prj_startup s = x"]] leads_ret)
qed

theorem interrupted_handoff_stays:
  assumes stopped: "stop_project w project os s = Some (r, s1)" and t: "t \<noteq> []" and startup: "prj_startup s = Stored (startup_doc t False True None)"
    and failure: "prj_failure s = Missing" and state: "state_token (prj_state s) \<noteq> Some t"
  shows "prj_startup s1 = prj_startup s \<and> (\<forall>a. r = Ret a \<longrightarrow> \<not> sp_ok a)"
proof -
  let ?u = "\<lparr>su_token = t, su_cancelled = False, su_handoff = True, su_unresolved = None\<rparr>"
  have loads: "load_startup (prj_startup s) = Ret (Some ?u)" "load_startup_failure (prj_failure s) = Ret None" using t by (simp_all add: startup failure load_phase)
  obtain l s2 where l: "load_runtime_state w project s = Some (l, s2)"
    using stopped loads by (auto simp: stop_project_def startups_def failures_def reading_file_def prj_bind_Some startup_unsure_def cancel_startup_def prj_of_def)
  have s2: "prj_startup s2 = prj_startup s" using only_looksD [OF only_looks_load l] by simp
  show ?thesis
  proof (cases l)
    case (Inl e)
    with stopped loads l s2 show ?thesis
      by (auto simp: stop_project_def startups_def failures_def reading_file_def prj_bind_def startup_unsure_def cancel_startup_def prj_of_def)
  next
    case (Inr st)
    have "rs_token st \<noteq> Some t" using load_state_Inr(1) [OF l [unfolded Inr]] state by simp
    then have "phase_only project (Some ?u) None st = Ret False" by (simp add: phase_only_def)
    with stopped loads l Inr have run: "stop_processes w project os (Some ?u) st False True [] s2 = Some (r, s1)"
      by (simp add: stop_project_def startups_def failures_def reading_file_def prj_bind_def startup_unsure_def cancel_startup_def prj_of_def settle_startup_def
          unresolved_launch_def)
    have "leads (\<lambda>s'. prj_startup s' = prj_startup s) (stop_processes w project os (Some ?u) st False True []) (\<lambda>a s'. prj_startup s' = prj_startup s \<and> \<not> sp_ok a)
        (\<lambda>s'. prj_startup s' = prj_startup s)" by (rule unsure_stop_keeps)
    from leadsD [OF this s2] run show ?thesis by (cases r) auto
  qed
qed

section \<open>A run\<close>

definition demo_reserved :: launch_machine where
  "demo_reserved = \<lparr>lm_state = Missing, lm_startup = Stored (startup_doc ''t'' False False None), lm_failure = Missing, lm_starter = (\<lambda>_. Idle)(''t'' := Reserved), lm_loose = {}\<rparr>"

definition demo_cut :: launch_machine where
  "demo_cut = \<lparr>lm_state = Missing, lm_startup = Stored (startup_doc ''t'' False True None), lm_failure = Stored (failure_doc 7), lm_starter = (\<lambda>_. Idle)(''t'' := Over), lm_loose = {7}\<rparr>"

definition demo_moment :: proc_moment where
  "demo_moment = \<lparr>pm_look = \<lambda>_. \<lparr>pv_stat = Ret None, pv_cmdline = Ret None, pv_pgid = Ret None, pv_cwd = ''/''\<rparr>, pm_scan = [], pm_clock = Fin 0,
     pm_signal = \<lambda>_ _. NoSuchProcess, pm_exited = True, pm_wait_exits = True\<rparr>"

lemma demo_reserves: "lm_step project lm_init demo_reserved"
proof -
  have "start_reserve (\<lambda>_. demo_moment) project Written ''t'' (opened lm_init) = Some (Ret (), put_startup (Stored (startup_doc ''t'' False False None)) (opened lm_init))"
    by (simp add: start_reserve_def load_runtime_state_def startups_def failures_def reading_file_def prj_bind_def prj_of_def lm_init_def write_doc_def)
  from lm_step.reserves [OF _ _ this] show ?thesis by (simp add: lm_init_def demo_reserved_def settled_def opened_def loose_now_def)
qed

lemma demo_is_cut: "lm_step project demo_reserved demo_cut"
proof -
  have "handoff_cut project ''t'' (opened demo_reserved) (put_failure (Stored (failure_doc 7)) (put_startup (Stored (startup_doc ''t'' False True None)) (opened demo_reserved))) {7}"
    by (intro handoff_cut.mark handoff_cut.launch) simp
  from lm_step.is_cut [OF _ _ this] show ?thesis
    by (simp add: demo_reserved_def demo_cut_def may_launch_def load_phase opened_def)
qed

lemma demo_reachable: "lm_reachable project demo_reserved" "lm_reachable project demo_cut"
proof -
  show here: "lm_reachable project demo_reserved" unfolding lm_reachable_def by (rule r_into_rtranclp) (rule demo_reserves)
  show "lm_reachable project demo_cut" unfolding lm_reachable_def
    by (rule rtranclp.rtrancl_into_rtrancl [where b = demo_reserved]) (rule here [unfolded lm_reachable_def] demo_is_cut)+
qed

theorem one_launch_at_a_time_witness: "\<exists>x f. load_startup (lm_startup demo_cut) = Ret x \<and> load_startup_failure (lm_failure demo_cut) = Ret f \<and> covered Missing x f 7"
  using one_launch_at_a_time [OF demo_reachable(1) demo_is_cut, of "''/p''"] by (simp add: demo_cut_def recorded_def)

definition demo_stop_os :: stop_os where
  "demo_stop_os = \<lparr>so_cancel = Written, so_estop = Ret (), so_state = Written, so_unlink = \<lambda>_. None\<rparr>"

lemma demo_stops:
  "\<exists>a s. stop_project (\<lambda>_. demo_moment) project demo_stop_os (opened demo_cut) = Some (Inr a, s) \<and> sp_ok a"
  by (simp add: stop_project_def startups_def failures_def reading_file_def prj_bind_def prj_of_def opened_def demo_cut_def load_phase load_failure_doc startup_unsure_def
      cancel_startup_def load_runtime_state_def phase_only_def unresolved_launch_def settle_startup_def members_now_def looking_def demo_moment_def group_members_def
      end_unresolved_def unlink_doc_def demo_stop_os_def stop_processes_def estop_mission_def remaining_records_def add_groups_def commit_phase_def write_doc_def clear_startup_def
      turned_def Let_def)

theorem stop_ok_is_stopped_witness: "\<exists>s. prj_startup s = Missing \<and> group_ended (\<lambda>_. demo_moment) 7 0 (turn_of s)"
proof -
  obtain a s where s: "stop_project (\<lambda>_. demo_moment) ''/p'' demo_stop_os (opened demo_cut) = Some (Inr a, s)" "sp_ok a" using demo_stops by blast
  from stop_ok_is_stopped [OF demo_reachable(2) s] show ?thesis by (auto simp: demo_cut_def)
qed

theorem interrupted_handoff_stays_witness:
  "\<exists>r s. stop_project (\<lambda>_. demo_moment) ''/p'' demo_stop_os (put_startup (Stored (startup_doc ''t'' False True None)) (opened lm_init)) = Some (r, s) \<and>
    prj_startup s = Stored (startup_doc ''t'' False True None)"
proof -
  let ?s = "put_startup (Stored (startup_doc ''t'' False True None)) (opened lm_init)"
  have "\<exists>r s. stop_project (\<lambda>_. demo_moment) ''/p'' demo_stop_os ?s = Some (r, s)"
    by (simp add: stop_project_def startups_def failures_def reading_file_def prj_bind_def prj_of_def opened_def lm_init_def load_phase startup_unsure_def
        cancel_startup_def load_runtime_state_def phase_only_def unresolved_launch_def settle_startup_def demo_stop_os_def stop_processes_def estop_mission_def
        remaining_records_def add_groups_def commit_phase_def write_doc_def clear_startup_def Let_def)
  then obtain r s where s: "stop_project (\<lambda>_. demo_moment) ''/p'' demo_stop_os ?s = Some (r, s)" by blast
  have "prj_startup s = prj_startup ?s" using interrupted_handoff_stays [OF s, of "''t''"] by (simp add: state_token_def lm_init_def)
  with s show ?thesis by auto
qed

end
