(* ===== verification/ProjectGraph.thy ===== *)
theory ProjectGraph
  imports AcceptanceRun Discovery ProjectFiles
begin

text \<open>
  How \<^verbatim>\<open>scripts/codex_project.py\<close> looks at the ROS graph and calls the mission's services: what it reads off the command line's reports, the
  closed document of the native probe, the wait for the graph of a start, and the commands for the mission. Runs of other programs are arguments: their
  return code and what they print, or the exception of the run.
\<close>

section \<open>The report on a topic\<close>

definition after_colon :: "string \<Rightarrow> string" where
  "after_colon s = strip (tl (dropWhile (\<lambda>c. c \<noteq> CHR '':'') s))"

record topic_reader =
  tr_name :: "string option"
  tr_namespace :: string
  tr_type :: "string option"
  tr_found :: "(string \<times> string) list"

definition node_of :: "string \<Rightarrow> string \<Rightarrow> string" where
  "node_of namespace name =
     (let ns = strip_char (CHR ''/'') namespace in collapse_slashes ((if ns \<noteq> [] then CHR ''/'' # ns else []) @ CHR ''/'' # name))"

definition topic_line :: "string \<Rightarrow> topic_reader \<Rightarrow> topic_reader" where
  "topic_line line p =
     (let s = strip line in
      if starts_with ''Node name:'' s then p\<lparr>tr_name := Some (after_colon s), tr_namespace := ''/'', tr_type := None\<rparr>
      else if starts_with ''Node namespace:'' s then p\<lparr>tr_namespace := (if after_colon s = [] then ''/'' else after_colon s)\<rparr>
      else if starts_with ''Endpoint type:'' s then p\<lparr>tr_type := Some (after_colon s)\<rparr>
      else (case tr_name p of
          Some name \<Rightarrow>
            if starts_with ''GID:'' s \<and> name \<noteq> [] \<and> tr_type p = Some ''PUBLISHER''
            then p\<lparr>tr_name := None, tr_found := tr_found p @ [(node_of (tr_namespace p) name, after_colon s)]\<rparr> else p
        | None \<Rightarrow> p))"

definition topic_start :: topic_reader where
  "topic_start = \<lparr>tr_name = None, tr_namespace = ''/'', tr_type = None, tr_found = []\<rparr>"

definition parse_cmd_vel_publisher_endpoints :: "string \<Rightarrow> (string \<times> string) list" where
  "parse_cmd_vel_publisher_endpoints output = tr_found (fold topic_line (splitlines output) topic_start)"

definition parse_cmd_vel_publishers :: "string \<Rightarrow> string list" where
  "parse_cmd_vel_publishers output =
     fold (\<lambda>e result. if fst e \<in> set result then result else result @ [fst e]) (parse_cmd_vel_publisher_endpoints output) []"

section \<open>Inspections\<close>

text \<open>A run of the command line: return code, standard output and standard error.\<close>

type_synonym ros_run = "string list \<Rightarrow> (int \<times> string \<times> string) result"

definition CMD_VEL :: string where "CMD_VEL = ''/cmd_vel''"
definition MISSION_CONTROLLER :: string where "MISSION_CONTROLLER = ''/hospital_mission_controller''"

definition complaint :: "string \<Rightarrow> string \<Rightarrow> string" where
  "complaint out err = strip (if err \<noteq> [] then err else out)"

text \<open>The left side is an inspection that is not ok, with its error.\<close>

definition inspect_cmd_vel_publishers :: "ros_run \<Rightarrow> (string + (string \<times> string) list) result" where
  "inspect_cmd_vel_publishers run =
     rbind (run [''ros2'', ''topic'', ''list'']) (\<lambda>(code, out, err).
     if code \<noteq> 0 then Ret (Inl (complaint out err))
     else if CMD_VEL \<notin> set (splitlines out) then Ret (Inr [])
     else rbind (run [''ros2'', ''topic'', ''info'', CMD_VEL, ''-v'']) (\<lambda>(code, out, err).
       if code \<noteq> 0 then Ret (Inl (complaint out err)) else Ret (Inr (parse_cmd_vel_publisher_endpoints out))))"

definition topic_publishers :: "ros_run \<Rightarrow> string list result" where
  "topic_publishers run =
     rbind (inspect_cmd_vel_publishers run) (\<lambda>i. case i of Inl _ \<Rightarrow> Raise ProjectLifecycleError | Inr es \<Rightarrow> Ret (map fst es))"

definition exclusive_of :: "(string \<times> string) list \<Rightarrow> (string \<times> string) result" where
  "exclusive_of es = (case es of [e] \<Rightarrow> if fst e = MISSION_CONTROLLER then Ret e else Raise ProjectLifecycleError | _ \<Rightarrow> Raise ProjectLifecycleError)"

definition require_exclusive_controller :: "ros_run \<Rightarrow> (string \<times> string) result" where
  "require_exclusive_controller run =
     rbind (inspect_cmd_vel_publishers run) (\<lambda>i. case i of Inl _ \<Rightarrow> Raise ProjectLifecycleError | Inr es \<Rightarrow> exclusive_of es)"

text \<open>A start refuses before the build when the velocity topic has a publisher.\<close>

definition start_allowed :: "ros_run \<Rightarrow> unit result" where
  "start_allowed run =
     rbind (inspect_cmd_vel_publishers run) (\<lambda>i. case i of
         Inl _ \<Rightarrow> Raise ProjectLifecycleError
       | Inr es \<Rightarrow> if es \<noteq> [] then Raise ProjectLifecycleError else Ret ())"

section \<open>The native probe\<close>

definition SNAPSHOT_KEYS :: "string list" where
  "SNAPSHOT_KEYS = [''nodes'', ''topics'', ''services'', ''actions'', ''topic_endpoints'']"

definition snapshot_checked :: "pyval \<Rightarrow> pydict result" where
  "snapshot_checked v =
     (case v of
        VDict d \<Rightarrow>
          if keys_are d SNAPSHOT_KEYS \<and> list_all (\<lambda>k. case vget d k of VDict _ \<Rightarrow> True | _ \<Rightarrow> False) [''topics'', ''services'', ''actions'', ''topic_endpoints''] \<and> is_list (vget d ''nodes'')
          then Ret d else Raise ProjectLifecycleError
      | _ \<Rightarrow> Raise ProjectLifecycleError)"

text \<open>\<^verbatim>\<open>PyOSError\<close> stands for \<^verbatim>\<open>OSError\<close> and \<^verbatim>\<open>SubprocessError\<close>; the decoder gives the document and where it ends.\<close>

definition native_graph_snapshot :: "(string \<Rightarrow> (pyval \<times> nat) result) \<Rightarrow> (int \<times> string) result \<Rightarrow> pydict result" where
  "native_graph_snapshot raw_decode completed =
     (case completed of
        Inl e \<Rightarrow> if e \<in> {PyOSError, PyValueError} then Raise ProjectLifecycleError else Raise e
      | Inr (code, out) \<Rightarrow>
          if code \<noteq> 0 then Raise ProjectLifecycleError
          else (let content = dropWhile py_space out in
            case raw_decode content of
              Inl e \<Rightarrow> if e \<in> {PyTypeError, PyValueError} then Raise ProjectLifecycleError else Raise e
            | Inr (document, ends_at) \<Rightarrow> if strip (drop ends_at content) \<noteq> [] then Raise ProjectLifecycleError else snapshot_checked document))"

definition ENDPOINT_KEYS :: "string list" where "ENDPOINT_KEYS = [''node_name'', ''node_namespace'', ''gid'', ''endpoint_type'']"

definition native_publisher :: "pyval \<Rightarrow> (string \<times> string) option result" where
  "native_publisher v =
     (case v of
        VDict d \<Rightarrow>
          if \<not> keys_are d ENDPOINT_KEYS \<or> \<not> list_all (\<lambda>k. is_str (vget d k)) ENDPOINT_KEYS then Raise ProjectLifecycleError
          else if vget d ''endpoint_type'' \<noteq> VStr ''publisher'' then Ret None
          else (let ns = rstrip_char (CHR ''/'') (str_val (vget d ''node_namespace'')); name = str_val (vget d ''node_name''); gid = str_val (vget d ''gid'') in
            if name = [] \<or> gid = [] then Raise ProjectLifecycleError else Ret (Some (ns @ CHR ''/'' # name, gid)))
      | _ \<Rightarrow> Raise ProjectLifecycleError)"

definition native_cmd_vel_publishers :: "pydict \<Rightarrow> (string \<times> string) list result" where
  "native_cmd_vel_publishers graph =
     (case vget graph ''topic_endpoints'' of
        VDict d \<Rightarrow> (case dget d (VStr CMD_VEL) of
            None \<Rightarrow> Ret []
          | Some (VList vs) \<Rightarrow> rbind (rmap native_publisher vs) (\<lambda>es. Ret (concat (map (\<lambda>e. case e of Some x \<Rightarrow> [x] | None \<Rightarrow> []) es)))
          | Some _ \<Rightarrow> Raise ProjectLifecycleError)
      | _ \<Rightarrow> Raise PyAttributeError)"

section \<open>The wait for the graph\<close>

definition REQUIRED_TOPICS :: "string list" where
  "REQUIRED_TOPICS = [''/odom'', ''/scan'', ''/camera/image_raw'', ''/hospital_amr/contacts'', ''/hospital_mission/status'']"

definition REQUIRED_SERVICES :: "string list" where
  "REQUIRED_SERVICES = [''/hospital_mission/start'', ''/hospital_mission/cancel'', ''/hospital_mission/estop'', ''/hospital_mission/reset'']"

definition all_in :: "string list \<Rightarrow> pyval \<Rightarrow> bool" where
  "all_in names v = (case v of VDict d \<Rightarrow> list_all (\<lambda>k. VStr k \<in> set (dkeys d)) names | _ \<Rightarrow> False)"

text \<open>Whether the wait is over.\<close>

definition graph_is_up :: "pydict \<Rightarrow> bool result" where
  "graph_is_up graph =
     (if \<not> all_in REQUIRED_TOPICS (vget graph ''topics'') \<or> \<not> all_in REQUIRED_SERVICES (vget graph ''services'') then Ret False
      else rbind (native_cmd_vel_publishers graph) (\<lambda>es. if es = [] then Ret False else rbind (exclusive_of es) (\<lambda>_. Ret True)))"

text \<open>One turn of the loop: the clock at its head, the probe's answer, and the clock after a probe that failed.\<close>

record graph_moment =
  gm_clock :: pyfloat
  gm_probe :: "pydict result"
  gm_after :: pyfloat

partial_function (option) wait_for_graph :: "(nat \<Rightarrow> graph_moment) \<Rightarrow> pyfloat \<Rightarrow> nat \<Rightarrow> (unit result \<times> nat) option" where
  "wait_for_graph w deadline n =
     (if \<not> flt (gm_clock (w n)) deadline then Some (Raise ProjectLifecycleError, n)
      else case gm_probe (w n) of
        Inl e \<Rightarrow>
          if e \<noteq> ProjectLifecycleError then Some (Raise e, n)
          else if fle deadline (gm_after (w n)) then Some (Raise ProjectLifecycleError, n)
          else wait_for_graph w deadline (Suc n)
      | Inr graph \<Rightarrow> (case graph_is_up graph of
          Inl e \<Rightarrow> Some (Raise e, n)
        | Inr up \<Rightarrow> if up then Some (Ret (), n) else wait_for_graph w deadline (Suc n)))"

section \<open>The environment of ROS\<close>

text \<open>What \<^verbatim>\<open>env -0\<close> prints after the set-up files were sourced, as text; \<open>project\<close> is \<^verbatim>\<open>str(PROJECT_ROOT)\<close>.\<close>

definition printed_environment :: "string \<Rightarrow> (string \<times> string) list" where
  "printed_environment out =
     fold (\<lambda>item environment. if CHR ''='' \<in> set item
         then dset (takeWhile (\<lambda>c. c \<noteq> CHR ''='') item) (tl (dropWhile (\<lambda>c. c \<noteq> CHR ''='') item)) environment else environment)
       (split_char (CHR 0x00) out) []"

definition resource_path :: "string \<Rightarrow> string \<Rightarrow> string" where
  "resource_path project inherited = rstrip_char (CHR '':'') (project @ ''/models:/opt/ros/lyrical/share/turtlebot3_gazebo/models:'' @ inherited)"

definition ros_environment :: "string \<Rightarrow> string \<Rightarrow> (string \<times> string) list" where
  "ros_environment project out =
     (let environment = printed_environment out;
          environment1 = dset ''GZ_SIM_RESOURCE_PATH''
            (resource_path project (case dget environment ''GZ_SIM_RESOURCE_PATH'' of None \<Rightarrow> [] | Some v \<Rightarrow> v)) environment
      in if dget environment1 ''DISPLAY'' = None then dset ''DISPLAY'' '':99'' environment1 else environment1)"

text \<open>Of the sourced environment nothing is lost but the resource path's old value, which the new one has at its end.\<close>
theorem ros_environment_exact:
  "dget (ros_environment project out) k =
    (if k = ''GZ_SIM_RESOURCE_PATH'' then Some (resource_path project (case dget (printed_environment out) k of None \<Rightarrow> [] | Some v \<Rightarrow> v))
     else if k = ''DISPLAY'' \<and> dget (printed_environment out) k = None then Some '':99'' else dget (printed_environment out) k)"
  by (auto simp: ros_environment_def Let_def dget_dset)

section \<open>The mission's services\<close>

fun after_last :: "string \<Rightarrow> string \<Rightarrow> string option" where
  "after_last m [] = (if m = [] then Some [] else None)"
| "after_last m (c # cs) =
     (case after_last m cs of Some r \<Rightarrow> Some r | None \<Rightarrow> if starts_with m (c # cs) then Some (drop (length m) (c # cs)) else None)"

definition strip_quotes :: "string \<Rightarrow> string" where
  "strip_quotes s =
     (let q = (\<lambda>c. c = CHR 0x27 \<or> c = CHR '')'' \<or> c = CHR 0x22) in rev (dropWhile q (rev (dropWhile q s))))"

record service_answer =
  sv_ok :: bool
  sv_success :: bool
  sv_message :: string
  sv_raw :: string

definition service_message :: "string \<Rightarrow> string" where
  "service_message raw =
     (case after_last ''message='' raw of
        Some m \<Rightarrow> strip_quotes (strip m)
      | None \<Rightarrow> (case after_last ''message:'' raw of Some m \<Rightarrow> strip_quotes (strip m) | None \<Rightarrow> []))"

definition service_call :: "ros_run \<Rightarrow> string \<Rightarrow> service_answer result" where
  "service_call run service =
     rbind (run [''ros2'', ''service'', ''call'', service, ''std_srvs/srv/Trigger'', ''{}'']) (\<lambda>(code, out, err).
       let raw = strip (out @ CHR 0x0A # err); success = contains ''success=True'' raw \<or> contains ''success: true'' (lower_str raw)
       in Ret \<lparr>sv_ok = (code = 0 \<and> success), sv_success = success, sv_message = service_message raw, sv_raw = raw\<rparr>)"

definition mission_start_command :: "ros_run \<Rightarrow> service_answer result" where
  "mission_start_command run = rbind (require_exclusive_controller run) (\<lambda>_. service_call run ''/hospital_mission/start'')"

datatype mission_status_answer = StatusFailed string | StatusRead pyval | StatusNotJson string

definition mission_status :: "(string \<Rightarrow> pyval result) \<Rightarrow> ros_run \<Rightarrow> mission_status_answer result" where
  "mission_status loads run =
     rbind (run [''ros2'', ''topic'', ''echo'', ''/hospital_mission/status'', ''--once'', ''--field'', ''data'']) (\<lambda>(code, out, err).
       if code \<noteq> 0 then Ret (StatusFailed (complaint out err))
       else (let s = strip out; raw = (if ends_with ''---'' s then rev (dropWhile py_space (drop 3 (rev s))) else s) in
         case loads raw of Inr v \<Rightarrow> Ret (StatusRead v) | Inl e \<Rightarrow> if e = PyValueError then Ret (StatusNotJson raw) else Raise e))"

section \<open>A report reads back\<close>

text \<open>What the parser looks at are the lines with its four labels; the rest of a report may be anywhere between them.\<close>

definition labelled :: "string \<Rightarrow> bool" where
  "labelled line \<longleftrightarrow> list_ex (\<lambda>l. starts_with l (strip line)) [''Node name:'', ''Node namespace:'', ''Endpoint type:'', ''GID:'']"

lemma topic_line_other: "\<not> labelled line \<Longrightarrow> topic_line line p = p"
  by (simp add: labelled_def topic_line_def Let_def split: option.split)

lemma fold_topic_lines: "fold topic_line lines p = fold topic_line (filter labelled lines) p"
  by (induction lines arbitrary: p) (simp_all add: topic_line_other)

definition report_of :: "string \<times> string \<times> string \<times> string \<Rightarrow> string list" where
  "report_of e = (case e of (name, namespace, kind, gid) \<Rightarrow>
     [''Node name: '' @ name, ''Node namespace: '' @ namespace, ''Endpoint type: '' @ kind, ''GID: '' @ gid])"

lemma dropWhile_word: "is_word x \<Longrightarrow> dropWhile py_space (x @ y) = x @ y" "is_word x \<Longrightarrow> dropWhile py_space (rev x @ y) = rev x @ y"
proof -
  assume x: "is_word x"
  then show "dropWhile py_space (x @ y) = x @ y" by (cases x) (simp_all add: is_word_def)
  have "rev x \<noteq> []" "list_all (\<lambda>c. \<not> py_space c) (rev x)" using x by (simp_all add: is_word_def list_all_iff)
  then show "dropWhile py_space (rev x @ y) = rev x @ y" by (cases "rev x") simp_all
qed

lemma strip_word:
  assumes "is_word x" shows "strip x = x" "strip (CHR '' '' # x) = x"
  using dropWhile_word [OF assms, of "[]"] by (simp_all add: strip_def py_space_def [of "CHR '' ''"])

lemma strip_labelled:
  assumes "is_word x" "\<not> py_space a" shows "strip (a # l @ x) = a # l @ x"
proof -
  have one: "dropWhile py_space (a # l @ x) = a # l @ x" using assms(2) by simp
  have "rev (a # l @ x) = rev x @ (rev l @ [a])" by simp
  then have two: "dropWhile py_space (rev (a # l @ x)) = rev (a # l @ x)" using dropWhile_word(2) [OF assms(1)] by metis
  show ?thesis unfolding strip_def one two rev_rev_ident ..
qed

lemma topic_lines:
  assumes "is_word x"
  shows "topic_line (''Node name: '' @ x) p = p\<lparr>tr_name := Some x, tr_namespace := ''/'', tr_type := None\<rparr>"
    "topic_line (''Node namespace: '' @ x) p = p\<lparr>tr_namespace := x\<rparr>" "topic_line (''Endpoint type: '' @ x) p = p\<lparr>tr_type := Some x\<rparr>"
    "topic_line (''GID: '' @ x) p = (case tr_name p of
        Some name \<Rightarrow> if name \<noteq> [] \<and> tr_type p = Some ''PUBLISHER'' then p\<lparr>tr_name := None, tr_found := tr_found p @ [(node_of (tr_namespace p) name, x)]\<rparr> else p
      | None \<Rightarrow> p)"
proof -
  have ne: "x \<noteq> []" using assms by (simp add: is_word_def)
  have strips: "strip (''Node name: '' @ x) = ''Node name: '' @ x" "strip (''Node namespace: '' @ x) = ''Node namespace: '' @ x"
    "strip (''Endpoint type: '' @ x) = ''Endpoint type: '' @ x" "strip (''GID: '' @ x) = ''GID: '' @ x"
    using strip_labelled [OF assms, of "CHR ''N''" "''ode name: ''"] strip_labelled [OF assms, of "CHR ''N''" "''ode namespace: ''"]
      strip_labelled [OF assms, of "CHR ''E''" "''ndpoint type: ''"] strip_labelled [OF assms, of "CHR ''G''" "''ID: ''"] by (simp_all add: py_space_def)
  note d = topic_line_def Let_def strips after_colon_def starts_with_def
  show "topic_line (''Node name: '' @ x) p = p\<lparr>tr_name := Some x, tr_namespace := ''/'', tr_type := None\<rparr>" unfolding d by (simp add: strip_word [OF assms])
  show "topic_line (''Node namespace: '' @ x) p = p\<lparr>tr_namespace := x\<rparr>" unfolding d by (simp add: strip_word [OF assms] ne)
  show "topic_line (''Endpoint type: '' @ x) p = p\<lparr>tr_type := Some x\<rparr>" unfolding d by (simp add: strip_word [OF assms])
  show "topic_line (''GID: '' @ x) p = (case tr_name p of
        Some name \<Rightarrow> if name \<noteq> [] \<and> tr_type p = Some ''PUBLISHER'' then p\<lparr>tr_name := None, tr_found := tr_found p @ [(node_of (tr_namespace p) name, x)]\<rparr> else p
      | None \<Rightarrow> p)" unfolding d by (simp add: strip_word [OF assms] split: option.split)
qed

definition report_ok :: "string \<times> string \<times> string \<times> string \<Rightarrow> bool" where
  "report_ok e = (case e of (name, namespace, kind, gid) \<Rightarrow> is_word name \<and> is_word namespace \<and> is_word kind \<and> is_word gid)"

lemma fold_reports:
  assumes "list_all report_ok es"
  shows "tr_found (fold topic_line (concat (map report_of es)) p) =
    tr_found p @ map (\<lambda>(name, namespace, _, gid). (node_of namespace name, gid)) (filter (\<lambda>(_, _, kind, _). kind = ''PUBLISHER'') es)"
  using assms
proof (induction es arbitrary: p)
  case (Cons e es)
  obtain name ns kind gid where e: "e = (name, ns, kind, gid)" by (metis surj_pair)
  have w: "is_word name" "is_word ns" "is_word kind" "is_word gid" using Cons.prems by (simp_all add: e report_ok_def)
  have "name \<noteq> []" using w(1) by (simp add: is_word_def)
  then have "tr_found (fold topic_line (report_of e) p) = tr_found p @ (if kind = ''PUBLISHER'' then [(node_of ns name, gid)] else [])"
    unfolding e report_of_def prod.case fold_simps comp_apply id_apply topic_lines(1) [OF w(1)] topic_lines(2) [OF w(2)] topic_lines(3) [OF w(3)] topic_lines(4) [OF w(4)]
    by simp
  with Cons show ?case by (simp add: e)
qed simp

text \<open>A report on the velocity topic gives the node and the identity of each of its publishers, in their order and with repetitions, whatever other lines
  it has.\<close>
theorem publishers_read_back:
  assumes "list_all (list_all (\<lambda>c. \<not> line_break c)) lines" "filter labelled lines = concat (map report_of es)" "list_all report_ok es"
  shows "parse_cmd_vel_publisher_endpoints (concat (map (\<lambda>l. l @ [CHR 0x0A]) lines)) =
    map (\<lambda>(name, namespace, _, gid). (node_of namespace name, gid)) (filter (\<lambda>(_, _, kind, _). kind = ''PUBLISHER'') es)"
proof -
  have "splitlines (concat (map (\<lambda>l. l @ [CHR 0x0A]) lines)) = lines"
    using assms(1) by (induction lines) (simp_all add: splitlines_def split_breaks_line)
  then have "parse_cmd_vel_publisher_endpoints (concat (map (\<lambda>l. l @ [CHR 0x0A]) lines)) = tr_found (fold topic_line (concat (map report_of es)) topic_start)"
    by (simp only: parse_cmd_vel_publisher_endpoints_def fold_topic_lines [of lines] assms(2))
  then show ?thesis using fold_reports [OF assms(3), of topic_start] by (simp add: topic_start_def)
qed

section \<open>One controller\<close>

lemma exclusive_Ret: "exclusive_of es = Ret e \<longleftrightarrow> es = [e] \<and> fst e = MISSION_CONTROLLER"
  by (auto simp: exclusive_of_def split: list.splits if_splits)

lemma graph_is_up_True:
  assumes "graph_is_up g = Ret True"
  shows "all_in REQUIRED_TOPICS (vget g ''topics'') \<and> all_in REQUIRED_SERVICES (vget g ''services'') \<and> (\<exists>gid. native_cmd_vel_publishers g = Ret [(MISSION_CONTROLLER, gid)])"
  using assms by (auto simp: graph_is_up_def rbind_Inr_iff exclusive_Ret split: if_splits)

lemmas wait_for_graph_induct = wait_for_graph.raw_induct [rotated, consumes 1, case_names step]

lemma wait_for_graph_result:
  "wait_for_graph w deadline n = Some (r, k) \<Longrightarrow>
    n \<le> k \<and> (r = Ret () \<longrightarrow> flt (gm_clock (w k)) deadline \<and> (\<exists>g. gm_probe (w k) = Ret g \<and> graph_is_up g = Ret True))"
proof (induction w deadline n "(r, k)" arbitrary: rule: wait_for_graph_induct)
  case (step waiting w deadline n)
  show ?case
  proof (cases "waiting w deadline (Suc n) = Some (r, k)")
    case True
    from step(1) [OF this] step(2) show ?thesis by (auto split: if_splits sum.splits)
  next
    case False
    with step(2) show ?thesis by (auto split: if_splits sum.splits)
  qed
qed

text \<open>A start's wait for the graph succeeds only in time and with a probe in which every required topic and service is there and the mission's controller is
  the one publisher of the velocity topic; and the mission is started from the command line only with that one publisher.\<close>
theorem started_with_one_controller:
  assumes "wait_for_graph w deadline n = Some (Ret (), k)"
  shows "flt (gm_clock (w k)) deadline \<and> (\<exists>g gid. gm_probe (w k) = Ret g \<and> all_in REQUIRED_TOPICS (vget g ''topics'') \<and>
    all_in REQUIRED_SERVICES (vget g ''services'') \<and> native_cmd_vel_publishers g = Ret [(MISSION_CONTROLLER, gid)])"
proof -
  from wait_for_graph_result [OF assms] obtain g where "flt (gm_clock (w k)) deadline" "gm_probe (w k) = Ret g" "graph_is_up g = Ret True" by blast
  with graph_is_up_True show ?thesis by blast
qed

theorem mission_started_with_one_controller:
  assumes "mission_start_command run = Ret a"
  shows "\<exists>gid. inspect_cmd_vel_publishers run = Ret (Inr [(MISSION_CONTROLLER, gid)])"
proof -
  from assms obtain i e where "inspect_cmd_vel_publishers run = Ret i" "(case i of Inl _ \<Rightarrow> Raise ProjectLifecycleError | Inr es \<Rightarrow> exclusive_of es) = Ret e"
    by (auto simp: mission_start_command_def require_exclusive_controller_def rbind_Inr_iff)
  then show ?thesis by (cases i; cases e) (auto simp: exclusive_Ret)
qed

text \<open>The wait ends, if the clock reaches its deadline.\<close>
theorem wait_for_graph_ends:
  assumes "n \<le> k" "\<not> flt (gm_clock (w k)) deadline"
  shows "\<exists>y. wait_for_graph w deadline n = Some y"
  using assms(1)
proof (induction n rule: inc_induct)
  case base
  show ?case by (subst wait_for_graph.simps) (simp add: assms(2))
next
  case (step n)
  from step.IH show ?case by (subst wait_for_graph.simps) (auto split: sum.split)
qed

section \<open>Examples\<close>

definition demo_graph :: pydict where
  "demo_graph = [(VStr ''nodes'', VList []), (VStr ''topics'', VDict (map (\<lambda>k. (VStr k, VList [])) REQUIRED_TOPICS)),
     (VStr ''services'', VDict (map (\<lambda>k. (VStr k, VList [])) REQUIRED_SERVICES)), (VStr ''actions'', VDict []),
     (VStr ''topic_endpoints'', VDict [(VStr CMD_VEL, VList [VDict [(VStr ''node_name'', VStr ''hospital_mission_controller''), (VStr ''node_namespace'', VStr ''/''),
       (VStr ''gid'', VStr ''01''), (VStr ''endpoint_type'', VStr ''publisher'')]])])]"

lemma demo_graph_up: "graph_is_up demo_graph = Ret True"
  by code_simp

theorem started_with_one_controller_witness:
  "\<exists>k gid. wait_for_graph (\<lambda>_. \<lparr>gm_clock = Fin 0, gm_probe = Ret demo_graph, gm_after = Fin 0\<rparr>) (Fin 45) 0 = Some (Ret (), k) \<and>
    native_cmd_vel_publishers demo_graph = Ret [(MISSION_CONTROLLER, gid)]"
proof -
  have "wait_for_graph (\<lambda>_. \<lparr>gm_clock = Fin 0, gm_probe = Ret demo_graph, gm_after = Fin 0\<rparr>) (Fin 45) 0 = Some (Ret (), 0)"
    by (subst wait_for_graph.simps) (simp add: demo_graph_up)
  from started_with_one_controller [OF this] this show ?thesis by auto
qed

definition demo_report :: "string list" where
  "demo_report = [''Type: geometry_msgs/msg/Twist'', ''Publisher count: 1'', [], ''Node name: hospital_mission_controller'', ''Node namespace: /'',
     ''Topic type: geometry_msgs/msg/Twist'', ''Endpoint type: PUBLISHER'', ''GID: 01.0f'', ''QoS profile:'', ''  Reliability: RELIABLE'']"

definition demo_run :: ros_run where
  "demo_run argv = (if argv = [''ros2'', ''topic'', ''list''] then Ret (0, CMD_VEL @ [CHR 0x0A], [])
     else if argv = [''ros2'', ''topic'', ''info'', CMD_VEL, ''-v''] then Ret (0, concat (map (\<lambda>l. l @ [CHR 0x0A]) demo_report), [])
     else Ret (0, ''success=True, message=ready'', []))"

definition demo_endpoint :: "string \<times> string \<times> string \<times> string" where
  "demo_endpoint = (''hospital_mission_controller'', ''/'', ''PUBLISHER'', ''01.0f'')"

lemma demo_report_lines: "list_all (list_all (\<lambda>c. \<not> line_break c)) demo_report" "filter labelled demo_report = concat (map report_of [demo_endpoint])" "list_all report_ok [demo_endpoint]"
  by code_simp+

theorem publishers_read_back_witness:
  "parse_cmd_vel_publisher_endpoints (concat (map (\<lambda>l. l @ [CHR 0x0A]) demo_report)) = [(MISSION_CONTROLLER, ''01.0f'')]"
proof -
  have "node_of ''/'' ''hospital_mission_controller'' = MISSION_CONTROLLER" by code_simp
  with publishers_read_back [OF demo_report_lines] show ?thesis by (simp add: demo_endpoint_def)
qed

theorem mission_started_with_one_controller_witness:
  "\<exists>a gid. mission_start_command demo_run = Ret a \<and> inspect_cmd_vel_publishers demo_run = Ret (Inr [(MISSION_CONTROLLER, gid)])"
proof -
  have "is_ret (mission_start_command demo_run)" by code_simp
  then obtain a where "mission_start_command demo_run = Ret a" by (auto simp: is_ret_iff)
  with mission_started_with_one_controller [OF this] show ?thesis by auto
qed

end
