(* ===== verification/CommandLine.thy ===== *)
theory CommandLine
  imports Gateway
begin

text \<open>
  The operator's command line (\<^verbatim>\<open>agent_ros/cli.py\<close>) over the models of the profiles, the discovery, the gateway and the challenge. The
  arguments are given as they were parsed; the terminal's answers, the probe of the graph and the profiles' files are arguments. \<open>cw_shown\<close> is a history
  variable: what was written to the operator's terminal.
\<close>

section \<open>The commands\<close>

datatype command = Discover | Validate | Status | VerifyProfile | HardwareChallenge

record cli_args =
  ca_json :: bool
  ca_command :: command
  ca_profile :: string

datatype printed = PrintsOk | PrintsJson pydict | PrintsRejected bool

definition strs :: "string list \<Rightarrow> pyval" where "strs ss = VList (map VStr ss)"

definition run_validate :: "robot_profile \<Rightarrow> discovery_report \<Rightarrow> pydict result" where
  "run_validate profile report =
     (case gw_discover (Some report) (gateway_init profile False) of
        (Inl e, _) \<Rightarrow> Raise e
      | (Inr _, s) \<Rightarrow> (case gw_validate s of
          (Inl e, _) \<Rightarrow> Raise e
        | (Inr _, s1) \<Rightarrow> Ret [(VStr ''profile'', VStr (rp_name profile)), (VStr ''state'', VStr (state_value (gw_state s1)))]))"

definition run_command :: "robot_profile result \<Rightarrow> graph_snapshot result \<Rightarrow> command \<Rightarrow> pydict result" where
  "run_command loaded probe cmd =
     rbind loaded (\<lambda>profile.
       if cmd = VerifyProfile then Ret [(VStr ''profile'', VStr (rp_name profile)), (VStr ''verified'', VBool True)]
       else if cmd = Status then Ret [(VStr ''profile'', VStr (rp_name profile)), (VStr ''state'', VStr ''NEW'')]
       else rbind probe (\<lambda>snapshot.
         let report = infer_capabilities snapshot in
         if cmd = Discover then Ret [(VStr ''profile'', VStr (rp_name profile)), (VStr ''capabilities'', strs (capability_names report)),
           (VStr ''blocking_warnings'', strs (dr_blocking_warnings report))]
         else run_validate profile report))"

section \<open>The challenge\<close>

record operator_terminal =
  ot_interactive :: bool
  ot_open :: "unit result"
  ot_prompt :: "unit result"
  ot_line :: "string result"
  ot_show :: "unit result"
  ot_close :: "unit result"

record cli_world =
  cw_files :: challenge_files
  cw_shown :: "string list"

definition DEFAULT_TTL :: pyval where "DEFAULT_TTL = VFloat (Fin 60)"

definition confirm_and_create ::
  "(string \<Rightarrow> string) \<Rightarrow> challenge_os \<Rightarrow> pyfloat \<Rightarrow> string \<Rightarrow> operator_terminal \<Rightarrow> robot_profile \<Rightarrow> cli_world \<Rightarrow> unit result \<times> cli_world" where
  "confirm_and_create digest os now token term profile w =
     (case rbind (ot_prompt term) (\<lambda>_. rbind (ot_line term) (\<lambda>line. guard (strip line = rp_name profile) PyValueError)) of
        Inl e \<Rightarrow> (Raise e, w)
      | Inr _ \<Rightarrow> (case create_operator_challenge digest os now token (VStr (rp_name profile)) DEFAULT_TTL (cw_files w) of
          (Inl e, files) \<Rightarrow> (Raise e, w\<lparr>cw_files := files\<rparr>)
        | (Inr token, files) \<Rightarrow> (ot_show term, w\<lparr>cw_files := files, cw_shown := cw_shown w @ [token]\<rparr>)))"

definition run_hardware_challenge ::
  "(string \<Rightarrow> string) \<Rightarrow> challenge_os \<Rightarrow> pyfloat \<Rightarrow> string \<Rightarrow> operator_terminal \<Rightarrow> robot_profile result \<Rightarrow> cli_world \<Rightarrow> unit result \<times> cli_world" where
  "run_hardware_challenge digest os now token term loaded w =
     (case rbind loaded (\<lambda>profile. rbind (guard (rp_mode profile = ''hardware'' \<and> ot_interactive term) PyValueError) (\<lambda>_. rbind (ot_open term) (\<lambda>_. Ret profile))) of
        Inl e \<Rightarrow> (Raise e, w)
      | Inr profile \<Rightarrow> (case confirm_and_create digest os now token term profile w of
          (r, w1) \<Rightarrow> (case ot_close term of Inl e \<Rightarrow> (Raise e, w1) | Inr _ \<Rightarrow> (r, w1))))"

section \<open>The exit\<close>

fun handled :: "py_exn \<Rightarrow> bool" where
  "handled ChallengeError = True" | "handled DiscoveryError = True" | "handled ProfileValidationError = True" | "handled (SafetyError _) = True"
| "handled PyOSError = True" | "handled PyValueError = True" | "handled _ = False"

text \<open>The exit status, or the exception that leaves the program, and what was printed.\<close>

definition rejecting :: "bool \<Rightarrow> py_exn \<Rightarrow> int result \<times> printed list" where
  "rejecting json e = (if handled e then (Ret 2, [PrintsRejected json]) else (Raise e, []))"

definition cli_main ::
  "(string \<Rightarrow> string) \<Rightarrow> challenge_os \<Rightarrow> pyfloat \<Rightarrow> string \<Rightarrow> operator_terminal \<Rightarrow> robot_profile result \<Rightarrow> graph_snapshot result \<Rightarrow> cli_args \<Rightarrow> cli_world \<Rightarrow>
     (int result \<times> printed list) \<times> cli_world" where
  "cli_main digest os now token term loaded probe args w =
     (if ca_command args = HardwareChallenge
      then if ca_json args then ((Ret 2, [PrintsRejected True]), w)
        else (case run_hardware_challenge digest os now token term loaded w of
            (Inl e, w1) \<Rightarrow> (rejecting (ca_json args) e, w1)
          | (Inr _, w1) \<Rightarrow> ((Ret 0, [PrintsOk]), w1))
      else case run_command loaded probe (ca_command args) of
          Inl e \<Rightarrow> (rejecting (ca_json args) e, w)
        | Inr d \<Rightarrow> ((Ret 0, [if ca_json args then PrintsJson d else PrintsOk]), w))"

section \<open>What the command line does\<close>

text \<open>C36: A challenge is made, and its token shown, only on a terminal, for a hardware profile that loaded, after the operator has typed its name, and
  without \<^verbatim>\<open>--json\<close>; the token is never printed, and an exit status of 0 means that it was made and shown.\<close>
theorem challenge_needs_operator:
  assumes "cli_main digest os now token term loaded probe args w = ((r, out), w1)"
  shows "(w1 \<noteq> w \<longrightarrow> ca_command args = HardwareChallenge \<and> \<not> ca_json args \<and> ot_interactive term \<and>
      (\<exists>profile line. loaded = Ret profile \<and> rp_mode profile = ''hardware'' \<and> ot_line term = Ret line \<and> strip line = rp_name profile)) \<and>
    cw_shown w1 \<in> {cw_shown w, cw_shown w @ [token]} \<and>
    (ca_command args = HardwareChallenge \<longrightarrow> out \<in> {[], [PrintsOk], [PrintsRejected (ca_json args)]} \<and>
      (r = Ret 0 \<longrightarrow> cw_shown w1 = cw_shown w @ [token] \<and> (\<exists>profile. loaded = Ret profile \<and>
        fst (create_operator_challenge digest os now token (VStr (rp_name profile)) DEFAULT_TTL (cw_files w)) = Ret token)))"
proof (cases "ca_command args = HardwareChallenge \<and> \<not> ca_json args")
  case False
  then show ?thesis using assms by (auto simp: cli_main_def rejecting_def split: if_splits sum.splits)
next
  case True
  obtain res w2 where run: "run_hardware_challenge digest os now token term loaded w = (res, w2)" by fastforce
  with assms True have w1: "w1 = w2" and r: "r = Ret 0 \<longrightarrow> res = Ret ()" and out: "out \<in> {[], [PrintsOk], [PrintsRejected False]}"
    by (auto simp: cli_main_def rejecting_def split: sum.splits if_splits)
  have made: "fst (create_operator_challenge digest os now token n ttl files) = Ret t \<Longrightarrow> t = token" for n ttl files t
    by (auto simp: create_operator_challenge_def split: sum.splits prod.splits)
  show ?thesis
  proof (cases "\<exists>profile line. loaded = Ret profile \<and> rp_mode profile = ''hardware'' \<and> ot_interactive term \<and> ot_line term = Ret line \<and> strip line = rp_name profile")
    case False
    have "w2 = w \<and> res \<noteq> Ret ()"
    proof (cases loaded)
      case (Inr profile)
      let ?body = "rbind (ot_prompt term) (\<lambda>_. rbind (ot_line term) (\<lambda>line. guard (strip line = rp_name profile) PyValueError))"
      show ?thesis
      proof (cases "rp_mode profile = ''hardware'' \<and> ot_interactive term")
        case True
        with False Inr have "\<exists>e. ?body = Raise e" by (cases "ot_prompt term"; cases "ot_line term") (auto simp: guard_def)
        then obtain e where e: "confirm_and_create digest os now token term profile w = (Raise e, w)" by (auto simp: confirm_and_create_def)
        with run Inr True show ?thesis by (cases "ot_open term"; cases "ot_close term") (auto simp: run_hardware_challenge_def guard_def)
      qed (use run Inr in \<open>auto simp: run_hardware_challenge_def guard_def\<close>)
    qed (use run in \<open>auto simp: run_hardware_challenge_def\<close>)
    with w1 r out True show ?thesis by auto
  next
    case ok: True
    then obtain profile where p: "loaded = Ret profile" by blast
    obtain c files where create: "create_operator_challenge digest os now token (VStr (rp_name profile)) DEFAULT_TTL (cw_files w) = (c, files)" by fastforce
    have "cw_shown w2 \<in> {cw_shown w, cw_shown w @ [token]} \<and> (res = Ret () \<longrightarrow> cw_shown w2 = cw_shown w @ [token] \<and> c = Ret token)"
      using run p create made [of "VStr (rp_name profile)" DEFAULT_TTL "cw_files w"]
      by (auto simp: run_hardware_challenge_def confirm_and_create_def split: sum.splits prod.splits)
    with w1 r out True ok p create show ?thesis by auto
  qed
qed

lemma transition_state: "gw_state (snd (do_transition st e s)) = st" "gw_profile (snd (do_transition st e s)) = gw_profile s" "gw_report (snd (do_transition st e s)) = gw_report s"
  by (simp_all add: do_transition_eq)

lemma run_validate_Ret:
  assumes "run_validate profile report = Ret d"
  shows "dr_blocking_warnings report = [] \<and> interfaces_match profile report \<and> (\<exists>c. required_capability (rp_adapter_kind profile) = Ret c \<and> c \<in> set (capability_names report)) \<and>
    vget d ''profile'' = VStr (rp_name profile) \<and> vget d ''state'' = VStr (if rp_mode profile = ''simulation'' then ''ARMED'' else ''VALIDATED'')"
proof -
  let ?s = "snd (do_transition DISCOVERED None ((gateway_init profile False)\<lparr>gw_report := Some report\<rparr>))"
  have init: "gw_state (gateway_init profile False) = NEW" "gw_profile (gateway_init profile False) = profile" by (simp_all add: gateway_init_def)
  obtain t s where disc: "gw_discover (Some report) (gateway_init profile False) = (Inr t, s)"
    using assms by (auto simp: run_validate_def split: prod.splits sum.splits)
  then have ok: "dr_blocking_warnings report = []" and s: "s = ?s"
    by (auto simp: gw_discover_def split: sum.splits if_splits prod.splits)
  have sel: "gw_state s = DISCOVERED" "gw_profile s = profile" "gw_report s = Some report" using s init by (simp_all add: transition_state)
  obtain u s1 where val: "gw_validate s = (Inr u, s1)" and d: "d = [(VStr ''profile'', VStr (rp_name profile)), (VStr ''state'', VStr (state_value (gw_state s1)))]"
    using assms disc by (auto simp: run_validate_def split: prod.splits sum.splits)
  from val obtain c where c: "required_capability (rp_adapter_kind profile) = Ret c" "c \<in> set (capability_names report)" "interfaces_match profile report"
    "s1 = snd (do_transition (if rp_mode profile = ''simulation'' then ARMED else VALIDATED) None s)"
    by (auto simp: gw_validate_def sel split: sum.splits if_splits prod.splits)
  show ?thesis using ok c d by (simp add: transition_state vget_def)
qed

text \<open>The exit status is 0, or 2 with nothing printed but the rejection; and \<^verbatim>\<open>validate\<close> ends with 0 only for a profile that loaded and a graph that
  supports it, with the capability its adapter needs, its interfaces and no blocking warning; it then prints the state the gateway reached.\<close>
theorem validated_on_the_command_line:
  assumes "cli_main digest os now token term loaded probe args w = ((r, out), w1)"
  shows "(r = Ret 0 \<or> r = Ret 2 \<and> out = [PrintsRejected (ca_json args)] \<or> (\<exists>e. r = Raise e \<and> \<not> handled e \<and> out = [])) \<and>
    (ca_command args = Validate \<and> r = Ret 0 \<longrightarrow> (\<exists>profile snapshot. loaded = Ret profile \<and> probe = Ret snapshot \<and>
      dr_blocking_warnings (infer_capabilities snapshot) = [] \<and> interfaces_match profile (infer_capabilities snapshot) \<and>
      (\<exists>c. required_capability (rp_adapter_kind profile) = Ret c \<and> c \<in> set (capability_names (infer_capabilities snapshot))) \<and>
      (ca_json args \<longrightarrow> (\<exists>d. out = [PrintsJson d] \<and> vget d ''state'' = VStr (if rp_mode profile = ''simulation'' then ''ARMED'' else ''VALIDATED'')))))"
proof (intro conjI impI)
  show "r = Ret 0 \<or> r = Ret 2 \<and> out = [PrintsRejected (ca_json args)] \<or> (\<exists>e. r = Raise e \<and> \<not> handled e \<and> out = [])"
    using assms by (auto simp: cli_main_def rejecting_def split: if_splits sum.splits prod.splits)
next
  assume v: "ca_command args = Validate \<and> r = Ret 0"
  then obtain d where d: "run_command loaded probe Validate = Ret d" "out = [if ca_json args then PrintsJson d else PrintsOk]"
    using assms by (auto simp: cli_main_def rejecting_def split: if_splits sum.splits)
  then obtain profile snapshot where p: "loaded = Ret profile" "probe = Ret snapshot" "run_validate profile (infer_capabilities snapshot) = Ret d"
    by (auto simp: run_command_def rbind_Inr_iff Let_def)
  from run_validate_Ret [OF p(3)] p(1,2) d(2)
  show "\<exists>profile snapshot. loaded = Ret profile \<and> probe = Ret snapshot \<and>
      dr_blocking_warnings (infer_capabilities snapshot) = [] \<and> interfaces_match profile (infer_capabilities snapshot) \<and>
      (\<exists>c. required_capability (rp_adapter_kind profile) = Ret c \<and> c \<in> set (capability_names (infer_capabilities snapshot))) \<and>
      (ca_json args \<longrightarrow> (\<exists>d. out = [PrintsJson d] \<and> vget d ''state'' = VStr (if rp_mode profile = ''simulation'' then ''ARMED'' else ''VALIDATED'')))"
    by auto
qed

section \<open>Examples\<close>

definition demo_terminal :: operator_terminal where
  "demo_terminal = \<lparr>ot_interactive = True, ot_open = Ret (), ot_prompt = Ret (), ot_line = Ret (''base'' @ [CHR 0x0A]), ot_show = Ret (), ot_close = Ret ()\<rparr>"

definition demo_base :: robot_profile where "demo_base = hospital_amr\<lparr>rp_name := ''base'', rp_mode := ''hardware''\<rparr>"

theorem challenge_needs_operator_witness:
  "\<exists>w1. cli_main id demo_os (Fin 0) ''tok'' demo_terminal (Ret demo_base) (Raise DiscoveryError) \<lparr>ca_json = False, ca_command = HardwareChallenge, ca_profile = ''base''\<rparr>
      \<lparr>cw_files = \<lambda>_. Absent, cw_shown = []\<rparr> = ((Ret 0, [PrintsOk]), w1) \<and> cw_shown w1 = [''tok'']"
proof -
  have line: "strip (''base'' @ [CHR 0x0A]) = ''base''" by code_simp
  have "\<exists>w1. cli_main id demo_os (Fin 0) ''tok'' demo_terminal (Ret demo_base) (Raise DiscoveryError) \<lparr>ca_json = False, ca_command = HardwareChallenge, ca_profile = ''base''\<rparr>
      \<lparr>cw_files = \<lambda>_. Absent, cw_shown = []\<rparr> = ((Ret 0, [PrintsOk]), w1)"
    by (simp add: cli_main_def run_hardware_challenge_def confirm_and_create_def demo_terminal_def demo_base_def guard_def line [simplified] create_operator_challenge_def demo_name
        demo_os_sel demo_boot write_record_def MAX_TTL_SECONDS_def DEFAULT_TTL_def)
  then obtain w1 where w1: "cli_main id demo_os (Fin 0) ''tok'' demo_terminal (Ret demo_base) (Raise DiscoveryError)
      \<lparr>ca_json = False, ca_command = HardwareChallenge, ca_profile = ''base''\<rparr> \<lparr>cw_files = \<lambda>_. Absent, cw_shown = []\<rparr> = ((Ret 0, [PrintsOk]), w1)" by blast
  from challenge_needs_operator [OF w1] w1 show ?thesis by auto
qed

theorem validated_on_the_command_line_witness:
  "\<exists>out w1. cli_main id demo_os (Fin 0) ''tok'' demo_terminal (Ret hospital_amr) (Ret demo_snapshot) \<lparr>ca_json = True, ca_command = Validate, ca_profile = ''hospital-amr''\<rparr>
      \<lparr>cw_files = \<lambda>_. Absent, cw_shown = []\<rparr> = ((Ret 0, out), w1) \<and> interfaces_match hospital_amr (infer_capabilities demo_snapshot)"
proof -
  have disc: "gw_discover (Some (infer_capabilities demo_snapshot)) (gateway_init hospital_amr False) = (Ret (fst (do_transition DISCOVERED None
      ((gateway_init hospital_amr False)\<lparr>gw_report := Some (infer_capabilities demo_snapshot)\<rparr>))), demo_discovered)"
    using demo_report unfolding demo_discovered_eq by (simp add: gw_discover_def gateway_init_def require_state_def guard_def split: prod.split)
  have "\<exists>t. gw_validate demo_discovered = (Inr t, demo_armed)"
  proof -
    have s: "gw_state demo_discovered = DISCOVERED" "gw_profile demo_discovered = hospital_amr" "gw_report demo_discovered = Some (infer_capabilities demo_snapshot)"
      by (simp_all add: demo_discovered_eq do_transition_eq gateway_init_def)
    have k: "required_capability (rp_adapter_kind hospital_amr) = Ret ''mobile_base.twist''" "rp_mode hospital_amr = ''simulation''" by (simp_all add: hospital_amr_def)
    show ?thesis
      by (simp add: gw_validate_def s k demo_report demo_supported do_transition_eq demo_armed_eq del: required_capability.simps)
  qed
  then obtain t where val: "gw_validate demo_discovered = (Inr t, demo_armed)" by blast
  have "\<exists>out w1. cli_main id demo_os (Fin 0) ''tok'' demo_terminal (Ret hospital_amr) (Ret demo_snapshot) \<lparr>ca_json = True, ca_command = Validate, ca_profile = ''hospital-amr''\<rparr>
      \<lparr>cw_files = \<lambda>_. Absent, cw_shown = []\<rparr> = ((Ret 0, out), w1)"
    by (simp add: cli_main_def run_command_def Let_def run_validate_def disc val)
  then show ?thesis using validated_on_the_command_line by fastforce
qed

end
