(* ===== verification/ReleaseChecks.thy ===== *)
theory ReleaseChecks
  imports PyText PyValue
begin

text \<open>
  The two checks before a release: of a bundle of evidence of the demonstration (\<^verbatim>\<open>scripts/verify_release_artifacts.py\<close>) and of the built
  distributions with their manifest (\<^verbatim>\<open>scripts/verify_release_candidate.py\<close>). Directories are given as what is under each name; the decoder of JSON,
  \<^verbatim>\<open>str\<close> of a value that is no text, and the digest are arguments. The texts of errors are constructors.
\<close>

datatype entry = Nothing | Directory | Unreadable | Bytes string

definition is_file :: "entry \<Rightarrow> bool" where "is_file e \<longleftrightarrow> e = Unreadable \<or> (\<exists>b. e = Bytes b)"

section \<open>Evidence\<close>

datatype release_error =
    MissingArtifact string | InvalidJson string | NotAnObject string | WrongSchema | NotSuccessful | HasValidationErrors | NoReferenceTo string
  | TraceNotSucceeded | InvalidPicture string | UnreadablePicture string

definition REQUIRED_FILES :: "string list" where
  "REQUIRED_FILES = [''acceptance_report.json'', ''mcp_agent_trace.json'', ''acceptance-initial.png'', ''acceptance-final.png'']"

definition RELEASE_PNG_SIGNATURE :: string where
  "RELEASE_PNG_SIGNATURE = [CHR 0x89, CHR ''P'', CHR ''N'', CHR ''G'', CHR 0x0D, CHR 0x0A, CHR 0x1A, CHR 0x0A]"

text \<open>A \<^verbatim>\<open>ValueError\<close> of the load, which the caller puts among its errors, is on the left inside the result.\<close>

definition load_json :: "(string \<Rightarrow> pyval result) \<Rightarrow> string \<Rightarrow> entry \<Rightarrow> (release_error + pydict) result" where
  "load_json decode name e =
     (case e of
        Bytes b \<Rightarrow> (case decode b of
            Inl x \<Rightarrow> if x = PyValueError then Ret (Inl (InvalidJson name)) else Raise x
          | Inr (VDict d) \<Rightarrow> Ret (Inr d)
          | Inr _ \<Rightarrow> Ret (Inl (NotAnObject name)))
      | _ \<Rightarrow> Ret (Inl (InvalidJson name)))"

definition names_file :: "(pyval \<Rightarrow> string) \<Rightarrow> pyval \<Rightarrow> string \<Rightarrow> bool" where
  "names_file show camera expected \<longleftrightarrow>
     (case camera of
        VDict d \<Rightarrow>
          let v = (case dget d (VStr ''path'') of None \<Rightarrow> VStr [] | Some v \<Rightarrow> v);
              parts = path_parts (case v of VStr s \<Rightarrow> s | _ \<Rightarrow> show v)
          in (if parts = [] then [] else last parts) = expected
      | _ \<Rightarrow> False)"

definition validate_success_report :: "(pyval \<Rightarrow> string) \<Rightarrow> pydict \<Rightarrow> release_error list" where
  "validate_success_report show d =
     (if same_value (vget d ''schema_version'') (VInt 2) then [] else [WrongSchema]) @
     (if vget d ''mission_state'' \<noteq> VStr ''SUCCEEDED'' \<or> vget d ''failure_code'' \<noteq> VNone then [NotSuccessful] else []) @
     (if vget d ''validation_errors'' \<noteq> VList [] then [HasValidationErrors] else []) @
     (if names_file show (vget d ''initial_camera'') ''acceptance-initial.png'' then [] else [NoReferenceTo ''acceptance-initial.png'']) @
     (if names_file show (vget d ''camera'') ''acceptance-final.png'' then [] else [NoReferenceTo ''acceptance-final.png''])"

definition trace_ok :: "pydict \<Rightarrow> bool" where
  "trace_ok d \<longleftrightarrow> same_value (vget d ''schema_version'') (VInt 1) \<and> vget d ''result'' = VStr ''SUCCEEDED''"

definition picture_errors :: "string \<Rightarrow> entry \<Rightarrow> release_error list" where
  "picture_errors name e =
     (case e of Unreadable \<Rightarrow> [UnreadablePicture name]
      | Bytes b \<Rightarrow> if take (length RELEASE_PNG_SIGNATURE) b \<noteq> RELEASE_PNG_SIGNATURE then [InvalidPicture name] else []
      | _ \<Rightarrow> [])"

definition document_errors ::
  "(string \<Rightarrow> pyval result) \<Rightarrow> (pydict \<Rightarrow> release_error list) \<Rightarrow> string \<Rightarrow> entry \<Rightarrow> release_error list result" where
  "document_errors decode check name e =
     (if \<not> is_file e then Ret []
      else rbind (load_json decode name e) (\<lambda>r. case r of Inl x \<Rightarrow> Ret [x] | Inr d \<Rightarrow> Ret (check d)))"

definition artifact_errors :: "(string \<Rightarrow> pyval result) \<Rightarrow> (pyval \<Rightarrow> string) \<Rightarrow> (string \<Rightarrow> entry) \<Rightarrow> release_error list result" where
  "artifact_errors decode show dir =
     rbind (document_errors decode (validate_success_report show) ''acceptance_report.json'' (dir ''acceptance_report.json'')) (\<lambda>report.
     rbind (document_errors decode (\<lambda>d. if trace_ok d then [] else [TraceNotSucceeded]) ''mcp_agent_trace.json'' (dir ''mcp_agent_trace.json'')) (\<lambda>trace.
       Ret (map MissingArtifact (filter (\<lambda>name. \<not> is_file (dir name)) REQUIRED_FILES) @ report @ trace @
         picture_errors ''acceptance-initial.png'' (dir ''acceptance-initial.png'') @ picture_errors ''acceptance-final.png'' (dir ''acceptance-final.png''))))"

definition exit_code :: "'a list \<Rightarrow> int" where "exit_code errors = (if errors = [] then 0 else 2)"

definition verify_release_artifacts :: "(string \<Rightarrow> pyval result) \<Rightarrow> (pyval \<Rightarrow> string) \<Rightarrow> (string \<Rightarrow> entry) \<Rightarrow> int result" where
  "verify_release_artifacts decode show dir = rbind (artifact_errors decode show dir) (\<lambda>errors. Ret (exit_code errors))"

lemma validate_success_report_none:
  "validate_success_report show d = [] \<longleftrightarrow> same_value (vget d ''schema_version'') (VInt 2) \<and> vget d ''mission_state'' = VStr ''SUCCEEDED'' \<and>
    vget d ''failure_code'' = VNone \<and> vget d ''validation_errors'' = VList [] \<and>
    names_file show (vget d ''initial_camera'') ''acceptance-initial.png'' \<and> names_file show (vget d ''camera'') ''acceptance-final.png''"
  unfolding validate_success_report_def append_is_Nil_conv by (simp only: split: if_splits) blast

lemma load_json_object: "load_json decode name e = Ret (Inr d) \<longleftrightarrow> (\<exists>b. e = Bytes b \<and> decode b = Ret (VDict d))"
  by (auto simp: load_json_def split: entry.splits sum.splits pyval.splits if_splits)

lemma document_errors_none:
  assumes "is_file e"
  shows "document_errors decode check name e = Ret [] \<longleftrightarrow> (\<exists>b d. e = Bytes b \<and> decode b = Ret (VDict d) \<and> check d = [])"
proof -
  have "document_errors decode check name e = Ret [] \<longleftrightarrow> (\<exists>d. load_json decode name e = Ret (Inr d) \<and> check d = [])"
    using assms by (cases "load_json decode name e") (auto simp: document_errors_def split: sum.splits)
  then show ?thesis by (auto simp: load_json_object)
qed

lemma picture_errors_none:
  assumes "is_file e"
  shows "picture_errors name e = [] \<longleftrightarrow> (\<exists>rest. e = Bytes (RELEASE_PNG_SIGNATURE @ rest))"
proof -
  have "take (length RELEASE_PNG_SIGNATURE) b = RELEASE_PNG_SIGNATURE \<longleftrightarrow> (\<exists>rest. b = RELEASE_PNG_SIGNATURE @ rest)" for b
    by (metis append_eq_conv_conj append_take_drop_id)
  then show ?thesis using assms by (cases e) (auto simp: picture_errors_def is_file_def)
qed

text \<open>A bundle passes exactly when its four files are there, the report and the trace are those of a success, the report's two pictures are named after the
  bundle's, and both start as pictures do.\<close>
theorem artifacts_accepted_iff:
  "verify_release_artifacts decode show dir = Ret 0 \<longleftrightarrow>
    (\<exists>b d. dir ''acceptance_report.json'' = Bytes b \<and> decode b = Ret (VDict d) \<and> same_value (vget d ''schema_version'') (VInt 2) \<and>
      vget d ''mission_state'' = VStr ''SUCCEEDED'' \<and> vget d ''failure_code'' = VNone \<and> vget d ''validation_errors'' = VList [] \<and>
      names_file show (vget d ''initial_camera'') ''acceptance-initial.png'' \<and> names_file show (vget d ''camera'') ''acceptance-final.png'') \<and>
    (\<exists>b d. dir ''mcp_agent_trace.json'' = Bytes b \<and> decode b = Ret (VDict d) \<and> same_value (vget d ''schema_version'') (VInt 1) \<and> vget d ''result'' = VStr ''SUCCEEDED'') \<and>
    (\<forall>name \<in> {''acceptance-initial.png'', ''acceptance-final.png''}. \<exists>rest. dir name = Bytes (RELEASE_PNG_SIGNATURE @ rest))"
proof -
  let ?report = "document_errors decode (validate_success_report show) ''acceptance_report.json'' (dir ''acceptance_report.json'')"
  let ?trace = "document_errors decode (\<lambda>d. if trace_ok d then [] else [TraceNotSucceeded]) ''mcp_agent_trace.json'' (dir ''mcp_agent_trace.json'')"
  have "verify_release_artifacts decode show dir = Ret 0 \<longleftrightarrow> ?report = Ret [] \<and> ?trace = Ret [] \<and> (\<forall>name \<in> set REQUIRED_FILES. is_file (dir name)) \<and>
      picture_errors ''acceptance-initial.png'' (dir ''acceptance-initial.png'') = [] \<and> picture_errors ''acceptance-final.png'' (dir ''acceptance-final.png'') = []"
    by (cases ?report; cases ?trace) (auto simp: verify_release_artifacts_def artifact_errors_def exit_code_def filter_empty_conv)
  also have "\<dots> \<longleftrightarrow> (\<forall>name \<in> set REQUIRED_FILES. is_file (dir name)) \<and>
      (\<exists>b d. dir ''acceptance_report.json'' = Bytes b \<and> decode b = Ret (VDict d) \<and> validate_success_report show d = []) \<and>
      (\<exists>b d. dir ''mcp_agent_trace.json'' = Bytes b \<and> decode b = Ret (VDict d) \<and> trace_ok d) \<and>
      (\<forall>name \<in> {''acceptance-initial.png'', ''acceptance-final.png''}. \<exists>rest. dir name = Bytes (RELEASE_PNG_SIGNATURE @ rest))"
  proof (cases "\<forall>name \<in> set REQUIRED_FILES. is_file (dir name)")
    case True
    then have "is_file (dir ''acceptance_report.json'')" "is_file (dir ''mcp_agent_trace.json'')" "is_file (dir ''acceptance-initial.png'')" "is_file (dir ''acceptance-final.png'')"
      by (simp_all add: REQUIRED_FILES_def)
    then have *: "(?report = Ret []) = (\<exists>b d. dir ''acceptance_report.json'' = Bytes b \<and> decode b = Ret (VDict d) \<and> validate_success_report show d = [])"
      "(?trace = Ret []) = (\<exists>b d. dir ''mcp_agent_trace.json'' = Bytes b \<and> decode b = Ret (VDict d) \<and> trace_ok d)"
      "(picture_errors ''acceptance-initial.png'' (dir ''acceptance-initial.png'') = []) = (\<exists>rest. dir ''acceptance-initial.png'' = Bytes (RELEASE_PNG_SIGNATURE @ rest))"
      "(picture_errors ''acceptance-final.png'' (dir ''acceptance-final.png'') = []) = (\<exists>rest. dir ''acceptance-final.png'' = Bytes (RELEASE_PNG_SIGNATURE @ rest))"
      by (simp_all add: document_errors_none picture_errors_none) blast
    show ?thesis unfolding * using True by simp
  qed blast
  also have "\<dots> \<longleftrightarrow> (\<exists>b d. dir ''acceptance_report.json'' = Bytes b \<and> decode b = Ret (VDict d) \<and> validate_success_report show d = []) \<and>
      (\<exists>b d. dir ''mcp_agent_trace.json'' = Bytes b \<and> decode b = Ret (VDict d) \<and> trace_ok d) \<and>
      (\<forall>name \<in> {''acceptance-initial.png'', ''acceptance-final.png''}. \<exists>rest. dir name = Bytes (RELEASE_PNG_SIGNATURE @ rest))"
    by (auto simp: REQUIRED_FILES_def is_file_def)
  finally show ?thesis unfolding validate_success_report_none trace_ok_def .
qed

section \<open>Distributions\<close>

datatype candidate_error =
    NoDirectory | MissingDistribution string | UnexpectedDistribution string | NoManifest | UnreadableManifest | InvalidLine nat | DuplicateEntry string
  | MissingEntry string | DigestMismatch string | UnexpectedEntry string

definition expected_artifacts :: "string \<Rightarrow> string list" where
  "expected_artifacts version = [''agent_ros-'' @ version @ ''-py3-none-any.whl'', ''agent_ros-'' @ version @ ''.tar.gz'']"

definition distribution_artifacts :: "(string \<times> entry) list \<Rightarrow> string list" where
  "distribution_artifacts listing = filter (\<lambda>n. ends_with ''.whl'' n \<or> ends_with ''.tar.gz'' n) (map fst listing)"

text \<open>\<^verbatim>\<open>line.split(maxsplit=1)\<close>, when it has two fields.\<close>

definition split_once :: "string \<Rightarrow> (string \<times> string) option" where
  "split_once s =
     (let t = dropWhile py_space s; rest = dropWhile py_space (dropWhile (\<lambda>c. \<not> py_space c) t)
      in if rest = [] then None else Some (takeWhile (\<lambda>c. \<not> py_space c) t, rest))"

definition manifest_line :: "nat \<times> string \<Rightarrow> (string \<times> string) list \<times> candidate_error list \<Rightarrow> (string \<times> string) list \<times> candidate_error list" where
  "manifest_line l acc =
     (case (l, acc) of ((number, line), (entries, errors)) \<Rightarrow>
        (case split_once line of
           Some (digest, name) \<Rightarrow>
             if length digest \<noteq> 64 \<or> \<not> list_all (\<lambda>c. c \<in> set ''0123456789abcdef'') digest then (entries, errors @ [InvalidLine number])
             else if dget entries name \<noteq> None then (entries, errors @ [DuplicateEntry name])
             else (dset name digest entries, errors)
         | None \<Rightarrow> (entries, errors @ [InvalidLine number])))"

definition manifest_entries :: "entry \<Rightarrow> (string \<times> string) list \<times> candidate_error list" where
  "manifest_entries e =
     (case e of
        Bytes b \<Rightarrow> (let lines = splitlines b in fold manifest_line (zip [1..<Suc (length lines)] lines) ([], []))
      | _ \<Rightarrow> ([], [UnreadableManifest]))"

fun text_insert :: "string \<Rightarrow> string list \<Rightarrow> string list" where
  "text_insert x [] = [x]"
| "text_insert x (y # ys) = (if text_le x y then x # y # ys else y # text_insert x ys)"

definition sorted_texts :: "string list \<Rightarrow> string list" where "sorted_texts xs = foldr text_insert (remdups xs) []"

definition under :: "(string \<times> entry) list \<Rightarrow> string \<Rightarrow> entry" where
  "under listing name = (case dget listing name of None \<Rightarrow> Nothing | Some e \<Rightarrow> e)"

definition digest_errors :: "(string \<Rightarrow> string) \<Rightarrow> (string \<times> entry) list \<Rightarrow> (string \<times> string) list \<Rightarrow> string \<Rightarrow> candidate_error list result" where
  "digest_errors sha256 listing entries name =
     (case dget entries name of
        None \<Rightarrow> Ret [MissingEntry name]
      | Some digest \<Rightarrow> (case under listing name of
          Bytes b \<Rightarrow> Ret (if digest \<noteq> sha256 b then [DigestMismatch name] else [])
        | Unreadable \<Rightarrow> Raise PyOSError
        | _ \<Rightarrow> Ret []))"

definition manifest_errors :: "(string \<Rightarrow> string) \<Rightarrow> string list \<Rightarrow> (string \<times> entry) list \<Rightarrow> candidate_error list result" where
  "manifest_errors sha256 expected listing =
     (if \<not> is_file (under listing ''SHA256SUMS.txt'') then Ret [NoManifest]
      else (case manifest_entries (under listing ''SHA256SUMS.txt'') of (entries, errors) \<Rightarrow>
        rbind (rmap (digest_errors sha256 listing entries) (sorted_texts expected)) (\<lambda>checked.
          Ret (errors @ concat checked @ map UnexpectedEntry (filter (\<lambda>n. n \<notin> set expected) (sorted_texts (dkeys entries)))))))"

definition candidate_errors :: "(string \<Rightarrow> string) \<Rightarrow> string \<Rightarrow> (string \<times> entry) list option \<Rightarrow> candidate_error list result" where
  "candidate_errors sha256 version directory =
     (case directory of
        None \<Rightarrow> Ret [NoDirectory]
      | Some listing \<Rightarrow>
          let expected = expected_artifacts version; actual = distribution_artifacts listing in
          rbind (manifest_errors sha256 expected listing) (\<lambda>errors.
            Ret (map MissingDistribution (filter (\<lambda>n. n \<notin> set actual) (sorted_texts expected)) @
              map UnexpectedDistribution (filter (\<lambda>n. n \<notin> set expected) (sorted_texts actual)) @ errors)))"

definition verify_release_candidate :: "(string \<Rightarrow> string) \<Rightarrow> string \<Rightarrow> (string \<times> entry) list option \<Rightarrow> int result" where
  "verify_release_candidate sha256 version directory = rbind (candidate_errors sha256 version directory) (\<lambda>errors. Ret (exit_code errors))"

lemma set_text_insert [simp]: "set (text_insert x xs) = insert x (set xs)"
  by (induction xs) auto

lemma set_sorted_texts [simp]: "set (sorted_texts xs) = set xs"
proof -
  have "set (foldr text_insert ys []) = set ys" for ys by (induction ys) simp_all
  then show ?thesis by (simp add: sorted_texts_def)
qed

lemma rmap_empty: "(\<exists>ys. rmap f xs = Ret ys \<and> concat ys = []) \<longleftrightarrow> (\<forall>x \<in> set xs. f x = Ret [])"
proof (induction xs)
  case (Cons x xs)
  then show ?case by (cases "f x"; cases "rmap f xs") auto
qed simp

text \<open>A release passes exactly when its directory holds the wheel and the source distribution of the version and no other, and a manifest of well-formed lines
  that names these two and no other, each with the digest of its file, where it is one.\<close>
theorem candidate_accepted_iff:
  "verify_release_candidate sha256 version directory = Ret 0 \<longleftrightarrow>
    (\<exists>listing b entries. directory = Some listing \<and> set (distribution_artifacts listing) = set (expected_artifacts version) \<and>
      under listing ''SHA256SUMS.txt'' = Bytes b \<and> manifest_entries (Bytes b) = (entries, []) \<and> set (dkeys entries) = set (expected_artifacts version) \<and>
      (\<forall>name \<in> set (expected_artifacts version). under listing name \<noteq> Unreadable \<and> (\<forall>c. under listing name = Bytes c \<longrightarrow> dget entries name = Some (sha256 c))))"
proof (cases directory)
  case None
  then show ?thesis by (simp add: verify_release_candidate_def candidate_errors_def exit_code_def)
next
  case (Some listing)
  let ?expected = "expected_artifacts version" and ?actual = "distribution_artifacts listing" and ?file = "under listing ''SHA256SUMS.txt''"
  have "verify_release_candidate sha256 version directory = Ret 0 \<longleftrightarrow> set ?actual = set ?expected \<and> manifest_errors sha256 ?expected listing = Ret []"
    using Some by (cases "manifest_errors sha256 ?expected listing")
      (auto simp: verify_release_candidate_def candidate_errors_def exit_code_def Let_def filter_empty_conv)
  also have "manifest_errors sha256 ?expected listing = Ret [] \<longleftrightarrow> (\<exists>b entries. ?file = Bytes b \<and> manifest_entries (Bytes b) = (entries, []) \<and>
      set (dkeys entries) = set ?expected \<and> (\<forall>name \<in> set ?expected. under listing name \<noteq> Unreadable \<and> (\<forall>c. under listing name = Bytes c \<longrightarrow> dget entries name = Some (sha256 c))))"
  proof (cases "is_file ?file")
    case False
    then show ?thesis by (auto simp: manifest_errors_def is_file_def)
  next
    case True
    obtain entries errors where e: "manifest_entries ?file = (entries, errors)" by fastforce
    have one: "digest_errors sha256 listing entries name = Ret [] \<longleftrightarrow> name \<in> set (dkeys entries) \<and> under listing name \<noteq> Unreadable \<and>
        (\<forall>c. under listing name = Bytes c \<longrightarrow> dget entries name = Some (sha256 c))" for name
      using dget_None_iff [of entries name] by (cases "dget entries name"; cases "under listing name") (auto simp: digest_errors_def)
    have "manifest_errors sha256 ?expected listing = Ret [] \<longleftrightarrow> errors = [] \<and> (\<forall>name \<in> set ?expected. digest_errors sha256 listing entries name = Ret []) \<and>
        set (dkeys entries) \<subseteq> set ?expected"
      using True e rmap_empty [of "digest_errors sha256 listing entries" "sorted_texts ?expected"]
      by (cases "rmap (digest_errors sha256 listing entries) (sorted_texts ?expected)") (auto simp: manifest_errors_def filter_empty_conv)
    then show ?thesis using True e unfolding one is_file_def by (auto simp: manifest_entries_def)
  qed
  finally show ?thesis using Some by auto
qed

text \<open>A directory with the name of a distribution counts as the distribution, whatever digest the manifest gives it.\<close>

definition listing_of_directories :: "(string \<times> entry) list" where
  "listing_of_directories =
    [(''agent_ros-1-py3-none-any.whl'', Directory), (''agent_ros-1.tar.gz'', Directory),
     (''SHA256SUMS.txt'', Bytes (replicate 64 CHR ''0'' @ ''  agent_ros-1-py3-none-any.whl'' @ [CHR 0x0A] @ replicate 64 CHR ''1'' @ ''  agent_ros-1.tar.gz''))]"

lemma directories_are_accepted: "verify_release_candidate sha256 ''1'' (Some listing_of_directories) = Ret 0"
proof -
  have m: "manifest_entries (under listing_of_directories ''SHA256SUMS.txt'') =
      ([(''agent_ros-1-py3-none-any.whl'', replicate 64 CHR ''0''), (''agent_ros-1.tar.gz'', replicate 64 CHR ''1'')], [])"
    and d: "distribution_artifacts listing_of_directories = expected_artifacts ''1''" "expected_artifacts ''1'' = [''agent_ros-1-py3-none-any.whl'', ''agent_ros-1.tar.gz'']"
    by code_simp+
  show ?thesis
    unfolding candidate_accepted_iff
    using m d by (auto simp: under_def listing_of_directories_def dget.simps dkeys_def)
qed

end
