(* ===== verification/Spec2Isabelle.thy ===== *)
theory Spec2Isabelle
  imports Profiles Sequencer Discovery Challenge Gateway AuditLog AuditWorker MissionNode TransitionLog
    ControllerClaims MissionBudget SessionStart Nav2 Twist AdapterFactory HospitalLifecycle AcceptanceDemo McpRuntime
    ToolSequence LaunchMachine ProjectGraph CommandLine ReleaseChecks
begin

text \<open>
  A verification development of \<^verbatim>\<open>agent_ros\<close>, a runtime that lets an agent drive ROS 2 robots under a safety gateway,
  and of its hospital delivery demonstration. All file names below are relative to the repository.

  \<^bold>\<open>The program.\<close> An agent reaches one object, the runtime controller (\<^verbatim>\<open>agent_ros/runtime/controller.py\<close>). A session goes
  through discovery (\<^verbatim>\<open>discovery/\<close>), validation of a reviewed robot profile (\<^verbatim>\<open>profiles/\<close>), arming, for hardware with an operator's
  single-use challenge (\<^verbatim>\<open>safety/challenge.py\<close>), and the run of a reviewed task. The safety gateway (\<^verbatim>\<open>safety/gateway.py\<close>)
  owns the authorization state and the heartbeat watchdog (\<^verbatim>\<open>safety/supervisor.py\<close>); the activation sequencer
  (\<^verbatim>\<open>safety/sequencer.py\<close>) orders every motion command against the emergency latch. Adapters
  (\<^verbatim>\<open>adapters/\<close>) turn a task into goals, velocities or services, and own an emergency channel with a worker thread of its own. Every
  transition of the gateway becomes a record of the audit log (\<^verbatim>\<open>runtime/audit.py\<close>), which is checked when the next session starts.
  The demonstration's robot runs a mission controller (\<^verbatim>\<open>controller_core.py\<close>, \<^verbatim>\<open>mission_controller.py\<close> of
  \<^verbatim>\<open>smartcar_bringup\<close>), which has watchdogs and an emergency stop of its own.

  \<^bold>\<open>How it is modelled.\<close> Data are records and datatypes with the source's names; a function of the source is a definition that takes the
  state and returns it, with a result of type \<open>'a result\<close>, a sum whose left side is the exception raised. What is not under
  \<^verbatim>\<open>src/\<close> is an argument: answers of ROS, of the operating system, of clocks and of the C library (record \<open>libm\<close>). Threads are
  cut into the regions between which another thread can run, and each region is one rule of an inductive step relation,
  so that a property of all reachable states holds for every interleaving. A few fields are history variables, which the code
  does not have; the theory that adds one says so.

  \<^bold>\<open>The theories.\<close>
  \<^item> \<open>Prelude\<close> (exceptions, results, dictionaries as association lists, anchored regular expressions), \<open>PyFloat\<close> (binary64 with
    rounding to nearest even over the rationals, by the locale \<open>rounding\<close>), \<open>PyValue\<close> (dynamically typed values as documents decode to
    them), \<open>Machines\<close> (the locales \<open>machine\<close>, a step relation with an invariant, and \<open>latching\<close>, a condition no step
    clears and under which an activity stands still; every component with steps interprets them).
  \<^item> \<open>Profiles\<close>: \<^verbatim>\<open>profiles/models.py\<close> and \<^verbatim>\<open>loader.py\<close>; a loaded profile is well formed, a well-formed one loads.
  \<^item> \<open>Safety\<close>, \<open>Gateway\<close>, \<open>Challenge\<close>: \<^verbatim>\<open>safety/state.py\<close>, \<^verbatim>\<open>outcome.py\<close>, \<^verbatim>\<open>gateway.py\<close>, \<^verbatim>\<open>supervisor.py\<close>, \<^verbatim>\<open>challenge.py\<close>. The gateway
    implements an abstract authorization machine; expired runs are stopped; a challenge counts once.
  \<^item> \<open>CommandLine\<close>: \<^verbatim>\<open>cli.py\<close>, the operator's commands over the profiles, the discovery, the gateway and the challenge; a challenge needs an
    operator at a terminal, and only a supported profile is validated.
  \<^item> \<open>ReleaseChecks\<close>: the scripts \<^verbatim>\<open>verify_release_artifacts.py\<close> and \<^verbatim>\<open>verify_release_candidate.py\<close>; exactly what they accept.
  \<^item> \<open>Sequencer\<close>: \<^verbatim>\<open>safety/sequencer.py\<close>, each region under its lock a step. No command starts after the latch; it implements a gate of two flags.
  \<^item> \<open>Discovery\<close>: \<^verbatim>\<open>discovery/models.py\<close>, \<^verbatim>\<open>inference.py\<close>, \<^verbatim>\<open>ros_graph.py\<close>; capabilities are named exactly when offered,
    documents of a snapshot read back, the native probe releases what it acquires.
  \<^item> \<open>AuditLog\<close>, \<open>AuditWorker\<close>: \<^verbatim>\<open>runtime/audit.py\<close>; an append is all or nothing, the reader accepts what the writer writes, the
    check of the history accepts exactly complete sessions, and a failed worker appends nothing more.
  \<^item> \<open>TransitionLog\<close>, \<open>Drain\<close>, \<open>Actions\<close>, \<open>RuntimeController\<close>, \<open>ControllerRules\<close>, \<open>ControllerSafety\<close>, \<open>ControllerClaims\<close>,
    \<open>MissionBudget\<close>, \<open>SessionStart\<close>: \<^verbatim>\<open>runtime/controller.py\<close> and \<^verbatim>\<open>runtime/terminal_evidence.py\<close>. The transition log is a step relation of concurrent
    regions; \<open>Drain\<close> is one thread's call of the drain against it; \<open>Actions\<close> is a small monad of actions on the controller's
    state, in whose turns other threads may move the log; \<open>RuntimeController\<close> has one action per handler;
    the last theories prove the handlers' properties from specifications of their steps.
  \<^item> \<open>Adapter\<close>, \<open>EmergencyChannel\<close>: \<^verbatim>\<open>adapters/base.py\<close>, \<^verbatim>\<open>_safety.py\<close>; \<open>Nav2\<close>, \<open>Twist\<close>, \<open>AdapterFactory\<close>:
    \<^verbatim>\<open>nav2.py\<close>, \<^verbatim>\<open>twist.py\<close>, \<^verbatim>\<open>factory.py\<close>; \<open>HospitalTransport\<close>, \<open>HospitalLifecycle\<close>: \<^verbatim>\<open>hospital.py\<close>,
    \<^verbatim>\<open>hospital_process.py\<close>. The emergency channel runs next to the sequencer; no goal and no velocity outlives a stop but in the windows the
    theories name; the factory leaks nothing; after the latch nothing of the demonstration is started.
  \<^item> \<open>Evidence\<close>: \<^verbatim>\<open>runtime/evidence.py\<close>; a report is written whole or not at all and reads back, a read is not torn by other writers.
  \<^item> \<open>McpServer\<close>, \<open>McpRuntime\<close>: \<^verbatim>\<open>mcp_server/ros2_mcp_server.py\<close>; the answers of the tools follow their schemas, what the
    controller's handlers return is what the agent gets, and the process owns one controller at a time.
  \<^item> \<open>Mission\<close>, \<open>MissionNode\<close>: \<^verbatim>\<open>controller_core.py\<close> and \<^verbatim>\<open>mission_controller.py\<close> on binary64; commands are
    finite and within the limits, zero unless everything is clear, and a success is an arrival.
  \<^item> \<open>Acceptance\<close>, \<open>AcceptanceMetrics\<close>, \<open>AcceptanceRun\<close>, \<open>AcceptanceDemo\<close>: \<^verbatim>\<open>scripts/verify_acceptance.py\<close> of the demonstration: its data and the
    validation of a report, the metrics from odometry, the monitor with its loops, and a run on which they are evaluated. An accepted report
    is evidence of the mission, and a report that passes stands for messages that were received.
  \<^item> \<open>ToolSequence\<close>: \<^verbatim>\<open>scripts/run_via_mcp.py\<close> of the demonstration, an agent that runs the case through the tools; composed with the model of the
    server, a trace that says so stands for a case that was run, and a stop is asked whatever happens.
  \<^item> \<open>Processes\<close>, \<open>ProjectFiles\<close>, \<open>ProjectLifecycle\<close>, \<open>ProjectMachine\<close>, \<open>LaunchMachine\<close>: \<^verbatim>\<open>scripts/codex_project.py\<close> of the demonstration: what
    \<^verbatim>\<open>/proc\<close> says of a process and how one is ended, the files of the project, and its status, starts and stops, cut into the regions under
    its lock. Only the recorded process is signalled. \<open>ProjectMachine\<close> has the invariant over the files and a stop by triples
    for steps with exceptions, \<open>LaunchMachine\<close> any number of starts and stops with deaths in between: one launch at a time, and a stop that
    succeeds leaves none. \<open>ProjectGraph\<close> has the reports on the graph, the wait for it and the mission's commands: a start and a mission go on only
    with the mission's controller as the one publisher of velocities.
  \<^item> \<open>PyText\<close>: splitting of texts, their order, names of files.

  \<^bold>\<open>Loops.\<close> Nothing is cut off by fuel that the source does not have. \<open>write_all\<close> (an append) and \<open>drain_loop\<close> (a wait for the audit
  worker) are \<open>partial_function (option)\<close>, and that they return is a theorem: for the append when only finitely many writes
  are interrupted, for the drain, and so for every handler, when the deadlines it waits for pass. \<open>advance\<close> of the mission recurses
  on the waypoints that are left. The loop of \<open>status_loop\<close> is over the list of the moments at which it looks.
  \<open>poll_status\<close> (an agent's wait for the task), \<open>wait_gone\<close> (a wait for processes to end) and \<open>wait_for_graph\<close> are partial functions too, with the theorem that they
  return when the clock passes their deadlines.

  \<^bold>\<open>Bounds.\<close> Queues of 16 commands, histories and dispatch lists of 64 entries are the source's constants, and stay literal.
  Python's integers are \<open>int\<close>; its floats are binary64 without the sign of zero, which no definition here reads.

  \<^bold>\<open>Not modelled.\<close> Decoding of YAML and JSON, rclpy, subprocesses and the file system beyond the calls named: they are libraries, and
  arguments here. The framework of the MCP server, which checks the arguments of a call, the parsing of
  command lines, launch files and packaging: they hand on what the modelled parts decide. Of the demonstration's project script the build and the parsing of arguments, and an interrupt from
  the keyboard in the middle of a handoff (a finding says what it does); the scripts that take a picture and that check an environment.
\<close>

end
